(* ===== verification/Js_Prelude.thy ===== *)
theory Js_Prelude
  imports Main "HOL-Library.AList" "HOL-Library.List_Lexorder" "HOL-Library.Char_ord"
    "HOL-Library.Multiset" "HOL-Library.Sublist"
begin

text \<open>
  What the TypeScript sources use of the language and its standard library, shared by every
  component theory: exceptions as values of a sum type with early exit, \<open>for..of\<close> loops
  that may throw, insertion-ordered \<open>Set\<close> and \<open>Map\<close>, the string operations, the default and
  the comparator-driven \<open>Array.prototype.sort\<close>, and the contract of
  \<open>String.prototype.localeCompare\<close>, whose collation table belongs to the host.

  A JavaScript string is a list of code units; the model uses \<open>string\<close>, so code units up to
  255. A JavaScript \<open>Map\<close> is an association list in insertion order (\<open>AList.update\<close>
  overwrites in place and appends new keys, exactly as \<open>Map.prototype.set\<close> does).
\<close>

named_theorems result_simps \<open>early exit through the exception sum\<close>
named_theorems cmp_intros \<open>building comparators from comparators\<close>

section \<open>Exceptions and early exit\<close>

text \<open>An exception value: the class of the error object, its \<open>code\<close> and its \<open>message\<close>.\<close>

datatype exn = Exn (exn_class: string) (exn_code: string) (exn_message: string)

type_synonym 'a result = "exn + 'a"

definition TypeError :: "string \<Rightarrow> exn" where
  "TypeError msg = Exn ''TypeError'' '''' msg"

definition GenericError :: "string \<Rightarrow> exn" where
  "GenericError msg = Exn ''Error'' '''' msg"

lemma TypeError_eq [simp]: "TypeError a = TypeError b \<longleftrightarrow> a = b"
  by (simp add: TypeError_def)

lemma GenericError_eq [simp]: "GenericError a = GenericError b \<longleftrightarrow> a = b"
  by (simp add: GenericError_def)

text \<open>\<open>chain r f\<close>: run the rest of the body unless \<open>r\<close> has thrown.\<close>

definition chain :: "'e + 'a \<Rightarrow> ('a \<Rightarrow> 'e + 'b) \<Rightarrow> 'e + 'b" where
  "chain r f = (case r of Inl e \<Rightarrow> Inl e | Inr x \<Rightarrow> f x)"

text \<open>\<open>guard c e\<close>: the statement \<open>if (c) throw e\<close>.\<close>

definition guard :: "bool \<Rightarrow> 'e \<Rightarrow> 'e + unit" where
  "guard c e = (if c then Inl e else Inr ())"

lemma chain_simps [simp, result_simps]:
  "chain (Inl e) f = Inl e"
  "chain (Inr x) f = f x"
  by (simp_all add: chain_def)

lemma chain_eq_Inr [result_simps]:
  "chain r f = Inr y \<longleftrightarrow> (\<exists>x. r = Inr x \<and> f x = Inr y)"
  by (cases r) (simp_all add: chain_def)

lemma chain_eq_Inl [result_simps]:
  "chain r f = Inl e \<longleftrightarrow> r = Inl e \<or> (\<exists>x. r = Inr x \<and> f x = Inl e)"
  by (cases r) (simp_all add: chain_def)

lemma chain_assoc: "chain (chain r f) g = chain r (\<lambda>x. chain (f x) g)"
  by (cases r) simp_all

lemma chain_Inr: "chain r Inr = r"
  by (cases r) simp_all

lemma guard_simps [simp, result_simps]:
  "guard c e = Inr u \<longleftrightarrow> \<not> c"
  "guard c e = Inl e' \<longleftrightarrow> c \<and> e' = e"
  by (auto simp: guard_def)

lemma guard_eval [simp]:
  "guard True e = Inl e"
  "guard False e = Inr ()"
  by (simp_all add: guard_def)

lemma chain_cong [fundef_cong]:
  "r = r' \<Longrightarrow> (\<And>x. r' = Inr x \<Longrightarrow> f x = f' x) \<Longrightarrow> chain r f = chain r' f'"
  by (cases r') (simp_all add: chain_def)

text \<open>A \<open>for..of\<close> loop over an accumulated state whose body may throw.\<close>

fun for_each :: "('a \<Rightarrow> 's \<Rightarrow> 'e + 's) \<Rightarrow> 'a list \<Rightarrow> 's \<Rightarrow> 'e + 's" where
  "for_each f [] s = Inr s"
| "for_each f (x # xs) s = chain (f x s) (for_each f xs)"

lemma for_each_append:
  "for_each f (xs @ ys) s = chain (for_each f xs s) (for_each f ys)"
proof (induction xs arbitrary: s)
  case Nil
  show ?case by simp
next
  case (Cons x xs)
  show ?case by (cases "f x s") (simp_all add: Cons.IH)
qed

text \<open>The loop rule: an invariant kept by every successful body holds when the loop ends.\<close>

lemma for_each_invariant:
  assumes "for_each f xs s = Inr t" and "I s"
    and "\<And>x s t. x \<in> set xs \<Longrightarrow> I s \<Longrightarrow> f x s = Inr t \<Longrightarrow> I t"
  shows "I t"
  using assms
proof (induction xs arbitrary: s)
  case Nil
  then show ?case by simp
next
  case (Cons x xs)
  then obtain u where u: "f x s = Inr u" "for_each f xs u = Inr t"
    by (auto simp: chain_eq_Inr)
  have "I u" using Cons.prems(2) u(1) by (rule Cons.prems(3)[rotated]) simp
  then show ?case using u(2) Cons.prems(3) by (intro Cons.IH) auto
qed

section \<open>Sets and maps in insertion order\<close>

text \<open>\<open>[...new Set(xs)]\<close>: the first occurrence of each value, in order.\<close>

definition set_add :: "'a list \<Rightarrow> 'a \<Rightarrow> 'a list" where
  "set_add acc x = (if x \<in> set acc then acc else acc @ [x])"

definition js_set :: "'a list \<Rightarrow> 'a list" where
  "js_set xs = foldl set_add [] xs"

lemma set_set_add [simp]: "set (set_add acc x) = insert x (set acc)"
  by (auto simp: set_add_def)

lemma distinct_set_add [simp]: "distinct (set_add acc x) = distinct acc"
  by (simp add: set_add_def)

lemma set_foldl_set_add: "set (foldl set_add acc xs) = set acc \<union> set xs"
  by (induction xs arbitrary: acc) auto

lemma distinct_foldl_set_add: "distinct acc \<Longrightarrow> distinct (foldl set_add acc xs)"
  by (induction xs arbitrary: acc) auto

lemma set_js_set [simp]: "set (js_set xs) = set xs"
  by (simp add: js_set_def set_foldl_set_add)

lemma distinct_js_set [simp]: "distinct (js_set xs)"
  by (simp add: js_set_def distinct_foldl_set_add)

lemma foldl_set_add_distinct:
  "distinct (acc @ xs) \<Longrightarrow> foldl set_add acc xs = acc @ xs"
  by (induction xs arbitrary: acc) (auto simp: set_add_def)

lemma js_set_distinct: "distinct xs \<Longrightarrow> js_set xs = xs"
  by (simp add: js_set_def foldl_set_add_distinct)

lemma js_set_idem [simp]: "js_set (js_set xs) = js_set xs"
  by (rule js_set_distinct) simp

lemma js_set_Nil [simp]: "js_set [] = []"
  by (simp add: js_set_def)

lemma js_set_eq_Nil [simp]: "js_set xs = [] \<longleftrightarrow> xs = []"
  by (metis set_empty set_js_set)

lemma length_js_set: "length (js_set xs) = card (set xs)"
  by (metis distinct_card distinct_js_set set_js_set)

text \<open>\<open>stableUnique\<close> of several modules: \<open>[...new Set(values)].sort()\<close>.\<close>

definition stableUnique :: "string list \<Rightarrow> string list" where
  "stableUnique values = sort (js_set values)"

lemma stableUnique_canonical: "stableUnique xs = sorted_list_of_set (set xs)"
  by (simp add: stableUnique_def sorted_list_of_set_sort_remdups
      sorted_distinct_set_unique)

lemma set_stableUnique [simp]: "set (stableUnique xs) = set xs"
  by (simp add: stableUnique_def)

lemma distinct_stableUnique [simp]: "distinct (stableUnique xs)"
  by (simp add: stableUnique_def)

lemma sorted_stableUnique [simp]: "sorted (stableUnique xs)"
  by (simp add: stableUnique_def)

lemma stableUnique_eq_iff: "stableUnique xs = stableUnique ys \<longleftrightarrow> set xs = set ys"
  by (metis set_stableUnique stableUnique_canonical)

lemma stableUnique_idem [simp]: "stableUnique (stableUnique xs) = stableUnique xs"
  by (simp add: stableUnique_eq_iff)

lemma stableUnique_Nil [simp]: "stableUnique [] = []"
  by (simp add: stableUnique_def)

lemma stableUnique_eq_Nil [simp]: "stableUnique xs = [] \<longleftrightarrow> xs = []"
  by (metis set_empty set_stableUnique)

text \<open>\<open>Map.prototype.set\<close> on a list of entries, and the map built by a loop of them.\<close>

lemma map_of_update: "map_of (AList.update k v m) = (map_of m)(k \<mapsto> v)"
  by (rule update_conv')

lemma fst_update: "fst ` set (AList.update k v m) = insert k (fst ` set m)"
  by (induction m) auto

text \<open>\<open>new Map(entries)\<close>: a later entry overwrites the value of an earlier one in place.\<close>

definition js_map :: "('k \<times> 'v) list \<Rightarrow> ('k \<times> 'v) list" where
  "js_map entries = foldl (\<lambda>m kv. AList.update (fst kv) (snd kv) m) [] entries"

lemma map_of_foldl_update:
  "map_of (foldl (\<lambda>m kv. AList.update (fst kv) (snd kv) m) m es) = map_of m ++ map_of (rev es)"
  by (induction es arbitrary: m) (auto simp: map_of_update map_add_def split: option.splits)

lemma map_of_js_map: "map_of (js_map es) = map_of (rev es)"
  by (simp add: js_map_def map_of_foldl_update)

lemma map_of_js_map_distinct: "distinct (map fst es) \<Longrightarrow> map_of (js_map es) = map_of es"
  unfolding map_of_js_map by (metis distinct_map map_of_inject_set rev_map set_rev distinct_rev)

lemma distinct_fst_update:
  "distinct (map fst m) \<Longrightarrow> distinct (map fst (AList.update k v m))"
  by (rule distinct_update)

section \<open>Sorting with a comparator\<close>

text \<open>
  \<open>xs.sort(cmp)\<close>: stable since ES2019. For a comparator that is consistent (the locale
  \<open>comparator\<close> below) the result is determined: it is the stable sorted permutation, which
  insertion from the right computes.
\<close>

fun insort_cmp :: "('a \<Rightarrow> 'a \<Rightarrow> int) \<Rightarrow> 'a \<Rightarrow> 'a list \<Rightarrow> 'a list" where
  "insort_cmp cmp x [] = [x]"
| "insort_cmp cmp x (y # ys) =
     (if cmp x y \<le> 0 then x # y # ys else y # insort_cmp cmp x ys)"

definition js_sort :: "('a \<Rightarrow> 'a \<Rightarrow> int) \<Rightarrow> 'a list \<Rightarrow> 'a list" where
  "js_sort cmp xs = foldr (insort_cmp cmp) xs []"

lemma js_sort_simps [simp]:
  "js_sort cmp [] = []"
  "js_sort cmp (x # xs) = insort_cmp cmp x (js_sort cmp xs)"
  by (simp_all add: js_sort_def)

lemma mset_insort_cmp [simp]: "mset (insort_cmp cmp x ys) = add_mset x (mset ys)"
  by (induction ys) auto

lemma mset_js_sort [simp]: "mset (js_sort cmp xs) = mset xs"
  by (induction xs) auto

lemma set_insort_cmp [simp]: "set (insort_cmp cmp x ys) = insert x (set ys)"
  by (induction ys) auto

lemma set_js_sort [simp]: "set (js_sort cmp xs) = set xs"
  by (metis mset_js_sort set_mset_mset)

lemma length_js_sort [simp]: "length (js_sort cmp xs) = length xs"
  by (metis mset_js_sort size_mset)

lemma js_sort_eq_Nil [simp]: "js_sort cmp xs = [] \<longleftrightarrow> xs = []"
  by (metis length_0_conv length_js_sort)

lemma distinct_js_sort [simp]: "distinct (js_sort cmp xs) = distinct xs"
  by (metis mset_eq_imp_distinct_iff mset_js_sort)

lemma distinct_map_js_sort [simp]: "distinct (map f (js_sort cmp xs)) = distinct (map f xs)"
  by (metis mset_eq_imp_distinct_iff mset_js_sort mset_map)

lemma map_insort_cmp:
  "(\<And>x y. cmp (f x) (f y) = cmp x y) \<Longrightarrow> map f (insort_cmp cmp x ys) = insort_cmp cmp (f x) (map f ys)"
  for f :: "'a \<Rightarrow> 'a"
  by (induction ys) auto

lemma map_js_sort:
  "(\<And>x y. cmp (f x) (f y) = cmp x y) \<Longrightarrow> map f (js_sort cmp xs) = js_sort cmp (map f xs)"
  for f :: "'a \<Rightarrow> 'a"
  by (induction xs) (simp_all add: map_insort_cmp)

text \<open>The number comparator \<open>compareNumbers\<close> and the two ways comparators are combined.\<close>

definition cmp_by :: "('b \<Rightarrow> 'b \<Rightarrow> int) \<Rightarrow> ('a \<Rightarrow> 'b) \<Rightarrow> 'a \<Rightarrow> 'a \<Rightarrow> int" where
  "cmp_by cmp f x y = cmp (f x) (f y)"

definition cmp_then :: "('a \<Rightarrow> 'a \<Rightarrow> int) \<Rightarrow> ('a \<Rightarrow> 'a \<Rightarrow> int) \<Rightarrow> 'a \<Rightarrow> 'a \<Rightarrow> int" where
  "cmp_then c d x y = (let r = c x y in if r \<noteq> 0 then r else d x y)"

text \<open>
  ECMAScript's requirement on a comparator passed to \<open>sort\<close>: a total preorder, with equal
  signs the other way round.
\<close>

locale comparator =
  fixes cmp :: "'a \<Rightarrow> 'a \<Rightarrow> int"
  assumes cmp_swap: "sgn (cmp y x) = - sgn (cmp x y)"
    and cmp_trans: "cmp x y \<le> 0 \<Longrightarrow> cmp y z \<le> 0 \<Longrightarrow> cmp x z \<le> 0"
begin

lemma cmp_refl [simp]: "cmp x x = 0"
  using cmp_swap [of x x] by (simp add: sgn_if split: if_splits)

lemma cmp_flip: "cmp y x \<le> 0 \<longleftrightarrow> 0 \<le> cmp x y"
  using cmp_swap [of y x] by (auto simp: sgn_if split: if_splits)

lemma cmp_total: "cmp x y \<le> 0 \<or> cmp y x \<le> 0"
  using cmp_flip [of y x] by linarith

lemma cmp_zero_iff: "cmp x y = 0 \<longleftrightarrow> cmp x y \<le> 0 \<and> cmp y x \<le> 0"
  using cmp_flip [of y x] by linarith

lemma sorted_insort_cmp:
  "sorted_wrt (\<lambda>x y. cmp x y \<le> 0) ys \<Longrightarrow> sorted_wrt (\<lambda>x y. cmp x y \<le> 0) (insort_cmp cmp x ys)"
proof (induction ys)
  case Nil
  show ?case by simp
next
  case (Cons y ys)
  then show ?case using cmp_total [of x y] cmp_trans [of x y] by auto
qed

lemma sorted_js_sort: "sorted_wrt (\<lambda>x y. cmp x y \<le> 0) (js_sort cmp xs)"
  by (induction xs) (auto intro: sorted_insort_cmp)

lemma js_sort_sorted: "sorted_wrt (\<lambda>x y. cmp x y \<le> 0) xs \<Longrightarrow> js_sort cmp xs = xs"
proof (induction xs)
  case Nil
  show ?case by simp
next
  case (Cons x xs)
  then have "js_sort cmp xs = xs" by simp
  then show ?case using Cons.prems by (cases xs) auto
qed

lemma js_sort_idem [simp]: "js_sort cmp (js_sort cmp xs) = js_sort cmp xs"
  by (rule js_sort_sorted) (rule sorted_js_sort)

text \<open>The head of a sorted list is a least element.\<close>

lemma hd_js_sort_least:
  "js_sort cmp xs = y # ys \<Longrightarrow> x \<in> set xs \<Longrightarrow> cmp y x \<le> 0"
  using sorted_js_sort [of xs] set_js_sort [of cmp xs] by (cases "x = y") auto

lemma sorted_unique:
  assumes "sorted_wrt (\<lambda>x y. cmp x y \<le> 0) us" and "sorted_wrt (\<lambda>x y. cmp x y \<le> 0) vs"
    and "mset us = mset vs"
    and "\<And>x y. x \<in> set us \<Longrightarrow> y \<in> set us \<Longrightarrow> cmp x y = 0 \<Longrightarrow> x = y"
  shows "us = vs"
  using assms
proof (induction us arbitrary: vs)
  case Nil
  then show ?case by simp
next
  case (Cons u us)
  then obtain v ws where vs: "vs = v # ws" by (cases vs) auto
  have sets: "set (u # us) = set (v # ws)"
    using Cons.prems(3) unfolding vs by (rule mset_eq_setD)
  have "cmp u v \<le> 0"
  proof (cases "u = v")
    case False
    then have "v \<in> set us" using sets by auto
    then show ?thesis using Cons.prems(1) by simp
  qed simp
  moreover have "cmp v u \<le> 0"
  proof (cases "u = v")
    case False
    then have "u \<in> set ws" using sets by auto
    then show ?thesis using Cons.prems(2) unfolding vs by simp
  qed simp
  ultimately have "cmp u v = 0" by (simp add: cmp_zero_iff)
  then have "u = v" using Cons.prems(4) sets by auto
  moreover have "us = ws"
    using Cons.prems \<open>u = v\<close> unfolding vs by (intro Cons.IH) auto
  ultimately show ?case by (simp add: vs)
qed

lemma js_sort_perm:
  assumes "mset xs = mset ys"
    and "\<And>x y. x \<in> set xs \<Longrightarrow> y \<in> set xs \<Longrightarrow> cmp x y = 0 \<Longrightarrow> x = y"
  shows "js_sort cmp xs = js_sort cmp ys"
  using assms by (intro sorted_unique sorted_js_sort) auto

end

lemma comparator_by [cmp_intros]: "comparator cmp \<Longrightarrow> comparator (cmp_by cmp f)"
  unfolding comparator_def cmp_by_def by blast

lemma comparator_then [cmp_intros]:
  assumes "comparator c" and "comparator d"
  shows "comparator (cmp_then c d)"
proof
  fix x y z
  show "sgn (cmp_then c d y x) = - sgn (cmp_then c d x y)"
  proof -
    have c: "sgn (c y x) = - sgn (c x y)" by (rule comparator.cmp_swap [OF assms(1)])
    have d: "sgn (d y x) = - sgn (d x y)" by (rule comparator.cmp_swap [OF assms(2)])
    have "c y x = 0 \<longleftrightarrow> c x y = 0" using c by (metis neg_equal_0_iff_equal sgn_eq_0_iff)
    then show ?thesis using c d by (simp add: cmp_then_def Let_def)
  qed
  assume xy: "cmp_then c d x y \<le> 0" and yz: "cmp_then c d y z \<le> 0"
  note flip = comparator.cmp_flip [OF assms(1)]
  have cxy: "c x y \<le> 0" and cyz: "c y z \<le> 0"
    using xy yz by (auto simp: cmp_then_def Let_def split: if_splits)
  have cxz: "c x z \<le> 0" using cxy cyz by (rule comparator.cmp_trans [OF assms(1)])
  show "cmp_then c d x z \<le> 0"
  proof (cases "c x z = 0")
    case False
    then show ?thesis using cxz by (simp add: cmp_then_def)
  next
    case True
    then have "c z x \<le> 0" by (simp add: flip)
    then have "c y x \<le> 0" "c z y \<le> 0"
      using cxy cyz comparator.cmp_trans [OF assms(1)] by blast+
    then have "c x y = 0" "c y z = 0" using cxy cyz by (simp_all add: flip)
    then have "d x y \<le> 0" "d y z \<le> 0"
      using xy yz by (simp_all add: cmp_then_def)
    then have "d x z \<le> 0" by (rule comparator.cmp_trans [OF assms(2)])
    then show ?thesis using True by (simp add: cmp_then_def)
  qed
qed

lemma cmp_then_zero: "cmp_then c d x y = 0 \<longleftrightarrow> c x y = 0 \<and> d x y = 0"
  by (simp add: cmp_then_def Let_def)

text \<open>
  The sort keys of a list identify its elements: no two of them that differ have keys that compare
  equal. Sorting such a list by its keys gives one result for every order of its elements.
\<close>

definition keys_decide :: "('b \<Rightarrow> 'b \<Rightarrow> int) \<Rightarrow> ('a \<Rightarrow> 'b) \<Rightarrow> 'a list \<Rightarrow> bool" where
  "keys_decide cmp key xs \<longleftrightarrow> (\<forall>x \<in> set xs. \<forall>y \<in> set xs. cmp (key x) (key y) = 0 \<longrightarrow> x = y)"

lemma keys_decide_Nil [simp]: "keys_decide cmp key []"
  by (simp add: keys_decide_def)

lemma sort_decided_perm:
  assumes "comparator cmp" and "mset xs = mset ys" and "keys_decide cmp key xs"
  shows "js_sort (cmp_by cmp key) xs = js_sort (cmp_by cmp key) ys"
  using assms(3)
  by (intro comparator.js_sort_perm [OF comparator_by [OF assms(1)] assms(2)])
    (auto simp: keys_decide_def cmp_by_def)

end
