(* ===== verification/Js_String.thy ===== *)
theory Js_String
  imports Js_Prelude
begin

text \<open>
  JavaScript strings: the methods of \<open>String.prototype\<close> the sources call, decimal printing,
  the default sort order and the collation contract of \<open>localeCompare\<close>.
\<close>

section \<open>Order and collation\<close>

text \<open>Comparison of two values of a linear order as a JavaScript comparator.\<close>

definition order_compare :: "'a::linorder \<Rightarrow> 'a \<Rightarrow> int" where
  "order_compare x y = (if x < y then -1 else if y < x then 1 else 0)"

lemma order_compare_le: "order_compare x y \<le> 0 \<longleftrightarrow> x \<le> y"
  by (auto simp: order_compare_def)

lemma order_compare_zero [simp]: "order_compare x y = 0 \<longleftrightarrow> x = y"
  by (auto simp: order_compare_def)

lemma comparator_order_compare [cmp_intros]: "comparator order_compare"
  by unfold_locales (auto simp: order_compare_def split: if_splits)

text \<open>
  \<open>left.localeCompare(right)\<close>: ECMA-402 leaves the collation to the host, and requires a
  consistent comparison. The model passes the collation \<open>lc\<close> as an argument; the results rest
  on the two contracts below. Strictness (no two different strings collate equal) holds of the
  identifiers the sources compare, but not of strings that differ in an ignorable character.
\<close>

locale collation = comparator lc for lc :: "string \<Rightarrow> string \<Rightarrow> int"

locale strict_collation = collation +
  assumes lc_strict: "lc x y = 0 \<Longrightarrow> x = y"
begin

lemma lc_zero_iff [simp]: "lc x y = 0 \<longleftrightarrow> x = y"
  using lc_strict by auto

lemma sort_by_key_perm:
  assumes "mset xs = mset ys" and "inj_on key (set xs)"
  shows "js_sort (cmp_by lc key) xs = js_sort (cmp_by lc key) ys"
proof -
  have "comparator (cmp_by lc key)" by (rule comparator_by) (rule comparator_axioms)
  then show ?thesis using assms
    by (intro comparator.js_sort_perm) (auto simp: cmp_by_def inj_on_def)
qed

end

text \<open>The contracts, for a collation passed as an argument.\<close>

lemma strict_collation_comparator: "strict_collation lc \<Longrightarrow> comparator lc"
  unfolding strict_collation_def collation_def by blast

lemma strict_collation_collation: "strict_collation lc \<Longrightarrow> collation lc"
  unfolding strict_collation_def by blast

lemma strict_collation_zero: "strict_collation lc \<Longrightarrow> lc x y = 0 \<longleftrightarrow> x = y"
  by (rule strict_collation.lc_zero_iff)

text \<open>The default order of \<open>Array.prototype.sort\<close> compares code units.\<close>

definition code_unit_compare :: "string \<Rightarrow> string \<Rightarrow> int" where
  "code_unit_compare = order_compare"

interpretation code_units: strict_collation code_unit_compare
proof -
  have "comparator code_unit_compare"
    unfolding code_unit_compare_def by (rule comparator_order_compare)
  then show "strict_collation code_unit_compare"
    unfolding strict_collation_def collation_def strict_collation_axioms_def
    by (simp add: code_unit_compare_def)
qed

lemma js_sort_code_units: "js_sort code_unit_compare xs = sort xs"
proof -
  have "sorted (js_sort code_unit_compare xs)"
    using code_units.sorted_js_sort [of xs]
    by (simp add: code_unit_compare_def order_compare_le)
  then show ?thesis by (metis mset_js_sort properties_for_sort)
qed

section \<open>Numbers\<close>

text \<open>\<open>Number.isSafeInteger\<close> on an integer: within \<open>2 ^ 53 - 1\<close>, where doubles are exact.\<close>

definition isSafeInteger :: "int \<Rightarrow> bool" where
  "isSafeInteger v \<longleftrightarrow> - 9007199254740991 \<le> v \<and> v \<le> 9007199254740991"

section \<open>String methods\<close>

definition startsWith :: "string \<Rightarrow> string \<Rightarrow> bool" where
  "startsWith s p \<longleftrightarrow> take (length p) s = p"

lemma startsWith_prefix: "startsWith s p \<longleftrightarrow> prefix p s"
  by (auto simp: startsWith_def prefix_def) (metis append_take_drop_id)

lemma startsWith_append [simp]: "startsWith (p @ s) p"
  by (simp add: startsWith_def)

fun contains_sub :: "string \<Rightarrow> string \<Rightarrow> bool" where
  "contains_sub s [] = True"
| "contains_sub [] (p # ps) = False"
| "contains_sub (c # s) (p # ps) =
     (startsWith (c # s) (p # ps) \<or> contains_sub s (p # ps))"

lemma contains_sub_iff: "contains_sub s p \<longleftrightarrow> (\<exists>xs ys. s = xs @ p @ ys)"
proof (induction s p rule: contains_sub.induct)
  case (3 c s p ps)
  show ?case
  proof
    assume "contains_sub (c # s) (p # ps)"
    then consider "prefix (p # ps) (c # s)" | "contains_sub s (p # ps)"
      by (auto simp: startsWith_prefix)
    then show "\<exists>xs ys. c # s = xs @ (p # ps) @ ys"
    proof cases
      case 1
      then show ?thesis by (metis append_Nil prefix_def)
    next
      case 2
      then show ?thesis using "3" by (metis append_Cons)
    qed
  next
    assume "\<exists>xs ys. c # s = xs @ (p # ps) @ ys"
    then obtain xs ys where *: "c # s = xs @ (p # ps) @ ys" by blast
    show "contains_sub (c # s) (p # ps)"
    proof (cases xs)
      case Nil
      then show ?thesis using * by (auto simp: startsWith_prefix prefix_def)
    next
      case (Cons x xs')
      then have "contains_sub s (p # ps)" using * "3" by auto
      then show ?thesis by simp
    qed
  qed
qed auto

text \<open>White space removed by \<open>trim\<close> and matched by \<open>\s\<close>, among the code units below 256.\<close>

definition js_white :: "char \<Rightarrow> bool" where
  "js_white c \<longleftrightarrow> (of_char c :: nat) \<in> {9, 10, 11, 12, 13, 32, 160}"

definition js_trim :: "string \<Rightarrow> string" where
  "js_trim s = rev (dropWhile js_white (rev (dropWhile js_white s)))"

lemma set_js_trim: "set (js_trim s) \<subseteq> set s"
  by (auto simp: js_trim_def dest!: set_dropWhileD)

definition lower_char :: "char \<Rightarrow> char" where
  "lower_char c = (let n = (of_char c :: nat) in if 65 \<le> n \<and> n \<le> 90 then char_of (n + 32) else c)"

text \<open>\<open>/pattern/i.test(s)\<close> for a literal lower-case ASCII pattern.\<close>

definition contains_ci :: "string \<Rightarrow> string \<Rightarrow> bool" where
  "contains_ci s p = contains_sub (map lower_char s) p"

definition is_digit :: "char \<Rightarrow> bool" where
  "is_digit c \<longleftrightarrow> 48 \<le> (of_char c :: nat) \<and> (of_char c :: nat) \<le> 57"

definition is_letter :: "char \<Rightarrow> bool" where
  "is_letter c \<longleftrightarrow> 97 \<le> (of_char (lower_char c) :: nat) \<and> (of_char (lower_char c) :: nat) \<le> 122"

text \<open>\<open>s.replaceAll("\\", "/")\<close>.\<close>

definition slashes :: "string \<Rightarrow> string" where
  "slashes s = map (\<lambda>c. if c = CHR 0x5C then CHR ''/'' else c) s"

lemma slashes_idem [simp]: "slashes (slashes s) = slashes s"
  by (simp add: slashes_def)

lemma slashes_id: "CHR 0x5C \<notin> set s \<Longrightarrow> slashes s = s"
  by (induction s) (auto simp: slashes_def)

lemma no_backslash_slashes: "CHR 0x5C \<notin> set (slashes s)"
  by (auto simp: slashes_def)

text \<open>\<open>s.split(c)\<close> for a one-character separator, and \<open>xs.join(sep)\<close>.\<close>

fun js_split :: "char \<Rightarrow> string \<Rightarrow> string list" where
  "js_split c [] = [[]]"
| "js_split c (x # xs) =
     (if x = c then [] # js_split c xs
      else (case js_split c xs of [] \<Rightarrow> [[x]] | w # ws \<Rightarrow> (x # w) # ws))"

fun js_join :: "string \<Rightarrow> string list \<Rightarrow> string" where
  "js_join sep [] = []"
| "js_join sep [x] = x"
| "js_join sep (x # y # zs) = x @ sep @ js_join sep (y # zs)"

lemma js_split_neq_Nil [simp]: "js_split c s \<noteq> []"
  by (induction s) (auto split: list.splits)

lemma js_join_split: "js_join [c] (js_split c s) = s"
proof (induction s)
  case Nil
  show ?case by simp
next
  case (Cons x s)
  obtain w ws where w: "js_split c s = w # ws"
    by (meson js_split_neq_Nil list.exhaust)
  show ?case using Cons.IH by (cases ws) (simp_all add: w)
qed

lemma split_no_sep: "c \<notin> set s \<Longrightarrow> js_split c s = [s]"
  by (induction s) auto

lemma split_append_sep: "c \<notin> set s \<Longrightarrow> js_split c (s @ c # t) = s # js_split c t"
  by (induction s) auto

lemma js_split_join:
  "xs \<noteq> [] \<Longrightarrow> \<forall>x \<in> set xs. c \<notin> set x \<Longrightarrow> js_split c (js_join [c] xs) = xs"
  by (induction xs rule: induct_list012) (auto simp: split_no_sep split_append_sep)

lemma split_segments_no_sep: "w \<in> set (js_split c s) \<Longrightarrow> c \<notin> set w"
  by (induction s arbitrary: w) (fastforce split: list.splits if_splits)+

section \<open>Decimal numbers\<close>

definition digit_char :: "nat \<Rightarrow> char" where
  "digit_char n = char_of (48 + n)"

fun nat_str :: "nat \<Rightarrow> string" where
  "nat_str n = (if n < 10 then [digit_char n] else nat_str (n div 10) @ [digit_char (n mod 10)])"

declare nat_str.simps [simp del]

definition int_str :: "int \<Rightarrow> string" where
  "int_str i = (if i < 0 then CHR ''-'' # nat_str (nat (- i)) else nat_str (nat i))"

text \<open>\<open>Number(s)\<close> of a string of digits.\<close>

definition digit_val :: "char \<Rightarrow> nat" where
  "digit_val c = of_char c - 48"

definition digits_val :: "string \<Rightarrow> nat" where
  "digits_val s = foldl (\<lambda>n c. 10 * n + digit_val c) 0 s"

lemma of_digit_char: "n < 10 \<Longrightarrow> of_char (digit_char n) = 48 + n"
  by (simp add: digit_char_def)

lemma digit_val_char: "n < 10 \<Longrightarrow> digit_val (digit_char n) = n"
  by (simp add: digit_val_def of_digit_char)

lemma is_digit_char: "n < 10 \<Longrightarrow> is_digit (digit_char n)"
  by (simp add: is_digit_def of_digit_char)

lemma digits_val_snoc: "digits_val (s @ [c]) = 10 * digits_val s + digit_val c"
  by (simp add: digits_val_def)

lemma digits_val_nat_str [simp]: "digits_val (nat_str n) = n"
proof (induction n rule: nat_str.induct)
  case (1 n)
  show ?case
  proof (cases "n < 10")
    case True
    then show ?thesis
      by (subst nat_str.simps) (simp add: digits_val_def digit_val_char)
  next
    case False
    then have "digits_val (nat_str n) = 10 * digits_val (nat_str (n div 10)) + n mod 10"
      by (subst nat_str.simps) (simp add: digits_val_snoc digit_val_char)
    then show ?thesis using "1" False by simp
  qed
qed

lemma nat_str_inject [simp]: "nat_str m = nat_str n \<longleftrightarrow> m = n"
  by (metis digits_val_nat_str)

lemma nat_str_digits: "c \<in> set (nat_str n) \<Longrightarrow> is_digit c"
proof (induction n rule: nat_str.induct)
  case (1 n)
  show ?case
  proof (cases "n < 10")
    case True
    then show ?thesis using "1.prems"
      by (subst (asm) nat_str.simps) (simp add: is_digit_char)
  next
    case False
    then have "c \<in> set (nat_str (n div 10)) \<or> c = digit_char (n mod 10)"
      using "1.prems" by (subst (asm) nat_str.simps) auto
    then show ?thesis using "1.IH" False by (auto simp: is_digit_char)
  qed
qed

lemma nat_str_neq_Nil [simp]: "nat_str n \<noteq> []"
  by (subst nat_str.simps) simp

lemma not_digit_minus: "\<not> is_digit (CHR ''-'')"
  by (simp add: is_digit_def)

lemma int_str_inject [simp]: "int_str i = int_str j \<longleftrightarrow> i = j"
proof
  assume eq: "int_str i = int_str j"
  have minus: "nat_str n \<noteq> CHR ''-'' # s" for n s
    using nat_str_digits [of "CHR ''-''" n] not_digit_minus by auto
  show "i = j"
  proof (cases "i < 0")
    case True
    then have "j < 0" using eq minus [of "nat j" "nat_str (nat (- i))"]
      by (auto simp: int_str_def split: if_splits)
    then show ?thesis using eq True by (simp add: int_str_def)
  next
    case False
    then have "\<not> j < 0" using eq minus by (metis int_str_def)
    then show ?thesis using eq False by (simp add: int_str_def)
  qed
qed simp

end
