(* ===== verification/Canonical_Json.thy ===== *)
theory Canonical_Json
  imports Js_String
begin

text \<open>
  \<open>packages/contracts/src/canonical-json\<close> and \<open>digests\<close>: the canonical serialisation every
  content digest of the repository is taken of. \<open>json\<close> is the \<open>JsonValue\<close> type, with the finite
  numbers restricted to integers and all non-finite numbers in one constructor; a tree datatype
  has no cycles and only plain objects, so those two errors of \<open>serialize\<close> cannot arise.

  The main result is that the serialisation is injective up to the order of object keys, hence
  that a digest binds the whole value wherever SHA-256 has no collision.
\<close>

datatype json =
    JNull
  | JBool bool
  | JInt int
  | JNonFinite
  | JStr string
  | JArr "json list"
  | JObj "(string \<times> json) list"

section \<open>The serialiser\<close>

definition hex_digit :: "nat \<Rightarrow> char" where
  "hex_digit n = (if n < 10 then char_of (48 + n) else char_of (87 + n))"

text \<open>\<open>JSON.stringify\<close> on one code unit of a string.\<close>

definition json_escape :: "char \<Rightarrow> string" where
  "json_escape c =
     (let n = (of_char c :: nat) in
      if n = 34 then [CHR 0x5C, CHR 0x22]
      else if n = 92 then [CHR 0x5C, CHR 0x5C]
      else if n = 8 then [CHR 0x5C, CHR ''b'']
      else if n = 9 then [CHR 0x5C, CHR ''t'']
      else if n = 10 then [CHR 0x5C, CHR ''n'']
      else if n = 12 then [CHR 0x5C, CHR ''f'']
      else if n = 13 then [CHR 0x5C, CHR ''r'']
      else if n < 32 then
        [CHR 0x5C, CHR ''u'', CHR ''0'', CHR ''0'', hex_digit (n div 16), hex_digit (n mod 16)]
      else [c])"

definition json_quote :: "string \<Rightarrow> string" where
  "json_quote s = CHR 0x22 # concat (map json_escape s) @ [CHR 0x22]"

text \<open>\<open>xs.map(f)\<close> where \<open>f\<close> may throw.\<close>

fun map_result :: "('a \<Rightarrow> 'b result) \<Rightarrow> 'a list \<Rightarrow> 'b list result" where
  "map_result f [] = Inr []"
| "map_result f (x # xs) = chain (f x) (\<lambda>y. chain (map_result f xs) (\<lambda>ys. Inr (y # ys)))"

lemma map_result_cong [fundef_cong]:
  "xs = ys \<Longrightarrow> (\<And>x. x \<in> set ys \<Longrightarrow> f x = g x) \<Longrightarrow> map_result f xs = map_result g ys"
  by (induction xs arbitrary: ys) auto

lemma map_result_all_Inr:
  "(\<And>x. x \<in> set xs \<Longrightarrow> f x = Inr (g x)) \<Longrightarrow> map_result f xs = Inr (map g xs)"
  by (induction xs) auto

lemma json_size_entry [termination_simp]:
  "kv \<in> set kvs \<Longrightarrow> size (snd kv) < Suc (size_list (size_prod (\<lambda>_. 0) size) kvs)"
  by (induction kvs) (auto simp: size_prod_def split: prod.splits)

fun serialize :: "json \<Rightarrow> string result" where
  "serialize JNull = Inr ''null''"
| "serialize (JBool b) = Inr (if b then ''true'' else ''false'')"
| "serialize (JInt i) = Inr (int_str i)"
| "serialize JNonFinite = Inl (TypeError ''Canonical JSON does not support non-finite numbers.'')"
| "serialize (JStr s) = Inr (json_quote s)"
| "serialize (JArr vs) =
     chain (map_result serialize vs) (\<lambda>ss. Inr (''['' @ js_join '','' ss @ '']''))"
| "serialize (JObj kvs) =
     chain (map_result
         (\<lambda>kv. chain (serialize (snd kv)) (\<lambda>s. Inr (json_quote (fst kv) @ '':'' @ s)))
         (sort_key fst kvs))
       (\<lambda>ss. Inr (CHR 0x7B # js_join '','' ss @ [CHR 0x7D]))"

definition canonicalJson :: "json \<Rightarrow> string result" where
  "canonicalJson v = serialize v"

section \<open>Digests\<close>

text \<open>
  \<open>sha256Bytes\<close> and \<open>digestJson\<close>. The hash itself is the host's \<open>createHash("sha256")\<close>: the
  argument \<open>sha\<close> maps a text to the hexadecimal digest of its bytes.
\<close>

definition sha256Bytes :: "(string \<Rightarrow> string) \<Rightarrow> string \<Rightarrow> string" where
  "sha256Bytes sha v = ''sha256:'' @ sha v"

definition digestJson :: "(string \<Rightarrow> string) \<Rightarrow> json \<Rightarrow> string result" where
  "digestJson sha v = chain (canonicalJson v) (\<lambda>s. Inr (sha256Bytes sha s))"

text \<open>\<open>digest.slice("sha256:".length, "sha256:".length + n)\<close>.\<close>

definition digest_slice :: "nat \<Rightarrow> string \<Rightarrow> string" where
  "digest_slice n d = take n (drop 7 d)"

section \<open>Normal forms and printing\<close>

text \<open>The value with every object's keys in order, and the text of a value in its own order.\<close>

fun normalize_json :: "json \<Rightarrow> json" where
  "normalize_json (JArr vs) = JArr (map normalize_json vs)"
| "normalize_json (JObj kvs) =
     JObj (map (\<lambda>kv. (fst kv, normalize_json (snd kv))) (sort_key fst kvs))"
| "normalize_json v = v"

fun print_json :: "json \<Rightarrow> string" where
  "print_json JNull = ''null''"
| "print_json (JBool b) = (if b then ''true'' else ''false'')"
| "print_json (JInt i) = int_str i"
| "print_json JNonFinite = ''''"
| "print_json (JStr s) = json_quote s"
| "print_json (JArr vs) = ''['' @ js_join '','' (map print_json vs) @ '']''"
| "print_json (JObj kvs) =
     CHR 0x7B # js_join '','' (map (\<lambda>kv. json_quote (fst kv) @ '':'' @ print_json (snd kv)) kvs)
       @ [CHR 0x7D]"

text \<open>Every number in the value is finite.\<close>

fun finite_json :: "json \<Rightarrow> bool" where
  "finite_json JNonFinite = False"
| "finite_json (JArr vs) = (\<forall>v \<in> set vs. finite_json v)"
| "finite_json (JObj kvs) = (\<forall>kv \<in> set kvs. finite_json (snd kv))"
| "finite_json v = True"

lemma map_result_Inl_exists:
  "map_result f xs = Inl e \<Longrightarrow> \<exists>x \<in> set xs. f x = Inl e"
  by (induction xs) (auto simp: result_simps)

lemma map_result_Inr_all:
  "map_result f xs = Inr ys \<Longrightarrow> x \<in> set xs \<Longrightarrow> \<exists>y. f x = Inr y"
  by (induction xs arbitrary: ys) (auto simp: result_simps)

lemma serialize_print: "finite_json v \<Longrightarrow> serialize v = Inr (print_json (normalize_json v))"
proof (induction v)
  case (JArr vs)
  then have "map_result serialize vs = Inr (map (\<lambda>v. print_json (normalize_json v)) vs)"
    by (intro map_result_all_Inr) auto
  then show ?case by (simp add: comp_def)
next
  case (JObj kvs)
  let ?f = "\<lambda>kv. chain (serialize (snd kv)) (\<lambda>s. Inr (json_quote (fst kv) @ '':'' @ s))"
  let ?g = "\<lambda>kv. json_quote (fst kv) @ '':'' @ print_json (normalize_json (snd kv))"
  have "map_result ?f (sort_key fst kvs) = Inr (map ?g (sort_key fst kvs))"
  proof (rule map_result_all_Inr)
    fix kv assume "kv \<in> set (sort_key fst kvs)"
    then have "kv \<in> set kvs" by simp
    then have "serialize (snd kv) = Inr (print_json (normalize_json (snd kv)))"
      using JObj by (metis finite_json.simps(3) snds.simps surjective_pairing)
    then show "?f kv = Inr (?g kv)" by simp
  qed
  then show ?case by (simp add: comp_def)
qed auto

lemma serialize_Inr_finite: "serialize v = Inr s \<Longrightarrow> finite_json v"
proof (induction v arbitrary: s)
  case (JArr vs)
  then show ?case by (auto simp: result_simps dest!: map_result_Inr_all)
next
  case (JObj kvs)
  then obtain ss where ss: "map_result
      (\<lambda>kv. chain (serialize (snd kv)) (\<lambda>s. Inr (json_quote (fst kv) @ '':'' @ s)))
      (sort_key fst kvs) = Inr ss"
    by (auto simp: result_simps)
  have "finite_json (snd kv)" if "kv \<in> set kvs" for kv
  proof -
    have "kv \<in> set (sort_key fst kvs)" using that by simp
    from map_result_Inr_all [OF ss this] obtain t where "serialize (snd kv) = Inr t"
      by (auto simp: result_simps)
    then show ?thesis using JObj.IH that by (metis snds.simps surjective_pairing)
  qed
  then show ?case by simp
qed auto

lemma serialize_eq_Inr_iff:
  "serialize v = Inr s \<longleftrightarrow> finite_json v \<and> s = print_json (normalize_json v)"
  using serialize_print serialize_Inr_finite by fastforce

lemma normalize_json_idem [simp]: "normalize_json (normalize_json v) = normalize_json v"
proof (induction v)
  case (JObj kvs)
  let ?n = "\<lambda>kv. (fst kv, normalize_json (snd kv))"
  have "sort_key fst (map ?n (sort_key fst kvs)) = map ?n (sort_key fst kvs)"
    by (rule sort_key_id_if_sorted) (simp add: comp_def)
  moreover have "\<And>kv. kv \<in> set kvs \<Longrightarrow> normalize_json (normalize_json (snd kv)) = normalize_json (snd kv)"
    using JObj.IH by (metis snds.simps surjective_pairing)
  ultimately show ?case by simp
qed auto


section \<open>The text determines the value\<close>

text \<open>A printed value in a larger text ends where a delimiter starts.\<close>

definition delimited :: "string \<Rightarrow> bool" where
  "delimited xs \<longleftrightarrow> xs = [] \<or> hd xs \<in> {CHR '','', CHR '']'', CHR 0x7D}"

lemma delimited_simps [simp]:
  "delimited []"
  "delimited (c # xs) \<longleftrightarrow> c \<in> {CHR '','', CHR '']'', CHR 0x7D}"
  by (simp_all add: delimited_def)

lemma json_escape_neq_Nil [simp]: "json_escape c \<noteq> []"
  by (simp add: json_escape_def Let_def)

lemma json_escape_hd: "hd (json_escape c) \<noteq> CHR 0x22"
  by (auto simp: json_escape_def Let_def of_char_eq_iff)

lemma json_escape_not_quote:
  "json_escape c @ xs \<noteq> CHR 0x22 # ys" "CHR 0x22 # ys \<noteq> json_escape c @ xs"
  using json_escape_hd [of c] json_escape_neq_Nil [of c] by (metis hd_append2 list.sel(1))+

lemma hex_digit_inj: "m < 16 \<Longrightarrow> n < 16 \<Longrightarrow> hex_digit m = hex_digit n \<Longrightarrow> m = n"
proof -
  assume "m < 16" "n < 16" "hex_digit m = hex_digit n"
  then have "(of_char (hex_digit m) :: nat) = of_char (hex_digit n)" by simp
  with \<open>m < 16\<close> \<open>n < 16\<close> show "m = n"
    by (auto simp: hex_digit_def split: if_splits)
qed

text \<open>The escapes of two characters agree only on the same character, whatever follows.\<close>

lemma json_escape_hex_iff:
  "(of_char c :: nat) < 32 \<Longrightarrow> (of_char c :: nat) \<notin> {8, 9, 10, 12, 13} \<Longrightarrow>
   json_escape c = [CHR 0x5C, CHR ''u'', CHR ''0'', CHR ''0'',
     hex_digit (of_char c div 16), hex_digit (of_char c mod 16)]"
  by (simp add: json_escape_def Let_def)

lemma json_escape_cases:
  obtains (short) k where "json_escape c = [CHR 0x5C, k]" "k \<noteq> CHR ''u''"
      "(k, of_char c :: nat) \<in> {(CHR 0x22, 34), (CHR 0x5C, 92), (CHR ''b'', 8), (CHR ''t'', 9),
         (CHR ''n'', 10), (CHR ''f'', 12), (CHR ''r'', 13)}"
  | (hex) "json_escape c = [CHR 0x5C, CHR ''u'', CHR ''0'', CHR ''0'',
       hex_digit (of_char c div 16), hex_digit (of_char c mod 16)]" "(of_char c :: nat) < 32"
  | (plain) "json_escape c = [c]" "c \<noteq> CHR 0x5C"
proof (cases "(of_char c :: nat) \<in> {34, 92, 8, 9, 10, 12, 13}")
  case True
  then show ?thesis by (elim insertE; intro short) (simp_all add: json_escape_def)
next
  case False
  show ?thesis
  proof (cases "(of_char c :: nat) < 32")
    case True
    with False show ?thesis by (intro hex json_escape_hex_iff) auto
  next
    case lt: False
    have "c \<noteq> CHR 0x5C" using False by (auto simp: of_char_eq_iff)
    then show ?thesis using False lt by (intro plain) (simp_all add: json_escape_def Let_def)
  qed
qed

lemma json_escape_prefix_free:
  assumes "json_escape c @ xs = json_escape d @ ys"
  shows "c = d \<and> xs = ys"
proof (cases c rule: json_escape_cases)
  case (short k)
  then show ?thesis
  proof (cases d rule: json_escape_cases)
    case (short k')
    have "k = k'" "xs = ys" using assms short \<open>json_escape c = [CHR 0x5C, k]\<close> by simp_all
    then have "(of_char c :: nat) = of_char d"
      using short(3) \<open>(k, of_char c) \<in> _\<close> by (auto simp del: of_char_eq_iff)
    then show ?thesis using \<open>xs = ys\<close> by simp
  qed (use assms short in auto)
next
  case hex
  then show ?thesis
  proof (cases d rule: json_escape_cases)
    case hex': hex
    have eqs: "hex_digit (of_char c div 16) = hex_digit (of_char d div 16)"
      "hex_digit (of_char c mod 16) = hex_digit (of_char d mod 16)" "xs = ys"
      using assms hex(1) hex'(1) by simp_all
    have "(of_char c div 16 :: nat) = of_char d div 16"
      using eqs(1) hex(2) hex'(2) by (intro hex_digit_inj) auto
    moreover have "(of_char c mod 16 :: nat) = of_char d mod 16"
      using eqs(2) by (intro hex_digit_inj) auto
    ultimately have "(of_char c :: nat) = of_char d" by (metis div_mult_mod_eq)
    then show ?thesis using eqs(3) by simp
  qed (use assms hex in auto)
next
  case plain
  then show ?thesis by (cases d rule: json_escape_cases) (use assms plain in auto)
qed

lemma json_quote_unique:
  assumes "json_quote s @ xs = json_quote t @ ys"
  shows "s = t \<and> xs = ys"
proof -
  have "concat (map json_escape s) @ CHR 0x22 # xs = concat (map json_escape t) @ CHR 0x22 # ys"
    using assms by (simp add: json_quote_def)
  then show ?thesis
  proof (induction s arbitrary: t)
    case Nil
    show ?case
    proof (cases t)
      case (Cons d t')
      then show ?thesis using Nil json_escape_not_quote by simp
    qed (use Nil in simp)
  next
    case (Cons c s)
    show ?case
    proof (cases t)
      case Nil
      then show ?thesis using Cons.prems json_escape_not_quote [where c = c] by simp
    next
      case (Cons d t')
      have "json_escape c @ concat (map json_escape s) @ CHR 0x22 # xs =
          json_escape d @ concat (map json_escape t') @ CHR 0x22 # ys"
        using Cons.prems Cons by simp
      from json_escape_prefix_free [OF this]
      have "c = d" "concat (map json_escape s) @ CHR 0x22 # xs =
          concat (map json_escape t') @ CHR 0x22 # ys" by auto
      then show ?thesis using Cons.IH Cons by blast
    qed
  qed
qed


lemma js_join_Cons: "js_join sep (x # xs) = x @ (if xs = [] then [] else sep @ js_join sep xs)"
  by (cases xs) simp_all

text \<open>Comma-separated elements between brackets are read back one by one.\<close>

lemma join_unique:
  assumes "js_join '','' (map f vs) @ e # xs = js_join '','' (map f ws) @ e # ys"
    and "e = CHR '']'' \<or> e = CHR 0x7D"
    and "\<And>v w xs ys. v \<in> set vs \<Longrightarrow> w \<in> set ws \<Longrightarrow> f v @ xs = f w @ ys \<Longrightarrow>
       delimited xs \<Longrightarrow> delimited ys \<Longrightarrow> v = w \<and> xs = ys"
    and "\<And>v. v \<in> set vs \<union> set ws \<Longrightarrow> \<not> delimited (f v)"
  shows "vs = ws \<and> xs = ys"
  using assms
proof (induction vs arbitrary: ws)
  case Nil
  show ?case
  proof (cases ws)
    case (Cons w ws')
    then have "\<not> delimited (f w)" using Nil.prems(4) by simp
    then show ?thesis using Nil.prems(1,2) Cons
      by (cases "f w") (auto simp: js_join_Cons)
  qed (use Nil in simp)
next
  case (Cons v vs)
  show ?case
  proof (cases ws)
    case Nil
    have "\<not> delimited (f v)" using Cons.prems(4) by simp
    then show ?thesis using Cons.prems(1,2) Nil
      by (cases "f v") (auto simp: js_join_Cons)
  next
    case ws: (Cons w ws')
    let ?rest = "\<lambda>us zs. (if us = [] then [] else '','' @ js_join '','' (map f us)) @ e # zs"
    have eq: "f v @ ?rest vs xs = f w @ ?rest ws' ys"
      using Cons.prems(1) ws by (simp add: js_join_Cons split: if_splits)
    have "delimited (?rest us zs)" for us zs using Cons.prems(2) by auto
    then have "v = w" and rest: "?rest vs xs = ?rest ws' ys"
      using Cons.prems(3) [OF _ _ eq] ws by auto
    show ?thesis
    proof (cases "vs = []")
      case True
      then show ?thesis using rest Cons.prems(2) \<open>v = w\<close> ws by (auto split: if_splits)
    next
      case False
      then have "ws' \<noteq> []" using rest Cons.prems(2) by (auto split: if_splits)
      then have "js_join '','' (map f vs) @ e # xs = js_join '','' (map f ws') @ e # ys"
        using rest False by simp
      then have "vs = ws' \<and> xs = ys"
        using Cons.prems(2-4) ws by (intro Cons.IH) auto
      then show ?thesis using \<open>v = w\<close> ws by simp
    qed
  qed
qed

lemma int_str_chars: "c \<in> set (int_str i) \<Longrightarrow> is_digit c \<or> c = CHR ''-''"
  by (auto simp: int_str_def dest: nat_str_digits split: if_splits)

lemma int_str_neq_Nil [simp]: "int_str i \<noteq> []"
  by (simp add: int_str_def)

lemma int_str_Cons: "int_str i @ xs = c # ys \<Longrightarrow> is_digit c \<or> c = CHR ''-''"
  using int_str_chars [of "hd (int_str i)" i] by (cases "int_str i") auto

lemma int_str_unique:
  assumes "int_str i @ xs = int_str j @ ys" and "delimited xs" and "delimited ys"
  shows "i = j \<and> xs = ys"
proof -
  let ?P = "\<lambda>c. is_digit c \<or> c = CHR ''-''"
  have tw: "takeWhile ?P (int_str k @ zs) = int_str k" if "delimited zs" for k zs
  proof -
    have "takeWhile ?P zs = []" using that by (cases zs) (auto simp: is_digit_def)
    moreover have "takeWhile ?P (int_str k) = int_str k"
      using int_str_chars by (simp add: takeWhile_eq_all_conv)
    ultimately show ?thesis using int_str_chars by (subst takeWhile_append2) auto
  qed
  have "int_str i = int_str j" using tw assms by metis
  then show ?thesis using assms(1) by simp
qed

text \<open>The first character of a text tells which kind of value it prints.\<close>

fun json_kind :: "json \<Rightarrow> nat" where
  "json_kind JNull = 0"
| "json_kind (JBool b) = 1"
| "json_kind (JInt i) = 2"
| "json_kind JNonFinite = 3"
| "json_kind (JStr s) = 4"
| "json_kind (JArr vs) = 5"
| "json_kind (JObj kvs) = 6"

definition char_kind :: "char \<Rightarrow> nat" where
  "char_kind c =
     (if c = CHR ''n'' then 0 else if c = CHR ''t'' \<or> c = CHR ''f'' then 1
      else if c = CHR 0x22 then 4 else if c = CHR ''['' then 5 else if c = CHR 0x7B then 6 else 2)"

lemma hd_int_str: "is_digit (hd (int_str i)) \<or> hd (int_str i) = CHR ''-''"
  using int_str_chars [of "hd (int_str i)" i] by simp

lemma print_json_kind:
  "finite_json v \<Longrightarrow> print_json v \<noteq> [] \<and> char_kind (hd (print_json v)) = json_kind v"
proof (cases v)
  case (JInt i)
  then show ?thesis using hd_int_str [of i] by (auto simp: char_kind_def is_digit_def)
qed (auto simp: char_kind_def json_quote_def)

lemma print_json_same_kind:
  assumes "finite_json v" and "finite_json w" and "print_json v @ xs = print_json w @ ys"
  shows "json_kind v = json_kind w"
proof -
  have "hd (print_json v) = hd (print_json v @ xs)" "hd (print_json w) = hd (print_json w @ ys)"
    using assms(1,2) print_json_kind by simp_all
  then show ?thesis using assms print_json_kind by metis
qed

lemma print_json_not_delimited: "finite_json v \<Longrightarrow> \<not> delimited (print_json v)"
proof (cases v)
  case (JInt i)
  show ?thesis
  proof
    assume "delimited (print_json v)"
    then have "hd (int_str i) \<in> {CHR '','', CHR '']'', CHR 0x7D}"
      unfolding JInt by (cases "int_str i") auto
    then show False using hd_int_str [of i] by (auto simp: is_digit_def)
  qed
qed (simp_all add: json_quote_def)

lemma print_json_unique:
  "finite_json v \<Longrightarrow> finite_json w \<Longrightarrow> print_json v @ xs = print_json w @ ys \<Longrightarrow>
   delimited xs \<Longrightarrow> delimited ys \<Longrightarrow> v = w \<and> xs = ys"
proof (induction v arbitrary: w xs ys)
  case JNull
  then have "w = JNull" using print_json_same_kind [OF JNull(1-3)] by (cases w) simp_all
  then show ?case using JNull by simp
next
  case (JBool b)
  then obtain c where "w = JBool c"
    using print_json_same_kind [OF JBool(1-3)] by (cases w) simp_all
  then show ?case using JBool(3) by (simp split: if_splits)
next
  case (JInt i)
  then obtain j where "w = JInt j"
    using print_json_same_kind [OF JInt(1-3)] by (cases w) simp_all
  then show ?case using int_str_unique [of i xs j ys] JInt(3-5) by simp
next
  case JNonFinite
  then show ?case by simp
next
  case (JStr s)
  then obtain t where "w = JStr t"
    using print_json_same_kind [OF JStr(1-3)] by (cases w) simp_all
  then show ?case using json_quote_unique [of s xs t ys] JStr(3) by simp
next
  case (JArr vs)
  then obtain ws where w: "w = JArr ws"
    using print_json_same_kind [OF JArr(2-4)] by (cases w) simp_all
  have "js_join '','' (map print_json vs) @ CHR '']'' # xs =
      js_join '','' (map print_json ws) @ CHR '']'' # ys"
    using JArr.prems(3) w by simp
  then have "vs = ws \<and> xs = ys"
  proof (rule join_unique)
    show "v = u \<and> xs' = ys'" if "v \<in> set vs" "u \<in> set ws" "print_json v @ xs' = print_json u @ ys'"
      "delimited xs'" "delimited ys'" for v u xs' ys'
      using JArr.IH [OF that(1) _ _ that(3-5)] that(1,2) JArr.prems(1,2) w by simp
    show "\<not> delimited (print_json v)" if "v \<in> set vs \<union> set ws" for v
      using that JArr.prems(1,2) w print_json_not_delimited [of v] by auto
  qed simp
  then show ?case using w by simp
next
  case (JObj kvs)
  then obtain lvs where w: "w = JObj lvs"
    using print_json_same_kind [OF JObj(2-4)] by (cases w) simp_all
  let ?f = "\<lambda>kv. json_quote (fst kv) @ '':'' @ print_json (snd kv)"
  have elems: "kv = lv \<and> xs' = ys'"
    if "kv \<in> set kvs" "lv \<in> set lvs" "?f kv @ xs' = ?f lv @ ys'"
      "delimited xs'" "delimited ys'" for kv lv xs' ys'
  proof -
    have q: "json_quote (fst kv) @ ('':'' @ print_json (snd kv) @ xs') =
        json_quote (fst lv) @ ('':'' @ print_json (snd lv) @ ys')"
      using that(3) by simp
    have fst_eq: "fst kv = fst lv"
      and eq: "print_json (snd kv) @ xs' = print_json (snd lv) @ ys'"
      using json_quote_unique [OF q] by simp_all
    have fin: "finite_json (snd kv)" "finite_json (snd lv)"
      using JObj.prems(1,2) w that(1,2) by auto
    have "snd kv \<in> Basic_BNFs.snds kv" by (simp add: snds.simps)
    then have "snd kv = snd lv \<and> xs' = ys'"
      using JObj.IH [OF that(1) _ fin eq that(4,5)] by simp
    then show ?thesis using fst_eq by (simp add: prod_eq_iff)
  qed
  have "js_join '','' (map ?f kvs) @ CHR 0x7D # xs = js_join '','' (map ?f lvs) @ CHR 0x7D # ys"
    using JObj.prems(3) w by simp
  then have "kvs = lvs \<and> xs = ys"
  proof (rule join_unique)
    show "kv = lv \<and> xs' = ys'" if "kv \<in> set kvs" "lv \<in> set lvs" "?f kv @ xs' = ?f lv @ ys'"
      "delimited xs'" "delimited ys'" for kv lv xs' ys'
      using that by (rule elems)
    show "\<not> delimited (?f kv)" for kv by (simp add: json_quote_def)
  qed simp
  then show ?case using w by simp
qed

lemma finite_normalize_json [simp]: "finite_json (normalize_json v) = finite_json v"
proof (induction v)
  case (JObj kvs)
  then show ?case by (fastforce simp: snds.simps)
qed auto

theorem print_json_inject:
  "finite_json v \<Longrightarrow> finite_json w \<Longrightarrow> print_json v = print_json w \<Longrightarrow> v = w"
  using print_json_unique [of v w "[]" "[]"] by simp

lemma canonicalJson_inject:
  assumes "canonicalJson v = Inr s" and "canonicalJson w = Inr s"
  shows "normalize_json v = normalize_json w"
  using assms unfolding canonicalJson_def serialize_eq_Inr_iff
  by (metis finite_normalize_json print_json_inject)

lemma canonicalJson_eq_Inr_iff:
  "canonicalJson v = Inr s \<longleftrightarrow> finite_json v \<and> s = print_json (normalize_json v)"
  by (simp add: canonicalJson_def serialize_eq_Inr_iff)

text \<open>
  The canonical text of a value, and the assumption on the hash that digest comparisons rest on:
  two canonical texts with the same SHA-256 are the same text.
\<close>

definition json_text :: "json \<Rightarrow> string" where
  "json_text v = print_json (normalize_json v)"

definition collision_free :: "(string \<Rightarrow> string) \<Rightarrow> json \<Rightarrow> json \<Rightarrow> bool" where
  "collision_free sha v w \<longleftrightarrow> (sha (json_text v) = sha (json_text w) \<longrightarrow> json_text v = json_text w)"

definition json_digest :: "(string \<Rightarrow> string) \<Rightarrow> json \<Rightarrow> string" where
  "json_digest sha v = sha256Bytes sha (json_text v)"

lemma digestJson_finite: "finite_json v \<Longrightarrow> digestJson sha v = Inr (json_digest sha v)"
  by (simp add: digestJson_def canonicalJson_def serialize_print json_text_def json_digest_def)

lemma json_digest_cong:
  "normalize_json v = normalize_json w \<Longrightarrow> json_digest sha v = json_digest sha w"
  by (simp add: json_digest_def json_text_def)

lemma json_digest_eq_iff:
  assumes "finite_json v" and "finite_json w" and "collision_free sha v w"
  shows "json_digest sha v = json_digest sha w \<longleftrightarrow> normalize_json v = normalize_json w"
proof
  assume "json_digest sha v = json_digest sha w"
  then have "json_text v = json_text w"
    using assms(3) by (simp add: json_digest_def sha256Bytes_def collision_free_def)
  then show "normalize_json v = normalize_json w"
    using assms(1,2) unfolding json_text_def by (intro print_json_inject) simp_all
qed (rule json_digest_cong)

lemma collision_free_id [simp]: "collision_free (\<lambda>s. s) v w"
  by (simp add: collision_free_def)

lemma digestJson_normalize:
  assumes "normalize_json v = normalize_json w" and "finite_json v"
  shows "digestJson sha v = digestJson sha w"
proof -
  have "finite_json w" using assms by (metis finite_normalize_json)
  then show ?thesis using assms(2) by (simp add: digestJson_finite json_digest_cong [OF assms(1)])
qed

text \<open>Where the hash has no collision on canonical texts, equal digests mean equal values.\<close>

lemma digestJson_binds:
  assumes "digestJson sha v = Inr d" and "digestJson sha w = Inr d"
    and "\<And>s t. canonicalJson v = Inr s \<Longrightarrow> canonicalJson w = Inr t \<Longrightarrow> sha s = sha t \<Longrightarrow> s = t"
  shows "normalize_json v = normalize_json w"
proof -
  obtain s t where st: "canonicalJson v = Inr s" "canonicalJson w = Inr t" "sha s = sha t"
    using assms(1,2) by (auto simp: digestJson_def result_simps sha256Bytes_def)
  then have "s = t" by (rule assms(3))
  then show ?thesis using st canonicalJson_inject by blast
qed

section \<open>Objects up to key order\<close>

text \<open>
  Two objects with distinct keys have the same normal form exactly when they map every key to
  values with the same normal form.
\<close>

definition normal_entry :: "string \<times> json \<Rightarrow> string \<times> json" where
  "normal_entry kv = (fst kv, normalize_json (snd kv))"

lemma fst_normal_entry [simp]: "fst (normal_entry kv) = fst kv"
  by (simp add: normal_entry_def)

lemma normalize_obj: "normalize_json (JObj kvs) = JObj (map normal_entry (sort_key fst kvs))"
  by (simp add: normal_entry_def)

lemma map_of_normal_entry: "map_of (map normal_entry kvs) k = map_option normalize_json (map_of kvs k)"
  by (induction kvs) (auto simp: normal_entry_def)

lemma map_of_sort_key_fst:
  "distinct (map fst kvs) \<Longrightarrow> map_of (sort_key fst kvs) = map_of kvs"
  by (metis map_of_eqI map_of_inject_set mset_map mset_eq_imp_distinct_iff mset_sort set_sort
      set_map)

lemma normalize_obj_eq_iff:
  assumes "distinct (map fst kvs)" and "distinct (map fst lvs)"
  shows "normalize_json (JObj kvs) = normalize_json (JObj lvs) \<longleftrightarrow>
    (\<forall>k. map_option normalize_json (map_of kvs k) = map_option normalize_json (map_of lvs k))"
    (is "?l = ?r")
proof
  assume ?l
  then have "map_of (map normal_entry (sort_key fst kvs)) =
      map_of (map normal_entry (sort_key fst lvs))"
    unfolding normalize_obj by simp
  then show ?r
    using assms by (simp add: map_of_normal_entry map_of_sort_key_fst fun_eq_iff)
next
  assume ?r
  let ?k = "map normal_entry (sort_key fst kvs)" and ?l = "map normal_entry (sort_key fst lvs)"
  have fsts: "map fst (map normal_entry xs) = map fst xs" for xs
    by (simp add: comp_def)
  have d: "distinct (map fst ?k)" "distinct (map fst ?l)"
    using assms unfolding fsts by (metis mset_eq_imp_distinct_iff mset_map mset_sort)+
  have "map_of ?k = map_of ?l"
    using \<open>?r\<close> assms by (simp add: map_of_normal_entry map_of_sort_key_fst fun_eq_iff)
  then have "set ?k = set ?l" using d map_of_inject_set by blast
  then have "mset ?k = mset ?l"
    using d by (metis distinct_map set_eq_iff_mset_eq_distinct)
  moreover have "inj_on fst (set ?k)" using d by (simp only: distinct_map)
  moreover have "sorted (map fst ?k)" "sorted (map fst ?l)" unfolding fsts by simp_all
  ultimately have "?k = ?l"
    by (metis sort_key_inj_key_eq)
  then show "normalize_json (JObj kvs) = normalize_json (JObj lvs)"
    unfolding normalize_obj by simp
qed

lemma normalize_obj_same_keys:
  assumes "map fst kvs = map fst lvs" and "distinct (map fst kvs)"
    and "normalize_json (JObj kvs) = normalize_json (JObj lvs)"
  shows "map (\<lambda>kv. normalize_json (snd kv)) kvs = map (\<lambda>kv. normalize_json (snd kv)) lvs"
proof (rule nth_equalityI)
  have len: "length kvs = length lvs" using assms(1) by (metis length_map)
  then show "length (map (\<lambda>kv. normalize_json (snd kv)) kvs) =
      length (map (\<lambda>kv. normalize_json (snd kv)) lvs)" by simp
  fix i
  assume "i < length (map (\<lambda>kv. normalize_json (snd kv)) kvs)"
  then have i: "i < length kvs" by simp
  have fsts: "fst (kvs ! i) = fst (lvs ! i)" using assms(1) i len by (metis nth_map)
  have d: "distinct (map fst lvs)" using assms(1,2) by simp
  have "map_of kvs (fst (kvs ! i)) = Some (snd (kvs ! i))"
    using assms(2) i by (simp add: map_of_eq_Some_iff)
  moreover have "map_of lvs (fst (kvs ! i)) = Some (snd (lvs ! i))"
    using d i len fsts by (simp add: map_of_eq_Some_iff)
  ultimately show "map (\<lambda>kv. normalize_json (snd kv)) kvs ! i =
      map (\<lambda>kv. normalize_json (snd kv)) lvs ! i"
    using normalize_obj_eq_iff [OF assms(2) d] assms(3) i len by (metis nth_map option.map(2) option.inject)
qed

lemma normalize_JArr_map:
  assumes "\<And>x y. normalize_json (f x) = normalize_json (f y) \<Longrightarrow> x = y"
  shows "normalize_json (JArr (map f xs)) = normalize_json (JArr (map f ys)) \<longleftrightarrow> xs = ys"
proof -
  have "inj (\<lambda>x. normalize_json (f x))" using assms by (rule injI)
  then show ?thesis by (simp add: comp_def inj_map_eq_map)
qed

end
