(* ===== verification/Contracts_Types.thy ===== *)
theory Contracts_Types
  imports Canonical_Json
begin

text \<open>
  \<open>packages/contracts/src/types\<close>: the persisted contracts as records, their closed string
  unions as datatypes with the wire name beside them, and the result of schema validation. An
  absent optional property is \<open>None\<close>; an optional property that may also be null is an option of
  an option. A field that only ever holds one literal (\<open>schemaVersion\<close>, \<open>contractKind\<close>) is not
  a field of the record; the wire values below write it out. A union whose members no code
  compares stays a string.

  Confidences are fixed-point numbers in millionths, so their sums are exact.
\<close>

type_synonym digest = string

section \<open>Closed unions\<close>

datatype route_status = Blocked | Native | NeedsInput | NoSdk | Selected

fun route_status_name :: "route_status \<Rightarrow> string" where
  "route_status_name Blocked = ''blocked''"
| "route_status_name Native = ''native''"
| "route_status_name NeedsInput = ''needs-input''"
| "route_status_name NoSdk = ''no-sdk''"
| "route_status_name Selected = ''selected''"

datatype review_status =
  RApproved | RBlocked | RDeprecated | RExperimental | RProposed | RRetired | RStable

fun review_status_name :: "review_status \<Rightarrow> string" where
  "review_status_name RApproved = ''approved''"
| "review_status_name RBlocked = ''blocked''"
| "review_status_name RDeprecated = ''deprecated''"
| "review_status_name RExperimental = ''experimental''"
| "review_status_name RProposed = ''proposed''"
| "review_status_name RRetired = ''retired''"
| "review_status_name RStable = ''stable''"

datatype claim_support = Primary | Secondary | Fallback

fun support_name :: "claim_support \<Rightarrow> string" where
  "support_name Primary = ''primary''"
| "support_name Secondary = ''secondary''"
| "support_name Fallback = ''fallback''"

datatype integration_kind =
  AgentSkill | BuiltIn | CliKind | Documentation | McpServer | RecipeSource | RuntimePackage
| ValidatorKind

datatype integration_mode = KnowledgeMode | RuntimeMode | ToolMode | VerificationMode

datatype integration_status = Available | DeprecatedStatus | Planned | UnverifiedStatus

datatype version_status = VNotApplicable | VResolved | VUnresolved

fun version_status_name :: "version_status \<Rightarrow> string" where
  "version_status_name VNotApplicable = ''not-applicable''"
| "version_status_name VResolved = ''resolved''"
| "version_status_name VUnresolved = ''unresolved''"

datatype authorization_method = ApiKey | EnvironmentAuth | NoAuth | OAuth | ProjectConfig | UnknownAuth

datatype execution_risk =
  CommandExecution | NetworkAndCommand | NoRisk | Privileged | ProjectWrite | ReadOnly

datatype data_exposure =
  LocalOnly | NoExposure | RemoteMetadata | RemoteProjectContent | RemoteSource

fun data_exposure_name :: "data_exposure \<Rightarrow> string" where
  "data_exposure_name LocalOnly = ''local-only''"
| "data_exposure_name NoExposure = ''none''"
| "data_exposure_name RemoteMetadata = ''remote-metadata''"
| "data_exposure_name RemoteProjectContent = ''remote-project-content''"
| "data_exposure_name RemoteSource = ''remote-source''"

datatype network_mode = Allowlist | Deny | Unrestricted

fun network_mode_name :: "network_mode \<Rightarrow> string" where
  "network_mode_name Allowlist = ''allowlist''"
| "network_mode_name Deny = ''deny''"
| "network_mode_name Unrestricted = ''unrestricted''"

datatype policy_scope = BuiltinScope | OrganizationScope | ProjectScope | RunScope | WorkspaceScope

fun policy_scope_name :: "policy_scope \<Rightarrow> string" where
  "policy_scope_name BuiltinScope = ''builtin''"
| "policy_scope_name OrganizationScope = ''organization''"
| "policy_scope_name ProjectScope = ''project''"
| "policy_scope_name RunScope = ''run''"
| "policy_scope_name WorkspaceScope = ''workspace''"

datatype constraint_status = CFailed | CNotApplicable | CPassed

fun constraint_status_name :: "constraint_status \<Rightarrow> string" where
  "constraint_status_name CFailed = ''failed''"
| "constraint_status_name CNotApplicable = ''not-applicable''"
| "constraint_status_name CPassed = ''passed''"

lemma enum_name_inject [simp]:
  "route_status_name a = route_status_name a' \<longleftrightarrow> a = a'"
  "review_status_name b = review_status_name b' \<longleftrightarrow> b = b'"
  "support_name c = support_name c' \<longleftrightarrow> c = c'"
  "network_mode_name d = network_mode_name d' \<longleftrightarrow> d = d'"
  "policy_scope_name e = policy_scope_name e' \<longleftrightarrow> e = e'"
  "constraint_status_name f = constraint_status_name f' \<longleftrightarrow> f = f'"
  "version_status_name g = version_status_name g' \<longleftrightarrow> g = g'"
  by ((cases a; cases a'; simp), (cases b; cases b'; simp), (cases c; cases c'; simp),
      (cases d; cases d'; simp), (cases e; cases e'; simp), (cases f; cases f'; simp),
      (cases g; cases g'; simp))

section \<open>Capability catalogue and connector manifests\<close>

record capability =
  capability_id :: string
  capability_family :: string
  capability_description :: string
  capability_native :: bool
  capability_ownershipDomain :: string
  capability_requires :: "string list option"
  capability_conflictsWith :: "string list option"

record capability_catalog =
  catalog_capabilities :: "capability list"

record connector_info =
  conn_id :: string
  conn_name :: string
  conn_publisher :: string
  conn_reviewStatus :: review_status
  conn_selectable :: bool
  conn_blockers :: "string list"

record product_info =
  product_canonicalName :: string
  product_homepage :: string
  product_aliases :: "string list"
  product_categories :: "string list"

record source_trust =
  trust_sourceAuthority :: string
  trust_integrityLevel :: string
  trust_reviewedAt :: string
  trust_reviewer :: string

record capability_claim =
  claim_capability :: string
  claim_support :: claim_support
  claim_confidence :: nat
  claim_conditions :: "string list"
  claim_limitations :: "string list"

record artifact_version =
  version_status :: version_status
  version_value :: "string option"
  version_digest :: "digest option"
  version_commit :: "string option"

record artifact_protocol =
  protocol_name :: string
  protocol_supportedVersions :: "string list"
  protocol_extensions :: "string list"

record artifact_authorization =
  auth_required :: bool
  auth_method :: authorization_method
  auth_paidPlan :: bool

record artifact_permissions =
  perm_filesystem :: string
  perm_network :: "string list"
  perm_projectWrite :: bool

record integration_artifact =
  integration_id :: string
  integration_kind :: integration_kind
  integration_mode :: integration_mode
  integration_status :: integration_status
  integration_source :: string
  integration_version :: artifact_version
  integration_protocol :: "artifact_protocol option"
  integration_authorization :: artifact_authorization
  integration_executionRisk :: execution_risk
  integration_dataExposure :: data_exposure
  integration_permissions :: artifact_permissions
  integration_licenseExpression :: "string option"
  integration_fallback :: "string option option"
  integration_packageName :: "string option"
  integration_importPaths :: "(string \<times> string) list option"
  integration_command :: "string list option"
  integration_notes :: "string list option"

record ownership_claim =
  own_domain :: string
  own_scope :: string
  own_exclusive :: bool
  own_properties :: "string list option"

record manifest_checks =
  checks_requiredChecks :: "string list"
  checks_hardGates :: "string list"

datatype related_file_status = FileMissing | FileNotApplicable | FilePlanned | FilePresent

record related_file =
  related_path :: string
  related_status :: related_file_status

record knowledge_window =
  knowledge_retrievedAt :: string
  knowledge_staleAfterDays :: nat

record connector_manifest =
  manifest_schema :: "string option"
  manifest_connectorVersion :: string
  manifest_connector :: connector_info
  manifest_product :: product_info
  manifest_sourceTrust :: source_trust
  manifest_capabilityClaims :: "capability_claim list"
  manifest_integrations :: "integration_artifact list"
  manifest_ownershipClaims :: "ownership_claim list"
  manifest_verification :: manifest_checks
  manifest_relatedFiles :: "(string \<times> related_file) list"
  manifest_knowledge :: knowledge_window

section \<open>Project snapshots and catalogue snapshots\<close>

record project_revision =
  revision_vcs :: string
  revision_commit :: "string option"
  revision_dirty :: bool

record package_manager_info =
  pm_name :: string
  pm_version :: "string option"
  pm_lockfile :: "string option"
  pm_lockfileDigest :: "digest option"

record workspace_package =
  wp_name :: string
  wp_path :: string
  wp_private :: bool

record workspace_info =
  ws_isMonorepo :: bool
  ws_packages :: "workspace_package list"

record runtime_info =
  rt_name :: string
  rt_version :: "string option"

record framework_info =
  fw_name :: string
  fw_version :: "string option"
  fw_workspace :: string

record project_dependency =
  dep_name :: string
  dep_version :: string
  dep_kind :: string
  dep_workspace :: string

record configuration_file =
  cfg_kind :: string
  cfg_path :: string
  cfg_digest :: digest

record policy_file =
  pf_path :: string
  pf_digest :: digest

record target_info =
  target_browsers :: "string list"
  target_runtimes :: "string list"

record project_snapshot =
  project_snapshotId :: digest
  project_createdAt :: string
  project_root :: string
  project_revision :: project_revision
  project_packageManager :: package_manager_info
  project_workspace :: workspace_info
  project_runtimes :: "runtime_info list"
  project_frameworks :: "framework_info list"
  project_dependencies :: "project_dependency list"
  project_configurations :: "configuration_file list"
  project_policies :: "policy_file list"
  project_targets :: target_info
  project_warnings :: "string list"

record catalog_connector =
  cc_id :: string
  cc_connectorVersion :: string
  cc_digest :: digest
  cc_reviewStatus :: review_status
  cc_selectable :: bool

record catalog_snapshot =
  cs_snapshotId :: digest
  cs_createdAt :: string
  cs_capabilityCatalogDigest :: digest
  cs_connectors :: "catalog_connector list"

section \<open>Policies\<close>

record network_rules =
  net_mode :: network_mode
  net_allowedHosts :: "string list"

record filesystem_rules =
  fs_read :: "string list"
  fs_write :: "string list"

record policy_rules =
  rule_allowedConnectors :: "string list"
  rule_deniedConnectors :: "string list"
  rule_allowExperimental :: bool
  rule_allowedLicenses :: "string list"
  rule_allowPaidServices :: bool
  rule_network :: network_rules
  rule_filesystem :: filesystem_rules
  rule_allowRemoteProjectContent :: bool
  rule_maxBundleKilobytes :: "nat option option"
  rule_requireReducedMotion :: bool
  rule_requiredApprovals :: "string list"

record policy_document =
  policy_policyId :: string
  policy_version :: string
  policy_scope :: policy_scope
  policy_rules :: policy_rules

section \<open>Route requests and route plans\<close>

datatype quality_value = QBool bool | QNum int | QStr string

type_synonym quality = "(string \<times> quality_value) list"

record requested_capability =
  rc_id :: string
  rc_required :: bool
  rc_quality :: "quality option"

record route_preferences =
  pref_preferredProviders :: "string list"
  pref_forbiddenProviders :: "string list"
  pref_maxProviders :: nat
  pref_allowPaidServices :: bool
  pref_allowExperimental :: bool

record route_request =
  req_requestId :: string
  req_createdAt :: string
  req_projectSnapshotId :: digest
  req_summary :: string
  req_requestTextDigest :: "digest option"
  req_capabilities :: "requested_capability list"
  req_preferences :: route_preferences

record selected_provider =
  sp_providerId :: string
  sp_integrationIds :: "string list"
  sp_capabilities :: "string list"
  sp_reasonCode :: string
  sp_reason :: string

record rejected_provider =
  rp_providerId :: string
  rp_reasonCode :: string
  rp_reason :: string

record plan_ownership =
  po_providerId :: string
  po_domain :: string
  po_scope :: string
  po_properties :: "string list"

record plan_constraint =
  con_code :: string
  con_status :: constraint_status
  con_message :: string

record route_plan =
  plan_planId :: string
  plan_createdAt :: string
  plan_status :: route_status
  plan_requestId :: string
  plan_projectSnapshotId :: digest
  plan_catalogSnapshotId :: digest
  plan_policySnapshotId :: digest
  plan_requestedCapabilities :: "string list"
  plan_selectedProviders :: "selected_provider list"
  plan_rejectedProviders :: "rejected_provider list"
  plan_ownership :: "plan_ownership list"
  plan_constraints :: "plan_constraint list"
  plan_uncertainty :: nat
  plan_requiredInput :: "string list"
  plan_digest :: digest

end
