(* ===== verification/Ownership.thy ===== *)
theory Ownership
  imports Contracts_Types Js_String
begin

text \<open>
  \<open>packages/core/src/router/ownership.ts\<close>: which provider owns which property of which scope
  under an assignment of capabilities, and whether two providers claim the same one.
\<close>

record capability_assignment =
  asg_capabilityId :: string
  asg_providerId :: string
  asg_native :: bool
  asg_integrationIds :: "string list"
  asg_support :: claim_support
  asg_confidence :: nat
  asg_installed :: bool
  asg_preferredRank :: "nat option"

datatype ownership_status = OwnOk | OwnNeedsInput | OwnBlocked

record ownership_resolution =
  or_ownership :: "plan_ownership list"
  or_status :: ownership_status
  or_constraints :: "plan_constraint list"
  or_requiredInput :: "string list"

record ownership_template =
  tpl_domain :: string
  tpl_property :: string
  tpl_possibleProperties :: "string list"

record resolved_ownership =
  res_item :: plan_ownership
  res_capabilityId :: string
  res_explicitScope :: bool
  res_explicitProperty :: bool
  res_possibleProperties :: "string list"

definition tpl :: "string \<Rightarrow> string \<Rightarrow> string list \<Rightarrow> ownership_template" where
  "tpl d p ps = \<lparr>tpl_domain = d, tpl_property = p, tpl_possibleProperties = ps\<rparr>"

definition DEFAULTS :: "(string \<times> ownership_template) list" where
  "DEFAULTS = [
    (''platform.css-transition'', tpl ''dom-style'' ''css-transition''
       [''background'', ''border'', ''color'', ''filter'', ''opacity'', ''transform'']),
    (''platform.css-animation'', tpl ''dom-animation'' ''css-animation''
       [''filter'', ''layout'', ''opacity'', ''transform'']),
    (''platform.waapi-animation'', tpl ''dom-animation'' ''waapi-animation''
       [''filter'', ''layout'', ''opacity'', ''transform'']),
    (''motion.presence'', tpl ''presence'' ''presence'' [''opacity'', ''transform'']),
    (''motion.layout'', tpl ''layout'' ''layout'' [''layout'', ''transform'']),
    (''motion.shared-layout'', tpl ''layout'' ''layout'' [''layout'', ''transform'']),
    (''motion.spring'', tpl ''timing'' ''timing'' [''timing'']),
    (''interaction.drag'', tpl ''gesture'' ''drag'' [''transform'']),
    (''interaction.gesture'', tpl ''gesture'' ''gesture'' [''gesture'', ''transform'']),
    (''motion.timeline'', tpl ''timeline'' ''timeline''
       [''filter'', ''layout'', ''opacity'', ''transform'']),
    (''motion.svg'', tpl ''svg-animation'' ''svg'' [''opacity'', ''svg'', ''transform'']),
    (''motion.flip'', tpl ''layout'' ''layout'' [''layout'', ''transform'']),
    (''scroll.triggered-animation'', tpl ''scroll-trigger'' ''scroll''
       [''opacity'', ''scroll'', ''transform'']),
    (''scroll.pinned-sequence'', tpl ''scroll-trigger'' ''scroll''
       [''opacity'', ''scroll'', ''transform''])]"

text \<open>The request's quality entry under a key, when it is a string that is not blank.\<close>

definition stringQuality :: "route_request \<Rightarrow> string \<Rightarrow> string \<Rightarrow> string option" where
  "stringQuality request capabilityId key =
     (case find (\<lambda>item. rc_id item = capabilityId) (req_capabilities request) of
        None \<Rightarrow> None
      | Some capability \<Rightarrow>
          (case rc_quality capability of
             None \<Rightarrow> None
           | Some quality \<Rightarrow>
               (case map_of quality key of
                  Some (QStr value) \<Rightarrow> if js_trim value \<noteq> '''' then Some (js_trim value) else None
                | _ \<Rightarrow> None)))"

definition templateFor :: "string \<Rightarrow> ownership_template" where
  "templateFor capabilityId =
     (case map_of DEFAULTS capabilityId of
        Some t \<Rightarrow> t
      | None \<Rightarrow> tpl ''capability'' capabilityId [capabilityId])"

definition intersects :: "string list \<Rightarrow> string list \<Rightarrow> bool" where
  "intersects left right \<longleftrightarrow> list_ex (\<lambda>value. value \<in> set right) left"

definition ownership_compare :: "(string \<Rightarrow> string \<Rightarrow> int) \<Rightarrow> plan_ownership \<Rightarrow> plan_ownership \<Rightarrow> int" where
  "ownership_compare lc =
     cmp_then (cmp_by lc po_providerId) (cmp_then (cmp_by lc po_scope)
       (cmp_then (cmp_by lc po_domain) (cmp_by lc (\<lambda>o'. js_join [CHR 0x00] (po_properties o')))))"

definition sortedOwnership :: "(string \<Rightarrow> string \<Rightarrow> int) \<Rightarrow> resolved_ownership list \<Rightarrow>
    plan_ownership list" where
  "sortedOwnership lc values = js_sort (ownership_compare lc) (map res_item values)"

definition resolve_assignment :: "route_request \<Rightarrow> capability_assignment \<Rightarrow> resolved_ownership" where
  "resolve_assignment request assignment =
     (let template = templateFor (asg_capabilityId assignment);
          explicitScope = stringQuality request (asg_capabilityId assignment) ''scope'';
          explicitProperty = stringQuality request (asg_capabilityId assignment) ''property'';
          property = (case explicitProperty of Some p \<Rightarrow> p | None \<Rightarrow> tpl_property template)
      in \<lparr>res_item = \<lparr>po_providerId = asg_providerId assignment,
            po_domain = tpl_domain template,
            po_scope = (case explicitScope of Some s \<Rightarrow> s
              | None \<Rightarrow> ''capability:'' @ asg_capabilityId assignment),
            po_properties = [property]\<rparr>,
          res_capabilityId = asg_capabilityId assignment,
          res_explicitScope = (explicitScope \<noteq> None),
          res_explicitProperty = (explicitProperty \<noteq> None),
          res_possibleProperties = js_set (case explicitProperty of
              None \<Rightarrow> tpl_possibleProperties template | Some p \<Rightarrow> [p])\<rparr>)"

section \<open>The pairwise check\<close>

record ownership_state =
  os_constraints :: "plan_constraint list"
  os_requiredInput :: "string list"
  os_blocked :: bool
  os_ambiguous :: bool

text \<open>The two conditions under which the loop body pushes a constraint.\<close>

definition conflict_pair :: "resolved_ownership \<Rightarrow> resolved_ownership \<Rightarrow> bool" where
  "conflict_pair left right \<longleftrightarrow>
     res_explicitProperty left \<and> res_explicitProperty right \<and>
     hd (po_properties (res_item left)) = hd (po_properties (res_item right))"

definition ambiguous_pair :: "resolved_ownership \<Rightarrow> resolved_ownership \<Rightarrow> bool" where
  "ambiguous_pair left right \<longleftrightarrow>
     (\<not> res_explicitProperty left \<or> \<not> res_explicitProperty right) \<and>
     res_explicitScope left \<and> res_explicitScope right \<and>
     intersects (res_possibleProperties left) (res_possibleProperties right)"

definition pair_step :: "ownership_state \<Rightarrow> resolved_ownership \<times> resolved_ownership \<Rightarrow>
    ownership_state" where
  "pair_step st pair =
     (let left = fst pair; right = snd pair; l = res_item left; r = res_item right in
      if po_providerId l = po_providerId r then st
      else if po_scope l \<noteq> po_scope r then st
      else if conflict_pair left right then
        st\<lparr>os_blocked := True,
           os_constraints := os_constraints st @
             [\<lparr>con_code = ''OWNERSHIP_CONFLICT'', con_status = CFailed,
               con_message = po_providerId l @ '' and '' @ po_providerId r @
                 '' both require exclusive ownership of '' @ po_scope l @ ''/'' @
                 hd (po_properties l) @ ''.''\<rparr>]\<rparr>
      else if ambiguous_pair left right then
        st\<lparr>os_ambiguous := True,
           os_constraints := os_constraints st @
             [\<lparr>con_code = ''OWNERSHIP_AMBIGUOUS'', con_status = CFailed,
               con_message = po_providerId l @ '' and '' @ po_providerId r @
                 '' may overlap on scope '' @ po_scope l @
                 ''; explicit properties are required.''\<rparr>],
           os_requiredInput := set_add (os_requiredInput st)
             (''Specify non-overlapping properties for scope '' @ po_scope l @ ''.'')\<rparr>
      else st)"

text \<open>The index pairs of the two nested loops, in their order.\<close>

fun ordered_pairs :: "'a list \<Rightarrow> ('a \<times> 'a) list" where
  "ordered_pairs [] = []"
| "ordered_pairs (x # xs) = map (Pair x) xs @ ordered_pairs xs"

definition constraint_compare :: "(string \<Rightarrow> string \<Rightarrow> int) \<Rightarrow> plan_constraint \<Rightarrow> plan_constraint \<Rightarrow> int" where
  "constraint_compare lc = cmp_then (cmp_by lc con_code) (cmp_by lc con_message)"

definition initial_ownership_state :: ownership_state where
  "initial_ownership_state = \<lparr>os_constraints = [], os_requiredInput = [], os_blocked = False,
     os_ambiguous = False\<rparr>"

definition resolveOwnership :: "(string \<Rightarrow> string \<Rightarrow> int) \<Rightarrow> route_request \<Rightarrow>
    capability_assignment list \<Rightarrow> ownership_resolution" where
  "resolveOwnership lc request assignments =
     (let resolved = map (resolve_assignment request) assignments;
          st = foldl pair_step initial_ownership_state (ordered_pairs resolved)
      in \<lparr>or_ownership = sortedOwnership lc resolved,
          or_status = (if os_blocked st then OwnBlocked
            else if os_ambiguous st then OwnNeedsInput else OwnOk),
          or_constraints = js_sort (constraint_compare lc) (os_constraints st),
          or_requiredInput = sort (os_requiredInput st)\<rparr>)"

section \<open>What the statuses mean\<close>

definition contested :: "resolved_ownership \<Rightarrow> resolved_ownership \<Rightarrow> bool" where
  "contested left right \<longleftrightarrow>
     po_providerId (res_item left) \<noteq> po_providerId (res_item right) \<and>
     po_scope (res_item left) = po_scope (res_item right)"

lemma pair_step_simps:
  "os_blocked (pair_step st (l, r)) \<longleftrightarrow> os_blocked st \<or> contested l r \<and> conflict_pair l r"
  "os_ambiguous (pair_step st (l, r)) \<longleftrightarrow>
     os_ambiguous st \<or> contested l r \<and> \<not> conflict_pair l r \<and> ambiguous_pair l r"
  by (auto simp: pair_step_def contested_def Let_def)

lemma pair_fold_flags:
  "os_blocked (foldl pair_step st ps) \<longleftrightarrow>
     os_blocked st \<or> (\<exists>(l, r) \<in> set ps. contested l r \<and> conflict_pair l r)"
  "os_ambiguous (foldl pair_step st ps) \<longleftrightarrow>
     os_ambiguous st \<or>
     (\<exists>(l, r) \<in> set ps. contested l r \<and> \<not> conflict_pair l r \<and> ambiguous_pair l r)"
  by (induction ps arbitrary: st) (auto simp: pair_step_simps)

lemma pair_fold_constraints:
  "os_constraints (foldl pair_step st ps) = [] \<longleftrightarrow>
     os_constraints st = [] \<and>
     \<not> (\<exists>(l, r) \<in> set ps. contested l r \<and> (conflict_pair l r \<or> ambiguous_pair l r))"
proof (induction ps arbitrary: st)
  case (Cons p ps)
  have "os_constraints (pair_step st p) = [] \<longleftrightarrow> os_constraints st = [] \<and>
      \<not> (contested (fst p) (snd p) \<and> (conflict_pair (fst p) (snd p) \<or> ambiguous_pair (fst p) (snd p)))"
    by (auto simp: pair_step_def contested_def Let_def)
  then show ?case using Cons.IH by (auto simp: case_prod_beta)
qed simp

lemma pair_fold_failed:
  "(\<forall>c \<in> set (os_constraints st). con_status c = CFailed) \<Longrightarrow>
   \<forall>c \<in> set (os_constraints (foldl pair_step st ps)). con_status c = CFailed"
proof (induction ps arbitrary: st)
  case (Cons p ps)
  have "\<forall>c \<in> set (os_constraints (pair_step st p)). con_status c = CFailed"
    using Cons.prems by (auto simp: pair_step_def Let_def)
  then show ?case using Cons.IH by simp
qed simp

lemma set_ordered_pairs_subset: "(x, y) \<in> set (ordered_pairs xs) \<Longrightarrow> x \<in> set xs \<and> y \<in> set xs"
  by (induction xs) auto

text \<open>For a symmetric irreflexive relation the index order of a pair does not matter.\<close>

lemma ex_ordered_pairs:
  assumes "\<And>x y. P x y \<Longrightarrow> P y x" and "\<And>x. \<not> P x x"
  shows "(\<exists>(x, y) \<in> set (ordered_pairs xs). P x y) \<longleftrightarrow> (\<exists>x \<in> set xs. \<exists>y \<in> set xs. P x y)"
proof (induction xs)
  case (Cons x xs)
  have "(\<exists>(y, z) \<in> set (ordered_pairs (x # xs)). P y z) \<longleftrightarrow>
      (\<exists>z \<in> set xs. P x z) \<or> (\<exists>y \<in> set xs. \<exists>z \<in> set xs. P y z)"
    using Cons.IH by auto
  also have "\<dots> \<longleftrightarrow> (\<exists>y \<in> set (x # xs). \<exists>z \<in> set (x # xs). P y z)"
    using assms(1)[of _ x] assms(2)[of x] by (simp) blast
  finally show ?case .
qed simp

lemma contested_sym: "contested l r \<Longrightarrow> contested r l"
  by (auto simp: contested_def)

lemma contested_irrefl: "\<not> contested l l"
  by (simp add: contested_def)

lemma conflict_pair_sym: "conflict_pair l r \<longleftrightarrow> conflict_pair r l"
  by (auto simp: conflict_pair_def)

lemma intersects_iff: "intersects xs ys \<longleftrightarrow> set xs \<inter> set ys \<noteq> {}"
  by (auto simp: intersects_def list_ex_iff)

lemma ambiguous_pair_sym: "ambiguous_pair l r \<longleftrightarrow> ambiguous_pair r l"
  by (auto simp: ambiguous_pair_def intersects_iff)

lemma resolveOwnership_status:
  "or_status (resolveOwnership lc request assignments) =
     (let rs = resolve_assignment request ` set assignments in
      if \<exists>l \<in> rs. \<exists>r \<in> rs. contested l r \<and> conflict_pair l r then OwnBlocked
      else if \<exists>l \<in> rs. \<exists>r \<in> rs. contested l r \<and> ambiguous_pair l r then OwnNeedsInput
      else OwnOk)"
proof -
  let ?rs = "map (resolve_assignment request) assignments"
  have c: "(\<exists>(l, r) \<in> set (ordered_pairs ?rs). contested l r \<and> conflict_pair l r) \<longleftrightarrow>
      (\<exists>l \<in> set ?rs. \<exists>r \<in> set ?rs. contested l r \<and> conflict_pair l r)"
    by (rule ex_ordered_pairs) (auto simp: contested_sym contested_irrefl conflict_pair_sym)
  have a: "(\<exists>(l, r) \<in> set (ordered_pairs ?rs). contested l r \<and> \<not> conflict_pair l r \<and> ambiguous_pair l r) \<longleftrightarrow>
      (\<exists>l \<in> set ?rs. \<exists>r \<in> set ?rs. contested l r \<and> \<not> conflict_pair l r \<and> ambiguous_pair l r)"
    by (rule ex_ordered_pairs)
      (auto simp: contested_sym contested_irrefl conflict_pair_sym ambiguous_pair_sym)
  show ?thesis
    unfolding resolveOwnership_def Let_def ownership_resolution.simps pair_fold_flags c a
    by (auto simp: initial_ownership_state_def)
qed

section \<open>The statuses in terms of the request\<close>

text \<open>The scope an assignment owns in, and the properties it may write there.\<close>

definition scope_of :: "route_request \<Rightarrow> capability_assignment \<Rightarrow> string" where
  "scope_of request a = po_scope (res_item (resolve_assignment request a))"

definition writable :: "route_request \<Rightarrow> capability_assignment \<Rightarrow> string set" where
  "writable request a =
     (case stringQuality request (asg_capabilityId a) ''property'' of
        Some p \<Rightarrow> {p}
      | None \<Rightarrow> set (tpl_possibleProperties (templateFor (asg_capabilityId a))))"

lemma resolve_assignment_simps [simp]:
  "po_providerId (res_item (resolve_assignment request a)) = asg_providerId a"
  "res_explicitScope (resolve_assignment request a) \<longleftrightarrow>
     stringQuality request (asg_capabilityId a) ''scope'' \<noteq> None"
  "res_explicitProperty (resolve_assignment request a) \<longleftrightarrow>
     stringQuality request (asg_capabilityId a) ''property'' \<noteq> None"
  "set (res_possibleProperties (resolve_assignment request a)) = writable request a"
  by (auto simp: resolve_assignment_def writable_def Let_def split: option.splits)

lemma explicit_scope_of:
  "stringQuality request (asg_capabilityId a) ''scope'' = Some s \<Longrightarrow> scope_of request a = s"
  by (simp add: scope_of_def resolve_assignment_def Let_def)

lemma conflict_pair_resolved:
  "conflict_pair (resolve_assignment request a) (resolve_assignment request b) \<longleftrightarrow>
     (\<exists>p. stringQuality request (asg_capabilityId a) ''property'' = Some p \<and>
          stringQuality request (asg_capabilityId b) ''property'' = Some p)"
  by (auto simp: conflict_pair_def resolve_assignment_def Let_def)

lemma contested_resolved:
  "contested (resolve_assignment request a) (resolve_assignment request b) \<longleftrightarrow>
     asg_providerId a \<noteq> asg_providerId b \<and> scope_of request a = scope_of request b"
  by (simp add: contested_def scope_of_def)

lemma ambiguous_pair_resolved:
  "ambiguous_pair (resolve_assignment request a) (resolve_assignment request b) \<longleftrightarrow>
     stringQuality request (asg_capabilityId a) ''scope'' \<noteq> None \<and>
     stringQuality request (asg_capabilityId b) ''scope'' \<noteq> None \<and>
     (stringQuality request (asg_capabilityId a) ''property'' = None \<or>
      stringQuality request (asg_capabilityId b) ''property'' = None) \<and>
     writable request a \<inter> writable request b \<noteq> {}"
  by (auto simp: ambiguous_pair_def intersects_iff)

lemma resolveOwnership_blocked_iff:
  "or_status (resolveOwnership lc request assignments) = OwnBlocked \<longleftrightarrow>
     (\<exists>a \<in> set assignments. \<exists>b \<in> set assignments.
        asg_providerId a \<noteq> asg_providerId b \<and> scope_of request a = scope_of request b \<and>
        (\<exists>p. stringQuality request (asg_capabilityId a) ''property'' = Some p \<and>
             stringQuality request (asg_capabilityId b) ''property'' = Some p))"
  unfolding resolveOwnership_status Let_def bex_simps(7) contested_resolved conflict_pair_resolved
  by (simp add: conj_assoc)

lemma resolveOwnership_needs_input_iff:
  "or_status (resolveOwnership lc request assignments) = OwnNeedsInput \<longleftrightarrow>
     or_status (resolveOwnership lc request assignments) \<noteq> OwnBlocked \<and>
     (\<exists>a \<in> set assignments. \<exists>b \<in> set assignments.
        asg_providerId a \<noteq> asg_providerId b \<and> scope_of request a = scope_of request b \<and>
        stringQuality request (asg_capabilityId a) ''scope'' \<noteq> None \<and>
        stringQuality request (asg_capabilityId b) ''scope'' \<noteq> None \<and>
        (stringQuality request (asg_capabilityId a) ''property'' = None \<or>
         stringQuality request (asg_capabilityId b) ''property'' = None) \<and>
        writable request a \<inter> writable request b \<noteq> {})"
  unfolding resolveOwnership_status Let_def bex_simps(7) contested_resolved ambiguous_pair_resolved
  by (simp add: conj_assoc)

text \<open>The result does not depend on the order of the assignments.\<close>

lemma comparator_ownership_compare [cmp_intros]:
  "collation lc \<Longrightarrow> comparator (ownership_compare lc)"
  unfolding ownership_compare_def collation_def
  by (intro comparator_then comparator_by)

lemma sortedOwnership_perm:
  assumes "strict_collation lc" and "mset assignments = mset assignments'"
  shows "sortedOwnership lc (map (resolve_assignment request) assignments) =
    sortedOwnership lc (map (resolve_assignment request) assignments')"
proof -
  let ?items = "map res_item (map (resolve_assignment request) assignments)"
  have singleton: "\<exists>p. po_properties i = [p]" if "i \<in> set ?items" for i
    using that by (auto simp: resolve_assignment_def Let_def)
  have "comparator (ownership_compare lc)"
    by (rule comparator_ownership_compare [OF strict_collation_collation [OF assms(1)]])
  moreover have "i = j" if "i \<in> set ?items" "j \<in> set ?items" "ownership_compare lc i j = 0" for i j
    using that(3) singleton [OF that(1)] singleton [OF that(2)]
    by (auto simp: ownership_compare_def cmp_then_zero cmp_by_def plan_ownership.equality
        strict_collation_zero [OF assms(1)])
  moreover have "mset ?items = mset (map res_item (map (resolve_assignment request) assignments'))"
    using assms(2) by simp
  ultimately show ?thesis
    unfolding sortedOwnership_def by (intro comparator.js_sort_perm) auto
qed

lemma resolveOwnership_constraints:
  "or_constraints (resolveOwnership lc request assignments) = [] \<longleftrightarrow>
     or_status (resolveOwnership lc request assignments) = OwnOk"
  unfolding resolveOwnership_def Let_def ownership_resolution.simps js_sort_eq_Nil
    pair_fold_constraints pair_fold_flags
  by (auto simp: initial_ownership_state_def)

lemma pair_fold_requiredInput:
  "os_ambiguous (foldl pair_step st ps) \<and> \<not> os_ambiguous st \<or> os_requiredInput st \<noteq> [] \<Longrightarrow>
   os_requiredInput (foldl pair_step st ps) \<noteq> []"
proof (induction ps arbitrary: st)
  case (Cons p ps)
  have "os_ambiguous (pair_step st p) \<and> \<not> os_ambiguous st \<or> os_requiredInput st \<noteq> [] \<Longrightarrow>
      os_requiredInput (pair_step st p) \<noteq> []"
    by (auto simp: pair_step_def set_add_def Let_def split: if_splits)
  then show ?case using Cons.IH [of "pair_step st p"] Cons.prems by auto
qed simp

lemma sort_eq_Nil [simp]: "sort xs = [] \<longleftrightarrow> xs = []"
  by (metis mset_sort mset_zero_iff)

lemma resolveOwnership_requiredInput:
  assumes "or_status (resolveOwnership lc request assignments) = OwnNeedsInput"
  shows "or_requiredInput (resolveOwnership lc request assignments) \<noteq> []"
proof -
  let ?st = "foldl pair_step initial_ownership_state
    (ordered_pairs (map (resolve_assignment request) assignments))"
  have "os_ambiguous ?st"
    using assms unfolding resolveOwnership_def Let_def by (simp split: if_splits)
  moreover have "\<not> os_ambiguous initial_ownership_state"
    by (simp add: initial_ownership_state_def)
  ultimately have "os_requiredInput ?st \<noteq> []" by (intro pair_fold_requiredInput) blast
  then show ?thesis unfolding resolveOwnership_def Let_def by simp
qed

section \<open>Properties\<close>

text \<open>
  When ownership resolves, two capabilities assigned to different providers in the same
  explicitly requested scope can never write a common property.
\<close>

theorem resolveOwnership_exclusive:
  assumes "or_status (resolveOwnership lc request assignments) = OwnOk"
    and "a \<in> set assignments" and "b \<in> set assignments"
    and "asg_providerId a \<noteq> asg_providerId b"
    and "stringQuality request (asg_capabilityId a) ''scope'' = Some s"
    and "stringQuality request (asg_capabilityId b) ''scope'' = Some s"
  shows "writable request a \<inter> writable request b = {}"
proof -
  let ?l = "resolve_assignment request a" and ?r = "resolve_assignment request b"
  have c: "contested ?l ?r"
    using assms(4) explicit_scope_of [OF assms(5)] explicit_scope_of [OF assms(6)]
    by (simp add: contested_resolved)
  have "\<not> conflict_pair ?l ?r \<and> \<not> ambiguous_pair ?l ?r"
    using assms(1-3) c by (auto simp: resolveOwnership_status Let_def split: if_splits)
  then show ?thesis
    unfolding conflict_pair_resolved ambiguous_pair_def intersects_iff
    using assms(5,6) by (auto simp: writable_def split: option.splits)
qed

definition scoped_request :: "(string \<times> string) list \<Rightarrow> route_request" where
  "scoped_request caps = \<lparr>req_requestId = ''r'', req_createdAt = '''', req_projectSnapshotId = '''',
     req_summary = '''', req_requestTextDigest = None,
     req_capabilities = map (\<lambda>c. \<lparr>rc_id = fst c, rc_required = True,
       rc_quality = Some [(''scope'', QStr ''hero''), (''property'', QStr (snd c))]\<rparr>) caps,
     req_preferences = \<lparr>pref_preferredProviders = [], pref_forbiddenProviders = [],
       pref_maxProviders = 2, pref_allowPaidServices = False, pref_allowExperimental = False\<rparr>\<rparr>"

definition plain_assignment :: "string \<Rightarrow> string \<Rightarrow> capability_assignment" where
  "plain_assignment c p = \<lparr>asg_capabilityId = c, asg_providerId = p, asg_native = False,
     asg_integrationIds = [], asg_support = Primary, asg_confidence = 900000,
     asg_installed = False, asg_preferredRank = None\<rparr>"

theorem resolveOwnership_exclusive_witness:
  "writable (scoped_request [(''motion.layout'', ''transform''), (''motion.svg'', ''opacity'')])
     (plain_assignment ''motion.layout'' ''motion'') \<inter>
   writable (scoped_request [(''motion.layout'', ''transform''), (''motion.svg'', ''opacity'')])
     (plain_assignment ''motion.svg'' ''gsap'') = {}"
proof (rule resolveOwnership_exclusive)
  show "or_status (resolveOwnership code_unit_compare
      (scoped_request [(''motion.layout'', ''transform''), (''motion.svg'', ''opacity'')])
      [plain_assignment ''motion.layout'' ''motion'', plain_assignment ''motion.svg'' ''gsap'']) =
    OwnOk"
    by (simp add: resolveOwnership_status contested_resolved conflict_pair_resolved
        ambiguous_pair_def plain_assignment_def stringQuality_def scoped_request_def js_trim_def
        js_white_def)
qed (simp_all add: plain_assignment_def stringQuality_def scoped_request_def js_trim_def js_white_def)

text \<open>
  Ownership is blocked exactly when two different providers are assigned the same scope with
  the same explicitly requested property; otherwise it needs input exactly when two of them are
  explicitly given one scope, not both with an explicit property, and may write a common
  property.
\<close>

theorem resolveOwnership_status_iff:
  "(or_status (resolveOwnership lc request assignments) = OwnBlocked \<longleftrightarrow>
     (\<exists>a \<in> set assignments. \<exists>b \<in> set assignments.
        asg_providerId a \<noteq> asg_providerId b \<and> scope_of request a = scope_of request b \<and>
        (\<exists>p. stringQuality request (asg_capabilityId a) ''property'' = Some p \<and>
             stringQuality request (asg_capabilityId b) ''property'' = Some p))) \<and>
   (or_status (resolveOwnership lc request assignments) = OwnNeedsInput \<longleftrightarrow>
     or_status (resolveOwnership lc request assignments) \<noteq> OwnBlocked \<and>
     (\<exists>a \<in> set assignments. \<exists>b \<in> set assignments.
        asg_providerId a \<noteq> asg_providerId b \<and> scope_of request a = scope_of request b \<and>
        stringQuality request (asg_capabilityId a) ''scope'' \<noteq> None \<and>
        stringQuality request (asg_capabilityId b) ''scope'' \<noteq> None \<and>
        (stringQuality request (asg_capabilityId a) ''property'' = None \<or>
         stringQuality request (asg_capabilityId b) ''property'' = None) \<and>
        writable request a \<inter> writable request b \<noteq> {}))"
  unfolding resolveOwnership_blocked_iff resolveOwnership_needs_input_iff by blast

text \<open>
  The resolution does not depend on the order of the assignments, and explains itself: the
  failed constraints are empty exactly when the status is ok, and a request for input always
  says what to specify.
\<close>

theorem resolveOwnership_order_and_reasons:
  assumes "strict_collation lc" and "mset assignments = mset assignments'"
  shows "or_status (resolveOwnership lc request assignments) =
      or_status (resolveOwnership lc request assignments') \<and>
    or_ownership (resolveOwnership lc request assignments) =
      or_ownership (resolveOwnership lc request assignments') \<and>
    (or_constraints (resolveOwnership lc request assignments) = [] \<longleftrightarrow>
      or_status (resolveOwnership lc request assignments) = OwnOk) \<and>
    (or_status (resolveOwnership lc request assignments) = OwnNeedsInput \<longrightarrow>
      or_requiredInput (resolveOwnership lc request assignments) \<noteq> [])"
proof (intro conjI impI)
  show "or_status (resolveOwnership lc request assignments) =
      or_status (resolveOwnership lc request assignments')"
    unfolding resolveOwnership_status using mset_eq_setD [OF assms(2)] by simp
  show "or_ownership (resolveOwnership lc request assignments) =
      or_ownership (resolveOwnership lc request assignments')"
    using sortedOwnership_perm [OF assms] by (simp add: resolveOwnership_def Let_def)
  show "or_constraints (resolveOwnership lc request assignments) = [] \<longleftrightarrow>
      or_status (resolveOwnership lc request assignments) = OwnOk"
    by (rule resolveOwnership_constraints)
  assume "or_status (resolveOwnership lc request assignments) = OwnNeedsInput"
  then show "or_requiredInput (resolveOwnership lc request assignments) \<noteq> []"
    by (rule resolveOwnership_requiredInput)
qed

theorem resolveOwnership_order_and_reasons_witness:
  "or_status (resolveOwnership code_unit_compare (scoped_request [])
     [plain_assignment ''motion.svg'' ''gsap'', plain_assignment ''motion.layout'' ''motion'']) =
   or_status (resolveOwnership code_unit_compare (scoped_request [])
     [plain_assignment ''motion.layout'' ''motion'', plain_assignment ''motion.svg'' ''gsap''])"
  using resolveOwnership_order_and_reasons [OF code_units.strict_collation_axioms, of
      "[plain_assignment ''motion.svg'' ''gsap'', plain_assignment ''motion.layout'' ''motion'']"
      "[plain_assignment ''motion.layout'' ''motion'', plain_assignment ''motion.svg'' ''gsap'']"]
  by (simp add: add_mset_commute)

end
