(* ===== verification/Rank.thy ===== *)
theory Rank
  imports Ownership
begin

text \<open>
  \<open>packages/core/src/router/rank.ts\<close>: the score of a set of assignments and the order between
  scores: fewer providers first, then more native coverage, more installed providers, better
  preference ranks, stronger support and higher confidence.
\<close>

record ranked_route =
  rank_assignments :: "capability_assignment list"
  rank_selectedProviderIds :: "string list"
  rank_selectedProviderCount :: nat
  rank_nativeCoverageCount :: nat
  rank_installedSelectedProviderCount :: nat
  rank_preferredRankVector :: "nat list"
  rank_primaryCount :: nat
  rank_secondaryCount :: nat
  rank_fallbackCount :: nat
  rank_confidenceTotal :: nat
  rank_architectureSignature :: string

text \<open>\<open>Number.MAX_SAFE_INTEGER\<close>\<close>

definition UNRANKED :: nat where
  "UNRANKED = 9007199254740991"

definition compareNumbers :: "'a::linorder \<Rightarrow> 'a \<Rightarrow> int" where
  "compareNumbers left right = (if left < right then -1 else if right < left then 1 else 0)"

definition or_unranked :: "nat option \<Rightarrow> nat" where
  "or_unranked r = (case r of Some n \<Rightarrow> n | None \<Rightarrow> UNRANKED)"

definition assignment_compare :: "(string \<Rightarrow> string \<Rightarrow> int) \<Rightarrow> capability_assignment \<Rightarrow>
    capability_assignment \<Rightarrow> int" where
  "assignment_compare lc =
     cmp_then (cmp_by lc asg_capabilityId)
    (cmp_then (cmp_by lc asg_providerId)
    (cmp_then (cmp_by lc (\<lambda>a. js_join '','' (asg_integrationIds a)))
    (cmp_then (cmp_by lc (\<lambda>a. support_name (asg_support a)))
    (cmp_then (cmp_by compareNumbers asg_confidence)
    (cmp_then (cmp_by compareNumbers (\<lambda>a. if asg_installed a then 1 else 0 :: nat))
      (cmp_by compareNumbers (\<lambda>a. or_unranked (asg_preferredRank a))))))))"

definition sortedAssignments :: "(string \<Rightarrow> string \<Rightarrow> int) \<Rightarrow> capability_assignment list \<Rightarrow>
    capability_assignment list" where
  "sortedAssignments lc assignments =
     js_sort (assignment_compare lc)
       (map (\<lambda>a. a\<lparr>asg_integrationIds := sort (asg_integrationIds a)\<rparr>) assignments)"

text \<open>\<open>for (const result of comparisons) if (result !== 0) return result; return 0\<close>\<close>

fun first_nonzero :: "int list \<Rightarrow> int" where
  "first_nonzero [] = 0"
| "first_nonzero (r # rs) = (if r \<noteq> 0 then r else first_nonzero rs)"

definition vector_at :: "nat list \<Rightarrow> nat \<Rightarrow> nat" where
  "vector_at v i = (if i < length v then v ! i else UNRANKED)"

definition compareVectors :: "nat list \<Rightarrow> nat list \<Rightarrow> int" where
  "compareVectors left right =
     first_nonzero (map (\<lambda>index. compareNumbers (vector_at left index) (vector_at right index))
       [0 ..< max (length left) (length right)])"

definition preferred_rank_of :: "capability_assignment list \<Rightarrow> string \<Rightarrow> nat" where
  "preferred_rank_of assignments providerId =
     (let values = List.map_filter asg_preferredRank
        (filter (\<lambda>a. asg_providerId a = providerId) assignments)
      in if values = [] then UNRANKED else Min (set values))"

definition rankRouteCandidate :: "(string \<Rightarrow> string \<Rightarrow> int) \<Rightarrow> capability_assignment list \<Rightarrow>
    string list \<Rightarrow> ranked_route" where
  "rankRouteCandidate lc input_assignments input_ids =
     (let assignments = sortedAssignments lc input_assignments;
          selectedProviderIds = sort (js_set input_ids);
          installedProviders = js_set (map asg_providerId
            (filter (\<lambda>a. asg_providerId a \<in> set selectedProviderIds \<and> asg_installed a)
              assignments))
      in \<lparr>rank_assignments = assignments,
          rank_selectedProviderIds = selectedProviderIds,
          rank_selectedProviderCount = length selectedProviderIds,
          rank_nativeCoverageCount = length (filter asg_native assignments),
          rank_installedSelectedProviderCount = length installedProviders,
          rank_preferredRankVector =
            sort (map (preferred_rank_of assignments) selectedProviderIds),
          rank_primaryCount = length (filter (\<lambda>a. asg_support a = Primary) assignments),
          rank_secondaryCount = length (filter (\<lambda>a. asg_support a = Secondary) assignments),
          rank_fallbackCount = length (filter (\<lambda>a. asg_support a = Fallback) assignments),
          rank_confidenceTotal = foldl (\<lambda>sum a. sum + asg_confidence a) 0 assignments,
          rank_architectureSignature = js_join ''|''
            (map (\<lambda>a. asg_capabilityId a @ '':'' @ asg_providerId a) assignments)\<rparr>)"

definition compareRouteCandidates :: "ranked_route \<Rightarrow> ranked_route \<Rightarrow> int" where
  "compareRouteCandidates left right =
     (let scalar = first_nonzero
            [compareNumbers (rank_selectedProviderCount left) (rank_selectedProviderCount right),
             compareNumbers (- int (rank_nativeCoverageCount left))
               (- int (rank_nativeCoverageCount right)),
             compareNumbers (- int (rank_installedSelectedProviderCount left))
               (- int (rank_installedSelectedProviderCount right))]
      in if scalar \<noteq> 0 then scalar
      else
        let preferred = compareVectors (rank_preferredRankVector left)
              (rank_preferredRankVector right)
        in if preferred \<noteq> 0 then preferred
        else first_nonzero
            [compareNumbers (- int (rank_primaryCount left)) (- int (rank_primaryCount right)),
             compareNumbers (- int (rank_secondaryCount left)) (- int (rank_secondaryCount right)),
             compareNumbers (rank_fallbackCount left) (rank_fallbackCount right),
             compareNumbers (- int (rank_confidenceTotal left)) (- int (rank_confidenceTotal right))])"

definition isMaterialArchitecturalTie :: "ranked_route \<Rightarrow> ranked_route \<Rightarrow> bool" where
  "isMaterialArchitecturalTie left right \<longleftrightarrow>
     compareRouteCandidates left right = 0 \<and>
     rank_architectureSignature left \<noteq> rank_architectureSignature right"

section \<open>The order on routes is consistent\<close>

lemma compareNumbers_order: "compareNumbers = order_compare"
  by (intro ext) (simp add: compareNumbers_def order_compare_def)

lemma comparator_compareNumbers [cmp_intros]: "comparator compareNumbers"
  unfolding compareNumbers_order by (rule comparator_order_compare)

lemma compareNumbers_zero [simp]: "compareNumbers x y = 0 \<longleftrightarrow> x = y"
  by (simp add: compareNumbers_order)

lemma comparator_zero: "comparator (\<lambda>x y. 0)"
  by unfold_locales simp_all

lemma comparator_first_nonzero:
  assumes "\<And>i. i \<in> set is \<Longrightarrow> comparator (c i)"
  shows "comparator (\<lambda>x y. first_nonzero (map (\<lambda>i. c i x y) is))"
  using assms
proof (induction "is")
  case Nil
  then show ?case by (simp add: comparator_zero)
next
  case (Cons i "is")
  then have "comparator (cmp_then (c i) (\<lambda>x y. first_nonzero (map (\<lambda>i. c i x y) is)))"
    by (intro comparator_then) simp_all
  moreover have "cmp_then (c i) (\<lambda>x y. first_nonzero (map (\<lambda>i. c i x y) is)) =
      (\<lambda>x y. first_nonzero (map (\<lambda>i. c i x y) (i # is)))"
    by (intro ext) (simp add: cmp_then_def Let_def)
  ultimately show ?case by simp
qed

lemma first_nonzero_append:
  "first_nonzero (rs @ ss) = (if first_nonzero rs \<noteq> 0 then first_nonzero rs else first_nonzero ss)"
  by (induction rs) auto

lemma first_nonzero_zero: "first_nonzero rs = 0 \<longleftrightarrow> (\<forall>r \<in> set rs. r = 0)"
  by (induction rs) auto

text \<open>The vectors may be compared up to any common length that covers both.\<close>

lemma compareVectors_upto:
  assumes "max (length v) (length w) \<le> n"
  shows "compareVectors v w =
    first_nonzero (map (\<lambda>i. compareNumbers (vector_at v i) (vector_at w i)) [0 ..< n])"
proof -
  let ?m = "max (length v) (length w)"
  have "[0 ..< n] = [0 ..< ?m] @ [?m ..< n]"
    using assms by (metis le_add_diff_inverse upt_add_eq_append zero_le)
  moreover have "first_nonzero (map (\<lambda>i. compareNumbers (vector_at v i) (vector_at w i))
      [?m ..< n]) = 0"
    unfolding first_nonzero_zero by (auto simp: vector_at_def)
  ultimately show ?thesis
    unfolding compareVectors_def by (simp add: first_nonzero_append)
qed

lemma comparator_compareVectors [cmp_intros]: "comparator compareVectors"
proof -
  have fixed: "comparator (\<lambda>v w. first_nonzero
      (map (\<lambda>i. compareNumbers (vector_at v i) (vector_at w i)) [0 ..< n]))" for n
  proof (rule comparator_first_nonzero)
    fix i
    have "cmp_by compareNumbers (\<lambda>v. vector_at v i) =
        (\<lambda>v w. compareNumbers (vector_at v i) (vector_at w i))"
      by (intro ext) (simp add: cmp_by_def)
    then show "comparator (\<lambda>v w. compareNumbers (vector_at v i) (vector_at w i))"
      using comparator_by [OF comparator_compareNumbers] by metis
  qed
  show ?thesis
  proof
    fix x y z :: "nat list"
    let ?n = "max (length x) (max (length y) (length z))"
    have up: "compareVectors v w = first_nonzero
        (map (\<lambda>i. compareNumbers (vector_at v i) (vector_at w i)) [0 ..< ?n])"
      if "v \<in> {x, y, z}" "w \<in> {x, y, z}" for v w
      using that by (intro compareVectors_upto) auto
    let ?c = "\<lambda>v w. first_nonzero
      (map (\<lambda>i. compareNumbers (vector_at v i) (vector_at w i)) [0 ..< ?n])"
    have "sgn (?c y x) = - sgn (?c x y)" by (rule comparator.cmp_swap [OF fixed])
    then show "sgn (compareVectors y x) = - sgn (compareVectors x y)"
      using up [of y x] up [of x y] by (simp only: insert_iff simp_thms)
    assume "compareVectors x y \<le> 0" and "compareVectors y z \<le> 0"
    then have "?c x y \<le> 0" and "?c y z \<le> 0"
      using up [of x y] up [of y z] by (simp_all only: insert_iff simp_thms)
    then have "?c x z \<le> 0" by (rule comparator.cmp_trans [OF fixed])
    then show "compareVectors x z \<le> 0"
      using up [of x z] by (simp only: insert_iff simp_thms)
  qed
qed

lemma compareRouteCandidates_chain:
  "compareRouteCandidates =
     cmp_then (cmp_by compareNumbers rank_selectedProviderCount)
    (cmp_then (cmp_by compareNumbers (\<lambda>r. - int (rank_nativeCoverageCount r)))
    (cmp_then (cmp_by compareNumbers (\<lambda>r. - int (rank_installedSelectedProviderCount r)))
    (cmp_then (cmp_by compareVectors rank_preferredRankVector)
    (cmp_then (cmp_by compareNumbers (\<lambda>r. - int (rank_primaryCount r)))
    (cmp_then (cmp_by compareNumbers (\<lambda>r. - int (rank_secondaryCount r)))
    (cmp_then (cmp_by compareNumbers rank_fallbackCount)
      (cmp_by compareNumbers (\<lambda>r. - int (rank_confidenceTotal r)))))))))"
  by (intro ext) (simp add: compareRouteCandidates_def cmp_then_def cmp_by_def Let_def)

lemma comparator_compareRouteCandidates: "comparator compareRouteCandidates"
  unfolding compareRouteCandidates_chain by (intro cmp_intros)

interpretation route_order: comparator compareRouteCandidates
  by (rule comparator_compareRouteCandidates)

section \<open>The score does not depend on the order of the input\<close>

lemma mset_sortedAssignments:
  "mset (sortedAssignments lc xs) =
     image_mset (\<lambda>a. a\<lparr>asg_integrationIds := sort (asg_integrationIds a)\<rparr>) (mset xs)"
  by (simp add: sortedAssignments_def)

lemma set_sortedAssignments:
  "set (sortedAssignments lc xs) =
     (\<lambda>a. a\<lparr>asg_integrationIds := sort (asg_integrationIds a)\<rparr>) ` set xs"
  by (simp add: sortedAssignments_def)

text \<open>The components of the score as functions of a multiset of assignments.\<close>

lemma length_filter_mset:
  "mset xs = mset ys \<Longrightarrow> length (filter P xs) = length (filter P ys)"
  by (metis mset_filter size_mset)

lemma confidence_total: "foldl (\<lambda>sum a. sum + f a) (n::nat) xs = n + sum_list (map f xs)"
  by (induction xs arbitrary: n) auto

lemma confidence_mset:
  fixes f :: "'a \<Rightarrow> nat"
  assumes "mset xs = mset ys"
  shows "foldl (\<lambda>sum a. sum + f a) 0 xs = foldl (\<lambda>sum a. sum + f a) 0 ys"
  unfolding confidence_total using assms by (metis mset_map sum_mset_sum_list)

lemma set_map_filter: "set (List.map_filter f xs) = {y. \<exists>x \<in> set xs. f x = Some y}"
  by (induction xs) (auto simp: List.map_filter_def split: option.splits)

lemma preferred_rank_of_set:
  assumes "set xs = set ys"
  shows "preferred_rank_of xs p = preferred_rank_of ys p"
proof -
  let ?f = "\<lambda>zs. List.map_filter asg_preferredRank (filter (\<lambda>a. asg_providerId a = p) zs)"
  have "set (?f xs) = set (?f ys)" using assms by (simp add: set_map_filter)
  moreover from this have "?f xs = [] \<longleftrightarrow> ?f ys = []" by (metis set_empty)
  ultimately show ?thesis by (simp add: preferred_rank_of_def Let_def)
qed

lemma sorted_pairs_unique:
  assumes "strict_collation lc" and "mset xs = mset ys"
  defines "f \<equiv> (\<lambda>a. (asg_capabilityId a, asg_providerId a))"
  shows "map f (sortedAssignments lc xs) = map f (sortedAssignments lc ys)"
proof -
  note cmp = strict_collation_comparator [OF assms(1)]
  let ?c = "cmp_then (cmp_by lc fst) (cmp_by lc snd)"
  have pair: "comparator ?c"
    using cmp by (intro comparator_then comparator_by)
  have "comparator (assignment_compare lc)"
    unfolding assignment_compare_def using cmp
    by (intro comparator_then comparator_by comparator_compareNumbers)
  then have "sorted_wrt (\<lambda>x y. assignment_compare lc x y \<le> 0) (sortedAssignments lc zs)" for zs
    unfolding sortedAssignments_def by (rule comparator.sorted_js_sort)
  moreover have mono: "?c (f a) (f b) \<le> 0" if "assignment_compare lc a b \<le> 0" for a b
    using that by (auto simp: assignment_compare_def cmp_then_def cmp_by_def f_def Let_def
        split: if_splits)
  ultimately have "sorted_wrt (\<lambda>x y. ?c (f x) (f y) \<le> 0) (sortedAssignments lc zs)" for zs
    using sorted_wrt_mono_rel [of "sortedAssignments lc zs" "\<lambda>x y. assignment_compare lc x y \<le> 0"
        "\<lambda>x y. ?c (f x) (f y) \<le> 0"] by (metis (no_types, lifting))
  then have "sorted_wrt (\<lambda>x y. ?c x y \<le> 0) (map f (sortedAssignments lc zs))" for zs
    by (simp add: sorted_wrt_map)
  moreover have "mset (map f (sortedAssignments lc xs)) = mset (map f (sortedAssignments lc ys))"
    using assms(2) by (simp add: mset_sortedAssignments)
  ultimately show ?thesis
    by (intro comparator.sorted_unique [OF pair])
      (auto simp: cmp_then_zero cmp_by_def prod_eq_iff strict_collation_zero [OF assms(1)])
qed

lemma rankRouteCandidate_perm:
  assumes "strict_collation lc" and "mset xs = mset ys" and "set is = set js"
  defines "l \<equiv> rankRouteCandidate lc xs is" and "r \<equiv> rankRouteCandidate lc ys js"
  shows "rank_selectedProviderIds l = rank_selectedProviderIds r"
    and "rank_architectureSignature l = rank_architectureSignature r"
    and "compareRouteCandidates l r = 0"
proof -
  let ?x = "sortedAssignments lc xs" and ?y = "sortedAssignments lc ys"
  have m: "mset ?x = mset ?y" using assms(2) by (simp add: mset_sortedAssignments)
  then have s: "set ?x = set ?y" by (rule mset_eq_setD)
  have ids: "sort (js_set is) = sort (js_set js)"
    using assms(3) stableUnique_eq_iff [of "is" js] by (simp add: stableUnique_def)
  then show ids': "rank_selectedProviderIds l = rank_selectedProviderIds r"
    by (simp add: l_def r_def rankRouteCandidate_def Let_def)
  let ?h = "\<lambda>a. asg_capabilityId a @ '':'' @ asg_providerId a"
  have split: "map ?h zs =
      map (\<lambda>p. fst p @ '':'' @ snd p) (map (\<lambda>a. (asg_capabilityId a, asg_providerId a)) zs)" for zs
    by simp
  have sig: "map ?h ?x = map ?h ?y"
    unfolding split sorted_pairs_unique [OF assms(1,2)] ..
  show "rank_architectureSignature l = rank_architectureSignature r"
    by (simp only: l_def r_def rankRouteCandidate_def Let_def ranked_route.simps sig)
  have "length (filter P ?x) = length (filter P ?y)" for P
    using m by (rule length_filter_mset)
  moreover have "length (js_set (map asg_providerId (filter P ?x))) =
      length (js_set (map asg_providerId (filter P ?y)))" for P
    using s by (simp add: length_js_set)
  moreover have "preferred_rank_of ?x = preferred_rank_of ?y"
    using preferred_rank_of_set [OF s] by blast
  moreover have "foldl (\<lambda>sum a. sum + asg_confidence a) 0 ?x =
      foldl (\<lambda>sum a. sum + asg_confidence a) 0 ?y"
    using m by (rule confidence_mset)
  ultimately have "rank_selectedProviderCount l = rank_selectedProviderCount r"
    "rank_nativeCoverageCount l = rank_nativeCoverageCount r"
    "rank_installedSelectedProviderCount l = rank_installedSelectedProviderCount r"
    "rank_preferredRankVector l = rank_preferredRankVector r"
    "rank_primaryCount l = rank_primaryCount r" "rank_secondaryCount l = rank_secondaryCount r"
    "rank_fallbackCount l = rank_fallbackCount r" "rank_confidenceTotal l = rank_confidenceTotal r"
    unfolding l_def r_def rankRouteCandidate_def Let_def ids by simp_all
  then show "compareRouteCandidates l r = 0"
    unfolding compareRouteCandidates_chain cmp_then_zero cmp_by_def
    by (simp add: comparator.cmp_refl [OF comparator_compareVectors])
qed

lemma rank_selectedProviderCount_eq:
  "rank_selectedProviderCount (rankRouteCandidate lc xs is) = card (set is)"
  by (simp add: rankRouteCandidate_def Let_def length_js_set)

lemma rank_selectedProviderIds_eq [simp]:
  "rank_selectedProviderIds (rankRouteCandidate lc xs is) = stableUnique is"
  by (simp add: rankRouteCandidate_def stableUnique_def Let_def)

section \<open>Properties\<close>

text \<open>
  The order between routes is a consistent comparator (a total preorder, with opposite signs
  the other way round), and its first criterion is the number of selected providers: a route
  that needs fewer providers always comes first.
\<close>

theorem compareRouteCandidates_consistent:
  "comparator compareRouteCandidates \<and>
   (\<forall>l r. rank_selectedProviderCount l < rank_selectedProviderCount r \<longrightarrow>
      compareRouteCandidates l r < 0)"
  using comparator_compareRouteCandidates
  by (simp add: compareRouteCandidates_chain cmp_then_def cmp_by_def compareNumbers_def)

theorem compareRouteCandidates_consistent_witness:
  "compareRouteCandidates (rankRouteCandidate code_unit_compare [] [''gsap''])
     (rankRouteCandidate code_unit_compare [] [''gsap'', ''motion'']) < 0"
  using compareRouteCandidates_consistent by (simp add: rank_selectedProviderCount_eq)

text \<open>
  The score does not depend on the order of the assignments or of the selected providers: two
  orders of one route have the same providers and signature, compare equal, and are never
  reported as an architectural tie.
\<close>

theorem rankRouteCandidate_order_independent:
  assumes "strict_collation lc" and "mset xs = mset ys" and "set is = set js"
  shows "compareRouteCandidates (rankRouteCandidate lc xs is) (rankRouteCandidate lc ys js) = 0 \<and>
    rank_architectureSignature (rankRouteCandidate lc xs is) =
      rank_architectureSignature (rankRouteCandidate lc ys js) \<and>
    \<not> isMaterialArchitecturalTie (rankRouteCandidate lc xs is) (rankRouteCandidate lc ys js)"
  using rankRouteCandidate_perm [OF assms] by (simp add: isMaterialArchitecturalTie_def)

theorem rankRouteCandidate_order_independent_witness:
  "\<not> isMaterialArchitecturalTie
     (rankRouteCandidate code_unit_compare
       [plain_assignment ''motion.svg'' ''gsap'', plain_assignment ''motion.layout'' ''motion'']
       [''gsap'', ''motion''])
     (rankRouteCandidate code_unit_compare
       [plain_assignment ''motion.layout'' ''motion'', plain_assignment ''motion.svg'' ''gsap'']
       [''motion'', ''gsap''])"
  using rankRouteCandidate_order_independent [OF code_units.strict_collation_axioms, of
      "[plain_assignment ''motion.svg'' ''gsap'', plain_assignment ''motion.layout'' ''motion'']"
      "[plain_assignment ''motion.layout'' ''motion'', plain_assignment ''motion.svg'' ''gsap'']"
      "[''gsap'', ''motion'']" "[''motion'', ''gsap'']"]
  by (simp add: add_mset_commute insert_commute)

end
