(* ===== verification/Contracts_Validation.thy ===== *)
theory Contracts_Validation
  imports Contracts_Types
begin

text \<open>
  \<open>packages/contracts/src/validation/validator.ts\<close>: the result of checking a value against a
  named JSON schema. The schema checker itself is the third-party package Ajv; a validator is an
  argument of the definitions that use it, \<open>None\<close> where Ajv accepts the value and the list of
  normalised errors where it does not.
\<close>

record contract_issue =
  issue_instancePath :: string
  issue_schemaPath :: string
  issue_keyword :: string
  issue_message :: string
  issue_params :: "(string \<times> json) list"

type_synonym 'a validator = "'a \<Rightarrow> contract_issue list option"

text \<open>\<open>ValidationResult\<close>: the issues of a failure or the value of a success.\<close>

definition validateContract :: "'a validator \<Rightarrow> 'a \<Rightarrow> contract_issue list + 'a" where
  "validateContract validator value =
     (case validator value of None \<Rightarrow> Inr value | Some issues \<Rightarrow> Inl issues)"

definition ContractValidationError :: "string \<Rightarrow> exn" where
  "ContractValidationError msg = Exn ''ContractValidationError'' ''VALIDATION_FAILED'' msg"

definition assertContract :: "string \<Rightarrow> 'a validator \<Rightarrow> 'a \<Rightarrow> unit result" where
  "assertContract name validator value =
     (case validateContract validator value of
        Inl issues \<Rightarrow>
          Inl (ContractValidationError (''Value does not satisfy the '' @ [CHR 0x22] @ name @
            [CHR 0x22] @ '' contract.''))
      | Inr _ \<Rightarrow> Inr ())"

text \<open>The text every caller makes of an issue list: path or \<open>/\<close>, keyword and message.\<close>

definition issue_path :: "contract_issue \<Rightarrow> string" where
  "issue_path issue = (if issue_instancePath issue = '''' then ''/'' else issue_instancePath issue)"

definition validationMessage :: "contract_issue list \<Rightarrow> string" where
  "validationMessage issues =
     js_join ''; '' (map (\<lambda>issue. issue_path issue @ '' '' @ issue_keyword issue @ '': '' @
       issue_message issue) issues)"

text \<open>\<open>issuePath keyword\<close>, the shorter form of the snapshot builder.\<close>

definition issue_summary :: "contract_issue list \<Rightarrow> string" where
  "issue_summary issues =
     js_join '', '' (map (\<lambda>issue. issue_path issue @ '' '' @ issue_keyword issue) issues)"

lemma validateContract_Inr [simp]:
  "validateContract v x = Inr y \<longleftrightarrow> v x = None \<and> y = x"
  by (auto simp: validateContract_def split: option.splits)

lemma validateContract_Inl [simp]:
  "validateContract v x = Inl is \<longleftrightarrow> v x = Some is"
  by (auto simp: validateContract_def split: option.splits)

text \<open>A validator that accepts every value, for concrete runs.\<close>

definition accept_all :: "'a validator" where
  "accept_all x = None"

lemma accept_all_simp [simp]: "accept_all x = None"
  by (simp add: accept_all_def)

text \<open>JSON helpers: optional properties are absent when undefined.\<close>

definition strs_json :: "string list \<Rightarrow> json" where
  "strs_json xs = JArr (map JStr xs)"

definition opt_str_json :: "string option \<Rightarrow> json" where
  "opt_str_json s = (case s of None \<Rightarrow> JNull | Some t \<Rightarrow> JStr t)"

definition opt_entry :: "string \<Rightarrow> json option \<Rightarrow> (string \<times> json) list" where
  "opt_entry k v = (case v of None \<Rightarrow> [] | Some j \<Rightarrow> [(k, j)])"

lemma inj_JStr [simp]: "inj JStr"
  by (rule injI) simp

lemma strs_json_inject [simp]: "strs_json xs = strs_json ys \<longleftrightarrow> xs = ys"
  by (auto simp: strs_json_def inj_map_eq_map)

lemma opt_str_json_inject [simp]: "opt_str_json a = opt_str_json b \<longleftrightarrow> a = b"
  by (auto simp: opt_str_json_def split: option.splits)

lemma map_normalize_JStr [simp]: "map (normalize_json \<circ> JStr) xs = map JStr xs"
  by simp

lemma normalize_strs_json [simp]: "normalize_json (strs_json xs) = strs_json xs"
  by (simp add: strs_json_def comp_def)

lemma normalize_opt_str_json [simp]: "normalize_json (opt_str_json s) = opt_str_json s"
  by (simp add: opt_str_json_def split: option.splits)

lemma finite_strs_json [simp]: "finite_json (strs_json xs)"
  by (simp add: strs_json_def)

lemma finite_opt_str_json [simp]: "finite_json (opt_str_json s)"
  by (simp add: opt_str_json_def split: option.splits)

lemma finite_opt_entry:
  "(\<forall>kv \<in> set (opt_entry k v). finite_json (snd kv)) \<longleftrightarrow> (\<forall>j. v = Some j \<longrightarrow> finite_json j)"
  by (auto simp: opt_entry_def split: option.splits)

lemma map_of_opt_entry [simp]:
  "(m ++ map_of (opt_entry k v)) k' = (if k' = k \<and> v \<noteq> None then v else m k')"
  "map_of (opt_entry k v) k' = (if k' = k then v else None)"
  by (auto simp: opt_entry_def map_add_def split: option.splits)

end
