(* ===== verification/Catalog_Types.thy ===== *)
theory Catalog_Types
  imports Contracts_Validation
begin

text \<open>
  \<open>packages/core/src/catalog\<close>: connector records, health reports and the catalogue reader, an
  interface whose operations are the fields of a record. \<open>CatalogService\<close> delegates to it.
\<close>

datatype connector_record =
  LegacyRecord (record_directoryId: string) (record_path: string)
    (record_schemaVersion: "string option")
| SchemaV2Record (record_directoryId: string) (record_path: string)
    (record_manifest: connector_manifest) (record_selectable: bool)

datatype health_state = HBlocked | HHealthy | HInvalid | HLegacy | HMissing

record health_report =
  health_connectorId :: string
  health_state :: health_state
  health_selectable :: bool
  health_reviewStatus :: "review_status option"
  health_blockers :: "string list"
  health_warnings :: "string list"
  health_errors :: "string list"

record catalog_reader =
  reader_capabilityCatalog :: capability_catalog
  reader_list :: "connector_record list"
  reader_get :: "string \<Rightarrow> connector_record option"
  reader_health :: "string \<Rightarrow> health_report"
  reader_snapshot :: "string \<Rightarrow> catalog_snapshot result"

fun is_schema_v2 :: "connector_record \<Rightarrow> bool" where
  "is_schema_v2 (SchemaV2Record _ _ _ _) = True"
| "is_schema_v2 (LegacyRecord _ _ _) = False"

definition approved_review :: "review_status \<Rightarrow> bool" where
  "approved_review s \<longleftrightarrow> s \<in> {RApproved, RStable}"

section \<open>CatalogService\<close>

definition listConnectors :: "catalog_reader \<Rightarrow> connector_record list" where
  "listConnectors reader = reader_list reader"

definition getConnector :: "catalog_reader \<Rightarrow> string \<Rightarrow> connector_record option" where
  "getConnector reader connectorId = reader_get reader connectorId"

definition getConnectorHealth :: "catalog_reader \<Rightarrow> string \<Rightarrow> health_report" where
  "getConnectorHealth reader connectorId = reader_health reader connectorId"

definition createSnapshot :: "catalog_reader \<Rightarrow> string \<Rightarrow> catalog_snapshot result" where
  "createSnapshot reader createdAt = reader_snapshot reader createdAt"

end
