(* ===== verification/Router_Policy.thy ===== *)
theory Router_Policy
  imports Contracts_Validation
begin

text \<open>
  \<open>packages/core/src/router/policy.ts\<close> and the error class of \<open>types.ts\<close>: the built-in read-only
  routing policy, the check that an override only tightens it, the normal form of a policy and
  its content digest.
\<close>

definition RouteInputError :: "string \<Rightarrow> string \<Rightarrow> exn" where
  "RouteInputError code msg = Exn ''RouteInputError'' code (code @ '': '' @ msg)"

record active_policy =
  active_document :: policy_document
  active_snapshotId :: digest

definition PHASE4_POLICY :: policy_document where
  "PHASE4_POLICY = \<lparr>
     policy_policyId = ''phase-4-read-only'',
     policy_version = ''1.0.0'',
     policy_scope = BuiltinScope,
     policy_rules = \<lparr>
       rule_allowedConnectors = [''gsap'', ''motion'', ''web-platform''],
       rule_deniedConnectors = [],
       rule_allowExperimental = False,
       rule_allowedLicenses = [''LicenseRef-GSAP-Standard'', ''MIT'', ''not-applicable''],
       rule_allowPaidServices = False,
       rule_network = \<lparr>net_mode = Deny, net_allowedHosts = []\<rparr>,
       rule_filesystem = \<lparr>fs_read = [''project''], fs_write = []\<rparr>,
       rule_allowRemoteProjectContent = False,
       rule_maxBundleKilobytes = None,
       rule_requireReducedMotion = True,
       rule_requiredApprovals = []\<rparr>\<rparr>"

section \<open>The wire form of a policy\<close>

definition bundle_json :: "nat option option \<Rightarrow> json option" where
  "bundle_json b =
     map_option (\<lambda>n. case n of None \<Rightarrow> JNull | Some k \<Rightarrow> JInt (int k)) b"

definition rules_json :: "policy_rules \<Rightarrow> json" where
  "rules_json r = JObj (
     [(''allowedConnectors'', strs_json (rule_allowedConnectors r)),
      (''deniedConnectors'', strs_json (rule_deniedConnectors r)),
      (''allowExperimental'', JBool (rule_allowExperimental r)),
      (''allowedLicenses'', strs_json (rule_allowedLicenses r)),
      (''allowPaidServices'', JBool (rule_allowPaidServices r)),
      (''network'', JObj
        [(''mode'', JStr (network_mode_name (net_mode (rule_network r)))),
         (''allowedHosts'', strs_json (net_allowedHosts (rule_network r)))]),
      (''filesystem'', JObj
        [(''read'', strs_json (fs_read (rule_filesystem r))),
         (''write'', strs_json (fs_write (rule_filesystem r)))]),
      (''allowRemoteProjectContent'', JBool (rule_allowRemoteProjectContent r))] @
     opt_entry ''maxBundleKilobytes'' (bundle_json (rule_maxBundleKilobytes r)) @
     [(''requireReducedMotion'', JBool (rule_requireReducedMotion r)),
      (''requiredApprovals'', strs_json (rule_requiredApprovals r))])"

definition policy_json :: "policy_document \<Rightarrow> json" where
  "policy_json p = JObj
     [(''schemaVersion'', JStr ''1.0.0-draft.1''),
      (''contractKind'', JStr ''policy''),
      (''policyId'', JStr (policy_policyId p)),
      (''version'', JStr (policy_version p)),
      (''scope'', JStr (policy_scope_name (policy_scope p))),
      (''rules'', rules_json (policy_rules p))]"

section \<open>The checks\<close>

definition subset :: "string list \<Rightarrow> string list \<Rightarrow> bool" where
  "subset values allowed \<longleftrightarrow> list_all (\<lambda>value. value \<in> set allowed) values"

definition assertValidPolicy :: "policy_document validator \<Rightarrow> policy_document \<Rightarrow>
    policy_document result" where
  "assertValidPolicy valid value =
     (case validateContract valid value of
        Inl issues \<Rightarrow> Inl (RouteInputError ''POLICY_INVALID'' (validationMessage issues))
      | Inr v \<Rightarrow> Inr v)"

definition weakening_fields :: "policy_document \<Rightarrow> string list" where
  "weakening_fields policy =
     (let base = policy_rules PHASE4_POLICY; rules = policy_rules policy in
      (if \<not> subset (rule_allowedConnectors rules) (rule_allowedConnectors base)
       then [''allowedConnectors''] else []) @
      (if \<not> subset (rule_allowedLicenses rules) (rule_allowedLicenses base)
       then [''allowedLicenses''] else []) @
      (if rule_allowExperimental rules then [''allowExperimental''] else []) @
      (if rule_allowPaidServices rules then [''allowPaidServices''] else []) @
      (if net_mode (rule_network rules) \<noteq> Deny \<or> net_allowedHosts (rule_network rules) \<noteq> []
       then [''network''] else []) @
      (if \<not> subset (fs_read (rule_filesystem rules)) (fs_read (rule_filesystem base))
       then [''filesystem.read''] else []) @
      (if fs_write (rule_filesystem rules) \<noteq> [] then [''filesystem.write''] else []) @
      (if rule_allowRemoteProjectContent rules then [''allowRemoteProjectContent''] else []) @
      (if \<not> rule_requireReducedMotion rules then [''requireReducedMotion''] else []))"

definition assertTightening :: "policy_document \<Rightarrow> unit result" where
  "assertTightening policy =
     (let weakening = weakening_fields policy in
      guard (weakening \<noteq> []) (RouteInputError ''POLICY_WEAKENING_DENIED''
        (''Override weakens Phase 4 policy fields: '' @ js_join '', '' (sort weakening) @ ''.'')))"

definition normalizedPolicy :: "policy_document \<Rightarrow> policy_document" where
  "normalizedPolicy policy =
     (let rules = policy_rules policy in
      policy\<lparr>policy_rules := rules\<lparr>
        rule_allowedConnectors := stableUnique (rule_allowedConnectors rules),
        rule_deniedConnectors := stableUnique (rule_deniedConnectors rules),
        rule_allowedLicenses := stableUnique (rule_allowedLicenses rules),
        rule_network := \<lparr>net_mode = net_mode (rule_network rules),
          net_allowedHosts = stableUnique (net_allowedHosts (rule_network rules))\<rparr>,
        rule_filesystem := \<lparr>fs_read = stableUnique (fs_read (rule_filesystem rules)),
          fs_write = stableUnique (fs_write (rule_filesystem rules))\<rparr>,
        rule_requiredApprovals := stableUnique (rule_requiredApprovals rules)\<rparr>\<rparr>)"

definition getPhase4Policy :: "(string \<Rightarrow> string) \<Rightarrow> policy_document validator \<Rightarrow>
    policy_document option \<Rightarrow> active_policy result" where
  "getPhase4Policy sha valid override =
     chain (case override of None \<Rightarrow> Inr PHASE4_POLICY | Some p \<Rightarrow> assertValidPolicy valid p)
       (\<lambda>source. chain (if override \<noteq> None then assertTightening source else Inr ())
       (\<lambda>_. chain (assertValidPolicy valid (normalizedPolicy source))
       (\<lambda>document. chain (digestJson sha (policy_json document))
       (\<lambda>snapshotId. Inr \<lparr>active_document = document, active_snapshotId = snapshotId\<rparr>))))"

section \<open>What an accepted policy may allow\<close>

text \<open>The contract of Phase 4: the rules stay within the built-in read-only policy.\<close>

definition phase4_bounds :: "policy_rules \<Rightarrow> bool" where
  "phase4_bounds r \<longleftrightarrow>
     set (rule_allowedConnectors r) \<subseteq> {''gsap'', ''motion'', ''web-platform''} \<and>
     set (rule_allowedLicenses r) \<subseteq> {''LicenseRef-GSAP-Standard'', ''MIT'', ''not-applicable''} \<and>
     \<not> rule_allowExperimental r \<and> \<not> rule_allowPaidServices r \<and>
     net_mode (rule_network r) = Deny \<and> net_allowedHosts (rule_network r) = [] \<and>
     set (fs_read (rule_filesystem r)) \<subseteq> {''project''} \<and> fs_write (rule_filesystem r) = [] \<and>
     \<not> rule_allowRemoteProjectContent r \<and> rule_requireReducedMotion r"

lemma subset_iff: "subset xs ys \<longleftrightarrow> set xs \<subseteq> set ys"
  by (auto simp: subset_def list_all_iff)

lemma weakening_fields_empty_iff: "weakening_fields p = [] \<longleftrightarrow> phase4_bounds (policy_rules p)"
  by (auto simp: weakening_fields_def phase4_bounds_def PHASE4_POLICY_def subset_iff Let_def)

lemma phase4_bounds_normalized [simp]:
  "phase4_bounds (policy_rules (normalizedPolicy p)) = phase4_bounds (policy_rules p)"
  by (simp add: phase4_bounds_def normalizedPolicy_def Let_def)

lemma phase4_bounds_builtin [simp]: "phase4_bounds (policy_rules PHASE4_POLICY)"
  by (simp add: phase4_bounds_def PHASE4_POLICY_def)

lemma assertValidPolicy_Inr [simp]:
  "assertValidPolicy valid p = Inr q \<longleftrightarrow> valid p = None \<and> q = p"
  by (auto simp: assertValidPolicy_def validateContract_def split: option.splits)

lemma finite_policy_json [simp]: "finite_json (policy_json p)"
  by (auto simp: policy_json_def rules_json_def finite_opt_entry bundle_json_def
      split: option.splits)

definition policy_digest :: "(string \<Rightarrow> string) \<Rightarrow> policy_document \<Rightarrow> digest" where
  "policy_digest sha p = json_digest sha (policy_json p)"

lemma digest_policy_json [simp]: "digestJson sha (policy_json p) = Inr (policy_digest sha p)"
  by (simp add: digestJson_finite policy_digest_def)

definition effective_source :: "policy_document option \<Rightarrow> policy_document" where
  "effective_source override = (case override of None \<Rightarrow> PHASE4_POLICY | Some p \<Rightarrow> p)"

lemma getPhase4Policy_Inr_iff:
  "getPhase4Policy sha valid override = Inr a \<longleftrightarrow>
     (let p = effective_source override in
      (override \<noteq> None \<longrightarrow> valid p = None \<and> phase4_bounds (policy_rules p)) \<and>
      valid (normalizedPolicy p) = None \<and>
      a = \<lparr>active_document = normalizedPolicy p,
           active_snapshotId = policy_digest sha (normalizedPolicy p)\<rparr>)"
  by (cases override)
    (auto simp: getPhase4Policy_def chain_eq_Inr effective_source_def assertTightening_def
      weakening_fields_empty_iff Let_def)

lemma getPhase4Policy_bounds:
  "getPhase4Policy sha valid override = Inr a \<Longrightarrow> phase4_bounds (policy_rules (active_document a))"
  by (cases override) (auto simp: getPhase4Policy_Inr_iff effective_source_def Let_def)

section \<open>The digest of a policy\<close>

lemma normalize_bundle_json:
  "map_option normalize_json (bundle_json a) = map_option normalize_json (bundle_json b) \<longleftrightarrow> a = b"
  "bundle_json a = None \<longleftrightarrow> a = None"
  by ((cases a; cases b; auto simp: bundle_json_def split: option.splits),
      simp add: bundle_json_def)

lemma normalize_rules_json:
  assumes "normalize_json (rules_json r) = normalize_json (rules_json s)"
  shows "r = s"
proof -
  let ?kvs = "\<lambda>r. [(''allowedConnectors'', strs_json (rule_allowedConnectors r)),
      (''deniedConnectors'', strs_json (rule_deniedConnectors r)),
      (''allowExperimental'', JBool (rule_allowExperimental r)),
      (''allowedLicenses'', strs_json (rule_allowedLicenses r)),
      (''allowPaidServices'', JBool (rule_allowPaidServices r)),
      (''network'', JObj
        [(''mode'', JStr (network_mode_name (net_mode (rule_network r)))),
         (''allowedHosts'', strs_json (net_allowedHosts (rule_network r)))]),
      (''filesystem'', JObj
        [(''read'', strs_json (fs_read (rule_filesystem r))),
         (''write'', strs_json (fs_write (rule_filesystem r)))]),
      (''allowRemoteProjectContent'', JBool (rule_allowRemoteProjectContent r))] @
     opt_entry ''maxBundleKilobytes'' (bundle_json (rule_maxBundleKilobytes r)) @
     [(''requireReducedMotion'', JBool (rule_requireReducedMotion r)),
      (''requiredApprovals'', strs_json (rule_requiredApprovals r))]"
  have d: "distinct (map fst (?kvs r))" for r
    by (simp add: opt_entry_def split: option.splits)
  have same: "map_option normalize_json (map_of (?kvs r) k) =
      map_option normalize_json (map_of (?kvs s) k)" for k
    using assms normalize_obj_eq_iff [OF d d, of r s] unfolding rules_json_def by blast
  have "rule_allowedConnectors r = rule_allowedConnectors s"
    using same [of "''allowedConnectors''"] by simp
  moreover have "rule_deniedConnectors r = rule_deniedConnectors s"
    using same [of "''deniedConnectors''"] by simp
  moreover have "rule_allowExperimental r = rule_allowExperimental s"
    using same [of "''allowExperimental''"] by simp
  moreover have "rule_allowedLicenses r = rule_allowedLicenses s"
    using same [of "''allowedLicenses''"] by simp
  moreover have "rule_allowPaidServices r = rule_allowPaidServices s"
    using same [of "''allowPaidServices''"] by simp
  moreover have "rule_network r = rule_network s"
    using same [of "''network''"] by (simp add: network_rules.equality)
  moreover have "rule_filesystem r = rule_filesystem s"
    using same [of "''filesystem''"] by (simp add: filesystem_rules.equality)
  moreover have "rule_allowRemoteProjectContent r = rule_allowRemoteProjectContent s"
    using same [of "''allowRemoteProjectContent''"] by simp
  moreover have "rule_maxBundleKilobytes r = rule_maxBundleKilobytes s"
    using same [of "''maxBundleKilobytes''"] by (simp add: normalize_bundle_json split: if_splits)
  moreover have "rule_requireReducedMotion r = rule_requireReducedMotion s"
    using same [of "''requireReducedMotion''"] by simp
  moreover have "rule_requiredApprovals r = rule_requiredApprovals s"
    using same [of "''requiredApprovals''"] by simp
  ultimately show ?thesis by (simp add: policy_rules.equality)
qed

lemma normalize_policy_json:
  assumes "normalize_json (policy_json p) = normalize_json (policy_json q)"
  shows "p = q"
proof -
  have "map (\<lambda>kv. normalize_json (snd kv))
      [(''schemaVersion'', JStr ''1.0.0-draft.1''), (''contractKind'', JStr ''policy''),
       (''policyId'', JStr (policy_policyId p)), (''version'', JStr (policy_version p)),
       (''scope'', JStr (policy_scope_name (policy_scope p))),
       (''rules'', rules_json (policy_rules p))] =
    map (\<lambda>kv. normalize_json (snd kv))
      [(''schemaVersion'', JStr ''1.0.0-draft.1''), (''contractKind'', JStr ''policy''),
       (''policyId'', JStr (policy_policyId q)), (''version'', JStr (policy_version q)),
       (''scope'', JStr (policy_scope_name (policy_scope q))),
       (''rules'', rules_json (policy_rules q))]"
    using assms unfolding policy_json_def by (rule normalize_obj_same_keys [rotated 2]) simp_all
  then have "policy_policyId p = policy_policyId q" "policy_version p = policy_version q"
    "policy_scope p = policy_scope q"
    "normalize_json (rules_json (policy_rules p)) = normalize_json (rules_json (policy_rules q))"
    by (simp_all only: list.map snd_conv list.inject normalize_json.simps json.inject
        enum_name_inject)
  then show ?thesis using normalize_rules_json by (simp add: policy_document.equality)
qed

lemma policy_digest_eq_iff:
  assumes "collision_free sha (policy_json p) (policy_json q)"
  shows "policy_digest sha p = policy_digest sha q \<longleftrightarrow> p = q"
  using assms normalize_policy_json by (auto simp: policy_digest_def json_digest_eq_iff)

text \<open>Two policies that differ only in the order and multiplicity of their lists.\<close>

definition same_policy :: "policy_document \<Rightarrow> policy_document \<Rightarrow> bool" where
  "same_policy p q \<longleftrightarrow>
     policy_policyId p = policy_policyId q \<and> policy_version p = policy_version q \<and>
     policy_scope p = policy_scope q \<and>
     (let r = policy_rules p; s = policy_rules q in
      set (rule_allowedConnectors r) = set (rule_allowedConnectors s) \<and>
      set (rule_deniedConnectors r) = set (rule_deniedConnectors s) \<and>
      rule_allowExperimental r = rule_allowExperimental s \<and>
      set (rule_allowedLicenses r) = set (rule_allowedLicenses s) \<and>
      rule_allowPaidServices r = rule_allowPaidServices s \<and>
      net_mode (rule_network r) = net_mode (rule_network s) \<and>
      set (net_allowedHosts (rule_network r)) = set (net_allowedHosts (rule_network s)) \<and>
      set (fs_read (rule_filesystem r)) = set (fs_read (rule_filesystem s)) \<and>
      set (fs_write (rule_filesystem r)) = set (fs_write (rule_filesystem s)) \<and>
      rule_allowRemoteProjectContent r = rule_allowRemoteProjectContent s \<and>
      rule_maxBundleKilobytes r = rule_maxBundleKilobytes s \<and>
      rule_requireReducedMotion r = rule_requireReducedMotion s \<and>
      set (rule_requiredApprovals r) = set (rule_requiredApprovals s))"

lemma normalizedPolicy_eq_iff: "normalizedPolicy p = normalizedPolicy q \<longleftrightarrow> same_policy p q"
proof (cases p; cases q)
  fix a b c r a' b' c' r'
  assume "p = \<lparr>policy_policyId = a, policy_version = b, policy_scope = c, policy_rules = r\<rparr>"
    "q = \<lparr>policy_policyId = a', policy_version = b', policy_scope = c', policy_rules = r'\<rparr>"
  then show ?thesis
    by (cases r; cases r')
      (auto simp: normalizedPolicy_def same_policy_def stableUnique_eq_iff Let_def)
qed

section \<open>Properties\<close>

text \<open>Two spellings of one policy, and a policy that asks for paid services.\<close>

definition narrowed_policy :: "string list \<Rightarrow> policy_document" where
  "narrowed_policy connectors =
     PHASE4_POLICY\<lparr>policy_rules := (policy_rules PHASE4_POLICY)\<lparr>
       rule_allowedConnectors := connectors\<rparr>\<rparr>"

lemma phase4_bounds_narrowed:
  "phase4_bounds (policy_rules (narrowed_policy cs)) \<longleftrightarrow>
     set cs \<subseteq> {''gsap'', ''motion'', ''web-platform''}"
  by (simp add: narrowed_policy_def phase4_bounds_def PHASE4_POLICY_def)

text \<open>
  C4: A policy the router obtains, built in or overridden, never allows more than the built-in
  read-only policy: no other connector or license, no experimental, paid or remote content, no
  network, no write access, and reduced motion required.
\<close>

theorem getPhase4Policy_never_weakens:
  assumes "getPhase4Policy sha valid override = Inr a"
  shows "phase4_bounds (policy_rules (active_document a))"
  using assms by (rule getPhase4Policy_bounds)

theorem getPhase4Policy_never_weakens_witness:
  "\<exists>a. getPhase4Policy (\<lambda>s. s) accept_all (Some (narrowed_policy [''motion''])) = Inr a \<and>
     phase4_bounds (policy_rules (active_document a))"
proof -
  obtain a where a: "getPhase4Policy (\<lambda>s. s) accept_all (Some (narrowed_policy [''motion''])) = Inr a"
    by (simp add: getPhase4Policy_Inr_iff effective_source_def Let_def phase4_bounds_narrowed)
  then show ?thesis using getPhase4Policy_never_weakens [OF a] by blast
qed

text \<open>
  An override that satisfies the policy contract is accepted exactly when it tightens the
  built-in policy, and is then normalised and identified by its digest; otherwise the error names
  exactly the weakened fields, sorted.
\<close>

theorem getPhase4Policy_override:
  assumes "valid p = None" and "valid (normalizedPolicy p) = None"
  shows "getPhase4Policy sha valid (Some p) =
    (if phase4_bounds (policy_rules p)
     then Inr \<lparr>active_document = normalizedPolicy p,
       active_snapshotId = policy_digest sha (normalizedPolicy p)\<rparr>
     else Inl (RouteInputError ''POLICY_WEAKENING_DENIED''
       (''Override weakens Phase 4 policy fields: '' @
        js_join '', '' (sort (weakening_fields p)) @ ''.'')))"
  using assms weakening_fields_empty_iff [of p]
  by (auto simp: getPhase4Policy_def assertTightening_def assertValidPolicy_def
      validateContract_def Let_def guard_def)

theorem getPhase4Policy_override_witness:
  "getPhase4Policy (\<lambda>s. s) accept_all (Some (narrowed_policy [''lottie'', ''gsap''])) =
     Inl (RouteInputError ''POLICY_WEAKENING_DENIED''
       ''Override weakens Phase 4 policy fields: allowedConnectors.'')"
proof -
  have "\<not> phase4_bounds (policy_rules (narrowed_policy [''lottie'', ''gsap'']))"
    by (simp add: phase4_bounds_narrowed)
  moreover have "weakening_fields (narrowed_policy [''lottie'', ''gsap'']) = [''allowedConnectors'']"
    by (simp add: weakening_fields_def narrowed_policy_def subset_def
        PHASE4_POLICY_def Let_def)
  ultimately show ?thesis by (simp add: getPhase4Policy_override)
qed

text \<open>
  The snapshot id of an accepted policy identifies the policy up to the order and the
  multiplicity of its lists, wherever the hash has no collision.
\<close>

theorem getPhase4Policy_snapshot_identity:
  assumes "collision_free sha (policy_json (normalizedPolicy p)) (policy_json (normalizedPolicy q))"
    and "getPhase4Policy sha valid (Some p) = Inr a"
    and "getPhase4Policy sha valid (Some q) = Inr b"
  shows "active_snapshotId a = active_snapshotId b \<longleftrightarrow> same_policy p q"
proof -
  have "active_snapshotId a = policy_digest sha (normalizedPolicy p)"
    "active_snapshotId b = policy_digest sha (normalizedPolicy q)"
    using assms(2,3) by (auto simp: getPhase4Policy_Inr_iff effective_source_def Let_def)
  then show ?thesis by (simp add: policy_digest_eq_iff [OF assms(1)] normalizedPolicy_eq_iff)
qed

theorem getPhase4Policy_snapshot_identity_witness:
  "\<exists>a b. getPhase4Policy (\<lambda>s. s) accept_all (Some (narrowed_policy [''motion'', ''gsap'', ''motion''])) = Inr a \<and>
     getPhase4Policy (\<lambda>s. s) accept_all (Some (narrowed_policy [''gsap'', ''motion''])) = Inr b \<and>
     active_snapshotId a = active_snapshotId b"
proof -
  let ?get = "\<lambda>cs. getPhase4Policy (\<lambda>s. s) accept_all (Some (narrowed_policy cs))"
  obtain a b where ab: "?get [''motion'', ''gsap'', ''motion''] = Inr a" "?get [''gsap'', ''motion''] = Inr b"
    by (simp add: getPhase4Policy_Inr_iff effective_source_def Let_def phase4_bounds_narrowed)
  have "active_snapshotId a = active_snapshotId b"
    using getPhase4Policy_snapshot_identity [OF collision_free_id ab]
    by (auto simp: same_policy_def narrowed_policy_def Let_def)
  then show ?thesis using ab by blast
qed

end
