(* ===== verification/Router_Fixtures.thy ===== *)
theory Router_Fixtures
  imports Catalog_Types Router_Policy
begin

text \<open>
  A small catalogue, project and request on which the witnesses of the router run: three healthy
  approved connectors, a React project and requests over their capabilities. The shapes follow
  \<open>packages/core/test/fixtures\<close>.
\<close>

definition fixture_integration :: "string \<Rightarrow> integration_kind \<Rightarrow> string \<Rightarrow> string option \<Rightarrow>
    integration_artifact" where
  "fixture_integration i kind license package = \<lparr>
     integration_id = i, integration_kind = kind, integration_mode = RuntimeMode,
     integration_status = Available, integration_source = ''https://example.test'',
     integration_version = \<lparr>version_status = VNotApplicable, version_value = None,
       version_digest = None, version_commit = None\<rparr>,
     integration_protocol = None,
     integration_authorization = \<lparr>auth_required = False, auth_method = NoAuth,
       auth_paidPlan = False\<rparr>,
     integration_executionRisk = NoRisk, integration_dataExposure = NoExposure,
     integration_permissions = \<lparr>perm_filesystem = ''none'', perm_network = [],
       perm_projectWrite = False\<rparr>,
     integration_licenseExpression = Some license, integration_fallback = None,
     integration_packageName = package, integration_importPaths = None,
     integration_command = None, integration_notes = None\<rparr>"

definition fixture_claim :: "string \<Rightarrow> capability_claim" where
  "fixture_claim c = \<lparr>claim_capability = c, claim_support = Primary, claim_confidence = 900000,
     claim_conditions = [], claim_limitations = []\<rparr>"

definition fixture_manifest :: "string \<Rightarrow> integration_artifact \<Rightarrow> string list \<Rightarrow>
    connector_manifest" where
  "fixture_manifest i integration claims = \<lparr>
     manifest_schema = None, manifest_connectorVersion = ''1.0.0'',
     manifest_connector = \<lparr>conn_id = i, conn_name = i, conn_publisher = ''soren'',
       conn_reviewStatus = RApproved, conn_selectable = True, conn_blockers = []\<rparr>,
     manifest_product = \<lparr>product_canonicalName = i, product_homepage = ''https://example.test'',
       product_aliases = [], product_categories = []\<rparr>,
     manifest_sourceTrust = \<lparr>trust_sourceAuthority = ''official'',
       trust_integrityLevel = ''url-recorded'', trust_reviewedAt = ''2026-01-01'',
       trust_reviewer = ''soren''\<rparr>,
     manifest_capabilityClaims = map fixture_claim claims,
     manifest_integrations = [integration],
     manifest_ownershipClaims = [],
     manifest_verification = \<lparr>checks_requiredChecks = [], checks_hardGates = []\<rparr>,
     manifest_relatedFiles = [],
     manifest_knowledge = \<lparr>knowledge_retrievedAt = ''2026-01-01'', knowledge_staleAfterDays = 90\<rparr>\<rparr>"

definition gsap_manifest :: connector_manifest where
  "gsap_manifest = fixture_manifest ''gsap''
     (fixture_integration ''gsap-core'' RuntimePackage ''LicenseRef-GSAP-Standard'' (Some ''gsap''))
     [''motion.timeline'', ''motion.layout'']"

definition motion_manifest :: connector_manifest where
  "motion_manifest = fixture_manifest ''motion''
     (fixture_integration ''motion-react'' RuntimePackage ''MIT'' (Some ''motion''))
     [''motion.layout'']"

definition web_manifest :: connector_manifest where
  "web_manifest = fixture_manifest ''web-platform''
     (fixture_integration ''css'' BuiltIn ''not-applicable'' None)
     [''platform.css-transition'']"

definition fixture_manifests :: "(string \<times> connector_manifest) list" where
  "fixture_manifests = [(''gsap'', gsap_manifest), (''motion'', motion_manifest),
     (''web-platform'', web_manifest)]"

definition fixture_capability :: "string \<Rightarrow> capability" where
  "fixture_capability c = \<lparr>capability_id = c, capability_family = ''motion'',
     capability_description = c, capability_native = False,
     capability_ownershipDomain = ''layout'', capability_requires = None,
     capability_conflictsWith = None\<rparr>"

definition fixture_snapshot :: catalog_snapshot where
  "fixture_snapshot = \<lparr>cs_snapshotId = ''sha256:catalog'', cs_createdAt = ''1970'',
     cs_capabilityCatalogDigest = ''sha256:capabilities'', cs_connectors = []\<rparr>"

definition fixture_reader :: catalog_reader where
  "fixture_reader = \<lparr>
     reader_capabilityCatalog = \<lparr>catalog_capabilities = map fixture_capability
       [''motion.layout'', ''motion.timeline'', ''platform.css-transition'']\<rparr>,
     reader_list = [],
     reader_get = (\<lambda>i. map_option (\<lambda>m. SchemaV2Record i i m True) (map_of fixture_manifests i)),
     reader_health = (\<lambda>i. \<lparr>health_connectorId = i,
       health_state = (if i \<in> set (map fst fixture_manifests) then HHealthy else HMissing),
       health_selectable = True, health_reviewStatus = Some RApproved, health_blockers = [],
       health_warnings = [], health_errors = []\<rparr>),
     reader_snapshot = (\<lambda>_. Inr fixture_snapshot)\<rparr>"

definition fixture_project :: "(string \<times> string) list \<Rightarrow> project_snapshot" where
  "fixture_project deps = \<lparr>
     project_snapshotId = ''sha256:project'', project_createdAt = ''2026-01-01'',
     project_root = ''/project'',
     project_revision = \<lparr>revision_vcs = ''git'', revision_commit = None, revision_dirty = False\<rparr>,
     project_packageManager = \<lparr>pm_name = ''pnpm'', pm_version = None, pm_lockfile = None,
       pm_lockfileDigest = None\<rparr>,
     project_workspace = \<lparr>ws_isMonorepo = False, ws_packages = []\<rparr>,
     project_runtimes = [], project_frameworks = [],
     project_dependencies = map (\<lambda>d. \<lparr>dep_name = fst d, dep_version = snd d,
       dep_kind = ''dependency'', dep_workspace = ''.''\<rparr>) deps,
     project_configurations = [], project_policies = [],
     project_targets = \<lparr>target_browsers = [], target_runtimes = []\<rparr>,
     project_warnings = []\<rparr>"

definition fixture_request :: "requested_capability list \<Rightarrow> nat \<Rightarrow> route_request" where
  "fixture_request capabilities maxProviders = \<lparr>
     req_requestId = ''request-1'', req_createdAt = ''2026-01-01'',
     req_projectSnapshotId = ''sha256:project'', req_summary = ''animate'',
     req_requestTextDigest = None, req_capabilities = capabilities,
     req_preferences = \<lparr>pref_preferredProviders = [], pref_forbiddenProviders = [],
       pref_maxProviders = maxProviders, pref_allowPaidServices = False,
       pref_allowExperimental = False\<rparr>\<rparr>"

definition needs :: "string \<Rightarrow> requested_capability" where
  "needs c = \<lparr>rc_id = c, rc_required = True, rc_quality = None\<rparr>"

definition fixture_policy :: active_policy where
  "fixture_policy = \<lparr>active_document = PHASE4_POLICY, active_snapshotId = ''sha256:policy''\<rparr>"

lemmas fixture_defs =
  fixture_integration_def fixture_claim_def fixture_manifest_def gsap_manifest_def
  motion_manifest_def web_manifest_def fixture_manifests_def fixture_capability_def
  fixture_snapshot_def fixture_reader_def fixture_project_def fixture_request_def needs_def
  fixture_policy_def

end
