(* ===== verification/Semver.thy ===== *)
theory Semver
  imports Js_String
begin

text \<open>
  \<open>packages/core/src/router/semver.ts\<close>: the least version a declared dependency range admits,
  read off the range text, and the comparison with a required minimum.
\<close>

type_synonym version_tuple = "nat \<times> nat \<times> nat"

text \<open>\<open>s.lastIndexOf("@")\<close>, \<open>None\<close> for -1.\<close>

fun last_index_of :: "char \<Rightarrow> string \<Rightarrow> nat option" where
  "last_index_of c [] = None"
| "last_index_of c (x # xs) =
     (case last_index_of c xs of Some i \<Rightarrow> Some (Suc i) | None \<Rightarrow> if x = c then Some 0 else None)"

definition strip_npm :: "string \<Rightarrow> string" where
  "strip_npm result =
     (if startsWith result ''npm:'' then
        (case last_index_of (CHR ''@'') result of
           None \<Rightarrow> ''''
         | Some at \<Rightarrow> if at \<le> 4 then '''' else drop (Suc at) result)
      else result)"

definition stripKnownPrefix :: "string \<Rightarrow> string" where
  "stripKnownPrefix value =
     (let result = js_trim value;
          result = (if startsWith result ''workspace:'' then drop 10 result else result)
      in js_trim (strip_npm result))"

text \<open>\<open>/\|\||\s+-\s+|[*xX]|latest|next/i\<close>: alternatives, hyphen ranges, wildcards and tags.\<close>

fun hyphen_range :: "string \<Rightarrow> bool" where
  "hyphen_range (a # b # c # s) =
     ((js_white a \<and> b = CHR ''-'' \<and> js_white c) \<or> hyphen_range (b # c # s))"
| "hyphen_range s = False"

definition open_range :: "string \<Rightarrow> bool" where
  "open_range source \<longleftrightarrow>
     contains_sub source ''||'' \<or> hyphen_range source \<or>
     CHR ''*'' \<in> set source \<or> CHR ''x'' \<in> set source \<or> CHR ''X'' \<in> set source \<or>
     contains_ci source ''latest'' \<or> contains_ci source ''next''"

text \<open>\<open>/^[<>](?![=])/\<close> or a leading \<open><=\<close>: ranges with no closed lower end.\<close>

fun upper_or_open_bound :: "string \<Rightarrow> bool" where
  "upper_or_open_bound [] = False"
| "upper_or_open_bound (c # s) =
     ((c = CHR ''<'' \<or> c = CHR ''>'') \<and> (s = [] \<or> hd s \<noteq> CHR ''='') \<or>
      c = CHR ''<'' \<and> s \<noteq> [] \<and> hd s = CHR ''='')"

text \<open>\<open>source.replace(/^(?:\^|~|>=)\s*/, "")\<close>.\<close>

definition strip_operator :: "string \<Rightarrow> string" where
  "strip_operator source =
     (if startsWith source ''^'' \<or> startsWith source ''~'' then dropWhile js_white (drop 1 source)
      else if startsWith source ''>='' then dropWhile js_white (drop 2 source)
      else source)"

text \<open>
  The pattern \<open>^(\d+)(?:\.(\d+))?(?:\.(\d+))?(?:-[0-9A-Za-z.-]+)?$\<close>. Each group is followed by
  a character that no earlier group can take, so reading every group as far as it goes finds the
  match whenever there is one.
\<close>

definition tag_char :: "char \<Rightarrow> bool" where
  "tag_char c \<longleftrightarrow> is_digit c \<or> is_letter c \<or> c = CHR ''.'' \<or> c = CHR ''-''"

definition version_end :: "string \<Rightarrow> bool" where
  "version_end s \<longleftrightarrow> s = [] \<or> (hd s = CHR ''-'' \<and> tl s \<noteq> [] \<and> list_all tag_char (tl s))"

fun dotted_number :: "string \<Rightarrow> (nat \<times> string) option" where
  "dotted_number (c # s) =
     (if c = CHR ''.'' \<and> takeWhile is_digit s \<noteq> []
      then Some (digits_val (takeWhile is_digit s), dropWhile is_digit s) else None)"
| "dotted_number [] = None"

definition match_version :: "string \<Rightarrow> version_tuple option" where
  "match_version source =
     (let major = takeWhile is_digit source; rest = dropWhile is_digit source in
      if major = [] then None
      else
        let (minor, rest) = (case dotted_number rest of None \<Rightarrow> (0, rest) | Some r \<Rightarrow> r);
            (patch, rest) = (case dotted_number rest of None \<Rightarrow> (0, rest) | Some r \<Rightarrow> r)
        in if version_end rest then Some (digits_val major, minor, patch) else None)"

definition minimumDeclaredVersion :: "string \<Rightarrow> version_tuple option" where
  "minimumDeclaredVersion value =
     (let source = stripKnownPrefix value in
      if source = '''' \<or> open_range source then None
      else if upper_or_open_bound source then None
      else match_version (strip_operator source))"

fun compareVersions :: "version_tuple \<Rightarrow> version_tuple \<Rightarrow> int" where
  "compareVersions (a, b, c) (a', b', c') =
     (if a \<noteq> a' then int a - int a' else if b \<noteq> b' then int b - int b' else int c - int c')"

definition isAtLeast :: "string \<Rightarrow> version_tuple \<Rightarrow> bool option" where
  "isAtLeast value minimum =
     map_option (\<lambda>declared. compareVersions declared minimum \<ge> 0) (minimumDeclaredVersion value)"

section \<open>The comparison is the lexicographic order\<close>

fun version_le :: "version_tuple \<Rightarrow> version_tuple \<Rightarrow> bool" where
  "version_le (a, b, c) (a', b', c') \<longleftrightarrow> a < a' \<or> a = a' \<and> (b < b' \<or> b = b' \<and> c \<le> c')"

lemma compareVersions_ge: "compareVersions v w \<ge> 0 \<longleftrightarrow> version_le w v"
  by (cases v; cases w) auto

lemma comparator_compareVersions [cmp_intros]: "comparator compareVersions"
proof
  fix x y z :: version_tuple
  show "sgn (compareVersions y x) = - sgn (compareVersions x y)"
    by (cases x; cases y) (auto simp: sgn_if)
  show "compareVersions x z \<le> 0" if "compareVersions x y \<le> 0" "compareVersions y z \<le> 0"
    using that by (cases x; cases y; cases z) (auto split: if_splits)
qed

lemma version_le_trans: "version_le u v \<Longrightarrow> version_le v w \<Longrightarrow> version_le u w"
  by (cases u; cases v; cases w) auto

lemma isAtLeast_True:
  "isAtLeast value m = Some True \<longleftrightarrow> (\<exists>v. minimumDeclaredVersion value = Some v \<and> version_le m v)"
  by (auto simp: isAtLeast_def compareVersions_ge)

lemma isAtLeast_antimono:
  "isAtLeast value m = Some True \<Longrightarrow> version_le m' m \<Longrightarrow> isAtLeast value m' = Some True"
  by (auto simp: isAtLeast_True intro: version_le_trans)

section \<open>Reading a declared version\<close>

definition version_str :: "version_tuple \<Rightarrow> string" where
  "version_str v = (case v of (a, b, c) \<Rightarrow>
     nat_str a @ ''.'' @ nat_str b @ ''.'' @ nat_str c)"

text \<open>The operators under which a range's least version is the version written after it.\<close>

definition lower_operators :: "string set" where
  "lower_operators = {'''', ''^'', ''~'', ''>=''}"

lemma span_nat_str:
  assumes "\<And>c. xs \<noteq> [] \<Longrightarrow> \<not> is_digit (hd xs)"
  shows "takeWhile is_digit (nat_str n @ xs) = nat_str n"
    and "dropWhile is_digit (nat_str n @ xs) = xs"
proof -
  have all: "\<forall>c \<in> set (nat_str n). is_digit c" using nat_str_digits by blast
  have "takeWhile is_digit xs = []" "dropWhile is_digit xs = xs"
    using assms by (cases xs; simp)+
  then show "takeWhile is_digit (nat_str n @ xs) = nat_str n"
    and "dropWhile is_digit (nat_str n @ xs) = xs"
    using all by (simp_all add: takeWhile_append2)
qed

lemma dot_not_digit: "\<not> is_digit (CHR ''.'')"
  by (simp add: is_digit_def)

lemma dotted_number_nat_str:
  assumes "xs \<noteq> [] \<Longrightarrow> \<not> is_digit (hd xs)"
  shows "dotted_number (CHR ''.'' # nat_str n @ xs) = Some (n, xs)"
  using assms by (simp add: span_nat_str)

lemma match_version_str: "match_version (version_str v) = Some v"
proof -
  obtain a b c where v: "v = (a, b, c)" by (cases v)
  let ?m = "CHR ''.'' # nat_str b @ CHR ''.'' # nat_str c"
  have "version_str v = nat_str a @ ?m" by (simp add: v version_str_def)
  moreover have "takeWhile is_digit (nat_str a @ ?m) = nat_str a"
    "dropWhile is_digit (nat_str a @ ?m) = ?m"
    by (rule span_nat_str; simp add: dot_not_digit)+
  moreover have "dotted_number ?m = Some (b, CHR ''.'' # nat_str c)"
    by (rule dotted_number_nat_str) (simp add: dot_not_digit)
  moreover have "dotted_number (CHR ''.'' # nat_str c) = Some (c, [])"
    using dotted_number_nat_str [of "[]" c] by simp
  ultimately show ?thesis
    by (simp only: match_version_def Let_def v) (simp add: version_end_def)
qed

text \<open>Characters of a plain range: digits, dots and one operator.\<close>

lemma version_str_chars: "c \<in> set (version_str v) \<Longrightarrow> is_digit c \<or> c = CHR ''.''"
  using nat_str_digits by (auto simp: version_str_def split: prod.splits)

lemma hd_nat_str: "is_digit (hd (nat_str n))"
  using nat_str_digits [of "hd (nat_str n)" n] by simp

lemma hd_version_str: "version_str v \<noteq> [] \<and> is_digit (hd (version_str v))"
  using hd_nat_str by (simp add: version_str_def split: prod.splits)

lemma js_trim_id:
  assumes "\<forall>c \<in> set s. \<not> js_white c"
  shows "js_trim s = s"
proof -
  have "dropWhile js_white xs = xs" if "\<forall>c \<in> set xs. \<not> js_white c" for xs
    using that by (cases xs) simp_all
  from this [of s] this [of "rev s"] show ?thesis using assms by (simp add: js_trim_def)
qed

lemma not_startsWith_hd: "s \<noteq> [] \<Longrightarrow> hd s \<noteq> hd p \<Longrightarrow> p \<noteq> [] \<Longrightarrow> \<not> startsWith s p"
  by (cases s; cases p) (auto simp: startsWith_def)

lemma contains_sub_set: "contains_sub s p \<Longrightarrow> set p \<subseteq> set s"
  unfolding contains_sub_iff by auto

lemma hyphen_range_set: "hyphen_range s \<Longrightarrow> CHR ''-'' \<in> set s"
  by (induction s rule: hyphen_range.induct) auto

definition range_char :: "char \<Rightarrow> bool" where
  "range_char c \<longleftrightarrow> is_digit c \<or> c \<in> set ''.^~>=''"

lemma range_char_facts:
  assumes "range_char c"
  shows "\<not> js_white c" and "c \<notin> set ''|*xX-<''" and "lower_char c \<noteq> CHR ''t''"
  using assms by (auto simp: range_char_def is_digit_def js_white_def lower_char_def Let_def)

lemma open_range_plain:
  assumes "\<forall>c \<in> set s. range_char c"
  shows "\<not> open_range s"
proof
  have free: "c \<notin> set s" if "c \<in> set ''|*xX-''" for c
    using that assms range_char_facts(2) by fastforce
  have "CHR ''t'' \<notin> set (map lower_char s)" using assms range_char_facts(3) by force
  then have "\<not> contains_ci s ''latest''" "\<not> contains_ci s ''next''"
    unfolding contains_ci_def using contains_sub_set by fastforce+
  moreover have "\<not> contains_sub s ''||''" using free contains_sub_set by fastforce
  moreover have "\<not> hyphen_range s" using free hyphen_range_set by fastforce
  moreover assume "open_range s"
  ultimately show False using free by (auto simp: open_range_def)
qed

lemma dropWhile_white_version: "dropWhile js_white (version_str v) = version_str v"
proof -
  have "\<not> js_white (hd (version_str v))"
    using hd_version_str [of v] by (auto simp: is_digit_def js_white_def)
  then show ?thesis by (cases "version_str v") auto
qed

lemma strip_operator_version:
  assumes "p \<in> lower_operators"
  shows "strip_operator (p @ version_str v) = version_str v"
proof (cases "p = ''''")
  case True
  have "\<not> startsWith (version_str v) q" if "q = ''^'' \<or> q = ''~'' \<or> q = ''>=''" for q
    using that hd_version_str [of v] by (intro not_startsWith_hd) (auto simp: is_digit_def)
  then show ?thesis using True by (simp add: strip_operator_def)
next
  case False
  then consider "p = ''^''" | "p = ''~''" | "p = ''>=''"
    using assms by (auto simp: lower_operators_def)
  then show ?thesis
    by cases (simp_all add: strip_operator_def startsWith_def dropWhile_white_version)
qed

lemma minimumDeclaredVersion_str:
  assumes "p \<in> lower_operators"
  shows "minimumDeclaredVersion (p @ version_str v) = Some v"
proof -
  let ?s = "p @ version_str v"
  have d: "version_str v \<noteq> []" "is_digit (hd (version_str v))" using hd_version_str by auto
  have plain: "\<forall>c \<in> set ?s. range_char c"
    using assms version_str_chars [of _ v] by (auto simp: lower_operators_def range_char_def)
  have trim: "js_trim ?s = ?s"
    using plain range_char_facts(1) by (intro js_trim_id) blast
  have hd: "is_digit (hd ?s) \<or> hd ?s \<in> set ''^~>''"
    using assms d by (auto simp: lower_operators_def)
  have "\<not> startsWith ?s ''workspace:''" "\<not> startsWith ?s ''npm:''"
    using hd d(1) by (intro not_startsWith_hd; auto simp: is_digit_def)+
  then have "stripKnownPrefix ?s = ?s" by (simp add: stripKnownPrefix_def strip_npm_def trim)
  moreover have "\<not> upper_or_open_bound ?s"
    using assms d by (cases "version_str v") (auto simp: lower_operators_def is_digit_def)
  moreover have "?s \<noteq> ''''" using d(1) by simp
  ultimately show ?thesis
    using open_range_plain [OF plain]
    by (simp add: minimumDeclaredVersion_def Let_def strip_operator_version [OF assms]
        match_version_str del: append_is_Nil_conv)
qed

end
