(* ===== verification/Candidates.thy ===== *)
theory Candidates
  imports Router_Fixtures Semver
begin

text \<open>
  \<open>packages/core/src/router/candidates.ts\<close>: for each of the three Phase 4 providers, either a
  candidate with its capability claims or one rejection with a reason code.
\<close>

record candidate_claim =
  cl_capabilityId :: string
  cl_support :: claim_support
  cl_confidence :: nat
  cl_environmentSupported :: bool
  cl_environmentReason :: "string option"

record provider_candidate =
  cand_providerId :: string
  cand_native :: bool
  cand_manifest :: connector_manifest
  cand_runtimeIntegrationIds :: "string list"
  cand_installed :: bool
  cand_legacyAliasPresent :: bool
  cand_claims :: "candidate_claim list"

datatype rejection_code =
  CapabilityNotSupported | ConnectorUnhealthy | ForbiddenProvider | LicenseDenied
| PaidArtifactDenied | PolicyDenied | RuntimeArtifactUnavailable

fun rejection_code_name :: "rejection_code \<Rightarrow> string" where
  "rejection_code_name CapabilityNotSupported = ''CAPABILITY_NOT_SUPPORTED''"
| "rejection_code_name ConnectorUnhealthy = ''CONNECTOR_UNHEALTHY''"
| "rejection_code_name ForbiddenProvider = ''FORBIDDEN_PROVIDER''"
| "rejection_code_name LicenseDenied = ''LICENSE_DENIED''"
| "rejection_code_name PaidArtifactDenied = ''PAID_ARTIFACT_DENIED''"
| "rejection_code_name PolicyDenied = ''POLICY_DENIED''"
| "rejection_code_name RuntimeArtifactUnavailable = ''RUNTIME_ARTIFACT_UNAVAILABLE''"

record candidate_rejection =
  rej_providerId :: string
  rej_reasonCode :: rejection_code
  rej_reason :: string

record candidate_input =
  in_request :: route_request
  in_project :: project_snapshot
  in_catalog :: catalog_reader
  in_policy :: active_policy

record candidate_build =
  build_candidates :: "provider_candidate list"
  build_rejections :: "candidate_rejection list"
  build_capabilityCatalog :: capability_catalog
  build_catalogSnapshot :: catalog_snapshot

definition PROVIDERS :: "string list" where
  "PROVIDERS = [''gsap'', ''motion'', ''web-platform'']"

definition MOTION_REACT_MINIMUM :: version_tuple where
  "MOTION_REACT_MINIMUM = (18, 2, 0)"

section \<open>Environment\<close>

definition rejection_compare :: "(string \<Rightarrow> string \<Rightarrow> int) \<Rightarrow> candidate_rejection \<Rightarrow>
    candidate_rejection \<Rightarrow> int" where
  "rejection_compare lc =
     cmp_then (cmp_by lc rej_providerId)
       (cmp_then (cmp_by lc (\<lambda>r. rejection_code_name (rej_reasonCode r)))
         (cmp_by lc rej_reason))"

definition stableRejections :: "(string \<Rightarrow> string \<Rightarrow> int) \<Rightarrow> candidate_rejection list \<Rightarrow>
    candidate_rejection list" where
  "stableRejections lc rejections = js_sort (rejection_compare lc) rejections"

definition dependencyVersions :: "project_snapshot \<Rightarrow> string \<Rightarrow> string list" where
  "dependencyVersions project packageName =
     sort (map dep_version
       (filter (\<lambda>dependency. dep_name dependency = packageName) (project_dependencies project)))"

record environment_result =
  env_supported :: bool
  env_reason :: "string option"

fun check_react_ranges :: "string list \<Rightarrow> environment_result" where
  "check_react_ranges [] = \<lparr>env_supported = True, env_reason = None\<rparr>"
| "check_react_ranges (declared # ranges) =
     (if isAtLeast declared MOTION_REACT_MINIMUM \<noteq> Some True
      then \<lparr>env_supported = False,
        env_reason = Some (''React declaration '' @ declared @ '' cannot prove Motion'' @ [CHR 0x27] @
          ''s 18.2 minimum.'')\<rparr>
      else check_react_ranges ranges)"

definition motionEnvironment :: "project_snapshot \<Rightarrow> environment_result" where
  "motionEnvironment project =
     (let ranges = dependencyVersions project ''react'' in
      if ranges = []
      then \<lparr>env_supported = False,
        env_reason =
          Some ''Motion React claims require a declared React dependency of 18.2 or newer.''\<rparr>
      else check_react_ranges ranges)"

section \<open>Gates\<close>

fun isApprovedRecord :: "connector_record option \<Rightarrow> bool" where
  "isApprovedRecord (Some (SchemaV2Record _ _ manifest selectable)) =
     (selectable \<and> approved_review (conn_reviewStatus (manifest_connector manifest)))"
| "isApprovedRecord _ = False"

definition runtimeIntegrations :: "string \<Rightarrow> connector_manifest \<Rightarrow> integration_artifact list" where
  "runtimeIntegrations providerId manifest =
     filter (\<lambda>integration.
       if integration_status integration \<noteq> Available \<or> integration_mode integration \<noteq> RuntimeMode
       then False
       else if providerId = ''web-platform'' then integration_kind integration = BuiltIn
       else integration_kind integration = RuntimePackage)
     (manifest_integrations manifest)"

definition risky :: "execution_risk \<Rightarrow> bool" where
  "risky r \<longleftrightarrow> r \<in> {CommandExecution, NetworkAndCommand, Privileged, ProjectWrite}"

definition runtime_failure :: "candidate_input \<Rightarrow> integration_artifact \<Rightarrow>
    rejection_code option" where
  "runtime_failure input integration =
     (let rules = policy_rules (active_document (in_policy input)) in
      if (case integration_licenseExpression integration of
            None \<Rightarrow> True | Some l \<Rightarrow> l \<notin> set (rule_allowedLicenses rules))
      then Some LicenseDenied
      else if auth_paidPlan (integration_authorization integration) \<and>
        (\<not> rule_allowPaidServices rules \<or>
         \<not> pref_allowPaidServices (req_preferences (in_request input)))
      then Some PaidArtifactDenied
      else if perm_projectWrite (integration_permissions integration) \<or>
        perm_network (integration_permissions integration) \<noteq> [] \<or>
        risky (integration_executionRisk integration)
      then Some PolicyDenied
      else None)"

fun policyAllowsRuntime :: "integration_artifact list \<Rightarrow> candidate_input \<Rightarrow>
    rejection_code option" where
  "policyAllowsRuntime [] input = None"
| "policyAllowsRuntime (integration # integrations) input =
     (case runtime_failure input integration of
        Some code \<Rightarrow> Some code
      | None \<Rightarrow> policyAllowsRuntime integrations input)"

section \<open>Candidates\<close>

definition candidate_claims :: "(string \<Rightarrow> string \<Rightarrow> int) \<Rightarrow> environment_result \<Rightarrow>
    connector_manifest \<Rightarrow> candidate_claim list" where
  "candidate_claims lc environment manifest =
     js_sort (cmp_by lc cl_capabilityId)
       (map (\<lambda>claim. \<lparr>cl_capabilityId = claim_capability claim,
           cl_support = claim_support claim,
           cl_confidence = claim_confidence claim,
           cl_environmentSupported = env_supported environment,
           cl_environmentReason = env_reason environment\<rparr>)
         (manifest_capabilityClaims manifest))"

definition make_candidate :: "(string \<Rightarrow> string \<Rightarrow> int) \<Rightarrow> candidate_input \<Rightarrow> string \<Rightarrow>
    connector_manifest \<Rightarrow> provider_candidate" where
  "make_candidate lc input providerId manifest =
     (let installedNames = js_set (map dep_name (project_dependencies (in_project input)));
          runtime = runtimeIntegrations providerId manifest;
          environment = (if providerId = ''motion'' then motionEnvironment (in_project input)
            else \<lparr>env_supported = True, env_reason = None\<rparr>);
          packageNames = List.map_filter integration_packageName runtime
      in \<lparr>cand_providerId = providerId,
          cand_native = (providerId = ''web-platform''),
          cand_manifest = manifest,
          cand_runtimeIntegrationIds = sort (map integration_id runtime),
          cand_installed = list_ex (\<lambda>packageName. packageName \<in> set installedNames) packageNames,
          cand_legacyAliasPresent =
            (providerId = ''motion'' \<and> ''framer-motion'' \<in> set installedNames),
          cand_claims = candidate_claims lc environment manifest\<rparr>)"

text \<open>One turn of the loop over the providers: each \<open>continue\<close> is a rejection.\<close>

definition evaluate_provider :: "(string \<Rightarrow> string \<Rightarrow> int) \<Rightarrow> candidate_input \<Rightarrow> string \<Rightarrow>
    candidate_rejection + provider_candidate" where
  "evaluate_provider lc input providerId =
     (let rules = policy_rules (active_document (in_policy input));
          reject = (\<lambda>code reason. Inl \<lparr>rej_providerId = providerId, rej_reasonCode = code,
            rej_reason = reason\<rparr>)
      in
      if providerId \<in> set (pref_forbiddenProviders (req_preferences (in_request input)))
      then reject ForbiddenProvider (providerId @ '' is forbidden by the route request.'')
      else if providerId \<notin> set (rule_allowedConnectors rules) \<or>
        providerId \<in> set (rule_deniedConnectors rules)
      then reject PolicyDenied (providerId @ '' is denied by the active routing policy.'')
      else
        let record = reader_get (in_catalog input) providerId;
            health = reader_health (in_catalog input) providerId in
        if \<not> isApprovedRecord record \<or> health_state health \<noteq> HHealthy
        then reject ConnectorUnhealthy
          (providerId @ '' is not a healthy approved selectable connector.'')
        else
          let manifest = record_manifest (the record);
              runtime = runtimeIntegrations providerId manifest in
          if runtime = []
          then reject RuntimeArtifactUnavailable
            (providerId @ '' has no available Phase 4 runtime artifact.'')
          else (case policyAllowsRuntime runtime input of
            Some code \<Rightarrow> reject code
              (providerId @ '' runtime artifacts violate '' @ rejection_code_name code @ ''.'')
          | None \<Rightarrow> Inr (make_candidate lc input providerId manifest)))"

definition candidate_step :: "(string \<Rightarrow> string \<Rightarrow> int) \<Rightarrow> candidate_input \<Rightarrow>
    provider_candidate list \<times> candidate_rejection list \<Rightarrow> string \<Rightarrow>
    provider_candidate list \<times> candidate_rejection list" where
  "candidate_step lc input acc providerId =
     (case evaluate_provider lc input providerId of
        Inl rejection \<Rightarrow> (fst acc, snd acc @ [rejection])
      | Inr candidate \<Rightarrow> (fst acc @ [candidate], snd acc))"

definition buildProviderCandidates :: "(string \<Rightarrow> string \<Rightarrow> int) \<Rightarrow> candidate_input \<Rightarrow>
    candidate_build result" where
  "buildProviderCandidates lc input =
     (let (candidates, rejections) = foldl (candidate_step lc input) ([], []) PROVIDERS in
      chain (reader_snapshot (in_catalog input) ''1970-01-01T00:00:00.000Z'')
        (\<lambda>snapshot. Inr
          \<lparr>build_candidates = js_sort (cmp_by lc cand_providerId) candidates,
           build_rejections = stableRejections lc rejections,
           build_capabilityCatalog = reader_capabilityCatalog (in_catalog input),
           build_catalogSnapshot = snapshot\<rparr>))"

section \<open>Which providers become candidates\<close>

text \<open>An integration the routing policy lets a route use at run time.\<close>

definition usable_runtime :: "candidate_input \<Rightarrow> integration_artifact \<Rightarrow> bool" where
  "usable_runtime input i \<longleftrightarrow>
     (\<exists>l. integration_licenseExpression i = Some l \<and>
        l \<in> set (rule_allowedLicenses (policy_rules (active_document (in_policy input))))) \<and>
     (auth_paidPlan (integration_authorization i) \<longrightarrow>
        rule_allowPaidServices (policy_rules (active_document (in_policy input))) \<and>
        pref_allowPaidServices (req_preferences (in_request input))) \<and>
     \<not> perm_projectWrite (integration_permissions i) \<and>
     perm_network (integration_permissions i) = [] \<and>
     integration_executionRisk i \<in> {NoRisk, ReadOnly}"

text \<open>The specification of the gates: what it takes for a provider to be a candidate.\<close>

definition eligible :: "candidate_input \<Rightarrow> string \<Rightarrow> connector_manifest \<Rightarrow> bool" where
  "eligible input providerId manifest \<longleftrightarrow>
     providerId \<notin> set (pref_forbiddenProviders (req_preferences (in_request input))) \<and>
     providerId \<in> set (rule_allowedConnectors (policy_rules (active_document (in_policy input)))) \<and>
     providerId \<notin> set (rule_deniedConnectors (policy_rules (active_document (in_policy input)))) \<and>
     (\<exists>d p. reader_get (in_catalog input) providerId = Some (SchemaV2Record d p manifest True)) \<and>
     approved_review (conn_reviewStatus (manifest_connector manifest)) \<and>
     health_state (reader_health (in_catalog input) providerId) = HHealthy \<and>
     runtimeIntegrations providerId manifest \<noteq> [] \<and>
     (\<forall>i \<in> set (runtimeIntegrations providerId manifest). usable_runtime input i)"

lemma runtime_failure_None_iff: "runtime_failure input i = None \<longleftrightarrow> usable_runtime input i"
  by (cases "integration_executionRisk i")
    (auto simp: runtime_failure_def usable_runtime_def risky_def Let_def split: option.splits)

lemma policyAllowsRuntime_None_iff:
  "policyAllowsRuntime is input = None \<longleftrightarrow> (\<forall>i \<in> set is. usable_runtime input i)"
proof (induction "is")
  case (Cons i "is")
  then show ?case
    by (cases "runtime_failure input i") (auto simp flip: runtime_failure_None_iff)
qed simp

lemma isApprovedRecord_iff:
  "isApprovedRecord r \<longleftrightarrow> (\<exists>d p m. r = Some (SchemaV2Record d p m True) \<and>
     approved_review (conn_reviewStatus (manifest_connector m)))"
  by (cases r rule: isApprovedRecord.cases) auto

lemma make_candidate_simps [simp]:
  "cand_providerId (make_candidate lc input p m) = p"
  "cand_manifest (make_candidate lc input p m) = m"
  "cand_native (make_candidate lc input p m) = (p = ''web-platform'')"
  by (simp_all add: make_candidate_def Let_def)

lemma evaluate_provider_Inr_iff:
  "evaluate_provider lc input p = Inr c \<longleftrightarrow>
     (\<exists>m. eligible input p m \<and> c = make_candidate lc input p m)"
  unfolding evaluate_provider_def eligible_def Let_def isApprovedRecord_iff
    policyAllowsRuntime_None_iff [symmetric]
  by (auto split: option.splits)

lemma evaluate_provider_id:
  "evaluate_provider lc input p = Inr c \<Longrightarrow> cand_providerId c = p"
  "evaluate_provider lc input p = Inl r \<Longrightarrow> rej_providerId r = p"
  by (auto simp: evaluate_provider_def make_candidate_def Let_def split: if_splits option.splits)

text \<open>The loop splits the providers into the two lists.\<close>

definition evaluated :: "(string \<Rightarrow> string \<Rightarrow> int) \<Rightarrow> candidate_input \<Rightarrow>
    provider_candidate list \<times> candidate_rejection list" where
  "evaluated lc input = foldl (candidate_step lc input) ([], []) PROVIDERS"

lemma candidate_loop:
  "foldl (candidate_step lc input) (cs, rs) ps =
     (cs @ concat (map (\<lambda>p. case evaluate_provider lc input p of Inl _ \<Rightarrow> [] | Inr c \<Rightarrow> [c]) ps),
      rs @ concat (map (\<lambda>p. case evaluate_provider lc input p of Inl r \<Rightarrow> [r] | Inr _ \<Rightarrow> []) ps))"
  by (induction ps arbitrary: cs rs) (auto simp: candidate_step_def split: sum.splits)

lemma buildProviderCandidates_Inr_iff:
  "buildProviderCandidates lc input = Inr b \<longleftrightarrow>
     (\<exists>snapshot. reader_snapshot (in_catalog input) ''1970-01-01T00:00:00.000Z'' = Inr snapshot \<and>
       b = \<lparr>build_candidates = js_sort (cmp_by lc cand_providerId) (fst (evaluated lc input)),
            build_rejections = stableRejections lc (snd (evaluated lc input)),
            build_capabilityCatalog = reader_capabilityCatalog (in_catalog input),
            build_catalogSnapshot = snapshot\<rparr>)"
  by (auto simp: buildProviderCandidates_def evaluated_def chain_eq_Inr split: prod.splits)

lemma set_evaluated:
  "set (fst (evaluated lc input)) =
     {c. \<exists>p \<in> set PROVIDERS. evaluate_provider lc input p = Inr c}"
  "set (snd (evaluated lc input)) =
     {r. \<exists>p \<in> set PROVIDERS. evaluate_provider lc input p = Inl r}"
  by (force simp: evaluated_def candidate_loop split: sum.splits)+

lemma mset_providers_loop:
  "mset (map cand_providerId (fst (foldl (candidate_step lc input) (cs, rs) ps))) +
   mset (map rej_providerId (snd (foldl (candidate_step lc input) (cs, rs) ps))) =
   mset (map cand_providerId cs) + mset (map rej_providerId rs) + mset ps"
proof (induction ps arbitrary: cs rs)
  case Nil
  show ?case by simp
next
  case (Cons p ps)
  then show ?case
    by (cases "evaluate_provider lc input p")
      (simp_all add: candidate_step_def evaluate_provider_id)
qed

lemma mset_evaluated:
  "mset (map cand_providerId (fst (evaluated lc input))) +
   mset (map rej_providerId (snd (evaluated lc input))) = mset PROVIDERS"
  unfolding evaluated_def by (subst mset_providers_loop) simp

lemma build_sets:
  assumes "buildProviderCandidates lc input = Inr b"
  shows "set (build_candidates b) =
      {c. \<exists>p \<in> set PROVIDERS. \<exists>m. eligible input p m \<and> c = make_candidate lc input p m}"
    and "set (build_rejections b) =
      {r. \<exists>p \<in> set PROVIDERS. evaluate_provider lc input p = Inl r}"
proof -
  have b: "set (build_candidates b) = set (fst (evaluated lc input))"
    "set (build_rejections b) = set (snd (evaluated lc input))"
    using assms by (auto simp: buildProviderCandidates_Inr_iff stableRejections_def)
  show "set (build_candidates b) =
      {c. \<exists>p \<in> set PROVIDERS. \<exists>m. eligible input p m \<and> c = make_candidate lc input p m}"
    unfolding b set_evaluated evaluate_provider_Inr_iff ..
  show "set (build_rejections b) =
      {r. \<exists>p \<in> set PROVIDERS. evaluate_provider lc input p = Inl r}"
    unfolding b set_evaluated ..
qed

lemma build_partition:
  assumes "buildProviderCandidates lc input = Inr b"
  shows "mset (map cand_providerId (build_candidates b)) +
    mset (map rej_providerId (build_rejections b)) = mset PROVIDERS"
  using assms mset_evaluated [of lc input]
  by (auto simp: buildProviderCandidates_Inr_iff stableRejections_def)

lemma build_candidate_ids:
  assumes "buildProviderCandidates lc input = Inr b"
  shows "distinct (map cand_providerId (build_candidates b))"
    and "distinct (map rej_providerId (build_rejections b))"
    and "set (map cand_providerId (build_candidates b)) \<inter>
      set (map rej_providerId (build_rejections b)) = {}"
proof -
  let ?ids = "map cand_providerId (build_candidates b) @ map rej_providerId (build_rejections b)"
  have "mset ?ids = mset PROVIDERS" using build_partition [OF assms] by simp
  moreover have "distinct PROVIDERS" by (simp add: PROVIDERS_def)
  ultimately have "distinct ?ids" by (metis mset_eq_imp_distinct_iff)
  then show "distinct (map cand_providerId (build_candidates b))"
    and "distinct (map rej_providerId (build_rejections b))"
    and "set (map cand_providerId (build_candidates b)) \<inter>
      set (map rej_providerId (build_rejections b)) = {}"
    by simp_all
qed

section \<open>The React requirement of Motion\<close>

text \<open>Every declared React range admits no version below 18.2.0, and there is one.\<close>

definition react_supports_motion :: "project_snapshot \<Rightarrow> bool" where
  "react_supports_motion project \<longleftrightarrow>
     (\<exists>d \<in> set (project_dependencies project). dep_name d = ''react'') \<and>
     (\<forall>d \<in> set (project_dependencies project). dep_name d = ''react'' \<longrightarrow>
        (\<exists>v. minimumDeclaredVersion (dep_version d) = Some v \<and> version_le (18, 2, 0) v))"

lemma check_react_ranges_supported:
  "env_supported (check_react_ranges rs) \<longleftrightarrow> (\<forall>r \<in> set rs. isAtLeast r MOTION_REACT_MINIMUM = Some True)"
  by (induction rs) auto

lemma set_dependencyVersions:
  "set (dependencyVersions project name) =
     {dep_version d | d. d \<in> set (project_dependencies project) \<and> dep_name d = name}"
  by (auto simp: dependencyVersions_def)

lemma motionEnvironment_supported:
  "env_supported (motionEnvironment project) \<longleftrightarrow> react_supports_motion project"
proof -
  have empty: "dependencyVersions project ''react'' = [] \<longleftrightarrow>
      \<not> (\<exists>d \<in> set (project_dependencies project). dep_name d = ''react'')"
    using set_dependencyVersions [of project "''react''"] by (auto simp flip: set_empty)
  show ?thesis
    unfolding motionEnvironment_def Let_def react_supports_motion_def
    by (auto simp: empty check_react_ranges_supported set_dependencyVersions isAtLeast_True
        MOTION_REACT_MINIMUM_def)
qed

lemma check_react_ranges_reason:
  "env_supported (check_react_ranges rs) \<longleftrightarrow> env_reason (check_react_ranges rs) = None"
  by (induction rs) auto

lemma motionEnvironment_reason:
  "env_supported (motionEnvironment project) \<longleftrightarrow> env_reason (motionEnvironment project) = None"
  by (simp add: motionEnvironment_def Let_def check_react_ranges_reason)

lemma set_candidate_claims:
  "cl \<in> set (cand_claims (make_candidate lc input p m)) \<longleftrightarrow>
     (\<exists>claim \<in> set (manifest_capabilityClaims m).
        cl_capabilityId cl = claim_capability claim \<and> cl_support cl = claim_support claim \<and>
        cl_confidence cl = claim_confidence claim \<and>
        cl_environmentSupported cl =
          (p = ''motion'' \<longrightarrow> react_supports_motion (in_project input)) \<and>
        cl_environmentReason cl =
          (if p = ''motion'' then env_reason (motionEnvironment (in_project input)) else None))"
  by (cases cl)
    (auto simp: make_candidate_def candidate_claims_def Let_def motionEnvironment_supported)

text \<open>Nothing depends on the order in which the project lists its dependencies.\<close>

lemma motionEnvironment_perm:
  assumes "mset (project_dependencies p) = mset (project_dependencies q)"
  shows "motionEnvironment p = motionEnvironment q"
proof -
  have "mset (map dep_version (filter (\<lambda>d. dep_name d = n) (project_dependencies p))) =
      mset (map dep_version (filter (\<lambda>d. dep_name d = n) (project_dependencies q)))" for n
    using assms by simp
  then have "dependencyVersions p n = dependencyVersions q n" for n
    unfolding dependencyVersions_def by (intro properties_for_sort) simp_all
  then show ?thesis by (simp add: motionEnvironment_def)
qed

lemma buildProviderCandidates_perm:
  assumes "mset (project_dependencies (in_project input)) = mset (project_dependencies q)"
  shows "buildProviderCandidates lc input = buildProviderCandidates lc (input\<lparr>in_project := q\<rparr>)"
proof -
  have names: "dep_name ` set (project_dependencies (in_project input)) =
      dep_name ` set (project_dependencies q)"
    using assms by (metis set_mset_mset)
  have fail: "runtime_failure (input\<lparr>in_project := q\<rparr>) = runtime_failure input"
    by (rule ext) (simp add: runtime_failure_def cong: if_cong)
  have "policyAllowsRuntime is (input\<lparr>in_project := q\<rparr>) = policyAllowsRuntime is input" for "is"
    by (induction "is") (simp_all add: fail split: option.split)
  moreover have "make_candidate lc (input\<lparr>in_project := q\<rparr>) p m = make_candidate lc input p m" for p m
    using names motionEnvironment_perm [OF assms] by (simp add: make_candidate_def cong: if_cong)
  ultimately have "evaluate_provider lc (input\<lparr>in_project := q\<rparr>) = evaluate_provider lc input"
    by (intro ext) (simp add: evaluate_provider_def Let_def cong: if_cong option.case_cong)
  then have "candidate_step lc (input\<lparr>in_project := q\<rparr>) = candidate_step lc input"
    by (intro ext) (simp add: candidate_step_def)
  then show ?thesis by (simp add: buildProviderCandidates_def)
qed

section \<open>Properties\<close>

definition fixture_input :: "(string \<times> string) list \<Rightarrow> candidate_input" where
  "fixture_input deps = \<lparr>in_request = fixture_request [needs ''motion.layout''] 2,
     in_project = fixture_project deps, in_catalog = fixture_reader,
     in_policy = fixture_policy\<rparr>"

lemma fixture_build:
  "\<exists>b. buildProviderCandidates lc (fixture_input deps) = Inr b"
  by (simp add: buildProviderCandidates_Inr_iff fixture_input_def fixture_reader_def)

text \<open>
  Every provider the router knows ends up exactly once, either as a candidate or as one
  rejection; a provider is a candidate exactly when it passes every gate of the specification.
\<close>

theorem buildProviderCandidates_partition:
  assumes "buildProviderCandidates lc input = Inr b"
  shows "mset (map cand_providerId (build_candidates b)) +
      mset (map rej_providerId (build_rejections b)) = mset PROVIDERS \<and>
    (\<forall>p \<in> set PROVIDERS. p \<in> cand_providerId ` set (build_candidates b) \<longleftrightarrow>
       (\<exists>m. eligible input p m))"
proof -
  have "p \<in> cand_providerId ` set (build_candidates b) \<longleftrightarrow> (\<exists>m. eligible input p m)"
    if "p \<in> set PROVIDERS" for p
  proof -
    have "cand_providerId ` set (build_candidates b) =
        {p \<in> set PROVIDERS. \<exists>m. eligible input p m}"
      unfolding build_sets(1) [OF assms] by (auto simp: image_Collect) (metis make_candidate_simps(1))+
    then show ?thesis using that by blast
  qed
  then show ?thesis using build_partition [OF assms] by blast
qed

theorem buildProviderCandidates_partition_witness:
  "\<exists>b. buildProviderCandidates code_unit_compare (fixture_input [(''react'', ''^19.0.0'')]) = Inr b \<and>
     mset (map cand_providerId (build_candidates b)) +
       mset (map rej_providerId (build_rejections b)) = mset PROVIDERS"
proof -
  obtain b where b: "buildProviderCandidates code_unit_compare
      (fixture_input [(''react'', ''^19.0.0'')]) = Inr b"
    using fixture_build by blast
  then show ?thesis using buildProviderCandidates_partition [OF b] by blast
qed

text \<open>
  The claims of a candidate are the manifest's, and a claim is supported by the environment
  unless it is Motion's and the project fails to declare React, or declares some React range
  whose least version is unknown or below 18.2.0.
\<close>

theorem candidate_claims_environment:
  assumes "buildProviderCandidates lc input = Inr b"
    and "c \<in> set (build_candidates b)"
  shows "cl_capabilityId ` set (cand_claims c) =
      claim_capability ` set (manifest_capabilityClaims (cand_manifest c)) \<and>
    (\<forall>cl \<in> set (cand_claims c). cl_environmentSupported cl \<longleftrightarrow>
       cand_providerId c \<noteq> ''motion'' \<or> react_supports_motion (in_project input))"
proof -
  obtain p m where c: "c = make_candidate lc input p m"
    using assms(2) unfolding build_sets(1) [OF assms(1)] by blast
  have pm: "cand_providerId c = p" "cand_manifest c = m"
    by (simp_all add: c)
  have "cl_capabilityId ` set (cand_claims c) = claim_capability ` set (manifest_capabilityClaims m)"
    by (simp add: c make_candidate_def candidate_claims_def Let_def image_image)
  then show ?thesis
    unfolding pm using set_candidate_claims [of _ lc input p m] by (auto simp: c)
qed

lemma fixture_motion_candidate:
  assumes "buildProviderCandidates lc (fixture_input deps) = Inr b"
  shows "make_candidate lc (fixture_input deps) ''motion'' motion_manifest \<in>
    set (build_candidates b)"
proof -
  have "eligible (fixture_input deps) ''motion'' motion_manifest"
    by (simp add: eligible_def usable_runtime_def runtimeIntegrations_def fixture_input_def
        fixture_defs PHASE4_POLICY_def approved_review_def)
  then show ?thesis unfolding build_sets(1) [OF assms] by (auto simp: PROVIDERS_def)
qed

theorem candidate_claims_environment_witness:
  "\<exists>b. buildProviderCandidates code_unit_compare (fixture_input [(''react'', ''^17.0.2'')]) = Inr b \<and>
     (\<exists>c \<in> set (build_candidates b). cand_providerId c = ''motion'' \<and>
        (\<forall>cl \<in> set (cand_claims c). \<not> cl_environmentSupported cl))"
proof -
  let ?i = "fixture_input [(''react'', ''^17.0.2'')]"
  let ?c = "make_candidate code_unit_compare ?i ''motion'' motion_manifest"
  obtain b where b: "buildProviderCandidates code_unit_compare ?i = Inr b"
    using fixture_build by blast
  have "minimumDeclaredVersion ''^17.0.2'' = Some (17, 0, 2)" by code_simp
  then have "\<not> react_supports_motion (in_project ?i)"
    by (simp add: react_supports_motion_def fixture_input_def fixture_project_def)
  moreover have "cand_providerId ?c = ''motion''" by simp
  ultimately show ?thesis
    using candidate_claims_environment [OF b fixture_motion_candidate [OF b]]
      fixture_motion_candidate [OF b] b by blast
qed

text \<open>
  The least version read off an exact, caret, tilde or at-least range is the version written
  in it, and a range meets a minimum exactly when that version is lexicographically at least it.
\<close>

theorem isAtLeast_declared_range:
  assumes "p \<in> lower_operators"
  shows "minimumDeclaredVersion (p @ version_str v) = Some v \<and>
    isAtLeast (p @ version_str v) m = Some (version_le m v)"
  using minimumDeclaredVersion_str [OF assms]
  by (simp add: isAtLeast_def compareVersions_ge)

theorem isAtLeast_declared_range_witness:
  "isAtLeast (''>='' @ version_str (18, 10, 0)) (18, 2, 0) = Some True"
  using isAtLeast_declared_range [of "''>=''" "(18, 10, 0)" "(18, 2, 0)"]
  by (simp add: lower_operators_def)

end
