(* ===== verification/Explain.thy ===== *)
theory Explain
  imports Candidates Ownership
begin

text \<open>
  \<open>packages/core/src/router/explain.ts\<close>: the selected providers of a plan with the reason each
  was chosen, and every other provider with the reason it was not.
\<close>

definition provider_assignments :: "capability_assignment list \<Rightarrow> string \<Rightarrow>
    capability_assignment list" where
  "provider_assignments assignments providerId =
     filter (\<lambda>assignment. asg_providerId assignment = providerId) assignments"

definition selected_ids :: "capability_assignment list \<Rightarrow> string list" where
  "selected_ids assignments =
     sort (js_set (map asg_providerId (filter (\<lambda>a. \<not> asg_native a) assignments)))"

definition buildSelectedProviders :: "capability_assignment list \<Rightarrow> provider_candidate list \<Rightarrow>
    selected_provider list" where
  "buildSelectedProviders assignments candidates =
     (let candidateById = js_map (map (\<lambda>c. (cand_providerId c, c)) candidates) in
      map (\<lambda>providerId.
        let providerAssignments = provider_assignments assignments providerId;
            candidate = map_of candidateById providerId;
            installed = (case candidate of None \<Rightarrow> False | Some c \<Rightarrow> cand_installed c);
            preferred = list_ex (\<lambda>rank. rank \<noteq> None)
              (map asg_preferredRank providerAssignments)
        in \<lparr>sp_providerId = providerId,
            sp_integrationIds =
              sort (js_set (concat (map asg_integrationIds providerAssignments))),
            sp_capabilities = sort (js_set (map asg_capabilityId providerAssignments)),
            sp_reasonCode = (if installed then ''EXISTING_DEPENDENCY_REUSE''
              else if preferred then ''PREFERRED_PROVIDER'' else ''CAPABILITY_MATCH''),
            sp_reason = (if installed
              then providerId @ '' is already declared and satisfies the requested capabilities.''
              else if preferred
              then providerId @ '' is explicitly preferred and satisfies the requested capabilities.''
              else providerId @
                '' satisfies the requested capabilities within the minimal provider set.'')\<rparr>)
      (selected_ids assignments))"

definition rejected_of :: "candidate_rejection \<Rightarrow> rejected_provider" where
  "rejected_of rejection = \<lparr>rp_providerId = rej_providerId rejection,
     rp_reasonCode = rejection_code_name (rej_reasonCode rejection),
     rp_reason = rej_reason rejection\<rparr>"

definition add_candidate_rejection :: "string list \<Rightarrow> string list \<Rightarrow>
    (string \<times> rejected_provider) list \<Rightarrow> provider_candidate \<Rightarrow>
    (string \<times> rejected_provider) list" where
  "add_candidate_rejection selected requestedCapabilityIds values candidate =
     (let p = cand_providerId candidate in
      if p \<in> set selected \<or> map_of values p \<noteq> None then values
      else
        let matches = list_ex (\<lambda>claim. cl_capabilityId claim \<in> set requestedCapabilityIds)
              (cand_claims candidate)
        in AList.update p
          \<lparr>rp_providerId = p,
           rp_reasonCode = (if matches then ''ALTERNATIVE_NOT_NEEDED''
             else ''CAPABILITY_NOT_SUPPORTED''),
           rp_reason = (if matches
             then p @ '' was not required by the selected minimal route.''
             else p @ '' does not claim a requested capability.'')\<rparr> values)"

text \<open>\<open>[a, b, c].join("\0")\<close>, the sort key of rejected providers.\<close>

definition rejected_key :: "rejected_provider \<Rightarrow> string" where
  "rejected_key r = js_join [CHR 0x00] [rp_providerId r, rp_reasonCode r, rp_reason r]"

definition buildRejectedProviders :: "(string \<Rightarrow> string \<Rightarrow> int) \<Rightarrow> capability_assignment list \<Rightarrow>
    provider_candidate list \<Rightarrow> candidate_rejection list \<Rightarrow> string list \<Rightarrow>
    rejected_provider list" where
  "buildRejectedProviders lc assignments candidates rejections requestedCapabilityIds =
     (let selected = js_set (map asg_providerId assignments);
          values = foldl (\<lambda>m r. AList.update (rej_providerId r) (rejected_of r) m) [] rejections;
          values = foldl (add_candidate_rejection selected requestedCapabilityIds) values candidates
      in js_sort (cmp_by lc rejected_key) (map snd values))"

section \<open>Who is selected and who is rejected\<close>

lemma selected_ids_stable:
  "selected_ids assignments = stableUnique (map asg_providerId (filter (\<lambda>a. \<not> asg_native a) assignments))"
  by (simp add: selected_ids_def stableUnique_def)

lemma map_sp_providerId:
  "map sp_providerId (buildSelectedProviders assignments candidates) = selected_ids assignments"
  by (simp add: buildSelectedProviders_def Let_def comp_def)

lemma selected_provider_capabilities:
  assumes "s \<in> set (buildSelectedProviders assignments candidates)"
  shows "set (sp_capabilities s) =
      {asg_capabilityId a | a. a \<in> set assignments \<and> asg_providerId a = sp_providerId s}"
    and "set (sp_integrationIds s) =
      (\<Union>a \<in> {a \<in> set assignments. asg_providerId a = sp_providerId s}. set (asg_integrationIds a))"
  using assms by (auto simp: buildSelectedProviders_def Let_def provider_assignments_def)

text \<open>Every entry of the map of reasons is stored under its own provider.\<close>

definition keyed :: "(string \<times> rejected_provider) list \<Rightarrow> bool" where
  "keyed m \<longleftrightarrow> distinct (map fst m) \<and> (\<forall>kv \<in> set m. rp_providerId (snd kv) = fst kv)"

lemma set_update_subset: "kv \<in> set (AList.update k v m) \<Longrightarrow> kv = (k, v) \<or> kv \<in> set m"
  by (induction m) (auto split: if_splits)

lemma keyed_update: "keyed m \<Longrightarrow> rp_providerId v = k \<Longrightarrow> keyed (AList.update k v m)"
  by (auto simp: keyed_def distinct_update dest!: set_update_subset)

lemma keyed_ids: "keyed m \<Longrightarrow> map (\<lambda>kv. rp_providerId (snd kv)) m = map fst m"
  by (simp add: keyed_def)

lemma rejection_loop:
  "keyed m \<Longrightarrow>
   keyed (foldl (\<lambda>m r. AList.update (rej_providerId r) (rejected_of r) m) m rs) \<and>
   fst ` set (foldl (\<lambda>m r. AList.update (rej_providerId r) (rejected_of r) m) m rs) =
     fst ` set m \<union> rej_providerId ` set rs"
proof (induction rs arbitrary: m)
  case (Cons r rs)
  then have "keyed (AList.update (rej_providerId r) (rejected_of r) m)"
    by (intro keyed_update) (simp_all add: rejected_of_def)
  from Cons.IH [OF this] show ?case by (simp add: fst_update)
qed simp

lemma candidate_rejection_loop:
  "keyed m \<Longrightarrow>
   keyed (foldl (add_candidate_rejection sel caps) m cs) \<and>
   fst ` set (foldl (add_candidate_rejection sel caps) m cs) =
     fst ` set m \<union> (cand_providerId ` set cs - set sel)"
proof (induction cs arbitrary: m)
  case (Cons c cs)
  have step: "keyed (add_candidate_rejection sel caps m c) \<and>
      fst ` set (add_candidate_rejection sel caps m c) =
        fst ` set m \<union> ({cand_providerId c} - set sel)"
    using Cons.prems map_of_eq_None_iff [of m "cand_providerId c"]
    by (auto simp: add_candidate_rejection_def Let_def keyed_update fst_update)
  then show ?case using Cons.IH [of "add_candidate_rejection sel caps m c"] by auto
qed simp

lemma rejected_ids:
  "distinct (map rp_providerId (buildRejectedProviders lc asgs cands rejs caps))"
  "rp_providerId ` set (buildRejectedProviders lc asgs cands rejs caps) =
     rej_providerId ` set rejs \<union> (cand_providerId ` set cands - asg_providerId ` set asgs)"
proof -
  let ?m = "foldl (\<lambda>m r. AList.update (rej_providerId r) (rejected_of r) m) [] rejs"
  let ?v = "foldl (add_candidate_rejection (js_set (map asg_providerId asgs)) caps) ?m cands"
  have m: "keyed ?m \<and> fst ` set ?m = rej_providerId ` set rejs"
    using rejection_loop [of "[]" rejs] by (simp add: keyed_def)
  then have v: "keyed ?v" "fst ` set ?v =
      rej_providerId ` set rejs \<union> (cand_providerId ` set cands - asg_providerId ` set asgs)"
    using candidate_rejection_loop [of ?m "js_set (map asg_providerId asgs)" caps cands] by auto
  have ids: "map rp_providerId (map snd ?v) = map fst ?v"
    using keyed_ids [OF v(1)] by (simp add: comp_def)
  have "distinct (map rp_providerId (map snd ?v))"
    unfolding ids using v(1) by (simp add: keyed_def)
  then show "distinct (map rp_providerId (buildRejectedProviders lc asgs cands rejs caps))"
    by (simp only: buildRejectedProviders_def Let_def distinct_map_js_sort)
  have "rp_providerId ` set (map snd ?v) = fst ` set ?v"
    using arg_cong [OF ids, of set] unfolding set_map .
  then show "rp_providerId ` set (buildRejectedProviders lc asgs cands rejs caps) =
      rej_providerId ` set rejs \<union> (cand_providerId ` set cands - asg_providerId ` set asgs)"
    using v(2) by (simp only: buildRejectedProviders_def Let_def set_js_sort)
qed

end
