(* ===== verification/Route_Capabilities.thy ===== *)
theory Route_Capabilities
  imports Rank Explain
begin

text \<open>
  \<open>packages/core/src/router/route-capabilities.ts\<close>: the routing decision. The request is
  normalised, every way of covering its capabilities is enumerated and checked for ownership and
  for the provider limit, the best sufficient route is chosen, and the outcome becomes a route
  plan whose identity is the digest of the decision.
\<close>

record router_schemas =
  schema_request :: "route_request validator"
  schema_project :: "project_snapshot validator"
  schema_policy :: "policy_document validator"
  schema_plan :: "route_plan validator"

record route_input =
  ri_request :: route_request
  ri_project :: project_snapshot
  ri_catalog :: catalog_reader
  ri_policy :: "policy_document option"
  ri_createdAt :: "string option"

record route_combination =
  comb_assignments :: "capability_assignment list"
  comb_omitted :: "string list"

record evaluated_route =
  ev_assignments :: "capability_assignment list"
  ev_omitted :: "string list"
  ev_ownership :: ownership_resolution
  ev_ranked :: ranked_route

record plan_state =
  st_status :: route_status
  st_assignments :: "capability_assignment list"
  st_ownership :: "plan_ownership list"
  st_constraints :: "plan_constraint list"
  st_requiredInput :: "string list"
  st_omitted :: "string list"
  st_rejectedOverrides :: "rejected_provider list"

section \<open>Validation and normalisation of the request\<close>

definition validateInput :: "string \<Rightarrow> 'a validator \<Rightarrow> 'a \<Rightarrow> 'a result" where
  "validateInput name valid value =
     (case validateContract valid value of
        Inl issues \<Rightarrow> Inl (RouteInputError ''ROUTE_INPUT_INVALID''
          (name @ '' is invalid: '' @ validationMessage issues))
      | Inr v \<Rightarrow> Inr v)"

fun quality_value_json :: "quality_value \<Rightarrow> json" where
  "quality_value_json (QBool b) = JBool b"
| "quality_value_json (QNum n) = JInt n"
| "quality_value_json (QStr s) = JStr s"

definition quality_json :: "quality \<Rightarrow> json" where
  "quality_json q = JObj (map (\<lambda>kv. (fst kv, quality_value_json (snd kv))) q)"

definition capability_json :: "requested_capability \<Rightarrow> json" where
  "capability_json c = JObj
     ([(''id'', JStr (rc_id c)), (''required'', JBool (rc_required c))] @
      opt_entry ''quality'' (map_option quality_json (rc_quality c)))"

definition uniqueInOrder :: "string list \<Rightarrow> string list" where
  "uniqueInOrder values = foldl set_add [] values"

definition normalizeQuality :: "(string \<Rightarrow> string \<Rightarrow> int) \<Rightarrow> quality option \<Rightarrow> quality option" where
  "normalizeQuality lc quality =
     (case quality of
        None \<Rightarrow> None
      | Some q \<Rightarrow>
          let entries = js_sort (cmp_by lc fst) q in if entries = [] then None else Some entries)"

definition normalize_capability :: "(string \<Rightarrow> string \<Rightarrow> int) \<Rightarrow> requested_capability \<Rightarrow>
    requested_capability" where
  "normalize_capability lc capability =
     \<lparr>rc_id = rc_id capability, rc_required = rc_required capability,
      rc_quality = normalizeQuality lc (rc_quality capability)\<rparr>"

definition add_capability :: "(string \<Rightarrow> string \<Rightarrow> int) \<Rightarrow> requested_capability \<Rightarrow>
    (string \<times> requested_capability) list \<Rightarrow> (string \<times> requested_capability) list result" where
  "add_capability lc capability byId =
     (let normalized = normalize_capability lc capability in
      case map_of byId (rc_id capability) of
        Some existing \<Rightarrow>
          chain (canonicalJson (capability_json existing))
            (\<lambda>a. chain (canonicalJson (capability_json normalized))
            (\<lambda>b. chain (guard (a \<noteq> b) (RouteInputError ''ROUTE_INPUT_INVALID''
               (''Capability '' @ rc_id capability @
                '' is duplicated with contradictory requirements or quality data.'')))
            (\<lambda>_. Inr byId)))
      | None \<Rightarrow> Inr (AList.update (rc_id capability) normalized byId))"

text \<open>The sort key; the quality holds no non-finite number, so \<open>canonicalJson\<close> is its text.\<close>

definition capability_key :: "requested_capability \<Rightarrow> string" where
  "capability_key c = js_join [CHR 0x00]
     [rc_id c, json_text (case rc_quality c of None \<Rightarrow> JObj [] | Some q \<Rightarrow> quality_json q)]"

definition normalizeRequest :: "(string \<Rightarrow> string \<Rightarrow> int) \<Rightarrow> route_request \<Rightarrow> route_request result" where
  "normalizeRequest lc request =
     chain (for_each (add_capability lc) (req_capabilities request) [])
       (\<lambda>byId. Inr (request\<lparr>
          req_capabilities := js_sort (cmp_by lc capability_key) (map snd byId),
          req_preferences := (req_preferences request)\<lparr>
            pref_preferredProviders :=
              uniqueInOrder (pref_preferredProviders (req_preferences request)),
            pref_forbiddenProviders :=
              stableUnique (pref_forbiddenProviders (req_preferences request))\<rparr>\<rparr>))"

section \<open>Options for one capability\<close>

fun index_of :: "string \<Rightarrow> string list \<Rightarrow> nat option" where
  "index_of x [] = None"
| "index_of x (y # ys) = (if x = y then Some 0 else map_option Suc (index_of x ys))"

definition preferredRank :: "route_request \<Rightarrow> string \<Rightarrow> nat option" where
  "preferredRank request providerId =
     index_of providerId (pref_preferredProviders (req_preferences request))"

text \<open>\<open>String(-confidence)\<close> for a confidence in millionths.\<close>

definition pad6 :: "nat \<Rightarrow> string" where
  "pad6 n = map (\<lambda>k. digit_char (n div 10 ^ k mod 10)) [5, 4, 3, 2, 1, 0]"

definition decimal_str :: "nat \<Rightarrow> string" where
  "decimal_str n =
     (let fraction = rev (dropWhile (\<lambda>c. c = CHR ''0'') (rev (pad6 (n mod 1000000)))) in
      nat_str (n div 1000000) @ (if fraction = [] then [] else ''.'' @ fraction))"

definition negated_str :: "nat \<Rightarrow> string" where
  "negated_str n = (if n = 0 then ''0'' else ''-'' @ decimal_str n)"

fun supportRank :: "claim_support \<Rightarrow> nat" where
  "supportRank Primary = 0"
| "supportRank Secondary = 1"
| "supportRank Fallback = 2"

definition option_key :: "capability_assignment \<Rightarrow> string" where
  "option_key a = js_join [CHR 0x00]
     [nat_str (supportRank (asg_support a)), negated_str (asg_confidence a), asg_providerId a]"

definition claim_assignment :: "requested_capability \<Rightarrow> route_request \<Rightarrow> provider_candidate \<Rightarrow>
    candidate_claim \<Rightarrow> capability_assignment" where
  "claim_assignment capability request candidate claim = \<lparr>
     asg_capabilityId = rc_id capability,
     asg_providerId = cand_providerId candidate,
     asg_native = cand_native candidate,
     asg_integrationIds = cand_runtimeIntegrationIds candidate,
     asg_support = cl_support claim,
     asg_confidence = cl_confidence claim,
     asg_installed = cand_installed candidate,
     asg_preferredRank = preferredRank request (cand_providerId candidate)\<rparr>"

type_synonym environment_failure = "string \<times> string"

definition option_step :: "requested_capability \<Rightarrow> route_request \<Rightarrow> provider_candidate \<Rightarrow>
    capability_assignment list \<times> environment_failure list \<Rightarrow> candidate_claim \<Rightarrow>
    capability_assignment list \<times> environment_failure list" where
  "option_step capability request candidate acc claim =
     (if cl_capabilityId claim \<noteq> rc_id capability then acc
      else if \<not> cl_environmentSupported claim then
        (fst acc, snd acc @ [(cand_providerId candidate,
          case cl_environmentReason claim of
            Some reason \<Rightarrow> reason
          | None \<Rightarrow> cand_providerId candidate @ '' does not support the current environment.'')])
      else (fst acc @ [claim_assignment capability request candidate claim], snd acc))"

definition assignmentOptions :: "(string \<Rightarrow> string \<Rightarrow> int) \<Rightarrow> requested_capability \<Rightarrow>
    route_request \<Rightarrow> provider_candidate list \<Rightarrow>
    capability_assignment list \<times> environment_failure list" where
  "assignmentOptions lc capability request candidates =
     (let (supported, environmentFailures) =
        foldl (\<lambda>acc candidate.
          foldl (option_step capability request candidate) acc (cand_claims candidate))
        ([], []) candidates
      in (js_sort (cmp_by lc option_key) supported,
          js_sort (cmp_by lc (\<lambda>f. js_join [CHR 0x00] [fst f, snd f])) environmentFailures))"

definition claims_capability :: "connector_record option \<Rightarrow> string \<Rightarrow> bool" where
  "claims_capability record capabilityId =
     (case record of
        Some (SchemaV2Record _ _ manifest _) \<Rightarrow>
          list_ex (\<lambda>claim. claim_capability claim = capabilityId)
            (manifest_capabilityClaims manifest)
      | _ \<Rightarrow> False)"

definition rejectionForCapability :: "string \<Rightarrow> candidate_build \<Rightarrow> catalog_reader \<Rightarrow>
    rejected_provider option" where
  "rejectionForCapability capabilityId candidateBuild catalog =
     map_option rejected_of
       (find (\<lambda>rejection.
          claims_capability (reader_get catalog (rej_providerId rejection)) capabilityId)
         (build_rejections candidateBuild))"

definition text_constraint_key :: "plan_constraint \<Rightarrow> string" where
  "text_constraint_key c = js_join [CHR 0x00] [con_code c, con_message c]"

definition assignmentConstraints :: "(string \<Rightarrow> string \<Rightarrow> int) \<Rightarrow> capability_assignment list \<Rightarrow>
    plan_constraint list" where
  "assignmentConstraints lc assignments =
     js_sort (cmp_by lc text_constraint_key)
       (map (\<lambda>a. \<lparr>con_code = (if asg_native a then ''NATIVE_CAPABILITY_MATCH''
             else ''CAPABILITY_MATCH''),
           con_status = CPassed,
           con_message = asg_providerId a @ '' covers '' @ asg_capabilityId a @ ''.''\<rparr>)
         assignments)"

definition mergeRejectedProviders :: "(string \<Rightarrow> string \<Rightarrow> int) \<Rightarrow> rejected_provider list \<Rightarrow>
    rejected_provider list \<Rightarrow> rejected_provider list" where
  "mergeRejectedProviders lc base overrides =
     (let values = foldl (\<lambda>m item. AList.update (rp_providerId item) item m) [] base;
          values = foldl (\<lambda>m item. AList.update (rp_providerId item) item m) values overrides
      in js_sort (cmp_by lc rejected_key) (map snd values))"

section \<open>Enumerating and judging routes\<close>

definition blocked_state :: "plan_constraint list \<Rightarrow> rejected_provider list \<Rightarrow> plan_state" where
  "blocked_state constraints overrides = \<lparr>st_status = Blocked, st_assignments = [],
     st_ownership = [], st_constraints = constraints, st_requiredInput = [], st_omitted = [],
     st_rejectedOverrides = overrides\<rparr>"

definition failed :: "string \<Rightarrow> string \<Rightarrow> plan_constraint" where
  "failed code message = \<lparr>con_code = code, con_status = CFailed, con_message = message\<rparr>"

definition unknown_state :: "requested_capability \<Rightarrow> plan_state" where
  "unknown_state capability = blocked_state
     [failed ''CAPABILITY_NOT_SUPPORTED''
       (''Required capability '' @ rc_id capability @ '' is unknown.'')] []"

text \<open>A required capability with no supported option ends the route.\<close>

definition uncovered_state :: "requested_capability \<Rightarrow> environment_failure list \<Rightarrow>
    candidate_build \<Rightarrow> catalog_reader \<Rightarrow> plan_state" where
  "uncovered_state capability environmentFailures candidateBuild catalog =
     (let environment = (case environmentFailures of [] \<Rightarrow> None | f # _ \<Rightarrow> Some f);
          rejection = rejectionForCapability (rc_id capability) candidateBuild catalog;
          code = (case environment of
              Some _ \<Rightarrow> ''ENVIRONMENT_UNSUPPORTED''
            | None \<Rightarrow> (case rejection of Some r \<Rightarrow> rp_reasonCode r
                | None \<Rightarrow> ''CAPABILITY_NOT_SUPPORTED''));
          message = (case environment of
              Some f \<Rightarrow> snd f
            | None \<Rightarrow> (case rejection of Some r \<Rightarrow> rp_reason r
                | None \<Rightarrow> ''No eligible provider covers required capability '' @
                    rc_id capability @ ''.''));
          overrides = (case rejection of
              Some r \<Rightarrow> [r]
            | None \<Rightarrow> (case environment of
                None \<Rightarrow> []
              | Some f \<Rightarrow> [\<lparr>rp_providerId = fst f, rp_reasonCode = ''ENVIRONMENT_UNSUPPORTED'',
                  rp_reason = snd f\<rparr>]))
      in blocked_state [failed code message] overrides)"

definition with_omission :: "requested_capability \<Rightarrow> route_combination \<Rightarrow> route_combination" where
  "with_omission capability c = c\<lparr>comb_omitted := comb_omitted c @ [rc_id capability]\<rparr>"

definition with_assignment :: "capability_assignment \<Rightarrow> route_combination \<Rightarrow> route_combination" where
  "with_assignment a c = c\<lparr>comb_assignments := comb_assignments c @ [a]\<rparr>"

definition next_combinations :: "requested_capability \<Rightarrow> capability_assignment list \<Rightarrow>
    route_combination list \<Rightarrow> route_combination list" where
  "next_combinations capability supported combinations =
     concat (map (\<lambda>c.
       (if \<not> rc_required capability then [with_omission capability c] else []) @
       map (\<lambda>a. with_assignment a c) supported) combinations)"

text \<open>
  The loop over the requested capabilities: a left result is the state of an early return.
\<close>

fun expand_combinations :: "(string \<Rightarrow> string \<Rightarrow> int) \<Rightarrow> route_request \<Rightarrow> candidate_build \<Rightarrow>
    catalog_reader \<Rightarrow> requested_capability list \<Rightarrow> route_combination list \<Rightarrow>
    plan_state + route_combination list" where
  "expand_combinations lc request candidateBuild catalog [] combinations = Inr combinations"
| "expand_combinations lc request candidateBuild catalog (capability # rest) combinations =
     (if rc_id capability \<notin>
         set (map capability_id (catalog_capabilities (build_capabilityCatalog candidateBuild)))
      then
        if rc_required capability then Inl (unknown_state capability)
        else expand_combinations lc request candidateBuild catalog rest
          (map (with_omission capability) combinations)
      else
        let options = assignmentOptions lc capability request (build_candidates candidateBuild) in
        if rc_required capability \<and> fst options = []
        then Inl (uncovered_state capability (snd options) candidateBuild catalog)
        else expand_combinations lc request candidateBuild catalog rest
          (next_combinations capability (fst options) combinations))"

definition selected_provider_ids :: "route_combination \<Rightarrow> string list" where
  "selected_provider_ids c =
     map asg_providerId (filter (\<lambda>a. \<not> asg_native a) (comb_assignments c))"

definition evaluatedRoute :: "(string \<Rightarrow> string \<Rightarrow> int) \<Rightarrow> route_request \<Rightarrow> route_combination \<Rightarrow>
    evaluated_route" where
  "evaluatedRoute lc request combination = \<lparr>
     ev_assignments = comb_assignments combination,
     ev_omitted = comb_omitted combination,
     ev_ownership = resolveOwnership lc request (comb_assignments combination),
     ev_ranked = rankRouteCandidate lc (comb_assignments combination)
       (stableUnique (selected_provider_ids combination))\<rparr>"

record judged_routes =
  jr_valid :: "evaluated_route list"
  jr_ambiguous :: "evaluated_route list"
  jr_ownershipBlocked :: "evaluated_route list"
  jr_providerLimitExceeded :: bool

definition judge_step :: "(string \<Rightarrow> string \<Rightarrow> int) \<Rightarrow> route_request \<Rightarrow> judged_routes \<Rightarrow>
    route_combination \<Rightarrow> judged_routes" where
  "judge_step lc request j combination =
     (if length (js_set (selected_provider_ids combination)) >
         pref_maxProviders (req_preferences request)
      then j\<lparr>jr_providerLimitExceeded := True\<rparr>
      else
        let route = evaluatedRoute lc request combination in
        case or_status (ev_ownership route) of
          OwnBlocked \<Rightarrow> j\<lparr>jr_ownershipBlocked := jr_ownershipBlocked j @ [route]\<rparr>
        | OwnNeedsInput \<Rightarrow> j\<lparr>jr_ambiguous := jr_ambiguous j @ [route]\<rparr>
        | OwnOk \<Rightarrow> j\<lparr>jr_valid := jr_valid j @ [route]\<rparr>)"

definition judge :: "(string \<Rightarrow> string \<Rightarrow> int) \<Rightarrow> route_request \<Rightarrow> route_combination list \<Rightarrow>
    judged_routes" where
  "judge lc request combinations =
     foldl (judge_step lc request)
       \<lparr>jr_valid = [], jr_ambiguous = [], jr_ownershipBlocked = [],
        jr_providerLimitExceeded = False\<rparr> combinations"

definition route_key :: "evaluated_route \<Rightarrow> string" where
  "route_key route =
     rank_architectureSignature (ev_ranked route) @ ''|'' @ js_join '','' (sort (ev_omitted route))"

definition deduplicateRoutes :: "evaluated_route list \<Rightarrow> evaluated_route list" where
  "deduplicateRoutes routes =
     map snd (foldl (\<lambda>m route. if map_of m (route_key route) = None
       then AList.update (route_key route) route m else m) [] routes)"

definition valid_compare :: "(string \<Rightarrow> string \<Rightarrow> int) \<Rightarrow> evaluated_route \<Rightarrow> evaluated_route \<Rightarrow> int" where
  "valid_compare lc =
     cmp_then (cmp_by compareRouteCandidates ev_ranked)
       (cmp_by lc (\<lambda>r. rank_architectureSignature (ev_ranked r)))"

section \<open>The decision\<close>

definition tie_state :: "evaluated_route \<Rightarrow> evaluated_route \<Rightarrow> plan_state" where
  "tie_state best second = \<lparr>st_status = NeedsInput, st_assignments = [], st_ownership = [],
     st_constraints = [failed ''MATERIAL_TIE''
       ''Equally ranked routes imply different provider architectures.''],
     st_requiredInput = [''Choose the provider architecture: '' @ js_join '' or ''
       (stableUnique (rank_selectedProviderIds (ev_ranked best) @
         rank_selectedProviderIds (ev_ranked second))) @ ''.''],
     st_omitted = stableUnique (ev_omitted best @ ev_omitted second),
     st_rejectedOverrides = []\<rparr>"

definition chosen_state :: "(string \<Rightarrow> string \<Rightarrow> int) \<Rightarrow> evaluated_route \<Rightarrow> plan_state" where
  "chosen_state lc best =
     (let ids = rank_selectedProviderIds (ev_ranked best);
          status = (if ev_assignments best = [] then NoSdk
            else if ids = [] then Native else Selected)
      in \<lparr>st_status = status, st_assignments = ev_assignments best,
          st_ownership = or_ownership (ev_ownership best),
          st_constraints = assignmentConstraints lc (ev_assignments best) @
            (if status = Selected
             then [\<lparr>con_code = ''MINIMAL_PROVIDER_SET'', con_status = CPassed,
               con_message = ''Selected the minimal provider set: '' @ js_join '', '' ids @ ''.''\<rparr>]
             else []),
          st_requiredInput = [], st_omitted = ev_omitted best, st_rejectedOverrides = []\<rparr>)"

definition ambiguous_state :: "(string \<Rightarrow> string \<Rightarrow> int) \<Rightarrow> evaluated_route \<Rightarrow> plan_state" where
  "ambiguous_state lc r = \<lparr>st_status = NeedsInput, st_assignments = [],
     st_ownership = or_ownership (ev_ownership r),
     st_constraints = assignmentConstraints lc (ev_assignments r) @
       or_constraints (ev_ownership r),
     st_requiredInput = or_requiredInput (ev_ownership r),
     st_omitted = ev_omitted r, st_rejectedOverrides = []\<rparr>"

definition conflict_state :: "(string \<Rightarrow> string \<Rightarrow> int) \<Rightarrow> evaluated_route \<Rightarrow> plan_state" where
  "conflict_state lc r = \<lparr>st_status = Blocked, st_assignments = [],
     st_ownership = or_ownership (ev_ownership r),
     st_constraints = assignmentConstraints lc (ev_assignments r) @
       or_constraints (ev_ownership r),
     st_requiredInput = [], st_omitted = ev_omitted r, st_rejectedOverrides = []\<rparr>"

definition exhausted_state :: "route_request \<Rightarrow> bool \<Rightarrow> plan_state" where
  "exhausted_state request limit = blocked_state
     [if limit
      then failed ''PROVIDER_LIMIT_EXCEEDED'' (''No sufficient route fits maxProviders='' @
        nat_str (pref_maxProviders (req_preferences request)) @ ''.'')
      else failed ''CAPABILITY_NOT_SUPPORTED''
        ''No eligible provider set covers the required capabilities.''] []"

definition decide_routes :: "(string \<Rightarrow> string \<Rightarrow> int) \<Rightarrow> route_request \<Rightarrow> judged_routes \<Rightarrow> plan_state" where
  "decide_routes lc request j =
     (case js_sort (valid_compare lc) (deduplicateRoutes (jr_valid j)) of
        best # others \<Rightarrow>
          (case others of
             second # _ \<Rightarrow>
               if isMaterialArchitecturalTie (ev_ranked best) (ev_ranked second)
               then tie_state best second else chosen_state lc best
           | [] \<Rightarrow> chosen_state lc best)
      | [] \<Rightarrow>
          (case js_sort (cmp_by compareRouteCandidates ev_ranked)
              (deduplicateRoutes (jr_ambiguous j)) of
             bestAmbiguous # _ \<Rightarrow> ambiguous_state lc bestAmbiguous
           | [] \<Rightarrow>
               (case jr_ownershipBlocked j of
                  blocked # _ \<Rightarrow> conflict_state lc blocked
                | [] \<Rightarrow> exhausted_state request (jr_providerLimitExceeded j))))"

definition route_decision :: "(string \<Rightarrow> string \<Rightarrow> int) \<Rightarrow> route_request \<Rightarrow> candidate_build \<Rightarrow>
    catalog_reader \<Rightarrow> plan_state" where
  "route_decision lc request candidateBuild catalog =
     (case expand_combinations lc request candidateBuild catalog (req_capabilities request)
         [\<lparr>comb_assignments = [], comb_omitted = []\<rparr>] of
        Inl state \<Rightarrow> state
      | Inr combinations \<Rightarrow> decide_routes lc request (judge lc request combinations))"

section \<open>The plan\<close>

definition preferences_json :: "route_preferences \<Rightarrow> json" where
  "preferences_json p = JObj
     [(''preferredProviders'', strs_json (pref_preferredProviders p)),
      (''forbiddenProviders'', strs_json (pref_forbiddenProviders p)),
      (''maxProviders'', JInt (int (pref_maxProviders p))),
      (''allowPaidServices'', JBool (pref_allowPaidServices p)),
      (''allowExperimental'', JBool (pref_allowExperimental p))]"

definition selected_provider_json :: "selected_provider \<Rightarrow> json" where
  "selected_provider_json s = JObj
     [(''providerId'', JStr (sp_providerId s)),
      (''integrationIds'', strs_json (sp_integrationIds s)),
      (''capabilities'', strs_json (sp_capabilities s)),
      (''reasonCode'', JStr (sp_reasonCode s)), (''reason'', JStr (sp_reason s))]"

definition rejected_provider_json :: "rejected_provider \<Rightarrow> json" where
  "rejected_provider_json r = JObj
     [(''providerId'', JStr (rp_providerId r)), (''reasonCode'', JStr (rp_reasonCode r)),
      (''reason'', JStr (rp_reason r))]"

definition ownership_json :: "plan_ownership \<Rightarrow> json" where
  "ownership_json w = JObj
     [(''providerId'', JStr (po_providerId w)), (''domain'', JStr (po_domain w)),
      (''scope'', JStr (po_scope w)), (''properties'', strs_json (po_properties w))]"

definition constraint_json :: "plan_constraint \<Rightarrow> json" where
  "constraint_json c = JObj
     [(''code'', JStr (con_code c)), (''status'', JStr (constraint_status_name (con_status c))),
      (''message'', JStr (con_message c))]"

text \<open>The value whose digest identifies the plan.\<close>

definition decisionPayload :: "requested_capability list \<Rightarrow> route_preferences \<Rightarrow> route_plan \<Rightarrow> json" where
  "decisionPayload capabilities preferences plan = JObj
     [(''requestedCapabilities'', JArr (map capability_json capabilities)),
      (''preferences'', preferences_json preferences),
      (''projectSnapshotId'', JStr (plan_projectSnapshotId plan)),
      (''catalogSnapshotId'', JStr (plan_catalogSnapshotId plan)),
      (''policySnapshotId'', JStr (plan_policySnapshotId plan)),
      (''status'', JStr (route_status_name (plan_status plan))),
      (''selectedProviders'', JArr (map selected_provider_json (plan_selectedProviders plan))),
      (''rejectedProviders'', JArr (map rejected_provider_json (plan_rejectedProviders plan))),
      (''ownership'', JArr (map ownership_json (plan_ownership plan))),
      (''constraints'', JArr (map constraint_json (plan_constraints plan))),
      (''uncertainty'', JInt (int (plan_uncertainty plan))),
      (''requiredInput'', strs_json (plan_requiredInput plan))]"

definition plan_constraint_key :: "plan_constraint \<Rightarrow> string" where
  "plan_constraint_key c =
     js_join [CHR 0x00] [con_code c, constraint_status_name (con_status c), con_message c]"

definition omitted_constraint :: "string \<Rightarrow> plan_constraint" where
  "omitted_constraint capabilityId = \<lparr>con_code = ''OPTIONAL_CAPABILITY_OMITTED'',
     con_status = CNotApplicable,
     con_message = ''Optional capability '' @ capabilityId @ '' was omitted.''\<rparr>"

text \<open>The plan before its identity is computed.\<close>

definition plan_content :: "(string \<Rightarrow> string \<Rightarrow> int) \<Rightarrow> string \<Rightarrow> route_request \<Rightarrow> digest \<Rightarrow>
    active_policy \<Rightarrow> candidate_build \<Rightarrow> plan_state \<Rightarrow> route_plan" where
  "plan_content lc createdAt request projectSnapshotId policy candidateBuild state =
     (let requestedCapabilityIds = map rc_id (req_capabilities request);
          canSelect = (st_status state \<in> {Native, Selected});
          explanationAssignments = (if canSelect then st_assignments state else [])
      in \<lparr>plan_planId = '''', plan_createdAt = createdAt, plan_status = st_status state,
          plan_requestId = req_requestId request,
          plan_projectSnapshotId = projectSnapshotId,
          plan_catalogSnapshotId = cs_snapshotId (build_catalogSnapshot candidateBuild),
          plan_policySnapshotId = active_snapshotId policy,
          plan_requestedCapabilities = stableUnique requestedCapabilityIds,
          plan_selectedProviders = (if st_status state = Selected
            then buildSelectedProviders explanationAssignments (build_candidates candidateBuild)
            else []),
          plan_rejectedProviders = mergeRejectedProviders lc
            (buildRejectedProviders lc explanationAssignments (build_candidates candidateBuild)
              (build_rejections candidateBuild) requestedCapabilityIds)
            (st_rejectedOverrides state),
          plan_ownership = st_ownership state,
          plan_constraints = js_sort (cmp_by lc plan_constraint_key)
            (st_constraints state @ map omitted_constraint (st_omitted state)),
          plan_uncertainty = (if st_status state = NeedsInput then 1 else 0),
          plan_requiredInput = stableUnique (st_requiredInput state),
          plan_digest = ''''\<rparr>)"

definition buildPlan :: "(string \<Rightarrow> string \<Rightarrow> int) \<Rightarrow> (string \<Rightarrow> string) \<Rightarrow> route_plan validator \<Rightarrow>
    string \<Rightarrow> route_request \<Rightarrow> digest \<Rightarrow> active_policy \<Rightarrow> candidate_build \<Rightarrow> plan_state \<Rightarrow>
    route_plan result" where
  "buildPlan lc sha valid createdAt request projectSnapshotId policy candidateBuild state =
     (let content = plan_content lc createdAt request projectSnapshotId policy candidateBuild state in
      chain (digestJson sha
          (decisionPayload (req_capabilities request) (req_preferences request) content))
        (\<lambda>digest.
          let plan = content\<lparr>plan_planId := ''route_'' @ digest_slice 24 digest,
                plan_digest := digest\<rparr> in
          case validateContract valid plan of
            Inl issues \<Rightarrow> Inl (RouteInputError ''ROUTE_PLAN_INVALID'' (validationMessage issues))
          | Inr p \<Rightarrow> Inr p))"

definition routeCapabilities :: "(string \<Rightarrow> string \<Rightarrow> int) \<Rightarrow> (string \<Rightarrow> string) \<Rightarrow> router_schemas \<Rightarrow>
    string \<Rightarrow> route_input \<Rightarrow> route_plan result" where
  "routeCapabilities lc sha schemas now input =
     chain (validateInput ''route-request'' (schema_request schemas) (ri_request input))
    (\<lambda>raw. chain (normalizeRequest lc raw)
    (\<lambda>request. chain (validateInput ''project-snapshot'' (schema_project schemas) (ri_project input))
    (\<lambda>project. chain (guard (req_projectSnapshotId request \<noteq> project_snapshotId project)
        (RouteInputError ''ROUTE_INPUT_INVALID''
          ''Route request projectSnapshotId does not match the supplied project snapshot.''))
    (\<lambda>_. chain (getPhase4Policy sha (schema_policy schemas) (ri_policy input))
    (\<lambda>policy. chain (buildProviderCandidates lc
        \<lparr>in_request = request, in_project = project, in_catalog = ri_catalog input,
         in_policy = policy\<rparr>)
    (\<lambda>candidateBuild. buildPlan lc sha (schema_plan schemas)
        (case ri_createdAt input of Some t \<Rightarrow> t | None \<Rightarrow> now)
        request (project_snapshotId project) policy candidateBuild
        (route_decision lc request candidateBuild (ri_catalog input))))))))"

section \<open>What a combination is\<close>

definition known_ids :: "candidate_build \<Rightarrow> string set" where
  "known_ids b = capability_id ` set (catalog_capabilities (build_capabilityCatalog b))"

definition options_for :: "(string \<Rightarrow> string \<Rightarrow> int) \<Rightarrow> route_request \<Rightarrow> candidate_build \<Rightarrow>
    requested_capability \<Rightarrow> capability_assignment set" where
  "options_for lc request b capability =
     (if rc_id capability \<in> known_ids b
      then set (fst (assignmentOptions lc capability request (build_candidates b))) else {})"

text \<open>
  The specification of the enumeration: every requested capability is covered by one of its
  options or, if it is optional, omitted.
\<close>

fun covers :: "(requested_capability \<Rightarrow> capability_assignment set) \<Rightarrow> requested_capability list \<Rightarrow>
    capability_assignment list \<Rightarrow> string list \<Rightarrow> bool" where
  "covers opts [] as om \<longleftrightarrow> as = [] \<and> om = []"
| "covers opts (c # cs) as om \<longleftrightarrow>
     (\<exists>a as'. as = a # as' \<and> a \<in> opts c \<and> covers opts cs as' om) \<or>
     (\<not> rc_required c \<and> (\<exists>om'. om = rc_id c # om' \<and> covers opts cs as om'))"

lemma set_next_combinations:
  "set (next_combinations c opts combs) =
     (if rc_required c then {} else with_omission c ` set combs) \<union>
     {with_assignment a comb | a comb. a \<in> set opts \<and> comb \<in> set combs}"
  by (auto simp: next_combinations_def)

lemma combination_eta [simp]:
  "\<lparr>comb_assignments = comb_assignments p, comb_omitted = comb_omitted p\<rparr> = p"
  by simp

text \<open>The combinations reached from a partial one by covering the remaining capabilities.\<close>

definition completions :: "(requested_capability \<Rightarrow> capability_assignment set) \<Rightarrow>
    requested_capability list \<Rightarrow> route_combination \<Rightarrow> route_combination set" where
  "completions opts cs p =
     {\<lparr>comb_assignments = comb_assignments p @ as, comb_omitted = comb_omitted p @ om\<rparr> | as om.
        covers opts cs as om}"

lemma completions_Nil: "completions opts [] p = {p}"
  by (simp add: completions_def)

lemma completions_Cons:
  "completions opts (c # cs) p =
     (if rc_required c then {} else completions opts cs (with_omission c p)) \<union>
     (\<Union>a \<in> opts c. completions opts cs (with_assignment a p))" (is "?l = ?r")
proof (intro set_eqI iffI)
  fix q
  assume "q \<in> ?l"
  then obtain as om where q: "covers opts (c # cs) as om"
      "q = \<lparr>comb_assignments = comb_assignments p @ as, comb_omitted = comb_omitted p @ om\<rparr>"
    unfolding completions_def by blast
  from q(1) consider a as' where "as = a # as'" "a \<in> opts c" "covers opts cs as' om"
    | om' where "\<not> rc_required c" "om = rc_id c # om'" "covers opts cs as om'" by auto
  then show "q \<in> ?r"
  proof cases
    case 1
    then have "q \<in> completions opts cs (with_assignment a p)"
      using q(2) by (auto simp: completions_def with_assignment_def)
    then show ?thesis using 1 by blast
  next
    case 2
    then have "q \<in> completions opts cs (with_omission c p)"
      using q(2) by (auto simp: completions_def with_omission_def)
    then show ?thesis using 2 by simp
  qed
next
  fix q
  assume "q \<in> ?r"
  then consider "\<not> rc_required c" "q \<in> completions opts cs (with_omission c p)"
    | a where "a \<in> opts c" "q \<in> completions opts cs (with_assignment a p)"
    by (auto split: if_splits)
  then show "q \<in> ?l"
  proof cases
    case 1
    then obtain as om where "covers opts cs as om"
      "q = \<lparr>comb_assignments = comb_assignments p @ as, comb_omitted = comb_omitted p @ rc_id c # om\<rparr>"
      by (auto simp: completions_def with_omission_def)
    moreover from this(1) have "covers opts (c # cs) as (rc_id c # om)" using 1 by auto
    ultimately show ?thesis unfolding completions_def by blast
  next
    case 2
    then obtain as om where "covers opts cs as om"
      "q = \<lparr>comb_assignments = comb_assignments p @ a # as, comb_omitted = comb_omitted p @ om\<rparr>"
      by (auto simp: completions_def with_assignment_def)
    moreover from this(1) have "covers opts (c # cs) (a # as) om" using 2 by auto
    ultimately show ?thesis unfolding completions_def by blast
  qed
qed

text \<open>The loop yields exactly the combinations of the specification.\<close>

lemma expand_combinations_set:
  assumes "expand_combinations lc request b catalog cs combs = Inr out"
  shows "set out = (\<Union>p \<in> set combs. completions (options_for lc request b) cs p)"
  using assms
proof (induction cs arbitrary: combs)
  case Nil
  then show ?case by (simp add: completions_Nil)
next
  case (Cons c cs)
  let ?opts = "assignmentOptions lc c request (build_candidates b)"
  have known: "rc_id c \<in> set (map capability_id (catalog_capabilities (build_capabilityCatalog b))) \<longleftrightarrow>
      rc_id c \<in> known_ids b" by (simp add: known_ids_def)
  show ?case
  proof (cases "rc_id c \<in> known_ids b")
    case False
    then have opt: "\<not> rc_required c"
      and out: "expand_combinations lc request b catalog cs (map (with_omission c) combs) = Inr out"
      using Cons.prems known by (auto split: if_splits)
    have "options_for lc request b c = {}" using False by (simp add: options_for_def)
    then show ?thesis
      unfolding Cons.IH [OF out] completions_Cons using opt by simp
  next
    case True
    then have out: "expand_combinations lc request b catalog cs
        (next_combinations c (fst ?opts) combs) = Inr out"
      using Cons.prems known by (auto simp: Let_def split: if_splits)
    have opts: "options_for lc request b c = set (fst ?opts)"
      using True by (simp add: options_for_def)
    show ?thesis
      unfolding Cons.IH [OF out] completions_Cons opts next_combinations_def
      by (auto split: if_splits)
  qed
qed

end
