(* ===== verification/Route_Correctness.thy ===== *)
theory Route_Correctness
  imports Route_Capabilities
begin

text \<open>
  What the routing decision guarantees: the judged routes as filters of the enumerated
  combinations, the shape of each outcome, soundness of a selection, coverage of the required
  capabilities, optimality among the sufficient routes, and the identity of a plan.
\<close>

section \<open>Judging\<close>

definition within_limit :: "route_request \<Rightarrow> route_combination \<Rightarrow> bool" where
  "within_limit request c \<longleftrightarrow>
     card (set (selected_provider_ids c)) \<le> pref_maxProviders (req_preferences request)"

definition combination_status :: "(string \<Rightarrow> string \<Rightarrow> int) \<Rightarrow> route_request \<Rightarrow> route_combination \<Rightarrow>
    ownership_status" where
  "combination_status lc request c = or_status (resolveOwnership lc request (comb_assignments c))"

text \<open>A sufficient route: within the provider limit and without contested ownership.\<close>

definition sufficient :: "(string \<Rightarrow> string \<Rightarrow> int) \<Rightarrow> route_request \<Rightarrow> route_combination \<Rightarrow> bool" where
  "sufficient lc request c \<longleftrightarrow> within_limit request c \<and> combination_status lc request c = OwnOk"

definition judged_with :: "(string \<Rightarrow> string \<Rightarrow> int) \<Rightarrow> route_request \<Rightarrow> ownership_status \<Rightarrow>
    route_combination list \<Rightarrow> evaluated_route list" where
  "judged_with lc request s cs =
     map (evaluatedRoute lc request)
       (filter (\<lambda>c. within_limit request c \<and> combination_status lc request c = s) cs)"

lemma ev_ownership_status:
  "or_status (ev_ownership (evaluatedRoute lc request c)) = combination_status lc request c"
  by (simp add: evaluatedRoute_def combination_status_def)

lemma judge_step_cases:
  "judge_step lc request j c =
     (if \<not> within_limit request c then j\<lparr>jr_providerLimitExceeded := True\<rparr>
      else case combination_status lc request c of
        OwnBlocked \<Rightarrow> j\<lparr>jr_ownershipBlocked := jr_ownershipBlocked j @ [evaluatedRoute lc request c]\<rparr>
      | OwnNeedsInput \<Rightarrow> j\<lparr>jr_ambiguous := jr_ambiguous j @ [evaluatedRoute lc request c]\<rparr>
      | OwnOk \<Rightarrow> j\<lparr>jr_valid := jr_valid j @ [evaluatedRoute lc request c]\<rparr>)"
  by (simp add: judge_step_def within_limit_def length_js_set not_le Let_def ev_ownership_status)

lemma judge_fold:
  "jr_valid (foldl (judge_step lc request) j cs) = jr_valid j @ judged_with lc request OwnOk cs"
  "jr_ambiguous (foldl (judge_step lc request) j cs) =
     jr_ambiguous j @ judged_with lc request OwnNeedsInput cs"
  "jr_ownershipBlocked (foldl (judge_step lc request) j cs) =
     jr_ownershipBlocked j @ judged_with lc request OwnBlocked cs"
  "jr_providerLimitExceeded (foldl (judge_step lc request) j cs) \<longleftrightarrow>
     jr_providerLimitExceeded j \<or> (\<exists>c \<in> set cs. \<not> within_limit request c)"
  by (induction cs arbitrary: j)
    (auto simp: judge_step_cases judged_with_def split: ownership_status.split)

lemma judge_simps [simp]:
  "jr_valid (judge lc request cs) = judged_with lc request OwnOk cs"
  "jr_ambiguous (judge lc request cs) = judged_with lc request OwnNeedsInput cs"
  "jr_ownershipBlocked (judge lc request cs) = judged_with lc request OwnBlocked cs"
  "jr_providerLimitExceeded (judge lc request cs) \<longleftrightarrow> (\<exists>c \<in> set cs. \<not> within_limit request c)"
  by (simp_all add: judge_def judge_fold)

section \<open>Deduplication keeps one route per key\<close>

definition dedup_step :: "(string \<times> evaluated_route) list \<Rightarrow> evaluated_route \<Rightarrow>
    (string \<times> evaluated_route) list" where
  "dedup_step m route = (if map_of m (route_key route) = None
     then AList.update (route_key route) route m else m)"

lemma deduplicateRoutes_fold: "deduplicateRoutes rs = map snd (foldl dedup_step [] rs)"
  by (simp add: deduplicateRoutes_def dedup_step_def [abs_def])

definition routes_keyed :: "(string \<times> evaluated_route) list \<Rightarrow> bool" where
  "routes_keyed m \<longleftrightarrow> (\<forall>kv \<in> set m. fst kv = route_key (snd kv))"

lemma dedup_step:
  assumes "routes_keyed m"
  shows "routes_keyed (dedup_step m r)"
    and "snd ` set (dedup_step m r) \<subseteq> insert r (snd ` set m)"
    and "fst ` set (dedup_step m r) = insert (route_key r) (fst ` set m)"
  using assms map_of_eq_None_iff [of m "route_key r"]
  by (auto simp: dedup_step_def routes_keyed_def fst_update dest!: set_update_subset)

lemma dedup_fold:
  "routes_keyed m \<Longrightarrow>
   routes_keyed (foldl dedup_step m rs) \<and>
   snd ` set (foldl dedup_step m rs) \<subseteq> snd ` set m \<union> set rs \<and>
   fst ` set (foldl dedup_step m rs) = fst ` set m \<union> route_key ` set rs"
proof (induction rs arbitrary: m)
  case (Cons r rs)
  note step = dedup_step [OF Cons.prems, of r]
  have rest: "routes_keyed (foldl dedup_step (dedup_step m r) rs)"
    "snd ` set (foldl dedup_step (dedup_step m r) rs) \<subseteq> snd ` set (dedup_step m r) \<union> set rs"
    "fst ` set (foldl dedup_step (dedup_step m r) rs) =
      fst ` set (dedup_step m r) \<union> route_key ` set rs"
    using Cons.IH [OF step(1)] by blast+
  have "snd ` set (foldl dedup_step m (r # rs)) \<subseteq> snd ` set m \<union> set (r # rs)"
    using rest(2) step(2) by (simp only: foldl.simps list.set) blast
  then show ?case using rest(1,3) step(3) by simp
qed simp

lemma set_deduplicateRoutes:
  "set (deduplicateRoutes rs) \<subseteq> set rs"
  "route_key ` set (deduplicateRoutes rs) = route_key ` set rs"
proof -
  let ?out = "foldl dedup_step [] rs"
  have "routes_keyed []" by (simp add: routes_keyed_def)
  then have out: "routes_keyed ?out" "snd ` set ?out \<subseteq> set rs"
    "fst ` set ?out = route_key ` set rs"
    using dedup_fold [of "[]" rs] by simp_all
  show "set (deduplicateRoutes rs) \<subseteq> set rs" using out(2) by (simp add: deduplicateRoutes_fold)
  have "route_key ` snd ` set ?out = fst ` set ?out"
    using out(1) unfolding routes_keyed_def image_image by (intro image_cong) simp_all
  then show "route_key ` set (deduplicateRoutes rs) = route_key ` set rs"
    using out(3) by (simp add: deduplicateRoutes_fold)
qed

lemma deduplicateRoutes_Nil [simp]: "deduplicateRoutes rs = [] \<longleftrightarrow> rs = []"
  using set_deduplicateRoutes(2) [of rs] by (metis image_is_empty set_empty)

lemma deduplicateRoutes_empty [simp]: "deduplicateRoutes [] = []"
  by simp

section \<open>The outcomes\<close>

lemma decide_routes_valid:
  assumes "jr_valid j \<noteq> []"
  obtains best where "best \<in> set (jr_valid j)"
    and "hd (js_sort (valid_compare lc) (deduplicateRoutes (jr_valid j))) = best"
    and "decide_routes lc request j = chosen_state lc best \<or>
      (\<exists>second. decide_routes lc request j = tie_state best second)"
proof -
  let ?s = "js_sort (valid_compare lc) (deduplicateRoutes (jr_valid j))"
  have "?s \<noteq> []" using assms by simp
  then obtain best others where s: "?s = best # others" by (cases ?s) auto
  have "set ?s \<subseteq> set (jr_valid j)" using set_deduplicateRoutes(1) by simp
  then have "best \<in> set (jr_valid j)" unfolding s by simp
  moreover have "decide_routes lc request j = chosen_state lc best \<or>
      (\<exists>second. decide_routes lc request j = tie_state best second)"
    by (cases others) (auto simp: decide_routes_def s)
  ultimately show thesis using that s by simp
qed

lemma decide_routes_status_not_chosen:
  assumes "jr_valid j = []"
  shows "st_status (decide_routes lc request j) =
    (if jr_ambiguous j \<noteq> [] then NeedsInput else Blocked)"
proof (cases "jr_ambiguous j = []")
  case True
  then show ?thesis using assms
    by (simp add: decide_routes_def ambiguous_state_def conflict_state_def exhausted_state_def
        blocked_state_def deduplicateRoutes_fold split: list.split)
next
  case False
  let ?s = "js_sort (cmp_by compareRouteCandidates ev_ranked) (deduplicateRoutes (jr_ambiguous j))"
  have "?s \<noteq> []" using False by simp
  then obtain r rs where s: "?s = r # rs" by (cases ?s) auto
  have "js_sort (valid_compare lc) (deduplicateRoutes (jr_valid j)) = []" using assms by simp
  then show ?thesis using False
    by (simp add: decide_routes_def ambiguous_state_def s)
qed

lemma chosen_state_status:
  "st_status (chosen_state lc r) \<in> {NoSdk, Native, Selected}"
  by (simp add: chosen_state_def Let_def)

lemma tie_state_status [simp]: "st_status (tie_state a b) = NeedsInput"
  by (simp add: tie_state_def)

lemma early_state_status:
  assumes "expand_combinations lc request b catalog cs combs = Inl state"
  shows "st_status state = Blocked \<and> st_assignments state = [] \<and> st_ownership state = []"
  using assms
  by (induction lc request b catalog cs combs rule: expand_combinations.induct)
    (auto simp: unknown_state_def uncovered_state_def blocked_state_def Let_def split: if_splits)

section \<open>Coverage\<close>

lemma covers_required:
  "covers opts cs as om \<Longrightarrow> c \<in> set cs \<Longrightarrow> rc_required c \<Longrightarrow> \<exists>a \<in> set as. a \<in> opts c"
  by (induction cs arbitrary: as om) auto

lemma covers_sound:
  "covers opts cs as om \<Longrightarrow> a \<in> set as \<Longrightarrow> \<exists>c \<in> set cs. a \<in> opts c"
  by (induction cs arbitrary: as om) fastforce+

lemma covers_omitted:
  "covers opts cs as om \<Longrightarrow> i \<in> set om \<Longrightarrow> \<exists>c \<in> set cs. i = rc_id c \<and> \<not> rc_required c"
  by (induction cs arbitrary: as om) fastforce+

lemma early_return_uncovered:
  assumes "expand_combinations lc request b catalog cs combs = Inl state"
  shows "\<exists>c \<in> set cs. rc_required c \<and> options_for lc request b c = {}"
  using assms
  by (induction lc request b catalog cs combs rule: expand_combinations.induct)
    (auto simp: options_for_def known_ids_def Let_def split: if_splits)

text \<open>The combinations of the whole request.\<close>

definition combination :: "capability_assignment list \<Rightarrow> string list \<Rightarrow> route_combination" where
  "combination as om = \<lparr>comb_assignments = as, comb_omitted = om\<rparr>"

lemma combination_simps [simp]:
  "comb_assignments (combination as om) = as"
  "comb_omitted (combination as om) = om"
  "combination (comb_assignments c) (comb_omitted c) = c"
  by (simp_all add: combination_def)

definition covering :: "(string \<Rightarrow> string \<Rightarrow> int) \<Rightarrow> route_request \<Rightarrow> candidate_build \<Rightarrow>
    capability_assignment list \<Rightarrow> string list \<Rightarrow> bool" where
  "covering lc request b as om \<longleftrightarrow>
     covers (options_for lc request b) (req_capabilities request) as om"

lemma expand_all_set:
  assumes "expand_combinations lc request b catalog (req_capabilities request)
      [\<lparr>comb_assignments = [], comb_omitted = []\<rparr>] = Inr out"
  shows "c \<in> set out \<longleftrightarrow> covering lc request b (comb_assignments c) (comb_omitted c)"
proof -
  have "set out = {combination as om | as om. covering lc request b as om}"
    unfolding expand_combinations_set [OF assms]
    by (simp add: completions_def covering_def combination_def)
  then show ?thesis by (auto simp del: combination_simps(3))
    (metis combination_simps(3))
qed

lemma route_decision_cases:
  obtains (early) state where "route_decision lc request b catalog = state"
      "st_status state = Blocked" "\<And>as om. \<not> covering lc request b as om"
  | (judged) out where "\<And>c. c \<in> set out \<longleftrightarrow>
        covering lc request b (comb_assignments c) (comb_omitted c)"
      "route_decision lc request b catalog = decide_routes lc request (judge lc request out)"
proof (cases "expand_combinations lc request b catalog (req_capabilities request)
      [\<lparr>comb_assignments = [], comb_omitted = []\<rparr>]")
  case (Inl state)
  have "\<not> covering lc request b as om" for as om
    using early_return_uncovered [OF Inl] covers_required unfolding covering_def by fastforce
  then show ?thesis using Inl early_state_status [OF Inl] early by (simp add: route_decision_def)
next
  case (Inr out)
  show ?thesis
    using judged [OF expand_all_set [OF Inr]] Inr by (simp add: route_decision_def)
qed

lemma judged_with_Nil:
  "judged_with lc request s cs = [] \<longleftrightarrow>
     \<not> (\<exists>c \<in> set cs. within_limit request c \<and> combination_status lc request c = s)"
  by (auto simp: judged_with_def filter_empty_conv)

text \<open>When a route is chosen, it is the evaluation of a covering, sufficient combination.\<close>

lemma chosen_state_simps:
  "st_assignments (chosen_state lc r) = ev_assignments r"
  "st_omitted (chosen_state lc r) = ev_omitted r"
  "st_ownership (chosen_state lc r) = or_ownership (ev_ownership r)"
  "st_rejectedOverrides (chosen_state lc r) = []"
  by (simp_all add: chosen_state_def Let_def)

lemma route_decision_chosen:
  assumes "st_status (route_decision lc request b catalog) \<in> {NoSdk, Native, Selected}"
  obtains out c where
    "\<And>c'. c' \<in> set out \<longleftrightarrow> covering lc request b (comb_assignments c') (comb_omitted c')"
    and "c \<in> set out" and "sufficient lc request c"
    and "route_decision lc request b catalog = chosen_state lc (evaluatedRoute lc request c)"
    and "hd (js_sort (valid_compare lc) (deduplicateRoutes (judged_with lc request OwnOk out))) =
      evaluatedRoute lc request c"
  using assms
proof (cases rule: route_decision_cases [of lc request b catalog])
  case (early state)
  then show ?thesis using assms by simp
next
  case (judged out)
  let ?j = "judge lc request out"
  have valid: "jr_valid ?j \<noteq> []"
    using assms judged(2) decide_routes_status_not_chosen [of ?j lc request]
    by (auto split: if_splits)
  then obtain best where best: "best \<in> set (jr_valid ?j)"
      "hd (js_sort (valid_compare lc) (deduplicateRoutes (jr_valid ?j))) = best"
      "decide_routes lc request ?j = chosen_state lc best \<or>
        (\<exists>second. decide_routes lc request ?j = tie_state best second)"
    by (rule decide_routes_valid [of ?j lc request])
  have chosen: "decide_routes lc request ?j = chosen_state lc best"
    using best(3) assms judged(2) by auto
  obtain c where c: "c \<in> set out" "sufficient lc request c" "best = evaluatedRoute lc request c"
    using best(1) by (auto simp: judged_with_def sufficient_def)
  show ?thesis
    using that [of out c] judged(1) c chosen judged(2) best(2) by simp
qed

section \<open>Options\<close>

lemma option_step_claims:
  "fst (foldl (option_step c request cand) acc claims) =
     fst acc @ map (claim_assignment c request cand)
       (filter (\<lambda>cl. cl_capabilityId cl = rc_id c \<and> cl_environmentSupported cl) claims)"
  by (induction claims arbitrary: acc) (simp_all add: option_step_def)

lemma option_step_candidates:
  "fst (foldl (\<lambda>acc cand. foldl (option_step c request cand) acc (cand_claims cand)) acc cands) =
     fst acc @ concat (map (\<lambda>cand. map (claim_assignment c request cand)
       (filter (\<lambda>cl. cl_capabilityId cl = rc_id c \<and> cl_environmentSupported cl)
         (cand_claims cand))) cands)"
  by (induction cands arbitrary: acc) (simp_all add: option_step_claims)

lemma fst_assignmentOptions:
  "fst (assignmentOptions lc c request cands) =
     js_sort (cmp_by lc option_key)
       (concat (map (\<lambda>cand. map (claim_assignment c request cand)
         (filter (\<lambda>cl. cl_capabilityId cl = rc_id c \<and> cl_environmentSupported cl)
           (cand_claims cand))) cands))"
  by (simp add: assignmentOptions_def case_prod_beta Let_def option_step_candidates)

lemma set_assignmentOptions:
  "set (fst (assignmentOptions lc c request cands)) =
     {claim_assignment c request cand cl | cand cl. cand \<in> set cands \<and> cl \<in> set (cand_claims cand) \<and>
        cl_capabilityId cl = rc_id c \<and> cl_environmentSupported cl}"
  by (auto simp: fst_assignmentOptions)

lemma options_for_sound:
  assumes "a \<in> options_for lc request b c"
  shows "asg_capabilityId a = rc_id c"
    and "\<exists>cand \<in> set (build_candidates b). asg_providerId a = cand_providerId cand \<and>
      asg_native a = cand_native cand \<and> asg_installed a = cand_installed cand \<and>
      (\<exists>cl \<in> set (cand_claims cand). cl_capabilityId cl = rc_id c \<and> cl_environmentSupported cl)"
  using assms
  by (auto simp: options_for_def set_assignmentOptions claim_assignment_def split: if_splits)

section \<open>A concrete decision\<close>

lemma route_decision_single:
  assumes "expand_combinations lc request b catalog (req_capabilities request)
      [\<lparr>comb_assignments = [], comb_omitted = []\<rparr>] = Inr [c]"
    and "sufficient lc request c"
  shows "route_decision lc request b catalog = chosen_state lc (evaluatedRoute lc request c)"
proof -
  have "judged_with lc request OwnOk [c] = [evaluatedRoute lc request c]"
    using assms(2) by (simp add: judged_with_def sufficient_def)
  moreover have "deduplicateRoutes [r] = [r]" for r
    by (simp add: deduplicateRoutes_fold dedup_step_def)
  ultimately show ?thesis
    using assms(1) by (simp add: route_decision_def decide_routes_def)
qed

definition layout_candidate :: provider_candidate where
  "layout_candidate = \<lparr>cand_providerId = ''motion'', cand_native = False,
     cand_manifest = motion_manifest, cand_runtimeIntegrationIds = [''motion-react''],
     cand_installed = False, cand_legacyAliasPresent = False,
     cand_claims = [\<lparr>cl_capabilityId = ''motion.layout'', cl_support = Primary,
       cl_confidence = 900000, cl_environmentSupported = True, cl_environmentReason = None\<rparr>]\<rparr>"

definition layout_build :: candidate_build where
  "layout_build = \<lparr>build_candidates = [layout_candidate], build_rejections = [],
     build_capabilityCatalog = reader_capabilityCatalog fixture_reader,
     build_catalogSnapshot = fixture_snapshot\<rparr>"

definition layout_request :: route_request where
  "layout_request = fixture_request [needs ''motion.layout''] 2"

definition layout_assignment :: capability_assignment where
  "layout_assignment = \<lparr>asg_capabilityId = ''motion.layout'', asg_providerId = ''motion'',
     asg_native = False, asg_integrationIds = [''motion-react''], asg_support = Primary,
     asg_confidence = 900000, asg_installed = False, asg_preferredRank = None\<rparr>"

lemma layout_options:
  "fst (assignmentOptions lc (needs ''motion.layout'') layout_request [layout_candidate]) =
     [layout_assignment]"
  by (simp add: assignmentOptions_def option_step_def claim_assignment_def layout_candidate_def
      layout_request_def fixture_request_def needs_def layout_assignment_def preferredRank_def)

lemma layout_covering:
  "covering lc layout_request layout_build [layout_assignment] []"
  using layout_options [of lc]
  by (simp add: covering_def options_for_def known_ids_def layout_build_def layout_request_def
      fixture_defs)

lemma layout_sufficient: "sufficient lc layout_request (combination [layout_assignment] [])"
  by (simp add: sufficient_def within_limit_def combination_status_def selected_provider_ids_def
      layout_assignment_def layout_request_def fixture_request_def resolveOwnership_status
      contested_def)

lemma layout_decision:
  "route_decision lc layout_request layout_build fixture_reader =
     chosen_state lc (evaluatedRoute lc layout_request (combination [layout_assignment] []))"
proof (rule route_decision_single [OF _ layout_sufficient])
  have caps: "req_capabilities layout_request = [needs ''motion.layout'']"
    by (simp add: layout_request_def fixture_request_def)
  have id: "rc_id (needs ''motion.layout'') = ''motion.layout''" "rc_required (needs ''motion.layout'')"
    by (simp_all add: needs_def)
  have "''motion.layout'' \<in> set (map capability_id
      (catalog_capabilities (build_capabilityCatalog layout_build)))"
    by (simp add: layout_build_def fixture_reader_def fixture_capability_def)
  then show "expand_combinations lc layout_request layout_build fixture_reader
      (req_capabilities layout_request) [\<lparr>comb_assignments = [], comb_omitted = []\<rparr>] =
    Inr [combination [layout_assignment] []]"
    using layout_options [of lc]
    by (simp add: caps id layout_build_def next_combinations_def with_assignment_def
        combination_def Let_def)
qed

lemma layout_status:
  "st_status (route_decision lc layout_request layout_build fixture_reader) = Selected"
  by (simp add: layout_decision chosen_state_def evaluatedRoute_def selected_provider_ids_def
      layout_assignment_def Let_def)

section \<open>The decision against its specification\<close>

text \<open>
  A chosen route (selected, native or no SDK) assigns every required capability of the
  request to one of its eligible options, omits only optional ones, stays within the provider
  limit and leaves no ownership contested.
\<close>

theorem route_decision_sound:
  assumes "st_status (route_decision lc request b catalog) \<in> {NoSdk, Native, Selected}"
  defines "st \<equiv> route_decision lc request b catalog"
  shows "covering lc request b (st_assignments st) (st_omitted st) \<and>
    sufficient lc request (combination (st_assignments st) (st_omitted st)) \<and>
    (\<forall>c \<in> set (req_capabilities request). rc_required c \<longrightarrow>
       (\<exists>a \<in> set (st_assignments st). asg_capabilityId a = rc_id c \<and>
          (\<exists>cand \<in> set (build_candidates b). cand_providerId cand = asg_providerId a)))"
proof -
  obtain out c where "\<And>c'. c' \<in> set out \<longleftrightarrow> covering lc request b (comb_assignments c') (comb_omitted c')"
      and c: "c \<in> set out" "sufficient lc request c"
        "route_decision lc request b catalog = chosen_state lc (evaluatedRoute lc request c)"
    using route_decision_chosen [OF assms(1)] by metis
  then have cov: "covering lc request b (comb_assignments c) (comb_omitted c)" by blast
  have st: "st_assignments st = comb_assignments c" "st_omitted st = comb_omitted c"
    unfolding st_def c(3) chosen_state_simps by (simp_all add: evaluatedRoute_def)
  have "\<exists>a \<in> set (comb_assignments c). asg_capabilityId a = rc_id r \<and>
      (\<exists>cand \<in> set (build_candidates b). cand_providerId cand = asg_providerId a)"
    if "r \<in> set (req_capabilities request)" "rc_required r" for r
    using covers_required [OF cov [unfolded covering_def] that] options_for_sound by metis
  then show ?thesis using cov c(2) by (simp add: st)
qed

theorem route_decision_sound_witness:
  "\<exists>a \<in> set (st_assignments (route_decision code_unit_compare layout_request layout_build fixture_reader)).
     asg_capabilityId a = ''motion.layout''"
proof -
  let ?st = "route_decision code_unit_compare layout_request layout_build fixture_reader"
  have "st_status ?st \<in> {NoSdk, Native, Selected}" by (simp add: layout_status)
  from route_decision_sound [OF this] show ?thesis
    by (auto simp: layout_request_def fixture_request_def needs_def)
qed

text \<open>
  Routes of the same architecture and omissions are represented by the first of them, whatever
  their rank: a better one that comes later is discarded.
\<close>

theorem deduplicateRoutes_keeps_first:
  "route_key r = route_key r' \<Longrightarrow> deduplicateRoutes [r, r'] = [r]"
  by (simp add: deduplicateRoutes_def)

text \<open>
  C3: The chosen route is the best among the routes that represent their architecture. For every
  combination that covers the request, fits the provider limit and has no contested ownership
  there is one with the same architecture and omissions, sufficient like it, which the chosen route
  precedes or equals; where all sufficient combinations of that architecture and those
  omissions are evaluated alike, the chosen route precedes or equals the combination itself.
\<close>

theorem route_decision_optimal:
  assumes "collation lc"
    and "st_status (route_decision lc request b catalog) \<in> {NoSdk, Native, Selected}"
    and "covering lc request b as om" and "sufficient lc request (combination as om)"
  defines "st \<equiv> route_decision lc request b catalog"
  shows "(\<exists>as' om'. covering lc request b as' om' \<and> sufficient lc request (combination as' om') \<and>
      route_key (evaluatedRoute lc request (combination as' om')) =
        route_key (evaluatedRoute lc request (combination as om)) \<and>
      compareRouteCandidates
        (ev_ranked (evaluatedRoute lc request (combination (st_assignments st) (st_omitted st))))
        (ev_ranked (evaluatedRoute lc request (combination as' om'))) \<le> 0) \<and>
    ((\<forall>as' om'. covering lc request b as' om' \<and> sufficient lc request (combination as' om') \<and>
        route_key (evaluatedRoute lc request (combination as' om')) =
          route_key (evaluatedRoute lc request (combination as om)) \<longrightarrow>
        evaluatedRoute lc request (combination as' om') = evaluatedRoute lc request (combination as om)) \<longrightarrow>
      compareRouteCandidates
        (ev_ranked (evaluatedRoute lc request (combination (st_assignments st) (st_omitted st))))
        (ev_ranked (evaluatedRoute lc request (combination as om))) \<le> 0)"
proof -
  obtain out c where out: "\<And>c'. c' \<in> set out \<longleftrightarrow> covering lc request b (comb_assignments c') (comb_omitted c')"
      and c: "route_decision lc request b catalog = chosen_state lc (evaluatedRoute lc request c)"
      and hd: "hd (js_sort (valid_compare lc) (deduplicateRoutes (judged_with lc request OwnOk out))) =
        evaluatedRoute lc request c"
    using route_decision_chosen [OF assms(2)] by metis
  let ?v = "judged_with lc request OwnOk out"
  let ?s = "js_sort (valid_compare lc) (deduplicateRoutes ?v)"
  have st: "combination (st_assignments st) (st_omitted st) = c"
    unfolding st_def c chosen_state_simps by (simp add: evaluatedRoute_def)
  have "evaluatedRoute lc request (combination as om) \<in> set ?v"
    using out [of "combination as om"] assms(3,4)
    by (simp add: judged_with_def sufficient_def)
  then obtain r where r: "r \<in> set (deduplicateRoutes ?v)"
      "route_key r = route_key (evaluatedRoute lc request (combination as om))"
    using set_deduplicateRoutes(2) [of ?v] by (metis imageE imageI)
  then obtain c' where c': "c' \<in> set out" "sufficient lc request c'" "r = evaluatedRoute lc request c'"
    using set_deduplicateRoutes(1) [of ?v] by (auto simp: judged_with_def sufficient_def)
  have cmp: "comparator (valid_compare lc)"
    unfolding valid_compare_def using assms(1) comparator_compareRouteCandidates
    by (simp add: collation_def comparator_then comparator_by)
  have "?s \<noteq> []" using r(1) by (metis js_sort_eq_Nil list.set(1) empty_iff)
  then obtain rest where "?s = evaluatedRoute lc request c # rest" using hd by (cases ?s) auto
  then have "valid_compare lc (evaluatedRoute lc request c) r \<le> 0"
    using comparator.hd_js_sort_least [OF cmp] r(1) by blast
  then have "compareRouteCandidates (ev_ranked (evaluatedRoute lc request c)) (ev_ranked r) \<le> 0"
    by (auto simp: valid_compare_def cmp_then_def cmp_by_def Let_def split: if_splits)
  moreover have "c' = combination (comb_assignments c') (comb_omitted c')" by simp
  ultimately have best: "\<exists>as' om'. covering lc request b as' om' \<and> sufficient lc request (combination as' om') \<and>
      route_key (evaluatedRoute lc request (combination as' om')) =
        route_key (evaluatedRoute lc request (combination as om)) \<and>
      compareRouteCandidates
        (ev_ranked (evaluatedRoute lc request (combination (st_assignments st) (st_omitted st))))
        (ev_ranked (evaluatedRoute lc request (combination as' om'))) \<le> 0"
    using out [of c'] c' r(2) st by metis
  then show ?thesis by metis
qed

theorem route_decision_optimal_witness:
  "\<exists>as om. covering code_unit_compare layout_request layout_build as om \<and>
     compareRouteCandidates
       (ev_ranked (evaluatedRoute code_unit_compare layout_request
         (combination
           (st_assignments (route_decision code_unit_compare layout_request layout_build fixture_reader))
           (st_omitted (route_decision code_unit_compare layout_request layout_build fixture_reader)))))
       (ev_ranked (evaluatedRoute code_unit_compare layout_request (combination as om))) \<le> 0"
proof -
  have "st_status (route_decision code_unit_compare layout_request layout_build fixture_reader) \<in>
      {NoSdk, Native, Selected}" by (simp add: layout_status)
  from route_decision_optimal [OF code_units.collation_axioms this layout_covering layout_sufficient]
  show ?thesis by blast
qed

text \<open>
  A request is blocked exactly when no combination covers it within the provider limit with
  ownership that is resolved or can be resolved by the user.
\<close>

theorem route_decision_blocked_iff:
  "st_status (route_decision lc request b catalog) = Blocked \<longleftrightarrow>
     \<not> (\<exists>as om. covering lc request b as om \<and> within_limit request (combination as om) \<and>
          combination_status lc request (combination as om) \<noteq> OwnBlocked)"
proof (cases rule: route_decision_cases [of lc request b catalog])
  case (early state)
  then show ?thesis by simp
next
  case (judged out)
  let ?j = "judge lc request out"
  have exists: "(\<exists>as om. covering lc request b as om \<and> P (combination as om)) \<longleftrightarrow>
      (\<exists>c \<in> set out. P c)" for P
    using judged(1) by (metis combination_simps)
  note exists' = exists [of "\<lambda>c. within_limit request c \<and>
      combination_status lc request c \<noteq> OwnBlocked"]
  show ?thesis
  proof (cases "jr_valid ?j = []")
    case True
    have not_blocked: "s \<noteq> OwnBlocked \<longleftrightarrow> s = OwnOk \<or> s = OwnNeedsInput" for s
      by (cases s) simp_all
    have "st_status (route_decision lc request b catalog) = Blocked \<longleftrightarrow> jr_ambiguous ?j = []"
      unfolding judged(2) decide_routes_status_not_chosen [OF True] by simp
    also have "\<dots> \<longleftrightarrow> \<not> (\<exists>c \<in> set out. within_limit request c \<and>
        combination_status lc request c \<noteq> OwnBlocked)"
      using True unfolding judge_simps judged_with_Nil not_blocked by blast
    finally show ?thesis unfolding exists' .
  next
    case False
    then obtain best where "decide_routes lc request ?j = chosen_state lc best \<or>
        (\<exists>second. decide_routes lc request ?j = tie_state best second)"
      by (rule decide_routes_valid [of ?j lc request])
    then have "st_status (route_decision lc request b catalog) \<noteq> Blocked"
      using chosen_state_status [of lc best] by (auto simp: judged(2))
    moreover have "\<exists>c \<in> set out. within_limit request c \<and> combination_status lc request c \<noteq> OwnBlocked"
      using False unfolding judge_simps judged_with_Nil by auto
    ultimately show ?thesis unfolding exists' by blast
  qed
qed

end
