(* ===== verification/Route_Plan.thy ===== *)
theory Route_Plan
  imports Route_Correctness
begin

text \<open>
  The route plan as a whole: what a successful run of \<open>routeCapabilities\<close> promises about the
  providers it names, which inputs it rejects, and what the plan id and digest identify.
\<close>

section \<open>The normalised request\<close>

definition capability_map :: "(string \<times> requested_capability) list \<Rightarrow> bool" where
  "capability_map m \<longleftrightarrow> distinct (map fst m) \<and> (\<forall>kv \<in> set m. rc_id (snd kv) = fst kv)"

lemma normalize_capability_simps [simp]:
  "rc_id (normalize_capability lc c) = rc_id c"
  "rc_required (normalize_capability lc c) = rc_required c"
  by (simp_all add: normalize_capability_def)

lemma distinct_opt_entry: "distinct (map fst ([(''id'', a), (''required'', b)] @ opt_entry ''quality'' q))"
  by (simp add: opt_entry_def split: option.split)

text \<open>Two capabilities with one canonical text agree on whether they are required.\<close>

lemma capability_json_required:
  assumes "canonicalJson (capability_json c) = Inr s" and "canonicalJson (capability_json d) = Inr s"
  shows "rc_required c = rc_required d"
proof -
  have "normalize_json (capability_json c) = normalize_json (capability_json d)"
    using assms by (rule canonicalJson_inject)
  then have "map_option normalize_json (map_of ([(''id'', JStr (rc_id c)), (''required'', JBool (rc_required c))] @
        opt_entry ''quality'' (map_option quality_json (rc_quality c))) ''required'') =
      map_option normalize_json (map_of ([(''id'', JStr (rc_id d)), (''required'', JBool (rc_required d))] @
        opt_entry ''quality'' (map_option quality_json (rc_quality d))) ''required'')"
    unfolding capability_json_def
    using normalize_obj_eq_iff [OF distinct_opt_entry distinct_opt_entry] by blast
  then show ?thesis by simp
qed

lemma capability_map_update:
  "capability_map m \<Longrightarrow> rc_id c = k \<Longrightarrow> capability_map (AList.update k c m)"
  by (auto simp: capability_map_def distinct_update dest!: set_update_subset)

lemma map_of_in_set: "map_of m k = Some v \<Longrightarrow> (k, v) \<in> set m"
  by (rule map_of_SomeD)

lemma map_of_update_ids:
  "map_of (AList.update k v m) = (map_of m)(k \<mapsto> v)"
  by (rule map_of_update)

text \<open>One turn of the loop keeps what is there and adds an entry for the capability.\<close>

lemma add_capability_step:
  assumes "add_capability lc c m = Inr m'" and "capability_map m"
  shows "capability_map m'"
    and "\<And>k v. map_of m k = Some v \<Longrightarrow> map_of m' k = Some v"
    and "\<exists>v. map_of m' (rc_id c) = Some v \<and> rc_required v = rc_required c"
    and "fst ` set m' = insert (rc_id c) (fst ` set m)"
proof -
  consider (dup) existing where "map_of m (rc_id c) = Some existing" "m' = m"
      "canonicalJson (capability_json existing) = canonicalJson (capability_json (normalize_capability lc c))"
      "\<exists>s. canonicalJson (capability_json existing) = Inr s"
    | (new) "map_of m (rc_id c) = None" "m' = AList.update (rc_id c) (normalize_capability lc c) m"
    using assms(1)
    by (cases "map_of m (rc_id c)") (auto simp: add_capability_def Let_def chain_eq_Inr)
  then have "capability_map m' \<and> (\<forall>k v. map_of m k = Some v \<longrightarrow> map_of m' k = Some v) \<and>
      (\<exists>v. map_of m' (rc_id c) = Some v \<and> rc_required v = rc_required c) \<and>
      fst ` set m' = insert (rc_id c) (fst ` set m)"
  proof cases
    case dup
    then have "rc_required existing = rc_required c"
      using capability_json_required [of existing _ "normalize_capability lc c"] by auto
    then show ?thesis using dup(1,2) assms(2) map_of_in_set [OF dup(1)] by force
  next
    case new
    then show ?thesis using assms(2)
      by (auto simp: capability_map_update map_of_update fst_update)
  qed
  then show "capability_map m'" and "\<And>k v. map_of m k = Some v \<Longrightarrow> map_of m' k = Some v"
    and "\<exists>v. map_of m' (rc_id c) = Some v \<and> rc_required v = rc_required c"
    and "fst ` set m' = insert (rc_id c) (fst ` set m)" by blast+
qed

lemma add_capability_loop:
  "for_each (add_capability lc) cs m = Inr m' \<Longrightarrow> capability_map m \<Longrightarrow>
   capability_map m' \<and> (\<forall>k v. map_of m k = Some v \<longrightarrow> map_of m' k = Some v) \<and>
   (\<forall>c \<in> set cs. \<exists>v. map_of m' (rc_id c) = Some v \<and> rc_required v = rc_required c) \<and>
   fst ` set m' = rc_id ` set cs \<union> fst ` set m"
proof (induction cs arbitrary: m)
  case (Cons c cs)
  then obtain u where u: "add_capability lc c m = Inr u" "for_each (add_capability lc) cs u = Inr m'"
    by (auto simp: chain_eq_Inr)
  note step = add_capability_step [OF u(1) Cons.prems(2)]
  have rest: "capability_map m'" "\<And>k v. map_of u k = Some v \<Longrightarrow> map_of m' k = Some v"
    "\<And>d. d \<in> set cs \<Longrightarrow> \<exists>v. map_of m' (rc_id d) = Some v \<and> rc_required v = rc_required d"
    "fst ` set m' = rc_id ` set cs \<union> fst ` set u"
    using Cons.IH [OF u(2) step(1)] by blast+
  have "\<exists>v. map_of m' (rc_id d) = Some v \<and> rc_required v = rc_required d"
    if "d \<in> set (c # cs)" for d
    using that step(3) rest(2,3) by (cases "d = c") auto
  then show ?case using step(2,4) rest(1,2,4) by simp
qed simp

lemma uniqueInOrder_js_set: "uniqueInOrder xs = js_set xs"
  by (simp add: uniqueInOrder_def js_set_def)

lemma normalizeRequest_Inr:
  assumes "normalizeRequest lc raw = Inr request"
  shows "distinct (map rc_id (req_capabilities request))"
    and "rc_id ` set (req_capabilities request) = rc_id ` set (req_capabilities raw)"
    and "\<And>c. c \<in> set (req_capabilities raw) \<Longrightarrow>
      \<exists>c' \<in> set (req_capabilities request). rc_id c' = rc_id c \<and> rc_required c' = rc_required c"
    and "set (pref_forbiddenProviders (req_preferences request)) =
      set (pref_forbiddenProviders (req_preferences raw))"
    and "pref_maxProviders (req_preferences request) = pref_maxProviders (req_preferences raw)"
    and "pref_allowPaidServices (req_preferences request) =
      pref_allowPaidServices (req_preferences raw)"
    and "req_projectSnapshotId request = req_projectSnapshotId raw"
    and "req_requestId request = req_requestId raw"
proof -
  obtain m where m: "for_each (add_capability lc) (req_capabilities raw) [] = Inr m"
    and request: "request = raw\<lparr>
          req_capabilities := js_sort (cmp_by lc capability_key) (map snd m),
          req_preferences := (req_preferences raw)\<lparr>
            pref_preferredProviders :=
              uniqueInOrder (pref_preferredProviders (req_preferences raw)),
            pref_forbiddenProviders :=
              stableUnique (pref_forbiddenProviders (req_preferences raw))\<rparr>\<rparr>"
    using assms by (auto simp: normalizeRequest_def chain_eq_Inr)
  have "capability_map []" by (simp add: capability_map_def)
  then have loop: "capability_map m"
    "\<And>c. c \<in> set (req_capabilities raw) \<Longrightarrow>
       \<exists>v. map_of m (rc_id c) = Some v \<and> rc_required v = rc_required c"
    "fst ` set m = rc_id ` set (req_capabilities raw)"
    using add_capability_loop [OF m] by auto
  have ids: "map rc_id (map snd m) = map fst m"
    using loop(1) by (simp add: capability_map_def)
  have "distinct (map rc_id (map snd m))"
    unfolding ids using loop(1) by (simp add: capability_map_def)
  then show "distinct (map rc_id (req_capabilities request))"
    by (simp add: request del: map_map)
  have "rc_id ` set (map snd m) = fst ` set m" using arg_cong [OF ids, of set] unfolding set_map .
  then show "rc_id ` set (req_capabilities request) = rc_id ` set (req_capabilities raw)"
    using loop(3) by (simp add: request)
  show "\<exists>c' \<in> set (req_capabilities request). rc_id c' = rc_id c \<and> rc_required c' = rc_required c"
    if raw: "c \<in> set (req_capabilities raw)" for c
  proof -
    obtain v where v: "map_of m (rc_id c) = Some v" "rc_required v = rc_required c"
      using loop(2) [OF raw] by blast
    then have "(rc_id c, v) \<in> set m" by (simp add: map_of_in_set)
    then have "v \<in> set (req_capabilities request)" "rc_id v = rc_id c"
      using loop(1) by (force simp: request capability_map_def)+
    then show ?thesis using v(2) by blast
  qed
qed (use assms in \<open>auto simp: normalizeRequest_def chain_eq_Inr\<close>)

section \<open>A successful run\<close>

lemma finite_capability_json [simp]: "finite_json (capability_json c)"
proof -
  have "finite_json (quality_value_json v)" for v by (cases v) simp_all
  then show ?thesis
    by (auto simp: capability_json_def finite_opt_entry quality_json_def)
qed

lemma finite_decisionPayload [simp]: "finite_json (decisionPayload caps prefs plan)"
  by (simp add: decisionPayload_def preferences_json_def selected_provider_json_def
      rejected_provider_json_def ownership_json_def constraint_json_def)

definition plan_identity :: "(string \<Rightarrow> string) \<Rightarrow> route_request \<Rightarrow> route_plan \<Rightarrow> digest" where
  "plan_identity sha request content =
     json_digest sha (decisionPayload (req_capabilities request) (req_preferences request) content)"

lemma buildPlan_Inr_iff:
  "buildPlan lc sha valid createdAt request pid policy b st = Inr plan \<longleftrightarrow>
     (let content = plan_content lc createdAt request pid policy b st;
          d = plan_identity sha request content in
      plan = content\<lparr>plan_planId := ''route_'' @ digest_slice 24 d, plan_digest := d\<rparr> \<and>
      valid plan = None)"
  by (auto simp: buildPlan_def plan_identity_def digestJson_finite Let_def validateContract_def
      split: option.splits)

definition candidate_input_of :: "route_request \<Rightarrow> route_input \<Rightarrow> active_policy \<Rightarrow> candidate_input" where
  "candidate_input_of request input policy = \<lparr>in_request = request, in_project = ri_project input,
     in_catalog = ri_catalog input, in_policy = policy\<rparr>"

definition created_at :: "string \<Rightarrow> route_input \<Rightarrow> string" where
  "created_at now input = (case ri_createdAt input of Some t \<Rightarrow> t | None \<Rightarrow> now)"

lemma validateInput_Inr [simp]: "validateInput name valid x = Inr y \<longleftrightarrow> valid x = None \<and> y = x"
  by (auto simp: validateInput_def validateContract_def split: option.splits)

text \<open>The steps of a successful run, in their order.\<close>

definition routed :: "(string \<Rightarrow> string \<Rightarrow> int) \<Rightarrow> (string \<Rightarrow> string) \<Rightarrow> router_schemas \<Rightarrow> route_input \<Rightarrow>
    route_request \<Rightarrow> active_policy \<Rightarrow> candidate_build \<Rightarrow> bool" where
  "routed lc sha schemas input request policy b \<longleftrightarrow>
     schema_request schemas (ri_request input) = None \<and>
     normalizeRequest lc (ri_request input) = Inr request \<and>
     schema_project schemas (ri_project input) = None \<and>
     req_projectSnapshotId request = project_snapshotId (ri_project input) \<and>
     getPhase4Policy sha (schema_policy schemas) (ri_policy input) = Inr policy \<and>
     buildProviderCandidates lc (candidate_input_of request input policy) = Inr b"

lemma routeCapabilities_Inr_iff:
  "routeCapabilities lc sha schemas now input = Inr plan \<longleftrightarrow>
     (\<exists>request policy b. routed lc sha schemas input request policy b \<and>
        buildPlan lc sha (schema_plan schemas) (created_at now input) request
          (project_snapshotId (ri_project input)) policy b
          (route_decision lc request b (ri_catalog input)) = Inr plan)"
  by (auto simp: routeCapabilities_def chain_eq_Inr routed_def candidate_input_of_def created_at_def)

lemma routeCapabilities_obtain:
  assumes "routeCapabilities lc sha schemas now input = Inr plan"
  obtains request policy b st where "routed lc sha schemas input request policy b"
    and "st = route_decision lc request b (ri_catalog input)"
    and "plan_status plan = st_status st"
    and "plan_selectedProviders plan = (if st_status st = Selected
      then buildSelectedProviders (st_assignments st) (build_candidates b) else [])"
    and "plan_rejectedProviders plan = mergeRejectedProviders lc
      (buildRejectedProviders lc
        (if st_status st \<in> {Native, Selected} then st_assignments st else [])
        (build_candidates b) (build_rejections b) (map rc_id (req_capabilities request)))
      (st_rejectedOverrides st)"
    and "set (plan_constraints plan) =
      set (st_constraints st) \<union> omitted_constraint ` set (st_omitted st)"
  using assms that
  by (auto simp: routeCapabilities_Inr_iff buildPlan_Inr_iff plan_content_def Let_def)

lemma eligible_raw_request:
  assumes "normalizeRequest lc (ri_request input) = Inr request"
  shows "eligible (candidate_input_of request input policy) p m \<longleftrightarrow>
    eligible (candidate_input_of (ri_request input) input policy) p m"
  using normalizeRequest_Inr(4,6) [OF assms]
  by (simp add: eligible_def usable_runtime_def candidate_input_of_def)

section \<open>The rejected providers of a plan\<close>

lemma merge_loop_ids:
  "rp_providerId ` set (map snd (foldl (\<lambda>m item. AList.update (rp_providerId item) item m) m items)) =
     rp_providerId ` set (map snd m) \<union> rp_providerId ` set items"
  if "keyed m" for m items
  using that
proof (induction items arbitrary: m)
  case (Cons i items)
  have k: "keyed (AList.update (rp_providerId i) i m)"
    using Cons.prems by (rule keyed_update) simp
  have ids: "rp_providerId ` set (map snd n) = fst ` set n" if "keyed n" for n
    using arg_cong [OF keyed_ids [OF that], of set] by (simp add: image_image)
  show ?case
    using Cons.IH [OF k] ids [OF k] ids [OF Cons.prems] by (simp add: fst_update)
qed simp

lemma merge_loop_keyed:
  "keyed m \<Longrightarrow> keyed (foldl (\<lambda>m item. AList.update (rp_providerId item) item m) m items)"
  by (induction items arbitrary: m) (simp_all add: keyed_update)

lemma mergeRejectedProviders_ids:
  "rp_providerId ` set (mergeRejectedProviders lc base overrides) =
     rp_providerId ` set base \<union> rp_providerId ` set overrides"
proof -
  let ?f = "foldl (\<lambda>m item. AList.update (rp_providerId item) item m)"
  have e: "keyed []" by (simp add: keyed_def)
  have "rp_providerId ` set (map snd (?f (?f [] base) overrides)) =
      rp_providerId ` set base \<union> rp_providerId ` set overrides"
    using merge_loop_ids [OF merge_loop_keyed [OF e]] merge_loop_ids [OF e] by simp
  then show ?thesis by (simp only: mergeRejectedProviders_def Let_def set_js_sort)
qed

section \<open>The assignments behind a selection\<close>

lemma chosen_assignment:
  assumes "routed lc sha schemas input request policy b"
    and "covering lc request b as om" and "a \<in> set as"
  shows "(\<exists>m. eligible (candidate_input_of (ri_request input) input policy) (asg_providerId a) m) \<and>
    asg_providerId a \<in> set (map cand_providerId (build_candidates b)) \<and>
    (asg_native a \<longleftrightarrow> asg_providerId a = ''web-platform'')"
proof -
  have build: "buildProviderCandidates lc (candidate_input_of request input policy) = Inr b"
    and norm: "normalizeRequest lc (ri_request input) = Inr request"
    using assms(1) by (simp_all add: routed_def)
  obtain c where "a \<in> options_for lc request b c"
    using covers_sound assms(2,3) unfolding covering_def by blast
  then obtain cand where cand: "cand \<in> set (build_candidates b)"
      "asg_providerId a = cand_providerId cand" "asg_native a = cand_native cand"
    using options_for_sound(2) by blast
  then obtain p m where "eligible (candidate_input_of request input policy) p m"
      "cand = make_candidate lc (candidate_input_of request input policy) p m"
    unfolding build_sets(1) [OF build] by blast
  then show ?thesis
    using cand eligible_raw_request [OF norm] by (auto intro!: image_eqI)
qed

lemma selected_of_sufficient:
  assumes "sufficient lc request (combination as om)"
  shows "length (buildSelectedProviders as cands) \<le> pref_maxProviders (req_preferences request)"
proof -
  have "length (buildSelectedProviders as cands) = length (selected_ids as)"
    using map_sp_providerId [of as cands] by (metis length_map)
  also have "\<dots> = card (set (selected_provider_ids (combination as om)))"
    by (simp add: selected_ids_def length_js_set selected_provider_ids_def)
  finally show ?thesis using assms by (simp add: sufficient_def within_limit_def)
qed

lemma set_selected_ids:
  "p \<in> sp_providerId ` set (buildSelectedProviders as cands) \<longleftrightarrow>
     (\<exists>a \<in> set as. \<not> asg_native a \<and> asg_providerId a = p)"
proof -
  have "sp_providerId ` set (buildSelectedProviders as cands) = set (selected_ids as)"
    using arg_cong [OF map_sp_providerId [of as cands], of set] by simp
  then show ?thesis by (auto simp: selected_ids_def)
qed

lemma chosen_status_facts:
  assumes "st = route_decision lc request b catalog"
    and "st_status st \<in> {NoSdk, Native, Selected}"
  shows "covering lc request b (st_assignments st) (st_omitted st)"
    and "sufficient lc request (combination (st_assignments st) (st_omitted st))"
    and "st_rejectedOverrides st = []"
    and "st_status st = (if st_assignments st = [] then NoSdk
      else if \<forall>a \<in> set (st_assignments st). asg_native a then Native else Selected)"
    and "\<And>a. a \<in> set (st_assignments st) \<Longrightarrow>
      \<lparr>con_code = (if asg_native a then ''NATIVE_CAPABILITY_MATCH'' else ''CAPABILITY_MATCH''),
       con_status = CPassed,
       con_message = asg_providerId a @ '' covers '' @ asg_capabilityId a @ ''.''\<rparr>
        \<in> set (st_constraints st)"
proof -
  obtain out c where out: "\<And>c'. c' \<in> set out \<longleftrightarrow> covering lc request b (comb_assignments c') (comb_omitted c')"
      and c: "c \<in> set out" "sufficient lc request c"
        "st = chosen_state lc (evaluatedRoute lc request c)"
    using route_decision_chosen [OF assms(2) [unfolded assms(1)]] assms(1) by metis
  have st: "st_assignments st = comb_assignments c" "st_omitted st = comb_omitted c"
    unfolding c(3) chosen_state_simps by (simp_all add: evaluatedRoute_def)
  show "covering lc request b (st_assignments st) (st_omitted st)" using out c(1) st by simp
  show "sufficient lc request (combination (st_assignments st) (st_omitted st))"
    using c(2) st by simp
  show "st_rejectedOverrides st = []" by (simp add: c(3) chosen_state_simps)
  show "st_status st = (if st_assignments st = [] then NoSdk
      else if \<forall>a \<in> set (st_assignments st). asg_native a then Native else Selected)"
    unfolding st
    by (auto simp: c(3) chosen_state_def evaluatedRoute_def selected_provider_ids_def Let_def
        filter_empty_conv)
  show "\<lparr>con_code = (if asg_native a then ''NATIVE_CAPABILITY_MATCH'' else ''CAPABILITY_MATCH''),
       con_status = CPassed,
       con_message = asg_providerId a @ '' covers '' @ asg_capabilityId a @ ''.''\<rparr>
        \<in> set (st_constraints st)" if "a \<in> set (st_assignments st)" for a
    using that unfolding st c(3)
    by (simp add: chosen_state_def evaluatedRoute_def assignmentConstraints_def Let_def)
qed

section \<open>A concrete run\<close>

definition accept_schemas :: router_schemas where
  "accept_schemas = \<lparr>schema_request = accept_all, schema_project = accept_all,
     schema_policy = accept_all, schema_plan = accept_all\<rparr>"

definition timeline_input :: "(string \<times> string) list \<Rightarrow> route_input" where
  "timeline_input deps = \<lparr>ri_request = fixture_request [needs ''motion.timeline''] 2,
     ri_project = fixture_project deps, ri_catalog = fixture_reader, ri_policy = None,
     ri_createdAt = Some ''2026-01-01T00:00:00.000Z''\<rparr>"

definition timeline_policy :: active_policy where
  "timeline_policy = \<lparr>active_document = normalizedPolicy PHASE4_POLICY,
     active_snapshotId = policy_digest (\<lambda>s. s) (normalizedPolicy PHASE4_POLICY)\<rparr>"

definition timeline_request :: route_request where
  "timeline_request = fixture_request [needs ''motion.timeline''] 2"

lemma timeline_policy_ok:
  "getPhase4Policy (\<lambda>s. s) accept_all None = Inr timeline_policy"
  by (simp add: getPhase4Policy_Inr_iff effective_source_def timeline_policy_def Let_def)

lemma timeline_normalized: "normalizeRequest lc timeline_request = Inr timeline_request"
  by (simp add: normalizeRequest_def timeline_request_def fixture_request_def needs_def
      add_capability_def normalize_capability_def normalizeQuality_def uniqueInOrder_def
      stableUnique_def)

lemma timeline_eligible:
  "eligible (candidate_input_of timeline_request (timeline_input deps) timeline_policy) ''gsap'' gsap_manifest"
  "eligible (candidate_input_of timeline_request (timeline_input deps) timeline_policy) ''motion'' motion_manifest"
  "eligible (candidate_input_of timeline_request (timeline_input deps) timeline_policy) ''web-platform'' web_manifest"
  by (simp_all add: eligible_def usable_runtime_def runtimeIntegrations_def candidate_input_of_def
      timeline_request_def timeline_input_def timeline_policy_def fixture_defs PHASE4_POLICY_def
      normalizedPolicy_def approved_review_def Let_def)

definition timeline_candidates :: "(string \<times> string) list \<Rightarrow> provider_candidate list" where
  "timeline_candidates deps =
     (let i = candidate_input_of timeline_request (timeline_input deps) timeline_policy in
      [make_candidate code_unit_compare i ''gsap'' gsap_manifest,
       make_candidate code_unit_compare i ''motion'' motion_manifest,
       make_candidate code_unit_compare i ''web-platform'' web_manifest])"

definition timeline_build :: "(string \<times> string) list \<Rightarrow> candidate_build" where
  "timeline_build deps = \<lparr>build_candidates = timeline_candidates deps, build_rejections = [],
     build_capabilityCatalog = reader_capabilityCatalog fixture_reader,
     build_catalogSnapshot = fixture_snapshot\<rparr>"

lemma timeline_build_ok:
  "buildProviderCandidates code_unit_compare
     (candidate_input_of timeline_request (timeline_input deps) timeline_policy) =
   Inr (timeline_build deps)"
proof -
  let ?i = "candidate_input_of timeline_request (timeline_input deps) timeline_policy"
  have ev: "evaluate_provider code_unit_compare ?i ''gsap'' =
      Inr (make_candidate code_unit_compare ?i ''gsap'' gsap_manifest)"
    "evaluate_provider code_unit_compare ?i ''motion'' =
      Inr (make_candidate code_unit_compare ?i ''motion'' motion_manifest)"
    "evaluate_provider code_unit_compare ?i ''web-platform'' =
      Inr (make_candidate code_unit_compare ?i ''web-platform'' web_manifest)"
    using timeline_eligible evaluate_provider_Inr_iff by blast+
  have "evaluated code_unit_compare ?i = (timeline_candidates deps, [])"
    by (simp add: evaluated_def PROVIDERS_def candidate_step_def ev timeline_candidates_def
        Let_def)
  moreover have "js_sort (cmp_by code_unit_compare cand_providerId) (timeline_candidates deps) =
      timeline_candidates deps"
    by (simp add: timeline_candidates_def cmp_by_def code_unit_compare_def order_compare_def
        Let_def)
  moreover have "reader_snapshot (in_catalog ?i) t = Inr fixture_snapshot"
    "reader_capabilityCatalog (in_catalog ?i) = reader_capabilityCatalog fixture_reader" for t
    by (simp_all add: candidate_input_of_def timeline_input_def fixture_reader_def)
  ultimately show ?thesis
    by (simp add: buildProviderCandidates_Inr_iff timeline_build_def stableRejections_def)
qed

lemma timeline_routed:
  "routed code_unit_compare (\<lambda>s. s) accept_schemas (timeline_input deps) timeline_request
     timeline_policy (timeline_build deps)"
  unfolding routed_def
proof (intro conjI)
  show "buildProviderCandidates code_unit_compare
      (candidate_input_of timeline_request (timeline_input deps) timeline_policy) =
    Inr (timeline_build deps)" by (rule timeline_build_ok)
  show "normalizeRequest code_unit_compare (ri_request (timeline_input deps)) = Inr timeline_request"
    using timeline_normalized by (simp add: timeline_input_def timeline_request_def)
qed (simp_all add: accept_schemas_def timeline_input_def timeline_request_def timeline_policy_ok
      fixture_request_def fixture_project_def)

lemma buildPlan_accepted:
  obtains plan where "buildPlan lc sha accept_all t request pid policy b st = Inr plan"
    and "plan_status plan = st_status st"
  using that by (simp add: buildPlan_Inr_iff plan_content_def Let_def)

lemma timeline_run:
  obtains plan where
    "routeCapabilities code_unit_compare (\<lambda>s. s) accept_schemas now (timeline_input deps) = Inr plan"
    and "plan_status plan = st_status (route_decision code_unit_compare timeline_request
      (timeline_build deps) fixture_reader)"
proof -
  have cat: "ri_catalog (timeline_input deps) = fixture_reader" by (simp add: timeline_input_def)
  obtain plan where plan: "buildPlan code_unit_compare (\<lambda>s. s) accept_all
      (created_at now (timeline_input deps)) timeline_request
      (project_snapshotId (ri_project (timeline_input deps))) timeline_policy (timeline_build deps)
      (route_decision code_unit_compare timeline_request (timeline_build deps) fixture_reader) = Inr plan"
    "plan_status plan = st_status (route_decision code_unit_compare timeline_request
      (timeline_build deps) fixture_reader)"
    by (rule buildPlan_accepted)
  have "routeCapabilities code_unit_compare (\<lambda>s. s) accept_schemas now (timeline_input deps) = Inr plan"
    unfolding routeCapabilities_Inr_iff cat
    using timeline_routed [of deps] plan(1) by (auto simp: accept_schemas_def)
  then show thesis using that plan(2) by blast
qed

lemma timeline_claims:
  "cand_claims (make_candidate code_unit_compare i ''gsap'' gsap_manifest) =
     [\<lparr>cl_capabilityId = ''motion.layout'', cl_support = Primary, cl_confidence = 900000,
       cl_environmentSupported = True, cl_environmentReason = None\<rparr>,
      \<lparr>cl_capabilityId = ''motion.timeline'', cl_support = Primary, cl_confidence = 900000,
       cl_environmentSupported = True, cl_environmentReason = None\<rparr>]"
  by (simp add: make_candidate_def candidate_claims_def fixture_defs cmp_by_def
      code_unit_compare_def order_compare_def Let_def)

lemma timeline_other_claims:
  "filter (\<lambda>cl. cl_capabilityId cl = ''motion.timeline'' \<and> cl_environmentSupported cl)
     (cand_claims (make_candidate code_unit_compare i ''motion'' motion_manifest)) = []"
  "filter (\<lambda>cl. cl_capabilityId cl = ''motion.timeline'' \<and> cl_environmentSupported cl)
     (cand_claims (make_candidate code_unit_compare i ''web-platform'' web_manifest)) = []"
  by (simp_all add: make_candidate_def candidate_claims_def fixture_defs Let_def)

lemma timeline_options:
  "fst (assignmentOptions code_unit_compare (needs ''motion.timeline'') timeline_request
      (timeline_candidates deps)) =
   [claim_assignment (needs ''motion.timeline'') timeline_request
     (make_candidate code_unit_compare
       (candidate_input_of timeline_request (timeline_input deps) timeline_policy) ''gsap'' gsap_manifest)
     \<lparr>cl_capabilityId = ''motion.timeline'', cl_support = Primary, cl_confidence = 900000,
       cl_environmentSupported = True, cl_environmentReason = None\<rparr>]"
proof -
  have "rc_id (needs ''motion.timeline'') = ''motion.timeline''" by (simp add: needs_def)
  then show ?thesis
    by (simp add: fst_assignmentOptions timeline_candidates_def Let_def timeline_claims
        timeline_other_claims)
qed

lemma timeline_selected:
  "st_status (route_decision code_unit_compare timeline_request (timeline_build deps) fixture_reader) =
     Selected"
proof -
  let ?a = "hd (fst (assignmentOptions code_unit_compare (needs ''motion.timeline'') timeline_request
      (timeline_candidates deps)))"
  have a: "\<not> asg_native ?a" by (simp add: timeline_options claim_assignment_def)
  have caps: "req_capabilities timeline_request = [needs ''motion.timeline'']"
    by (simp add: timeline_request_def fixture_request_def)
  have id: "rc_id (needs ''motion.timeline'') = ''motion.timeline''"
    "rc_required (needs ''motion.timeline'')" by (simp_all add: needs_def)
  have "''motion.timeline'' \<in> set (map capability_id
      (catalog_capabilities (build_capabilityCatalog (timeline_build deps))))"
    by (simp add: timeline_build_def fixture_reader_def fixture_capability_def)
  then have "expand_combinations code_unit_compare timeline_request (timeline_build deps)
      fixture_reader (req_capabilities timeline_request)
      [\<lparr>comb_assignments = [], comb_omitted = []\<rparr>] = Inr [combination [?a] []]"
    using timeline_options [of deps]
    by (simp add: caps id timeline_build_def next_combinations_def with_assignment_def
        combination_def Let_def)
  moreover have "sufficient code_unit_compare timeline_request (combination [?a] [])"
    by (simp add: sufficient_def within_limit_def combination_status_def selected_provider_ids_def
        timeline_request_def fixture_request_def resolveOwnership_status contested_def)
  ultimately have "route_decision code_unit_compare timeline_request (timeline_build deps)
      fixture_reader = chosen_state code_unit_compare
        (evaluatedRoute code_unit_compare timeline_request (combination [?a] []))"
    by (rule route_decision_single)
  then show ?thesis
    using a by (simp add: chosen_state_def evaluatedRoute_def selected_provider_ids_def Let_def)
qed

section \<open>What the digest of a decision binds\<close>

lemma selected_provider_json_inject:
  assumes "normalize_json (selected_provider_json a) = normalize_json (selected_provider_json b)"
  shows "a = b"
proof -
  have "map (\<lambda>kv. normalize_json (snd kv))
      [(''providerId'', JStr (sp_providerId a)), (''integrationIds'', strs_json (sp_integrationIds a)),
       (''capabilities'', strs_json (sp_capabilities a)), (''reasonCode'', JStr (sp_reasonCode a)),
       (''reason'', JStr (sp_reason a))] =
    map (\<lambda>kv. normalize_json (snd kv))
      [(''providerId'', JStr (sp_providerId b)), (''integrationIds'', strs_json (sp_integrationIds b)),
       (''capabilities'', strs_json (sp_capabilities b)), (''reasonCode'', JStr (sp_reasonCode b)),
       (''reason'', JStr (sp_reason b))]"
    using assms unfolding selected_provider_json_def
    by (rule normalize_obj_same_keys [rotated 2]) simp_all
  then show ?thesis by (simp add: selected_provider.equality)
qed

lemma rejected_provider_json_inject:
  assumes "normalize_json (rejected_provider_json a) = normalize_json (rejected_provider_json b)"
  shows "a = b"
proof -
  have "map (\<lambda>kv. normalize_json (snd kv))
      [(''providerId'', JStr (rp_providerId a)), (''reasonCode'', JStr (rp_reasonCode a)),
       (''reason'', JStr (rp_reason a))] =
    map (\<lambda>kv. normalize_json (snd kv))
      [(''providerId'', JStr (rp_providerId b)), (''reasonCode'', JStr (rp_reasonCode b)),
       (''reason'', JStr (rp_reason b))]"
    using assms unfolding rejected_provider_json_def
    by (rule normalize_obj_same_keys [rotated 2]) simp_all
  then show ?thesis by (simp add: rejected_provider.equality)
qed

lemma ownership_json_inject:
  assumes "normalize_json (ownership_json a) = normalize_json (ownership_json b)"
  shows "a = b"
proof -
  have "map (\<lambda>kv. normalize_json (snd kv))
      [(''providerId'', JStr (po_providerId a)), (''domain'', JStr (po_domain a)),
       (''scope'', JStr (po_scope a)), (''properties'', strs_json (po_properties a))] =
    map (\<lambda>kv. normalize_json (snd kv))
      [(''providerId'', JStr (po_providerId b)), (''domain'', JStr (po_domain b)),
       (''scope'', JStr (po_scope b)), (''properties'', strs_json (po_properties b))]"
    using assms unfolding ownership_json_def
    by (rule normalize_obj_same_keys [rotated 2]) simp_all
  then show ?thesis by (simp add: plan_ownership.equality)
qed

lemma constraint_json_inject:
  assumes "normalize_json (constraint_json a) = normalize_json (constraint_json b)"
  shows "a = b"
proof -
  have "map (\<lambda>kv. normalize_json (snd kv))
      [(''code'', JStr (con_code a)), (''status'', JStr (constraint_status_name (con_status a))),
       (''message'', JStr (con_message a))] =
    map (\<lambda>kv. normalize_json (snd kv))
      [(''code'', JStr (con_code b)), (''status'', JStr (constraint_status_name (con_status b))),
       (''message'', JStr (con_message b))]"
    using assms unfolding constraint_json_def
    by (rule normalize_obj_same_keys [rotated 2]) simp_all
  then show ?thesis by (simp add: plan_constraint.equality)
qed

text \<open>The part of a plan its digest is taken of.\<close>

definition same_decision :: "route_plan \<Rightarrow> route_plan \<Rightarrow> bool" where
  "same_decision p q \<longleftrightarrow>
     plan_projectSnapshotId p = plan_projectSnapshotId q \<and>
     plan_catalogSnapshotId p = plan_catalogSnapshotId q \<and>
     plan_policySnapshotId p = plan_policySnapshotId q \<and> plan_status p = plan_status q \<and>
     plan_selectedProviders p = plan_selectedProviders q \<and>
     plan_rejectedProviders p = plan_rejectedProviders q \<and> plan_ownership p = plan_ownership q \<and>
     plan_constraints p = plan_constraints q \<and> plan_uncertainty p = plan_uncertainty q \<and>
     plan_requiredInput p = plan_requiredInput q"

lemma decisionPayload_same_decision:
  assumes "normalize_json (decisionPayload cs prefs p) = normalize_json (decisionPayload cs' prefs' q)"
  shows "same_decision p q"
proof -
  let ?kvs = "\<lambda>caps prefs plan. [(''requestedCapabilities'', JArr (map capability_json caps)),
      (''preferences'', preferences_json prefs),
      (''projectSnapshotId'', JStr (plan_projectSnapshotId plan)),
      (''catalogSnapshotId'', JStr (plan_catalogSnapshotId plan)),
      (''policySnapshotId'', JStr (plan_policySnapshotId plan)),
      (''status'', JStr (route_status_name (plan_status plan))),
      (''selectedProviders'', JArr (map selected_provider_json (plan_selectedProviders plan))),
      (''rejectedProviders'', JArr (map rejected_provider_json (plan_rejectedProviders plan))),
      (''ownership'', JArr (map ownership_json (plan_ownership plan))),
      (''constraints'', JArr (map constraint_json (plan_constraints plan))),
      (''uncertainty'', JInt (int (plan_uncertainty plan))),
      (''requiredInput'', strs_json (plan_requiredInput plan))]"
  have "map (\<lambda>kv. normalize_json (snd kv)) (?kvs cs prefs p) =
      map (\<lambda>kv. normalize_json (snd kv)) (?kvs cs' prefs' q)"
    using assms unfolding decisionPayload_def
    by (rule normalize_obj_same_keys [rotated 2]) simp_all
  then show ?thesis
    unfolding same_decision_def list.map snd_conv list.inject
    using normalize_JArr_map [OF selected_provider_json_inject]
      normalize_JArr_map [OF rejected_provider_json_inject]
      normalize_JArr_map [OF ownership_json_inject] normalize_JArr_map [OF constraint_json_inject]
    by (simp del: normalize_json.simps(1) add: normalize_json.simps(2-))
qed

section \<open>Properties\<close>

text \<open>
  C1: A plan names each selected provider once, at most as many as the request allows, and every
  one of them is eligible under the effective policy: not forbidden or denied, a healthy approved
  connector whose runtime artifacts are licensed, unpaid unless allowed and without project
  write, network or command risk. No selected provider is also listed as rejected.
\<close>

theorem routeCapabilities_selection_sound:
  assumes "routeCapabilities lc sha schemas now input = Inr plan"
  shows "\<exists>policy. getPhase4Policy sha (schema_policy schemas) (ri_policy input) = Inr policy \<and>
    distinct (map sp_providerId (plan_selectedProviders plan)) \<and>
    length (plan_selectedProviders plan) \<le>
      pref_maxProviders (req_preferences (ri_request input)) \<and>
    (\<forall>s \<in> set (plan_selectedProviders plan).
       (\<exists>m. eligible (candidate_input_of (ri_request input) input policy) (sp_providerId s) m) \<and>
       sp_providerId s \<notin> rp_providerId ` set (plan_rejectedProviders plan))"
proof -
  obtain request policy b st where run: "routed lc sha schemas input request policy b"
    and st: "st = route_decision lc request b (ri_catalog input)"
    and sel: "plan_selectedProviders plan = (if st_status st = Selected
      then buildSelectedProviders (st_assignments st) (build_candidates b) else [])"
    and rej: "plan_rejectedProviders plan = mergeRejectedProviders lc
      (buildRejectedProviders lc
        (if st_status st \<in> {Native, Selected} then st_assignments st else [])
        (build_candidates b) (build_rejections b) (map rc_id (req_capabilities request)))
      (st_rejectedOverrides st)"
    using routeCapabilities_obtain [OF assms] by metis
  have build: "buildProviderCandidates lc (candidate_input_of request input policy) = Inr b"
    and norm: "normalizeRequest lc (ri_request input) = Inr request"
    and pol: "getPhase4Policy sha (schema_policy schemas) (ri_policy input) = Inr policy"
    using run by (simp_all add: routed_def)
  show ?thesis
  proof (cases "st_status st = Selected")
    case False
    then show ?thesis using pol sel by auto
  next
    case True
    then have chosen: "st_status st \<in> {NoSdk, Native, Selected}" by simp
    note facts = chosen_status_facts [OF st chosen]
    have "length (plan_selectedProviders plan) \<le> pref_maxProviders (req_preferences request)"
      using selected_of_sufficient [OF facts(2)] True sel by simp
    moreover have "distinct (map sp_providerId (plan_selectedProviders plan))"
      using True by (simp add: sel map_sp_providerId selected_ids_stable)
    moreover have "(\<exists>m. eligible (candidate_input_of (ri_request input) input policy) p m) \<and>
        p \<notin> rp_providerId ` set (plan_rejectedProviders plan)"
      if "p \<in> sp_providerId ` set (plan_selectedProviders plan)" for p
    proof -
      obtain a where a: "a \<in> set (st_assignments st)" "asg_providerId a = p"
        using \<open>p \<in> _\<close> True sel set_selected_ids by auto
      have "rp_providerId ` set (plan_rejectedProviders plan) =
          rej_providerId ` set (build_rejections b) \<union>
          (cand_providerId ` set (build_candidates b) - asg_providerId ` set (st_assignments st))"
        using True by (simp add: rej mergeRejectedProviders_ids rejected_ids facts(3))
      then show ?thesis
        using chosen_assignment [OF run facts(1) a(1)] a build_candidate_ids(3) [OF build]
        by (auto simp: image_iff)
    qed
    ultimately show ?thesis
      using pol normalizeRequest_Inr(5) [OF norm] by auto
  qed
qed

theorem routeCapabilities_selection_sound_witness:
  "\<exists>plan policy. routeCapabilities code_unit_compare (\<lambda>s. s) accept_schemas ''now''
       (timeline_input [(''react'', ''^19.0.0'')]) = Inr plan \<and>
     (\<forall>s \<in> set (plan_selectedProviders plan). \<exists>m. eligible
        (candidate_input_of (ri_request (timeline_input [(''react'', ''^19.0.0'')]))
          (timeline_input [(''react'', ''^19.0.0'')]) policy) (sp_providerId s) m)"
proof -
  obtain plan where "routeCapabilities code_unit_compare (\<lambda>s. s) accept_schemas ''now''
      (timeline_input [(''react'', ''^19.0.0'')]) = Inr plan"
    by (rule timeline_run)
  from routeCapabilities_selection_sound [OF this] this show ?thesis by blast
qed

text \<open>
  C2: A plan that is selected, native or no-SDK covers every required capability of the request:
  it is among the capabilities of a selected provider, or the plan carries the passed constraint
  that the web platform covers it.
\<close>

theorem routeCapabilities_covers_required:
  assumes "routeCapabilities lc sha schemas now input = Inr plan"
    and "plan_status plan \<in> {NoSdk, Native, Selected}"
    and "c \<in> set (req_capabilities (ri_request input))" and "rc_required c"
  shows "(\<exists>s \<in> set (plan_selectedProviders plan). rc_id c \<in> set (sp_capabilities s)) \<or>
    \<lparr>con_code = ''NATIVE_CAPABILITY_MATCH'', con_status = CPassed,
     con_message = ''web-platform covers '' @ rc_id c @ ''.''\<rparr> \<in> set (plan_constraints plan)"
proof -
  obtain request policy b st where run: "routed lc sha schemas input request policy b"
    and st: "st = route_decision lc request b (ri_catalog input)"
    and status: "plan_status plan = st_status st"
    and sel: "plan_selectedProviders plan = (if st_status st = Selected
      then buildSelectedProviders (st_assignments st) (build_candidates b) else [])"
    and con: "set (plan_constraints plan) =
      set (st_constraints st) \<union> omitted_constraint ` set (st_omitted st)"
    using routeCapabilities_obtain [OF assms(1)] by metis
  have chosen: "st_status st \<in> {NoSdk, Native, Selected}" using assms(2) status by simp
  note facts = chosen_status_facts [OF st chosen]
  obtain c' where c': "c' \<in> set (req_capabilities request)" "rc_id c' = rc_id c" "rc_required c'"
    using normalizeRequest_Inr(3) [of lc "ri_request input" request] run assms(3,4)
    unfolding routed_def by metis
  then obtain a where a: "a \<in> set (st_assignments st)" "asg_capabilityId a = rc_id c"
    using covers_required [OF facts(1) [unfolded covering_def]] options_for_sound(1) by metis
  show ?thesis
  proof (cases "asg_native a")
    case True
    then have "asg_providerId a = ''web-platform''"
      using chosen_assignment [OF run facts(1) a(1)] by simp
    then show ?thesis using facts(5) [OF a(1)] True a(2) con by simp
  next
    case False
    then have "st_status st = Selected" using facts(4) a(1) by (auto split: if_splits)
    moreover have "asg_providerId a \<in> sp_providerId `
        set (buildSelectedProviders (st_assignments st) (build_candidates b))"
      using set_selected_ids a(1) False by blast
    ultimately show ?thesis
      using sel selected_provider_capabilities(1) a by fastforce
  qed
qed

theorem routeCapabilities_covers_required_witness:
  "\<exists>plan. routeCapabilities code_unit_compare (\<lambda>s. s) accept_schemas ''now''
       (timeline_input []) = Inr plan \<and>
     ((\<exists>s \<in> set (plan_selectedProviders plan). ''motion.timeline'' \<in> set (sp_capabilities s)) \<or>
      \<lparr>con_code = ''NATIVE_CAPABILITY_MATCH'', con_status = CPassed,
       con_message = ''web-platform covers motion.timeline.''\<rparr> \<in> set (plan_constraints plan))"
proof -
  obtain plan where plan: "routeCapabilities code_unit_compare (\<lambda>s. s) accept_schemas ''now''
      (timeline_input []) = Inr plan" "plan_status plan = Selected"
    using timeline_run timeline_selected by metis
  moreover have "needs ''motion.timeline'' \<in> set (req_capabilities (ri_request (timeline_input [])))"
    "rc_required (needs ''motion.timeline'')" "rc_id (needs ''motion.timeline'') = ''motion.timeline''"
    by (simp_all add: timeline_input_def fixture_request_def needs_def)
  ultimately show ?thesis
    using routeCapabilities_covers_required [OF plan(1), of "needs ''motion.timeline''"] by simp
qed

lemma plan_identity_content:
  "decisionPayload caps prefs (content\<lparr>plan_planId := i, plan_digest := d\<rparr>) =
     decisionPayload caps prefs content"
  by (simp add: decisionPayload_def)

lemma decisionPayload_createdAt [simp]:
  "decisionPayload caps prefs (content\<lparr>plan_createdAt := t\<rparr>) = decisionPayload caps prefs content"
  by (simp add: decisionPayload_def)

lemma plan_content_createdAt:
  "plan_content lc t request pid policy b st =
     (plan_content lc t' request pid policy b st)\<lparr>plan_createdAt := t\<rparr>"
  by (simp add: plan_content_def Let_def)

text \<open>The request a run works on, after normalisation.\<close>

lemma routeCapabilities_digest:
  assumes "routeCapabilities lc sha schemas now input = Inr plan"
  obtains request where "normalizeRequest lc (ri_request input) = Inr request"
    and "plan_digest plan = plan_identity sha request plan"
    and "plan_planId plan = ''route_'' @ digest_slice 24 (plan_digest plan)"
  using assms that
  by (auto simp: routeCapabilities_Inr_iff buildPlan_Inr_iff routed_def plan_identity_def
      plan_identity_content Let_def)

text \<open>
  The digest of a plan identifies its decision: two plans with one digest, from any two
  requests, have the same snapshots, status, providers, ownership, constraints and required
  input, wherever the hash has no collision; the plan id is the first 24 digits of the digest.
\<close>

theorem routeCapabilities_digest_binds:
  assumes "routeCapabilities lc sha schemas now input = Inr plan"
    and "routeCapabilities lc sha schemas now' input' = Inr plan'"
    and "\<And>caps prefs caps' prefs'. collision_free sha (decisionPayload caps prefs plan)
      (decisionPayload caps' prefs' plan')"
    and "plan_digest plan = plan_digest plan'"
  shows "same_decision plan plan' \<and> plan_planId plan = plan_planId plan'"
proof -
  obtain request where r: "plan_digest plan = plan_identity sha request plan"
      "plan_planId plan = ''route_'' @ digest_slice 24 (plan_digest plan)"
    using routeCapabilities_digest [OF assms(1)] by metis
  obtain request' where r': "plan_digest plan' = plan_identity sha request' plan'"
      "plan_planId plan' = ''route_'' @ digest_slice 24 (plan_digest plan')"
    using routeCapabilities_digest [OF assms(2)] by metis
  have "normalize_json (decisionPayload (req_capabilities request) (req_preferences request) plan) =
      normalize_json (decisionPayload (req_capabilities request') (req_preferences request') plan')"
    using assms(3,4) r(1) r'(1) by (simp add: plan_identity_def json_digest_eq_iff)
  then show ?thesis using decisionPayload_same_decision r(2) r'(2) assms(4) by metis
qed

theorem routeCapabilities_digest_binds_witness:
  "\<exists>plan plan'. routeCapabilities code_unit_compare (\<lambda>s. s) accept_schemas ''now''
       (timeline_input []) = Inr plan \<and>
     routeCapabilities code_unit_compare (\<lambda>s. s) accept_schemas ''later''
       (timeline_input []) = Inr plan' \<and> same_decision plan plan'"
proof -
  obtain plan where p: "routeCapabilities code_unit_compare (\<lambda>s. s) accept_schemas ''now''
      (timeline_input []) = Inr plan" by (rule timeline_run)
  have "created_at ''later'' (timeline_input []) = created_at ''now'' (timeline_input [])"
    by (simp add: created_at_def timeline_input_def)
  then have q: "routeCapabilities code_unit_compare (\<lambda>s. s) accept_schemas ''later''
      (timeline_input []) = Inr plan"
    using p by (simp add: routeCapabilities_Inr_iff)
  show ?thesis
    using routeCapabilities_digest_binds [OF p q collision_free_id refl] p q by blast
qed

text \<open>
  Routing is deterministic in everything but the clock: running the same request again at
  another time gives the same plan up to its creation time, with the same digest and plan id.
\<close>

theorem routeCapabilities_time_independent:
  assumes "routeCapabilities lc sha schemas now input = Inr plan"
    and "routeCapabilities lc sha schemas now' (input\<lparr>ri_createdAt := t\<rparr>) = Inr plan'"
  shows "plan' = plan\<lparr>plan_createdAt := created_at now' (input\<lparr>ri_createdAt := t\<rparr>)\<rparr>"
proof -
  let ?input' = "input\<lparr>ri_createdAt := t\<rparr>"
  obtain request policy b where run: "routed lc sha schemas input request policy b"
    and p: "buildPlan lc sha (schema_plan schemas) (created_at now input) request
      (project_snapshotId (ri_project input)) policy b
      (route_decision lc request b (ri_catalog input)) = Inr plan"
    using assms(1) unfolding routeCapabilities_Inr_iff by blast
  obtain request' policy' b' where run': "routed lc sha schemas ?input' request' policy' b'"
    and p': "buildPlan lc sha (schema_plan schemas) (created_at now' ?input') request'
      (project_snapshotId (ri_project input)) policy' b'
      (route_decision lc request' b' (ri_catalog input)) = Inr plan'"
    using assms(2) unfolding routeCapabilities_Inr_iff by auto
  have "request' = request" "policy' = policy" "b' = b"
    using run run' by (auto simp: routed_def candidate_input_of_def)
  then show ?thesis
    using p p' plan_content_createdAt [of lc "created_at now' ?input'" request _ policy b _
        "created_at now input"]
    by (simp add: buildPlan_Inr_iff plan_identity_def Let_def)
qed

theorem routeCapabilities_time_independent_witness:
  "\<exists>plan plan'. routeCapabilities code_unit_compare (\<lambda>s. s) accept_schemas ''now''
       (timeline_input []) = Inr plan \<and>
     routeCapabilities code_unit_compare (\<lambda>s. s) accept_schemas ''now''
       (timeline_input []\<lparr>ri_createdAt := Some ''later''\<rparr>) = Inr plan' \<and>
     plan' = plan\<lparr>plan_createdAt := ''later''\<rparr>"
proof -
  let ?run = "routeCapabilities code_unit_compare (\<lambda>s. s) accept_schemas ''now''"
  obtain plan where p: "?run (timeline_input []) = Inr plan" by (rule timeline_run)
  have "routed code_unit_compare (\<lambda>s. s) accept_schemas (timeline_input []\<lparr>ri_createdAt := Some ''later''\<rparr>)
      timeline_request timeline_policy (timeline_build [])"
    using timeline_routed [of "[]"] by (simp add: routed_def candidate_input_of_def)
  moreover obtain plan' where "buildPlan code_unit_compare (\<lambda>s. s) accept_all
      (created_at ''now'' (timeline_input []\<lparr>ri_createdAt := Some ''later''\<rparr>)) timeline_request
      (project_snapshotId (ri_project (timeline_input []))) timeline_policy (timeline_build [])
      (route_decision code_unit_compare timeline_request (timeline_build [])
        (ri_catalog (timeline_input []))) = Inr plan'"
    by (rule buildPlan_accepted)
  ultimately have q: "?run (timeline_input []\<lparr>ri_createdAt := Some ''later''\<rparr>) = Inr plan'"
    unfolding routeCapabilities_Inr_iff by (auto simp: accept_schemas_def)
  have "created_at ''now'' (timeline_input []\<lparr>ri_createdAt := Some ''later''\<rparr>) = ''later''"
    by (simp add: created_at_def)
  then show ?thesis using routeCapabilities_time_independent [OF p q] p q by metis
qed

definition input_error :: "exn \<Rightarrow> bool" where
  "input_error e \<longleftrightarrow> (\<exists>msg. e = RouteInputError ''ROUTE_INPUT_INVALID'' msg)"

lemma input_error_simp [simp]: "input_error (RouteInputError ''ROUTE_INPUT_INVALID'' msg)"
  unfolding input_error_def by blast

lemma validateInput_Inl: "validateInput name valid x = Inl e \<Longrightarrow> input_error e"
  by (auto simp: validateInput_def validateContract_def input_error_def split: option.splits)

lemma add_capability_Inl: "add_capability lc c m = Inl e \<Longrightarrow> input_error e"
  by (auto simp: add_capability_def canonicalJson_def serialize_print chain_eq_Inl input_error_def
      Let_def split: option.splits)

lemma normalizeRequest_Inl:
  assumes "normalizeRequest lc raw = Inl e"
  shows "input_error e"
proof -
  have "input_error e" if "for_each (add_capability lc) cs m = Inl e" for cs m
    using that
  proof (induction cs arbitrary: m)
    case (Cons c cs)
    then show ?case using add_capability_Inl by (auto simp: chain_eq_Inl)
  qed simp
  then show ?thesis using assms by (auto simp: normalizeRequest_def chain_eq_Inl)
qed

text \<open>
  A request for another project snapshot never yields a plan: it is rejected as invalid
  route input, before the policy and the catalogue are consulted.
\<close>

theorem routeCapabilities_snapshot_mismatch:
  assumes "req_projectSnapshotId (ri_request input) \<noteq> project_snapshotId (ri_project input)"
  shows "\<exists>msg. routeCapabilities lc sha schemas now input =
    Inl (RouteInputError ''ROUTE_INPUT_INVALID'' msg)"
proof -
  let ?run = "routeCapabilities lc sha schemas now input"
  have "\<exists>e. ?run = Inl e \<and> input_error e"
  proof (cases "validateInput ''route-request'' (schema_request schemas) (ri_request input)")
    case (Inl e)
    then show ?thesis using validateInput_Inl by (simp add: routeCapabilities_def)
  next
    case (Inr raw)
    then have raw: "validateInput ''route-request'' (schema_request schemas) (ri_request input) =
        Inr (ri_request input)" by simp
    show ?thesis
    proof (cases "normalizeRequest lc (ri_request input)")
      case (Inl e)
      then show ?thesis using raw normalizeRequest_Inl
        by (simp add: routeCapabilities_def del: validateInput_Inr)
    next
      case (Inr request)
      note request = Inr
      then have mismatch: "req_projectSnapshotId request \<noteq> project_snapshotId (ri_project input)"
        using assms normalizeRequest_Inr(7) by metis
      show ?thesis
      proof (cases "validateInput ''project-snapshot'' (schema_project schemas) (ri_project input)")
        case (Inl e)
        then show ?thesis using raw request validateInput_Inl
          by (simp add: routeCapabilities_def del: validateInput_Inr)
      next
        case (Inr project)
        then have "validateInput ''project-snapshot'' (schema_project schemas) (ri_project input) =
            Inr (ri_project input)" by simp
        then show ?thesis using raw request mismatch
          by (simp add: routeCapabilities_def del: validateInput_Inr)
      qed
    qed
  qed
  then show ?thesis by (auto simp: input_error_def)
qed

theorem routeCapabilities_snapshot_mismatch_witness:
  "\<exists>msg. routeCapabilities code_unit_compare (\<lambda>s. s) accept_schemas ''now''
     (timeline_input []\<lparr>ri_project := (fixture_project [])\<lparr>project_snapshotId := ''sha256:other''\<rparr>\<rparr>) =
     Inl (RouteInputError ''ROUTE_INPUT_INVALID'' msg)"
  by (rule routeCapabilities_snapshot_mismatch)
    (simp add: timeline_input_def fixture_request_def)

text \<open>
  Routing does not depend on the order in which the project lists its dependencies.
\<close>

theorem routeCapabilities_dependency_order:
  assumes "mset (project_dependencies project) = mset (project_dependencies (ri_project input))"
    and "project_snapshotId project = project_snapshotId (ri_project input)"
    and "schema_project schemas project = None \<and> schema_project schemas (ri_project input) = None"
  shows "routeCapabilities lc sha schemas now (input\<lparr>ri_project := project\<rparr>) =
    routeCapabilities lc sha schemas now input"
proof -
  have "buildProviderCandidates lc (candidate_input_of request (input\<lparr>ri_project := project\<rparr>) policy) =
      buildProviderCandidates lc (candidate_input_of request input policy)" for request policy
    using buildProviderCandidates_perm [of "candidate_input_of request input policy" project lc] assms(1)
    by (simp add: candidate_input_of_def)
  then have same: "buildProviderCandidates lc \<lparr>in_request = request, in_project = project,
        in_catalog = ri_catalog input, in_policy = policy\<rparr> =
      buildProviderCandidates lc \<lparr>in_request = request, in_project = ri_project input,
        in_catalog = ri_catalog input, in_policy = policy\<rparr>" for request policy
    by (simp add: candidate_input_of_def)
  have "validateInput ''project-snapshot'' (schema_project schemas) p = Inr p"
    if "p = project \<or> p = ri_project input" for p
    using that assms(3) by auto
  then have v: "validateInput ''project-snapshot'' (schema_project schemas) project = Inr project"
    "validateInput ''project-snapshot'' (schema_project schemas) (ri_project input) =
      Inr (ri_project input)" by blast+
  show ?thesis using assms(2) by (simp add: routeCapabilities_def v same del: validateInput_Inr)
qed

theorem routeCapabilities_dependency_order_witness:
  "routeCapabilities code_unit_compare (\<lambda>s. s) accept_schemas ''now''
     (timeline_input [(''react'', ''^19.0.0''), (''gsap'', ''3.12.0'')]
       \<lparr>ri_project := fixture_project [(''gsap'', ''3.12.0''), (''react'', ''^19.0.0'')]\<rparr>) =
   routeCapabilities code_unit_compare (\<lambda>s. s) accept_schemas ''now''
     (timeline_input [(''react'', ''^19.0.0''), (''gsap'', ''3.12.0'')])"
  by (rule routeCapabilities_dependency_order)
    (simp_all add: timeline_input_def fixture_project_def accept_schemas_def add_mset_commute)

end
