(* ===== verification/Policy_Resolver.thy ===== *)
theory Policy_Resolver
  imports Router_Policy
begin

text \<open>
  \<open>packages/config/src/policy.ts\<close>: the layered, tighten-only policy resolver. The layers read
  from configuration files are an argument; the builtin, organization and run layers are added
  as in \<open>PolicyResolver.resolve\<close>. The fold state carries the decisions recorded so far.
\<close>

datatype decision_value = DNull | DBool bool | DNum nat | DStr string | DStrs "string list"

record resolution_error =
  re_code :: string
  re_field :: string
  re_message :: string
  re_layer :: policy_scope
  re_value :: decision_value

record policy_decision =
  pd_field :: string
  pd_value :: decision_value
  pd_reasonCode :: string
  pd_layer :: policy_scope
  pd_sourcePolicyId :: "string option"
  pd_inheritedDeny :: bool

record layer_entry =
  layer_scope :: policy_scope
  layer_document :: policy_document
  layer_source :: "string option"

record layer_summary =
  ls_scope :: policy_scope
  ls_policyId :: "string option"
  ls_source :: "string option"

record resolved_policy =
  resolved_snapshotId :: digest
  resolved_document :: policy_document
  resolved_effective :: policy_rules
  resolved_decisions :: "policy_decision list"
  resolved_layers :: "layer_summary list"

definition BUILTIN_POLICY :: policy_document where
  "BUILTIN_POLICY = \<lparr>
     policy_policyId = ''builtin-hard-safety'', policy_version = ''1.0.0'',
     policy_scope = BuiltinScope,
     policy_rules = \<lparr>
       rule_allowedConnectors = [], rule_deniedConnectors = [], rule_allowExperimental = False,
       rule_allowedLicenses = [], rule_allowPaidServices = False,
       rule_network = \<lparr>net_mode = Deny, net_allowedHosts = []\<rparr>,
       rule_filesystem = \<lparr>fs_read = [], fs_write = []\<rparr>,
       rule_allowRemoteProjectContent = False, rule_maxBundleKilobytes = Some None,
       rule_requireReducedMotion = True, rule_requiredApprovals = []\<rparr>\<rparr>"

fun network_mode_rank :: "network_mode \<Rightarrow> nat" where
  "network_mode_rank Unrestricted = 0"
| "network_mode_rank Allowlist = 1"
| "network_mode_rank Deny = 2"

fun sourceReasonCode :: "policy_scope \<Rightarrow> string" where
  "sourceReasonCode OrganizationScope = ''POLICY_SOURCE_ORG''"
| "sourceReasonCode BuiltinScope = ''POLICY_SOURCE_BUILTIN''"
| "sourceReasonCode WorkspaceScope = ''POLICY_SOURCE_WORKSPACE''"
| "sourceReasonCode ProjectScope = ''POLICY_SOURCE_PROJECT''"
| "sourceReasonCode RunScope = ''POLICY_SOURCE_RUN''"

definition policyIdOf :: "policy_document \<Rightarrow> string option" where
  "policyIdOf document =
     (if policy_scope document = BuiltinScope then None else Some (policy_policyId document))"

record fold_state =
  fold_allowedConnectors :: "string list option"
  fold_deniedConnectors :: "string list"
  fold_allowedLicenses :: "string list option"
  fold_allowExperimental :: bool
  fold_allowPaidServices :: bool
  fold_networkMode :: network_mode
  fold_allowedHosts :: "string list option"
  fold_filesystemRead :: "string list option"
  fold_filesystemWrite :: "string list option"
  fold_allowRemoteProjectContent :: bool
  fold_maxBundleKilobytes :: "nat option"
  fold_requireReducedMotion :: bool
  fold_requiredApprovals :: "string list"

type_synonym fold_result = "resolution_error + fold_state \<times> policy_decision list"

definition weaken :: "string \<Rightarrow> policy_scope \<Rightarrow> decision_value \<Rightarrow> string \<Rightarrow>
    resolution_error" where
  "weaken field scope value message = \<lparr>re_code = ''POLICY_WEAKENING_DENIED'', re_field = field,
     re_message = message, re_layer = scope, re_value = value\<rparr>"

definition layer_decision :: "layer_entry \<Rightarrow> string \<Rightarrow> decision_value \<Rightarrow> string \<Rightarrow> policy_decision" where
  "layer_decision layer field value reasonCode = \<lparr>pd_field = field, pd_value = value,
     pd_reasonCode = reasonCode, pd_layer = layer_scope layer,
     pd_sourcePolicyId = policyIdOf (layer_document layer), pd_inheritedDeny = False\<rparr>"

definition quoted :: "string \<Rightarrow> string" where
  "quoted s = [CHR 0x22] @ s @ [CHR 0x22]"

definition layer_name :: "layer_entry \<Rightarrow> string" where
  "layer_name layer = ''layer '' @ policy_scope_name (layer_scope layer)"

section \<open>Folding one field\<close>

text \<open>An allowlist field of the state: how to read it and how to replace it.\<close>

type_synonym list_field =
  "(fold_state \<Rightarrow> string list option) \<times> (string list \<Rightarrow> fold_state \<Rightarrow> fold_state)"

definition foldAllowlist :: "layer_entry \<Rightarrow> string \<Rightarrow> list_field \<Rightarrow> string list \<Rightarrow> bool \<Rightarrow>
    fold_state \<times> policy_decision list \<Rightarrow> fold_result" where
  "foldAllowlist layer field stateKey layerValue denyChecked acc =
     (let (state, decisions) = acc in
      if layerValue = [] then Inr acc
      else chain (if denyChecked
        then (case find (\<lambda>item. item \<in> set (fold_deniedConnectors state)) layerValue of
            Some item \<Rightarrow> Inl (weaken field (layer_scope layer) (DStr item) (layer_name layer @ '' re-allows '' @
              quoted item @ '' which is denied by a lower layer''))
          | None \<Rightarrow> Inr ())
        else Inr ())
      (\<lambda>_. case fst stateKey state of
          None \<Rightarrow>
            let value = stableUnique layerValue in
            Inr (snd stateKey value state,
              decisions @ [layer_decision layer field (DStrs value)
                (sourceReasonCode (layer_scope layer))])
        | Some current \<Rightarrow>
            (case find (\<lambda>item. item \<notin> set current) layerValue of
               Some item \<Rightarrow> Inl (weaken field (layer_scope layer) (DStr item) (layer_name layer @ '' adds '' @
                 quoted item @ '' which is not present in the inherited '' @ field @ '' allowlist''))
             | None \<Rightarrow>
                 let narrowed = stableUnique layerValue in
                 if narrowed \<noteq> current
                 then Inr (snd stateKey narrowed state,
                   decisions @ [layer_decision layer field (DStrs narrowed) ''POLICY_TIGHTEN''])
                 else Inr acc)))"

type_synonym bool_field = "(fold_state \<Rightarrow> bool) \<times> (bool \<Rightarrow> fold_state \<Rightarrow> fold_state)"

definition foldBool :: "layer_entry \<Rightarrow> string \<Rightarrow> bool_field \<Rightarrow> bool \<Rightarrow> bool \<Rightarrow>
    fold_state \<times> policy_decision list \<Rightarrow> fold_result" where
  "foldBool layer field stateKey layerValue tightenValue acc =
     (let (state, decisions) = acc; current = fst stateKey state in
      if layerValue = current then Inr acc
      else if layerValue = tightenValue
      then Inl (weaken field (layer_scope layer) (DBool layerValue) (layer_name layer @ '' attempts to loosen '' @
        quoted field @ '' away from its constrained value''))
      else Inr (snd stateKey layerValue state,
        decisions @ [layer_decision layer field (DBool layerValue) ''POLICY_TIGHTEN'']))"

definition foldDenied :: "layer_entry \<Rightarrow> fold_state \<times> policy_decision list \<Rightarrow> fold_result" where
  "foldDenied layer acc =
     (let (state, decisions) = acc in
      Inr (state\<lparr>fold_deniedConnectors := foldl set_add (fold_deniedConnectors state)
        (rule_deniedConnectors (policy_rules (layer_document layer)))\<rparr>, decisions))"

definition foldNetworkMode :: "layer_entry \<Rightarrow> fold_state \<times> policy_decision list \<Rightarrow> fold_result" where
  "foldNetworkMode layer acc =
     (let (state, decisions) = acc;
          mode = net_mode (rule_network (policy_rules (layer_document layer)));
          currentRank = network_mode_rank (fold_networkMode state);
          layerRank = network_mode_rank mode
      in if layerRank < currentRank
         then Inl (weaken ''network.mode'' (layer_scope layer) (DStr (network_mode_name mode)) (layer_name layer @
           '' attempts to loosen network mode from '' @
           quoted (network_mode_name (fold_networkMode state)) @ '' to '' @
           quoted (network_mode_name mode)))
         else if layerRank > currentRank
         then Inr (state\<lparr>fold_networkMode := mode\<rparr>,
           decisions @ [layer_decision layer ''network.mode'' (DStr (network_mode_name mode))
             ''POLICY_TIGHTEN''])
         else Inr acc)"

definition hosts_field :: list_field where
  "hosts_field = (fold_allowedHosts, \<lambda>v. fold_allowedHosts_update (\<lambda>_. Some v))"

definition foldAllowedHosts :: "layer_entry \<Rightarrow> fold_state \<times> policy_decision list \<Rightarrow> fold_result" where
  "foldAllowedHosts layer acc =
     (let network = rule_network (policy_rules (layer_document layer)) in
      if net_allowedHosts network \<noteq> [] \<and> net_mode network \<noteq> Allowlist
      then Inl \<lparr>re_code = ''POLICY_INVALID'', re_field = ''network.allowedHosts'',
        re_message = layer_name layer @ '' lists allowedHosts while network mode is '' @
          quoted (network_mode_name (net_mode network)) @
          ''; allowedHosts requires allowlist mode'',
        re_layer = layer_scope layer,
        re_value = DStrs (net_allowedHosts network)\<rparr>
      else foldAllowlist layer ''network.allowedHosts'' hosts_field (net_allowedHosts network)
        False acc)"

definition kilobytes_str :: "nat option \<Rightarrow> string" where
  "kilobytes_str v = (case v of None \<Rightarrow> ''null'' | Some n \<Rightarrow> nat_str n)"

text \<open>\<open>rules.maxBundleKilobytes ?? null\<close>: absent and null are the same.\<close>

definition layer_bundle :: "policy_rules \<Rightarrow> nat option" where
  "layer_bundle rules = (case rule_maxBundleKilobytes rules of None \<Rightarrow> None | Some v \<Rightarrow> v)"

definition foldMaxBundle :: "layer_entry \<Rightarrow> fold_state \<times> policy_decision list \<Rightarrow> fold_result" where
  "foldMaxBundle layer acc =
     (let (state, decisions) = acc;
          current = fold_maxBundleKilobytes state;
          value = layer_bundle (policy_rules (layer_document layer))
      in if value = current then Inr acc
         else if (case current of
             None \<Rightarrow> False
           | Some c \<Rightarrow> (case value of None \<Rightarrow> True | Some v \<Rightarrow> v > c))
         then Inl (weaken ''maxBundleKilobytes'' (layer_scope layer)
           (case value of None \<Rightarrow> DNull | Some v \<Rightarrow> DNum v) (layer_name layer @
           '' attempts to increase maxBundleKilobytes from '' @ kilobytes_str current @ '' to '' @
           kilobytes_str value))
         else Inr (state\<lparr>fold_maxBundleKilobytes := value\<rparr>,
           decisions @ [layer_decision layer ''maxBundleKilobytes''
             (DNum (case value of None \<Rightarrow> 0 | Some v \<Rightarrow> v)) ''POLICY_TIGHTEN'']))"

definition foldRequiredApprovals :: "layer_entry \<Rightarrow> fold_state \<times> policy_decision list \<Rightarrow>
    fold_result" where
  "foldRequiredApprovals layer acc =
     (let (state, decisions) = acc;
          before = length (fold_requiredApprovals state);
          approvals = foldl set_add (fold_requiredApprovals state)
            (rule_requiredApprovals (policy_rules (layer_document layer)));
          state = state\<lparr>fold_requiredApprovals := approvals\<rparr>
      in if length approvals > before
         then Inr (state, decisions @ [layer_decision layer ''requiredApprovals''
           (DStrs (stableUnique approvals)) ''POLICY_TIGHTEN''])
         else Inr (state, decisions))"

section \<open>Folding a layer, and the resolver\<close>

definition connectors_field :: list_field where
  "connectors_field = (fold_allowedConnectors, \<lambda>v. fold_allowedConnectors_update (\<lambda>_. Some v))"

definition licenses_field :: list_field where
  "licenses_field = (fold_allowedLicenses, \<lambda>v. fold_allowedLicenses_update (\<lambda>_. Some v))"

definition read_field :: list_field where
  "read_field = (fold_filesystemRead, \<lambda>v. fold_filesystemRead_update (\<lambda>_. Some v))"

definition write_field :: list_field where
  "write_field = (fold_filesystemWrite, \<lambda>v. fold_filesystemWrite_update (\<lambda>_. Some v))"

definition foldLayer :: "layer_entry \<Rightarrow> fold_state \<times> policy_decision list \<Rightarrow> fold_result" where
  "foldLayer layer acc =
     (if layer_scope layer = BuiltinScope then Inr acc
      else
        let rules = policy_rules (layer_document layer) in
        chain (foldAllowlist layer ''allowedConnectors'' connectors_field
          (rule_allowedConnectors rules) True acc)
       (\<lambda>acc. chain (foldDenied layer acc)
       (\<lambda>acc. chain (foldAllowlist layer ''allowedLicenses'' licenses_field
          (rule_allowedLicenses rules) False acc)
       (\<lambda>acc. chain (foldBool layer ''allowExperimental''
          (fold_allowExperimental, \<lambda>v. fold_allowExperimental_update (\<lambda>_. v))
          (rule_allowExperimental rules) True acc)
       (\<lambda>acc. chain (foldBool layer ''allowPaidServices''
          (fold_allowPaidServices, \<lambda>v. fold_allowPaidServices_update (\<lambda>_. v))
          (rule_allowPaidServices rules) True acc)
       (\<lambda>acc. chain (foldBool layer ''allowRemoteProjectContent''
          (fold_allowRemoteProjectContent, \<lambda>v. fold_allowRemoteProjectContent_update (\<lambda>_. v))
          (rule_allowRemoteProjectContent rules) True acc)
       (\<lambda>acc. chain (foldNetworkMode layer acc)
       (\<lambda>acc. chain (foldAllowedHosts layer acc)
       (\<lambda>acc. chain (foldAllowlist layer ''filesystem.read'' read_field
          (fs_read (rule_filesystem rules)) False acc)
       (\<lambda>acc. chain (foldAllowlist layer ''filesystem.write'' write_field
          (fs_write (rule_filesystem rules)) False acc)
       (\<lambda>acc. chain (foldMaxBundle layer acc)
       (\<lambda>acc. chain (foldRequiredApprovals layer acc)
       (\<lambda>acc. foldBool layer ''requireReducedMotion''
          (fold_requireReducedMotion, \<lambda>v. fold_requireReducedMotion_update (\<lambda>_. v))
          (rule_requireReducedMotion rules) False acc)))))))))))))"

record resolve_input =
  ri_discovered :: "layer_entry list"
  ri_organizationPolicy :: "policy_document option"
  ri_runPolicy :: "policy_document option"

definition policy_layers :: "resolve_input \<Rightarrow> layer_entry list" where
  "policy_layers input =
     [\<lparr>layer_scope = BuiltinScope, layer_document = BUILTIN_POLICY, layer_source = None\<rparr>] @
     (case ri_organizationPolicy input of None \<Rightarrow> []
      | Some d \<Rightarrow> [\<lparr>layer_scope = OrganizationScope, layer_document = d, layer_source = None\<rparr>]) @
     ri_discovered input @
     (case ri_runPolicy input of None \<Rightarrow> []
      | Some d \<Rightarrow> [\<lparr>layer_scope = RunScope, layer_document = d, layer_source = None\<rparr>])"

definition initial_state :: fold_state where
  "initial_state = (let rules = policy_rules BUILTIN_POLICY in \<lparr>
     fold_allowedConnectors = None, fold_deniedConnectors = [], fold_allowedLicenses = None,
     fold_allowExperimental = rule_allowExperimental rules,
     fold_allowPaidServices = rule_allowPaidServices rules,
     fold_networkMode = net_mode (rule_network rules), fold_allowedHosts = None,
     fold_filesystemRead = None, fold_filesystemWrite = None,
     fold_allowRemoteProjectContent = rule_allowRemoteProjectContent rules,
     fold_maxBundleKilobytes = layer_bundle rules,
     fold_requireReducedMotion = rule_requireReducedMotion rules,
     fold_requiredApprovals = []\<rparr>)"

definition builtin_decision :: "string \<Rightarrow> decision_value \<Rightarrow> policy_decision" where
  "builtin_decision field value = \<lparr>pd_field = field, pd_value = value,
     pd_reasonCode = ''POLICY_SOURCE_BUILTIN'', pd_layer = BuiltinScope,
     pd_sourcePolicyId = None, pd_inheritedDeny = False\<rparr>"

definition baseline_decisions :: "policy_decision list" where
  "baseline_decisions = [
     builtin_decision ''allowExperimental'' (DBool (fold_allowExperimental initial_state)),
     builtin_decision ''allowPaidServices'' (DBool (fold_allowPaidServices initial_state)),
     builtin_decision ''allowRemoteProjectContent''
       (DBool (fold_allowRemoteProjectContent initial_state)),
     builtin_decision ''requireReducedMotion'' (DBool (fold_requireReducedMotion initial_state)),
     builtin_decision ''networkMode'' (DStr (network_mode_name (fold_networkMode initial_state)))]"

definition or_empty :: "string list option \<Rightarrow> string list" where
  "or_empty v = (case v of None \<Rightarrow> [] | Some xs \<Rightarrow> xs)"

definition strip_denied :: "fold_state \<Rightarrow> string list" where
  "strip_denied state =
     filter (\<lambda>c. c \<notin> set (fold_deniedConnectors state)) (or_empty (fold_allowedConnectors state))"

definition effective_rules :: "fold_state \<Rightarrow> policy_rules" where
  "effective_rules state = \<lparr>
     rule_allowedConnectors =
       (if fold_deniedConnectors state \<noteq> [] \<and>
          length (strip_denied state) \<noteq> length (or_empty (fold_allowedConnectors state))
        then strip_denied state else or_empty (fold_allowedConnectors state)),
     rule_deniedConnectors = stableUnique (fold_deniedConnectors state),
     rule_allowExperimental = fold_allowExperimental state,
     rule_allowedLicenses = or_empty (fold_allowedLicenses state),
     rule_allowPaidServices = fold_allowPaidServices state,
     rule_network = \<lparr>net_mode = fold_networkMode state,
       net_allowedHosts = or_empty (fold_allowedHosts state)\<rparr>,
     rule_filesystem = \<lparr>fs_read = or_empty (fold_filesystemRead state),
       fs_write = or_empty (fold_filesystemWrite state)\<rparr>,
     rule_allowRemoteProjectContent = fold_allowRemoteProjectContent state,
     rule_maxBundleKilobytes = Some (fold_maxBundleKilobytes state),
     rule_requireReducedMotion = fold_requireReducedMotion state,
     rule_requiredApprovals = stableUnique (fold_requiredApprovals state)\<rparr>"

definition deny_decisions :: "fold_state \<Rightarrow> policy_decision list" where
  "deny_decisions state =
     (if fold_deniedConnectors state \<noteq> [] \<and>
        length (strip_denied state) \<noteq> length (or_empty (fold_allowedConnectors state))
      then [\<lparr>pd_field = ''allowedConnectors'', pd_value = DStrs (strip_denied state),
        pd_reasonCode = ''POLICY_DENY_INHERITED'', pd_layer = RunScope,
        pd_sourcePolicyId = None, pd_inheritedDeny = True\<rparr>]
      else [])"

definition placeholder_document :: "policy_rules \<Rightarrow> policy_document" where
  "placeholder_document effective = \<lparr>policy_policyId = ''resolved'', policy_version = ''1.0.0'',
     policy_scope = RunScope, policy_rules = effective\<rparr>"

text \<open>
  \<open>resolve\<close>. A policy holds no non-finite number, so \<open>digestJson\<close> of it cannot throw and is
  \<open>policy_digest\<close>.
\<close>

definition resolve :: "(string \<Rightarrow> string) \<Rightarrow> resolve_input \<Rightarrow> resolution_error + resolved_policy" where
  "resolve sha input =
     (let layers = policy_layers input in
      chain (for_each foldLayer layers (initial_state, baseline_decisions))
        (\<lambda>(state, decisions).
          let effective = effective_rules state;
              placeholder = placeholder_document effective;
              document = placeholder\<lparr>policy_policyId :=
                ''resolved-'' @ digest_slice 8 (policy_digest sha placeholder)\<rparr>
          in Inr \<lparr>resolved_snapshotId = policy_digest sha document,
              resolved_document = document,
              resolved_effective = effective,
              resolved_decisions = decisions @ deny_decisions state,
              resolved_layers = map (\<lambda>l. \<lparr>ls_scope = layer_scope l,
                ls_policyId = policyIdOf (layer_document l), ls_source = layer_source l\<rparr>) layers\<rparr>))"

section \<open>The abstract posture\<close>

text \<open>
  What the layers amount to: the set allowed for each list, once some layer constrains it, the
  denied connectors, the bundle limit and the required approvals. The locked booleans and the
  network never change.
\<close>

record posture =
  pos_connectors :: "string set option"
  pos_denied :: "string set"
  pos_licenses :: "string set option"
  pos_read :: "string set option"
  pos_write :: "string set option"
  pos_bundle :: "nat option"
  pos_approvals :: "string set"

definition open_posture :: posture where
  "open_posture = \<lparr>pos_connectors = None, pos_denied = {}, pos_licenses = None, pos_read = None,
     pos_write = None, pos_bundle = None, pos_approvals = {}\<rparr>"

text \<open>A layer that states nothing the builtin policy locks.\<close>

definition conforms :: "policy_rules \<Rightarrow> bool" where
  "conforms r \<longleftrightarrow> \<not> rule_allowExperimental r \<and> \<not> rule_allowPaidServices r \<and>
     \<not> rule_allowRemoteProjectContent r \<and> rule_requireReducedMotion r \<and>
     net_mode (rule_network r) = Deny \<and> net_allowedHosts (rule_network r) = []"

definition within :: "string set option \<Rightarrow> string list \<Rightarrow> bool" where
  "within allowed xs \<longleftrightarrow> xs = [] \<or> (case allowed of None \<Rightarrow> True | Some a \<Rightarrow> set xs \<subseteq> a)"

definition narrow :: "string set option \<Rightarrow> string list \<Rightarrow> string set option" where
  "narrow allowed xs = (if xs = [] then allowed else Some (set xs))"

definition bundle_within :: "nat option \<Rightarrow> nat option \<Rightarrow> bool" where
  "bundle_within limit v \<longleftrightarrow>
     (case limit of None \<Rightarrow> True | Some m \<Rightarrow> (case v of None \<Rightarrow> False | Some n \<Rightarrow> n \<le> m))"

definition admissible :: "posture \<Rightarrow> policy_rules \<Rightarrow> bool" where
  "admissible p r \<longleftrightarrow> conforms r \<and> within (pos_connectors p) (rule_allowedConnectors r) \<and>
     set (rule_allowedConnectors r) \<inter> pos_denied p = {} \<and>
     within (pos_licenses p) (rule_allowedLicenses r) \<and>
     within (pos_read p) (fs_read (rule_filesystem r)) \<and>
     within (pos_write p) (fs_write (rule_filesystem r)) \<and>
     bundle_within (pos_bundle p) (layer_bundle r)"

definition tighten :: "posture \<Rightarrow> policy_rules \<Rightarrow> posture" where
  "tighten p r = \<lparr>pos_connectors = narrow (pos_connectors p) (rule_allowedConnectors r),
     pos_denied = pos_denied p \<union> set (rule_deniedConnectors r),
     pos_licenses = narrow (pos_licenses p) (rule_allowedLicenses r),
     pos_read = narrow (pos_read p) (fs_read (rule_filesystem r)),
     pos_write = narrow (pos_write p) (fs_write (rule_filesystem r)),
     pos_bundle = layer_bundle r,
     pos_approvals = pos_approvals p \<union> set (rule_requiredApprovals r)\<rparr>"

fun posture_of :: "posture \<Rightarrow> policy_rules list \<Rightarrow> posture option" where
  "posture_of p [] = Some p"
| "posture_of p (r # rs) = (if admissible p r then posture_of (tighten p r) rs else None)"

section \<open>The fold implements the abstract posture\<close>

text \<open>
  \<open>implements f ok upd\<close>: a step fails exactly where \<open>ok\<close> does not hold, with one of the two
  resolution errors, and otherwise updates the state as \<open>upd\<close> does.
\<close>

definition implements :: "(fold_state \<times> policy_decision list \<Rightarrow> fold_result) \<Rightarrow>
    (fold_state \<Rightarrow> bool) \<Rightarrow> (fold_state \<Rightarrow> fold_state) \<Rightarrow> bool" where
  "implements f ok upd \<longleftrightarrow> (\<forall>s ds. case f (s, ds) of
     Inl e \<Rightarrow> \<not> ok s \<and> re_code e \<in> {''POLICY_WEAKENING_DENIED'', ''POLICY_INVALID''}
   | Inr acc \<Rightarrow> ok s \<and> fst acc = upd s)"

named_theorems steps \<open>specifications of the fold steps\<close>

lemma implements_chain:
  assumes "implements f ok upd" and "implements g ok' upd'"
  shows "implements (\<lambda>acc. chain (f acc) g) (\<lambda>s. ok s \<and> ok' (upd s)) (\<lambda>s. upd' (upd s))"
  unfolding implements_def
proof (intro allI)
  fix s ds
  have f: "case f (s, ds) of
      Inl e \<Rightarrow> \<not> ok s \<and> re_code e \<in> {''POLICY_WEAKENING_DENIED'', ''POLICY_INVALID''}
    | Inr acc \<Rightarrow> ok s \<and> fst acc = upd s"
    using assms(1) by (simp only: implements_def)
  show "case chain (f (s, ds)) g of
      Inl e \<Rightarrow> \<not> (ok s \<and> ok' (upd s)) \<and> re_code e \<in> {''POLICY_WEAKENING_DENIED'', ''POLICY_INVALID''}
    | Inr acc \<Rightarrow> (ok s \<and> ok' (upd s)) \<and> fst acc = upd' (upd s)"
  proof (cases "f (s, ds)")
    case (Inl e)
    then show ?thesis using f by simp
  next
    case (Inr acc)
    have "case g (fst acc, snd acc) of
        Inl e \<Rightarrow> \<not> ok' (fst acc) \<and> re_code e \<in> {''POLICY_WEAKENING_DENIED'', ''POLICY_INVALID''}
      | Inr acc' \<Rightarrow> ok' (fst acc) \<and> fst acc' = upd' (fst acc)"
      using assms(2) by (simp only: implements_def)
    then show ?thesis using f Inr by (cases "g acc") auto
  qed
qed

definition lawful :: "list_field \<Rightarrow> bool" where
  "lawful k \<longleftrightarrow> (\<forall>s v. fst k s = Some v \<longrightarrow> snd k v s = s)"

definition list_ok :: "list_field \<Rightarrow> bool \<Rightarrow> string list \<Rightarrow> fold_state \<Rightarrow> bool" where
  "list_ok k chk v s \<longleftrightarrow> within (map_option set (fst k s)) v \<and>
     (chk \<longrightarrow> set v \<inter> set (fold_deniedConnectors s) = {})"

definition list_put :: "list_field \<Rightarrow> string list \<Rightarrow> fold_state \<Rightarrow> fold_state" where
  "list_put k v s = (if v = [] then s else snd k (stableUnique v) s)"

lemma weaken_code [simp]: "re_code (weaken f sc v m) = ''POLICY_WEAKENING_DENIED''"
  by (simp add: weaken_def)

lemma find_None_Int: "find (\<lambda>x. x \<in> A) xs = None \<longleftrightarrow> set xs \<inter> A = {}"
  by (auto simp: find_None_iff)

lemma find_None_subset: "find (\<lambda>x. x \<notin> A) xs = None \<longleftrightarrow> set xs \<subseteq> A"
  by (auto simp: find_None_iff)

lemma foldAllowlist_implements [steps]:
  assumes "lawful k"
  shows "implements (foldAllowlist layer f k v chk) (list_ok k chk v) (list_put k v)"
  unfolding implements_def
proof (intro allI)
  fix s :: fold_state and ds
  let ?D = "set (fold_deniedConnectors s)"
  have same: "fst k s = Some u \<Longrightarrow> snd k u s = s" for u
    using assms by (simp add: lawful_def)
  show "case foldAllowlist layer f k v chk (s, ds) of
      Inl e \<Rightarrow> \<not> list_ok k chk v s \<and> re_code e \<in> {''POLICY_WEAKENING_DENIED'', ''POLICY_INVALID''}
    | Inr acc \<Rightarrow> list_ok k chk v s \<and> fst acc = list_put k v s"
  proof (cases "v = []")
    case True
    then show ?thesis by (simp add: foldAllowlist_def list_ok_def list_put_def within_def)
  next
    case v: False
    show ?thesis
    proof (cases "chk \<and> set v \<inter> ?D \<noteq> {}")
      case True
      then obtain item where "find (\<lambda>i. i \<in> ?D) v = Some item"
        using find_None_Int [of ?D v] by (cases "find (\<lambda>i. i \<in> ?D) v") auto
      then show ?thesis using True v by (simp add: foldAllowlist_def list_ok_def)
    next
      case ok: False
      then have find: "chk \<Longrightarrow> find (\<lambda>i. i \<in> ?D) v = None" by (simp add: find_None_Int)
      show ?thesis
      proof (cases "fst k s")
        case None
        then show ?thesis using v ok find
          by (cases chk) (simp_all add: foldAllowlist_def list_ok_def list_put_def within_def Let_def)
      next
        case (Some cur)
        show ?thesis
          using v ok find Some same [of cur] find_None_subset [of "set cur" v]
          by (cases chk; cases "find (\<lambda>i. i \<notin> set cur) v")
            (simp_all add: foldAllowlist_def list_ok_def list_put_def within_def Let_def)
      qed
    qed
  qed
qed

lemma lawful_fields [steps]:
  "lawful connectors_field" "lawful licenses_field" "lawful hosts_field" "lawful read_field"
  "lawful write_field"
  by (simp_all add: lawful_def connectors_field_def licenses_field_def hosts_field_def
      read_field_def write_field_def)

lemma foldBool_implements [steps]:
  "implements (foldBool layer f k v t) (\<lambda>s. v = fst k s \<or> v \<noteq> t)
     (\<lambda>s. if v = fst k s then s else snd k v s)"
  by (auto simp: implements_def foldBool_def Let_def)

lemma foldDenied_implements [steps]:
  "implements (foldDenied layer) (\<lambda>s. True)
     (\<lambda>s. s\<lparr>fold_deniedConnectors := foldl set_add (fold_deniedConnectors s)
        (rule_deniedConnectors (policy_rules (layer_document layer)))\<rparr>)"
  by (simp add: implements_def foldDenied_def)

lemma foldNetworkMode_implements [steps]:
  "implements (foldNetworkMode layer)
     (\<lambda>s. network_mode_rank (net_mode (rule_network (policy_rules (layer_document layer)))) \<ge>
        network_mode_rank (fold_networkMode s))
     (\<lambda>s. s\<lparr>fold_networkMode := net_mode (rule_network (policy_rules (layer_document layer)))\<rparr>)"
proof -
  have inj: "network_mode_rank a = network_mode_rank b \<Longrightarrow> a = b" for a b
    by (cases a; cases b) simp_all
  let ?m = "net_mode (rule_network (policy_rules (layer_document layer)))"
  have same: "s\<lparr>fold_networkMode := ?m\<rparr> = s"
    if "\<not> network_mode_rank ?m < network_mode_rank (fold_networkMode s)"
      "\<not> network_mode_rank (fold_networkMode s) < network_mode_rank ?m" for s :: fold_state
  proof -
    have "fold_networkMode s = ?m" using that by (intro inj) simp
    then show ?thesis by (cases s) simp
  qed
  show ?thesis
    unfolding implements_def foldNetworkMode_def Let_def
    by (auto simp: same not_less)
qed

lemma foldAllowedHosts_implements [steps]:
  "implements (foldAllowedHosts layer)
     (\<lambda>s. let n = rule_network (policy_rules (layer_document layer)) in
        (net_allowedHosts n \<noteq> [] \<longrightarrow> net_mode n = Allowlist) \<and>
        list_ok hosts_field False (net_allowedHosts n) s)
     (list_put hosts_field (net_allowedHosts (rule_network (policy_rules (layer_document layer)))))"
proof -
  let ?n = "rule_network (policy_rules (layer_document layer))"
  have list: "implements (foldAllowlist layer ''network.allowedHosts'' hosts_field
      (net_allowedHosts ?n) False)
      (list_ok hosts_field False (net_allowedHosts ?n)) (list_put hosts_field (net_allowedHosts ?n))"
    by (rule foldAllowlist_implements) (rule lawful_fields)
  show ?thesis
  proof (cases "net_allowedHosts ?n \<noteq> [] \<and> net_mode ?n \<noteq> Allowlist")
    case True
    then show ?thesis by (simp add: implements_def foldAllowedHosts_def Let_def)
  next
    case False
    then have "foldAllowedHosts layer = foldAllowlist layer ''network.allowedHosts'' hosts_field
        (net_allowedHosts ?n) False"
      by (intro ext) (simp only: foldAllowedHosts_def Let_def if_False)
    moreover have "(\<lambda>s. let n = ?n in (net_allowedHosts n \<noteq> [] \<longrightarrow> net_mode n = Allowlist) \<and>
        list_ok hosts_field False (net_allowedHosts n) s) =
        list_ok hosts_field False (net_allowedHosts ?n)"
      using False by (intro ext) (simp only: Let_def, blast)
    ultimately show ?thesis using list by (simp only:)
  qed
qed

lemma foldMaxBundle_implements [steps]:
  "implements (foldMaxBundle layer)
     (\<lambda>s. bundle_within (fold_maxBundleKilobytes s) (layer_bundle (policy_rules (layer_document layer))))
     (\<lambda>s. s\<lparr>fold_maxBundleKilobytes := layer_bundle (policy_rules (layer_document layer))\<rparr>)"
  unfolding implements_def foldMaxBundle_def Let_def
  by (auto simp: bundle_within_def not_less split: option.split)

lemma foldRequiredApprovals_implements [steps]:
  "implements (foldRequiredApprovals layer) (\<lambda>s. True)
     (\<lambda>s. s\<lparr>fold_requiredApprovals := foldl set_add (fold_requiredApprovals s)
        (rule_requiredApprovals (policy_rules (layer_document layer)))\<rparr>)"
  by (simp add: implements_def foldRequiredApprovals_def Let_def)

section \<open>From the fold state to the posture\<close>

definition posture_of_state :: "fold_state \<Rightarrow> posture" where
  "posture_of_state s = \<lparr>pos_connectors = map_option set (fold_allowedConnectors s),
     pos_denied = set (fold_deniedConnectors s),
     pos_licenses = map_option set (fold_allowedLicenses s),
     pos_read = map_option set (fold_filesystemRead s),
     pos_write = map_option set (fold_filesystemWrite s),
     pos_bundle = fold_maxBundleKilobytes s,
     pos_approvals = set (fold_requiredApprovals s)\<rparr>"

definition canonical_list :: "string list option \<Rightarrow> bool" where
  "canonical_list v = (case v of None \<Rightarrow> True | Some xs \<Rightarrow> stableUnique xs = xs)"

text \<open>The invariant of the fold: the baseline stays locked and every allowlist is canonical.\<close>

definition locked :: "fold_state \<Rightarrow> bool" where
  "locked s \<longleftrightarrow> \<not> fold_allowExperimental s \<and> \<not> fold_allowPaidServices s \<and>
     \<not> fold_allowRemoteProjectContent s \<and> fold_requireReducedMotion s \<and>
     fold_networkMode s = Deny \<and> fold_allowedHosts s = None \<and>
     canonical_list (fold_allowedConnectors s) \<and> canonical_list (fold_allowedLicenses s) \<and>
     canonical_list (fold_filesystemRead s) \<and> canonical_list (fold_filesystemWrite s)"

definition simulates :: "(fold_state \<times> policy_decision list \<Rightarrow> fold_result) \<Rightarrow>
    (posture \<Rightarrow> bool) \<Rightarrow> (posture \<Rightarrow> posture) \<Rightarrow> bool" where
  "simulates f ok upd \<longleftrightarrow> (\<forall>s ds. locked s \<longrightarrow> (case f (s, ds) of
     Inl e \<Rightarrow> \<not> ok (posture_of_state s) \<and>
       re_code e \<in> {''POLICY_WEAKENING_DENIED'', ''POLICY_INVALID''}
   | Inr acc \<Rightarrow> ok (posture_of_state s) \<and> locked (fst acc) \<and>
       posture_of_state (fst acc) = upd (posture_of_state s)))"

lemma simulatesD:
  assumes "simulates f ok upd" and "locked s"
  shows "case f (s, ds) of
      Inl e \<Rightarrow> \<not> ok (posture_of_state s) \<and>
        re_code e \<in> {''POLICY_WEAKENING_DENIED'', ''POLICY_INVALID''}
    | Inr acc \<Rightarrow> ok (posture_of_state s) \<and> locked (fst acc) \<and>
        posture_of_state (fst acc) = upd (posture_of_state s)"
  using assms(1) [unfolded simulates_def, rule_format, OF assms(2)] .

lemma simulates_Inl:
  "simulates f ok upd \<Longrightarrow> locked s \<Longrightarrow> f (s, ds) = Inl e \<Longrightarrow>
    \<not> ok (posture_of_state s) \<and> re_code e \<in> {''POLICY_WEAKENING_DENIED'', ''POLICY_INVALID''}"
  by (drule (1) simulatesD [of _ _ _ _ ds]) (simp only: sum.simps simp_thms)

lemma simulates_Inr:
  "simulates f ok upd \<Longrightarrow> locked s \<Longrightarrow> f (s, ds) = Inr acc \<Longrightarrow>
    ok (posture_of_state s) \<and> locked (fst acc) \<and>
    posture_of_state (fst acc) = upd (posture_of_state s)"
  by (drule (1) simulatesD [of _ _ _ _ ds]) (simp only: sum.simps simp_thms)

lemma simulates_chain:
  assumes "simulates f ok upd" and "simulates g ok' upd'"
  shows "simulates (\<lambda>acc. chain (f acc) g) (\<lambda>p. ok p \<and> ok' (upd p)) (\<lambda>p. upd' (upd p))"
  unfolding simulates_def
proof (intro allI impI)
  fix s ds assume s: "locked s"
  show "case chain (f (s, ds)) g of
      Inl e \<Rightarrow> \<not> (ok (posture_of_state s) \<and> ok' (upd (posture_of_state s))) \<and>
        re_code e \<in> {''POLICY_WEAKENING_DENIED'', ''POLICY_INVALID''}
    | Inr acc \<Rightarrow> (ok (posture_of_state s) \<and> ok' (upd (posture_of_state s))) \<and> locked (fst acc) \<and>
        posture_of_state (fst acc) = upd' (upd (posture_of_state s))"
  proof (cases "f (s, ds)")
    case (Inl e)
    then show ?thesis using simulates_Inl [OF assms(1) s Inl] by simp
  next
    case (Inr acc)
    note f = simulates_Inr [OF assms(1) s Inr]
    show ?thesis
    proof (cases "g acc")
      case (Inl e)
      then show ?thesis
        using simulates_Inl [OF assms(2), of "fst acc" "snd acc" e] f \<open>f (s, ds) = Inr acc\<close> by simp
    next
      case (Inr acc')
      then show ?thesis
        using simulates_Inr [OF assms(2), of "fst acc" "snd acc" acc'] f \<open>f (s, ds) = Inr acc\<close> by simp
    qed
  qed
qed

lemma implements_simulates:
  assumes "implements f ok upd"
    and "\<And>s. locked s \<Longrightarrow> ok s = ok' (posture_of_state s)"
    and "\<And>s. locked s \<Longrightarrow> ok s \<Longrightarrow> locked (upd s)"
    and "\<And>s. locked s \<Longrightarrow> ok s \<Longrightarrow> posture_of_state (upd s) = upd' (posture_of_state s)"
  shows "simulates f ok' upd'"
  unfolding simulates_def
proof (intro allI impI)
  fix s ds assume s: "locked s"
  have f: "case f (s, ds) of
      Inl e \<Rightarrow> \<not> ok s \<and> re_code e \<in> {''POLICY_WEAKENING_DENIED'', ''POLICY_INVALID''}
    | Inr acc \<Rightarrow> ok s \<and> fst acc = upd s"
    using assms(1) by (simp only: implements_def)
  show "case f (s, ds) of
      Inl e \<Rightarrow> \<not> ok' (posture_of_state s) \<and>
        re_code e \<in> {''POLICY_WEAKENING_DENIED'', ''POLICY_INVALID''}
    | Inr acc \<Rightarrow> ok' (posture_of_state s) \<and> locked (fst acc) \<and>
        posture_of_state (fst acc) = upd' (posture_of_state s)"
  proof (cases "f (s, ds)")
    case (Inl e)
    then show ?thesis using f unfolding assms(2) [OF s, symmetric] by simp
  next
    case (Inr acc)
    then have "ok s" and "fst acc = upd s" using f by simp_all
    then show ?thesis
      using assms(2-4) [OF s] unfolding Inr sum.simps by (simp only: simp_thms)
  qed
qed

text \<open>Each group of statements of the layer loop, over the posture.\<close>

lemma canonical_narrow:
  "canonical_list cur \<Longrightarrow> canonical_list (if v = [] then cur else Some (stableUnique v))"
  by (simp add: canonical_list_def)

lemmas state_simps = locked_def posture_of_state_def list_ok_def list_put_def narrow_def
  canonical_list_def connectors_field_def licenses_field_def hosts_field_def read_field_def
  write_field_def

lemma connectors_simulates:
  "simulates (foldAllowlist layer f connectors_field v True)
     (\<lambda>p. within (pos_connectors p) v \<and> set v \<inter> pos_denied p = {})
     (\<lambda>p. p\<lparr>pos_connectors := narrow (pos_connectors p) v\<rparr>)"
  by (rule implements_simulates [OF foldAllowlist_implements [OF lawful_fields(1)]])
    (simp_all add: state_simps)

lemma licenses_simulates:
  "simulates (foldAllowlist layer f licenses_field v False) (\<lambda>p. within (pos_licenses p) v)
     (\<lambda>p. p\<lparr>pos_licenses := narrow (pos_licenses p) v\<rparr>)"
  by (rule implements_simulates [OF foldAllowlist_implements [OF lawful_fields(2)]])
    (simp_all add: state_simps)

lemma read_simulates:
  "simulates (foldAllowlist layer f read_field v False) (\<lambda>p. within (pos_read p) v)
     (\<lambda>p. p\<lparr>pos_read := narrow (pos_read p) v\<rparr>)"
  by (rule implements_simulates [OF foldAllowlist_implements [OF lawful_fields(4)]])
    (simp_all add: state_simps)

lemma write_simulates:
  "simulates (foldAllowlist layer f write_field v False) (\<lambda>p. within (pos_write p) v)
     (\<lambda>p. p\<lparr>pos_write := narrow (pos_write p) v\<rparr>)"
  by (rule implements_simulates [OF foldAllowlist_implements [OF lawful_fields(5)]])
    (simp_all add: state_simps)

lemma denied_simulates:
  "simulates (foldDenied layer) (\<lambda>p. True)
     (\<lambda>p. p\<lparr>pos_denied := pos_denied p \<union>
        set (rule_deniedConnectors (policy_rules (layer_document layer)))\<rparr>)"
  by (rule implements_simulates [OF foldDenied_implements])
    (simp_all add: state_simps set_foldl_set_add)

lemma bundle_simulates:
  "simulates (foldMaxBundle layer)
     (\<lambda>p. bundle_within (pos_bundle p) (layer_bundle (policy_rules (layer_document layer))))
     (\<lambda>p. p\<lparr>pos_bundle := layer_bundle (policy_rules (layer_document layer))\<rparr>)"
  by (rule implements_simulates [OF foldMaxBundle_implements]) (simp_all add: state_simps)

lemma approvals_simulates:
  "simulates (foldRequiredApprovals layer) (\<lambda>p. True)
     (\<lambda>p. p\<lparr>pos_approvals := pos_approvals p \<union>
        set (rule_requiredApprovals (policy_rules (layer_document layer)))\<rparr>)"
  by (rule implements_simulates [OF foldRequiredApprovals_implements])
    (simp_all add: state_simps set_foldl_set_add)

lemma booleans_simulate:
  "simulates (foldBool layer f (fold_allowExperimental, u) v True) (\<lambda>p. \<not> v) id"
  "simulates (foldBool layer f (fold_allowPaidServices, u) v True) (\<lambda>p. \<not> v) id"
  "simulates (foldBool layer f (fold_allowRemoteProjectContent, u) v True) (\<lambda>p. \<not> v) id"
  "simulates (foldBool layer f (fold_requireReducedMotion, u) v False) (\<lambda>p. v) id"
  by (rule implements_simulates [OF foldBool_implements]; simp add: locked_def)+

lemma network_simulates:
  "simulates (\<lambda>acc. chain (foldNetworkMode layer acc) (foldAllowedHosts layer))
     (\<lambda>p. net_mode (rule_network (policy_rules (layer_document layer))) = Deny \<and>
        net_allowedHosts (rule_network (policy_rules (layer_document layer))) = []) id"
proof -
  let ?n = "rule_network (policy_rules (layer_document layer))"
  have rank: "network_mode_rank m \<ge> 2 \<longleftrightarrow> m = Deny" for m by (cases m) simp_all
  show ?thesis
    by (rule implements_simulates [OF implements_chain [OF foldNetworkMode_implements
            foldAllowedHosts_implements]])
      (auto simp: state_simps rank within_def Let_def)
qed

lemma foldLayer_grouped:
  assumes "layer_scope layer \<noteq> BuiltinScope"
  defines "rules \<equiv> policy_rules (layer_document layer)"
  shows "foldLayer layer =
    (\<lambda>acc. chain (foldAllowlist layer ''allowedConnectors'' connectors_field
       (rule_allowedConnectors rules) True acc)
    (\<lambda>acc. chain (foldDenied layer acc)
    (\<lambda>acc. chain (foldAllowlist layer ''allowedLicenses'' licenses_field
       (rule_allowedLicenses rules) False acc)
    (\<lambda>acc. chain (foldBool layer ''allowExperimental''
       (fold_allowExperimental, \<lambda>v. fold_allowExperimental_update (\<lambda>_. v))
       (rule_allowExperimental rules) True acc)
    (\<lambda>acc. chain (foldBool layer ''allowPaidServices''
       (fold_allowPaidServices, \<lambda>v. fold_allowPaidServices_update (\<lambda>_. v))
       (rule_allowPaidServices rules) True acc)
    (\<lambda>acc. chain (foldBool layer ''allowRemoteProjectContent''
       (fold_allowRemoteProjectContent, \<lambda>v. fold_allowRemoteProjectContent_update (\<lambda>_. v))
       (rule_allowRemoteProjectContent rules) True acc)
    (\<lambda>acc. chain (chain (foldNetworkMode layer acc) (foldAllowedHosts layer))
    (\<lambda>acc. chain (foldAllowlist layer ''filesystem.read'' read_field
       (fs_read (rule_filesystem rules)) False acc)
    (\<lambda>acc. chain (foldAllowlist layer ''filesystem.write'' write_field
       (fs_write (rule_filesystem rules)) False acc)
    (\<lambda>acc. chain (foldMaxBundle layer acc)
    (\<lambda>acc. chain (foldRequiredApprovals layer acc)
    (\<lambda>acc. foldBool layer ''requireReducedMotion''
       (fold_requireReducedMotion, \<lambda>v. fold_requireReducedMotion_update (\<lambda>_. v))
       (rule_requireReducedMotion rules) False acc))))))))))))"
  using assms(1) by (intro ext) (simp only: foldLayer_def Let_def if_False chain_assoc rules_def)

lemma simulates_weaken:
  "simulates f ok upd \<Longrightarrow> (\<And>p. ok p = ok' p) \<Longrightarrow> (\<And>p. upd p = upd' p) \<Longrightarrow> simulates f ok' upd'"
  by (subgoal_tac "ok = ok'"; (subgoal_tac "upd = upd'")?; simp add: fun_eq_iff)

lemma foldLayer_simulates:
  assumes "layer_scope layer \<noteq> BuiltinScope"
  shows "simulates (foldLayer layer) (\<lambda>p. admissible p (policy_rules (layer_document layer)))
    (\<lambda>p. tighten p (policy_rules (layer_document layer)))"
  unfolding foldLayer_grouped [OF assms]
  by (rule simulates_weaken, (rule network_simulates connectors_simulates denied_simulates
        licenses_simulates booleans_simulate read_simulates write_simulates
        bundle_simulates approvals_simulates simulates_chain)+)
    (auto simp: admissible_def conforms_def tighten_def)

text \<open>The rules of the layers that \<open>resolve\<close> folds.\<close>

definition layer_rules :: "layer_entry list \<Rightarrow> policy_rules list" where
  "layer_rules layers = map (\<lambda>l. policy_rules (layer_document l))
     (filter (\<lambda>l. layer_scope l \<noteq> BuiltinScope) layers)"

lemma layers_refine:
  assumes "locked s"
  shows "case for_each foldLayer layers (s, ds) of
      Inl e \<Rightarrow> posture_of (posture_of_state s) (layer_rules layers) = None \<and>
        re_code e \<in> {''POLICY_WEAKENING_DENIED'', ''POLICY_INVALID''}
    | Inr acc \<Rightarrow> locked (fst acc) \<and>
        posture_of (posture_of_state s) (layer_rules layers) = Some (posture_of_state (fst acc))"
  using assms
proof (induction layers arbitrary: s ds)
  case Nil
  then show ?case by (simp add: layer_rules_def)
next
  case (Cons l layers)
  show ?case
  proof (cases "layer_scope l = BuiltinScope")
    case True
    then have "foldLayer l (s, ds) = Inr (s, ds)" by (simp add: foldLayer_def)
    moreover have "layer_rules (l # layers) = layer_rules layers"
      using True by (simp add: layer_rules_def)
    ultimately show ?thesis using Cons.IH [OF Cons.prems, of ds] by (simp cong: sum.case_cong)
  next
    case False
    note sim = foldLayer_simulates [OF False]
    show ?thesis
    proof (cases "foldLayer l (s, ds)")
      case (Inl e)
      then show ?thesis
        using simulates_Inl [OF sim Cons.prems Inl] False by (simp add: layer_rules_def)
    next
      case (Inr acc)
      then show ?thesis
        using simulates_Inr [OF sim Cons.prems Inr] Cons.IH [of "fst acc" "snd acc"] False
        by (simp add: layer_rules_def cong: sum.case_cong)
    qed
  qed
qed

lemma initial_locked: "locked initial_state"
  by (simp add: locked_def initial_state_def BUILTIN_POLICY_def Let_def canonical_list_def)

lemma initial_posture: "posture_of_state initial_state = open_posture"
  by (simp add: posture_of_state_def initial_state_def BUILTIN_POLICY_def Let_def
      open_posture_def layer_bundle_def)

section \<open>The effective rules of a posture\<close>

definition listed :: "string set option \<Rightarrow> string list" where
  "listed A = (case A of None \<Rightarrow> [] | Some X \<Rightarrow> sorted_list_of_set X)"

definition rules_of :: "posture \<Rightarrow> policy_rules" where
  "rules_of p = \<lparr>
     rule_allowedConnectors = filter (\<lambda>c. c \<notin> pos_denied p) (listed (pos_connectors p)),
     rule_deniedConnectors = sorted_list_of_set (pos_denied p),
     rule_allowExperimental = False, rule_allowedLicenses = listed (pos_licenses p),
     rule_allowPaidServices = False,
     rule_network = \<lparr>net_mode = Deny, net_allowedHosts = []\<rparr>,
     rule_filesystem = \<lparr>fs_read = listed (pos_read p), fs_write = listed (pos_write p)\<rparr>,
     rule_allowRemoteProjectContent = False, rule_maxBundleKilobytes = Some (pos_bundle p),
     rule_requireReducedMotion = True,
     rule_requiredApprovals = sorted_list_of_set (pos_approvals p)\<rparr>"

lemma canonical_listed: "canonical_list v \<Longrightarrow> or_empty v = listed (map_option set v)"
  by (auto simp: canonical_list_def or_empty_def listed_def stableUnique_canonical
      split: option.splits)

lemma strip_all: "length (filter P xs) = length xs \<Longrightarrow> xs = filter P xs"
  by (metis filter_id_conv length_filter_less less_irrefl)

lemma effective_allowedConnectors:
  "rule_allowedConnectors (effective_rules s) = strip_denied s"
  using strip_all [of "\<lambda>c. c \<notin> set (fold_deniedConnectors s)" "or_empty (fold_allowedConnectors s)"]
  by (auto simp: effective_rules_def strip_denied_def)

lemma effective_rules_of: "locked s \<Longrightarrow> effective_rules s = rules_of (posture_of_state s)"
  using effective_allowedConnectors [of s]
  by (simp add: effective_rules_def rules_of_def locked_def posture_of_state_def strip_denied_def
      canonical_listed [symmetric] stableUnique_canonical or_empty_def [of None])

section \<open>What the resolver guarantees\<close>

lemma resolve_Inl:
  "resolve sha input = Inl e \<longleftrightarrow>
     for_each foldLayer (policy_layers input) (initial_state, baseline_decisions) = Inl e"
  by (cases "for_each foldLayer (policy_layers input) (initial_state, baseline_decisions)")
    (auto simp: resolve_def Let_def split: prod.splits)

lemma resolve_Inr:
  assumes "resolve sha input = Inr r"
  obtains s ds where
    "for_each foldLayer (policy_layers input) (initial_state, baseline_decisions) = Inr (s, ds)"
    "resolved_effective r = effective_rules s"
    "resolved_decisions r = ds @ deny_decisions s"
    "resolved_document r = (placeholder_document (effective_rules s))\<lparr>policy_policyId :=
       ''resolved-'' @ digest_slice 8 (policy_digest sha (placeholder_document (effective_rules s)))\<rparr>"
    "resolved_snapshotId r = policy_digest sha (resolved_document r)"
  using assms
  by (cases "for_each foldLayer (policy_layers input) (initial_state, baseline_decisions)")
    (auto simp: resolve_def Let_def)

lemma resolve_abstraction:
  "(case resolve sha input of Inl e \<Rightarrow> None | Inr r \<Rightarrow> Some (resolved_effective r)) =
     map_option rules_of (posture_of open_posture (layer_rules (policy_layers input)))"
proof -
  note fold = layers_refine [OF initial_locked, of "policy_layers input" baseline_decisions,
      unfolded initial_posture]
  show ?thesis
  proof (cases "resolve sha input")
    case (Inl e)
    then have "for_each foldLayer (policy_layers input) (initial_state, baseline_decisions) = Inl e"
      by (simp add: resolve_Inl)
    then show ?thesis using fold Inl by simp
  next
    case (Inr r)
    then obtain s ds where
      "for_each foldLayer (policy_layers input) (initial_state, baseline_decisions) = Inr (s, ds)"
      "resolved_effective r = effective_rules s"
      by (rule resolve_Inr)
    then show ?thesis using fold Inr by (simp add: effective_rules_of)
  qed
qed

text \<open>
  C37: \<open>PolicyResolver.resolve\<close> refines the abstract posture: it succeeds exactly when the rules
  of the layers are admissible one after the other, starting from an unconstrained posture, and
  the effective rules are then the canonical presentation of the resulting posture, whatever the
  order and the repetitions inside the layers' lists.
\<close>

theorem resolve_refines_posture:
  "(case resolve sha input of Inl e \<Rightarrow> None | Inr r \<Rightarrow> Some (resolved_effective r)) =
     map_option rules_of (posture_of open_posture (layer_rules (policy_layers input)))"
  by (rule resolve_abstraction)

lemma resolve_posture:
  assumes "resolve sha input = Inr r"
  obtains p where "posture_of open_posture (layer_rules (policy_layers input)) = Some p"
    "resolved_effective r = rules_of p"
proof -
  obtain s ds where
    "for_each foldLayer (policy_layers input) (initial_state, baseline_decisions) = Inr (s, ds)"
    "resolved_effective r = effective_rules s"
    using assms by (rule resolve_Inr)
  then show ?thesis
    using layers_refine [OF initial_locked, of "policy_layers input" baseline_decisions,
        unfolded initial_posture]
    by (intro that [of "posture_of_state s"]) (simp_all add: effective_rules_of)
qed

text \<open>The order on postures: \<open>q\<close> allows no more than \<open>p\<close>.\<close>

definition set_below :: "string set option \<Rightarrow> string set option \<Rightarrow> bool" where
  "set_below B A \<longleftrightarrow> (\<forall>X. A = Some X \<longrightarrow> (\<exists>Y. B = Some Y \<and> Y \<subseteq> X))"

definition bundle_below :: "nat option \<Rightarrow> nat option \<Rightarrow> bool" where
  "bundle_below b a \<longleftrightarrow> (\<forall>m. a = Some m \<longrightarrow> (\<exists>n. b = Some n \<and> n \<le> m))"

definition below :: "posture \<Rightarrow> posture \<Rightarrow> bool" where
  "below q p \<longleftrightarrow> set_below (pos_connectors q) (pos_connectors p) \<and> pos_denied p \<subseteq> pos_denied q \<and>
     set_below (pos_licenses q) (pos_licenses p) \<and> set_below (pos_read q) (pos_read p) \<and>
     set_below (pos_write q) (pos_write p) \<and> bundle_below (pos_bundle q) (pos_bundle p) \<and>
     pos_approvals p \<subseteq> pos_approvals q"

lemma set_below_refl: "set_below A A"
  by (simp add: set_below_def)

lemma set_below_trans: "set_below C B \<Longrightarrow> set_below B A \<Longrightarrow> set_below C A"
  unfolding set_below_def by (metis option.inject order_trans)

lemma bundle_below_trans: "bundle_below c b \<Longrightarrow> bundle_below b a \<Longrightarrow> bundle_below c a"
  unfolding bundle_below_def by (metis option.inject order_trans)

lemma below_refl: "below p p"
  by (simp add: below_def set_below_refl bundle_below_def)

lemma below_trans: "below r q \<Longrightarrow> below q p \<Longrightarrow> below r p"
  unfolding below_def by (blast intro: set_below_trans bundle_below_trans)

lemma narrow_below: "within A v \<Longrightarrow> set_below (narrow A v) A"
  by (auto simp: within_def narrow_def set_below_def)

lemma tighten_below: "admissible p r \<Longrightarrow> below (tighten p r) p"
  by (auto simp: admissible_def below_def tighten_def narrow_below bundle_within_def
      bundle_below_def split: option.splits)

lemma posture_of_below:
  "posture_of p rs = Some q \<Longrightarrow> below q p \<and> (\<forall>r \<in> set rs. \<exists>p'. below q (tighten p' r) \<and> admissible p' r)"
proof (induction rs arbitrary: p)
  case Nil
  then show ?case by (simp add: below_refl)
next
  case (Cons r rs)
  then have "admissible p r" and "posture_of (tighten p r) rs = Some q"
    by (auto split: if_splits)
  then show ?case using Cons.IH [of "tighten p r"] tighten_below below_trans by auto
qed

lemma posture_of_finite:
  assumes "posture_of p rs = Some q" and "finite (pos_denied p)" and "finite (pos_approvals p)"
    and "\<forall>A \<in> {pos_connectors p, pos_licenses p, pos_read p, pos_write p}. pred_option finite A"
  shows "finite (pos_denied q) \<and> finite (pos_approvals q) \<and>
    (\<forall>A \<in> {pos_connectors q, pos_licenses q, pos_read q, pos_write q}. pred_option finite A)"
  using assms
proof (induction rs arbitrary: p)
  case (Cons r rs)
  then show ?case
    by (intro Cons.IH [of "tighten p r"]) (auto simp: tighten_def narrow_def split: if_splits)
qed simp

lemma open_finite:
  assumes "posture_of open_posture rs = Some q"
  shows "finite (pos_denied q)" "finite (pos_approvals q)" "pred_option finite (pos_connectors q)"
    "pred_option finite (pos_licenses q)" "pred_option finite (pos_read q)"
    "pred_option finite (pos_write q)"
  using posture_of_finite [OF assms] by (simp_all add: open_posture_def)

lemma listed_below:
  "set_below B (Some (set v)) \<Longrightarrow> pred_option finite B \<Longrightarrow> set (listed B) \<subseteq> set v"
  by (auto simp: set_below_def listed_def)

text \<open>The effective rules constrain at least as much as the rules \<open>r\<close> of one layer.\<close>

definition tightens :: "policy_rules \<Rightarrow> policy_rules \<Rightarrow> bool" where
  "tightens eff r \<longleftrightarrow>
     (rule_allowedConnectors r \<noteq> [] \<longrightarrow>
        set (rule_allowedConnectors eff) \<subseteq> set (rule_allowedConnectors r)) \<and>
     set (rule_deniedConnectors r) \<subseteq> set (rule_deniedConnectors eff) \<and>
     (rule_allowedLicenses r \<noteq> [] \<longrightarrow>
        set (rule_allowedLicenses eff) \<subseteq> set (rule_allowedLicenses r)) \<and>
     (fs_read (rule_filesystem r) \<noteq> [] \<longrightarrow>
        set (fs_read (rule_filesystem eff)) \<subseteq> set (fs_read (rule_filesystem r))) \<and>
     (fs_write (rule_filesystem r) \<noteq> [] \<longrightarrow>
        set (fs_write (rule_filesystem eff)) \<subseteq> set (fs_write (rule_filesystem r))) \<and>
     bundle_below (layer_bundle eff) (layer_bundle r) \<and>
     set (rule_requiredApprovals r) \<subseteq> set (rule_requiredApprovals eff)"

lemma tightens_rules_of:
  assumes "posture_of open_posture rs = Some q" and "r \<in> set rs"
  shows "tightens (rules_of q) r"
proof -
  note fin = open_finite [OF assms(1)]
  obtain p where "below q (tighten p r)" using posture_of_below [OF assms(1)] assms(2) by blast
  then show ?thesis
    using fin listed_below [OF _ fin(3)] listed_below [OF _ fin(4)] listed_below [OF _ fin(5)]
      listed_below [OF _ fin(6)]
    by (auto simp: below_def tighten_def narrow_def tightens_def rules_of_def layer_bundle_def
        split: if_splits)
qed

text \<open>
  Layered resolution only ever restricts. Whatever the layers, the resolved rules keep the
  baseline of the builtin policy (no experimental or paid connector, no remote project content,
  network denied with no host, reduced motion required), never both allow and deny a connector,
  and constrain at least as much as every single layer: subsets of every nonempty allowlist,
  supersets of every deny list and approval list, and a bundle limit not above any layer's.
\<close>

theorem resolve_tightens:
  assumes "resolve sha input = Inr r"
  shows "conforms (resolved_effective r) \<and>
    set (rule_allowedConnectors (resolved_effective r)) \<inter>
      set (rule_deniedConnectors (resolved_effective r)) = {} \<and>
    (\<forall>l \<in> set (policy_layers input). layer_scope l \<noteq> BuiltinScope \<longrightarrow>
      tightens (resolved_effective r) (policy_rules (layer_document l)))"
proof (intro conjI)
  obtain q where q: "posture_of open_posture (layer_rules (policy_layers input)) = Some q"
    "resolved_effective r = rules_of q"
    using assms by (rule resolve_posture)
  show "conforms (resolved_effective r)" by (simp add: q(2) rules_of_def conforms_def)
  show "set (rule_allowedConnectors (resolved_effective r)) \<inter>
      set (rule_deniedConnectors (resolved_effective r)) = {}"
    using open_finite(1) [OF q(1)] by (auto simp: q(2) rules_of_def)
  show "\<forall>l \<in> set (policy_layers input). layer_scope l \<noteq> BuiltinScope \<longrightarrow>
      tightens (resolved_effective r) (policy_rules (layer_document l))"
    using tightens_rules_of [OF q(1)] by (auto simp: q(2) layer_rules_def)
qed

text \<open>Two concrete layers: an organization allowing two connectors, a run narrowing them.\<close>

definition sample_rules :: "string list \<Rightarrow> string list \<Rightarrow> nat option \<Rightarrow> policy_rules" where
  "sample_rules allowed denied bundle = (policy_rules BUILTIN_POLICY)\<lparr>
     rule_allowedConnectors := allowed, rule_deniedConnectors := denied,
     rule_maxBundleKilobytes := Some bundle\<rparr>"

definition sample_layers :: "policy_rules \<Rightarrow> policy_rules \<Rightarrow> resolve_input" where
  "sample_layers org run = \<lparr>ri_discovered = [],
     ri_organizationPolicy = Some (BUILTIN_POLICY\<lparr>policy_policyId := ''org'',
       policy_scope := OrganizationScope, policy_rules := org\<rparr>),
     ri_runPolicy = Some (BUILTIN_POLICY\<lparr>policy_policyId := ''run'',
       policy_scope := RunScope, policy_rules := run\<rparr>)\<rparr>"

lemma sample_resolves:
  "\<exists>r. resolve sha (sample_layers (sample_rules [''motion'', ''gsap''] [] (Some 90))
     (sample_rules [''gsap''] [''motion''] (Some 40))) = Inr r"
proof -
  let ?input = "sample_layers (sample_rules [''motion'', ''gsap''] [] (Some 90))
     (sample_rules [''gsap''] [''motion''] (Some 40))"
  have "posture_of open_posture (layer_rules (policy_layers ?input)) \<noteq> None"
    by (simp add: sample_layers_def sample_rules_def policy_layers_def layer_rules_def
        BUILTIN_POLICY_def open_posture_def admissible_def conforms_def within_def narrow_def
        tighten_def bundle_within_def layer_bundle_def)
  then show ?thesis
    using resolve_abstraction [of sha ?input] by (cases "resolve sha ?input") auto
qed

lemma resolve_denied_run:
  assumes "resolve sha (sample_layers org (sample_rules allowed [''motion''] bundle)) = Inr r"
  shows "''motion'' \<in> set (rule_deniedConnectors (resolved_effective r))"
proof -
  let ?input = "sample_layers org (sample_rules allowed [''motion''] bundle)"
  obtain q where q: "posture_of open_posture (layer_rules (policy_layers ?input)) = Some q"
    "resolved_effective r = rules_of q"
    using assms by (rule resolve_posture)
  have "sample_rules allowed [''motion''] bundle \<in> set (layer_rules (policy_layers ?input))"
    by (simp add: layer_rules_def policy_layers_def sample_layers_def)
  then show ?thesis
    using tightens_rules_of [OF q(1), of "sample_rules allowed [''motion''] bundle"]
    by (simp add: q(2) tightens_def) (simp add: sample_rules_def)
qed

lemma resolve_tightens_witness:
  "\<exists>r. resolve (\<lambda>_. replicate 64 CHR ''0'')
      (sample_layers (sample_rules [''motion'', ''gsap''] [] (Some 90))
        (sample_rules [''gsap''] [''motion''] (Some 40))) = Inr r \<and>
    conforms (resolved_effective r) \<and>
    set (rule_allowedConnectors (resolved_effective r)) \<subseteq> {''gsap''} \<and>
    ''motion'' \<in> set (rule_deniedConnectors (resolved_effective r))"
proof -
  let ?run = "sample_rules [''gsap''] [''motion''] (Some 40)"
  let ?input = "sample_layers (sample_rules [''motion'', ''gsap''] [] (Some 90)) ?run"
  obtain r where r: "resolve (\<lambda>_. replicate 64 CHR ''0'') ?input = Inr r"
    using sample_resolves by blast
  have "tightens (resolved_effective r) ?run"
    using resolve_tightens [OF r] by (simp add: policy_layers_def sample_layers_def)
  then show ?thesis
    using r resolve_tightens [OF r] by (auto simp: tightens_def sample_rules_def)
qed

section \<open>Errors\<close>

lemma foldAllowlist_layer:
  "foldAllowlist layer f k v chk acc = Inl e \<Longrightarrow> re_layer e = layer_scope layer"
  by (cases acc) (auto simp: foldAllowlist_def weaken_def Let_def chain_eq_Inl
      split: if_splits option.splits)

lemma foldBool_layer: "foldBool layer f k v t acc = Inl e \<Longrightarrow> re_layer e = layer_scope layer"
  by (cases acc) (auto simp: foldBool_def weaken_def Let_def split: if_splits)

lemma foldNetworkMode_layer: "foldNetworkMode layer acc = Inl e \<Longrightarrow> re_layer e = layer_scope layer"
  by (cases acc) (auto simp: foldNetworkMode_def weaken_def Let_def split: if_splits)

lemma foldAllowedHosts_layer: "foldAllowedHosts layer acc = Inl e \<Longrightarrow> re_layer e = layer_scope layer"
  by (auto simp: foldAllowedHosts_def Let_def dest: foldAllowlist_layer split: if_splits)

lemma foldMaxBundle_layer: "foldMaxBundle layer acc = Inl e \<Longrightarrow> re_layer e = layer_scope layer"
  by (cases acc) (auto simp: foldMaxBundle_def weaken_def Let_def split: if_splits)

lemma fold_total:
  "foldDenied layer acc \<noteq> Inl e" "foldRequiredApprovals layer acc \<noteq> Inl e"
  by (cases acc, simp add: foldDenied_def foldRequiredApprovals_def Let_def)+

lemma foldLayer_layer:
  "foldLayer layer acc = Inl e \<Longrightarrow> re_layer e = layer_scope layer \<and> layer_scope layer \<noteq> BuiltinScope"
  by (auto simp: foldLayer_def Let_def chain_eq_Inl fold_total dest: foldAllowlist_layer
      foldBool_layer foldNetworkMode_layer foldAllowedHosts_layer foldMaxBundle_layer
      split: if_splits)

lemma layers_first_error:
  assumes "for_each foldLayer layers (s, ds) = Inl e" and "locked s"
  shows "\<exists>before l rest p. layers = before @ l # rest \<and> layer_scope l \<noteq> BuiltinScope \<and>
    re_layer e = layer_scope l \<and> posture_of (posture_of_state s) (layer_rules before) = Some p \<and>
    \<not> admissible p (policy_rules (layer_document l))"
  using assms
proof (induction layers arbitrary: s ds)
  case (Cons l layers)
  show ?case
  proof (cases "foldLayer l (s, ds)")
    case (Inl e')
    then have e: "e' = e" using Cons.prems(1) by simp
    have "layer_scope l \<noteq> BuiltinScope" "re_layer e = layer_scope l"
      using foldLayer_layer [OF Inl] e by simp_all
    moreover have "\<not> admissible (posture_of_state s) (policy_rules (layer_document l))"
      using simulates_Inl [OF foldLayer_simulates [OF calculation(1)] Cons.prems(2) Inl] by simp
    moreover have "l # layers = [] @ l # layers" by simp
    moreover have "posture_of (posture_of_state s) (layer_rules []) = Some (posture_of_state s)"
      by (simp add: layer_rules_def)
    ultimately show ?thesis by metis
  next
    case (Inr acc)
    have step: "locked (fst acc) \<and> (\<forall>rs p. posture_of (posture_of_state (fst acc)) (layer_rules rs) = Some p \<longrightarrow>
        posture_of (posture_of_state s) (layer_rules (l # rs)) = Some p)"
    proof (cases "layer_scope l = BuiltinScope")
      case True
      then have "acc = (s, ds)" using Inr by (simp add: foldLayer_def)
      then show ?thesis using True Cons.prems(2) by (simp add: layer_rules_def)
    next
      case False
      then show ?thesis
        using simulates_Inr [OF foldLayer_simulates [OF False] Cons.prems(2) Inr]
        by (simp add: layer_rules_def)
    qed
    have "for_each foldLayer layers (fst acc, snd acc) = Inl e" using Inr Cons.prems(1) by simp
    then obtain before k rest p where "layers = before @ k # rest" "layer_scope k \<noteq> BuiltinScope"
      "re_layer e = layer_scope k" "posture_of (posture_of_state (fst acc)) (layer_rules before) = Some p"
      "\<not> admissible p (policy_rules (layer_document k))"
      using Cons.IH step by metis
    then show ?thesis using step by (metis append_Cons)
  qed
qed simp

text \<open>
  When resolution fails, the error is one of the two documented codes and names the first
  layer that the posture built from the layers before it does not admit.
\<close>

theorem resolve_error_layer:
  assumes "resolve sha input = Inl e"
  shows "re_code e \<in> {''POLICY_WEAKENING_DENIED'', ''POLICY_INVALID''} \<and>
    (\<exists>before l rest p. policy_layers input = before @ l # rest \<and>
      layer_scope l \<noteq> BuiltinScope \<and> re_layer e = layer_scope l \<and>
      posture_of open_posture (layer_rules before) = Some p \<and>
      \<not> admissible p (policy_rules (layer_document l)))"
proof -
  have fold: "for_each foldLayer (policy_layers input) (initial_state, baseline_decisions) = Inl e"
    using assms by (simp add: resolve_Inl)
  show ?thesis
    using layers_refine [OF initial_locked, of "policy_layers input" baseline_decisions]
      layers_first_error [OF fold initial_locked] fold
    by (simp add: initial_posture)
qed

lemma resolve_error_layer_witness:
  "\<exists>e. resolve (\<lambda>_. replicate 64 CHR ''0'')
      (sample_layers (sample_rules [] [] (Some 90)) (sample_rules [] [] None)) = Inl e \<and>
    re_layer e = RunScope"
proof -
  let ?input = "sample_layers (sample_rules [] [] (Some 90)) (sample_rules [] [] None)"
  have "posture_of open_posture (layer_rules (policy_layers ?input)) = None"
    by (simp add: sample_layers_def sample_rules_def policy_layers_def layer_rules_def
        BUILTIN_POLICY_def open_posture_def admissible_def conforms_def within_def narrow_def
        tighten_def bundle_within_def layer_bundle_def)
  then obtain e where e: "resolve (\<lambda>_. replicate 64 CHR ''0'') ?input = Inl e"
    using resolve_abstraction [of "\<lambda>_. replicate 64 CHR ''0''" ?input]
    by (cases "resolve (\<lambda>_. replicate 64 CHR ''0'') ?input") auto
  have org: "admissible open_posture (sample_rules [] [] (Some 90))"
    by (simp add: sample_rules_def BUILTIN_POLICY_def open_posture_def admissible_def
        conforms_def within_def bundle_within_def layer_bundle_def)
  obtain before l rest p where split: "policy_layers ?input = before @ l # rest"
    "layer_scope l \<noteq> BuiltinScope" "re_layer e = layer_scope l"
    "posture_of open_posture (layer_rules before) = Some p"
    "\<not> admissible p (policy_rules (layer_document l))"
    using resolve_error_layer [OF e] by blast
  have "layer_scope l = RunScope"
    using split org by (auto simp: policy_layers_def sample_layers_def layer_rules_def Cons_eq_append_conv)
  then show ?thesis using e split(3) by auto
qed

section \<open>The decision log\<close>

text \<open>The value of the last decision recorded for a field.\<close>

definition last_decision :: "policy_decision list \<Rightarrow> string \<Rightarrow> decision_value option" where
  "last_decision ds f = map_option pd_value (find (\<lambda>d. pd_field d = f) (rev ds))"

lemma last_decision_snoc [simp]:
  "last_decision (ds @ [d]) f = (if pd_field d = f then Some (pd_value d) else last_decision ds f)"
  by (simp add: last_decision_def)

text \<open>The log agrees with the state of the fold, field by field.\<close>

definition logged :: "fold_state \<times> policy_decision list \<Rightarrow> bool" where
  "logged acc \<longleftrightarrow> (let (s, ds) = acc in
     last_decision ds ''allowedConnectors'' = map_option DStrs (fold_allowedConnectors s) \<and>
     last_decision ds ''deniedConnectors'' = None \<and>
     last_decision ds ''allowedLicenses'' = map_option DStrs (fold_allowedLicenses s) \<and>
     last_decision ds ''filesystem.read'' = map_option DStrs (fold_filesystemRead s) \<and>
     last_decision ds ''filesystem.write'' = map_option DStrs (fold_filesystemWrite s) \<and>
     last_decision ds ''allowExperimental'' = Some (DBool (fold_allowExperimental s)) \<and>
     last_decision ds ''allowPaidServices'' = Some (DBool (fold_allowPaidServices s)) \<and>
     last_decision ds ''allowRemoteProjectContent'' = Some (DBool (fold_allowRemoteProjectContent s)) \<and>
     last_decision ds ''requireReducedMotion'' = Some (DBool (fold_requireReducedMotion s)) \<and>
     last_decision ds ''maxBundleKilobytes'' = map_option DNum (fold_maxBundleKilobytes s) \<and>
     last_decision ds ''requiredApprovals'' = (if fold_requiredApprovals s = [] then None
       else Some (DStrs (stableUnique (fold_requiredApprovals s)))))"

lemmas logged_defs = logged_def layer_decision_def connectors_field_def licenses_field_def
  read_field_def write_field_def hosts_field_def

lemma foldAllowlist_logged:
  assumes "foldAllowlist layer f k v chk acc = Inr acc'" and "logged acc"
    and "(f, k) \<in> {(''allowedConnectors'', connectors_field), (''allowedLicenses'', licenses_field),
      (''filesystem.read'', read_field), (''filesystem.write'', write_field),
      (''network.allowedHosts'', hosts_field)}"
  shows "logged acc'"
proof -
  obtain s ds where acc: "acc = (s, ds)" by (cases acc)
  have "acc' = acc \<or> (\<exists>code. acc' = (snd k (stableUnique v) s,
      ds @ [layer_decision layer f (DStrs (stableUnique v)) code]))"
    using assms(1) by (auto simp: foldAllowlist_def acc Let_def chain_eq_Inr
        split: if_splits option.splits)
  then show ?thesis
    using assms(2) assms(3) [simplified]
    by (elim disjE conjE exE) (simp_all add: logged_defs acc)
qed

lemma foldBool_logged:
  assumes "foldBool layer f k v t acc = Inr acc'" and "logged acc"
    and "(f, k) \<in> {
      (''allowExperimental'', (fold_allowExperimental, \<lambda>v. fold_allowExperimental_update (\<lambda>_. v))),
      (''allowPaidServices'', (fold_allowPaidServices, \<lambda>v. fold_allowPaidServices_update (\<lambda>_. v))),
      (''allowRemoteProjectContent'',
        (fold_allowRemoteProjectContent, \<lambda>v. fold_allowRemoteProjectContent_update (\<lambda>_. v))),
      (''requireReducedMotion'',
        (fold_requireReducedMotion, \<lambda>v. fold_requireReducedMotion_update (\<lambda>_. v)))}"
  shows "logged acc'"
proof -
  obtain s ds where acc: "acc = (s, ds)" by (cases acc)
  have "acc' = acc \<or> acc' = (snd k v s, ds @ [layer_decision layer f (DBool v) ''POLICY_TIGHTEN''])"
    using assms(1) by (auto simp: foldBool_def acc Let_def split: if_splits)
  then show ?thesis
    using assms(2) assms(3) [simplified]
    by (elim disjE conjE exE) (simp_all add: logged_defs acc)
qed

lemma foldDenied_logged: "foldDenied layer acc = Inr acc' \<Longrightarrow> logged acc \<Longrightarrow> logged acc'"
  by (cases acc; cases acc') (simp add: foldDenied_def logged_def)

lemma foldNetworkMode_logged:
  assumes "foldNetworkMode layer acc = Inr acc'" and "logged acc"
  shows "logged acc'"
proof -
  obtain s ds where acc: "acc = (s, ds)" by (cases acc)
  have "acc' = acc \<or> (\<exists>m v. acc' = (s\<lparr>fold_networkMode := m\<rparr>,
      ds @ [layer_decision layer ''network.mode'' v ''POLICY_TIGHTEN'']))"
    using assms(1) by (auto simp: foldNetworkMode_def acc Let_def split: if_splits)
  then show ?thesis using assms(2) by (elim disjE exE) (simp_all add: logged_defs acc)
qed

lemma foldAllowedHosts_logged:
  "foldAllowedHosts layer acc = Inr acc' \<Longrightarrow> logged acc \<Longrightarrow> logged acc'"
  by (simp add: foldAllowedHosts_def Let_def split: if_split_asm)
    (erule (1) foldAllowlist_logged, simp)

lemma foldMaxBundle_logged:
  assumes "foldMaxBundle layer acc = Inr acc'" and "logged acc"
  shows "logged acc'"
proof -
  obtain s ds where acc: "acc = (s, ds)" by (cases acc)
  let ?v = "layer_bundle (policy_rules (layer_document layer))"
  have "acc' = acc \<or> (\<exists>n. ?v = Some n \<and> acc' = (s\<lparr>fold_maxBundleKilobytes := Some n\<rparr>,
      ds @ [layer_decision layer ''maxBundleKilobytes'' (DNum n) ''POLICY_TIGHTEN'']))"
  proof (cases ?v)
    case None
    then show ?thesis using assms(1)
      by (cases "fold_maxBundleKilobytes s") (simp_all add: foldMaxBundle_def acc Let_def)
  next
    case (Some n)
    then show ?thesis using assms(1)
      by (cases "?v = fold_maxBundleKilobytes s"; cases "fold_maxBundleKilobytes s")
        (simp_all add: foldMaxBundle_def acc Let_def split: if_splits)
  qed
  then show ?thesis using assms(2) by (elim disjE exE conjE) (simp_all add: logged_defs acc)
qed

lemma set_add_grows: "length acc \<le> length (foldl set_add acc xs)"
proof (induction xs arbitrary: acc)
  case (Cons x xs)
  show ?case using Cons.IH [of "set_add acc x"] by (simp add: set_add_def split: if_splits)
qed simp

lemma set_add_same_length:
  "length (foldl set_add acc xs) \<le> length acc \<Longrightarrow> foldl set_add acc xs = acc"
proof (induction xs arbitrary: acc)
  case (Cons x xs)
  show ?case
  proof (cases "x \<in> set acc")
    case True
    then show ?thesis using Cons by (simp add: set_add_def [of acc x])
  next
    case False
    then show ?thesis using Cons.prems set_add_grows [of "acc @ [x]" xs] by (simp add: set_add_def [of acc x])
  qed
qed simp

lemma foldRequiredApprovals_logged:
  assumes "foldRequiredApprovals layer acc = Inr acc'" and "logged acc"
  shows "logged acc'"
proof -
  obtain s ds where acc: "acc = (s, ds)" by (cases acc)
  show ?thesis
  proof (cases "length (fold_requiredApprovals s) < length (foldl set_add (fold_requiredApprovals s)
        (rule_requiredApprovals (policy_rules (layer_document layer))))")
    case True
    then have "foldl set_add (fold_requiredApprovals s)
        (rule_requiredApprovals (policy_rules (layer_document layer))) \<noteq> []" by auto
    moreover have "acc' = (s\<lparr>fold_requiredApprovals := foldl set_add (fold_requiredApprovals s)
        (rule_requiredApprovals (policy_rules (layer_document layer)))\<rparr>,
        ds @ [layer_decision layer ''requiredApprovals'' (DStrs (stableUnique
          (foldl set_add (fold_requiredApprovals s)
            (rule_requiredApprovals (policy_rules (layer_document layer)))))) ''POLICY_TIGHTEN''])"
      using assms(1) True by (simp add: foldRequiredApprovals_def acc Let_def)
    ultimately show ?thesis using assms(2) by (simp add: logged_defs acc)
  next
    case False
    then show ?thesis
      using assms set_add_same_length [of "fold_requiredApprovals s"
          "rule_requiredApprovals (policy_rules (layer_document layer))"]
      by (simp add: foldRequiredApprovals_def acc Let_def)
  qed
qed

lemmas fold_logged = foldAllowlist_logged foldBool_logged foldDenied_logged foldNetworkMode_logged
  foldAllowedHosts_logged foldMaxBundle_logged foldRequiredApprovals_logged

lemma foldLayer_logged:
  assumes "foldLayer layer acc = Inr acc'" and "logged acc"
  shows "logged acc'"
proof -
  have step: "logged acc'" if "chain (f acc) g = Inr acc'" "logged acc"
    "\<And>a. f acc = Inr a \<Longrightarrow> logged a" "\<And>a. g a = Inr acc' \<Longrightarrow> logged a \<Longrightarrow> logged acc'"
    for f :: "fold_state \<times> policy_decision list \<Rightarrow> fold_result" and g acc
    using that by (auto simp: chain_eq_Inr)
  show ?thesis
  proof (cases "layer_scope layer = BuiltinScope")
    case True
    then show ?thesis using assms by (simp add: foldLayer_def)
  next
    case False
    show ?thesis
      using assms unfolding foldLayer_def Let_def if_not_P [OF False]
      by (elim step fold_logged; simp)
  qed
qed

text \<open>An entry of the effective rules is what the log last recorded, or empty and unrecorded.\<close>

definition list_explained :: "policy_decision list \<Rightarrow> string \<Rightarrow> string list \<Rightarrow> bool" where
  "list_explained ds f xs \<longleftrightarrow> last_decision ds f = Some (DStrs xs) \<or> last_decision ds f = None \<and> xs = []"

definition explains :: "policy_decision list \<Rightarrow> policy_rules \<Rightarrow> bool" where
  "explains ds eff \<longleftrightarrow>
     list_explained ds ''allowedConnectors'' (rule_allowedConnectors eff) \<and>
     list_explained ds ''allowedLicenses'' (rule_allowedLicenses eff) \<and>
     list_explained ds ''filesystem.read'' (fs_read (rule_filesystem eff)) \<and>
     list_explained ds ''filesystem.write'' (fs_write (rule_filesystem eff)) \<and>
     list_explained ds ''requiredApprovals'' (rule_requiredApprovals eff) \<and>
     last_decision ds ''allowExperimental'' = Some (DBool (rule_allowExperimental eff)) \<and>
     last_decision ds ''allowPaidServices'' = Some (DBool (rule_allowPaidServices eff)) \<and>
     last_decision ds ''allowRemoteProjectContent'' =
       Some (DBool (rule_allowRemoteProjectContent eff)) \<and>
     last_decision ds ''requireReducedMotion'' = Some (DBool (rule_requireReducedMotion eff)) \<and>
     last_decision ds ''maxBundleKilobytes'' = map_option DNum (layer_bundle eff)"

lemma logged_explains:
  assumes "logged (s, ds)"
  shows "explains (ds @ deny_decisions s) (effective_rules s) \<and>
    last_decision (ds @ deny_decisions s) ''deniedConnectors'' = None"
  using assms
  by (auto simp: logged_def explains_def list_explained_def effective_rules_def deny_decisions_def
      or_empty_def layer_bundle_def split: option.splits)

lemma baseline_logged: "logged (initial_state, baseline_decisions)"
  by (simp add: logged_def last_decision_def baseline_decisions_def builtin_decision_def
      initial_state_def BUILTIN_POLICY_def Let_def layer_bundle_def)

text \<open>
  The decision log explains the resolved policy: for every list, boolean and limit of the
  effective rules the last recorded decision carries exactly the effective value (a list without
  a decision is empty). The deny list is the one exception: no decision ever names
  \<open>deniedConnectors\<close>, although the documentation says every effective value is backed by one.
\<close>

theorem resolve_decisions_explain:
  assumes "resolve sha input = Inr r"
  shows "explains (resolved_decisions r) (resolved_effective r) \<and>
    last_decision (resolved_decisions r) ''deniedConnectors'' = None"
proof -
  obtain s ds where
    fold: "for_each foldLayer (policy_layers input) (initial_state, baseline_decisions) = Inr (s, ds)"
    and eff: "resolved_effective r = effective_rules s" "resolved_decisions r = ds @ deny_decisions s"
    using assms by (rule resolve_Inr)
  have "logged (s, ds)"
    using fold baseline_logged by (rule for_each_invariant) (rule foldLayer_logged)
  then show ?thesis using logged_explains by (simp add: eff)
qed

lemma resolve_decisions_explain_witness:
  "\<exists>r. resolve (\<lambda>_. replicate 64 CHR ''0'')
      (sample_layers (sample_rules [''motion'', ''gsap''] [] (Some 90))
        (sample_rules [''gsap''] [''motion''] (Some 40))) = Inr r \<and>
    ''motion'' \<in> set (rule_deniedConnectors (resolved_effective r)) \<and>
    last_decision (resolved_decisions r) ''deniedConnectors'' = None"
  using sample_resolves [of "\<lambda>_. replicate 64 CHR ''0''"] resolve_decisions_explain
    resolve_denied_run by metis

section \<open>Independence of presentation\<close>

text \<open>Two layers that differ only in the order and multiplicity of their lists.\<close>

definition same_rules :: "policy_rules \<Rightarrow> policy_rules \<Rightarrow> bool" where
  "same_rules r s \<longleftrightarrow> conforms r = conforms s \<and>
     set (rule_allowedConnectors r) = set (rule_allowedConnectors s) \<and>
     set (rule_deniedConnectors r) = set (rule_deniedConnectors s) \<and>
     set (rule_allowedLicenses r) = set (rule_allowedLicenses s) \<and>
     set (fs_read (rule_filesystem r)) = set (fs_read (rule_filesystem s)) \<and>
     set (fs_write (rule_filesystem r)) = set (fs_write (rule_filesystem s)) \<and>
     layer_bundle r = layer_bundle s \<and>
     set (rule_requiredApprovals r) = set (rule_requiredApprovals s)"

lemma within_cong: "set v = set w \<Longrightarrow> within A v = within A w"
  by (cases A) (auto simp: within_def)

lemma narrow_cong: "set v = set w \<Longrightarrow> narrow A v = narrow A w"
  by (auto simp: narrow_def)

lemma same_rules_step:
  assumes "same_rules r s"
  shows "admissible p r = admissible p s" and "tighten p r = tighten p s"
  using assms
  by (simp_all add: same_rules_def admissible_def tighten_def
      within_cong [of "rule_allowedConnectors r" "rule_allowedConnectors s"]
      within_cong [of "rule_allowedLicenses r" "rule_allowedLicenses s"]
      within_cong [of "fs_read (rule_filesystem r)" "fs_read (rule_filesystem s)"]
      within_cong [of "fs_write (rule_filesystem r)" "fs_write (rule_filesystem s)"]
      narrow_cong [of "rule_allowedConnectors r" "rule_allowedConnectors s"]
      narrow_cong [of "rule_allowedLicenses r" "rule_allowedLicenses s"]
      narrow_cong [of "fs_read (rule_filesystem r)" "fs_read (rule_filesystem s)"]
      narrow_cong [of "fs_write (rule_filesystem r)" "fs_write (rule_filesystem s)"])

lemma posture_of_same:
  "list_all2 same_rules rs ss \<Longrightarrow> posture_of p rs = posture_of p ss"
  by (induction arbitrary: p rule: list_all2_induct) (simp_all add: same_rules_step)

lemma resolve_document_effective:
  assumes "resolve sha a = Inr r" and "resolve sha b = Inr s"
    and "resolved_effective r = resolved_effective s"
  shows "resolved_document r = resolved_document s \<and> resolved_snapshotId r = resolved_snapshotId s"
proof -
  have "resolved_document r = (placeholder_document (resolved_effective r))\<lparr>policy_policyId :=
      ''resolved-'' @ digest_slice 8 (policy_digest sha (placeholder_document (resolved_effective r)))\<rparr> \<and>
      resolved_snapshotId r = policy_digest sha (resolved_document r)"
    if "resolve sha a = Inr r" for a r
    using that by (rule resolve_Inr) simp
  then show ?thesis using assms by metis
qed

text \<open>
  Resolution is equivalent for equivalent layers: if the layers of two inputs agree up to the
  order and repetition of the entries in their lists (and up to leaving the bundle limit out or
  writing null), then both resolutions fail or both succeed with the same effective rules, the
  same document and the same snapshot id.
\<close>

theorem resolve_presentation_independent:
  assumes "list_all2 same_rules (layer_rules (policy_layers a)) (layer_rules (policy_layers b))"
  shows "(\<exists>e f. resolve sha a = Inl e \<and> resolve sha b = Inl f) \<or>
    (\<exists>r s. resolve sha a = Inr r \<and> resolve sha b = Inr s \<and>
      resolved_effective r = resolved_effective s \<and> resolved_document r = resolved_document s \<and>
      resolved_snapshotId r = resolved_snapshotId s)"
proof -
  have same: "(case resolve sha a of Inl e \<Rightarrow> None | Inr r \<Rightarrow> Some (resolved_effective r)) =
      (case resolve sha b of Inl e \<Rightarrow> None | Inr r \<Rightarrow> Some (resolved_effective r))"
    unfolding resolve_abstraction posture_of_same [OF assms] ..
  show ?thesis
  proof (cases "resolve sha a")
    case (Inl e)
    then show ?thesis using same by (cases "resolve sha b") simp_all
  next
    case a: (Inr r)
    then obtain s where b: "resolve sha b = Inr s" and "resolved_effective r = resolved_effective s"
      using same by (cases "resolve sha b") simp_all
    then show ?thesis using resolve_document_effective [OF a b] a by simp
  qed
qed

lemma resolve_presentation_independent_witness:
  "\<exists>r s. resolve (\<lambda>_. replicate 64 CHR ''0'')
      (sample_layers (sample_rules [''motion'', ''gsap''] [] (Some 90))
        (sample_rules [''gsap''] [''motion''] (Some 40))) = Inr r \<and>
    resolve (\<lambda>_. replicate 64 CHR ''0'')
      (sample_layers (sample_rules [''gsap'', ''motion'', ''gsap''] [] (Some 90))
        (sample_rules [''gsap''] [''motion''] (Some 40))) = Inr s \<and>
    resolved_snapshotId r = resolved_snapshotId s"
proof -
  let ?sha = "\<lambda>_ :: string. replicate 64 CHR ''0''" and ?run = "sample_rules [''gsap''] [''motion''] (Some 40)"
  let ?a = "sample_layers (sample_rules [''motion'', ''gsap''] [] (Some 90)) ?run"
    and ?b = "sample_layers (sample_rules [''gsap'', ''motion'', ''gsap''] [] (Some 90)) ?run"
  have "list_all2 same_rules (layer_rules (policy_layers ?a)) (layer_rules (policy_layers ?b))"
    by (auto simp: sample_layers_def sample_rules_def policy_layers_def layer_rules_def
        same_rules_def conforms_def layer_bundle_def)
  then show ?thesis
    using resolve_presentation_independent [of ?a ?b ?sha] sample_resolves [of ?sha] by auto
qed

end
