(* ===== verification/Context_Gateway.thy ===== *)
theory Context_Gateway
  imports Js_String Contracts_Validation
begin

text \<open>
  \<open>packages/core/src/context-gateway.ts\<close> and \<open>protocol-negotiation.ts\<close>: tool inventories and
  their digest, the selection of reviewed context sources, and the negotiation of a protocol
  version between a provider's inventory and a caller.

  The collation \<open>lc\<close>, the hash \<open>sha\<close> and \<open>Date.parse\<close> (\<open>parse\<close>, \<open>None\<close> for NaN) are arguments:
  the first and the last belong to the host, whose \<open>Date.parse\<close> may accept more than ISO strings.
\<close>

section \<open>Types\<close>

datatype context_category = ApiContext | OwnershipContext | RecipeContext | VerificationContext

fun context_category_name :: "context_category \<Rightarrow> string" where
  "context_category_name ApiContext = ''api''"
| "context_category_name OwnershipContext = ''ownership''"
| "context_category_name RecipeContext = ''recipe''"
| "context_category_name VerificationContext = ''verification''"

record source_record =
  source_id :: string
  source_connectorId :: string
  source_category :: context_category
  source_origin :: string
  source_content :: string
  source_digest :: string
  source_expiresAt :: string
  source_reviewed :: bool

record context_request =
  ctx_requestId :: string
  ctx_connectorIds :: "string list"
  ctx_categories :: "context_category list"
  ctx_maxItems :: int
  ctx_now :: string

record selected_context =
  sel_sourceId :: string
  sel_connectorId :: string
  sel_category :: context_category
  sel_origin :: string
  sel_digest :: string
  sel_content :: string

record tool_definition =
  tool_id :: string
  tool_description :: string
  tool_readOnly :: bool
  tool_exposesProjectContent :: bool
  tool_inputSchema :: "json option"
  tool_outputSchema :: "json option"

record tool_inventory =
  inv_providerId :: string
  inv_protocolVersions :: "string list"
  inv_extensions :: "string list option"
  inv_tools :: "tool_definition list"

record protocol_negotiation =
  neg_providerId :: string
  neg_inventoryDigest :: string
  neg_protocolVersion :: string
  neg_extensions :: "string list"
  neg_issuedAt :: string
  neg_expiresAt :: string
  neg_digest :: string

section \<open>The inventory digest\<close>

definition or_nil :: "'a list option \<Rightarrow> 'a list" where
  "or_nil v = (case v of None \<Rightarrow> [] | Some xs \<Rightarrow> xs)"

text \<open>\<open>[...new Set(values)].sort((l, r) => l.localeCompare(r))\<close>.\<close>

definition unique_sorted :: "(string \<Rightarrow> string \<Rightarrow> int) \<Rightarrow> string list \<Rightarrow> string list" where
  "unique_sorted lc values = js_sort lc (js_set values)"

definition or_null :: "json option \<Rightarrow> json" where
  "or_null v = (case v of None \<Rightarrow> JNull | Some j \<Rightarrow> j)"

definition tool_json :: "tool_definition \<Rightarrow> json" where
  "tool_json tool = JObj
     [(''id'', JStr (tool_id tool)), (''description'', JStr (tool_description tool)),
      (''readOnly'', JBool (tool_readOnly tool)),
      (''exposesProjectContent'', JBool (tool_exposesProjectContent tool)),
      (''inputSchema'', or_null (tool_inputSchema tool)),
      (''outputSchema'', or_null (tool_outputSchema tool))]"

definition inventory_json :: "(string \<Rightarrow> string \<Rightarrow> int) \<Rightarrow> tool_inventory \<Rightarrow> json" where
  "inventory_json lc inventory = JObj
     [(''providerId'', JStr (inv_providerId inventory)),
      (''protocolVersions'', strs_json (unique_sorted lc (inv_protocolVersions inventory))),
      (''extensions'', strs_json (unique_sorted lc (or_nil (inv_extensions inventory)))),
      (''tools'', JArr (map tool_json (js_sort (cmp_by lc tool_id) (inv_tools inventory))))]"

definition inventoryDigest :: "(string \<Rightarrow> string \<Rightarrow> int) \<Rightarrow> (string \<Rightarrow> string) \<Rightarrow>
    tool_inventory \<Rightarrow> string result" where
  "inventoryDigest lc sha inventory = digestJson sha (inventory_json lc inventory)"

section \<open>Selecting context sources\<close>

definition context_key :: "source_record \<Rightarrow> string" where
  "context_key s = source_connectorId s @ [CHR 0x00] @
     context_category_name (source_category s) @ [CHR 0x00] @ source_id s"

text \<open>The body of the \<open>filter\<close> callback, which throws on a stale or altered source.\<close>

definition keep_source :: "(string \<Rightarrow> string) \<Rightarrow> context_request \<Rightarrow> source_record \<Rightarrow>
    source_record list \<Rightarrow> source_record list result" where
  "keep_source sha request source kept =
     (if \<not> source_reviewed source \<or> source_connectorId source \<notin> set (ctx_connectorIds request) \<or>
         source_category source \<notin> set (ctx_categories request) then Inr kept
      else if source_expiresAt source \<le> ctx_now request
      then Inl (TypeError (''Source stale: '' @ source_id source @ ''.''))
      else if sha256Bytes sha (source_content source) \<noteq> source_digest source
      then Inl (TypeError (''Source digest mismatch: '' @ source_id source @ ''.''))
      else Inr (kept @ [source]))"

definition selected_of :: "source_record \<Rightarrow> selected_context" where
  "selected_of s = \<lparr>sel_sourceId = source_id s, sel_connectorId = source_connectorId s,
     sel_category = source_category s, sel_origin = source_origin s, sel_digest = source_digest s,
     sel_content = source_content s\<rparr>"

definition selectContext :: "(string \<Rightarrow> string \<Rightarrow> int) \<Rightarrow> (string \<Rightarrow> string) \<Rightarrow> context_request \<Rightarrow>
    source_record list \<Rightarrow> selected_context list result" where
  "selectContext lc sha request sources =
     chain (guard (ctx_maxItems request < 0)
       (TypeError ''maxItems must be a non-negative integer.''))
     (\<lambda>_. chain (for_each (keep_source sha request) sources [])
     (\<lambda>kept. Inr (map selected_of
        (take (nat (ctx_maxItems request)) (js_sort (cmp_by lc context_key) kept)))))"

section \<open>Validating an inventory\<close>

definition blank :: "string \<Rightarrow> bool" where
  "blank s \<longleftrightarrow> js_trim s = []"

definition nonEmpty :: "string \<Rightarrow> string \<Rightarrow> unit result" where
  "nonEmpty value name = guard (blank value) (TypeError (name @ '' must be non-empty.''))"

text \<open>\<open>/^\d{4}-\d{2}-\d{2}$/\<close>.\<close>

definition dateVersion :: "string \<Rightarrow> bool" where
  "dateVersion s \<longleftrightarrow> length s = 10 \<and> s ! 4 = CHR ''-'' \<and> s ! 7 = CHR ''-'' \<and>
     list_all is_digit (take 4 s) \<and> list_all is_digit (take 2 (drop 5 s)) \<and>
     list_all is_digit (drop 8 s)"

definition validVersion :: "(string \<Rightarrow> int option) \<Rightarrow> string \<Rightarrow> unit result" where
  "validVersion parse value = chain (nonEmpty value ''protocol version'')
     (\<lambda>_. guard (\<not> dateVersion value \<or> parse (value @ ''T00:00:00.000Z'') = None)
        (TypeError ''Invalid protocol version.''))"

definition validTime :: "(string \<Rightarrow> int option) \<Rightarrow> string \<Rightarrow> string \<Rightarrow> int result" where
  "validTime parse value name = chain (nonEmpty value name)
     (\<lambda>_. case parse value of
        None \<Rightarrow> Inl (TypeError (name @ '' must be a valid timestamp.''))
      | Some t \<Rightarrow> Inr t)"

text \<open>A failing \<open>validate\<close> is caught and rethrown under the name of the field.\<close>

definition normalized :: "(string \<Rightarrow> string \<Rightarrow> int) \<Rightarrow> string list \<Rightarrow> string \<Rightarrow>
    (string \<Rightarrow> unit result) \<Rightarrow> string list result" where
  "normalized lc values name validate =
     chain (for_each (\<lambda>value _. case validate value of
         Inl _ \<Rightarrow> Inl (TypeError (''Invalid '' @ name @ ''.''))
       | Inr _ \<Rightarrow> Inr ()) values ())
     (\<lambda>_. Inr (unique_sorted lc values))"

definition check_tool :: "tool_definition \<Rightarrow> string list \<Rightarrow> string list result" where
  "check_tool tool toolIds =
     chain (nonEmpty (tool_id tool) ''tool id'')
     (\<lambda>_. chain (guard (tool_id tool \<in> set toolIds)
        (TypeError ''Tool inventory has duplicate tool IDs.''))
     (\<lambda>_. chain (nonEmpty (tool_description tool) ''tool description'')
     (\<lambda>_. Inr (set_add toolIds (tool_id tool)))))"

definition validateInventory :: "(string \<Rightarrow> string \<Rightarrow> int) \<Rightarrow> (string \<Rightarrow> int option) \<Rightarrow>
    tool_inventory \<Rightarrow> unit result" where
  "validateInventory lc parse inventory =
     chain (nonEmpty (inv_providerId inventory) ''providerId'')
     (\<lambda>_. chain (guard (inv_protocolVersions inventory = [])
        (TypeError ''Tool inventory must provide protocol versions.''))
     (\<lambda>_. chain (normalized lc (inv_protocolVersions inventory) ''protocol version''
        (validVersion parse))
     (\<lambda>_. chain (normalized lc (or_nil (inv_extensions inventory)) ''extension''
        (\<lambda>value. nonEmpty value ''extension''))
     (\<lambda>_. chain (for_each check_tool (inv_tools inventory) [])
     (\<lambda>_. Inr ())))))"

section \<open>Negotiation\<close>

definition negotiation_json :: "string \<Rightarrow> string \<Rightarrow> string \<Rightarrow> string list \<Rightarrow> string \<Rightarrow> string \<Rightarrow>
    json" where
  "negotiation_json providerId digest protocolVersion extensions issuedAt expiresAt = JObj
     [(''providerId'', JStr providerId), (''inventoryDigest'', JStr digest),
      (''protocolVersion'', JStr protocolVersion), (''extensions'', strs_json extensions),
      (''issuedAt'', JStr issuedAt), (''expiresAt'', JStr expiresAt)]"

text \<open>The common versions, the greatest first.\<close>

definition common_versions :: "(string \<Rightarrow> string \<Rightarrow> int) \<Rightarrow> string list \<Rightarrow> string list \<Rightarrow>
    string list" where
  "common_versions lc providerVersions accepted =
     js_sort (\<lambda>left right. lc right left) (filter (\<lambda>v. v \<in> set accepted) providerVersions)"

definition negotiateProtocol :: "(string \<Rightarrow> string \<Rightarrow> int) \<Rightarrow> (string \<Rightarrow> int option) \<Rightarrow>
    (string \<Rightarrow> string) \<Rightarrow> tool_inventory \<Rightarrow> string list \<Rightarrow> string list \<Rightarrow> string \<Rightarrow> string \<Rightarrow>
    protocol_negotiation result" where
  "negotiateProtocol lc parse sha inventory callerVersions requiredExtensions issuedAt expiresAt =
     chain (validateInventory lc parse inventory)
     (\<lambda>_. chain (validTime parse issuedAt ''issuedAt'')
     (\<lambda>issued. chain (validTime parse expiresAt ''expiresAt'')
     (\<lambda>expires. chain (guard (expires \<le> issued)
        (TypeError ''Protocol negotiation expires before issuance.''))
     (\<lambda>_. chain (normalized lc (inv_protocolVersions inventory) ''protocol version''
        (validVersion parse))
     (\<lambda>providerVersions. chain (normalized lc callerVersions ''protocol version''
        (validVersion parse))
     (\<lambda>acceptedVersions.
        (case common_versions lc providerVersions acceptedVersions of
           [] \<Rightarrow> Inl (TypeError ''No compatible protocol version.'')
         | protocolVersion # _ \<Rightarrow>
             chain (normalized lc requiredExtensions ''extension''
               (\<lambda>value. nonEmpty value ''extension''))
             (\<lambda>extensions. chain (for_each (\<lambda>extension _.
                 guard (extension \<notin> set (or_nil (inv_extensions inventory)))
                   (TypeError ''Required extension is not supported.'')) extensions ())
             (\<lambda>_. chain (inventoryDigest lc sha inventory)
             (\<lambda>digest. chain (digestJson sha (negotiation_json (inv_providerId inventory) digest
                 protocolVersion extensions issuedAt expiresAt))
             (\<lambda>negotiated. Inr \<lparr>neg_providerId = inv_providerId inventory,
                neg_inventoryDigest = digest, neg_protocolVersion = protocolVersion,
                neg_extensions = extensions, neg_issuedAt = issuedAt, neg_expiresAt = expiresAt,
                neg_digest = negotiated\<rparr>)))))))))))"

section \<open>Lemmas\<close>

lemma set_unique_sorted [simp]: "set (unique_sorted lc xs) = set xs"
  by (simp add: unique_sorted_def)

lemma distinct_unique_sorted [simp]: "distinct (unique_sorted lc xs)"
  by (simp add: unique_sorted_def)

lemma unique_sorted_eq_Nil [simp]: "unique_sorted lc xs = [] \<longleftrightarrow> xs = []"
  by (simp add: unique_sorted_def)

text \<open>A loop that only checks its elements.\<close>

lemma for_each_check:
  "for_each (\<lambda>x _. f x) xs () = Inr u \<longleftrightarrow> (\<forall>x \<in> set xs. f x = Inr ())"
  by (induction xs) (auto simp: chain_eq_Inr)

lemma for_each_guard:
  "for_each (\<lambda>x _. guard (P x) (e x)) xs () = Inr u \<longleftrightarrow> (\<forall>x \<in> set xs. \<not> P x)"
  by (simp add: for_each_check [of "\<lambda>x. guard (P x) (e x)"])

lemma normalized_Inr:
  "normalized lc xs name v = Inr ys \<longleftrightarrow> (\<forall>x \<in> set xs. v x = Inr ()) \<and> ys = unique_sorted lc xs"
proof -
  have "(case v x of Inl _ \<Rightarrow> Inl e | Inr _ \<Rightarrow> Inr ()) = Inr () \<longleftrightarrow> v x = Inr ()" for x and e :: exn
    by (cases "v x") simp_all
  then show ?thesis
    by (auto simp: normalized_def chain_eq_Inr
        for_each_check [of "\<lambda>x. case v x of Inl _ \<Rightarrow> Inl (TypeError (''Invalid '' @ name @ ''.''))
          | Inr _ \<Rightarrow> Inr ()"])
qed

lemma nonEmpty_Inr [simp]: "nonEmpty s name = Inr u \<longleftrightarrow> \<not> blank s"
  by (simp add: nonEmpty_def)

lemma validTime_Inr [simp]: "validTime parse s name = Inr t \<longleftrightarrow> \<not> blank s \<and> parse s = Some t"
  by (auto simp: validTime_def chain_eq_Inr split: option.splits)

lemma check_tools_Inr:
  "for_each check_tool tools ids = Inr ids' \<Longrightarrow> distinct ids \<Longrightarrow>
     distinct (map tool_id tools) \<and> set (map tool_id tools) \<inter> set ids = {} \<and>
     (\<forall>t \<in> set tools. \<not> blank (tool_id t) \<and> \<not> blank (tool_description t))"
proof (induction tools arbitrary: ids)
  case (Cons t tools)
  then have t: "\<not> blank (tool_id t)" "tool_id t \<notin> set ids" "\<not> blank (tool_description t)"
    "for_each check_tool tools (set_add ids (tool_id t)) = Inr ids'"
    by (auto simp: check_tool_def [of t ids] chain_eq_Inr)
  then show ?case using Cons.IH [OF t(4)] Cons.prems(2) by auto
qed simp

text \<open>An accepted inventory names each tool once.\<close>

lemma validateInventory_Inr:
  assumes "validateInventory lc parse i = Inr u"
  shows "distinct (map tool_id (inv_tools i)) \<and> inv_protocolVersions i \<noteq> [] \<and>
    \<not> blank (inv_providerId i)"
proof -
  obtain ids where "for_each check_tool (inv_tools i) [] = Inr ids"
    and "inv_protocolVersions i \<noteq> []" "\<not> blank (inv_providerId i)"
    using assms by (auto simp: validateInventory_def chain_eq_Inr)
  then show ?thesis using check_tools_Inr [of "inv_tools i" "[]" ids] by simp
qed

section \<open>Properties\<close>

lemma keep_sources_Inr:
  assumes "for_each (keep_source sha request) sources kept = Inr kept'"
  shows "set kept' \<subseteq> set kept \<union> {s \<in> set sources. source_reviewed s \<and>
    source_connectorId s \<in> set (ctx_connectorIds request) \<and>
    source_category s \<in> set (ctx_categories request) \<and> ctx_now request < source_expiresAt s \<and>
    sha256Bytes sha (source_content s) = source_digest s}"
  using assms
proof (induction sources arbitrary: kept)
  case (Cons s sources)
  then obtain mid where "keep_source sha request s kept = Inr mid"
    "for_each (keep_source sha request) sources mid = Inr kept'"
    by (auto simp: chain_eq_Inr)
  then show ?case using Cons.IH [of mid]
    by (auto simp: keep_source_def [of sha request s kept] not_le split: if_splits)
qed simp

lemma comparator_flip: "comparator lc \<Longrightarrow> comparator (\<lambda>x y. lc y x)"
  unfolding comparator_def by (metis sgn_minus minus_equation_iff)

text \<open>
  Context selection only ever releases reviewed sources. Everything selected comes from a
  source that is reviewed, belongs to a requested connector and category, has not expired at the
  time of the request and whose content still has the recorded digest; at most \<open>maxItems\<close> items
  are returned, in the order of connector, category and id.
\<close>

theorem selectContext_releases:
  assumes "selectContext lc sha request sources = Inr out" and "collation lc"
  shows "int (length out) \<le> ctx_maxItems request \<and>
    (\<forall>c \<in> set out. \<exists>s \<in> set sources. c = selected_of s \<and> source_reviewed s \<and>
      source_connectorId s \<in> set (ctx_connectorIds request) \<and>
      source_category s \<in> set (ctx_categories request) \<and>
      ctx_now request < source_expiresAt s \<and>
      sha256Bytes sha (source_content s) = source_digest s) \<and>
    (\<exists>chosen. out = map selected_of chosen \<and>
      sorted_wrt (\<lambda>s t. lc (context_key s) (context_key t) \<le> 0) chosen)"
proof -
  obtain kept where kept: "for_each (keep_source sha request) sources [] = Inr kept"
    and out: "out = map selected_of (take (nat (ctx_maxItems request))
      (js_sort (cmp_by lc context_key) kept))" and max: "0 \<le> ctx_maxItems request"
    using assms(1) by (auto simp: selectContext_def chain_eq_Inr)
  have cmp: "comparator (cmp_by lc context_key)"
    using assms(2) unfolding collation_def by (rule comparator_by)
  have "sorted_wrt (\<lambda>s t. lc (context_key s) (context_key t) \<le> 0)
      (take (nat (ctx_maxItems request)) (js_sort (cmp_by lc context_key) kept))"
    using comparator.sorted_js_sort [OF cmp, of kept] by (simp add: cmp_by_def sorted_wrt_take)
  moreover have "set (take (nat (ctx_maxItems request)) (js_sort (cmp_by lc context_key) kept))
      \<subseteq> set kept"
    using set_take_subset [of "nat (ctx_maxItems request)"] by fastforce
  moreover have "int (length out) \<le> ctx_maxItems request" using max by (simp add: out)
  ultimately show ?thesis using keep_sources_Inr [OF kept] unfolding out by fastforce
qed

definition sample_source :: "string \<Rightarrow> bool \<Rightarrow> source_record" where
  "sample_source n reviewed = \<lparr>source_id = n, source_connectorId = ''motion'',
     source_category = ApiContext, source_origin = ''docs'', source_content = n,
     source_digest = ''sha256:'' @ n, source_expiresAt = ''2030'', source_reviewed = reviewed\<rparr>"

definition sample_context_request :: context_request where
  "sample_context_request = \<lparr>ctx_requestId = ''r'', ctx_connectorIds = [''motion''],
     ctx_categories = [ApiContext], ctx_maxItems = 1, ctx_now = ''2026''\<rparr>"

lemma selectContext_releases_witness:
  "\<exists>out. selectContext code_unit_compare (\<lambda>s. s) sample_context_request
      [sample_source ''b'' True, sample_source ''x'' False, sample_source ''a'' True] = Inr out \<and>
    out = [selected_of (sample_source ''a'' True)] \<and> int (length out) \<le> 1"
proof -
  let ?sources = "[sample_source ''b'' True, sample_source ''x'' False, sample_source ''a'' True]"
  have run: "selectContext code_unit_compare (\<lambda>s. s) sample_context_request ?sources =
      Inr [selected_of (sample_source ''a'' True)]"
    by (simp add: selectContext_def keep_source_def sample_source_def sample_context_request_def
        sha256Bytes_def cmp_by_def code_unit_compare_def order_compare_def context_key_def
        less_char_def)
  then show ?thesis
    using selectContext_releases [OF run code_units.collation_axioms]
    by (simp add: sample_context_request_def)
qed

text \<open>
  A negotiated protocol is agreed by both sides and is the best such: its version is offered
  by the provider and accepted by the caller, no common version collates after it, exactly the
  required extensions are granted and the provider supports all of them, it expires after it was
  issued, and its two digests are those of the inventory and of the negotiated values.
\<close>

theorem negotiateProtocol_sound:
  assumes "negotiateProtocol lc parse sha inventory callers required issuedAt expiresAt = Inr n"
    and "collation lc"
  shows "neg_protocolVersion n \<in> set (inv_protocolVersions inventory) \<inter> set callers \<and>
    (\<forall>v \<in> set (inv_protocolVersions inventory) \<inter> set callers. lc v (neg_protocolVersion n) \<le> 0) \<and>
    set (neg_extensions n) = set required \<and>
    set required \<subseteq> set (or_nil (inv_extensions inventory)) \<and>
    (\<exists>issued expires. parse issuedAt = Some issued \<and> parse expiresAt = Some expires \<and>
      issued < expires) \<and>
    inventoryDigest lc sha inventory = Inr (neg_inventoryDigest n) \<and>
    digestJson sha (negotiation_json (neg_providerId n) (neg_inventoryDigest n)
      (neg_protocolVersion n) (neg_extensions n) (neg_issuedAt n) (neg_expiresAt n)) =
      Inr (neg_digest n)"
proof -
  have cmp: "comparator (\<lambda>x y. lc y x)"
    using assms(2) unfolding collation_def by (rule comparator_flip)
  obtain version rest where common: "common_versions lc (unique_sorted lc (inv_protocolVersions inventory))
      (unique_sorted lc callers) = version # rest" and version: "neg_protocolVersion n = version"
    and rest: "set (neg_extensions n) = set required \<and>
    set required \<subseteq> set (or_nil (inv_extensions inventory)) \<and>
    (\<exists>issued expires. parse issuedAt = Some issued \<and> parse expiresAt = Some expires \<and>
      issued < expires) \<and>
    inventoryDigest lc sha inventory = Inr (neg_inventoryDigest n) \<and>
    digestJson sha (negotiation_json (neg_providerId n) (neg_inventoryDigest n)
      (neg_protocolVersion n) (neg_extensions n) (neg_issuedAt n) (neg_expiresAt n)) =
      Inr (neg_digest n)"
    using assms(1)
    by (auto simp: negotiateProtocol_def chain_eq_Inr normalized_Inr for_each_guard not_le
        subset_code(1) split: list.splits)
  have "version \<in> set (version # rest)" by simp
  then have "version \<in> set (inv_protocolVersions inventory) \<inter> set callers"
    unfolding common [symmetric] by (simp add: common_versions_def)
  moreover have "lc v version \<le> 0"
    if "v \<in> set (inv_protocolVersions inventory) \<inter> set callers" for v
    using comparator.hd_js_sort_least [OF cmp common [unfolded common_versions_def], of v] that
    by simp
  ultimately show ?thesis using rest by (simp add: version)
qed

definition sample_tool :: "string \<Rightarrow> bool \<Rightarrow> tool_definition" where
  "sample_tool n ro = \<lparr>tool_id = n, tool_description = ''d'', tool_readOnly = ro,
     tool_exposesProjectContent = False, tool_inputSchema = None, tool_outputSchema = None\<rparr>"

definition sample_inventory :: tool_inventory where
  "sample_inventory = \<lparr>inv_providerId = ''p'',
     inv_protocolVersions = [''2025-01-01'', ''2026-01-01'', ''2026-06-01''],
     inv_extensions = Some [''x''], inv_tools = [sample_tool ''t'' True, sample_tool ''w'' False]\<rparr>"

text \<open>A clock that reads the number of characters, for concrete runs.\<close>

definition length_clock :: "string \<Rightarrow> int option" where
  "length_clock s = Some (int (length s))"

lemma unique_sorted_single [simp]: "unique_sorted lc [x] = [x]"
  by (simp add: unique_sorted_def js_set_def set_add_def)

lemma blank_Cons: "\<not> js_white c \<Longrightarrow> \<not> blank (c # s)"
  by (auto simp: blank_def js_trim_def dropWhile_eq_Nil_conv)

lemma sample_versions:
  "normalized code_unit_compare [''2025-01-01'', ''2026-01-01'', ''2026-06-01'']
    ''protocol version'' (validVersion length_clock) =
    Inr (unique_sorted code_unit_compare [''2025-01-01'', ''2026-01-01'', ''2026-06-01''])"
  "normalized code_unit_compare [''2026-01-01'', ''2025-01-01'']
    ''protocol version'' (validVersion length_clock) =
    Inr (unique_sorted code_unit_compare [''2026-01-01'', ''2025-01-01''])"
  by (simp_all add: normalized_Inr validVersion_def chain_eq_Inr blank_Cons
      js_white_def dateVersion_def is_digit_def length_clock_def numeral_eq_Suc)

lemma sample_inventory_valid:
  "validateInventory code_unit_compare length_clock sample_inventory = Inr ()"
  by (simp add: validateInventory_def sample_inventory_def sample_versions chain_eq_Inr or_nil_def
      normalized_Inr check_tool_def sample_tool_def blank_Cons js_white_def)

lemma sample_inventory_digest:
  "inventoryDigest code_unit_compare (\<lambda>s. s) sample_inventory =
    Inr (json_digest (\<lambda>s. s) (inventory_json code_unit_compare sample_inventory))"
  unfolding inventoryDigest_def
  by (rule digestJson_finite) (auto simp: inventory_json_def tool_json_def sample_inventory_def
      sample_tool_def or_null_def)

lemma negotiateProtocol_sound_witness:
  "\<exists>n. negotiateProtocol code_unit_compare length_clock (\<lambda>s. s) sample_inventory
      [''2026-01-01'', ''2025-01-01''] [''x''] ''t'' ''tt'' = Inr n \<and>
    neg_protocolVersion n = ''2026-01-01'' \<and> set (neg_extensions n) = {''x''}"
proof -
  have times: "validTime length_clock ''t'' ''issuedAt'' = Inr 1"
    "validTime length_clock ''tt'' ''expiresAt'' = Inr 2"
    by (simp_all add: length_clock_def blank_Cons js_white_def)
  have ext: "normalized code_unit_compare [''x''] ''extension'' (\<lambda>value. nonEmpty value ''extension'') =
      Inr [''x'']"
    by (simp add: normalized_Inr blank_Cons js_white_def)
  have versions: "common_versions code_unit_compare
      (unique_sorted code_unit_compare [''2025-01-01'', ''2026-01-01'', ''2026-06-01''])
      (unique_sorted code_unit_compare [''2026-01-01'', ''2025-01-01'']) =
      [''2026-01-01'', ''2025-01-01'']"
    by (simp add: common_versions_def unique_sorted_def js_set_def set_add_def
        code_unit_compare_def order_compare_def less_char_def)
  have negotiated: "digestJson sha (negotiation_json p d v es i e) =
      Inr (json_digest sha (negotiation_json p d v es i e))" for sha p d v es i e
    by (rule digestJson_finite) (simp add: negotiation_json_def)
  obtain n where n: "negotiateProtocol code_unit_compare length_clock (\<lambda>s. s) sample_inventory
      [''2026-01-01'', ''2025-01-01''] [''x''] ''t'' ''tt'' = Inr n"
    and version: "neg_protocolVersion n = ''2026-01-01''"
    unfolding negotiateProtocol_def sample_inventory_valid chain_simps times sample_versions
      sample_inventory_digest
    by (simp add: sample_inventory_def sample_versions versions ext or_nil_def negotiated)
  show ?thesis
    using n version negotiateProtocol_sound [OF n code_units.collation_axioms] by simp
qed

end
