(* ===== verification/Run_Grants.thy ===== *)
theory Run_Grants
  imports Context_Gateway
begin

text \<open>
  \<open>packages/core/src/run-grants.ts\<close>, first part: the records of run grants and the in-memory
  repository that counts calls and response bytes against their quotas. A JavaScript \<open>Map\<close> is an
  association list; an operation returns the exception it throws or its value and the new state
  (no operation writes before its last check, so a throw leaves the state as it was).

  Numbers are \<open>int\<close>: the guards of the code reject what is not a safe integer, and the invariant
  below shows that every counter stays within the safe integers, where the arithmetic of doubles
  is exact. \<open>Object.freeze\<close> has no counterpart. The clock arithmetic uses \<open>Date.parse\<close>, an
  argument as in \<open>Context_Gateway\<close>.
\<close>

section \<open>Types\<close>

datatype run_grant_state = GrantActive | GrantRevoked | GrantExpired | GrantConsumed | GrantExhausted

record run_grant =
  handle_id :: string
  handle_token :: string

record run_grant_request =
  rgr_runId :: string
  rgr_providerId :: string
  rgr_toolIds :: "string list"
  rgr_inventoryDigest :: string
  rgr_protocolVersion :: string
  rgr_extensions :: "string list"
  rgr_issuedAt :: string
  rgr_expiresAt :: string
  rgr_maxCalls :: int
  rgr_maxResponseBytes :: int
  rgr_maxTotalResponseBytes :: int

record stored_run_grant =
  grant_id :: string
  grant_issuerId :: string
  grant_tokenHash :: string
  grant_runId :: string
  grant_providerId :: string
  grant_toolIds :: "string list"
  grant_inventoryDigest :: string
  grant_protocolVersion :: string
  grant_extensions :: "string list"
  grant_issuedAt :: string
  grant_expiresAt :: string
  grant_maxCalls :: int
  grant_maxResponseBytes :: int
  grant_maxTotalResponseBytes :: int
  grant_callsUsed :: int
  grant_responseBytesUsed :: int
  grant_reservedCalls :: int
  grant_reservedResponseBytes :: int
  grant_state :: run_grant_state
  grant_revision :: int

record call_reservation =
  rsv_id :: string
  rsv_grantId :: string
  rsv_issuerId :: string
  rsv_revision :: int
  rsv_maxResponseBytes :: int

record memory_repository =
  mem_records :: "(string \<times> stored_run_grant) list"
  mem_reservations :: "(string \<times> call_reservation) list"

section \<open>Checks\<close>

definition requireText :: "string \<Rightarrow> string \<Rightarrow> unit result" where
  "requireText value name = guard (blank value) (TypeError (name @ '' must be a non-empty string.''))"

definition parseTime :: "(string \<Rightarrow> int option) \<Rightarrow> string \<Rightarrow> string \<Rightarrow> int result" where
  "parseTime parse value name = chain (requireText value name)
     (\<lambda>_. case parse value of
        None \<Rightarrow> Inl (TypeError (name @ '' must be a valid timestamp.''))
      | Some t \<Rightarrow> Inr t)"

definition safePositive :: "int \<Rightarrow> string \<Rightarrow> unit result" where
  "safePositive value name = guard (\<not> isSafeInteger value \<or> value \<le> 0)
     (TypeError (name @ '' must be a positive safe integer.''))"

definition safeNonNegative :: "int \<Rightarrow> string \<Rightarrow> unit result" where
  "safeNonNegative value name = guard (\<not> isSafeInteger value \<or> value < 0)
     (TypeError (name @ '' must be a non-negative safe integer.''))"

definition normalizedStrings :: "(string \<Rightarrow> string \<Rightarrow> int) \<Rightarrow> string list \<Rightarrow> string \<Rightarrow>
    string list result" where
  "normalizedStrings lc values name =
     chain (for_each (\<lambda>value _. requireText value name) values ())
       (\<lambda>_. Inr (unique_sorted lc values))"

text \<open>\<open>createHash("sha256").update(token, "utf8").digest("hex")\<close>, the hash being an argument.\<close>

definition tokenHash :: "(string \<Rightarrow> string) \<Rightarrow> string \<Rightarrow> string" where
  "tokenHash sha token = sha token"

text \<open>\<open>Buffer.from(text, "hex")\<close> decodes pairs of digits up to the first that is none.\<close>

definition hex_val :: "char \<Rightarrow> nat option" where
  "hex_val c = (let n = (of_char c :: nat) in
     if 48 \<le> n \<and> n \<le> 57 then Some (n - 48)
     else if 97 \<le> n \<and> n \<le> 102 then Some (n - 87)
     else if 65 \<le> n \<and> n \<le> 70 then Some (n - 55) else None)"

fun hex_bytes :: "string \<Rightarrow> nat list" where
  "hex_bytes (a # b # rest) = (case (hex_val a, hex_val b) of
     (Some x, Some y) \<Rightarrow> (16 * x + y) # hex_bytes rest | _ \<Rightarrow> [])"
| "hex_bytes _ = []"

text \<open>Equal lengths and \<open>timingSafeEqual\<close>: the same bytes.\<close>

definition tokenMatches :: "(string \<Rightarrow> string) \<Rightarrow> string \<Rightarrow> string \<Rightarrow> bool" where
  "tokenMatches sha token hash \<longleftrightarrow> hex_bytes hash = hex_bytes (tokenHash sha token)"

definition grant_key :: "string \<Rightarrow> string \<Rightarrow> string" where
  "grant_key issuerId grantId = issuerId @ CHR 0x00 # grantId"

definition clone :: "stored_run_grant \<Rightarrow> (stored_run_grant \<Rightarrow> stored_run_grant) \<Rightarrow>
    stored_run_grant" where
  "clone record changes = (changes record)\<lparr>grant_revision := grant_revision record + 1\<rparr>"

definition active :: "(string \<Rightarrow> int option) \<Rightarrow> stored_run_grant \<Rightarrow> string \<Rightarrow> unit result" where
  "active parse record now =
     chain (guard (grant_state record \<noteq> GrantActive) (TypeError ''Run grant is not active.''))
     (\<lambda>_. chain (parseTime parse (grant_expiresAt record) ''expiresAt'')
     (\<lambda>expires. chain (parseTime parse now ''now'')
     (\<lambda>current. guard (expires \<le> current) (TypeError ''Run grant has expired.''))))"

definition requireRevision :: "stored_run_grant \<Rightarrow> int \<Rightarrow> unit result" where
  "requireRevision record expectedRevision =
     guard (\<not> isSafeInteger expectedRevision \<or> grant_revision record \<noteq> expectedRevision)
       (TypeError ''Run grant revision mismatch.'')"

section \<open>The in-memory repository\<close>

definition mem_set :: "string \<Rightarrow> stored_run_grant \<Rightarrow> memory_repository \<Rightarrow> memory_repository" where
  "mem_set k record r = r\<lparr>mem_records := AList.update k record (mem_records r)\<rparr>"

definition mem_issue :: "memory_repository \<Rightarrow> stored_run_grant \<Rightarrow> memory_repository result" where
  "mem_issue r record =
     (let recordKey = grant_key (grant_issuerId record) (grant_id record) in
      chain (guard (map_of (mem_records r) recordKey \<noteq> None)
        (TypeError ''Run grant already exists.''))
      (\<lambda>_. Inr (mem_set recordKey record r)))"

definition mem_read :: "memory_repository \<Rightarrow> string \<Rightarrow> string \<Rightarrow> stored_run_grant option" where
  "mem_read r issuerId grantId = map_of (mem_records r) (grant_key issuerId grantId)"

text \<open>\<open>#required\<close>, and the same test inside \<open>reserveCall\<close>.\<close>

definition mem_required :: "memory_repository \<Rightarrow> string \<Rightarrow> string \<Rightarrow> stored_run_grant result" where
  "mem_required r issuerId grantId = (case mem_read r issuerId grantId of
     None \<Rightarrow> Inl (TypeError ''Unknown run grant.'') | Some record \<Rightarrow> Inr record)"

text \<open>\<open>reserveCall\<close>; the first argument is the id \<open>randomUUID\<close> returns.\<close>

definition mem_reserveCall :: "(string \<Rightarrow> int option) \<Rightarrow> string \<Rightarrow> memory_repository \<Rightarrow> string \<Rightarrow>
    string \<Rightarrow> int \<Rightarrow> string \<Rightarrow> (call_reservation \<times> memory_repository) result" where
  "mem_reserveCall parse uuid r issuerId grantId expectedRevision now =
     chain (mem_required r issuerId grantId)
     (\<lambda>record. chain (requireRevision record expectedRevision)
     (\<lambda>_. chain (active parse record now)
     (\<lambda>_. chain (guard (grant_callsUsed record + grant_reservedCalls record \<ge> grant_maxCalls record)
        (TypeError ''Run grant call quota exhausted.''))
     (\<lambda>_.
        let remaining = grant_maxTotalResponseBytes record - grant_responseBytesUsed record -
              grant_reservedResponseBytes record
        in chain (guard (\<not> isSafeInteger remaining \<or> remaining \<le> 0)
          (TypeError ''Run grant response quota exhausted.''))
        (\<lambda>_.
          let maxResponseBytes = min (grant_maxResponseBytes record) remaining;
              reservation = \<lparr>rsv_id = uuid, rsv_grantId = grantId, rsv_issuerId = issuerId,
                rsv_revision = grant_revision record + 1, rsv_maxResponseBytes = maxResponseBytes\<rparr>;
              r = mem_set (grant_key issuerId grantId) (clone record
                (\<lambda>g. g\<lparr>grant_reservedCalls := grant_reservedCalls record + 1,
                  grant_reservedResponseBytes :=
                    grant_reservedResponseBytes record + maxResponseBytes\<rparr>)) r
          in Inr (reservation,
              r\<lparr>mem_reservations := AList.update uuid reservation (mem_reservations r)\<rparr>))))))"

definition mem_drop_reservation :: "string \<Rightarrow> memory_repository \<Rightarrow> memory_repository" where
  "mem_drop_reservation i r = r\<lparr>mem_reservations := AList.delete i (mem_reservations r)\<rparr>"

text \<open>The record a stored reservation counts against, if its counters cover the reservation.\<close>

definition reserved_record :: "memory_repository \<Rightarrow> string \<Rightarrow> int \<Rightarrow> stored_run_grant result" where
  "reserved_record r recordKey maxBytes = (case map_of (mem_records r) recordKey of
     None \<Rightarrow> Inl (TypeError ''Run grant reservation mismatch.'')
   | Some record \<Rightarrow>
       if grant_reservedCalls record < 1 \<or> grant_reservedResponseBytes record < maxBytes
       then Inl (TypeError ''Run grant reservation mismatch.'') else Inr record)"

definition mem_commitCall :: "(string \<Rightarrow> int option) \<Rightarrow> memory_repository \<Rightarrow> call_reservation \<Rightarrow>
    int \<Rightarrow> string \<Rightarrow> (stored_run_grant \<times> memory_repository) result" where
  "mem_commitCall parse r reservation responseBytes now =
     chain (safeNonNegative responseBytes ''responseBytes'')
     (\<lambda>_. case map_of (mem_reservations r) (rsv_id reservation) of
        None \<Rightarrow> Inl (TypeError ''Unknown call reservation.'')
      | Some stored \<Rightarrow>
          chain (guard (rsv_grantId stored \<noteq> rsv_grantId reservation \<or>
              rsv_issuerId stored \<noteq> rsv_issuerId reservation \<or>
              rsv_revision stored \<noteq> rsv_revision reservation \<or>
              rsv_maxResponseBytes stored \<noteq> rsv_maxResponseBytes reservation)
            (TypeError ''Unknown call reservation.''))
          (\<lambda>_. chain (guard (responseBytes > rsv_maxResponseBytes stored)
            (TypeError ''Run grant response exceeds reservation quota.''))
          (\<lambda>_. let recordKey = grant_key (rsv_issuerId stored) (rsv_grantId stored) in
            chain (reserved_record r recordKey (rsv_maxResponseBytes stored))
          (\<lambda>record. chain (active parse record now)
          (\<lambda>_. let bytes = grant_responseBytesUsed record + responseBytes in
            chain (guard (\<not> isSafeInteger bytes \<or> bytes > grant_maxTotalResponseBytes record)
              (TypeError ''Run grant response quota exhausted.''))
          (\<lambda>_. let calls = grant_callsUsed record + 1 in
            chain (guard (\<not> isSafeInteger calls) (TypeError ''Run grant call counter overflow.''))
          (\<lambda>_.
            let state = (if calls \<ge> grant_maxCalls record \<or>
                    bytes \<ge> grant_maxTotalResponseBytes record
                  then GrantExhausted else GrantActive);
                next = clone record (\<lambda>g. g\<lparr>grant_callsUsed := calls,
                  grant_responseBytesUsed := bytes,
                  grant_reservedCalls := grant_reservedCalls record - 1,
                  grant_reservedResponseBytes :=
                    grant_reservedResponseBytes record - rsv_maxResponseBytes stored,
                  grant_state := state\<rparr>)
            in Inr (next, mem_drop_reservation (rsv_id reservation) (mem_set recordKey next r)))))))))"

text \<open>\<open>releaseCall\<close> tests the ids of the reservation twice; the second test cannot fail.\<close>

definition mem_releaseCall :: "memory_repository \<Rightarrow> call_reservation \<Rightarrow> string \<Rightarrow>
    (stored_run_grant \<times> memory_repository) result" where
  "mem_releaseCall r reservation now =
     (case map_of (mem_reservations r) (rsv_id reservation) of
        None \<Rightarrow> Inl (TypeError ''Unknown call reservation.'')
      | Some stored \<Rightarrow>
          let ids_differ = (rsv_grantId stored \<noteq> rsv_grantId reservation \<or>
            rsv_issuerId stored \<noteq> rsv_issuerId reservation) in
          chain (guard ids_differ (TypeError ''Unknown call reservation.''))
          (\<lambda>_. let recordKey = grant_key (rsv_issuerId reservation) (rsv_grantId reservation) in
            chain (reserved_record r recordKey (rsv_maxResponseBytes stored))
          (\<lambda>record. chain (guard ids_differ (TypeError ''Run grant reservation mismatch.''))
          (\<lambda>_.
            let next = clone record (\<lambda>g. g\<lparr>
                  grant_reservedCalls := grant_reservedCalls record - 1,
                  grant_reservedResponseBytes :=
                    grant_reservedResponseBytes record - rsv_maxResponseBytes stored\<rparr>)
            in Inr (next, mem_drop_reservation (rsv_id reservation) (mem_set recordKey next r))))))"

definition mem_transition :: "(string \<Rightarrow> int option) \<Rightarrow> run_grant_state \<Rightarrow> memory_repository \<Rightarrow>
    string \<Rightarrow> string \<Rightarrow> int \<Rightarrow> string \<Rightarrow> (stored_run_grant \<times> memory_repository) result" where
  "mem_transition parse state r issuerId grantId expectedRevision now =
     chain (mem_required r issuerId grantId)
     (\<lambda>record. chain (requireRevision record expectedRevision)
     (\<lambda>_. chain (active parse record now)
     (\<lambda>_. let next = clone record (\<lambda>g. g\<lparr>grant_state := state\<rparr>)
          in Inr (next, mem_set (grant_key issuerId grantId) next r))))"

definition mem_revoke :: "(string \<Rightarrow> int option) \<Rightarrow> memory_repository \<Rightarrow> string \<Rightarrow> string \<Rightarrow> int \<Rightarrow>
    string \<Rightarrow> (stored_run_grant \<times> memory_repository) result" where
  "mem_revoke parse = mem_transition parse GrantRevoked"

definition mem_consume :: "(string \<Rightarrow> int option) \<Rightarrow> memory_repository \<Rightarrow> string \<Rightarrow> string \<Rightarrow> int \<Rightarrow>
    string \<Rightarrow> (stored_run_grant \<times> memory_repository) result" where
  "mem_consume parse = mem_transition parse GrantConsumed"

definition mem_expire :: "(string \<Rightarrow> int option) \<Rightarrow> memory_repository \<Rightarrow> string \<Rightarrow> string \<Rightarrow> int \<Rightarrow>
    string \<Rightarrow> (stored_run_grant \<times> memory_repository) result" where
  "mem_expire parse r issuerId grantId expectedRevision now =
     chain (mem_required r issuerId grantId)
     (\<lambda>record. chain (requireRevision record expectedRevision)
     (\<lambda>_. chain (parseTime parse (grant_expiresAt record) ''expiresAt'')
     (\<lambda>expires. chain (parseTime parse now ''now'')
     (\<lambda>current. chain (guard (expires > current) (TypeError ''Run grant is not expired.''))
     (\<lambda>_. let next = clone record (\<lambda>g. g\<lparr>grant_state := GrantExpired\<rparr>)
          in Inr (next, mem_set (grant_key issuerId grantId) next r))))))"

section \<open>Accounting for the reservations\<close>

definition record_key :: "stored_run_grant \<Rightarrow> string" where
  "record_key g = grant_key (grant_issuerId g) (grant_id g)"

definition reservation_key :: "call_reservation \<Rightarrow> string" where
  "reservation_key x = grant_key (rsv_issuerId x) (rsv_grantId x)"

text \<open>The reservations held against the record stored under a key.\<close>

definition held :: "memory_repository \<Rightarrow> string \<Rightarrow> call_reservation multiset" where
  "held r k = filter_mset (\<lambda>x. reservation_key x = k) (mset (map snd (mem_reservations r)))"

definition held_bytes :: "memory_repository \<Rightarrow> string \<Rightarrow> int" where
  "held_bytes r k = sum_mset (image_mset rsv_maxResponseBytes (held r k))"

text \<open>The quotas of one record: what is used and what is reserved stays within the limits.\<close>

definition quota :: "stored_run_grant \<Rightarrow> bool" where
  "quota g \<longleftrightarrow> 0 \<le> grant_callsUsed g \<and> 0 \<le> grant_responseBytesUsed g \<and>
     grant_callsUsed g + grant_reservedCalls g \<le> grant_maxCalls g \<and>
     grant_responseBytesUsed g + grant_reservedResponseBytes g \<le> grant_maxTotalResponseBytes g \<and>
     0 < grant_maxResponseBytes g \<and> isSafeInteger (grant_maxCalls g) \<and>
     isSafeInteger (grant_maxTotalResponseBytes g)"

definition accounted :: "memory_repository \<Rightarrow> bool" where
  "accounted r \<longleftrightarrow> distinct (map fst (mem_reservations r)) \<and>
     (\<forall>i x. map_of (mem_reservations r) i = Some x \<longrightarrow>
        rsv_id x = i \<and> 0 < rsv_maxResponseBytes x \<and>
        map_of (mem_records r) (reservation_key x) \<noteq> None) \<and>
     (\<forall>k g. map_of (mem_records r) k = Some g \<longrightarrow> record_key g = k \<and> quota g \<and>
        grant_reservedCalls g = int (size (held r k)) \<and>
        grant_reservedResponseBytes g = held_bytes r k)"

lemma accounted_record:
  "accounted r \<Longrightarrow> map_of (mem_records r) k = Some g \<Longrightarrow> record_key g = k \<and> quota g \<and>
     grant_reservedCalls g = int (size (held r k)) \<and> grant_reservedResponseBytes g = held_bytes r k"
  by (simp add: accounted_def)

lemma accounted_reservation:
  "accounted r \<Longrightarrow> map_of (mem_reservations r) i = Some x \<Longrightarrow>
     rsv_id x = i \<and> 0 < rsv_maxResponseBytes x \<and>
     (\<exists>g. map_of (mem_records r) (reservation_key x) = Some g)"
  unfolding accounted_def by blast

lemma mset_snd_update_new:
  "k \<notin> fst ` set al \<Longrightarrow> mset (map snd (AList.update k v al)) = add_mset v (mset (map snd al))"
  by (induction al) auto

lemma mset_snd_delete:
  "distinct (map fst al) \<Longrightarrow> map_of al k = Some v \<Longrightarrow>
     mset (map snd al) = add_mset v (mset (map snd (AList.delete k al)))"
proof (induction al)
  case (Cons a al)
  show ?case
  proof (cases "fst a = k")
    case True
    then have "k \<notin> fst ` set al" using Cons.prems(1) by auto
    then have "AList.delete k al = al" by (simp add: delete_id)
    then show ?thesis using True Cons.prems(2) by (cases a) auto
  next
    case False
    then show ?thesis using Cons by (cases a) auto
  qed
qed simp

lemma mem_set_simps [simp]:
  "map_of (mem_records (mem_set k g r)) k' = (if k' = k then Some g else map_of (mem_records r) k')"
  "mem_reservations (mem_set k g r) = mem_reservations r"
  "held (mem_set k g r) = held r" "held_bytes (mem_set k g r) = held_bytes r"
  by (auto simp: mem_set_def map_of_update held_def held_bytes_def fun_eq_iff)

lemma held_drop:
  assumes "distinct (map fst (mem_reservations r))" and "map_of (mem_reservations r) i = Some x"
  shows "held r k = (if reservation_key x = k then add_mset x (held (mem_drop_reservation i r) k)
    else held (mem_drop_reservation i r) k)"
  using mset_snd_delete [OF assms] by (simp add: held_def mem_drop_reservation_def)

lemma held_add:
  assumes "i \<notin> fst ` set (mem_reservations r)"
  shows "held (r\<lparr>mem_reservations := AList.update i x (mem_reservations r)\<rparr>) k =
    (if reservation_key x = k then add_mset x (held r k) else held r k)"
  using mset_snd_update_new [OF assms] by (simp add: held_def)

lemma drop_simps [simp]:
  "mem_records (mem_drop_reservation i r) = mem_records r"
  "map_of (mem_reservations (mem_drop_reservation i r)) j =
     (if j = i then None else map_of (mem_reservations r) j)"
  by (simp_all add: mem_drop_reservation_def delete_conv')

lemma distinct_drop:
  "distinct (map fst (mem_reservations r)) \<Longrightarrow>
     distinct (map fst (mem_reservations (mem_drop_reservation i r)))"
  by (simp add: mem_drop_reservation_def distinct_delete)

text \<open>Replacing a record without touching the reservations.\<close>

lemma accounted_set:
  assumes "accounted r" and "map_of (mem_records r) k = Some g"
    and "record_key g' = k" and "quota g'" and "grant_reservedCalls g' = grant_reservedCalls g"
    and "grant_reservedResponseBytes g' = grant_reservedResponseBytes g"
  shows "accounted (mem_set k g' r)"
  using assms unfolding accounted_def by (auto split: if_splits)

text \<open>Closing a reservation.\<close>

lemma accounted_drop:
  assumes "accounted r" and "map_of (mem_reservations r) i = Some x"
    and "map_of (mem_records r) (reservation_key x) = Some g"
    and "record_key g' = reservation_key x" and "quota g'"
    and "grant_reservedCalls g' = grant_reservedCalls g - 1"
    and "grant_reservedResponseBytes g' = grant_reservedResponseBytes g - rsv_maxResponseBytes x"
  shows "accounted (mem_drop_reservation i (mem_set (reservation_key x) g' r))"
proof -
  let ?s = "mem_set (reservation_key x) g' r"
  have d: "distinct (map fst (mem_reservations ?s))" "map_of (mem_reservations ?s) i = Some x"
    using assms(1,2) by (simp_all add: accounted_def)
  have held: "held r k = (if reservation_key x = k
      then add_mset x (held (mem_drop_reservation i ?s) k) else held (mem_drop_reservation i ?s) k)"
    for k using held_drop [OF d, of k] by simp
  then have bytes: "held_bytes r k = (if reservation_key x = k
      then rsv_maxResponseBytes x + held_bytes (mem_drop_reservation i ?s) k
      else held_bytes (mem_drop_reservation i ?s) k)" for k
    by (simp add: held_bytes_def)
  note g = accounted_record [OF assms(1,3)]
  show ?thesis
    unfolding accounted_def
  proof (intro conjI allI impI)
    show "distinct (map fst (mem_reservations (mem_drop_reservation i ?s)))"
      using distinct_drop [OF d(1)] .
  next
    fix j y assume "map_of (mem_reservations (mem_drop_reservation i ?s)) j = Some y"
    then have "map_of (mem_reservations r) j = Some y" by (simp split: if_splits)
    from accounted_reservation [OF assms(1) this]
    show "rsv_id y = j" "0 < rsv_maxResponseBytes y"
      "map_of (mem_records (mem_drop_reservation i ?s)) (reservation_key y) \<noteq> None"
      by auto
  next
    fix k h assume "map_of (mem_records (mem_drop_reservation i ?s)) k = Some h"
    then have h: "h = (if k = reservation_key x then g' else h)"
      "k \<noteq> reservation_key x \<Longrightarrow> map_of (mem_records r) k = Some h"
      by (auto split: if_splits)
    note other = accounted_record [OF assms(1)]
    show "record_key h = k" "quota h"
      "grant_reservedCalls h = int (size (held (mem_drop_reservation i ?s) k))"
      "grant_reservedResponseBytes h = held_bytes (mem_drop_reservation i ?s) k"
      using h g other [of k h] held [of k] bytes [of k] assms(4-7)
      by (cases "k = reservation_key x"; simp)+
  qed
qed

text \<open>Opening a reservation under a fresh id.\<close>

lemma accounted_add:
  assumes "accounted r" and "i \<notin> fst ` set (mem_reservations r)"
    and "map_of (mem_records r) (reservation_key x) = Some g"
    and "rsv_id x = i" and "0 < rsv_maxResponseBytes x"
    and "record_key g' = reservation_key x" and "quota g'"
    and "grant_reservedCalls g' = grant_reservedCalls g + 1"
    and "grant_reservedResponseBytes g' = grant_reservedResponseBytes g + rsv_maxResponseBytes x"
  shows "accounted ((mem_set (reservation_key x) g' r)\<lparr>mem_reservations :=
    AList.update i x (mem_reservations r)\<rparr>)" (is "accounted ?t")
proof -
  let ?s = "mem_set (reservation_key x) g' r"
  have held: "held ?t k = (if reservation_key x = k then add_mset x (held r k) else held r k)" for k
    using held_add [of i ?s x k] assms(2) by simp
  then have bytes: "held_bytes ?t k = (if reservation_key x = k
      then rsv_maxResponseBytes x + held_bytes r k else held_bytes r k)" for k
    by (simp add: held_bytes_def)
  have records: "map_of (mem_records ?t) k =
      (if k = reservation_key x then Some g' else map_of (mem_records r) k)" for k by simp
  note g = accounted_record [OF assms(1,3)]
  show ?thesis
    unfolding accounted_def
  proof (intro conjI allI impI)
    show "distinct (map fst (mem_reservations ?t))"
      using assms(1) by (simp add: accounted_def distinct_update)
  next
    fix j y assume "map_of (mem_reservations ?t) j = Some y"
    then have "j = i \<and> y = x \<or> map_of (mem_reservations r) j = Some y"
      by (auto simp: map_of_update split: if_splits)
    then show "rsv_id y = j" "0 < rsv_maxResponseBytes y"
      "map_of (mem_records ?t) (reservation_key y) \<noteq> None"
      using accounted_reservation [OF assms(1), of j y] assms(4,5) records by auto
  next
    fix k h assume "map_of (mem_records ?t) k = Some h"
    then have h: "h = (if k = reservation_key x then g' else h)"
      "k \<noteq> reservation_key x \<Longrightarrow> map_of (mem_records r) k = Some h"
      using records [of k] by (auto split: if_splits)
    note other = accounted_record [OF assms(1)]
    show "record_key h = k" "quota h" "grant_reservedCalls h = int (size (held ?t k))"
      "grant_reservedResponseBytes h = held_bytes ?t k"
      using h g other [of k h] held [of k] bytes [of k] assms(6-9)
      by (cases "k = reservation_key x"; simp)+
  qed
qed

section \<open>What the operations do\<close>

lemma record_key_clone:
  "record_key (f g) = record_key g \<Longrightarrow> record_key (clone g f) = record_key g"
  by (simp add: record_key_def clone_def)

lemma mem_required_Inr [simp]: "mem_required r i g = Inr rec \<longleftrightarrow> mem_read r i g = Some rec"
  by (auto simp: mem_required_def split: option.splits)

lemma active_Inr:
  "active parse g now = Inr u \<longleftrightarrow> grant_state g = GrantActive \<and>
     (\<exists>e t. parseTime parse (grant_expiresAt g) ''expiresAt'' = Inr e \<and>
       parseTime parse now ''now'' = Inr t \<and> t < e)"
  by (auto simp: active_def chain_eq_Inr not_le)

lemma reserved_record_Inr:
  "reserved_record r k m = Inr g \<longleftrightarrow> map_of (mem_records r) k = Some g \<and>
     1 \<le> grant_reservedCalls g \<and> m \<le> grant_reservedResponseBytes g"
  by (auto simp: reserved_record_def not_less split: option.splits)

lemma mem_issue_Inr:
  "mem_issue r rec = Inr r' \<longleftrightarrow> map_of (mem_records r) (record_key rec) = None \<and>
     r' = mem_set (record_key rec) rec r"
  by (auto simp: mem_issue_def Let_def chain_eq_Inr record_key_def)

definition remaining_bytes :: "stored_run_grant \<Rightarrow> int" where
  "remaining_bytes g = grant_maxTotalResponseBytes g - grant_responseBytesUsed g -
     grant_reservedResponseBytes g"

definition reserve :: "stored_run_grant \<Rightarrow> stored_run_grant" where
  "reserve g = clone g (\<lambda>h. h\<lparr>grant_reservedCalls := grant_reservedCalls g + 1,
     grant_reservedResponseBytes := grant_reservedResponseBytes g +
       min (grant_maxResponseBytes g) (remaining_bytes g)\<rparr>)"

lemma mem_reserveCall_Inr:
  assumes "mem_reserveCall parse uuid r i g expected now = Inr (x, r')"
  obtains rec where "mem_read r i g = Some rec" "grant_revision rec = expected" "isSafeInteger expected"
    "active parse rec now = Inr ()"
    "grant_callsUsed rec + grant_reservedCalls rec < grant_maxCalls rec"
    "0 < remaining_bytes rec"
    "x = \<lparr>rsv_id = uuid, rsv_grantId = g, rsv_issuerId = i, rsv_revision = grant_revision rec + 1,
      rsv_maxResponseBytes = min (grant_maxResponseBytes rec) (remaining_bytes rec)\<rparr>"
    "r' = (mem_set (grant_key i g) (reserve rec) r)\<lparr>mem_reservations :=
      AList.update uuid x (mem_reservations r)\<rparr>"
  using assms
  by (auto simp: mem_reserveCall_def chain_eq_Inr Let_def requireRevision_def remaining_bytes_def
      reserve_def not_le)

definition commit :: "int \<Rightarrow> int \<Rightarrow> stored_run_grant \<Rightarrow> stored_run_grant" where
  "commit responseBytes m g = clone g (\<lambda>h. h\<lparr>grant_callsUsed := grant_callsUsed g + 1,
     grant_responseBytesUsed := grant_responseBytesUsed g + responseBytes,
     grant_reservedCalls := grant_reservedCalls g - 1,
     grant_reservedResponseBytes := grant_reservedResponseBytes g - m,
     grant_state := (if grant_callsUsed g + 1 \<ge> grant_maxCalls g \<or>
         grant_responseBytesUsed g + responseBytes \<ge> grant_maxTotalResponseBytes g
       then GrantExhausted else GrantActive)\<rparr>)"

lemma mem_commitCall_Inr:
  assumes "mem_commitCall parse r x responseBytes now = Inr (rec', r')"
  obtains stored rec where "map_of (mem_reservations r) (rsv_id x) = Some stored"
    "rsv_grantId stored = rsv_grantId x" "rsv_issuerId stored = rsv_issuerId x"
    "rsv_maxResponseBytes stored = rsv_maxResponseBytes x" "rsv_revision stored = rsv_revision x"
    "map_of (mem_records r) (reservation_key stored) = Some rec" "0 \<le> responseBytes"
    "responseBytes \<le> rsv_maxResponseBytes stored" "active parse rec now = Inr ()"
    "grant_responseBytesUsed rec + responseBytes \<le> grant_maxTotalResponseBytes rec"
    "rec' = commit responseBytes (rsv_maxResponseBytes stored) rec"
    "r' = mem_drop_reservation (rsv_id x) (mem_set (reservation_key stored) rec' r)"
  using assms
  by (auto simp: mem_commitCall_def safeNonNegative_def chain_eq_Inr Let_def reserved_record_Inr
      commit_def reservation_key_def not_le not_less split: option.splits)

definition release :: "int \<Rightarrow> stored_run_grant \<Rightarrow> stored_run_grant" where
  "release m g = clone g (\<lambda>h. h\<lparr>grant_reservedCalls := grant_reservedCalls g - 1,
     grant_reservedResponseBytes := grant_reservedResponseBytes g - m\<rparr>)"

lemma mem_releaseCall_Inr:
  assumes "mem_releaseCall r x now = Inr (rec', r')"
  obtains stored rec where "map_of (mem_reservations r) (rsv_id x) = Some stored"
    "rsv_grantId stored = rsv_grantId x" "rsv_issuerId stored = rsv_issuerId x"
    "map_of (mem_records r) (reservation_key stored) = Some rec"
    "rec' = release (rsv_maxResponseBytes stored) rec"
    "r' = mem_drop_reservation (rsv_id x) (mem_set (reservation_key stored) rec' r)"
  using assms
  by (auto simp: mem_releaseCall_def chain_eq_Inr Let_def reserved_record_Inr
      release_def reservation_key_def split: option.splits)

definition settle :: "run_grant_state \<Rightarrow> stored_run_grant \<Rightarrow> stored_run_grant" where
  "settle state g = clone g (\<lambda>h. h\<lparr>grant_state := state\<rparr>)"

lemma mem_transition_Inr:
  assumes "mem_transition parse state r i g expected now = Inr (rec', r')"
  obtains rec where "mem_read r i g = Some rec" "grant_revision rec = expected"
    "active parse rec now = Inr ()" "rec' = settle state rec"
    "r' = mem_set (grant_key i g) rec' r"
  using assms
  by (auto simp: mem_transition_def chain_eq_Inr Let_def requireRevision_def settle_def)

lemma mem_expire_Inr:
  assumes "mem_expire parse r i g expected now = Inr (rec', r')"
  obtains rec e t where "mem_read r i g = Some rec" "grant_revision rec = expected"
    "parseTime parse (grant_expiresAt rec) ''expiresAt'' = Inr e"
    "parseTime parse now ''now'' = Inr t" "e \<le> t" "rec' = settle GrantExpired rec"
    "r' = mem_set (grant_key i g) rec' r"
  using assms
  by (auto simp: mem_expire_def chain_eq_Inr Let_def requireRevision_def settle_def not_less)

lemmas change_defs = reserve_def commit_def release_def settle_def clone_def

lemma record_key_change [simp]:
  "record_key (reserve g) = record_key g" "record_key (commit n m g) = record_key g"
  "record_key (release m g) = record_key g" "record_key (settle st g) = record_key g"
  by (simp_all add: change_defs record_key_def)

section \<open>Every operation keeps the accounts\<close>

lemma mem_read_map: "mem_read r i g = map_of (mem_records r) (grant_key i g)"
  by (simp add: mem_read_def)

lemma sum_image_nonneg: "(\<forall>y \<in># A. 0 \<le> f y) \<Longrightarrow> (0 :: int) \<le> sum_mset (image_mset f A)"
  by (induction A) auto

text \<open>The reservation held by a record covers its bytes and its call.\<close>

lemma held_covers:
  assumes "accounted r" and "map_of (mem_reservations r) i = Some x"
    and "map_of (mem_records r) (reservation_key x) = Some g"
  shows "1 \<le> grant_reservedCalls g \<and> rsv_maxResponseBytes x \<le> grant_reservedResponseBytes g"
proof -
  have d: "distinct (map fst (mem_reservations r))" using assms(1) by (simp add: accounted_def)
  let ?k = "reservation_key x"
  have split: "held r ?k = add_mset x (held (mem_drop_reservation i r) ?k)"
    using held_drop [OF d assms(2), of ?k] by simp
  have pos: "0 \<le> rsv_maxResponseBytes y" if y: "y \<in># held (mem_drop_reservation i r) ?k" for y
  proof -
    have "y \<in># held r ?k" using y split by simp
    then obtain j where "(j, y) \<in> set (mem_reservations r)" by (auto simp: held_def)
    then have "map_of (mem_reservations r) j = Some y" using d by simp
    then show ?thesis using accounted_reservation [OF assms(1)] by fastforce
  qed
  have "0 \<le> sum_mset (image_mset rsv_maxResponseBytes (held (mem_drop_reservation i r) ?k))"
    using pos by (intro sum_image_nonneg) simp
  then show ?thesis
    using accounted_record [OF assms(1,3)] split by (simp add: held_bytes_def)
qed

lemma reserve_accounted:
  assumes "mem_reserveCall parse uuid r i g expected now = Inr (x, r')" and "accounted r"
    and "uuid \<notin> fst ` set (mem_reservations r)"
  shows "accounted r'"
  using assms(1)
proof (rule mem_reserveCall_Inr)
  fix rec
  assume rec: "mem_read r i g = Some rec"
    and room: "grant_callsUsed rec + grant_reservedCalls rec < grant_maxCalls rec" "0 < remaining_bytes rec"
    and x: "x = \<lparr>rsv_id = uuid, rsv_grantId = g, rsv_issuerId = i,
      rsv_revision = grant_revision rec + 1,
      rsv_maxResponseBytes = min (grant_maxResponseBytes rec) (remaining_bytes rec)\<rparr>"
    and r': "r' = (mem_set (grant_key i g) (reserve rec) r)\<lparr>mem_reservations :=
      AList.update uuid x (mem_reservations r)\<rparr>"
  have key: "grant_key i g = reservation_key x" by (simp add: x reservation_key_def)
  have at: "map_of (mem_records r) (reservation_key x) = Some rec"
    using rec by (simp add: mem_read_map key)
  note old = accounted_record [OF assms(2) at]
  show "accounted r'"
    unfolding r' key
  proof (rule accounted_add [OF assms(2,3) at])
    show "rsv_id x = uuid" "0 < rsv_maxResponseBytes x" using room old by (simp_all add: x quota_def)
    show "record_key (reserve rec) = reservation_key x" using old by simp
    show "quota (reserve rec)"
      using old room by (auto simp: quota_def change_defs remaining_bytes_def min_def)
    show "grant_reservedCalls (reserve rec) = grant_reservedCalls rec + 1"
      "grant_reservedResponseBytes (reserve rec) =
        grant_reservedResponseBytes rec + rsv_maxResponseBytes x"
      by (simp_all add: change_defs x)
  qed
qed

lemma commit_accounted:
  assumes "mem_commitCall parse r x n now = Inr (rec', r')" and "accounted r"
  shows "accounted r'"
  using assms(1)
proof (rule mem_commitCall_Inr)
  fix stored rec
  assume st: "map_of (mem_reservations r) (rsv_id x) = Some stored"
    and at: "map_of (mem_records r) (reservation_key stored) = Some rec"
    and n: "0 \<le> n" "n \<le> rsv_maxResponseBytes stored"
    and new: "rec' = commit n (rsv_maxResponseBytes stored) rec"
      "r' = mem_drop_reservation (rsv_id x) (mem_set (reservation_key stored) rec' r)"
  show "accounted r'"
    unfolding new(2)
    using accounted_record [OF assms(2) at] held_covers [OF assms(2) st at] n
    by (intro accounted_drop [OF assms(2) st at]) (auto simp: new(1) quota_def change_defs record_key_def)
qed

lemma release_accounted:
  assumes "mem_releaseCall r x now = Inr (rec', r')" and "accounted r"
  shows "accounted r'"
  using assms(1)
proof (rule mem_releaseCall_Inr)
  fix stored rec
  assume st: "map_of (mem_reservations r) (rsv_id x) = Some stored"
    and at: "map_of (mem_records r) (reservation_key stored) = Some rec"
    and new: "rec' = release (rsv_maxResponseBytes stored) rec"
      "r' = mem_drop_reservation (rsv_id x) (mem_set (reservation_key stored) rec' r)"
  have "0 < rsv_maxResponseBytes stored" using accounted_reservation [OF assms(2) st] by simp
  then show "accounted r'"
    unfolding new(2)
    using accounted_record [OF assms(2) at] held_covers [OF assms(2) st at]
    by (intro accounted_drop [OF assms(2) st at]) (auto simp: new(1) quota_def change_defs record_key_def)
qed

lemma settle_accounted:
  assumes "accounted r" and "mem_read r i g = Some rec"
  shows "accounted (mem_set (grant_key i g) (settle st rec) r)"
  using assms accounted_record [OF assms(1), of "grant_key i g" rec]
  by (intro accounted_set) (auto simp: mem_read_map change_defs quota_def record_key_def)

text \<open>What is used of \<open>randomUUID\<close>: hexadecimal digits and hyphens are visible ASCII characters.\<close>

definition uuid_text :: "string \<Rightarrow> bool" where
  "uuid_text u \<longleftrightarrow> u \<noteq> [] \<and> (\<forall>c \<in> set u. 33 \<le> (of_char c :: nat) \<and> (of_char c :: nat) \<le> 126)"

text \<open>A record as the store issues it: unused, within the safe integers.\<close>

definition unused :: "stored_run_grant \<Rightarrow> bool" where
  "unused g \<longleftrightarrow> uuid_text (grant_id g) \<and> grant_callsUsed g = 0 \<and> grant_responseBytesUsed g = 0 \<and>
     grant_reservedCalls g = 0 \<and> grant_reservedResponseBytes g = 0 \<and>
     grant_state g = GrantActive \<and> grant_revision g = 0 \<and> quota g"

lemma issue_accounted:
  assumes "mem_issue r g = Inr r'" and "accounted r" and "unused g"
  shows "accounted r'"
proof -
  have new: "map_of (mem_records r) (record_key g) = None" "r' = mem_set (record_key g) g r"
    using assms(1) by (simp_all add: mem_issue_Inr)
  have "held r (record_key g) = {#}"
  proof (rule ccontr)
    assume "held r (record_key g) \<noteq> {#}"
    then obtain x where "x \<in># held r (record_key g)" by blast
    then obtain j where j: "(j, x) \<in> set (mem_reservations r)" "reservation_key x = record_key g"
      by (auto simp: held_def)
    then have "map_of (mem_reservations r) j = Some x" using assms(2) by (simp add: accounted_def)
    then show False using accounted_reservation [OF assms(2)] j(2) new(1) by fastforce
  qed
  then have "held_bytes r (record_key g) = 0" by (simp add: held_bytes_def)
  then show ?thesis
    using assms(2,3) \<open>held r (record_key g) = {#}\<close>
    unfolding accounted_def new(2) by (auto simp: unused_def split: if_splits)
qed

end
