(* ===== verification/Grant_Store.thy ===== *)
theory Grant_Store
  imports Run_Grants
begin

text \<open>
  \<open>packages/core/src/run-grants.ts\<close>, second part: \<open>RunGrantStore\<close>, the only client of the
  interface \<open>RunGrantRepository\<close>. The interface is a record of operations, as the TypeScript
  object is, and its contract the locale \<open>grant_repository\<close>: every operation keeps the
  repository's invariant and moves each grant along the abstract life cycle \<open>grant_change\<close>.
  The client's results are proved from the contract, which the in-memory repository satisfies.
\<close>

section \<open>The interface\<close>

record 'r run_grant_repository =
  repo_issue :: "'r \<Rightarrow> stored_run_grant \<Rightarrow> 'r result"
  repo_read :: "'r \<Rightarrow> string \<Rightarrow> string \<Rightarrow> stored_run_grant option"
  repo_reserveCall :: "string \<Rightarrow> 'r \<Rightarrow> string \<Rightarrow> string \<Rightarrow> int \<Rightarrow> string \<Rightarrow>
    (call_reservation \<times> 'r) result"
  repo_commitCall :: "'r \<Rightarrow> call_reservation \<Rightarrow> int \<Rightarrow> string \<Rightarrow> (stored_run_grant \<times> 'r) result"
  repo_releaseCall :: "'r \<Rightarrow> call_reservation \<Rightarrow> string \<Rightarrow> (stored_run_grant \<times> 'r) result"
  repo_revoke :: "'r \<Rightarrow> string \<Rightarrow> string \<Rightarrow> int \<Rightarrow> string \<Rightarrow> (stored_run_grant \<times> 'r) result"
  repo_consume :: "'r \<Rightarrow> string \<Rightarrow> string \<Rightarrow> int \<Rightarrow> string \<Rightarrow> (stored_run_grant \<times> 'r) result"
  repo_expire :: "'r \<Rightarrow> string \<Rightarrow> string \<Rightarrow> int \<Rightarrow> string \<Rightarrow> (stored_run_grant \<times> 'r) result"

definition memory_repo :: "(string \<Rightarrow> int option) \<Rightarrow> memory_repository run_grant_repository" where
  "memory_repo parse = \<lparr>repo_issue = mem_issue, repo_read = mem_read,
     repo_reserveCall = mem_reserveCall parse, repo_commitCall = mem_commitCall parse,
     repo_releaseCall = mem_releaseCall, repo_revoke = mem_revoke parse,
     repo_consume = mem_consume parse, repo_expire = mem_expire parse\<rparr>"

record 'r run_grant_store =
  store_issuerId :: string
  store_repository :: "'r run_grant_repository"

text \<open>The constructor.\<close>

definition new_store :: "string \<Rightarrow> 'r run_grant_repository \<Rightarrow> 'r run_grant_store result" where
  "new_store issuerId repository = chain (requireText issuerId ''issuerId'')
     (\<lambda>_. Inr \<lparr>store_issuerId = issuerId, store_repository = repository\<rparr>)"

text \<open>What the store uses of the host: collation, \<open>Date.parse\<close> and SHA-256.\<close>

record host_runtime =
  host_collate :: "string \<Rightarrow> string \<Rightarrow> int"
  host_parse :: "string \<Rightarrow> int option"
  host_sha :: "string \<Rightarrow> string"

section \<open>Issuing\<close>

text \<open>
  The checks of \<open>issue\<close>, which end with the normalised extensions and tool ids. The inventory
  digest is only computed where the provider matches (\<open>||\<close>).
\<close>

definition check_inventory_digest :: "host_runtime \<Rightarrow> run_grant_request \<Rightarrow> tool_inventory \<Rightarrow>
    unit result" where
  "check_inventory_digest host request inventory =
     (if rgr_providerId request \<noteq> inv_providerId inventory
      then Inl (TypeError ''Run grant inventory does not match provider.'')
      else chain (inventoryDigest (host_collate host) (host_sha host) inventory)
        (\<lambda>digest. guard (rgr_inventoryDigest request \<noteq> digest)
          (TypeError ''Run grant inventory does not match provider.'')))"

definition check_tool_id :: "tool_inventory \<Rightarrow> string \<Rightarrow> unit result" where
  "check_tool_id inventory toolId =
     (case map_of (js_map (map (\<lambda>tool. (tool_id tool, tool)) (inv_tools inventory))) toolId of
        None \<Rightarrow> Inl (TypeError ''Run grant exceeds the read-only tool policy.'')
      | Some tool \<Rightarrow> guard (\<not> tool_readOnly tool)
          (TypeError ''Run grant exceeds the read-only tool policy.''))"

definition check_limits :: "run_grant_request \<Rightarrow> unit result" where
  "check_limits request =
     chain (requireText (rgr_runId request) ''runId'')
     (\<lambda>_. chain (requireText (rgr_providerId request) ''providerId'')
     (\<lambda>_. chain (requireText (rgr_protocolVersion request) ''protocolVersion'')
     (\<lambda>_. chain (safePositive (rgr_maxCalls request) ''maxCalls'')
     (\<lambda>_. chain (safePositive (rgr_maxResponseBytes request) ''maxResponseBytes'')
     (\<lambda>_. chain (safePositive (rgr_maxTotalResponseBytes request) ''maxTotalResponseBytes'')
     (\<lambda>_. guard (rgr_maxResponseBytes request > rgr_maxTotalResponseBytes request)
        (TypeError ''maxResponseBytes cannot exceed maxTotalResponseBytes.'')))))))"

definition check_window :: "host_runtime \<Rightarrow> run_grant_request \<Rightarrow> string \<Rightarrow> unit result" where
  "check_window host request now =
     chain (parseTime (host_parse host) (rgr_issuedAt request) ''issuedAt'')
     (\<lambda>issuedAt. chain (parseTime (host_parse host) (rgr_expiresAt request) ''expiresAt'')
     (\<lambda>expiresAt. chain (parseTime (host_parse host) now ''now'')
     (\<lambda>current. guard (issuedAt > current \<or> expiresAt \<le> current)
        (TypeError ''Run grant is outside its valid time window.''))))"

definition check_request :: "host_runtime \<Rightarrow> run_grant_request \<Rightarrow> tool_inventory \<Rightarrow> string \<Rightarrow>
    (string list \<times> string list) result" where
  "check_request host request inventory now =
     chain (validateInventory (host_collate host) (host_parse host) inventory)
     (\<lambda>_. chain (check_limits request)
     (\<lambda>_. chain (check_window host request now)
     (\<lambda>_. chain (check_inventory_digest host request inventory)
     (\<lambda>_. chain (guard (rgr_protocolVersion request \<notin> set (inv_protocolVersions inventory))
        (TypeError ''Run grant protocol version is not supported.''))
     (\<lambda>_. chain (normalizedStrings (host_collate host) (rgr_extensions request) ''extension'')
     (\<lambda>extensions. chain (for_each (\<lambda>extension _.
          guard (extension \<notin> set (or_nil (inv_extensions inventory)))
            (TypeError ''Run grant extension is not supported.'')) extensions ())
     (\<lambda>_. chain (normalizedStrings (host_collate host) (rgr_toolIds request) ''toolId'')
     (\<lambda>toolIds. chain (guard (toolIds = [])
        (TypeError ''Run grant must authorize at least one tool.''))
     (\<lambda>_. chain (for_each (\<lambda>toolId _. check_tool_id inventory toolId) toolIds ())
     (\<lambda>_. Inr (extensions, toolIds)))))))))))"

definition new_record :: "host_runtime \<Rightarrow> string \<Rightarrow> run_grant_request \<Rightarrow> string list \<Rightarrow>
    string list \<Rightarrow> string \<Rightarrow> string \<Rightarrow> stored_run_grant" where
  "new_record host issuerId request extensions toolIds token uuid = \<lparr>
     grant_id = uuid, grant_issuerId = issuerId, grant_tokenHash = tokenHash (host_sha host) token,
     grant_runId = rgr_runId request, grant_providerId = rgr_providerId request,
     grant_toolIds = toolIds, grant_inventoryDigest = rgr_inventoryDigest request,
     grant_protocolVersion = rgr_protocolVersion request, grant_extensions = extensions,
     grant_issuedAt = rgr_issuedAt request, grant_expiresAt = rgr_expiresAt request,
     grant_maxCalls = rgr_maxCalls request,
     grant_maxResponseBytes = rgr_maxResponseBytes request,
     grant_maxTotalResponseBytes = rgr_maxTotalResponseBytes request,
     grant_callsUsed = 0, grant_responseBytesUsed = 0, grant_reservedCalls = 0,
     grant_reservedResponseBytes = 0, grant_state = GrantActive, grant_revision = 0\<rparr>"

text \<open>\<open>issue\<close>; the last two arguments are what \<open>randomBytes\<close> and \<open>randomUUID\<close> return.\<close>

definition store_issue :: "host_runtime \<Rightarrow> 'r run_grant_store \<Rightarrow> 'r \<Rightarrow> run_grant_request \<Rightarrow>
    tool_inventory \<Rightarrow> string \<Rightarrow> string \<Rightarrow> string \<Rightarrow> (run_grant \<times> 'r) result" where
  "store_issue host store r request inventory now token uuid =
     chain (check_request host request inventory now)
     (\<lambda>(extensions, toolIds). chain (repo_issue (store_repository store) r
        (new_record host (store_issuerId store) request extensions toolIds token uuid))
     (\<lambda>r. Inr (\<lparr>handle_id = uuid, handle_token = token\<rparr>, r)))"

section \<open>Using a grant\<close>

text \<open>
  A handle is \<open>unknown\<close> to the compiler; \<open>None\<close> stands for every value that is not an object
  with a string \<open>id\<close> and a string \<open>token\<close> (\<open>#validHandle\<close>).
\<close>

definition store_find :: "host_runtime \<Rightarrow> 'r run_grant_store \<Rightarrow> 'r \<Rightarrow> run_grant option \<Rightarrow>
    stored_run_grant option" where
  "store_find host store r grant = (case grant of None \<Rightarrow> None | Some h \<Rightarrow>
     (case repo_read (store_repository store) r (store_issuerId store) (handle_id h) of
        None \<Rightarrow> None
      | Some record \<Rightarrow> if tokenMatches (host_sha host) (handle_token h) (grant_tokenHash record)
          then Some record else None))"

definition store_authorize :: "host_runtime \<Rightarrow> 'r run_grant_store \<Rightarrow> 'r \<Rightarrow> run_grant option \<Rightarrow>
    string \<Rightarrow> stored_run_grant option result" where
  "store_authorize host store r grant now = (case store_find host store r grant of
     None \<Rightarrow> Inr None
   | Some record \<Rightarrow>
       if grant_state record \<noteq> GrantActive then Inr None
       else chain (parseTime (host_parse host) (grant_expiresAt record) ''expiresAt'')
         (\<lambda>expires. chain (parseTime (host_parse host) now ''now'')
         (\<lambda>current. Inr (if expires \<le> current then None else Some record))))"

definition store_authorized :: "host_runtime \<Rightarrow> 'r run_grant_store \<Rightarrow> 'r \<Rightarrow> run_grant option \<Rightarrow>
    string \<Rightarrow> stored_run_grant result" where
  "store_authorized host store r grant now = chain (store_authorize host store r grant now)
     (\<lambda>a. case a of None \<Rightarrow> Inl (TypeError ''Run grant denied.'') | Some record \<Rightarrow> Inr record)"

text \<open>\<open>#authenticated\<close>, which \<open>expire\<close> repeats.\<close>

definition store_authenticated :: "host_runtime \<Rightarrow> 'r run_grant_store \<Rightarrow> 'r \<Rightarrow> run_grant option \<Rightarrow>
    stored_run_grant result" where
  "store_authenticated host store r grant = (case store_find host store r grant of
     None \<Rightarrow> Inl (TypeError ''Run grant denied.'') | Some record \<Rightarrow> Inr record)"

definition store_reserveCall :: "host_runtime \<Rightarrow> 'r run_grant_store \<Rightarrow> string \<Rightarrow> 'r \<Rightarrow>
    run_grant option \<Rightarrow> string \<Rightarrow> (call_reservation \<times> 'r) result" where
  "store_reserveCall host store uuid r grant now =
     chain (store_authorized host store r grant now)
     (\<lambda>record. repo_reserveCall (store_repository store) uuid r (store_issuerId store)
        (grant_id record) (grant_revision record) now)"

definition store_commitCall :: "host_runtime \<Rightarrow> 'r run_grant_store \<Rightarrow> 'r \<Rightarrow> run_grant option \<Rightarrow>
    call_reservation \<Rightarrow> int \<Rightarrow> string \<Rightarrow> (stored_run_grant \<times> 'r) result" where
  "store_commitCall host store r grant reservation responseBytes now =
     chain (store_authorized host store r grant now)
     (\<lambda>_. repo_commitCall (store_repository store) r reservation responseBytes now)"

definition store_releaseCall :: "host_runtime \<Rightarrow> 'r run_grant_store \<Rightarrow> 'r \<Rightarrow> run_grant option \<Rightarrow>
    call_reservation \<Rightarrow> string \<Rightarrow> (stored_run_grant \<times> 'r) result" where
  "store_releaseCall host store r grant reservation now =
     chain (store_authenticated host store r grant)
     (\<lambda>record. repo_releaseCall (store_repository store) r
        (reservation\<lparr>rsv_issuerId := grant_issuerId record, rsv_grantId := grant_id record\<rparr>) now)"

definition store_revoke :: "host_runtime \<Rightarrow> 'r run_grant_store \<Rightarrow> 'r \<Rightarrow> run_grant option \<Rightarrow>
    string \<Rightarrow> (stored_run_grant \<times> 'r) result" where
  "store_revoke host store r grant now =
     chain (store_authorized host store r grant now)
     (\<lambda>record. repo_revoke (store_repository store) r (store_issuerId store)
        (grant_id record) (grant_revision record) now)"

definition store_consume :: "host_runtime \<Rightarrow> 'r run_grant_store \<Rightarrow> 'r \<Rightarrow> run_grant option \<Rightarrow>
    string \<Rightarrow> (stored_run_grant \<times> 'r) result" where
  "store_consume host store r grant now =
     chain (store_authorized host store r grant now)
     (\<lambda>record. repo_consume (store_repository store) r (store_issuerId store)
        (grant_id record) (grant_revision record) now)"

definition store_expire :: "host_runtime \<Rightarrow> 'r run_grant_store \<Rightarrow> 'r \<Rightarrow> run_grant option \<Rightarrow>
    string \<Rightarrow> (stored_run_grant \<times> 'r) result" where
  "store_expire host store r grant now =
     chain (store_authenticated host store r grant)
     (\<lambda>record. repo_expire (store_repository store) r (store_issuerId store)
        (grant_id record) (grant_revision record) now)"

definition store_readCanonical :: "'r run_grant_store \<Rightarrow> 'r \<Rightarrow> string \<Rightarrow> stored_run_grant option" where
  "store_readCanonical store r grantId =
     repo_read (store_repository store) r (store_issuerId store) grantId"

section \<open>The life cycle of a grant\<close>

text \<open>What may happen to one stored record, as the contract of the repository.\<close>

inductive grant_change :: "stored_run_grant \<Rightarrow> stored_run_grant \<Rightarrow> bool" where
  Reserve: "grant_state g = GrantActive \<Longrightarrow> grant_change g (reserve g)"
| Commit: "grant_state g = GrantActive \<Longrightarrow> 0 \<le> n \<Longrightarrow> n \<le> m \<Longrightarrow> grant_change g (commit n m g)"
| Release: "0 < m \<Longrightarrow> grant_change g (release m g)"
| Settle: "grant_state g = GrantActive \<Longrightarrow> st \<noteq> GrantActive \<Longrightarrow> grant_change g (settle st g)"
| Expire: "grant_change g (settle GrantExpired g)"

inductive_cases grant_changeE: "grant_change g h"

text \<open>The part of a record that is fixed when it is issued.\<close>

definition grant_terms :: "stored_run_grant \<Rightarrow> stored_run_grant" where
  "grant_terms g = g\<lparr>grant_callsUsed := 0, grant_responseBytesUsed := 0,
     grant_reservedCalls := 0, grant_reservedResponseBytes := 0, grant_state := GrantActive,
     grant_revision := 0\<rparr>"

text \<open>\<open>later a b\<close>: the record \<open>b\<close> is \<open>a\<close> some changes later.\<close>

definition later :: "stored_run_grant \<Rightarrow> stored_run_grant \<Rightarrow> bool" where
  "later a b \<longleftrightarrow> grant_terms a = grant_terms b \<and> grant_revision a \<le> grant_revision b \<and>
     (grant_revision a = grant_revision b \<longrightarrow> a = b) \<and>
     grant_callsUsed a \<le> grant_callsUsed b \<and>
     grant_responseBytesUsed a \<le> grant_responseBytesUsed b \<and>
     (grant_state a \<noteq> GrantActive \<longrightarrow> grant_state b \<noteq> GrantActive \<and>
        grant_callsUsed a = grant_callsUsed b \<and>
        grant_responseBytesUsed a = grant_responseBytesUsed b)"

lemma later_refl [simp]: "later a a"
  by (simp add: later_def)

lemma later_trans: "later a b \<Longrightarrow> later b c \<Longrightarrow> later a c"
  by (auto simp: later_def)

lemma grant_change_later: "grant_change a b \<Longrightarrow> later a b"
  by (elim grant_changeE) (simp_all add: later_def change_defs grant_terms_def)

section \<open>The contract of a repository\<close>

text \<open>Every readable record is unchanged or has moved one step along its life cycle.\<close>

definition changes :: "'r run_grant_repository \<Rightarrow> 'r \<Rightarrow> 'r \<Rightarrow> bool" where
  "changes repo r r' \<longleftrightarrow> (\<forall>i k. case repo_read repo r i k of
     None \<Rightarrow> repo_read repo r' i k = None
   | Some a \<Rightarrow> (\<exists>b. repo_read repo r' i k = Some b \<and> (a = b \<or> grant_change a b)))"

locale grant_repository =
  fixes repo :: "'r run_grant_repository"
    and ok :: "'r \<Rightarrow> bool"
    and fresh :: "string \<Rightarrow> 'r \<Rightarrow> bool"
  assumes quota_read: "ok r \<Longrightarrow> repo_read repo r i k = Some g \<Longrightarrow> quota g"
    and issue_ok: "repo_issue repo r g = Inr r' \<Longrightarrow> ok r \<Longrightarrow> unused g \<Longrightarrow> ok r'"
    and issue_read: "repo_issue repo r g = Inr r' \<Longrightarrow> ok r \<Longrightarrow> unused g \<Longrightarrow>
      repo_read repo r' (grant_issuerId g) (grant_id g) = Some g"
    and issue_keeps: "repo_issue repo r g = Inr r' \<Longrightarrow> ok r \<Longrightarrow> unused g \<Longrightarrow>
      repo_read repo r i k = Some h \<Longrightarrow> repo_read repo r' i k = Some h"
    and reserve_law: "repo_reserveCall repo u r i k e now = Inr (x, r') \<Longrightarrow> ok r \<Longrightarrow> fresh u r \<Longrightarrow>
      ok r' \<and> changes repo r r'"
    and commit_law: "repo_commitCall repo r x n now = Inr (g, r') \<Longrightarrow> ok r \<Longrightarrow>
      ok r' \<and> changes repo r r'"
    and release_law: "repo_releaseCall repo r x now = Inr (g, r') \<Longrightarrow> ok r \<Longrightarrow>
      ok r' \<and> changes repo r r'"
    and revoke_law: "repo_revoke repo r i k e now = Inr (g, r') \<Longrightarrow> ok r \<Longrightarrow>
      ok r' \<and> changes repo r r'"
    and consume_law: "repo_consume repo r i k e now = Inr (g, r') \<Longrightarrow> ok r \<Longrightarrow>
      ok r' \<and> changes repo r r'"
    and expire_law: "repo_expire repo r i k e now = Inr (g, r') \<Longrightarrow> ok r \<Longrightarrow>
      ok r' \<and> changes repo r r'"

text \<open>
  The steps the stores of any issuers sharing one repository can take, with any request, handle,
  reservation and time; the ids of new grants are UUIDs and those of new reservations are fresh.
\<close>

inductive store_step :: "host_runtime \<Rightarrow> 'r run_grant_repository \<Rightarrow> (string \<Rightarrow> 'r \<Rightarrow> bool) \<Rightarrow>
    'r \<Rightarrow> 'r \<Rightarrow> bool"
  for host :: host_runtime and repo :: "'r run_grant_repository" and fresh :: "string \<Rightarrow> 'r \<Rightarrow> bool"
  where
  Store_issue: "store_repository store = repo \<Longrightarrow> uuid_text uuid \<Longrightarrow>
    store_issue host store r request inventory now token uuid = Inr (h, r') \<Longrightarrow>
    store_step host repo fresh r r'"
| Store_reserve: "store_repository store = repo \<Longrightarrow> fresh uuid r \<Longrightarrow>
    store_reserveCall host store uuid r grant now = Inr (x, r') \<Longrightarrow> store_step host repo fresh r r'"
| Store_commit: "store_repository store = repo \<Longrightarrow>
    store_commitCall host store r grant x n now = Inr (g, r') \<Longrightarrow> store_step host repo fresh r r'"
| Store_release: "store_repository store = repo \<Longrightarrow>
    store_releaseCall host store r grant x now = Inr (g, r') \<Longrightarrow> store_step host repo fresh r r'"
| Store_revoke: "store_repository store = repo \<Longrightarrow>
    store_revoke host store r grant now = Inr (g, r') \<Longrightarrow> store_step host repo fresh r r'"
| Store_consume: "store_repository store = repo \<Longrightarrow>
    store_consume host store r grant now = Inr (g, r') \<Longrightarrow> store_step host repo fresh r r'"
| Store_expire: "store_repository store = repo \<Longrightarrow>
    store_expire host store r grant now = Inr (g, r') \<Longrightarrow> store_step host repo fresh r r'"

lemma safePositive_Inr [simp]: "safePositive v name = Inr u \<longleftrightarrow> isSafeInteger v \<and> 0 < v"
  by (auto simp: safePositive_def)

lemma check_request_unused:
  "check_request host request inventory now = Inr p \<Longrightarrow> uuid_text uuid \<Longrightarrow>
     unused (new_record host i request extensions toolIds token uuid)"
  by (auto simp: check_request_def check_limits_def chain_eq_Inr unused_def new_record_def
      quota_def not_less)

lemma store_issue_Inr:
  assumes "store_issue host store r request inventory now token uuid = Inr (h, r')"
  obtains extensions toolIds where
    "check_request host request inventory now = Inr (extensions, toolIds)"
    "repo_issue (store_repository store) r
      (new_record host (store_issuerId store) request extensions toolIds token uuid) = Inr r'"
    "h = \<lparr>handle_id = uuid, handle_token = token\<rparr>"
  using assms by (auto simp: store_issue_def chain_eq_Inr)

context grant_repository begin

lemma changes_later:
  assumes "changes repo r r'" and "repo_read repo r i k = Some a"
  shows "\<exists>b. repo_read repo r' i k = Some b \<and> later a b"
proof -
  obtain b where "repo_read repo r' i k = Some b" "a = b \<or> grant_change a b"
    using assms(1) [unfolded changes_def, rule_format, of i k] assms(2) by auto
  then show ?thesis using grant_change_later by auto
qed

lemma step_cases:
  assumes "store_step host repo fresh r r'" and "ok r"
  shows "ok r' \<and> (changes repo r r' \<or> (\<exists>g. unused g \<and> repo_issue repo r g = Inr r'))"
  using assms(1)
proof cases
  case (Store_issue store uuid request inventory now token h)
  obtain extensions toolIds where
    "check_request host request inventory now = Inr (extensions, toolIds)"
    and iss: "repo_issue (store_repository store) r
      (new_record host (store_issuerId store) request extensions toolIds token uuid) = Inr r'"
    using Store_issue(3) by (rule store_issue_Inr)
  from check_request_unused [OF this(1) Store_issue(2)] iss show ?thesis
    using issue_ok [OF iss [unfolded Store_issue(1)] assms(2)] Store_issue(1) by auto
next
  case (Store_reserve store uuid grant now x)
  then show ?thesis using reserve_law assms(2)
    by (auto simp: store_reserveCall_def chain_eq_Inr)
next
  case (Store_commit store grant x n now g)
  then show ?thesis using commit_law assms(2) by (auto simp: store_commitCall_def chain_eq_Inr)
next
  case (Store_release store grant x now g)
  then show ?thesis using release_law assms(2) by (auto simp: store_releaseCall_def chain_eq_Inr)
next
  case (Store_revoke store grant now g)
  then show ?thesis using revoke_law assms(2) by (auto simp: store_revoke_def chain_eq_Inr)
next
  case (Store_consume store grant now g)
  then show ?thesis using consume_law assms(2) by (auto simp: store_consume_def chain_eq_Inr)
next
  case (Store_expire store grant now g)
  then show ?thesis using expire_law assms(2) by (auto simp: store_expire_def chain_eq_Inr)
qed

lemma step_ok: "store_step host repo fresh r r' \<Longrightarrow> ok r \<Longrightarrow> ok r'"
  using step_cases by blast

lemma step_later:
  assumes "store_step host repo fresh r r'" and "ok r" and "repo_read repo r i k = Some a"
  shows "\<exists>b. repo_read repo r' i k = Some b \<and> later a b"
  using step_cases [OF assms(1,2)] changes_later [OF _ assms(3)] issue_keeps [OF _ assms(2) _ assms(3)]
  by (metis later_refl)

text \<open>What holds along every run of the stores.\<close>

lemma run_ok: "(store_step host repo fresh)\<^sup>*\<^sup>* r r' \<Longrightarrow> ok r \<Longrightarrow> ok r'"
  by (induction rule: rtranclp_induct) (auto intro: step_ok)

lemma run_later:
  assumes "(store_step host repo fresh)\<^sup>*\<^sup>* r r'" and "ok r" and "repo_read repo r i k = Some a"
  shows "\<exists>b. repo_read repo r' i k = Some b \<and> later a b"
  using assms
proof (induction rule: rtranclp_induct)
  case base
  then show ?case by auto
next
  case (step y z)
  then obtain b where b: "repo_read repo y i k = Some b" "later a b" by auto
  have "ok y" using run_ok step by blast
  then show ?case using step_later [OF step.hyps(2) _ b(1)] b(2) later_trans by blast
qed

lemma run_quota:
  "(store_step host repo fresh)\<^sup>*\<^sup>* r r' \<Longrightarrow> ok r \<Longrightarrow> repo_read repo r' i k = Some g \<Longrightarrow> quota g"
  using run_ok quota_read by blast

text \<open>A grant that is no longer active is denied in every later state.\<close>

lemma inactive_denied:
  assumes "(store_step host repo fresh)\<^sup>*\<^sup>* r r'" and "ok r" and "store_repository store = repo"
    and "repo_read repo r (store_issuerId store) (handle_id h) = Some a"
    and "grant_state a \<noteq> GrantActive"
  shows "store_authorize host store r' (Some h) now = Inr None"
proof -
  obtain b where "repo_read repo r' (store_issuerId store) (handle_id h) = Some b" "later a b"
    using run_later [OF assms(1,2,4)] by blast
  then show ?thesis using assms(3,5) by (auto simp: store_authorize_def store_find_def later_def)
qed

end

section \<open>The in-memory repository meets the contract\<close>

definition mem_fresh :: "string \<Rightarrow> memory_repository \<Rightarrow> bool" where
  "mem_fresh u r \<longleftrightarrow> u \<notin> fst ` set (mem_reservations r)"

lemma memory_repo_simps [simp]:
  "repo_issue (memory_repo parse) = mem_issue" "repo_read (memory_repo parse) = mem_read"
  "repo_reserveCall (memory_repo parse) = mem_reserveCall parse"
  "repo_commitCall (memory_repo parse) = mem_commitCall parse"
  "repo_releaseCall (memory_repo parse) = mem_releaseCall"
  "repo_revoke (memory_repo parse) = mem_revoke parse"
  "repo_consume (memory_repo parse) = mem_consume parse"
  "repo_expire (memory_repo parse) = mem_expire parse"
  by (simp_all add: memory_repo_def)

lemma changes_memI:
  assumes "map_of (mem_records r) k = Some a" and "grant_change a b"
    and "map_of (mem_records r') = (map_of (mem_records r))(k \<mapsto> b)"
  shows "changes (memory_repo parse) r r'"
  using assms by (auto simp: changes_def mem_read_map split: option.splits)

lemma mem_set_map: "map_of (mem_records (mem_set k g r)) = (map_of (mem_records r))(k \<mapsto> g)"
  by (rule ext) simp

lemma mem_reserve_law:
  assumes "mem_reserveCall parse u r i k e now = Inr (x, r')"
  shows "changes (memory_repo parse) r r'"
  using assms
proof (rule mem_reserveCall_Inr)
  fix rec assume rec: "mem_read r i k = Some rec" "active parse rec now = Inr ()"
    and r': "r' = (mem_set (grant_key i k) (reserve rec) r)\<lparr>mem_reservations :=
      AList.update u x (mem_reservations r)\<rparr>"
  have "grant_change rec (reserve rec)" using rec(2) by (intro Reserve) (simp add: active_Inr)
  then show ?thesis
    using rec(1) by (intro changes_memI [of r "grant_key i k" rec "reserve rec"])
      (simp_all add: r' mem_set_map mem_read_map)
qed

lemma mem_commit_law:
  assumes "mem_commitCall parse r x n now = Inr (g, r')"
  shows "changes (memory_repo parse) r r'"
  using assms
proof (rule mem_commitCall_Inr)
  fix stored rec assume rec: "map_of (mem_records r) (reservation_key stored) = Some rec"
    "active parse rec now = Inr ()" "0 \<le> n" "n \<le> rsv_maxResponseBytes stored"
    and g: "g = commit n (rsv_maxResponseBytes stored) rec"
    and r': "r' = mem_drop_reservation (rsv_id x) (mem_set (reservation_key stored) g r)"
  have "grant_change rec g" using rec unfolding g by (intro Commit) (simp_all add: active_Inr)
  then show ?thesis
    using rec(1) by (intro changes_memI [of r "reservation_key stored" rec g])
      (simp_all add: r' mem_set_map)
qed

lemma mem_release_law:
  assumes "mem_releaseCall r x now = Inr (g, r')" and "accounted r"
  shows "changes (memory_repo parse) r r'"
  using assms(1)
proof (rule mem_releaseCall_Inr)
  fix stored rec assume st: "map_of (mem_reservations r) (rsv_id x) = Some stored"
    and rec: "map_of (mem_records r) (reservation_key stored) = Some rec"
    and g: "g = release (rsv_maxResponseBytes stored) rec"
    and r': "r' = mem_drop_reservation (rsv_id x) (mem_set (reservation_key stored) g r)"
  have "grant_change rec g"
    using accounted_reservation [OF assms(2) st] unfolding g by (intro Release) simp
  then show ?thesis
    using rec by (intro changes_memI [of r "reservation_key stored" rec g])
      (simp_all add: r' mem_set_map)
qed

lemma mem_transition_law:
  assumes "mem_transition parse st r i k e now = Inr (g, r')" and "accounted r" and "st \<noteq> GrantActive"
  shows "accounted r' \<and> changes (memory_repo parse) r r'"
  using assms(1)
proof (rule mem_transition_Inr)
  fix rec assume rec: "mem_read r i k = Some rec" "active parse rec now = Inr ()"
    and g: "g = settle st rec" and r': "r' = mem_set (grant_key i k) g r"
  have "grant_change rec g" using rec(2) assms(3) unfolding g by (intro Settle) (simp add: active_Inr)
  then show ?thesis
    using settle_accounted [OF assms(2) rec(1), of st] rec(1)
    by (auto intro!: changes_memI [of r "grant_key i k" rec g] simp: r' g mem_set_map mem_read_map)
qed

lemma mem_expire_law:
  assumes "mem_expire parse r i k e now = Inr (g, r')" and "accounted r"
  shows "accounted r' \<and> changes (memory_repo parse) r r'"
  using assms(1)
proof (rule mem_expire_Inr)
  fix rec ex t assume rec: "mem_read r i k = Some rec"
    and g: "g = settle GrantExpired rec" and r': "r' = mem_set (grant_key i k) g r"
  then show ?thesis
    using settle_accounted [OF assms(2) rec, of GrantExpired] Expire [of rec]
    by (auto intro!: changes_memI [of r "grant_key i k" rec g] simp: r' g mem_set_map mem_read_map)
qed

interpretation memory: grant_repository "memory_repo parse" accounted mem_fresh
  for parse :: "string \<Rightarrow> int option"
proof unfold_locales
  fix r r' :: memory_repository and g h and i k u now :: string and x and n e
  show "quota g" if "accounted r" "repo_read (memory_repo parse) r i k = Some g"
    using accounted_record [OF that(1)] that(2) by (simp add: mem_read_map)
  show "accounted r'" if "repo_issue (memory_repo parse) r g = Inr r'" "accounted r" "unused g"
    using issue_accounted that by simp
  show "repo_read (memory_repo parse) r' (grant_issuerId g) (grant_id g) = Some g"
    if "repo_issue (memory_repo parse) r g = Inr r'"
    using that by (simp add: mem_issue_Inr mem_read_map record_key_def)
  show "repo_read (memory_repo parse) r' i k = Some h"
    if "repo_issue (memory_repo parse) r g = Inr r'" "repo_read (memory_repo parse) r i k = Some h"
    using that by (auto simp: mem_issue_Inr mem_read_map)
  show "accounted r' \<and> changes (memory_repo parse) r r'"
    if "repo_reserveCall (memory_repo parse) u r i k e now = Inr (x, r')" "accounted r" "mem_fresh u r"
    using reserve_accounted mem_reserve_law that by (auto simp: mem_fresh_def)
  show "accounted r' \<and> changes (memory_repo parse) r r'"
    if "repo_commitCall (memory_repo parse) r x n now = Inr (g, r')" "accounted r"
    using commit_accounted mem_commit_law that by auto
  show "accounted r' \<and> changes (memory_repo parse) r r'"
    if "repo_releaseCall (memory_repo parse) r x now = Inr (g, r')" "accounted r"
    using release_accounted mem_release_law that by auto
  show "accounted r' \<and> changes (memory_repo parse) r r'"
    if "repo_revoke (memory_repo parse) r i k e now = Inr (g, r')" "accounted r"
    using mem_transition_law that by (auto simp: mem_revoke_def)
  show "accounted r' \<and> changes (memory_repo parse) r r'"
    if "repo_consume (memory_repo parse) r i k e now = Inr (g, r')" "accounted r"
    using mem_transition_law that by (auto simp: mem_consume_def)
  show "accounted r' \<and> changes (memory_repo parse) r r'"
    if "repo_expire (memory_repo parse) r i k e now = Inr (g, r')" "accounted r"
    using mem_expire_law that by auto
qed

definition empty_repository :: memory_repository where
  "empty_repository = \<lparr>mem_records = [], mem_reservations = []\<rparr>"

lemma empty_accounted: "accounted empty_repository"
  by (simp add: empty_repository_def accounted_def)

section \<open>A concrete run\<close>

definition sample_host :: host_runtime where
  "sample_host = \<lparr>host_collate = code_unit_compare, host_parse = length_clock, host_sha = (\<lambda>s. s)\<rparr>"

definition sample_store :: "memory_repository run_grant_store" where
  "sample_store = \<lparr>store_issuerId = ''i'', store_repository = memory_repo length_clock\<rparr>"

definition sample_request :: run_grant_request where
  "sample_request = \<lparr>rgr_runId = ''r'', rgr_providerId = ''p'', rgr_toolIds = [''t''],
     rgr_inventoryDigest = json_digest (\<lambda>s. s) (inventory_json code_unit_compare sample_inventory),
     rgr_protocolVersion = ''2026-01-01'', rgr_extensions = [''x''], rgr_issuedAt = ''t'',
     rgr_expiresAt = ''tttt'', rgr_maxCalls = 2, rgr_maxResponseBytes = 60,
     rgr_maxTotalResponseBytes = 100\<rparr>"

definition sample_grant :: stored_run_grant where
  "sample_grant = new_record sample_host ''i'' sample_request [''x''] [''t''] ''ab'' ''u''"

definition sample_handle :: run_grant where
  "sample_handle = \<lparr>handle_id = ''u'', handle_token = ''ab''\<rparr>"

definition sample_issued :: memory_repository where
  "sample_issued = mem_set (grant_key ''i'' ''u'') sample_grant empty_repository"

definition sample_reservation :: call_reservation where
  "sample_reservation = \<lparr>rsv_id = ''c'', rsv_grantId = ''u'', rsv_issuerId = ''i'',
     rsv_revision = 1, rsv_maxResponseBytes = 60\<rparr>"

definition sample_reserved :: memory_repository where
  "sample_reserved = (mem_set (grant_key ''i'' ''u'') (reserve sample_grant) sample_issued)
     \<lparr>mem_reservations := [(''c'', sample_reservation)]\<rparr>"

abbreviation grant_run :: "host_runtime \<Rightarrow> memory_repository \<Rightarrow> memory_repository \<Rightarrow> bool" where
  "grant_run host \<equiv> (store_step host (memory_repo (host_parse host)) mem_fresh)\<^sup>*\<^sup>*"

lemma sample_host_simps [simp]:
  "host_collate sample_host = code_unit_compare" "host_parse sample_host = length_clock"
  "host_sha sample_host = (\<lambda>s. s)" "store_issuerId sample_store = ''i''"
  "store_repository sample_store = memory_repo length_clock"
  by (simp_all add: sample_host_def sample_store_def)

lemma sample_time: "parseTime length_clock (CHR ''t'' # s) name = Inr (int (length s) + 1)"
  by (simp add: parseTime_def requireText_def blank_Cons js_white_def length_clock_def guard_def)

lemma sample_checks:
  "check_request sample_host sample_request sample_inventory ''tt'' = Inr ([''x''], [''t''])"
proof -
  have "check_limits sample_request = Inr ()"
    by (simp add: check_limits_def sample_request_def requireText_def blank_Cons js_white_def
        chain_eq_Inr isSafeInteger_def)
  moreover have "check_window sample_host sample_request ''tt'' = Inr ()"
    by (simp add: check_window_def sample_request_def sample_time)
  moreover have "check_inventory_digest sample_host sample_request sample_inventory = Inr ()"
    using sample_inventory_digest
    by (simp add: check_inventory_digest_def sample_request_def)
      (simp add: sample_inventory_def)
  moreover have "normalizedStrings lc [[c]] name = Inr [[c]]" if "\<not> js_white c" for lc c name
    using that by (simp add: normalizedStrings_def requireText_def blank_Cons chain_eq_Inr)
  moreover have "check_tool_id sample_inventory ''t'' = Inr ()"
    by (simp add: check_tool_id_def sample_inventory_def sample_tool_def js_map_def)
  moreover have "rgr_protocolVersion sample_request \<in> set (inv_protocolVersions sample_inventory)"
    "rgr_extensions sample_request = [''x'']" "rgr_toolIds sample_request = [''t'']"
    "or_nil (inv_extensions sample_inventory) = [''x'']"
    by (simp_all add: sample_request_def sample_inventory_def or_nil_def)
  ultimately show ?thesis
    by (simp add: check_request_def sample_inventory_valid js_white_def)
qed

lemma sample_issue:
  "store_issue sample_host sample_store empty_repository sample_request sample_inventory ''tt''
    ''ab'' ''u'' = Inr (sample_handle, sample_issued)"
  by (simp add: store_issue_def sample_checks mem_issue_def empty_repository_def Let_def
      sample_handle_def sample_issued_def sample_grant_def) (simp add: new_record_def)

lemma sample_find:
  "store_find sample_host sample_store sample_issued (Some sample_handle) = Some sample_grant"
  by (simp add: store_find_def sample_handle_def mem_read_map sample_issued_def tokenMatches_def
      tokenHash_def sample_grant_def new_record_def)

lemma sample_reserve:
  "store_reserveCall sample_host sample_store ''c'' sample_issued (Some sample_handle) ''tt'' =
    Inr (sample_reservation, sample_reserved)"
proof -
  have auth: "store_authorized sample_host sample_store sample_issued (Some sample_handle) ''tt'' =
      Inr sample_grant"
    by (simp add: store_authorized_def store_authorize_def sample_find)
      (simp add: sample_grant_def new_record_def sample_request_def sample_time)
  have "mem_reserveCall length_clock ''c'' sample_issued ''i'' (grant_id sample_grant)
      (grant_revision sample_grant) ''tt'' = Inr (sample_reservation, sample_reserved)"
    by (simp add: mem_reserveCall_def mem_required_def mem_read_map sample_issued_def
        sample_grant_def new_record_def sample_request_def requireRevision_def isSafeInteger_def
        active_def sample_time Let_def sample_reservation_def sample_reserved_def empty_repository_def
        reserve_def remaining_bytes_def mem_set_def)
  then show ?thesis using auth by (simp add: store_reserveCall_def)
qed

lemma sample_run:
  "grant_run sample_host empty_repository sample_issued"
  "grant_run sample_host sample_issued sample_reserved"
proof -
  show "grant_run sample_host empty_repository sample_issued"
    using Store_issue [OF _ _ sample_issue] by (intro r_into_rtranclp) (simp add: uuid_text_def)
  have "mem_fresh ''c'' sample_issued" by (simp add: mem_fresh_def sample_issued_def empty_repository_def)
  then show "grant_run sample_host sample_issued sample_reserved"
    using Store_reserve [OF _ _ sample_reserve] by (intro r_into_rtranclp) simp
qed

section \<open>Properties\<close>

lemma run_accounted: "grant_run host empty_repository r \<Longrightarrow> accounted r"
  using memory.run_ok empty_accounted by blast

text \<open>
  C38: However the stores are used, a grant never exceeds its quotas: in every state reachable
  from the empty repository the calls used and reserved stay within \<open>maxCalls\<close>, the response
  bytes used and reserved within \<open>maxTotalResponseBytes\<close>, the reserved counters are exactly the
  open reservations of the grant and their bytes, and no counter leaves the safe integers.
\<close>

theorem grants_within_quota:
  assumes "grant_run host empty_repository r" and "mem_read r i k = Some g"
  shows "0 \<le> grant_callsUsed g \<and> grant_callsUsed g + grant_reservedCalls g \<le> grant_maxCalls g \<and>
    0 \<le> grant_responseBytesUsed g \<and>
    grant_responseBytesUsed g + grant_reservedResponseBytes g \<le> grant_maxTotalResponseBytes g \<and>
    grant_reservedCalls g = int (size (held r (grant_key i k))) \<and>
    grant_reservedResponseBytes g = held_bytes r (grant_key i k) \<and>
    isSafeInteger (grant_maxCalls g) \<and> isSafeInteger (grant_maxTotalResponseBytes g)"
proof -
  have "accounted r" using assms(1) by (rule run_accounted)
  then show ?thesis
    using accounted_record [of r "grant_key i k" g] assms(2) by (simp add: mem_read_map quota_def)
qed

lemma sample_reserved_read:
  "mem_read sample_reserved ''i'' ''u'' = Some (reserve sample_grant)"
  by (simp add: mem_read_map sample_reserved_def)

lemma grants_within_quota_witness:
  "grant_run sample_host empty_repository sample_reserved \<and>
    mem_read sample_reserved ''i'' ''u'' = Some (reserve sample_grant) \<and>
    grant_callsUsed (reserve sample_grant) + grant_reservedCalls (reserve sample_grant) \<le>
      grant_maxCalls (reserve sample_grant)"
proof -
  have run: "grant_run sample_host empty_repository sample_reserved"
    using sample_run by (rule rtranclp_trans)
  show ?thesis
    using run sample_reserved_read grants_within_quota [OF run sample_reserved_read] by blast
qed

text \<open>
  C39: The life of a grant only goes forward. Along every run its terms never change, its revision
  and its used counters never decrease; once it is revoked, consumed, exhausted or expired it is
  never active again, no further call or byte is charged to it, and every store of its issuer
  refuses to authorize it, whatever the token and the time.
\<close>

theorem grant_life_forward:
  assumes "grant_run host empty_repository r" and "grant_run host r r'"
    and "mem_read r i k = Some a"
  shows "\<exists>b. mem_read r' i k = Some b \<and> grant_terms b = grant_terms a \<and>
    grant_revision a \<le> grant_revision b \<and> grant_callsUsed a \<le> grant_callsUsed b \<and>
    grant_responseBytesUsed a \<le> grant_responseBytesUsed b \<and>
    (grant_state a \<noteq> GrantActive \<longrightarrow> grant_state b \<noteq> GrantActive \<and>
      grant_callsUsed b = grant_callsUsed a \<and>
      grant_responseBytesUsed b = grant_responseBytesUsed a \<and>
      (\<forall>token now. store_authorize host
        \<lparr>store_issuerId = i, store_repository = memory_repo (host_parse host)\<rparr> r'
        (Some \<lparr>handle_id = k, handle_token = token\<rparr>) now = Inr None))"
proof -
  have ok: "accounted r" using assms(1) by (rule run_accounted)
  obtain b where "mem_read r' i k = Some b" "later a b"
    using memory.run_later [OF assms(2) ok, of i k a] assms(3) by auto
  moreover have "store_authorize host
        \<lparr>store_issuerId = i, store_repository = memory_repo (host_parse host)\<rparr> r'
        (Some \<lparr>handle_id = k, handle_token = token\<rparr>) now = Inr None"
    if "grant_state a \<noteq> GrantActive" for token now
    using memory.inactive_denied [OF assms(2) ok, of
        "\<lparr>store_issuerId = i, store_repository = memory_repo (host_parse host)\<rparr>"
        "\<lparr>handle_id = k, handle_token = token\<rparr>" a now] assms(3) that by simp
  ultimately show ?thesis by (auto simp: later_def)
qed

lemma grant_life_forward_witness:
  "grant_run sample_host sample_issued sample_reserved \<and>
    (\<exists>b. mem_read sample_reserved ''i'' ''u'' = Some b \<and>
      grant_revision sample_grant \<le> grant_revision b)"
proof -
  have read: "mem_read sample_issued ''i'' ''u'' = Some sample_grant"
    by (simp add: mem_read_map sample_issued_def)
  show ?thesis using grant_life_forward [OF sample_run read] sample_run(2) by blast
qed

text \<open>
  A grant that was just issued is authorized by exactly its token until it expires. The record
  found is unused and active, names only read-only tools of the inventory, and is found for
  another token only if the two tokens have the same hash.
\<close>

theorem issued_grant_authorizes:
  assumes "store_issue host store r request inventory now token uuid = Inr (h, r')"
    and "store_repository store = memory_repo (host_parse host)" and "uuid_text uuid"
    and "parseTime (host_parse host) later_now ''now'' = Inr t"
    and "host_parse host (rgr_expiresAt request) = Some e" and "t < e"
  shows "\<exists>g. unused g \<and> grant_runId g = rgr_runId request \<and>
    set (grant_toolIds g) = set (rgr_toolIds request) \<and>
    (\<forall>i \<in> set (grant_toolIds g). \<exists>tool \<in> set (inv_tools inventory). tool_id tool = i \<and> tool_readOnly tool) \<and>
    (\<forall>token'. store_authorize host store r' (Some (h\<lparr>handle_token := token'\<rparr>)) later_now =
      Inr (if hex_bytes (host_sha host token) = hex_bytes (host_sha host token')
        then Some g else None))"
proof -
  obtain extensions toolIds where
    checks: "check_request host request inventory now = Inr (extensions, toolIds)"
    and iss: "mem_issue r (new_record host (store_issuerId store) request extensions toolIds token uuid) = Inr r'"
    and h: "h = \<lparr>handle_id = uuid, handle_token = token\<rparr>"
    using assms(1,2) by (elim store_issue_Inr) simp
  let ?g = "new_record host (store_issuerId store) request extensions toolIds token uuid"
  have "check_window host request now = Inr ()"
    using checks by (auto simp: check_request_def chain_eq_Inr)
  then have expires: "parseTime (host_parse host) (rgr_expiresAt request) ''expiresAt'' = Inr e"
    using assms(5) by (auto simp: check_window_def chain_eq_Inr parseTime_def split: option.splits)
  have ids: "set toolIds = set (rgr_toolIds request)"
    and each: "\<forall>i \<in> set toolIds. check_tool_id inventory i = Inr ()"
    using checks
    by (auto simp: check_request_def chain_eq_Inr normalizedStrings_def
        for_each_check [of "check_tool_id inventory"])
  have tools: "\<exists>tool \<in> set (inv_tools inventory). tool_id tool = i \<and> tool_readOnly tool"
    if "check_tool_id inventory i = Inr ()" for i
    using that by (auto simp: check_tool_id_def map_of_js_map dest!: map_of_SomeD split: option.splits)
  have read: "mem_read r' (store_issuerId store) uuid = Some ?g"
    using iss by (auto simp: mem_issue_Inr mem_read_map record_key_def) (simp add: new_record_def)
  have "store_authorize host store r' (Some (h\<lparr>handle_token := token'\<rparr>)) later_now =
      Inr (if hex_bytes (host_sha host token) = hex_bytes (host_sha host token')
        then Some ?g else None)" for token'
    using assms(2,4,6) read expires
    by (simp add: store_authorize_def store_find_def h tokenMatches_def new_record_def tokenHash_def)
  then show ?thesis
    using check_request_unused [OF checks assms(3)] ids each tools
    by (intro exI [of _ ?g]) (simp add: new_record_def)
qed

lemma issued_grant_authorizes_witness:
  "\<exists>g. unused g \<and> set (grant_toolIds g) = {''t''} \<and>
    store_authorize sample_host sample_store sample_issued (Some sample_handle) ''ttt'' = Inr (Some g) \<and>
    store_authorize sample_host sample_store sample_issued
      (Some (sample_handle\<lparr>handle_token := ''cd''\<rparr>)) ''ttt'' = Inr None"
proof -
  have differ: "hex_bytes ''ab'' \<noteq> hex_bytes ''cd''"
    by (simp add: hex_val_def)
  have same: "sample_handle\<lparr>handle_token := ''ab''\<rparr> = sample_handle" by (simp add: sample_handle_def)
  obtain g where g: "unused g" "set (grant_toolIds g) = set (rgr_toolIds sample_request)"
    "\<forall>token'. store_authorize sample_host sample_store sample_issued
      (Some (sample_handle\<lparr>handle_token := token'\<rparr>)) ''ttt'' =
      Inr (if hex_bytes ''ab'' = hex_bytes token' then Some g else None)"
    using issued_grant_authorizes [OF sample_issue, of "''ttt''" 3 4]
    by (simp add: sample_time sample_request_def length_clock_def uuid_text_def) blast
  show ?thesis
    using g(1,2) g(3) [rule_format, of "''ab''"] g(3) [rule_format, of "''cd''"] differ
    unfolding same by (auto simp: sample_request_def)
qed

text \<open>Releasing an open reservation closes it and gives its call back.\<close>

lemma open_reservation_releases:
  assumes "accounted r"
    and "map_of (mem_reservations r) (rsv_id x) = Some x"
    and "store_repository store = memory_repo (host_parse host)"
    and "store_find host store r grant = Some g"
    and "grant_id g = rsv_grantId x" and "grant_issuerId g = rsv_issuerId x"
  shows "store_releaseCall host store r grant x now = Inr (release (rsv_maxResponseBytes x) g,
      mem_drop_reservation (rsv_id x)
        (mem_set (reservation_key x) (release (rsv_maxResponseBytes x) g) r)) \<and>
    map_of (mem_records r) (reservation_key x) = Some g"
proof -
  obtain a where a: "map_of (mem_records r) (reservation_key x) = Some a"
    using accounted_reservation [OF assms(1,2)] by blast
  have cover: "1 \<le> grant_reservedCalls a" "rsv_maxResponseBytes x \<le> grant_reservedResponseBytes a"
    using held_covers [OF assms(1,2) a] by simp_all
  obtain k where read: "mem_read r (store_issuerId store) k = Some g"
    using assms(3,4) by (auto simp: store_find_def split: option.splits if_splits)
  then have "record_key g = grant_key (store_issuerId store) k"
    using accounted_record [OF assms(1)] by (simp add: mem_read_map)
  then have "a = g" using read a assms(5,6)
    by (simp add: mem_read_map record_key_def reservation_key_def)
  have same: "x\<lparr>rsv_issuerId := grant_issuerId g, rsv_grantId := grant_id g\<rparr> = x"
    using assms(5,6) by simp
  have "mem_releaseCall r x now = Inr (release (rsv_maxResponseBytes x) a,
      mem_drop_reservation (rsv_id x) (mem_set (reservation_key x) (release (rsv_maxResponseBytes x) a) r))"
    using a cover assms(2)
    by (simp add: mem_releaseCall_def reserved_record_def Let_def release_def reservation_key_def)
  then show ?thesis
    using assms(3,4) same a \<open>a = g\<close>
    by (simp add: store_releaseCall_def store_authenticated_def)
qed

text \<open>
  Quota is never leaked. In every reachable state each open reservation can be released by its
  holder, even after the grant has been revoked, exhausted or has expired, and releasing it closes
  it and gives its call back.
\<close>

theorem reservation_releasable:
  assumes "grant_run host empty_repository r"
    and "map_of (mem_reservations r) (rsv_id x) = Some x"
    and "store_repository store = memory_repo (host_parse host)"
    and "store_find host store r grant = Some g"
    and "grant_id g = rsv_grantId x" and "grant_issuerId g = rsv_issuerId x"
  shows "\<exists>g' r'. store_releaseCall host store r grant x now = Inr (g', r') \<and>
    map_of (mem_reservations r') (rsv_id x) = None \<and>
    mem_read r' (rsv_issuerId x) (rsv_grantId x) = Some g' \<and>
    grant_state g' = grant_state g \<and> grant_reservedCalls g' = grant_reservedCalls g - 1"
  using open_reservation_releases [OF run_accounted [OF assms(1)] assms(2-6)]
  by (simp add: mem_read_map reservation_key_def) (simp add: release_def clone_def)

lemma reservation_releasable_witness:
  "\<exists>g r'. store_releaseCall sample_host sample_store sample_reserved (Some sample_handle)
      sample_reservation ''z'' = Inr (g, r') \<and> map_of (mem_reservations r') ''c'' = None"
proof -
  have run: "grant_run sample_host empty_repository sample_reserved"
    using sample_run by (rule rtranclp_trans)
  have find: "store_find sample_host sample_store sample_reserved (Some sample_handle) =
      Some (reserve sample_grant)"
    using sample_find
    by (simp add: store_find_def sample_handle_def mem_read_map sample_reserved_def sample_issued_def
        tokenMatches_def reserve_def clone_def sample_grant_def new_record_def tokenHash_def)
  show ?thesis
    using reservation_releasable [OF run, of sample_reservation sample_store "Some sample_handle"
        "reserve sample_grant" "''z''"] find
    by (auto simp: sample_reserved_def sample_reservation_def reserve_def clone_def sample_grant_def
        new_record_def)
qed

text \<open>
  Committing a reserved call succeeds exactly when the reported response is within the bytes
  of the reservation and the reservation's grant is active and unexpired; it then closes the
  reservation and charges one call and the reported bytes to that grant, exhausting it at a limit.
  The overflow, quota and mismatch branches are unreachable. The handle only has to authorize some
  grant \<open>g0\<close>: the code does not compare it with the grant of the reservation.
\<close>

theorem commit_charges_reservation:
  assumes "grant_run host empty_repository r"
    and "store_repository store = memory_repo (host_parse host)"
    and "store_authorized host store r grant now = Inr g0"
    and "map_of (mem_reservations r) (rsv_id x) = Some x"
    and "mem_read r (rsv_issuerId x) (rsv_grantId x) = Some g" and "isSafeInteger n"
  shows "case store_commitCall host store r grant x n now of
      Inl e \<Rightarrow> \<not> (0 \<le> n \<and> n \<le> rsv_maxResponseBytes x \<and> active (host_parse host) g now = Inr ())
    | Inr (g', r') \<Rightarrow> 0 \<le> n \<and> n \<le> rsv_maxResponseBytes x \<and>
        active (host_parse host) g now = Inr () \<and>
        g' = commit n (rsv_maxResponseBytes x) g \<and>
        mem_read r' (rsv_issuerId x) (rsv_grantId x) = Some g' \<and>
        map_of (mem_reservations r') (rsv_id x) = None"
proof -
  have ok: "accounted r" using assms(1) by (rule run_accounted)
  have g: "map_of (mem_records r) (reservation_key x) = Some g"
    using assms(5) by (simp add: mem_read_map reservation_key_def)
  have cover: "1 \<le> grant_reservedCalls g" "rsv_maxResponseBytes x \<le> grant_reservedResponseBytes g"
    using held_covers [OF ok assms(4) g] by simp_all
  have quota: "quota g" using accounted_record [OF ok g] by simp
  have run: "store_commitCall host store r grant x n now = mem_commitCall (host_parse host) r x n now"
    using assms(2,3) by (simp add: store_commitCall_def)
  show ?thesis
  proof (cases "0 \<le> n \<and> n \<le> rsv_maxResponseBytes x \<and> active (host_parse host) g now = Inr ()")
    case True
    have rec: "reserved_record r (grant_key (rsv_issuerId x) (rsv_grantId x)) (rsv_maxResponseBytes x) = Inr g"
      using g cover by (simp add: reserved_record_Inr reservation_key_def)
    have limits: "isSafeInteger (grant_responseBytesUsed g + n)"
      "grant_responseBytesUsed g + n \<le> grant_maxTotalResponseBytes g"
      "isSafeInteger (grant_callsUsed g + 1)"
      using quota cover True by (auto simp: quota_def isSafeInteger_def)
    then have "mem_commitCall (host_parse host) r x n now = Inr (commit n (rsv_maxResponseBytes x) g,
        mem_drop_reservation (rsv_id x) (mem_set (reservation_key x) (commit n (rsv_maxResponseBytes x) g) r))"
      using True assms(4,6) rec
      by (simp add: mem_commitCall_def safeNonNegative_def guard_def Let_def commit_def
          reservation_key_def)
    then show ?thesis unfolding run using True by (simp add: mem_read_map reservation_key_def)
  next
    case False
    have "\<exists>e. mem_commitCall (host_parse host) r x n now = Inl e"
    proof (cases "mem_commitCall (host_parse host) r x n now")
      case (Inr p)
      obtain g' r' where "p = (g', r')" by (cases p)
      with Inr have "mem_commitCall (host_parse host) r x n now = Inr (g', r')" by simp
      from mem_commitCall_Inr [OF this] have False using False g assms(4)
        by (metis option.inject)
      then show ?thesis ..
    qed auto
    then show ?thesis unfolding run using False by auto
  qed
qed

lemma sample_active:
  "store_authorized sample_host sample_store sample_reserved (Some sample_handle) ''tt'' =
    Inr (reserve sample_grant)"
  by (simp add: store_authorized_def store_authorize_def store_find_def sample_handle_def
      mem_read_map sample_reserved_def sample_issued_def tokenMatches_def reserve_def clone_def
      sample_grant_def new_record_def tokenHash_def sample_request_def sample_time)

lemma commit_charges_reservation_witness:
  "\<exists>g r. store_commitCall sample_host sample_store sample_reserved (Some sample_handle)
      sample_reservation 40 ''tt'' = Inr (g, r) \<and>
    grant_callsUsed g = 1 \<and> grant_responseBytesUsed g = 40 \<and> grant_reservedCalls g = 0"
proof -
  have run: "grant_run sample_host empty_repository sample_reserved"
    using sample_run by (rule rtranclp_trans)
  have "active length_clock (reserve sample_grant) ''tt'' = Inr ()"
    by (simp add: active_def reserve_def clone_def sample_grant_def new_record_def sample_request_def
        sample_time)
  then show ?thesis
    using commit_charges_reservation [OF run _ sample_active, of sample_reservation
        "reserve sample_grant" 40] sample_reserved_read
    by (auto simp: sample_reservation_def sample_reserved_def isSafeInteger_def commit_def reserve_def
        clone_def sample_grant_def new_record_def split: sum.splits)
qed

end
