(* ===== verification/Audit_Log.thy ===== *)
theory Audit_Log
  imports Context_Gateway
begin

text \<open>
  \<open>packages/core/src/audit.ts\<close>: the in-memory audit sink, an append-only list in which every
  event carries the digest of the one before it. \<open>parse\<close> is \<open>Date.parse\<close> and \<open>sha\<close> is SHA-256.
\<close>

record audit_event_input =
  evi_code :: string
  evi_occurredAt :: string

record stored_audit_event =
  aud_sequence :: int
  aud_code :: string
  aud_occurredAt :: string
  aud_previousDigest :: "string option"
  aud_digest :: string

definition audit_text :: "string \<Rightarrow> string \<Rightarrow> string result" where
  "audit_text value name = chain (guard (blank value) (TypeError (''Invalid '' @ name @ ''.'')))
     (\<lambda>_. Inr value)"

definition audit_occurredAt :: "(string \<Rightarrow> int option) \<Rightarrow> string \<Rightarrow> string result" where
  "audit_occurredAt parse value = chain (audit_text value ''occurredAt'')
     (\<lambda>result. chain (guard (parse result = None) (TypeError ''Invalid occurredAt.''))
     (\<lambda>_. Inr result))"

definition audit_sequence :: "int \<Rightarrow> int result" where
  "audit_sequence value = chain (guard (\<not> isSafeInteger value \<or> value \<le> 0)
     (TypeError ''Invalid sequence.'')) (\<lambda>_. Inr value)"

text \<open>\<open>/^sha256:[0-9a-f]{64}$/\<close>.\<close>

definition lower_hex :: "char \<Rightarrow> bool" where
  "lower_hex c \<longleftrightarrow> is_digit c \<or> c \<in> set ''abcdef''"

definition digest_text :: "string \<Rightarrow> bool" where
  "digest_text s \<longleftrightarrow> take 7 s = ''sha256:'' \<and> length s = 71 \<and> list_all lower_hex (drop 7 s)"

definition maybeDigest :: "string option \<Rightarrow> string option result" where
  "maybeDigest value = (case value of None \<Rightarrow> Inr None
   | Some d \<Rightarrow> if digest_text d then Inr (Some d) else Inl (TypeError ''Invalid previousDigest.''))"

definition audit_json :: "int \<Rightarrow> string \<Rightarrow> string \<Rightarrow> string option \<Rightarrow> json" where
  "audit_json n code at previous = JObj [(''sequence'', JInt n), (''code'', JStr code),
     (''occurredAt'', JStr at), (''previousDigest'', opt_str_json previous)]"

definition auditEventDigest :: "(string \<Rightarrow> string) \<Rightarrow> (string \<Rightarrow> int option) \<Rightarrow> int \<Rightarrow> string \<Rightarrow>
    string \<Rightarrow> string option \<Rightarrow> string result" where
  "auditEventDigest sha parse n code at previous =
     chain (audit_sequence n) (\<lambda>n. chain (audit_text code ''code'')
     (\<lambda>code. chain (audit_occurredAt parse at) (\<lambda>at. chain (maybeDigest previous)
     (\<lambda>previous. digestJson sha (audit_json n code at previous)))))"

text \<open>\<open>append\<close>, on the list of events so far.\<close>

definition audit_append :: "(string \<Rightarrow> string) \<Rightarrow> (string \<Rightarrow> int option) \<Rightarrow>
    stored_audit_event list \<Rightarrow> audit_event_input \<Rightarrow>
    (stored_audit_event \<times> stored_audit_event list) result" where
  "audit_append sha parse events event =
     (let n = (if events = [] then 1 else aud_sequence (last events) + 1);
          previous = (if events = [] then None else Some (aud_digest (last events))) in
      chain (audit_text (evi_code event) ''code'')
      (\<lambda>code. chain (audit_occurredAt parse (evi_occurredAt event))
      (\<lambda>at. chain (auditEventDigest sha parse n code at previous)
      (\<lambda>digest. let stored = \<lparr>aud_sequence = n, aud_code = code, aud_occurredAt = at,
           aud_previousDigest = previous, aud_digest = digest\<rparr>
         in Inr (stored, events @ [stored])))))"

definition audit_readAll :: "stored_audit_event list \<Rightarrow> stored_audit_event list" where
  "audit_readAll events = events"

text \<open>A sink to which a list of events is appended, one after the other.\<close>

definition audit_log :: "(string \<Rightarrow> string) \<Rightarrow> (string \<Rightarrow> int option) \<Rightarrow> audit_event_input list \<Rightarrow>
    stored_audit_event list result" where
  "audit_log sha parse inputs = for_each (\<lambda>event events.
     chain (audit_append sha parse events event) (\<lambda>p. Inr (snd p))) inputs []"

section \<open>The chain\<close>

fun chained :: "(string \<Rightarrow> string) \<Rightarrow> int \<Rightarrow> string option \<Rightarrow> stored_audit_event list \<Rightarrow> bool" where
  "chained sha n previous [] = True"
| "chained sha n previous (e # es) \<longleftrightarrow> aud_sequence e = n \<and> aud_previousDigest e = previous \<and>
     aud_digest e = json_digest sha (audit_json n (aud_code e) (aud_occurredAt e) previous) \<and>
     chained sha (n + 1) (Some (aud_digest e)) es"

lemma chained_append:
  "chained sha n previous (es @ fs) \<longleftrightarrow> chained sha n previous es \<and>
     chained sha (n + int (length es)) (if es = [] then previous else Some (aud_digest (last es))) fs"
  by (induction es arbitrary: n previous) (auto simp: algebra_simps)

lemma chained_last_sequence:
  "chained sha n previous es \<Longrightarrow> es \<noteq> [] \<Longrightarrow> aud_sequence (last es) = n + int (length es) - 1"
  by (induction es arbitrary: n previous) auto

lemma finite_audit_json [simp]: "finite_json (audit_json n code at previous)"
  by (simp add: audit_json_def)

lemma auditEventDigest_Inr:
  "auditEventDigest sha parse n code at previous = Inr d \<longleftrightarrow>
     isSafeInteger n \<and> 0 < n \<and> \<not> blank code \<and> \<not> blank at \<and> parse at \<noteq> None \<and>
     (\<forall>p. previous = Some p \<longrightarrow> digest_text p) \<and> d = json_digest sha (audit_json n code at previous)"
  by (auto simp: auditEventDigest_def audit_sequence_def audit_text_def audit_occurredAt_def
      maybeDigest_def chain_eq_Inr digestJson_finite split: option.splits if_splits)

lemma append_Inr:
  assumes "audit_append sha parse events event = Inr (stored, events')"
  shows "events' = events @ [stored] \<and> aud_code stored = evi_code event \<and>
    aud_occurredAt stored = evi_occurredAt event \<and>
    aud_sequence stored = (if events = [] then 1 else aud_sequence (last events) + 1) \<and>
    aud_previousDigest stored = (if events = [] then None else Some (aud_digest (last events))) \<and>
    aud_digest stored = json_digest sha (audit_json (aud_sequence stored) (aud_code stored)
      (aud_occurredAt stored) (aud_previousDigest stored))"
  using assms by (auto simp: audit_append_def chain_eq_Inr Let_def audit_text_def
      audit_occurredAt_def auditEventDigest_Inr)

lemma append_chained:
  assumes "audit_append sha parse events event = Inr (stored, events')" and "chained sha 1 None events"
  shows "chained sha 1 None events'"
  using append_Inr [OF assms(1)] assms(2) chained_last_sequence [OF assms(2)]
  by (auto simp: chained_append add.commute)

text \<open>The log of a list of events, read backwards.\<close>

lemma for_each_snoc: "for_each f (xs @ [x]) s = chain (for_each f xs s) (f x)"
  by (simp add: for_each_append chain_def split: sum.split)

lemma audit_log_snoc:
  "audit_log sha parse (inputs @ [event]) = chain (audit_log sha parse inputs)
     (\<lambda>events. chain (audit_append sha parse events event) (\<lambda>p. Inr (snd p)))"
  by (simp add: audit_log_def for_each_snoc)

lemma audit_log_facts:
  "audit_log sha parse inputs = Inr events \<Longrightarrow> chained sha 1 None events \<and>
     map aud_code events = map evi_code inputs \<and>
     map aud_occurredAt events = map evi_occurredAt inputs"
proof (induction inputs arbitrary: events rule: rev_induct)
  case Nil
  then show ?case by (auto simp: audit_log_def)
next
  case (snoc event inputs)
  then obtain es stored where es: "audit_log sha parse inputs = Inr es"
    and app: "audit_append sha parse es event = Inr (stored, events)"
    by (auto simp: audit_log_snoc chain_eq_Inr)
  then show ?case using snoc.IH [OF es] append_Inr [OF app] append_chained [OF app] by simp
qed

definition event_json :: "stored_audit_event \<Rightarrow> json" where
  "event_json e = audit_json (aud_sequence e) (aud_code e) (aud_occurredAt e) (aud_previousDigest e)"

lemma audit_json_inject:
  assumes "normalize_json (audit_json n c a p) = normalize_json (audit_json n' c' a' p')"
  shows "n = n' \<and> c = c' \<and> a = a' \<and> p = p'"
proof -
  have "map (\<lambda>kv. normalize_json (snd kv)) [(''sequence'', JInt n), (''code'', JStr c),
      (''occurredAt'', JStr a), (''previousDigest'', opt_str_json p)] =
    map (\<lambda>kv. normalize_json (snd kv)) [(''sequence'', JInt n'), (''code'', JStr c'),
      (''occurredAt'', JStr a'), (''previousDigest'', opt_str_json p')]"
    using assms unfolding audit_json_def by (rule normalize_obj_same_keys [rotated 2]) simp_all
  then show ?thesis by simp
qed

lemma chained_unique:
  "chained sha 1 None es \<Longrightarrow> chained sha 1 None fs \<Longrightarrow> es \<noteq> [] \<Longrightarrow> fs \<noteq> [] \<Longrightarrow>
     aud_digest (last es) = aud_digest (last fs) \<Longrightarrow>
     \<forall>e \<in> set es. \<forall>f \<in> set fs. collision_free sha (event_json e) (event_json f) \<Longrightarrow> es = fs"
proof (induction es arbitrary: fs rule: rev_induct)
  case (snoc e es)
  obtain gs f where fs: "fs = gs @ [f]" using snoc.prems(4) by (cases fs rule: rev_cases) auto
  let ?prev = "\<lambda>hs. if hs = [] then None else Some (aud_digest (last hs))"
  have e: "aud_sequence e = 1 + int (length es)" "aud_previousDigest e = ?prev es"
    "aud_digest e = json_digest sha (event_json e)" "chained sha 1 None es"
    using snoc.prems(1) by (simp_all add: chained_append event_json_def)
  have f: "aud_sequence f = 1 + int (length gs)" "aud_previousDigest f = ?prev gs"
    "aud_digest f = json_digest sha (event_json f)" "chained sha 1 None gs"
    using snoc.prems(2) by (simp_all add: fs chained_append event_json_def)
  have "normalize_json (event_json e) = normalize_json (event_json f)"
    using snoc.prems(5,6) json_digest_eq_iff [of "event_json e" "event_json f" sha] e(3) f(3)
    by (simp add: fs event_json_def)
  then have same: "aud_sequence e = aud_sequence f" "aud_code e = aud_code f"
    "aud_occurredAt e = aud_occurredAt f" "aud_previousDigest e = aud_previousDigest f"
    using audit_json_inject unfolding event_json_def by blast+
  have "e = f"
    using same snoc.prems(5) by (simp add: fs stored_audit_event.equality)
  moreover have "es = gs"
  proof (cases "es = []")
    case True
    then show ?thesis using same(1) e(1) f(1) by simp
  next
    case False
    then have "gs \<noteq> []" using same(1) e(1) f(1) by auto
    then show ?thesis
      using snoc.IH [OF e(4) f(4) False] same(4) e(2) f(2) False snoc.prems(6) by (simp add: fs)
  qed
  ultimately show ?case by (simp add: fs)
qed simp

section \<open>Properties\<close>

text \<open>
  The audit log is a hash chain. However many events are appended, the stored events carry
  exactly their codes and times in order, are numbered from one, and each records the digest of
  the event before it and its own digest over all of its content.
\<close>

theorem audit_log_chained:
  assumes "audit_log sha parse inputs = Inr events"
  shows "chained sha 1 None (audit_readAll events) \<and>
    map aud_code events = map evi_code inputs \<and>
    map aud_occurredAt events = map evi_occurredAt inputs \<and>
    (\<forall>more. (\<exists>events'. audit_log sha parse (inputs @ more) = Inr events' \<and> prefix events events') \<or>
      (\<exists>e. audit_log sha parse (inputs @ more) = Inl e))"
proof -
  have "prefix events events'" if "audit_log sha parse (inputs @ more) = Inr events'" for more events'
    using that
  proof (induction more arbitrary: events' rule: rev_induct)
    case Nil
    then show ?case using assms by simp
  next
    case (snoc event more)
    have "audit_log sha parse ((inputs @ more) @ [event]) = Inr events'" using snoc.prems by simp
    then obtain es stored where "audit_log sha parse (inputs @ more) = Inr es"
      "audit_append sha parse es event = Inr (stored, events')"
      unfolding audit_log_snoc chain_eq_Inr by auto
    then show ?case using snoc.IH append_Inr by fastforce
  qed
  then have "(\<exists>events'. audit_log sha parse (inputs @ more) = Inr events' \<and> prefix events events') \<or>
      (\<exists>e. audit_log sha parse (inputs @ more) = Inl e)" for more
    by (cases "audit_log sha parse (inputs @ more)") auto
  then show ?thesis using audit_log_facts [OF assms] by (simp add: audit_readAll_def)
qed

definition sample_event :: "string \<Rightarrow> audit_event_input" where
  "sample_event c = \<lparr>evi_code = c, evi_occurredAt = ''t''\<rparr>"

definition zero_hash :: "string \<Rightarrow> string" where
  "zero_hash s = replicate 64 CHR ''0''"

lemma sample_log: "\<exists>e f. audit_log zero_hash length_clock [sample_event ''a'', sample_event ''b''] = Inr [e, f]"
proof -
  have "digest_text (sha256Bytes zero_hash s)" for s
    by (simp add: digest_text_def sha256Bytes_def zero_hash_def lower_hex_def is_digit_def list_all_iff)
  then have digest: "digest_text (json_digest zero_hash v)" for v by (simp add: json_digest_def)
  have app: "audit_append zero_hash length_clock es (sample_event [c]) =
      Inr (let n = (if es = [] then 1 else aud_sequence (last es) + 1);
             p = (if es = [] then None else Some (aud_digest (last es)));
             s = \<lparr>aud_sequence = n, aud_code = [c], aud_occurredAt = ''t'', aud_previousDigest = p,
               aud_digest = json_digest zero_hash (audit_json n [c] ''t'' p)\<rparr> in (s, es @ [s]))"
    if "\<not> js_white c" "es \<noteq> [] \<longrightarrow> digest_text (aud_digest (last es)) \<and> aud_sequence (last es) = 1" for c es
  proof -
    have "auditEventDigest zero_hash length_clock n [c] ''t'' p =
        Inr (json_digest zero_hash (audit_json n [c] ''t'' p))"
      if "n = (if es = [] then 1 else aud_sequence (last es) + 1)"
        "p = (if es = [] then None else Some (aud_digest (last es)))" for n p
      using that \<open>\<not> js_white c\<close> \<open>es \<noteq> [] \<longrightarrow> _\<close>
      by (auto simp: auditEventDigest_Inr isSafeInteger_def blank_Cons js_white_def length_clock_def)
    then show ?thesis using \<open>\<not> js_white c\<close>
      by (simp add: audit_append_def sample_event_def audit_text_def audit_occurredAt_def blank_Cons
          js_white_def length_clock_def Let_def)
  qed
  show ?thesis
    by (simp add: audit_log_def app js_white_def Let_def digest)
qed

lemma audit_log_chained_witness:
  "\<exists>events. audit_log zero_hash length_clock [sample_event ''a'', sample_event ''b''] = Inr events \<and>
    chained zero_hash 1 None events \<and> map aud_code events = [''a'', ''b'']"
proof -
  obtain e f where run: "audit_log zero_hash length_clock [sample_event ''a'', sample_event ''b''] = Inr [e, f]"
    using sample_log by blast
  show ?thesis using run audit_log_chained [OF run] by (simp add: audit_readAll_def sample_event_def)
qed

text \<open>
  The log is tamper-evident. Where SHA-256 has no collision on the events of two logs, equal
  digests of their last events mean that the two logs are identical, event by event, and came from
  the same inputs: no event can be altered, dropped, inserted or reordered unnoticed.
\<close>

theorem audit_log_tamper_evident:
  assumes "audit_log sha parse xs = Inr es" and "audit_log sha parse ys = Inr fs"
    and "es \<noteq> []" and "fs \<noteq> []" and "aud_digest (last es) = aud_digest (last fs)"
    and "\<forall>e \<in> set es. \<forall>f \<in> set fs. collision_free sha (event_json e) (event_json f)"
  shows "es = fs \<and> xs = ys"
proof -
  have "es = fs"
    using audit_log_facts [OF assms(1)] audit_log_facts [OF assms(2)] assms(3-6)
    by (intro chained_unique) simp_all
  moreover have "xs = ys"
  proof (rule nth_equalityI)
    have codes: "map evi_code xs = map evi_code ys" "map evi_occurredAt xs = map evi_occurredAt ys"
      using audit_log_facts [OF assms(1)] audit_log_facts [OF assms(2)] \<open>es = fs\<close> by simp_all
    then show "length xs = length ys" by (metis length_map)
    then show "xs ! i = ys ! i" if "i < length xs" for i
      using codes that by (metis audit_event_input.equality nth_map old.unit.exhaust)
  qed
  ultimately show ?thesis ..
qed

lemma audit_log_tamper_evident_witness:
  "\<exists>e. audit_log zero_hash length_clock [sample_event ''a''] = Inr [e] \<and>
    [e] = [e] \<and> [sample_event ''a''] = [sample_event ''a'']"
proof -
  obtain e f where "audit_log zero_hash length_clock ([sample_event ''a''] @ [sample_event ''b'']) = Inr [e, f]"
    using sample_log by auto
  then have run: "audit_log zero_hash length_clock [sample_event ''a''] = Inr [e]"
    unfolding audit_log_snoc chain_eq_Inr using append_Inr by fastforce
  have free: "\<forall>e' \<in> set [e]. \<forall>f' \<in> set [e]. collision_free zero_hash (event_json e') (event_json f')"
    by (simp add: collision_free_def)
  show ?thesis using run audit_log_tamper_evident [OF run run _ _ _ free] by blast
qed

end
