(* ===== verification/Lockfile.thy ===== *)
theory Lockfile
  imports Contracts_Types Contracts_Validation
begin

text \<open>
  \<open>packages/config/src/lockfile.ts\<close>: lockfiles and their digest, the refusal to write secrets or
  absolute paths, validation, and the comparison of a lock with the current resolution.

  The strings of an input are walked in the order of the fields of \<open>CreateLockfileInput\<close> (the
  code follows the order in which the caller created the object, which only decides which of
  several refused strings the error names). An object's key order does not matter to the digest,
  so \<open>Object.fromEntries\<close> without \<open>generatedAt\<close> is the JSON object of the other fields.
\<close>

section \<open>Types\<close>

record selected_integration =
  si_id :: string
  si_versionStatus :: version_status
  si_version :: "string option"
  si_digest :: "string option"

record selected_connector =
  sc_id :: string
  sc_connectorVersion :: string
  sc_digest :: string
  sc_integrations :: "selected_integration list"

record unavailable_connector =
  uc_id :: string
  uc_reasonCode :: string
  uc_reason :: string

record protocol_resolution =
  pr_name :: string
  pr_version :: string
  pr_extensions :: "string list"

record runtime_resolution =
  rr_name :: string
  rr_version :: string
  rr_integrity :: string

record lock_input =
  li_projectSnapshotId :: string
  li_catalogSnapshotId :: string
  li_policySnapshotId :: string
  li_configDigest :: string
  li_routePlanId :: string
  li_routePlanDigest :: string
  li_capabilityOntologyVersion :: string
  li_connectors :: "selected_connector list"
  li_unavailable :: "unavailable_connector list"
  li_generatedAt :: "string option"

record resolution_inputs =
  cur_projectSnapshotId :: string
  cur_catalogSnapshotId :: string
  cur_policySnapshotId :: string
  cur_configDigest :: string
  cur_routePlanId :: string
  cur_routePlanDigest :: string
  cur_connectors :: "selected_connector list option"

text \<open>\<open>SorenSdkLock\<close> without its digest, and with it.\<close>

record lock_body =
  lock_generatedAt :: string
  lock_capabilityOntologyVersion :: string
  lock_catalogSnapshotDigest :: string
  lock_policySnapshotDigest :: string
  lock_projectSnapshotDigest :: string
  lock_configDigest :: string
  lock_routePlanId :: string
  lock_routePlanDigest :: string
  lock_connectors :: "selected_connector list"
  lock_unavailable :: "unavailable_connector list"
  lock_protocolResolutions :: "protocol_resolution list"
  lock_runtimeResolutions :: "runtime_resolution list"

record soren_sdk_lock =
  lock_body_of :: lock_body
  lock_digest :: string

datatype lock_error = CredentialRejected string | AbsolutePathRejected string

fun lock_error_code :: "lock_error \<Rightarrow> string" where
  "lock_error_code (CredentialRejected _) = ''LOCK_CREDENTIAL_REJECTED''"
| "lock_error_code (AbsolutePathRejected _) = ''LOCK_ABSOLUTE_PATH_REJECTED''"

definition quoted_value :: "string \<Rightarrow> string" where
  "quoted_value s = ''('' @ CHR 0x22 # s @ [CHR 0x22] @ '')''"

fun lock_error_message :: "lock_error \<Rightarrow> string" where
  "lock_error_message (CredentialRejected value) =
     ''refusing to write a lockfile containing a credential-like value '' @ quoted_value value"
| "lock_error_message (AbsolutePathRejected value) =
     ''refusing to write a lockfile containing an absolute path '' @ quoted_value value"

section \<open>Normalisation and digest\<close>

definition normalize_integrations :: "(string \<Rightarrow> string \<Rightarrow> int) \<Rightarrow> selected_integration list \<Rightarrow>
    selected_integration list" where
  "normalize_integrations lc = js_sort (cmp_by lc si_id)"

definition normalizeConnectors :: "(string \<Rightarrow> string \<Rightarrow> int) \<Rightarrow> selected_connector list \<Rightarrow>
    selected_connector list" where
  "normalizeConnectors lc connectors =
     map (\<lambda>c. c\<lparr>sc_integrations := normalize_integrations lc (sc_integrations c)\<rparr>)
       (js_sort (cmp_by lc sc_id) connectors)"

definition normalizeUnavailable :: "(string \<Rightarrow> string \<Rightarrow> int) \<Rightarrow> unavailable_connector list \<Rightarrow>
    unavailable_connector list" where
  "normalizeUnavailable lc = js_sort (cmp_by lc uc_id)"

definition normalizeLock :: "(string \<Rightarrow> string \<Rightarrow> int) \<Rightarrow> lock_body \<Rightarrow> lock_body" where
  "normalizeLock lc lock = lock\<lparr>
     lock_connectors := normalizeConnectors lc (lock_connectors lock),
     lock_unavailable := normalizeUnavailable lc (lock_unavailable lock),
     lock_protocolResolutions := js_sort (cmp_by lc pr_name) (lock_protocolResolutions lock),
     lock_runtimeResolutions := js_sort (cmp_by lc rr_name) (lock_runtimeResolutions lock)\<rparr>"

definition integration_json :: "selected_integration \<Rightarrow> json" where
  "integration_json i = JObj ([(''id'', JStr (si_id i)),
     (''versionStatus'', JStr (version_status_name (si_versionStatus i)))] @
     opt_entry ''version'' (map_option JStr (si_version i)) @
     opt_entry ''digest'' (map_option JStr (si_digest i)))"

definition connector_json :: "selected_connector \<Rightarrow> json" where
  "connector_json c = JObj [(''id'', JStr (sc_id c)),
     (''connectorVersion'', JStr (sc_connectorVersion c)), (''digest'', JStr (sc_digest c)),
     (''integrations'', JArr (map integration_json (sc_integrations c)))]"

definition unavailable_json :: "unavailable_connector \<Rightarrow> json" where
  "unavailable_json u = JObj [(''id'', JStr (uc_id u)), (''reasonCode'', JStr (uc_reasonCode u)),
     (''reason'', JStr (uc_reason u))]"

definition protocol_json :: "protocol_resolution \<Rightarrow> json" where
  "protocol_json p = JObj [(''name'', JStr (pr_name p)), (''version'', JStr (pr_version p)),
     (''extensions'', strs_json (pr_extensions p))]"

definition runtime_json :: "runtime_resolution \<Rightarrow> json" where
  "runtime_json p = JObj [(''name'', JStr (rr_name p)), (''version'', JStr (rr_version p)),
     (''integrity'', JStr (rr_integrity p))]"

text \<open>The payload: every field but \<open>generatedAt\<close>.\<close>

definition lock_payload :: "lock_body \<Rightarrow> json" where
  "lock_payload lock = JObj [
     (''schemaVersion'', JStr ''1.0.0-draft.1''), (''contractKind'', JStr ''soren-sdk-lock''),
     (''capabilityOntologyVersion'', JStr (lock_capabilityOntologyVersion lock)),
     (''catalogSnapshotDigest'', JStr (lock_catalogSnapshotDigest lock)),
     (''policySnapshotDigest'', JStr (lock_policySnapshotDigest lock)),
     (''projectSnapshotDigest'', JStr (lock_projectSnapshotDigest lock)),
     (''configDigest'', JStr (lock_configDigest lock)),
     (''routePlanId'', JStr (lock_routePlanId lock)),
     (''routePlanDigest'', JStr (lock_routePlanDigest lock)),
     (''connectors'', JArr (map connector_json (lock_connectors lock))),
     (''unavailable'', JArr (map unavailable_json (lock_unavailable lock))),
     (''protocolResolutions'', JArr (map protocol_json (lock_protocolResolutions lock))),
     (''runtimeResolutions'', JArr (map runtime_json (lock_runtimeResolutions lock)))]"

definition computeLockDigest :: "(string \<Rightarrow> string \<Rightarrow> int) \<Rightarrow> (string \<Rightarrow> string) \<Rightarrow> lock_body \<Rightarrow>
    string result" where
  "computeLockDigest lc sha lock = digestJson sha (lock_payload (normalizeLock lc lock))"

section \<open>Refusing sensitive values\<close>

text \<open>\<open>/token|secret|password|credential|api[_-]?key|authorization/i\<close>.\<close>

definition credential_like :: "string \<Rightarrow> bool" where
  "credential_like s \<longleftrightarrow> list_ex (contains_ci s)
     [''token'', ''secret'', ''password'', ''credential'', ''apikey'', ''api_key'', ''api-key'',
      ''authorization'']"

text \<open>\<open>/^(?:\/|[a-zA-Z]:[\\/])/\<close>.\<close>

fun absolute_path :: "string \<Rightarrow> bool" where
  "absolute_path (c # s) \<longleftrightarrow> c = CHR ''/'' \<or>
     is_letter c \<and> (case s of d # e # _ \<Rightarrow> d = CHR '':'' \<and> (e = CHR 0x5C \<or> e = CHR ''/'') | _ \<Rightarrow> False)"
| "absolute_path [] \<longleftrightarrow> False"

text \<open>\<open>walkStrings\<close> on the parts of an input.\<close>

definition opt_strings :: "string option \<Rightarrow> string list" where
  "opt_strings v = (case v of None \<Rightarrow> [] | Some s \<Rightarrow> [s])"

definition integration_strings :: "selected_integration \<Rightarrow> string list" where
  "integration_strings i = [si_id i, version_status_name (si_versionStatus i)] @
     opt_strings (si_version i) @ opt_strings (si_digest i)"

definition connector_strings :: "selected_connector \<Rightarrow> string list" where
  "connector_strings c = [sc_id c, sc_connectorVersion c, sc_digest c] @
     concat (map integration_strings (sc_integrations c))"

definition unavailable_strings :: "unavailable_connector \<Rightarrow> string list" where
  "unavailable_strings u = [uc_id u, uc_reasonCode u, uc_reason u]"

definition walkStrings :: "lock_input \<Rightarrow> string list" where
  "walkStrings input = [li_projectSnapshotId input, li_catalogSnapshotId input,
     li_policySnapshotId input, li_configDigest input, li_routePlanId input,
     li_routePlanDigest input, li_capabilityOntologyVersion input] @
     concat (map connector_strings (li_connectors input)) @
     concat (map unavailable_strings (li_unavailable input)) @ opt_strings (li_generatedAt input)"

definition rejectSensitiveInput :: "lock_input \<Rightarrow> lock_error + unit" where
  "rejectSensitiveInput input = for_each (\<lambda>value _.
     chain (guard (credential_like value) (CredentialRejected value))
     (\<lambda>_. guard (absolute_path value) (AbsolutePathRejected value))) (walkStrings input) ()"

section \<open>The service\<close>

text \<open>
  \<open>create\<close>; \<open>now\<close> is \<open>new Date().toISOString()\<close>. A lock holds strings only, so its digest cannot
  throw and is \<open>lock_json_digest\<close>.
\<close>

definition lock_json_digest :: "(string \<Rightarrow> string \<Rightarrow> int) \<Rightarrow> (string \<Rightarrow> string) \<Rightarrow> lock_body \<Rightarrow>
    string" where
  "lock_json_digest lc sha lock = json_digest sha (lock_payload (normalizeLock lc lock))"

definition lock_create_body :: "(string \<Rightarrow> string \<Rightarrow> int) \<Rightarrow> string \<Rightarrow> lock_input \<Rightarrow> lock_body" where
  "lock_create_body lc now input = \<lparr>
     lock_generatedAt = (case li_generatedAt input of None \<Rightarrow> now | Some t \<Rightarrow> t),
     lock_capabilityOntologyVersion = li_capabilityOntologyVersion input,
     lock_catalogSnapshotDigest = li_catalogSnapshotId input,
     lock_policySnapshotDigest = li_policySnapshotId input,
     lock_projectSnapshotDigest = li_projectSnapshotId input,
     lock_configDigest = li_configDigest input, lock_routePlanId = li_routePlanId input,
     lock_routePlanDigest = li_routePlanDigest input,
     lock_connectors = normalizeConnectors lc (li_connectors input),
     lock_unavailable = normalizeUnavailable lc (li_unavailable input),
     lock_protocolResolutions = [], lock_runtimeResolutions = []\<rparr>"

definition lock_create :: "(string \<Rightarrow> string \<Rightarrow> int) \<Rightarrow> (string \<Rightarrow> string) \<Rightarrow> string \<Rightarrow> lock_input \<Rightarrow>
    lock_error + soren_sdk_lock" where
  "lock_create lc sha now input = chain (rejectSensitiveInput input)
     (\<lambda>_. let lock = lock_create_body lc now input in
       Inr \<lparr>lock_body_of = lock, lock_digest = lock_json_digest lc sha lock\<rparr>)"

definition digest_mismatch :: "string \<Rightarrow> string \<Rightarrow> string" where
  "digest_mismatch locked recomputed = ''digest-mismatch: lock.digest '' @ locked @
     '' does not match the recomputed digest '' @ recomputed"

text \<open>\<open>validate\<close>: \<open>Inl\<close> the issues, or \<open>Inr\<close> the lock.\<close>

definition lock_validate :: "(string \<Rightarrow> string \<Rightarrow> int) \<Rightarrow> (string \<Rightarrow> string) \<Rightarrow>
    soren_sdk_lock validator \<Rightarrow> soren_sdk_lock \<Rightarrow> string list + soren_sdk_lock" where
  "lock_validate lc sha valid lock = (case validateContract valid lock of
     Inl issues \<Rightarrow> Inl (map (\<lambda>issue. issue_path issue @ '' '' @ issue_keyword issue @ '': '' @
       issue_message issue) issues)
   | Inr value \<Rightarrow>
       let recomputed = lock_json_digest lc sha (lock_body_of value) in
       if recomputed \<noteq> lock_digest value
       then Inl [digest_mismatch (lock_digest value) recomputed] else Inr value)"

section \<open>Comparing with the current resolution\<close>

datatype drift_severity = CriticalDrift | WarningDrift | InfoDrift

record lock_drift =
  drift_field :: string
  drift_locked :: "string option"
  drift_current :: "string option"
  drift_severity :: drift_severity

record drift_report =
  report_inSync :: bool
  report_drifts :: "lock_drift list"

definition snapshot_entries :: "lock_body \<Rightarrow> resolution_inputs \<Rightarrow>
    (string \<times> string \<times> string) list" where
  "snapshot_entries lock current = [
     (''projectSnapshot'', lock_projectSnapshotDigest lock, cur_projectSnapshotId current),
     (''catalogSnapshot'', lock_catalogSnapshotDigest lock, cur_catalogSnapshotId current),
     (''policySnapshot'', lock_policySnapshotDigest lock, cur_policySnapshotId current),
     (''config'', lock_configDigest lock, cur_configDigest current),
     (''routePlan'', lock_routePlanDigest lock, cur_routePlanDigest current),
     (''routePlanId'', lock_routePlanId lock, cur_routePlanId current)]"

definition snapshot_drifts :: "lock_body \<Rightarrow> resolution_inputs \<Rightarrow> lock_drift list" where
  "snapshot_drifts lock current =
     map (\<lambda>(field, locked, cur). \<lparr>drift_field = field, drift_locked = Some locked,
         drift_current = Some cur, drift_severity = CriticalDrift\<rparr>)
       (filter (\<lambda>(field, locked, cur). locked \<noteq> cur) (snapshot_entries lock current))"

definition integration_drift :: "string \<Rightarrow> string \<Rightarrow> bool \<Rightarrow> lock_drift" where
  "integration_drift connector i in_lock = \<lparr>
     drift_field = ''integrations.'' @ connector @ ''.'' @ i,
     drift_locked = (if in_lock then Some i else None),
     drift_current = (if in_lock then None else Some i), drift_severity = WarningDrift\<rparr>"

text \<open>The body of the loop over the locked connectors.\<close>

definition locked_connector_drifts :: "selected_connector list \<Rightarrow> selected_connector \<Rightarrow>
    lock_drift list" where
  "locked_connector_drifts currentConnectors locked =
     (case find (\<lambda>c. sc_id c = sc_id locked) currentConnectors of
        None \<Rightarrow> [\<lparr>drift_field = ''connectors.'' @ sc_id locked, drift_locked = Some (sc_id locked),
          drift_current = None, drift_severity = CriticalDrift\<rparr>]
      | Some current \<Rightarrow>
          let lockedIds = js_set (map si_id (sc_integrations locked));
              currentIds = js_set (map si_id (sc_integrations current)) in
          map (\<lambda>i. integration_drift (sc_id locked) i True)
            (filter (\<lambda>i. i \<notin> set currentIds) lockedIds) @
          map (\<lambda>i. integration_drift (sc_id locked) i False)
            (filter (\<lambda>i. i \<notin> set lockedIds) currentIds))"

definition current_connector_drifts :: "selected_connector list \<Rightarrow> selected_connector \<Rightarrow>
    lock_drift list" where
  "current_connector_drifts lockedConnectors current =
     (if \<not> list_ex (\<lambda>c. sc_id c = sc_id current) lockedConnectors
      then [\<lparr>drift_field = ''connectors.'' @ sc_id current, drift_locked = None,
        drift_current = Some (sc_id current), drift_severity = WarningDrift\<rparr>]
      else [])"

definition connector_drifts :: "lock_body \<Rightarrow> resolution_inputs \<Rightarrow> lock_drift list" where
  "connector_drifts lock current = (case cur_connectors current of None \<Rightarrow> []
   | Some currentConnectors \<Rightarrow>
       concat (map (locked_connector_drifts currentConnectors) (lock_connectors lock)) @
       concat (map (current_connector_drifts (lock_connectors lock)) currentConnectors))"

definition lock_compare :: "soren_sdk_lock \<Rightarrow> resolution_inputs \<Rightarrow> drift_report" where
  "lock_compare lock current =
     (let drifts = snapshot_drifts (lock_body_of lock) current @
            connector_drifts (lock_body_of lock) current in
      \<lparr>report_inSync = \<not> list_ex (\<lambda>d. drift_severity d = CriticalDrift) drifts,
       report_drifts = drifts\<rparr>)"

section \<open>Lemmas\<close>

lemma finite_lock_payload [simp]: "finite_json (lock_payload l)"
  by (auto simp: lock_payload_def connector_json_def integration_json_def unavailable_json_def
      protocol_json_def runtime_json_def opt_entry_def split: option.splits)

text \<open>The digest of a lock is always defined.\<close>

lemma computeLockDigest_total: "computeLockDigest lc sha l = Inr (lock_json_digest lc sha l)"
  by (simp add: computeLockDigest_def lock_json_digest_def digestJson_finite)

lemma rejectSensitiveInput_Inr:
  "rejectSensitiveInput input = Inr u \<longleftrightarrow>
     (\<forall>s \<in> set (walkStrings input). \<not> credential_like s \<and> \<not> absolute_path s)"
proof -
  have "for_each (\<lambda>value _. chain (guard (credential_like value) (CredentialRejected value))
      (\<lambda>_. guard (absolute_path value) (AbsolutePathRejected value))) xs () = Inr u \<longleftrightarrow>
    (\<forall>s \<in> set xs. \<not> credential_like s \<and> \<not> absolute_path s)" for xs
    by (induction xs) (auto simp: chain_eq_Inr)
  then show ?thesis by (simp add: rejectSensitiveInput_def)
qed

lemma rejectSensitiveInput_Inl:
  assumes "rejectSensitiveInput input = Inl e"
  shows "\<exists>before s after. walkStrings input = before @ s # after \<and>
    (\<forall>t \<in> set before. \<not> credential_like t \<and> \<not> absolute_path t) \<and>
    (credential_like s \<and> e = CredentialRejected s \<or>
     \<not> credential_like s \<and> absolute_path s \<and> e = AbsolutePathRejected s)"
proof -
  have "\<exists>before s after. xs = before @ s # after \<and>
    (\<forall>t \<in> set before. \<not> credential_like t \<and> \<not> absolute_path t) \<and>
    (credential_like s \<and> e = CredentialRejected s \<or>
     \<not> credential_like s \<and> absolute_path s \<and> e = AbsolutePathRejected s)"
    if "for_each (\<lambda>value _. chain (guard (credential_like value) (CredentialRejected value))
      (\<lambda>_. guard (absolute_path value) (AbsolutePathRejected value))) xs () = Inl e" for xs
    using that
  proof (induction xs)
    case (Cons x xs)
    show ?case
    proof (cases "credential_like x \<or> absolute_path x")
      case True
      then have "credential_like x \<and> e = CredentialRejected x \<or>
          \<not> credential_like x \<and> absolute_path x \<and> e = AbsolutePathRejected x"
        using Cons.prems by (cases "credential_like x") simp_all
      then show ?thesis
        by (intro exI [of _ "[]"] exI [of _ x] exI [of _ xs]) simp
    next
      case False
      then obtain before s after where "xs = before @ s # after"
        "\<forall>t \<in> set before. \<not> credential_like t \<and> \<not> absolute_path t"
        "credential_like s \<and> e = CredentialRejected s \<or>
          \<not> credential_like s \<and> absolute_path s \<and> e = AbsolutePathRejected s"
        using Cons by auto
      then show ?thesis using False by (intro exI [of _ "x # before"] exI [of _ s] exI [of _ after]) simp
    qed
  qed simp
  then show ?thesis using assms by (simp add: rejectSensitiveInput_def)
qed

section \<open>Properties\<close>

text \<open>
  Creating a lock and validating it round-trips: a created lock passes \<open>validate\<close> unchanged
  whenever the schema accepts it, and it passes again after a change of its creation time, which
  the digest does not cover.
\<close>

theorem lock_create_validates:
  assumes "lock_create lc sha now input = Inr lock" and "valid lock = None"
    and "valid (lock\<lparr>lock_body_of := (lock_body_of lock)\<lparr>lock_generatedAt := t\<rparr>\<rparr>) = None"
  shows "lock_validate lc sha valid lock = Inr lock \<and>
    lock_validate lc sha valid (lock\<lparr>lock_body_of := (lock_body_of lock)\<lparr>lock_generatedAt := t\<rparr>\<rparr>) =
      Inr (lock\<lparr>lock_body_of := (lock_body_of lock)\<lparr>lock_generatedAt := t\<rparr>\<rparr>)"
proof -
  have "lock_digest lock = lock_json_digest lc sha (lock_body_of lock)"
    using assms(1) by (auto simp: lock_create_def chain_eq_Inr Let_def)
  moreover have "lock_json_digest lc sha (l\<lparr>lock_generatedAt := t\<rparr>) = lock_json_digest lc sha l" for l
    by (simp add: lock_json_digest_def lock_payload_def normalizeLock_def)
  ultimately show ?thesis
    using assms(2,3) by (simp add: lock_validate_def validateContract_def Let_def)
qed

definition sample_input :: lock_input where
  "sample_input = \<lparr>li_projectSnapshotId = ''p'', li_catalogSnapshotId = ''c'',
     li_policySnapshotId = ''o'', li_configDigest = ''f'', li_routePlanId = ''r'',
     li_routePlanDigest = ''d'', li_capabilityOntologyVersion = ''1'',
     li_connectors = [\<lparr>sc_id = ''m'', sc_connectorVersion = ''1'', sc_digest = ''x'',
       sc_integrations = []\<rparr>], li_unavailable = [], li_generatedAt = None\<rparr>"

lemma sample_created:
  "lock_create lc sha now sample_input =
    Inr \<lparr>lock_body_of = lock_create_body lc now sample_input,
      lock_digest = lock_json_digest lc sha (lock_create_body lc now sample_input)\<rparr>"
proof -
  have "rejectSensitiveInput sample_input = Inr ()"
    unfolding rejectSensitiveInput_Inr
    by (simp add: walkStrings_def sample_input_def connector_strings_def opt_strings_def
        credential_like_def contains_ci_def startsWith_def lower_char_def)
  then show ?thesis by (simp add: lock_create_def Let_def)
qed

lemma lock_create_validates_witness:
  "\<exists>lock. lock_create code_unit_compare (\<lambda>s. s) ''t'' sample_input = Inr lock \<and>
    lock_validate code_unit_compare (\<lambda>s. s) accept_all lock = Inr lock"
  using sample_created lock_create_validates [OF sample_created, of accept_all] by simp

text \<open>
  \<open>create\<close> writes a lock exactly when no string of its input looks like a credential or an
  absolute path; otherwise the error names the first such string, credentials before paths.
\<close>

theorem lock_create_refuses:
  "case lock_create lc sha now input of
     Inr lock \<Rightarrow>
       list_all (\<lambda>s. \<not> credential_like s \<and> \<not> absolute_path s) (walkStrings input)
   | Inl e \<Rightarrow> (\<exists>before s after. walkStrings input = before @ s # after \<and>
       list_all (\<lambda>t. \<not> credential_like t \<and> \<not> absolute_path t) before \<and>
       (if credential_like s then e = CredentialRejected s
        else absolute_path s \<and> e = AbsolutePathRejected s))"
proof (cases "rejectSensitiveInput input")
  case (Inl e)
  then show ?thesis using rejectSensitiveInput_Inl [OF Inl]
    by (fastforce simp: lock_create_def list_all_iff)
next
  case (Inr u)
  then show ?thesis using rejectSensitiveInput_Inr [of input u]
    by (simp add: lock_create_def Let_def list_all_iff)
qed

section \<open>The identity of a lock\<close>

lemma integration_json_inject:
  assumes "normalize_json (integration_json i) = normalize_json (integration_json j)"
  shows "i = j"
proof -
  let ?kvs = "\<lambda>i. [(''id'', JStr (si_id i)),
     (''versionStatus'', JStr (version_status_name (si_versionStatus i)))] @
     opt_entry ''version'' (map_option JStr (si_version i)) @
     opt_entry ''digest'' (map_option JStr (si_digest i))"
  have d: "distinct (map fst (?kvs i))" for i
    by (simp add: opt_entry_def split: option.splits)
  have same: "map_option normalize_json (map_of (?kvs i) k) =
      map_option normalize_json (map_of (?kvs j) k)" for k
    using assms normalize_obj_eq_iff [OF d d, of i j] unfolding integration_json_def by blast
  have opt: "map_option normalize_json (map_option JStr a) =
      map_option normalize_json (map_option JStr b) \<Longrightarrow> a = b" for a b
    by (cases a; cases b) simp_all
  have "si_id i = si_id j" using same [of "''id''"] by simp
  moreover have "si_versionStatus i = si_versionStatus j"
    using same [of "''versionStatus''"] by simp
  moreover have "si_version i = si_version j"
    using same [of "''version''"] by (cases "si_version i"; cases "si_version j") simp_all
  moreover have "si_digest i = si_digest j"
    using same [of "''digest''"] by (cases "si_digest i"; cases "si_digest j") simp_all
  ultimately show ?thesis by (simp add: selected_integration.equality)
qed

lemma connector_json_inject:
  assumes "normalize_json (connector_json a) = normalize_json (connector_json b)"
  shows "a = b"
proof -
  have "map (\<lambda>kv. normalize_json (snd kv)) [(''id'', JStr (sc_id a)),
      (''connectorVersion'', JStr (sc_connectorVersion a)), (''digest'', JStr (sc_digest a)),
      (''integrations'', JArr (map integration_json (sc_integrations a)))] =
    map (\<lambda>kv. normalize_json (snd kv)) [(''id'', JStr (sc_id b)),
      (''connectorVersion'', JStr (sc_connectorVersion b)), (''digest'', JStr (sc_digest b)),
      (''integrations'', JArr (map integration_json (sc_integrations b)))]"
    using assms unfolding connector_json_def
    by (rule normalize_obj_same_keys [rotated 2]) simp_all
  then show ?thesis
    using normalize_JArr_map [OF integration_json_inject]
    by (simp only: list.map snd_conv list.inject normalize_json.simps(4) json.inject)
      (simp add: selected_connector.equality)
qed

lemma unavailable_json_inject:
  assumes "normalize_json (unavailable_json a) = normalize_json (unavailable_json b)"
  shows "a = b"
proof -
  have "map (\<lambda>kv. normalize_json (snd kv)) [(''id'', JStr (uc_id a)),
      (''reasonCode'', JStr (uc_reasonCode a)), (''reason'', JStr (uc_reason a))] =
    map (\<lambda>kv. normalize_json (snd kv)) [(''id'', JStr (uc_id b)),
      (''reasonCode'', JStr (uc_reasonCode b)), (''reason'', JStr (uc_reason b))]"
    using assms unfolding unavailable_json_def
    by (rule normalize_obj_same_keys [rotated 2]) simp_all
  then show ?thesis by (simp add: unavailable_connector.equality)
qed

lemma protocol_json_inject:
  assumes "normalize_json (protocol_json a) = normalize_json (protocol_json b)"
  shows "a = b"
proof -
  have "map (\<lambda>kv. normalize_json (snd kv)) [(''name'', JStr (pr_name a)),
      (''version'', JStr (pr_version a)), (''extensions'', strs_json (pr_extensions a))] =
    map (\<lambda>kv. normalize_json (snd kv)) [(''name'', JStr (pr_name b)),
      (''version'', JStr (pr_version b)), (''extensions'', strs_json (pr_extensions b))]"
    using assms unfolding protocol_json_def
    by (rule normalize_obj_same_keys [rotated 2]) simp_all
  then show ?thesis by (simp add: protocol_resolution.equality)
qed

lemma runtime_json_inject:
  assumes "normalize_json (runtime_json a) = normalize_json (runtime_json b)"
  shows "a = b"
proof -
  have "map (\<lambda>kv. normalize_json (snd kv)) [(''name'', JStr (rr_name a)),
      (''version'', JStr (rr_version a)), (''integrity'', JStr (rr_integrity a))] =
    map (\<lambda>kv. normalize_json (snd kv)) [(''name'', JStr (rr_name b)),
      (''version'', JStr (rr_version b)), (''integrity'', JStr (rr_integrity b))]"
    using assms unfolding runtime_json_def
    by (rule normalize_obj_same_keys [rotated 2]) simp_all
  then show ?thesis by (simp add: runtime_resolution.equality)
qed

lemma lock_payload_inject:
  assumes "normalize_json (lock_payload a) = normalize_json (lock_payload b)"
  shows "a\<lparr>lock_generatedAt := t\<rparr> = b\<lparr>lock_generatedAt := t\<rparr>"
proof -
  let ?strs = "\<lambda>l. [(''capabilityOntologyVersion'', lock_capabilityOntologyVersion l),
     (''catalogSnapshotDigest'', lock_catalogSnapshotDigest l),
     (''policySnapshotDigest'', lock_policySnapshotDigest l),
     (''projectSnapshotDigest'', lock_projectSnapshotDigest l),
     (''configDigest'', lock_configDigest l), (''routePlanId'', lock_routePlanId l),
     (''routePlanDigest'', lock_routePlanDigest l)]"
  let ?kvs = "\<lambda>l. [(''schemaVersion'', JStr ''1.0.0-draft.1''),
     (''contractKind'', JStr ''soren-sdk-lock''),
     (''capabilityOntologyVersion'', JStr (lock_capabilityOntologyVersion l)),
     (''catalogSnapshotDigest'', JStr (lock_catalogSnapshotDigest l)),
     (''policySnapshotDigest'', JStr (lock_policySnapshotDigest l)),
     (''projectSnapshotDigest'', JStr (lock_projectSnapshotDigest l)),
     (''configDigest'', JStr (lock_configDigest l)), (''routePlanId'', JStr (lock_routePlanId l)),
     (''routePlanDigest'', JStr (lock_routePlanDigest l)),
     (''connectors'', JArr (map connector_json (lock_connectors l))),
     (''unavailable'', JArr (map unavailable_json (lock_unavailable l))),
     (''protocolResolutions'', JArr (map protocol_json (lock_protocolResolutions l))),
     (''runtimeResolutions'', JArr (map runtime_json (lock_runtimeResolutions l)))]"
  have "map (\<lambda>kv. normalize_json (snd kv)) (?kvs a) = map (\<lambda>kv. normalize_json (snd kv)) (?kvs b)"
    using assms unfolding lock_payload_def
    by (rule normalize_obj_same_keys [rotated 2]) simp_all
  then have fields: "lock_capabilityOntologyVersion a = lock_capabilityOntologyVersion b"
    "lock_catalogSnapshotDigest a = lock_catalogSnapshotDigest b"
    "lock_policySnapshotDigest a = lock_policySnapshotDigest b"
    "lock_projectSnapshotDigest a = lock_projectSnapshotDigest b"
    "lock_configDigest a = lock_configDigest b" "lock_routePlanId a = lock_routePlanId b"
    "lock_routePlanDigest a = lock_routePlanDigest b"
    and lists: "normalize_json (JArr (map connector_json (lock_connectors a))) =
      normalize_json (JArr (map connector_json (lock_connectors b)))"
    "normalize_json (JArr (map unavailable_json (lock_unavailable a))) =
      normalize_json (JArr (map unavailable_json (lock_unavailable b)))"
    "normalize_json (JArr (map protocol_json (lock_protocolResolutions a))) =
      normalize_json (JArr (map protocol_json (lock_protocolResolutions b)))"
    "normalize_json (JArr (map runtime_json (lock_runtimeResolutions a))) =
      normalize_json (JArr (map runtime_json (lock_runtimeResolutions b)))"
    by (simp_all only: list.map snd_conv list.inject normalize_json.simps json.inject simp_thms)
  have "lock_connectors a = lock_connectors b"
    using lists(1) normalize_JArr_map [OF connector_json_inject] by blast
  moreover have "lock_unavailable a = lock_unavailable b"
    using lists(2) normalize_JArr_map [OF unavailable_json_inject] by blast
  moreover have "lock_protocolResolutions a = lock_protocolResolutions b"
    using lists(3) normalize_JArr_map [OF protocol_json_inject] by blast
  moreover have "lock_runtimeResolutions a = lock_runtimeResolutions b"
    using lists(4) normalize_JArr_map [OF runtime_json_inject] by blast
  ultimately show ?thesis using fields by (simp add: lock_body.equality)
qed

text \<open>
  What a lock records, without reference to its normal form: the values it binds and, for each of
  its lists, the entries as a multiset, a connector with its version, its digest and the multiset of
  its integrations (each with its version status, version and digest).
\<close>

definition connector_content :: "selected_connector \<Rightarrow> string \<times> string \<times> string \<times> selected_integration multiset" where
  "connector_content c = (sc_id c, sc_connectorVersion c, sc_digest c, mset (sc_integrations c))"

definition same_lock :: "lock_body \<Rightarrow> lock_body \<Rightarrow> bool" where
  "same_lock a b \<longleftrightarrow>
     lock_capabilityOntologyVersion a = lock_capabilityOntologyVersion b \<and>
     lock_catalogSnapshotDigest a = lock_catalogSnapshotDigest b \<and>
     lock_policySnapshotDigest a = lock_policySnapshotDigest b \<and>
     lock_projectSnapshotDigest a = lock_projectSnapshotDigest b \<and>
     lock_configDigest a = lock_configDigest b \<and>
     lock_routePlanId a = lock_routePlanId b \<and> lock_routePlanDigest a = lock_routePlanDigest b \<and>
     mset (map connector_content (lock_connectors a)) = mset (map connector_content (lock_connectors b)) \<and>
     mset (lock_unavailable a) = mset (lock_unavailable b) \<and>
     mset (lock_protocolResolutions a) = mset (lock_protocolResolutions b) \<and>
     mset (lock_runtimeResolutions a) = mset (lock_runtimeResolutions b)"

text \<open>The ids and names by which the lists of a lock are sorted identify their entries.\<close>

definition lock_keys_decide :: "(string \<Rightarrow> string \<Rightarrow> int) \<Rightarrow> lock_body \<Rightarrow> bool" where
  "lock_keys_decide lc l \<longleftrightarrow> keys_decide lc sc_id (lock_connectors l) \<and>
     list_all (\<lambda>c. keys_decide lc si_id (sc_integrations c)) (lock_connectors l) \<and>
     keys_decide lc uc_id (lock_unavailable l) \<and> keys_decide lc pr_name (lock_protocolResolutions l) \<and>
     keys_decide lc rr_name (lock_runtimeResolutions l)"

lemma content_normalized:
  "mset (map connector_content (normalizeConnectors lc cs)) = mset (map connector_content cs)"
proof -
  have "map connector_content (normalizeConnectors lc cs) =
      map connector_content (js_sort (cmp_by lc sc_id) cs)"
    by (simp add: normalizeConnectors_def normalize_integrations_def connector_content_def)
  then show ?thesis by (simp only: mset_map mset_js_sort)
qed

lemma normalized_same:
  assumes "(normalizeLock lc a)\<lparr>lock_generatedAt := t\<rparr> = (normalizeLock lc b)\<lparr>lock_generatedAt := t\<rparr>"
  shows "same_lock a b"
proof -
  have "normalizeConnectors lc (lock_connectors a) = normalizeConnectors lc (lock_connectors b)"
    using arg_cong [OF assms, of lock_connectors] by (simp add: normalizeLock_def)
  then have "mset (map connector_content (lock_connectors a)) = mset (map connector_content (lock_connectors b))"
    by (metis content_normalized)
  moreover have "mset (lock_unavailable a) = mset (lock_unavailable b)"
    using arg_cong [OF assms, of "\<lambda>l. mset (lock_unavailable l)"]
    by (simp add: normalizeLock_def normalizeUnavailable_def)
  moreover have "mset (lock_protocolResolutions a) = mset (lock_protocolResolutions b)"
    using arg_cong [OF assms, of "\<lambda>l. mset (lock_protocolResolutions l)"] by (simp add: normalizeLock_def)
  moreover have "mset (lock_runtimeResolutions a) = mset (lock_runtimeResolutions b)"
    using arg_cong [OF assms, of "\<lambda>l. mset (lock_runtimeResolutions l)"] by (simp add: normalizeLock_def)
  ultimately show ?thesis
    using arg_cong [OF assms, of lock_capabilityOntologyVersion] arg_cong [OF assms, of lock_catalogSnapshotDigest]
      arg_cong [OF assms, of lock_policySnapshotDigest] arg_cong [OF assms, of lock_projectSnapshotDigest]
      arg_cong [OF assms, of lock_configDigest] arg_cong [OF assms, of lock_routePlanId]
      arg_cong [OF assms, of lock_routePlanDigest]
    by (simp add: same_lock_def normalizeLock_def)
qed

text \<open>Normal forms of connectors with the same content agree.\<close>

lemma normal_connector_content:
  assumes "comparator lc" and "connector_content c = connector_content d"
    and "keys_decide lc si_id (sc_integrations c)"
  shows "c\<lparr>sc_integrations := normalize_integrations lc (sc_integrations c)\<rparr> =
    d\<lparr>sc_integrations := normalize_integrations lc (sc_integrations d)\<rparr>"
proof -
  have "normalize_integrations lc (sc_integrations c) = normalize_integrations lc (sc_integrations d)"
    using assms sort_decided_perm [OF assms(1) _ assms(3)]
    by (simp add: connector_content_def normalize_integrations_def)
  then show ?thesis using assms(2) by (simp add: connector_content_def selected_connector.equality)
qed

lemma mset_map_factor:
  assumes "mset (map h xs) = mset (map h ys)"
    and "\<And>x y. x \<in> set xs \<Longrightarrow> y \<in> set ys \<Longrightarrow> h x = h y \<Longrightarrow> f x = f y"
  shows "mset (map f xs) = mset (map f ys)"
  using assms
proof (induction xs arbitrary: ys)
  case (Cons x xs)
  have "h x \<in># mset (map h ys)" using Cons.prems(1) by (metis list.set_intros(1) list.simps(9) set_mset_mset)
  then obtain y where y: "y \<in> set ys" "h y = h x" by auto
  then obtain before after where ys: "ys = before @ y # after" by (meson split_list)
  have "mset (map h xs) = mset (map h (before @ after))" using Cons.prems(1) y(2) by (simp add: ys)
  then have "mset (map f xs) = mset (map f (before @ after))"
    using Cons.prems(2) by (intro Cons.IH) (auto simp: ys)
  moreover have "f x = f y" using Cons.prems(2) [of x y] y by simp
  ultimately show ?case by (simp add: ys)
qed simp

lemma normalizeConnectors_same:
  assumes "comparator lc" and "mset (map connector_content cs) = mset (map connector_content ds)"
    and "keys_decide lc sc_id cs" and "list_all (\<lambda>c. keys_decide lc si_id (sc_integrations c)) cs"
  shows "normalizeConnectors lc cs = normalizeConnectors lc ds"
proof -
  let ?f = "\<lambda>c. c\<lparr>sc_integrations := normalize_integrations lc (sc_integrations c)\<rparr>"
  have sorted: "normalizeConnectors lc xs = js_sort (cmp_by lc sc_id) (map ?f xs)" for xs
    unfolding normalizeConnectors_def by (rule map_js_sort) (simp add: cmp_by_def)
  have "mset (map ?f cs) = mset (map ?f ds)"
    using assms(2) by (rule mset_map_factor)
      (use assms(4) in \<open>auto simp: list_all_iff intro!: normal_connector_content [OF assms(1)]\<close>)
  moreover have "keys_decide lc sc_id (map ?f cs)"
    using assms(3) by (auto simp: keys_decide_def)
  ultimately show ?thesis unfolding sorted by (rule sort_decided_perm [OF assms(1)])
qed

lemma same_normalized:
  assumes "comparator lc" and "same_lock a b" and "lock_keys_decide lc a"
  shows "(normalizeLock lc a)\<lparr>lock_generatedAt := t\<rparr> = (normalizeLock lc b)\<lparr>lock_generatedAt := t\<rparr>"
proof -
  note perm = sort_decided_perm [OF assms(1)]
  have "normalizeConnectors lc (lock_connectors a) = normalizeConnectors lc (lock_connectors b)"
    using assms(2,3) by (intro normalizeConnectors_same [OF assms(1)])
      (simp_all add: same_lock_def lock_keys_decide_def)
  moreover have "normalizeUnavailable lc (lock_unavailable a) = normalizeUnavailable lc (lock_unavailable b)"
    using assms(2,3) unfolding normalizeUnavailable_def
    by (intro perm) (simp_all add: same_lock_def lock_keys_decide_def)
  moreover have "js_sort (cmp_by lc pr_name) (lock_protocolResolutions a) =
      js_sort (cmp_by lc pr_name) (lock_protocolResolutions b)"
    "js_sort (cmp_by lc rr_name) (lock_runtimeResolutions a) =
      js_sort (cmp_by lc rr_name) (lock_runtimeResolutions b)"
    using assms(2,3) by (auto intro!: perm simp: same_lock_def lock_keys_decide_def)
  ultimately show ?thesis using assms(2) by (simp add: normalizeLock_def same_lock_def lock_body.equality)
qed

text \<open>
  C40: The digest of a lock identifies it. Where SHA-256 has no collision on the two payloads, two
  valid locks with the same digest record the same: every bound digest, id and version is equal, and
  they hold the same connectors, each with the same version, digest and integrations (with their
  version status, version and digest), the same unavailable connectors and the same protocol and
  runtime resolutions. Only the creation time and the order of the lists may differ. Conversely two
  valid locks that record the same have the same digest, where the ids and names that sort the lists
  of one identify its entries.
\<close>

theorem lock_digest_identity:
  assumes "lock_validate lc sha valid a = Inr a" and "lock_validate lc sha valid b = Inr b"
    and "collision_free sha (lock_payload (normalizeLock lc (lock_body_of a)))
      (lock_payload (normalizeLock lc (lock_body_of b)))"
  shows "(lock_digest a = lock_digest b \<longrightarrow> same_lock (lock_body_of a) (lock_body_of b)) \<and>
    (same_lock (lock_body_of a) (lock_body_of b) \<and> comparator lc \<and> lock_keys_decide lc (lock_body_of a) \<longrightarrow>
      lock_digest a = lock_digest b)"
proof -
  have digest: "lock_digest l = lock_json_digest lc sha (lock_body_of l)"
    if "lock_validate lc sha valid l = Inr l" for l
    using that by (auto simp: lock_validate_def Let_def split: sum.splits if_splits)
  have payload: "lock_payload (l\<lparr>lock_generatedAt := ''''\<rparr>) = lock_payload l" for l
    by (simp add: lock_payload_def)
  let ?n = "\<lambda>l. (normalizeLock lc (lock_body_of l))\<lparr>lock_generatedAt := ''''\<rparr>"
  have "lock_digest a = lock_digest b \<longleftrightarrow>
      normalize_json (lock_payload (normalizeLock lc (lock_body_of a))) =
      normalize_json (lock_payload (normalizeLock lc (lock_body_of b)))"
    unfolding digest [OF assms(1)] digest [OF assms(2)] lock_json_digest_def
    using assms(3) by (intro json_digest_eq_iff) simp_all
  then have "lock_digest a = lock_digest b \<longleftrightarrow> ?n a = ?n b"
    using lock_payload_inject payload by metis
  then show ?thesis using normalized_same same_normalized by blast
qed

lemma lock_digest_identity_witness:
  "\<exists>a b. lock_validate code_unit_compare (\<lambda>s. s) accept_all a = Inr a \<and>
    lock_validate code_unit_compare (\<lambda>s. s) accept_all b = Inr b \<and> lock_digest a \<noteq> lock_digest b"
proof -
  let ?other = "sample_input\<lparr>li_routePlanId := ''s''\<rparr>"
  let ?lock = "\<lambda>input. \<lparr>lock_body_of = lock_create_body code_unit_compare ''t'' input,
    lock_digest = lock_json_digest code_unit_compare (\<lambda>s. s)
      (lock_create_body code_unit_compare ''t'' input)\<rparr>"
  have valid: "lock_validate code_unit_compare (\<lambda>s. s) accept_all (?lock i) = Inr (?lock i)" for i
    by (simp add: lock_validate_def validateContract_def)
  have "\<not> same_lock (lock_create_body code_unit_compare ''t'' sample_input)
      (lock_create_body code_unit_compare ''t'' ?other)"
    by (simp add: same_lock_def lock_create_body_def sample_input_def)
  then have "lock_digest (?lock sample_input) \<noteq> lock_digest (?lock ?other)"
    using lock_digest_identity [OF valid valid collision_free_id, of sample_input ?other] by auto
  then show ?thesis using valid by blast
qed

section \<open>What a comparison reports\<close>

lemma snapshot_drifts_Nil:
  "snapshot_drifts lock current = [] \<longleftrightarrow>
     list_all (\<lambda>(field, locked, cur). locked = cur) (snapshot_entries lock current)"
  by (auto simp: snapshot_drifts_def list_all_iff filter_empty_conv)

lemma snapshot_drifts_critical:
  "d \<in> set (snapshot_drifts lock current) \<Longrightarrow> drift_severity d = CriticalDrift"
  by (auto simp: snapshot_drifts_def)

lemma integration_drift_severity [simp]: "drift_severity (integration_drift c i b) = WarningDrift"
  by (simp add: integration_drift_def)

lemma locked_connector_critical:
  "(\<exists>d \<in> set (locked_connector_drifts cs l). drift_severity d = CriticalDrift) \<longleftrightarrow>
     sc_id l \<notin> sc_id ` set cs"
proof (cases "find (\<lambda>c. sc_id c = sc_id l) cs")
  case None
  then have "sc_id l \<notin> sc_id ` set cs" by (auto simp: find_None_iff)
  then show ?thesis using None by (simp add: locked_connector_drifts_def)
next
  case (Some c)
  then have "c \<in> set cs" "sc_id c = sc_id l" by (auto simp: find_Some_iff)
  then have "sc_id l \<in> sc_id ` set cs" using rev_image_eqI [of c "set cs" "sc_id l" sc_id] by simp
  then show ?thesis using Some by (auto simp: locked_connector_drifts_def Let_def)
qed

lemma current_connector_warning:
  "d \<in> set (current_connector_drifts ls c) \<Longrightarrow> drift_severity d = WarningDrift"
  by (auto simp: current_connector_drifts_def split: if_splits)

text \<open>
  A comparison reports a lock as in sync exactly when the six bound digests and ids are
  unchanged and, where the current connectors are known, every locked connector is still there;
  missing integrations and additional connectors are only warnings.
\<close>

theorem lock_compare_in_sync:
  "report_inSync (lock_compare lock current) \<longleftrightarrow>
     list_all (\<lambda>(field, locked, cur). locked = cur) (snapshot_entries (lock_body_of lock) current) \<and>
     (case cur_connectors current of None \<Rightarrow> True
      | Some cs \<Rightarrow> sc_id ` set (lock_connectors (lock_body_of lock)) \<subseteq> sc_id ` set cs)"
proof -
  have "report_inSync (lock_compare lock current) \<longleftrightarrow>
      snapshot_drifts (lock_body_of lock) current = [] \<and>
      \<not> (\<exists>d \<in> set (connector_drifts (lock_body_of lock) current). drift_severity d = CriticalDrift)"
    using snapshot_drifts_critical [of _ "lock_body_of lock" current]
    by (auto simp: lock_compare_def Let_def list_ex_iff)
      (metis list.set_intros(1) neq_Nil_conv)
  also have "(\<exists>d \<in> set (connector_drifts (lock_body_of lock) current). drift_severity d = CriticalDrift)
      \<longleftrightarrow> \<not> (case cur_connectors current of None \<Rightarrow> True
        | Some cs \<Rightarrow> sc_id ` set (lock_connectors (lock_body_of lock)) \<subseteq> sc_id ` set cs)"
  proof (cases "cur_connectors current")
    case (Some cs)
    have "(\<exists>d \<in> set (connector_drifts (lock_body_of lock) current). drift_severity d = CriticalDrift)
        \<longleftrightarrow> (\<exists>l \<in> set (lock_connectors (lock_body_of lock)).
          \<exists>d \<in> set (locked_connector_drifts cs l). drift_severity d = CriticalDrift)"
      using current_connector_warning by (fastforce simp: connector_drifts_def Some)
    then show ?thesis unfolding locked_connector_critical by (auto simp: Some)
  qed (simp add: connector_drifts_def)
  finally show ?thesis by (simp add: snapshot_drifts_Nil)
qed

text \<open>
  The comparison never looks at the versions and digests of the current connectors: they can all
  change without any drift.
\<close>

lemma find_map_same:
  "(\<And>c. sc_id (f c) = sc_id c) \<Longrightarrow>
     find (\<lambda>c. sc_id c = k) (map f cs) = map_option f (find (\<lambda>c. sc_id c = k) cs)"
  by (induction cs) auto

theorem lock_compare_ignores_versions:
  assumes "\<And>c. sc_id (f c) = sc_id c" and "\<And>c. sc_integrations (f c) = sc_integrations c"
  shows "lock_compare lock (current\<lparr>cur_connectors := map_option (map f) (cur_connectors current)\<rparr>) =
    lock_compare lock current"
proof -
  have locked: "locked_connector_drifts (map f cs) = locked_connector_drifts cs" for cs
    by (rule ext) (unfold locked_connector_drifts_def find_map_same [of f, OF assms(1)],
      simp add: assms split: option.split)
  have cur: "current_connector_drifts ls (f c) = current_connector_drifts ls c" for ls c
    by (simp add: current_connector_drifts_def assms(1))
  have "connector_drifts (lock_body_of lock)
      (current\<lparr>cur_connectors := map_option (map f) (cur_connectors current)\<rparr>) =
    connector_drifts (lock_body_of lock) current"
    by (simp add: connector_drifts_def locked cur comp_def split: option.split)
  then show ?thesis
    by (simp add: lock_compare_def snapshot_drifts_def snapshot_entries_def)
qed

end
