(* ===== verification/Plan_Json.thy ===== *)
theory Plan_Json
  imports Contracts_Validation
begin

text \<open>
  The checks of JSON values in \<open>packages/planner/src/index.ts\<close>: no secret-like text and no value
  outside JSON. A value is a \<open>json\<close> tree, whose objects list their entries in property order, so the
  errors for cycles, accessors and foreign prototypes cannot arise.
\<close>

text \<open>
  A contract check of an untrusted JSON value: Ajv and the cast to the contract's type. It gives the
  issues of a value that is rejected, and the typed value of one that is accepted.
\<close>

type_synonym 'a contract = "json \<Rightarrow> contract_issue list + 'a"

section \<open>The first failing check\<close>

text \<open>A loop whose body only throws or returns.\<close>

fun check_each :: "('a \<Rightarrow> unit result) \<Rightarrow> 'a list \<Rightarrow> unit result" where
  "check_each f [] = Inr ()"
| "check_each f (x # xs) = chain (f x) (\<lambda>_. check_each f xs)"

lemma check_each_cong [fundef_cong]:
  "xs = ys \<Longrightarrow> (\<And>x. x \<in> set ys \<Longrightarrow> f x = g x) \<Longrightarrow> check_each f xs = check_each g ys"
  by (induction xs arbitrary: ys) auto

lemma check_each_Inr: "check_each f xs = Inr u \<longleftrightarrow> (\<forall>x \<in> set xs. f x = Inr ())"
  by (induction xs) (auto simp: chain_eq_Inr)

lemma check_each_Inl: "check_each f xs = Inl e \<Longrightarrow> \<exists>x \<in> set xs. f x = Inl e"
  by (induction xs) (auto simp: chain_eq_Inl)

section \<open>Secret-like text\<close>

text \<open>\<open>SENSITIVE_TEXT\<close>: \<open>/(api[_-]?key|password|secret|token|private[_-]?key)/i\<close>.\<close>

definition sensitive_text :: "string \<Rightarrow> bool" where
  "sensitive_text s \<longleftrightarrow> list_ex (contains_ci s) [''apikey'', ''api_key'', ''api-key'', ''password'',
     ''secret'', ''token'', ''privatekey'', ''private_key'', ''private-key'']"

definition index_path :: "string \<Rightarrow> nat \<Rightarrow> string" where
  "index_path path i = path @ ''['' @ nat_str i @ '']''"

definition key_path :: "string \<Rightarrow> string \<Rightarrow> string" where
  "key_path path key = path @ ''.'' @ key"

lemma enumerate_size [termination_simp]:
  "(i, v) \<in> set (enumerate n vs) \<Longrightarrow> size v < Suc (size_list size vs)"
proof -
  assume "(i, v) \<in> set (enumerate n vs)"
  then have "v \<in> set vs" by (auto simp: in_set_enumerate_eq)
  then show ?thesis by (induction vs) auto
qed

fun assertSafe :: "string \<Rightarrow> json \<Rightarrow> unit result" where
  "assertSafe path (JStr s) = guard (sensitive_text s)
     (GenericError (''Secret-like data is forbidden at '' @ path @ ''.''))"
| "assertSafe path (JArr vs) =
     check_each (\<lambda>(i, v). assertSafe (index_path path i) v) (enumerate 0 vs)"
| "assertSafe path (JObj kvs) =
     check_each (\<lambda>kv. chain (guard (sensitive_text (fst kv))
         (GenericError (''Secret-like field is forbidden at '' @ key_path path (fst kv) @ ''.'')))
       (\<lambda>_. assertSafe (key_path path (fst kv)) (snd kv))) kvs"
| "assertSafe path v = Inr ()"

section \<open>Values outside JSON\<close>

definition invalidJson :: "string \<Rightarrow> exn" where
  "invalidJson path = TypeError (''Value at '' @ path @ '' is not valid JSON.'')"

definition dangerous_key :: "string \<Rightarrow> bool" where
  "dangerous_key key \<longleftrightarrow> key \<in> {''__proto__'', ''prototype'', ''constructor''}"

fun check_json :: "string \<Rightarrow> json \<Rightarrow> unit result" where
  "check_json path JNonFinite = Inl (invalidJson path)"
| "check_json path (JArr vs) =
     check_each (\<lambda>(i, v). check_json (index_path path i) v) (enumerate 0 vs)"
| "check_json path (JObj kvs) =
     check_each (\<lambda>kv. chain (guard (dangerous_key (fst kv)) (invalidJson (key_path path (fst kv))))
       (\<lambda>_. check_json (key_path path (fst kv)) (snd kv))) kvs"
| "check_json path v = Inr ()"

text \<open>\<open>validateJsonValue\<close>: the copy it returns is the same value.\<close>

definition validateJsonValue :: "string \<Rightarrow> json \<Rightarrow> json result" where
  "validateJsonValue path v =
     chain (assertSafe path v) (\<lambda>_. chain (check_json path v) (\<lambda>_. Inr v))"

section \<open>What the checks accept\<close>

fun safe_json :: "json \<Rightarrow> bool" where
  "safe_json (JStr s) = (\<not> sensitive_text s)"
| "safe_json (JArr vs) = (\<forall>v \<in> set vs. safe_json v)"
| "safe_json (JObj kvs) = (\<forall>kv \<in> set kvs. \<not> sensitive_text (fst kv) \<and> safe_json (snd kv))"
| "safe_json v = True"

fun plain_json :: "json \<Rightarrow> bool" where
  "plain_json JNonFinite = False"
| "plain_json (JArr vs) = (\<forall>v \<in> set vs. plain_json v)"
| "plain_json (JObj kvs) = (\<forall>kv \<in> set kvs. \<not> dangerous_key (fst kv) \<and> plain_json (snd kv))"
| "plain_json v = True"

definition json_object :: "json \<Rightarrow> bool" where
  "json_object v = (case v of JObj kvs \<Rightarrow> True | _ \<Rightarrow> False)"

lemma assertSafe_Inr [simp]: "assertSafe path v = Inr u \<longleftrightarrow> safe_json v"
proof (induction path v rule: assertSafe.induct)
  case (2 path vs)
  have "assertSafe (index_path path i) (vs ! i) = Inr () \<longleftrightarrow> safe_json (vs ! i)" if "i < length vs" for i
    using 2 [of "(i, vs ! i)" i "vs ! i"] that by (simp add: in_set_enumerate_eq)
  then show ?case by (auto simp: check_each_Inr all_set_conv_all_nth nth_enumerate_eq)
qed (auto simp: check_each_Inr chain_eq_Inr)

lemma check_json_Inr [simp]: "check_json path v = Inr u \<longleftrightarrow> plain_json v"
proof (induction path v rule: check_json.induct)
  case (2 path vs)
  have "check_json (index_path path i) (vs ! i) = Inr () \<longleftrightarrow> plain_json (vs ! i)" if "i < length vs" for i
    using 2 [of "(i, vs ! i)" i "vs ! i"] that by (simp add: in_set_enumerate_eq)
  then show ?case by (auto simp: check_each_Inr all_set_conv_all_nth nth_enumerate_eq)
qed (auto simp: check_each_Inr chain_eq_Inr)

lemma validateJsonValue_Inr [simp]:
  "validateJsonValue path v = Inr w \<longleftrightarrow> safe_json v \<and> plain_json v \<and> w = v"
  by (auto simp: validateJsonValue_def chain_eq_Inr)

lemma plain_json_finite: "plain_json v \<Longrightarrow> finite_json v"
  by (induction v rule: plain_json.induct) auto

text \<open>The texts of a value: its strings and keys.\<close>

fun json_texts :: "json \<Rightarrow> string set" where
  "json_texts (JStr s) = {s}"
| "json_texts (JArr vs) = (\<Union>v \<in> set vs. json_texts v)"
| "json_texts (JObj kvs) = (\<Union>kv \<in> set kvs. insert (fst kv) (json_texts (snd kv)))"
| "json_texts v = {}"

lemma safe_json_texts: "safe_json v \<longleftrightarrow> (\<forall>s \<in> json_texts v. \<not> sensitive_text s)"
  by (induction v rule: safe_json.induct) auto

text \<open>Evaluating the pattern on concrete texts.\<close>

lemma lower_letters:
  "char_of (97::nat) = CHR ''a''"
  "char_of (98::nat) = CHR ''b''"
  "char_of (99::nat) = CHR ''c''"
  "char_of (100::nat) = CHR ''d''"
  "char_of (101::nat) = CHR ''e''"
  "char_of (102::nat) = CHR ''f''"
  "char_of (103::nat) = CHR ''g''"
  "char_of (104::nat) = CHR ''h''"
  "char_of (105::nat) = CHR ''i''"
  "char_of (106::nat) = CHR ''j''"
  "char_of (107::nat) = CHR ''k''"
  "char_of (108::nat) = CHR ''l''"
  "char_of (109::nat) = CHR ''m''"
  "char_of (110::nat) = CHR ''n''"
  "char_of (111::nat) = CHR ''o''"
  "char_of (112::nat) = CHR ''p''"
  "char_of (113::nat) = CHR ''q''"
  "char_of (114::nat) = CHR ''r''"
  "char_of (115::nat) = CHR ''s''"
  "char_of (116::nat) = CHR ''t''"
  "char_of (117::nat) = CHR ''u''"
  "char_of (118::nat) = CHR ''v''"
  "char_of (119::nat) = CHR ''w''"
  "char_of (120::nat) = CHR ''x''"
  "char_of (121::nat) = CHR ''y''"
  "char_of (122::nat) = CHR ''z''"
  by code_simp+

lemmas sensitive_code = sensitive_text_def contains_ci_def lower_char_def startsWith_def lower_letters

end
