(* ===== verification/Config_Parse.thy ===== *)
theory Config_Parse
  imports Plan_Json
begin

text \<open>
  \<open>packages/config/src/parse.ts\<close>: reading untrusted JSON and YAML documents. The two parsers,
  \<open>JSON.parse\<close> and \<open>load\<close> of \<open>js-yaml\<close>, are arguments: they deliver an error message or a value.
  \<open>JSON.parse\<close> delivers a tree of plain data. Of \<open>load\<close> nothing is assumed: its value may hold
  values of any type, instances of classes, and objects shared by anchors and aliases, also with
  themselves. The recursion of \<open>rejectUnsafeKeys\<close> has the number of calls the stack has room for.
\<close>

section \<open>Errors\<close>

definition ConfigParseError :: "string \<Rightarrow> string \<Rightarrow> exn" where
  "ConfigParseError code message = Exn ''ConfigParseError'' code message"

definition quoted :: "string \<Rightarrow> string" where
  "quoted s = [CHR 0x22] @ s @ [CHR 0x22]"

section \<open>Checking a parsed value\<close>

definition unsafe_key :: "string \<Rightarrow> bool" where
  "unsafe_key key \<longleftrightarrow> key \<in> {''__proto__'', ''constructor'', ''prototype''}"

text \<open>
  An untrusted value. \<open>JvInstance\<close> is an object whose prototype is not that of plain objects,
  \<open>JvOther\<close> a value of another type (\<open>undefined\<close>, a function, a symbol), and \<open>JvShared\<close> an array
  or object that is met in several places; the heap holds its contents.
\<close>

datatype js_value =
    JvNull
  | JvBool bool
  | JvInt int
  | JvNonFinite
  | JvStr string
  | JvArr "js_value list"
  | JvObj "(string \<times> js_value) list"
  | JvInstance
  | JvOther string
  | JvShared nat

datatype js_shared = SharedArr "js_value list" | SharedObj "(string \<times> js_value) list"

type_synonym js_heap = "nat \<Rightarrow> js_shared"

text \<open>A tree of plain data as such a value.\<close>

fun js_of_json :: "json \<Rightarrow> js_value" where
  "js_of_json JNull = JvNull"
| "js_of_json (JBool b) = JvBool b"
| "js_of_json (JInt n) = JvInt n"
| "js_of_json JNonFinite = JvNonFinite"
| "js_of_json (JStr s) = JvStr s"
| "js_of_json (JArr vs) = JvArr (map js_of_json vs)"
| "js_of_json (JObj kvs) = JvObj (map (\<lambda>kv. (fst kv, js_of_json (snd kv))) kvs)"

text \<open>What V8 throws when the stack is exhausted.\<close>

definition stack_overflow :: exn where
  "stack_overflow = Exn ''RangeError'' '''' ''Maximum call stack size exceeded''"

definition copy_items :: "(js_value \<Rightarrow> string \<Rightarrow> json result) \<Rightarrow> string \<Rightarrow> js_value list \<Rightarrow> json result" where
  "copy_items copy path vs =
     chain (map_result (\<lambda>(i, v). copy v (index_path path i)) (enumerate 0 vs)) (\<lambda>out. Inr (JArr out))"

definition copy_entries :: "(js_value \<Rightarrow> string \<Rightarrow> json result) \<Rightarrow> string \<Rightarrow> (string \<times> js_value) list \<Rightarrow> json result" where
  "copy_entries copy path kvs =
     chain (map_result (\<lambda>(key, child). chain (guard (unsafe_key key) (ConfigParseError ''CONFIG_UNSAFE_KEY''
         (''unsafe key '' @ quoted key @ '' at '' @ key_path path key)))
       (\<lambda>_. chain (copy child (key_path path key)) (\<lambda>out. Inr (key, out)))) kvs)
     (\<lambda>out. Inr (JObj out))"

text \<open>The first argument is the number of calls that fit on the stack.\<close>

primrec rejectUnsafeKeys :: "nat \<Rightarrow> js_heap \<Rightarrow> js_value \<Rightarrow> string \<Rightarrow> json result" where
  "rejectUnsafeKeys 0 heap value path = Inl stack_overflow"
| "rejectUnsafeKeys (Suc stack) heap value path =
     (let items = copy_items (rejectUnsafeKeys stack heap) path;
          entries = copy_entries (rejectUnsafeKeys stack heap) path in
      case value of
        JvNull \<Rightarrow> Inr JNull
      | JvBool b \<Rightarrow> Inr (JBool b)
      | JvStr s \<Rightarrow> Inr (JStr s)
      | JvNonFinite \<Rightarrow> Inl (ConfigParseError ''CONFIG_PARSE'' (''non-finite number at '' @ path))
      | JvInt n \<Rightarrow> Inr (JInt n)
      | JvArr vs \<Rightarrow> items vs
      | JvObj kvs \<Rightarrow> entries kvs
      | JvShared a \<Rightarrow> (case heap a of SharedArr vs \<Rightarrow> items vs | SharedObj kvs \<Rightarrow> entries kvs)
      | JvInstance \<Rightarrow> Inl (ConfigParseError ''CONFIG_PARSE'' (''non-plain object at '' @ path))
      | JvOther type \<Rightarrow> Inl (ConfigParseError ''CONFIG_PARSE''
          (''unsupported value of type '' @ type @ '' at '' @ path)))"

section \<open>Texts YAML may not contain\<close>

definition name_start :: "char \<Rightarrow> bool" where
  "name_start c \<longleftrightarrow> is_letter c \<or> c = CHR ''_''"

definition word_char :: "char \<Rightarrow> bool" where
  "word_char c \<longleftrightarrow> is_letter c \<or> is_digit c \<or> c = CHR ''_''"

text \<open>\<open>/[&*][A-Za-z_][A-Za-z0-9_-]*/\<close>.\<close>

fun yaml_alias_token :: "string \<Rightarrow> bool" where
  "yaml_alias_token (c # d # s) =
     ((c = CHR ''&'' \<or> c = CHR ''*'') \<and> name_start d \<or> yaml_alias_token (d # s))"
| "yaml_alias_token s = False"

text \<open>\<open>/[+-]?\.(?:inf|nan)\b/i\<close>; the optional sign does not change what matches.\<close>

definition numeric_literal_at :: "string \<Rightarrow> bool" where
  "numeric_literal_at s \<longleftrightarrow>
     (startsWith (map lower_char s) ''.inf'' \<or> startsWith (map lower_char s) ''.nan'') \<and>
     (case drop 4 s of [] \<Rightarrow> True | c # rest \<Rightarrow> \<not> word_char c)"

fun non_json_numeric :: "string \<Rightarrow> bool" where
  "non_json_numeric [] = False"
| "non_json_numeric (c # s) = (numeric_literal_at (c # s) \<or> non_json_numeric s)"

section \<open>The parsers\<close>

record document_parsers =
  parse_JSON :: "string \<Rightarrow> string + json"
  parse_YAML :: "string \<Rightarrow> string \<Rightarrow> string + js_heap \<times> js_value"
  call_stack :: nat

text \<open>The heap of a value in which nothing is shared.\<close>

definition nothing_shared :: js_heap where
  "nothing_shared = (\<lambda>_. SharedArr [])"

definition parseJsonText :: "'a document_parsers_scheme \<Rightarrow> string \<Rightarrow> string \<Rightarrow> json result" where
  "parseJsonText parsers content source =
     (case parse_JSON parsers content of
        Inl message \<Rightarrow> Inl (ConfigParseError ''CONFIG_PARSE''
          (''invalid JSON in '' @ source @ '': '' @ message))
      | Inr parsed \<Rightarrow> rejectUnsafeKeys (call_stack parsers) nothing_shared (js_of_json parsed) ''$'')"

definition yaml_error :: "string \<Rightarrow> string \<Rightarrow> exn" where
  "yaml_error message source =
     (if contains_ci message ''duplicated mapping key''
      then ConfigParseError ''CONFIG_DUPLICATE_KEY'' (''duplicated mapping key in '' @ source @ '': '' @ message)
      else ConfigParseError ''CONFIG_PARSE'' (''invalid YAML in '' @ source @ '': '' @ message))"

definition parseYamlText :: "'a document_parsers_scheme \<Rightarrow> string \<Rightarrow> string \<Rightarrow> json result" where
  "parseYamlText parsers content source =
     chain (guard (yaml_alias_token content) (ConfigParseError ''CONFIG_ALIAS''
       (''YAML anchors/aliases are not permitted in '' @ source)))
     (\<lambda>_. chain (guard (non_json_numeric content) (ConfigParseError ''CONFIG_PARSE''
       (''non-JSON numeric literal (NaN/Infinity) is not permitted in '' @ source)))
     (\<lambda>_. case parse_YAML parsers content source of
        Inl message \<Rightarrow> Inl (yaml_error message source)
      | Inr (heap, parsed) \<Rightarrow> rejectUnsafeKeys (call_stack parsers) heap parsed ''$''))"

definition asPlainObject :: "json \<Rightarrow> json result" where
  "asPlainObject v =
     (case v of JObj kvs \<Rightarrow> Inr v
      | _ \<Rightarrow> Inl (ConfigParseError ''CONFIG_PARSE'' ''expected a plain object at the top level''))"

section \<open>What is accepted\<close>

lemma unsafe_key_dangerous: "unsafe_key = dangerous_key"
  by (auto simp: unsafe_key_def dangerous_key_def fun_eq_iff)

text \<open>
  The tree a value stands for, of a given height at most: none where it holds an instance or a value of
  another type, or where it is nested more deeply, as a value that contains itself is.
\<close>

primrec plain_tree :: "nat \<Rightarrow> js_heap \<Rightarrow> js_value \<Rightarrow> json option" where
  "plain_tree 0 heap value = None"
| "plain_tree (Suc n) heap value =
     (let items = (\<lambda>vs. map_option JArr (those (map (plain_tree n heap) vs)));
          entries = (\<lambda>kvs. map_option JObj
            (those (map (\<lambda>kv. map_option (Pair (fst kv)) (plain_tree n heap (snd kv))) kvs))) in
      case value of
        JvNull \<Rightarrow> Some JNull
      | JvBool b \<Rightarrow> Some (JBool b)
      | JvStr s \<Rightarrow> Some (JStr s)
      | JvNonFinite \<Rightarrow> Some JNonFinite
      | JvInt i \<Rightarrow> Some (JInt i)
      | JvArr vs \<Rightarrow> items vs
      | JvObj kvs \<Rightarrow> entries kvs
      | JvShared a \<Rightarrow> (case heap a of SharedArr vs \<Rightarrow> items vs | SharedObj kvs \<Rightarrow> entries kvs)
      | JvInstance \<Rightarrow> None
      | JvOther type \<Rightarrow> None)"

text \<open>Values nested less deeply than the stack has calls.\<close>

fun components :: "js_heap \<Rightarrow> js_value \<Rightarrow> js_value list" where
  "components heap (JvArr vs) = vs"
| "components heap (JvObj kvs) = map snd kvs"
| "components heap (JvShared a) = (case heap a of SharedArr vs \<Rightarrow> vs | SharedObj kvs \<Rightarrow> map snd kvs)"
| "components heap value = []"

primrec nested_within :: "nat \<Rightarrow> js_heap \<Rightarrow> js_value \<Rightarrow> bool" where
  "nested_within 0 heap value \<longleftrightarrow> False"
| "nested_within (Suc n) heap value \<longleftrightarrow> list_all (nested_within n heap) (components heap value)"

lemma map_result_those:
  assumes "\<And>x y. f x = Inr y \<longleftrightarrow> g x = Some y \<and> P y"
  shows "map_result f xs = Inr ys \<longleftrightarrow> those (map g xs) = Some ys \<and> list_all P ys"
proof (induction xs arbitrary: ys)
  case (Cons x xs)
  show ?case
    by (cases "g x"; cases "those (map g xs)") (auto simp: chain_eq_Inr assms Cons.IH)
qed auto

lemma copy_items_Inr:
  assumes "\<And>v p w. copy v p = Inr w \<longleftrightarrow> tree v = Some w \<and> plain_json w"
  shows "copy_items copy path vs = Inr w \<longleftrightarrow> map_option JArr (those (map tree vs)) = Some w \<and> plain_json w"
proof -
  have "map (\<lambda>x. tree (snd x)) (enumerate 0 vs) = map tree vs"
    by (metis comp_apply map_map map_snd_enumerate list.map_cong0)
  then have "map_result (\<lambda>(i, v). copy v (index_path path i)) (enumerate 0 vs) = Inr ws \<longleftrightarrow>
      those (map tree vs) = Some ws \<and> list_all plain_json ws" for ws
    using map_result_those [of "\<lambda>(i, v). copy v (index_path path i)" "\<lambda>x. tree (snd x)" plain_json "enumerate 0 vs" ws]
      assms by (simp add: case_prod_beta)
  then show ?thesis by (auto simp: copy_items_def chain_eq_Inr list_all_iff)
qed

lemma copy_entries_Inr:
  assumes "\<And>v p w. copy v p = Inr w \<longleftrightarrow> tree v = Some w \<and> plain_json w"
  shows "copy_entries copy path kvs = Inr w \<longleftrightarrow>
    map_option JObj (those (map (\<lambda>kv. map_option (Pair (fst kv)) (tree (snd kv))) kvs)) = Some w \<and> plain_json w"
proof -
  let ?P = "\<lambda>kv. \<not> dangerous_key (fst kv) \<and> plain_json (snd kv)"
  have "map_result (\<lambda>(key, child). chain (guard (unsafe_key key) (ConfigParseError ''CONFIG_UNSAFE_KEY''
         (''unsafe key '' @ quoted key @ '' at '' @ key_path path key)))
       (\<lambda>_. chain (copy child (key_path path key)) (\<lambda>out. Inr (key, out)))) kvs = Inr ws \<longleftrightarrow>
      those (map (\<lambda>kv. map_option (Pair (fst kv)) (tree (snd kv))) kvs) = Some ws \<and> list_all ?P ws" for ws
    by (rule map_result_those) (auto simp: chain_eq_Inr assms unsafe_key_dangerous)
  then show ?thesis by (auto simp: copy_entries_def chain_eq_Inr list_all_iff)
qed

text \<open>The check returns exactly the plain trees, without keys that reach a prototype.\<close>

lemma rejectUnsafeKeys_Inr:
  "rejectUnsafeKeys n heap v path = Inr w \<longleftrightarrow> plain_tree n heap v = Some w \<and> plain_json w"
proof (induction n arbitrary: v path w)
  case (Suc n)
  note items = copy_items_Inr [of "rejectUnsafeKeys n heap" "plain_tree n heap", OF Suc.IH]
    and entries = copy_entries_Inr [of "rejectUnsafeKeys n heap" "plain_tree n heap", OF Suc.IH]
  show ?case
    by (cases v) (auto simp: items entries Let_def split: js_shared.splits)
qed simp

text \<open>Its errors: of the check itself, or of the stack where the value is nested too deeply.\<close>

lemma map_result_Inl: "map_result f xs = Inl e \<Longrightarrow> \<exists>x \<in> set xs. f x = Inl e"
  by (induction xs) (auto simp: chain_eq_Inl)

lemma rejectUnsafeKeys_Inl:
  "rejectUnsafeKeys n heap v path = Inl e \<Longrightarrow>
     exn_class e = ''ConfigParseError'' \<or> e = stack_overflow \<and> \<not> nested_within n heap v"
proof (induction n arbitrary: v path)
  case (Suc n)
  let ?fails = "\<lambda>vs. exn_class e = ''ConfigParseError'' \<or> e = stack_overflow \<and> \<not> list_all (nested_within n heap) vs"
  have items: "?fails vs" if "copy_items (rejectUnsafeKeys n heap) path vs = Inl e" for vs
  proof -
    have "map_result (\<lambda>(i, v). rejectUnsafeKeys n heap v (index_path path i)) (enumerate 0 vs) = Inl e"
      using that by (auto simp: copy_items_def chain_eq_Inl)
    then obtain k v where x: "(k, v) \<in> set (enumerate 0 vs)" "rejectUnsafeKeys n heap v (index_path path k) = Inl e"
      by (auto dest!: map_result_Inl)
    from x(1) have "v \<in> set vs" by (auto simp: in_set_enumerate_eq)
    then have "\<exists>v p. v \<in> set vs \<and> rejectUnsafeKeys n heap v p = Inl e" using x(2) by blast
    then show ?thesis using Suc.IH by (auto simp: list_all_iff)
  qed
  have entries: "?fails (map snd kvs)" if "copy_entries (rejectUnsafeKeys n heap) path kvs = Inl e" for kvs
  proof -
    have "exn_class e = ''ConfigParseError'' \<or>
        (\<exists>kv \<in> set kvs. rejectUnsafeKeys n heap (snd kv) (key_path path (fst kv)) = Inl e)"
      using that by (auto simp: copy_entries_def chain_eq_Inl ConfigParseError_def guard_def
          dest!: map_result_Inl split: if_splits) fastforce
    then show ?thesis using Suc.IH by (auto simp: list_all_iff)
  qed
  show ?case
    using Suc.prems items entries
    by (cases v) (auto simp: Let_def ConfigParseError_def split: js_shared.splits)
qed (simp add: stack_overflow_def)

text \<open>A value that is nested too deeply is never returned.\<close>

lemma those_list_all: "those (map f xs) = Some ys \<Longrightarrow> list_all (\<lambda>x. f x \<noteq> None) xs"
  by (induction xs arbitrary: ys) (auto split: option.splits)

lemma plain_tree_nested: "plain_tree n heap v = Some w \<Longrightarrow> nested_within n heap v"
proof (induction n arbitrary: v w)
  case (Suc n)
  have "list_all (nested_within n heap) vs" if "list_all (\<lambda>v. plain_tree n heap v \<noteq> None) vs" for vs
    using that Suc.IH by (auto simp: list_all_iff)
  moreover have "list_all (\<lambda>v. plain_tree n heap v \<noteq> None) (map snd kvs)"
    if "those (map (\<lambda>kv. map_option (Pair (fst kv)) (plain_tree n heap (snd kv))) kvs) = Some ws" for kvs ws
    using those_list_all [OF that] by (auto simp: list_all_iff)
  ultimately show ?case
    using Suc.prems by (cases v) (auto simp: Let_def dest: those_list_all split: js_shared.splits)
qed simp

text \<open>Trees of plain data.\<close>

lemma plain_tree_json:
  "plain_tree n heap (js_of_json v) = (if nested_within n heap (js_of_json v) then Some v else None)"
proof (induction n arbitrary: v)
  case (Suc n)
  have items: "those (map (\<lambda>v. plain_tree n heap (js_of_json v)) vs) =
      (if list_all (\<lambda>v. nested_within n heap (js_of_json v)) vs then Some vs else None)" for vs
    by (induction vs) (auto simp: Suc.IH)
  have entries: "those (map (\<lambda>kv. map_option (Pair (fst kv)) (plain_tree n heap (js_of_json (snd kv)))) kvs) =
      (if list_all (\<lambda>kv. nested_within n heap (js_of_json (snd kv))) kvs then Some kvs else None)"
    for kvs :: "(string \<times> json) list"
    by (induction kvs) (auto simp: Suc.IH)
  show ?case
    by (cases v) (simp_all add: Let_def items entries comp_def list.pred_map)
qed simp

lemma parseJsonText_Inr:
  "parseJsonText parsers content source = Inr v \<longleftrightarrow> parse_JSON parsers content = Inr v \<and>
     nested_within (call_stack parsers) nothing_shared (js_of_json v) \<and> plain_json v"
  by (auto simp: parseJsonText_def rejectUnsafeKeys_Inr plain_tree_json split: sum.splits if_splits)

lemma parseYamlText_Inr:
  "parseYamlText parsers content source = Inr v \<longleftrightarrow> \<not> yaml_alias_token content \<and> \<not> non_json_numeric content \<and>
     (\<exists>heap value. parse_YAML parsers content source = Inr (heap, value) \<and>
       plain_tree (call_stack parsers) heap value = Some v) \<and> plain_json v"
  by (auto simp: parseYamlText_def chain_eq_Inr rejectUnsafeKeys_Inr split: sum.splits prod.splits)

text \<open>
  An object that contains itself is never accepted, and the check does not end in an error of its own
  but with an exhausted stack. The document \<open>a: &1 [*1]\<close> is such a value: its anchor has no letter, so
  the text passes the scan for anchors and aliases.
\<close>

lemma cyclic_overflows:
  assumes "heap a = SharedArr [JvShared a]"
  shows "rejectUnsafeKeys n heap (JvShared a) path = Inl stack_overflow"
  by (induction n arbitrary: path) (simp_all add: assms Let_def copy_items_def)

theorem cyclic_document_overflows:
  assumes "parse_YAML parsers ''a: &1 [*1]'' source = Inr ((\<lambda>_. SharedArr [JvShared 1]), JvObj [(''a'', JvShared 1)])"
  shows "parseYamlText parsers ''a: &1 [*1]'' source = Inl stack_overflow"
proof -
  have "rejectUnsafeKeys n (\<lambda>_. SharedArr [JvShared 1]) (JvObj [(''a'', JvShared 1)]) path = Inl stack_overflow" for n path
    by (cases n) (simp_all add: Let_def copy_entries_def cyclic_overflows unsafe_key_def)
  moreover have "\<not> yaml_alias_token ''a: &1 [*1]''" "\<not> non_json_numeric ''a: &1 [*1]''" by code_simp+
  ultimately show ?thesis using assms by (simp add: parseYamlText_def)
qed

lemma asPlainObject_Inr [simp]: "asPlainObject v = Inr w \<longleftrightarrow> w = v \<and> (\<exists>kvs. v = JObj kvs)"
  by (auto simp: asPlainObject_def split: json.splits)

lemma yaml_alias_token_iff:
  "yaml_alias_token s \<longleftrightarrow> (\<exists>xs c d ys. s = xs @ c # d # ys \<and> c \<in> {CHR ''&'', CHR ''*''} \<and> name_start d)"
proof
  show "yaml_alias_token s \<Longrightarrow> \<exists>xs c d ys. s = xs @ c # d # ys \<and> c \<in> {CHR ''&'', CHR ''*''} \<and> name_start d"
  proof (induction s rule: yaml_alias_token.induct)
    case (1 c d s)
    show ?case
    proof (cases "(c = CHR ''&'' \<or> c = CHR ''*'') \<and> name_start d")
      case True
      then show ?thesis by blast
    next
      case False
      then have "yaml_alias_token (d # s)" using "1.prems" by auto
      from "1.IH" [OF this] show ?thesis by (metis append_Cons)
    qed
  qed auto
next
  assume "\<exists>xs c d ys. s = xs @ c # d # ys \<and> c \<in> {CHR ''&'', CHR ''*''} \<and> name_start d"
  then obtain xs c d ys where s: "s = xs @ c # d # ys" "c \<in> {CHR ''&'', CHR ''*''}" "name_start d" by blast
  have "yaml_alias_token (xs @ c # d # ys)"
  proof (induction xs)
    case (Cons x xs)
    then show ?case by (cases "xs @ c # d # ys") auto
  qed (use s(2,3) in auto)
  then show "yaml_alias_token s" using s(1) by simp
qed


end
