(* ===== verification/Posix_Path.thy ===== *)
theory Posix_Path
  imports Js_String
begin

text \<open>
  The functions of \<open>node:path\<close> (POSIX) the sources call: \<open>isAbsolute\<close>, \<open>resolve\<close>, \<open>join\<close>,
  \<open>relative\<close>, \<open>dirname\<close> and \<open>basename\<close>. A path is read as its list of segments; \<open>cwd\<close> stands
  for \<open>process.cwd()\<close>.

  The results are that \<open>relative\<close> decides containment of resolved paths, which the sandbox
  relies on, and that repeated \<open>dirname\<close> reaches a fixed point, which the search for a workspace
  policy relies on.
\<close>

section \<open>Segments\<close>

definition isAbsolute :: "string \<Rightarrow> bool" where
  "isAbsolute p \<longleftrightarrow> startsWith p ''/''"

lemma isAbsolute_simps [simp]: "\<not> isAbsolute []" "isAbsolute (c # s) \<longleftrightarrow> c = CHR ''/''"
  by (simp_all add: isAbsolute_def startsWith_def)

lemma isAbsolute_append [simp]: "isAbsolute s \<Longrightarrow> isAbsolute (s @ t)"
  by (cases s) simp_all

text \<open>
  \<open>normalizeString\<close>: drop empty and \<open>.\<close> segments, let \<open>..\<close> cancel the segment before it, and
  keep a leading \<open>..\<close> only where the path is relative.
\<close>

fun push_segment :: "bool \<Rightarrow> string list \<Rightarrow> string \<Rightarrow> string list" where
  "push_segment allowAbove out seg =
     (if seg = '''' \<or> seg = ''.'' then out
      else if seg = ''..'' then
        (if out \<noteq> [] \<and> last out \<noteq> ''..'' then butlast out
         else if allowAbove then out @ [''..''] else out)
      else out @ [seg])"

definition normalize_segments :: "bool \<Rightarrow> string list \<Rightarrow> string list" where
  "normalize_segments allowAbove segs = foldl (push_segment allowAbove) [] segs"

definition path_segments :: "string \<Rightarrow> string list" where
  "path_segments p = normalize_segments (\<not> isAbsolute p) (js_split (CHR ''/'') p)"

definition slash_join :: "string list \<Rightarrow> string" where
  "slash_join segs = js_join ''/'' segs"

section \<open>The functions\<close>

definition path_normalize :: "string \<Rightarrow> string" where
  "path_normalize p =
     (if p = '''' then ''.''
      else
        let path = slash_join (path_segments p);
            trailing = (last p = CHR ''/'')
        in if path = '''' then (if isAbsolute p then ''/'' else if trailing then ''./'' else ''.'')
           else (if isAbsolute p then ''/'' else '''') @ path @ (if trailing then ''/'' else ''''))"

definition path_join :: "string list \<Rightarrow> string" where
  "path_join ps =
     (let joined = slash_join (filter (\<lambda>p. p \<noteq> '''') ps)
      in if joined = '''' then ''.'' else path_normalize joined)"

text \<open>\<open>resolve\<close> reads its arguments from the right until the path is absolute.\<close>

fun resolve_from :: "string list \<Rightarrow> string \<Rightarrow> string" where
  "resolve_from [] acc = acc"
| "resolve_from (p # ps) acc =
     (if isAbsolute acc then acc
      else resolve_from ps (if p = '''' then acc else p @ ''/'' @ acc))"

definition path_resolve :: "string \<Rightarrow> string list \<Rightarrow> string" where
  "path_resolve cwd ps =
     (let path = resolve_from (rev (cwd # ps)) '''' in
      if isAbsolute path then CHR ''/'' # slash_join (path_segments path)
      else let joined = slash_join (path_segments path) in if joined = '''' then ''.'' else joined)"

fun common_prefix :: "'a list \<Rightarrow> 'a list \<Rightarrow> nat" where
  "common_prefix (x # xs) (y # ys) = (if x = y then Suc (common_prefix xs ys) else 0)"
| "common_prefix xs ys = 0"

definition path_relative :: "string \<Rightarrow> string \<Rightarrow> string \<Rightarrow> string" where
  "path_relative cwd from to =
     (let f = path_segments (path_resolve cwd [from]); t = path_segments (path_resolve cwd [to]);
          n = common_prefix f t
      in slash_join (replicate (length f - n) ''..'' @ drop n t))"

definition path_dirname :: "string \<Rightarrow> string" where
  "path_dirname p =
     (case p of
        [] \<Rightarrow> ''.''
      | c # rest \<Rightarrow>
          let stem = dropWhile (\<lambda>c. c \<noteq> CHR ''/'') (dropWhile (\<lambda>c. c = CHR ''/'') (rev rest));
              hasRoot = (c = CHR ''/'')
          in if stem = [] then (if hasRoot then ''/'' else ''.'')
             else if hasRoot \<and> length stem = 1 then ''//''
             else take (length stem) p)"

definition path_basename :: "string \<Rightarrow> string" where
  "path_basename p =
     rev (takeWhile (\<lambda>c. c \<noteq> CHR ''/'') (dropWhile (\<lambda>c. c = CHR ''/'') (rev p)))"

section \<open>Repeated \<open>dirname\<close>\<close>

text \<open>A measure that \<open>dirname\<close> lowers until it reaches \<open>/\<close> or \<open>.\<close>.\<close>

definition path_depth :: "string \<Rightarrow> nat" where
  "path_depth p = (if p = ''.'' then 0 else Suc (length p))"

lemma length_stem:
  assumes "dropWhile Q (dropWhile P xs) \<noteq> []" and "\<And>x. \<not> P x \<Longrightarrow> Q x"
  shows "length (dropWhile Q (dropWhile P xs)) < length xs"
proof (cases "dropWhile P xs")
  case (Cons y ys)
  then have "\<not> P y" by (simp add: dropWhile_eq_Cons_conv)
  then have "length (dropWhile Q (dropWhile P xs)) \<le> length ys"
    using assms(2) [of y] length_dropWhile_le [of Q ys] by (simp add: Cons)
  also have "\<dots> < length xs" using length_dropWhile_le [of P xs] Cons by simp
  finally show ?thesis .
next
  case Nil
  then show ?thesis using assms(1) by (simp only: Nil dropWhile.simps simp_thms)
qed

lemma path_dirname_depth: "path_dirname p \<noteq> p \<Longrightarrow> path_depth (path_dirname p) < path_depth p"
proof (cases p)
  case (Cons c rest)
  let ?tail = "dropWhile (\<lambda>c. c = CHR ''/'') (rev rest)"
  let ?stem = "dropWhile (\<lambda>c. c \<noteq> CHR ''/'') ?tail"
  assume fixed: "path_dirname p \<noteq> p"
  show ?thesis
  proof (cases "?stem = []")
    case True
    have dir: "path_dirname p = (if c = CHR ''/'' then ''/'' else ''.'')"
      unfolding path_dirname_def Cons Let_def by (simp only: list.case True simp_thms if_True)
    show ?thesis
    proof (cases "c = CHR ''/''")
      case True
      then have "rest \<noteq> []" using fixed dir Cons by auto
      then show ?thesis using dir True Cons by (simp add: path_depth_def)
    next
      case False
      then have "p \<noteq> ''.''" using fixed dir by auto
      then show ?thesis using dir False by (simp add: path_depth_def)
    qed
  next
    case False
    then have lt: "length ?stem < length rest"
      using length_stem [of "\<lambda>c. c \<noteq> CHR ''/''" "\<lambda>c. c = CHR ''/''" "rev rest"] by simp
    have "length (path_dirname p) < length p"
      unfolding path_dirname_def Cons Let_def using lt by (simp only: list.case False simp_thms if_False) simp
    moreover have "p \<noteq> ''.''" using lt Cons by auto
    ultimately show ?thesis by (simp add: path_depth_def)
  qed
qed (simp add: path_dirname_def path_depth_def)

section \<open>Containment\<close>

text \<open>Resolved segments name neither the directory itself nor its parent.\<close>

definition plain_segments :: "string list \<Rightarrow> bool" where
  "plain_segments segs \<longleftrightarrow>
     (\<forall>s \<in> set segs. s \<noteq> '''' \<and> s \<noteq> ''.'' \<and> s \<noteq> ''..'' \<and> CHR ''/'' \<notin> set s)"

lemma plain_push:
  "plain_segments out \<Longrightarrow> CHR ''/'' \<notin> set seg \<Longrightarrow> plain_segments (push_segment False out seg)"
  by (auto simp: plain_segments_def dest: in_set_butlastD)

lemma plain_normalize:
  "\<forall>s \<in> set segs. CHR ''/'' \<notin> set s \<Longrightarrow> plain_segments out \<Longrightarrow>
   plain_segments (foldl (push_segment False) out segs)"
proof (induction segs arbitrary: out)
  case (Cons s segs)
  then show ?case using plain_push [of out s] by (simp del: push_segment.simps)
qed simp

lemma plain_absolute: "isAbsolute p \<Longrightarrow> plain_segments (path_segments p)"
  unfolding path_segments_def normalize_segments_def
  by (simp del: push_segment.simps)
    (intro plain_normalize ballI split_segments_no_sep, auto simp: plain_segments_def)

lemma foldl_push_plain:
  "plain_segments segs \<Longrightarrow> foldl (push_segment False) out segs = out @ segs"
  by (induction segs arbitrary: out) (auto simp: plain_segments_def)

text \<open>Printing resolved segments and reading them again.\<close>

lemma path_segments_absolute:
  assumes "plain_segments segs"
  shows "path_segments (CHR ''/'' # slash_join segs) = segs"
proof -
  have abs: "isAbsolute (CHR ''/'' # slash_join segs)" by (simp add: isAbsolute_def startsWith_def)
  show ?thesis
  proof (cases "segs = []")
    case True
    then show ?thesis using abs
      by (simp add: path_segments_def normalize_segments_def slash_join_def)
  next
    case False
    then have "js_split (CHR ''/'') (slash_join segs) = segs"
      using assms by (simp add: slash_join_def js_split_join plain_segments_def)
    then show ?thesis using abs foldl_push_plain [OF assms]
      by (simp add: path_segments_def normalize_segments_def)
  qed
qed

lemma js_join_hd: "js_join ''/'' (s # segs) = s @ (if segs = [] then [] else CHR ''/'' # js_join ''/'' segs)"
  by (cases segs) simp_all

lemma common_prefix_length:
  "common_prefix xs ys \<le> length xs" "common_prefix xs ys \<le> length ys"
  by (induction xs ys rule: common_prefix.induct) auto

lemma common_prefix_full: "common_prefix xs ys = length xs \<longleftrightarrow> prefix xs ys"
  by (induction xs ys rule: common_prefix.induct) (auto simp: prefix_def)

text \<open>A relative path that does not start with \<open>..\<close> leads downwards.\<close>

lemma path_relative_inside:
  assumes "\<not> startsWith (path_relative cwd root target) ''..''"
  shows "prefix (path_segments (path_resolve cwd [root])) (path_segments (path_resolve cwd [target]))"
proof (rule ccontr)
  let ?f = "path_segments (path_resolve cwd [root])"
  let ?t = "path_segments (path_resolve cwd [target])"
  assume "\<not> prefix ?f ?t"
  then have "common_prefix ?f ?t < length ?f"
    using common_prefix_length(1) [of ?f ?t] common_prefix_full [of ?f ?t] by linarith
  then obtain k where "length ?f - common_prefix ?f ?t = Suc k"
    by (metis Suc_diff_Suc)
  then have "path_relative cwd root target =
      ''..'' @ (if replicate k ''..'' @ drop (common_prefix ?f ?t) ?t = [] then []
        else CHR ''/'' # js_join ''/'' (replicate k ''..'' @ drop (common_prefix ?f ?t) ?t))"
    by (simp add: path_relative_def Let_def slash_join_def js_join_hd)
  then show False using assms by (simp add: startsWith_def)
qed

end
