(* ===== verification/Js_Effects.thy ===== *)
theory Js_Effects
  imports Js_String
begin

text \<open>
  Methods that mutate an object and may throw. A thrown exception does not undo the mutations
  made before it, so such a method is a function from the state to a result \<^emph>\<open>and\<close> the state in
  which it returned or threw.
\<close>

named_theorems effect_simps \<open>evaluation of stateful methods\<close>

type_synonym ('s, 'a) effect = "'s \<Rightarrow> 'a result \<times> 's"

section \<open>Sequencing\<close>

text \<open>\<open>proceed r f\<close>: the rest of the body after a statement that returned or threw.\<close>

definition proceed :: "('e + 'a) \<times> 's \<Rightarrow> ('a \<Rightarrow> 's \<Rightarrow> ('e + 'b) \<times> 's) \<Rightarrow> ('e + 'b) \<times> 's" where
  "proceed r f = (case fst r of Inl e \<Rightarrow> (Inl e, snd r) | Inr x \<Rightarrow> f x (snd r))"

text \<open>A check that does not touch the state, and \<open>operation().catch(() => undefined)\<close>.\<close>

definition check :: "'e + 'a \<Rightarrow> 's \<Rightarrow> ('e + 'a) \<times> 's" where
  "check r s = (r, s)"

definition catch_undefined :: "('e + 'a) \<times> 's \<Rightarrow> ('e + unit) \<times> 's" where
  "catch_undefined r = (Inr (), snd r)"

lemma proceed_simps [simp, effect_simps]:
  "proceed (Inl e, s) f = (Inl e, s)"
  "proceed (Inr x, s) f = f x s"
  by (simp_all add: proceed_def)

lemma proceed_check [effect_simps]:
  "proceed (check r s) f = (case r of Inl e \<Rightarrow> (Inl e, s) | Inr x \<Rightarrow> f x s)"
  by (simp add: check_def proceed_def split: sum.split)

lemma snd_check [simp]: "snd (check r s) = s"
  by (simp add: check_def)

lemma fst_check [simp]: "fst (check r s) = r"
  by (simp add: check_def)

lemma catch_undefined_simps [simp]:
  "fst (catch_undefined r) = Inr ()"
  "snd (catch_undefined r) = snd r"
  by (simp_all add: catch_undefined_def)

lemma proceed_Inr_iff:
  "proceed r f = (Inr y, t) \<longleftrightarrow> (\<exists>x s. r = (Inr x, s) \<and> f x s = (Inr y, t))"
  by (cases r; cases "fst r") (auto simp: proceed_def)

lemma proceed_Inl_iff:
  "proceed r f = (Inl e, t) \<longleftrightarrow>
     r = (Inl e, t) \<or> (\<exists>x s. r = (Inr x, s) \<and> f x s = (Inl e, t))"
  by (cases r; cases "fst r") (auto simp: proceed_def)

lemma proceed_assoc: "proceed (proceed r f) g = proceed r (\<lambda>x s. proceed (f x s) g)"
proof (cases r)
  case (Pair q s)
  then show ?thesis by (cases q) simp_all
qed

lemma proceed_cong [fundef_cong]:
  "r = r' \<Longrightarrow> (\<And>x s. r' = (Inr x, s) \<Longrightarrow> f x s = f' x s) \<Longrightarrow> proceed r f = proceed r' f'"
  by (cases r'; cases "fst r'") (simp_all add: proceed_def)

section \<open>Loops\<close>

fun for_do :: "('a \<Rightarrow> 's \<Rightarrow> ('e + unit) \<times> 's) \<Rightarrow> 'a list \<Rightarrow> 's \<Rightarrow> ('e + unit) \<times> 's" where
  "for_do f [] s = (Inr (), s)"
| "for_do f (x # xs) s = proceed (f x s) (\<lambda>_. for_do f xs)"

text \<open>An invariant every body keeps, also when it throws, holds however the loop ends.\<close>

lemma for_do_invariant:
  assumes "I s" and "\<And>x s. x \<in> set xs \<Longrightarrow> I s \<Longrightarrow> I (snd (f x s))"
  shows "I (snd (for_do f xs s))"
  using assms
proof (induction xs arbitrary: s)
  case Nil
  then show ?case by simp
next
  case (Cons x xs)
  have step: "I (snd (f x s))" using Cons.prems by simp
  show ?case
  proof (cases "f x s")
    case (Pair r t)
    then show ?thesis using step Cons by (cases r) auto
  qed
qed

lemma proceed_invariant:
  assumes "I (snd r)" and "\<And>x s. I s \<Longrightarrow> I (snd (f x s))"
  shows "I (snd (proceed r f))"
  using assms by (cases r; cases "fst r") (auto simp: proceed_def)

end
