(* ===== verification/Config_Files.thy ===== *)
theory Config_Files
  imports Config_Parse Posix_Path Js_Effects
begin

text \<open>
  \<open>packages/config/src/discovery.ts\<close> and \<open>adapters/filesystem.ts\<close>: where configuration and policy
  files are looked up, and the file-system adapters behind the lookup. Of an adapter only the reads
  the lookup makes are in the record; the in-memory adapter is modelled with all its operations, and
  the calls of \<open>node:fs\<close> the other one wraps are arguments.
\<close>

section \<open>Candidates\<close>

datatype config_kind = KindConfig | KindPolicy

datatype config_format = FormatJson | FormatYaml

fun config_kind_name :: "config_kind \<Rightarrow> string" where
  "config_kind_name KindConfig = ''config''"
| "config_kind_name KindPolicy = ''policy''"

record config_candidate =
  cand_kind :: config_kind
  cand_format :: config_format
  cand_path :: string

definition sorenConfigPaths :: "string \<Rightarrow> config_candidate list" where
  "sorenConfigPaths root =
     [\<lparr>cand_kind = KindConfig, cand_format = FormatYaml, cand_path = path_join [root, ''.soren-sdk'', ''config.yaml'']\<rparr>,
      \<lparr>cand_kind = KindConfig, cand_format = FormatJson, cand_path = path_join [root, ''.soren-sdk'', ''config.json'']\<rparr>]"

definition sorenPolicyPaths :: "string \<Rightarrow> config_candidate list" where
  "sorenPolicyPaths root =
     [\<lparr>cand_kind = KindPolicy, cand_format = FormatYaml, cand_path = path_join [root, ''.soren-sdk'', ''policy.yaml'']\<rparr>,
      \<lparr>cand_kind = KindPolicy, cand_format = FormatJson, cand_path = path_join [root, ''.soren-sdk'', ''policy.json'']\<rparr>]"

definition ConfigLoadError :: "string \<Rightarrow> string \<Rightarrow> exn" where
  "ConfigLoadError code message = Exn ''ConfigLoadError'' code message"

section \<open>Adapters\<close>

record fs_adapter =
  fs_readFile :: "string \<Rightarrow> string option result"
  fs_exists :: "string \<Rightarrow> bool result"

text \<open>\<open>candidates.filter\<close>, whose predicate may throw.\<close>

fun present_candidates :: "'a fs_adapter_scheme \<Rightarrow> config_candidate list \<Rightarrow> config_candidate list result" where
  "present_candidates fs [] = Inr []"
| "present_candidates fs (candidate # rest) =
     chain (fs_exists fs (cand_path candidate))
     (\<lambda>found. chain (present_candidates fs rest)
     (\<lambda>others. Inr (if found then candidate # others else others)))"

definition findSingleSource :: "'a fs_adapter_scheme \<Rightarrow> config_candidate list \<Rightarrow> config_candidate option result" where
  "findSingleSource fs candidates =
     chain (present_candidates fs candidates)
     (\<lambda>present. if length present > 1
        then Inl (ConfigLoadError ''CONFIG_AMBIGUOUS'' (''multiple '' @ config_kind_name (cand_kind (hd present)) @
          '' sources found: '' @ js_join '', '' (map cand_path present)))
        else Inr (case present of [] \<Rightarrow> None | candidate # rest \<Rightarrow> Some candidate))"

subsection \<open>\<open>node:fs\<close>\<close>

text \<open>\<open>readFileSync\<close> and \<open>lstatSync(path).isSymbolicLink()\<close> of the host, and its two writing calls.\<close>

record 's node_fs =
  node_readFileSync :: "string \<Rightarrow> string result"
  node_lstatSync :: "string \<Rightarrow> bool result"
  node_writeFileSync :: "string \<Rightarrow> string \<Rightarrow> 's \<Rightarrow> unit result \<times> 's"
  node_renameSync :: "string \<Rightarrow> string \<Rightarrow> 's \<Rightarrow> unit result \<times> 's"

definition isEnoent :: "exn \<Rightarrow> bool" where
  "isEnoent e \<longleftrightarrow> exn_code e = ''ENOENT''"

definition node_readFile :: "'s node_fs \<Rightarrow> string \<Rightarrow> string option result" where
  "node_readFile host path =
     (case node_readFileSync host path of
        Inr content \<Rightarrow> Inr (Some content)
      | Inl e \<Rightarrow> if isEnoent e then Inr None else Inl e)"

definition node_exists :: "'s node_fs \<Rightarrow> string \<Rightarrow> bool result" where
  "node_exists host path =
     (case node_lstatSync host path of Inr link \<Rightarrow> Inr True | Inl e \<Rightarrow> if isEnoent e then Inr False else Inl e)"

definition node_isSymbolicLink :: "'s node_fs \<Rightarrow> string \<Rightarrow> bool result" where
  "node_isSymbolicLink host path =
     (case node_lstatSync host path of Inr link \<Rightarrow> Inr link | Inl e \<Rightarrow> if isEnoent e then Inr False else Inl e)"

text \<open>\<open>unique\<close> is the text made of the process id and a random number.\<close>

definition node_writeFileAtomic :: "'s node_fs \<Rightarrow> string \<Rightarrow> string \<Rightarrow> string \<Rightarrow> 's \<Rightarrow> unit result \<times> 's" where
  "node_writeFileAtomic host unique path content st =
     (let tempPath = path @ ''.tmp-'' @ unique in
      proceed (node_writeFileSync host tempPath content st)
      (\<lambda>_ st. node_renameSync host tempPath path st))"

definition node_adapter :: "'s node_fs \<Rightarrow> fs_adapter" where
  "node_adapter host = \<lparr>fs_readFile = node_readFile host, fs_exists = node_exists host\<rparr>"

subsection \<open>In memory\<close>

definition lexical_step :: "string list \<Rightarrow> string \<Rightarrow> string list" where
  "lexical_step out part =
     (if part = '''' \<or> part = ''.'' then out else if part = ''..'' then butlast out else out @ [part])"

definition resolveLexically :: "string \<Rightarrow> string" where
  "resolveLexically path =
     (let joined = js_join ''/'' (foldl lexical_step [] (js_split (CHR ''/'') path))
      in if startsWith path ''/'' then CHR ''/'' # joined else joined)"

record memory_files =
  mf_files :: "(string \<times> string) list"
  mf_symlinks :: "string list"

definition memory_readFile :: "memory_files \<Rightarrow> string \<Rightarrow> string option" where
  "memory_readFile fs path = map_of (mf_files fs) path"

definition memory_exists :: "memory_files \<Rightarrow> string \<Rightarrow> bool" where
  "memory_exists fs path \<longleftrightarrow> map_of (mf_files fs) path \<noteq> None \<or> path \<in> set (mf_symlinks fs)"

definition memory_realpath :: "memory_files \<Rightarrow> string \<Rightarrow> string result" where
  "memory_realpath fs path =
     (let resolved = resolveLexically path in
      if \<not> memory_exists fs resolved
      then Inl (GenericError (''ENOENT: no such file or directory, realpath '' @ [CHR 0x27] @ resolved @ [CHR 0x27]))
      else Inr resolved)"

definition memory_isSymbolicLink :: "memory_files \<Rightarrow> string \<Rightarrow> bool" where
  "memory_isSymbolicLink fs path \<longleftrightarrow> path \<in> set (mf_symlinks fs)"

definition memory_writeFileAtomic :: "string \<Rightarrow> string \<Rightarrow> memory_files \<Rightarrow> memory_files" where
  "memory_writeFileAtomic path content fs = fs\<lparr>mf_files := AList.update path content (mf_files fs)\<rparr>"

definition memory_adapter :: "memory_files \<Rightarrow> fs_adapter" where
  "memory_adapter fs = \<lparr>fs_readFile = \<lambda>path. Inr (memory_readFile fs path),
     fs_exists = \<lambda>path. Inr (memory_exists fs path)\<rparr>"

section \<open>The interface of the lookup\<close>

text \<open>
  What the lookup relies on: the adapter shows one map from paths to contents, without errors. The
  in-memory adapter without simulated links is one, and so is the wrapper of \<open>node:fs\<close> over a host
  whose only error is a missing file.
\<close>

locale lookup_files =
  fixes fs :: fs_adapter and files :: "string \<Rightarrow> string option"
  assumes reads: "fs_readFile fs path = Inr (files path)"
    and knows: "fs_exists fs path = Inr (files path \<noteq> None)"
begin

lemma present_filter: "present_candidates fs cs = Inr (filter (\<lambda>c. files (cand_path c) \<noteq> None) cs)"
  by (induction cs) (simp_all add: knows)

lemma findSingleSource_pair:
  "findSingleSource fs [a, b] =
     (if files (cand_path a) = None then Inr (if files (cand_path b) = None then None else Some b)
      else if files (cand_path b) = None then Inr (Some a)
      else Inl (ConfigLoadError ''CONFIG_AMBIGUOUS'' (''multiple '' @ config_kind_name (cand_kind a) @
        '' sources found: '' @ cand_path a @ '', '' @ cand_path b)))"
  by (simp add: findSingleSource_def present_filter del: present_candidates.simps)

lemma findSingleSource_readable:
  "findSingleSource fs cs = Inr (Some c) \<Longrightarrow> c \<in> set cs \<and> (\<exists>content. fs_readFile fs (cand_path c) = Inr (Some content))"
proof -
  assume found: "findSingleSource fs cs = Inr (Some c)"
  then obtain rest where "filter (\<lambda>c. files (cand_path c) \<noteq> None) cs = c # rest"
    by (auto simp: findSingleSource_def present_filter split: if_splits list.splits)
  then have "c \<in> set (filter (\<lambda>c. files (cand_path c) \<noteq> None) cs)" by simp
  then show ?thesis by (auto simp: reads)
qed

end

interpretation memory_lookup: lookup_files "memory_adapter \<lparr>mf_files = content, mf_symlinks = []\<rparr>" "map_of content"
  for content
  by unfold_locales (simp_all add: memory_adapter_def memory_readFile_def memory_exists_def)

text \<open>A host that shows one map from paths to contents.\<close>

locale node_host =
  fixes host :: "'s node_fs" and files :: "string \<Rightarrow> string option"
  assumes host_read: "node_readFileSync host path =
      (case files path of Some content \<Rightarrow> Inr content | None \<Rightarrow> Inl (Exn ''Error'' ''ENOENT'' ''''))"
    and host_stat: "node_lstatSync host path =
      (case files path of Some content \<Rightarrow> Inr False | None \<Rightarrow> Inl (Exn ''Error'' ''ENOENT'' ''''))"

sublocale node_host \<subseteq> lookup_files "node_adapter host" files
  by unfold_locales
    (simp_all add: node_adapter_def node_readFile_def node_exists_def host_read host_stat isEnoent_def split: option.split)

text \<open>The host calls over a map in memory.\<close>

definition map_host :: "(string \<times> string) list \<Rightarrow> ((string \<times> string) list) node_fs" where
  "map_host content = \<lparr>
     node_readFileSync = \<lambda>path. (case map_of content path of Some c \<Rightarrow> Inr c | None \<Rightarrow> Inl (Exn ''Error'' ''ENOENT'' '''')),
     node_lstatSync = \<lambda>path. (case map_of content path of Some c \<Rightarrow> Inr False | None \<Rightarrow> Inl (Exn ''Error'' ''ENOENT'' '''')),
     node_writeFileSync = \<lambda>path c st. (Inr (), AList.update path c st),
     node_renameSync = \<lambda>from to st. (case map_of st from of
        Some c \<Rightarrow> (Inr (), AList.update to c (AList.delete from st)) | None \<Rightarrow> (Inl (Exn ''Error'' ''ENOENT'' ''''), st))\<rparr>"

interpretation node_lookup: node_host "map_host content" "map_of content"
  for content
  by unfold_locales (simp_all add: map_host_def)

end
