(* ===== verification/Config_Reader.thy ===== *)
theory Config_Reader
  imports Config_Files Policy_Resolver
begin

text \<open>
  \<open>packages/config/src/configuration.ts\<close>, the loading step of \<open>PolicyResolver.resolve\<close> in
  \<open>policy.ts\<close> and \<open>resolved-policy-provider.ts\<close>: reading the configuration of a project and its
  policy layers. A contract stands for Ajv and the cast to the contract's type: it maps a JSON value
  to its issues or to the typed document.
\<close>

section \<open>Types\<close>

record config_preferences =
  cfp_preferredProviders :: "string list option"
  cfp_forbiddenProviders :: "string list option"
  cfp_maxProviders :: "int option"

record soren_config =
  cfg_configId :: string
  cfg_preferences :: "config_preferences option"

record loaded_configuration =
  loaded_config :: soren_config
  loaded_digest :: string
  loaded_format :: config_format
  loaded_path :: string

record policy_layer =
  pl_document :: policy_document
  pl_scope :: policy_scope
  pl_format :: config_format
  pl_path :: string

record config_reader = document_parsers +
  rd_fs :: fs_adapter
  rd_workspaceRoot :: "string option"
  rd_configContract :: "soren_config contract"
  rd_policyContract :: "policy_document contract"

section \<open>The project configuration\<close>

definition normalizeSorenConfig :: "soren_config \<Rightarrow> soren_config" where
  "normalizeSorenConfig config = \<lparr>
     cfg_configId = cfg_configId config,
     cfg_preferences = map_option (\<lambda>preferences. \<lparr>
       cfp_preferredProviders = map_option stableUnique (cfp_preferredProviders preferences),
       cfp_forbiddenProviders = map_option stableUnique (cfp_forbiddenProviders preferences),
       cfp_maxProviders = cfp_maxProviders preferences\<rparr>) (cfg_preferences config)\<rparr>"

definition preferences_json :: "config_preferences \<Rightarrow> json" where
  "preferences_json p = JObj
     (opt_entry ''preferredProviders'' (map_option strs_json (cfp_preferredProviders p)) @
      opt_entry ''forbiddenProviders'' (map_option strs_json (cfp_forbiddenProviders p)) @
      opt_entry ''maxProviders'' (map_option JInt (cfp_maxProviders p)))"

definition config_json :: "soren_config \<Rightarrow> json" where
  "config_json c = JObj ([(''schemaVersion'', JStr ''1.0.0-draft.1''), (''contractKind'', JStr ''soren-config''),
     (''configId'', JStr (cfg_configId c))] @
     opt_entry ''preferences'' (map_option preferences_json (cfg_preferences c)))"

definition parseDocument :: "config_reader \<Rightarrow> string \<Rightarrow> config_format \<Rightarrow> json result" where
  "parseDocument reader path format =
     chain (fs_readFile (rd_fs reader) path)
     (\<lambda>content. case content of
        None \<Rightarrow> Inl (ConfigLoadError ''CONFIG_NOT_FOUND'' (''file not found: '' @ path))
      | Some content \<Rightarrow>
          chain (case format of FormatJson \<Rightarrow> parseJsonText reader content path
                 | FormatYaml \<Rightarrow> parseYamlText reader content path)
          asPlainObject)"

text \<open>Reading a candidate and checking it against its contract.\<close>

definition read_contract :: "config_reader \<Rightarrow> 'a contract \<Rightarrow> string \<Rightarrow> config_candidate \<Rightarrow> 'a result" where
  "read_contract reader contract message source =
     chain (parseDocument reader (cand_path source) (cand_format source))
     (\<lambda>document. case contract document of
        Inl issues \<Rightarrow> Inl (ConfigLoadError ''CONFIG_INVALID''
          (config_kind_name (cand_kind source) @ '' file '' @ cand_path source @ '' does not satisfy the '' @
           message @ '' contract''))
      | Inr value \<Rightarrow> Inr value)"

definition loadProjectConfig :: "(string \<Rightarrow> string) \<Rightarrow> config_reader \<Rightarrow> string \<Rightarrow> loaded_configuration result" where
  "loadProjectConfig sha reader projectRoot =
     chain (findSingleSource (rd_fs reader) (sorenConfigPaths projectRoot))
     (\<lambda>found. case found of
        None \<Rightarrow> Inl (ConfigLoadError ''CONFIG_NOT_FOUND''
          (''no config file found under '' @ projectRoot @ ''/.soren-sdk''))
      | Some source \<Rightarrow>
          chain (read_contract reader (rd_configContract reader) ''soren-config'' source)
          (\<lambda>value. let config = normalizeSorenConfig value in
            chain (digestJson sha (config_json config))
            (\<lambda>digest. Inr \<lparr>loaded_config = config, loaded_digest = digest,
               loaded_format = cand_format source, loaded_path = cand_path source\<rparr>)))"

section \<open>Policy layers\<close>

definition loadPolicyLayer :: "config_reader \<Rightarrow> string \<Rightarrow> policy_scope \<Rightarrow> policy_layer option result" where
  "loadPolicyLayer reader root scope =
     chain (findSingleSource (rd_fs reader) (sorenPolicyPaths root))
     (\<lambda>found. case found of
        None \<Rightarrow> Inr None
      | Some source \<Rightarrow>
          chain (read_contract reader (rd_policyContract reader) ''policy'' source)
          (\<lambda>document. Inr (Some \<lparr>pl_document = document, pl_scope = scope,
             pl_format = cand_format source, pl_path = cand_path source\<rparr>)))"

text \<open>The loop of \<open>findWorkspacePolicyLayer\<close>, from the directory \<open>dir\<close> upwards.\<close>

function workspace_search :: "config_reader \<Rightarrow> string \<Rightarrow> policy_layer option result" where
  "workspace_search reader dir =
     chain (loadPolicyLayer reader dir WorkspaceScope)
     (\<lambda>layer. case layer of
        Some found \<Rightarrow> Inr (Some found)
      | None \<Rightarrow>
          let parent = path_dirname dir in
          if parent = dir then Inr None
          else if rd_workspaceRoot reader = Some dir then Inr None
          else workspace_search reader parent)"
  by pat_completeness auto
termination
  by (relation "measure (\<lambda>(reader, dir). path_depth dir)") (auto intro: path_dirname_depth)

declare workspace_search.simps [simp del]

definition findWorkspacePolicyLayer :: "config_reader \<Rightarrow> string \<Rightarrow> policy_layer option result" where
  "findWorkspacePolicyLayer reader projectRoot = workspace_search reader (path_dirname projectRoot)"

definition loadPolicyLayers :: "config_reader \<Rightarrow> string \<Rightarrow> policy_layer list result" where
  "loadPolicyLayers reader projectRoot =
     chain (findWorkspacePolicyLayer reader projectRoot)
     (\<lambda>workspace. chain (loadPolicyLayer reader projectRoot ProjectScope)
     (\<lambda>project. Inr ((case workspace of None \<Rightarrow> [] | Some layer \<Rightarrow> [layer]) @
       (case project of None \<Rightarrow> [] | Some layer \<Rightarrow> [layer]))))"

section \<open>The policy resolver\<close>

text \<open>\<open>ResolvePolicyInput\<close>; its file system and workspace root are in the reader.\<close>

record resolve_request =
  rq_projectRoot :: string
  rq_organizationPolicy :: "policy_document option"
  rq_runPolicy :: "policy_document option"

definition PolicyResolutionError :: "resolution_error \<Rightarrow> exn" where
  "PolicyResolutionError e = Exn ''PolicyResolutionError'' (re_code e) (re_message e)"

definition discovered_layer :: "policy_layer \<Rightarrow> layer_entry" where
  "discovered_layer layer = \<lparr>layer_scope = pl_scope layer, layer_document = pl_document layer,
     layer_source = Some (pl_path layer)\<rparr>"

definition resolver_input :: "resolve_request \<Rightarrow> policy_layer list \<Rightarrow> resolve_input" where
  "resolver_input request discovered = \<lparr>ri_discovered = map discovered_layer discovered,
     ri_organizationPolicy = rq_organizationPolicy request, ri_runPolicy = rq_runPolicy request\<rparr>"

definition resolve_policy :: "(string \<Rightarrow> string) \<Rightarrow> config_reader \<Rightarrow> resolve_request \<Rightarrow> resolved_policy result" where
  "resolve_policy sha reader request =
     chain (loadPolicyLayers reader (rq_projectRoot request))
     (\<lambda>discovered. case resolve sha (resolver_input request discovered) of
        Inl e \<Rightarrow> Inl (PolicyResolutionError e) | Inr resolved \<Rightarrow> Inr resolved)"

section \<open>Snapshots of resolved policies\<close>

definition policyFingerprint :: "(string \<Rightarrow> string) \<Rightarrow> resolve_request \<Rightarrow> string result" where
  "policyFingerprint sha request = digestJson sha (JObj
     [(''projectRoot'', JStr (rq_projectRoot request)),
      (''organizationPolicy'', opt_str_json (map_option policy_policyId (rq_organizationPolicy request))),
      (''runPolicy'', opt_str_json (map_option policy_policyId (rq_runPolicy request)))])"

definition getResolvedPolicy :: "(string \<Rightarrow> string) \<Rightarrow> (string \<times> resolved_policy) list \<Rightarrow> resolve_request \<Rightarrow>
    resolved_policy result" where
  "getResolvedPolicy sha policies request =
     chain (policyFingerprint sha request)
     (\<lambda>fingerprint. case map_of policies fingerprint of
        None \<Rightarrow> Inl (Exn ''ResolvedPolicyMissingError'' ''POLICY_SNAPSHOT_MISSING''
          (''no resolved policy snapshot for fingerprint '' @ fingerprint))
      | Some policy \<Rightarrow> Inr policy)"

end
