(* ===== verification/Config_Correctness.thy ===== *)
theory Config_Correctness
  imports Config_Reader
begin

text \<open>
  What reading a configuration guarantees: what a parsed document holds, which directories the
  search for a workspace policy visits and that it ends, which files the layers come from, and that
  a resolved policy is never weaker than a policy file.
\<close>

lemma case_sum_Inr [simp]:
  "(case r of Inl e \<Rightarrow> Inl (f e) | Inr x \<Rightarrow> Inr x) = Inr y \<longleftrightarrow> r = Inr y"
  by (cases r) simp_all

section \<open>The directories of the search\<close>

text \<open>The first layer of a list of directories, and the \<open>n\<close>-th directory above one.\<close>

fun first_layer :: "config_reader \<Rightarrow> string list \<Rightarrow> policy_layer option result" where
  "first_layer reader [] = Inr None"
| "first_layer reader (dir # dirs) =
     chain (loadPolicyLayer reader dir WorkspaceScope)
     (\<lambda>layer. case layer of Some found \<Rightarrow> Inr (Some found) | None \<Rightarrow> first_layer reader dirs)"

definition above :: "nat \<Rightarrow> string \<Rightarrow> string" where
  "above n dir = (path_dirname ^^ n) dir"

lemma above_simps [simp]: "above 0 dir = dir" "above (Suc n) dir = above n (path_dirname dir)"
  by (simp_all add: above_def funpow_swap1)

definition last_directory :: "string option \<Rightarrow> string \<Rightarrow> bool" where
  "last_directory root dir \<longleftrightarrow> path_dirname dir = dir \<or> root = Some dir"

lemma climb_ends:
  "\<exists>n \<le> path_depth dir. last_directory root (above n dir) \<and> (\<forall>k < n. \<not> last_directory root (above k dir))"
proof (induction "path_depth dir" arbitrary: dir rule: less_induct)
  case less
  show ?case
  proof (cases "last_directory root dir")
    case True
    then show ?thesis by (intro exI [of _ 0]) simp
  next
    case False
    then have up: "path_depth (path_dirname dir) < path_depth dir"
      by (intro path_dirname_depth) (simp add: last_directory_def)
    obtain n where "n \<le> path_depth (path_dirname dir)" "last_directory root (above n (path_dirname dir))"
      "\<forall>k < n. \<not> last_directory root (above k (path_dirname dir))"
      using less [OF up] by blast
    then show ?thesis using up False
      by (intro exI [of _ "Suc n"]) (auto simp: All_less_Suc2)
  qed
qed

lemma search_first:
  assumes "last_directory (rd_workspaceRoot reader) (above n dir)"
    and "\<forall>k < n. \<not> last_directory (rd_workspaceRoot reader) (above k dir)"
  shows "workspace_search reader dir = first_layer reader (map (\<lambda>k. above k dir) [0..<Suc n])"
  using assms
proof (induction n arbitrary: dir)
  case 0
  then show ?case
    by (subst workspace_search.simps) (auto simp: last_directory_def Let_def
        intro!: arg_cong [where f = "chain _"] split: option.split)
next
  case (Suc n)
  have "map (\<lambda>k. above k dir) [0..<Suc (Suc n)] = dir # map (\<lambda>k. above k (path_dirname dir)) [0..<Suc n]"
    by (simp add: upt_conv_Cons map_Suc_upt [symmetric] del: upt_Suc)
  moreover have "\<not> last_directory (rd_workspaceRoot reader) dir"
    and "\<forall>k < n. \<not> last_directory (rd_workspaceRoot reader) (above k (path_dirname dir))"
    using Suc.prems(2) by (simp_all add: All_less_Suc2)
  ultimately show ?case
    using Suc.IH [of "path_dirname dir"] Suc.prems(1)
    by (subst workspace_search.simps) (simp add: last_directory_def Let_def del: upt_Suc)
qed

lemma climb_distinct:
  assumes "\<forall>k < n. \<not> last_directory root (above k dir)"
  shows "distinct (map (\<lambda>k. above k dir) [0..<Suc n])"
proof -
  have step: "path_depth (above (Suc k) dir) < path_depth (above k dir)" if "k < n" for k
  proof -
    have "above (Suc k) dir = path_dirname (above k dir)" by (simp add: above_def)
    then show ?thesis using assms that by (metis last_directory_def path_dirname_depth)
  qed
  have "path_depth (above j dir) < path_depth (above i dir)" if "i < j" "j \<le> n" for i j
    using that
  proof (induction j)
    case (Suc j)
    then show ?case using step [of j] by (cases "i = j") auto
  qed simp
  then have "inj_on (\<lambda>k. above k dir) {0..<Suc n}"
    by (intro linorder_inj_onI) (auto simp del: above_simps, metis less_irrefl less_Suc_eq_le)
  then show ?thesis by (simp add: distinct_map del: upt_Suc)
qed

text \<open>
  C28: The search for a workspace policy ends. It loads one directory after the other, each the
  parent of the one before, starting above the project and ending at the workspace root or at the
  top; no directory is visited twice, their number is bounded by the length of the path, and the
  result is the first policy found, or the first error.
\<close>

theorem workspace_search_terminates:
  "\<exists>n \<le> path_depth (path_dirname projectRoot).
     let dirs = map (\<lambda>k. above (Suc k) projectRoot) [0..<Suc n] in
     findWorkspacePolicyLayer reader projectRoot = first_layer reader dirs \<and> distinct dirs \<and>
     last_directory (rd_workspaceRoot reader) (last dirs) \<and>
     list_all (\<lambda>dir. \<not> last_directory (rd_workspaceRoot reader) dir) (butlast dirs)"
proof -
  obtain n where n: "n \<le> path_depth (path_dirname projectRoot)"
    "last_directory (rd_workspaceRoot reader) (above n (path_dirname projectRoot))"
    "\<forall>k < n. \<not> last_directory (rd_workspaceRoot reader) (above k (path_dirname projectRoot))"
    using climb_ends by blast
  then show ?thesis
    using search_first [OF n(2,3)] climb_distinct [OF n(3)]
    by (intro exI [of _ n]) (auto simp: Let_def findWorkspacePolicyLayer_def list_all_iff)
qed

section \<open>Where a layer comes from\<close>

definition parses_to :: "config_reader \<Rightarrow> config_candidate \<Rightarrow> string \<Rightarrow> json \<Rightarrow> bool" where
  "parses_to reader source content v \<longleftrightarrow> (case cand_format source of
     FormatJson \<Rightarrow> parseJsonText reader content (cand_path source) = Inr v
   | FormatYaml \<Rightarrow> parseYamlText reader content (cand_path source) = Inr v)"

text \<open>A document read from a candidate: its text parses to an object its contract accepts.\<close>

definition document_from :: "config_reader \<Rightarrow> 'a contract \<Rightarrow> config_candidate \<Rightarrow> 'a \<Rightarrow> bool" where
  "document_from reader contract source d \<longleftrightarrow> (\<exists>content v.
     fs_readFile (rd_fs reader) (cand_path source) = Inr (Some content) \<and> parses_to reader source content v \<and>
     json_object v \<and> contract v = Inr d)"

lemma parseDocument_Inr:
  "parseDocument reader (cand_path source) (cand_format source) = Inr v \<longleftrightarrow> (\<exists>content.
     fs_readFile (rd_fs reader) (cand_path source) = Inr (Some content) \<and> parses_to reader source content v \<and>
     json_object v)"
  by (auto simp: parseDocument_def chain_eq_Inr parses_to_def json_object_def
      split: option.splits config_format.splits json.splits)

lemma read_contract_Inr:
  "read_contract reader contract message source = Inr d \<longleftrightarrow> document_from reader contract source d"
  unfolding document_from_def read_contract_def chain_eq_Inr parseDocument_Inr case_sum_Inr by blast

definition layer_from :: "config_reader \<Rightarrow> string \<Rightarrow> policy_scope \<Rightarrow> policy_layer \<Rightarrow> bool" where
  "layer_from reader dir scope layer \<longleftrightarrow> pl_scope layer = scope \<and>
     (\<exists>source \<in> set (sorenPolicyPaths dir). pl_path layer = cand_path source \<and>
        pl_format layer = cand_format source \<and>
        document_from reader (rd_policyContract reader) source (pl_document layer))"

definition has_policy :: "(string \<Rightarrow> string option) \<Rightarrow> string \<Rightarrow> bool" where
  "has_policy files dir \<longleftrightarrow> list_ex (\<lambda>c. files (cand_path c) \<noteq> None) (sorenPolicyPaths dir)"

context lookup_files
begin

lemma loadPolicyLayer_found:
  assumes "loadPolicyLayer reader dir scope = Inr (Some layer)" and "rd_fs reader = fs"
  shows "layer_from reader dir scope layer"
proof -
  obtain source where source: "findSingleSource fs (sorenPolicyPaths dir) = Inr (Some source)"
    "document_from reader (rd_policyContract reader) source (pl_document layer)"
    "pl_scope layer = scope" "pl_path layer = cand_path source" "pl_format layer = cand_format source"
    using assms by (auto simp: loadPolicyLayer_def chain_eq_Inr read_contract_Inr split: option.splits)
  then show ?thesis using findSingleSource_readable [OF source(1)] by (auto simp: layer_from_def)
qed

lemma loadPolicyLayer_none:
  assumes "loadPolicyLayer reader dir scope = Inr None" and "rd_fs reader = fs"
  shows "\<not> has_policy files dir"
  using assms
  by (auto simp: loadPolicyLayer_def chain_eq_Inr sorenPolicyPaths_def findSingleSource_pair has_policy_def
      split: option.splits if_splits)

lemma first_layer_found:
  assumes "first_layer reader dirs = Inr found" and "rd_fs reader = fs"
  shows "case found of None \<Rightarrow> list_all (\<lambda>dir. \<not> has_policy files dir) dirs
    | Some layer \<Rightarrow> \<exists>k < length dirs. layer_from reader (dirs ! k) WorkspaceScope layer \<and>
        list_all (\<lambda>dir. \<not> has_policy files dir) (take k dirs)"
  using assms
proof (induction dirs arbitrary: found)
  case (Cons dir dirs)
  show ?case
  proof (cases "loadPolicyLayer reader dir WorkspaceScope")
    case (Inr layer)
    show ?thesis
    proof (cases layer)
      case None
      then have "first_layer reader dirs = Inr found" using Cons.prems Inr by simp
      note IH = Cons.IH [OF this Cons.prems(2)]
      have here: "\<not> has_policy files dir"
        using Inr None loadPolicyLayer_none Cons.prems(2) by blast
      show ?thesis
      proof (cases found)
        case None
        then show ?thesis using IH here by simp
      next
        case (Some l)
        then obtain k where "k < length dirs" "layer_from reader (dirs ! k) WorkspaceScope l"
          "list_all (\<lambda>dir. \<not> has_policy files dir) (take k dirs)" using IH by auto
        then show ?thesis using here Some by (intro option.case_eq_if [THEN iffD2]) (auto intro!: exI [of _ "Suc k"])
      qed
    next
      case (Some l)
      then have "found = Some l" "layer_from reader dir WorkspaceScope l"
        using Cons.prems Inr loadPolicyLayer_found by auto
      then show ?thesis by (auto intro!: exI [of _ 0])
    qed
  qed (use Cons.prems in simp)
qed simp

end

text \<open>
  The layers of a project are at most two, first the workspace's, then the project's. The
  project layer is there exactly when the project has a policy file and is read from it; the
  workspace layer is read from the nearest directory strictly above the project that has one, up to
  the workspace root. A layer has the scope of its place, its text parses to an object, and the
  contract accepts it.
\<close>

theorem policy_layers_found:
  assumes "lookup_files (rd_fs reader) files" and "loadPolicyLayers reader projectRoot = Inr layers"
  shows "\<exists>workspace project n. layers = workspace @ project \<and>
    (case project of [] \<Rightarrow> \<not> has_policy files projectRoot
     | [layer] \<Rightarrow> layer_from reader projectRoot ProjectScope layer | _ \<Rightarrow> False) \<and>
    last_directory (rd_workspaceRoot reader) (above (Suc n) projectRoot) \<and>
    (case workspace of [] \<Rightarrow> list_all (\<lambda>k. \<not> has_policy files (above (Suc k) projectRoot)) [0..<Suc n]
     | [layer] \<Rightarrow> \<exists>k \<le> n. layer_from reader (above (Suc k) projectRoot) WorkspaceScope layer \<and>
         list_all (\<lambda>j. \<not> has_policy files (above (Suc j) projectRoot)) [0..<k]
     | _ \<Rightarrow> False)"
proof -
  obtain ws pj where found: "findWorkspacePolicyLayer reader projectRoot = Inr ws"
    "loadPolicyLayer reader projectRoot ProjectScope = Inr pj"
    "layers = (case ws of None \<Rightarrow> [] | Some l \<Rightarrow> [l]) @ (case pj of None \<Rightarrow> [] | Some l \<Rightarrow> [l])"
    using assms(2) by (auto simp: loadPolicyLayers_def chain_eq_Inr)
  obtain n where n: "last_directory (rd_workspaceRoot reader) (above n (path_dirname projectRoot))"
    "\<forall>k < n. \<not> last_directory (rd_workspaceRoot reader) (above k (path_dirname projectRoot))"
    using climb_ends by blast
  have search: "first_layer reader (map (\<lambda>k. above (Suc k) projectRoot) [0..<Suc n]) = Inr ws"
    using found(1) search_first [OF n] by (simp add: findWorkspacePolicyLayer_def)
  note first = lookup_files.first_layer_found [OF assms(1) search refl]
  have project: "case (case pj of None \<Rightarrow> [] | Some l \<Rightarrow> [l]) of [] \<Rightarrow> \<not> has_policy files projectRoot
     | [layer] \<Rightarrow> layer_from reader projectRoot ProjectScope layer | _ \<Rightarrow> False"
    using lookup_files.loadPolicyLayer_none [OF assms(1) _ refl, of projectRoot ProjectScope]
      lookup_files.loadPolicyLayer_found [OF assms(1) _ refl, of projectRoot ProjectScope] found(2)
    by (cases pj) auto
  have workspace: "case (case ws of None \<Rightarrow> [] | Some l \<Rightarrow> [l]) of
      [] \<Rightarrow> list_all (\<lambda>k. \<not> has_policy files (above (Suc k) projectRoot)) [0..<Suc n]
     | [layer] \<Rightarrow> \<exists>k \<le> n. layer_from reader (above (Suc k) projectRoot) WorkspaceScope layer \<and>
         list_all (\<lambda>j. \<not> has_policy files (above (Suc j) projectRoot)) [0..<k]
     | _ \<Rightarrow> False"
  proof (cases ws)
    case None
    then show ?thesis using first by (simp add: list_all_iff del: above_simps upt_Suc)
  next
    case (Some l)
    then obtain k where "k < Suc n" "layer_from reader (map (\<lambda>k. above (Suc k) projectRoot) [0..<Suc n] ! k) WorkspaceScope l"
      "list_all (\<lambda>dir. \<not> has_policy files dir) (take k (map (\<lambda>k. above (Suc k) projectRoot) [0..<Suc n]))"
      using first by (auto simp del: above_simps upt_Suc)
    moreover have "take k [0..<Suc n] = [0..<k]" using \<open>k < Suc n\<close> by (simp add: take_upt del: upt_Suc)
    ultimately show ?thesis using Some
      by (auto simp: take_map list_all_iff less_Suc_eq_le simp del: above_simps upt_Suc intro!: exI [of _ k])
  qed
  have "last_directory (rd_workspaceRoot reader) (above (Suc n) projectRoot)" using n(1) by simp
  then show ?thesis using found(3) project workspace by blast
qed

section \<open>Parsed documents\<close>

text \<open>What a parser delivered for a text, and whether it fits the recursion of the check.\<close>

definition delivered :: "config_reader \<Rightarrow> config_format \<Rightarrow> string \<Rightarrow> string \<Rightarrow> js_heap \<Rightarrow> js_value \<Rightarrow> bool" where
  "delivered reader format path content heap value \<longleftrightarrow> (case format of
     FormatJson \<Rightarrow> heap = nothing_shared \<and> (\<exists>v. parse_JSON reader content = Inr v \<and> value = js_of_json v)
   | FormatYaml \<Rightarrow> parse_YAML reader content path = Inr (heap, value))"

definition parse_text :: "config_reader \<Rightarrow> config_format \<Rightarrow> string \<Rightarrow> string \<Rightarrow> json result" where
  "parse_text reader format content path = (case format of
     FormatJson \<Rightarrow> parseJsonText reader content path | FormatYaml \<Rightarrow> parseYamlText reader content path)"

lemma parseDocument_text: "parseDocument reader path format =
    chain (fs_readFile (rd_fs reader) path) (\<lambda>content. case content of
        None \<Rightarrow> Inl (ConfigLoadError ''CONFIG_NOT_FOUND'' (''file not found: '' @ path))
      | Some content \<Rightarrow> chain (parse_text reader format content path) asPlainObject)"
  by (simp add: parseDocument_def parse_text_def cong: option.case_cong)

lemma parse_text_Inr:
  assumes "parse_text reader format content path = Inr v"
  shows "plain_json v \<and> (\<exists>heap value. delivered reader format path content heap value \<and>
    plain_tree (call_stack reader) heap value = Some v)"
  using assms by (cases format)
    (auto simp: parse_text_def delivered_def parseJsonText_Inr parseYamlText_Inr plain_tree_json)

lemma asPlainObject_class: "asPlainObject v = Inl e \<Longrightarrow> exn_class e = ''ConfigParseError''"
  by (cases v) (auto simp: asPlainObject_def ConfigParseError_def)

lemma parse_text_Inl:
  assumes "parse_text reader format content path = Inl e"
  shows "exn_class e = ''ConfigParseError'' \<or> e = stack_overflow \<and>
    (\<exists>heap value. delivered reader format path content heap value \<and> \<not> nested_within (call_stack reader) heap value)"
proof -
  have "exn_class e = ''ConfigParseError'' \<or> (\<exists>heap value. delivered reader format path content heap value \<and>
      rejectUnsafeKeys (call_stack reader) heap value ''$'' = Inl e)"
    using assms
    by (cases format) (auto simp: parse_text_def delivered_def parseJsonText_def parseYamlText_def yaml_error_def
        ConfigParseError_def chain_eq_Inl guard_def split: sum.splits if_splits)
  then show ?thesis using rejectUnsafeKeys_Inl by blast
qed

text \<open>
  C29: A document read from JSON or YAML is plain data, whatever the parsers deliver: a finite tree of
  objects, arrays, strings, booleans, nulls and finite numbers, with no key that reaches the prototype
  of an object at any depth. It is the tree the delivered value stands for, so a value with an
  instance, a function or \<open>undefined\<close> in it, or one that contains itself, is not returned, and a
  YAML text with an anchor or alias token is not read. Otherwise reading ends in an error: of the file system, a
  \<open>ConfigLoadError\<close> for a missing file, a \<open>ConfigParseError\<close>, or, only where the delivered value
  is nested more deeply than the stack allows, as a value that contains itself is, the \<open>RangeError\<close>
  of an exhausted stack.
\<close>

theorem parsed_document_plain:
  "case parseDocument reader path format of
     Inl e \<Rightarrow> fs_readFile (rd_fs reader) path = Inl e \<or>
       (fs_readFile (rd_fs reader) path = Inr None \<and> exn_class e = ''ConfigLoadError'') \<or>
       (\<exists>content. fs_readFile (rd_fs reader) path = Inr (Some content) \<and>
         (exn_class e = ''ConfigParseError'' \<or> e = stack_overflow \<and>
           (\<exists>heap value. delivered reader format path content heap value \<and>
             \<not> nested_within (call_stack reader) heap value)))
   | Inr v \<Rightarrow> json_object v \<and> plain_json v \<and> finite_json v \<and>
       (\<exists>content heap value. fs_readFile (rd_fs reader) path = Inr (Some content) \<and>
         delivered reader format path content heap value \<and>
         plain_tree (call_stack reader) heap value = Some v \<and>
         (case format of FormatJson \<Rightarrow> True
          | FormatYaml \<Rightarrow>
              \<not> (\<exists>xs c d ys. content = xs @ c # d # ys \<and> c \<in> {CHR ''&'', CHR ''*''} \<and> name_start d)))"
proof (cases "parseDocument reader path format")
  case (Inr v)
  then obtain content where read: "fs_readFile (rd_fs reader) path = Inr (Some content)" "json_object v"
    "parse_text reader format content path = Inr v"
    by (auto simp: parseDocument_text chain_eq_Inr json_object_def split: option.splits)
  then have "case format of FormatJson \<Rightarrow> True | FormatYaml \<Rightarrow> \<not> yaml_alias_token content"
    by (cases format) (auto simp: parse_text_def parseYamlText_Inr)
  then show ?thesis
    using read parse_text_Inr [OF read(3)] plain_json_finite [of v]
    unfolding Inr yaml_alias_token_iff [symmetric] by auto
next
  case (Inl e)
  show ?thesis
  proof (cases "fs_readFile (rd_fs reader) path")
    case (Inr found)
    show ?thesis
    proof (cases found)
      case None
      then show ?thesis using Inl Inr by (auto simp: parseDocument_text ConfigLoadError_def)
    next
      case (Some content)
      have "parse_text reader format content path = Inl e \<or> (\<exists>w. asPlainObject w = Inl e)"
        using Inl Inr Some by (auto simp: parseDocument_text chain_eq_Inl)
      then have "exn_class e = ''ConfigParseError'' \<or> parse_text reader format content path = Inl e"
        using asPlainObject_class by blast
      then show ?thesis using Inl Inr Some parse_text_Inl [of reader format content path e] by auto
    qed
  qed (use Inl in \<open>simp add: parseDocument_text\<close>)
qed

section \<open>Resolved policies\<close>

lemma loadPolicyLayer_scope: "loadPolicyLayer reader dir scope = Inr (Some layer) \<Longrightarrow> pl_scope layer = scope"
  by (auto simp: loadPolicyLayer_def chain_eq_Inr split: option.splits)

lemma first_layer_scope: "first_layer reader dirs = Inr (Some layer) \<Longrightarrow> pl_scope layer = WorkspaceScope"
  by (induction dirs) (auto simp: chain_eq_Inr dest: loadPolicyLayer_scope split: option.splits)

lemma loadPolicyLayers_scope:
  assumes "loadPolicyLayers reader projectRoot = Inr layers"
  shows "pl_scope ` set layers \<subseteq> {WorkspaceScope, ProjectScope}"
proof -
  obtain ws pj where found: "findWorkspacePolicyLayer reader projectRoot = Inr ws"
    "loadPolicyLayer reader projectRoot ProjectScope = Inr pj"
    "layers = (case ws of None \<Rightarrow> [] | Some l \<Rightarrow> [l]) @ (case pj of None \<Rightarrow> [] | Some l \<Rightarrow> [l])"
    using assms by (auto simp: loadPolicyLayers_def chain_eq_Inr)
  obtain n where n: "last_directory (rd_workspaceRoot reader) (above n (path_dirname projectRoot))"
    "\<forall>k < n. \<not> last_directory (rd_workspaceRoot reader) (above k (path_dirname projectRoot))"
    using climb_ends by blast
  have "\<exists>dirs. first_layer reader dirs = Inr ws"
    using found(1) search_first [OF n] by (auto simp: findWorkspacePolicyLayer_def)
  then show ?thesis
    using found(2,3) loadPolicyLayer_scope first_layer_scope by (cases ws; cases pj) fastforce+
qed

text \<open>
  C27: A policy resolved for a project keeps every restriction of its policy files: whatever the
  organization and the run add, the resolved rules constrain at least as much as each layer read from
  the workspace or the project, whatever scope its document claims, and the result names the files
  read, the workspace's first.
\<close>

theorem resolved_policy_keeps_files:
  assumes "resolve_policy sha reader request = Inr resolved"
  shows "\<exists>layers. loadPolicyLayers reader (rq_projectRoot request) = Inr layers \<and>
     list_all (\<lambda>layer. tightens (resolved_effective resolved) (policy_rules (pl_document layer))) layers \<and>
     pred_option (\<lambda>d. tightens (resolved_effective resolved) (policy_rules d)) (rq_organizationPolicy request) \<and>
     pred_option (\<lambda>d. tightens (resolved_effective resolved) (policy_rules d)) (rq_runPolicy request) \<and>
     filter (\<lambda>source. source \<noteq> None) (map ls_source (resolved_layers resolved)) = map (Some \<circ> pl_path) layers"
proof -
  obtain layers where layers: "loadPolicyLayers reader (rq_projectRoot request) = Inr layers"
    and resolved: "resolve sha (resolver_input request layers) = Inr resolved"
    using assms by (auto simp: resolve_policy_def chain_eq_Inr)
  let ?all = "policy_layers (resolver_input request layers)"
  obtain q where q: "posture_of open_posture (layer_rules ?all) = Some q" "resolved_effective resolved = rules_of q"
    using resolved by (rule resolve_posture)
  have kept: "tightens (resolved_effective resolved) (policy_rules (layer_document l))"
    if "l \<in> set ?all" "layer_scope l \<noteq> BuiltinScope" for l
    unfolding q(2) by (rule tightens_rules_of [OF q(1)]) (use that in \<open>auto simp: layer_rules_def\<close>)
  have discovered: "discovered_layer l \<in> set ?all" if "l \<in> set layers" for l
    using that by (simp add: policy_layers_def resolver_input_def)
  have scopes: "layer_scope (discovered_layer l) \<noteq> BuiltinScope" if "l \<in> set layers" for l
    using loadPolicyLayers_scope [OF layers] that by (auto simp: discovered_layer_def)
  have files: "list_all (\<lambda>layer. tightens (resolved_effective resolved) (policy_rules (pl_document layer))) layers"
    using kept [OF discovered scopes] by (simp add: list_all_iff discovered_layer_def)
  have organization: "pred_option (\<lambda>d. tightens (resolved_effective resolved) (policy_rules d)) (rq_organizationPolicy request)"
    using kept [of "\<lparr>layer_scope = OrganizationScope, layer_document = the (rq_organizationPolicy request),
        layer_source = None\<rparr>"]
    by (cases "rq_organizationPolicy request") (simp_all add: policy_layers_def resolver_input_def)
  have run: "pred_option (\<lambda>d. tightens (resolved_effective resolved) (policy_rules d)) (rq_runPolicy request)"
    using kept [of "\<lparr>layer_scope = RunScope, layer_document = the (rq_runPolicy request), layer_source = None\<rparr>"]
    by (cases "rq_runPolicy request") (simp_all add: policy_layers_def resolver_input_def)
  have "map ls_source (resolved_layers resolved) = map layer_source ?all"
    using resolved by (auto simp: resolve_def Let_def chain_eq_Inr)
  then have "filter (\<lambda>source. source \<noteq> None) (map ls_source (resolved_layers resolved)) = map (Some \<circ> pl_path) layers"
    by (cases "rq_organizationPolicy request"; cases "rq_runPolicy request")
      (simp_all add: policy_layers_def resolver_input_def filter_map comp_def discovered_layer_def)
  then show ?thesis using layers files organization run by blast
qed

section \<open>The project configuration\<close>

text \<open>Two configurations with the same content, whatever the order and repetitions in their lists.\<close>

definition same_config :: "soren_config \<Rightarrow> soren_config \<Rightarrow> bool" where
  "same_config c d \<longleftrightarrow> cfg_configId c = cfg_configId d \<and>
     rel_option (\<lambda>p q. rel_option (\<lambda>xs ys. set xs = set ys) (cfp_preferredProviders p) (cfp_preferredProviders q) \<and>
       rel_option (\<lambda>xs ys. set xs = set ys) (cfp_forbiddenProviders p) (cfp_forbiddenProviders q) \<and>
       cfp_maxProviders p = cfp_maxProviders q) (cfg_preferences c) (cfg_preferences d)"

lemma map_option_eq_iff:
  "map_option f x = map_option g y \<longleftrightarrow> rel_option (\<lambda>a b. f a = g b) x y"
  by (cases x; cases y) auto

lemma normalizeSorenConfig_eq: "normalizeSorenConfig c = normalizeSorenConfig d \<longleftrightarrow> same_config c d"
  by (simp add: normalizeSorenConfig_def same_config_def map_option_eq_iff stableUnique_eq_iff)

lemma config_json_finite: "finite_json (config_json c)"
  by (auto simp: config_json_def preferences_json_def opt_entry_def strs_json_def split: option.splits)

lemma strs_option_inject: "map_option strs_json a = map_option strs_json b \<longleftrightarrow> a = b"
  by (cases a; cases b) simp_all

lemma int_option_inject: "map_option JInt a = map_option JInt b \<longleftrightarrow> a = b"
  by (cases a; cases b) simp_all

lemma preferences_json_inject:
  assumes "normalize_json (preferences_json p) = normalize_json (preferences_json q)"
  shows "p = q"
proof -
  let ?entries = "\<lambda>p. opt_entry ''preferredProviders'' (map_option strs_json (cfp_preferredProviders p)) @
      opt_entry ''forbiddenProviders'' (map_option strs_json (cfp_forbiddenProviders p)) @
      opt_entry ''maxProviders'' (map_option JInt (cfp_maxProviders p))"
  have distinct: "distinct (map fst (?entries r))" for r by (simp add: opt_entry_def split: option.split)
  have "map_option normalize_json (map_of (?entries p) k) = map_option normalize_json (map_of (?entries q) k)" for k
    using assms unfolding preferences_json_def normalize_obj_eq_iff [OF distinct distinct] by blast
  moreover have at: "map_of (?entries r) ''preferredProviders'' = map_option strs_json (cfp_preferredProviders r)"
    "map_of (?entries r) ''forbiddenProviders'' = map_option strs_json (cfp_forbiddenProviders r)"
    "map_of (?entries r) ''maxProviders'' = map_option JInt (cfp_maxProviders r)" for r
    by (simp_all add: opt_entry_def map_add_def split: option.split)
  ultimately have same: "map_option normalize_json (map_option strs_json (cfp_preferredProviders p)) =
      map_option normalize_json (map_option strs_json (cfp_preferredProviders q))"
    "map_option normalize_json (map_option strs_json (cfp_forbiddenProviders p)) =
      map_option normalize_json (map_option strs_json (cfp_forbiddenProviders q))"
    "map_option normalize_json (map_option JInt (cfp_maxProviders p)) =
      map_option normalize_json (map_option JInt (cfp_maxProviders q))"
    by (metis at)+
  have "map_option normalize_json (map_option strs_json xs) = map_option strs_json xs"
    "map_option normalize_json (map_option JInt n) = map_option JInt n" for xs n
    by (cases xs, simp_all) (cases n, simp_all)
  then show ?thesis using same
    by (simp add: strs_option_inject int_option_inject)
qed

lemma config_json_inject:
  assumes "normalize_json (config_json c) = normalize_json (config_json d)"
  shows "c = d"
proof -
  let ?entries = "\<lambda>c. [(''schemaVersion'', JStr ''1.0.0-draft.1''), (''contractKind'', JStr ''soren-config''),
     (''configId'', JStr (cfg_configId c))] @ opt_entry ''preferences'' (map_option preferences_json (cfg_preferences c))"
  have distinct: "distinct (map fst (?entries r))" for r by (simp add: opt_entry_def split: option.split)
  have same: "map_option normalize_json (map_of (?entries c) k) = map_option normalize_json (map_of (?entries d) k)" for k
    using assms unfolding config_json_def normalize_obj_eq_iff [OF distinct distinct] by blast
  have "map_option normalize_json (map_option preferences_json (cfg_preferences c)) =
      map_option normalize_json (map_option preferences_json (cfg_preferences d))"
  proof -
    have "map_of (?entries r) ''preferences'' = map_option preferences_json (cfg_preferences r)" for r
      by (simp add: opt_entry_def map_add_def split: option.split)
    then show ?thesis using same by metis
  qed
  then have "cfg_preferences c = cfg_preferences d"
    using preferences_json_inject by (cases "cfg_preferences c"; cases "cfg_preferences d") simp_all
  moreover have "cfg_configId c = cfg_configId d"
    using same [of "''configId''"] by (simp add: opt_entry_def)
  ultimately show ?thesis by simp
qed

lemma loadProjectConfig_Inr:
  assumes "loadProjectConfig sha reader projectRoot = Inr loaded"
  obtains source c where "document_from reader (rd_configContract reader) source c"
    and "loaded_config loaded = normalizeSorenConfig c" and "loaded_path loaded = cand_path source"
    and "loaded_digest loaded = json_digest sha (config_json (loaded_config loaded))"
  using assms
  by (auto simp: loadProjectConfig_def chain_eq_Inr read_contract_Inr Let_def digestJson_finite config_json_finite
      split: option.splits)

text \<open>
  The digest of a loaded configuration identifies what its file says. Each is read from its file,
  parsed and accepted by the contract; where SHA-256 does not collide on the two canonical texts, two
  digests agree exactly when the documents have the same content, whatever their format and the order
  and repetitions of their lists.
\<close>

theorem config_digest_identifies:
  assumes "loadProjectConfig sha reader projectRoot = Inr a" and "loadProjectConfig sha other otherRoot = Inr b"
    and "collision_free sha (config_json (loaded_config a)) (config_json (loaded_config b))"
  shows "\<exists>source c source' d. document_from reader (rd_configContract reader) source c \<and>
     document_from other (rd_configContract other) source' d \<and>
     loaded_path a = cand_path source \<and> loaded_path b = cand_path source' \<and>
     (loaded_digest a = loaded_digest b \<longleftrightarrow> same_config c d)"
proof -
  obtain source c where a: "document_from reader (rd_configContract reader) source c"
    "loaded_config a = normalizeSorenConfig c" "loaded_path a = cand_path source"
    "loaded_digest a = json_digest sha (config_json (loaded_config a))"
    using assms(1) by (rule loadProjectConfig_Inr)
  obtain source' d where b: "document_from other (rd_configContract other) source' d"
    "loaded_config b = normalizeSorenConfig d" "loaded_path b = cand_path source'"
    "loaded_digest b = json_digest sha (config_json (loaded_config b))"
    using assms(2) by (rule loadProjectConfig_Inr)
  have "loaded_digest a = loaded_digest b \<longleftrightarrow> loaded_config a = loaded_config b"
    using json_digest_eq_iff [OF config_json_finite config_json_finite assms(3)] config_json_inject
    by (auto simp: a(4) b(4))
  then show ?thesis using a(1,3) b(1,3) by (auto simp: a(2) b(2) normalizeSorenConfig_eq)
qed

section \<open>A small project\<close>

text \<open>
  A reader of an in-memory file system whose parsers give every text the same object and whose
  contracts give it the same documents.
\<close>

definition small_reader :: "string option \<Rightarrow> (string \<times> string) list \<Rightarrow> config_reader" where
  "small_reader root content = \<lparr>
     parse_JSON = \<lambda>c. Inr (JObj [(''policyId'', JStr c)]),
     parse_YAML = \<lambda>c source. Inr (nothing_shared, js_of_json (JObj [(''policyId'', JStr c)])), call_stack = 9,
     rd_fs = memory_adapter \<lparr>mf_files = content, mf_symlinks = []\<rparr>, rd_workspaceRoot = root,
     rd_configContract = \<lambda>v. Inr \<lparr>cfg_configId = ''c'', cfg_preferences = None\<rparr>,
     rd_policyContract = \<lambda>v. Inr BUILTIN_POLICY\<rparr>"

lemma small_reader_simps [simp]:
  "rd_workspaceRoot (small_reader root content) = root"
  "rd_fs (small_reader root content) = memory_adapter \<lparr>mf_files = content, mf_symlinks = []\<rparr>"
  "rd_configContract (small_reader root content) v = Inr \<lparr>cfg_configId = ''c'', cfg_preferences = None\<rparr>"
  "rd_policyContract (small_reader root content) v = Inr BUILTIN_POLICY"
  "parse_JSON (small_reader root content) c = Inr (JObj [(''policyId'', JStr c)])"
  "parse_YAML (small_reader root content) c source = Inr (nothing_shared, js_of_json (JObj [(''policyId'', JStr c)]))"
  "call_stack (small_reader root content) = 9"
  by (simp_all add: small_reader_def)

lemma small_read:
  assumes "map_of content (cand_path source) = Some txt" and "cand_format source = FormatJson"
    and "contract (JObj [(''policyId'', JStr txt)]) = Inr d"
  shows "read_contract (small_reader root content) contract message source = Inr d"
proof -
  have "parseJsonText (small_reader root content) txt path = Inr (JObj [(''policyId'', JStr txt)])" for path
    by (simp add: parseJsonText_Inr dangerous_key_def numeral_eq_Suc)
  then show ?thesis
    using assms by (simp add: read_contract_def parseDocument_def memory_lookup.reads asPlainObject_def)
qed

lemma small_paths:
  "path_join [''/a'', ''.soren-sdk'', ''policy.yaml''] = ''/a/.soren-sdk/policy.yaml''"
  "path_join [''/a'', ''.soren-sdk'', ''policy.json''] = ''/a/.soren-sdk/policy.json''"
  "path_join [''/a/b'', ''.soren-sdk'', ''policy.yaml''] = ''/a/b/.soren-sdk/policy.yaml''"
  "path_join [''/a/b'', ''.soren-sdk'', ''policy.json''] = ''/a/b/.soren-sdk/policy.json''"
  "path_join [''/a'', ''.soren-sdk'', ''config.yaml''] = ''/a/.soren-sdk/config.yaml''"
  "path_join [''/a'', ''.soren-sdk'', ''config.json''] = ''/a/.soren-sdk/config.json''"
  "path_dirname ''/a/b'' = ''/a''"
  by code_simp+


text \<open>One policy file, or one configuration file, in the directory \<open>/a\<close>.\<close>

definition policy_reader :: "string option \<Rightarrow> config_reader" where
  "policy_reader root = small_reader root [(''/a/.soren-sdk/policy.json'', ''{}'')]"

definition small_layer :: "policy_scope \<Rightarrow> policy_layer" where
  "small_layer scope = \<lparr>pl_document = BUILTIN_POLICY, pl_scope = scope, pl_format = FormatJson,
     pl_path = ''/a/.soren-sdk/policy.json''\<rparr>"

lemma policy_reader_layers:
  "loadPolicyLayer (policy_reader root) ''/a'' scope = Inr (Some (small_layer scope))"
  "loadPolicyLayer (policy_reader root) ''/a/b'' scope = Inr None"
proof -
  show "loadPolicyLayer (policy_reader root) ''/a/b'' scope = Inr None"
    by (simp add: loadPolicyLayer_def policy_reader_def sorenPolicyPaths_def small_paths
        memory_lookup.findSingleSource_pair)
  have "read_contract (policy_reader root) (rd_policyContract (policy_reader root)) ''policy''
      \<lparr>cand_kind = KindPolicy, cand_format = FormatJson, cand_path = ''/a/.soren-sdk/policy.json''\<rparr> = Inr BUILTIN_POLICY"
    unfolding policy_reader_def by (rule small_read) simp_all
  then show "loadPolicyLayer (policy_reader root) ''/a'' scope = Inr (Some (small_layer scope))"
    by (simp add: loadPolicyLayer_def policy_reader_def sorenPolicyPaths_def small_paths
        memory_lookup.findSingleSource_pair small_layer_def)
qed

lemma policy_reader_loads:
  "loadPolicyLayers (policy_reader root) ''/a/b'' = Inr [small_layer WorkspaceScope]"
  by (subst (asm) workspace_search.simps | simp add: loadPolicyLayers_def findWorkspacePolicyLayer_def small_paths
      policy_reader_layers workspace_search.simps [of _ "''/a''"])+

text \<open>The search starts above the project: a workspace root that is the project itself does not stop it.\<close>

lemma workspace_root_escaped:
  "loadPolicyLayers (policy_reader (Some ''/a/b'')) ''/a/b'' = Inr [small_layer WorkspaceScope]"
  by (rule policy_reader_loads)

lemma policy_reader_lookup: "lookup_files (rd_fs (policy_reader root)) (map_of [(''/a/.soren-sdk/policy.json'', ''{}'')])"
  unfolding policy_reader_def small_reader_simps by (rule memory_lookup.lookup_files_axioms)

lemma policy_layers_found_witness:
  "\<exists>workspace project n. [small_layer WorkspaceScope] = workspace @ project \<and>
    last_directory None (above (Suc n) ''/a/b'')"
  using policy_layers_found [OF policy_reader_lookup policy_reader_loads [of None]]
  by (auto simp: policy_reader_def simp del: above_simps)

lemma small_resolves:
  "\<exists>resolved. resolve id (resolver_input \<lparr>rq_projectRoot = ''/a/b'', rq_organizationPolicy = None,
      rq_runPolicy = None\<rparr> [small_layer WorkspaceScope]) = Inr resolved"
proof -
  let ?input = "resolver_input \<lparr>rq_projectRoot = ''/a/b'', rq_organizationPolicy = None,
      rq_runPolicy = None\<rparr> [small_layer WorkspaceScope]"
  have "posture_of open_posture (layer_rules (policy_layers ?input)) \<noteq> None"
    by (simp add: resolver_input_def discovered_layer_def small_layer_def policy_layers_def layer_rules_def
        BUILTIN_POLICY_def open_posture_def admissible_def conforms_def within_def narrow_def
        tighten_def bundle_within_def layer_bundle_def)
  then show ?thesis
    using resolve_abstraction [of id ?input] by (cases "resolve id ?input") auto
qed

lemma resolved_policy_keeps_files_witness:
  "\<exists>resolved. resolve_policy id (policy_reader None) \<lparr>rq_projectRoot = ''/a/b'', rq_organizationPolicy = None,
      rq_runPolicy = None\<rparr> = Inr resolved \<and> tightens (resolved_effective resolved) (policy_rules BUILTIN_POLICY)"
proof -
  obtain resolved where resolved: "resolve_policy id (policy_reader None) \<lparr>rq_projectRoot = ''/a/b'',
      rq_organizationPolicy = None, rq_runPolicy = None\<rparr> = Inr resolved"
    using small_resolves by (auto simp: resolve_policy_def policy_reader_loads)
  show ?thesis
    using resolved_policy_keeps_files [OF resolved] resolved
    by (simp add: policy_reader_loads) (simp add: small_layer_def)
qed

definition config_file_reader :: config_reader where
  "config_file_reader = small_reader None [(''/a/.soren-sdk/config.json'', ''{}'')]"

lemma config_reader_loads:
  "\<exists>loaded. loadProjectConfig id config_file_reader ''/a'' = Inr loaded"
proof -
  have "read_contract config_file_reader (rd_configContract config_file_reader) ''soren-config''
      \<lparr>cand_kind = KindConfig, cand_format = FormatJson, cand_path = ''/a/.soren-sdk/config.json''\<rparr> =
      Inr \<lparr>cfg_configId = ''c'', cfg_preferences = None\<rparr>"
    unfolding config_file_reader_def by (rule small_read) simp_all
  then show ?thesis
    by (simp add: loadProjectConfig_def config_file_reader_def sorenConfigPaths_def small_paths
        memory_lookup.findSingleSource_pair digestJson_finite config_json_finite Let_def)
qed

lemma config_digest_identifies_witness:
  "\<exists>loaded source c. loadProjectConfig id config_file_reader ''/a'' = Inr loaded \<and>
     document_from config_file_reader (rd_configContract config_file_reader) source c \<and> loaded_path loaded = cand_path source"
proof -
  obtain loaded where loaded: "loadProjectConfig id config_file_reader ''/a'' = Inr loaded"
    using config_reader_loads by blast
  have "collision_free id (config_json (loaded_config loaded)) (config_json (loaded_config loaded))"
    by (simp add: collision_free_def)
  from config_digest_identifies [OF loaded loaded this] loaded show ?thesis by blast
qed

end
