(* ===== verification/Plan_Types.thy ===== *)
theory Plan_Types
  imports Contracts_Types
begin

text \<open>
  \<open>ExecutionPlan\<close> of \<open>packages/contracts/src/types/contracts.ts\<close>, the contract the planner creates
  and the apply service consumes.
\<close>

datatype change_operation = ChangeCreate | ChangeDelete | ChangeUpdate

record file_change =
  fc_operation :: change_operation
  fc_path :: string
  fc_contentDigest :: "string option"

datatype dependency_operation = DependencyAdd | DependencyRemove | DependencyUpdate

datatype dependency_kind = KindDependency | KindDev | KindOptional | KindPeer

record dependency_change =
  dc_operation :: dependency_operation
  dc_workspace :: string
  dc_package :: string
  dc_version :: "string option"
  dc_kind :: dependency_kind
  dc_reason :: string

record plan_command =
  cmd_argv :: "string list"
  cmd_cwd :: string
  cmd_timeoutSeconds :: int
  cmd_networkRequired :: bool

datatype plan_mode = ModeApply | ModePlan

record plan_approval =
  pa_required :: bool
  pa_scopes :: "string list"

record execution_plan =
  ep_executionPlanId :: string
  ep_createdAt :: string
  ep_routePlanId :: string
  ep_mode :: plan_mode
  ep_immutableDigest :: string
  ep_fileChanges :: "file_change list"
  ep_dependencyChanges :: "dependency_change list"
  ep_commands :: "plan_command list"
  ep_networkDestinations :: "string list"
  ep_credentials :: "string list"
  ep_rollback :: "string list"
  ep_verification :: "string list"
  ep_approval :: plan_approval

fun change_operation_name :: "change_operation \<Rightarrow> string" where
  "change_operation_name ChangeCreate = ''create''"
| "change_operation_name ChangeDelete = ''delete''"
| "change_operation_name ChangeUpdate = ''update''"

fun dependency_operation_name :: "dependency_operation \<Rightarrow> string" where
  "dependency_operation_name DependencyAdd = ''add''"
| "dependency_operation_name DependencyRemove = ''remove''"
| "dependency_operation_name DependencyUpdate = ''update''"

fun dependency_kind_name :: "dependency_kind \<Rightarrow> string" where
  "dependency_kind_name KindDependency = ''dependency''"
| "dependency_kind_name KindDev = ''devDependency''"
| "dependency_kind_name KindOptional = ''optionalDependency''"
| "dependency_kind_name KindPeer = ''peerDependency''"

end
