(* ===== verification/Planner.thy ===== *)
theory Planner
  imports Plan_Json Plan_Types
begin

text \<open>
  \<open>packages/planner/src/index.ts\<close>: the deterministic execution planner.

  Optional fields are options; an absent list is the empty list, as the code reads it. The fields
  of an object come in the order of its interface, which only decides which of several secret-like
  texts an error names. The contract validator of a plan is the argument \<open>validator\<close>.
\<close>

section \<open>Types\<close>

datatype plan_status = PlanReady | PlanNeedsInput | PlanBlocked

fun plan_status_name :: "plan_status \<Rightarrow> string" where
  "plan_status_name PlanReady = ''ready''"
| "plan_status_name PlanNeedsInput = ''needs-input''"
| "plan_status_name PlanBlocked = ''blocked''"

text \<open>An id with the digest of what it names: a route plan, a context reference, a lockfile.\<close>

record digest_reference =
  ref_id :: string
  ref_digest :: string

record planning_inputs =
  pl_projectSnapshot :: string
  pl_catalogSnapshot :: string
  pl_policySnapshot :: string
  pl_routePlan :: digest_reference
  pl_contextReferences :: "digest_reference list"
  pl_objective :: string
  pl_constraints :: "string list"
  pl_lockfile :: "digest_reference option"
  pl_runnerCapabilities :: "json option"

record plan_provider =
  pp_id :: string
  pp_integrations :: "string list"

record create_plan_input = planning_inputs +
  ci_createdAt :: "string option"
  ci_providers :: "plan_provider list"
  ci_dependencies :: "dependency_change list"
  ci_fileOperations :: "file_change list"
  ci_commands :: "plan_command list"
  ci_networkDestinations :: "string list"
  ci_permissions :: "string list"
  ci_verification :: "string list"
  ci_expectedArtifacts :: "string list"
  ci_rollback :: "string list"
  ci_affectedScopes :: "string list"
  ci_risks :: "string list"
  ci_unresolvedInputs :: "string list"
  ci_deniedSteps :: "string list"

text \<open>\<open>SemanticExecutionPlan\<close>: a plan without its id, digest and time.\<close>

record semantic_plan = planning_inputs +
  sp_routePlanId :: string
  sp_mode :: plan_mode
  sp_fileChanges :: "file_change list"
  sp_dependencyChanges :: "dependency_change list"
  sp_commands :: "plan_command list"
  sp_networkDestinations :: "string list"
  sp_credentials :: "string list"
  sp_rollback :: "string list"
  sp_verification :: "string list"
  sp_approval :: plan_approval
  sp_status :: plan_status
  sp_providers :: "plan_provider list"
  sp_expectedArtifacts :: "string list"
  sp_affectedScopes :: "string list"
  sp_risks :: "string list"
  sp_unresolvedInputs :: "string list"
  sp_deniedSteps :: "string list"

record planned = semantic_plan +
  pln_executionPlanId :: string
  pln_immutableDigest :: string
  pln_createdAt :: string

record plan_validation =
  pv_ok :: bool
  pv_issues :: "string list"

record plan_drift =
  drift_drifted :: bool
  drift_differences :: "string list"

section \<open>Normalisation\<close>

definition stable :: "(string \<Rightarrow> string \<Rightarrow> int) \<Rightarrow> 'a list \<Rightarrow> ('a \<Rightarrow> string) \<Rightarrow> 'a list" where
  "stable lc items key = js_sort (cmp_by lc key) items"

definition stableStrings :: "string list \<Rightarrow> string list" where
  "stableStrings items = stableUnique items"

definition nul :: string where
  "nul = [CHR 0x00]"

definition file_key :: "file_change \<Rightarrow> string" where
  "file_key operation = fc_path operation @ nul @ change_operation_name (fc_operation operation)"

definition dependency_key :: "dependency_change \<Rightarrow> string" where
  "dependency_key dependency = dc_workspace dependency @ nul @ dc_package dependency @ nul @
     dependency_operation_name (dc_operation dependency)"

definition command_key :: "plan_command \<Rightarrow> string" where
  "command_key command = cmd_cwd command @ nul @ js_join nul (cmd_argv command)"

definition normalizeProviders :: "(string \<Rightarrow> string \<Rightarrow> int) \<Rightarrow> plan_provider list \<Rightarrow> plan_provider list" where
  "normalizeProviders lc providers = stable lc
     (map (\<lambda>p. \<lparr>pp_id = pp_id p, pp_integrations = stableStrings (pp_integrations p)\<rparr>) providers) pp_id"

definition normalizeContextReferences :: "(string \<Rightarrow> string \<Rightarrow> int) \<Rightarrow> digest_reference list \<Rightarrow>
    digest_reference list" where
  "normalizeContextReferences lc references = stable lc references ref_id"

definition normalizeRunnerCapabilities :: "json \<Rightarrow> string \<Rightarrow> json result" where
  "normalizeRunnerCapabilities v path = chain (validateJsonValue path v)
     (\<lambda>normalized. case normalized of JObj kvs \<Rightarrow> Inr normalized | _ \<Rightarrow> Inl (invalidJson path))"

section \<open>Values as JSON\<close>

definition reference_json :: "digest_reference \<Rightarrow> json" where
  "reference_json r = JObj [(''id'', JStr (ref_id r)), (''digest'', JStr (ref_digest r))]"

definition file_json :: "file_change \<Rightarrow> json" where
  "file_json f = JObj [(''operation'', JStr (change_operation_name (fc_operation f))),
     (''path'', JStr (fc_path f)), (''contentDigest'', opt_str_json (fc_contentDigest f))]"

definition dependency_json :: "dependency_change \<Rightarrow> json" where
  "dependency_json d = JObj [(''operation'', JStr (dependency_operation_name (dc_operation d))),
     (''workspace'', JStr (dc_workspace d)), (''package'', JStr (dc_package d)),
     (''version'', opt_str_json (dc_version d)), (''kind'', JStr (dependency_kind_name (dc_kind d))),
     (''reason'', JStr (dc_reason d))]"

definition command_json :: "plan_command \<Rightarrow> json" where
  "command_json c = JObj [(''argv'', strs_json (cmd_argv c)), (''cwd'', JStr (cmd_cwd c)),
     (''timeoutSeconds'', JInt (cmd_timeoutSeconds c)),
     (''networkRequired'', JBool (cmd_networkRequired c))]"

definition provider_json :: "plan_provider \<Rightarrow> json" where
  "provider_json p = JObj [(''id'', JStr (pp_id p)), (''integrations'', strs_json (pp_integrations p))]"

definition planning_entries :: "'a planning_inputs_scheme \<Rightarrow> (string \<times> json) list" where
  "planning_entries i = [(''projectSnapshot'', JStr (pl_projectSnapshot i)),
     (''catalogSnapshot'', JStr (pl_catalogSnapshot i)), (''policySnapshot'', JStr (pl_policySnapshot i)),
     (''routePlan'', reference_json (pl_routePlan i)),
     (''contextReferences'', JArr (map reference_json (pl_contextReferences i))),
     (''objective'', JStr (pl_objective i)), (''constraints'', strs_json (pl_constraints i))] @
     opt_entry ''lockfile'' (map_option reference_json (pl_lockfile i)) @
     opt_entry ''runnerCapabilities'' (pl_runnerCapabilities i)"

definition input_json :: "create_plan_input \<Rightarrow> json" where
  "input_json i = JObj (planning_entries i @
     opt_entry ''createdAt'' (map_option JStr (ci_createdAt i)) @
     [(''providers'', JArr (map provider_json (ci_providers i))),
     (''dependencies'', JArr (map dependency_json (ci_dependencies i))),
     (''fileOperations'', JArr (map file_json (ci_fileOperations i))),
     (''commands'', JArr (map command_json (ci_commands i))),
     (''networkDestinations'', strs_json (ci_networkDestinations i)),
     (''permissions'', strs_json (ci_permissions i)), (''verification'', strs_json (ci_verification i)),
     (''expectedArtifacts'', strs_json (ci_expectedArtifacts i)), (''rollback'', strs_json (ci_rollback i)),
     (''affectedScopes'', strs_json (ci_affectedScopes i)), (''risks'', strs_json (ci_risks i)),
     (''unresolvedInputs'', strs_json (ci_unresolvedInputs i)),
     (''deniedSteps'', strs_json (ci_deniedSteps i))])"

fun plan_mode_name :: "plan_mode \<Rightarrow> string" where
  "plan_mode_name ModeApply = ''apply''"
| "plan_mode_name ModePlan = ''plan''"

definition semantic_json :: "'a semantic_plan_scheme \<Rightarrow> json" where
  "semantic_json s = JObj ([(''schemaVersion'', JStr ''1.0.0-draft.1''),
     (''contractKind'', JStr ''execution-plan''), (''routePlanId'', JStr (sp_routePlanId s)),
     (''mode'', JStr (plan_mode_name (sp_mode s))),
     (''fileChanges'', JArr (map file_json (sp_fileChanges s))),
     (''dependencyChanges'', JArr (map dependency_json (sp_dependencyChanges s))),
     (''commands'', JArr (map command_json (sp_commands s))),
     (''networkDestinations'', strs_json (sp_networkDestinations s)),
     (''credentials'', strs_json (sp_credentials s)), (''rollback'', strs_json (sp_rollback s)),
     (''verification'', strs_json (sp_verification s)),
     (''approval'', JObj [(''required'', JBool (pa_required (sp_approval s))),
        (''scopes'', strs_json (pa_scopes (sp_approval s)))]),
     (''status'', JStr (plan_status_name (sp_status s))),
     (''providers'', JArr (map provider_json (sp_providers s))),
     (''expectedArtifacts'', strs_json (sp_expectedArtifacts s)),
     (''affectedScopes'', strs_json (sp_affectedScopes s)), (''risks'', strs_json (sp_risks s)),
     (''unresolvedInputs'', strs_json (sp_unresolvedInputs s)),
     (''deniedSteps'', strs_json (sp_deniedSteps s))] @ planning_entries s)"

section \<open>The planner\<close>

definition status_of :: "string list \<Rightarrow> string list \<Rightarrow> string \<Rightarrow> plan_status" where
  "status_of deniedSteps unresolvedInputs objective =
     (if deniedSteps \<noteq> [] then PlanBlocked
      else if unresolvedInputs \<noteq> [] \<or> js_trim objective = '''' then PlanNeedsInput else PlanReady)"

definition semanticPlan :: "(string \<Rightarrow> string \<Rightarrow> int) \<Rightarrow> create_plan_input \<Rightarrow> semantic_plan result" where
  "semanticPlan lc input =
     chain (assertSafe ''input'' (input_json input))
     (\<lambda>_. let unresolvedInputs = stableStrings (ci_unresolvedInputs input);
              deniedSteps = stableStrings (ci_deniedSteps input);
              permissions = stableStrings (ci_permissions input) in
        chain (case pl_runnerCapabilities input of None \<Rightarrow> Inr None
          | Some v \<Rightarrow> chain (normalizeRunnerCapabilities v ''input.runnerCapabilities'') (\<lambda>w. Inr (Some w)))
        (\<lambda>runnerCapabilities. Inr \<lparr>
          pl_projectSnapshot = pl_projectSnapshot input, pl_catalogSnapshot = pl_catalogSnapshot input,
          pl_policySnapshot = pl_policySnapshot input, pl_routePlan = pl_routePlan input,
          pl_contextReferences = normalizeContextReferences lc (pl_contextReferences input),
          pl_objective = pl_objective input, pl_constraints = stableStrings (pl_constraints input),
          pl_lockfile = pl_lockfile input, pl_runnerCapabilities = runnerCapabilities,
          sp_routePlanId = ref_id (pl_routePlan input), sp_mode = ModePlan,
          sp_fileChanges = stable lc (ci_fileOperations input) file_key,
          sp_dependencyChanges = stable lc (ci_dependencies input) dependency_key,
          sp_commands = stable lc (ci_commands input) command_key,
          sp_networkDestinations = stableStrings (ci_networkDestinations input), sp_credentials = [],
          sp_rollback = stableStrings (ci_rollback input),
          sp_verification = stableStrings (ci_verification input),
          sp_approval = \<lparr>pa_required = permissions \<noteq> [], pa_scopes = permissions\<rparr>,
          sp_status = status_of deniedSteps unresolvedInputs (pl_objective input),
          sp_providers = normalizeProviders lc (ci_providers input),
          sp_expectedArtifacts = stableStrings (ci_expectedArtifacts input),
          sp_affectedScopes = stableStrings (ci_affectedScopes input),
          sp_risks = stableStrings (ci_risks input), sp_unresolvedInputs = unresolvedInputs,
          sp_deniedSteps = deniedSteps\<rparr>))"

definition semantic_digest :: "(string \<Rightarrow> string) \<Rightarrow> 'a semantic_plan_scheme \<Rightarrow> string result" where
  "semantic_digest sha s = chain (validateJsonValue ''plan'' (semantic_json s)) (digestJson sha)"

definition expectedPlanId :: "string \<Rightarrow> string" where
  "expectedPlanId digest = ''plan_'' @ digest_slice 24 digest"

definition planner_validate :: "(string \<Rightarrow> string) \<Rightarrow> planned validator \<Rightarrow> planned \<Rightarrow> plan_validation result" where
  "planner_validate sha validator plan =
     (case validateContract validator plan of
        Inl issues \<Rightarrow> Inr \<lparr>pv_ok = False,
          pv_issues = map (\<lambda>issue. issue_path issue @ '' '' @ issue_message issue) issues\<rparr>
      | Inr candidate \<Rightarrow>
          chain (semantic_digest sha candidate)
          (\<lambda>recomputed. let expected = expectedPlanId (pln_immutableDigest candidate);
              issues = (if pln_immutableDigest candidate \<noteq> recomputed
                then [''immutableDigest does not match the recomputed digest '' @ recomputed] else []) @
                (if pln_executionPlanId candidate \<noteq> expected
                 then [''executionPlanId does not match digest-derived id '' @ expected] else [])
            in Inr \<lparr>pv_ok = (issues = []), pv_issues = issues\<rparr>))"

definition plan_of :: "semantic_plan \<Rightarrow> string \<Rightarrow> string \<Rightarrow> planned" where
  "plan_of semantic immutableDigest createdAt = semantic_plan.extend semantic
     (planned.fields (expectedPlanId immutableDigest) immutableDigest createdAt)"

text \<open>The plans the planner has created, by id: \<open>getPlan\<close> looks them up.\<close>

type_synonym planner = "(string \<times> planned) list"

definition planner_create :: "(string \<Rightarrow> string \<Rightarrow> int) \<Rightarrow> (string \<Rightarrow> string) \<Rightarrow> planned validator \<Rightarrow>
    create_plan_input \<Rightarrow> planner \<Rightarrow> planned result \<times> planner" where
  "planner_create lc sha validator input plans =
     (case chain (semanticPlan lc input) (\<lambda>semantic.
        chain (semantic_digest sha semantic) (\<lambda>immutableDigest.
        let plan = plan_of semantic immutableDigest
              (case ci_createdAt input of None \<Rightarrow> ''1970-01-01T00:00:00.000Z'' | Some t \<Rightarrow> t) in
        chain (planner_validate sha validator plan) (\<lambda>validation.
        chain (guard (\<not> pv_ok validation) (GenericError (''Generated execution plan is invalid: '' @
          js_join ''; '' (pv_issues validation))))
        (\<lambda>_. Inr plan)))) of
        Inl e \<Rightarrow> (Inl e, plans)
      | Inr plan \<Rightarrow> (Inr plan, AList.update (pln_executionPlanId plan) plan plans))"

definition getPlan :: "planner \<Rightarrow> string \<Rightarrow> planned option" where
  "getPlan plans planId = map_of plans planId"

section \<open>Drift\<close>

definition comparisonRecord :: "(string \<Rightarrow> string \<Rightarrow> int) \<Rightarrow> 'a planning_inputs_scheme \<Rightarrow> string \<Rightarrow>
    (string \<times> json) list result" where
  "comparisonRecord lc input side =
     chain (case pl_runnerCapabilities input of None \<Rightarrow> Inr None
       | Some v \<Rightarrow> chain (validateJsonValue (side @ ''.runnerCapabilities'') v) (\<lambda>w. Inr (Some w)))
     (\<lambda>runnerCapabilities. Inr (planning_entries (input\<lparr>
        pl_contextReferences := normalizeContextReferences lc (pl_contextReferences input),
        pl_constraints := stableStrings (pl_constraints input),
        pl_runnerCapabilities := runnerCapabilities\<rparr>)))"

definition sameJson :: "json \<Rightarrow> json \<Rightarrow> bool result" where
  "sameJson left right = chain (canonicalJson left) (\<lambda>a. chain (canonicalJson right) (\<lambda>b. Inr (a = b)))"

definition differs_at :: "(string \<times> json) list \<Rightarrow> (string \<times> json) list \<Rightarrow> string \<Rightarrow> bool result" where
  "differs_at expected actual key =
     (case (map_of expected key, map_of actual key) of
        (Some e, Some a) \<Rightarrow> chain (sameJson e a) (\<lambda>same. Inr (\<not> same))
      | _ \<Rightarrow> Inr True)"

definition planner_compare :: "(string \<Rightarrow> string \<Rightarrow> int) \<Rightarrow> planned \<Rightarrow> planning_inputs \<Rightarrow> plan_drift result" where
  "planner_compare lc plan current =
     chain (comparisonRecord lc plan ''plan'')
     (\<lambda>expected. chain (comparisonRecord lc current ''current'')
     (\<lambda>actual. chain (for_each (\<lambda>key differences.
          chain (differs_at expected actual key)
          (\<lambda>d. Inr (if d then differences @ [key] else differences)))
        (js_set (map fst expected @ map fst actual)) [])
     (\<lambda>differences. Inr \<lparr>drift_drifted = (differences \<noteq> []), drift_differences = differences\<rparr>)))"

text \<open>A created plan as the contract the apply service reads.\<close>

definition contract_plan :: "planned \<Rightarrow> execution_plan" where
  "contract_plan plan = \<lparr>ep_executionPlanId = pln_executionPlanId plan, ep_createdAt = pln_createdAt plan,
     ep_routePlanId = sp_routePlanId plan, ep_mode = sp_mode plan,
     ep_immutableDigest = pln_immutableDigest plan, ep_fileChanges = sp_fileChanges plan,
     ep_dependencyChanges = sp_dependencyChanges plan, ep_commands = sp_commands plan,
     ep_networkDestinations = sp_networkDestinations plan, ep_credentials = sp_credentials plan,
     ep_rollback = sp_rollback plan, ep_verification = sp_verification plan, ep_approval = sp_approval plan\<rparr>"

end
