(* ===== verification/Evidence.thy ===== *)
theory Evidence
  imports Planner Audit_Log
begin

text \<open>
  \<open>packages/verification\<close> and \<open>packages/evidence\<close>: the plan of the checks for an execution plan, the
  ingestion of runner results into an evidence envelope, its verification and its summary.

  The artifact contents of an input are an association list from artifact ids to bytes; \<open>parse\<close> is
  \<open>Date.parse\<close>. Lists that an input may leave out are options where the code copies their absence.
\<close>

section \<open>Types\<close>

datatype verification_state = Passed | Failed | NotRun | NotRequired | StateBlocked | Cancelled | TimedOut | Unverified

fun state_name :: "verification_state \<Rightarrow> string" where
  "state_name Passed = ''passed''"
| "state_name Failed = ''failed''"
| "state_name NotRun = ''not-run''"
| "state_name NotRequired = ''not-required''"
| "state_name StateBlocked = ''blocked''"
| "state_name Cancelled = ''cancelled''"
| "state_name TimedOut = ''timed-out''"
| "state_name Unverified = ''unverified''"

definition VERIFICATION_STATES :: "verification_state list" where
  "VERIFICATION_STATES = [Passed, Failed, NotRun, NotRequired, StateBlocked, Cancelled, TimedOut, Unverified]"

record artifact_reference =
  art_id :: string
  art_uri :: string
  art_digest :: string
  art_mediaType :: "string option"
  art_bytes :: "int option"

record diagnostic =
  diag_code :: string
  diag_message :: string

record planned_check =
  chk_id :: string
  chk_kind :: string
  chk_required :: bool
  chk_status :: verification_state
  chk_reason :: "string option"
  chk_artifacts :: "string list option"

record verification_plan =
  vp_verificationPlanId :: string
  vp_executionPlanId :: string
  vp_executionPlanDigest :: string
  vp_checks :: "planned_check list"
  vp_digest :: string

record runner_result =
  rr_runnerId :: string
  rr_runnerVersion :: string
  rr_attestation :: "json option"
  rr_planId :: string
  rr_planDigest :: string
  rr_checkId :: string
  rr_startedAt :: string
  rr_completedAt :: string
  rr_status :: verification_state
  rr_exitCode :: "int option"
  rr_diagnostics :: "diagnostic list"
  rr_artifacts :: "artifact_reference list"
  rr_environment :: json
  rr_redactions :: "string list"

record evidence_check =
  evc_id :: string
  evc_required :: bool
  evc_status :: verification_state
  evc_diagnostics :: "diagnostic list"
  evc_artifacts :: "string list"

record evidence_semantic =
  ev_projectSnapshot :: string
  ev_catalogSnapshot :: string
  ev_policySnapshot :: string
  ev_routePlan :: digest_reference
  ev_executionPlan :: digest_reference
  ev_checks :: "evidence_check list"
  ev_unverified :: "string list"

record evidence_envelope = evidence_semantic +
  ev_evidenceId :: string
  ev_digest :: string

record evidence_result =
  evr_ok :: bool
  evr_issues :: "string list"

record evidence_summary =
  sum_total :: nat
  sum_byStatus :: "(verification_state \<times> nat) list"
  sum_requiredComplete :: bool
  sum_failed :: "string list"

section \<open>The verification plan\<close>

record verification_requirement =
  req_checkId :: string
  req_kind :: string
  req_isRequired :: bool
  req_reason :: "string option"
  req_artifacts :: "string list option"

definition check_of :: "verification_requirement \<Rightarrow> planned_check" where
  "check_of requirement = \<lparr>chk_id = req_checkId requirement, chk_kind = req_kind requirement,
     chk_required = req_isRequired requirement,
     chk_status = (if req_isRequired requirement then NotRun else NotRequired),
     chk_reason = req_reason requirement, chk_artifacts = map_option sort (req_artifacts requirement)\<rparr>"

fun plan_checks :: "string list \<Rightarrow> verification_requirement list \<Rightarrow> planned_check list result" where
  "plan_checks seen [] = Inr []"
| "plan_checks seen (requirement # rest) =
     chain (guard (req_checkId requirement \<in> set seen)
       (GenericError (''Duplicate check ID: '' @ req_checkId requirement)))
     (\<lambda>_. chain (plan_checks (seen @ [req_checkId requirement]) rest)
     (\<lambda>checks. Inr (check_of requirement # checks)))"

definition planned_check_json :: "planned_check \<Rightarrow> json" where
  "planned_check_json c = JObj ([(''id'', JStr (chk_id c)), (''kind'', JStr (chk_kind c)),
     (''required'', JBool (chk_required c)), (''status'', JStr (state_name (chk_status c)))] @
     opt_entry ''reason'' (map_option JStr (chk_reason c)) @
     opt_entry ''artifacts'' (map_option strs_json (chk_artifacts c)))"

definition verification_create :: "(string \<Rightarrow> string \<Rightarrow> int) \<Rightarrow> (string \<Rightarrow> string) \<Rightarrow> planned \<Rightarrow>
    verification_requirement list \<Rightarrow> verification_plan result" where
  "verification_create lc sha executionPlan requirements =
     chain (plan_checks [] (js_sort (cmp_by lc req_checkId) requirements))
     (\<lambda>checks. chain (digestJson sha (JObj
         [(''executionPlanId'', JStr (pln_executionPlanId executionPlan)),
          (''executionPlanDigest'', JStr (pln_immutableDigest executionPlan)),
          (''checks'', JArr (map planned_check_json checks))]))
     (\<lambda>digest. Inr \<lparr>vp_verificationPlanId = ''verify_'' @ digest_slice 24 digest,
        vp_executionPlanId = pln_executionPlanId executionPlan,
        vp_executionPlanDigest = pln_immutableDigest executionPlan, vp_checks = checks, vp_digest = digest\<rparr>))"

section \<open>Normalisation\<close>

definition isDigest :: "string \<Rightarrow> bool" where
  "isDigest s \<longleftrightarrow> startsWith s ''sha256:'' \<and> length (drop 7 s) = 64 \<and> list_all lower_hex (drop 7 s)"

definition evidenceIdFromDigest :: "string \<Rightarrow> string" where
  "evidenceIdFromDigest digest = ''evidence_'' @ digest_slice 24 digest"

fun hasDuplicateIds :: "string list \<Rightarrow> string list \<Rightarrow> bool" where
  "hasDuplicateIds seen [] = False"
| "hasDuplicateIds seen (i # ids) = (i \<in> set seen \<or> hasDuplicateIds (seen @ [i]) ids)"

definition diagnostic_compare :: "(string \<Rightarrow> string \<Rightarrow> int) \<Rightarrow> diagnostic \<Rightarrow> diagnostic \<Rightarrow> int" where
  "diagnostic_compare lc = cmp_then (cmp_by lc diag_code) (cmp_by lc diag_message)"

definition normal_check :: "(string \<Rightarrow> string \<Rightarrow> int) \<Rightarrow> evidence_check \<Rightarrow> evidence_check" where
  "normal_check lc check = check\<lparr>evc_diagnostics := js_sort (diagnostic_compare lc) (evc_diagnostics check),
     evc_artifacts := sort (evc_artifacts check)\<rparr>"

definition normalizeChecks :: "(string \<Rightarrow> string \<Rightarrow> int) \<Rightarrow> evidence_check list \<Rightarrow> evidence_check list" where
  "normalizeChecks lc checks = js_sort (cmp_by lc evc_id) (map (normal_check lc) checks)"

definition deriveUnverified :: "evidence_check list \<Rightarrow> string list" where
  "deriveUnverified checks = sort (map evc_id (filter (\<lambda>check. evc_required check \<and>
     evc_status check \<noteq> Passed \<and> evc_status check \<noteq> NotRequired) checks))"

definition diagnostic_json :: "diagnostic \<Rightarrow> json" where
  "diagnostic_json d = JObj [(''code'', JStr (diag_code d)), (''message'', JStr (diag_message d))]"

definition evidence_check_json :: "evidence_check \<Rightarrow> json" where
  "evidence_check_json c = JObj [(''id'', JStr (evc_id c)), (''required'', JBool (evc_required c)),
     (''status'', JStr (state_name (evc_status c))), (''diagnostics'', JArr (map diagnostic_json (evc_diagnostics c))),
     (''artifacts'', strs_json (evc_artifacts c))]"

definition evidencePreimage :: "(string \<Rightarrow> string \<Rightarrow> int) \<Rightarrow> 'a evidence_semantic_scheme \<Rightarrow> json" where
  "evidencePreimage lc e = JObj [(''projectSnapshot'', JStr (ev_projectSnapshot e)),
     (''catalogSnapshot'', JStr (ev_catalogSnapshot e)), (''policySnapshot'', JStr (ev_policySnapshot e)),
     (''routePlan'', reference_json (ev_routePlan e)), (''executionPlan'', reference_json (ev_executionPlan e)),
     (''checks'', JArr (map evidence_check_json (normalizeChecks lc (ev_checks e)))),
     (''unverified'', strs_json (sort (ev_unverified e)))]"

definition digestEvidence :: "(string \<Rightarrow> string \<Rightarrow> int) \<Rightarrow> (string \<Rightarrow> string) \<Rightarrow> 'a evidence_semantic_scheme \<Rightarrow>
    string result" where
  "digestEvidence lc sha e = digestJson sha (evidencePreimage lc e)"

text \<open>Every child of a value is at \<open>path.key\<close>, the index being the key of an array's item.\<close>

fun assertNoSecrets :: "string \<Rightarrow> json \<Rightarrow> unit result" where
  "assertNoSecrets path (JStr s) = guard (sensitive_text s)
     (GenericError (''Secret-like data is forbidden at '' @ path @ ''.''))"
| "assertNoSecrets path (JArr vs) =
     check_each (\<lambda>(i, v). assertNoSecrets (key_path path (nat_str i)) v) (enumerate 0 vs)"
| "assertNoSecrets path (JObj kvs) =
     check_each (\<lambda>kv. chain (guard (sensitive_text (fst kv))
         (GenericError (''Secret-like field is forbidden at '' @ key_path path (fst kv) @ ''.'')))
       (\<lambda>_. assertNoSecrets (key_path path (fst kv)) (snd kv))) kvs"
| "assertNoSecrets path v = Inr ()"

definition copyJsonValue :: "string \<Rightarrow> json \<Rightarrow> json result" where
  "copyJsonValue path v = chain (check_json path v) (\<lambda>_. Inr v)"

section \<open>Ingestion\<close>

definition artifact_json :: "artifact_reference \<Rightarrow> json" where
  "artifact_json a = JObj ([(''id'', JStr (art_id a)), (''uri'', JStr (art_uri a)), (''digest'', JStr (art_digest a))] @
     opt_entry ''mediaType'' (map_option JStr (art_mediaType a)) @
     opt_entry ''bytes'' (map_option JInt (art_bytes a)))"

definition runner_json :: "runner_result \<Rightarrow> json" where
  "runner_json r = JObj [
     (''runner'', JObj ([(''id'', JStr (rr_runnerId r)), (''version'', JStr (rr_runnerVersion r))] @
        opt_entry ''attestation'' (rr_attestation r))),
     (''planId'', JStr (rr_planId r)), (''planDigest'', JStr (rr_planDigest r)),
     (''checkId'', JStr (rr_checkId r)), (''startedAt'', JStr (rr_startedAt r)),
     (''completedAt'', JStr (rr_completedAt r)), (''status'', JStr (state_name (rr_status r))),
     (''exitCode'', (case rr_exitCode r of None \<Rightarrow> JNull | Some n \<Rightarrow> JInt n)),
     (''diagnostics'', JArr (map diagnostic_json (rr_diagnostics r))),
     (''artifacts'', JArr (map artifact_json (rr_artifacts r))),
     (''environment'', rr_environment r), (''redactions'', strs_json (rr_redactions r))]"

record ingest_input =
  ing_plan :: planned
  ing_verificationPlan :: verification_plan
  ing_results :: "runner_result list"
  ing_artifactContents :: "(string \<times> string) list"

definition RUNNER_STATES :: "verification_state list" where
  "RUNNER_STATES = [Passed, Failed, StateBlocked, Cancelled, TimedOut, Unverified]"

text \<open>
  \<open>/^\d{4}-\d{2}-\d{2}T\d{2}:\d{2}:\d{2}(?:\.\d+)?(?:Z|[+-]\d{2}:\d{2})$/\<close>: a template, in which \<open>0\<close>
  stands for a digit, then a fraction and a zone.
\<close>

fun fits :: "string \<Rightarrow> string \<Rightarrow> bool" where
  "fits [] [] = True"
| "fits (t # ts) (c # cs) = ((if t = CHR ''0'' then is_digit c else c = t) \<and> fits ts cs)"
| "fits _ _ = False"

definition zone_text :: "string \<Rightarrow> bool" where
  "zone_text s \<longleftrightarrow> s = ''Z'' \<or> fits ''+00:00'' s \<or> fits ''-00:00'' s"

definition fraction_zone :: "string \<Rightarrow> bool" where
  "fraction_zone s = (case s of
     c # rest \<Rightarrow> if c = CHR ''.'' then takeWhile is_digit rest \<noteq> [] \<and> zone_text (dropWhile is_digit rest)
       else zone_text s
   | [] \<Rightarrow> False)"

definition isIsoDateTime :: "(string \<Rightarrow> int option) \<Rightarrow> string \<Rightarrow> bool" where
  "isIsoDateTime parse v \<longleftrightarrow>
     fits ''0000-00-00T00:00:00'' (take 19 v) \<and> fraction_zone (drop 19 v) \<and> parse v \<noteq> None"

text \<open>\<open>/checkId|status|planId|planDigest|artifact.*digest|digest/i\<close>; the last alternative covers the one before.\<close>

definition isProtectedRedaction :: "string \<Rightarrow> bool" where
  "isProtectedRedaction v \<longleftrightarrow> list_ex (contains_ci v) [''checkid'', ''status'', ''planid'', ''plandigest'', ''digest'']"

definition requireNonEmpty :: "string \<Rightarrow> string \<Rightarrow> unit result" where
  "requireNonEmpty v field = guard (js_trim v = '''') (GenericError (''Runner '' @ field @ '' must not be empty.''))"

definition earlier :: "(string \<Rightarrow> int option) \<Rightarrow> string \<Rightarrow> string \<Rightarrow> bool" where
  "earlier parse a b = (case (parse a, parse b) of (Some x, Some y) \<Rightarrow> x < y | _ \<Rightarrow> False)"

definition check_runner_state :: "runner_result \<Rightarrow> unit result" where
  "check_runner_state r =
     chain (guard (rr_status r = NotRun \<or> rr_status r = NotRequired) (GenericError
       (''Runner result '' @ rr_checkId r @ '' cannot declare '' @ state_name (rr_status r) @ ''.'')))
     (\<lambda>_. chain (guard (rr_status r \<notin> set RUNNER_STATES) (GenericError
       (''Runner result '' @ rr_checkId r @ '' has an unsupported state.'')))
     (\<lambda>_. chain (guard (rr_status r = Passed \<and> rr_exitCode r \<noteq> Some 0) (GenericError
       (''Runner result '' @ rr_checkId r @ '' passed with a nonzero exit code.'')))
     (\<lambda>_. guard (rr_status r = Failed \<and> rr_exitCode r = Some 0) (GenericError
       (''Runner result '' @ rr_checkId r @ '' failed with a successful exit code.'')))))"

definition validateRunnerResult :: "(string \<Rightarrow> int option) \<Rightarrow> runner_result \<Rightarrow> ingest_input \<Rightarrow> unit result" where
  "validateRunnerResult parse r input =
     chain (copyJsonValue ''runner result'' (runner_json r))
     (\<lambda>_. chain (assertNoSecrets ''runner result'' (runner_json r))
     (\<lambda>_. chain (guard (rr_planId r \<noteq> pln_executionPlanId (ing_plan input) \<or>
         rr_planDigest r \<noteq> pln_immutableDigest (ing_plan input)) (GenericError
       (''Runner result '' @ rr_checkId r @ '' is bound to another plan.'')))
     (\<lambda>_. chain (requireNonEmpty (rr_checkId r) ''check ID'')
     (\<lambda>_. chain (requireNonEmpty (rr_runnerId r) ''ID'')
     (\<lambda>_. chain (requireNonEmpty (rr_runnerVersion r) ''version'')
     (\<lambda>_. chain (check_runner_state r)
     (\<lambda>_. chain (guard (\<not> isIsoDateTime parse (rr_startedAt r) \<or> \<not> isIsoDateTime parse (rr_completedAt r) \<or>
         earlier parse (rr_completedAt r) (rr_startedAt r)) (GenericError
       (''Runner result '' @ rr_checkId r @ '' has invalid timestamps.'')))
     (\<lambda>_. guard (list_ex isProtectedRedaction (rr_redactions r)) (GenericError
       (''Redaction cannot hide identity or state for '' @ rr_checkId r @ ''.''))))))))))"

text \<open>One artifact, after the ids and digests seen so far.\<close>

definition check_artifact :: "(string \<Rightarrow> string) \<Rightarrow> (string \<times> string) list \<Rightarrow> artifact_reference \<Rightarrow>
    string list \<times> string list \<Rightarrow> (string list \<times> string list) result" where
  "check_artifact sha contents artifact seen =
     (case seen of (ids, digests) \<Rightarrow>
       chain (guard (js_trim (art_id artifact) = '''') (GenericError ''Artifact ID must not be empty.''))
       (\<lambda>_. chain (guard (\<not> isDigest (art_digest artifact)) (GenericError
         (''Artifact digest is invalid for '' @ art_id artifact @ ''.'')))
       (\<lambda>_. chain (guard (art_id artifact \<in> set ids) (GenericError
         (''Duplicate artifact ID '' @ art_id artifact @ ''.'')))
       (\<lambda>_. chain (guard (art_digest artifact \<in> set digests) (GenericError
         (''Duplicate artifact digest for '' @ art_id artifact @ ''.'')))
       (\<lambda>_. case map_of contents (art_id artifact) of
          None \<Rightarrow> Inl (GenericError (''Artifact content is missing for '' @ art_id artifact @ ''.''))
        | Some content \<Rightarrow>
            chain (guard (sha256Bytes sha content \<noteq> art_digest artifact) (GenericError
              (''Artifact digest mismatch for '' @ art_id artifact @ ''.'')))
            (\<lambda>_. Inr (ids @ [art_id artifact], digests @ [art_digest artifact])))))))"

definition validateArtifacts :: "(string \<Rightarrow> string) \<Rightarrow> runner_result \<Rightarrow> ingest_input \<Rightarrow> unit result" where
  "validateArtifacts sha r input =
     chain (for_each (check_artifact sha (ing_artifactContents input)) (rr_artifacts r) ([], []))
     (\<lambda>_. guard (rr_status r = Passed \<and> rr_artifacts r = []) (GenericError
       (''Passed check '' @ rr_checkId r @ '' requires an artifact.'')))"

text \<open>One runner result, added to the results by check id.\<close>

definition ingest_result :: "(string \<Rightarrow> string) \<Rightarrow> (string \<Rightarrow> int option) \<Rightarrow> ingest_input \<Rightarrow> runner_result \<Rightarrow>
    (string \<times> runner_result) list \<Rightarrow> (string \<times> runner_result) list result" where
  "ingest_result sha parse input r results =
     chain (guard (map_of results (rr_checkId r) \<noteq> None) (GenericError
       (''Multiple runner results for check '' @ rr_checkId r @ ''.'')))
     (\<lambda>_. chain (guard (rr_checkId r \<notin> chk_id ` set (vp_checks (ing_verificationPlan input))) (GenericError
       (''Unexpected runner check '' @ rr_checkId r @ ''.'')))
     (\<lambda>_. chain (validateRunnerResult parse r input)
     (\<lambda>_. chain (validateArtifacts sha r input)
     (\<lambda>_. Inr (AList.update (rr_checkId r) r results)))))"

definition evidence_check_of :: "(string \<times> runner_result) list \<Rightarrow> planned_check \<Rightarrow> evidence_check result" where
  "evidence_check_of results check =
     (let found = map_of results (chk_id check) in
      chain (guard (found = None \<and> chk_status check = Passed) (GenericError
        (''Fabricated pass for '' @ chk_id check @ ''.'')))
      (\<lambda>_. let status = (case found of None \<Rightarrow> chk_status check | Some r \<Rightarrow> rr_status r) in
        chain (guard (chk_required check \<and> status = Passed \<and> found = None) (GenericError
          (''Required passed check '' @ chk_id check @ '' lacks runner proof.'')))
        (\<lambda>_. Inr \<lparr>evc_id = chk_id check, evc_required = chk_required check, evc_status = status,
           evc_diagnostics = (case found of None \<Rightarrow> [] | Some r \<Rightarrow> rr_diagnostics r),
           evc_artifacts = (case found of None \<Rightarrow> [] | Some r \<Rightarrow> map art_digest (rr_artifacts r))\<rparr>)))"

definition evidence_of :: "(string \<Rightarrow> string \<Rightarrow> int) \<Rightarrow> planned \<Rightarrow> evidence_check list \<Rightarrow> evidence_semantic" where
  "evidence_of lc plan checks = (let normal = normalizeChecks lc checks in
     \<lparr>ev_projectSnapshot = pl_projectSnapshot plan, ev_catalogSnapshot = pl_catalogSnapshot plan,
      ev_policySnapshot = pl_policySnapshot plan, ev_routePlan = pl_routePlan plan,
      ev_executionPlan = \<lparr>ref_id = pln_executionPlanId plan, ref_digest = pln_immutableDigest plan\<rparr>,
      ev_checks = normal, ev_unverified = deriveUnverified normal\<rparr>)"

definition check_required :: "planned_check \<Rightarrow> unit result" where
  "check_required check = guard (chk_required check \<and> chk_status check = NotRequired) (GenericError
     (''Required verification check '' @ chk_id check @ '' cannot be not-required.''))"

definition ingestEvidence :: "(string \<Rightarrow> string \<Rightarrow> int) \<Rightarrow> (string \<Rightarrow> string) \<Rightarrow> (string \<Rightarrow> int option) \<Rightarrow>
    ingest_input \<Rightarrow> evidence_envelope result" where
  "ingestEvidence lc sha parse input =
     (let plan = ing_plan input; verificationPlan = ing_verificationPlan input; planned = vp_checks verificationPlan in
      chain (guard (vp_executionPlanId verificationPlan \<noteq> pln_executionPlanId plan \<or>
        vp_executionPlanDigest verificationPlan \<noteq> pln_immutableDigest plan)
        (GenericError ''Verification plan is not bound to the execution plan.''))
      (\<lambda>_. chain (guard (hasDuplicateIds [] (map chk_id planned))
        (GenericError ''Duplicate verification-plan check ID.''))
      (\<lambda>_. chain (check_each check_required planned)
      (\<lambda>_. chain (for_each (ingest_result sha parse input) (ing_results input) [])
      (\<lambda>results. chain (map_result (evidence_check_of results) planned)
      (\<lambda>checks. let semantic = evidence_of lc plan checks in
        chain (digestEvidence lc sha semantic)
        (\<lambda>digest. Inr (evidence_semantic.extend semantic
           (evidence_envelope.fields (evidenceIdFromDigest digest) digest)))))))))"

section \<open>Verification\<close>

definition envelope_json :: "evidence_envelope \<Rightarrow> json" where
  "envelope_json e = JObj [(''schemaVersion'', JStr ''1.0.0-draft.1''), (''contractKind'', JStr ''evidence-envelope''),
     (''evidenceId'', JStr (ev_evidenceId e)), (''digest'', JStr (ev_digest e)),
     (''projectSnapshot'', JStr (ev_projectSnapshot e)), (''catalogSnapshot'', JStr (ev_catalogSnapshot e)),
     (''policySnapshot'', JStr (ev_policySnapshot e)), (''routePlan'', reference_json (ev_routePlan e)),
     (''executionPlan'', reference_json (ev_executionPlan e)),
     (''checks'', JArr (map evidence_check_json (ev_checks e))), (''unverified'', strs_json (ev_unverified e))]"

definition check_issues :: "evidence_check \<Rightarrow> string list" where
  "check_issues check =
     (if evc_required check \<and> evc_status check = Passed \<and> evc_artifacts check = []
      then [''EVIDENCE_REQUIRED_ARTIFACT_MISSING:'' @ evc_id check] else []) @
     (if evc_required check \<and> evc_status check = NotRequired
      then [''EVIDENCE_REQUIRED_STATE_INVALID:'' @ evc_id check] else []) @
     (if list_ex (\<lambda>artifact. \<not> isDigest artifact) (evc_artifacts check)
      then [''EVIDENCE_ARTIFACT_DIGEST_INVALID:'' @ evc_id check] else [])"

definition stateIssues :: "(string \<Rightarrow> string \<Rightarrow> int) \<Rightarrow> 'a evidence_semantic_scheme \<Rightarrow> string list" where
  "stateIssues lc e =
     (if hasDuplicateIds [] (map evc_id (ev_checks e)) then [''EVIDENCE_CHECK_DUPLICATE''] else []) @
     concat (map check_issues (ev_checks e)) @
     (if length (js_set (ev_unverified e)) \<noteq> length (ev_unverified e) \<or>
         sort (ev_unverified e) \<noteq> deriveUnverified (normalizeChecks lc (ev_checks e))
      then [''EVIDENCE_UNVERIFIED_MISMATCH''] else [])"

definition verifyEvidence :: "(string \<Rightarrow> string \<Rightarrow> int) \<Rightarrow> (string \<Rightarrow> string) \<Rightarrow> evidence_envelope contract \<Rightarrow>
    json \<Rightarrow> evidence_result result" where
  "verifyEvidence lc sha contract evidence =
     (case copyJsonValue ''evidence'' evidence of
        Inl e \<Rightarrow> Inr \<lparr>evr_ok = False, evr_issues = [''EVIDENCE_SCHEMA_INVALID'']\<rparr>
      | Inr safeEvidence \<Rightarrow>
          (case contract safeEvidence of
             Inl issues \<Rightarrow> Inr \<lparr>evr_ok = False, evr_issues = [''EVIDENCE_SCHEMA_INVALID'']\<rparr>
           | Inr validated \<Rightarrow>
               chain (digestEvidence lc sha validated)
               (\<lambda>digest. let issues = stateIssues lc validated @
                    (if digest \<noteq> ev_digest validated then [''EVIDENCE_DIGEST_MISMATCH''] else []) @
                    (if evidenceIdFromDigest (ev_digest validated) \<noteq> ev_evidenceId validated
                     then [''EVIDENCE_ID_MISMATCH''] else [])
                  in Inr \<lparr>evr_ok = (issues = []), evr_issues = stableUnique issues\<rparr>)))"

definition status_count :: "evidence_check list \<Rightarrow> verification_state \<Rightarrow> nat" where
  "status_count checks state = length (filter (\<lambda>check. evc_status check = state) checks)"

definition summarizeEvidence :: "(string \<Rightarrow> string \<Rightarrow> int) \<Rightarrow> (string \<Rightarrow> string) \<Rightarrow> evidence_envelope contract \<Rightarrow>
    evidence_envelope \<Rightarrow> evidence_summary result" where
  "summarizeEvidence lc sha contract e =
     chain (verifyEvidence lc sha contract (envelope_json e))
     (\<lambda>verification. chain (guard (\<not> evr_ok verification) (GenericError
         (''Evidence is invalid: '' @ js_join '', '' (evr_issues verification))))
     (\<lambda>_. Inr \<lparr>sum_total = length (ev_checks e),
        sum_byStatus = map (\<lambda>state. (state, status_count (ev_checks e) state)) VERIFICATION_STATES,
        sum_requiredComplete = (deriveUnverified (ev_checks e) = []),
        sum_failed = sort (map evc_id (filter (\<lambda>check. evc_status check = Failed) (ev_checks e)))\<rparr>))"

end
