(* ===== verification/Sandbox_Paths.thy ===== *)
theory Sandbox_Paths
  imports Posix_Path Canonical_Json
begin

text \<open>
  \<open>packages/sandbox/src/path-safety.ts\<close> and the types of \<open>types.ts\<close> it uses: the checks a path
  passes before a sandbox reads or changes it, and the resolution of a candidate path against the
  real file system.

  The file system is the host's: \<open>fs_realpath\<close> is \<open>fsp.realpath\<close> (\<open>None\<close> where it rejects) and
  \<open>fs_lstat\<close> the kind of entry \<open>fsp.lstat\<close> reports. The result every caller relies on is that a
  resolved path lies under the real root, whatever the links of that file system are.
\<close>

section \<open>Types\<close>

record sandbox_policy =
  sp_policyId :: string
  sp_allowAbsolutePaths :: bool
  sp_allowSymlinkEscapes :: bool
  sp_allowSpecialFiles :: bool
  sp_allowCommands :: bool
  sp_allowNetwork :: bool
  sp_maxFiles :: int
  sp_maxBytes :: int
  sp_maxOperations :: int
  sp_maxDurationSeconds :: int
  sp_writableRoots :: "string list"
  sp_denyPaths :: "string list"

definition SandboxError :: "string \<Rightarrow> string \<Rightarrow> exn" where
  "SandboxError code msg = Exn ''SandboxError'' code msg"

lemma SandboxError_eq [simp]: "SandboxError c m = SandboxError c' m' \<longleftrightarrow> c = c' \<and> m = m'"
  by (simp add: SandboxError_def)

datatype entry_stat = RegularFile | DirectoryEntry | SymbolicLink | SpecialFile

datatype lstat_result = Stat entry_stat | NoEntry | StatFailed exn

record file_host =
  fs_cwd :: string
  fs_realpath :: "string \<Rightarrow> string option"
  fs_lstat :: "string \<Rightarrow> lstat_result"

section \<open>Checks on the text of a path\<close>

text \<open>
  \<open>isValidUtf8Path\<close> on the code units of a path. \<open>charCodeAt\<close> past the end is \<open>NaN\<close>, and both
  comparisons with \<open>NaN\<close> are false.
\<close>

fun valid_units :: "nat list \<Rightarrow> bool" where
  "valid_units [] = True"
| "valid_units (code # units) =
     (if 0xD800 \<le> code \<and> code \<le> 0xDFFF then
        (if code \<le> 0xDBFF
         then (case units of
             [] \<Rightarrow> True
           | follow # rest \<Rightarrow> if follow < 0xDC00 \<or> follow > 0xDFFF then False else valid_units rest)
         else False)
      else valid_units units)"

definition isValidUtf8Path :: "string \<Rightarrow> bool" where
  "isValidUtf8Path p = valid_units (map of_char p)"

definition displayPath :: "string \<Rightarrow> string" where
  "displayPath p = json_quote p"

definition assertNoNulOrEncodingIssues :: "string \<Rightarrow> unit result" where
  "assertNoNulOrEncodingIssues p =
     (if CHR 0x00 \<in> set p
      then Inl (SandboxError ''SANDBOX_NUL_BYTE'' (''Path contains a NUL byte: '' @ displayPath p))
      else if \<not> isValidUtf8Path p
      then Inl (SandboxError ''SANDBOX_INVALID_ENCODING''
        (''Path is not valid UTF-8: '' @ displayPath p))
      else Inr ())"

text \<open>The patterns \<open>/^[a-zA-Z]:/\<close> and \<open>/^[a-zA-Z]:[\\/]/\<close>.\<close>

fun drive_prefix :: "string \<Rightarrow> bool" where
  "drive_prefix (c # d # s) = (is_letter c \<and> d = CHR '':'')"
| "drive_prefix _ = False"

fun drive_absolute :: "string \<Rightarrow> bool" where
  "drive_absolute (c # d # e # s) =
     (is_letter c \<and> d = CHR '':'' \<and> (e = CHR 0x5C \<or> e = CHR ''/''))"
| "drive_absolute _ = False"

definition absolute_rejected :: "string \<Rightarrow> exn" where
  "absolute_rejected p =
     SandboxError ''SANDBOX_ABSOLUTE_PATH'' (''Absolute path rejected: '' @ displayPath p)"

definition traversal_rejected :: "string \<Rightarrow> exn" where
  "traversal_rejected p =
     SandboxError ''SANDBOX_PATH_TRAVERSAL'' (''Path traversal rejected: '' @ displayPath p)"

definition assertNotAbsolute :: "string \<Rightarrow> unit result" where
  "assertNotAbsolute p = guard (isAbsolute p \<or> drive_absolute p) (absolute_rejected p)"

definition assertSafeRelative :: "string \<Rightarrow> string result" where
  "assertSafeRelative p =
     chain (assertNoNulOrEncodingIssues p)
     (\<lambda>_. let normalized = slashes p in
        if startsWith normalized ''/'' \<or> drive_prefix normalized then Inl (absolute_rejected p)
        else
          let segments = js_split (CHR ''/'') normalized in
          if ''..'' \<in> set segments then Inl (traversal_rejected p) else Inr normalized)"

definition assertSafeRelativeSync :: "string \<Rightarrow> string result" where
  "assertSafeRelativeSync p =
     chain (assertNoNulOrEncodingIssues p)
     (\<lambda>_. let normalized = slashes p in
        if startsWith normalized ''/'' \<or> drive_prefix normalized then Inl (absolute_rejected p)
        else if ''..'' \<in> set (js_split (CHR ''/'') normalized) then Inl (traversal_rejected p)
        else Inr normalized)"

text \<open>\<open>p\<close> is \<open>dir\<close> or starts with \<open>dir/\<close>.\<close>

definition at_or_below :: "string \<Rightarrow> string \<Rightarrow> bool" where
  "at_or_below p dir \<longleftrightarrow> p = dir \<or> startsWith p (dir @ ''/'')"

definition assertPathAllowed :: "string \<Rightarrow> string list \<Rightarrow> string list \<Rightarrow> unit result" where
  "assertPathAllowed candidate writableRoots denyPaths =
     chain (assertNoNulOrEncodingIssues candidate)
     (\<lambda>_. let normalized = slashes candidate in
        if list_ex (\<lambda>deny. at_or_below normalized (slashes deny)) denyPaths
        then Inl (SandboxError ''SANDBOX_OPERATION_DENIED''
          (''Path denied by policy: '' @ displayPath candidate))
        else guard (\<not> list_ex (\<lambda>rootPath. let root = slashes rootPath in
              root = ''.'' \<or> at_or_below normalized root) writableRoots)
            (SandboxError ''SANDBOX_OPERATION_DENIED''
              (''Path outside writable roots: '' @ displayPath candidate)))"

section \<open>Resolution against the file system\<close>

definition isInside :: "file_host \<Rightarrow> string \<Rightarrow> string \<Rightarrow> bool" where
  "isInside fs target root =
     (let relative = path_relative (fs_cwd fs) root target in
      relative = '''' \<or> (\<not> startsWith relative ''..'' \<and> \<not> isAbsolute relative))"

definition pathInsideRoot :: "file_host \<Rightarrow> string \<Rightarrow> string \<Rightarrow> bool" where
  "pathInsideRoot fs p root =
     (let relative = path_relative (fs_cwd fs) root p in
      relative = '''' \<or> (\<not> startsWith relative ''..'' \<and> \<not> isAbsolute relative))"

definition realPathSafe :: "file_host \<Rightarrow> string \<Rightarrow> string" where
  "realPathSafe fs p = (case fs_realpath fs p of
     Some real \<Rightarrow> real
   | None \<Rightarrow> path_resolve (fs_cwd fs) [p])"

text \<open>
  \<open>resolveWithDeepestExistingAncestor\<close>; the first number is the loop's bound, the list the names
  below \<open>current\<close>, deepest first.
\<close>

fun ancestor_loop :: "file_host \<Rightarrow> string \<Rightarrow> string \<Rightarrow> nat \<Rightarrow> string \<Rightarrow> string list \<Rightarrow> string result" where
  "ancestor_loop fs target root 0 current tail =
     Inl (SandboxError ''SANDBOX_PATH_TRAVERSAL'' ''Path nesting too deep.'')"
| "ancestor_loop fs target root (Suc depth) current tail =
     (case fs_realpath fs current of
        Some real \<Rightarrow>
          let full = path_join (real # rev tail) in
          if \<not> isInside fs full root
          then Inl (SandboxError ''SANDBOX_SYMLINK_ESCAPE''
            (''Symlink escape detected via ancestor: '' @ displayPath target @ ''.''))
          else Inr full
      | None \<Rightarrow>
          let parent = path_dirname current in
          if parent = current then Inr (path_join (root # rev tail))
          else ancestor_loop fs target root depth parent (tail @ [path_basename current]))"

definition resolveWithDeepestExistingAncestor :: "file_host \<Rightarrow> string \<Rightarrow> string \<Rightarrow> string result" where
  "resolveWithDeepestExistingAncestor fs target root = ancestor_loop fs target root 256 target []"

definition resolveReal :: "file_host \<Rightarrow> string \<Rightarrow> string \<Rightarrow> string result" where
  "resolveReal fs target root =
     (let realRoot = realPathSafe fs root in
      chain (case fs_realpath fs target of
          Some real \<Rightarrow> Inr real
        | None \<Rightarrow> resolveWithDeepestExistingAncestor fs target realRoot)
      (\<lambda>realTarget.
        if \<not> isInside fs realTarget realRoot
        then Inl (SandboxError ''SANDBOX_SYMLINK_ESCAPE'' (''Symlink escape detected: '' @
          displayPath target @ '' resolves outside the sandbox root.''))
        else Inr realTarget))"

text \<open>The deny paths of the last argument's policy are not read.\<close>

definition resolveWithinRoot :: "file_host \<Rightarrow> string \<Rightarrow> string \<Rightarrow> bool \<Rightarrow> string result" where
  "resolveWithinRoot fs candidate root allowAbsolutePaths =
     chain (assertNoNulOrEncodingIssues candidate)
     (\<lambda>_. if candidate = ''''
        then Inl (SandboxError ''SANDBOX_PATH_TRAVERSAL'' ''Empty path rejected.'')
        else if isAbsolute candidate \<or> drive_absolute candidate then
          (if \<not> allowAbsolutePaths then Inl (absolute_rejected candidate)
           else resolveReal fs candidate root)
        else
          let segments = filter (\<lambda>segment. segment \<noteq> '''' \<and> segment \<noteq> ''.'')
                (js_split (CHR ''/'') (slashes candidate))
          in if ''..'' \<in> set segments then Inl (traversal_rejected candidate)
             else resolveReal fs (path_resolve (fs_cwd fs) (root # segments)) root)"

definition assertRegularFileOrDirectory :: "file_host \<Rightarrow> string \<Rightarrow> bool \<Rightarrow> unit result" where
  "assertRegularFileOrDirectory fs target allowSymlinkEscapes = (case fs_lstat fs target of
     NoEntry \<Rightarrow> Inr ()
   | StatFailed e \<Rightarrow> Inl e
   | Stat SymbolicLink \<Rightarrow> guard (\<not> allowSymlinkEscapes)
       (SandboxError ''SANDBOX_SYMLINK_ESCAPE'' (''Symlink rejected: '' @ displayPath target))
   | Stat SpecialFile \<Rightarrow> Inl (SandboxError ''SANDBOX_SPECIAL_FILE''
       (''Special file rejected (devices, sockets, FIFOs are not allowed): '' @ displayPath target))
   | Stat _ \<Rightarrow> Inr ())"

definition assertNoSymlinkEscape :: "file_host \<Rightarrow> string \<Rightarrow> string \<Rightarrow> bool \<Rightarrow> unit result" where
  "assertNoSymlinkEscape fs target root allowSymlinkEscapes =
     (if allowSymlinkEscapes then Inr ()
      else chain (resolveWithinRoot fs target root False)
        (\<lambda>real. guard (\<not> isInside fs real (realPathSafe fs root))
          (SandboxError ''SANDBOX_SYMLINK_ESCAPE''
            (''Symlink escape rejected: '' @ displayPath target))))"

definition fileDigest :: "(string \<Rightarrow> string) \<Rightarrow> string \<Rightarrow> string" where
  "fileDigest sha content = ''sha256:'' @ sha content"

section \<open>The checks on text\<close>

lemma valid_units_small: "\<forall>u \<in> set us. u < 0xD800 \<Longrightarrow> valid_units us"
  by (induction us rule: valid_units.induct) auto

lemma isValidUtf8Path_string [simp]: "isValidUtf8Path p"
proof -
  have "of_char c < (0xD800 :: nat)" for c :: char
    by (rule less_trans [OF nat_of_char_less_256]) simp
  then show ?thesis by (simp add: isValidUtf8Path_def valid_units_small)
qed

text \<open>
  Code units and code points: \<open>valid_units\<close> accepts the UTF-16 texts of Unicode scalar values,
  and also such a text followed by one lone high surrogate, because nothing is compared with the
  missing code unit after it.
\<close>

definition scalar_value :: "nat \<Rightarrow> bool" where
  "scalar_value n \<longleftrightarrow> n < 0xD800 \<or> (0xDFFF < n \<and> n < 0x110000)"

definition utf16 :: "nat \<Rightarrow> nat list" where
  "utf16 n = (if n < 0x10000 then [n]
     else [0xD800 + (n - 0x10000) div 0x400, 0xDC00 + (n - 0x10000) mod 0x400])"

lemma utf16_pair:
  assumes "0xD800 \<le> h" "h \<le> 0xDBFF" "0xDC00 \<le> l" "l \<le> (0xDFFF :: nat)"
  shows "\<exists>n. scalar_value n \<and> utf16 n = [h, l]"
proof (intro exI conjI)
  let ?n = "0x10000 + 0x400 * (h - 0xD800) + (l - 0xDC00)"
  have low: "l - 0xDC00 < 0x400" using assms by simp
  then have "(?n - 0x10000) div 0x400 = h - 0xD800" "(?n - 0x10000) mod 0x400 = l - 0xDC00"
    by simp_all
  then show "utf16 ?n = [h, l]" using assms by (simp add: utf16_def)
  show "scalar_value ?n" using assms low by (simp add: scalar_value_def)
qed

lemma valid_units_utf16:
  assumes "scalar_value n" shows "valid_units (utf16 n @ us) = valid_units us"
proof (cases "n < 0x10000")
  case True
  then show ?thesis using assms by (auto simp: utf16_def scalar_value_def)
next
  case False
  have "n < 0x110000" using assms by (auto simp: scalar_value_def)
  then have "(n - 0x10000) div 0x400 \<le> 0x3FF" "(n - 0x10000) mod 0x400 \<le> 0x3FF" by simp_all
  then show ?thesis using False by (simp add: utf16_def)
qed

definition utf16_text :: "nat list \<Rightarrow> bool" where
  "utf16_text us \<longleftrightarrow> (\<exists>cps rest. list_all scalar_value cps \<and> us = concat (map utf16 cps) @ rest \<and>
     (rest = [] \<or> (\<exists>h. rest = [h] \<and> 0xD800 \<le> h \<and> h \<le> 0xDBFF)))"

lemma utf16_text_valid: "utf16_text us \<Longrightarrow> valid_units us"
proof -
  assume "utf16_text us"
  then obtain cps rest where us: "us = concat (map utf16 cps) @ rest" "list_all scalar_value cps"
    and rest: "rest = [] \<or> (\<exists>h. rest = [h] \<and> 0xD800 \<le> h \<and> h \<le> 0xDBFF)"
    unfolding utf16_text_def by blast
  have "valid_units rest" using rest by auto
  then show "valid_units us" using us by (induction cps arbitrary: us) (simp_all add: valid_units_utf16)
qed

lemma utf16_text_end: "utf16_text []" "0xD800 \<le> h \<Longrightarrow> h \<le> 0xDBFF \<Longrightarrow> utf16_text [h]"
  unfolding utf16_text_def by (rule exI [of _ "[]"], simp)+

lemma utf16_text_extend: "scalar_value n \<Longrightarrow> utf16_text us \<Longrightarrow> utf16_text (utf16 n @ us)"
  unfolding utf16_text_def
  by (elim exE, rename_tac cps rest, rule_tac x = "n # cps" in exI, rule_tac x = rest in exI) simp

lemma valid_utf16_text: "\<forall>u \<in> set us. u < 0x10000 \<Longrightarrow> valid_units us \<Longrightarrow> utf16_text us"
proof (induction us rule: valid_units.induct)
  case 1
  then show ?case by (simp add: utf16_text_end)
next
  case (2 code units)
  show ?case
  proof (cases "0xD800 \<le> code \<and> code \<le> 0xDFFF")
    case False
    then have "scalar_value code" "utf16 code = [code]"
      using "2.prems" by (auto simp: scalar_value_def utf16_def)
    then show ?thesis using "2.IH"(2) "2.prems" False utf16_text_extend [of code units] by simp
  next
    case high: True
    then have code: "0xD800 \<le> code" "code \<le> 0xDBFF"
      using "2.prems" by (auto split: if_splits)
    show ?thesis
    proof (cases units)
      case Nil
      then show ?thesis using code by (simp add: utf16_text_end)
    next
      case (Cons follow rest)
      then have follow: "0xDC00 \<le> follow" "follow \<le> 0xDFFF" "valid_units rest"
        using "2.prems" code by (auto split: if_splits)
      then obtain n where n: "scalar_value n" "utf16 n = [code, follow]"
        using utf16_pair code by blast
      have "utf16_text rest"
        using "2.IH"(1) [OF high code(2) Cons] "2.prems"(1) follow Cons by simp
      then show ?thesis using utf16_text_extend [OF n(1)] n(2) Cons by simp
    qed
  qed
qed

lemma lone_surrogate_accepted: "valid_units [0x61, 0xD800]"
  by simp

lemma assertNoNul_Inr [simp]: "assertNoNulOrEncodingIssues p = Inr u \<longleftrightarrow> CHR 0x00 \<notin> set p"
  by (simp add: assertNoNulOrEncodingIssues_def)

lemma assertSafeRelative_Inr:
  "assertSafeRelative p = Inr q \<longleftrightarrow> q = slashes p \<and> CHR 0x00 \<notin> set p \<and> \<not> isAbsolute q \<and>
     \<not> drive_prefix q \<and> ''..'' \<notin> set (js_split (CHR ''/'') q)"
  by (auto simp: assertSafeRelative_def chain_eq_Inr Let_def isAbsolute_def split: if_splits)

lemma assertSafeRelativeSync_eq: "assertSafeRelativeSync p = assertSafeRelative p"
  by (simp add: assertSafeRelativeSync_def assertSafeRelative_def Let_def)

lemma assertPathAllowed_Inr:
  "assertPathAllowed p roots denied = Inr u \<longleftrightarrow> CHR 0x00 \<notin> set p \<and>
     (\<forall>d \<in> set denied. \<not> at_or_below (slashes p) (slashes d)) \<and>
     (\<exists>r \<in> set roots. slashes r = ''.'' \<or> at_or_below (slashes p) (slashes r))"
  by (auto simp: assertPathAllowed_def chain_eq_Inr Let_def list_ex_iff split: if_splits)


section \<open>Resolution\<close>

lemma isInside_contained:
  "isInside fs target root \<Longrightarrow>
     prefix (path_segments (path_resolve (fs_cwd fs) [root]))
       (path_segments (path_resolve (fs_cwd fs) [target]))"
  by (rule path_relative_inside) (auto simp: isInside_def Let_def startsWith_def)

lemma resolveReal_inside: "resolveReal fs target root = Inr real \<Longrightarrow> isInside fs real (realPathSafe fs root)"
  by (auto simp: resolveReal_def Let_def chain_eq_Inr split: if_splits)

text \<open>The bound of the loop is reached by very deep paths only.\<close>

lemma ancestor_loop_enough:
  "path_depth current < depth \<Longrightarrow>
     ancestor_loop fs target root depth current tail \<noteq>
       Inl (SandboxError ''SANDBOX_PATH_TRAVERSAL'' ''Path nesting too deep.'')"
proof (induction depth arbitrary: current tail)
  case (Suc depth)
  show ?case
  proof (cases "fs_realpath fs current = None \<and> path_dirname current \<noteq> current")
    case True
    then have "path_depth (path_dirname current) < depth"
      using path_dirname_depth [of current] Suc.prems by simp
    then show ?thesis using True Suc.IH by (simp add: Let_def)
  next
    case False
    then show ?thesis by (auto simp: Let_def split: option.split)
  qed
qed simp

text \<open>
  What a successful resolution returns: the path \<open>realpath\<close> gives for the target, or, for a target
  that does not exist, the real path of its deepest existing ancestor followed by the names below
  that ancestor. Only when no ancestor exists, not even the topmost one, the names follow the
  real root instead.
\<close>

definition ancestor :: "nat \<Rightarrow> string \<Rightarrow> string" where
  "ancestor k p = (path_dirname ^^ k) p"

definition names_below :: "nat \<Rightarrow> string \<Rightarrow> string list" where
  "names_below k p = map (\<lambda>i. path_basename (ancestor i p)) (rev [0..<k])"

lemma ancestor_Suc: "ancestor (Suc k) p = ancestor k (path_dirname p)"
  by (simp add: ancestor_def funpow_swap1)

lemma names_below_Suc: "names_below (Suc k) p = names_below k (path_dirname p) @ [path_basename p]"
proof -
  have "rev [0..<Suc k] = map Suc (rev [0..<k]) @ [0]"
    by (simp add: rev_map [symmetric] map_Suc_upt upt_rec [of 0 "Suc k"] del: upt_Suc)
  then show ?thesis by (simp add: names_below_def ancestor_Suc) (simp add: ancestor_def)
qed

lemma ancestor_loop_real:
  "ancestor_loop fs target root depth current tail = Inr real \<Longrightarrow>
     \<exists>k < depth. (\<forall>j < k. fs_realpath fs (ancestor j current) = None) \<and>
       (case fs_realpath fs (ancestor k current) of
          Some deepest \<Rightarrow> real = path_join (deepest # names_below k current @ rev tail)
        | None \<Rightarrow> path_dirname (ancestor k current) = ancestor k current \<and>
            real = path_join (root # names_below k current @ rev tail))"
proof (induction depth arbitrary: current tail)
  case (Suc depth)
  show ?case
  proof (cases "fs_realpath fs current = None \<and> path_dirname current \<noteq> current")
    case True
    then have "ancestor_loop fs target root depth (path_dirname current)
        (tail @ [path_basename current]) = Inr real"
      using Suc.prems by (simp add: Let_def)
    from Suc.IH [OF this] obtain k where k: "k < depth"
      "\<forall>j < k. fs_realpath fs (ancestor (Suc j) current) = None"
      "case fs_realpath fs (ancestor (Suc k) current) of
          Some deepest \<Rightarrow> real = path_join (deepest # names_below (Suc k) current @ rev tail)
        | None \<Rightarrow> path_dirname (ancestor (Suc k) current) = ancestor (Suc k) current \<and>
            real = path_join (root # names_below (Suc k) current @ rev tail)"
      by (auto simp: ancestor_Suc names_below_Suc cong: option.case_cong)
    have "\<forall>j < Suc k. fs_realpath fs (ancestor j current) = None"
      using k(2) True by (auto simp: less_Suc_eq_0_disj ancestor_def)
    then show ?thesis using k(1,3) by (intro exI [of _ "Suc k"]) simp
  next
    case False
    then show ?thesis using Suc.prems
      by (intro exI [of _ 0]) (auto simp: ancestor_def names_below_def Let_def
          split: option.splits if_splits)
  qed
qed simp

text \<open>The path a candidate names before links are resolved.\<close>

definition candidate_target :: "file_host \<Rightarrow> string \<Rightarrow> string \<Rightarrow> string" where
  "candidate_target fs candidate root =
     (if isAbsolute candidate \<or> drive_absolute candidate then candidate
      else path_resolve (fs_cwd fs)
        (root # filter (\<lambda>segment. segment \<noteq> '''' \<and> segment \<noteq> ''.'')
          (js_split (CHR ''/'') (slashes candidate))))"

lemma resolveWithinRoot_target:
  "resolveWithinRoot fs candidate root allow = Inr real \<Longrightarrow>
     resolveReal fs (candidate_target fs candidate root) root = Inr real"
  by (auto simp: resolveWithinRoot_def candidate_target_def chain_eq_Inr Let_def split: if_splits)

text \<open>
  C22: A candidate that resolves within a root names a real path under the real root, by its
  resolved segments, whatever links the file system has. The result is the path \<open>realpath\<close> returns
  for the target when the target exists, and otherwise the real path of its deepest existing
  ancestor followed by the names below that ancestor (of the real root, when nothing above the
  target exists). The text of the candidate has no NUL byte, and no parent segment unless it is an
  absolute path and the policy permits those.
\<close>

theorem resolveWithinRoot_contained:
  assumes "resolveWithinRoot fs candidate root allow = Inr real"
  shows "prefix (path_segments (path_resolve (fs_cwd fs) [realPathSafe fs root]))
      (path_segments (path_resolve (fs_cwd fs) [real])) \<and>
    (let target = candidate_target fs candidate root in
     case fs_realpath fs target of
       Some path \<Rightarrow> real = path
     | None \<Rightarrow> \<exists>k. (\<forall>j < k. fs_realpath fs (ancestor j target) = None) \<and>
         (case fs_realpath fs (ancestor k target) of
            Some deepest \<Rightarrow> real = path_join (deepest # names_below k target)
          | None \<Rightarrow> path_dirname (ancestor k target) = ancestor k target \<and>
              real = path_join (realPathSafe fs root # names_below k target))) \<and>
    candidate \<noteq> '''' \<and> CHR 0x00 \<notin> set candidate \<and>
    (if isAbsolute candidate \<or> drive_absolute candidate then allow
     else ''..'' \<notin> set (js_split (CHR ''/'') (slashes candidate)))"
proof -
  have checks: "candidate \<noteq> ''''" "CHR 0x00 \<notin> set candidate"
    "if isAbsolute candidate \<or> drive_absolute candidate then allow
     else ''..'' \<notin> set (js_split (CHR ''/'') (slashes candidate))"
    using assms by (auto simp: resolveWithinRoot_def chain_eq_Inr Let_def split: if_splits)
  let ?target = "candidate_target fs candidate root"
  have found: "resolveReal fs ?target root = Inr real"
    using resolveWithinRoot_target [OF assms] .
  have "case fs_realpath fs ?target of
      Some path \<Rightarrow> real = path
    | None \<Rightarrow> \<exists>k. (\<forall>j < k. fs_realpath fs (ancestor j ?target) = None) \<and>
        (case fs_realpath fs (ancestor k ?target) of
           Some deepest \<Rightarrow> real = path_join (deepest # names_below k ?target)
         | None \<Rightarrow> path_dirname (ancestor k ?target) = ancestor k ?target \<and>
             real = path_join (realPathSafe fs root # names_below k ?target))"
  proof (cases "fs_realpath fs ?target")
    case None
    then have "ancestor_loop fs ?target (realPathSafe fs root) 256 ?target [] = Inr real"
      using found
      by (auto simp: resolveReal_def resolveWithDeepestExistingAncestor_def Let_def chain_eq_Inr
          split: if_splits)
    from ancestor_loop_real [OF this] show ?thesis
      using None by (auto cong: option.case_cong)
  next
    case (Some path)
    then show ?thesis using found by (auto simp: resolveReal_def Let_def split: if_splits)
  qed
  then show ?thesis using isInside_contained [OF resolveReal_inside [OF found]] checks
    unfolding Let_def by blast
qed


text \<open>Resolution below an absolute root appends the segments of the candidate.\<close>

lemma js_split_append: "js_split c (s @ c # t) = js_split c s @ js_split c t"
  by (induction s) (auto split: list.split)

lemma resolve_from_segments:
  assumes "isAbsolute root" and "plain_segments segs"
  shows "resolve_from (rev segs @ [root, cwd]) acc = root @ ''/'' @ concat (map (\<lambda>s. s @ ''/'') segs) @ acc
    \<or> isAbsolute acc"
  using assms(2)
proof (induction segs arbitrary: acc rule: rev_induct)
  case Nil
  have "root \<noteq> ''''" "isAbsolute (root @ ''/'' @ acc)" using assms(1) by auto
  then show ?case by simp
next
  case (snoc s segs)
  have s: "s \<noteq> ''''" "CHR ''/'' \<notin> set s" "plain_segments segs"
    using snoc.prems by (auto simp: plain_segments_def)
  then have "\<not> isAbsolute (s @ ''/'' @ acc)"
    by (cases s) (auto simp: isAbsolute_def startsWith_def)
  then show ?case using snoc.IH [OF s(3), of "s @ ''/'' @ acc"] s(1) by auto
qed

lemma split_slashed_segments:
  "plain_segments segs \<Longrightarrow> js_split (CHR ''/'') (concat (map (\<lambda>s. s @ ''/'') segs)) = segs @ ['''']"
  by (induction segs) (auto simp: plain_segments_def split_append_sep)

lemma path_resolve_below:
  assumes "isAbsolute root" and "plain_segments segs"
  shows "path_segments (path_resolve cwd (root # segs)) = path_segments root @ segs"
proof -
  let ?path = "root @ ''/'' @ concat (map (\<lambda>s. s @ ''/'') segs)"
  have path: "resolve_from (rev (cwd # root # segs)) '''' = ?path"
    using resolve_from_segments [OF assms, of cwd "''''"] by (simp add: isAbsolute_def startsWith_def)
  have abs: "isAbsolute ?path" using assms(1) by simp
  have "path_segments ?path = path_segments root @ segs"
  proof -
    have "js_split (CHR ''/'') ?path = js_split (CHR ''/'') root @ segs @ ['''']"
      using split_slashed_segments [OF assms(2)] by (simp add: js_split_append)
    then show ?thesis using abs assms(1) foldl_push_plain [OF assms(2)]
      by (simp add: path_segments_def normalize_segments_def)
  qed
  moreover have "path_resolve cwd (root # segs) = CHR ''/'' # slash_join (path_segments ?path)"
    unfolding path_resolve_def path Let_def using abs by simp
  ultimately show ?thesis using path_segments_absolute plain_absolute [OF abs] by metis
qed

lemma path_resolve_absolute:
  "isAbsolute root \<Longrightarrow> path_segments (path_resolve cwd [root]) = path_segments root"
  using path_resolve_below [of root "[]" cwd] by (simp add: plain_segments_def)

lemma path_resolve_isAbsolute: "isAbsolute root \<Longrightarrow> plain_segments segs \<Longrightarrow> isAbsolute (path_resolve cwd (root # segs))"
  using resolve_from_segments [of root segs cwd "''''"] by (auto simp: path_resolve_def Let_def)

text \<open>
  On a file system without links every plain candidate resolves, unless the name of its first
  segment starts with two dots.
\<close>

definition linkless :: "file_host \<Rightarrow> bool" where
  "linkless fs \<longleftrightarrow> fs_realpath fs = Some"

lemma common_prefix_append: "common_prefix xs (xs @ ys) = length xs"
  by (induction xs) auto

lemma isInside_linkless:
  assumes "linkless fs" and "isAbsolute root" and "plain_segments segs"
    and "segs = [] \<or> \<not> startsWith (hd segs) ''..''"
  shows "isInside fs (path_resolve (fs_cwd fs) (root # segs)) (realPathSafe fs root)"
proof -
  have target: "path_segments (path_resolve (fs_cwd fs) [path_resolve (fs_cwd fs) (root # segs)]) =
      path_segments root @ segs"
    by (simp add: path_resolve_absolute path_resolve_isAbsolute path_resolve_below assms)
  have "path_relative (fs_cwd fs) root (path_resolve (fs_cwd fs) (root # segs)) = slash_join segs"
    by (simp add: path_relative_def Let_def target path_resolve_absolute assms common_prefix_append)
  moreover have "slash_join segs = '''' \<or> (\<not> startsWith (slash_join segs) ''..'' \<and> \<not> isAbsolute (slash_join segs))"
  proof (cases segs)
    case (Cons s rest)
    have s: "s \<noteq> ''''" "s \<noteq> ''.''" "CHR ''/'' \<notin> set s" "\<not> startsWith s ''..''"
      using assms(3,4) by (auto simp: plain_segments_def Cons)
    then obtain a b where "s = a # b" "a \<noteq> CHR ''/''" by (cases s) auto
    then show ?thesis using s
      by (cases b) (auto simp: Cons slash_join_def js_join_hd startsWith_def isAbsolute_def)
  qed (simp add: slash_join_def)
  ultimately show ?thesis
    using assms(1) by (simp add: isInside_def Let_def realPathSafe_def linkless_def)
qed

lemma resolveWithinRoot_linkless:
  assumes "linkless fs" and "isAbsolute root" and "candidate \<noteq> ''''" and "CHR 0x00 \<notin> set candidate"
    and "\<not> isAbsolute candidate" and "\<not> drive_absolute candidate"
    and "segs = filter (\<lambda>s. s \<noteq> '''' \<and> s \<noteq> ''.'') (js_split (CHR ''/'') (slashes candidate))"
    and "''..'' \<notin> set segs" and "segs = [] \<or> \<not> startsWith (hd segs) ''..''"
  shows "resolveWithinRoot fs candidate root allow = Inr (path_resolve (fs_cwd fs) (root # segs))"
proof -
  have "plain_segments segs"
    using assms(7,8) split_segments_no_sep by (auto simp: plain_segments_def)
  moreover have "fs_realpath fs t = Some t" for t using assms(1) by (simp add: linkless_def)
  ultimately show ?thesis
    using assms isInside_linkless [OF assms(1,2)]
    by (auto simp: resolveWithinRoot_def Let_def resolveReal_def assertNoNulOrEncodingIssues_def)
qed

definition plain_host :: file_host where
  "plain_host = \<lparr>fs_cwd = ''/'', fs_realpath = Some, fs_lstat = (\<lambda>_. Stat RegularFile)\<rparr>"

lemma resolveWithinRoot_contained_witness:
  "\<exists>real. resolveWithinRoot plain_host ''a/b'' ''/box'' False = Inr real \<and>
     real = candidate_target plain_host ''a/b'' ''/box'' \<and>
     prefix (path_segments (path_resolve ''/'' [''/box''])) (path_segments (path_resolve ''/'' [real]))"
proof -
  have "resolveWithinRoot plain_host ''a/b'' ''/box'' False =
      Inr (path_resolve (fs_cwd plain_host) (''/box'' # [''a'', ''b'']))"
    by (rule resolveWithinRoot_linkless)
      (simp_all add: linkless_def plain_host_def isAbsolute_def startsWith_def slashes_def)
  from resolveWithinRoot_contained [OF this] this show ?thesis
    by (auto simp: plain_host_def realPathSafe_def Let_def)
qed

text \<open>
  Deny paths are compared with the text of a candidate only: another spelling of a denied path
  is allowed and resolves to the same file.
\<close>

theorem deny_path_bypassed:
  "assertPathAllowed ''./secret/x'' [''.''] [''secret''] = Inr () \<and>
   assertPathAllowed ''secret/x'' [''.''] [''secret''] \<noteq> Inr () \<and>
   resolveWithinRoot fs ''./secret/x'' root allow = resolveWithinRoot fs ''secret/x'' root allow"
proof -
  have "assertPathAllowed ''./secret/x'' [''.''] [''secret''] = Inr ()"
    "assertPathAllowed ''secret/x'' [''.''] [''secret''] \<noteq> Inr ()"
    unfolding assertPathAllowed_Inr by (simp_all add: at_or_below_def startsWith_def slashes_def)
  moreover have "resolveWithinRoot fs ''./secret/x'' root allow = resolveWithinRoot fs ''secret/x'' root allow"
    by (simp add: resolveWithinRoot_def assertNoNulOrEncodingIssues_def isAbsolute_def startsWith_def
        slashes_def Let_def)
  ultimately show ?thesis by blast
qed

end
