(* ===== verification/Memory_Sandbox.thy ===== *)
theory Memory_Sandbox
  imports Sandbox_Paths Js_Effects Contracts_Validation
begin

text \<open>
  \<open>packages/sandbox/src/memory-sandbox.ts\<close> and the session types of \<open>types.ts\<close>: the in-memory
  sandbox. A session is the object's private fields; the content of a \<open>Uint8Array\<close> is a list of
  bytes, the type \<open>string\<close>. The argument \<open>now\<close> of an operation is what \<open>clock.now()\<close> returns in it
  (milliseconds), \<open>lc\<close> the host's collation and \<open>sha\<close> its SHA-256.

  A rejected operation may have changed the session before it threw, so the operations return the
  session in every case.
\<close>

section \<open>The session\<close>

datatype entry_type = TypeDirectory | TypeFile | TypeSymlink | TypeUnknown

record sandbox_entry =
  ent_path :: string
  ent_type :: entry_type
  ent_size :: int
  ent_digest :: "string option"

record sandbox_snapshot =
  snap_root :: string
  snap_entries :: "sandbox_entry list"
  snap_digest :: string

datatype memory_kind = MemDirectory | MemFile

record memory_entry =
  mem_kind :: memory_kind
  mem_content :: "string option"

record sandbox_session =
  ses_id :: string
  ses_root :: string
  ses_policy :: sandbox_policy
  ses_closed :: bool
  ses_operations :: int
  ses_bytes :: int
  ses_startedAt :: int
  ses_tree :: "(string \<times> memory_entry) list"

definition directory_entry :: memory_entry where
  "directory_entry = \<lparr>mem_kind = MemDirectory, mem_content = None\<rparr>"

definition file_entry :: "string \<Rightarrow> memory_entry" where
  "file_entry content = \<lparr>mem_kind = MemFile, mem_content = Some content\<rparr>"

section \<open>The checks\<close>

definition assertOpen :: "sandbox_session \<Rightarrow> unit result" where
  "assertOpen s = guard (ses_closed s)
     (SandboxError ''SANDBOX_CLOSED'' (''Sandbox '' @ ses_id s @ '' is closed.''))"

text \<open>Seconds are compared with milliseconds: \<open>elapsed / 1000 > limit\<close>.\<close>

definition assertTimeBudget :: "int \<Rightarrow> sandbox_session \<Rightarrow> unit result" where
  "assertTimeBudget now s =
     guard (now - ses_startedAt s > 1000 * sp_maxDurationSeconds (ses_policy s))
       (SandboxError ''SANDBOX_LIMIT_EXCEEDED'' (''Sandbox '' @ ses_id s @
         '' exceeded its time limit of '' @ int_str (sp_maxDurationSeconds (ses_policy s)) @ ''s.''))"

text \<open>\<open>p.replace(/^\.\//u, "").replace(/\/$/u, "")\<close>.\<close>

definition strip_ends :: "string \<Rightarrow> string" where
  "strip_ends p =
     (let q = (if startsWith p ''./'' then drop 2 p else p)
      in if q \<noteq> '''' \<and> last q = CHR ''/'' then butlast q else q)"

definition normalize :: "string \<Rightarrow> string result" where
  "normalize p = chain (assertSafeRelativeSync p)
     (\<lambda>_. Inr (if p = ''.'' \<or> p = ''./'' then '''' else strip_ends p))"

definition operation_denied :: "string \<Rightarrow> exn" where
  "operation_denied msg = SandboxError ''SANDBOX_OPERATION_DENIED'' msg"

definition assertWritable :: "sandbox_policy \<Rightarrow> string \<Rightarrow> unit result" where
  "assertWritable policy p =
     chain (guard (\<not> list_ex (\<lambda>rootPath. at_or_below p rootPath \<or> rootPath = ''.'')
         (sp_writableRoots policy))
       (operation_denied (''Path outside writable roots: '' @ p)))
     (\<lambda>_. guard (list_ex (at_or_below p) (sp_denyPaths policy))
       (operation_denied (''Path denied by policy: '' @ p)))"

text \<open>The paths of the ancestors of \<open>p\<close>, outermost first.\<close>

fun parents_from :: "string \<Rightarrow> string list \<Rightarrow> string list" where
  "parents_from current [] = []"
| "parents_from current (segment # segments) =
     (let path = (if current = '''' then segment else current @ ''/'' @ segment)
      in path # parents_from path segments)"

definition parentEntries :: "string \<Rightarrow> string list" where
  "parentEntries p = (if p = '''' then [] else parents_from '''' (butlast (js_split (CHR ''/'') p)))"

definition set_tree :: "(string \<times> memory_entry) list \<Rightarrow> sandbox_session \<Rightarrow> sandbox_session" where
  "set_tree tree s = s\<lparr>ses_tree := tree\<rparr>"

definition ensure_parent :: "string \<Rightarrow> (sandbox_session, unit) effect" where
  "ensure_parent parent s = (case map_of (ses_tree s) parent of
     None \<Rightarrow> (Inr (), set_tree (AList.update parent directory_entry (ses_tree s)) s)
   | Some entry \<Rightarrow>
       (guard (mem_kind entry \<noteq> MemDirectory)
          (operation_denied (''Parent is not a directory: '' @ parent)), s))"

definition ensureParents :: "string \<Rightarrow> (sandbox_session, unit) effect" where
  "ensureParents p = for_do ensure_parent (parentEntries p)"

definition countFiles :: "(string \<times> memory_entry) list \<Rightarrow> int" where
  "countFiles tree = int (length (filter (\<lambda>(key, entry). mem_kind entry = MemFile) tree))"

section \<open>Operations\<close>

definition limit_exceeded :: "sandbox_session \<Rightarrow> string \<Rightarrow> int \<Rightarrow> exn" where
  "limit_exceeded s limit n = SandboxError ''SANDBOX_LIMIT_EXCEEDED''
     (''Sandbox '' @ ses_id s @ '' exceeded '' @ limit @ '' limit of '' @ int_str n @ ''.'')"

definition count_operation :: "(sandbox_session, unit) effect" where
  "count_operation s =
     (let s = s\<lparr>ses_operations := ses_operations s + 1\<rparr>; maximum = sp_maxOperations (ses_policy s)
      in (guard (ses_operations s > maximum) (limit_exceeded s ''operation'' maximum), s))"

definition count_bytes :: "string \<Rightarrow> (sandbox_session, unit) effect" where
  "count_bytes content s =
     (let s = s\<lparr>ses_bytes := ses_bytes s + int (length content)\<rparr>; maximum = sp_maxBytes (ses_policy s)
      in (guard (ses_bytes s > maximum) (limit_exceeded s ''byte'' maximum), s))"

definition charge_write :: "int \<Rightarrow> string \<Rightarrow> (sandbox_session, unit) effect" where
  "charge_write now content s =
     proceed (check (assertOpen s) s)
     (\<lambda>_ s. proceed (check (assertTimeBudget now s) s)
     (\<lambda>_ s. proceed (count_operation s)
     (\<lambda>_ s. count_bytes content s)))"

definition store_file :: "string \<Rightarrow> string \<Rightarrow> (sandbox_session, unit) effect" where
  "store_file normalized content s =
     (let currentFiles = countFiles (ses_tree s); maximum = sp_maxFiles (ses_policy s) in
      if map_of (ses_tree s) normalized = None \<and> currentFiles \<ge> maximum
      then (Inl (limit_exceeded s ''file'' maximum), s)
      else (Inr (), set_tree (AList.update normalized (file_entry content) (ses_tree s)) s))"

definition writeInternal :: "int \<Rightarrow> bool \<Rightarrow> string \<Rightarrow> string \<Rightarrow> (sandbox_session, unit) effect" where
  "writeInternal now seed p content s =
     proceed (check (normalize p) s)
     (\<lambda>normalized s. proceed (check (assertWritable (ses_policy s) normalized) s)
     (\<lambda>_ s. proceed (ensureParents normalized s)
     (\<lambda>_ s. proceed (if seed then (Inr (), s) else charge_write now content s)
     (\<lambda>_ s. store_file normalized content s))))"

text \<open>The constructor: a seed entry that is refused makes it throw.\<close>

definition new_session :: "string \<Rightarrow> string \<Rightarrow> sandbox_policy \<Rightarrow> (string \<times> string) list \<Rightarrow> int \<Rightarrow>
    sandbox_session result" where
  "new_session sandboxId root policy seed now =
     (let (r, s) = for_do (\<lambda>(path, content). writeInternal now True path content) seed
            \<lparr>ses_id = sandboxId, ses_root = root, ses_policy = policy, ses_closed = False,
             ses_operations = 0, ses_bytes = 0, ses_startedAt = now,
             ses_tree = [('''', directory_entry)]\<rparr>
      in chain r (\<lambda>_. Inr s))"

definition not_found :: "string \<Rightarrow> exn" where
  "not_found p = SandboxError ''SANDBOX_NOT_FOUND'' (''Not found: '' @ p)"

definition session_read :: "sandbox_session \<Rightarrow> string \<Rightarrow> string result" where
  "session_read s p =
     chain (assertOpen s)
     (\<lambda>_. chain (normalize p)
     (\<lambda>normalized. case map_of (ses_tree s) normalized of
        None \<Rightarrow> Inl (not_found p)
      | Some entry \<Rightarrow>
          if mem_kind entry \<noteq> MemFile then Inl (not_found p)
          else (case mem_content entry of None \<Rightarrow> Inl (not_found p) | Some content \<Rightarrow> Inr content)))"

definition session_write :: "int \<Rightarrow> string \<Rightarrow> string \<Rightarrow> (sandbox_session, unit) effect" where
  "session_write now p content = writeInternal now False p content"

definition session_remove :: "int \<Rightarrow> string \<Rightarrow> (sandbox_session, unit) effect" where
  "session_remove now p s =
     proceed (check (chain (assertOpen s) (\<lambda>_. chain (assertTimeBudget now s) (\<lambda>_. normalize p))) s)
     (\<lambda>normalized s.
        if normalized = '''' then (Inl (operation_denied ''Cannot remove sandbox root.''), s)
        else (case map_of (ses_tree s) normalized of
          None \<Rightarrow> (Inl (not_found p), s)
        | Some entry \<Rightarrow>
            if mem_kind entry = MemDirectory \<and>
               list_ex (\<lambda>(key, _). key \<noteq> normalized \<and> startsWith key (normalized @ ''/'')) (ses_tree s)
            then (Inl (operation_denied ''Directory must be empty to remove.''), s)
            else count_operation (set_tree (AList.delete normalized (ses_tree s)) s)))"

definition entry_of :: "(string \<Rightarrow> string) \<Rightarrow> string \<Rightarrow> memory_entry \<Rightarrow> sandbox_entry" where
  "entry_of sha path entry =
     (if mem_kind entry = MemDirectory
      then \<lparr>ent_path = path, ent_type = TypeDirectory, ent_size = 0, ent_digest = None\<rparr>
      else let content = (case mem_content entry of None \<Rightarrow> '''' | Some c \<Rightarrow> c)
           in \<lparr>ent_path = path, ent_type = TypeFile, ent_size = int (length content),
               ent_digest = Some (fileDigest sha content)\<rparr>)"

definition session_list :: "(string \<Rightarrow> string \<Rightarrow> int) \<Rightarrow> (string \<Rightarrow> string) \<Rightarrow> sandbox_session \<Rightarrow>
    string \<Rightarrow> sandbox_entry list result" where
  "session_list lc sha s p =
     chain (assertOpen s)
     (\<lambda>_. chain (normalize p)
     (\<lambda>normalized. let below = (if normalized = '''' then '''' else normalized @ ''/'') in
        Inr (js_sort (cmp_by lc ent_path) (map (\<lambda>(key, entry). entry_of sha key entry)
          (filter (\<lambda>(key, entry). startsWith key below \<and> key \<noteq> normalized \<and>
            CHR ''/'' \<notin> set (drop (length below) key)) (ses_tree s))))))"

fun entry_type_name :: "entry_type \<Rightarrow> string" where
  "entry_type_name TypeDirectory = ''directory''"
| "entry_type_name TypeFile = ''file''"
| "entry_type_name TypeSymlink = ''symlink''"
| "entry_type_name TypeUnknown = ''unknown''"

definition entry_json :: "sandbox_entry \<Rightarrow> json" where
  "entry_json e = JObj [(''path'', JStr (ent_path e)), (''type'', JStr (entry_type_name (ent_type e))),
     (''size'', JInt (ent_size e)), (''digest'', opt_str_json (ent_digest e))]"

definition snapshot_json :: "string \<Rightarrow> sandbox_entry list \<Rightarrow> json" where
  "snapshot_json root entries =
     JObj [(''root'', JStr root), (''entries'', JArr (map entry_json entries))]"

definition tree_entries :: "(string \<Rightarrow> string) \<Rightarrow> (string \<times> memory_entry) list \<Rightarrow> sandbox_entry list" where
  "tree_entries sha tree =
     map (\<lambda>(key, entry). entry_of sha (if key = '''' then ''.'' else key) entry) tree"

definition session_snapshot :: "(string \<Rightarrow> string \<Rightarrow> int) \<Rightarrow> (string \<Rightarrow> string) \<Rightarrow> sandbox_session \<Rightarrow>
    sandbox_snapshot result" where
  "session_snapshot lc sha s =
     chain (assertOpen s)
     (\<lambda>_. let entries = js_sort (cmp_by lc ent_path) (tree_entries sha (ses_tree s)) in
        chain (digestJson sha (snapshot_json (ses_root s) entries))
        (\<lambda>digest. Inr \<lparr>snap_root = ses_root s, snap_entries = entries, snap_digest = digest\<rparr>))"

definition session_close :: "sandbox_session \<Rightarrow> sandbox_session" where
  "session_close s = s\<lparr>ses_closed := True\<rparr>"


section \<open>What the parts of an operation change\<close>

text \<open>The files of a tree, and the bytes they hold.\<close>

definition contents :: "sandbox_session \<Rightarrow> string \<Rightarrow> string option" where
  "contents s key = (case map_of (ses_tree s) key of None \<Rightarrow> None
     | Some entry \<Rightarrow> if mem_kind entry = MemFile then mem_content entry else None)"

definition entry_bytes :: "memory_entry \<Rightarrow> int" where
  "entry_bytes entry = (if mem_kind entry = MemFile
     then (case mem_content entry of None \<Rightarrow> 0 | Some content \<Rightarrow> int (length content)) else 0)"

definition total_bytes :: "sandbox_session \<Rightarrow> int" where
  "total_bytes s = (\<Sum>(key, entry) \<leftarrow> ses_tree s. entry_bytes entry)"

lemma entry_simps [simp]:
  "mem_kind directory_entry = MemDirectory" "mem_content directory_entry = None"
  "mem_kind (file_entry c) = MemFile" "mem_content (file_entry c) = Some c"
  "entry_bytes directory_entry = 0" "entry_bytes (file_entry c) = int (length c)"
  "0 \<le> entry_bytes e"
  by (simp_all add: directory_entry_def file_entry_def entry_bytes_def split: option.split)

lemma update_new: "map_of m k = None \<Longrightarrow> AList.update k v m = m @ [(k, v)]"
  by (induction m) (auto split: if_splits)

lemma set_tree_simps [simp]:
  "ses_tree (set_tree t s) = t" "ses_policy (set_tree t s) = ses_policy s"
  "ses_closed (set_tree t s) = ses_closed s" "ses_id (set_tree t s) = ses_id s"
  "ses_root (set_tree t s) = ses_root s" "ses_operations (set_tree t s) = ses_operations s"
  "ses_bytes (set_tree t s) = ses_bytes s" "set_tree t (set_tree t' s) = set_tree t s"
  by (simp_all add: set_tree_def)

text \<open>\<open>t\<close> is \<open>s\<close> with new directories and higher counters.\<close>

definition with_directories :: "sandbox_session \<Rightarrow> sandbox_session \<Rightarrow> bool" where
  "with_directories s t \<longleftrightarrow> (\<exists>ds ops bytes. distinct ds \<and> set ds \<inter> fst ` set (ses_tree s) = {} \<and>
     ses_operations s \<le> ops \<and> ses_bytes s \<le> bytes \<and>
     t = s\<lparr>ses_tree := ses_tree s @ map (\<lambda>d. (d, directory_entry)) ds,
          ses_operations := ops, ses_bytes := bytes\<rparr>)"

lemma with_directories_refl [simp]: "with_directories s s"
  unfolding with_directories_def
  by (rule exI [of _ "[]"], rule exI [of _ "ses_operations s"], rule exI [of _ "ses_bytes s"]) simp

lemma with_directories_trans:
  assumes "with_directories r s" and "with_directories s t" shows "with_directories r t"
proof -
  obtain ds ops bytes where s: "distinct ds" "set ds \<inter> fst ` set (ses_tree r) = {}"
    "ses_operations r \<le> ops" "ses_bytes r \<le> bytes"
    "s = r\<lparr>ses_tree := ses_tree r @ map (\<lambda>d. (d, directory_entry)) ds,
      ses_operations := ops, ses_bytes := bytes\<rparr>"
    using assms(1) unfolding with_directories_def by blast
  obtain es ops' bytes' where t: "distinct es" "set es \<inter> fst ` set (ses_tree s) = {}"
    "ses_operations s \<le> ops'" "ses_bytes s \<le> bytes'"
    "t = s\<lparr>ses_tree := ses_tree s @ map (\<lambda>d. (d, directory_entry)) es,
      ses_operations := ops', ses_bytes := bytes'\<rparr>"
    using assms(2) unfolding with_directories_def by blast
  show ?thesis unfolding with_directories_def
    by (rule exI [of _ "ds @ es"], rule exI [of _ ops'], rule exI [of _ bytes'])
      (use s t in \<open>auto simp: image_Un image_image\<close>)
qed

lemma with_directories_fields:
  assumes "with_directories s t"
  shows "ses_policy t = ses_policy s" "ses_id t = ses_id s" "ses_root t = ses_root s"
    "ses_closed t = ses_closed s" "ses_startedAt t = ses_startedAt s"
    "ses_operations s \<le> ses_operations t" "ses_bytes s \<le> ses_bytes t"
  using assms by (auto simp: with_directories_def)

lemma map_of_directories:
  "map_of (map (\<lambda>d. (d, directory_entry)) ds) k = (if k \<in> set ds then Some directory_entry else None)"
  by (induction ds) auto

lemma with_directories_contents: "with_directories s t \<Longrightarrow> contents t = contents s"
  by (rule ext)
    (auto simp: with_directories_def contents_def map_of_directories map_add_def
      split: option.split if_splits)

lemma with_directories_bytes: "with_directories s t \<Longrightarrow> total_bytes t = total_bytes s"
proof -
  have "(\<Sum>(key, entry) \<leftarrow> map (\<lambda>d. (d, directory_entry)) ds. entry_bytes entry) = 0" for ds
    by (induction ds) simp_all
  then show "with_directories s t \<Longrightarrow> total_bytes t = total_bytes s"
    by (auto simp: with_directories_def total_bytes_def)
qed

lemma ensure_parent_extends: "with_directories s (snd (ensure_parent d s))"
proof (cases "map_of (ses_tree s) d")
  case None
  then have "d \<notin> fst ` set (ses_tree s)" by (simp add: map_of_eq_None_iff)
  then show ?thesis using None unfolding with_directories_def
    by (intro exI [of _ "[d]"] exI [of _ "ses_operations s"] exI [of _ "ses_bytes s"])
      (simp add: ensure_parent_def update_new set_tree_def)
qed (simp add: ensure_parent_def)

lemma ensureParents_extends: "with_directories s (snd (ensureParents p s))"
  unfolding ensureParents_def
  by (rule for_do_invariant) (auto intro: with_directories_trans ensure_parent_extends)

lemma count_operation_extends: "with_directories s (snd (count_operation s))"
  unfolding with_directories_def
  by (rule exI [of _ "[]"], rule exI [of _ "ses_operations s + 1"], rule exI [of _ "ses_bytes s"])
    (simp add: count_operation_def Let_def)

lemma count_bytes_extends: "with_directories s (snd (count_bytes c s))"
  unfolding with_directories_def
  by (rule exI [of _ "[]"], rule exI [of _ "ses_operations s"],
      rule exI [of _ "ses_bytes s + int (length c)"]) (simp add: count_bytes_def Let_def)

lemma charge_write_extends: "with_directories s (snd (charge_write now c s))"
  unfolding charge_write_def
  by (intro proceed_invariant [where I = "with_directories s"])
    (auto intro: with_directories_trans count_operation_extends count_bytes_extends)

lemma charge_write_Inr:
  "charge_write now c s = (Inr u, t) \<Longrightarrow> \<not> ses_closed s \<and>
     ses_operations t = ses_operations s + 1 \<and> ses_operations t \<le> sp_maxOperations (ses_policy s) \<and>
     ses_bytes t = ses_bytes s + int (length c) \<and> ses_bytes t \<le> sp_maxBytes (ses_policy s)"
  by (auto simp: charge_write_def proceed_Inr_iff check_def assertOpen_def count_operation_def
      count_bytes_def Let_def)

text \<open>Everything a write does before it stores the file.\<close>

definition write_prologue :: "int \<Rightarrow> bool \<Rightarrow> string \<Rightarrow> string \<Rightarrow> (sandbox_session, string) effect" where
  "write_prologue now seed p content s =
     proceed (check (normalize p) s)
     (\<lambda>normalized s. proceed (check (assertWritable (ses_policy s) normalized) s)
     (\<lambda>_ s. proceed (ensureParents normalized s)
     (\<lambda>_ s. proceed (if seed then (Inr (), s) else charge_write now content s)
     (\<lambda>_ s. (Inr normalized, s)))))"

lemma writeInternal_prologue:
  "writeInternal now seed p c s =
     proceed (write_prologue now seed p c s) (\<lambda>normalized. store_file normalized c)"
  by (simp add: writeInternal_def write_prologue_def proceed_assoc)

lemma write_prologue_extends: "with_directories s (snd (write_prologue now seed p c s))"
  unfolding write_prologue_def
  by (intro proceed_invariant [where I = "with_directories s"])
    (auto intro: with_directories_trans ensureParents_extends charge_write_extends)

lemma write_prologue_Inr:
  assumes "write_prologue now seed p c s = (Inr k, t)"
  shows "normalize p = Inr k \<and> assertWritable (ses_policy s) k = Inr () \<and>
    (\<not> seed \<longrightarrow> \<not> ses_closed s \<and>
      ses_operations t = ses_operations s + 1 \<and> ses_operations t \<le> sp_maxOperations (ses_policy s) \<and>
      ses_bytes t = ses_bytes s + int (length c) \<and> ses_bytes t \<le> sp_maxBytes (ses_policy s))"
proof -
  obtain s1 where s1: "normalize p = Inr k" "assertWritable (ses_policy s) k = Inr ()"
    "ensureParents k s = (Inr (), s1)"
    "(if seed then (Inr (), s1) else charge_write now c s1) = (Inr (), t)"
    using assms by (auto simp: write_prologue_def proceed_Inr_iff check_def)
  have "snd (ensureParents k s) = s1" using s1(3) by simp
  then have "ses_policy s1 = ses_policy s \<and> ses_closed s1 = ses_closed s \<and>
      ses_operations s1 = ses_operations s \<and> ses_bytes s1 = ses_bytes s"
    unfolding ensureParents_def
    using for_do_invariant [where f = ensure_parent and xs = "parentEntries k" and s = s and
      I = "\<lambda>t. ses_policy t = ses_policy s \<and> ses_closed t = ses_closed s \<and>
        ses_operations t = ses_operations s \<and> ses_bytes t = ses_bytes s"]
    by (auto simp: ensure_parent_def split: option.split)
  then show ?thesis using s1 charge_write_Inr [of now c s1] by (auto split: if_splits)
qed

text \<open>The two outcomes of a write.\<close>

lemma writeInternal_Inl: "writeInternal now seed p c s = (Inl e, t) \<Longrightarrow> with_directories s t"
  using write_prologue_extends [of s now seed p c]
  by (auto simp: writeInternal_prologue proceed_Inl_iff store_file_def Let_def split: if_splits)

lemma writeInternal_Inr:
  assumes "writeInternal now seed p c s = (Inr u, t)"
  shows "\<exists>k s1. write_prologue now seed p c s = (Inr k, s1) \<and> with_directories s s1 \<and>
    t = set_tree (AList.update k (file_entry c) (ses_tree s1)) s1"
  using assms write_prologue_extends [of s now seed p c]
  by (fastforce simp: writeInternal_prologue proceed_Inr_iff store_file_def Let_def split: if_splits)

lemma contents_store:
  "contents (set_tree (AList.update k (file_entry c) (ses_tree s)) s) = (contents s)(k \<mapsto> c)"
  by (rule ext) (simp add: contents_def map_of_update)

lemma contents_delete: "contents (set_tree (AList.delete k (ses_tree s)) s) = (contents s)(k := None)"
  by (rule ext) (simp add: contents_def delete_conv')

lemma limit_exceeded_fields [simp]:
  "limit_exceeded (s\<lparr>ses_tree := t, ses_operations := n\<rparr>) = limit_exceeded s"
  by (intro ext) (simp add: limit_exceeded_def)

text \<open>The two outcomes of a removal: over the limit the entry is gone although it throws.\<close>

lemma session_remove_cases:
  "session_remove now p s = (r, t) \<Longrightarrow>
     (t = s \<and> r \<noteq> Inr ()) \<or>
     (\<exists>k. normalize p = Inr k \<and> k \<noteq> '''' \<and> \<not> ses_closed s \<and>
        t = set_tree (AList.delete k (ses_tree s)) s\<lparr>ses_operations := ses_operations s + 1\<rparr> \<and>
        (if ses_operations s + 1 \<le> sp_maxOperations (ses_policy s) then r = Inr ()
         else r = Inl (limit_exceeded s ''operation'' (sp_maxOperations (ses_policy s)))))"
  by (auto simp: session_remove_def check_def proceed_def assertOpen_def guard_def
      chain_eq_Inr count_operation_def Let_def set_tree_def
      split: sum.splits option.splits if_splits)


section \<open>A session refines a map of files\<close>

lemma session_write_files:
  shows "session_write now p c s = (Inr u, t) \<Longrightarrow>
      \<not> ses_closed s \<and> (\<exists>k. normalize p = Inr k \<and> contents t = (contents s)(k \<mapsto> c))"
    and "session_write now p c s = (Inl e, t) \<Longrightarrow> contents t = contents s"
proof -
  assume "session_write now p c s = (Inr u, t)"
  then have "writeInternal now False p c s = (Inr u, t)" by (simp add: session_write_def)
  then obtain k s1 where k: "write_prologue now False p c s = (Inr k, s1)" "with_directories s s1"
    "t = set_tree (AList.update k (file_entry c) (ses_tree s1)) s1"
    using writeInternal_Inr by blast
  then have "contents t = (contents s)(k \<mapsto> c)"
    by (simp only: contents_store with_directories_contents)
  then show "\<not> ses_closed s \<and> (\<exists>k. normalize p = Inr k \<and> contents t = (contents s)(k \<mapsto> c))"
    using write_prologue_Inr [OF k(1)] by auto
qed (auto simp: session_write_def dest: writeInternal_Inl with_directories_contents)

lemma session_remove_files:
  assumes "session_remove now p s = (Inr u, t)"
  shows "\<not> ses_closed s \<and> (\<exists>k. normalize p = Inr k \<and> contents t = (contents s)(k := None))"
proof -
  have gone: "contents (set_tree (AList.delete k (ses_tree s)) s\<lparr>ses_operations := n\<rparr>) =
      (contents s)(k := None)" for k n
    by (rule ext) (simp add: contents_def delete_conv')
  then show ?thesis using session_remove_cases [OF assms] by auto
qed

text \<open>
  C23: The sandbox implements a map from paths to contents. A read returns the content at the
  normalised path; a write that returns changes that content only, one that throws changes no
  content at all; a removal that returns removes that content only, and one that throws leaves all
  contents alone unless the operation limit was passed. Listing, snapshots and closing change
  nothing.
\<close>

theorem sandbox_refines_files:
  "(session_read s p = Inr c \<longleftrightarrow>
      \<not> ses_closed s \<and> (\<exists>k. normalize p = Inr k \<and> contents s k = Some c)) \<and>
   (case session_write now p c s of
      (Inr _, t) \<Rightarrow> \<not> ses_closed s \<and>
        (\<exists>k. normalize p = Inr k \<and> contents t = (contents s)(k \<mapsto> c))
    | (Inl _, t) \<Rightarrow> contents t = contents s) \<and>
   (case session_remove now p s of
      (Inr _, t) \<Rightarrow> \<not> ses_closed s \<and>
        (\<exists>k. normalize p = Inr k \<and> contents t = (contents s)(k := None))
    | (Inl _, t) \<Rightarrow> contents t = contents s \<or> sp_maxOperations (ses_policy s) \<le> ses_operations s) \<and>
   contents (session_close s) = contents s"
proof (intro conjI)
  show "session_read s p = Inr c \<longleftrightarrow>
      \<not> ses_closed s \<and> (\<exists>k. normalize p = Inr k \<and> contents s k = Some c)"
    by (auto simp: session_read_def assertOpen_def chain_eq_Inr contents_def not_found_def
        split: option.splits if_splits)
  show "case session_write now p c s of
      (Inr _, t) \<Rightarrow> \<not> ses_closed s \<and>
        (\<exists>k. normalize p = Inr k \<and> contents t = (contents s)(k \<mapsto> c))
    | (Inl _, t) \<Rightarrow> contents t = contents s"
    using session_write_files by (auto split: prod.split sum.split)
  show "case session_remove now p s of
      (Inr _, t) \<Rightarrow> \<not> ses_closed s \<and>
        (\<exists>k. normalize p = Inr k \<and> contents t = (contents s)(k := None))
    | (Inl _, t) \<Rightarrow> contents t = contents s \<or> sp_maxOperations (ses_policy s) \<le> ses_operations s"
  proof (cases "session_remove now p s")
    case (Pair r t)
    have gone: "contents (set_tree (AList.delete k (ses_tree s)) s\<lparr>ses_operations := n\<rparr>) =
        (contents s)(k := None)" for k n
      by (rule ext) (simp add: contents_def delete_conv')
    from Pair session_remove_cases [OF Pair] show ?thesis
      by (auto simp: gone split: sum.split if_splits)
  qed
  show "contents (session_close s) = contents s"
    by (rule ext) (simp add: contents_def session_close_def)
qed

section \<open>What every reachable session satisfies\<close>

text \<open>The flag tells whether the operation returned.\<close>

inductive session_step :: "sandbox_session \<Rightarrow> bool \<Rightarrow> sandbox_session \<Rightarrow> bool" where
  Write: "session_write now p c s = (r, t) \<Longrightarrow> session_step s (r = Inr ()) t"
| Remove: "session_remove now p s = (r, t) \<Longrightarrow> session_step s (r = Inr ()) t"
| Close: "session_step s False (session_close s)"

text \<open>Any number of operations, of which \<open>n\<close> writes and removals returned.\<close>

inductive session_run :: "sandbox_session \<Rightarrow> nat \<Rightarrow> sandbox_session \<Rightarrow> bool" where
  Start: "session_run s 0 s"
| Step: "session_run r n s \<Longrightarrow> session_step s returned t \<Longrightarrow> session_run r (n + of_bool returned) t"

text \<open>A path a file may have under a policy.\<close>

definition file_path :: "sandbox_policy \<Rightarrow> string \<Rightarrow> bool" where
  "file_path policy k \<longleftrightarrow> assertWritable policy k = Inr () \<and> CHR 0x00 \<notin> set k \<and>
     ''..'' \<notin> set (js_split (CHR ''/'') (slashes k))"

definition confined :: "sandbox_session \<Rightarrow> bool" where
  "confined s \<longleftrightarrow> (\<forall>(k, e) \<in> set (ses_tree s).
     mem_kind e = MemFile \<longrightarrow> mem_content e \<noteq> None \<and> file_path (ses_policy s) k)"

lemma split_slash_end: "js_split (CHR ''/'') (s @ ''/'') = js_split (CHR ''/'') s @ ['''']"
  using js_split_append [of "CHR ''/''" s "''''"] by simp

lemma slashes_append: "slashes (s @ t) = slashes s @ slashes t"
  by (simp add: slashes_def)

lemma strip_ends_safe:
  assumes "CHR 0x00 \<notin> set p" and "''..'' \<notin> set (js_split (CHR ''/'') (slashes p))"
  shows "CHR 0x00 \<notin> set (strip_ends p) \<and> ''..'' \<notin> set (js_split (CHR ''/'') (slashes (strip_ends p)))"
proof -
  let ?safe = "\<lambda>q. CHR 0x00 \<notin> set q \<and> ''..'' \<notin> set (js_split (CHR ''/'') (slashes q))"
  have front: "?safe (if startsWith p ''./'' then drop 2 p else p)"
  proof (cases "startsWith p ''./''")
    case True
    then have "p = ''./'' @ drop 2 p" unfolding startsWith_def
      by (metis append_take_drop_id list.size(3,4) One_nat_def Suc_1 add.right_neutral add_Suc_right)
    then obtain q where "p = CHR ''.'' # CHR ''/'' # q" "drop 2 p = q" by auto
    then show ?thesis using assms by (auto simp: slashes_def)
  qed (use assms in simp)
  have ending: "?safe (butlast q)" if "?safe q" "q \<noteq> ''''" "last q = CHR ''/''" for q
  proof -
    have "q = butlast q @ ''/''" using that(2,3) by (metis append_butlast_last_id)
    then have "slashes q = slashes (butlast q) @ ''/''"
      using slashes_append [of "butlast q" "''/''"] by (simp add: slashes_def)
    then show ?thesis using that(1) split_slash_end [of "slashes (butlast q)"]
      by (auto dest: in_set_butlastD)
  qed
  show ?thesis using front ending [of "if startsWith p ''./'' then drop 2 p else p"]
    by (simp add: strip_ends_def Let_def)
qed

lemma normalize_safe:
  "normalize p = Inr k \<Longrightarrow> CHR 0x00 \<notin> set k \<and> ''..'' \<notin> set (js_split (CHR ''/'') (slashes k))"
  using strip_ends_safe [of p]
  by (auto simp: normalize_def chain_eq_Inr assertSafeRelativeSync_eq assertSafeRelative_Inr slashes_def
      split: if_splits)

lemma confined_directories: "with_directories s t \<Longrightarrow> confined s \<Longrightarrow> confined t"
  by (auto simp: with_directories_def confined_def)

lemma tree_update_subset: "x \<in> set (AList.update k v m) \<Longrightarrow> x = (k, v) \<or> x \<in> set m"
  by (induction m) (auto split: if_splits)

lemma confined_update:
  assumes "confined s" and "file_path (ses_policy s) k"
  shows "confined (set_tree (AList.update k (file_entry c) (ses_tree s)) s)"
  unfolding confined_def set_tree_simps
proof (rule ballI)
  fix x assume "x \<in> set (AList.update k (file_entry c) (ses_tree s))"
  then have "x = (k, file_entry c) \<or> x \<in> set (ses_tree s)" by (rule tree_update_subset)
  then show "case x of (k, e) \<Rightarrow>
      mem_kind e = MemFile \<longrightarrow> mem_content e \<noteq> None \<and> file_path (ses_policy s) k"
  proof
    assume "x = (k, file_entry c)"
    then show ?thesis using assms(2) by simp
  next
    assume "x \<in> set (ses_tree s)"
    then show ?thesis using assms(1) unfolding confined_def by (rule bspec [rotated])
  qed
qed

lemma confined_write:
  assumes "confined s" and "writeInternal now seed p c s = (r, t)"
  shows "confined t"
proof (cases r)
  case (Inl e)
  then show ?thesis using assms writeInternal_Inl confined_directories by blast
next
  case (Inr u)
  then obtain k s1 where k: "write_prologue now seed p c s = (Inr k, s1)" "with_directories s s1"
    "t = set_tree (AList.update k (file_entry c) (ses_tree s1)) s1"
    using writeInternal_Inr assms by blast
  have "file_path (ses_policy s1) k"
    using write_prologue_Inr [OF k(1)] normalize_safe k(2)
    by (auto simp: file_path_def with_directories_fields)
  then show ?thesis using confined_update confined_directories k assms(1) by blast
qed

lemma confined_step: "session_step s ok t \<Longrightarrow> confined s \<Longrightarrow> confined t"
proof (induction rule: session_step.induct)
  case (Write now p c s r t)
  then show ?case using confined_write by (simp add: session_write_def)
next
  case (Remove now p s r t)
  have "set (AList.delete k m) \<subseteq> set m" for k :: string and m :: "(string \<times> memory_entry) list"
    by (auto simp: AList.delete_eq)
  then show ?case using session_remove_cases [OF Remove(1)] Remove(2)
    by (fastforce simp: confined_def)
next
  case (Close s)
  then show ?case by (simp add: confined_def session_close_def)
qed


text \<open>The bytes of all files, and the number of operations that returned, stay in the limits.\<close>

lemma sum_update_le:
  "(\<Sum>(key, e) \<leftarrow> AList.update k v m. entry_bytes e) \<le> (\<Sum>(key, e) \<leftarrow> m. entry_bytes e) + entry_bytes v"
  by (induction m) (auto split: if_splits)

lemma sum_delete_le: "(\<Sum>(key, e) \<leftarrow> AList.delete k m. entry_bytes e) \<le> (\<Sum>(key, e) \<leftarrow> m. entry_bytes e)"
  by (induction m) (auto simp: AList.delete_eq intro: add_increasing)

definition within_limits :: "sandbox_session \<Rightarrow> nat \<Rightarrow> sandbox_session \<Rightarrow> bool" where
  "within_limits s0 n s \<longleftrightarrow> ses_policy s = ses_policy s0 \<and> 0 \<le> ses_operations s \<and> 0 \<le> ses_bytes s \<and>
     int n \<le> max 0 (min (ses_operations s) (sp_maxOperations (ses_policy s0))) \<and>
     total_bytes s \<le> total_bytes s0 + max 0 (min (ses_bytes s) (sp_maxBytes (ses_policy s0)))"

lemma within_limits_directories:
  "with_directories s t \<Longrightarrow> within_limits s0 n s \<Longrightarrow> within_limits s0 n t"
  using with_directories_bytes [of s t] with_directories_fields [of s t]
  by (auto simp: within_limits_def)

lemma within_limits_write:
  assumes "within_limits s0 n s" and "session_write now p c s = (r, t)"
  shows "within_limits s0 (n + of_bool (r = Inr ())) t"
proof (cases r)
  case (Inl e)
  then show ?thesis using assms writeInternal_Inl within_limits_directories
    by (fastforce simp: session_write_def)
next
  case (Inr u)
  then obtain k s1 where k: "write_prologue now False p c s = (Inr k, s1)" "with_directories s s1"
    "t = set_tree (AList.update k (file_entry c) (ses_tree s1)) s1"
    using writeInternal_Inr assms(2) unfolding session_write_def by blast
  have "total_bytes t \<le> total_bytes s + int (length c)"
    using sum_update_le [of k "file_entry c" "ses_tree s1"] with_directories_bytes [OF k(2)]
    by (simp add: k(3) total_bytes_def)
  moreover have "ses_operations t = ses_operations s + 1" "ses_bytes t = ses_bytes s + int (length c)"
    "ses_operations t \<le> sp_maxOperations (ses_policy s)" "ses_bytes t \<le> sp_maxBytes (ses_policy s)"
    "ses_policy t = ses_policy s"
    using write_prologue_Inr [OF k(1)] k(3) with_directories_fields(1) [OF k(2)] by simp_all
  ultimately show ?thesis using assms(1) Inr unfolding within_limits_def by auto
qed

lemma within_limits_step:
  "session_step s ok t \<Longrightarrow> within_limits s0 n s \<Longrightarrow> within_limits s0 (n + of_bool ok) t"
proof (induction rule: session_step.induct)
  case (Write now p c s r t)
  then show ?case by (intro within_limits_write)
next
  case (Remove now p s r t)
  have bytes: "total_bytes (set_tree (AList.delete k (ses_tree s)) s\<lparr>ses_operations := m\<rparr>) \<le> total_bytes s" for k m
    using sum_delete_le [of k "ses_tree s"] by (simp add: total_bytes_def)
  from session_remove_cases [OF Remove(1)] show ?case
  proof (elim disjE exE conjE)
    assume "t = s" "r \<noteq> Inr ()"
    then show ?thesis using Remove(2) by simp
  next
    fix k
    assume t: "t = set_tree (AList.delete k (ses_tree s)) s\<lparr>ses_operations := ses_operations s + 1\<rparr>"
      "if ses_operations s + 1 \<le> sp_maxOperations (ses_policy s) then r = Inr ()
       else r = Inl (limit_exceeded s ''operation'' (sp_maxOperations (ses_policy s)))"
    then show ?thesis using Remove(2) order_trans [OF bytes]
      by (auto simp: within_limits_def of_bool_def split: if_splits)
  qed
next
  case (Close s)
  then show ?case by (simp add: within_limits_def session_close_def total_bytes_def)
qed

lemma new_session_facts:
  assumes "new_session sandboxId root policy seed now = Inr s0"
  shows "ses_policy s0 = policy \<and> confined s0 \<and> 0 \<le> ses_operations s0 \<and> 0 \<le> ses_bytes s0"
proof -
  let ?start = "\<lparr>ses_id = sandboxId, ses_root = root, ses_policy = policy, ses_closed = False,
    ses_operations = 0, ses_bytes = 0, ses_startedAt = now, ses_tree = [('''', directory_entry)]\<rparr>"
  let ?I = "\<lambda>s. ses_policy s = policy \<and> confined s \<and> 0 \<le> ses_operations s \<and> 0 \<le> ses_bytes s"
  let ?body = "\<lambda>(path, content). writeInternal now True path content"
  have step: "?I (snd (?body x s))" if "?I s" for x s
  proof (cases x)
    case [simp]: (Pair p c)
    obtain r t where run: "writeInternal now True p c s = (r, t)" by fastforce
    have "ses_policy t = ses_policy s \<and> ses_operations s \<le> ses_operations t \<and> ses_bytes s \<le> ses_bytes t"
    proof (cases r)
      case (Inl e)
      then have "with_directories s t" using run by (intro writeInternal_Inl) simp
      then show ?thesis by (simp add: with_directories_fields)
    next
      case (Inr u)
      then show ?thesis using writeInternal_Inr [of now True p c s u t] run with_directories_fields
        by fastforce
    qed
    moreover have "confined t" using that confined_write [OF _ run] by blast
    ultimately show ?thesis using that run by simp
  qed
  have "?I ?start" by (simp add: confined_def)
  then have "?I (snd (for_do ?body seed ?start))"
    by (rule for_do_invariant [where I = ?I]) (rule step)
  moreover obtain r t where "for_do ?body seed ?start = (r, t)" by fastforce
  ultimately show ?thesis using assms by (simp add: new_session_def chain_eq_Inr)
qed

lemma session_run_invariants:
  "session_run s0 n s \<Longrightarrow> confined s0 \<Longrightarrow> within_limits s0 0 s0 \<Longrightarrow> confined s \<and> within_limits s0 n s"
proof (induction rule: session_run.induct)
  case (Step r n s returned t)
  then show ?case using confined_step [OF Step(2)] within_limits_step [OF Step(2)] by blast
qed simp

text \<open>
  C24: However a sandbox is used, every file in it has a path the policy permits: under a writable
  root, not under a deny path, without parent segments and without NUL bytes. All files together
  hold at most the bytes of the seed and the byte limit, and at most as many writes and removals
  return as the operation limit says.
\<close>

theorem sandbox_confined:
  assumes "new_session sandboxId root policy seed now = Inr s0" and "session_run s0 n s"
  shows "dom (contents s) \<subseteq> {k. file_path policy k} \<and>
    total_bytes s \<le> total_bytes s0 + max 0 (sp_maxBytes policy) \<and>
    int n \<le> max 0 (sp_maxOperations policy)"
proof -
  have start: "ses_policy s0 = policy" "confined s0" "within_limits s0 0 s0"
    using new_session_facts [OF assms(1)] by (auto simp: within_limits_def)
  have "confined s" "within_limits s0 n s"
    using session_run_invariants [OF assms(2) start(2,3)] by simp_all
  then show ?thesis using start(1)
    by (auto simp: confined_def contents_def within_limits_def dest!: map_of_SomeD
        split: option.splits if_splits)
qed

definition sample_policy :: sandbox_policy where
  "sample_policy = \<lparr>sp_policyId = ''p'', sp_allowAbsolutePaths = False, sp_allowSymlinkEscapes = False,
     sp_allowSpecialFiles = False, sp_allowCommands = False, sp_allowNetwork = False,
     sp_maxFiles = 1, sp_maxBytes = 100, sp_maxOperations = 10, sp_maxDurationSeconds = 60,
     sp_writableRoots = [''.''], sp_denyPaths = []\<rparr>"

definition sample_session :: sandbox_session where
  "sample_session = \<lparr>ses_id = ''s'', ses_root = ''/s'', ses_policy = sample_policy, ses_closed = False,
     ses_operations = 0, ses_bytes = 0, ses_startedAt = 0, ses_tree = [('''', directory_entry)]\<rparr>"

lemma sample_session_new: "new_session ''s'' ''/s'' sample_policy [] 0 = Inr sample_session"
  by (simp add: new_session_def sample_session_def)


lemma sandbox_confined_witness:
  "\<exists>s. session_run sample_session 1 s \<and> contents s ''a/x'' = Some ''hi'' \<and>
     dom (contents s) \<subseteq> {k. file_path sample_policy k} \<and> total_bytes s \<le> 100"
proof -
  obtain r t where run: "session_write 0 ''a/x'' ''hi'' sample_session = (r, t)" by fastforce
  have r: "r = Inr () \<and> contents t ''a/x'' = Some ''hi''"
    using run by (auto simp: session_write_def writeInternal_def normalize_def assertSafeRelativeSync_def
      assertNoNulOrEncodingIssues_def slashes_def startsWith_def strip_ends_def check_def
      assertWritable_def sample_session_def sample_policy_def ensureParents_def parentEntries_def
      ensure_parent_def charge_write_def assertOpen_def assertTimeBudget_def count_operation_def
      count_bytes_def store_file_def countFiles_def contents_def map_of_update set_tree_def)
  then have "session_run sample_session (0 + of_bool True) t"
    using session_step.Write [OF run] by (intro session_run.Step [OF session_run.Start]) simp
  then have "session_run sample_session 1 t" by simp
  moreover have "total_bytes sample_session = 0"
    by (simp add: sample_session_def total_bytes_def)
  ultimately show ?thesis using sandbox_confined [OF sample_session_new, of 1 t] r
    by (auto simp: sample_policy_def)
qed

section \<open>What the limits do not cover\<close>

text \<open>
  A write to the path of a directory replaces the directory by a file, and is not counted against
  the file limit: with a limit of one file a sandbox holds two. A removal over the operation limit
  throws after it has deleted the entry. A write on a closed sandbox throws after it has created
  the parent directories.
\<close>

definition two_files :: sandbox_session where
  "two_files = snd (session_write 0 ''a'' ''b'' (snd (session_write 0 ''a/x'' ''c'' sample_session)))"

lemmas session_code = session_write_def writeInternal_def normalize_def assertSafeRelativeSync_def
  assertNoNulOrEncodingIssues_def slashes_def startsWith_def strip_ends_def check_def
  assertWritable_def ensureParents_def parentEntries_def ensure_parent_def charge_write_def
  assertOpen_def assertTimeBudget_def count_operation_def count_bytes_def store_file_def
  countFiles_def set_tree_def session_remove_def

theorem file_limit_bypassed:
  "sp_maxFiles (ses_policy two_files) = 1 \<and> countFiles (ses_tree two_files) = 2 \<and>
   contents two_files ''a'' = Some ''b'' \<and> contents two_files ''a/x'' = Some ''c''"
  by (simp add: two_files_def session_code sample_session_def sample_policy_def contents_def
      directory_entry_def file_entry_def)

definition used_up :: sandbox_session where
  "used_up = sample_session\<lparr>ses_operations := 10,
     ses_tree := ses_tree sample_session @ [(''a'', file_entry ''b'')]\<rparr>"

theorem remove_over_limit:
  "fst (session_remove 0 ''a'' used_up) = Inl (limit_exceeded used_up ''operation'' 10) \<and>
   contents used_up ''a'' = Some ''b'' \<and> contents (snd (session_remove 0 ''a'' used_up)) ''a'' = None"
  by (simp add: used_up_def session_code sample_session_def sample_policy_def contents_def
      directory_entry_def file_entry_def limit_exceeded_def)

theorem closed_write_creates_directories:
  "session_write 0 ''a/x'' ''c'' (session_close sample_session) =
     (Inl (SandboxError ''SANDBOX_CLOSED'' ''Sandbox s is closed.''),
      (session_close sample_session)\<lparr>ses_tree := ses_tree sample_session @ [(''a'', directory_entry)]\<rparr>)"
  by (simp add: session_code session_close_def sample_session_def sample_policy_def directory_entry_def)

end
