(* ===== verification/Sandbox_Snapshot.thy ===== *)
theory Sandbox_Snapshot
  imports Memory_Sandbox
begin

text \<open>
  \<open>packages/sandbox/src/snapshot.ts\<close>: the snapshot of a directory tree on the host, the
  difference of two snapshots, and what the digest of a snapshot says about the session it was
  taken of.

  The host's directories are the argument: \<open>dir_readdir\<close>, \<open>dir_stat\<close> and \<open>dir_readFile\<close> are the
  functions of \<open>node:fs/promises\<close>, \<open>None\<close> where they reject.
\<close>

section \<open>Walking a directory\<close>

record stat_info =
  stat_kind :: entry_type
  stat_size :: int

record dir_host =
  dir_files :: file_host
  dir_readdir :: "string \<Rightarrow> string list option"
  dir_stat :: "string \<Rightarrow> stat_info option"
  dir_readFile :: "string \<Rightarrow> string option"

text \<open>
  \<open>walk\<close>: the number counts the levels that are left (the code throws below level 128), the last
  argument is \<open>context.entries\<close>.
\<close>

fun walk :: "(string \<Rightarrow> string \<Rightarrow> int) \<Rightarrow> (string \<Rightarrow> string) \<Rightarrow> dir_host \<Rightarrow> string \<Rightarrow> nat \<Rightarrow> string \<Rightarrow>
    sandbox_entry list \<Rightarrow> sandbox_entry list result" where
  "walk lc sha host root 0 directory entries =
     Inl (GenericError (''Directory nesting exceeds 128 at '' @ directory))"
| "walk lc sha host root (Suc levels) directory entries =
     (case dir_readdir host directory of
        None \<Rightarrow> Inr entries
      | Some names \<Rightarrow> for_each (\<lambda>name entries.
          let absolute = path_join [directory, name];
              relative = path_relative (fs_cwd (dir_files host)) root absolute
          in if \<not> pathInsideRoot (dir_files host) absolute root then Inr entries
             else (case dir_stat host absolute of
                 None \<Rightarrow> Inr entries
               | Some stat \<Rightarrow>
                   (case stat_kind stat of
                      TypeDirectory \<Rightarrow> walk lc sha host root levels absolute
                        (entries @ [\<lparr>ent_path = relative, ent_type = TypeDirectory, ent_size = 0,
                           ent_digest = None\<rparr>])
                    | TypeFile \<Rightarrow>
                        (case dir_readFile host absolute of
                           None \<Rightarrow> Inr entries
                         | Some content \<Rightarrow> Inr (entries @ [\<lparr>ent_path = relative, ent_type = TypeFile,
                             ent_size = stat_size stat, ent_digest = Some (fileDigest sha content)\<rparr>]))
                    | TypeSymlink \<Rightarrow> Inr (entries @ [\<lparr>ent_path = relative, ent_type = TypeSymlink,
                        ent_size = 0, ent_digest = None\<rparr>])
                    | TypeUnknown \<Rightarrow> Inr (entries @ [\<lparr>ent_path = relative, ent_type = TypeUnknown,
                        ent_size = stat_size stat, ent_digest = None\<rparr>]))))
          (js_sort lc names) entries)"

definition buildSnapshot :: "(string \<Rightarrow> string \<Rightarrow> int) \<Rightarrow> (string \<Rightarrow> string) \<Rightarrow> dir_host \<Rightarrow> string \<Rightarrow>
    sandbox_snapshot result" where
  "buildSnapshot lc sha host root =
     chain (walk lc sha host root 129 root [])
     (\<lambda>walked. let entries = js_sort (cmp_by lc ent_path) walked in
        chain (digestJson sha (snapshot_json root entries))
        (\<lambda>digest. Inr \<lparr>snap_root = root, snap_entries = entries, snap_digest = digest\<rparr>))"

section \<open>The difference of two snapshots\<close>

datatype diff_kind = Created | Modified | Removed

record diff_entry =
  diff_path :: string
  diff_kind_of :: diff_kind
  diff_before :: "string option"
  diff_after :: "string option"

definition entries_by_path :: "sandbox_snapshot \<Rightarrow> (string \<times> sandbox_entry) list" where
  "entries_by_path snapshot = js_map (map (\<lambda>entry. (ent_path entry, entry)) (snap_entries snapshot))"

definition path_diff :: "sandbox_entry option \<Rightarrow> sandbox_entry option \<Rightarrow> string \<Rightarrow> diff_entry list" where
  "path_diff beforeEntry afterEntry p = (case beforeEntry of
     None \<Rightarrow> [\<lparr>diff_path = p, diff_kind_of = Created, diff_before = None,
       diff_after = Option.bind afterEntry ent_digest\<rparr>]
   | Some b \<Rightarrow> (case afterEntry of
       None \<Rightarrow> [\<lparr>diff_path = p, diff_kind_of = Removed, diff_before = ent_digest b, diff_after = None\<rparr>]
     | Some a \<Rightarrow>
         if ent_type b \<noteq> ent_type a \<or> ent_digest b \<noteq> ent_digest a
         then [\<lparr>diff_path = p, diff_kind_of = Modified, diff_before = ent_digest b,
           diff_after = ent_digest a\<rparr>]
         else []))"

definition snapshotDiff :: "(string \<Rightarrow> string \<Rightarrow> int) \<Rightarrow> sandbox_snapshot \<Rightarrow> sandbox_snapshot \<Rightarrow>
    diff_entry list" where
  "snapshotDiff lc before after =
     (let beforeByPath = entries_by_path before; afterByPath = entries_by_path after;
          allPaths = js_set (map fst beforeByPath @ map fst afterByPath)
      in js_sort (cmp_by lc diff_path) (concat (map (\<lambda>p.
           path_diff (map_of beforeByPath p) (map_of afterByPath p) p) allPaths)))"

lemma path_diff_path: "d \<in> set (path_diff b a p) \<Longrightarrow> diff_path d = p"
  by (auto simp: path_diff_def split: option.splits if_splits)

lemma map_path_diff: "map diff_path (path_diff b a p) = (if path_diff b a p = [] then [] else [p])"
  by (auto simp: path_diff_def split: option.splits if_splits)

lemma map_fst_js_map: "fst ` set (js_map es) = fst ` set es"
  using arg_cong [OF map_of_js_map [of es], of dom] by (simp add: dom_map_of_conv_image_fst)

lemma path_diff_member:
  "(b \<noteq> None \<or> a \<noteq> None) \<and> d \<in> set (path_diff b a (diff_path d)) \<longleftrightarrow>
     (b = None \<and> a \<noteq> None \<and> d = \<lparr>diff_path = diff_path d, diff_kind_of = Created,
        diff_before = None, diff_after = Option.bind a ent_digest\<rparr>) \<or>
     (\<exists>x. b = Some x \<and> a = None \<and> d = \<lparr>diff_path = diff_path d, diff_kind_of = Removed,
        diff_before = ent_digest x, diff_after = None\<rparr>) \<or>
     (\<exists>x y. b = Some x \<and> a = Some y \<and> (ent_type x \<noteq> ent_type y \<or> ent_digest x \<noteq> ent_digest y) \<and>
        d = \<lparr>diff_path = diff_path d, diff_kind_of = Modified, diff_before = ent_digest x,
          diff_after = ent_digest y\<rparr>)"
  by (cases b; cases a) (auto simp: path_diff_def)

text \<open>The entry of a path in a snapshot; the last one, where a snapshot has several.\<close>

definition entry_at :: "sandbox_snapshot \<Rightarrow> string \<Rightarrow> sandbox_entry option" where
  "entry_at snapshot p = map_of (entries_by_path snapshot) p"

lemma distinct_concat_diff:
  "distinct ps \<Longrightarrow> distinct (map diff_path (concat (map (\<lambda>p. path_diff (B p) (A p) p) ps)))"
  by (induction ps) (auto simp: map_path_diff map_concat dest: path_diff_path)

text \<open>
  The difference of two snapshots lists exactly the changed paths, each once: a path is
  created where only the later snapshot has it, removed where only the earlier one has it, and
  modified where both have it with another type or digest; the digests are those of the entries.
  It is empty exactly when the snapshots agree.
\<close>

theorem snapshotDiff_changes:
  "distinct (map diff_path (snapshotDiff lc before after)) \<and>
   set (snapshotDiff lc before after) =
     {d. (entry_at before (diff_path d) = None \<and> entry_at after (diff_path d) \<noteq> None \<and>
           d = \<lparr>diff_path = diff_path d, diff_kind_of = Created, diff_before = None,
             diff_after = Option.bind (entry_at after (diff_path d)) ent_digest\<rparr>) \<or>
         (\<exists>b. entry_at before (diff_path d) = Some b \<and> entry_at after (diff_path d) = None \<and>
           d = \<lparr>diff_path = diff_path d, diff_kind_of = Removed, diff_before = ent_digest b,
             diff_after = None\<rparr>) \<or>
         (\<exists>b a. entry_at before (diff_path d) = Some b \<and> entry_at after (diff_path d) = Some a \<and>
           (ent_type b \<noteq> ent_type a \<or> ent_digest b \<noteq> ent_digest a) \<and>
           d = \<lparr>diff_path = diff_path d, diff_kind_of = Modified, diff_before = ent_digest b,
             diff_after = ent_digest a\<rparr>)} \<and>
   (snapshotDiff lc before after = [] \<longleftrightarrow>
     (\<lambda>p. map_option (\<lambda>e. (ent_type e, ent_digest e)) (entry_at before p)) =
     (\<lambda>p. map_option (\<lambda>e. (ent_type e, ent_digest e)) (entry_at after p)))"
  (is "_ \<and> _ = {d. ?changed d} \<and> _")
proof -
  obtain paths where paths: "paths = fst ` set (entries_by_path before) \<union> fst ` set (entries_by_path after)"
    by blast
  let ?diff = "\<lambda>p. path_diff (entry_at before p) (entry_at after p) p"
  have set: "set (snapshotDiff lc before after) = (\<Union>p \<in> paths. set (?diff p))"
    by (simp add: snapshotDiff_def Let_def entry_at_def image_Un paths)
  have absent: "p \<notin> paths \<longleftrightarrow> entry_at before p = None \<and> entry_at after p = None" for p
    by (auto simp: entry_at_def map_of_eq_None_iff paths)
  have distinct: "distinct (map diff_path (snapshotDiff lc before after))"
    unfolding snapshotDiff_def Let_def distinct_map_js_sort by (rule distinct_concat_diff) simp
  have mem: "d \<in> set (snapshotDiff lc before after) \<longleftrightarrow>
      (entry_at before (diff_path d) \<noteq> None \<or> entry_at after (diff_path d) \<noteq> None) \<and>
      d \<in> set (?diff (diff_path d))" for d
  proof
    assume "d \<in> set (snapshotDiff lc before after)"
    then obtain p where p: "p \<in> paths" "d \<in> set (?diff p)" unfolding set by (elim UN_E)
    have "diff_path d = p" using p(2) by (rule path_diff_path)
    then show "(entry_at before (diff_path d) \<noteq> None \<or> entry_at after (diff_path d) \<noteq> None) \<and>
        d \<in> set (?diff (diff_path d))" using p absent [of p] by auto
  next
    assume "(entry_at before (diff_path d) \<noteq> None \<or> entry_at after (diff_path d) \<noteq> None) \<and>
        d \<in> set (?diff (diff_path d))"
    then show "d \<in> set (snapshotDiff lc before after)" unfolding set using absent [of "diff_path d"] by (intro UN_I) auto
  qed
  have empty: "snapshotDiff lc before after = [] \<longleftrightarrow> (\<forall>p. p \<in> paths \<longrightarrow> ?diff p = [])"
    unfolding set_empty [symmetric] set by auto
  have agree: "(p \<in> paths \<longrightarrow> ?diff p = []) \<longleftrightarrow>
      map_option (\<lambda>e. (ent_type e, ent_digest e)) (entry_at before p) =
      map_option (\<lambda>e. (ent_type e, ent_digest e)) (entry_at after p)" for p
    using absent [of p] by (cases "entry_at before p"; cases "entry_at after p")
      (auto simp: path_diff_def)
  have "(snapshotDiff lc before after = []) = ((\<lambda>p. map_option (\<lambda>e. (ent_type e, ent_digest e)) (entry_at before p)) =
      (\<lambda>p. map_option (\<lambda>e. (ent_type e, ent_digest e)) (entry_at after p)))"
    unfolding empty agree fun_eq_iff ..
  moreover have "d \<in> set (snapshotDiff lc before after) \<longleftrightarrow> ?changed d" for d
    unfolding mem by (rule path_diff_member)
  then have "set (snapshotDiff lc before after) = {d. ?changed d}" by blast
  ultimately show ?thesis using distinct by (intro conjI)
qed


section \<open>What the digest of a session says\<close>

definition session_ok :: "sandbox_session \<Rightarrow> bool" where
  "session_ok s \<longleftrightarrow> confined s \<and> distinct (map fst (ses_tree s))"

lemma distinct_directories:
  "with_directories s t \<Longrightarrow> distinct (map fst (ses_tree s)) \<Longrightarrow> distinct (map fst (ses_tree t))"
  by (force simp: with_directories_def comp_def)

lemma session_ok_write:
  assumes "session_ok s" and "writeInternal now seed p c s = (r, t)"
  shows "session_ok t"
proof -
  have "distinct (map fst (ses_tree t))"
  proof (cases r)
    case (Inl e)
    then show ?thesis using assms distinct_directories writeInternal_Inl unfolding session_ok_def by blast
  next
    case (Inr u)
    then obtain k s1 where "with_directories s s1"
      "t = set_tree (AList.update k (file_entry c) (ses_tree s1)) s1"
      using writeInternal_Inr assms(2) by blast
    then show ?thesis using assms(1) distinct_directories
      by (simp add: session_ok_def distinct_fst_update)
  qed
  then show ?thesis using assms confined_write by (auto simp: session_ok_def)
qed

lemma session_ok_remove:
  assumes "session_ok s" and "session_remove now p s = (r, t)"
  shows "session_ok t"
proof -
  have "distinct (map fst (ses_tree t))"
    using session_remove_cases [OF assms(2)] assms(1) by (auto simp: session_ok_def distinct_delete)
  then show ?thesis
    using assms confined_step [OF session_step.Remove [OF assms(2)]] by (simp add: session_ok_def)
qed

lemma session_ok_new: "new_session sandboxId root policy [] now = Inr s \<Longrightarrow> session_ok s"
  by (auto simp: new_session_def session_ok_def confined_def)

lemma finite_entry_json [simp]: "finite_json (entry_json e)"
  by (simp add: entry_json_def)

lemma finite_snapshot_json [simp]: "finite_json (snapshot_json root entries)"
  by (simp add: snapshot_json_def)

lemma entry_type_name_inject: "entry_type_name a = entry_type_name b \<longleftrightarrow> a = b"
  by (cases a; cases b) simp_all

lemma entry_json_inject:
  assumes "normalize_json (entry_json a) = normalize_json (entry_json b)"
  shows "a = b"
proof -
  have "map (\<lambda>kv. normalize_json (snd kv)) [(''path'', JStr (ent_path a)),
      (''type'', JStr (entry_type_name (ent_type a))), (''size'', JInt (ent_size a)),
      (''digest'', opt_str_json (ent_digest a))] =
    map (\<lambda>kv. normalize_json (snd kv)) [(''path'', JStr (ent_path b)),
      (''type'', JStr (entry_type_name (ent_type b))), (''size'', JInt (ent_size b)),
      (''digest'', opt_str_json (ent_digest b))]"
    using assms unfolding entry_json_def by (rule normalize_obj_same_keys [rotated 2]) simp_all
  then show ?thesis by (simp add: sandbox_entry.equality entry_type_name_inject)
qed

lemma snapshot_json_inject:
  assumes "normalize_json (snapshot_json r es) = normalize_json (snapshot_json r' es')"
  shows "r = r' \<and> es = es'"
proof -
  have "map (\<lambda>kv. normalize_json (snd kv)) [(''root'', JStr r), (''entries'', JArr (map entry_json es))] =
    map (\<lambda>kv. normalize_json (snd kv)) [(''root'', JStr r'), (''entries'', JArr (map entry_json es'))]"
    using assms unfolding snapshot_json_def by (rule normalize_obj_same_keys [rotated 2]) simp_all
  then have "r = r'" "normalize_json (JArr (map entry_json es)) = normalize_json (JArr (map entry_json es'))"
    by (simp_all only: list.map snd_conv list.inject normalize_json.simps json.inject simp_thms)
  then show ?thesis using normalize_JArr_map [OF entry_json_inject] by blast
qed

text \<open>The hashes of two sessions do not collide: on the texts of their snapshots and their files.\<close>

definition sorted_entries :: "(string \<Rightarrow> string \<Rightarrow> int) \<Rightarrow> (string \<Rightarrow> string) \<Rightarrow> sandbox_session \<Rightarrow>
    sandbox_entry list" where
  "sorted_entries lc sha s = js_sort (cmp_by lc ent_path) (tree_entries sha (ses_tree s))"

definition sessions_separated :: "(string \<Rightarrow> string \<Rightarrow> int) \<Rightarrow> (string \<Rightarrow> string) \<Rightarrow> sandbox_session \<Rightarrow>
    sandbox_session \<Rightarrow> bool" where
  "sessions_separated lc sha s t \<longleftrightarrow>
     collision_free sha (snapshot_json (ses_root s) (sorted_entries lc sha s))
       (snapshot_json (ses_root t) (sorted_entries lc sha t)) \<and>
     (\<forall>k c d. contents s k = Some c \<longrightarrow> contents t k = Some d \<longrightarrow> sha c = sha d \<longrightarrow> c = d)"

text \<open>
  A snapshot names the root \<open>.\<close>, which is also the name of a file written at \<open>././\<close>; every other
  path has its own name.
\<close>

definition named_paths :: "string set" where
  "named_paths = - {'''', ''.''}"

lemma session_snapshot_Inr:
  "session_snapshot lc sha s = Inr x \<Longrightarrow>
     \<not> ses_closed s \<and> snap_digest x = json_digest sha (snapshot_json (ses_root s) (sorted_entries lc sha s))"
  by (auto simp: session_snapshot_def assertOpen_def chain_eq_Inr Let_def digestJson_finite sorted_entries_def)

lemma file_entry_listed:
  assumes "session_ok s" and "k \<in> named_paths"
  shows "\<lparr>ent_path = k, ent_type = TypeFile, ent_size = n, ent_digest = Some d\<rparr> \<in> set (tree_entries sha (ses_tree s))
    \<longleftrightarrow> (\<exists>c. contents s k = Some c \<and> n = int (length c) \<and> d = fileDigest sha c)" (is "?l \<longleftrightarrow> ?r")
proof
  assume ?l
  then obtain key e where e: "(key, e) \<in> set (ses_tree s)"
    "entry_of sha (if key = '''' then ''.'' else key) e =
      \<lparr>ent_path = k, ent_type = TypeFile, ent_size = n, ent_digest = Some d\<rparr>"
    by (auto simp: tree_entries_def)
  then have "key = k" "mem_kind e = MemFile"
    using assms(2) by (auto simp: entry_of_def Let_def named_paths_def memory_kind.exhaust split: if_splits
        intro: memory_kind.exhaust)
  moreover obtain c where "mem_content e = Some c"
    using assms(1) e(1) \<open>mem_kind e = MemFile\<close> by (fastforce simp: session_ok_def confined_def)
  moreover have "map_of (ses_tree s) k = Some e"
    using assms(1) e(1) \<open>key = k\<close> by (simp add: session_ok_def)
  ultimately show ?r using e(2) by (auto simp: contents_def entry_of_def)
next
  assume ?r
  then obtain c e where "map_of (ses_tree s) k = Some e" "mem_kind e = MemFile" "mem_content e = Some c"
    "n = int (length c)" "d = fileDigest sha c"
    by (auto simp: contents_def split: option.splits if_splits)
  moreover from this have "(k, e) \<in> set (ses_tree s)" by (simp add: map_of_SomeD)
  ultimately show ?l using assms(2)
    by (force simp: tree_entries_def entry_of_def named_paths_def)
qed

theorem snapshot_identifies_files:
  assumes "session_ok s" and "session_ok t" and "sessions_separated lc sha s t"
    and "session_snapshot lc sha s = Inr x" and "session_snapshot lc sha t = Inr y"
    and "snap_digest x = snap_digest y"
  shows "contents s |` named_paths = contents t |` named_paths"
proof -
  have "normalize_json (snapshot_json (ses_root s) (sorted_entries lc sha s)) =
      normalize_json (snapshot_json (ses_root t) (sorted_entries lc sha t))"
  proof -
    have free: "collision_free sha (snapshot_json (ses_root s) (sorted_entries lc sha s))
        (snapshot_json (ses_root t) (sorted_entries lc sha t))"
      using assms(3) by (simp add: sessions_separated_def)
    have "json_digest sha (snapshot_json (ses_root s) (sorted_entries lc sha s)) =
        json_digest sha (snapshot_json (ses_root t) (sorted_entries lc sha t))"
      using session_snapshot_Inr [OF assms(4)] session_snapshot_Inr [OF assms(5)] assms(6) by simp
    then show ?thesis using json_digest_eq_iff [OF _ _ free] by simp
  qed
  then have "sorted_entries lc sha s = sorted_entries lc sha t" using snapshot_json_inject by blast
  then have "set (sorted_entries lc sha s) = set (sorted_entries lc sha t)" by simp
  then have same: "set (tree_entries sha (ses_tree s)) = set (tree_entries sha (ses_tree t))"
    by (simp add: sorted_entries_def)
  have "contents s k = contents t k" if "k \<in> named_paths" for k
  proof -
    have iff: "(\<exists>c. contents s k = Some c \<and> n = int (length c) \<and> d = fileDigest sha c) \<longleftrightarrow>
        (\<exists>c. contents t k = Some c \<and> n = int (length c) \<and> d = fileDigest sha c)" for n d
      using file_entry_listed [OF assms(1) that] file_entry_listed [OF assms(2) that] same by metis
    show ?thesis
    proof (cases "contents s k")
      case None
      then show ?thesis using iff by (cases "contents t k") auto
    next
      case (Some c)
      then obtain d where d: "contents t k = Some d" "fileDigest sha c = fileDigest sha d"
        using iff [of "int (length c)" "fileDigest sha c"] by auto
      then have "c = d" using Some assms(3) by (simp add: sessions_separated_def fileDigest_def)
      then show ?thesis using Some d by simp
    qed
  qed
  then show ?thesis by (auto simp: restrict_map_def)
qed

end
