(* ===== verification/Apply_Checks.thy ===== *)
theory Apply_Checks
  imports Plan_Types Sandbox_Snapshot
begin

text \<open>
  \<open>packages/apply/src/approval-validation.ts\<close>, \<open>drift-checks.ts\<close> and the types they use: what an
  approval must satisfy, and the operations a plan asks for. \<open>parse\<close> is \<open>Date.parse\<close>.
\<close>

section \<open>Types\<close>

datatype apply_operation =
  CreateFile | ReplaceFile | DeleteFile | CreateDirectory | RemoveEmptyDirectory

fun apply_operation_name :: "apply_operation \<Rightarrow> string" where
  "apply_operation_name CreateFile = ''create-file''"
| "apply_operation_name ReplaceFile = ''replace-file''"
| "apply_operation_name DeleteFile = ''delete-file''"
| "apply_operation_name CreateDirectory = ''create-directory''"
| "apply_operation_name RemoveEmptyDirectory = ''remove-empty-directory''"

record approval_limits =
  lim_maxFiles :: int
  lim_maxBytes :: int
  lim_maxOperations :: int
  lim_maxDurationSeconds :: int

datatype approver_kind = AgentApprover | ServiceApprover | UserApprover

fun approver_kind_name :: "approver_kind \<Rightarrow> string" where
  "approver_kind_name AgentApprover = ''agent''"
| "approver_kind_name ServiceApprover = ''service''"
| "approver_kind_name UserApprover = ''user''"

record apply_approval =
  apv_approvalId :: string
  apv_executionPlanId :: string
  apv_executionPlanDigest :: string
  apv_projectSnapshotId :: string
  apv_policySnapshotId :: string
  apv_allowedOperations :: "apply_operation list"
  apv_allowedPaths :: "string list"
  apv_allowedCommandIds :: "string list"
  apv_allowedNetworkHosts :: "string list"
  apv_limits :: approval_limits
  apv_expiresAt :: string
  apv_approverId :: string
  apv_approverKind :: approver_kind
  apv_nonce :: string
  apv_integrityDigest :: string

record planned_operation =
  pop_index :: int
  pop_operation :: apply_operation
  pop_path :: string
  pop_contentDigest :: "string option"

definition ApplyError :: "string \<Rightarrow> string \<Rightarrow> exn" where
  "ApplyError code msg = Exn ''ApplyError'' code msg"

lemma ApplyError_eq [simp]: "ApplyError c m = ApplyError c' m' \<longleftrightarrow> c = c' \<and> m = m'"
  by (simp add: ApplyError_def)

section \<open>The approval\<close>

definition limits_json :: "approval_limits \<Rightarrow> json" where
  "limits_json l = JObj [(''maxFiles'', JInt (lim_maxFiles l)), (''maxBytes'', JInt (lim_maxBytes l)),
     (''maxOperations'', JInt (lim_maxOperations l)),
     (''maxDurationSeconds'', JInt (lim_maxDurationSeconds l))]"

definition approvalIntegrityPayload :: "apply_approval \<Rightarrow> json" where
  "approvalIntegrityPayload a = JObj [
     (''approvalId'', JStr (apv_approvalId a)),
     (''executionPlanId'', JStr (apv_executionPlanId a)),
     (''executionPlanDigest'', JStr (apv_executionPlanDigest a)),
     (''projectSnapshotId'', JStr (apv_projectSnapshotId a)),
     (''policySnapshotId'', JStr (apv_policySnapshotId a)),
     (''allowedOperations'', strs_json (sort (map apply_operation_name (apv_allowedOperations a)))),
     (''allowedPaths'', strs_json (sort (apv_allowedPaths a))),
     (''allowedCommandIds'', strs_json (sort (apv_allowedCommandIds a))),
     (''allowedNetworkHosts'', strs_json (sort (apv_allowedNetworkHosts a))),
     (''limits'', limits_json (apv_limits a)),
     (''expiresAt'', JStr (apv_expiresAt a)),
     (''approver'', JObj [(''id'', JStr (apv_approverId a)),
        (''kind'', JStr (approver_kind_name (apv_approverKind a)))]),
     (''nonce'', JStr (apv_nonce a))]"

definition computeApprovalIntegrityDigest :: "(string \<Rightarrow> string) \<Rightarrow> apply_approval \<Rightarrow> string result" where
  "computeApprovalIntegrityDigest sha a = digestJson sha (approvalIntegrityPayload a)"

definition approval_text :: "apply_approval \<Rightarrow> string \<Rightarrow> string" where
  "approval_text a rest = ''Approval '' @ apv_approvalId a @ rest"

definition assertApprovalIntegrity :: "(string \<Rightarrow> string) \<Rightarrow> apply_approval \<Rightarrow> unit result" where
  "assertApprovalIntegrity sha a = chain (computeApprovalIntegrityDigest sha a)
     (\<lambda>expected. guard (expected \<noteq> apv_integrityDigest a)
       (ApplyError ''APPLY_APPROVAL_DIGEST_MISMATCH''
         (approval_text a '' integrity digest does not match its payload.'')))"

definition assertApprovalNotExpired :: "(string \<Rightarrow> int option) \<Rightarrow> apply_approval \<Rightarrow> int \<Rightarrow> unit result" where
  "assertApprovalNotExpired parse a nowMs = (case parse (apv_expiresAt a) of
     None \<Rightarrow> Inl (ApplyError ''APPLY_APPROVAL_MISSING'' (approval_text a '' has an invalid expiration.''))
   | Some expiresAtMs \<Rightarrow> guard (nowMs > expiresAtMs)
       (ApplyError ''APPLY_APPROVAL_EXPIRED''
         (approval_text a ('' expired at '' @ apv_expiresAt a @ ''.''))))"

definition quoted_name :: "string \<Rightarrow> string" where
  "quoted_name s = CHR 0x22 # s @ [CHR 0x22]"

definition assertOperationAllowed :: "apply_approval \<Rightarrow> apply_operation \<Rightarrow> unit result" where
  "assertOperationAllowed a operation = guard (operation \<notin> set (apv_allowedOperations a))
     (ApplyError ''APPLY_APPROVAL_OPERATION_DENIED'' (''Operation '' @
       quoted_name (apply_operation_name operation) @ '' is not allowed by approval '' @
       apv_approvalId a @ ''.''))"

definition assertPathAllowedByApproval :: "apply_approval \<Rightarrow> string \<Rightarrow> unit result" where
  "assertPathAllowedByApproval a path =
     guard (\<not> list_ex (\<lambda>allowedPath. at_or_below (slashes path) (slashes allowedPath))
         (apv_allowedPaths a))
       (ApplyError ''APPLY_APPROVAL_PATH_DENIED'' (''Path '' @ quoted_name path @
         '' is not allowed by approval '' @ apv_approvalId a @ ''.''))"

definition assertNoCommands :: "apply_approval \<Rightarrow> unit result" where
  "assertNoCommands a = guard (apv_allowedCommandIds a \<noteq> [])
     (ApplyError ''APPLY_APPROVAL_COMMAND_DENIED''
       (approval_text a '' requests command execution, which is disabled in Phase 9.''))"

definition assertNoNetwork :: "apply_approval \<Rightarrow> unit result" where
  "assertNoNetwork a = guard (apv_allowedNetworkHosts a \<noteq> [])
     (ApplyError ''APPLY_APPROVAL_NETWORK_DENIED''
       (approval_text a '' requests network access, which is disabled in Phase 9.''))"

definition limit_error :: "apply_approval \<Rightarrow> string \<Rightarrow> exn" where
  "limit_error a what = ApplyError ''APPLY_APPROVAL_LIMIT_EXCEEDED''
     (approval_text a ('' requests more '' @ what @ '' than the sandbox policy allows.''))"

definition assertLimitsWithinPolicy :: "apply_approval \<Rightarrow> sandbox_policy \<Rightarrow> unit result" where
  "assertLimitsWithinPolicy a policy =
     (let limits = apv_limits a in
      if lim_maxFiles limits > sp_maxFiles policy then Inl (limit_error a ''files'')
      else if lim_maxBytes limits > sp_maxBytes policy then Inl (limit_error a ''bytes'')
      else if lim_maxOperations limits > sp_maxOperations policy then Inl (limit_error a ''operations'')
      else if lim_maxDurationSeconds limits > sp_maxDurationSeconds policy
      then Inl (limit_error a ''time'') else Inr ())"

section \<open>Drift\<close>

definition assertApprovalBindsPlan :: "apply_approval \<Rightarrow> execution_plan \<Rightarrow> unit result" where
  "assertApprovalBindsPlan a plan =
     (if apv_executionPlanId a \<noteq> ep_executionPlanId plan
      then Inl (ApplyError ''APPLY_DRIFT_PLAN'' (approval_text a ('' is bound to plan '' @
        apv_executionPlanId a @ '', but the current plan is '' @ ep_executionPlanId plan @ ''.'')))
      else if apv_executionPlanDigest a \<noteq> ep_immutableDigest plan
      then Inl (ApplyError ''APPLY_DRIFT_PLAN'' (approval_text a ('' is bound to plan digest '' @
        apv_executionPlanDigest a @ '', but the current plan digest is '' @
        ep_immutableDigest plan @ ''.'')))
      else Inr ())"

definition assertApprovalBindsProject :: "apply_approval \<Rightarrow> string \<Rightarrow> unit result" where
  "assertApprovalBindsProject a snapshotId = guard (apv_projectSnapshotId a \<noteq> snapshotId)
     (ApplyError ''APPLY_DRIFT_PROJECT'' (approval_text a ('' is bound to project snapshot '' @
       apv_projectSnapshotId a @ '', but the current snapshot is '' @ snapshotId @ ''.'')))"

definition assertApprovalBindsPolicy :: "apply_approval \<Rightarrow> string \<Rightarrow> unit result" where
  "assertApprovalBindsPolicy a digest = guard (apv_policySnapshotId a \<noteq> digest)
     (ApplyError ''APPLY_DRIFT_POLICY'' (approval_text a ('' is bound to policy snapshot '' @
       apv_policySnapshotId a @ '', but the current snapshot is '' @ digest @ ''.'')))"

definition assertPlanApplyMode :: "execution_plan \<Rightarrow> unit result" where
  "assertPlanApplyMode plan =
     (if ep_mode plan \<noteq> ModeApply
      then Inl (ApplyError ''APPLY_DRIFT_PLAN''
        (''Plan '' @ ep_executionPlanId plan @ '' is not an apply-mode plan.''))
      else if \<not> pa_required (ep_approval plan)
      then Inl (ApplyError ''APPLY_APPROVAL_MISSING''
        (''Plan '' @ ep_executionPlanId plan @ '' does not require approval.''))
      else Inr ())"

fun planOperationFor :: "change_operation \<Rightarrow> apply_operation" where
  "planOperationFor ChangeCreate = CreateFile"
| "planOperationFor ChangeDelete = DeleteFile"
| "planOperationFor ChangeUpdate = ReplaceFile"

definition number_compare :: "int \<Rightarrow> int \<Rightarrow> int" where
  "number_compare left right = left - right"

definition operationsFromPlan :: "execution_plan \<Rightarrow> planned_operation list" where
  "operationsFromPlan plan =
     js_sort (cmp_by number_compare pop_index)
       (map (\<lambda>(index, change). \<lparr>pop_index = int index,
          pop_operation = planOperationFor (fc_operation change), pop_path = fc_path change,
          pop_contentDigest = fc_contentDigest change\<rparr>)
        (enumerate 0 (ep_fileChanges plan)))"

end
