(* ===== verification/Apply_Service.thy ===== *)
theory Apply_Service
  imports Apply_Checks
begin

text \<open>
  \<open>packages/apply/src/apply-service.ts\<close>: preparing, applying, cancelling and rolling back.

  The service is the state \<open>apply_service\<close>. A sandbox is used through the record of operations
  \<open>sandbox_ops\<close>, the interface \<open>SandboxSession\<close>. \<open>apply\<close> is asynchronous, so other calls can run
  while it waits: the argument \<open>interrupts\<close> tells before which of its reads of the cancelled runs
  \<open>cancel\<close> was called for its run. A preparation carries the reference of its object. \<open>prepare\<close>
  freezes the object and its two arrays, but not the elements of the arrays, the VCS state and the
  input it was made from, which the caller shares with the service: the service holds their
  present contents, and two preparations are the same object (\<open>same_object\<close>) when they agree on
  the reference and on all that is frozen. The sink of evidence is an in-memory list; a \<open>Date\<close> is its
  ISO string, of the \<open>k\<close>-th reading of the clock.
\<close>

section \<open>Types\<close>

datatype gate_status = GatePassed | GateFailed

record apply_gate =
  gate_code :: string
  gate_status :: gate_status
  gate_message :: string

record vcs_state =
  vcs_detected :: bool
  vcs_root :: "string option"
  vcs_branch :: "string option"
  vcs_commit :: "string option"
  vcs_dirty :: bool
  vcs_protectedBranch :: bool
  vcs_reasons :: "string list"

record prepare_input =
  pin_executionPlan :: execution_plan
  pin_approval :: apply_approval
  pin_projectSnapshotId :: string
  pin_policyDigest :: string
  pin_sandboxPolicy :: sandbox_policy
  pin_vcsState :: vcs_state

record apply_preparation =
  prep_ref :: nat
  prep_runId :: string
  prep_preparedAt :: string
  prep_executionPlanId :: string
  prep_executionPlanDigest :: string
  prep_projectSnapshotId :: string
  prep_policySnapshotId :: string
  prep_sandboxPolicyId :: string
  prep_vcsState :: vcs_state
  prep_approvalNonce :: string
  prep_gates :: "apply_gate list"
  prep_operations :: "planned_operation list"
  prep_ready :: bool

text \<open>The reference of a preparation with what \<open>Object.freeze\<close> protects of it.\<close>

definition frozen_fields :: "apply_preparation \<Rightarrow> (nat \<times> string list) \<times> bool \<times> nat \<times> nat" where
  "frozen_fields p = ((prep_ref p, [prep_runId p, prep_preparedAt p, prep_executionPlanId p,
     prep_executionPlanDigest p, prep_projectSnapshotId p, prep_policySnapshotId p,
     prep_sandboxPolicyId p, prep_approvalNonce p]),
     prep_ready p, length (prep_gates p), length (prep_operations p))"

definition same_object :: "apply_preparation \<Rightarrow> apply_preparation \<Rightarrow> bool" where
  "same_object p q \<longleftrightarrow> frozen_fields p = frozen_fields q"

lemma same_object_refl [simp]: "same_object p p"
  by (simp add: same_object_def)

lemma same_object_fields:
  assumes "same_object p q"
  shows "prep_runId p = prep_runId q" and "prep_approvalNonce p = prep_approvalNonce q"
    and "prep_ready p = prep_ready q"
  using assms by (simp_all add: same_object_def frozen_fields_def)

record stored_preparation =
  sto_preparation :: apply_preparation
  sto_input :: prepare_input
  sto_consumed :: bool

datatype operation_status = OpApplied | OpBlocked | OpFailed | OpSkipped

record operation_event =
  oev_index :: int
  oev_path :: string
  oev_operation :: apply_operation
  oev_status :: operation_status

record rollback_record =
  rbk_operationIndex :: int
  rbk_path :: string
  rbk_reverted :: bool
  rbk_verified :: bool
  rbk_error :: "string option"

record apply_diff =
  adf_path :: string
  adf_kind :: diff_kind
  adf_before :: "string option"
  adf_after :: "string option"
  adf_operation :: string

record evidence_event =
  evd_kind :: string
  evd_recordedAt :: string
  evd_runId :: string
  evd_redacted :: bool
  evd_detail :: "json option"

record crash_state =
  crs_runId :: string
  crs_sandboxId :: string
  crs_executionPlanId :: string
  crs_executionPlanDigest :: string
  crs_startedAt :: string
  crs_lastOperationIndex :: int
  crs_operationsApplied :: int
  crs_rollbackRecords :: "rollback_record list"
  crs_beforeSnapshotDigest :: string
  crs_recoverable :: bool
  crs_recordedAt :: string

datatype apply_status = Applied | Cancelled | RolledBack | RollbackFailed

record apply_result =
  res_runId :: string
  res_status :: apply_status
  res_startedAt :: string
  res_completedAt :: string
  res_executionPlanId :: string
  res_executionPlanDigest :: string
  res_sandboxId :: string
  res_beforeSnapshotDigest :: string
  res_afterSnapshotDigest :: "string option"
  res_diff :: "apply_diff list"
  res_rollback :: "rollback_record list"
  res_operations :: "operation_event list"
  res_cancelled :: bool
  res_recoverable :: bool
  res_errors :: "string list"

datatype rollback_status = RunRolledBack | RunRollbackFailed | RunNotNeeded

record rollback_result =
  rbr_runId :: string
  rbr_status :: rollback_status
  rbr_reverted :: int
  rbr_verified :: int
  rbr_failed :: int
  rbr_errors :: "string list"
  rbr_verifiedDigest :: "string option"

type_synonym rollback_contents = "(int \<times> string option) list"

record apply_service =
  svc_preparations :: "(string \<times> stored_preparation) list"
  svc_usedApprovals :: "string list"
  svc_cancelledRuns :: "string list"
  svc_crashStates :: "(string \<times> crash_state) list"
  svc_rollbackContents :: "(string \<times> rollback_contents) list"
  svc_evidence :: "evidence_event list"
  svc_nextRef :: nat
  svc_ticks :: nat

record 's sandbox_ops =
  sbx_read :: "'s \<Rightarrow> string \<Rightarrow> string result"
  sbx_write :: "string \<Rightarrow> string \<Rightarrow> ('s, unit) effect"
  sbx_remove :: "string \<Rightarrow> ('s, unit) effect"
  sbx_snapshot :: "'s \<Rightarrow> sandbox_snapshot result"
  sbx_close :: "'s \<Rightarrow> 's"

text \<open>
  What the service is constructed with and uses of the host. \<open>ah_enabled\<close> is whether it holds
  the test capability; the provider is \<open>None\<close> where none is configured.
\<close>

record 's apply_host =
  ah_enabled :: bool
  ah_now :: "nat \<Rightarrow> int"
  ah_iso :: "int \<Rightarrow> string"
  ah_parse :: "string \<Rightarrow> int option"
  ah_sha :: "string \<Rightarrow> string"
  ah_collate :: "string \<Rightarrow> string \<Rightarrow> int"
  ah_ops :: "'s sandbox_ops"
  ah_provider :: "(sandbox_policy \<Rightarrow> string \<Rightarrow> string \<Rightarrow> 's result) option"

section \<open>Clock and evidence\<close>

definition now_of :: "'s apply_host \<Rightarrow> apply_service \<Rightarrow> int" where
  "now_of host st = ah_now host (svc_ticks st)"

definition tick :: "apply_service \<Rightarrow> apply_service" where
  "tick st = st\<lparr>svc_ticks := svc_ticks st + 1\<rparr>"

definition emit :: "evidence_event \<Rightarrow> apply_service \<Rightarrow> apply_service" where
  "emit event st = st\<lparr>svc_evidence := svc_evidence st @ [event]\<rparr>"

definition evidence :: "string \<Rightarrow> string \<Rightarrow> string \<Rightarrow> json option \<Rightarrow> evidence_event" where
  "evidence kind at runId detail = \<lparr>evd_kind = kind, evd_recordedAt = at, evd_runId = runId,
     evd_redacted = True, evd_detail = detail\<rparr>"

text \<open>An event recorded at the next reading of the clock.\<close>

definition emit_now :: "'s apply_host \<Rightarrow> string \<Rightarrow> string \<Rightarrow> json option \<Rightarrow> apply_service \<Rightarrow> apply_service" where
  "emit_now host kind runId detail st =
     emit (evidence kind (ah_iso host (now_of host st)) runId detail) (tick st)"

section \<open>Preparing\<close>

definition assertApplyEnabled :: "'s apply_host \<Rightarrow> unit result" where
  "assertApplyEnabled host = guard (\<not> ah_enabled host) (ApplyError ''APPLY_DISABLED''
     ''Apply is disabled. Public exposure requires coordinator review and approval.'')"

text \<open>\<open>#gate\<close>: the outcome of a check as a gate.\<close>

definition gate_of :: "string \<Rightarrow> unit result \<Rightarrow> apply_gate" where
  "gate_of code outcome = (case outcome of
     Inr _ \<Rightarrow> \<lparr>gate_code = code, gate_status = GatePassed,
       gate_message = ''Gate '' @ quoted_name code @ '' passed.''\<rparr>
   | Inl e \<Rightarrow> \<lparr>gate_code = code, gate_status = GateFailed, gate_message = exn_message e\<rparr>)"

definition operation_gate_code :: "planned_operation \<Rightarrow> string" where
  "operation_gate_code operation = ''operation.'' @ int_str (pop_index operation)"

definition check_one_time :: "string list \<Rightarrow> string \<Rightarrow> unit result" where
  "check_one_time used nonce = guard (nonce \<in> set used) (ApplyError ''APPLY_APPROVAL_REPLAYED''
     (''Approval nonce '' @ nonce @ '' has already been used.''))"

definition check_plan :: "apply_approval \<Rightarrow> execution_plan \<Rightarrow> unit result" where
  "check_plan approval plan = chain (assertPlanApplyMode plan) (\<lambda>_. assertApprovalBindsPlan approval plan)"

definition check_execution_denied :: "apply_approval \<Rightarrow> unit result" where
  "check_execution_denied approval = chain (assertNoCommands approval) (\<lambda>_. assertNoNetwork approval)"

definition check_vcs :: "vcs_state \<Rightarrow> unit result" where
  "check_vcs vcs = guard (vcs_protectedBranch vcs) (ApplyError ''APPLY_DRIFT_PROJECT''
     (''Workspace is on protected branch '' @
       (case vcs_branch vcs of None \<Rightarrow> ''unknown'' | Some b \<Rightarrow> b) @ ''.''))"

definition check_operation :: "apply_approval \<Rightarrow> planned_operation \<Rightarrow> unit result" where
  "check_operation approval operation =
     chain (assertOperationAllowed approval (pop_operation operation))
     (\<lambda>_. assertPathAllowedByApproval approval (pop_path operation))"

definition prepare_gates :: "'s apply_host \<Rightarrow> string list \<Rightarrow> int \<Rightarrow> prepare_input \<Rightarrow> apply_gate list" where
  "prepare_gates host used now input =
     (let approval = pin_approval input; plan = pin_executionPlan input in
      [gate_of ''approval.integrity'' (assertApprovalIntegrity (ah_sha host) approval),
       gate_of ''approval.expiration'' (assertApprovalNotExpired (ah_parse host) approval now),
       gate_of ''approval.one-time'' (check_one_time used (apv_nonce approval)),
       gate_of ''drift.plan'' (check_plan approval plan),
       gate_of ''drift.project'' (assertApprovalBindsProject approval (pin_projectSnapshotId input)),
       gate_of ''drift.policy'' (assertApprovalBindsPolicy approval (pin_policyDigest input)),
       gate_of ''execution.denied'' (check_execution_denied approval),
       gate_of ''vcs.isolation'' (check_vcs (pin_vcsState input)),
       gate_of ''limits.within-policy'' (assertLimitsWithinPolicy approval (pin_sandboxPolicy input))] @
      map (\<lambda>operation. gate_of (operation_gate_code operation) (check_operation approval operation))
        (operationsFromPlan plan))"

definition preparation_of :: "'s apply_host \<Rightarrow> string list \<Rightarrow> int \<Rightarrow> nat \<Rightarrow> prepare_input \<Rightarrow> apply_preparation" where
  "preparation_of host used now ref input =
     (let gates = prepare_gates host used now input in
      \<lparr>prep_ref = ref,
       prep_runId = ''run_'' @ take 16 (apv_nonce (pin_approval input)),
       prep_preparedAt = ah_iso host now,
       prep_executionPlanId = ep_executionPlanId (pin_executionPlan input),
       prep_executionPlanDigest = ep_immutableDigest (pin_executionPlan input),
       prep_projectSnapshotId = pin_projectSnapshotId input,
       prep_policySnapshotId = pin_policyDigest input,
       prep_sandboxPolicyId = sp_policyId (pin_sandboxPolicy input),
       prep_vcsState = pin_vcsState input,
       prep_approvalNonce = apv_nonce (pin_approval input),
       prep_gates = gates, prep_operations = operationsFromPlan (pin_executionPlan input),
       prep_ready = (filter (\<lambda>gate. gate_status gate = GateFailed) gates = [])\<rparr>)"

definition prepared_detail :: "apply_preparation \<Rightarrow> json" where
  "prepared_detail preparation =
     (let failed = int (length (filter (\<lambda>gate. gate_status gate = GateFailed) (prep_gates preparation)))
      in JObj [(''executionPlanId'', JStr (prep_executionPlanId preparation)),
        (''gatesPassed'', JInt (int (length (prep_gates preparation)) - failed)),
        (''gatesFailed'', JInt failed), (''ready'', JBool (prep_ready preparation))])"

definition prepare :: "'s apply_host \<Rightarrow> prepare_input \<Rightarrow> (apply_service, apply_preparation) effect" where
  "prepare host input st =
     proceed (check (assertApplyEnabled host) st)
     (\<lambda>_ st.
        let now = now_of host st;
            preparation = preparation_of host (svc_usedApprovals st) now (svc_nextRef st) input;
            runId = prep_runId preparation;
            st = (tick st)\<lparr>svc_nextRef := svc_nextRef st + 1,
              svc_preparations := AList.update runId \<lparr>sto_preparation = preparation,
                sto_input = input, sto_consumed = False\<rparr> (svc_preparations st)\<rparr>
        in (Inr preparation,
            emit (evidence ''apply.prepared'' (prep_preparedAt preparation) runId
              (Some (prepared_detail preparation))) st))"

section \<open>Cancelling\<close>

definition cancel :: "'s apply_host \<Rightarrow> string \<Rightarrow> apply_service \<Rightarrow> apply_service" where
  "cancel host runId st =
     emit_now host ''apply.cancelled'' runId None
       (st\<lparr>svc_cancelledRuns := set_add (svc_cancelledRuns st) runId\<rparr>)"

definition recoveryRecord :: "apply_service \<Rightarrow> string \<Rightarrow> crash_state option" where
  "recoveryRecord st runId = map_of (svc_crashStates st) runId"

section \<open>Rolling back\<close>

text \<open>The ancestors of a path by decreasing depth: \<open>parts.slice(0, end).join("/")\<close>.\<close>

definition rollback_directories :: "string \<Rightarrow> string list" where
  "rollback_directories path =
     (let parts = js_split (CHR ''/'') path in
      map (\<lambda>n. js_join ''/'' (take n parts)) (rev [1..<length parts]))"

definition rollback_created :: "'s sandbox_ops \<Rightarrow> string list \<Rightarrow> string \<Rightarrow> 's \<Rightarrow> 's" where
  "rollback_created ops preExisting path sandbox =
     foldl (\<lambda>sandbox directory. if directory \<in> set preExisting then sandbox
        else snd (catch_undefined (sbx_remove ops directory sandbox)))
       (snd (catch_undefined (sbx_remove ops path sandbox))) (rollback_directories path)"

record 's rollback_state =
  rst_sandbox :: 's
  rst_records :: "rollback_record list"
  rst_reverted :: int
  rst_verified :: int
  rst_failed :: int
  rst_errors :: "string list"

text \<open>Reverting one operation: what it restores, or the error of the \<open>catch\<close> block.\<close>

definition revert_record :: "'s sandbox_ops \<Rightarrow> string list \<Rightarrow> rollback_contents option \<Rightarrow>
    rollback_record \<Rightarrow> ('s, unit) effect" where
  "revert_record ops preExisting priorContents record sandbox =
     (case priorContents of
        None \<Rightarrow> (Inl (ApplyError ''APPLY_ROLLBACK_FAILED''
          (''Missing rollback content for operation '' @ int_str (rbk_operationIndex record) @ ''.'')), sandbox)
      | Some kept \<Rightarrow>
          (case map_of kept (rbk_operationIndex record) of
             None \<Rightarrow> (Inl (ApplyError ''APPLY_ROLLBACK_FAILED''
               (''Missing rollback content for operation '' @ int_str (rbk_operationIndex record) @ ''.'')),
               sandbox)
           | Some prior \<Rightarrow>
               if rbk_reverted record then (Inr (), sandbox)
               else (case prior of
                   None \<Rightarrow> (Inr (), rollback_created ops preExisting (rbk_path record) sandbox)
                 | Some content \<Rightarrow> sbx_write ops (rbk_path record) content sandbox)))"

definition rollback_step :: "'s sandbox_ops \<Rightarrow> string list \<Rightarrow> rollback_contents option \<Rightarrow>
    's rollback_state \<Rightarrow> rollback_record \<Rightarrow> 's rollback_state" where
  "rollback_step ops preExisting priorContents s record =
     (case revert_record ops preExisting priorContents record (rst_sandbox s) of
        (Inr _, sandbox) \<Rightarrow> s\<lparr>rst_sandbox := sandbox,
          rst_records := rst_records s @ [record\<lparr>rbk_reverted := True, rbk_verified := True\<rparr>],
          rst_reverted := rst_reverted s + (if rbk_reverted record then 0 else 1),
          rst_verified := rst_verified s + 1\<rparr>
      | (Inl e, sandbox) \<Rightarrow> s\<lparr>rst_sandbox := sandbox,
          rst_records := rst_records s @ [record\<lparr>rbk_error := Some (exn_message e)\<rparr>],
          rst_failed := rst_failed s + 1, rst_errors := rst_errors s @ [exn_message e]\<rparr>)"

definition rollback_order :: "rollback_record list \<Rightarrow> rollback_record list" where
  "rollback_order records = js_sort (\<lambda>left right. rbk_operationIndex right - rbk_operationIndex left) records"

text \<open>The digest after the rollback, where it is the digest of the state before.\<close>

definition verified_digest :: "'s sandbox_ops \<Rightarrow> 's \<Rightarrow> string \<Rightarrow> string option" where
  "verified_digest ops sandbox before = (case sbx_snapshot ops sandbox of
     Inr after \<Rightarrow> if snap_digest after = before then Some (snap_digest after) else None
   | Inl _ \<Rightarrow> None)"

text \<open>
  \<open>#rollbackInSandbox\<close>. The last two results are the sandbox and the records, which the code
  updates in place.
\<close>

definition rollbackInSandbox :: "'s apply_host \<Rightarrow> string \<Rightarrow> 's \<Rightarrow> rollback_record list \<Rightarrow> string \<Rightarrow>
    string list \<Rightarrow> apply_service \<Rightarrow>
    (rollback_result \<times> 's \<times> rollback_record list) \<times> apply_service" where
  "rollbackInSandbox host runId sandbox records beforeDigest preExisting st =
     (let ops = ah_ops host;
          s = foldl (rollback_step ops preExisting (map_of (svc_rollbackContents st) runId))
            \<lparr>rst_sandbox = sandbox, rst_records = [], rst_reverted = 0, rst_verified = 0,
             rst_failed = 0, rst_errors = []\<rparr> (rollback_order records);
          verifiedDigest = verified_digest ops (rst_sandbox s) beforeDigest;
          failed = rst_failed s + (if verifiedDigest = None then 1 else 0);
          errors = rst_errors s @ (if verifiedDigest = None
            then [''Rollback snapshot does not match the before-state digest '' @ beforeDigest @ ''.'']
            else []);
          st = emit_now host ''apply.rollback'' runId (Some (JObj [
            (''reverted'', JInt (rst_reverted s)), (''verified'', JInt (rst_verified s)),
            (''failed'', JInt failed)])) st;
          status = (if failed > 0 then RunRollbackFailed
            else if rst_reverted s > 0 then RunRolledBack else RunNotNeeded)
      in ((\<lparr>rbr_runId = runId, rbr_status = status, rbr_reverted = rst_reverted s,
            rbr_verified = rst_verified s, rbr_failed = failed, rbr_errors = errors,
            rbr_verifiedDigest = verifiedDigest\<rparr>,
           rst_sandbox s, rst_records s), st))"

definition createSandbox :: "'s apply_host \<Rightarrow> string \<Rightarrow> string option \<Rightarrow> apply_service \<Rightarrow> 's result" where
  "createSandbox host sandboxId runId st = (case ah_provider host of
     None \<Rightarrow> Inl (ApplyError ''APPLY_INPUT_INVALID''
       (''No sandbox provider configured for '' @ sandboxId @ ''.''))
   | Some provider \<Rightarrow>
       (case Option.bind runId (map_of (svc_preparations st)) of
          None \<Rightarrow> Inl (ApplyError ''APPLY_INPUT_INVALID'' ''Sandbox policy is unavailable.'')
        | Some stored \<Rightarrow> provider (pin_sandboxPolicy (sto_input stored)) (''/sandbox/'' @ sandboxId) sandboxId))"


text \<open>The public \<open>rollback\<close>, which creates its sandbox without a run.\<close>

record rollback_input =
  rin_runId :: string
  rin_sandboxId :: string
  rin_rollbackRecords :: "rollback_record list"
  rin_beforeSnapshotDigest :: string

definition rollback :: "'s apply_host \<Rightarrow> rollback_input \<Rightarrow> (apply_service, rollback_result) effect" where
  "rollback host input st =
     proceed (check (createSandbox host (rin_sandboxId input) None st) st)
     (\<lambda>sandbox st.
        let ((result, sandbox, records), st) = rollbackInSandbox host (rin_runId input) sandbox
              (rin_rollbackRecords input) (rin_beforeSnapshotDigest input) [] st
        in (Inr result, st))"

section \<open>Applying\<close>

record apply_input =
  ain_preparation :: apply_preparation
  ain_sandboxId :: string

text \<open>When \<open>cancel\<close> is called for the run while \<open>apply\<close> waits.\<close>

record apply_interrupts =
  int_operation :: "int \<Rightarrow> bool"
  int_rollback :: bool
  int_completion :: bool

definition interrupted :: "'s apply_host \<Rightarrow> string \<Rightarrow> bool \<Rightarrow> apply_service \<Rightarrow> apply_service" where
  "interrupted host runId now st = (if now then cancel host runId st else st)"

definition digestBytes :: "(string \<Rightarrow> string) \<Rightarrow> string \<Rightarrow> string" where
  "digestBytes sha content = ''sha256:'' @ sha content"

definition assertOperationAllowedGate :: "apply_preparation \<Rightarrow> planned_operation \<Rightarrow> unit result" where
  "assertOperationAllowedGate preparation operation =
     (case find (\<lambda>gate. gate_code gate = operation_gate_code operation) (prep_gates preparation) of
        None \<Rightarrow> Inl (ApplyError ''APPLY_NOT_READY''
          (''Operation gate for '' @ pop_path operation @ '' is not passed.''))
      | Some gate \<Rightarrow> guard (gate_status gate \<noteq> GatePassed) (ApplyError ''APPLY_NOT_READY''
          (''Operation gate for '' @ pop_path operation @ '' is not passed.'')))"

text \<open>The local variables of \<open>apply\<close> during its loop, with the service it shares.\<close>

record 's run_state =
  run_service :: apply_service
  run_sandbox :: 's
  run_events :: "operation_event list"
  run_records :: "rollback_record list"

definition operation_event_of :: "planned_operation \<Rightarrow> operation_status \<Rightarrow> operation_event" where
  "operation_event_of operation status = \<lparr>oev_index = pop_index operation,
     oev_path = pop_path operation, oev_operation = pop_operation operation, oev_status = status\<rparr>"

definition push_event :: "planned_operation \<Rightarrow> operation_status \<Rightarrow> 's run_state \<Rightarrow> 's run_state" where
  "push_event operation status s = s\<lparr>run_events := run_events s @ [operation_event_of operation status]\<rparr>"

text \<open>\<open>recordRollback\<close>: the prior content and a record to revert the operation by.\<close>

definition recordRollback :: "string \<Rightarrow> planned_operation \<Rightarrow> string option \<Rightarrow> 's run_state \<Rightarrow> 's run_state" where
  "recordRollback runId operation prior s =
     (let st = run_service s;
          kept = (case map_of (svc_rollbackContents st) runId of None \<Rightarrow> [] | Some k \<Rightarrow> k)
      in s\<lparr>run_service := st\<lparr>svc_rollbackContents := AList.update runId
             (AList.update (pop_index operation) prior kept) (svc_rollbackContents st)\<rparr>,
           run_records := run_records s @ [\<lparr>rbk_operationIndex = pop_index operation,
             rbk_path = pop_path operation, rbk_reverted = False, rbk_verified = False,
             rbk_error = None\<rparr>]\<rparr>)"

definition on_sandbox :: "('s, unit) effect \<Rightarrow> ('s run_state, unit) effect" where
  "on_sandbox act s = (let (r, sandbox) = act (run_sandbox s) in (r, s\<lparr>run_sandbox := sandbox\<rparr>))"

definition captureBefore :: "'s sandbox_ops \<Rightarrow> 's \<Rightarrow> string \<Rightarrow> string option" where
  "captureBefore ops sandbox path = (case sbx_read ops sandbox path of Inr c \<Rightarrow> Some c | Inl _ \<Rightarrow> None)"

definition write_operation :: "'s apply_host \<Rightarrow> (string \<Rightarrow> string result) \<Rightarrow> string \<Rightarrow> planned_operation \<Rightarrow>
    string option \<Rightarrow> ('s run_state, unit) effect" where
  "write_operation host contentProvider runId operation prior s =
     proceed (check (contentProvider (pop_path operation)) s)
     (\<lambda>content s. proceed (check (case pop_contentDigest operation of
          None \<Rightarrow> Inr ()
        | Some digest \<Rightarrow> guard (digestBytes (ah_sha host) content \<noteq> digest) (ApplyError ''APPLY_DRIFT_PLAN''
            (''Content for '' @ pop_path operation @ '' does not match the immutable plan digest.''))) s)
     (\<lambda>_ s. proceed (on_sandbox (sbx_write (ah_ops host) (pop_path operation) content)
        (recordRollback runId operation prior s))
     (\<lambda>_ s. (Inr (), push_event operation OpApplied s))))"

definition delete_operation :: "'s apply_host \<Rightarrow> string \<Rightarrow> planned_operation \<Rightarrow> string option \<Rightarrow>
    ('s run_state, unit) effect" where
  "delete_operation host runId operation prior s =
     proceed (check (guard (prior = None) (ApplyError ''APPLY_DRIFT_PLAN''
       (''Cannot delete '' @ pop_path operation @ '': file does not exist.''))) s)
     (\<lambda>_ s. proceed (on_sandbox (sbx_remove (ah_ops host) (pop_path operation))
        (recordRollback runId operation prior s))
     (\<lambda>_ s. (Inr (), push_event operation OpApplied s)))"

text \<open>One turn of the loop; a plan has no operations of the last two kinds.\<close>

definition apply_operation_step :: "'s apply_host \<Rightarrow> apply_interrupts \<Rightarrow> (string \<Rightarrow> string result) \<Rightarrow>
    apply_preparation \<Rightarrow> planned_operation \<Rightarrow> ('s run_state, unit) effect" where
  "apply_operation_step host interrupts contentProvider preparation operation s =
     (let runId = prep_runId preparation;
          s = s\<lparr>run_service :=
            interrupted host runId (int_operation interrupts (pop_index operation)) (run_service s)\<rparr>
      in if runId \<in> set (svc_cancelledRuns (run_service s))
         then (Inl (ApplyError ''APPLY_CANCELLED'' (''Run '' @ runId @ '' was cancelled.'')),
           push_event operation OpSkipped s)
         else proceed (check (assertOperationAllowedGate preparation operation) s)
           (\<lambda>_ s. let prior = captureBefore (ah_ops host) (run_sandbox s) (pop_path operation) in
              case pop_operation operation of
                CreateFile \<Rightarrow> write_operation host contentProvider runId operation prior s
              | ReplaceFile \<Rightarrow> write_operation host contentProvider runId operation prior s
              | DeleteFile \<Rightarrow> delete_operation host runId operation prior s
              | CreateDirectory \<Rightarrow> (Inr (), s)
              | RemoveEmptyDirectory \<Rightarrow> (Inr (), s)))"

definition applied_events :: "operation_event list \<Rightarrow> operation_event list" where
  "applied_events events = filter (\<lambda>event. oev_status event = OpApplied) events"

definition recordCrashState :: "'s apply_host \<Rightarrow> apply_preparation \<Rightarrow> string \<Rightarrow> sandbox_snapshot \<Rightarrow>
    's run_state \<Rightarrow> apply_service \<Rightarrow> apply_service" where
  "recordCrashState host preparation sandboxId before s st =
     (let runId = prep_runId preparation;
          last_index = (if applied_events (run_events s) = [] then - 1
            else oev_index (last (applied_events (run_events s))));
          record = \<lparr>crs_runId = runId, crs_sandboxId = sandboxId,
            crs_executionPlanId = prep_executionPlanId preparation,
            crs_executionPlanDigest = prep_executionPlanDigest preparation,
            crs_startedAt = prep_preparedAt preparation, crs_lastOperationIndex = last_index,
            crs_operationsApplied = last_index + 1, crs_rollbackRecords = run_records s,
            crs_beforeSnapshotDigest = snap_digest before,
            crs_recoverable = (map_of (svc_rollbackContents st) runId \<noteq> None),
            crs_recordedAt = ah_iso host (now_of host st)\<rparr>
      in emit (evidence ''apply.crash-state'' (crs_recordedAt record) runId (Some (JObj [
           (''lastOperationIndex'', JInt (crs_lastOperationIndex record)),
           (''operationsApplied'', JInt (crs_operationsApplied record)),
           (''recoverable'', JBool (crs_recoverable record))])))
         ((tick st)\<lparr>svc_crashStates := AList.update runId record (svc_crashStates st)\<rparr>))"

text \<open>The digest of a path in a snapshot: \<open>byPath.get(p) ?? null\<close>.\<close>

definition digest_at :: "sandbox_snapshot \<Rightarrow> string \<Rightarrow> string option" where
  "digest_at snapshot p = Option.bind
     (map_of (js_map (map (\<lambda>entry. (ent_path entry, ent_digest entry)) (snap_entries snapshot))) p) id"

definition diffSnapshots :: "(string \<Rightarrow> string \<Rightarrow> int) \<Rightarrow> sandbox_snapshot \<Rightarrow> sandbox_snapshot \<Rightarrow>
    planned_operation list \<Rightarrow> apply_diff list" where
  "diffSnapshots lc before after operations =
     (let paths = (\<lambda>snapshot. map fst (js_map (map (\<lambda>entry. (ent_path entry, ent_digest entry))
            (snap_entries snapshot))));
          operationByPath = js_map (map (\<lambda>operation. (pop_path operation, pop_operation operation)) operations)
      in js_sort (cmp_by lc adf_path) (concat (map (\<lambda>p.
          let b = digest_at before p; a = digest_at after p in
          if b = a then []
          else [\<lparr>adf_path = p,
                 adf_kind = (if b = None then Created else if a = None then Removed else Modified),
                 adf_before = b, adf_after = a,
                 adf_operation = (case map_of operationByPath p of
                     None \<Rightarrow> ''unknown'' | Some operation \<Rightarrow> apply_operation_name operation)\<rparr>])
        (js_set (paths before @ paths after)))))"

definition directories_of :: "sandbox_snapshot \<Rightarrow> string list" where
  "directories_of snapshot =
     map ent_path (filter (\<lambda>entry. ent_type entry = TypeDirectory) (snap_entries snapshot))"

definition snapshot_or_null :: "'s sandbox_ops \<Rightarrow> 's \<Rightarrow> sandbox_snapshot option" where
  "snapshot_or_null ops sandbox = (case sbx_snapshot ops sandbox of Inr x \<Rightarrow> Some x | Inl _ \<Rightarrow> None)"


text \<open>The checks \<open>apply\<close> repeats on the retained input, after that of the integrity digest.\<close>

definition apply_bindings :: "'s apply_host \<Rightarrow> int \<Rightarrow> prepare_input \<Rightarrow> unit result" where
  "apply_bindings host now input =
     (let approval = pin_approval input; plan = pin_executionPlan input in
      chain (assertApprovalNotExpired (ah_parse host) approval now)
      (\<lambda>_. chain (assertPlanApplyMode plan)
      (\<lambda>_. chain (assertApprovalBindsPlan approval plan)
      (\<lambda>_. chain (assertApprovalBindsProject approval (pin_projectSnapshotId input))
      (\<lambda>_. chain (assertApprovalBindsPolicy approval (pin_policyDigest input))
      (\<lambda>_. chain (assertNoCommands approval)
      (\<lambda>_. chain (assertNoNetwork approval)
      (\<lambda>_. chain (assertLimitsWithinPolicy approval (pin_sandboxPolicy input))
      (\<lambda>_. guard (vcs_protectedBranch (pin_vcsState input))
        (ApplyError ''APPLY_DRIFT_PROJECT'' ''Protected workspace cannot be mutated.''))))))))))"

definition preparation_invalid :: exn where
  "preparation_invalid = ApplyError ''APPLY_PREPARATION_INVALID''
     ''Apply preparation is unknown, modified, reused, or belongs to another service instance.''"

definition consume_preparation :: "string \<Rightarrow> stored_preparation \<Rightarrow> apply_service \<Rightarrow> apply_service" where
  "consume_preparation runId stored st = st\<lparr>svc_preparations :=
     AList.update runId (stored\<lparr>sto_consumed := True\<rparr>) (svc_preparations st)\<rparr>"

text \<open>From the lookup of the preparation to the reservation of its nonce.\<close>

definition admit :: "'s apply_host \<Rightarrow> apply_input \<Rightarrow> (apply_service, stored_preparation) effect" where
  "admit host input st =
     proceed (check (assertApplyEnabled host) st)
     (\<lambda>_ st. case map_of (svc_preparations st) (prep_runId (ain_preparation input)) of
        None \<Rightarrow> (Inl preparation_invalid, st)
      | Some stored \<Rightarrow>
          if sto_consumed stored \<or> \<not> same_object (sto_preparation stored) (ain_preparation input)
          then (Inl preparation_invalid, st)
          else
            let preparation = sto_preparation stored; runId = prep_runId (ain_preparation input) in
            proceed (check (assertApprovalIntegrity (ah_sha host) (pin_approval (sto_input stored))) st)
            (\<lambda>_ st. proceed (check (apply_bindings host (now_of host st) (sto_input stored)) (tick st))
            (\<lambda>_ st. let st = consume_preparation runId stored st in
              if \<not> prep_ready preparation
              then (Inl (ApplyError ''APPLY_NOT_READY'' (''Run '' @ runId @ '' is not ready to apply.'')), st)
              else if ain_sandboxId input = ''''
              then (Inl (ApplyError ''APPLY_INPUT_INVALID'' ''A sandbox id is required.''), st)
              else if runId \<in> set (svc_cancelledRuns st)
              then (Inl (ApplyError ''APPLY_CANCELLED'' (''Run '' @ runId @ '' was cancelled.'')), st)
              else if prep_approvalNonce preparation \<in> set (svc_usedApprovals st)
              then (Inl (ApplyError ''APPLY_APPROVAL_REPLAYED'' (''Approval nonce '' @
                prep_approvalNonce preparation @ '' has already been used.'')), st)
              else (Inr stored, st\<lparr>svc_usedApprovals :=
                set_add (svc_usedApprovals st) (prep_approvalNonce preparation)\<rparr>))))"

definition error_text :: "exn \<Rightarrow> string" where
  "error_text e = exn_class e @ '': '' @ exn_message e"

text \<open>From the start event to the snapshot of the fresh sandbox.\<close>

definition open_sandbox :: "'s apply_host \<Rightarrow> apply_input \<Rightarrow> apply_preparation \<Rightarrow>
    (apply_service, 's \<times> sandbox_snapshot) effect" where
  "open_sandbox host input preparation st =
     (let runId = prep_runId preparation;
          st = emit_now host ''apply.started'' runId
            (Some (JObj [(''executionPlanId'', JStr (prep_executionPlanId preparation))]))
            (st\<lparr>svc_rollbackContents := AList.update runId [] (svc_rollbackContents st)\<rparr>)
      in proceed (check (createSandbox host (ain_sandboxId input) (Some runId) st) st)
         (\<lambda>sandbox st. case sbx_snapshot (ah_ops host) sandbox of
            Inl e \<Rightarrow> (Inl (ApplyError ''APPLY_INPUT_INVALID'' (''Unable to snapshot sandbox '' @
              ain_sandboxId input @ '': '' @ error_text e)), st)
          | Inr before \<Rightarrow> (Inr (sandbox, before),
              emit_now host ''apply.before-snapshot'' runId (Some (JObj [
                (''beforeSnapshotDigest'', JStr (snap_digest before)),
                (''sandboxId'', JStr (ain_sandboxId input))])) st)))"

text \<open>The loop over the operations, with the \<open>catch\<close> block that records the crash state.\<close>

definition run_operations :: "'s apply_host \<Rightarrow> apply_interrupts \<Rightarrow> (string \<Rightarrow> string result) \<Rightarrow>
    apply_input \<Rightarrow> apply_preparation \<Rightarrow> 's \<Rightarrow> sandbox_snapshot \<Rightarrow> apply_service \<Rightarrow>
    string list \<times> 's run_state" where
  "run_operations host interrupts contentProvider input preparation sandbox before st =
     (let (outcome, s) = for_do (apply_operation_step host interrupts contentProvider preparation)
            (prep_operations preparation)
            \<lparr>run_service = st, run_sandbox = sandbox, run_events = [], run_records = []\<rparr>
      in case outcome of
           Inr _ \<Rightarrow> ([], s)
         | Inl e \<Rightarrow> ([exn_message e], s\<lparr>run_service :=
             recordCrashState host preparation (ain_sandboxId input) before s (run_service s)\<rparr>))"

definition apply_status_of :: "bool \<Rightarrow> bool \<Rightarrow> bool \<Rightarrow> apply_status" where
  "apply_status_of cancelled rollbackFailed failed =
     (if cancelled then Cancelled else if rollbackFailed then RollbackFailed
      else if failed then RolledBack else Applied)"

fun apply_status_name :: "apply_status \<Rightarrow> string" where
  "apply_status_name Applied = ''applied''"
| "apply_status_name Cancelled = ''cancelled''"
| "apply_status_name RolledBack = ''rolled-back''"
| "apply_status_name RollbackFailed = ''rollback-failed''"

definition records_after :: "rollback_record list \<Rightarrow> rollback_record list \<Rightarrow> rollback_record list" where
  "records_after updated records = map (\<lambda>record.
     case find (\<lambda>u. rbk_operationIndex u = rbk_operationIndex record) updated of
       None \<Rightarrow> record | Some u \<Rightarrow> u) records"

text \<open>
  From the end of the loop to the result. The second component of the value is the sandbox the
  run leaves.
\<close>

definition finish_run :: "'s apply_host \<Rightarrow> apply_interrupts \<Rightarrow> apply_input \<Rightarrow> apply_preparation \<Rightarrow>
    string \<Rightarrow> sandbox_snapshot \<Rightarrow> string list \<Rightarrow> 's run_state \<Rightarrow> (apply_result \<times> 's) \<times> apply_service" where
  "finish_run host interrupts input preparation startedAt before errors s =
     (let ops = ah_ops host; runId = prep_runId preparation; failed = (errors \<noteq> []);
          after = snapshot_or_null ops (run_sandbox s);
          diff = (case after of None \<Rightarrow> []
            | Some a \<Rightarrow> diffSnapshots (ah_collate host) before a (prep_operations preparation));
          st = interrupted host runId (int_rollback interrupts) (run_service s);
          (rollbackFailed, errors, records, sandbox, after, st) =
            (if failed \<or> runId \<in> set (svc_cancelledRuns st)
             then let ((result, sandbox, updated), st) = rollbackInSandbox host runId (run_sandbox s)
                        (run_records s) (snap_digest before) (directories_of before) st;
                      rollbackFailed = (rbr_status result = RunRollbackFailed)
                  in (rollbackFailed, errors @ (if rollbackFailed then rbr_errors result else []),
                      records_after updated (run_records s), sandbox, snapshot_or_null ops sandbox, st)
             else (False, errors, run_records s, run_sandbox s, after, st));
          st = interrupted host runId (int_completion interrupts) st;
          completedAt = ah_iso host (now_of host st);
          cancelled = (runId \<in> set (svc_cancelledRuns st));
          status = apply_status_of cancelled rollbackFailed failed
      in ((\<lparr>res_runId = runId, res_status = status, res_startedAt = startedAt,
            res_completedAt = completedAt, res_executionPlanId = prep_executionPlanId preparation,
            res_executionPlanDigest = prep_executionPlanDigest preparation,
            res_sandboxId = ain_sandboxId input, res_beforeSnapshotDigest = snap_digest before,
            res_afterSnapshotDigest = map_option snap_digest after, res_diff = diff,
            res_rollback = records, res_operations = run_events s, res_cancelled = cancelled,
            res_recoverable = (\<not> rollbackFailed), res_errors = errors\<rparr>,
           sbx_close ops sandbox),
          emit (evidence ''apply.completed'' completedAt runId (Some (JObj [
            (''status'', JStr (apply_status_name status)),
            (''appliedOperations'', JInt (int (length (applied_events (run_events s))))),
            (''diffEntries'', JInt (int (length diff))), (''rollbackFailed'', JBool rollbackFailed)])))
            (tick st)))"

definition apply_plan :: "'s apply_host \<Rightarrow> apply_interrupts \<Rightarrow> (string \<Rightarrow> string result) \<Rightarrow> apply_input \<Rightarrow>
    (apply_service, apply_result \<times> 's) effect" where
  "apply_plan host interrupts contentProvider input st =
     proceed (admit host input st)
     (\<lambda>stored st.
        let preparation = sto_preparation stored; startedAt = ah_iso host (now_of host st) in
        proceed (open_sandbox host input preparation st)
        (\<lambda>(sandbox, before) st.
           let (errors, s) = run_operations host interrupts contentProvider input preparation sandbox
                 before st;
               (outcome, st) = finish_run host interrupts input preparation startedAt before errors s
           in (Inr outcome, st)))"

end
