(* ===== verification/Apply_Correctness.thy ===== *)
theory Apply_Correctness
  imports Apply_Service
begin

text \<open>
  What the apply service guarantees: a run is authorised by its approval, a nonce is used once, and
  a run that reports success or a completed rollback has changed all of the plan's files or none.

  The service relies on a sandbox through the contract \<open>sandbox_interface\<close>, which the in-memory
  sandbox satisfies.
\<close>

section \<open>The contract of a sandbox session\<close>

text \<open>
  \<open>files\<close> is the map of files a session stands for, \<open>key\<close> the place of a path in it. Equal
  snapshot digests mean equal files at the \<open>visible\<close> places, unless hashes collide
  (\<open>separated\<close>).
\<close>

locale sandbox_interface =
  fixes ops :: "'s sandbox_ops"
    and ok :: "'s \<Rightarrow> bool"
    and files :: "'s \<Rightarrow> string \<Rightarrow> string option"
    and key :: "string \<Rightarrow> string option"
    and visible :: "string set"
    and separated :: "'s \<Rightarrow> 's \<Rightarrow> bool"
  assumes write_returns: "ok s \<Longrightarrow> sbx_write ops p c s = (Inr u, t) \<Longrightarrow>
      ok t \<and> (\<exists>k. key p = Some k \<and> files t = (files s)(k \<mapsto> c))"
    and write_throws: "ok s \<Longrightarrow> sbx_write ops p c s = (Inl e, t) \<Longrightarrow> ok t \<and> files t = files s"
    and remove_returns: "ok s \<Longrightarrow> sbx_remove ops p s = (Inr u, t) \<Longrightarrow>
      ok t \<and> (\<exists>k. key p = Some k \<and> files t = (files s)(k := None))"
    and remove_throws: "ok s \<Longrightarrow> sbx_remove ops p s = (Inl e, t) \<Longrightarrow> ok t"
    and close_files: "files (sbx_close ops s) = files s"
    and snapshot_identifies: "ok s \<Longrightarrow> ok t \<Longrightarrow> separated s t \<Longrightarrow>
      sbx_snapshot ops s = Inr x \<Longrightarrow> sbx_snapshot ops t = Inr y \<Longrightarrow> snap_digest x = snap_digest y \<Longrightarrow>
      files s |` visible = files t |` visible"

section \<open>What a run of operations does\<close>

text \<open>The effect of a planned operation on the map of files.\<close>

definition file_effect :: "(string \<Rightarrow> string option) \<Rightarrow> (string \<Rightarrow> string result) \<Rightarrow>
    (string \<Rightarrow> string option) \<Rightarrow> planned_operation \<Rightarrow> (string \<Rightarrow> string option)" where
  "file_effect key contentProvider F operation =
     (case key (pop_path operation) of
        None \<Rightarrow> F
      | Some k \<Rightarrow>
          if pop_operation operation = DeleteFile then F(k := None)
          else (case contentProvider (pop_path operation) of Inr c \<Rightarrow> F(k \<mapsto> c) | Inl e \<Rightarrow> F))"

definition file_operation :: "planned_operation \<Rightarrow> bool" where
  "file_operation operation \<longleftrightarrow> pop_operation operation \<in> {CreateFile, ReplaceFile, DeleteFile}"

text \<open>The content a planned operation writes has the digest of the plan.\<close>

definition content_matches :: "(string \<Rightarrow> string) \<Rightarrow> (string \<Rightarrow> string result) \<Rightarrow> planned_operation \<Rightarrow> bool" where
  "content_matches sha contentProvider operation \<longleftrightarrow> pop_operation operation = DeleteFile \<or>
     (\<exists>c. contentProvider (pop_path operation) = Inr c \<and>
        pop_contentDigest operation \<in> {None, Some (digestBytes sha c)})"

lemma operationsFromPlan_file_operations: "list_all file_operation (operationsFromPlan plan)"
proof -
  have "file_operation \<lparr>pop_index = i, pop_operation = planOperationFor c, pop_path = p,
      pop_contentDigest = d\<rparr>" for i c p d
    by (cases c) (simp_all add: file_operation_def)
  then show ?thesis by (auto simp: list_all_iff operationsFromPlan_def)
qed

lemma on_sandbox_iff:
  "on_sandbox act s = (r, t) \<longleftrightarrow> (\<exists>b. act (run_sandbox s) = (r, b) \<and> t = s\<lparr>run_sandbox := b\<rparr>)"
  by (auto simp: on_sandbox_def split: prod.splits)

lemma run_state_simps [simp]:
  "run_sandbox (push_event o' st s) = run_sandbox s"
  "run_service (push_event o' st s) = run_service s"
  "run_events (push_event o' st s) = run_events s @ [operation_event_of o' st]"
  "run_sandbox (recordRollback r o' p s) = run_sandbox s"
  "run_events (recordRollback r o' p s) = run_events s"
  "svc_cancelledRuns (run_service (recordRollback r o' p s)) = svc_cancelledRuns (run_service s)"
  by (simp_all add: push_event_def recordRollback_def Let_def)

context sandbox_interface
begin

lemma write_step:
  assumes "ok (run_sandbox s)" and "ah_ops host = ops"
    and "write_operation host contentProvider runId operation prior s = (r, t)"
  shows "ok (run_sandbox t) \<and> (r = Inr () \<longrightarrow>
     (\<exists>c k. contentProvider (pop_path operation) = Inr c \<and> key (pop_path operation) = Some k \<and>
       files (run_sandbox t) = (files (run_sandbox s))(k \<mapsto> c) \<and>
       pop_contentDigest operation \<in> {None, Some (digestBytes (ah_sha host) c)} \<and>
       run_events t = run_events s @ [operation_event_of operation OpApplied]))"
proof (cases r)
  case (Inl e)
  then show ?thesis using assms write_throws [of "run_sandbox s"]
    by (auto simp: write_operation_def proceed_Inl_iff check_def on_sandbox_iff)
next
  case (Inr u)
  then obtain c b where c: "contentProvider (pop_path operation) = Inr c"
    "pop_contentDigest operation = None \<or> pop_contentDigest operation = Some (digestBytes (ah_sha host) c)"
    "sbx_write ops (pop_path operation) c (run_sandbox s) = (Inr (), b)"
    "t = push_event operation OpApplied ((recordRollback runId operation prior s)\<lparr>run_sandbox := b\<rparr>)"
    using assms(2,3) by (cases "pop_contentDigest operation")
      (auto simp: write_operation_def proceed_Inr_iff check_def on_sandbox_iff)
  then show ?thesis using write_returns [OF assms(1) c(3)] by auto
qed

lemma delete_step:
  assumes "ok (run_sandbox s)" and "ah_ops host = ops"
    and "delete_operation host runId operation prior s = (r, t)"
  shows "ok (run_sandbox t) \<and> (r = Inr () \<longrightarrow>
     (\<exists>k. key (pop_path operation) = Some k \<and>
       files (run_sandbox t) = (files (run_sandbox s))(k := None) \<and>
       run_events t = run_events s @ [operation_event_of operation OpApplied]))"
proof (cases r)
  case (Inl e)
  then show ?thesis using assms remove_throws [of "run_sandbox s"]
    by (auto simp: delete_operation_def proceed_Inl_iff check_def on_sandbox_iff)
next
  case (Inr u)
  then obtain b where b: "sbx_remove ops (pop_path operation) (run_sandbox s) = (Inr (), b)"
    "t = push_event operation OpApplied ((recordRollback runId operation prior s)\<lparr>run_sandbox := b\<rparr>)"
    using assms(2,3) by (auto simp: delete_operation_def proceed_Inr_iff check_def on_sandbox_iff)
  then show ?thesis using remove_returns [OF assms(1) b(1)] by auto
qed

text \<open>One turn of the loop on an operation of a plan.\<close>

lemma operation_step:
  assumes "ok (run_sandbox s)" and "ah_ops host = ops"
    and "apply_operation_step host interrupts contentProvider preparation operation s = (r, t)"
  shows "ok (run_sandbox t) \<and> (r = Inr () \<longrightarrow> file_operation operation \<longrightarrow>
     files (run_sandbox t) = file_effect key contentProvider (files (run_sandbox s)) operation \<and>
     content_matches (ah_sha host) contentProvider operation \<and>
     run_events t = run_events s @ [operation_event_of operation OpApplied])"
proof -
  let ?s = "s\<lparr>run_service := interrupted host (prep_runId preparation)
    (int_operation interrupts (pop_index operation)) (run_service s)\<rparr>"
  let ?prior = "captureBefore (ah_ops host) (run_sandbox ?s) (pop_path operation)"
  have ok: "ok (run_sandbox ?s)" using assms(1) by simp
  consider (stopped) "run_sandbox t = run_sandbox s" "r \<noteq> Inr ()"
    | (writing) "pop_operation operation \<in> {CreateFile, ReplaceFile}"
        "write_operation host contentProvider (prep_runId preparation) operation ?prior ?s = (r, t)"
    | (deleting) "pop_operation operation = DeleteFile"
        "delete_operation host (prep_runId preparation) operation ?prior ?s = (r, t)"
    | (other) "\<not> file_operation operation" "t = ?s"
  proof (cases "assertOperationAllowedGate preparation operation")
    case (Inl e)
    then have "run_sandbox t = run_sandbox s" "r \<noteq> Inr ()"
      using assms(3) by (auto simp: apply_operation_step_def Let_def check_def split: if_splits)
    then show ?thesis using that(1) by blast
  next
    case (Inr u)
    then show ?thesis using assms(3) that unfolding apply_operation_step_def Let_def
      by (auto simp: check_def file_operation_def split: if_splits apply_operation.splits)
  qed
  then show ?thesis using assms(1)
  proof cases
    case stopped
    then show ?thesis using assms(1) by simp
  next
    case writing
    then show ?thesis using write_step [OF ok assms(2) writing(2)]
      by (auto simp: file_effect_def content_matches_def)
  next
    case deleting
    then show ?thesis using delete_step [OF ok assms(2) deleting(2)]
      by (auto simp: file_effect_def content_matches_def)
  next
    case other
    then show ?thesis using assms(1) by simp
  qed
qed

lemma operation_loop:
  assumes "ok (run_sandbox s)" and "ah_ops host = ops"
    and "for_do (apply_operation_step host interrupts contentProvider preparation) operations s = (r, t)"
  shows "ok (run_sandbox t) \<and> (r = Inr () \<longrightarrow> list_all file_operation operations \<longrightarrow>
     files (run_sandbox t) = foldl (file_effect key contentProvider) (files (run_sandbox s)) operations \<and>
     list_all (content_matches (ah_sha host) contentProvider) operations \<and>
     run_events t = run_events s @ map (\<lambda>operation. operation_event_of operation OpApplied) operations)"
  using assms(1,3)
proof (induction operations arbitrary: s)
  case Nil
  then show ?case by simp
next
  case (Cons operation operations)
  obtain q s1 where step: "apply_operation_step host interrupts contentProvider preparation operation s = (q, s1)"
    by fastforce
  note facts = operation_step [OF Cons.prems(1) assms(2) step]
  show ?case
  proof (cases q)
    case (Inl e)
    then show ?thesis using facts step Cons.prems(2) by auto
  next
    case (Inr u)
    then have "for_do (apply_operation_step host interrupts contentProvider preparation) operations s1 = (r, t)"
      using Cons.prems(2) step by simp
    from Cons.IH [OF _ this] show ?thesis using facts Inr by auto
  qed
qed

end


section \<open>How a run ends\<close>

lemma preparations_emit [simp]:
  "svc_preparations (emit e st) = svc_preparations st"
  "svc_preparations (tick st) = svc_preparations st"
  "svc_preparations (emit_now host kind r d st) = svc_preparations st"
  by (simp_all add: emit_def tick_def emit_now_def)

lemma open_sandbox_Inr:
  assumes "open_sandbox host input preparation st = (Inr (sandbox, before), st')"
  shows "sbx_snapshot (ah_ops host) sandbox = Inr before \<and>
    createSandbox host (ain_sandboxId input) (Some (prep_runId preparation)) st = Inr sandbox"
proof -
  obtain st1 b where "createSandbox host (ain_sandboxId input) (Some (prep_runId preparation)) st = Inr b"
    "(case sbx_snapshot (ah_ops host) b of Inl e \<Rightarrow> (Inl (ApplyError ''APPLY_INPUT_INVALID''
        (''Unable to snapshot sandbox '' @ ain_sandboxId input @ '': '' @ error_text e)), st1)
      | Inr before \<Rightarrow> (Inr (b, before), emit_now host ''apply.before-snapshot'' (prep_runId preparation)
          (Some (JObj [(''beforeSnapshotDigest'', JStr (snap_digest before)),
            (''sandboxId'', JStr (ain_sandboxId input))])) st1)) = (Inr (sandbox, before), st')"
    using assms by (auto simp: open_sandbox_def proceed_Inr_iff check_def Let_def createSandbox_def
        split: option.splits)
  then show ?thesis by (cases "sbx_snapshot (ah_ops host) b") auto
qed

lemma apply_plan_Inr:
  assumes "apply_plan host interrupts contentProvider input st = (Inr (result, final), st')"
  obtains stored st1 sandbox before st2 errors s where "admit host input st = (Inr stored, st1)"
    and "open_sandbox host input (sto_preparation stored) st1 = (Inr (sandbox, before), st2)"
    and "run_operations host interrupts contentProvider input (sto_preparation stored) sandbox
      before st2 = (errors, s)"
    and "finish_run host interrupts input (sto_preparation stored) (ah_iso host (now_of host st1))
      before errors s = ((result, final), st')"
proof -
  obtain stored st1 x st2 where steps: "admit host input st = (Inr stored, st1)"
    "open_sandbox host input (sto_preparation stored) st1 = (Inr x, st2)"
    using assms by (auto simp: apply_plan_def proceed_Inr_iff Let_def)
  obtain sandbox before where x: "x = (sandbox, before)" by (cases x)
  obtain errors s where run: "run_operations host interrupts contentProvider input
      (sto_preparation stored) sandbox before st2 = (errors, s)" by fastforce
  obtain outcome st3 where finish: "finish_run host interrupts input (sto_preparation stored)
      (ah_iso host (now_of host st1)) before errors s = (outcome, st3)" by fastforce
  have "outcome = (result, final)" "st3 = st'"
    using assms by (simp_all add: apply_plan_def steps x run finish Let_def)
  then show thesis using that steps x run finish by blast
qed

lemma admit_stored:
  assumes "admit host input st = (Inr stored, st')"
  shows "map_of (svc_preparations st') (prep_runId (sto_preparation stored)) =
      Some (stored\<lparr>sto_consumed := True\<rparr>)"
  using assms
  by (auto simp: admit_def proceed_Inr_iff check_def Let_def consume_preparation_def map_of_update tick_def
      dest: same_object_fields(1) split: option.splits if_splits)

lemma cancelledRuns_emit [simp]:
  "svc_cancelledRuns (emit e st) = svc_cancelledRuns st"
  "svc_cancelledRuns (tick st) = svc_cancelledRuns st"
  "svc_cancelledRuns (emit_now host kind r d st) = svc_cancelledRuns st"
  by (simp_all add: emit_def tick_def emit_now_def)

lemma cancelledRuns_interrupted:
  "set (svc_cancelledRuns st) \<subseteq> set (svc_cancelledRuns (interrupted host r b st))"
  "\<not> b \<Longrightarrow> interrupted host r b st = st"
  by (auto simp: interrupted_def cancel_def)

lemma rollback_step_failed: "0 \<le> rst_failed s \<Longrightarrow> 0 \<le> rst_failed (rollback_step ops pre kept s e)"
  by (auto simp: rollback_step_def split: prod.split sum.split)

lemma rollback_loop_failed:
  "0 \<le> rst_failed s \<Longrightarrow> 0 \<le> rst_failed (foldl (rollback_step ops pre kept) s es)"
  by (induction es arbitrary: s) (simp_all add: rollback_step_failed)

text \<open>A rollback that does not fail has verified the digest of the state before.\<close>

lemma rollbackInSandbox_facts:
  assumes "rollbackInSandbox host r sandbox records digest preExisting st = ((result, end_state, updated), st')"
  shows "svc_cancelledRuns st' = svc_cancelledRuns st"
    and "rbr_status result \<noteq> RunRollbackFailed \<Longrightarrow>
      \<exists>x. sbx_snapshot (ah_ops host) end_state = Inr x \<and> snap_digest x = digest"
    and "end_state = rst_sandbox (foldl (rollback_step (ah_ops host) preExisting
      (map_of (svc_rollbackContents st) r))
      \<lparr>rst_sandbox = sandbox, rst_records = [], rst_reverted = 0, rst_verified = 0, rst_failed = 0,
       rst_errors = []\<rparr> (rollback_order records))"
proof -
  let ?s = "foldl (rollback_step (ah_ops host) preExisting (map_of (svc_rollbackContents st) r))
      \<lparr>rst_sandbox = sandbox, rst_records = [], rst_reverted = 0, rst_verified = 0, rst_failed = 0,
       rst_errors = []\<rparr> (rollback_order records)"
  have nonneg: "0 \<le> rst_failed ?s" by (rule rollback_loop_failed) simp
  show "svc_cancelledRuns st' = svc_cancelledRuns st" "end_state = rst_sandbox ?s"
    using assms by (auto simp: rollbackInSandbox_def Let_def)
  assume "rbr_status result \<noteq> RunRollbackFailed"
  then have "verified_digest (ah_ops host) end_state digest \<noteq> None"
    using assms nonneg by (auto simp: rollbackInSandbox_def Let_def split: if_splits)
  then show "\<exists>x. sbx_snapshot (ah_ops host) end_state = Inr x \<and> snap_digest x = digest"
    by (auto simp: verified_digest_def split: sum.splits if_splits)
qed

lemma finish_run_facts:
  assumes "finish_run host interrupts input preparation startedAt before errors s = ((result, final), st')"
  obtains end_state where "final = sbx_close (ah_ops host) end_state"
    and "res_operations result = run_events s"
    and "end_state = run_sandbox s \<or> (\<exists>preExisting kept. end_state = rst_sandbox (foldl
      (rollback_step (ah_ops host) preExisting kept)
      \<lparr>rst_sandbox = run_sandbox s, rst_records = [], rst_reverted = 0, rst_verified = 0,
       rst_failed = 0, rst_errors = []\<rparr> (rollback_order (run_records s))))"
    and "res_status result = Applied \<Longrightarrow> errors = [] \<and> end_state = run_sandbox s"
    and "res_status result = RolledBack \<or>
        (res_status result = Cancelled \<and> res_recoverable result \<and> \<not> int_completion interrupts) \<Longrightarrow>
      \<exists>x. sbx_snapshot (ah_ops host) end_state = Inr x \<and> snap_digest x = snap_digest before"
proof -
  let ?runId = "prep_runId preparation"
  let ?st = "interrupted host ?runId (int_rollback interrupts) (run_service s)"
  show thesis
  proof (cases "errors \<noteq> [] \<or> ?runId \<in> set (svc_cancelledRuns ?st)")
    case True
    obtain outcome end_state updated st1 where rolled: "rollbackInSandbox host ?runId (run_sandbox s)
        (run_records s) (snap_digest before) (directories_of before) ?st = ((outcome, end_state, updated), st1)"
      by (metis prod_cases3 surj_pair)
    let ?last = "interrupted host ?runId (int_completion interrupts) st1"
    have result: "final = sbx_close (ah_ops host) end_state" "res_operations result = run_events s"
      "res_recoverable result = (rbr_status outcome \<noteq> RunRollbackFailed)"
      "res_status result = apply_status_of (?runId \<in> set (svc_cancelledRuns ?last))
         (rbr_status outcome = RunRollbackFailed) (errors \<noteq> [])"
      using assms True by (auto simp: finish_run_def Let_def rolled)
    have "res_status result \<noteq> Applied"
    proof (cases "errors = []")
      case False
      then show ?thesis by (simp add: result(4) apply_status_of_def)
    next
      case True
      then have "?runId \<in> set (svc_cancelledRuns ?last)"
        using \<open>errors \<noteq> [] \<or> _\<close> rollbackInSandbox_facts(1) [OF rolled]
        by (intro subsetD [OF cancelledRuns_interrupted(1)]) simp
      then show ?thesis by (simp add: result(4) apply_status_of_def)
    qed
    moreover have "rbr_status outcome \<noteq> RunRollbackFailed"
      if "res_status result = RolledBack \<or> (res_status result = Cancelled \<and> res_recoverable result \<and>
        \<not> int_completion interrupts)"
      using that result(3,4) by (auto simp: apply_status_of_def split: if_splits)
    ultimately show thesis
      using that [of end_state] result(1,2) rollbackInSandbox_facts(2,3) [OF rolled] by blast
  next
    case False
    let ?last = "interrupted host ?runId (int_completion interrupts) ?st"
    have result: "final = sbx_close (ah_ops host) (run_sandbox s)" "res_operations result = run_events s"
      "res_status result = apply_status_of (?runId \<in> set (svc_cancelledRuns ?last)) False False"
      using assms False by (auto simp: finish_run_def Let_def)
    moreover have "res_status result \<noteq> RolledBack" by (simp add: result(3) apply_status_of_def)
    moreover have "res_status result \<noteq> Cancelled" if "\<not> int_completion interrupts"
      using that False by (simp add: result(3) apply_status_of_def cancelledRuns_interrupted(2))
    ultimately show thesis using that [of "run_sandbox s"] False by blast
  qed
qed

context sandbox_interface
begin

lemma rollback_created_ok: "ok s \<Longrightarrow> ok (rollback_created ops pre path s)"
proof -
  have remove: "ok (snd (sbx_remove ops p s))" if "ok s" for p s
  proof (cases "sbx_remove ops p s")
    case (Pair r t)
    have "ok t" by (cases r) (use Pair that remove_returns remove_throws in blast)+
    then show ?thesis using Pair by simp
  qed
  have "ok s \<Longrightarrow> ok (foldl (\<lambda>s d. if d \<in> set pre then s else snd (catch_undefined (sbx_remove ops d s))) s ds)"
    for s ds by (induction ds arbitrary: s) (simp_all add: remove)
  then show "ok s \<Longrightarrow> ok (rollback_created ops pre path s)"
    unfolding rollback_created_def by (simp add: remove)
qed

lemma rollback_loop_ok:
  "ok (rst_sandbox s) \<Longrightarrow> ok (rst_sandbox (foldl (rollback_step ops pre kept) s entries))"
proof (induction entries arbitrary: s)
  case (Cons e entries)
  have "ok (snd (revert_record ops pre kept e (rst_sandbox s)))"
  proof -
    have "ok (snd (sbx_write ops p c b))" if "ok b" for p c b
    proof (cases "sbx_write ops p c b")
      case (Pair r t)
      have "ok t" by (cases r) (use Pair that write_returns write_throws in blast)+
      then show ?thesis using Pair by simp
    qed
    then show ?thesis using Cons.prems rollback_created_ok
      by (auto simp: revert_record_def split: option.split)
  qed
  then have "ok (rst_sandbox (rollback_step ops pre kept s e))"
    by (auto simp: rollback_step_def split: prod.split sum.split)
  then show ?case using Cons.IH by simp
qed simp

text \<open>All or nothing, from the contract.\<close>

lemma all_or_nothing:
  assumes "ah_ops host = ops" and "ah_provider host = Some provider"
    and "\<forall>policy root i b. provider policy root i = Inr b \<longrightarrow> ok b"
    and "apply_plan host interrupts contentProvider input st = (Inr (result, final), st')"
  shows "\<exists>stored st1 sandbox end_state. admit host input st = (Inr stored, st1) \<and>
    provider (pin_sandboxPolicy (sto_input stored)) (''/sandbox/'' @ ain_sandboxId input)
      (ain_sandboxId input) = Inr sandbox \<and> final = sbx_close ops end_state \<and>
    (res_status result = Applied \<longrightarrow> list_all file_operation (prep_operations (sto_preparation stored)) \<longrightarrow>
      files final = foldl (file_effect key contentProvider) (files sandbox)
        (prep_operations (sto_preparation stored)) \<and>
      list_all (content_matches (ah_sha host) contentProvider) (prep_operations (sto_preparation stored)) \<and>
      res_operations result = map (\<lambda>operation. operation_event_of operation OpApplied)
        (prep_operations (sto_preparation stored))) \<and>
    (res_status result = RolledBack \<or>
        (res_status result = Cancelled \<and> res_recoverable result \<and> \<not> int_completion interrupts) \<longrightarrow>
      separated end_state sandbox \<longrightarrow> files final |` visible = files sandbox |` visible)"
proof -
  obtain stored st1 sandbox before st2 errors s where admitted: "admit host input st = (Inr stored, st1)"
    and opened: "open_sandbox host input (sto_preparation stored) st1 = (Inr (sandbox, before), st2)"
    and run: "run_operations host interrupts contentProvider input (sto_preparation stored) sandbox
      before st2 = (errors, s)"
    and finish: "finish_run host interrupts input (sto_preparation stored) (ah_iso host (now_of host st1))
      before errors s = ((result, final), st')"
    using assms(4) by (rule apply_plan_Inr)
  let ?p = "sto_preparation stored"
  have snapshot: "sbx_snapshot ops sandbox = Inr before"
    using open_sandbox_Inr [OF opened] assms(1) by simp
  have created: "provider (pin_sandboxPolicy (sto_input stored)) (''/sandbox/'' @ ain_sandboxId input)
      (ain_sandboxId input) = Inr sandbox"
    using open_sandbox_Inr [OF opened] admit_stored [OF admitted] assms(2)
    by (simp add: createSandbox_def)
  then have ok: "ok sandbox" using assms(3) by blast
  let ?start = "\<lparr>run_service = st2, run_sandbox = sandbox, run_events = [], run_records = []\<rparr>"
  obtain outcome t where loop_run: "for_do (apply_operation_step host interrupts contentProvider ?p)
      (prep_operations ?p) ?start = (outcome, t)" by fastforce
  have same: "run_sandbox s = run_sandbox t" "run_events s = run_events t" "errors = [] \<longleftrightarrow> outcome = Inr ()"
    using run loop_run by (auto simp: run_operations_def split: sum.splits)
  have loop: "ok (run_sandbox s) \<and> (errors = [] \<longrightarrow> list_all file_operation (prep_operations ?p) \<longrightarrow>
     files (run_sandbox s) = foldl (file_effect key contentProvider) (files sandbox) (prep_operations ?p) \<and>
     list_all (content_matches (ah_sha host) contentProvider) (prep_operations ?p) \<and>
     run_events s = map (\<lambda>operation. operation_event_of operation OpApplied) (prep_operations ?p))"
    using operation_loop [OF _ assms(1) loop_run] ok by (simp add: same)
  obtain end_state where end_state: "final = sbx_close ops end_state" "res_operations result = run_events s"
    "end_state = run_sandbox s \<or> (\<exists>preExisting kept. end_state = rst_sandbox (foldl
      (rollback_step ops preExisting kept)
      \<lparr>rst_sandbox = run_sandbox s, rst_records = [], rst_reverted = 0, rst_verified = 0,
       rst_failed = 0, rst_errors = []\<rparr> (rollback_order (run_records s))))"
    "res_status result = Applied \<Longrightarrow> errors = [] \<and> end_state = run_sandbox s"
    "res_status result = RolledBack \<or>
        (res_status result = Cancelled \<and> res_recoverable result \<and> \<not> int_completion interrupts) \<Longrightarrow>
      \<exists>x. sbx_snapshot ops end_state = Inr x \<and> snap_digest x = snap_digest before"
    using finish by (rule finish_run_facts) (unfold assms(1), blast)
  have ok_end: "ok end_state"
    using end_state(3)
  proof (elim disjE exE)
    assume "end_state = run_sandbox s"
    then show ?thesis using loop by simp
  next
    fix pre kept
    assume e: "end_state = rst_sandbox (foldl (rollback_step ops pre kept)
      \<lparr>rst_sandbox = run_sandbox s, rst_records = [], rst_reverted = 0, rst_verified = 0,
       rst_failed = 0, rst_errors = []\<rparr> (rollback_order (run_records s)))"
    show ?thesis unfolding e by (rule rollback_loop_ok) (simp add: loop)
  qed
  have "files final |` visible = files sandbox |` visible"
    if "res_status result = RolledBack \<or>
        (res_status result = Cancelled \<and> res_recoverable result \<and> \<not> int_completion interrupts)"
      "separated end_state sandbox"
    using end_state(5) [OF that(1)] snapshot_identifies [OF ok_end ok that(2) _ snapshot]
    by (auto simp: end_state(1) close_files)
  then show ?thesis using admitted created end_state loop by (auto simp: close_files)
qed

end

end
