(* ===== verification/Apply_Memory.thy ===== *)
theory Apply_Memory
  imports Apply_Correctness
begin

text \<open>
  The apply service on in-memory sandboxes: the sandbox provides the contract of
  \<open>Apply_Correctness\<close>, and the results for the whole service, over any sequence of its calls.

  A sandbox of a run is an in-memory session with the number of operations made on it, which
  selects the reading of the sandbox's clock.
\<close>

section \<open>The in-memory sandbox provides the contract\<close>

type_synonym memory_box = "sandbox_session \<times> nat"

definition memory_ops :: "(string \<Rightarrow> string \<Rightarrow> int) \<Rightarrow> (string \<Rightarrow> string) \<Rightarrow> (nat \<Rightarrow> int) \<Rightarrow>
    memory_box sandbox_ops" where
  "memory_ops lc sha clock = \<lparr>
     sbx_read = (\<lambda>(s, n) p. session_read s p),
     sbx_write = (\<lambda>p c (s, n). let (r, t) = session_write (clock n) p c s in (r, (t, Suc n))),
     sbx_remove = (\<lambda>p (s, n). let (r, t) = session_remove (clock n) p s in (r, (t, Suc n))),
     sbx_snapshot = (\<lambda>(s, n). session_snapshot lc sha s),
     sbx_close = (\<lambda>(s, n). (session_close s, n))\<rparr>"

text \<open>\<open>MemorySandboxProvider.create\<close>, which the service calls without a seed.\<close>

definition memory_provider :: "(nat \<Rightarrow> int) \<Rightarrow> sandbox_policy \<Rightarrow> string \<Rightarrow> string \<Rightarrow> memory_box result" where
  "memory_provider clock policy root sandboxId =
     chain (new_session sandboxId root policy [] (clock 0)) (\<lambda>s. Inr (s, 1))"

definition box_ok :: "memory_box \<Rightarrow> bool" where
  "box_ok b = session_ok (fst b)"

definition box_files :: "memory_box \<Rightarrow> string \<Rightarrow> string option" where
  "box_files b = contents (fst b)"

definition path_key :: "string \<Rightarrow> string option" where
  "path_key p = (case normalize p of Inr k \<Rightarrow> Some k | Inl _ \<Rightarrow> None)"

definition boxes_separated :: "(string \<Rightarrow> string \<Rightarrow> int) \<Rightarrow> (string \<Rightarrow> string) \<Rightarrow> memory_box \<Rightarrow>
    memory_box \<Rightarrow> bool" where
  "boxes_separated lc sha b b' = sessions_separated lc sha (fst b) (fst b')"

interpretation memory_box: sandbox_interface "memory_ops lc sha clock" box_ok box_files path_key
  named_paths "boxes_separated lc sha" for lc sha clock
proof
  fix s t :: memory_box and p c u e
  obtain ses n where s: "s = (ses, n)" by fastforce
  show "box_ok t \<and> (\<exists>k. path_key p = Some k \<and> box_files t = (box_files s)(k \<mapsto> c))"
    if "box_ok s" "sbx_write (memory_ops lc sha clock) p c s = (Inr u, t)"
  proof -
    have w: "session_write (clock n) p c ses = (Inr u, fst t)"
      using that(2) by (auto simp: s memory_ops_def split: prod.splits)
    then show ?thesis using that(1) session_ok_write [of ses "clock n" False p c "Inr u" "fst t"]
        session_write_files(1) [OF w]
      by (auto simp: s box_ok_def box_files_def path_key_def session_write_def)
  qed
  show "box_ok t \<and> box_files t = box_files s"
    if "box_ok s" "sbx_write (memory_ops lc sha clock) p c s = (Inl e, t)"
  proof -
    have w: "session_write (clock n) p c ses = (Inl e, fst t)"
      using that(2) by (auto simp: s memory_ops_def split: prod.splits)
    then show ?thesis using that(1) session_ok_write [of ses "clock n" False p c "Inl e" "fst t"]
        session_write_files(2) [OF w]
      by (auto simp: s box_ok_def box_files_def session_write_def)
  qed
  show "box_ok t \<and> (\<exists>k. path_key p = Some k \<and> box_files t = (box_files s)(k := None))"
    if "box_ok s" "sbx_remove (memory_ops lc sha clock) p s = (Inr u, t)"
  proof -
    have w: "session_remove (clock n) p ses = (Inr u, fst t)"
      using that(2) by (auto simp: s memory_ops_def split: prod.splits)
    then show ?thesis using that(1) session_ok_remove [OF _ w] session_remove_files [OF w]
      by (auto simp: s box_ok_def box_files_def path_key_def)
  qed
  show "box_ok t" if "box_ok s" "sbx_remove (memory_ops lc sha clock) p s = (Inl e, t)"
  proof -
    have w: "session_remove (clock n) p ses = (Inl e, fst t)"
      using that(2) by (auto simp: s memory_ops_def split: prod.splits)
    then show ?thesis using that(1) session_ok_remove [OF _ w] by (simp add: s box_ok_def)
  qed
  show "box_files (sbx_close (memory_ops lc sha clock) s) = box_files s"
    by (rule ext) (simp add: s memory_ops_def box_files_def session_close_def contents_def)
next
  fix s t :: memory_box and x y
  assume "box_ok s" "box_ok t" "boxes_separated lc sha s t"
    "sbx_snapshot (memory_ops lc sha clock) s = Inr x" "sbx_snapshot (memory_ops lc sha clock) t = Inr y"
    "snap_digest x = snap_digest y"
  then show "box_files s |` named_paths = box_files t |` named_paths"
    using snapshot_identifies_files [of "fst s" "fst t" lc sha x y]
    by (simp add: box_ok_def box_files_def boxes_separated_def memory_ops_def split: prod.splits)
qed

lemma memory_provider_ok: "memory_provider clock policy root i = Inr b \<Longrightarrow> box_ok b"
  by (auto simp: memory_provider_def chain_eq_Inr box_ok_def intro: session_ok_new)


section \<open>The calls of a service\<close>

definition new_service :: apply_service where
  "new_service = \<lparr>svc_preparations = [], svc_usedApprovals = [], svc_cancelledRuns = [],
     svc_crashStates = [], svc_rollbackContents = [], svc_evidence = [], svc_nextRef = 0, svc_ticks = 0\<rparr>"

text \<open>
  The calls of callers that leave the objects they share with the service alone: the elements of the
  arrays of a preparation, its VCS state and the input it was made from.
\<close>

inductive service_step :: "'s apply_host \<Rightarrow> apply_service \<Rightarrow> apply_service \<Rightarrow> bool" for host where
  Prepare: "prepare host input st = (r, st') \<Longrightarrow> service_step host st st'"
| Apply: "apply_plan host interrupts contentProvider input' st = (q, st') \<Longrightarrow> service_step host st st'"
| Cancel: "service_step host st (cancel host runId st)"
| Rollback: "rollback host input'' st = (o', st') \<Longrightarrow> service_step host st st'"

inductive service_run :: "'s apply_host \<Rightarrow> apply_service \<Rightarrow> apply_service \<Rightarrow> bool" for host st where
  Start: "service_run host st st"
| Step: "service_run host st st' \<Longrightarrow> service_step host st' st'' \<Longrightarrow> service_run host st st''"

text \<open>
  The calls of any callers. Between two calls a caller may write to what it shares with the service,
  replacing the contents of every object that \<open>prepare\<close> does not freeze.
\<close>

definition overwrite :: "(string \<Rightarrow> apply_preparation \<Rightarrow> apply_preparation) \<Rightarrow> (string \<Rightarrow> prepare_input) \<Rightarrow>
    apply_service \<Rightarrow> apply_service" where
  "overwrite objects inputs st = st\<lparr>svc_preparations := map (\<lambda>(run, stored).
     (run, stored\<lparr>sto_preparation := objects run (sto_preparation stored), sto_input := inputs run\<rparr>))
     (svc_preparations st)\<rparr>"

inductive caller_step :: "'s apply_host \<Rightarrow> apply_service \<Rightarrow> apply_service \<Rightarrow> bool" for host where
  Call: "service_step host st st' \<Longrightarrow> caller_step host st st'"
| Write_shared: "(\<And>run p. same_object (objects run p) p) \<Longrightarrow> caller_step host st (overwrite objects inputs st)"

inductive caller_run :: "'s apply_host \<Rightarrow> apply_service \<Rightarrow> apply_service \<Rightarrow> bool" for host st where
  Caller_start: "caller_run host st st"
| Caller_step: "caller_run host st st' \<Longrightarrow> caller_step host st' st'' \<Longrightarrow> caller_run host st st''"

lemma service_run_caller: "service_run host st st' \<Longrightarrow> caller_run host st st'"
  by (induction rule: service_run.induct) (auto intro: caller_run.intros caller_step.Call)

lemma map_of_overwrite: "map_of (svc_preparations (overwrite objects inputs st)) run =
    map_option (\<lambda>stored. stored\<lparr>sto_preparation := objects run (sto_preparation stored), sto_input := inputs run\<rparr>)
      (map_of (svc_preparations st) run)"
proof -
  have "map_of (map (\<lambda>(r, stored). (r, f r stored)) xs) run = map_option (f run) (map_of xs run)"
    for f :: "string \<Rightarrow> stored_preparation \<Rightarrow> stored_preparation" and xs
    by (induction xs) auto
  then show ?thesis by (simp add: overwrite_def)
qed

text \<open>A call that leaves the preparations and the used approvals alone, and cancels one run at most.\<close>

definition keeps_approvals :: "string \<Rightarrow> apply_service \<Rightarrow> apply_service \<Rightarrow> bool" where
  "keeps_approvals run st st' \<longleftrightarrow> svc_preparations st' = svc_preparations st \<and>
     svc_usedApprovals st' = svc_usedApprovals st \<and>
     set (svc_cancelledRuns st) \<subseteq> set (svc_cancelledRuns st') \<and>
     set (svc_cancelledRuns st') \<subseteq> insert run (set (svc_cancelledRuns st))"

lemma keeps_refl [simp]: "keeps_approvals run st st"
  by (auto simp add: keeps_approvals_def)

lemma keeps_trans: "keeps_approvals run r s \<Longrightarrow> keeps_approvals run s t \<Longrightarrow> keeps_approvals run r t"
  by (auto simp: keeps_approvals_def)

lemma keeps_emit [simp]:
  "keeps_approvals run st (emit_now host kind r d st') = keeps_approvals run st st'"
  "keeps_approvals run st (emit e st') = keeps_approvals run st st'"
  "keeps_approvals run st (tick st') = keeps_approvals run st st'"
  by (simp_all add: keeps_approvals_def emit_now_def emit_def tick_def)

lemma keeps_fields [simp]:
  "keeps_approvals run st (st'\<lparr>svc_rollbackContents := rc\<rparr>) = keeps_approvals run st st'"
  "keeps_approvals run st (st'\<lparr>svc_crashStates := cs\<rparr>) = keeps_approvals run st st'"
  by (simp_all add: keeps_approvals_def)

lemma keeps_cancel [simp]: "keeps_approvals run st st' \<Longrightarrow> keeps_approvals run st (cancel host run st')"
  by (auto simp: cancel_def keeps_approvals_def emit_now_def emit_def tick_def)

lemma keeps_interrupted [simp]: "keeps_approvals run st st' \<Longrightarrow> keeps_approvals run st (interrupted host run b st')"
  by (simp add: interrupted_def)

lemma keeps_rollbackInSandbox:
  "keeps_approvals run st (snd (rollbackInSandbox host r sandbox records digest preExisting st))"
  by (simp add: rollbackInSandbox_def Let_def)

lemma keeps_rollback: "rollback host input st = (r, st') \<Longrightarrow> keeps_approvals run st st'"
  by (auto simp: rollback_def proceed_def check_def createSandbox_def split: sum.splits option.splits)

lemma keeps_open_sandbox: "keeps_approvals run st (snd (open_sandbox host input preparation st))"
  unfolding open_sandbox_def Let_def
  by (intro proceed_invariant [where I = "keeps_approvals run st"]) (auto split: sum.split)

text \<open>The loop only calls the service for evidence, cancellation and rollback contents.\<close>

lemma keeps_recordRollback: "keeps_approvals run st (run_service (recordRollback r o' p s)) =
    keeps_approvals run st (run_service s)"
  by (simp add: recordRollback_def Let_def)

lemma run_service_on_sandbox: "run_service (snd (on_sandbox act s)) = run_service s"
  by (simp add: on_sandbox_def split: prod.split)

lemma keeps_write_operation:
  "keeps_approvals run st (run_service s) \<Longrightarrow>
     keeps_approvals run st (run_service (snd (write_operation host cp r op prior s)))"
  unfolding write_operation_def
  by (intro proceed_invariant [where I = "\<lambda>s. keeps_approvals run st (run_service s)"])
    (simp_all add: run_service_on_sandbox keeps_recordRollback)

lemma keeps_delete_operation:
  "keeps_approvals run st (run_service s) \<Longrightarrow>
     keeps_approvals run st (run_service (snd (delete_operation host r op prior s)))"
  unfolding delete_operation_def
  by (intro proceed_invariant [where I = "\<lambda>s. keeps_approvals run st (run_service s)"])
    (simp_all add: run_service_on_sandbox keeps_recordRollback)

lemma keeps_operation_step:
  "keeps_approvals (prep_runId p) st (run_service s) \<Longrightarrow>
     keeps_approvals (prep_runId p) st (run_service (snd (apply_operation_step host i cp p op s)))"
  unfolding apply_operation_step_def Let_def
  by (auto intro!: proceed_invariant [where I = "\<lambda>s. keeps_approvals (prep_runId p) st (run_service s)"]
      keeps_write_operation keeps_delete_operation split: apply_operation.split)

lemma keeps_run_operations:
  assumes "run_operations host i cp input p sandbox before st = (errors, s)"
  shows "keeps_approvals (prep_runId p) st (run_service s)"
proof -
  let ?start = "\<lparr>run_service = st, run_sandbox = sandbox, run_events = [], run_records = []\<rparr>"
  obtain r t where run: "for_do (apply_operation_step host i cp p) (prep_operations p) ?start = (r, t)"
    by fastforce
  have "keeps_approvals (prep_runId p) st (run_service (snd (for_do (apply_operation_step host i cp p) (prep_operations p) ?start)))"
    by (rule for_do_invariant) (simp_all add: keeps_operation_step)
  then have "keeps_approvals (prep_runId p) st (run_service t)" by (simp add: run)
  then show ?thesis using assms run
    by (auto simp: run_operations_def recordCrashState_def Let_def split: sum.splits)
qed

lemma keeps_finish_run:
  assumes "finish_run host i input p startedAt before errors s = (x, st')"
  shows "keeps_approvals (prep_runId p) (run_service s) st'"
proof -
  let ?st = "interrupted host (prep_runId p) (int_rollback i) (run_service s)"
  obtain outcome sandbox updated st1 where rolled: "rollbackInSandbox host (prep_runId p) (run_sandbox s)
      (run_records s) (snap_digest before) (directories_of before) ?st = ((outcome, sandbox, updated), st1)"
    by (metis prod_cases3 surj_pair)
  have "keeps_approvals (prep_runId p) (run_service s) st1"
    using keeps_rollbackInSandbox [of "prep_runId p" ?st host] rolled
    by (metis keeps_interrupted keeps_refl keeps_trans snd_conv)
  then show ?thesis using assms
    by (auto simp: finish_run_def Let_def rolled split: if_splits)
qed

text \<open>The part of a run after its admission.\<close>

lemma keeps_after_admission:
  assumes "apply_plan host i cp input st = (r, st')"
  shows "(\<exists>e. admit host input st = (Inl e, st')) \<or>
    (\<exists>stored st1. admit host input st = (Inr stored, st1) \<and> keeps_approvals (prep_runId (sto_preparation stored)) st1 st')"
proof -
  obtain q st1 where admitted: "admit host input st = (q, st1)" by fastforce
  show ?thesis
  proof (cases q)
    case (Inl e)
    then show ?thesis using assms admitted by (simp add: apply_plan_def)
  next
    case (Inr stored)
    let ?p = "sto_preparation stored"
    obtain o' st2 where opened: "open_sandbox host input ?p st1 = (o', st2)" by fastforce
    have k2: "keeps_approvals (prep_runId ?p) st1 st2" using keeps_open_sandbox [of "prep_runId ?p" st1 host input ?p] opened by simp
    show ?thesis
    proof (cases o')
      case (Inl e)
      then have "st' = st2" using assms admitted Inr opened by (simp add: apply_plan_def Let_def)
      then show ?thesis using admitted Inr k2 by blast
    next
      case [simp]: (Inr x)
      obtain sandbox before where [simp]: "x = (sandbox, before)" by fastforce
      obtain errors s where run: "run_operations host i cp input ?p sandbox before st2 = (errors, s)"
        by fastforce
      obtain outcome st3 where finish: "finish_run host i input ?p (ah_iso host (now_of host st1)) before errors s =
          (outcome, st3)" by fastforce
      have "st' = st3" using assms admitted \<open>q = Inr stored\<close> opened run finish
        by (simp add: apply_plan_def Let_def)
      then show ?thesis
        using admitted \<open>q = Inr stored\<close> k2 keeps_run_operations [OF run] keeps_finish_run [OF finish] keeps_trans
        by blast
    qed
  qed
qed


section \<open>What holds in every reachable state\<close>

lemma admit_Inr:
  assumes "admit host input st = (Inr stored, st1)"
  shows "map_of (svc_preparations st) (prep_runId (ain_preparation input)) = Some stored"
    and "same_object (sto_preparation stored) (ain_preparation input)" and "\<not> sto_consumed stored"
    and "assertApprovalIntegrity (ah_sha host) (pin_approval (sto_input stored)) = Inr ()"
    and "apply_bindings host (now_of host st) (sto_input stored) = Inr ()"
    and "prep_ready (sto_preparation stored)"
    and "prep_runId (sto_preparation stored) \<notin> set (svc_cancelledRuns st)"
    and "prep_approvalNonce (sto_preparation stored) \<notin> set (svc_usedApprovals st)"
    and "prep_approvalNonce (sto_preparation stored) \<in> set (svc_usedApprovals st1)"
  using assms
  by (auto simp: admit_def proceed_Inr_iff check_def Let_def consume_preparation_def tick_def
      dest: same_object_fields(1) split: option.splits if_splits)

lemma admit_state:
  assumes "admit host input st = (r, st1)"
  shows "set (svc_usedApprovals st) \<subseteq> set (svc_usedApprovals st1) \<and>
    (svc_preparations st1 = svc_preparations st \<or>
     (\<exists>run stored. map_of (svc_preparations st) run = Some stored \<and>
       svc_preparations st1 = AList.update run (stored\<lparr>sto_consumed := True\<rparr>) (svc_preparations st)))"
proof -
  let ?run = "prep_runId (ain_preparation input)"
  show ?thesis
  proof (cases "map_of (svc_preparations st) ?run")
    case None
    then show ?thesis using assms
      by (auto simp: admit_def check_def proceed_def split: sum.splits)
  next
    case (Some stored)
    let ?I = "\<lambda>st1. set (svc_usedApprovals st) \<subseteq> set (svc_usedApprovals st1) \<and>
      (svc_preparations st1 = svc_preparations st \<or>
       svc_preparations st1 = AList.update ?run (stored\<lparr>sto_consumed := True\<rparr>) (svc_preparations st))"
    have "?I (snd (admit host input st))"
      using Some unfolding admit_def
      by (auto simp: check_def proceed_def Let_def consume_preparation_def tick_def split: sum.splits)
    then show ?thesis using assms Some by auto
  qed
qed

definition well_prepared :: "'s apply_host \<Rightarrow> apply_service \<Rightarrow> bool" where
  "well_prepared host st \<longleftrightarrow> (\<forall>run stored. map_of (svc_preparations st) run = Some stored \<longrightarrow>
     prep_runId (sto_preparation stored) = run \<and>
     (\<exists>used now ref. sto_preparation stored = preparation_of host used now ref (sto_input stored)))"

lemma well_prepared_update:
  assumes "well_prepared host st"
    and "prep_runId (sto_preparation stored) = run"
    and "sto_preparation stored = preparation_of host used now ref (sto_input stored)"
    and "svc_preparations st' = AList.update run stored (svc_preparations st)"
  shows "well_prepared host st'"
  using assms by (auto simp: well_prepared_def map_of_update)

lemma service_step_facts:
  assumes "service_step host st st'" and "well_prepared host st"
  shows "well_prepared host st' \<and> set (svc_usedApprovals st) \<subseteq> set (svc_usedApprovals st')"
  using assms
proof (induction rule: service_step.induct)
  case (Prepare input st r st')
  show ?case
  proof (cases "ah_enabled host")
    case False
    then show ?thesis using Prepare by (auto simp: prepare_def assertApplyEnabled_def proceed_def check_def)
  next
    case True
    let ?p = "preparation_of host (svc_usedApprovals st) (now_of host st) (svc_nextRef st) input"
    have update: "svc_preparations st' = AList.update (prep_runId ?p) \<lparr>sto_preparation = ?p,
        sto_input = input, sto_consumed = False\<rparr> (svc_preparations st)"
      and used: "svc_usedApprovals st' = svc_usedApprovals st"
      using Prepare(1) True
      by (auto simp: prepare_def assertApplyEnabled_def Let_def emit_def tick_def check_def)
    have "well_prepared host st'"
      by (rule well_prepared_update [OF Prepare(2) _ _ update, where used = "svc_usedApprovals st" and
          now = "now_of host st" and ref = "svc_nextRef st"]) simp_all
    then show ?thesis using used by simp
  qed
next
  case (Apply i cp input st q st')
  then obtain r1 st1 run where admitted: "admit host input st = (r1, st1)"
    and kept: "keeps_approvals run st1 st'"
    using keeps_after_admission by (metis keeps_refl)
  have "well_prepared host st1"
    using admit_state [OF admitted] Apply(2)
    by (auto simp: well_prepared_def map_of_update split: if_splits)
  then show ?case using kept admit_state [OF admitted]
    by (auto simp: keeps_approvals_def well_prepared_def)
next
  case (Cancel st runId)
  have "keeps_approvals runId st (cancel host runId st)" by simp
  then show ?case using Cancel by (simp add: keeps_approvals_def well_prepared_def)
next
  case (Rollback input st r st')
  then have "keeps_approvals [] st st'" by (intro keeps_rollback)
  then show ?case using Rollback(2) by (simp add: keeps_approvals_def well_prepared_def)
qed

lemma service_run_facts:
  "service_run host st st' \<Longrightarrow> well_prepared host st \<Longrightarrow>
     well_prepared host st' \<and> set (svc_usedApprovals st) \<subseteq> set (svc_usedApprovals st')"
proof (induction rule: service_run.induct)
  case (Step st' st'')
  then show ?case using service_step_facts [OF Step(2)] by blast
qed simp

lemma new_service_well_prepared [simp]: "well_prepared host new_service"
  by (simp add: well_prepared_def new_service_def)

text \<open>A stored preparation still has the contents \<open>prepare\<close> gave it, for the input as it is now.\<close>

definition as_prepared :: "'s apply_host \<Rightarrow> stored_preparation \<Rightarrow> bool" where
  "as_prepared host stored \<longleftrightarrow>
     (\<exists>used now ref. sto_preparation stored = preparation_of host used now ref (sto_input stored))"

lemma service_run_as_prepared:
  assumes "service_run host new_service st" and "map_of (svc_preparations st) run = Some stored"
  shows "as_prepared host stored"
proof -
  have "well_prepared host st" using service_run_facts [OF assms(1)] by simp
  then show ?thesis using assms(2) unfolding well_prepared_def as_prepared_def by blast
qed

text \<open>Whatever callers write, the used approvals only grow.\<close>

lemma caller_step_approvals:
  assumes "caller_step host st st'" shows "set (svc_usedApprovals st) \<subseteq> set (svc_usedApprovals st')"
  using assms
proof (induction rule: caller_step.induct)
  case (Call st st')
  then show ?case
  proof (induction rule: service_step.induct)
    case (Prepare input st r st')
    then show ?case by (cases "ah_enabled host")
      (auto simp: prepare_def assertApplyEnabled_def Let_def emit_def tick_def check_def)
  next
    case (Apply i cp input st q st')
    then obtain r1 st1 run where admitted: "admit host input st = (r1, st1)"
      and kept: "keeps_approvals run st1 st'"
      using keeps_after_admission by (metis keeps_refl)
    then show ?case using admit_state [OF admitted] by (auto simp: keeps_approvals_def)
  next
    case (Cancel st runId)
    have "keeps_approvals runId st (cancel host runId st)" by simp
    then show ?case by (simp add: keeps_approvals_def)
  next
    case (Rollback input st r st')
    then have "keeps_approvals [] st st'" by (intro keeps_rollback)
    then show ?case by (simp add: keeps_approvals_def)
  qed
qed (simp add: overwrite_def)

lemma caller_run_approvals: "caller_run host st st' \<Longrightarrow> set (svc_usedApprovals st) \<subseteq> set (svc_usedApprovals st')"
proof (induction rule: caller_run.induct)
  case (Caller_step st' st'')
  then show ?case using caller_step_approvals [OF Caller_step(2)] by simp
qed simp

section \<open>Preparing\<close>

lemma gate_of_passed: "gate_status (gate_of code r) = GateFailed \<longleftrightarrow> r \<noteq> Inr ()"
  by (cases r) (simp_all add: gate_of_def)

text \<open>What the gates of a preparation check, as one condition.\<close>

definition authorized :: "'s apply_host \<Rightarrow> int \<Rightarrow> prepare_input \<Rightarrow> bool" where
  "authorized host now input \<longleftrightarrow>
     (let approval = pin_approval input; plan = pin_executionPlan input;
          limits = apv_limits approval; policy = pin_sandboxPolicy input in
      computeApprovalIntegrityDigest (ah_sha host) approval = Inr (apv_integrityDigest approval) \<and>
      (case ah_parse host (apv_expiresAt approval) of None \<Rightarrow> False | Some expiry \<Rightarrow> now \<le> expiry) \<and>
      ep_mode plan = ModeApply \<and> pa_required (ep_approval plan) \<and>
      apv_executionPlanId approval = ep_executionPlanId plan \<and>
      apv_executionPlanDigest approval = ep_immutableDigest plan \<and>
      apv_projectSnapshotId approval = pin_projectSnapshotId input \<and>
      apv_policySnapshotId approval = pin_policyDigest input \<and>
      apv_allowedCommandIds approval = [] \<and> apv_allowedNetworkHosts approval = [] \<and>
      \<not> vcs_protectedBranch (pin_vcsState input) \<and>
      lim_maxFiles limits \<le> sp_maxFiles policy \<and> lim_maxBytes limits \<le> sp_maxBytes policy \<and>
      lim_maxOperations limits \<le> sp_maxOperations policy \<and>
      lim_maxDurationSeconds limits \<le> sp_maxDurationSeconds policy)"

text \<open>An approval allows an operation and its path.\<close>

definition allowed_change :: "apply_approval \<Rightarrow> planned_operation \<Rightarrow> bool" where
  "allowed_change approval operation \<longleftrightarrow> pop_operation operation \<in> set (apv_allowedOperations approval) \<and>
     list_ex (\<lambda>allowed. at_or_below (slashes (pop_path operation)) (slashes allowed))
       (apv_allowedPaths approval)"

lemma integrity_iff: "assertApprovalIntegrity sha a = Inr u \<longleftrightarrow>
    computeApprovalIntegrityDigest sha a = Inr (apv_integrityDigest a)"
  by (auto simp: assertApprovalIntegrity_def chain_eq_Inr)

lemma limits_iff: "assertLimitsWithinPolicy a p = Inr u \<longleftrightarrow>
    lim_maxFiles (apv_limits a) \<le> sp_maxFiles p \<and> lim_maxBytes (apv_limits a) \<le> sp_maxBytes p \<and>
    lim_maxOperations (apv_limits a) \<le> sp_maxOperations p \<and>
    lim_maxDurationSeconds (apv_limits a) \<le> sp_maxDurationSeconds p"
  by (auto simp: assertLimitsWithinPolicy_def Let_def)

lemmas binding_defs = assertPlanApplyMode_def assertApprovalBindsPlan_def assertApprovalBindsProject_def
  assertApprovalBindsPolicy_def assertNoCommands_def assertNoNetwork_def assertApprovalNotExpired_def

lemma bindings_authorized:
  "assertApprovalIntegrity (ah_sha host) (pin_approval input) = Inr u \<and> apply_bindings host now input = Inr v \<longleftrightarrow>
     authorized host now input"
  unfolding integrity_iff apply_bindings_def authorized_def Let_def chain_eq_Inr limits_iff guard_simps
  by (auto simp: binding_defs split: option.splits if_splits)

lemma check_operation_iff: "check_operation a o' = Inr u \<longleftrightarrow> allowed_change a o'"
  by (simp add: check_operation_def chain_eq_Inr assertOperationAllowed_def
      assertPathAllowedByApproval_def allowed_change_def)

lemma prepared_ready_iff:
  "prep_ready (preparation_of host used now ref input) \<longleftrightarrow>
     authorized host now input \<and> apv_nonce (pin_approval input) \<notin> set used \<and>
     list_all (allowed_change (pin_approval input)) (operationsFromPlan (pin_executionPlan input))"
proof -
  have gates: "prep_ready (preparation_of host used now ref input) \<longleftrightarrow>
      (\<forall>g \<in> set (prepare_gates host used now input). gate_status g \<noteq> GateFailed)"
    by (simp add: preparation_of_def Let_def filter_empty_conv)
  show ?thesis
    unfolding gates prepare_gates_def Let_def bindings_authorized [symmetric, where u = "()" and v = "()"]
      apply_bindings_def chain_eq_Inr
    by (auto simp: gate_of_passed check_operation_iff list_all_iff check_one_time_def check_plan_def
        check_execution_denied_def check_vcs_def chain_eq_Inr)
qed


text \<open>
  C8: \<open>prepare\<close> reports a plan as ready exactly when the approval's integrity digest matches its
  content, it has not expired and its nonce is unused, it is bound to this apply-mode plan, project
  snapshot and policy, asks for no commands, hosts or higher limits than the sandbox policy, the
  branch is not protected, and every operation and path of the plan is allowed. The preparation is
  registered under its run.
\<close>

theorem prepare_ready_iff:
  "case prepare host input st of
     (Inl e, st') \<Rightarrow> \<not> ah_enabled host \<and> st' = st
   | (Inr p, st') \<Rightarrow> ah_enabled host \<and>
       (prep_ready p \<longleftrightarrow> authorized host (now_of host st) input \<and>
          apv_nonce (pin_approval input) \<notin> set (svc_usedApprovals st) \<and>
          list_all (allowed_change (pin_approval input)) (operationsFromPlan (pin_executionPlan input))) \<and>
       prep_operations p = operationsFromPlan (pin_executionPlan input) \<and>
       map_of (svc_preparations st') (prep_runId p) =
         Some \<lparr>sto_preparation = p, sto_input = input, sto_consumed = False\<rparr> \<and>
       svc_usedApprovals st' = svc_usedApprovals st"
proof -
  have operations: "prep_operations (preparation_of host used now ref input) =
      operationsFromPlan (pin_executionPlan input)" for used now ref
    by (simp add: preparation_of_def Let_def)
  show ?thesis
    by (cases "ah_enabled host")
      (simp_all add: prepare_def assertApplyEnabled_def check_def Let_def emit_def tick_def map_of_update
        prepared_ready_iff operations)
qed

section \<open>Authorisation\<close>

lemma planned_from_change:
  "operation \<in> set (operationsFromPlan plan) \<Longrightarrow> \<exists>change \<in> set (ep_fileChanges plan).
     pop_operation operation = planOperationFor (fc_operation change) \<and> pop_path operation = fc_path change \<and>
     pop_contentDigest operation = fc_contentDigest change"
  by (auto simp: operationsFromPlan_def in_set_enumerate_eq intro!: bexI [OF _ nth_mem])

text \<open>Every event of a run reports one of the operations.\<close>

definition reports_only :: "planned_operation list \<Rightarrow> 's run_state \<Rightarrow> bool" where
  "reports_only operations s \<longleftrightarrow> (\<forall>e \<in> set (run_events s). \<exists>operation \<in> set operations. \<exists>status.
     e = operation_event_of operation status)"

lemma reports_only_simps [simp]:
  "reports_only operations (snd (on_sandbox act s)) = reports_only operations s"
  "reports_only operations (s\<lparr>run_service := service\<rparr>) = reports_only operations s"
  "reports_only operations (recordRollback r op p s) = reports_only operations s"
  by (simp_all add: reports_only_def on_sandbox_def recordRollback_def Let_def split: prod.split)

lemma reports_only_push_event [simp]:
  "op \<in> set operations \<Longrightarrow> reports_only operations (push_event op status s) = reports_only operations s"
  by (auto simp: reports_only_def push_event_def)

lemma reports_only_start: "run_events s = [] \<Longrightarrow> reports_only operations s"
  by (simp add: reports_only_def)

lemma write_reports:
  "reports_only operations s \<Longrightarrow> op \<in> set operations \<Longrightarrow>
     reports_only operations (snd (write_operation host cp r op prior s))"
  unfolding write_operation_def
  by (intro proceed_invariant [where I = "reports_only operations"]) simp_all

lemma delete_reports:
  "reports_only operations s \<Longrightarrow> op \<in> set operations \<Longrightarrow>
     reports_only operations (snd (delete_operation host r op prior s))"
  unfolding delete_operation_def
  by (intro proceed_invariant [where I = "reports_only operations"]) simp_all

lemma step_reports:
  "op \<in> set operations \<Longrightarrow> reports_only operations s \<Longrightarrow>
     reports_only operations (snd (apply_operation_step host i cp p op s))"
  unfolding apply_operation_step_def Let_def
  by (auto intro!: proceed_invariant [where I = "reports_only operations"]
      write_reports delete_reports split: apply_operation.split)

lemma loop_events:
  assumes "run_operations host i cp input p sandbox before st = (errors, s)"
  shows "reports_only (prep_operations p) s"
proof -
  let ?start = "\<lparr>run_service = st, run_sandbox = sandbox, run_events = [], run_records = []\<rparr>"
  have "reports_only (prep_operations p)
      (snd (for_do (apply_operation_step host i cp p) (prep_operations p) ?start))"
    by (rule for_do_invariant) (simp_all add: step_reports reports_only_start)
  moreover obtain r t where "for_do (apply_operation_step host i cp p) (prep_operations p) ?start = (r, t)"
    by fastforce
  ultimately show ?thesis using assms
    by (auto simp: run_operations_def reports_only_def split: sum.splits)
qed

lemma reported_inside:
  assumes "reports_only (operationsFromPlan plan) s" and "e \<in> set (run_events s)"
    and "list_all (allowed_change approval) (operationsFromPlan plan)"
  shows "(oev_operation e, oev_path e) \<in>
      (\<lambda>change. (planOperationFor (fc_operation change), fc_path change)) ` set (ep_fileChanges plan) \<inter>
      {(operation, path). operation \<in> set (apv_allowedOperations approval) \<and>
        list_ex (\<lambda>allowed. at_or_below (slashes path) (slashes allowed)) (apv_allowedPaths approval)}"
proof -
  obtain operation status where e: "operation \<in> set (operationsFromPlan plan)"
    "e = operation_event_of operation status"
    using assms(1,2) unfolding reports_only_def by blast
  obtain change where change: "change \<in> set (ep_fileChanges plan)"
    "pop_operation operation = planOperationFor (fc_operation change)" "pop_path operation = fc_path change"
    using planned_from_change [OF e(1)] by blast
  have "allowed_change approval operation" using assms(3) e(1) by (simp add: list_all_iff)
  then show ?thesis using change by (simp add: e(2) operation_event_of_def allowed_change_def image_iff) metis
qed


text \<open>
  C7: An approval is used at most once: after a run with it, whatever calls the service receives and
  whatever its callers write to the objects they share with it, no other run has the same nonce.
\<close>

theorem approval_used_once:
  assumes "apply_plan host interrupts contentProvider input st = (Inr outcome, st1)"
    and "caller_run host st1 st2"
    and "apply_plan host interrupts' contentProvider' input' st2 = (Inr outcome', st3)"
  shows "prep_approvalNonce (ain_preparation input') \<noteq> prep_approvalNonce (ain_preparation input)"
proof -
  have admitted: "\<exists>stored sa. admit host i st = (Inr stored, sa) \<and> keeps_approvals (prep_runId (sto_preparation stored)) sa st'"
    if "apply_plan host ints cp i st = (Inr x, st')" for ints cp i st x st'
  proof -
    have "admit host i st \<noteq> (Inl e, st')" for e
      using that by (auto simp: apply_plan_def)
    then show ?thesis using keeps_after_admission [OF that] by blast
  qed
  obtain stored sa where a: "admit host input st = (Inr stored, sa)" "keeps_approvals (prep_runId (sto_preparation stored)) sa st1"
    using admitted [OF assms(1)] by blast
  obtain stored' sb where b: "admit host input' st2 = (Inr stored', sb)"
    using admitted [OF assms(3)] by blast
  have "prep_approvalNonce (sto_preparation stored) \<in> set (svc_usedApprovals st2)"
    using admit_Inr(9) [OF a(1)] a(2) caller_run_approvals [OF assms(2)]
    by (auto simp: keeps_approvals_def)
  then show ?thesis
    using admit_Inr(8) [OF b] same_object_fields(2) [OF admit_Inr(2) [OF a(1)]]
      same_object_fields(2) [OF admit_Inr(2) [OF b]] by auto
qed

end
