(* ===== verification/Apply_Runs.thy ===== *)
theory Apply_Runs
  imports Apply_Memory
begin

text \<open>
  A run that nothing cancels, compared with making the operations of its plan one after the other:
  the loop of \<open>apply\<close> ends without an error exactly when every operation can be made, and then the
  run is reported as applied.
\<close>

section \<open>Making operations\<close>

text \<open>
  The sandbox after one operation, where it can be made: a file to write has a content with the digest
  of the plan, a file to delete can be read, and the sandbox accepts the change.
\<close>

definition made :: "('e + unit) \<times> 's \<Rightarrow> 's option" where
  "made outcome = (case outcome of (Inl e, s) \<Rightarrow> None | (Inr u, s) \<Rightarrow> Some s)"

definition make_operation :: "'s sandbox_ops \<Rightarrow> (string \<Rightarrow> string) \<Rightarrow> (string \<Rightarrow> string result) \<Rightarrow>
    planned_operation \<Rightarrow> 's \<Rightarrow> 's option" where
  "make_operation ops sha contentProvider operation s =
     (let path = pop_path operation in
      if pop_operation operation = DeleteFile
      then (case sbx_read ops s path of Inl e \<Rightarrow> None | Inr c \<Rightarrow> made (sbx_remove ops path s))
      else (case contentProvider path of
          Inl e \<Rightarrow> None
        | Inr c \<Rightarrow> if pop_contentDigest operation \<in> {None, Some (digestBytes sha c)}
                  then made (sbx_write ops path c s) else None))"

fun make_operations :: "'s sandbox_ops \<Rightarrow> (string \<Rightarrow> string) \<Rightarrow> (string \<Rightarrow> string result) \<Rightarrow>
    planned_operation list \<Rightarrow> 's \<Rightarrow> 's option" where
  "make_operations ops sha contentProvider [] s = Some s"
| "make_operations ops sha contentProvider (operation # operations) s =
     Option.bind (make_operation ops sha contentProvider operation s)
       (make_operations ops sha contentProvider operations)"

section \<open>The loop of a run\<close>

definition uncancelled :: "apply_interrupts \<Rightarrow> bool" where
  "uncancelled interrupts \<longleftrightarrow>
     (\<forall>i. \<not> int_operation interrupts i) \<and> \<not> int_rollback interrupts \<and> \<not> int_completion interrupts"

lemma interrupted_False [simp]: "interrupted host run False st = st"
  by (simp add: interrupted_def)

text \<open>How a state of the loop goes on: an operation was made, or an error ends it.\<close>

definition goes_on :: "'s run_state \<Rightarrow> 's option \<Rightarrow> operation_event list \<Rightarrow> exn + unit \<Rightarrow> 's run_state \<Rightarrow> bool" where
  "goes_on s end_state events r t \<longleftrightarrow>
     svc_cancelledRuns (run_service t) = svc_cancelledRuns (run_service s) \<and>
     (case end_state of
        None \<Rightarrow> isl r
      | Some b \<Rightarrow> r = Inr () \<and> run_sandbox t = b \<and> run_events t = run_events s @ events)"

lemma write_goes_on:
  assumes "write_operation host contentProvider run operation prior s = (r, t)"
    and "pop_operation operation \<noteq> DeleteFile"
  shows "goes_on s (make_operation (ah_ops host) (ah_sha host) contentProvider operation (run_sandbox s))
    [operation_event_of operation OpApplied] r t"
proof (cases "contentProvider (pop_path operation)")
  case (Inl e)
  then show ?thesis using assms
    by (auto simp: write_operation_def check_def goes_on_def make_operation_def)
next
  case (Inr c)
  show ?thesis
  proof (cases "pop_contentDigest operation \<in> {None, Some (digestBytes (ah_sha host) c)}")
    case True
    obtain q b where w: "sbx_write (ah_ops host) (pop_path operation) c (run_sandbox s) = (q, b)" by fastforce
    show ?thesis using assms Inr True w
      by (cases q) (auto simp: write_operation_def check_def goes_on_def make_operation_def made_def
          on_sandbox_def)
  next
    case False
    then show ?thesis using assms Inr
      by (cases "pop_contentDigest operation")
        (auto simp: write_operation_def check_def goes_on_def make_operation_def)
  qed
qed

lemma delete_goes_on:
  assumes "delete_operation host run operation (captureBefore (ah_ops host) (run_sandbox s) (pop_path operation)) s = (r, t)"
    and "pop_operation operation = DeleteFile"
  shows "goes_on s (make_operation (ah_ops host) (ah_sha host) contentProvider operation (run_sandbox s))
    [operation_event_of operation OpApplied] r t"
proof (cases "sbx_read (ah_ops host) (run_sandbox s) (pop_path operation)")
  case (Inl e)
  then show ?thesis using assms
    by (auto simp: delete_operation_def captureBefore_def check_def goes_on_def make_operation_def)
next
  case (Inr c)
  obtain q b where w: "sbx_remove (ah_ops host) (pop_path operation) (run_sandbox s) = (q, b)" by fastforce
  show ?thesis using assms Inr w
    by (cases q) (auto simp: delete_operation_def captureBefore_def check_def goes_on_def make_operation_def
        made_def on_sandbox_def)
qed

lemma step_goes_on:
  assumes "apply_operation_step host interrupts contentProvider p operation s = (r, t)"
    and "uncancelled interrupts" and "prep_runId p \<notin> set (svc_cancelledRuns (run_service s))"
    and "assertOperationAllowedGate p operation = Inr ()" and "file_operation operation"
  shows "goes_on s (make_operation (ah_ops host) (ah_sha host) contentProvider operation (run_sandbox s))
    [operation_event_of operation OpApplied] r t"
proof -
  let ?prior = "captureBefore (ah_ops host) (run_sandbox s) (pop_path operation)"
  have "(r, t) = (if pop_operation operation = DeleteFile then delete_operation host (prep_runId p) operation ?prior s
      else write_operation host contentProvider (prep_runId p) operation ?prior s)"
    using assms by (cases "pop_operation operation")
      (auto simp: apply_operation_step_def Let_def uncancelled_def check_def file_operation_def)
  then show ?thesis
    using write_goes_on [of host contentProvider "prep_runId p" operation ?prior s r t]
      delete_goes_on [of host "prep_runId p" operation s r t] by (auto split: if_splits)
qed

lemma loop_goes_on:
  assumes "for_do (apply_operation_step host interrupts contentProvider p) operations s = (r, t)"
    and "uncancelled interrupts" and "prep_runId p \<notin> set (svc_cancelledRuns (run_service s))"
    and "list_all (\<lambda>operation. assertOperationAllowedGate p operation = Inr () \<and> file_operation operation) operations"
  shows "goes_on s (make_operations (ah_ops host) (ah_sha host) contentProvider operations (run_sandbox s))
    (map (\<lambda>operation. operation_event_of operation OpApplied) operations) r t"
  using assms(1,3,4)
proof (induction operations arbitrary: s)
  case Nil
  then show ?case by (simp add: goes_on_def)
next
  case (Cons operation operations)
  obtain r1 s1 where step: "apply_operation_step host interrupts contentProvider p operation s = (r1, s1)" by fastforce
  note one = step_goes_on [OF step assms(2) Cons.prems(2)]
  show ?case
  proof (cases r1)
    case (Inl e)
    then show ?thesis using one Cons.prems step by (auto simp: goes_on_def split: option.splits)
  next
    case (Inr u)
    then have rest: "for_do (apply_operation_step host interrupts contentProvider p) operations s1 = (r, t)"
      using Cons.prems(1) step by simp
    then show ?thesis
      using one Cons.IH [OF rest] Cons.prems Inr by (auto simp: goes_on_def split: option.splits)
  qed
qed

section \<open>The result of a run\<close>

lemma finish_uncancelled:
  assumes "finish_run host interrupts input p startedAt before errors s = ((result, final), st')"
    and "uncancelled interrupts" and "prep_runId p \<notin> set (svc_cancelledRuns (run_service s))"
  shows "if errors = [] then res_status result = Applied \<and> res_errors result = [] \<and>
      res_operations result = run_events s \<and> final = sbx_close (ah_ops host) (run_sandbox s)
    else res_status result \<in> {RolledBack, RollbackFailed}"
proof (cases "errors = []")
  case True
  then show ?thesis using assms
    by (auto simp: finish_run_def Let_def uncancelled_def apply_status_of_def)
next
  case False
  obtain outcome end_state updated st1 where rolled: "rollbackInSandbox host (prep_runId p) (run_sandbox s)
      (run_records s) (snap_digest before) (directories_of before) (run_service s) = ((outcome, end_state, updated), st1)"
    by (metis prod_cases3 surj_pair)
  have "svc_cancelledRuns st1 = svc_cancelledRuns (run_service s)"
    using rolled by (auto simp: rollbackInSandbox_def Let_def)
  then show ?thesis using assms False
    by (auto simp: finish_run_def Let_def uncancelled_def rolled apply_status_of_def)
qed

text \<open>A run of operations whose gates are passed, from an open sandbox.\<close>

lemma uncancelled_run:
  assumes "run_operations host interrupts contentProvider input p sandbox before st = (errors, s)"
    and "finish_run host interrupts input p startedAt before errors s = ((result, final), st')"
    and "uncancelled interrupts" and "prep_runId p \<notin> set (svc_cancelledRuns st)"
    and "list_all (\<lambda>operation. assertOperationAllowedGate p operation = Inr () \<and> file_operation operation)
      (prep_operations p)"
  shows "case make_operations (ah_ops host) (ah_sha host) contentProvider (prep_operations p) sandbox of
      None \<Rightarrow> res_status result \<in> {RolledBack, RollbackFailed}
    | Some b \<Rightarrow> res_status result = Applied \<and> res_errors result = [] \<and> final = sbx_close (ah_ops host) b \<and>
        res_operations result = map (\<lambda>operation. operation_event_of operation OpApplied) (prep_operations p)"
proof -
  let ?start = "\<lparr>run_service = st, run_sandbox = sandbox, run_events = [], run_records = []\<rparr>"
  obtain r t where loop: "for_do (apply_operation_step host interrupts contentProvider p) (prep_operations p) ?start = (r, t)"
    by fastforce
  note on = loop_goes_on [OF loop assms(3) _ assms(5)]
  have s: "(errors = [] \<longleftrightarrow> r = Inr ()) \<and> run_sandbox s = run_sandbox t \<and> run_events s = run_events t \<and>
      svc_cancelledRuns (run_service s) = svc_cancelledRuns (run_service t)"
    using assms(1) loop by (auto simp: run_operations_def recordCrashState_def Let_def split: sum.splits)
  then have "prep_runId p \<notin> set (svc_cancelledRuns (run_service s))" using on assms(4) by (simp add: goes_on_def)
  note result = finish_uncancelled [OF assms(2,3) this]
  show ?thesis
    using on assms(4) s result
    by (cases "make_operations (ah_ops host) (ah_sha host) contentProvider (prep_operations p) sandbox")
      (auto simp: goes_on_def isl_def split: if_splits)
qed

section \<open>The gates of a ready preparation\<close>

lemma gate_of_code: "gate_code (gate_of code r) = code"
  by (cases r) (simp_all add: gate_of_def)

lemma ready_gates:
  assumes "prep_ready (preparation_of host used now ref input)"
    and "operation \<in> set (operationsFromPlan (pin_executionPlan input))"
  shows "assertOperationAllowedGate (preparation_of host used now ref input) operation = Inr ()"
proof -
  let ?gates = "prepare_gates host used now input"
  have passed: "gate_status g \<noteq> GateFailed" if "g \<in> set ?gates" for g
    using assms(1) that by (simp add: preparation_of_def Let_def filter_empty_conv)
  have "gate_of (operation_gate_code operation) (check_operation (pin_approval input) operation) \<in> set ?gates"
    unfolding prepare_gates_def Let_def set_append using assms(2) by (intro UnI2) (simp only: set_map image_eqI)
  then have "find (\<lambda>gate. gate_code gate = operation_gate_code operation) ?gates \<noteq> None"
    unfolding find_None_iff using gate_of_code by blast
  then obtain g where "find (\<lambda>gate. gate_code gate = operation_gate_code operation) ?gates = Some g"
    by blast
  moreover from this have "gate_status g = GatePassed"
    using passed [of g] by (cases "gate_status g") (auto simp: find_Some_iff)
  ultimately show ?thesis
    by (simp add: assertOperationAllowedGate_def preparation_of_def Let_def)
qed

end
