(* ===== verification/Apply_Safety.thy ===== *)
theory Apply_Safety
  imports Apply_Runs
begin

text \<open>
  What the apply service guarantees on in-memory sandboxes, on a run that creates one file, and the
  behaviours of the code that its interface does not suggest.
\<close>

section \<open>All or nothing\<close>

lemma prepared_operations:
  assumes "service_run host new_service st" and "map_of (svc_preparations st) run = Some stored"
  shows "prep_operations (sto_preparation stored) = operationsFromPlan (pin_executionPlan (sto_input stored))"
proof -
  have "well_prepared host st" using service_run_facts [OF assms(1)] by simp
  then obtain used now ref where "sto_preparation stored = preparation_of host used now ref (sto_input stored)"
    using assms(2) unfolding well_prepared_def by blast
  then show ?thesis by (simp add: preparation_of_def Let_def)
qed

lemma fresh_box_files: "memory_provider clock policy root i = Inr b \<Longrightarrow> box_files b = Map.empty"
  by (rule ext) (auto simp: memory_provider_def chain_eq_Inr new_session_def box_files_def contents_def
    directory_entry_def split: if_splits)

text \<open>
  C5: A run on in-memory sandboxes, for callers that do not write to the objects they share with the
  service, is all or nothing. If it reports that the plan is applied, the
  sandbox holds exactly what the plan's changes make in order, every content has the digest the
  plan names, and every operation is reported as applied. If it reports that it rolled back, or was
  cancelled and is recoverable, and no two different texts of the two states of the sandbox have
  the same hash, the sandbox holds no file of the run.
\<close>

theorem apply_all_or_nothing:
  assumes "ah_ops host = memory_ops (ah_collate host) (ah_sha host) clock"
    and "ah_provider host = Some (memory_provider clock)" and "service_run host new_service st"
    and "apply_plan host interrupts contentProvider input st = (Inr (result, final), st')"
  shows "\<exists>stored sandbox end_state.
    map_of (svc_preparations st) (prep_runId (ain_preparation input)) = Some stored \<and>
    memory_provider clock (pin_sandboxPolicy (sto_input stored)) (''/sandbox/'' @ ain_sandboxId input)
      (ain_sandboxId input) = Inr sandbox \<and> final = sbx_close (ah_ops host) end_state \<and>
    (res_status result = Applied \<longrightarrow>
      (let operations = operationsFromPlan (pin_executionPlan (sto_input stored)) in
       box_files final = foldl (file_effect path_key contentProvider) Map.empty operations \<and>
       list_all (content_matches (ah_sha host) contentProvider) operations \<and>
       res_operations result = map (\<lambda>operation. operation_event_of operation OpApplied) operations)) \<and>
    (res_status result = RolledBack \<or>
        (res_status result = Cancelled \<and> res_recoverable result \<and> \<not> int_completion interrupts) \<longrightarrow>
      boxes_separated (ah_collate host) (ah_sha host) end_state sandbox \<longrightarrow>
      box_files final |` named_paths = Map.empty)"
proof -
  have ok: "\<forall>policy root i b. memory_provider clock policy root i = Inr b \<longrightarrow> box_ok b"
    using memory_provider_ok by blast
  obtain stored st1 sandbox end_state where run: "admit host input st = (Inr stored, st1)"
    "memory_provider clock (pin_sandboxPolicy (sto_input stored)) (''/sandbox/'' @ ain_sandboxId input)
      (ain_sandboxId input) = Inr sandbox" "final = sbx_close (ah_ops host) end_state"
    and applied: "res_status result = Applied \<longrightarrow>
      list_all file_operation (prep_operations (sto_preparation stored)) \<longrightarrow>
      box_files final = foldl (file_effect path_key contentProvider) (box_files sandbox)
        (prep_operations (sto_preparation stored)) \<and>
      list_all (content_matches (ah_sha host) contentProvider) (prep_operations (sto_preparation stored)) \<and>
      res_operations result = map (\<lambda>operation. operation_event_of operation OpApplied)
        (prep_operations (sto_preparation stored))"
    and undone: "res_status result = RolledBack \<or>
        (res_status result = Cancelled \<and> res_recoverable result \<and> \<not> int_completion interrupts) \<longrightarrow>
      boxes_separated (ah_collate host) (ah_sha host) end_state sandbox \<longrightarrow>
      box_files final |` named_paths = box_files sandbox |` named_paths"
    using memory_box.all_or_nothing [OF assms(1,2) ok assms(4), folded assms(1)]
    by (elim exE conjE) (rule that)
  have empty: "box_files sandbox = Map.empty" using run(2) by (rule fresh_box_files)
  have found: "map_of (svc_preparations st) (prep_runId (ain_preparation input)) = Some stored"
    using admit_Inr(1) [OF run(1)] .
  note operations = prepared_operations [OF assms(3) found]
  show ?thesis
    using found run(2,3) applied undone
    by (intro exI [of _ stored] exI [of _ sandbox] exI [of _ end_state])
      (simp add: empty operations operationsFromPlan_file_operations Let_def)
qed

section \<open>A run returns\<close>

lemma finish_run_runId:
  "finish_run host interrupts input preparation startedAt before errors s = ((result, final), st') \<Longrightarrow>
     res_runId result = prep_runId preparation"
  by (auto simp: finish_run_def Let_def split: if_splits prod.splits)

lemma apply_plan_returns:
  assumes "admit host input st = (Inr stored, st1)" and "ah_provider host = Some provider"
    and "provider (pin_sandboxPolicy (sto_input stored)) (''/sandbox/'' @ ain_sandboxId input)
      (ain_sandboxId input) = Inr sandbox"
    and "sbx_snapshot (ah_ops host) sandbox = Inr before"
  shows "\<exists>result final st'. apply_plan host interrupts contentProvider input st = (Inr (result, final), st')"
proof -
  let ?run = "prep_runId (ain_preparation input)"
  have stored: "map_of (svc_preparations st1) ?run = Some (stored\<lparr>sto_consumed := True\<rparr>)"
    using admit_stored [OF assms(1)] same_object_fields(1) [OF admit_Inr(2) [OF assms(1)]] by simp
  have id: "prep_runId (sto_preparation stored) = ?run" using same_object_fields(1) [OF admit_Inr(2) [OF assms(1)]] .
  obtain st2 where "open_sandbox host input (sto_preparation stored) st1 = (Inr (sandbox, before), st2)"
    using stored assms(2-4) by (simp add: open_sandbox_def Let_def createSandbox_def id check_def)
  then show ?thesis using assms(1)
    by (simp add: apply_plan_def Let_def split: prod.split)
qed

lemma memory_provider_returns: "\<exists>box. memory_provider clock policy root i = Inr box \<and>
    (\<exists>before. sbx_snapshot (memory_ops lc sha clock) box = Inr before)"
proof -
  have "finite_json (snapshot_json root entries)" for root entries by simp
  then show ?thesis
    by (simp add: memory_provider_def new_session_def memory_ops_def session_snapshot_def assertOpen_def
        digestJson_finite Let_def)
qed

lemma prepare_Inr:
  assumes "prepare host input st = (Inr p, st')"
  shows "map_of (svc_preparations st') (prep_runId p) =
      Some \<lparr>sto_preparation = p, sto_input = input, sto_consumed = False\<rparr>"
    and "prep_runId p = ''run_'' @ take 16 (apv_nonce (pin_approval input))"
    and "prep_approvalNonce p = apv_nonce (pin_approval input)"
    and "svc_usedApprovals st' = svc_usedApprovals st" and "svc_cancelledRuns st' = svc_cancelledRuns st"
    and "ah_enabled host" and "svc_ticks st' = svc_ticks st + 1"
    and "prep_ready p \<Longrightarrow> apv_nonce (pin_approval input) \<notin> set (svc_usedApprovals st)"
proof -
  have enabled: "ah_enabled host" using assms
    by (cases "ah_enabled host") (simp_all add: prepare_def assertApplyEnabled_def check_def)
  let ?p = "preparation_of host (svc_usedApprovals st) (now_of host st) (svc_nextRef st) input"
  have eq: "p = ?p" and st': "st' = emit (evidence ''apply.prepared'' (prep_preparedAt ?p) (prep_runId ?p)
        (Some (prepared_detail ?p))) ((tick st)\<lparr>svc_nextRef := svc_nextRef st + 1,
        svc_preparations := AList.update (prep_runId ?p) \<lparr>sto_preparation = ?p, sto_input = input,
          sto_consumed = False\<rparr> (svc_preparations st)\<rparr>)"
    using assms enabled by (auto simp: prepare_def assertApplyEnabled_def check_def Let_def)
  show "map_of (svc_preparations st') (prep_runId p) =
      Some \<lparr>sto_preparation = p, sto_input = input, sto_consumed = False\<rparr>"
    unfolding st' eq by (simp add: map_of_update)
  show "prep_runId p = ''run_'' @ take 16 (apv_nonce (pin_approval input))"
    "prep_approvalNonce p = apv_nonce (pin_approval input)"
    unfolding eq by (simp_all add: preparation_of_def Let_def)
  show "svc_usedApprovals st' = svc_usedApprovals st" "svc_cancelledRuns st' = svc_cancelledRuns st"
    "svc_ticks st' = svc_ticks st + 1"
    unfolding st' by (simp_all add: emit_def tick_def)
  show "ah_enabled host" by (rule enabled)
  show "apv_nonce (pin_approval input) \<notin> set (svc_usedApprovals st)" if "prep_ready p"
    using that unfolding eq prepared_ready_iff by simp
qed

lemma prepare_preparation:
  "prepare host input st = (Inr p, st') \<Longrightarrow>
     p = preparation_of host (svc_usedApprovals st) (now_of host st) (svc_nextRef st) input"
  by (cases "ah_enabled host") (auto simp: prepare_def assertApplyEnabled_def check_def Let_def)

lemma admit_effect:
  "admit host input st = (Inr stored, st1) \<Longrightarrow>
     set (svc_usedApprovals st1) = insert (prep_approvalNonce (sto_preparation stored)) (set (svc_usedApprovals st)) \<and>
     svc_cancelledRuns st1 = svc_cancelledRuns st"
  by (auto simp: admit_def proceed_Inr_iff check_def Let_def consume_preparation_def tick_def
      split: option.splits if_splits)

lemma open_sandbox_cancelled:
  "svc_cancelledRuns (snd (open_sandbox host input preparation st)) = svc_cancelledRuns st"
  unfolding open_sandbox_def Let_def
  by (intro proceed_invariant [where I = "\<lambda>st'. svc_cancelledRuns st' = svc_cancelledRuns st"])
    (auto simp: check_def emit_now_def emit_def tick_def split: sum.split)

lemma stored_admitted:
  assumes "map_of (svc_preparations st) (prep_runId q) = Some stored" and "\<not> sto_consumed stored"
    and "same_object (sto_preparation stored) q" and "prep_ready q" and "ah_enabled host"
    and "authorized host (now_of host st) (sto_input stored)" and "sandboxId \<noteq> []"
    and "prep_runId q \<notin> set (svc_cancelledRuns st)" and "prep_approvalNonce q \<notin> set (svc_usedApprovals st)"
  obtains st1 where "admit host \<lparr>ain_preparation = q, ain_sandboxId = sandboxId\<rparr> st = (Inr stored, st1)"
proof -
  have "assertApprovalIntegrity (ah_sha host) (pin_approval (sto_input stored)) = Inr ()"
    "apply_bindings host (now_of host st) (sto_input stored) = Inr ()"
    using assms(6) bindings_authorized by blast+
  then show thesis
    using that assms(1-5,7-9) same_object_fields [OF assms(3)]
    by (simp add: admit_def assertApplyEnabled_def check_def Let_def consume_preparation_def tick_def)
qed

lemma prepared_admitted:
  assumes "prepare host input st = (Inr p, st1)" and "prep_ready p"
    and "authorized host (now_of host st1) input" and "prep_runId p \<notin> set (svc_cancelledRuns st)"
    and "sandboxId \<noteq> []"
  obtains st2 where "admit host \<lparr>ain_preparation = p, ain_sandboxId = sandboxId\<rparr> st1 =
    (Inr \<lparr>sto_preparation = p, sto_input = input, sto_consumed = False\<rparr>, st2)"
  by (rule stored_admitted [OF prepare_Inr(1) [OF assms(1)], of host sandboxId])
    (use assms prepare_Inr [OF assms(1)] in simp_all)

lemma memory_plan_returns:
  assumes "admit host input st = (Inr stored, st1)" and "ah_ops host = memory_ops lc sha clock"
    and "ah_provider host = Some (memory_provider clock)"
  obtains result final st' where "apply_plan host interrupts contentProvider input st = (Inr (result, final), st')"
    and "res_runId result = prep_runId (sto_preparation stored)"
proof -
  obtain box before where "memory_provider clock (pin_sandboxPolicy (sto_input stored))
      (''/sandbox/'' @ ain_sandboxId input) (ain_sandboxId input) = Inr box"
    "sbx_snapshot (ah_ops host) box = Inr before"
    using memory_provider_returns unfolding assms(2) by blast
  then obtain result final st2 where run: "apply_plan host interrupts contentProvider input st =
      (Inr (result, final), st2)"
    using apply_plan_returns [OF assms(1,3)] by blast
  then have "res_runId result = prep_runId (sto_preparation stored)"
    using assms(1) by (elim apply_plan_Inr) (simp add: finish_run_runId)
  then show thesis using that run by blast
qed

text \<open>What an admitted run returns, in terms of the operations of its preparation.\<close>

lemma admitted_run:
  assumes "admit host input st = (Inr stored, sa)" and "ah_ops host = memory_ops lc sha clock"
    and "ah_provider host = Some (memory_provider clock)"
  obtains result final st2 box where "apply_plan host interrupts contentProvider input st = (Inr (result, final), st2)"
    and "res_runId result = prep_runId (sto_preparation stored)"
    and "memory_provider clock (pin_sandboxPolicy (sto_input stored)) (''/sandbox/'' @ ain_sandboxId input)
      (ain_sandboxId input) = Inr box"
    and "uncancelled interrupts \<Longrightarrow> list_all (\<lambda>operation.
        assertOperationAllowedGate (sto_preparation stored) operation = Inr () \<and> file_operation operation)
        (prep_operations (sto_preparation stored)) \<Longrightarrow>
      case make_operations (ah_ops host) (ah_sha host) contentProvider (prep_operations (sto_preparation stored)) box of
        None \<Rightarrow> res_status result \<in> {RolledBack, RollbackFailed}
      | Some b \<Rightarrow> res_status result = Applied \<and> res_errors result = [] \<and> final = sbx_close (ah_ops host) b \<and>
          res_operations result = map (\<lambda>operation. operation_event_of operation OpApplied)
            (prep_operations (sto_preparation stored))"
proof -
  let ?p = "sto_preparation stored"
  obtain result final st2 where run: "apply_plan host interrupts contentProvider input st = (Inr (result, final), st2)"
    and id: "res_runId result = prep_runId ?p"
    by (rule memory_plan_returns [OF assms]) auto
  obtain box before sb errors s where parts: "open_sandbox host input ?p sa = (Inr (box, before), sb)"
    "run_operations host interrupts contentProvider input ?p box before sb = (errors, s)"
    "finish_run host interrupts input ?p (ah_iso host (now_of host sa)) before errors s = ((result, final), st2)"
    using run by (rule apply_plan_Inr) (simp add: assms(1))
  have box: "memory_provider clock (pin_sandboxPolicy (sto_input stored)) (''/sandbox/'' @ ain_sandboxId input)
      (ain_sandboxId input) = Inr box"
    using open_sandbox_Inr [OF parts(1)] admit_stored [OF assms(1)] assms(3) by (simp add: createSandbox_def)
  have "svc_cancelledRuns sb = svc_cancelledRuns st"
    using open_sandbox_cancelled [of host input ?p sa] parts(1) admit_effect [OF assms(1)] by simp
  then have running: "prep_runId ?p \<notin> set (svc_cancelledRuns sb)" using admit_Inr(7) [OF assms(1)] by simp
  show thesis
    using that [OF run id box] uncancelled_run [OF parts(2,3) _ running] by blast
qed

text \<open>
  C9: A plan that was prepared as ready runs to an end: if the approval is still valid when the clock is
  read again, the run was not cancelled before and the sandbox id is not empty, \<open>apply\<close> on an in-memory
  sandbox returns a result for the run, whatever the operations, the content provider and later
  cancellations do. Where no call cancels the run while it waits, the plan is reported as applied
  exactly when every operation of the plan can be made, one after the other, from the fresh sandbox:
  then the sandbox left is the one after the last operation, every operation is reported as applied
  and there is no error; otherwise the run reports that it rolled back, or that the rollback failed.
\<close>

theorem ready_plan_runs:
  assumes "prepare host input st = (Inr p, st1)" and "prep_ready p"
    and "authorized host (now_of host st1) input" and "prep_runId p \<notin> set (svc_cancelledRuns st)"
    and "sandboxId \<noteq> ''''" and "ah_ops host = memory_ops lc sha clock"
    and "ah_provider host = Some (memory_provider clock)"
  shows "\<exists>result final st2. apply_plan host interrupts contentProvider
      \<lparr>ain_preparation = p, ain_sandboxId = sandboxId\<rparr> st1 = (Inr (result, final), st2) \<and>
    res_runId result = prep_runId p \<and>
    (uncancelled interrupts \<longrightarrow> (\<exists>box.
      memory_provider clock (pin_sandboxPolicy input) (''/sandbox/'' @ sandboxId) sandboxId = Inr box \<and>
      (let operations = operationsFromPlan (pin_executionPlan input) in
       case make_operations (ah_ops host) (ah_sha host) contentProvider operations box of
         None \<Rightarrow> res_status result \<in> {RolledBack, RollbackFailed}
       | Some b \<Rightarrow> res_status result = Applied \<and> final = sbx_close (ah_ops host) b \<and>
           res_operations result = map (\<lambda>operation. operation_event_of operation OpApplied) operations \<and>
           res_errors result = [])))"
proof -
  let ?in = "\<lparr>ain_preparation = p, ain_sandboxId = sandboxId\<rparr>"
  obtain sa where admitted: "admit host ?in st1 =
      (Inr \<lparr>sto_preparation = p, sto_input = input, sto_consumed = False\<rparr>, sa)"
    using prepared_admitted [OF assms(1-5)] .
  note prepared = prepare_preparation [OF assms(1)]
  have operations: "prep_operations p = operationsFromPlan (pin_executionPlan input)"
    unfolding prepared by (simp add: preparation_of_def Let_def)
  have gates: "list_all (\<lambda>operation. assertOperationAllowedGate p operation = Inr () \<and> file_operation operation)
      (prep_operations p)"
    using ready_gates assms(2) operationsFromPlan_file_operations [of "pin_executionPlan input"]
    unfolding operations by (auto simp: prepared list_all_iff)
  note returns = admitted_run [OF admitted assms(6,7), of interrupts contentProvider,
      unfolded stored_preparation.select_convs apply_input.select_convs]
  show ?thesis
  proof (rule returns)
    fix result final st2 box
    assume run: "apply_plan host interrupts contentProvider ?in st1 = (Inr (result, final), st2)"
      "res_runId result = prep_runId p"
      "memory_provider clock (pin_sandboxPolicy input) (''/sandbox/'' @ sandboxId) sandboxId = Inr box"
      and made: "uncancelled interrupts \<Longrightarrow> list_all (\<lambda>operation.
          assertOperationAllowedGate p operation = Inr () \<and> file_operation operation) (prep_operations p) \<Longrightarrow>
        case make_operations (ah_ops host) (ah_sha host) contentProvider (prep_operations p) box of
          None \<Rightarrow> res_status result \<in> {RolledBack, RollbackFailed}
        | Some b \<Rightarrow> res_status result = Applied \<and> res_errors result = [] \<and> final = sbx_close (ah_ops host) b \<and>
            res_operations result = map (\<lambda>operation. operation_event_of operation OpApplied) (prep_operations p)"
    show ?thesis
      using run made [OF _ gates] unfolding operations Let_def
      by (cases "make_operations (ah_ops host) (ah_sha host) contentProvider
          (operationsFromPlan (pin_executionPlan input)) box") auto
  qed
qed

section \<open>A plan that creates one file\<close>

definition memory_host :: "memory_box apply_host" where
  "memory_host = \<lparr>ah_enabled = True, ah_now = (\<lambda>n. 0), ah_iso = int_str,
     ah_parse = (\<lambda>s. if s = ''end'' then Some 50 else None), ah_sha = id,
     ah_collate = (\<lambda>a b. 0), ah_ops = memory_ops (\<lambda>a b. 0) id (\<lambda>n. 0),
     ah_provider = Some (memory_provider (\<lambda>n. 0))\<rparr>"

definition create_plan :: execution_plan where
  "create_plan = \<lparr>ep_executionPlanId = ''plan'', ep_createdAt = ''t'', ep_routePlanId = ''route'',
     ep_mode = ModeApply, ep_immutableDigest = ''d'',
     ep_fileChanges = [\<lparr>fc_operation = ChangeCreate, fc_path = ''a'', fc_contentDigest = None\<rparr>],
     ep_dependencyChanges = [], ep_commands = [], ep_networkDestinations = [], ep_credentials = [],
     ep_rollback = [], ep_verification = [], ep_approval = \<lparr>pa_required = True, pa_scopes = []\<rparr>\<rparr>"

definition unsigned_approval :: "string \<Rightarrow> apply_approval" where
  "unsigned_approval nonce = \<lparr>apv_approvalId = ''approval'', apv_executionPlanId = ''plan'',
     apv_executionPlanDigest = ''d'', apv_projectSnapshotId = ''project'',
     apv_policySnapshotId = ''policy'', apv_allowedOperations = [CreateFile], apv_allowedPaths = [''a''],
     apv_allowedCommandIds = [], apv_allowedNetworkHosts = [],
     apv_limits = \<lparr>lim_maxFiles = 1, lim_maxBytes = 10, lim_maxOperations = 1, lim_maxDurationSeconds = 1\<rparr>,
     apv_expiresAt = ''end'', apv_approverId = ''user'', apv_approverKind = UserApprover,
     apv_nonce = nonce, apv_integrityDigest = ''''\<rparr>"

definition create_approval :: "string \<Rightarrow> apply_approval" where
  "create_approval nonce = unsigned_approval nonce\<lparr>apv_integrityDigest :=
     json_digest id (approvalIntegrityPayload (unsigned_approval nonce))\<rparr>"

definition create_input :: "string \<Rightarrow> prepare_input" where
  "create_input nonce = \<lparr>pin_executionPlan = create_plan, pin_approval = create_approval nonce,
     pin_projectSnapshotId = ''project'', pin_policyDigest = ''policy'', pin_sandboxPolicy = sample_policy,
     pin_vcsState = \<lparr>vcs_detected = False, vcs_root = None, vcs_branch = None, vcs_commit = None,
       vcs_dirty = False, vcs_protectedBranch = False, vcs_reasons = []\<rparr>\<rparr>"

text \<open>No call cancels the run, but possibly one after its last operation and its rollback.\<close>

definition late_cancel :: "bool \<Rightarrow> apply_interrupts" where
  "late_cancel late = \<lparr>int_operation = (\<lambda>i. False), int_rollback = False, int_completion = late\<rparr>"

abbreviation no_interrupts :: apply_interrupts where
  "no_interrupts \<equiv> late_cancel False"

lemma memory_host_simps [simp]:
  "ah_enabled memory_host" "ah_sha memory_host = id" "ah_collate memory_host = (\<lambda>a b. 0)"
  "ah_ops memory_host = memory_ops (\<lambda>a b. 0) id (\<lambda>n. 0)"
  "ah_provider memory_host = Some (memory_provider (\<lambda>n. 0))"
  "now_of memory_host st = 0"
  by (simp_all add: memory_host_def now_of_def)

lemma create_authorized: "authorized memory_host now (create_input nonce) \<longleftrightarrow> now \<le> 50"
proof -
  have payload: "approvalIntegrityPayload (create_approval nonce) =
      approvalIntegrityPayload (unsigned_approval nonce)"
    by (simp add: approvalIntegrityPayload_def create_approval_def)
  have "finite_json (approvalIntegrityPayload a)" for a
    by (simp add: approvalIntegrityPayload_def limits_json_def strs_json_def)
  then have "computeApprovalIntegrityDigest id (create_approval nonce) =
      Inr (apv_integrityDigest (create_approval nonce))"
    unfolding computeApprovalIntegrityDigest_def payload
    by (simp add: digestJson_finite create_approval_def)
  then show ?thesis
    by (simp add: authorized_def create_input_def Let_def memory_host_def)
      (simp add: create_approval_def unsigned_approval_def create_plan_def sample_policy_def)
qed

lemma create_operations:
  "operationsFromPlan (pin_executionPlan (create_input nonce)) =
     [\<lparr>pop_index = 0, pop_operation = CreateFile, pop_path = ''a'', pop_contentDigest = None\<rparr>]"
  by (simp add: create_input_def create_plan_def operationsFromPlan_def js_sort_def)

lemma create_ready:
  "prep_ready (preparation_of memory_host used now ref (create_input nonce)) \<longleftrightarrow>
     now \<le> 50 \<and> nonce \<notin> set used"
  unfolding prepared_ready_iff create_authorized create_operations
  by (simp add: allowed_change_def create_input_def create_approval_def unsigned_approval_def)
    (simp add: at_or_below_def slashes_def)


lemma create_prepared:
  obtains p st1 where "prepare memory_host (create_input nonce) st = (Inr p, st1)"
    and "prep_ready p \<longleftrightarrow> nonce \<notin> set (svc_usedApprovals st)"
    and "prep_runId p = ''run_'' @ take 16 nonce" and "prep_approvalNonce p = nonce"
proof -
  obtain p st1 where run: "prepare memory_host (create_input nonce) st = (Inr p, st1)"
    by (simp add: prepare_def assertApplyEnabled_def check_def Let_def)
  then have "p = preparation_of memory_host (svc_usedApprovals st) (now_of memory_host st) (svc_nextRef st)
      (create_input nonce)"
    by (auto simp: prepare_def assertApplyEnabled_def check_def Let_def)
  then have ready: "prep_ready p \<longleftrightarrow> nonce \<notin> set (svc_usedApprovals st)"
    by (simp add: create_ready)
  have "apv_nonce (pin_approval (create_input nonce)) = nonce"
    by (simp add: create_input_def create_approval_def unsigned_approval_def)
  then show thesis using that [OF run ready] prepare_Inr(2,3) [OF run] by simp
qed


lemma create_runs:
  assumes "nonce \<notin> set (svc_usedApprovals st)"
    and "''run_'' @ take 16 nonce \<notin> set (svc_cancelledRuns st)"
  obtains p st1 result final st2 where "prepare memory_host (create_input nonce) st = (Inr p, st1)"
    and "prep_ready p" and "prep_approvalNonce p = nonce"
    and "apply_plan memory_host interrupts contentProvider \<lparr>ain_preparation = p, ain_sandboxId = ''box''\<rparr> st1 =
      (Inr (result, final), st2)"
    and "set (svc_usedApprovals st2) = insert nonce (set (svc_usedApprovals st))"
    and "set (svc_cancelledRuns st2) \<subseteq> insert (''run_'' @ take 16 nonce) (set (svc_cancelledRuns st))"
proof -
  obtain p st1 where p: "prepare memory_host (create_input nonce) st = (Inr p, st1)" "prep_ready p"
    "prep_runId p = ''run_'' @ take 16 nonce" "prep_approvalNonce p = nonce"
    using create_prepared [of nonce st] assms(1) by metis
  have "authorized memory_host (now_of memory_host st1) (create_input nonce)"
    by (simp add: create_authorized)
  then obtain sa where admitted: "admit memory_host \<lparr>ain_preparation = p, ain_sandboxId = ''box''\<rparr> st1 =
      (Inr \<lparr>sto_preparation = p, sto_input = create_input nonce, sto_consumed = False\<rparr>, sa)"
    using prepared_admitted [OF p(1,2)] assms(2) p(3) by (metis list.discI)
  then obtain result final st2 where run: "apply_plan memory_host interrupts contentProvider
      \<lparr>ain_preparation = p, ain_sandboxId = ''box''\<rparr> st1 = (Inr (result, final), st2)"
    by (rule memory_plan_returns) auto
  have "keeps_approvals (prep_runId p) sa st2"
    using keeps_after_admission [OF run] admitted by auto
  then have "set (svc_usedApprovals st2) = insert nonce (set (svc_usedApprovals st))"
    "set (svc_cancelledRuns st2) \<subseteq> insert (''run_'' @ take 16 nonce) (set (svc_cancelledRuns st))"
    using admit_effect [OF admitted] prepare_Inr(4,5) [OF p(1)] p(3,4)
    by (simp_all add: keeps_approvals_def)
  then show thesis using that p run by blast
qed

lemma service_calls:
  "service_run host st st' \<Longrightarrow> prepare host input st' = (r, st'') \<Longrightarrow> service_run host st st''"
  "service_run host st st' \<Longrightarrow> apply_plan host interrupts cp input' st' = (q, st'') \<Longrightarrow> service_run host st st''"
  by (blast intro: service_run.Step service_step.Prepare service_step.Apply)+


lemma approval_used_once_witness:
  "\<exists>p st1 r1 b1 st2 p' st3 r2 b2 st4. prepare memory_host (create_input ''n'') new_service = (Inr p, st1) \<and>
     apply_plan memory_host no_interrupts (\<lambda>path. Inr ''hi'') \<lparr>ain_preparation = p, ain_sandboxId = ''box''\<rparr>
       st1 = (Inr (r1, b1), st2) \<and>
     prepare memory_host (create_input ''m'') st2 = (Inr p', st3) \<and>
     apply_plan memory_host no_interrupts (\<lambda>path. Inr ''hi'') \<lparr>ain_preparation = p', ain_sandboxId = ''box''\<rparr>
       st3 = (Inr (r2, b2), st4) \<and> prep_approvalNonce p' \<noteq> prep_approvalNonce p"
proof -
  obtain p st1 r1 b1 st2 where first: "prepare memory_host (create_input ''n'') new_service = (Inr p, st1)"
    "apply_plan memory_host no_interrupts (\<lambda>path. Inr ''hi'') \<lparr>ain_preparation = p, ain_sandboxId = ''box''\<rparr>
       st1 = (Inr (r1, b1), st2)"
    "set (svc_usedApprovals st2) \<subseteq> {''n''}" "set (svc_cancelledRuns st2) \<subseteq> {''run_n''}"
    by (rule create_runs [of "''n''" new_service no_interrupts "\<lambda>path. Inr ''hi''"]) (auto simp: new_service_def)
  obtain p' st3 r2 b2 st4 where second: "prepare memory_host (create_input ''m'') st2 = (Inr p', st3)"
    "apply_plan memory_host no_interrupts (\<lambda>path. Inr ''hi'') \<lparr>ain_preparation = p', ain_sandboxId = ''box''\<rparr>
       st3 = (Inr (r2, b2), st4)"
    by (rule create_runs [of "''m''" st2 no_interrupts "\<lambda>path. Inr ''hi''"]) (use first(3,4) in auto)
  have "service_run memory_host st2 st3"
    using second(1) by (auto intro: service_calls(1) service_run.Start)
  from approval_used_once [OF first(2) service_run_caller [OF this] second(2)] show ?thesis
    using first(1,2) second by auto
qed


lemma memory_provider_new:
  "memory_provider (\<lambda>n. 0) policy root i = Inr (\<lparr>ses_id = i, ses_root = root, ses_policy = policy,
     ses_closed = False, ses_operations = 0, ses_bytes = 0, ses_startedAt = 0,
     ses_tree = [('''', directory_entry)]\<rparr>, 1)"
  by (simp add: memory_provider_def new_session_def)

lemma create_gate:
  assumes "nonce \<notin> set used"
  shows "assertOperationAllowedGate (preparation_of memory_host used 0 ref (create_input nonce))
     \<lparr>pop_index = 0, pop_operation = CreateFile, pop_path = ''a'', pop_contentDigest = None\<rparr> = Inr ()"
  by (rule ready_gates) (simp_all add: create_ready assms create_operations)

lemma create_written:
  "session_write 0 ''a'' ''hi'' \<lparr>ses_id = i, ses_root = root, ses_policy = sample_policy,
     ses_closed = False, ses_operations = 0, ses_bytes = 0, ses_startedAt = 0,
     ses_tree = [('''', directory_entry)]\<rparr> = (Inr (), \<lparr>ses_id = i, ses_root = root, ses_policy = sample_policy,
     ses_closed = False, ses_operations = 1, ses_bytes = 2, ses_startedAt = 0,
     ses_tree = [('''', directory_entry), (''a'', file_entry ''hi'')]\<rparr>)"
  by (simp add: session_code sample_policy_def directory_entry_def file_entry_def)


lemma written_files:
  "box_files (\<lparr>ses_id = i, ses_root = root, ses_policy = policy, ses_closed = c, ses_operations = n,
     ses_bytes = b, ses_startedAt = t, ses_tree = [('''', directory_entry), (''a'', file_entry ''hi'')]\<rparr>, m) =
   [''a'' \<mapsto> ''hi'']"
  by (rule ext) (simp add: box_files_def contents_def directory_entry_def file_entry_def)

text \<open>Creating a file at one of two paths, from a fresh sandbox.\<close>

definition create_at :: "string \<Rightarrow> planned_operation" where
  "create_at path = \<lparr>pop_index = 0, pop_operation = CreateFile, pop_path = path, pop_contentDigest = None\<rparr>"

lemma create_at_made:
  assumes "memory_provider (\<lambda>n. 0) sample_policy root i = Inr box" and "path = ''a'' \<or> path = ''b''"
  shows "\<exists>b. make_operations (memory_ops lc sha (\<lambda>n. 0)) hash (\<lambda>path. Inr ''hi'') [create_at path] box = Some b \<and>
    box_files b = [path \<mapsto> ''hi'']"
proof -
  let ?new = "\<lparr>ses_id = i, ses_root = root, ses_policy = sample_policy, ses_closed = False, ses_operations = 0,
     ses_bytes = 0, ses_startedAt = 0, ses_tree = [('''', directory_entry)]\<rparr>"
  let ?last = "?new\<lparr>ses_operations := 1, ses_bytes := 2,
     ses_tree := [('''', directory_entry), (path, file_entry ''hi'')]\<rparr>"
  have box: "box = (?new, 1)" using assms(1) by (simp add: memory_provider_new)
  have "session_write 0 path ''hi'' ?new = (Inr (), ?last)"
    using assms(2) by (auto simp: session_code sample_policy_def directory_entry_def file_entry_def)
  then have "make_operations (memory_ops lc sha (\<lambda>n. 0)) hash (\<lambda>path. Inr ''hi'') [create_at path] box = Some (?last, 2)"
    by (simp add: box create_at_def make_operation_def memory_ops_def made_def)
  moreover have "box_files (?last, 2) = [path \<mapsto> ''hi'']"
    using assms(2) by (intro ext) (auto simp: box_files_def contents_def directory_entry_def file_entry_def)
  ultimately show ?thesis by blast
qed

lemma create_applies:
  assumes "prepare memory_host (create_input nonce) new_service = (Inr p, st1)"
    and "apply_plan memory_host (late_cancel late) (\<lambda>path. Inr ''hi'')
      \<lparr>ain_preparation = p, ain_sandboxId = ''box''\<rparr> st1 = (Inr (result, final), st2)"
  shows "res_status result = (if late then Cancelled else Applied) \<and> box_files final = [''a'' \<mapsto> ''hi'']"
proof -
  have p: "p = preparation_of memory_host [] 0 0 (create_input nonce)"
    using assms(1) by (auto simp: prepare_def assertApplyEnabled_def check_def Let_def new_service_def)
  then have operations: "prep_operations p =
      [\<lparr>pop_index = 0, pop_operation = CreateFile, pop_path = ''a'', pop_contentDigest = None\<rparr>]"
    by (simp add: preparation_of_def Let_def create_operations)
  obtain stored sa sandbox before sb errors s where run:
    "admit memory_host \<lparr>ain_preparation = p, ain_sandboxId = ''box''\<rparr> st1 = (Inr stored, sa)"
    "open_sandbox memory_host \<lparr>ain_preparation = p, ain_sandboxId = ''box''\<rparr> (sto_preparation stored) sa =
      (Inr (sandbox, before), sb)"
    "run_operations memory_host (late_cancel late) (\<lambda>path. Inr ''hi'') \<lparr>ain_preparation = p, ain_sandboxId = ''box''\<rparr>
      (sto_preparation stored) sandbox before sb = (errors, s)"
    "finish_run memory_host (late_cancel late) \<lparr>ain_preparation = p, ain_sandboxId = ''box''\<rparr> (sto_preparation stored)
      (ah_iso memory_host (now_of memory_host sa)) before errors s = ((result, final), st2)"
    using assms(2) by (rule apply_plan_Inr)
  have stored: "stored = \<lparr>sto_preparation = p, sto_input = create_input nonce, sto_consumed = False\<rparr>"
    using admit_Inr(1) [OF run(1)] prepare_Inr(1) [OF assms(1)] by simp
  have "svc_cancelledRuns sa = []"
    using admit_effect [OF run(1)] prepare_Inr(5) [OF assms(1)] by (simp add: new_service_def)
  then have cancelled: "svc_cancelledRuns sb = []"
    using open_sandbox_cancelled [of memory_host _ "sto_preparation stored" sa] run(2) by (metis snd_conv)
  have "memory_provider (\<lambda>n. 0) sample_policy ''/sandbox/box'' ''box'' = Inr sandbox"
    using open_sandbox_Inr [OF run(2)] admit_stored [OF run(1)]
    by (simp add: createSandbox_def stored create_input_def)
  then have sandbox: "sandbox = (\<lparr>ses_id = ''box'', ses_root = ''/sandbox/box'', ses_policy = sample_policy,
     ses_closed = False, ses_operations = 0, ses_bytes = 0, ses_startedAt = 0,
     ses_tree = [('''', directory_entry)]\<rparr>, 1)" by (simp add: memory_provider_new)
  have gate: "assertOperationAllowedGate p
      \<lparr>pop_index = 0, pop_operation = CreateFile, pop_path = ''a'', pop_contentDigest = None\<rparr> = Inr ()"
    unfolding p by (rule create_gate) simp
  have "errors = [] \<and> svc_cancelledRuns (run_service s) = [] \<and> box_files (run_sandbox s) = [''a'' \<mapsto> ''hi'']"
    using run(3) cancelled
    by (auto simp: stored run_operations_def operations apply_operation_step_def late_cancel_def
      interrupted_def check_def sandbox Let_def gate write_operation_def on_sandbox_def recordRollback_def
      push_event_def memory_ops_def create_written written_files)
  moreover have "box_files (sbx_close (memory_ops (\<lambda>a b. 0) id (\<lambda>n. 0)) (run_sandbox s)) = box_files (run_sandbox s)"
    by (rule memory_box.close_files)
  ultimately show ?thesis using run(4)
    by (auto simp: finish_run_def cancel_def set_add_def Let_def late_cancel_def interrupted_def apply_status_of_def stored)
qed


lemma apply_all_or_nothing_witness:
  "\<exists>p st1 result final st2. prepare memory_host (create_input ''n'') new_service = (Inr p, st1) \<and>
     apply_plan memory_host no_interrupts (\<lambda>path. Inr ''hi'') \<lparr>ain_preparation = p, ain_sandboxId = ''box''\<rparr>
       st1 = (Inr (result, final), st2) \<and>
     res_status result = Applied \<and> box_files final = [''a'' \<mapsto> ''hi''] \<and> length (res_operations result) = 1"
proof -
  obtain p st1 result final st2 where run: "prepare memory_host (create_input ''n'') new_service = (Inr p, st1)"
    "apply_plan memory_host no_interrupts (\<lambda>path. Inr ''hi'') \<lparr>ain_preparation = p, ain_sandboxId = ''box''\<rparr>
       st1 = (Inr (result, final), st2)"
    by (rule create_runs [of "''n''" new_service no_interrupts "\<lambda>path. Inr ''hi''"]) (auto simp: new_service_def)
  have applied: "res_status result = Applied" using create_applies [OF run] by simp
  have "service_run memory_host new_service st1"
    using service_run.Start run(1) by (rule service_calls)
  from apply_all_or_nothing [OF _ _ this run(2)] obtain stored where
    stored: "map_of (svc_preparations st1) (prep_runId p) = Some stored"
    and files: "let operations = operationsFromPlan (pin_executionPlan (sto_input stored)) in
      box_files final = foldl (file_effect path_key (\<lambda>path. Inr ''hi'')) Map.empty operations \<and>
      list_all (content_matches id (\<lambda>path. Inr ''hi'')) operations \<and>
      res_operations result = map (\<lambda>operation. operation_event_of operation OpApplied) operations"
    using applied by auto
  have "sto_input stored = create_input ''n''" using prepare_Inr(1) [OF run(1)] stored by simp
  moreover have "path_key ''a'' = Some ''a''" by (simp add: path_key_def session_code)
  ultimately have "box_files final = [''a'' \<mapsto> ''hi''] \<and> length (res_operations result) = 1"
    using files by (simp add: create_operations file_effect_def)
  then show ?thesis using run applied by blast
qed

lemma ready_plan_runs_witness:
  "\<exists>p st1 result final st2. prepare memory_host (create_input ''n'') new_service = (Inr p, st1) \<and> prep_ready p \<and>
     apply_plan memory_host no_interrupts (\<lambda>path. Inr ''hi'') \<lparr>ain_preparation = p, ain_sandboxId = ''box''\<rparr>
       st1 = (Inr (result, final), st2) \<and> res_runId result = prep_runId p \<and> res_status result = Applied \<and>
     res_operations result = [operation_event_of (create_at ''a'') OpApplied]"
proof -
  obtain p st1 where p: "prepare memory_host (create_input ''n'') new_service = (Inr p, st1)" "prep_ready p"
    by (rule create_prepared [of "''n''" new_service]) (auto simp: new_service_def)
  have "authorized memory_host (now_of memory_host st1) (create_input ''n'')"
    by (simp add: create_authorized)
  then have "\<exists>result final st2. apply_plan memory_host no_interrupts (\<lambda>path. Inr ''hi'')
      \<lparr>ain_preparation = p, ain_sandboxId = ''box''\<rparr> st1 = (Inr (result, final), st2) \<and>
    res_runId result = prep_runId p \<and>
    (uncancelled no_interrupts \<longrightarrow> (\<exists>box.
      memory_provider (\<lambda>n. 0) (pin_sandboxPolicy (create_input ''n'')) (''/sandbox/'' @ ''box'') ''box'' = Inr box \<and>
      (let operations = operationsFromPlan (pin_executionPlan (create_input ''n'')) in
       case make_operations (ah_ops memory_host) (ah_sha memory_host) (\<lambda>path. Inr ''hi'') operations box of
         None \<Rightarrow> res_status result \<in> {RolledBack, RollbackFailed}
       | Some b \<Rightarrow> res_status result = Applied \<and> final = sbx_close (ah_ops memory_host) b \<and>
           res_operations result = map (\<lambda>operation. operation_event_of operation OpApplied) operations \<and>
           res_errors result = [])))"
    by (rule ready_plan_runs [OF p]) (use prepare_Inr(2) [OF p(1)] in \<open>simp_all add: new_service_def\<close>)
  then obtain result final st2 box where run: "apply_plan memory_host no_interrupts (\<lambda>path. Inr ''hi'')
      \<lparr>ain_preparation = p, ain_sandboxId = ''box''\<rparr> st1 = (Inr (result, final), st2)" "res_runId result = prep_runId p"
    and box: "memory_provider (\<lambda>n. 0) sample_policy (''/sandbox/'' @ ''box'') ''box'' = Inr box"
    and made: "case make_operations (memory_ops (\<lambda>a b. 0) id (\<lambda>n. 0)) id (\<lambda>path. Inr ''hi'') [create_at ''a''] box of
        None \<Rightarrow> res_status result \<in> {RolledBack, RollbackFailed}
      | Some b \<Rightarrow> res_status result = Applied \<and> final = sbx_close (memory_ops (\<lambda>a b. 0) id (\<lambda>n. 0)) b \<and>
          res_operations result = map (\<lambda>operation. operation_event_of operation OpApplied) [create_at ''a''] \<and>
          res_errors result = []"
    unfolding create_operations Let_def memory_host_simps create_at_def [symmetric]
    by (auto simp: uncancelled_def late_cancel_def create_input_def)
  show ?thesis
    using p run made create_at_made [OF box, of "''a''" "\<lambda>a b. 0" id id] by auto
qed

section \<open>What the interface does not suggest\<close>

text \<open>
  The public \<open>rollback\<close> creates its sandbox without the run it is called for, so no sandbox policy
  is found and it throws whatever the provider is.
\<close>

theorem rollback_always_throws: "\<exists>e. rollback host input st = (Inl e, st)"
  by (cases "ah_provider host") (simp_all add: rollback_def createSandbox_def check_def)

text \<open>
  A cancellation after the last operation and its rollback decision makes the run report
  \<open>cancelled\<close> although all its changes are in the sandbox.
\<close>

theorem late_cancel_keeps_changes:
  "\<exists>p st1 result final st2. prepare memory_host (create_input ''n'') new_service = (Inr p, st1) \<and>
     apply_plan memory_host (late_cancel True) (\<lambda>path. Inr ''hi'')
       \<lparr>ain_preparation = p, ain_sandboxId = ''box''\<rparr> st1 = (Inr (result, final), st2) \<and>
     res_status result = Cancelled \<and> box_files final = [''a'' \<mapsto> ''hi'']"
proof -
  obtain p st1 result final st2 where run: "prepare memory_host (create_input ''n'') new_service = (Inr p, st1)"
    "apply_plan memory_host (late_cancel True) (\<lambda>path. Inr ''hi'') \<lparr>ain_preparation = p, ain_sandboxId = ''box''\<rparr>
       st1 = (Inr (result, final), st2)"
    by (rule create_runs [of "''n''" new_service "late_cancel True" "\<lambda>path. Inr ''hi''"]) (auto simp: new_service_def)
  then have "res_status result = Cancelled \<and> box_files final = [''a'' \<mapsto> ''hi'']"
    using create_applies [OF run] by simp
  then show ?thesis using run by blast
qed

text \<open>
  \<open>Object.freeze\<close> is shallow: the operations of a preparation can be written to after all gates have
  passed, and \<open>apply\<close> looks at the number of an operation only to find its gate. An approval for
  the path \<open>a\<close> thus lets a run create the file \<open>b\<close>.
\<close>

definition redirect :: "string \<Rightarrow> apply_preparation \<Rightarrow> apply_preparation" where
  "redirect path p = p\<lparr>prep_operations := map (\<lambda>operation. operation\<lparr>pop_path := path\<rparr>) (prep_operations p)\<rparr>"

theorem written_operation_applied:
  "\<exists>p st1 st2 result final st3. prepare memory_host (create_input ''n'') new_service = (Inr p, st1) \<and>
     caller_step memory_host st1 st2 \<and>
     apply_plan memory_host no_interrupts (\<lambda>path. Inr ''hi'')
       \<lparr>ain_preparation = redirect ''b'' p, ain_sandboxId = ''box''\<rparr> st2 = (Inr (result, final), st3) \<and>
     res_status result = Applied \<and> box_files final = [''b'' \<mapsto> ''hi''] \<and>
     \<not> allowed_change (pin_approval (create_input ''n'')) (create_at ''b'')"
proof -
  obtain p st1 where p: "prepare memory_host (create_input ''n'') new_service = (Inr p, st1)" "prep_ready p"
    "prep_approvalNonce p = ''n''"
    by (rule create_prepared [of "''n''" new_service]) (auto simp: new_service_def)
  note facts = prepare_Inr [OF p(1)]
  let ?st = "overwrite (\<lambda>run. redirect ''b'') (\<lambda>run. create_input ''n'') st1"
  let ?q = "redirect ''b'' p"
  let ?stored = "\<lparr>sto_preparation = ?q, sto_input = create_input ''n'', sto_consumed = False\<rparr>"
  have same: "same_object (redirect path r) r" for path r
    by (simp add: same_object_def frozen_fields_def redirect_def)
  have fields: "prep_runId ?q = prep_runId p" "prep_ready ?q" "prep_approvalNonce ?q = ''n''"
    using same_object_fields [OF same] p(2,3) by simp_all
  have kept: "svc_cancelledRuns ?st = []" "svc_usedApprovals ?st = []"
    using facts(4,5) by (simp_all add: overwrite_def new_service_def)
  have stored: "map_of (svc_preparations ?st) (prep_runId ?q) = Some ?stored"
    unfolding map_of_overwrite fields(1) facts(1) by simp
  obtain sa where admitted: "admit memory_host \<lparr>ain_preparation = ?q, ain_sandboxId = ''box''\<rparr> ?st = (Inr ?stored, sa)"
    by (rule stored_admitted [OF stored, of memory_host "''box''"]) (use fields kept in \<open>simp_all add: create_authorized\<close>)
  have prepared: "p = preparation_of memory_host [] 0 0 (create_input ''n'')"
    using prepare_preparation [OF p(1)] by (simp add: new_service_def)
  have operations: "prep_operations ?q = [create_at ''b'']"
    unfolding prepared redirect_def by (simp add: preparation_of_def Let_def create_operations create_at_def)
  have "assertOperationAllowedGate ?q (create_at ''b'') = assertOperationAllowedGate p (create_at ''a'') \<or>
      assertOperationAllowedGate p (create_at ''a'') \<noteq> Inr ()"
    by (auto simp: assertOperationAllowedGate_def redirect_def create_at_def operation_gate_code_def split: option.splits)
  then have gates: "list_all (\<lambda>operation. assertOperationAllowedGate ?q operation = Inr () \<and> file_operation operation)
      (prep_operations ?q)"
    using create_gate [of "''n''" "[]" 0] unfolding operations prepared [symmetric]
    by (simp add: create_at_def file_operation_def)
  note returns = admitted_run [OF admitted, of "\<lambda>a b. 0" id "\<lambda>n. 0" no_interrupts "\<lambda>path. Inr ''hi''",
      unfolded stored_preparation.select_convs apply_input.select_convs operations]
  show ?thesis
  proof (rule returns)
    fix result final st3 box
    assume run: "apply_plan memory_host no_interrupts (\<lambda>path. Inr ''hi'') \<lparr>ain_preparation = ?q, ain_sandboxId = ''box''\<rparr>
        ?st = (Inr (result, final), st3)"
      and box: "memory_provider (\<lambda>n. 0) (pin_sandboxPolicy (create_input ''n'')) (''/sandbox/'' @ ''box'') ''box'' = Inr box"
      and made: "uncancelled no_interrupts \<Longrightarrow> list_all (\<lambda>operation.
          assertOperationAllowedGate ?q operation = Inr () \<and> file_operation operation) [create_at ''b''] \<Longrightarrow>
        case make_operations (ah_ops memory_host) (ah_sha memory_host) (\<lambda>path. Inr ''hi'') [create_at ''b''] box of
          None \<Rightarrow> res_status result \<in> {RolledBack, RollbackFailed}
        | Some b \<Rightarrow> res_status result = Applied \<and> res_errors result = [] \<and> final = sbx_close (ah_ops memory_host) b \<and>
            res_operations result = map (\<lambda>operation. operation_event_of operation OpApplied) [create_at ''b'']"
    have "memory_provider (\<lambda>n. 0) sample_policy (''/sandbox/'' @ ''box'') ''box'' = Inr box"
      using box by (simp add: create_input_def)
    from create_at_made [OF this, of "''b''" "\<lambda>a b. 0" id id] obtain b where
      b: "make_operations (memory_ops (\<lambda>a b. 0) id (\<lambda>n. 0)) id (\<lambda>path. Inr ''hi'') [create_at ''b''] box = Some b"
      "box_files b = [''b'' \<mapsto> ''hi'']" by blast
    have "res_status result = Applied" "final = sbx_close (memory_ops (\<lambda>a b. 0) id (\<lambda>n. 0)) b"
      using made gates b(1) unfolding operations by (simp_all add: uncancelled_def late_cancel_def)
    moreover from this(2) have "box_files final = [''b'' \<mapsto> ''hi'']" using b(2) memory_box.close_files by simp
    moreover have "caller_step memory_host st1 ?st" using same by (intro caller_step.Write_shared)
    moreover have "\<not> allowed_change (pin_approval (create_input ''n'')) (create_at ''b'')"
      by (simp add: allowed_change_def create_input_def create_approval_def unsigned_approval_def create_at_def)
        (simp add: at_or_below_def slashes_def startsWith_def)
    ultimately show ?thesis using p(1) run by blast
  qed simp_all
qed

end
