(* ===== verification/Planner_Correctness.thy ===== *)
theory Planner_Correctness
  imports Planner Apply_Safety
begin

text \<open>
  What the planner guarantees: which inputs it accepts, that a plan's digest identifies its content,
  that the order of an input's lists does not matter, what drift means, and how its plans meet the
  apply service.
\<close>

section \<open>The semantic plan\<close>


text \<open>The runner capabilities an input may name: none, or an object without dangerous keys.\<close>

definition capabilities_ok :: "json option \<Rightarrow> bool" where
  "capabilities_ok c = (case c of None \<Rightarrow> True | Some v \<Rightarrow> plain_json v \<and> json_object v)"

definition semantic_of :: "(string \<Rightarrow> string \<Rightarrow> int) \<Rightarrow> create_plan_input \<Rightarrow> semantic_plan" where
  "semantic_of lc input = \<lparr>
     pl_projectSnapshot = pl_projectSnapshot input, pl_catalogSnapshot = pl_catalogSnapshot input,
     pl_policySnapshot = pl_policySnapshot input, pl_routePlan = pl_routePlan input,
     pl_contextReferences = normalizeContextReferences lc (pl_contextReferences input),
     pl_objective = pl_objective input, pl_constraints = stableStrings (pl_constraints input),
     pl_lockfile = pl_lockfile input, pl_runnerCapabilities = pl_runnerCapabilities input,
     sp_routePlanId = ref_id (pl_routePlan input), sp_mode = ModePlan,
     sp_fileChanges = stable lc (ci_fileOperations input) file_key,
     sp_dependencyChanges = stable lc (ci_dependencies input) dependency_key,
     sp_commands = stable lc (ci_commands input) command_key,
     sp_networkDestinations = stableStrings (ci_networkDestinations input), sp_credentials = [],
     sp_rollback = stableStrings (ci_rollback input),
     sp_verification = stableStrings (ci_verification input),
     sp_approval = \<lparr>pa_required = ci_permissions input \<noteq> [], pa_scopes = stableStrings (ci_permissions input)\<rparr>,
     sp_status = status_of (ci_deniedSteps input) (ci_unresolvedInputs input) (pl_objective input),
     sp_providers = normalizeProviders lc (ci_providers input),
     sp_expectedArtifacts = stableStrings (ci_expectedArtifacts input),
     sp_affectedScopes = stableStrings (ci_affectedScopes input),
     sp_risks = stableStrings (ci_risks input),
     sp_unresolvedInputs = stableStrings (ci_unresolvedInputs input),
     sp_deniedSteps = stableStrings (ci_deniedSteps input)\<rparr>"

lemma stableStrings_simps [simp]:
  "set (stableStrings xs) = set xs" "stableStrings xs = [] \<longleftrightarrow> xs = []"
  by (simp_all add: stableStrings_def)

lemma set_stable [simp]: "set (stable lc xs key) = set xs"
  by (simp add: stable_def)

lemma normalizeRunnerCapabilities_Inr [simp]:
  "normalizeRunnerCapabilities v path = Inr w \<longleftrightarrow> safe_json v \<and> plain_json v \<and> json_object v \<and> w = v"
  by (auto simp: normalizeRunnerCapabilities_def chain_eq_Inr json_object_def split: json.splits)

lemma input_capabilities: "safe_json (input_json input) \<Longrightarrow> pl_runnerCapabilities input = Some v \<Longrightarrow> safe_json v"
  by (auto simp: input_json_def planning_entries_def opt_entry_def)

lemma status_of_simps [simp]: "status_of (stableStrings d) (stableStrings u) obj = status_of d u obj"
  by (simp add: status_of_def)

lemma semanticPlan_Inr:
  "semanticPlan lc input = Inr s \<longleftrightarrow>
     safe_json (input_json input) \<and> capabilities_ok (pl_runnerCapabilities input) \<and> s = semantic_of lc input"
  using input_capabilities [of input]
  by (cases "pl_runnerCapabilities input")
    (auto simp: semanticPlan_def chain_eq_Inr Let_def semantic_of_def capabilities_ok_def)

section \<open>A semantic plan is safe JSON\<close>

lemma texts_strs [simp]: "json_texts (strs_json xs) = set xs"
  by (auto simp: strs_json_def)

lemma texts_opt_str [simp]: "json_texts (opt_str_json s) = set_option s"
  by (simp add: opt_str_json_def split: option.split)

lemma plain_parts [simp]:
  "plain_json (strs_json xs)" "plain_json (opt_str_json s)" "plain_json (reference_json r)"
  "plain_json (file_json f)" "plain_json (dependency_json d)" "plain_json (command_json c)"
  "plain_json (provider_json p)"
  by (simp_all add: strs_json_def opt_str_json_def reference_json_def file_json_def dependency_json_def
      command_json_def provider_json_def dangerous_key_def split: option.split)

lemma plain_semantic:
  "plain_json (semantic_json s) \<longleftrightarrow> (\<forall>v. pl_runnerCapabilities s = Some v \<longrightarrow> plain_json v)"
  by (auto simp: semantic_json_def planning_entries_def opt_entry_def dangerous_key_def split: option.splits)

definition field_names :: "string list" where
  "field_names = [''id'', ''digest'', ''operation'', ''path'', ''contentDigest'', ''workspace'', ''package'',
     ''version'', ''kind'', ''reason'', ''argv'', ''cwd'', ''timeoutSeconds'', ''networkRequired'',
     ''integrations'', ''projectSnapshot'', ''catalogSnapshot'', ''policySnapshot'', ''routePlan'',
     ''contextReferences'', ''objective'', ''constraints'', ''lockfile'', ''runnerCapabilities'', ''createdAt'',
     ''providers'', ''dependencies'', ''fileOperations'', ''commands'', ''networkDestinations'',
     ''permissions'', ''verification'', ''expectedArtifacts'', ''rollback'', ''affectedScopes'', ''risks'',
     ''unresolvedInputs'', ''deniedSteps'', ''schemaVersion'', ''contractKind'', ''routePlanId'', ''mode'',
     ''fileChanges'', ''dependencyChanges'', ''credentials'', ''approval'', ''required'', ''scopes'',
     ''status'', ''1.0.0-draft.1'', ''execution-plan'', ''plan'', ''apply'', ''create'', ''delete'', ''update'',
     ''add'', ''remove'', ''dependency'', ''devDependency'', ''optionalDependency'', ''peerDependency'',
     ''ready'', ''needs-input'', ''blocked'']"

lemma field_names_safe: "list_all (\<lambda>s. \<not> sensitive_text s) field_names"
  by (simp add: field_names_def sensitive_code)

lemmas safe_names [simp] = field_names_safe [unfolded field_names_def list.pred_inject]

lemma safe_enum_names [simp]:
  "\<not> sensitive_text (change_operation_name c)" "\<not> sensitive_text (dependency_operation_name d)"
  "\<not> sensitive_text (dependency_kind_name k)" "\<not> sensitive_text (plan_mode_name m)"
  "\<not> sensitive_text (plan_status_name st)"
  by (cases c, simp_all) (cases d, simp_all, cases k, simp_all, cases m, simp_all, cases st, simp_all)

lemma safe_strs [simp]: "safe_json (strs_json xs) \<longleftrightarrow> (\<forall>s \<in> set xs. \<not> sensitive_text s)"
  by (simp add: strs_json_def)

lemma safe_opt_str [simp]: "safe_json (opt_str_json s) \<longleftrightarrow> (\<forall>t. s = Some t \<longrightarrow> \<not> sensitive_text t)"
  by (simp add: opt_str_json_def split: option.split)


lemma set_normalizeProviders: "set (normalizeProviders lc ps) =
    (\<lambda>p. \<lparr>pp_id = pp_id p, pp_integrations = stableStrings (pp_integrations p)\<rparr>) ` set ps"
  by (simp add: normalizeProviders_def)

lemma opt_entry_ball: "(\<forall>kv \<in> set (opt_entry k v). P kv) \<longleftrightarrow> (\<forall>j. v = Some j \<longrightarrow> P (k, j))"
  by (cases v) (simp_all add: opt_entry_def)

lemma safe_semantic:
  assumes "safe_json (input_json i)"
  shows "safe_json (semantic_json (semantic_of lc i))"
proof -
  have "safe_json (JArr (map reference_json (normalizeContextReferences lc rs))) =
      safe_json (JArr (map reference_json rs))" for rs
    by (simp add: normalizeContextReferences_def)
  moreover have "safe_json (JArr (map provider_json (normalizeProviders lc ps))) =
      safe_json (JArr (map provider_json ps))" for ps
    by (simp add: set_normalizeProviders provider_json_def)
  moreover have "\<not> sensitive_text (ref_id (pl_routePlan i))"
    using assms by (simp add: input_json_def planning_entries_def reference_json_def)
  ultimately show ?thesis using assms
    by (simp add: semantic_json_def semantic_of_def input_json_def planning_entries_def opt_entry_ball ball_Un)
qed

section \<open>Creating a plan\<close>

lemma plan_of_fields [simp]:
  "pln_executionPlanId (plan_of s d t) = expectedPlanId d" "pln_immutableDigest (plan_of s d t) = d"
  "pln_createdAt (plan_of s d t) = t" "semantic_plan.truncate (plan_of s d t) = s"
  by (simp_all add: plan_of_def planned.defs semantic_plan.defs)

lemma semantic_json_plan_of [simp]: "semantic_json (plan_of s d t) = semantic_json s"
  by (cases s) (simp add: plan_of_def planned.defs semantic_plan.defs semantic_json_def planning_entries_def)

lemma semantic_digest_of:
  assumes "safe_json (input_json i)" and "capabilities_ok (pl_runnerCapabilities i)"
  shows "semantic_digest sha (semantic_of lc i) = Inr (json_digest sha (semantic_json (semantic_of lc i)))"
proof -
  have plain: "plain_json (semantic_json (semantic_of lc i))"
    unfolding plain_semantic using assms(2)
    by (auto simp: semantic_of_def capabilities_ok_def)
  then have "validateJsonValue ''plan'' (semantic_json (semantic_of lc i)) = Inr (semantic_json (semantic_of lc i))"
    using safe_semantic [OF assms(1)] by simp
  then show ?thesis using digestJson_finite [OF plain_json_finite [OF plain]]
    by (simp only: semantic_digest_def chain_simps)
qed

definition planned_of :: "(string \<Rightarrow> string \<Rightarrow> int) \<Rightarrow> (string \<Rightarrow> string) \<Rightarrow> create_plan_input \<Rightarrow> planned" where
  "planned_of lc sha i = plan_of (semantic_of lc i) (json_digest sha (semantic_json (semantic_of lc i)))
     (case ci_createdAt i of None \<Rightarrow> ''1970-01-01T00:00:00.000Z'' | Some t \<Rightarrow> t)"

lemma semantic_digest_plan_of: "semantic_digest sha (plan_of s d t) = semantic_digest sha s"
  by (simp add: semantic_digest_def)

lemma validate_planned:
  assumes "safe_json (input_json i)" and "capabilities_ok (pl_runnerCapabilities i)"
  shows "planner_validate sha validator (planned_of lc sha i) = Inr (case validator (planned_of lc sha i) of
      None \<Rightarrow> \<lparr>pv_ok = True, pv_issues = []\<rparr>
    | Some issues \<Rightarrow> \<lparr>pv_ok = False,
        pv_issues = map (\<lambda>issue. issue_path issue @ '' '' @ issue_message issue) issues\<rparr>)"
  by (simp add: planner_validate_def validateContract_def planned_of_def semantic_digest_plan_of
      semantic_digest_of [OF assms] split: option.split)

lemma planner_create_Inr:
  "planner_create lc sha validator i plans = (Inr plan, plans') \<longleftrightarrow>
     safe_json (input_json i) \<and> capabilities_ok (pl_runnerCapabilities i) \<and> plan = planned_of lc sha i \<and>
     validator plan = None \<and> plans' = AList.update (pln_executionPlanId plan) plan plans"
proof (cases "safe_json (input_json i) \<and> capabilities_ok (pl_runnerCapabilities i)")
  case True
  then have semantic: "semanticPlan lc i = Inr (semantic_of lc i)" by (simp add: semanticPlan_Inr)
  have digest: "semantic_digest sha (semantic_of lc i) = Inr (json_digest sha (semantic_json (semantic_of lc i)))"
    using True semantic_digest_of by blast
  have validation: "planner_validate sha validator (planned_of lc sha i) = Inr (case validator (planned_of lc sha i) of
      None \<Rightarrow> \<lparr>pv_ok = True, pv_issues = []\<rparr>
    | Some issues \<Rightarrow> \<lparr>pv_ok = False,
        pv_issues = map (\<lambda>issue. issue_path issue @ '' '' @ issue_message issue) issues\<rparr>)"
    using True validate_planned by blast
  show ?thesis using True validation
    by (auto simp: planner_create_def semantic digest Let_def planned_of_def [symmetric] split: option.splits)
next
  case False
  then have "semanticPlan lc i \<noteq> Inr s" for s unfolding semanticPlan_Inr by blast
  then obtain e where "semanticPlan lc i = Inl e" by (cases "semanticPlan lc i") auto
  then show ?thesis using False by (auto simp: planner_create_def)
qed


section \<open>The digest identifies the plan\<close>

lemma reference_json_inject: "normalize_json (reference_json a) = normalize_json (reference_json b) \<Longrightarrow> a = b"
  by (cases a; cases b) (simp add: reference_json_def)

lemma change_operation_name_inject [simp]: "change_operation_name a = change_operation_name b \<longleftrightarrow> a = b"
  by (cases a; cases b) simp_all

lemma dependency_operation_name_inject [simp]: "dependency_operation_name a = dependency_operation_name b \<longleftrightarrow> a = b"
  by (cases a; cases b) simp_all

lemma dependency_kind_name_inject [simp]: "dependency_kind_name a = dependency_kind_name b \<longleftrightarrow> a = b"
  by (cases a; cases b) simp_all

lemma plan_mode_name_inject [simp]: "plan_mode_name a = plan_mode_name b \<longleftrightarrow> a = b"
  by (cases a; cases b) simp_all

lemma plan_status_name_inject [simp]: "plan_status_name a = plan_status_name b \<longleftrightarrow> a = b"
  by (cases a; cases b) simp_all

lemma file_json_inject: "normalize_json (file_json a) = normalize_json (file_json b) \<Longrightarrow> a = b"
  by (cases a; cases b) (simp add: file_json_def)

lemma dependency_json_inject: "normalize_json (dependency_json a) = normalize_json (dependency_json b) \<Longrightarrow> a = b"
  by (cases a; cases b) (simp add: dependency_json_def)

lemma command_json_inject: "normalize_json (command_json a) = normalize_json (command_json b) \<Longrightarrow> a = b"
  by (cases a; cases b) (simp add: command_json_def)

lemma provider_json_inject: "normalize_json (provider_json a) = normalize_json (provider_json b) \<Longrightarrow> a = b"
  by (cases a; cases b) (simp add: provider_json_def)

text \<open>Two plans with the same content, up to the order of the keys of the runner capabilities.\<close>

definition same_plan :: "semantic_plan \<Rightarrow> semantic_plan \<Rightarrow> bool" where
  "same_plan s t \<longleftrightarrow> s\<lparr>pl_runnerCapabilities := None\<rparr> = t\<lparr>pl_runnerCapabilities := None\<rparr> \<and>
     map_option normalize_json (pl_runnerCapabilities s) = map_option normalize_json (pl_runnerCapabilities t)"

definition semantic_entries :: "semantic_plan \<Rightarrow> (string \<times> json) list" where
  "semantic_entries s = (case semantic_json s of JObj kvs \<Rightarrow> kvs | _ \<Rightarrow> [])"

lemma semantic_json_entries: "semantic_json s = JObj (semantic_entries s)"
  by (simp add: semantic_entries_def semantic_json_def)

lemma semantic_entries_distinct: "distinct (map fst (semantic_entries s))"
  by (simp add: semantic_entries_def semantic_json_def planning_entries_def opt_entry_def split: option.split)


lemma semantic_entry_at:
  "map_of (semantic_entries s) ''routePlanId'' = Some (JStr (sp_routePlanId s))"
  "map_of (semantic_entries s) ''mode'' = Some (JStr (plan_mode_name (sp_mode s)))"
  "map_of (semantic_entries s) ''fileChanges'' = Some (JArr (map file_json (sp_fileChanges s)))"
  "map_of (semantic_entries s) ''dependencyChanges'' = Some (JArr (map dependency_json (sp_dependencyChanges s)))"
  "map_of (semantic_entries s) ''commands'' = Some (JArr (map command_json (sp_commands s)))"
  "map_of (semantic_entries s) ''networkDestinations'' = Some (strs_json (sp_networkDestinations s))"
  "map_of (semantic_entries s) ''credentials'' = Some (strs_json (sp_credentials s))"
  "map_of (semantic_entries s) ''rollback'' = Some (strs_json (sp_rollback s))"
  "map_of (semantic_entries s) ''verification'' = Some (strs_json (sp_verification s))"
  "map_of (semantic_entries s) ''approval'' = Some (JObj [(''required'', JBool (pa_required (sp_approval s))),
        (''scopes'', strs_json (pa_scopes (sp_approval s)))])"
  "map_of (semantic_entries s) ''status'' = Some (JStr (plan_status_name (sp_status s)))"
  "map_of (semantic_entries s) ''providers'' = Some (JArr (map provider_json (sp_providers s)))"
  "map_of (semantic_entries s) ''expectedArtifacts'' = Some (strs_json (sp_expectedArtifacts s))"
  "map_of (semantic_entries s) ''affectedScopes'' = Some (strs_json (sp_affectedScopes s))"
  "map_of (semantic_entries s) ''risks'' = Some (strs_json (sp_risks s))"
  "map_of (semantic_entries s) ''unresolvedInputs'' = Some (strs_json (sp_unresolvedInputs s))"
  "map_of (semantic_entries s) ''deniedSteps'' = Some (strs_json (sp_deniedSteps s))"
  by (simp_all add: semantic_entries_def semantic_json_def)

lemma planning_entry_at:
  "map_of (planning_entries i) ''projectSnapshot'' = Some (JStr (pl_projectSnapshot i))"
  "map_of (planning_entries i) ''catalogSnapshot'' = Some (JStr (pl_catalogSnapshot i))"
  "map_of (planning_entries i) ''policySnapshot'' = Some (JStr (pl_policySnapshot i))"
  "map_of (planning_entries i) ''routePlan'' = Some (reference_json (pl_routePlan i))"
  "map_of (planning_entries i) ''contextReferences'' = Some (JArr (map reference_json (pl_contextReferences i)))"
  "map_of (planning_entries i) ''objective'' = Some (JStr (pl_objective i))"
  "map_of (planning_entries i) ''constraints'' = Some (strs_json (pl_constraints i))"
  "map_of (planning_entries i) ''lockfile'' = map_option reference_json (pl_lockfile i)"
  "map_of (planning_entries i) ''runnerCapabilities'' = pl_runnerCapabilities i"
  by (simp_all add: planning_entries_def)

definition planning_names :: "string list" where
  "planning_names = [''projectSnapshot'', ''catalogSnapshot'', ''policySnapshot'', ''routePlan'',
     ''contextReferences'', ''objective'', ''constraints'', ''lockfile'', ''runnerCapabilities'']"

lemma planning_entries_names: "fst ` set (planning_entries i) \<subseteq> set planning_names"
  by (auto simp: planning_entries_def planning_names_def opt_entry_def split: option.splits)

lemma semantic_planning_entry:
  assumes "k \<in> set planning_names"
  shows "map_of (semantic_entries s) k = map_of (planning_entries s) k"
proof -
  obtain base where base: "semantic_entries s = base @ planning_entries s"
    "list_all (\<lambda>kv. fst kv \<notin> set planning_names) base"
    by (simp add: semantic_entries_def semantic_json_def planning_names_def)
  then have "map_of base k = None" using assms by (force simp: list_all_iff map_of_eq_None_iff)
  then show ?thesis by (simp add: base(1) map_add_def split: option.split)
qed

text \<open>The planning inputs of two plans that are mapped to the same JSON.\<close>

definition same_planning :: "'a planning_inputs_scheme \<Rightarrow> 'b planning_inputs_scheme \<Rightarrow> bool" where
  "same_planning i j \<longleftrightarrow> pl_projectSnapshot i = pl_projectSnapshot j \<and>
     pl_catalogSnapshot i = pl_catalogSnapshot j \<and> pl_policySnapshot i = pl_policySnapshot j \<and>
     pl_routePlan i = pl_routePlan j \<and> pl_contextReferences i = pl_contextReferences j \<and>
     pl_objective i = pl_objective j \<and> pl_constraints i = pl_constraints j \<and>
     pl_lockfile i = pl_lockfile j \<and>
     map_option normalize_json (pl_runnerCapabilities i) = map_option normalize_json (pl_runnerCapabilities j)"

lemma reference_option_inject:
  "map_option normalize_json (map_option reference_json a) = map_option normalize_json (map_option reference_json b)
    \<longleftrightarrow> a = b"
  using reference_json_inject by (cases a; cases b) auto

lemma same_planning_entries:
  assumes "\<And>k. map_option normalize_json (map_of (planning_entries i) k) =
      map_option normalize_json (map_of (planning_entries j) k)"
  shows "same_planning i j"
proof -
  note at = assms [of "''projectSnapshot''"] assms [of "''catalogSnapshot''"] assms [of "''policySnapshot''"]
    assms [of "''routePlan''"] assms [of "''contextReferences''"] assms [of "''objective''"]
    assms [of "''constraints''"] assms [of "''lockfile''"] assms [of "''runnerCapabilities''"]
  show ?thesis
    using at reference_json_inject
      normalize_JArr_map [of reference_json "pl_contextReferences i" "pl_contextReferences j", OF reference_json_inject]
    unfolding planning_entry_at reference_option_inject
    by (simp add: same_planning_def del: normalize_json.simps(1))
qed

lemma semantic_json_inject:
  assumes "normalize_json (semantic_json s) = normalize_json (semantic_json t)"
  shows "same_plan s t"
proof -
  have fields: "map_option normalize_json (map_of (semantic_entries s) k) =
      map_option normalize_json (map_of (semantic_entries t) k)" for k
    using assms normalize_obj_eq_iff [OF semantic_entries_distinct semantic_entries_distinct]
    unfolding semantic_json_entries by blast
  have "same_planning s t"
  proof (rule same_planning_entries)
    fix k
    show "map_option normalize_json (map_of (planning_entries s) k) =
      map_option normalize_json (map_of (planning_entries t) k)"
    proof (cases "k \<in> set planning_names")
      case True
      then show ?thesis using fields [of k] by (simp only: semantic_planning_entry)
    next
      case False
      then have "map_of (planning_entries i) k = None" for i :: semantic_plan
        using planning_entries_names by (force simp: map_of_eq_None_iff)
      then show ?thesis by simp
    qed
  qed
  moreover note at = fields [of "''routePlanId''"] fields [of "''mode''"] fields [of "''fileChanges''"]
    fields [of "''dependencyChanges''"] fields [of "''commands''"] fields [of "''networkDestinations''"]
    fields [of "''credentials''"] fields [of "''rollback''"] fields [of "''verification''"]
    fields [of "''approval''"] fields [of "''status''"] fields [of "''providers''"]
    fields [of "''expectedArtifacts''"] fields [of "''affectedScopes''"] fields [of "''risks''"]
    fields [of "''unresolvedInputs''"] fields [of "''deniedSteps''"]
  ultimately show ?thesis
    using normalize_JArr_map [of file_json "sp_fileChanges s" "sp_fileChanges t", OF file_json_inject]
      normalize_JArr_map [of dependency_json "sp_dependencyChanges s" "sp_dependencyChanges t", OF dependency_json_inject]
      normalize_JArr_map [of command_json "sp_commands s" "sp_commands t", OF command_json_inject]
      normalize_JArr_map [of provider_json "sp_providers s" "sp_providers t", OF provider_json_inject]
    unfolding semantic_entry_at
    by (cases s; cases t) (simp add: same_plan_def same_planning_def del: normalize_json.simps(1))
qed


section \<open>Drift\<close>

definition normal_inputs :: "(string \<Rightarrow> string \<Rightarrow> int) \<Rightarrow> 'a planning_inputs_scheme \<Rightarrow> 'a planning_inputs_scheme" where
  "normal_inputs lc i = i\<lparr>pl_contextReferences := normalizeContextReferences lc (pl_contextReferences i),
     pl_constraints := stableStrings (pl_constraints i)\<rparr>"

definition comparable :: "'a planning_inputs_scheme \<Rightarrow> bool" where
  "comparable i \<longleftrightarrow> (\<forall>v. pl_runnerCapabilities i = Some v \<longrightarrow> safe_json v \<and> plain_json v)"

lemma comparisonRecord_Inr:
  "comparisonRecord lc i side = Inr es \<longleftrightarrow> comparable i \<and> es = planning_entries (normal_inputs lc i)"
  by (cases "pl_runnerCapabilities i")
    (auto simp: comparisonRecord_def chain_eq_Inr comparable_def normal_inputs_def planning_entries_def)

lemma planning_entries_finite:
  assumes "comparable i" and "map_of (planning_entries i) k = Some v"
  shows "finite_json v"
proof -
  have "\<forall>kv \<in> set (planning_entries i). plain_json (snd kv)"
    using assms(1) by (auto simp: planning_entries_def ball_Un opt_entry_ball comparable_def)
  then have "plain_json v" using map_of_SomeD [OF assms(2)] by fastforce
  then show ?thesis by (rule plain_json_finite)
qed

lemma sameJson_finite:
  assumes "finite_json a" and "finite_json b"
  shows "sameJson a b = Inr (normalize_json a = normalize_json b)"
proof -
  have "canonicalJson a = Inr (print_json (normalize_json a))" "canonicalJson b = Inr (print_json (normalize_json b))"
    using assms by (simp_all add: canonicalJson_eq_Inr_iff)
  moreover have "print_json (normalize_json a) = print_json (normalize_json b) \<longleftrightarrow> normalize_json a = normalize_json b"
    using assms print_json_inject [of "normalize_json a" "normalize_json b"] by auto
  ultimately show ?thesis by (simp add: sameJson_def)
qed

lemma for_each_filter:
  "(\<And>k. k \<in> set ks \<Longrightarrow> f k = Inr (g k)) \<Longrightarrow>
     for_each (\<lambda>k acc. chain (f k) (\<lambda>d. Inr (if d then acc @ [k] else acc))) ks acc = Inr (acc @ filter g ks)"
  by (induction ks arbitrary: acc) auto

lemma differs_at_keys:
  assumes "comparable i" and "comparable j"
    and "k \<in> fst ` set (planning_entries i) \<union> fst ` set (planning_entries j)"
  shows "differs_at (planning_entries i) (planning_entries j) k = Inr (map_option normalize_json
      (map_of (planning_entries i) k) \<noteq> map_option normalize_json (map_of (planning_entries j) k))"
proof (cases "map_of (planning_entries i) k")
  case None
  then have "map_of (planning_entries j) k \<noteq> None"
    using assms(3) by (auto simp: map_of_eq_None_iff)
  then show ?thesis using None by (auto simp: differs_at_def)
next
  case (Some v)
  show ?thesis
  proof (cases "map_of (planning_entries j) k")
    case None
    then show ?thesis using Some by (simp add: differs_at_def)
  next
    case w: (Some w)
    have "sameJson v w = Inr (normalize_json v = normalize_json w)"
      using planning_entries_finite [OF assms(1) Some] planning_entries_finite [OF assms(2) w]
      by (rule sameJson_finite)
    then show ?thesis using Some w by (simp add: differs_at_def)
  qed
qed

text \<open>The fields in which two planning inputs differ.\<close>

definition changed_fields :: "'a planning_inputs_scheme \<Rightarrow> 'b planning_inputs_scheme \<Rightarrow> string set" where
  "changed_fields i j = {k. map_option normalize_json (map_of (planning_entries i) k) \<noteq>
     map_option normalize_json (map_of (planning_entries j) k)}"

lemma changed_fields_names: "changed_fields i j \<subseteq> fst ` set (planning_entries i) \<union> fst ` set (planning_entries j)"
proof
  fix k
  assume k: "k \<in> changed_fields i j"
  show "k \<in> fst ` set (planning_entries i) \<union> fst ` set (planning_entries j)"
  proof (rule ccontr)
    assume "k \<notin> fst ` set (planning_entries i) \<union> fst ` set (planning_entries j)"
    then have "map_of (planning_entries i) k = None" "map_of (planning_entries j) k = None"
      by (simp_all add: map_of_eq_None_iff)
    then show False using k by (simp add: changed_fields_def)
  qed
qed

lemma changed_fields_empty: "changed_fields i j = {} \<longleftrightarrow> same_planning i j"
proof
  assume "changed_fields i j = {}"
  then show "same_planning i j" by (intro same_planning_entries) (auto simp: changed_fields_def)
next
  assume same: "same_planning i j"
  have "map_option normalize_json (map_of (planning_entries i) k) =
      map_option normalize_json (map_of (planning_entries j) k)" if "k \<in> set planning_names" for k
    using same that unfolding planning_names_def same_planning_def
    by (auto simp: planning_entry_at simp del: normalize_json.simps)
  moreover have "changed_fields i j \<subseteq> set planning_names"
    using changed_fields_names [of i j] planning_entries_names [of i] planning_entries_names [of j] by blast
  ultimately show "changed_fields i j = {}" unfolding changed_fields_def by blast
qed

lemma planner_compare_Inr:
  "planner_compare lc plan current = Inr d \<longleftrightarrow> comparable plan \<and> comparable current \<and>
     (let i = normal_inputs lc plan; j = normal_inputs lc current;
          differences = filter (\<lambda>k. k \<in> changed_fields i j)
            (js_set (map fst (planning_entries i) @ map fst (planning_entries j)))
      in d = \<lparr>drift_drifted = (differences \<noteq> []), drift_differences = differences\<rparr>)"
proof -
  let ?i = "normal_inputs lc plan" and ?j = "normal_inputs lc current"
  let ?keys = "js_set (map fst (planning_entries ?i) @ map fst (planning_entries ?j))"
  have comparable: "comparable (normal_inputs lc x) = comparable x" for x :: "'a planning_inputs_scheme"
    by (simp add: comparable_def normal_inputs_def)
  have "for_each (\<lambda>key differences. chain (differs_at (planning_entries ?i) (planning_entries ?j) key)
      (\<lambda>d. Inr (if d then differences @ [key] else differences))) ?keys [] =
    Inr ([] @ filter (\<lambda>k. k \<in> changed_fields ?i ?j) ?keys)"
    if "comparable ?i" "comparable ?j"
    by (rule for_each_filter) (use differs_at_keys [OF that] in \<open>auto simp: changed_fields_def\<close>)
  then show ?thesis
    by (auto simp: planner_compare_def chain_eq_Inr comparisonRecord_Inr comparable_def normal_inputs_def Let_def)
qed


section \<open>Properties\<close>

lemma semantic_of_truncate: "semantic_plan.truncate (planned_of lc sha i) = semantic_of lc i"
  by (simp add: planned_of_def)

lemma semantic_json_planned [simp]: "semantic_json (planned_of lc sha i) = semantic_json (semantic_of lc i)"
  by (simp add: planned_of_def)

lemma planned_fields [simp]:
  "sp_mode (planned_of lc sha i) = ModePlan" "sp_credentials (planned_of lc sha i) = []"
  "pl_projectSnapshot (planned_of lc sha i) = pl_projectSnapshot i"
  "pl_catalogSnapshot (planned_of lc sha i) = pl_catalogSnapshot i"
  "pl_policySnapshot (planned_of lc sha i) = pl_policySnapshot i"
  "pl_routePlan (planned_of lc sha i) = pl_routePlan i" "pl_objective (planned_of lc sha i) = pl_objective i"
  "pl_contextReferences (planned_of lc sha i) = normalizeContextReferences lc (pl_contextReferences i)"
  "pl_constraints (planned_of lc sha i) = stableStrings (pl_constraints i)"
  "pl_lockfile (planned_of lc sha i) = pl_lockfile i"
  "pl_runnerCapabilities (planned_of lc sha i) = pl_runnerCapabilities i"
  "sp_status (planned_of lc sha i) = status_of (ci_deniedSteps i) (ci_unresolvedInputs i) (pl_objective i)"
  "sp_approval (planned_of lc sha i) = \<lparr>pa_required = ci_permissions i \<noteq> [],
     pa_scopes = stableStrings (ci_permissions i)\<rparr>"
  by (simp_all add: planned_of_def plan_of_def semantic_of_def planned.defs semantic_plan.defs)

text \<open>
  C25: Creating a plan succeeds exactly when no text of the input looks like a secret, the runner
  capabilities are a plain JSON object and the contract accepts the plan. The plan is stored under
  an id derived from its digest, validates, holds no secret-like text and no credentials, requires
  approval exactly for the permissions asked for, and is ready only without denied steps, open
  inputs or an empty objective.
\<close>

theorem planner_create_exact:
  "case planner_create lc sha validator i plans of
     (Inl e, plans') \<Rightarrow> plans' = plans \<and>
       ((\<exists>s \<in> json_texts (input_json i). sensitive_text s) \<or>
        \<not> capabilities_ok (pl_runnerCapabilities i) \<or> validator (planned_of lc sha i) \<noteq> None)
   | (Inr plan, plans') \<Rightarrow> getPlan plans' (expectedPlanId (pln_immutableDigest plan)) = Some plan \<and>
       planner_validate sha validator plan = Inr \<lparr>pv_ok = True, pv_issues = []\<rparr> \<and>
       (\<forall>s \<in> json_texts (input_json i) \<union> json_texts (semantic_json plan). \<not> sensitive_text s) \<and>
       capabilities_ok (pl_runnerCapabilities i) \<and> sp_credentials plan = [] \<and> set (pa_scopes (sp_approval plan)) = set (ci_permissions i) \<and>
       (pa_required (sp_approval plan) \<longleftrightarrow> ci_permissions i \<noteq> []) \<and>
       (sp_status plan = PlanReady \<longleftrightarrow> ci_deniedSteps i = [] \<and> ci_unresolvedInputs i = [] \<and>
          js_trim (pl_objective i) \<noteq> '''')"
proof (cases "planner_create lc sha validator i plans")
  case (Pair r plans')
  show ?thesis
  proof (cases r)
    case (Inl e)
    have "\<not> (safe_json (input_json i) \<and> capabilities_ok (pl_runnerCapabilities i) \<and>
        validator (planned_of lc sha i) = None)"
    proof
      assume "safe_json (input_json i) \<and> capabilities_ok (pl_runnerCapabilities i) \<and>
        validator (planned_of lc sha i) = None"
      then have "planner_create lc sha validator i plans = (Inr (planned_of lc sha i),
          AList.update (pln_executionPlanId (planned_of lc sha i)) (planned_of lc sha i) plans)"
        by (simp add: planner_create_Inr)
      then show False using Pair Inl by simp
    qed
    moreover have "plans' = plans"
      using Pair Inl by (auto simp: planner_create_def split: sum.splits)
    ultimately show ?thesis using Pair Inl by (auto simp: safe_json_texts)
  next
    case (Inr plan)
    have "planner_create lc sha validator i plans = (Inr plan, plans')" using Pair Inr by simp
    note created = this [unfolded planner_create_Inr]
    have facts: "safe_json (input_json i)" "capabilities_ok (pl_runnerCapabilities i)"
      "plan = planned_of lc sha i" "validator plan = None"
      "plans' = AList.update (pln_executionPlanId plan) plan plans"
      using created by blast+
    have "pln_executionPlanId plan = expectedPlanId (pln_immutableDigest plan)"
      by (simp add: facts(3) planned_of_def)
    then have "getPlan plans' (expectedPlanId (pln_immutableDigest plan)) = Some plan"
      by (simp add: getPlan_def facts(5) map_of_update)
    moreover have "planner_validate sha validator plan = Inr \<lparr>pv_ok = True, pv_issues = []\<rparr>"
      using validate_planned [OF facts(1,2)] facts(3,4) by simp
    moreover have "\<forall>s \<in> json_texts (input_json i) \<union> json_texts (semantic_json plan). \<not> sensitive_text s"
      using facts(1) safe_semantic [OF facts(1)] by (auto simp: facts(3) safe_json_texts)
    ultimately show ?thesis
      using Pair Inr facts(2) by (simp add: facts(3) status_of_def)
  qed
qed

text \<open>
  The digest of a created plan identifies its content: where SHA-256 does not collide on the
  two canonical texts, two created plans with the same digest agree in everything but their creation
  time, up to the order of the keys of the runner capabilities.
\<close>

theorem plan_digest_identifies:
  assumes "planner_create lc sha validator i plans = (Inr plan, plans')"
    and "planner_create lc sha validator j others = (Inr other, others')"
    and "pln_immutableDigest plan = pln_immutableDigest other"
    and "collision_free sha (semantic_json plan) (semantic_json other)"
  shows "same_plan (semantic_plan.truncate plan) (semantic_plan.truncate other)"
proof -
  have i: "safe_json (input_json i)" "capabilities_ok (pl_runnerCapabilities i)" "plan = planned_of lc sha i"
    using assms(1) by (simp_all add: planner_create_Inr)
  have j: "safe_json (input_json j)" "capabilities_ok (pl_runnerCapabilities j)" "other = planned_of lc sha j"
    using assms(2) by (simp_all add: planner_create_Inr)
  have finite: "finite_json (semantic_json (semantic_of lc x))" if "capabilities_ok (pl_runnerCapabilities x)" for x
  proof -
    have "pl_runnerCapabilities (semantic_of lc x) = pl_runnerCapabilities x" by (simp add: semantic_of_def)
    then show ?thesis using that
      by (intro plain_json_finite) (auto simp: plain_semantic capabilities_ok_def)
  qed
  have "json_digest sha (semantic_json (semantic_of lc i)) = json_digest sha (semantic_json (semantic_of lc j))"
    using assms(3) i(3) j(3) by (simp add: planned_of_def)
  then have "normalize_json (semantic_json (semantic_of lc i)) = normalize_json (semantic_json (semantic_of lc j))"
    using json_digest_eq_iff [OF finite [OF i(2)] finite [OF j(2)]] assms(4) i(3) j(3) by simp
  then show ?thesis unfolding i(3) j(3) semantic_of_truncate by (rule semantic_json_inject)
qed

text \<open>A small request, and a validator that accepts every plan.\<close>

definition sample_request :: "string list \<Rightarrow> file_change list \<Rightarrow> create_plan_input" where
  "sample_request constraints changes = \<lparr>
     pl_projectSnapshot = ''p'', pl_catalogSnapshot = ''c'', pl_policySnapshot = ''q'',
     pl_routePlan = \<lparr>ref_id = ''r'', ref_digest = ''d''\<rparr>, pl_contextReferences = [],
     pl_objective = ''go'', pl_constraints = constraints, pl_lockfile = None, pl_runnerCapabilities = None,
     ci_createdAt = None, ci_providers = [], ci_dependencies = [], ci_fileOperations = changes,
     ci_commands = [], ci_networkDestinations = [], ci_permissions = [''project-write''],
     ci_verification = [], ci_expectedArtifacts = [], ci_rollback = [], ci_affectedScopes = [],
     ci_risks = [], ci_unresolvedInputs = [], ci_deniedSteps = []\<rparr>"

definition sample_change :: "string \<Rightarrow> file_change" where
  "sample_change path = \<lparr>fc_operation = ChangeCreate, fc_path = path, fc_contentDigest = None\<rparr>"

definition accept_plan :: "planned validator" where
  "accept_plan plan = None"

lemma sample_texts [simp]: "\<not> sensitive_text ''p''" "\<not> sensitive_text ''c''" "\<not> sensitive_text ''q''"
  "\<not> sensitive_text ''r''" "\<not> sensitive_text ''d''" "\<not> sensitive_text ''go''"
  "\<not> sensitive_text ''project-write''" "\<not> sensitive_text ''a''" "\<not> sensitive_text ''b''"
  by (simp_all add: sensitive_code)

lemma sample_request_fields [simp]:
  "ci_deniedSteps (sample_request cs fs) = []" "ci_unresolvedInputs (sample_request cs fs) = []"
  "pl_objective (sample_request cs fs) = ''go''" "pl_runnerCapabilities (sample_request cs fs) = None"
  by (simp_all add: sample_request_def)

lemma request_created:
  assumes "\<forall>s \<in> set constraints. \<not> sensitive_text s" and "\<forall>c \<in> set changes. \<not> sensitive_text (fc_path c)"
    and "\<forall>c \<in> set changes. fc_contentDigest c = None"
  shows "planner_create lc sha accept_plan (sample_request constraints changes) [] =
    (Inr (planned_of lc sha (sample_request constraints changes)),
     [(pln_executionPlanId (planned_of lc sha (sample_request constraints changes)),
       planned_of lc sha (sample_request constraints changes))])"
proof -
  have "safe_json (input_json (sample_request constraints changes))"
    using assms by (auto simp: input_json_def planning_entries_def sample_request_def opt_entry_def
        reference_json_def file_json_def)
  then show ?thesis
    by (simp add: planner_create_Inr capabilities_ok_def accept_plan_def)
qed

lemma planner_create_exact_witness:
  "\<exists>plan plans'. planner_create (\<lambda>a b. 0) id accept_plan (sample_request [] []) [] = (Inr plan, plans') \<and>
     getPlan plans' (expectedPlanId (pln_immutableDigest plan)) = Some plan \<and> sp_status plan = PlanReady"
proof -
  have "planner_create (\<lambda>a b. 0) id accept_plan (sample_request [] []) [] =
    (Inr (planned_of (\<lambda>a b. 0) id (sample_request [] [])),
     [(pln_executionPlanId (planned_of (\<lambda>a b. 0) id (sample_request [] [])),
       planned_of (\<lambda>a b. 0) id (sample_request [] []))])"
    by (rule request_created) simp_all
  then show ?thesis
    using planner_create_exact [where i = "sample_request [] []" and sha = id and lc = "\<lambda>a b. 0"
        and validator = accept_plan and plans = "[]"]
    by (auto simp: status_of_def js_trim_def js_white_def)
qed

lemma plan_digest_identifies_witness:
  "\<exists>plan plans' other others'. planner_create (\<lambda>a b. 0) id accept_plan (sample_request [''a'', ''b''] []) [] =
       (Inr plan, plans') \<and>
     planner_create (\<lambda>a b. 0) id accept_plan (sample_request [''b'', ''a'', ''b''] []) [] = (Inr other, others') \<and>
     same_plan (semantic_plan.truncate plan) (semantic_plan.truncate other)"
proof -
  let ?i = "sample_request [''a'', ''b''] []" and ?j = "sample_request [''b'', ''a'', ''b''] []"
  have i: "planner_create (\<lambda>a b. 0) id accept_plan ?i [] = (Inr (planned_of (\<lambda>a b. 0) id ?i),
      [(pln_executionPlanId (planned_of (\<lambda>a b. 0) id ?i), planned_of (\<lambda>a b. 0) id ?i)])"
    and j: "planner_create (\<lambda>a b. 0) id accept_plan ?j [] = (Inr (planned_of (\<lambda>a b. 0) id ?j),
      [(pln_executionPlanId (planned_of (\<lambda>a b. 0) id ?j), planned_of (\<lambda>a b. 0) id ?j)])"
    by (auto intro!: request_created)
  have "stableStrings [''a'', ''b''] = stableStrings [''b'', ''a'', ''b'']"
    unfolding stableStrings_def stableUnique_eq_iff by auto
  then have "semantic_of (\<lambda>a b. 0) ?i = semantic_of (\<lambda>a b. 0) ?j"
    by (simp add: semantic_of_def sample_request_def)
  then have "pln_immutableDigest (planned_of (\<lambda>a b. 0) id ?i) = pln_immutableDigest (planned_of (\<lambda>a b. 0) id ?j)"
    by (simp add: planned_of_def)
  then show ?thesis
    using plan_digest_identifies [OF i j] i j by (metis collision_free_def id_apply)
qed

section \<open>Drift of a created plan\<close>

lemma collation_sort_idem: "collation lc \<Longrightarrow> stable lc (stable lc xs key) key = stable lc xs key"
  unfolding stable_def collation_def
  by (rule comparator.js_sort_idem) (rule comparator_by)

lemma normal_planned_entries:
  assumes "collation lc"
  shows "planning_entries (normal_inputs lc (planned_of lc sha i)) = planning_entries (normal_inputs lc i)"
  by (simp add: planning_entries_def normal_inputs_def normalizeContextReferences_def
      collation_sort_idem [OF assms] stableStrings_def)

text \<open>
  Comparing a created plan with current inputs succeeds for every current inputs whose runner
  capabilities are safe JSON. It names each changed field once and nothing else, where the order of
  the context references and the order and repetition of the constraints do not count; so drift is
  reported exactly when the inputs differ.
\<close>

theorem plan_drift_exact:
  assumes "planner_create lc sha validator i plans = (Inr plan, plans')" and "collation lc"
    and "comparable current"
  shows "\<exists>drift. planner_compare lc plan current = Inr drift \<and> distinct (drift_differences drift) \<and>
     set (drift_differences drift) = changed_fields (normal_inputs lc i) (normal_inputs lc current) \<and>
     (drift_drifted drift \<longleftrightarrow> \<not> same_planning (normal_inputs lc i) (normal_inputs lc current))"
proof -
  note created = assms(1) [unfolded planner_create_Inr]
  have plan: "plan = planned_of lc sha i" using created by blast
  have "comparable plan" using created input_capabilities [of i]
    by (auto simp: plan comparable_def capabilities_ok_def split: option.splits)
  have same: "changed_fields (normal_inputs lc plan) (normal_inputs lc current) =
      changed_fields (normal_inputs lc i) (normal_inputs lc current)"
    by (simp add: changed_fields_def plan normal_planned_entries [OF assms(2)])
  let ?names = "js_set (map fst (planning_entries (normal_inputs lc plan)) @
      map fst (planning_entries (normal_inputs lc current)))"
  let ?d = "filter (\<lambda>k. k \<in> changed_fields (normal_inputs lc plan) (normal_inputs lc current)) ?names"
  have names: "set ?d = changed_fields (normal_inputs lc i) (normal_inputs lc current)"
    using changed_fields_names [of "normal_inputs lc plan" "normal_inputs lc current"] same by auto
  have "planner_compare lc plan current = Inr \<lparr>drift_drifted = (?d \<noteq> []), drift_differences = ?d\<rparr>"
    unfolding planner_compare_Inr Let_def using \<open>comparable plan\<close> assms(3) by blast
  moreover have "?d \<noteq> [] \<longleftrightarrow> \<not> same_planning (normal_inputs lc i) (normal_inputs lc current)"
    using names changed_fields_empty by (metis set_empty)
  ultimately show ?thesis using names by force
qed

section \<open>The order of the lists of an input\<close>

definition canonical_provider :: "plan_provider \<Rightarrow> plan_provider" where
  "canonical_provider p = \<lparr>pp_id = pp_id p, pp_integrations = stableStrings (pp_integrations p)\<rparr>"

text \<open>Two inputs with the same content: keyed lists are permuted, string lists name the same set.\<close>

definition same_strings :: "create_plan_input \<Rightarrow> create_plan_input \<Rightarrow> bool" where
  "same_strings i j \<longleftrightarrow> list_all (\<lambda>field. set (field i) = set (field j))
     [pl_constraints, ci_networkDestinations, ci_permissions, ci_verification, ci_expectedArtifacts,
      ci_rollback, ci_affectedScopes, ci_risks, ci_unresolvedInputs, ci_deniedSteps]"

definition reordered :: "create_plan_input \<Rightarrow> create_plan_input \<Rightarrow> bool" where
  "reordered i j \<longleftrightarrow> same_strings i j \<and>
     mset (pl_contextReferences i) = mset (pl_contextReferences j) \<and>
     mset (ci_fileOperations i) = mset (ci_fileOperations j) \<and>
     mset (ci_dependencies i) = mset (ci_dependencies j) \<and> mset (ci_commands i) = mset (ci_commands j) \<and>
     mset (map canonical_provider (ci_providers i)) = mset (map canonical_provider (ci_providers j)) \<and>
     pl_projectSnapshot i = pl_projectSnapshot j \<and> pl_catalogSnapshot i = pl_catalogSnapshot j \<and>
     pl_policySnapshot i = pl_policySnapshot j \<and> pl_routePlan i = pl_routePlan j \<and>
     pl_objective i = pl_objective j \<and> pl_lockfile i = pl_lockfile j \<and>
     pl_runnerCapabilities i = pl_runnerCapabilities j \<and> ci_createdAt i = ci_createdAt j"

text \<open>
  The sort keys identify the entries of each keyed list: no two entries that differ have keys that
  collate equal.
\<close>

definition keyed :: "(string \<Rightarrow> string \<Rightarrow> int) \<Rightarrow> create_plan_input \<Rightarrow> bool" where
  "keyed lc i \<longleftrightarrow> keys_decide lc ref_id (pl_contextReferences i) \<and> keys_decide lc file_key (ci_fileOperations i) \<and>
     keys_decide lc dependency_key (ci_dependencies i) \<and> keys_decide lc command_key (ci_commands i) \<and>
     keys_decide lc pp_id (map canonical_provider (ci_providers i))"

lemma stable_perm:
  "collation lc \<Longrightarrow> mset xs = mset ys \<Longrightarrow> keys_decide lc key xs \<Longrightarrow> stable lc xs key = stable lc ys key"
  unfolding stable_def collation_def by (rule sort_decided_perm)

lemma semantic_of_reordered:
  assumes "collation lc" and "reordered i j" and "keyed lc i"
  shows "semantic_of lc i = semantic_of lc j"
proof -
  note perm = stable_perm [OF assms(1)]
  have "normalizeContextReferences lc (pl_contextReferences i) = normalizeContextReferences lc (pl_contextReferences j)"
    "stable lc (ci_fileOperations i) file_key = stable lc (ci_fileOperations j) file_key"
    "stable lc (ci_dependencies i) dependency_key = stable lc (ci_dependencies j) dependency_key"
    "stable lc (ci_commands i) command_key = stable lc (ci_commands j) command_key"
    using assms(2,3) unfolding normalizeContextReferences_def reordered_def keyed_def
    by (auto intro!: perm)
  moreover have "stable lc (map canonical_provider (ci_providers i)) pp_id =
      stable lc (map canonical_provider (ci_providers j)) pp_id"
    by (rule perm) (use assms(2,3) in \<open>simp_all add: reordered_def keyed_def\<close>)
  then have "normalizeProviders lc (ci_providers i) = normalizeProviders lc (ci_providers j)"
    by (simp add: normalizeProviders_def canonical_provider_def [abs_def])
  moreover have strings: "same_strings i j" using assms(2) by (simp add: reordered_def)
  then have "ci_permissions i = [] \<longleftrightarrow> ci_permissions j = []" "ci_deniedSteps i = [] \<longleftrightarrow> ci_deniedSteps j = []"
    "ci_unresolvedInputs i = [] \<longleftrightarrow> ci_unresolvedInputs j = []"
    by (auto simp: same_strings_def simp flip: set_empty)
  ultimately show ?thesis
    using assms(2) strings
    by (simp add: semantic_of_def reordered_def same_strings_def status_of_def stableStrings_def
        stableUnique_eq_iff)
qed

lemma json_texts_providers:
  "json_texts (JArr (map provider_json ps)) =
     (\<Union>p \<in> canonical_provider ` set ps. json_texts (provider_json p))"
  by (auto simp: provider_json_def canonical_provider_def)

lemma json_texts_reordered:
  assumes "reordered i j"
  shows "json_texts (input_json i) = json_texts (input_json j)"
proof -
  have sets: "set (pl_contextReferences i) = set (pl_contextReferences j)"
    "set (ci_fileOperations i) = set (ci_fileOperations j)" "set (ci_dependencies i) = set (ci_dependencies j)"
    "set (ci_commands i) = set (ci_commands j)"
    "canonical_provider ` set (ci_providers i) = canonical_provider ` set (ci_providers j)"
    using assms unfolding reordered_def by (metis mset_eq_setD, metis mset_eq_setD, metis mset_eq_setD,
        metis mset_eq_setD, metis mset_eq_setD set_map)
  have "json_texts (JArr (map reference_json (pl_contextReferences i))) =
      json_texts (JArr (map reference_json (pl_contextReferences j)))"
    "json_texts (JArr (map file_json (ci_fileOperations i))) = json_texts (JArr (map file_json (ci_fileOperations j)))"
    "json_texts (JArr (map dependency_json (ci_dependencies i))) =
      json_texts (JArr (map dependency_json (ci_dependencies j)))"
    "json_texts (JArr (map command_json (ci_commands i))) = json_texts (JArr (map command_json (ci_commands j)))"
    "json_texts (JArr (map provider_json (ci_providers i))) = json_texts (JArr (map provider_json (ci_providers j)))"
    using sets by (simp_all only: json_texts_providers) simp_all
  then show ?thesis
    using assms unfolding reordered_def same_strings_def
    by (simp add: input_json_def planning_entries_def del: json_texts.simps(2))
qed

text \<open>
  C26: The planner is independent of presentation: for two inputs that agree up to the order of their
  lists and repeated strings it creates the same plan under the same id, or none for both. The condition is
  that the sort keys of each keyed list identify its entries: entries that differ have keys that
  do not collate equal.
\<close>

theorem plan_presentation_independent:
  assumes "collation lc" and "reordered i j" and "keyed lc i"
  shows "planner_create lc sha validator i plans = (Inr plan, plans') \<longleftrightarrow>
     planner_create lc sha validator j plans = (Inr plan, plans')"
proof -
  have "planned_of lc sha i = planned_of lc sha j"
    using semantic_of_reordered [OF assms] assms(2) by (simp add: planned_of_def reordered_def)
  moreover have "pl_runnerCapabilities i = pl_runnerCapabilities j" using assms(2) by (simp add: reordered_def)
  moreover have "safe_json (input_json i) = safe_json (input_json j)"
    by (simp add: safe_json_texts json_texts_reordered [OF assms(2)])
  ultimately show ?thesis by (simp add: planner_create_Inr)
qed

text \<open>
  Where two keys collate equal the plan keeps the order of the input. \<open>localeCompare\<close> ignores the
  character U+0000 that separates the parts of a key, so the commands \<open>ab c\<close> and \<open>a bc\<close> of one
  directory, whose keys have the same letters, are such a pair.
\<close>

theorem equal_keys_keep_order:
  assumes "collation lc" and "lc (command_key c) (command_key d) = 0" and "c \<noteq> d"
  shows "sp_commands (planned_of lc sha (i\<lparr>ci_commands := [c, d]\<rparr>)) = [c, d] \<and>
    sp_commands (planned_of lc sha (i\<lparr>ci_commands := [d, c]\<rparr>)) = [d, c]"
proof -
  have "lc (command_key d) (command_key c) = 0"
    using assms(2) comparator.cmp_zero_iff [OF assms(1) [unfolded collation_def]] by metis
  then show ?thesis
    using assms(2) by (simp add: planned_of_def plan_of_def semantic_plan.defs semantic_of_def stable_def cmp_by_def)
qed

lemma split_words_same_letters:
  "filter (\<lambda>u. u \<noteq> CHR 0x00) (command_key \<lparr>cmd_argv = [''ab'', ''c''], cmd_cwd = ''.'',
      cmd_timeoutSeconds = 1, cmd_networkRequired = False\<rparr>) =
    filter (\<lambda>u. u \<noteq> CHR 0x00) (command_key \<lparr>cmd_argv = [''a'', ''bc''], cmd_cwd = ''.'',
      cmd_timeoutSeconds = 1, cmd_networkRequired = False\<rparr>)"
  by (simp add: command_key_def nul_def)

text \<open>Inputs for the comparison: those of the request, with other constraints.\<close>

definition sample_current :: "string list \<Rightarrow> planning_inputs" where
  "sample_current constraints = planning_inputs.truncate (sample_request constraints [])"

lemma plan_drift_exact_witness:
  "\<exists>plan plans' drift. planner_create code_unit_compare id accept_plan (sample_request [''a''] []) [] = (Inr plan, plans') \<and>
     planner_compare code_unit_compare plan (sample_current [''b'']) = Inr drift \<and> drift_drifted drift"
proof -
  have created: "planner_create code_unit_compare id accept_plan (sample_request [''a''] []) [] =
    (Inr (planned_of code_unit_compare id (sample_request [''a''] [])),
     [(pln_executionPlanId (planned_of code_unit_compare id (sample_request [''a''] [])),
       planned_of code_unit_compare id (sample_request [''a''] []))])"
    by (rule request_created) simp_all
  have "comparable (sample_current [''b''])"
    by (simp add: comparable_def sample_current_def planning_inputs.truncate_def)
  moreover have "stableStrings [''a''] \<noteq> stableStrings [''b'']"
    by (simp add: stableStrings_def stableUnique_eq_iff)
  then have "\<not> same_planning (normal_inputs code_unit_compare (sample_request [''a''] []))
      (normal_inputs code_unit_compare (sample_current [''b'']))"
    by (simp add: same_planning_def normal_inputs_def sample_current_def planning_inputs.truncate_def
        sample_request_def)
  ultimately show ?thesis
    using plan_drift_exact [OF created code_units.collation_axioms] created by blast
qed

lemma plan_presentation_independent_witness:
  "planner_create code_unit_compare id accept_plan (sample_request [] [sample_change ''b'', sample_change ''a'']) [] =
   planner_create code_unit_compare id accept_plan (sample_request [] [sample_change ''a'', sample_change ''b'']) []"
proof -
  let ?i = "sample_request [] [sample_change ''a'', sample_change ''b'']"
  let ?j = "sample_request [] [sample_change ''b'', sample_change ''a'']"
  have "planner_create code_unit_compare id accept_plan ?i [] = (Inr (planned_of code_unit_compare id ?i),
      [(pln_executionPlanId (planned_of code_unit_compare id ?i), planned_of code_unit_compare id ?i)])"
    by (rule request_created) (auto simp: sample_change_def)
  moreover have "reordered ?i ?j"
    by (simp add: reordered_def same_strings_def sample_request_def)
  moreover have "keyed code_unit_compare ?i"
    by (simp add: keyed_def sample_request_def keys_decide_def file_key_def sample_change_def)
  ultimately show ?thesis
    using plan_presentation_independent [OF code_units.collation_axioms, of ?i ?j id accept_plan "[]"]
    by metis
qed

section \<open>Plans and the apply service\<close>

text \<open>
  A plan of the planner is in plan mode, never in apply mode: whatever approval and state
  accompany it, the apply service does not prepare it as ready.
\<close>

theorem planner_plan_never_ready:
  assumes "planner_create lc sha validator i plans = (Inr plan, plans')"
    and "pin_executionPlan input = contract_plan plan"
    and "prepare host input st = (Inr p, st')"
  shows "\<not> prep_ready p"
proof -
  have "plan = planned_of lc sha i" using assms(1) [unfolded planner_create_Inr] by blast
  then have "\<not> authorized host now input" for now
    by (simp add: authorized_def Let_def assms(2) contract_plan_def)
  moreover have "p = preparation_of host (svc_usedApprovals st) (now_of host st) (svc_nextRef st) input"
    using assms(3) by (cases "ah_enabled host")
      (auto simp: prepare_def assertApplyEnabled_def check_def Let_def)
  ultimately show ?thesis by (simp add: prepared_ready_iff)
qed

lemma planner_plan_never_ready_witness:
  "\<exists>plan plans' p st'. planner_create code_unit_compare id accept_plan (sample_request [] []) [] = (Inr plan, plans') \<and>
     prepare memory_host ((create_input ''n'')\<lparr>pin_executionPlan := contract_plan plan\<rparr>) new_service = (Inr p, st') \<and>
     \<not> prep_ready p"
proof -
  obtain plan plans' where created: "planner_create code_unit_compare id accept_plan (sample_request [] []) [] =
      (Inr plan, plans')"
    using request_created [of "[]" "[]"] by (metis empty_iff list.set(1))
  obtain p st' where "prepare memory_host ((create_input ''n'')\<lparr>pin_executionPlan := contract_plan plan\<rparr>) new_service =
      (Inr p, st')"
    by (simp add: prepare_def assertApplyEnabled_def check_def Let_def)
  then show ?thesis using planner_plan_never_ready [OF created] created by force
qed

end
