(* ===== verification/Evidence_Correctness.thy ===== *)
theory Evidence_Correctness
  imports Evidence Planner_Correctness
begin

text \<open>
  What evidence guarantees: an ingested envelope verifies, a passed check is backed by a runner
  result of this plan with exit code zero and matching artifacts, the order of the results does not
  matter, and the summary counts what was required.
\<close>

section \<open>Ingesting results\<close>

lemma hasDuplicateIds_iff: "hasDuplicateIds seen ids \<longleftrightarrow> \<not> distinct ids \<or> set seen \<inter> set ids \<noteq> {}"
  by (induction ids arbitrary: seen) auto

definition artifact_ok :: "(string \<Rightarrow> string) \<Rightarrow> (string \<times> string) list \<Rightarrow> artifact_reference \<Rightarrow> bool" where
  "artifact_ok sha blobs a \<longleftrightarrow> js_trim (art_id a) \<noteq> '''' \<and> isDigest (art_digest a) \<and>
     (\<exists>content. map_of blobs (art_id a) = Some content \<and> art_digest a = sha256Bytes sha content)"

lemma check_artifact_Inr:
  "check_artifact sha blobs a (ids, digests) = Inr seen \<longleftrightarrow> artifact_ok sha blobs a \<and>
     art_id a \<notin> set ids \<and> art_digest a \<notin> set digests \<and> seen = (ids @ [art_id a], digests @ [art_digest a])"
  by (auto simp: check_artifact_def artifact_ok_def chain_eq_Inr split: option.splits)

lemma check_artifacts_Inr:
  "for_each (check_artifact sha blobs) arts (ids, digests) = Inr seen \<longleftrightarrow>
     (\<forall>a \<in> set arts. artifact_ok sha blobs a) \<and> distinct (map art_id arts) \<and> distinct (map art_digest arts) \<and>
     set ids \<inter> art_id ` set arts = {} \<and> set digests \<inter> art_digest ` set arts = {} \<and>
     seen = (ids @ map art_id arts, digests @ map art_digest arts)"
  by (induction arts arbitrary: ids digests) (auto simp: chain_eq_Inr check_artifact_Inr)

lemma validateArtifacts_Inr:
  "validateArtifacts sha r input = Inr u \<longleftrightarrow>
     (\<forall>a \<in> set (rr_artifacts r). artifact_ok sha (ing_artifactContents input) a) \<and>
     distinct (map art_id (rr_artifacts r)) \<and> distinct (map art_digest (rr_artifacts r)) \<and>
     (rr_status r = Passed \<longrightarrow> rr_artifacts r \<noteq> [])"
  by (auto simp: validateArtifacts_def chain_eq_Inr check_artifacts_Inr)

text \<open>A result the ingestion accepts, whatever came before it.\<close>

definition acceptable :: "(string \<Rightarrow> string) \<Rightarrow> (string \<Rightarrow> int option) \<Rightarrow> ingest_input \<Rightarrow> runner_result \<Rightarrow> bool" where
  "acceptable sha parse input r \<longleftrightarrow> rr_checkId r \<in> chk_id ` set (vp_checks (ing_verificationPlan input)) \<and>
     validateRunnerResult parse r input = Inr () \<and> validateArtifacts sha r input = Inr ()"

definition keyed_results :: "runner_result list \<Rightarrow> (string \<times> runner_result) list" where
  "keyed_results rs = map (\<lambda>r. (rr_checkId r, r)) rs"

lemma assoc_update_new: "k \<notin> fst ` set m \<Longrightarrow> AList.update k v m = m @ [(k, v)]"
  by (induction m) auto

lemma ingest_results_Inr:
  "for_each (ingest_result sha parse input) rs (keyed_results done) = Inr results \<longleftrightarrow>
     (\<forall>r \<in> set rs. acceptable sha parse input r) \<and> distinct (map rr_checkId rs) \<and>
     rr_checkId ` set done \<inter> rr_checkId ` set rs = {} \<and> results = keyed_results (done @ rs)"
proof (induction rs arbitrary: "done")
  case (Cons r rs)
  have fresh: "map_of (keyed_results done) (rr_checkId r) = None \<longleftrightarrow> rr_checkId r \<notin> rr_checkId ` set done"
    by (simp add: map_of_eq_None_iff keyed_results_def image_image)
  have step: "ingest_result sha parse input r (keyed_results done) = Inr m \<longleftrightarrow>
      rr_checkId r \<notin> rr_checkId ` set done \<and> acceptable sha parse input r \<and> m = keyed_results (done @ [r])" for m
  proof -
    have "AList.update (rr_checkId r) r (keyed_results done) = keyed_results (done @ [r])"
      if "rr_checkId r \<notin> rr_checkId ` set done"
      using that by (subst assoc_update_new) (auto simp: keyed_results_def)
    then show ?thesis
      unfolding ingest_result_def acceptable_def chain_eq_Inr guard_simps fresh by auto
  qed
  show ?case
    by (simp add: chain_eq_Inr step Cons.IH) auto
qed (auto simp: keyed_results_def)

lemma ingest_results:
  "for_each (ingest_result sha parse input) rs [] = Inr results \<longleftrightarrow>
     (\<forall>r \<in> set rs. acceptable sha parse input r) \<and> distinct (map rr_checkId rs) \<and> results = keyed_results rs"
  using ingest_results_Inr [of sha parse input rs "[]"] by (simp add: keyed_results_def)

lemma result_of:
  assumes "distinct (map rr_checkId rs)"
  shows "map_of (keyed_results rs) k = Some r \<longleftrightarrow> r \<in> set rs \<and> rr_checkId r = k"
proof -
  have "distinct (map fst (keyed_results rs))" using assms by (simp add: keyed_results_def comp_def)
  then show ?thesis by (auto simp: map_of_eq_Some_iff keyed_results_def)
qed

lemma option_ext: "(\<And>v. x = Some v \<longleftrightarrow> y = Some v) \<Longrightarrow> x = y"
  by (cases x; cases y) auto

section \<open>The checks of an envelope\<close>

definition check_with :: "runner_result option \<Rightarrow> planned_check \<Rightarrow> evidence_check" where
  "check_with found k = \<lparr>evc_id = chk_id k, evc_required = chk_required k,
     evc_status = (case found of None \<Rightarrow> chk_status k | Some r \<Rightarrow> rr_status r),
     evc_diagnostics = (case found of None \<Rightarrow> [] | Some r \<Rightarrow> rr_diagnostics r),
     evc_artifacts = (case found of None \<Rightarrow> [] | Some r \<Rightarrow> map art_digest (rr_artifacts r))\<rparr>"

lemma evidence_check_of_Inr:
  "evidence_check_of results k = Inr c \<longleftrightarrow>
     (map_of results (chk_id k) = None \<longrightarrow> chk_status k \<noteq> Passed) \<and> c = check_with (map_of results (chk_id k)) k"
  by (auto simp: evidence_check_of_def chain_eq_Inr Let_def check_with_def split: option.splits)

lemma map_result_Inr_iff: "map_result f xs = Inr ys \<longleftrightarrow> list_all2 (\<lambda>x y. f x = Inr y) xs ys"
  by (induction xs arbitrary: ys) (auto simp: chain_eq_Inr list_all2_Cons1)

lemma evidence_checks_Inr:
  "map_result (evidence_check_of results) ks = Inr cs \<longleftrightarrow>
     (\<forall>k \<in> set ks. map_of results (chk_id k) = None \<longrightarrow> chk_status k \<noteq> Passed) \<and>
     cs = map (\<lambda>k. check_with (map_of results (chk_id k)) k) ks"
proof (induction ks arbitrary: cs)
  case (Cons k ks)
  show ?case by (simp add: chain_eq_Inr evidence_check_of_Inr Cons.IH) blast
qed auto

lemma evidencePreimage_finite: "finite_json (evidencePreimage lc e)"
  by (auto simp: evidencePreimage_def reference_json_def evidence_check_json_def diagnostic_json_def strs_json_def)

abbreviation planned_checks :: "ingest_input \<Rightarrow> planned_check list" where
  "planned_checks input \<equiv> vp_checks (ing_verificationPlan input)"

text \<open>When ingestion accepts an input, and the envelope it then makes.\<close>

definition ingestible :: "(string \<Rightarrow> string) \<Rightarrow> (string \<Rightarrow> int option) \<Rightarrow> ingest_input \<Rightarrow> bool" where
  "ingestible sha parse input \<longleftrightarrow>
     vp_executionPlanId (ing_verificationPlan input) = pln_executionPlanId (ing_plan input) \<and>
     vp_executionPlanDigest (ing_verificationPlan input) = pln_immutableDigest (ing_plan input) \<and>
     distinct (map chk_id (planned_checks input)) \<and>
     (\<forall>k \<in> set (planned_checks input). chk_required k \<longrightarrow> chk_status k \<noteq> NotRequired) \<and>
     (\<forall>r \<in> set (ing_results input). acceptable sha parse input r) \<and> distinct (map rr_checkId (ing_results input)) \<and>
     (\<forall>k \<in> set (planned_checks input). chk_status k = Passed \<longrightarrow> chk_id k \<in> rr_checkId ` set (ing_results input))"

definition envelope_of :: "(string \<Rightarrow> string \<Rightarrow> int) \<Rightarrow> (string \<Rightarrow> string) \<Rightarrow> ingest_input \<Rightarrow> evidence_envelope" where
  "envelope_of lc sha input =
     (let semantic = evidence_of lc (ing_plan input)
          (map (\<lambda>k. check_with (map_of (keyed_results (ing_results input)) (chk_id k)) k) (planned_checks input));
          digest = json_digest sha (evidencePreimage lc semantic)
      in evidence_semantic.extend semantic (evidence_envelope.fields (evidenceIdFromDigest digest) digest))"

lemma ingestEvidence_Inr:
  "ingestEvidence lc sha parse input = Inr e \<longleftrightarrow> ingestible sha parse input \<and> e = envelope_of lc sha input"
proof -
  have unplanned: "map_of (keyed_results (ing_results input)) k = None \<longleftrightarrow> k \<notin> rr_checkId ` set (ing_results input)" for k
    by (simp add: map_of_eq_None_iff keyed_results_def image_image)
  show ?thesis
    unfolding ingestEvidence_def ingestible_def envelope_of_def Let_def chain_eq_Inr ingest_results
      evidence_checks_Inr digestEvidence_def digestJson_finite [OF evidencePreimage_finite] guard_simps
      check_each_Inr hasDuplicateIds_iff unplanned check_required_def
    by (auto simp: unplanned)
qed

section \<open>Normalised checks\<close>

lemma evc_id_normal [simp]:
  "evc_id (normal_check lc c) = evc_id c" "evc_required (normal_check lc c) = evc_required c"
  "evc_status (normal_check lc c) = evc_status c" "set (evc_artifacts (normal_check lc c)) = set (evc_artifacts c)"
  "evc_artifacts (normal_check lc c) = [] \<longleftrightarrow> evc_artifacts c = []"
  by (simp_all add: normal_check_def, metis set_empty set_sort)

lemma set_normalizeChecks: "set (normalizeChecks lc cs) = normal_check lc ` set cs"
  by (simp add: normalizeChecks_def)

lemma mset_normalizeChecks: "mset (normalizeChecks lc cs) = image_mset (normal_check lc) (mset cs)"
  by (simp add: normalizeChecks_def)

lemma deriveUnverified_mset:
  "mset cs = mset ds \<Longrightarrow> deriveUnverified cs = deriveUnverified ds"
proof -
  assume "mset cs = mset ds"
  then have "mset (map evc_id (filter P cs)) = mset (map evc_id (filter P ds))" for P
    by (simp add: mset_filter)
  then show ?thesis unfolding deriveUnverified_def
    by (intro properties_for_sort) (simp_all only: mset_sort sorted_sort)
qed

lemma deriveUnverified_normalize [simp]: "deriveUnverified (normalizeChecks lc cs) = deriveUnverified cs"
proof -
  have "deriveUnverified (normalizeChecks lc cs) = deriveUnverified (map (normal_check lc) cs)"
    by (rule deriveUnverified_mset) (simp add: normalizeChecks_def)
  also have "\<dots> = deriveUnverified cs"
    by (simp add: deriveUnverified_def filter_map comp_def)
  finally show ?thesis .
qed

lemma sort_deriveUnverified [simp]: "sort (deriveUnverified cs) = deriveUnverified cs"
  by (simp add: deriveUnverified_def sorted_sort_id)

lemma set_deriveUnverified: "set (deriveUnverified cs) =
    evc_id ` {c \<in> set cs. evc_required c \<and> evc_status c \<noteq> Passed \<and> evc_status c \<noteq> NotRequired}"
  by (auto simp: deriveUnverified_def)

lemma distinct_deriveUnverified: "distinct (map evc_id cs) \<Longrightarrow> distinct (deriveUnverified cs)"
  by (simp add: deriveUnverified_def distinct_map_filter)

lemma collation_diagnostics: "collation lc \<Longrightarrow> comparator (diagnostic_compare lc)"
  unfolding diagnostic_compare_def collation_def by (intro comparator_then comparator_by)

lemma normal_check_idem: "collation lc \<Longrightarrow> normal_check lc (normal_check lc c) = normal_check lc c"
  by (simp add: normal_check_def comparator.js_sort_idem [OF collation_diagnostics] sorted_sort_id)

lemma normalizeChecks_idem:
  assumes "collation lc"
  shows "normalizeChecks lc (normalizeChecks lc cs) = normalizeChecks lc cs"
proof -
  have "comparator (cmp_by lc (evc_id :: evidence_check \<Rightarrow> string))"
    using assms unfolding collation_def by (rule comparator_by)
  moreover have "map (normal_check lc) (normalizeChecks lc cs) = normalizeChecks lc cs"
    using normal_check_idem [OF assms] by (intro map_idI) (auto simp: set_normalizeChecks)
  ultimately show ?thesis
    unfolding normalizeChecks_def [of lc "normalizeChecks lc cs"]
    by (simp add: normalizeChecks_def comparator.js_sort_idem)
qed

lemma distinct_normalizeChecks: "distinct (map evc_id (normalizeChecks lc cs)) = distinct (map evc_id cs)"
  by (simp add: normalizeChecks_def distinct_map_js_sort comp_def)

section \<open>Properties\<close>

lemma envelope_fields [simp]:
  "ev_checks (envelope_of lc sha input) = normalizeChecks lc
     (map (\<lambda>k. check_with (map_of (keyed_results (ing_results input)) (chk_id k)) k) (planned_checks input))"
  "ev_unverified (envelope_of lc sha input) = deriveUnverified (ev_checks (envelope_of lc sha input))"
  "ev_evidenceId (envelope_of lc sha input) = evidenceIdFromDigest (ev_digest (envelope_of lc sha input))"
  "ev_executionPlan (envelope_of lc sha input) = \<lparr>ref_id = pln_executionPlanId (ing_plan input),
     ref_digest = pln_immutableDigest (ing_plan input)\<rparr>"
  by (simp_all add: envelope_of_def evidence_of_def Let_def evidence_semantic.defs evidence_envelope.defs)

lemma envelope_digest:
  assumes "collation lc"
  shows "digestEvidence lc sha (envelope_of lc sha input) = Inr (ev_digest (envelope_of lc sha input))"
proof -
  let ?cs = "map (\<lambda>k. check_with (map_of (keyed_results (ing_results input)) (chk_id k)) k) (planned_checks input)"
  have "evidencePreimage lc (envelope_of lc sha input) = evidencePreimage lc (evidence_of lc (ing_plan input) ?cs)"
    by (simp add: evidencePreimage_def envelope_of_def evidence_of_def Let_def evidence_semantic.defs evidence_envelope.defs)
  then show ?thesis
    by (simp add: digestEvidence_def digestJson_finite evidencePreimage_finite)
      (simp add: envelope_of_def Let_def evidence_semantic.defs evidence_envelope.defs)
qed

lemma plain_envelope: "plain_json (envelope_json e)"
  by (auto simp: envelope_json_def evidence_check_json_def diagnostic_json_def dangerous_key_def)

text \<open>A check of an ingested envelope comes from a result the ingestion accepts, or has none and has not passed.\<close>

definition backed :: "(string \<Rightarrow> string) \<Rightarrow> (string \<Rightarrow> int option) \<Rightarrow> ingest_input \<Rightarrow> planned_check \<Rightarrow> evidence_check \<Rightarrow> bool" where
  "backed sha parse input k c \<longleftrightarrow>
     (\<exists>r \<in> set (ing_results input). acceptable sha parse input r \<and> rr_checkId r = chk_id k \<and>
        evc_status c = rr_status r \<and> set (evc_artifacts c) = art_digest ` set (rr_artifacts r)) \<or>
      chk_id k \<notin> rr_checkId ` set (ing_results input) \<and> evc_status c = chk_status k \<and> chk_status k \<noteq> Passed \<and>
        evc_artifacts c = []"

lemma envelope_check:
  assumes "ingestible sha parse input" and "c \<in> set (ev_checks (envelope_of lc sha input))"
  shows "\<exists>k \<in> set (planned_checks input). evc_id c = chk_id k \<and> evc_required c = chk_required k \<and>
    backed sha parse input k c"
proof -
  let ?found = "\<lambda>k. map_of (keyed_results (ing_results input)) (chk_id k)"
  obtain k where k: "k \<in> set (planned_checks input)" "c = normal_check lc (check_with (?found k) k)"
    using assms(2) by (auto simp: set_normalizeChecks)
  have distinct: "distinct (map rr_checkId (ing_results input))" using assms(1) by (simp add: ingestible_def)
  have "backed sha parse input k c"
  proof (cases "?found k")
    case (Some r)
    then have "r \<in> set (ing_results input)" "rr_checkId r = chk_id k"
      using result_of [OF distinct] by blast+
    moreover have "evc_status c = rr_status r" "set (evc_artifacts c) = art_digest ` set (rr_artifacts r)"
      using k(2) Some by (simp_all add: check_with_def)
    moreover have "acceptable sha parse input r"
      using assms(1) \<open>r \<in> set (ing_results input)\<close> unfolding ingestible_def by blast
    ultimately show ?thesis unfolding backed_def by blast
  next
    case None
    then have none: "chk_id k \<notin> rr_checkId ` set (ing_results input)"
      by (simp add: map_of_eq_None_iff keyed_results_def image_image)
    moreover have "chk_status k \<noteq> Passed"
      using assms(1) k(1) none unfolding ingestible_def by blast
    ultimately show ?thesis using k(2) None by (simp add: check_with_def backed_def)
  qed
  then show ?thesis using k by (auto simp: check_with_def)
qed

text \<open>What the ingestion checks of a result.\<close>

lemma acceptable_facts:
  assumes "acceptable sha parse input r"
  shows "rr_status r \<noteq> NotRequired" and "rr_status r = Passed \<Longrightarrow> rr_exitCode r = Some 0"
    and "rr_planId r = pln_executionPlanId (ing_plan input)" and "rr_planDigest r = pln_immutableDigest (ing_plan input)"
    and "a \<in> set (rr_artifacts r) \<Longrightarrow> artifact_ok sha (ing_artifactContents input) a"
    and "rr_status r = Passed \<Longrightarrow> rr_artifacts r \<noteq> []"
proof -
  have result: "validateRunnerResult parse r input = Inr ()" and arts: "validateArtifacts sha r input = Inr ()"
    using assms by (simp_all add: acceptable_def)
  note checks = result [unfolded validateRunnerResult_def check_runner_state_def chain_eq_Inr guard_simps]
  show "rr_status r \<noteq> NotRequired" "rr_status r = Passed \<Longrightarrow> rr_exitCode r = Some 0"
    "rr_planId r = pln_executionPlanId (ing_plan input)" "rr_planDigest r = pln_immutableDigest (ing_plan input)"
    using checks by blast+
  show "a \<in> set (rr_artifacts r) \<Longrightarrow> artifact_ok sha (ing_artifactContents input) a"
    "rr_status r = Passed \<Longrightarrow> rr_artifacts r \<noteq> []"
    using arts unfolding validateArtifacts_Inr by blast+
qed

lemma envelope_state_issues:
  assumes "ingestible sha parse input"
  shows "stateIssues lc (envelope_of lc sha input) = []"
proof -
  let ?e = "envelope_of lc sha input"
  have ids: "distinct (map evc_id (ev_checks ?e))"
    using assms unfolding envelope_fields(1) distinct_normalizeChecks
    by (simp add: ingestible_def comp_def check_with_def)
  have "check_issues c = []" if c: "c \<in> set (ev_checks ?e)" for c
  proof -
    obtain k where k: "k \<in> set (planned_checks input)" "evc_required c = chk_required k" "backed sha parse input k c"
      using envelope_check [OF assms c] by blast
    from k(3) [unfolded backed_def] show ?thesis
    proof (elim disjE bexE conjE)
      fix r
      assume r: "acceptable sha parse input r" "evc_status c = rr_status r"
        "set (evc_artifacts c) = art_digest ` set (rr_artifacts r)"
      have "list_all isDigest (evc_artifacts c)"
        using acceptable_facts(5) [OF r(1)] by (auto simp: list_all_iff r(3) artifact_ok_def)
      moreover have "rr_status r = Passed \<Longrightarrow> evc_artifacts c \<noteq> []"
        using acceptable_facts(6) [OF r(1)] r(3) by auto
      ultimately show ?thesis
        using acceptable_facts(1) [OF r(1)] r(2) by (auto simp: check_issues_def list_ex_iff list_all_iff)
    next
      assume "evc_status c = chk_status k" "chk_status k \<noteq> Passed" "evc_artifacts c = []"
      then show ?thesis
        using assms k(1,2) by (auto simp: check_issues_def ingestible_def)
    qed
  qed
  then have "concat (map check_issues (ev_checks ?e)) = []" by (simp del: envelope_fields)
  moreover have "length (js_set (ev_unverified ?e)) = length (ev_unverified ?e)"
    using distinct_deriveUnverified [OF ids] by (simp add: js_set_distinct del: envelope_fields(1))
  moreover have "sort (ev_unverified ?e) = deriveUnverified (normalizeChecks lc (ev_checks ?e))"
    by simp
  ultimately show ?thesis
    using ids by (simp add: stateIssues_def hasDuplicateIds_iff del: envelope_fields)
qed

lemma envelope_verifies:
  assumes "collation lc" and "ingestEvidence lc sha parse input = Inr e"
    and "contract (envelope_json e) = Inr e"
  shows "verifyEvidence lc sha contract (envelope_json e) = Inr \<lparr>evr_ok = True, evr_issues = []\<rparr>"
proof -
  have e: "ingestible sha parse input" "e = envelope_of lc sha input"
    using assms(2) by (simp_all add: ingestEvidence_Inr)
  have "copyJsonValue ''evidence'' (envelope_json e) = Inr (envelope_json e)"
    by (simp add: copyJsonValue_def chain_eq_Inr plain_envelope)
  moreover have "digestEvidence lc sha e = Inr (ev_digest e)"
    unfolding e(2) by (rule envelope_digest [OF assms(1)])
  moreover have "stateIssues lc e = []"
    unfolding e(2) by (rule envelope_state_issues [OF e(1)])
  moreover have "ev_evidenceId e = evidenceIdFromDigest (ev_digest e)"
    unfolding e(2) by (rule envelope_fields)
  ultimately show ?thesis
    by (simp add: verifyEvidence_def assms(3))
qed

text \<open>
  C36: Evidence round trip: an envelope the ingestion makes verifies without an issue, provided the
  evidence contract accepts it; its digest and id can be recomputed from its content.
\<close>

theorem ingested_evidence_verifies:
  assumes "collation lc" and "ingestEvidence lc sha parse input = Inr e"
    and "contract (envelope_json e) = Inr e"
  shows "verifyEvidence lc sha contract (envelope_json e) = Inr \<lparr>evr_ok = True, evr_issues = []\<rparr>"
  by (rule envelope_verifies [where contract = contract, OF assms])

text \<open>
  C35: No fabricated pass: a check of an envelope has passed only where a runner result of this very
  execution plan passed it with exit code zero, and its artifacts, of which there is at least one, are
  digests of contents the input supplied.
\<close>

theorem passed_check_proven:
  assumes "ingestEvidence lc sha parse input = Inr e" and "c \<in> set (ev_checks e)" and "evc_status c = Passed"
  shows "evc_artifacts c \<noteq> [] \<and>
    (\<exists>r \<in> set (ing_results input). rr_checkId r = evc_id c \<and> rr_status r = Passed \<and> rr_exitCode r = Some 0 \<and>
       ref_id (ev_executionPlan e) = rr_planId r \<and> ref_digest (ev_executionPlan e) = rr_planDigest r) \<and>
    set (evc_artifacts c) \<subseteq> {d. isDigest d \<and> (\<exists>content \<in> snd ` set (ing_artifactContents input).
       d = sha256Bytes sha content)}"
proof -
  have e: "ingestible sha parse input" "e = envelope_of lc sha input"
    using assms(1) by (simp_all add: ingestEvidence_Inr)
  obtain k where k: "evc_id c = chk_id k" "backed sha parse input k c"
    using envelope_check [OF e(1), of c lc] assms(2) unfolding e(2) by blast
  then obtain r where r: "r \<in> set (ing_results input)" "acceptable sha parse input r" "rr_checkId r = evc_id c"
    "rr_status r = Passed" "set (evc_artifacts c) = art_digest ` set (rr_artifacts r)"
    using assms(3) unfolding backed_def by auto
  note facts = acceptable_facts [OF r(2)]
  have contents: "isDigest (art_digest a) \<and> (\<exists>content \<in> snd ` set (ing_artifactContents input).
      art_digest a = sha256Bytes sha content)" if "a \<in> set (rr_artifacts r)" for a
    using facts(5) [OF that] by (force simp: artifact_ok_def dest: map_of_SomeD)
  have "evc_artifacts c \<noteq> []" using facts(6) [OF r(4)] r(5) by auto
  moreover have "set (evc_artifacts c) \<subseteq> {d. isDigest d \<and> (\<exists>content \<in> snd ` set (ing_artifactContents input).
       d = sha256Bytes sha content)}"
    unfolding r(5) using contents by blast
  moreover have "ev_executionPlan e = \<lparr>ref_id = rr_planId r, ref_digest = rr_planDigest r\<rparr>"
    using facts(3,4) by (simp add: e(2))
  ultimately show ?thesis using r(1,3,4) facts(2) [OF r(4)] by auto
qed

text \<open>
  The order of the runner results does not matter: two inputs that differ only in it are both
  rejected or give the same envelope.
\<close>

theorem evidence_result_order:
  assumes "mset (ing_results j) = mset (ing_results i)" and "ing_plan j = ing_plan i"
    and "ing_verificationPlan j = ing_verificationPlan i" and "ing_artifactContents j = ing_artifactContents i"
  shows "ingestEvidence lc sha parse j = Inr e \<longleftrightarrow> ingestEvidence lc sha parse i = Inr e"
proof -
  have sets: "set (ing_results j) = set (ing_results i)" using assms(1) by (rule mset_eq_setD)
  have distinct: "distinct (map rr_checkId (ing_results j)) = distinct (map rr_checkId (ing_results i))"
    using assms(1) by (metis mset_map mset_eq_imp_distinct_iff)
  have same: "acceptable sha parse j r = acceptable sha parse i r" for r
    unfolding acceptable_def validateRunnerResult_def validateArtifacts_def by (simp add: assms(2-4))
  have "ingestible sha parse j = ingestible sha parse i"
    unfolding ingestible_def by (simp add: assms(2-4) sets distinct same)
  moreover have "envelope_of lc sha j = envelope_of lc sha i" if "distinct (map rr_checkId (ing_results i))"
  proof -
    have "map_of (keyed_results (ing_results j)) k = map_of (keyed_results (ing_results i)) k" for k
      by (rule option_ext) (simp only: result_of [OF that] result_of [OF distinct [THEN iffD2, OF that]] sets)
    then show ?thesis by (simp add: envelope_of_def assms(2,3))
  qed
  moreover have "distinct (map rr_checkId (ing_results i))" if "ingestible sha parse i"
    using that by (simp add: ingestible_def)
  ultimately show ?thesis by (cases "ingestible sha parse i") (simp_all add: ingestEvidence_Inr)
qed

section \<open>The whole chain\<close>

lemma plan_checks_Inr:
  "plan_checks seen rs = Inr cs \<longleftrightarrow> distinct (map req_checkId rs) \<and> set seen \<inter> req_checkId ` set rs = {} \<and>
     cs = map check_of rs"
  by (induction rs arbitrary: seen cs) (auto simp: chain_eq_Inr)

lemma planned_check_json_finite: "finite_json (planned_check_json c)"
  by (auto simp: planned_check_json_def opt_entry_def split: option.splits)

lemma verification_create_Inr:
  "verification_create lc sha plan rs = Inr vp \<longleftrightarrow> distinct (map req_checkId rs) \<and>
     (let checks = map check_of (js_sort (cmp_by lc req_checkId) rs);
          digest = json_digest sha (JObj [(''executionPlanId'', JStr (pln_executionPlanId plan)),
            (''executionPlanDigest'', JStr (pln_immutableDigest plan)), (''checks'', JArr (map planned_check_json checks))])
      in vp = \<lparr>vp_verificationPlanId = ''verify_'' @ digest_slice 24 digest,
        vp_executionPlanId = pln_executionPlanId plan, vp_executionPlanDigest = pln_immutableDigest plan,
        vp_checks = checks, vp_digest = digest\<rparr>)"
  by (auto simp: verification_create_def chain_eq_Inr plan_checks_Inr digestJson_finite planned_check_json_finite Let_def)

lemma image_filter_image: "f ` {c \<in> g ` A. P c} = (\<lambda>x. f (g x)) ` {x \<in> A. P (g x)}"
  by auto

lemma status_count_total: "sum_list (map (status_count cs) VERIFICATION_STATES) = length cs"
proof (induction cs)
  case (Cons c cs)
  then show ?case by (cases "evc_status c") (simp_all add: status_count_def VERIFICATION_STATES_def)
qed (simp add: status_count_def VERIFICATION_STATES_def)

text \<open>
  C34: From the requirements to the summary. Where the verification plan is made for the execution
  plan and the ingestion accepts the runner results, the envelope can be summarised: it counts every
  requirement in exactly one state, calls the evidence complete exactly when every required check was
  passed by a result, and lists exactly the checks whose result failed.
\<close>

theorem evidence_chain_complete:
  assumes "collation lc" and "verification_create lc sha plan requirements = Inr vp"
    and "ingestEvidence lc sha parse \<lparr>ing_plan = plan, ing_verificationPlan = vp, ing_results = results,
      ing_artifactContents = files\<rparr> = Inr e"
    and "contract (envelope_json e) = Inr e"
  shows "\<exists>summary. summarizeEvidence lc sha contract e = Inr summary \<and> sum_total summary = length requirements \<and>
    sum_list (map snd (sum_byStatus summary)) = length requirements \<and>
    (sum_requiredComplete summary \<longleftrightarrow> req_checkId ` {q \<in> set requirements. req_isRequired q} \<subseteq>
       rr_checkId ` {r \<in> set results. rr_status r = Passed}) \<and>
    set (sum_failed summary) = rr_checkId ` {r \<in> set results. rr_status r = Failed}"
proof -
  let ?input = "\<lparr>ing_plan = plan, ing_verificationPlan = vp, ing_results = results, ing_artifactContents = files\<rparr>"
  let ?found = "\<lambda>q. map_of (keyed_results results) (req_checkId q)"
  let ?check = "\<lambda>q. normal_check lc (check_with (?found q) (check_of q))"
  have e: "ingestible sha parse ?input" "e = envelope_of lc sha ?input"
    using assms(3) by (simp_all add: ingestEvidence_Inr)
  have planned: "vp_checks vp = map check_of (js_sort (cmp_by lc req_checkId) requirements)"
    using assms(2) by (simp add: verification_create_Inr Let_def)
  have checks: "ev_checks e = normalizeChecks lc (map (\<lambda>q. check_with (?found q) (check_of q))
      (js_sort (cmp_by lc req_checkId) requirements))"
    by (simp add: e(2) planned check_of_def comp_def)
  have set_checks: "set (ev_checks e) = ?check ` set requirements"
    by (simp add: checks set_normalizeChecks image_image)
  have count: "length (ev_checks e) = length requirements"
    by (simp add: checks normalizeChecks_def)
  have found: "?found q = Some r \<longleftrightarrow> r \<in> set results \<and> rr_checkId r = req_checkId q" for q r
    by (rule result_of) (use e(1) in \<open>simp add: ingestible_def\<close>)
  have result: "rr_checkId r \<in> req_checkId ` set requirements" "rr_status r \<noteq> NotRequired" if "r \<in> set results" for r
  proof -
    have ok: "acceptable sha parse ?input r" using e(1) that by (simp add: ingestible_def)
    show "rr_status r \<noteq> NotRequired" by (rule acceptable_facts(1) [OF ok])
    show "rr_checkId r \<in> req_checkId ` set requirements"
      using ok by (auto simp: acceptable_def planned check_of_def)
  qed
  have state: "evc_status (?check q) = s \<longleftrightarrow> (\<exists>r \<in> set results. rr_checkId r = req_checkId q \<and> rr_status r = s)"
    if "s = Passed \<or> s = Failed" for q s
  proof (cases "?found q")
    case (Some a)
    then have "r \<in> set results \<and> rr_checkId r = req_checkId q \<longleftrightarrow> r = a" for r using found [of q r] by auto
    then have "(\<exists>r \<in> set results. rr_checkId r = req_checkId q \<and> rr_status r = s) \<longleftrightarrow> rr_status a = s" by metis
    then show ?thesis by (simp add: check_with_def Some)
  qed (use that found [of q] in \<open>auto simp: check_with_def check_of_def\<close>)
  have settled: "req_isRequired q \<Longrightarrow> evc_status (?check q) \<noteq> NotRequired" for q
    using found [of q "the (?found q)"] result(2) [of "the (?found q)"]
    by (cases "?found q") (simp_all add: check_with_def check_of_def)
  have names: "evc_id (?check q) = req_checkId q" "evc_required (?check q) = req_isRequired q" for q
    by (simp_all add: check_with_def check_of_def)
  have "deriveUnverified (ev_checks e) = [] \<longleftrightarrow> set (deriveUnverified (ev_checks e)) = {}" by simp
  also have "\<dots> \<longleftrightarrow> (\<forall>q \<in> set requirements. req_isRequired q \<longrightarrow> evc_status (?check q) = Passed)"
    using settled unfolding set_deriveUnverified set_checks image_is_empty
    by (auto simp only: names Collect_empty_eq ball_simps image_iff)
  finally have complete: "deriveUnverified (ev_checks e) = [] \<longleftrightarrow>
      req_checkId ` {q \<in> set requirements. req_isRequired q} \<subseteq> rr_checkId ` {r \<in> set results. rr_status r = Passed}"
    unfolding state [OF disjI1 [OF refl]] by (auto simp: image_iff) metis
  have "evc_id ` {c \<in> set (ev_checks e). evc_status c = Failed} =
      req_checkId ` {q \<in> set requirements. evc_status (?check q) = Failed}"
    unfolding set_checks image_filter_image names(1) ..
  also have "\<dots> = rr_checkId ` {r \<in> set results. rr_status r = Failed}"
    unfolding state [OF disjI2 [OF refl]]
  proof (intro equalityI subsetI)
    fix k
    assume "k \<in> rr_checkId ` {r \<in> set results. rr_status r = Failed}"
    then obtain r where r: "r \<in> set results" "rr_status r = Failed" "k = rr_checkId r" by blast
    then obtain q where "q \<in> set requirements" "rr_checkId r = req_checkId q" using result(1) by blast
    then show "k \<in> req_checkId ` {q \<in> set requirements.
        \<exists>r \<in> set results. rr_checkId r = req_checkId q \<and> rr_status r = Failed}"
      using r by auto
  next
    fix k
    assume "k \<in> req_checkId ` {q \<in> set requirements.
        \<exists>r \<in> set results. rr_checkId r = req_checkId q \<and> rr_status r = Failed}"
    then obtain r where "r \<in> set results" "rr_status r = Failed" "k = rr_checkId r" by force
    then show "k \<in> rr_checkId ` {r \<in> set results. rr_status r = Failed}" by blast
  qed
  finally have failed: "evc_id ` {c \<in> set (ev_checks e). evc_status c = Failed} =
      rr_checkId ` {r \<in> set results. rr_status r = Failed}" .
  have verified: "verifyEvidence lc sha contract (envelope_json e) = Inr \<lparr>evr_ok = True, evr_issues = []\<rparr>"
    by (rule envelope_verifies [where contract = contract, OF assms(1,3,4)])
  show ?thesis
    using complete failed status_count_total [of "ev_checks e"]
    by (simp add: summarizeEvidence_def verified count comp_def)
qed

section \<open>A small run\<close>

text \<open>One required check of a plan, passed by a runner whose artifact has the text \<open>x\<close>.\<close>

definition small_sha :: "string \<Rightarrow> string" where
  "small_sha s = replicate 64 CHR ''a''"

definition small_plan :: planned where
  "small_plan = planned_of code_unit_compare small_sha (sample_request [] [])"

definition small_requirement :: verification_requirement where
  "small_requirement = \<lparr>req_checkId = ''unit'', req_kind = ''unit'', req_isRequired = True, req_reason = None,
     req_artifacts = None\<rparr>"

definition small_time :: string where
  "small_time = ''2024-01-01T00:00:00Z''"

definition small_result :: runner_result where
  "small_result = \<lparr>rr_runnerId = ''r'', rr_runnerVersion = ''d'', rr_attestation = None,
     rr_planId = pln_executionPlanId small_plan, rr_planDigest = pln_immutableDigest small_plan,
     rr_checkId = ''unit'', rr_startedAt = small_time, rr_completedAt = small_time, rr_status = Passed,
     rr_exitCode = Some 0, rr_diagnostics = [],
     rr_artifacts = [\<lparr>art_id = ''a'', art_uri = ''b'', art_digest = sha256Bytes small_sha ''x'',
       art_mediaType = None, art_bytes = None\<rparr>],
     rr_environment = JNull, rr_redactions = []\<rparr>"

definition small_input :: "verification_plan \<Rightarrow> runner_result list \<Rightarrow> ingest_input" where
  "small_input vp results = \<lparr>ing_plan = small_plan, ing_verificationPlan = vp, ing_results = results,
     ing_artifactContents = [(''a'', ''x'')]\<rparr>"

definition constant_clock :: "string \<Rightarrow> int option" where
  "constant_clock s = Some 0"

lemma small_digests:
  "pln_immutableDigest small_plan = ''sha256:'' @ replicate 64 CHR ''a''"
  "pln_executionPlanId small_plan = ''plan_'' @ replicate 24 CHR ''a''"
  by (simp_all add: small_plan_def planned_of_def json_digest_def sha256Bytes_def small_sha_def
      expectedPlanId_def digest_slice_def)

lemma small_safe:
  "\<not> sensitive_text ''unit''" "\<not> sensitive_text small_time"
  "\<not> sensitive_text (''sha256:'' @ replicate 64 CHR ''a'')" "\<not> sensitive_text (''plan_'' @ replicate 24 CHR ''a'')"
  by code_simp+

lemma small_formats:
  "isDigest (sha256Bytes small_sha ''x'')" "isIsoDateTime constant_clock small_time"
  "js_trim ''unit'' \<noteq> ''''" "js_trim ''r'' \<noteq> ''''" "js_trim ''d'' \<noteq> ''''" "js_trim ''a'' \<noteq> ''''"
  by code_simp+

lemma small_verification:
  obtains vp where "verification_create code_unit_compare small_sha small_plan [small_requirement] = Inr vp"
    and "vp_checks vp = [check_of small_requirement]"
    and "vp_executionPlanId vp = pln_executionPlanId small_plan"
    and "vp_executionPlanDigest vp = pln_immutableDigest small_plan"
proof -
  obtain vp where vp: "verification_create code_unit_compare small_sha small_plan [small_requirement] = Inr vp"
    by (simp add: verification_create_Inr Let_def)
  then have "vp_checks vp = [check_of small_requirement]"
    "vp_executionPlanId vp = pln_executionPlanId small_plan"
    "vp_executionPlanDigest vp = pln_immutableDigest small_plan"
    by (simp_all add: verification_create_Inr Let_def)
  then show thesis using that [OF vp] by blast
qed

lemma assertNoSecrets_safe: "safe_json v \<Longrightarrow> assertNoSecrets path v = Inr ()"
proof (induction path v rule: assertNoSecrets.induct)
  case (2 path vs)
  have "assertNoSecrets (key_path path (nat_str i)) (vs ! i) = Inr ()" if "i < length vs" for i
    using 2(1) [of "(i, vs ! i)" i "vs ! i"] 2(2) that by (simp add: in_set_enumerate_eq)
  then show ?case by (auto simp: check_each_Inr all_set_conv_all_nth nth_enumerate_eq)
qed (auto simp: check_each_Inr chain_eq_Inr)

lemma small_runner:
  "safe_json (runner_json small_result)" "plain_json (runner_json small_result)"
proof -
  have texts: "\<not> sensitive_text (state_name Passed)" "\<not> sensitive_text (sha256Bytes small_sha ''x'')"
    and keys: "list_all (\<lambda>s. \<not> sensitive_text s) [''runner'', ''planId'', ''planDigest'', ''checkId'', ''startedAt'',
      ''completedAt'', ''exitCode'', ''diagnostics'', ''artifacts'', ''environment'', ''redactions'', ''uri'']"
    using small_safe(3) by (simp_all add: sensitive_code sha256Bytes_def small_sha_def)
  note digests = small_safe [folded small_digests]
  show "safe_json (runner_json small_result)"
    using keys texts digests small_safe(1,2)
    by (simp add: runner_json_def small_result_def artifact_json_def opt_entry_def)
  show "plain_json (runner_json small_result)"
    by (simp add: runner_json_def small_result_def artifact_json_def opt_entry_def dangerous_key_def)
qed

lemma small_acceptable:
  assumes "vp_checks vp = [check_of small_requirement]"
  shows "acceptable small_sha constant_clock (small_input vp results) small_result"
proof -
  have "copyJsonValue ''runner result'' (runner_json small_result) = Inr (runner_json small_result)"
    using small_runner(2) by (simp add: copyJsonValue_def chain_eq_Inr)
  moreover have "assertNoSecrets ''runner result'' (runner_json small_result) = Inr ()"
    by (rule assertNoSecrets_safe) (rule small_runner)
  ultimately have "validateRunnerResult constant_clock small_result (small_input vp results) = Inr ()"
    using small_formats
    by (simp add: validateRunnerResult_def small_input_def requireNonEmpty_def check_runner_state_def)
      (simp add: small_result_def earlier_def constant_clock_def RUNNER_STATES_def)
  moreover have "validateArtifacts small_sha small_result (small_input vp results) = Inr ()"
    using small_formats by (simp add: validateArtifacts_Inr small_result_def small_input_def artifact_ok_def)
  moreover have "rr_checkId small_result \<in> chk_id ` set (planned_checks (small_input vp results))"
    using assms by (simp add: small_input_def small_result_def check_of_def small_requirement_def)
  ultimately show ?thesis by (simp add: acceptable_def)
qed

text \<open>The run: its verification plan and its envelope.\<close>

lemma small_run:
  obtains vp e where "verification_create code_unit_compare small_sha small_plan [small_requirement] = Inr vp"
    and "ingestEvidence code_unit_compare small_sha constant_clock (small_input vp [small_result]) = Inr e"
    and "vp_checks vp = [check_of small_requirement]"
proof -
  obtain vp where vp: "verification_create code_unit_compare small_sha small_plan [small_requirement] = Inr vp"
    "vp_checks vp = [check_of small_requirement]" "vp_executionPlanId vp = pln_executionPlanId small_plan"
    "vp_executionPlanDigest vp = pln_immutableDigest small_plan"
    by (rule small_verification)
  have "ingestible small_sha constant_clock (small_input vp [small_result])"
    using small_acceptable [OF vp(2), of "[small_result]"] vp(2-4) unfolding ingestible_def
    by (simp add: small_input_def) (simp add: check_of_def small_requirement_def)
  then show thesis using that vp(1,2) by (simp add: ingestEvidence_Inr)
qed

lemma ingested_evidence_verifies_witness:
  "\<exists>e. verifyEvidence code_unit_compare small_sha (\<lambda>v. Inr e) (envelope_json e) = Inr \<lparr>evr_ok = True, evr_issues = []\<rparr>"
proof -
  obtain vp e where "ingestEvidence code_unit_compare small_sha constant_clock (small_input vp [small_result]) = Inr e"
    by (rule small_run)
  from ingested_evidence_verifies [OF code_units.collation_axioms this, of "\<lambda>v. Inr e"] show ?thesis by auto
qed

lemma passed_check_proven_witness:
  "\<exists>vp e c. ingestEvidence code_unit_compare small_sha constant_clock (small_input vp [small_result]) = Inr e \<and>
     c \<in> set (ev_checks e) \<and> evc_status c = Passed \<and> evc_artifacts c \<noteq> []"
proof -
  obtain vp e where e: "ingestEvidence code_unit_compare small_sha constant_clock (small_input vp [small_result]) = Inr e"
    "vp_checks vp = [check_of small_requirement]" by (rule small_run)
  have "e = envelope_of code_unit_compare small_sha (small_input vp [small_result])"
    using e(1) by (simp add: ingestEvidence_Inr)
  then have "ev_checks e = [normal_check code_unit_compare (check_with (Some small_result) (check_of small_requirement))]"
    by (simp add: small_input_def e(2) keyed_results_def normalizeChecks_def)
      (simp add: check_of_def small_requirement_def small_result_def)
  then have "normal_check code_unit_compare (check_with (Some small_result) (check_of small_requirement)) \<in> set (ev_checks e)"
    by simp
  moreover have "evc_status (normal_check code_unit_compare (check_with (Some small_result) (check_of small_requirement))) = Passed"
    by (simp add: check_with_def small_result_def)
  ultimately show ?thesis using passed_check_proven [OF e(1)] e(1) by blast
qed

lemma evidence_result_order_witness:
  "\<exists>vp e. ingestEvidence code_unit_compare small_sha constant_clock (small_input vp [small_result]) = Inr e"
proof -
  obtain vp e where "ingestEvidence code_unit_compare small_sha constant_clock (small_input vp [small_result]) = Inr e"
    by (rule small_run)
  then show ?thesis
    using evidence_result_order [of "small_input vp [small_result]" "small_input vp [small_result]"] by blast
qed

lemma evidence_chain_complete_witness:
  "\<exists>e summary. summarizeEvidence code_unit_compare small_sha (\<lambda>v. Inr e) e = Inr summary \<and>
     sum_total summary = 1 \<and> sum_requiredComplete summary"
proof -
  obtain vp e where run: "verification_create code_unit_compare small_sha small_plan [small_requirement] = Inr vp"
    "ingestEvidence code_unit_compare small_sha constant_clock (small_input vp [small_result]) = Inr e"
    by (rule small_run)
  have required: "{q. q = small_requirement \<and> req_isRequired q} = {small_requirement}"
    "{r. r = small_result \<and> rr_status r = Passed} = {small_result}"
    by (auto simp: small_requirement_def small_result_def)
  have "req_checkId small_requirement = rr_checkId small_result"
    by (simp add: small_requirement_def small_result_def)
  then show ?thesis
    using evidence_chain_complete [OF code_units.collation_axioms run(1) run(2) [unfolded small_input_def],
        where contract = "\<lambda>v. Inr e"]
    by (auto simp: required)
qed

end
