(* ===== verification/Utf8.thy ===== *)
theory Utf8
  imports Js_Prelude
begin

text \<open>
  UTF-8 on strings of code units below 256: \<open>Buffer.from(s, "utf8")\<close>, \<open>new TextEncoder().encode(s)\<close> and
  \<open>toString("utf8")\<close>. A sequence of bytes that stands for a code point
  above 255, or for none, is read as a question mark.
\<close>

definition utf8_unit :: "char \<Rightarrow> string" where
  "utf8_unit c = (let n = (of_char c :: nat) in
     if n < 128 then [c] else [char_of (192 + n div 64), char_of (128 + n mod 64)])"

definition utf8_encode :: "string \<Rightarrow> string" where
  "utf8_encode s = concat (map utf8_unit s)"

fun utf8_decode :: "string \<Rightarrow> string" where
  "utf8_decode [] = []"
| "utf8_decode [b] = (if (of_char b :: nat) < 128 then [b] else ''?'')"
| "utf8_decode (b # c # s) =
     (let n = (of_char b :: nat); m = of_char c in
      if n < 128 then b # utf8_decode (c # s)
      else if (n = 194 \<or> n = 195) \<and> 128 \<le> m \<and> m < 192
        then char_of (64 * (n - 192) + (m - 128)) # utf8_decode s
      else CHR ''?'' # utf8_decode (c # s))"

lemma high_unit:
  assumes "128 \<le> n" and "n < 256"
  shows "192 + n div 64 = 194 \<or> 192 + n div 64 = (195 :: nat)"
  using div_le_mono [OF assms(1), of 64] less_mult_imp_div_less [of n 4 64] assms(2) by simp linarith

lemma utf8_pair:
  fixes n m :: nat
  assumes "n = 194 \<or> n = 195" and "128 \<le> m" and "m < 192"
  shows "utf8_decode (char_of n # char_of m # s) = char_of (64 * (n - 192) + (m - 128)) # utf8_decode s"
  using assms by (auto simp: Let_def)

lemma utf8_decode_unit: "utf8_decode (utf8_unit c @ s) = c # utf8_decode s"
proof -
  let ?n = "of_char c :: nat"
  have n: "?n < 256" by simp
  show ?thesis
  proof (cases "?n < 128")
    case True
    then show ?thesis by (cases s) (simp_all add: utf8_unit_def)
  next
    case False
    then have high: "192 + ?n div 64 = 194 \<or> 192 + ?n div 64 = 195" using high_unit [of ?n] n by simp
    have m: "128 + ?n mod 64 < 192" using mod_less_divisor [of 64 ?n] by linarith
    have "char_of (64 * (192 + ?n div 64 - 192) + (128 + ?n mod 64 - 128)) = c"
      by (simp only: diff_add_inverse mult_div_mod_eq) simp
    moreover have "utf8_unit c @ s = char_of (192 + ?n div 64) # char_of (128 + ?n mod 64) # s"
      using False by (simp add: utf8_unit_def Let_def)
    ultimately show ?thesis using utf8_pair [OF high _ m, of s] by (simp only: le_add1 simp_thms)
  qed
qed

lemma length_utf8_unit: "length (utf8_unit c) = (if (of_char c :: nat) < 128 then 1 else 2)"
  by (simp add: utf8_unit_def Let_def)

text \<open>Text of ASCII characters has as many bytes as characters, other text has more.\<close>

lemma length_utf8_ascii: "\<forall>c \<in> set s. (of_char c :: nat) < 128 \<Longrightarrow> length (utf8_encode s) = length s"
  by (induction s) (simp_all add: utf8_encode_def length_utf8_unit)

lemma length_utf8_ge: "length s \<le> length (utf8_encode s)"
  by (induction s) (simp_all add: utf8_encode_def length_utf8_unit)

lemma utf8_round_trip [simp]: "utf8_decode (utf8_encode s) = s"
  by (induction s) (simp_all add: utf8_encode_def utf8_decode_unit)

end
