(* ===== verification/Tool_Gateway.thy ===== *)
theory Tool_Gateway
  imports Grant_Store Audit_Log Plan_Json Js_Effects Utf8
begin

text \<open>
  \<open>packages/core/src/read-only-gateway.ts\<close> and \<open>schema-validation.ts\<close>: calls of read-only tools
  under a run grant. A call is asynchronous: it runs to its only \<open>await\<close>, which races the provider
  against an abort, and goes on from there in whatever state the gateway is then. The two parts are
  \<open>gateway_start\<close> and \<open>gateway_finish\<close>; between them other calls, \<open>kill\<close>, an abort by the caller or
  the timer, and the other users of the grant store may act.

  The clock is a function of the number of its readings so far, and \<open>compile\<close> is \<open>Ajv.compile\<close>,
  which gives no validator for an invalid schema.
\<close>

section \<open>Consent\<close>

record content_consent =
  cns_runId :: string
  cns_providerId :: string
  cns_toolId :: string
  cns_projectSnapshot :: string
  cns_policySnapshot :: string
  cns_scopes :: "string list"
  cns_issuedAt :: string
  cns_expiresAt :: string
  cns_digest :: string

record consent_query =
  cq_runId :: string
  cq_providerId :: string
  cq_toolId :: string
  cq_projectSnapshot :: string
  cq_policySnapshot :: string
  cq_requiredScopes :: "string list"

definition requireNonEmptyText :: "string \<Rightarrow> string \<Rightarrow> unit result" where
  "requireNonEmptyText value field = guard (blank value) (TypeError (''Invalid '' @ field @ ''.''))"

definition parseTimestamp :: "(string \<Rightarrow> int option) \<Rightarrow> string \<Rightarrow> string \<Rightarrow> int result" where
  "parseTimestamp parse value field = chain (requireNonEmptyText value field)
     (\<lambda>_. case parse value of None \<Rightarrow> Inl (TypeError (''Invalid '' @ field @ ''.'')) | Some t \<Rightarrow> Inr t)"

definition normalizeScopes :: "string list \<Rightarrow> string list result" where
  "normalizeScopes scopes = chain (check_each (\<lambda>scope. requireNonEmptyText scope ''scope'') scopes)
     (\<lambda>_. let normal = stableUnique scopes in
        if normal = [] then Inl (TypeError ''Invalid scopes.'') else Inr normal)"

definition projectContentConsentDigest :: "(string \<Rightarrow> string) \<Rightarrow> content_consent \<Rightarrow> string list \<Rightarrow> string result" where
  "projectContentConsentDigest sha c scopes = chain (normalizeScopes scopes)
     (\<lambda>normal. digestJson sha (JObj [(''runId'', JStr (cns_runId c)), (''providerId'', JStr (cns_providerId c)),
        (''toolId'', JStr (cns_toolId c)), (''projectSnapshot'', JStr (cns_projectSnapshot c)),
        (''policySnapshot'', JStr (cns_policySnapshot c)), (''scopes'', strs_json normal),
        (''issuedAt'', JStr (cns_issuedAt c)), (''expiresAt'', JStr (cns_expiresAt c))]))"

definition validateConsent :: "(string \<Rightarrow> int option) \<Rightarrow> (string \<Rightarrow> string) \<Rightarrow> content_consent \<Rightarrow>
    (int \<times> int \<times> string list) result" where
  "validateConsent parse sha consent =
     chain (requireNonEmptyText (cns_runId consent) ''runId'')
     (\<lambda>_. chain (requireNonEmptyText (cns_providerId consent) ''providerId'')
     (\<lambda>_. chain (requireNonEmptyText (cns_toolId consent) ''toolId'')
     (\<lambda>_. chain (requireNonEmptyText (cns_projectSnapshot consent) ''projectSnapshot'')
     (\<lambda>_. chain (requireNonEmptyText (cns_policySnapshot consent) ''policySnapshot'')
     (\<lambda>_. chain (parseTimestamp parse (cns_issuedAt consent) ''issuedAt'')
     (\<lambda>issuedAt. chain (parseTimestamp parse (cns_expiresAt consent) ''expiresAt'')
     (\<lambda>expiresAt. chain (guard (expiresAt \<le> issuedAt) (TypeError ''Invalid consent window.''))
     (\<lambda>_. chain (normalizeScopes (cns_scopes consent))
     (\<lambda>scopes. chain (projectContentConsentDigest sha consent scopes)
     (\<lambda>digest. chain (guard (cns_digest consent \<noteq> digest) (TypeError ''Invalid consent digest.''))
     (\<lambda>_. Inr (issuedAt, expiresAt, scopes))))))))))))"

text \<open>One stored consent against a query; what it throws is caught and denies.\<close>

definition consent_covers :: "(string \<Rightarrow> int option) \<Rightarrow> (string \<Rightarrow> string) \<Rightarrow> consent_query \<Rightarrow> string list \<Rightarrow> int \<Rightarrow>
    content_consent \<Rightarrow> bool" where
  "consent_covers parse sha query requiredScopes current item =
     (case validateConsent parse sha item of
        Inl e \<Rightarrow> False
      | Inr (issuedAt, expiresAt, scopes) \<Rightarrow>
          cns_runId item = cq_runId query \<and> cns_providerId item = cq_providerId query \<and>
          cns_toolId item = cq_toolId query \<and> cns_projectSnapshot item = cq_projectSnapshot query \<and>
          cns_policySnapshot item = cq_policySnapshot query \<and> issuedAt \<le> current \<and> current < expiresAt \<and>
          list_all (\<lambda>scope. scope \<in> set scopes) requiredScopes)"

definition consent_checks :: "(string \<Rightarrow> int option) \<Rightarrow> consent_query \<Rightarrow> string \<Rightarrow> (int \<times> string list) result" where
  "consent_checks parse query now =
     chain (parseTimestamp parse now ''now'')
     (\<lambda>current. chain (normalizeScopes (cq_requiredScopes query))
     (\<lambda>scopes. chain (requireNonEmptyText (cq_runId query) ''runId'')
     (\<lambda>_. chain (requireNonEmptyText (cq_providerId query) ''providerId'')
     (\<lambda>_. chain (requireNonEmptyText (cq_toolId query) ''toolId'')
     (\<lambda>_. chain (requireNonEmptyText (cq_projectSnapshot query) ''projectSnapshot'')
     (\<lambda>_. chain (requireNonEmptyText (cq_policySnapshot query) ''policySnapshot'')
     (\<lambda>_. Inr (current, scopes))))))))"

definition consent_authorize :: "(string \<Rightarrow> int option) \<Rightarrow> (string \<Rightarrow> string) \<Rightarrow> content_consent list \<Rightarrow>
    consent_query \<Rightarrow> string \<Rightarrow> bool" where
  "consent_authorize parse sha consents query now =
     (case consent_checks parse query now of
        Inl e \<Rightarrow> False
      | Inr (current, scopes) \<Rightarrow> list_ex (consent_covers parse sha query scopes current) consents)"

section \<open>Schemas\<close>

fun assertJson :: "json \<Rightarrow> unit result" where
  "assertJson JNonFinite = Inl (TypeError ''Non-finite JSON number.'')"
| "assertJson (JArr vs) = check_each assertJson vs"
| "assertJson (JObj kvs) = check_each (\<lambda>kv. chain (guard (dangerous_key (fst kv))
     (TypeError ''Unsafe JSON object key.'')) (\<lambda>_. assertJson (snd kv))) kvs"
| "assertJson v = Inr ()"

datatype schema_result = SchemaOk | InvalidJson | InvalidSchema | SchemaFailed

type_synonym schema_compiler = "json \<Rightarrow> (json \<Rightarrow> bool) option"

definition validateJsonSchema :: "schema_compiler \<Rightarrow> json \<Rightarrow> json \<Rightarrow> schema_result" where
  "validateJsonSchema compile schema value =
     (case assertJson schema of Inl e \<Rightarrow> InvalidSchema | Inr _ \<Rightarrow>
     (case assertJson value of Inl e \<Rightarrow> InvalidJson | Inr _ \<Rightarrow>
     (case compile schema of None \<Rightarrow> InvalidSchema
      | Some validator \<Rightarrow> if validator value then SchemaOk else SchemaFailed)))"

definition tool_schema :: "json option \<Rightarrow> json result" where
  "tool_schema v = (case v of
     None \<Rightarrow> Inr (JBool True)
   | Some (JObj kvs) \<Rightarrow> Inr (JObj kvs)
   | Some _ \<Rightarrow> Inl (TypeError ''Invalid tool schema.''))"

section \<open>The gateway\<close>

datatype abort_reason = CallerCancelled | TimedOut | KillSwitch

fun abort_text :: "abort_reason \<Rightarrow> string" where
  "abort_text CallerCancelled = ''caller-cancelled''"
| "abort_text TimedOut = ''timed-out''"
| "abort_text KillSwitch = ''kill-switch''"

definition gatewayAbortError :: "abort_reason \<Rightarrow> exn" where
  "gatewayAbortError reason = Exn ''GatewayAbortError'' '''' (abort_text reason)"

definition gatewayAuthorizationChangedError :: exn where
  "gatewayAuthorizationChangedError =
     Exn ''GatewayAuthorizationChangedError'' '''' ''authorization-changed''"

fun auditCodeForAbort :: "abort_reason \<Rightarrow> string" where
  "auditCodeForAbort CallerCancelled = ''CALL_CANCELLED''"
| "auditCodeForAbort TimedOut = ''CALL_TIMED_OUT''"
| "auditCodeForAbort KillSwitch = ''KILL_SWITCH''"

record gateway_call_options =
  gco_projectSnapshot :: string
  gco_policySnapshot :: string
  gco_signalAborted :: bool
  gco_deadline :: "string option"

text \<open>What a call in flight keeps: its arguments, its reservation and \<open>abortReason\<close>.\<close>

record active_call =
  ac_grant :: "run_grant option"
  ac_tool :: tool_definition
  ac_reservation :: call_reservation
  ac_abort :: "abort_reason option"

text \<open>What is fixed at construction, with the host; and the state.\<close>

record 'r gateway_env =
  genv_host :: host_runtime
  genv_store :: "'r run_grant_store"
  genv_consents :: "content_consent list"
  genv_clock :: "nat \<Rightarrow> string"
  genv_compile :: schema_compiler

record 'r tool_gateway =
  tg_killed :: bool
  tg_active :: "(nat \<times> active_call) list"
  tg_audit :: "stored_audit_event list"
  tg_grants :: 'r
  tg_ticks :: nat
  tg_calls :: nat

definition new_gateway :: "'r \<Rightarrow> 'r tool_gateway" where
  "new_gateway r = \<lparr>tg_killed = False, tg_active = [], tg_audit = [], tg_grants = r,
     tg_ticks = 0, tg_calls = 0\<rparr>"

definition abort_call :: "abort_reason \<Rightarrow> active_call \<Rightarrow> active_call" where
  "abort_call reason c = (if ac_abort c = None then c\<lparr>ac_abort := Some reason\<rparr> else c)"

definition kill :: "'r tool_gateway \<Rightarrow> 'r tool_gateway" where
  "kill g = g\<lparr>tg_killed := True,
     tg_active := map (\<lambda>(k, c). (k, abort_call KillSwitch c)) (tg_active g)\<rparr>"

definition gateway_abort :: "nat \<Rightarrow> abort_reason \<Rightarrow> 'r tool_gateway \<Rightarrow> 'r tool_gateway" where
  "gateway_abort k reason g = g\<lparr>tg_active :=
     map (\<lambda>(j, c). (j, if j = k then abort_call reason c else c)) (tg_active g)\<rparr>"

definition auditEvents :: "'r tool_gateway \<Rightarrow> (string \<times> string) list" where
  "auditEvents g = map (\<lambda>event. (aud_code event, aud_digest event)) (audit_readAll (tg_audit g))"

text \<open>Reading the clock, and \<open>event\<close>, which reads it before it appends.\<close>

definition gateway_now :: "'r gateway_env \<Rightarrow> 'r tool_gateway \<Rightarrow> string" where
  "gateway_now env g = genv_clock env (tg_ticks g)"

definition tick :: "'r tool_gateway \<Rightarrow> 'r tool_gateway" where
  "tick g = g\<lparr>tg_ticks := tg_ticks g + 1\<rparr>"

definition gateway_event :: "'r gateway_env \<Rightarrow> string \<Rightarrow> 'r tool_gateway \<Rightarrow>
    unit result \<times> 'r tool_gateway" where
  "gateway_event env code g =
     (let occurredAt = gateway_now env g; g = tick g in
      case audit_append (host_sha (genv_host env)) (host_parse (genv_host env)) (tg_audit g)
          \<lparr>evi_code = code, evi_occurredAt = occurredAt\<rparr> of
        Inl e \<Rightarrow> (Inl e, g)
      | Inr (stored, events) \<Rightarrow> (Inr (), g\<lparr>tg_audit := events\<rparr>))"

definition gateway_deny :: "'r gateway_env \<Rightarrow> string \<Rightarrow> exn \<Rightarrow> 'r tool_gateway \<Rightarrow>
    'a result \<times> 'r tool_gateway" where
  "gateway_deny env code e g = proceed (gateway_event env code g) (\<lambda>_ g. (Inl e, g))"

section \<open>Starting a call\<close>

text \<open>
  Up to the \<open>await\<close>. First what \<open>call\<close> checks before it looks at the grant; an unparsable start
  time makes the comparison with \<open>NaN\<close> false.
\<close>

definition check_interrupted :: "'r gateway_env \<Rightarrow> gateway_call_options \<Rightarrow> string \<Rightarrow> 'r tool_gateway \<Rightarrow>
    unit result \<times> 'r tool_gateway" where
  "check_interrupted env options startedAt g =
     (let parse = host_parse (genv_host env);
          abort = (\<lambda>reason. gateway_deny env (auditCodeForAbort reason) (gatewayAbortError reason) g) in
      if tg_killed g then abort KillSwitch
      else if gco_signalAborted options then abort CallerCancelled
      else case gco_deadline options of
        None \<Rightarrow> (Inr (), g)
      | Some text \<Rightarrow> (case parse text of
          None \<Rightarrow> gateway_deny env ''DEADLINE_INVALID'' (TypeError ''Invalid gateway deadline.'') g
        | Some deadline \<Rightarrow> (case parse startedAt of
            None \<Rightarrow> (Inr (), g)
          | Some started \<Rightarrow> if deadline \<le> started then abort TimedOut else (Inr (), g))))"

definition inventory_matches :: "'r gateway_env \<Rightarrow> stored_run_grant \<Rightarrow> tool_inventory \<Rightarrow> bool result" where
  "inventory_matches env record inventory =
     (if grant_providerId record \<noteq> inv_providerId inventory then Inr False
      else chain (inventoryDigest (host_collate (genv_host env)) (host_sha (genv_host env)) inventory)
        (\<lambda>digest. Inr (grant_inventoryDigest record = digest)))"

definition consent_query_of :: "stored_run_grant \<Rightarrow> string \<Rightarrow> gateway_call_options \<Rightarrow> consent_query" where
  "consent_query_of record toolId options = \<lparr>cq_runId = grant_runId record,
     cq_providerId = grant_providerId record, cq_toolId = toolId,
     cq_projectSnapshot = gco_projectSnapshot options,
     cq_policySnapshot = gco_policySnapshot options, cq_requiredScopes = [''read'']\<rparr>"

text \<open>From the inventory to the tool that may be called.\<close>

definition admit_tool :: "'r gateway_env \<Rightarrow> stored_run_grant \<Rightarrow> tool_inventory result \<Rightarrow> string \<Rightarrow> json \<Rightarrow>
    gateway_call_options \<Rightarrow> string \<Rightarrow> 'r tool_gateway \<Rightarrow> tool_definition result \<times> 'r tool_gateway" where
  "admit_tool env record answer toolId input options startedAt g =
     (let lc = host_collate (genv_host env); parse = host_parse (genv_host env);
          sha = host_sha (genv_host env); denied = TypeError ''Run grant denied.'' in
      proceed (check answer g) (\<lambda>inventory g.
      case validateInventory lc parse inventory of
        Inl e \<Rightarrow> gateway_deny env ''INVENTORY_INVALID'' e g
      | Inr _ \<Rightarrow>
      proceed (check (inventory_matches env record inventory) g) (\<lambda>matches g.
      if \<not> matches then gateway_deny env ''INVENTORY_CHANGED'' denied g
      else case find (\<lambda>candidate. tool_id candidate = toolId) (inv_tools inventory) of
        None \<Rightarrow> gateway_deny env ''TOOL_DENIED'' denied g
      | Some tool \<Rightarrow>
          if \<not> tool_readOnly tool \<or> toolId \<notin> set (grant_toolIds record)
          then gateway_deny env ''TOOL_DENIED'' denied g
          else if tool_exposesProjectContent tool \<and> \<not> consent_authorize parse sha (genv_consents env)
              (consent_query_of record toolId options) startedAt
          then gateway_deny env ''CONSENT_DENIED'' denied g
          else proceed (check (tool_schema (tool_inputSchema tool)) g) (\<lambda>schema g.
            if validateJsonSchema (genv_compile env) schema input \<noteq> SchemaOk
            then gateway_deny env ''INPUT_SCHEMA_FAILED'' (TypeError ''Input schema failed.'') g
            else (Inr tool, g)))))"

definition due_at_once :: "'r gateway_env \<Rightarrow> gateway_call_options \<Rightarrow> string \<Rightarrow> bool" where
  "due_at_once env options startedAt = (case gco_deadline options of None \<Rightarrow> False
   | Some text \<Rightarrow> (case (host_parse (genv_host env) text, host_parse (genv_host env) startedAt) of
       (Some deadline, Some started) \<Rightarrow> deadline - started \<le> 0 | _ \<Rightarrow> False))"

text \<open>
  The whole first part; \<open>answer\<close> is what \<open>provider.inventory()\<close> returns or throws and \<open>uuid\<close> the id
  of the reservation. The result is the number of the call, which is now active.
\<close>

definition gateway_start :: "'r gateway_env \<Rightarrow> run_grant option \<Rightarrow> string \<Rightarrow> json \<Rightarrow> gateway_call_options \<Rightarrow>
    tool_inventory result \<Rightarrow> string \<Rightarrow> 'r tool_gateway \<Rightarrow> nat result \<times> 'r tool_gateway" where
  "gateway_start env grant toolId input options answer uuid g =
     (let host = genv_host env; store = genv_store env; startedAt = gateway_now env g; g = tick g in
      proceed (check_interrupted env options startedAt g) (\<lambda>_ g.
      proceed (check (store_authorize host store (tg_grants g) grant startedAt) g) (\<lambda>authorized g.
      case authorized of
        None \<Rightarrow> gateway_deny env ''GRANT_DENIED'' (TypeError ''Run grant denied.'') g
      | Some record \<Rightarrow>
      proceed (admit_tool env record answer toolId input options startedAt g) (\<lambda>tool g.
      proceed (check (store_reserveCall host store uuid (tg_grants g) grant startedAt) g)
      (\<lambda>(reservation, r) g.
        let c = \<lparr>ac_grant = grant, ac_tool = tool, ac_reservation = reservation,
              ac_abort = (if due_at_once env options startedAt then Some TimedOut else None)\<rparr>
        in (Inr (tg_calls g), g\<lparr>tg_grants := r, tg_calls := tg_calls g + 1,
             tg_active := tg_active g @ [(tg_calls g, c)]\<rparr>))))))"


section \<open>Ending a call\<close>

text \<open>How the race at the \<open>await\<close> ended, and the errors the \<open>catch\<close> block tells apart.\<close>

datatype race_outcome = Delivered json | ProviderThrew exn | AbortWon abort_reason

datatype gateway_failure =
  AbortFailure abort_reason
| AuthorizationChanged
| ProviderFailure exn
| OtherFailure exn

text \<open>
  The \<open>try\<close> block from the \<open>await\<close> on. What it throws comes with the flag \<open>settled\<close>.
\<close>

definition fail_with :: "gateway_failure \<Rightarrow> 'r tool_gateway \<Rightarrow>
    ((bool \<times> gateway_failure) + json) \<times> 'r tool_gateway" where
  "fail_with failure g = (Inl (False, failure), g)"

definition settle_call :: "'r gateway_env \<Rightarrow> active_call \<Rightarrow> json \<Rightarrow> string \<Rightarrow> 'r tool_gateway \<Rightarrow>
    ((bool \<times> gateway_failure) + json) \<times> 'r tool_gateway" where
  "settle_call env c output completedAt g =
     (case canonicalJson output of
        Inl e \<Rightarrow> fail_with (OtherFailure e) g
      | Inr text \<Rightarrow>
          (case store_commitCall (genv_host env) (genv_store env) (tg_grants g) (ac_grant c)
              (ac_reservation c) (int (length (utf8_encode text))) completedAt of
            Inl e \<Rightarrow> fail_with (OtherFailure e) g
          | Inr (record, r) \<Rightarrow>
              (case gateway_event env ''TOOL_CALLED'' (g\<lparr>tg_grants := r\<rparr>) of
                (Inl e, g) \<Rightarrow> (Inl (True, OtherFailure e), g)
              | (Inr _, g) \<Rightarrow> (Inr output, g))))"

definition deliver_output :: "'r gateway_env \<Rightarrow> active_call \<Rightarrow> json \<Rightarrow> 'r tool_gateway \<Rightarrow>
    ((bool \<times> gateway_failure) + json) \<times> 'r tool_gateway" where
  "deliver_output env c output g =
     (let completedAt = gateway_now env g; g = tick g in
      if ac_abort c \<noteq> None \<or> tg_killed g
      then fail_with (AbortFailure (case ac_abort c of None \<Rightarrow> KillSwitch | Some reason \<Rightarrow> reason)) g
      else case store_authorize (genv_host env) (genv_store env) (tg_grants g) (ac_grant c) completedAt of
        Inl e \<Rightarrow> fail_with (OtherFailure e) g
      | Inr None \<Rightarrow> fail_with AuthorizationChanged g
      | Inr (Some _) \<Rightarrow>
          (case tool_schema (tool_outputSchema (ac_tool c)) of
            Inl e \<Rightarrow> fail_with (OtherFailure e) g
          | Inr schema \<Rightarrow>
              if validateJsonSchema (genv_compile env) schema output \<noteq> SchemaOk
              then (case gateway_event env ''OUTPUT_SCHEMA_FAILED'' g of
                  (Inl e, g) \<Rightarrow> fail_with (OtherFailure e) g
                | (Inr _, g) \<Rightarrow> fail_with (OtherFailure (TypeError ''Output schema failed.'')) g)
              else settle_call env c output completedAt g))"

definition gateway_try :: "'r gateway_env \<Rightarrow> active_call \<Rightarrow> race_outcome \<Rightarrow> 'r tool_gateway \<Rightarrow>
    ((bool \<times> gateway_failure) + json) \<times> 'r tool_gateway" where
  "gateway_try env c outcome g = (case outcome of
     AbortWon reason \<Rightarrow> fail_with (AbortFailure reason) g
   | ProviderThrew e \<Rightarrow> fail_with (ProviderFailure e) g
   | Delivered output \<Rightarrow> deliver_output env c output g)"

text \<open>The \<open>catch\<close> block: the reservation is released unless the call was settled.\<close>

definition gateway_report :: "'r gateway_env \<Rightarrow> gateway_failure \<Rightarrow> 'r tool_gateway \<Rightarrow>
    json result \<times> 'r tool_gateway" where
  "gateway_report env failure g = (case failure of
     AbortFailure reason \<Rightarrow> gateway_deny env (auditCodeForAbort reason) (gatewayAbortError reason) g
   | AuthorizationChanged \<Rightarrow>
       gateway_deny env ''AUTHORIZATION_CHANGED'' gatewayAuthorizationChangedError g
   | ProviderFailure e \<Rightarrow> gateway_deny env ''PROVIDER_FAILED'' e g
   | OtherFailure e \<Rightarrow>
       if exn_class e = ''TypeError'' then (Inl e, g) else gateway_deny env ''PROVIDER_FAILED'' e g)"

definition gateway_release :: "'r gateway_env \<Rightarrow> active_call \<Rightarrow> 'r tool_gateway \<Rightarrow>
    unit result \<times> 'r tool_gateway" where
  "gateway_release env c g =
     (let now = gateway_now env g; g = tick g in
      case store_releaseCall (genv_host env) (genv_store env) (tg_grants g) (ac_grant c)
          (ac_reservation c) now of
        Inl e \<Rightarrow> (Inl e, g)
      | Inr (record, r) \<Rightarrow> (Inr (), g\<lparr>tg_grants := r\<rparr>))"

definition gateway_catch :: "'r gateway_env \<Rightarrow> active_call \<Rightarrow> bool \<times> gateway_failure \<Rightarrow> 'r tool_gateway \<Rightarrow>
    json result \<times> 'r tool_gateway" where
  "gateway_catch env c thrown g =
     proceed (if fst thrown then (Inr (), g) else gateway_release env c g)
       (\<lambda>_. gateway_report env (snd thrown))"

text \<open>The second part of \<open>call\<close>, with its \<open>finally\<close>.\<close>

definition gateway_finish :: "'r gateway_env \<Rightarrow> nat \<Rightarrow> active_call \<Rightarrow> race_outcome \<Rightarrow> 'r tool_gateway \<Rightarrow>
    json result \<times> 'r tool_gateway" where
  "gateway_finish env k c outcome g =
     (case (case gateway_try env c outcome g of
         (Inl thrown, g) \<Rightarrow> gateway_catch env c thrown g
       | (Inr output, g) \<Rightarrow> (Inr output, g)) of
       (result, g) \<Rightarrow> (result, g\<lparr>tg_active := AList.delete k (tg_active g)\<rparr>))"

text \<open>An abort wins the race only when the call was aborted, with its first reason.\<close>

definition outcome_possible :: "active_call \<Rightarrow> race_outcome \<Rightarrow> bool" where
  "outcome_possible c outcome = (case outcome of AbortWon reason \<Rightarrow> ac_abort c = Some reason | _ \<Rightarrow> True)"

section \<open>The steps of a gateway\<close>

text \<open>
  Any number of calls interleave. Other users of the grant store may act between two steps; they
  leave the reservations of the calls in flight alone, which only those calls know. Issuer ids
  hold no NUL character, which separates issuer and grant in the keys of the repository.
\<close>

definition plain_issuers :: "memory_repository \<Rightarrow> bool" where
  "plain_issuers r \<longleftrightarrow> (\<forall>k g. map_of (mem_records r) k = Some g \<longrightarrow> CHR 0x00 \<notin> set (grant_issuerId g))"

definition keeps_reservations :: "memory_repository tool_gateway \<Rightarrow> memory_repository \<Rightarrow> bool" where
  "keeps_reservations g r \<longleftrightarrow> (\<forall>(k, c) \<in> set (tg_active g).
     map_of (mem_reservations r) (rsv_id (ac_reservation c)) =
     map_of (mem_reservations (tg_grants g)) (rsv_id (ac_reservation c)))"

inductive gateway_step :: "memory_repository gateway_env \<Rightarrow> memory_repository tool_gateway \<Rightarrow>
    memory_repository tool_gateway \<Rightarrow> bool" for env :: "memory_repository gateway_env" where
  Gateway_start: "mem_fresh uuid (tg_grants g) \<Longrightarrow>
    gateway_start env grant toolId input options answer uuid g = (result, g') \<Longrightarrow> gateway_step env g g'"
| Gateway_finish: "map_of (tg_active g) k = Some c \<Longrightarrow> outcome_possible c outcome \<Longrightarrow>
    gateway_finish env k c outcome g = (result, g') \<Longrightarrow> gateway_step env g g'"
| Gateway_kill: "gateway_step env g (kill g)"
| Gateway_abort: "reason \<noteq> KillSwitch \<Longrightarrow> gateway_step env g (gateway_abort k reason g)"
| Gateway_other: "store_step (genv_host env) (memory_repo (host_parse (genv_host env))) mem_fresh
      (tg_grants g) r \<Longrightarrow> keeps_reservations g r \<Longrightarrow> plain_issuers r \<Longrightarrow>
    gateway_step env g (g\<lparr>tg_grants := r\<rparr>)"

end
