(* ===== verification/Gateway_Safety.thy ===== *)
theory Gateway_Safety
  imports Tool_Gateway
begin

text \<open>
  What holds of the read-only gateway of \<open>Tool_Gateway\<close> however its calls interleave with each
  other, with aborts and with the other users of the grant store: an invariant of the steps, and
  from it that no call leaks quota, that output is released only under a live authorization, and
  that a killed gateway is silent.
\<close>

section \<open>Parts that leave the grants alone\<close>

definition gateway_chained :: "'r gateway_env \<Rightarrow> 'r tool_gateway \<Rightarrow> bool" where
  "gateway_chained env g \<longleftrightarrow> chained (host_sha (genv_host env)) 1 None (tg_audit g)"

text \<open>Only the clock was read and well-chained events were added to the log.\<close>

definition logs_only :: "'r gateway_env \<Rightarrow> 'r tool_gateway \<Rightarrow> 'r tool_gateway \<Rightarrow> bool" where
  "logs_only env g h \<longleftrightarrow> tg_killed h = tg_killed g \<and> tg_active h = tg_active g \<and>
     tg_grants h = tg_grants g \<and> tg_calls h = tg_calls g \<and> prefix (tg_audit g) (tg_audit h) \<and>
     (gateway_chained env g \<longrightarrow> gateway_chained env h)"

lemma logs_refl [simp]: "logs_only env g g"
  by (simp add: logs_only_def)

lemma logs_trans [trans]: "logs_only env g h \<Longrightarrow> logs_only env h k \<Longrightarrow> logs_only env g k"
  by (auto simp: logs_only_def intro: prefix_order.trans)

lemma tick_simps [simp]:
  "tg_killed (tick g) = tg_killed g" "tg_active (tick g) = tg_active g"
  "tg_grants (tick g) = tg_grants g" "tg_calls (tick g) = tg_calls g" "tg_audit (tick g) = tg_audit g"
  "gateway_chained env (tick g) = gateway_chained env g"
  by (simp_all add: tick_def gateway_chained_def)

lemma logs_tick [simp]: "logs_only env g (tick g)"
  by (simp add: logs_only_def)

lemma logs_tickD: "logs_only env (tick g) h \<Longrightarrow> logs_only env g h"
  using logs_tick logs_trans by blast

lemma event_logs: "logs_only env g (snd (gateway_event env code g))"
proof -
  have "logs_only env g h" if "gateway_event env code g = (q, h)" for q h
    using that append_chained append_Inr
    by (fastforce simp: gateway_event_def Let_def logs_only_def gateway_chained_def split: sum.splits)
  then show ?thesis by (metis prod.collapse)
qed

lemma event_Inr:
  assumes "gateway_event env code g = (Inr u, h)"
  shows "\<exists>e. tg_audit h = tg_audit g @ [e] \<and> aud_code e = code"
  using assms append_Inr by (fastforce simp: gateway_event_def Let_def split: sum.splits)

lemma deny_Inr [simp]: "gateway_deny env code e g \<noteq> (Inr x, h)"
  by (auto simp: gateway_deny_def proceed_def split: sum.splits)

lemma deny_logs:
  assumes "gateway_deny env code e g = (q, h)"
  shows "logs_only env g h \<and> (\<exists>e'. q = Inl e')"
  using assms event_logs [of env g code]
  by (auto simp: gateway_deny_def proceed_def split: sum.splits)

lemma interrupted_logs:
  assumes "check_interrupted env options startedAt g = (q, h)"
  shows "logs_only env g h"
  using assms by (auto simp: check_interrupted_def Let_def split: if_splits option.splits dest: deny_logs)

lemma interrupted_Inr:
  "check_interrupted env options startedAt g = (Inr u, h) \<longleftrightarrow> h = g \<and> \<not> tg_killed g \<and>
     \<not> gco_signalAborted options \<and> (\<forall>text. gco_deadline options = Some text \<longrightarrow>
       (\<exists>d. host_parse (genv_host env) text = Some d \<and>
         (\<forall>s. host_parse (genv_host env) startedAt = Some s \<longrightarrow> s < d)))"
  by (auto simp: check_interrupted_def Let_def split: option.splits)

section \<open>Which tools are admitted\<close>

text \<open>A tool that may be called under a grant record.\<close>

definition admissible :: "'r gateway_env \<Rightarrow> stored_run_grant \<Rightarrow> tool_inventory \<Rightarrow> string \<Rightarrow> json \<Rightarrow>
    gateway_call_options \<Rightarrow> string \<Rightarrow> tool_definition \<Rightarrow> bool" where
  "admissible env record inventory toolId input options startedAt tool \<longleftrightarrow>
     validateInventory (host_collate (genv_host env)) (host_parse (genv_host env)) inventory = Inr () \<and>
     grant_providerId record = inv_providerId inventory \<and>
     inventoryDigest (host_collate (genv_host env)) (host_sha (genv_host env)) inventory =
       Inr (grant_inventoryDigest record) \<and>
     find (\<lambda>candidate. tool_id candidate = toolId) (inv_tools inventory) = Some tool \<and>
     tool_readOnly tool \<and> toolId \<in> set (grant_toolIds record) \<and>
     (tool_exposesProjectContent tool \<longrightarrow> consent_authorize (host_parse (genv_host env))
       (host_sha (genv_host env)) (genv_consents env) (consent_query_of record toolId options) startedAt) \<and>
     (\<exists>schema. tool_schema (tool_inputSchema tool) = Inr schema \<and>
       validateJsonSchema (genv_compile env) schema input = SchemaOk)"

lemma matches_Inr: "inventory_matches env record inventory = Inr b \<Longrightarrow> b \<Longrightarrow>
    grant_providerId record = inv_providerId inventory \<and>
    inventoryDigest (host_collate (genv_host env)) (host_sha (genv_host env)) inventory =
      Inr (grant_inventoryDigest record)"
  by (auto simp: inventory_matches_def chain_eq_Inr split: if_splits)

lemma admit_tool_logs:
  assumes "admit_tool env record answer toolId input options startedAt g = (q, h)"
  shows "logs_only env g h"
  using assms
  by (auto simp: admit_tool_def Let_def proceed_check
      split: sum.splits if_splits option.splits dest: deny_logs)

lemma admit_tool_Inr:
  assumes "admit_tool env record answer toolId input options startedAt g = (Inr tool, h)"
  shows "h = g \<and> (\<exists>inventory. answer = Inr inventory \<and>
    admissible env record inventory toolId input options startedAt tool)"
  using assms
  by (auto simp: admit_tool_def Let_def proceed_check admissible_def
      split: sum.splits if_splits option.splits dest: matches_Inr)

section \<open>The two parts of a call\<close>

definition new_call :: "run_grant option \<Rightarrow> tool_definition \<Rightarrow> call_reservation \<Rightarrow> abort_reason option \<Rightarrow>
    active_call" where
  "new_call grant tool reservation abort = \<lparr>ac_grant = grant, ac_tool = tool,
     ac_reservation = reservation, ac_abort = abort\<rparr>"

lemma start_Inl:
  assumes "gateway_start env grant toolId input options answer uuid g = (Inl e, h)"
  shows "logs_only env g h"
proof -
  have "logs_only env (tick g) h"
    using assms
    by (auto simp: gateway_start_def Let_def check_def proceed_Inl_iff
        split: option.splits dest!: interrupted_logs deny_logs admit_tool_logs intro: logs_trans)
  then show ?thesis by (rule logs_tickD)
qed

lemma not_due: "check_interrupted env options startedAt g = (Inr u, h) \<Longrightarrow>
    \<not> due_at_once env options startedAt"
  by (auto simp: interrupted_Inr due_at_once_def split: option.splits)

lemma start_Inr:
  assumes "gateway_start env grant toolId input options answer uuid g = (Inr k, h)"
  obtains rc inventory tool reservation r where
    "\<not> tg_killed g" "\<not> gco_signalAborted options"
    "store_authorize (genv_host env) (genv_store env) (tg_grants g) grant (gateway_now env g) =
      Inr (Some rc)"
    "answer = Inr inventory"
    "admissible env rc inventory toolId input options (gateway_now env g) tool"
    "store_reserveCall (genv_host env) (genv_store env) uuid (tg_grants g) grant (gateway_now env g) =
      Inr (reservation, r)"
    "k = tg_calls g"
    "h = (tick g)\<lparr>tg_grants := r, tg_calls := tg_calls g + 1,
      tg_active := tg_active g @ [(tg_calls g, new_call grant tool reservation None)]\<rparr>"
proof -
  have start: "check_interrupted env options (gateway_now env g) (tick g) = (Inr (), tick g)"
    using assms by (auto simp: gateway_start_def Let_def proceed_Inr_iff interrupted_Inr)
  from assms obtain rc where auth: "store_authorize (genv_host env) (genv_store env) (tg_grants g)
      grant (gateway_now env g) = Inr (Some rc)"
    and rest: "proceed (admit_tool env rc answer toolId input options (gateway_now env g) (tick g))
      (\<lambda>tool h. proceed (check (store_reserveCall (genv_host env) (genv_store env) uuid (tg_grants h) grant
          (gateway_now env g)) h)
        (\<lambda>(reservation, r) h. (Inr (tg_calls h), h\<lparr>tg_grants := r, tg_calls := tg_calls h + 1,
          tg_active := tg_active h @ [(tg_calls h, new_call grant tool reservation None)]\<rparr>))) = (Inr k, h)"
    using not_due [OF start]
    by (auto simp: gateway_start_def Let_def start proceed_check new_call_def
        split: sum.splits option.splits)
  from rest obtain tool h' where admit:
    "admit_tool env rc answer toolId input options (gateway_now env g) (tick g) = (Inr tool, h')"
    by (auto simp: proceed_Inr_iff)
  note adm = admit_tool_Inr [OF admit]
  have rest: "proceed (check (store_reserveCall (genv_host env) (genv_store env) uuid (tg_grants g) grant
          (gateway_now env g)) (tick g))
        (\<lambda>(reservation, r) h. (Inr (tg_calls h), h\<lparr>tg_grants := r, tg_calls := tg_calls h + 1,
          tg_active := tg_active h @ [(tg_calls h, new_call grant tool reservation None)]\<rparr>)) = (Inr k, h)"
    using rest admit adm by simp
  then obtain reservation r where "store_reserveCall (genv_host env) (genv_store env) uuid (tg_grants g)
      grant (gateway_now env g) = Inr (reservation, r)"
    by (auto simp: proceed_check split: sum.splits)
  with rest show ?thesis
    using that start auth adm by (auto simp: interrupted_Inr proceed_check)
qed

text \<open>The conditions under which output leaves the gateway, and the commit that then happened.\<close>

definition releasable_output :: "memory_repository gateway_env \<Rightarrow> active_call \<Rightarrow> memory_repository tool_gateway \<Rightarrow>
    json \<Rightarrow> stored_run_grant \<Rightarrow> memory_repository \<Rightarrow> bool" where
  "releasable_output env c g output rc r \<longleftrightarrow> ac_abort c = None \<and> \<not> tg_killed g \<and>
     (\<exists>live. store_authorize (genv_host env) (genv_store env) (tg_grants g) (ac_grant c)
        (gateway_now env g) = Inr (Some live)) \<and>
     (\<exists>schema. tool_schema (tool_outputSchema (ac_tool c)) = Inr schema \<and>
        validateJsonSchema (genv_compile env) schema output = SchemaOk) \<and>
     (\<exists>body. canonicalJson output = Inr body \<and>
        store_commitCall (genv_host env) (genv_store env) (tg_grants g) (ac_grant c) (ac_reservation c)
          (int (length (utf8_encode body))) (gateway_now env g) = Inr (rc, r))"

lemma logs_grants: "logs_only env (g\<lparr>tg_grants := r\<rparr>) h \<Longrightarrow> logs_only env g (h\<lparr>tg_grants := tg_grants g\<rparr>)"
  by (auto simp: logs_only_def gateway_chained_def)

lemma settle_cases:
  assumes "settle_call env c output completedAt g = (q, h)"
  obtains (failed) e where "q = Inl (False, OtherFailure e)" "h = g"
  | (committed) body rc r where "canonicalJson output = Inr body"
    "store_commitCall (genv_host env) (genv_store env) (tg_grants g) (ac_grant c) (ac_reservation c)
      (int (length (utf8_encode body))) completedAt = Inr (rc, r)"
    "logs_only env (g\<lparr>tg_grants := r\<rparr>) h"
    "(\<exists>e. q = Inl (True, OtherFailure e)) \<or> q = Inr output \<and> tg_audit h \<noteq> [] \<and>
      aud_code (last (tg_audit h)) = ''TOOL_CALLED''"
proof (cases "canonicalJson output")
  case (Inl e)
  then show ?thesis using assms failed by (auto simp: settle_call_def fail_with_def)
next
  case (Inr body)
  note body = Inr
  show ?thesis
  proof (cases "store_commitCall (genv_host env) (genv_store env) (tg_grants g) (ac_grant c)
      (ac_reservation c) (int (length (utf8_encode body))) completedAt")
    case (Inl e)
    then show ?thesis using assms body failed by (auto simp: settle_call_def fail_with_def)
  next
    case (Inr p)
    obtain rc r where p: "p = (rc, r)" by (cases p)
    obtain q' h' where ev: "gateway_event env ''TOOL_CALLED'' (g\<lparr>tg_grants := r\<rparr>) = (q', h')"
      by (cases "gateway_event env ''TOOL_CALLED'' (g\<lparr>tg_grants := r\<rparr>)")
    have h: "h' = h" "q' = Inr () \<and> q = Inr output \<or> (\<exists>e. q = Inl (True, OtherFailure e))"
      using assms body Inr p ev by (auto simp: settle_call_def split: sum.splits)
    have "logs_only env (g\<lparr>tg_grants := r\<rparr>) h" using event_logs [of env "g\<lparr>tg_grants := r\<rparr>"] ev h
      by (metis snd_conv)
    moreover have "q = Inr output \<longrightarrow> tg_audit h \<noteq> [] \<and> aud_code (last (tg_audit h)) = ''TOOL_CALLED''"
      using h ev event_Inr [of env "''TOOL_CALLED''" "g\<lparr>tg_grants := r\<rparr>" "()" h] by auto
    ultimately show ?thesis using committed body Inr p h by blast
  qed
qed

lemma try_cases:
  assumes "gateway_try env c outcome g = (q, h)"
  obtains (failed) f where "q = Inl (False, f)" "logs_only env g h"
  | (committed) out rc r where "outcome = Delivered out"
    "releasable_output env c g out rc r" "logs_only env (g\<lparr>tg_grants := r\<rparr>) h"
    "(\<exists>e. q = Inl (True, OtherFailure e)) \<or> q = Inr out \<and> tg_audit h \<noteq> [] \<and>
      aud_code (last (tg_audit h)) = ''TOOL_CALLED''"
proof (cases "\<exists>f. q = Inl (False, f) \<and> logs_only env g h")
  case True
  then show ?thesis using failed by blast
next
  case False
  then obtain out where outc: "outcome = Delivered out"
    using assms by (cases outcome) (auto simp: gateway_try_def fail_with_def)
  let ?now = "gateway_now env g"
  have deliver: "deliver_output env c out g = (q, h)" using assms outc by (simp add: gateway_try_def)
  have live: "ac_abort c = None" "\<not> tg_killed g"
    using deliver False by (auto simp: deliver_output_def fail_with_def Let_def split: if_splits)
  obtain a schema where a: "store_authorize (genv_host env) (genv_store env) (tg_grants g) (ac_grant c) ?now = Inr (Some a)"
    and schema: "tool_schema (tool_outputSchema (ac_tool c)) = Inr schema"
    using deliver False live
    by (auto simp: deliver_output_def fail_with_def Let_def split: sum.splits option.splits)
  have valid: "validateJsonSchema (genv_compile env) schema out = SchemaOk"
  proof (rule ccontr)
    assume bad: "validateJsonSchema (genv_compile env) schema out \<noteq> SchemaOk"
    obtain q' h' where ev: "gateway_event env ''OUTPUT_SCHEMA_FAILED'' (tick g) = (q', h')"
      by (cases "gateway_event env ''OUTPUT_SCHEMA_FAILED'' (tick g)")
    then have "logs_only env g h'" using event_logs [of env "tick g"] logs_tickD by (metis snd_conv)
    then show False using deliver live a schema bad ev False
      by (auto simp: deliver_output_def fail_with_def Let_def split: sum.splits)
  qed
  have "settle_call env c out ?now (tick g) = (q, h)"
    using deliver live a schema valid by (simp add: deliver_output_def Let_def)
  then show ?thesis
  proof (cases rule: settle_cases)
    case (failed e)
    then show ?thesis using False by simp
  next
    case (committed body rc r)
    have "releasable_output env c g out rc r"
      using live a schema valid committed(1,2) unfolding releasable_output_def by simp
    moreover have "logs_only env (g\<lparr>tg_grants := r\<rparr>) h"
      using committed(3) by (auto simp: logs_only_def gateway_chained_def)
    ultimately show ?thesis using that(2) outc committed(4) by blast
  qed
qed

section \<open>What the calls do to the grants\<close>

definition gateway_configured :: "memory_repository gateway_env \<Rightarrow> bool" where
  "gateway_configured env \<longleftrightarrow>
     store_repository (genv_store env) = memory_repo (host_parse (genv_host env)) \<and>
     CHR 0x00 \<notin> set (store_issuerId (genv_store env))"

abbreviation grants_step :: "memory_repository gateway_env \<Rightarrow> memory_repository \<Rightarrow> memory_repository \<Rightarrow> bool" where
  "grants_step env \<equiv> store_step (genv_host env) (memory_repo (host_parse (genv_host env))) mem_fresh"

lemma first_split: "c \<notin> set xs \<Longrightarrow> c \<notin> set zs \<Longrightarrow> xs @ c # ys = zs @ c # ws \<Longrightarrow> xs = zs \<and> ys = ws"
proof (induction xs arbitrary: zs)
  case Nil
  then show ?case by (cases zs) auto
next
  case (Cons x xs)
  then show ?case by (cases zs) auto
qed

lemma find_key:
  assumes "gateway_configured env" and "accounted r" and "plain_issuers r"
    and "store_find (genv_host env) (genv_store env) r grant = Some g"
  shows "grant_issuerId g = store_issuerId (genv_store env) \<and>
    mem_read r (store_issuerId (genv_store env)) (grant_id g) = Some g"
proof -
  obtain h :: run_grant where h: "mem_read r (store_issuerId (genv_store env)) (handle_id h) = Some g"
    using assms(1,4) by (auto simp: gateway_configured_def store_find_def split: option.splits if_splits)
  then have "record_key g = grant_key (store_issuerId (genv_store env)) (handle_id h)"
    and plain: "CHR 0x00 \<notin> set (grant_issuerId g)"
    using accounted_record [OF assms(2)] assms(3) by (auto simp: mem_read_map plain_issuers_def)
  then have "grant_issuerId g = store_issuerId (genv_store env) \<and> grant_id g = handle_id h"
    using assms(1) first_split [OF plain, of "store_issuerId (genv_store env)" "grant_id g" "handle_id h"]
    by (simp add: gateway_configured_def record_key_def grant_key_def)
  then show ?thesis using h by simp
qed

lemma changes_plain:
  assumes "changes (memory_repo parse) r r'" and "accounted r'" and "plain_issuers r"
  shows "plain_issuers r'"
  unfolding plain_issuers_def
proof (intro allI impI)
  fix k b assume b: "map_of (mem_records r') k = Some b"
  then have k: "k = grant_key (grant_issuerId b) (grant_id b)"
    using accounted_record [OF assms(2)] by (auto simp: record_key_def)
  obtain a where a: "map_of (mem_records r) k = Some a" "a = b \<or> grant_change a b"
    using assms(1) [unfolded changes_def, rule_format, of "grant_issuerId b" "grant_id b"] b k
    by (auto simp: mem_read_map split: option.splits)
  have "grant_terms a = grant_terms b" using a(2) grant_change_later later_refl unfolding later_def by blast
  then have "grant_issuerId (grant_terms a) = grant_issuerId (grant_terms b)" by simp
  moreover have "CHR 0x00 \<notin> set (grant_issuerId a)"
    using a(1) assms(3) unfolding plain_issuers_def by blast
  ultimately show "CHR 0x00 \<notin> set (grant_issuerId b)" by (simp add: grant_terms_def)
qed

lemma grants_step_find:
  assumes "grants_step env r r'" and "accounted r" and "gateway_configured env"
    and "store_find (genv_host env) (genv_store env) r grant = Some a"
  shows "\<exists>b. store_find (genv_host env) (genv_store env) r' grant = Some b \<and> later a b"
proof -
  obtain h where h: "grant = Some h" "mem_read r (store_issuerId (genv_store env)) (handle_id h) = Some a"
    "tokenMatches (host_sha (genv_host env)) (handle_token h) (grant_tokenHash a)"
    using assms(3,4) by (auto simp: gateway_configured_def store_find_def split: option.splits if_splits)
  have "repo_read (memory_repo (host_parse (genv_host env))) r (store_issuerId (genv_store env))
      (handle_id h) = Some a" using h(2) by simp
  from memory.step_later [OF assms(1,2) this]
  obtain b where b: "mem_read r' (store_issuerId (genv_store env)) (handle_id h) = Some b" "later a b"
    by auto
  have "grant_tokenHash (grant_terms a) = grant_tokenHash (grant_terms b)" using b(2) by (simp add: later_def)
  then show ?thesis using assms(3) h b
    by (auto simp: gateway_configured_def store_find_def grant_terms_def)
qed

lemma authorize_find:
  assumes "store_authorize host store r grant now = Inr (Some g)"
  shows "store_find host store r grant = Some g \<and> grant_state g = GrantActive"
  using assms by (auto simp: store_authorize_def chain_eq_Inr split: option.splits if_splits)

text \<open>Each operation on the store as a step, with its effect on the reservations.\<close>

lemma reserve_effect:
  assumes "gateway_configured env" and "mem_fresh uuid r"
    and "store_reserveCall (genv_host env) (genv_store env) uuid r grant now = Inr (x, r')"
  shows "grants_step env r r' \<and> rsv_id x = uuid \<and>
    map_of (mem_reservations r') = (map_of (mem_reservations r))(uuid \<mapsto> x) \<and>
    (\<exists>g. store_find (genv_host env) (genv_store env) r grant = Some g \<and>
      rsv_grantId x = grant_id g \<and> rsv_issuerId x = store_issuerId (genv_store env))"
proof -
  have repo: "store_repository (genv_store env) = memory_repo (host_parse (genv_host env))"
    using assms(1) by (simp add: gateway_configured_def)
  obtain g where g: "store_authorize (genv_host env) (genv_store env) r grant now = Inr (Some g)"
    and m: "mem_reserveCall (host_parse (genv_host env)) uuid r (store_issuerId (genv_store env))
      (grant_id g) (grant_revision g) now = Inr (x, r')"
    using assms(3) repo
    by (auto simp: store_reserveCall_def store_authorized_def chain_eq_Inr split: option.splits)
  have "rsv_id x = uuid \<and> rsv_grantId x = grant_id g \<and> rsv_issuerId x = store_issuerId (genv_store env) \<and>
      map_of (mem_reservations r') = (map_of (mem_reservations r))(uuid \<mapsto> x)"
    using m by (rule mem_reserveCall_Inr) (auto simp: map_of_update fun_eq_iff update_conv')
  then show ?thesis using authorize_find [OF g] Store_reserve [where fresh = mem_fresh, OF repo assms(2,3)]
    by blast
qed

lemma commit_effect:
  assumes "gateway_configured env"
    and "store_commitCall (genv_host env) (genv_store env) r grant x n now = Inr (g, r')"
  shows "grants_step env r r' \<and>
    map_of (mem_reservations r') = (map_of (mem_reservations r))(rsv_id x := None) \<and>
    0 \<le> n \<and> n \<le> rsv_maxResponseBytes x \<and>
    (\<exists>a. map_of (mem_records r) (reservation_key x) = Some a \<and> g = commit n (rsv_maxResponseBytes x) a \<and>
      map_of (mem_records r') (reservation_key x) = Some g)"
proof -
  have repo: "store_repository (genv_store env) = memory_repo (host_parse (genv_host env))"
    using assms(1) by (simp add: gateway_configured_def)
  have m: "mem_commitCall (host_parse (genv_host env)) r x n now = Inr (g, r')"
    using assms(2) repo by (auto simp: store_commitCall_def chain_eq_Inr)
  have "map_of (mem_reservations r') = (map_of (mem_reservations r))(rsv_id x := None) \<and>
      0 \<le> n \<and> n \<le> rsv_maxResponseBytes x \<and>
      (\<exists>a. map_of (mem_records r) (reservation_key x) = Some a \<and> g = commit n (rsv_maxResponseBytes x) a \<and>
        map_of (mem_records r') (reservation_key x) = Some g)"
    using m by (rule mem_commitCall_Inr) (auto simp: fun_eq_iff reservation_key_def)
  then show ?thesis using Store_commit [OF repo assms(2)] by blast
qed


section \<open>The invariant\<close>

definition call_ok :: "memory_repository gateway_env \<Rightarrow> memory_repository \<Rightarrow> active_call \<Rightarrow> bool" where
  "call_ok env r c \<longleftrightarrow> tool_readOnly (ac_tool c) \<and>
     map_of (mem_reservations r) (rsv_id (ac_reservation c)) = Some (ac_reservation c) \<and>
     (\<exists>g. store_find (genv_host env) (genv_store env) r (ac_grant c) = Some g \<and>
        grant_id g = rsv_grantId (ac_reservation c) \<and> grant_issuerId g = rsv_issuerId (ac_reservation c) \<and>
        tool_id (ac_tool c) \<in> set (grant_toolIds g))"

definition gateway_ok :: "memory_repository gateway_env \<Rightarrow> memory_repository tool_gateway \<Rightarrow> bool" where
  "gateway_ok env g \<longleftrightarrow> accounted (tg_grants g) \<and> plain_issuers (tg_grants g) \<and> gateway_chained env g \<and>
     (tg_killed g \<longrightarrow> (\<forall>(k, c) \<in> set (tg_active g). ac_abort c \<noteq> None)) \<and>
     distinct (map fst (tg_active g)) \<and>
     distinct (map (\<lambda>(k, c). rsv_id (ac_reservation c)) (tg_active g)) \<and>
     (\<forall>(k, c) \<in> set (tg_active g). k < tg_calls g \<and> call_ok env (tg_grants g) c)"

lemma later_terms: "later a b \<Longrightarrow> grant_id b = grant_id a \<and> grant_issuerId b = grant_issuerId a \<and>
    grant_toolIds b = grant_toolIds a"
proof -
  assume "later a b"
  then have "grant_terms a = grant_terms b" by (simp add: later_def)
  then have "grant_id (grant_terms a) = grant_id (grant_terms b)"
    "grant_issuerId (grant_terms a) = grant_issuerId (grant_terms b)"
    "grant_toolIds (grant_terms a) = grant_toolIds (grant_terms b)" by simp_all
  then show ?thesis by (simp add: grant_terms_def)
qed

lemma call_ok_step:
  assumes "grants_step env r r'" and "accounted r" and "gateway_configured env" and "call_ok env r c"
    and "map_of (mem_reservations r') (rsv_id (ac_reservation c)) =
      map_of (mem_reservations r) (rsv_id (ac_reservation c))"
  shows "call_ok env r' c"
proof -
  obtain g where g: "store_find (genv_host env) (genv_store env) r (ac_grant c) = Some g"
    "grant_id g = rsv_grantId (ac_reservation c)" "grant_issuerId g = rsv_issuerId (ac_reservation c)"
    "tool_id (ac_tool c) \<in> set (grant_toolIds g)"
    using assms(4) unfolding call_ok_def by blast
  obtain b where b: "store_find (genv_host env) (genv_store env) r' (ac_grant c) = Some b" "later g b"
    using grants_step_find [OF assms(1-3) g(1)] by blast
  then show ?thesis using assms(4,5) g(2-4) later_terms [OF b(2)] unfolding call_ok_def by simp
qed

lemma release_effect:
  assumes "gateway_configured env" and "accounted r" and "plain_issuers r" and "call_ok env r c"
  shows "\<exists>g r'. store_releaseCall (genv_host env) (genv_store env) r (ac_grant c) (ac_reservation c) now =
      Inr (g, r') \<and> grants_step env r r' \<and>
    map_of (mem_reservations r') = (map_of (mem_reservations r))(rsv_id (ac_reservation c) := None)"
proof -
  have repo: "store_repository (genv_store env) = memory_repo (host_parse (genv_host env))"
    using assms(1) by (simp add: gateway_configured_def)
  obtain g where g: "store_find (genv_host env) (genv_store env) r (ac_grant c) = Some g"
    "grant_id g = rsv_grantId (ac_reservation c)" "grant_issuerId g = rsv_issuerId (ac_reservation c)"
    and open_: "map_of (mem_reservations r) (rsv_id (ac_reservation c)) = Some (ac_reservation c)"
    using assms(4) by (auto simp: call_ok_def)
  note run = open_reservation_releases [OF assms(2) open_ repo g, of now, THEN conjunct1]
  note step = Store_release [where fresh = mem_fresh, OF repo run]
  show ?thesis by (intro exI conjI, rule run, rule step) (simp add: fun_eq_iff)
qed

lemma logs_ok: "logs_only env g h \<Longrightarrow> gateway_ok env g \<Longrightarrow> gateway_ok env h"
  by (simp add: logs_only_def gateway_ok_def)

lemma grants_step_ok:
  assumes "grants_step env r r'" and "accounted r" and "plain_issuers r" and "\<And>g. mem_issue r g \<noteq> Inr r'"
  shows "accounted r' \<and> plain_issuers r'"
proof -
  have "accounted r'" "changes (memory_repo (host_parse (genv_host env))) r r'"
    using memory.step_cases [OF assms(1,2)] assms(4) by auto
  then show ?thesis using changes_plain assms(3) by blast
qed

text \<open>An issued grant leaves every reservation as it was, so the calls above are no issues.\<close>

lemma no_issue: "map_of (mem_reservations r') i \<noteq> map_of (mem_reservations r) i \<Longrightarrow> mem_issue r g \<noteq> Inr r'"
  by (auto simp: mem_issue_Inr)

section \<open>Every step keeps the invariant\<close>

lemma start_keeps:
  assumes "gateway_start env grant toolId input options answer uuid g = (q, h)"
    and "mem_fresh uuid (tg_grants g)" and "gateway_configured env" and ok: "gateway_ok env g"
  shows "gateway_ok env h"
proof (cases q)
  case (Inl e)
  then show ?thesis using start_Inl assms(1) logs_ok ok by blast
next
  case (Inr k)
  with assms(1) have "gateway_start env grant toolId input options answer uuid g = (Inr k, h)" by simp
  then show ?thesis
  proof (rule start_Inr)
    fix rc inventory tool x r
    assume live: "\<not> tg_killed g" and auth: "store_authorize (genv_host env) (genv_store env) (tg_grants g) grant
        (gateway_now env g) = Inr (Some rc)"
      and adm: "admissible env rc inventory toolId input options (gateway_now env g) tool"
      and res: "store_reserveCall (genv_host env) (genv_store env) uuid (tg_grants g) grant
        (gateway_now env g) = Inr (x, r)"
      and h: "h = (tick g)\<lparr>tg_grants := r, tg_calls := tg_calls g + 1,
        tg_active := tg_active g @ [(tg_calls g, new_call grant tool x None)]\<rparr>"
    note eff = reserve_effect [OF assms(3,2) res]
    have acc: "accounted (tg_grants g)" "plain_issuers (tg_grants g)" using ok by (simp_all add: gateway_ok_def)
    have fresh: "map_of (mem_reservations (tg_grants g)) uuid = None"
      using assms(2) by (simp add: mem_fresh_def map_of_eq_None_iff)
    then have "map_of (mem_reservations r) uuid \<noteq> map_of (mem_reservations (tg_grants g)) uuid"
      using eff by simp
    then have r: "accounted r \<and> plain_issuers r"
      using grants_step_ok eff acc no_issue by blast
    have found: "store_find (genv_host env) (genv_store env) (tg_grants g) grant = Some rc"
      using authorize_find [OF auth] by simp
    have tool: "tool_readOnly tool" "tool_id tool \<in> set (grant_toolIds rc)"
      using adm by (auto simp: admissible_def find_Some_iff)
    obtain b where b: "store_find (genv_host env) (genv_store env) r grant = Some b" "later rc b"
      using grants_step_find [OF _ acc(1) assms(3) found] eff by blast
    have new: "call_ok env r (new_call grant tool x None)"
      using eff b later_terms [OF b(2)] found tool find_key [OF assms(3) acc found]
      unfolding call_ok_def new_call_def by auto
    have old: "call_ok env r c \<and> rsv_id (ac_reservation c) \<noteq> uuid \<and> k < tg_calls g"
      if "(k, c) \<in> set (tg_active g)" for k c
    proof -
      have c: "call_ok env (tg_grants g) c" "k < tg_calls g" using ok that by (auto simp: gateway_ok_def)
      then have "rsv_id (ac_reservation c) \<noteq> uuid" using fresh by (auto simp: call_ok_def)
      then show ?thesis using call_ok_step [OF _ acc(1) assms(3) c(1)] eff c(2) by auto
    qed
    show "gateway_ok env h"
      using ok r new old live eff unfolding h gateway_ok_def
      by (auto simp: gateway_chained_def new_call_def less_Suc_eq dest: old)
  qed
qed


text \<open>
  However a call ends, its reservation and no other is closed, by a commit or by a release, and
  the call is no longer active.
\<close>

definition closes :: "memory_repository gateway_env \<Rightarrow> nat \<Rightarrow> active_call \<Rightarrow> memory_repository tool_gateway \<Rightarrow>
    memory_repository tool_gateway \<Rightarrow> bool" where
  "closes env k c g h \<longleftrightarrow> grants_step env (tg_grants g) (tg_grants h) \<and>
     map_of (mem_reservations (tg_grants h)) =
       (map_of (mem_reservations (tg_grants g)))(rsv_id (ac_reservation c) := None) \<and>
     logs_only env g (h\<lparr>tg_grants := tg_grants g, tg_active := tg_active g\<rparr>) \<and>
     tg_active h = AList.delete k (tg_active g)"

lemma report_logs:
  assumes "gateway_report env f g = (q, h)"
  shows "logs_only env g h \<and> (\<exists>e. q = Inl e)"
  using assms by (auto simp: gateway_report_def split: gateway_failure.splits if_splits dest: deny_logs)

lemma closesI:
  assumes "grants_step env (tg_grants g) r"
    and "map_of (mem_reservations r) = (map_of (mem_reservations (tg_grants g)))
      (rsv_id (ac_reservation c) := None)"
    and "logs_only env g mid" and "logs_only env (mid\<lparr>tg_grants := r\<rparr>) h"
  shows "closes env k c g (h\<lparr>tg_active := AList.delete k (tg_active h)\<rparr>)"
  using assms unfolding closes_def logs_only_def
  by (auto simp: gateway_chained_def intro: prefix_order.trans)

lemma finish_cases:
  assumes "gateway_finish env k c outcome g = (q, h)" and "gateway_configured env"
    and ok: "gateway_ok env g" and "map_of (tg_active g) k = Some c"
  shows "closes env k c g h \<and> ((\<exists>e. q = Inl e) \<or>
    (\<exists>out rc. q = Inr out \<and> outcome = Delivered out \<and> releasable_output env c g out rc (tg_grants h) \<and>
      tg_audit h \<noteq> [] \<and> aud_code (last (tg_audit h)) = ''TOOL_CALLED''))"
proof -
  obtain t g1 where tr: "gateway_try env c outcome g = (t, g1)" by (cases "gateway_try env c outcome g")
  have acc: "accounted (tg_grants g)" "plain_issuers (tg_grants g)" and c: "call_ok env (tg_grants g) c"
    using ok map_of_SomeD [OF assms(4)] by (auto simp: gateway_ok_def)
  from tr show ?thesis
  proof (cases rule: try_cases)
    case (failed f)
    have same: "tg_grants g1 = tg_grants g" using failed(2) by (simp add: logs_only_def)
    obtain rec r where rel: "store_releaseCall (genv_host env) (genv_store env) (tg_grants g) (ac_grant c)
        (ac_reservation c) (gateway_now env g1) = Inr (rec, r)" "grants_step env (tg_grants g) r"
      "map_of (mem_reservations r) = (map_of (mem_reservations (tg_grants g)))
        (rsv_id (ac_reservation c) := None)"
      using release_effect [OF assms(2) acc c] by blast
    obtain q' h' where rep: "gateway_report env f ((tick g1)\<lparr>tg_grants := r\<rparr>) = (q', h')"
      by (cases "gateway_report env f ((tick g1)\<lparr>tg_grants := r\<rparr>)")
    have qh: "q = q'" "h = h'\<lparr>tg_active := AList.delete k (tg_active h')\<rparr>"
      using assms(1) tr failed(1) rel(1) rep same
      by (simp_all add: gateway_finish_def gateway_catch_def gateway_release_def Let_def)
    have "closes env k c g h"
      unfolding qh using rel(2,3) failed(2) report_logs [OF rep]
      by (intro closesI [where mid = "tick g1"]) (auto intro: logs_trans)
    then show ?thesis using report_logs [OF rep] qh by blast
  next
    case (committed out rc r)
    obtain n where com: "store_commitCall (genv_host env) (genv_store env) (tg_grants g) (ac_grant c)
        (ac_reservation c) n (gateway_now env g) = Inr (rc, r)"
      using committed(2) by (auto simp: releasable_output_def)
    note eff = commit_effect [OF assms(2) com]
    from committed(4) show ?thesis
    proof
      assume "\<exists>e. t = Inl (True, OtherFailure e)"
      then obtain e where t: "t = Inl (True, OtherFailure e)" by blast
      obtain q' h' where rep: "gateway_report env (OtherFailure e) g1 = (q', h')"
        by (cases "gateway_report env (OtherFailure e) g1")
      have qh: "q = q'" "h = h'\<lparr>tg_active := AList.delete k (tg_active h')\<rparr>"
        using assms(1) tr t rep by (simp_all add: gateway_finish_def gateway_catch_def)
      have "closes env k c g h"
        unfolding qh using eff report_logs [OF rep] committed(3)
        by (intro closesI [where mid = g]) (auto intro: logs_trans)
      then show ?thesis using report_logs [OF rep] qh by blast
    next
      assume t: "t = Inr out \<and> tg_audit g1 \<noteq> [] \<and> aud_code (last (tg_audit g1)) = ''TOOL_CALLED''"
      have qh: "q = Inr out" "h = g1\<lparr>tg_active := AList.delete k (tg_active g1)\<rparr>"
        using assms(1) tr t by (simp_all add: gateway_finish_def)
      have "closes env k c g h"
        unfolding qh using eff committed(3) by (intro closesI [where mid = g]) auto
      moreover have "tg_grants h = r" using committed(3) qh by (simp add: logs_only_def)
      ultimately show ?thesis using t committed(1,2) qh by auto
    qed
  qed
qed

lemma delete_active: "(j, d) \<in> set (AList.delete k xs) \<Longrightarrow> (j, d) \<in> set xs \<and> j \<noteq> k"
  by (auto simp: AList.delete_eq)

lemma distinct_map_filter_inj: "distinct (map f xs) \<Longrightarrow> x \<in> set xs \<Longrightarrow> y \<in> set xs \<Longrightarrow> f x = f y \<Longrightarrow> x = y"
  by (auto simp: distinct_map inj_on_def)

lemma finish_keeps:
  assumes "gateway_finish env k c outcome g = (q, h)" and "gateway_configured env"
    and ok: "gateway_ok env g" and "map_of (tg_active g) k = Some c"
  shows "gateway_ok env h"
proof -
  have cl: "closes env k c g h" using finish_cases [OF assms] by blast
  have acc: "accounted (tg_grants g)" "plain_issuers (tg_grants g)" using ok by (simp_all add: gateway_ok_def)
  have kc: "(k, c) \<in> set (tg_active g)" using assms(4) by (rule map_of_SomeD)
  then have "map_of (mem_reservations (tg_grants g)) (rsv_id (ac_reservation c)) \<noteq> None"
    using ok by (auto simp: gateway_ok_def call_ok_def)
  then have r: "accounted (tg_grants h) \<and> plain_issuers (tg_grants h)"
    using cl acc no_issue [of "tg_grants h" "rsv_id (ac_reservation c)" "tg_grants g"]
    by (intro grants_step_ok) (auto simp: closes_def)
  have old: "call_ok env (tg_grants h) d \<and> j < tg_calls g"
    if "(j, d) \<in> set (tg_active g)" "j \<noteq> k" for j d
  proof -
    have d: "call_ok env (tg_grants g) d" "j < tg_calls g" using ok that by (auto simp: gateway_ok_def)
    have "rsv_id (ac_reservation d) \<noteq> rsv_id (ac_reservation c)"
      using ok distinct_map_filter_inj [of "\<lambda>(k, c). rsv_id (ac_reservation c)" "tg_active g" "(j, d)" "(k, c)"]
        that kc by (auto simp: gateway_ok_def)
    then show ?thesis using call_ok_step [OF _ acc(1) assms(2) d(1)] cl d(2) by (simp add: closes_def)
  qed
  have "distinct (map fst (AList.delete k (tg_active g)))"
    "distinct (map (\<lambda>(k, c). rsv_id (ac_reservation c)) (AList.delete k (tg_active g)))"
    using ok by (auto simp: gateway_ok_def AList.delete_eq distinct_map_filter)
  then show ?thesis
    using ok r cl old unfolding gateway_ok_def closes_def logs_only_def
    by (auto simp: gateway_chained_def dest!: delete_active)
qed


lemma abort_call_simps [simp]:
  "ac_grant (abort_call reason c) = ac_grant c" "ac_tool (abort_call reason c) = ac_tool c"
  "ac_reservation (abort_call reason c) = ac_reservation c" "ac_abort (abort_call reason c) \<noteq> None"
  "\<exists>r. ac_abort (abort_call reason c) = Some r"
  "ac_abort c = Some r \<Longrightarrow> ac_abort (abort_call reason c) = Some r"
  by (auto simp: abort_call_def)

lemma call_ok_abort [simp]: "call_ok env r (abort_call reason c) = call_ok env r c"
  by (simp add: call_ok_def)

lemma map_pairs:
  "map fst (map (\<lambda>(k, c). (k, F k c)) xs) = map fst xs"
  "(\<And>k c. rsv_id (ac_reservation (F k c)) = rsv_id (ac_reservation c)) \<Longrightarrow>
    map (\<lambda>(k, c). rsv_id (ac_reservation c)) (map (\<lambda>(k, c). (k, F k c)) xs) =
    map (\<lambda>(k, c). rsv_id (ac_reservation c)) xs"
  by (induction xs) auto

lemma kill_keeps: "gateway_ok env g \<Longrightarrow> gateway_ok env (kill g)"
  using map_pairs [of "\<lambda>_. abort_call KillSwitch" "tg_active g"]
  by (auto simp: gateway_ok_def kill_def gateway_chained_def simp del: map_map)

lemma abort_keeps: "gateway_ok env g \<Longrightarrow> gateway_ok env (gateway_abort k reason g)"
  using map_pairs [of "\<lambda>j c. if j = k then abort_call reason c else c" "tg_active g"]
  by (auto simp: gateway_ok_def gateway_abort_def gateway_chained_def simp del: map_map split: if_splits)

lemma other_keeps:
  assumes "grants_step env (tg_grants g) r" and "keeps_reservations g r" and "plain_issuers r"
    and "gateway_configured env" and ok: "gateway_ok env g"
  shows "gateway_ok env (g\<lparr>tg_grants := r\<rparr>)"
proof -
  have acc: "accounted (tg_grants g)" using ok by (simp add: gateway_ok_def)
  have "call_ok env r c" if "(k, c) \<in> set (tg_active g)" for k c
  proof (rule call_ok_step [OF assms(1) acc assms(4)])
    show "call_ok env (tg_grants g) c" using ok that by (auto simp: gateway_ok_def)
    show "map_of (mem_reservations r) (rsv_id (ac_reservation c)) =
      map_of (mem_reservations (tg_grants g)) (rsv_id (ac_reservation c))"
      using assms(2) that by (auto simp: keeps_reservations_def)
  qed
  then show ?thesis using ok assms(3) memory.step_ok [OF assms(1) acc]
    by (auto simp: gateway_ok_def gateway_chained_def)
qed

lemma gateway_step_keeps:
  "gateway_step env g h \<Longrightarrow> gateway_configured env \<Longrightarrow> gateway_ok env g \<Longrightarrow> gateway_ok env h"
  by (induction rule: gateway_step.induct)
    (auto intro: start_keeps finish_keeps kill_keeps abort_keeps other_keeps)

abbreviation gateway_run :: "memory_repository gateway_env \<Rightarrow> memory_repository tool_gateway \<Rightarrow>
    memory_repository tool_gateway \<Rightarrow> bool" where
  "gateway_run env \<equiv> (gateway_step env)\<^sup>*\<^sup>*"

text \<open>The states a fresh gateway can reach over a grant repository in use.\<close>

definition gateway_reachable :: "memory_repository gateway_env \<Rightarrow> memory_repository tool_gateway \<Rightarrow> bool" where
  "gateway_reachable env g \<longleftrightarrow> gateway_configured env \<and>
     (\<exists>r. grant_run (genv_host env) empty_repository r \<and> plain_issuers r \<and> gateway_run env (new_gateway r) g)"

lemma gateway_run_ok: "gateway_run env g h \<Longrightarrow> gateway_configured env \<Longrightarrow> gateway_ok env g \<Longrightarrow> gateway_ok env h"
  by (induction rule: rtranclp_induct) (auto intro: gateway_step_keeps)

lemma reachable_ok: "gateway_reachable env g \<Longrightarrow> gateway_ok env g"
  using gateway_run_ok run_accounted
  by (fastforce simp: gateway_reachable_def gateway_ok_def new_gateway_def gateway_chained_def)

lemma killed_step: "gateway_step env g h \<Longrightarrow> gateway_configured env \<Longrightarrow> gateway_ok env g \<Longrightarrow>
    tg_killed g \<Longrightarrow> tg_killed h"
proof (induction rule: gateway_step.induct)
  case (Gateway_start uuid g grant toolId input options answer result g')
  then show ?case by (cases result) (auto dest!: start_Inl elim: start_Inr simp: logs_only_def)
next
  case (Gateway_finish g k c outcome result g')
  then show ?case using finish_cases [of env k c outcome g result g'] by (simp add: closes_def logs_only_def)
qed (simp_all add: kill_def gateway_abort_def)

lemma killed_run: "gateway_run env g h \<Longrightarrow> gateway_configured env \<Longrightarrow> gateway_ok env g \<Longrightarrow>
    tg_killed g \<Longrightarrow> tg_killed h"
  by (induction rule: rtranclp_induct) (auto intro: killed_step gateway_run_ok)

section \<open>Properties\<close>

text \<open>
  C14: In every reachable state of a gateway each call in flight runs a read-only tool its grant
  names and holds an open reservation of its own; the audit log is an unbroken hash chain; and once
  the gateway was killed every call in flight has been told to abort.
\<close>

theorem gateway_invariant:
  assumes "gateway_reachable env g"
  shows "chained (host_sha (genv_host env)) 1 None (tg_audit g) \<and>
    (\<forall>(k, c) \<in> set (tg_active g). tool_readOnly (ac_tool c) \<and>
      map_of (mem_reservations (tg_grants g)) (rsv_id (ac_reservation c)) = Some (ac_reservation c) \<and>
      (\<exists>rec. store_find (genv_host env) (genv_store env) (tg_grants g) (ac_grant c) = Some rec \<and>
        grant_id rec = rsv_grantId (ac_reservation c) \<and> tool_id (ac_tool c) \<in> set (grant_toolIds rec)) \<and>
      (tg_killed g \<longrightarrow> ac_abort c \<noteq> None)) \<and>
    distinct (map (\<lambda>(k, c). rsv_id (ac_reservation c)) (tg_active g))"
  using reachable_ok [OF assms] by (auto simp: gateway_ok_def call_ok_def gateway_chained_def)

text \<open>
  C13: Before the provider is called, a call has been checked: the gateway is not killed, the caller
  has not aborted, the grant is authorized, the provider's inventory is valid and is the one the grant
  was issued for, the tool is in it, read-only and named by the grant, project content is only exposed
  with a consent, the input satisfies the tool's schema, and one call is reserved from the quota.
  A call that does not start changes no grant and leaves no call behind.
\<close>

theorem gateway_call_admitted:
  assumes "gateway_start env grant toolId input options answer uuid g = (q, h)"
  shows "case q of
      Inl e \<Rightarrow> tg_grants h = tg_grants g \<and> tg_active h = tg_active g \<and> prefix (tg_audit g) (tg_audit h)
    | Inr k \<Rightarrow> \<not> tg_killed g \<and> \<not> gco_signalAborted options \<and> tg_audit h = tg_audit g \<and>
        (\<exists>rec inventory tool x.
          store_authorize (genv_host env) (genv_store env) (tg_grants g) grant (gateway_now env g) =
            Inr (Some rec) \<and>
          answer = Inr inventory \<and>
          admissible env rec inventory toolId input options (gateway_now env g) tool \<and>
          store_reserveCall (genv_host env) (genv_store env) uuid (tg_grants g) grant (gateway_now env g) =
            Inr (x, tg_grants h) \<and>
          tg_active h = tg_active g @ [(k, new_call grant tool x None)])"
proof (cases q)
  case (Inl e)
  then show ?thesis using start_Inl assms by (fastforce simp: logs_only_def)
next
  case (Inr k)
  with assms have "gateway_start env grant toolId input options answer uuid g = (Inr k, h)" by simp
  then show ?thesis by (rule start_Inr) (simp add: Inr, blast)
qed

text \<open>
  C11: However a call in flight ends -- with output, a failing provider, an abort, a timeout, a kill
  switch, a grant revoked meanwhile, a failing schema, quota or audit log -- it ends at once, its own
  reservation is closed, every other reservation is untouched, it is no longer active, and
  the log only grows. No call leaks quota.
\<close>

theorem gateway_call_ends:
  assumes "gateway_reachable env g" and "map_of (tg_active g) k = Some c"
    and "gateway_finish env k c outcome g = (q, h)"
  shows "map_of (mem_reservations (tg_grants h)) =
      (map_of (mem_reservations (tg_grants g)))(rsv_id (ac_reservation c) := None) \<and>
    map_of (tg_active h) = (map_of (tg_active g))(k := None) \<and> prefix (tg_audit g) (tg_audit h) \<and>
    accounted (tg_grants h)"
proof -
  have conf: "gateway_configured env" using assms(1) by (simp add: gateway_reachable_def)
  note ok = reachable_ok [OF assms(1)]
  show ?thesis
    using finish_cases [OF assms(3) conf ok assms(2)] finish_keeps [OF assms(3) conf ok assms(2)]
    by (auto simp: closes_def logs_only_def gateway_ok_def delete_conv)
qed

text \<open>
  C10: Output leaves the gateway only under a live authorization: the provider delivered it, the
  gateway was not killed and the call not aborted, the grant still authorizes the call at its end,
  the output satisfies the tool's schema, the UTF-8 bytes of its canonical text are within the
  reservation and were charged to the grant together with one call, and the log ends with \<open>TOOL_CALLED\<close>.
\<close>

theorem gateway_output_released:
  assumes "gateway_reachable env g" and "map_of (tg_active g) k = Some c"
    and "gateway_finish env k c outcome g = (Inr out, h)"
  shows "outcome = Delivered out \<and> \<not> tg_killed g \<and> ac_abort c = None \<and> tool_readOnly (ac_tool c) \<and>
    (\<exists>live. store_authorize (genv_host env) (genv_store env) (tg_grants g) (ac_grant c)
      (gateway_now env g) = Inr (Some live)) \<and>
    (\<exists>schema. tool_schema (tool_outputSchema (ac_tool c)) = Inr schema \<and>
      validateJsonSchema (genv_compile env) schema out = SchemaOk) \<and>
    (\<exists>body rec. canonicalJson out = Inr body \<and>
      length (utf8_encode body) \<le> nat (rsv_maxResponseBytes (ac_reservation c)) \<and>
      map_of (mem_records (tg_grants g)) (reservation_key (ac_reservation c)) = Some rec \<and>
      map_of (mem_records (tg_grants h)) (reservation_key (ac_reservation c)) =
        Some (commit (int (length (utf8_encode body))) (rsv_maxResponseBytes (ac_reservation c)) rec)) \<and>
    aud_code (last (tg_audit h)) = ''TOOL_CALLED''"
proof -
  have conf: "gateway_configured env" using assms(1) by (simp add: gateway_reachable_def)
  note ok = reachable_ok [OF assms(1)]
  have ro: "tool_readOnly (ac_tool c)"
    using ok map_of_SomeD [OF assms(2)] by (auto simp: gateway_ok_def call_ok_def)
  obtain rc where out: "outcome = Delivered out" "releasable_output env c g out rc (tg_grants h)"
    "aud_code (last (tg_audit h)) = ''TOOL_CALLED''"
    using finish_cases [OF assms(3) conf ok assms(2)] by auto
  then obtain body where com: "canonicalJson out = Inr body"
    "store_commitCall (genv_host env) (genv_store env) (tg_grants g) (ac_grant c) (ac_reservation c)
      (int (length (utf8_encode body))) (gateway_now env g) = Inr (rc, tg_grants h)"
    by (auto simp: releasable_output_def)
  show ?thesis
    using out com(1) ro commit_effect [OF conf com(2)] by (auto simp: releasable_output_def)
qed

text \<open>
  C12: The kill switch is final. In every state reached from a killed gateway no call can start or
  change a grant by trying, and no call still in flight returns anything but an error, whatever its
  provider delivers.
\<close>

theorem killed_gateway_silent:
  assumes "gateway_reachable env g" and "gateway_run env (kill g) h"
  shows "(\<forall>grant toolId input options answer uuid. \<exists>e g'.
      gateway_start env grant toolId input options answer uuid h = (Inl e, g') \<and> tg_grants g' = tg_grants h) \<and>
    (\<forall>k c outcome. map_of (tg_active h) k = Some c \<longrightarrow>
      (\<exists>e g'. gateway_finish env k c outcome h = (Inl e, g')))"
proof -
  have conf: "gateway_configured env" using assms(1) by (simp add: gateway_reachable_def)
  have k: "gateway_ok env (kill g)" using reachable_ok [OF assms(1)] by (rule kill_keeps)
  have ok: "gateway_ok env h" using gateway_run_ok [OF assms(2) conf k] .
  have dead: "tg_killed h" using killed_run [OF assms(2) conf k] by (simp add: kill_def)
  have "\<exists>e g'. gateway_start env grant toolId input options answer uuid h = (Inl e, g') \<and>
      tg_grants g' = tg_grants h" for grant toolId input options answer uuid
  proof (cases "gateway_start env grant toolId input options answer uuid h")
    case (Pair q g')
    then show ?thesis
      using dead start_Inl [of env grant toolId input options answer uuid h]
      by (cases q) (auto elim: start_Inr simp: logs_only_def)
  qed
  moreover have "\<exists>e g'. gateway_finish env k c outcome h = (Inl e, g')"
    if "map_of (tg_active h) k = Some c" for k c outcome
  proof (cases "gateway_finish env k c outcome h")
    case (Pair q g')
    then show ?thesis using finish_cases [OF Pair conf ok that] dead by (auto simp: releasable_output_def)
  qed
  ultimately show ?thesis by blast
qed


section \<open>A concrete run\<close>

definition sample_gateway :: "memory_repository gateway_env" where
  "sample_gateway = \<lparr>genv_host = sample_host, genv_store = sample_store, genv_consents = [],
     genv_clock = (\<lambda>_. ''tt''), genv_compile = (\<lambda>_. Some (\<lambda>_. True))\<rparr>"

definition sample_options :: gateway_call_options where
  "sample_options = \<lparr>gco_projectSnapshot = '''', gco_policySnapshot = '''', gco_signalAborted = False,
     gco_deadline = None\<rparr>"

definition sample_call :: active_call where
  "sample_call = new_call (Some sample_handle) (sample_tool ''t'' True) sample_reservation None"

definition sample_started :: "memory_repository tool_gateway" where
  "sample_started = \<lparr>tg_killed = False, tg_active = [(0, sample_call)], tg_audit = [],
     tg_grants = sample_reserved, tg_ticks = 1, tg_calls = 1\<rparr>"

lemma sample_gateway_simps [simp]:
  "genv_host sample_gateway = sample_host" "genv_store sample_gateway = sample_store"
  "gateway_now sample_gateway g = ''tt''" "genv_compile sample_gateway = (\<lambda>_. Some (\<lambda>_. True))"
  by (simp_all add: sample_gateway_def gateway_now_def)

lemma sample_schemas:
  "tool_readOnly (sample_tool i ro) = ro" "\<not> tool_exposesProjectContent (sample_tool i ro)"
  "tool_schema (tool_inputSchema (sample_tool i ro)) = Inr (JBool True)"
  "tool_schema (tool_outputSchema (sample_tool i ro)) = Inr (JBool True)"
  "validateJsonSchema (\<lambda>_. Some (\<lambda>_. True)) (JBool True) JNull = SchemaOk"
  by (simp_all add: sample_tool_def tool_schema_def validateJsonSchema_def)

lemma sample_authorized:
  "store_authorize sample_host sample_store sample_issued (Some sample_handle) ''tt'' =
    Inr (Some sample_grant)"
  by (simp add: store_authorize_def sample_find)
    (simp add: sample_grant_def new_record_def sample_request_def sample_time)

lemma sample_start:
  "gateway_start sample_gateway (Some sample_handle) ''t'' JNull sample_options (Inr sample_inventory) ''c''
    (new_gateway sample_issued) = (Inr 0, sample_started)"
proof -
  have matches: "inventory_matches sample_gateway sample_grant sample_inventory = Inr True"
    using sample_inventory_digest
    by (simp add: inventory_matches_def)
      (simp add: sample_grant_def new_record_def sample_request_def sample_inventory_def)
  have find: "find (\<lambda>candidate. tool_id candidate = ''t'') (inv_tools sample_inventory) =
      Some (sample_tool ''t'' True)" by (simp add: sample_inventory_def sample_tool_def)
  have named: "''t'' \<in> set (grant_toolIds sample_grant)" by (simp add: sample_grant_def new_record_def)
  have "admit_tool sample_gateway sample_grant (Inr sample_inventory) ''t'' JNull sample_options ''tt'' g =
      (Inr (sample_tool ''t'' True), g)" for g
    using sample_inventory_valid matches named
    by (simp add: admit_tool_def proceed_check find sample_schemas)
  then show ?thesis
    using sample_authorized sample_reserve
    by (simp add: gateway_start_def check_interrupted_def sample_options_def proceed_check new_gateway_def
        tick_def due_at_once_def sample_started_def sample_call_def new_call_def)
qed

lemma sample_configured: "gateway_configured sample_gateway"
  by (simp add: gateway_configured_def)

lemma sample_initial: "gateway_reachable sample_gateway (new_gateway sample_issued)"
proof -
  have "grant_issuerId sample_grant = ''i''" by (simp add: sample_grant_def new_record_def)
  then have "plain_issuers sample_issued"
    by (auto simp: plain_issuers_def sample_issued_def empty_repository_def split: if_splits)
  then show ?thesis using sample_configured sample_run(1) unfolding gateway_reachable_def
    by (intro conjI exI [of _ sample_issued]) simp_all
qed

lemma reachable_step: "gateway_reachable env g \<Longrightarrow> gateway_step env g h \<Longrightarrow> gateway_reachable env h"
  unfolding gateway_reachable_def by (blast intro: rtranclp.rtrancl_into_rtrancl)

lemma sample_started_reachable: "gateway_reachable sample_gateway sample_started"
proof (rule reachable_step [OF sample_initial])
  have "mem_fresh ''c'' (tg_grants (new_gateway sample_issued))"
    by (simp add: mem_fresh_def new_gateway_def sample_issued_def empty_repository_def)
  then show "gateway_step sample_gateway (new_gateway sample_issued) sample_started"
    using sample_start by (rule Gateway_start)
qed

lemma sample_active_call: "map_of (tg_active sample_started) 0 = Some sample_call"
  by (simp add: sample_started_def)

lemma sample_finish:
  "\<exists>h. gateway_finish sample_gateway 0 sample_call (Delivered JNull) sample_started = (Inr JNull, h)"
proof -
  have "active length_clock (reserve sample_grant) ''tt'' = Inr ()"
    by (simp add: active_def reserve_def clone_def sample_grant_def new_record_def sample_request_def
        sample_time)
  then obtain g r where com: "store_commitCall sample_host sample_store sample_reserved (Some sample_handle)
      sample_reservation 4 ''tt'' = Inr (g, r)"
    using commit_charges_reservation [OF rtranclp_trans [OF sample_run] _ sample_active,
        of sample_reservation "reserve sample_grant" 4] sample_reserved_read
    by (auto simp: sample_reservation_def sample_reserved_def isSafeInteger_def split: sum.splits)
  have auth: "store_authorize sample_host sample_store sample_reserved (Some sample_handle) ''tt'' =
      Inr (Some (reserve sample_grant))"
    using sample_active by (auto simp: store_authorized_def chain_eq_Inr split: option.splits)
  have event: "\<exists>h. gateway_event sample_gateway ''TOOL_CALLED'' ((tick sample_started)\<lparr>tg_grants := r\<rparr>) = (Inr (), h)"
    by (simp add: gateway_event_def audit_append_def sample_started_def tick_def audit_text_def blank_Cons
        js_white_def audit_occurredAt_def length_clock_def auditEventDigest_def audit_sequence_def
        isSafeInteger_def maybeDigest_def Let_def digestJson_finite)
  have "canonicalJson JNull = Inr ''null''" by (simp add: canonicalJson_def)
  moreover have "length (utf8_encode ''null'') = 4" by code_simp
  ultimately have "\<exists>h. settle_call sample_gateway sample_call JNull ''tt'' (tick sample_started) = (Inr JNull, h)"
    using com event by (auto simp: settle_call_def sample_call_def new_call_def) (simp add: sample_started_def)
  moreover have "ac_abort sample_call = None" "ac_tool sample_call = sample_tool ''t'' True"
    "ac_grant sample_call = Some sample_handle" "\<not> tg_killed sample_started"
    "tg_grants sample_started = sample_reserved"
    by (simp_all add: sample_call_def new_call_def sample_started_def)
  ultimately show ?thesis
    using auth by (auto simp: gateway_finish_def gateway_try_def deliver_output_def sample_schemas Let_def)
qed

lemma gateway_invariant_witness:
  "tool_readOnly (ac_tool sample_call) \<and>
    map_of (mem_reservations sample_reserved) ''c'' = Some sample_reservation"
  using gateway_invariant [OF sample_started_reachable]
  by (simp add: sample_started_def) (simp add: sample_call_def new_call_def sample_reservation_def)

lemma gateway_call_admitted_witness:
  "admissible sample_gateway sample_grant sample_inventory ''t'' JNull sample_options ''tt''
    (sample_tool ''t'' True)"
  using gateway_call_admitted [OF sample_start] sample_authorized
  by (auto simp: new_gateway_def sample_started_def sample_call_def new_call_def)

lemma gateway_call_ends_witness:
  "\<exists>q h. gateway_finish sample_gateway 0 sample_call (ProviderThrew (TypeError ''x'')) sample_started = (q, h) \<and>
    map_of (mem_reservations (tg_grants h)) ''c'' = None \<and> map_of (tg_active h) 0 = None"
proof -
  obtain q h where run: "gateway_finish sample_gateway 0 sample_call (ProviderThrew (TypeError ''x''))
      sample_started = (q, h)" by fastforce
  show ?thesis
    using run gateway_call_ends [OF sample_started_reachable sample_active_call run]
    by (auto simp: sample_call_def new_call_def sample_reservation_def)
qed

lemma gateway_output_released_witness:
  "\<exists>h. gateway_finish sample_gateway 0 sample_call (Delivered JNull) sample_started = (Inr JNull, h) \<and>
    aud_code (last (tg_audit h)) = ''TOOL_CALLED''"
proof -
  obtain h where run: "gateway_finish sample_gateway 0 sample_call (Delivered JNull) sample_started =
      (Inr JNull, h)" using sample_finish by blast
  show ?thesis
    using run gateway_output_released [OF sample_started_reachable sample_active_call run] by blast
qed

lemma killed_gateway_silent_witness:
  "\<exists>e g. gateway_finish sample_gateway 0 (abort_call KillSwitch sample_call) (Delivered JNull)
    (kill sample_started) = (Inl e, g)"
proof -
  have "map_of (tg_active (kill sample_started)) 0 = Some (abort_call KillSwitch sample_call)"
    by (simp add: kill_def sample_started_def)
  then show ?thesis
    using killed_gateway_silent [OF sample_started_reachable rtranclp.rtrancl_refl] by blast
qed

end
