(* ===== verification/Connector_Semantics.thy ===== *)
theory Connector_Semantics
  imports Catalog_Types Plan_Json
begin

text \<open>
  \<open>packages/contracts/src/validation/semantic.ts\<close>: what a connector manifest must satisfy beyond
  its schema. The schema check itself is an argument, as in \<open>Plan_Json\<close>.
\<close>

section \<open>Issues\<close>

definition semantic_issue :: "string \<Rightarrow> string \<Rightarrow> string \<Rightarrow> contract_issue" where
  "semantic_issue path keyword message = \<lparr>issue_instancePath = path, issue_schemaPath = ''#/semantic'',
     issue_keyword = keyword, issue_message = message, issue_params = []\<rparr>"

definition issue_if :: "bool \<Rightarrow> string \<Rightarrow> string \<Rightarrow> string \<Rightarrow> contract_issue list" where
  "issue_if c path keyword message = (if c then [semantic_issue path keyword message] else [])"

lemma issue_if_Nil [simp]: "issue_if c path keyword message = [] \<longleftrightarrow> \<not> c"
  by (simp add: issue_if_def)

definition quoted :: "string \<Rightarrow> string" where
  "quoted s = CHR 0x22 # s @ [CHR 0x22]"

section \<open>The checks\<close>

text \<open>\<open>/(?:define during implementation|todo|tbd|unknown version|replace[- ]?me)/i\<close>.\<close>

definition placeholder_version :: "string \<Rightarrow> bool" where
  "placeholder_version s \<longleftrightarrow> list_ex (contains_ci s) [''define during implementation'', ''todo'', ''tbd'',
     ''unknown version'', ''replaceme'', ''replace-me'', ''replace me'']"

definition hasRemoteExposure :: "integration_artifact \<Rightarrow> bool" where
  "hasRemoteExposure integration =
     startsWith (data_exposure_name (integration_dataExposure integration)) ''remote-''"

definition ownershipProperties :: "ownership_claim \<Rightarrow> string list option" where
  "ownershipProperties claim = (case own_properties claim of
     None \<Rightarrow> None | Some [] \<Rightarrow> None | Some properties \<Rightarrow> Some (js_set properties))"

definition ownershipClaimsOverlap :: "ownership_claim \<Rightarrow> ownership_claim \<Rightarrow> bool" where
  "ownershipClaimsOverlap a b =
     (if \<not> own_exclusive a \<or> \<not> own_exclusive b \<or> own_domain a \<noteq> own_domain b \<or> own_scope a \<noteq> own_scope b
      then False
      else case (ownershipProperties a, ownershipProperties b) of
        (Some aProperties, Some bProperties) \<Rightarrow>
          list_ex (\<lambda>property. property \<in> set bProperties) aProperties
      | _ \<Rightarrow> True)"

record connector_semantic_options =
  cso_expectedPublisher :: "string option"
  cso_capabilityCatalog :: "capability_catalog option"

definition connector_issues :: "connector_semantic_options \<Rightarrow> connector_manifest \<Rightarrow> contract_issue list" where
  "connector_issues options manifest =
     (let connector = manifest_connector manifest in
      (case cso_expectedPublisher options of None \<Rightarrow> []
       | Some expected \<Rightarrow> issue_if (conn_publisher connector \<noteq> expected) ''/connector/publisher'' ''publisher''
           (''Connector publisher must be '' @ quoted expected @ '' in this catalog.'')) @
      (if conn_selectable connector
       then issue_if (conn_reviewStatus connector \<notin> {RApproved, RStable}) ''/connector/reviewStatus''
              ''selectable-status'' ''Selectable connectors must be approved or stable.'' @
            issue_if (conn_blockers connector \<noteq> []) ''/connector/blockers'' ''selectable-blockers''
              ''Selectable connectors cannot have unresolved blockers.''
       else []))"

definition claim_issues :: "connector_semantic_options \<Rightarrow> nat \<times> capability_claim \<Rightarrow> contract_issue list" where
  "claim_issues options = (\<lambda>(index, claim).
     case cso_capabilityCatalog options of None \<Rightarrow> []
     | Some catalog \<Rightarrow> issue_if (claim_capability claim \<notin> set (js_set (map capability_id (catalog_capabilities catalog))))
         (''/capabilityClaims/'' @ nat_str index @ ''/capability'') ''unknown-capability''
         (''Capability '' @ quoted (claim_capability claim) @ '' is not present in the capability catalog.''))"

definition unresolved_license :: "integration_artifact \<Rightarrow> bool" where
  "unresolved_license integration \<longleftrightarrow> integration_licenseExpression integration = None \<or>
     integration_licenseExpression integration = Some ''NOASSERTION''"

definition integration_issues :: "bool \<Rightarrow> nat \<times> integration_artifact \<Rightarrow> contract_issue list" where
  "integration_issues selectable = (\<lambda>(index, integration).
     let base = ''/integrations/'' @ nat_str index; version = integration_version integration;
         authorization = integration_authorization integration in
     issue_if (version_status version = VResolved \<and>
         (case version_value version of None \<Rightarrow> False | Some v \<Rightarrow> placeholder_version v))
       (base @ ''/version/value'') ''version-placeholder''
       ''Resolved versions cannot contain planning placeholders.'' @
     issue_if (auth_required authorization \<and> auth_method authorization = NoAuth)
       (base @ ''/authorization/method'') ''authorization-method''
       ''An integration requiring authorization must declare an authorization method.'' @
     issue_if (integration_kind integration = McpServer \<and> hasRemoteExposure integration \<and>
         perm_network (integration_permissions integration) = [])
       (base @ ''/permissions/network'') ''remote-network-scope''
       ''Remote MCP integrations must declare at least one network destination.'' @
     issue_if (selectable \<and> integration_status integration = Available \<and> version_status version = VUnresolved)
       (base @ ''/version/status'') ''selectable-version''
       ''Selectable connectors cannot depend on an available integration with an unresolved version.'' @
     issue_if (selectable \<and> integration_kind integration \<in> {RuntimePackage, AgentSkill, McpServer} \<and>
         unresolved_license integration)
       (base @ ''/licenseExpression'') ''selectable-license''
       ''Selectable connectors require resolved license metadata for executable or installable artifacts.'')"

definition ownership_issues :: "ownership_claim list \<Rightarrow> contract_issue list" where
  "ownership_issues claims =
     concat (map (\<lambda>left. concat (map (\<lambda>right.
       issue_if (ownershipClaimsOverlap (claims ! left) (claims ! right))
         (''/ownershipClaims/'' @ nat_str right) ''ownership-conflict''
         (''Exclusive ownership overlaps with ownershipClaims/'' @ nat_str left @ ''.''))
       [left + 1 ..< length claims])) [0 ..< length claims])"

definition validateConnectorSemantics :: "connector_manifest \<Rightarrow> connector_semantic_options \<Rightarrow> contract_issue list" where
  "validateConnectorSemantics manifest options =
     connector_issues options manifest @
     concat (map (claim_issues options) (enumerate 0 (manifest_capabilityClaims manifest))) @
     concat (map (integration_issues (conn_selectable (manifest_connector manifest)))
       (enumerate 0 (manifest_integrations manifest))) @
     ownership_issues (manifest_ownershipClaims manifest)"

text \<open>\<open>validateConnectorManifest\<close> and \<open>validateCapabilityCatalog\<close> of \<open>validator.ts\<close>.\<close>

definition validateConnectorManifest :: "connector_manifest contract \<Rightarrow> json \<Rightarrow> connector_semantic_options \<Rightarrow>
    contract_issue list + connector_manifest" where
  "validateConnectorManifest schema value options = (case schema value of
     Inl issues \<Rightarrow> Inl issues
   | Inr manifest \<Rightarrow> let issues = validateConnectorSemantics manifest options in
       if issues = [] then Inr manifest else Inl issues)"

definition validateCapabilityCatalog :: "capability_catalog contract \<Rightarrow> json \<Rightarrow>
    contract_issue list + capability_catalog" where
  "validateCapabilityCatalog schema value = schema value"

section \<open>What a manifest without issues satisfies\<close>

text \<open>Two claims to write the same thing: a claim without properties is one to all of them.\<close>

definition owned_properties :: "ownership_claim \<Rightarrow> string set" where
  "owned_properties claim = (case own_properties claim of
     None \<Rightarrow> UNIV | Some [] \<Rightarrow> UNIV | Some properties \<Rightarrow> set properties)"

definition exclusive_clash :: "ownership_claim \<Rightarrow> ownership_claim \<Rightarrow> bool" where
  "exclusive_clash a b \<longleftrightarrow> own_exclusive a \<and> own_exclusive b \<and> own_domain a = own_domain b \<and>
     own_scope a = own_scope b \<and> owned_properties a \<inter> owned_properties b \<noteq> {}"

lemma overlap_clash: "ownershipClaimsOverlap a b \<longleftrightarrow> exclusive_clash a b"
  by (auto simp: ownershipClaimsOverlap_def exclusive_clash_def ownershipProperties_def
      owned_properties_def list_ex_iff split: option.splits list.splits)

definition integration_valid :: "bool \<Rightarrow> integration_artifact \<Rightarrow> bool" where
  "integration_valid selectable integration \<longleftrightarrow>
     (\<forall>v. version_status (integration_version integration) = VResolved \<and>
        version_value (integration_version integration) = Some v \<longrightarrow> \<not> placeholder_version v) \<and>
     (auth_required (integration_authorization integration) \<longrightarrow>
        auth_method (integration_authorization integration) \<noteq> NoAuth) \<and>
     (integration_kind integration = McpServer \<and> integration_dataExposure integration \<notin> {LocalOnly, NoExposure} \<longrightarrow>
        perm_network (integration_permissions integration) \<noteq> []) \<and>
     (selectable \<longrightarrow>
        (integration_status integration = Available \<longrightarrow>
          version_status (integration_version integration) \<noteq> VUnresolved) \<and>
        (integration_kind integration \<in> {RuntimePackage, AgentSkill, McpServer} \<longrightarrow>
          \<not> unresolved_license integration))"

definition semantically_valid :: "connector_semantic_options \<Rightarrow> connector_manifest \<Rightarrow> bool" where
  "semantically_valid options manifest \<longleftrightarrow>
     (\<forall>expected. cso_expectedPublisher options = Some expected \<longrightarrow>
        conn_publisher (manifest_connector manifest) = expected) \<and>
     (conn_selectable (manifest_connector manifest) \<longrightarrow>
        approved_review (conn_reviewStatus (manifest_connector manifest)) \<and>
        conn_blockers (manifest_connector manifest) = []) \<and>
     (\<forall>catalog. cso_capabilityCatalog options = Some catalog \<longrightarrow>
        claim_capability ` set (manifest_capabilityClaims manifest) \<subseteq> capability_id ` set (catalog_capabilities catalog)) \<and>
     (\<forall>integration \<in> set (manifest_integrations manifest).
        integration_valid (conn_selectable (manifest_connector manifest)) integration) \<and>
     sorted_wrt (\<lambda>a b. \<not> exclusive_clash a b) (manifest_ownershipClaims manifest)"

lemma remote_exposure: "hasRemoteExposure i \<longleftrightarrow> integration_dataExposure i \<notin> {LocalOnly, NoExposure}"
  by (cases "integration_dataExposure i") (simp_all add: hasRemoteExposure_def startsWith_def)

lemma concat_enumerate_Nil:
  "concat (map f (enumerate 0 xs)) = [] \<longleftrightarrow> (\<forall>i < length xs. f (i, xs ! i) = [])"
  by (auto simp: in_set_enumerate_eq)

lemma claim_issues_Nil:
  "claim_issues options (i, claim) = [] \<longleftrightarrow> (\<forall>catalog. cso_capabilityCatalog options = Some catalog \<longrightarrow>
     claim_capability claim \<in> capability_id ` set (catalog_capabilities catalog))"
  by (simp add: claim_issues_def split: option.split)

lemma integration_issues_Nil:
  "integration_issues selectable (i, integration) = [] \<longleftrightarrow> integration_valid selectable integration"
  by (auto simp: integration_issues_def integration_valid_def remote_exposure Let_def split: option.splits)

lemma ownership_issues_Nil:
  "ownership_issues claims = [] \<longleftrightarrow> sorted_wrt (\<lambda>a b. \<not> exclusive_clash a b) claims"
  by (auto simp: ownership_issues_def sorted_wrt_iff_nth_less overlap_clash)

section \<open>Properties\<close>

text \<open>
  C30: A manifest is without semantic issues exactly when it is semantically valid: the expected
  publisher, only catalogued capabilities, no planning placeholder as a version, an authorization
  method and network scope where they are needed, no two exclusive claims to a common property of one
  scope, and, where the connector may be selected, a finished review, no blocker, resolved
  versions and licences.
\<close>

theorem validateConnectorSemantics_iff:
  "validateConnectorSemantics manifest options = [] \<longleftrightarrow> semantically_valid options manifest"
proof -
  have a: "connector_issues options manifest = [] \<longleftrightarrow>
      (\<forall>expected. cso_expectedPublisher options = Some expected \<longrightarrow>
        conn_publisher (manifest_connector manifest) = expected) \<and>
      (conn_selectable (manifest_connector manifest) \<longrightarrow>
        approved_review (conn_reviewStatus (manifest_connector manifest)) \<and>
        conn_blockers (manifest_connector manifest) = [])"
    by (auto simp: connector_issues_def approved_review_def Let_def split: option.splits)
  have b: "concat (map (claim_issues options) (enumerate 0 (manifest_capabilityClaims manifest))) = [] \<longleftrightarrow>
      (\<forall>catalog. cso_capabilityCatalog options = Some catalog \<longrightarrow>
        claim_capability ` set (manifest_capabilityClaims manifest) \<subseteq> capability_id ` set (catalog_capabilities catalog))"
    unfolding concat_enumerate_Nil claim_issues_Nil by (fastforce simp: in_set_conv_nth)
  have c: "concat (map (integration_issues selectable) (enumerate 0 (manifest_integrations manifest))) = [] \<longleftrightarrow>
      (\<forall>integration \<in> set (manifest_integrations manifest). integration_valid selectable integration)" for selectable
    unfolding concat_enumerate_Nil integration_issues_Nil by (simp add: all_set_conv_all_nth)
  show ?thesis
    unfolding validateConnectorSemantics_def semantically_valid_def append_is_Nil_conv ownership_issues_Nil a b c
    by (simp only: conj_assoc)
qed

lemma validateConnectorManifest_Inr:
  "validateConnectorManifest schema value options = Inr manifest \<longleftrightarrow>
     schema value = Inr manifest \<and> semantically_valid options manifest"
  by (auto simp: validateConnectorManifest_def validateConnectorSemantics_iff Let_def split: sum.splits)
end
