(* ===== verification/Connector_Health.thy ===== *)
theory Connector_Health
  imports Connector_Semantics Posix_Path Router_Fixtures
begin

text \<open>
  \<open>packages/connectors/src/health/evaluate-health.ts\<close>: the health report of a connector record.
  \<open>Date.parse\<close>, \<open>existsSync\<close> and the working directory are the host's; a time that is \<open>NaN\<close> is
  \<open>None\<close>.
\<close>

record health_host =
  hh_parse :: "string \<Rightarrow> int option"
  hh_exists :: "string \<Rightarrow> bool"
  hh_cwd :: string

record health_context =
  hc_now :: "int option"
  hc_directory :: "string option"

definition isPathInside :: "string \<Rightarrow> string \<Rightarrow> string \<Rightarrow> bool" where
  "isPathInside cwd root candidate =
     (let path = path_relative cwd root candidate in
      path = '''' \<or> \<not> startsWith path ''..'' \<and> \<not> startsWith path ''/'')"

definition legacy_report :: "string \<Rightarrow> string option \<Rightarrow> health_report" where
  "legacy_report directoryId version = \<lparr>health_connectorId = directoryId, health_state = HLegacy,
     health_selectable = False, health_reviewStatus = None, health_blockers = [],
     health_warnings = [''Legacy connector schema '' @
       (case version of None \<Rightarrow> ''unknown'' | Some v \<Rightarrow> v) @ '' is visible but never selectable.''],
     health_errors = []\<rparr>"

definition stale_warnings :: "health_host \<Rightarrow> int option \<Rightarrow> knowledge_window \<Rightarrow> string list" where
  "stale_warnings host now knowledge =
     (case (hh_parse host (knowledge_retrievedAt knowledge @ ''T00:00:00.000Z''), now) of
        (Some retrievedAt, Some t) \<Rightarrow>
          if t > retrievedAt + int (knowledge_staleAfterDays knowledge) * 24 * 60 * 60 * 1000
          then [''Knowledge is stale: retrieved '' @ knowledge_retrievedAt knowledge @ '', freshness window '' @
            nat_str (knowledge_staleAfterDays knowledge) @ '' day(s).'']
          else []
      | _ \<Rightarrow> [])"

definition executable_artifact :: "integration_kind \<Rightarrow> bool" where
  "executable_artifact kind \<longleftrightarrow> kind \<in> {AgentSkill, McpServer, RuntimePackage}"

definition integration_errors :: "integration_artifact \<Rightarrow> string list" where
  "integration_errors integration =
     (if integration_status integration = Available \<and>
         version_status (integration_version integration) = VUnresolved
      then [''Integration '' @ quoted (integration_id integration) @ '' has an unresolved available version.'']
      else []) @
     (if integration_status integration = Available \<and> executable_artifact (integration_kind integration) \<and>
         unresolved_license integration
      then [''Integration '' @ quoted (integration_id integration) @ '' has unresolved license metadata.'']
      else [])"

definition related_errors :: "health_host \<Rightarrow> string \<Rightarrow> string \<times> related_file \<Rightarrow> string list" where
  "related_errors host directory = (\<lambda>(name, related).
     if related_status related \<noteq> FilePresent then []
     else let candidate = path_resolve (hh_cwd host) [directory, related_path related] in
       if \<not> isPathInside (hh_cwd host) directory candidate
       then [''Related file '' @ quoted name @ '' escapes the connector directory.'']
       else if \<not> hh_exists host candidate
       then [''Related file '' @ quoted name @ '' is marked present but is missing.''] else [])"

definition health_errors_of :: "health_host \<Rightarrow> string \<Rightarrow> connector_manifest \<Rightarrow> string list" where
  "health_errors_of host directory manifest =
     (let connector = manifest_connector manifest in
      (if conn_reviewStatus connector \<notin> {RApproved, RStable}
       then [''Connector review status '' @ quoted (review_status_name (conn_reviewStatus connector)) @
         '' is not selectable.''] else []) @
      (if \<not> conn_selectable connector then [''Connector is marked non-selectable.''] else []) @
      concat (map integration_errors (manifest_integrations manifest)) @
      concat (map (related_errors host directory) (manifest_relatedFiles manifest)))"

fun evaluateConnectorHealth :: "health_host \<Rightarrow> connector_record \<Rightarrow> health_context \<Rightarrow> health_report" where
  "evaluateConnectorHealth host (LegacyRecord directoryId path version) context =
     legacy_report directoryId version"
| "evaluateConnectorHealth host (SchemaV2Record directoryId path manifest selectable) context =
     (let connector = manifest_connector manifest;
          directory = (case hc_directory context of None \<Rightarrow> path_dirname path | Some d \<Rightarrow> d);
          stableBlockers = stableUnique (conn_blockers connector);
          stableWarnings = stableUnique (stale_warnings host (hc_now context) (manifest_knowledge manifest));
          stableErrors = stableUnique (health_errors_of host directory manifest) in
      \<lparr>health_connectorId = conn_id connector,
       health_state = (if stableBlockers \<noteq> [] \<or> stableErrors \<noteq> [] then HBlocked else HHealthy),
       health_selectable = conn_selectable connector,
       health_reviewStatus = Some (conn_reviewStatus connector),
       health_blockers = stableBlockers, health_warnings = stableWarnings, health_errors = stableErrors\<rparr>)"

section \<open>What a healthy report means\<close>

text \<open>A related file that is there: below the directory, segment by segment, and existing.\<close>

definition related_ok :: "health_host \<Rightarrow> string \<Rightarrow> related_file \<Rightarrow> bool" where
  "related_ok host directory related \<longleftrightarrow> (related_status related = FilePresent \<longrightarrow>
     isPathInside (hh_cwd host) directory (path_resolve (hh_cwd host) [directory, related_path related]) \<and>
     hh_exists host (path_resolve (hh_cwd host) [directory, related_path related]))"

definition connector_fit :: "health_host \<Rightarrow> string \<Rightarrow> connector_manifest \<Rightarrow> bool" where
  "connector_fit host directory manifest \<longleftrightarrow>
     approved_review (conn_reviewStatus (manifest_connector manifest)) \<and>
     conn_selectable (manifest_connector manifest) \<and> conn_blockers (manifest_connector manifest) = [] \<and>
     (\<forall>integration \<in> set (manifest_integrations manifest). integration_status integration = Available \<longrightarrow>
        version_status (integration_version integration) \<noteq> VUnresolved \<and>
        (executable_artifact (integration_kind integration) \<longrightarrow> \<not> unresolved_license integration)) \<and>
     (\<forall>(name, related) \<in> set (manifest_relatedFiles manifest). related_ok host directory related)"

lemma integration_errors_Nil: "integration_errors i = [] \<longleftrightarrow> (integration_status i = Available \<longrightarrow>
    version_status (integration_version i) \<noteq> VUnresolved \<and>
    (executable_artifact (integration_kind i) \<longrightarrow> \<not> unresolved_license i))"
  by (auto simp: integration_errors_def)

lemma related_errors_Nil: "related_errors host directory (name, f) = [] \<longleftrightarrow> related_ok host directory f"
  by (simp add: related_errors_def related_ok_def Let_def)

lemma isPathInside_contained:
  "isPathInside cwd root candidate \<Longrightarrow>
     prefix (path_segments (path_resolve cwd [root])) (path_segments (path_resolve cwd [candidate]))"
  by (rule path_relative_inside) (auto simp: isPathInside_def Let_def startsWith_def)

lemma healthy_fit:
  "health_state (evaluateConnectorHealth host (SchemaV2Record d p m s) context) = HHealthy \<longleftrightarrow>
     connector_fit host (case hc_directory context of None \<Rightarrow> path_dirname p | Some d \<Rightarrow> d) m"
  by (auto simp: Let_def health_errors_of_def connector_fit_def integration_errors_Nil related_errors_Nil
      approved_review_def)

text \<open>
  A connector is healthy exactly when it is a schema-v2 record whose connector is selectable,
  reviewed and without blockers, whose available integrations have resolved versions and, where they
  are executable, licences, and each of whose present related files lies in the connector directory
  and exists. A legacy record is never healthy.
\<close>

theorem health_healthy_iff:
  "health_state (evaluateConnectorHealth host rec context) = HHealthy \<longleftrightarrow>
     (\<exists>d p m s. rec = SchemaV2Record d p m s \<and>
        connector_fit host (case hc_directory context of None \<Rightarrow> path_dirname p | Some d \<Rightarrow> d) m)"
  using healthy_fit by (cases rec) (auto simp: legacy_report_def)

lemma valid_connector_health:
  assumes "validateConnectorManifest schema value options = Inr manifest"
    and "conn_selectable (manifest_connector manifest)"
  shows "health_state (evaluateConnectorHealth host (SchemaV2Record d p manifest s) context) =
      (if \<forall>(name, related) \<in> set (manifest_relatedFiles manifest).
          related_ok host (case hc_directory context of None \<Rightarrow> path_dirname p | Some d \<Rightarrow> d) related
       then HHealthy else HBlocked) \<and>
    set (health_errors (evaluateConnectorHealth host (SchemaV2Record d p manifest s) context)) =
      (\<Union>f \<in> set (manifest_relatedFiles manifest). set (related_errors host
        (case hc_directory context of None \<Rightarrow> path_dirname p | Some d \<Rightarrow> d) f))"
proof -
  have valid: "semantically_valid options manifest" using assms(1) by (simp add: validateConnectorManifest_Inr)
  then have own: "approved_review (conn_reviewStatus (manifest_connector manifest))"
    "conn_blockers (manifest_connector manifest) = []" using assms(2) by (simp_all add: semantically_valid_def)
  have "integration_errors i = []" if "i \<in> set (manifest_integrations manifest)" for i
    using valid that assms(2)
    by (auto simp: semantically_valid_def integration_valid_def integration_errors_Nil executable_artifact_def)
  then have none: "concat (map integration_errors (manifest_integrations manifest)) = []" by simp
  have "health_errors_of host directory manifest =
      concat (map (related_errors host directory) (manifest_relatedFiles manifest))" for directory
    using own(1) assms(2) none by (auto simp: health_errors_of_def approved_review_def Let_def)
  moreover have "related_errors host directory f = [] \<longleftrightarrow> (case f of (name, related) \<Rightarrow> related_ok host directory related)"
    for directory f by (cases f) (simp add: related_errors_Nil)
  ultimately show ?thesis using own(2) by (simp add: Let_def)
qed

text \<open>
  The schema checks and the health report agree: a selectable manifest without semantic issues
  whose related files are in place is healthy, and of such a manifest only a related file can be
  reported as an error.
\<close>

theorem valid_connector_healthy:
  assumes "validateConnectorManifest schema value options = Inr manifest"
    and "conn_selectable (manifest_connector manifest)"
  shows "health_state (evaluateConnectorHealth host (SchemaV2Record d p manifest s) context) =
      (if \<forall>(name, related) \<in> set (manifest_relatedFiles manifest).
          related_ok host (case hc_directory context of None \<Rightarrow> path_dirname p | Some d \<Rightarrow> d) related
       then HHealthy else HBlocked) \<and>
    set (health_errors (evaluateConnectorHealth host (SchemaV2Record d p manifest s) context)) =
      (\<Union>f \<in> set (manifest_relatedFiles manifest). set (related_errors host
        (case hc_directory context of None \<Rightarrow> path_dirname p | Some d \<Rightarrow> d) f))"
  by (rule valid_connector_health [OF assms])


definition fixture_options :: connector_semantic_options where
  "fixture_options = \<lparr>cso_expectedPublisher = Some ''soren'', cso_capabilityCatalog =
     Some \<lparr>catalog_capabilities = map fixture_capability [''motion.timeline'', ''motion.layout'']\<rparr>\<rparr>"

lemma gsap_valid: "semantically_valid fixture_options gsap_manifest"
  by (simp add: semantically_valid_def fixture_options_def gsap_manifest_def fixture_manifest_def
      fixture_integration_def fixture_claim_def fixture_capability_def integration_valid_def
      approved_review_def unresolved_license_def)

lemma gsap_fields: "conn_selectable (manifest_connector gsap_manifest)"
  "manifest_relatedFiles gsap_manifest = []" "conn_id (manifest_connector gsap_manifest) = ''gsap''"
  by (simp_all add: gsap_manifest_def fixture_manifest_def)

lemma valid_connector_healthy_witness:
  "health_state (evaluateConnectorHealth \<lparr>hh_parse = (\<lambda>_. None), hh_exists = (\<lambda>_. False), hh_cwd = ''/''\<rparr>
    (SchemaV2Record ''gsap'' ''/gsap/sdk.manifest.json'' gsap_manifest True)
    \<lparr>hc_now = None, hc_directory = None\<rparr>) = HHealthy"
proof -
  have "validateConnectorManifest (\<lambda>_. Inr gsap_manifest) JNull fixture_options = Inr gsap_manifest"
    using gsap_valid by (simp add: validateConnectorManifest_Inr)
  from valid_connector_healthy [OF this gsap_fields(1), of "\<lparr>hh_parse = (\<lambda>_. None), hh_exists = (\<lambda>_. False),
      hh_cwd = ''/''\<rparr>" "''gsap''" "''/gsap/sdk.manifest.json''" True "\<lparr>hc_now = None, hc_directory = None\<rparr>"]
  show ?thesis by (simp add: gsap_fields(2) del: evaluateConnectorHealth.simps)
qed

end
