(* ===== verification/Connector_Catalog.thy ===== *)
theory Connector_Catalog
  imports Connector_Health Js_Effects
begin

text \<open>
  \<open>packages/connectors/src/filesystem/connector-catalog.ts\<close>, \<open>snapshot/build-snapshot.ts\<close> and
  \<open>storage/memory-store.ts\<close>: the catalogue of connectors on disk, which reads a manifest once and
  then keeps its record; the snapshots built from it; and the store that holds snapshots.

  The calls of \<open>node:fs\<close>, \<open>JSON.parse\<close> and the schema checks belong to the host. Every operation
  takes the host as it is at that moment, so the files may change between two operations. A manifest
  is digested as the JSON value the record is a view of: \<open>wire\<close>.
\<close>

section \<open>Snapshots of a catalogue\<close>

record catalog_wire =
  wire_collate :: "string \<Rightarrow> string \<Rightarrow> int"
  wire_sha :: "string \<Rightarrow> string"
  wire_manifest :: "connector_manifest \<Rightarrow> json"
  wire_catalog :: "capability_catalog \<Rightarrow> json"
  wire_valid :: "catalog_snapshot validator"

definition catalog_connector_json :: "catalog_connector \<Rightarrow> json" where
  "catalog_connector_json c = JObj [(''id'', JStr (cc_id c)),
     (''connectorVersion'', JStr (cc_connectorVersion c)), (''digest'', JStr (cc_digest c)),
     (''reviewStatus'', JStr (review_status_name (cc_reviewStatus c))),
     (''selectable'', JBool (cc_selectable c))]"

definition snapshot_payload :: "string \<Rightarrow> catalog_connector list \<Rightarrow> json" where
  "snapshot_payload digest connectors = JObj [(''capabilityCatalogDigest'', JStr digest),
     (''connectors'', JArr (map catalog_connector_json connectors))]"

definition snapshot_entry :: "catalog_wire \<Rightarrow> connector_manifest \<Rightarrow> catalog_connector result" where
  "snapshot_entry wire manifest = chain (digestJson (wire_sha wire) (wire_manifest wire manifest))
     (\<lambda>digest. Inr \<lparr>cc_id = conn_id (manifest_connector manifest),
        cc_connectorVersion = manifest_connectorVersion manifest, cc_digest = digest,
        cc_reviewStatus = conn_reviewStatus (manifest_connector manifest),
        cc_selectable = conn_selectable (manifest_connector manifest)\<rparr>)"

definition buildCatalogSnapshot :: "catalog_wire \<Rightarrow> capability_catalog \<Rightarrow> connector_record list \<Rightarrow> string \<Rightarrow>
    catalog_snapshot result" where
  "buildCatalogSnapshot wire catalog records createdAt =
     chain (digestJson (wire_sha wire) (wire_catalog wire catalog))
     (\<lambda>catalogDigest. chain (map_result (snapshot_entry wire) (map record_manifest (filter is_schema_v2 records)))
     (\<lambda>entries. let connectors = js_sort (cmp_by (wire_collate wire) cc_id) entries in
        chain (digestJson (wire_sha wire) (snapshot_payload catalogDigest connectors))
        (\<lambda>snapshotId. let snapshot = \<lparr>cs_snapshotId = snapshotId, cs_createdAt = createdAt,
             cs_capabilityCatalogDigest = catalogDigest, cs_connectors = connectors\<rparr> in
           case validateContract (wire_valid wire) snapshot of
             Inl issues \<Rightarrow> Inl (GenericError (''Generated catalog snapshot is invalid: '' @ issue_summary issues))
           | Inr value \<Rightarrow> Inr value)))"

section \<open>The catalogue\<close>

record catalog_host =
  ch_cwd :: string
  ch_readFile :: "string \<Rightarrow> string result"
  ch_readdir :: "string \<Rightarrow> (string \<times> bool) list result"
  ch_parseJson :: "string \<Rightarrow> json result"
  ch_manifestSchema :: "connector_manifest contract"
  ch_catalogSchema :: "capability_catalog contract"
  ch_health :: health_host
  ch_now :: "int option"

record connector_catalog =
  cat_capabilityCatalog :: capability_catalog
  cat_connectorRoot :: string
  cat_directoryIds :: "string list"
  cat_expectedPublisher :: string
  cat_records :: "(string \<times> connector_record) list"

definition ConnectorCatalogError :: "string \<Rightarrow> string \<Rightarrow> exn" where
  "ConnectorCatalogError code message = Exn ''ConnectorCatalogError'' code message"

definition diagnosticHealth :: "string \<Rightarrow> health_state \<Rightarrow> string \<Rightarrow> health_report" where
  "diagnosticHealth connectorId state message = \<lparr>health_connectorId = connectorId, health_state = state,
     health_selectable = False, health_reviewStatus = None, health_blockers = [], health_warnings = [],
     health_errors = [message]\<rparr>"

definition relabel :: "(exn \<Rightarrow> exn) \<Rightarrow> 'a result \<Rightarrow> 'a result" where
  "relabel f r = (case r of Inl e \<Rightarrow> Inl (f e) | Inr x \<Rightarrow> Inr x)"

definition loadCapabilityCatalog :: "catalog_host \<Rightarrow> string \<Rightarrow> capability_catalog result" where
  "loadCapabilityCatalog host path =
     chain (relabel (\<lambda>e. ConnectorCatalogError ''CAPABILITY_CATALOG_INVALID''
         (''Unable to read capability catalog: '' @ exn_message e))
       (chain (ch_readFile host path) (ch_parseJson host)))
     (\<lambda>value. case validateCapabilityCatalog (ch_catalogSchema host) value of
        Inl issues \<Rightarrow> Inl (ConnectorCatalogError ''CAPABILITY_CATALOG_INVALID''
          (''Capability catalog is invalid: '' @ validationMessage issues))
      | Inr catalog \<Rightarrow> Inr catalog)"

definition new_catalog :: "catalog_host \<Rightarrow> string \<Rightarrow> string option \<Rightarrow> connector_catalog result" where
  "new_catalog host root expectedPublisher =
     (let root = path_resolve (ch_cwd host) [root]; connectorRoot = path_join [root, ''sdk-connectors''] in
      chain (loadCapabilityCatalog host (path_join [root, ''capabilities'', ''catalog.json'']))
      (\<lambda>catalog. chain (ch_readdir host connectorRoot)
      (\<lambda>entries. Inr \<lparr>cat_capabilityCatalog = catalog, cat_connectorRoot = connectorRoot,
         cat_directoryIds = sort (map fst (filter (\<lambda>(name, isDirectory). isDirectory \<and> \<not> startsWith name ''_'')
           entries)),
         cat_expectedPublisher = (case expectedPublisher of None \<Rightarrow> ''soren-sdk'' | Some p \<Rightarrow> p),
         cat_records = []\<rparr>)))"

definition getCapabilityCatalog :: "connector_catalog \<Rightarrow> capability_catalog" where
  "getCapabilityCatalog s = cat_capabilityCatalog s"

definition manifest_path :: "connector_catalog \<Rightarrow> string \<Rightarrow> string" where
  "manifest_path s directoryId = path_join [cat_connectorRoot s, directoryId, ''sdk.manifest.json'']"

definition unreadable :: "string \<Rightarrow> exn \<Rightarrow> exn" where
  "unreadable directoryId e =
     (if exn_code e = ''ENOENT''
      then ConnectorCatalogError ''CONNECTOR_MANIFEST_MISSING''
        (''Connector manifest is missing for '' @ quoted directoryId @ ''.'')
      else ConnectorCatalogError ''CONNECTOR_MANIFEST_UNREADABLE''
        (''Unable to read connector manifest for '' @ quoted directoryId @ '': '' @ exn_message e))"

definition declared_version :: "json \<Rightarrow> string option" where
  "declared_version value = (case value of
     JObj kvs \<Rightarrow> (case map_of kvs ''schemaVersion'' of Some (JStr v) \<Rightarrow> Some v | _ \<Rightarrow> None)
   | _ \<Rightarrow> None)"

text \<open>What \<open>#loadRecord\<close> makes of the file when the record is not cached.\<close>

definition read_record :: "catalog_host \<Rightarrow> connector_catalog \<Rightarrow> string \<Rightarrow> connector_record result" where
  "read_record host s directoryId =
     (let path = manifest_path s directoryId in
      chain (relabel (unreadable directoryId) (ch_readFile host path))
      (\<lambda>source. chain (relabel (\<lambda>e. ConnectorCatalogError ''CONNECTOR_MANIFEST_INVALID''
          (''Connector manifest is not valid JSON: '' @ exn_message e)) (ch_parseJson host source))
      (\<lambda>value. case declared_version value of
         None \<Rightarrow> Inl (ConnectorCatalogError ''CONNECTOR_MANIFEST_INVALID''
           ''Connector manifest does not declare a schemaVersion.'')
       | Some v \<Rightarrow>
           if v \<noteq> ''2.0.0-draft.1'' then Inr (LegacyRecord directoryId path (Some v))
           else case validateConnectorManifest (ch_manifestSchema host) value
               \<lparr>cso_expectedPublisher = Some (cat_expectedPublisher s),
                cso_capabilityCatalog = Some (cat_capabilityCatalog s)\<rparr> of
             Inl issues \<Rightarrow> Inl (ConnectorCatalogError ''CONNECTOR_MANIFEST_INVALID''
               (''Connector manifest is invalid: '' @ validationMessage issues))
           | Inr manifest \<Rightarrow> Inr (SchemaV2Record directoryId path manifest
               (conn_selectable (manifest_connector manifest))))))"

definition loadRecord :: "catalog_host \<Rightarrow> string \<Rightarrow> connector_catalog \<Rightarrow> connector_record result \<times> connector_catalog" where
  "loadRecord host directoryId s = (case map_of (cat_records s) directoryId of
     Some cached \<Rightarrow> (Inr cached, s)
   | None \<Rightarrow> proceed (check (read_record host s directoryId) s)
       (\<lambda>r s. (Inr r, s\<lparr>cat_records := AList.update directoryId r (cat_records s)\<rparr>)))"

fun load_all :: "catalog_host \<Rightarrow> string list \<Rightarrow> connector_catalog \<Rightarrow> connector_record list result \<times> connector_catalog" where
  "load_all host [] s = (Inr [], s)"
| "load_all host (i # is) s = proceed (loadRecord host i s)
     (\<lambda>r s. proceed (load_all host is s) (\<lambda>rs s. (Inr (r # rs), s)))"

text \<open>\<open>#assertUniqueConnectorIds\<close>: \<open>seen\<close> maps a connector id to the directory that declares it.\<close>

definition unique_step :: "connector_record \<Rightarrow> (string \<times> string) list \<Rightarrow> (string \<times> string) list result" where
  "unique_step r seen = (case r of
     LegacyRecord _ _ _ \<Rightarrow> Inr seen
   | SchemaV2Record directoryId path manifest selectable \<Rightarrow>
       let connectorId = conn_id (manifest_connector manifest) in
       (case map_of seen connectorId of
          Some previous \<Rightarrow> Inl (ConnectorCatalogError ''CONNECTOR_DUPLICATE_ID''
            (''Connector ID '' @ quoted connectorId @ '' is declared by both '' @ quoted previous @ '' and '' @
             quoted directoryId @ ''.''))
        | None \<Rightarrow> Inr (AList.update connectorId directoryId seen)))"

definition assertUniqueConnectorIds :: "connector_record list \<Rightarrow> unit result" where
  "assertUniqueConnectorIds records = chain (for_each unique_step records []) (\<lambda>_. Inr ())"

definition catalog_list :: "catalog_host \<Rightarrow> connector_catalog \<Rightarrow> connector_record list result \<times> connector_catalog" where
  "catalog_list host s = proceed (load_all host (cat_directoryIds s) s)
     (\<lambda>records s. proceed (check (assertUniqueConnectorIds records) s) (\<lambda>_ s. (Inr records, s)))"

definition declares_id :: "string \<Rightarrow> connector_record \<Rightarrow> bool" where
  "declares_id connectorId r \<longleftrightarrow> is_schema_v2 r \<and> conn_id (manifest_connector (record_manifest r)) = connectorId"

definition catalog_get :: "catalog_host \<Rightarrow> string \<Rightarrow> connector_catalog \<Rightarrow>
    connector_record option result \<times> connector_catalog" where
  "catalog_get host connectorId s =
     (if connectorId \<in> set (cat_directoryIds s)
      then proceed (loadRecord host connectorId s) (\<lambda>r s. (Inr (Some r), s))
      else proceed (catalog_list host s) (\<lambda>records s. (Inr (find (declares_id connectorId) records), s)))"

text \<open>The directory whose manifest declares an id; a record that does not load is passed over.\<close>

fun matching_directory :: "catalog_host \<Rightarrow> string \<Rightarrow> string list \<Rightarrow> connector_catalog \<Rightarrow>
    string option \<times> connector_catalog" where
  "matching_directory host connectorId [] s = (None, s)"
| "matching_directory host connectorId (i # is) s = (case loadRecord host i s of
     (Inl e, s) \<Rightarrow> matching_directory host connectorId is s
   | (Inr r, s) \<Rightarrow> if declares_id connectorId r then (Some i, s) else matching_directory host connectorId is s)"

definition directory_health :: "catalog_host \<Rightarrow> string \<Rightarrow> connector_catalog \<Rightarrow> health_report \<times> connector_catalog" where
  "directory_health host directoryId s = (case loadRecord host directoryId s of
     (Inr r, s) \<Rightarrow> (evaluateConnectorHealth (ch_health host) r
       \<lparr>hc_now = ch_now host, hc_directory = Some (path_dirname (record_path r))\<rparr>, s)
   | (Inl e, s) \<Rightarrow> (diagnosticHealth directoryId
       (if exn_class e = ''ConnectorCatalogError'' \<and> exn_code e = ''CONNECTOR_MANIFEST_MISSING''
        then HMissing else HInvalid) (exn_message e), s))"

definition catalog_health :: "catalog_host \<Rightarrow> string \<Rightarrow> connector_catalog \<Rightarrow> health_report \<times> connector_catalog" where
  "catalog_health host connectorId s =
     (if connectorId \<in> set (cat_directoryIds s) then directory_health host connectorId s
      else case matching_directory host connectorId (cat_directoryIds s) s of
        (None, s) \<Rightarrow> (diagnosticHealth connectorId HMissing
          (''Connector '' @ quoted connectorId @ '' was not found.''), s)
      | (Some directoryId, s) \<Rightarrow> directory_health host directoryId s)"

definition catalog_snapshot_of :: "catalog_wire \<Rightarrow> catalog_host \<Rightarrow> string \<Rightarrow> connector_catalog \<Rightarrow>
    catalog_snapshot result \<times> connector_catalog" where
  "catalog_snapshot_of wire host createdAt s = proceed (catalog_list host s)
     (\<lambda>records s. (buildCatalogSnapshot wire (cat_capabilityCatalog s) records createdAt, s))"

end
