(* ===== verification/Catalog_Correctness.thy ===== *)
theory Catalog_Correctness
  imports Connector_Catalog Router_Fixtures
begin

text \<open>
  What holds of the connector catalogue of \<open>Connector_Catalog\<close> in whatever order it is used and
  however the files change between two uses: cached records never change and were all checked, a
  list names no connector twice, a report never overstates, and a snapshot identifies the catalogue.
\<close>

section \<open>What loading keeps\<close>

definition catalog_options :: "connector_catalog \<Rightarrow> connector_semantic_options" where
  "catalog_options s = \<lparr>cso_expectedPublisher = Some (cat_expectedPublisher s),
     cso_capabilityCatalog = Some (cat_capabilityCatalog s)\<rparr>"

text \<open>A record as it may be cached for a directory.\<close>

definition record_ok :: "connector_catalog \<Rightarrow> string \<Rightarrow> connector_record \<Rightarrow> bool" where
  "record_ok s i r \<longleftrightarrow> record_directoryId r = i \<and> record_path r = manifest_path s i \<and>
     (case r of
        LegacyRecord _ _ v \<Rightarrow> v \<noteq> None \<and> v \<noteq> Some ''2.0.0-draft.1''
      | SchemaV2Record _ _ manifest selectable \<Rightarrow>
          selectable = conn_selectable (manifest_connector manifest) \<and>
          semantically_valid (catalog_options s) manifest)"

definition catalog_ok :: "connector_catalog \<Rightarrow> bool" where
  "catalog_ok s \<longleftrightarrow> (\<forall>i r. map_of (cat_records s) i = Some r \<longrightarrow> record_ok s i r)"

definition same_catalog :: "connector_catalog \<Rightarrow> connector_catalog \<Rightarrow> bool" where
  "same_catalog s t \<longleftrightarrow> cat_capabilityCatalog t = cat_capabilityCatalog s \<and>
     cat_connectorRoot t = cat_connectorRoot s \<and> cat_directoryIds t = cat_directoryIds s \<and>
     cat_expectedPublisher t = cat_expectedPublisher s"

text \<open>The order in which the state only grows.\<close>

definition grown :: "connector_catalog \<Rightarrow> connector_catalog \<Rightarrow> bool" where
  "grown s t \<longleftrightarrow> same_catalog s t \<and> map_of (cat_records s) \<subseteq>\<^sub>m map_of (cat_records t) \<and>
     (catalog_ok s \<longrightarrow> catalog_ok t)"


lemma grown_refl [simp]: "grown s s"
  by (simp add: grown_def same_catalog_def)

lemma grown_trans [trans]: "grown s t \<Longrightarrow> grown t u \<Longrightarrow> grown s u"
  unfolding grown_def same_catalog_def by (auto intro: map_le_trans)

lemma grown_ok: "grown s t \<Longrightarrow> catalog_ok s \<Longrightarrow> catalog_ok t"
  by (simp add: grown_def)

lemma record_ok_same: "same_catalog s t \<Longrightarrow> record_ok t i r = record_ok s i r"
  by (simp add: same_catalog_def record_ok_def manifest_path_def catalog_options_def cong: connector_record.case_cong)

lemma relabel_Inr [simp]: "relabel f r = Inr x \<longleftrightarrow> r = Inr x"
  by (simp add: relabel_def split: sum.split)

lemma read_record_ok:
  assumes "read_record host s i = Inr r"
  shows "record_ok s i r"
proof -
  obtain src doc where "ch_readFile host (manifest_path s i) = Inr src" "ch_parseJson host src = Inr doc"
    and v: "(case declared_version doc of
         None \<Rightarrow> Inl (ConnectorCatalogError ''CONNECTOR_MANIFEST_INVALID''
           ''Connector manifest does not declare a schemaVersion.'')
       | Some v \<Rightarrow>
           if v \<noteq> ''2.0.0-draft.1'' then Inr (LegacyRecord i (manifest_path s i) (Some v))
           else case validateConnectorManifest (ch_manifestSchema host) doc (catalog_options s) of
             Inl issues \<Rightarrow> Inl (ConnectorCatalogError ''CONNECTOR_MANIFEST_INVALID''
               (''Connector manifest is invalid: '' @ validationMessage issues))
           | Inr manifest \<Rightarrow> Inr (SchemaV2Record i (manifest_path s i) manifest
               (conn_selectable (manifest_connector manifest)))) = Inr r"
    using assms unfolding read_record_def Let_def catalog_options_def by (auto simp: chain_eq_Inr)
  then show ?thesis
    by (auto simp: record_ok_def dest!: validateConnectorManifest_Inr [THEN iffD1]
        split: option.splits if_splits sum.splits)
qed

lemma cache_grown:
  assumes "map_of (cat_records s) i = None" and "record_ok s i r"
  shows "grown s (s\<lparr>cat_records := AList.update i r (cat_records s)\<rparr>)"
proof -
  let ?t = "s\<lparr>cat_records := AList.update i r (cat_records s)\<rparr>"
  have same: "same_catalog s ?t" by (simp add: same_catalog_def)
  have "map_of (cat_records s) \<subseteq>\<^sub>m map_of (cat_records ?t)"
    using assms(1) by (auto simp: map_of_update map_le_def)
  then show ?thesis
    using assms(2) same unfolding grown_def catalog_ok_def record_ok_same [OF same]
    by (auto simp: map_of_update)
qed

lemma loadRecord_grown:
  assumes "loadRecord host i s = (q, t)"
  shows "grown s t \<and> (\<forall>r. q = Inr r \<longrightarrow> map_of (cat_records t) i = Some r)"
proof (cases "map_of (cat_records s) i")
  case (Some r)
  then show ?thesis using assms by (auto simp: loadRecord_def)
next
  case None
  then show ?thesis
    using assms cache_grown [OF None read_record_ok]
    by (cases "read_record host s i") (auto simp: loadRecord_def proceed_check map_of_update)
qed

lemma grown_lookup: "grown s t \<Longrightarrow> map_of (cat_records s) i = Some r \<Longrightarrow> map_of (cat_records t) i = Some r"
  unfolding grown_def map_le_def by (metis domI)

lemma load_all_grown:
  "load_all host is s = (q, t) \<Longrightarrow> grown s t \<and>
     (\<forall>rs. q = Inr rs \<longrightarrow> list_all2 (\<lambda>i r. map_of (cat_records t) i = Some r) is rs)"
proof (induction host "is" s arbitrary: q t rule: load_all.induct)
  case (1 host s)
  then show ?case by auto
next
  case (2 host i "is" s)
  obtain q' s' where l: "loadRecord host i s = (q', s')" by (cases "loadRecord host i s")
  note first = loadRecord_grown [OF l]
  show ?case
  proof (cases q')
    case (Inl e)
    then show ?thesis using "2.prems" l first by auto
  next
    case (Inr r)
    obtain q'' s'' where a: "load_all host is s' = (q'', s'')" by (cases "load_all host is s'")
    have rest: "grown s' s'' \<and> (\<forall>rs. q'' = Inr rs \<longrightarrow> list_all2 (\<lambda>i r. map_of (cat_records s'') i = Some r) is rs)"
      using "2.IH" [of r s' q'' s''] l a Inr by simp
    have "map_of (cat_records s'') i = Some r" using first rest Inr grown_lookup by blast
    then show ?thesis using "2.prems" l a Inr first rest grown_trans by (cases q'') auto
  qed
qed

text \<open>The ids seen so far are those of the records so far, each once.\<close>

definition v2_ids :: "connector_record list \<Rightarrow> string list" where
  "v2_ids records = map (\<lambda>r. conn_id (manifest_connector (record_manifest r))) (filter is_schema_v2 records)"

lemma unique_step_cases:
  "unique_step (LegacyRecord d p v) seen = Inr seen"
  "unique_step (SchemaV2Record d p m s) seen = Inr seen' \<longleftrightarrow>
     map_of seen (conn_id (manifest_connector m)) = None \<and>
     seen' = AList.update (conn_id (manifest_connector m)) d seen"
  by (auto simp: unique_step_def Let_def split: option.splits)

lemma unique_step_Inr:
  "for_each unique_step records seen = Inr seen' \<Longrightarrow> distinct (v2_ids records) \<and>
     (\<forall>i \<in> set (v2_ids records). map_of seen i = None)"
proof (induction records arbitrary: seen)
  case (Cons r records)
  show ?case
  proof (cases r)
    case (LegacyRecord d p v)
    then show ?thesis using Cons by (simp add: unique_step_cases v2_ids_def)
  next
    case (SchemaV2Record d p m s)
    then have new: "map_of seen (conn_id (manifest_connector m)) = None"
      and "for_each unique_step records (AList.update (conn_id (manifest_connector m)) d seen) = Inr seen'"
      using Cons.prems by (auto simp: chain_eq_Inr unique_step_cases)
    from Cons.IH [OF this(2)] have "distinct (v2_ids records)"
      "\<forall>i \<in> set (v2_ids records). i \<noteq> conn_id (manifest_connector m) \<and> map_of seen i = None"
      by (auto simp: map_of_update split: if_splits)
    then show ?thesis using SchemaV2Record new by (auto simp: v2_ids_def)
  qed
qed (simp add: v2_ids_def)

lemma list_grown:
  assumes "catalog_list host s = (q, t)"
  shows "grown s t \<and> (\<forall>rs. q = Inr rs \<longrightarrow>
    list_all2 (\<lambda>i r. map_of (cat_records t) i = Some r) (cat_directoryIds s) rs \<and> distinct (v2_ids rs))"
proof -
  obtain q' t' where l: "load_all host (cat_directoryIds s) s = (q', t')"
    by (cases "load_all host (cat_directoryIds s) s")
  note all = load_all_grown [OF l]
  show ?thesis
  proof (cases q')
    case (Inl e)
    then show ?thesis using assms l all by (auto simp: catalog_list_def)
  next
    case (Inr rs)
    then show ?thesis
    proof (cases "for_each unique_step rs []")
      case (Inl e)
      then show ?thesis using assms l all \<open>q' = Inr rs\<close>
        by (auto simp: catalog_list_def proceed_check assertUniqueConnectorIds_def)
    next
      case (Inr seen)
      then show ?thesis using assms l all \<open>q' = Inr rs\<close> unique_step_Inr [OF Inr]
        by (auto simp: catalog_list_def proceed_check assertUniqueConnectorIds_def)
    qed
  qed
qed

lemma get_grown:
  assumes "catalog_get host i s = (q, t)"
  shows "grown s t"
proof (cases "i \<in> set (cat_directoryIds s)")
  case True
  obtain q' t' where l: "loadRecord host i s = (q', t')" by (cases "loadRecord host i s")
  then show ?thesis using assms True loadRecord_grown [OF l] by (cases q') (auto simp: catalog_get_def)
next
  case False
  obtain q' t' where l: "catalog_list host s = (q', t')" by (cases "catalog_list host s")
  then show ?thesis using assms False list_grown [OF l] by (cases q') (auto simp: catalog_get_def)
qed

lemma matching_grown:
  "matching_directory host c is s = (q, t) \<Longrightarrow> grown s t \<and>
     (\<forall>i. q = Some i \<longrightarrow> i \<in> set is \<and> (\<exists>r. map_of (cat_records t) i = Some r \<and> declares_id c r))"
proof (induction host c "is" s arbitrary: q t rule: matching_directory.induct)
  case (1 host c s)
  then show ?case by simp
next
  case (2 host c i "is" s)
  obtain q' s' where l: "loadRecord host i s = (q', s')" by (cases "loadRecord host i s")
  note first = loadRecord_grown [OF l]
  show ?case
  proof (cases q')
    case (Inl e)
    then show ?thesis using "2.IH"(1) [OF l [symmetric] Inl] "2.prems" l first grown_trans by auto
  next
    case (Inr r)
    then show ?thesis
      using "2.IH"(2) [OF l [symmetric] Inr] "2.prems" l first grown_trans
      by (cases "declares_id c r") auto
  qed
qed

lemma health_grown:
  assumes "directory_health host i s = (report, t)"
  shows "grown s t \<and> (\<exists>r. map_of (cat_records t) i = Some r \<and> report = evaluateConnectorHealth (ch_health host) r
      \<lparr>hc_now = ch_now host, hc_directory = Some (path_dirname (record_path r))\<rparr>) \<or>
    grown s t \<and> \<not> health_selectable report \<and> health_state report \<in> {HMissing, HInvalid}"
proof -
  obtain q' t' where l: "loadRecord host i s = (q', t')" by (cases "loadRecord host i s")
  show ?thesis
    using assms l loadRecord_grown [OF l]
    by (cases q') (auto simp: directory_health_def diagnosticHealth_def split: if_splits)
qed

section \<open>Runs of a catalogue\<close>

text \<open>Any operation, with any files behind it.\<close>

inductive catalog_step :: "connector_catalog \<Rightarrow> connector_catalog \<Rightarrow> bool" where
  Catalog_list: "catalog_list host s = (q, t) \<Longrightarrow> catalog_step s t"
| Catalog_get: "catalog_get host i s = (q, t) \<Longrightarrow> catalog_step s t"
| Catalog_health: "catalog_health host i s = (report, t) \<Longrightarrow> catalog_step s t"
| Catalog_snapshot: "catalog_snapshot_of wire host createdAt s = (q, t) \<Longrightarrow> catalog_step s t"

abbreviation catalog_run :: "connector_catalog \<Rightarrow> connector_catalog \<Rightarrow> bool" where
  "catalog_run \<equiv> catalog_step\<^sup>*\<^sup>*"

definition catalog_reachable :: "connector_catalog \<Rightarrow> bool" where
  "catalog_reachable s \<longleftrightarrow> (\<exists>host root publisher s0. new_catalog host root publisher = Inr s0 \<and> catalog_run s0 s)"

lemma catalog_health_cases:
  assumes "catalog_health host c s = (report, t)"
  shows "grown s t \<and> ((\<exists>i r. (i = c \<or> declares_id c r) \<and> i \<in> set (cat_directoryIds s) \<and>
      map_of (cat_records t) i = Some r \<and> report = evaluateConnectorHealth (ch_health host) r
        \<lparr>hc_now = ch_now host, hc_directory = Some (path_dirname (record_path r))\<rparr>) \<or>
    \<not> health_selectable report \<and> health_state report \<in> {HMissing, HInvalid})"
proof (cases "c \<in> set (cat_directoryIds s)")
  case True
  then show ?thesis using assms health_grown [of host c s report t] by (auto simp: catalog_health_def)
next
  case False
  obtain q t' where m: "matching_directory host c (cat_directoryIds s) s = (q, t')"
    by (cases "matching_directory host c (cat_directoryIds s) s")
  note match = matching_grown [OF m]
  show ?thesis
  proof (cases q)
    case None
    then show ?thesis using assms False m match by (auto simp: catalog_health_def diagnosticHealth_def)
  next
    case (Some i)
    then have h: "directory_health host i t' = (report, t)" using assms False m by (simp add: catalog_health_def)
    obtain r where r: "i \<in> set (cat_directoryIds s)" "map_of (cat_records t') i = Some r" "declares_id c r"
      using match Some by blast
    have "map_of (cat_records t) i = Some r" using health_grown [OF h] r(2) grown_lookup by blast
    then show ?thesis using health_grown [OF h] r match grown_trans by fastforce
  qed
qed

lemma catalog_step_grown: "catalog_step s t \<Longrightarrow> grown s t"
proof (induction rule: catalog_step.induct)
  case (Catalog_snapshot wire host createdAt s q t)
  obtain q' t' where l: "catalog_list host s = (q', t')" by (cases "catalog_list host s")
  then show ?case using Catalog_snapshot list_grown [OF l] by (cases q') (auto simp: catalog_snapshot_of_def)
qed (use list_grown get_grown catalog_health_cases in blast)+

lemma catalog_run_grown: "catalog_run s t \<Longrightarrow> grown s t"
  by (induction rule: rtranclp_induct) (auto intro: grown_trans catalog_step_grown)

lemma new_catalog_ok: "new_catalog host root publisher = Inr s \<Longrightarrow> catalog_ok s"
  by (auto simp: new_catalog_def Let_def chain_eq_Inr catalog_ok_def)

lemma catalog_reachable_ok: "catalog_reachable s \<Longrightarrow> catalog_ok s"
  unfolding catalog_reachable_def by (meson catalog_run_grown grown_ok new_catalog_ok)

lemma load_all_cached:
  "list_all2 (\<lambda>i r. map_of (cat_records s) i = Some r) is rs \<Longrightarrow> load_all host is s = (Inr rs, s)"
  by (induction "is" rs rule: list_all2_induct) (simp_all add: loadRecord_def)

lemma list_again:
  assumes "catalog_list host s = (Inr rs, t)"
  shows "catalog_list host' t = (Inr rs, t)"
proof -
  note l = list_grown [OF assms]
  have "cat_directoryIds t = cat_directoryIds s" using l by (simp add: grown_def same_catalog_def)
  then have "load_all host' (cat_directoryIds t) t = (Inr rs, t)" using l load_all_cached by auto
  moreover have "assertUniqueConnectorIds rs = Inr ()"
    using assms by (auto simp: catalog_list_def proceed_Inr_iff check_def)
  ultimately show ?thesis by (simp add: catalog_list_def proceed_check)
qed

section \<open>Snapshots\<close>

lemma map_result_Inr: "map_result f xs = Inr ys \<longleftrightarrow> list_all2 (\<lambda>x y. f x = Inr y) xs ys"
  by (induction xs arbitrary: ys) (auto simp: chain_eq_Inr list_all2_Cons1)

lemma finite_payload: "finite_json (snapshot_payload d connectors)"
  by (auto simp: snapshot_payload_def catalog_connector_json_def)

lemma catalog_connector_json_inject:
  assumes "normalize_json (catalog_connector_json a) = normalize_json (catalog_connector_json b)"
  shows "a = b"
proof -
  have "map (\<lambda>kv. normalize_json (snd kv)) [(''id'', JStr (cc_id a)),
      (''connectorVersion'', JStr (cc_connectorVersion a)), (''digest'', JStr (cc_digest a)),
      (''reviewStatus'', JStr (review_status_name (cc_reviewStatus a))),
      (''selectable'', JBool (cc_selectable a))] =
    map (\<lambda>kv. normalize_json (snd kv)) [(''id'', JStr (cc_id b)),
      (''connectorVersion'', JStr (cc_connectorVersion b)), (''digest'', JStr (cc_digest b)),
      (''reviewStatus'', JStr (review_status_name (cc_reviewStatus b))),
      (''selectable'', JBool (cc_selectable b))]"
    using assms unfolding catalog_connector_json_def by (rule normalize_obj_same_keys [rotated 2]) simp_all
  then show ?thesis by simp
qed

lemma snapshot_payload_inject:
  assumes "normalize_json (snapshot_payload d xs) = normalize_json (snapshot_payload e ys)"
  shows "d = e \<and> xs = ys"
proof -
  have "map (\<lambda>kv. normalize_json (snd kv)) [(''capabilityCatalogDigest'', JStr d),
      (''connectors'', JArr (map catalog_connector_json xs))] =
    map (\<lambda>kv. normalize_json (snd kv)) [(''capabilityCatalogDigest'', JStr e),
      (''connectors'', JArr (map catalog_connector_json ys))]"
    using assms unfolding snapshot_payload_def by (rule normalize_obj_same_keys [rotated 2]) simp_all
  then have "d = e" and m: "map (\<lambda>c. normalize_json (catalog_connector_json c)) xs =
      map (\<lambda>c. normalize_json (catalog_connector_json c)) ys" by (simp_all add: comp_def)
  have "inj (\<lambda>c. normalize_json (catalog_connector_json c))"
    by (rule injI) (rule catalog_connector_json_inject)
  then show ?thesis using \<open>d = e\<close> m by (simp add: inj_map_eq_map)
qed

lemma build_Inr:
  assumes "buildCatalogSnapshot wire catalog records createdAt = Inr snap"
  obtains entries where
    "digestJson (wire_sha wire) (wire_catalog wire catalog) = Inr (cs_capabilityCatalogDigest snap)"
    "list_all2 (\<lambda>m c. snapshot_entry wire m = Inr c) (map record_manifest (filter is_schema_v2 records)) entries"
    "cs_connectors snap = js_sort (cmp_by (wire_collate wire) cc_id) entries"
    "cs_snapshotId snap = json_digest (wire_sha wire)
      (snapshot_payload (cs_capabilityCatalogDigest snap) (cs_connectors snap))"
    "cs_createdAt snap = createdAt"
  using assms
  by (auto simp: buildCatalogSnapshot_def chain_eq_Inr Let_def map_result_Inr digestJson_finite finite_payload
      split: sum.splits option.splits)

lemma snapshot_entry_Inr: "snapshot_entry wire m = Inr c \<longleftrightarrow>
    (\<exists>d. digestJson (wire_sha wire) (wire_manifest wire m) = Inr d \<and> c = \<lparr>cc_id = conn_id (manifest_connector m),
      cc_connectorVersion = manifest_connectorVersion m, cc_digest = d,
      cc_reviewStatus = conn_reviewStatus (manifest_connector m),
      cc_selectable = conn_selectable (manifest_connector m)\<rparr>)"
  by (auto simp: snapshot_entry_def chain_eq_Inr)

lemma entries_ids:
  "list_all2 (\<lambda>m c. snapshot_entry wire m = Inr c) ms cs \<Longrightarrow>
     map cc_id cs = map (\<lambda>m. conn_id (manifest_connector m)) ms"
  by (induction ms cs rule: list_all2_induct) (auto simp: snapshot_entry_Inr)


lemma digestJson_Inr: "digestJson sha v = Inr d \<longleftrightarrow> finite_json v \<and> d = json_digest sha v"
  using digestJson_finite serialize_Inr_finite
  by (fastforce simp: digestJson_def canonicalJson_def chain_eq_Inr)

lemma same_connectors_same_manifest:
  assumes "list_all2 (\<lambda>m c. snapshot_entry wire m = Inr c) ms cs" and "m \<in> set ms"
  shows "\<exists>c \<in> set cs. cc_id c = conn_id (manifest_connector m) \<and> finite_json (wire_manifest wire m) \<and>
    cc_digest c = json_digest (wire_sha wire) (wire_manifest wire m)"
  using assms
  by (induction ms cs rule: list_all2_induct) (auto simp: snapshot_entry_Inr digestJson_Inr)

lemma entry_of_manifest:
  assumes "list_all2 (\<lambda>m c. snapshot_entry wire m = Inr c) ms cs" and "c \<in> set cs"
  shows "\<exists>m \<in> set ms. cc_id c = conn_id (manifest_connector m) \<and> finite_json (wire_manifest wire m) \<and>
    cc_digest c = json_digest (wire_sha wire) (wire_manifest wire m)"
  using assms
  by (induction ms cs rule: list_all2_induct) (auto simp: snapshot_entry_Inr digestJson_Inr)

section \<open>Properties\<close>

text \<open>
  A record the catalogue has loaded never changes. In every later state of a run, with whatever
  operations and whatever files between, loading the same directory gives the same record without
  reading a file, and that record was checked: it is a legacy record of another schema version, or its
  manifest has no semantic issue and the record is selectable exactly as its connector says.
\<close>

theorem catalog_records_stable:
  assumes "catalog_reachable s" and "catalog_run s t" and "map_of (cat_records s) i = Some r"
  shows "loadRecord host i t = (Inr r, t) \<and> record_directoryId r = i \<and>
    (case r of
       LegacyRecord _ _ v \<Rightarrow> v \<noteq> Some ''2.0.0-draft.1''
     | SchemaV2Record _ _ manifest selectable \<Rightarrow>
         selectable = conn_selectable (manifest_connector manifest) \<and>
         validateConnectorSemantics manifest (catalog_options t) = [])"
proof -
  have g: "grown s t" using assms(2) by (rule catalog_run_grown)
  have r: "map_of (cat_records t) i = Some r" using g assms(3) by (rule grown_lookup)
  moreover have "record_ok t i r"
    using catalog_reachable_ok [OF assms(1)] g grown_ok r by (auto simp: catalog_ok_def)
  ultimately show ?thesis
    by (simp add: loadRecord_def record_ok_def validateConnectorSemantics_iff split: connector_record.splits)
qed

text \<open>
  C31: A successful list has one record for every connector directory, in order, no two schema-v2
  records with the same connector id, and only checked manifests. From then on every list gives the
  same records, whatever happens to the files, and a connector whose id is not the name of a
  directory is found by its id.
\<close>

theorem catalog_list_sound:
  assumes "catalog_reachable s" and "catalog_list host s = (Inr rs, t)"
  shows "map record_directoryId rs = cat_directoryIds s \<and> distinct (v2_ids rs) \<and>
    (\<forall>r \<in> set rs. record_ok t (record_directoryId r) r) \<and> catalog_list host' t = (Inr rs, t) \<and>
    (\<forall>r \<in> set rs. is_schema_v2 r \<and> conn_id (manifest_connector (record_manifest r)) \<notin> set (cat_directoryIds s) \<longrightarrow>
      catalog_get host' (conn_id (manifest_connector (record_manifest r))) t = (Inr (Some r), t))"
proof -
  note l = list_grown [OF assms(2)]
  have ok: "catalog_ok t" using l catalog_reachable_ok [OF assms(1)] grown_ok by blast
  have each: "list_all2 (\<lambda>i r. record_ok t i r) (cat_directoryIds s) rs"
    using l ok by (auto simp: catalog_ok_def elim: list_all2_mono)
  have ids: "map record_directoryId rs = cat_directoryIds s"
    using each by (auto simp: list_all2_conv_all_nth record_ok_def intro!: nth_equalityI)
  have good: "record_ok t (record_directoryId r) r" if "r \<in> set rs" for r
    using each that by (auto simp: list_all2_conv_all_nth in_set_conv_nth record_ok_def)
  note again = list_again [OF assms(2)]
  have dirs: "cat_directoryIds t = cat_directoryIds s" using l by (simp add: grown_def same_catalog_def)
  have unique: "find (declares_id (conn_id (manifest_connector (record_manifest r)))) xs = Some r"
    if "distinct (v2_ids xs)" "r \<in> set xs" "is_schema_v2 r" for r xs
    using that
  proof (induction xs)
    case (Cons x xs)
    show ?case
    proof (cases "x = r")
      case True
      then show ?thesis using Cons.prems by (simp add: declares_id_def)
    next
      case False
      then have "r \<in> set xs" "\<not> declares_id (conn_id (manifest_connector (record_manifest r))) x"
        using Cons.prems by (auto simp: declares_id_def v2_ids_def)
      then show ?thesis using Cons by (auto simp: v2_ids_def split: if_splits)
    qed
  qed simp
  have "catalog_get host' (conn_id (manifest_connector (record_manifest r))) t = (Inr (Some r), t)"
    if "r \<in> set rs" "is_schema_v2 r" "conn_id (manifest_connector (record_manifest r)) \<notin> set (cat_directoryIds s)" for r
    using that again dirs unique [OF _ that(1,2)] l by (simp add: catalog_get_def)
  then show ?thesis using ids good again l by blast
qed

text \<open>
  A health report never overstates: a report that says selectable is about a record whose
  manifest was loaded from the directory of that name or declares that connector id, was checked and is
  selectable, and it says healthy exactly when each related file it declares present is in place.
\<close>

theorem catalog_health_sound:
  assumes "catalog_reachable s" and "catalog_health host c s = (report, t)" and "health_selectable report"
  shows "\<exists>i p m. map_of (cat_records t) i = Some (SchemaV2Record i p m True) \<and>
    (i = c \<or> conn_id (manifest_connector m) = c) \<and> validateConnectorSemantics m (catalog_options t) = [] \<and>
    health_connectorId report = conn_id (manifest_connector m) \<and>
    health_state report = (if \<forall>(name, related) \<in> set (manifest_relatedFiles m).
      related_ok (ch_health host) (path_dirname p) related then HHealthy else HBlocked)"
proof -
  note h = catalog_health_cases [OF assms(2)]
  obtain i r where r: "i = c \<or> declares_id c r" "map_of (cat_records t) i = Some r"
    "report = evaluateConnectorHealth (ch_health host) r
      \<lparr>hc_now = ch_now host, hc_directory = Some (path_dirname (record_path r))\<rparr>"
    using h assms(3) by blast
  have ok: "record_ok t i r"
    using h catalog_reachable_ok [OF assms(1)] grown_ok r(2) by (auto simp: catalog_ok_def)
  obtain d p m sel where v2: "r = SchemaV2Record d p m sel"
    using r(3) assms(3) by (cases r) (auto simp: legacy_report_def)
  have sel: "conn_selectable (manifest_connector m)" using r(3) assms(3) v2 by (simp add: Let_def)
  have m: "semantically_valid (catalog_options t) m" "d = i" "sel"
    using ok v2 sel by (simp_all add: record_ok_def)
  then have "validateConnectorManifest (\<lambda>_. Inr m) JNull (catalog_options t) = Inr m"
    by (simp add: validateConnectorManifest_Inr)
  from valid_connector_health [OF this sel, of "ch_health host" d p sel
      "\<lparr>hc_now = ch_now host, hc_directory = Some (path_dirname p)\<rparr>"]
  show ?thesis using r v2 m
    by (intro exI [of _ i] exI [of _ p] exI [of _ m])
      (auto simp: declares_id_def validateConnectorSemantics_iff Let_def)
qed

text \<open>
  C32: A snapshot identifies the catalogue. Where SHA-256 has no collision on the values concerned, two
  snapshots with the same id have the same entries and the same capability catalogue digest, and every
  schema-v2 record of the one stands for a record of the other with the same connector id and
  the same manifest as a JSON value; the creation time is not part of the id.
\<close>

theorem snapshot_identifies_catalog:
  assumes "buildCatalogSnapshot wire cat rs at = Inr a" and "buildCatalogSnapshot wire cat' rs' at' = Inr b"
    and "cs_snapshotId a = cs_snapshotId b"
    and "collision_free (wire_sha wire) (snapshot_payload (cs_capabilityCatalogDigest a) (cs_connectors a))
      (snapshot_payload (cs_capabilityCatalogDigest b) (cs_connectors b))"
    and "\<forall>r \<in> set rs. \<forall>r' \<in> set rs'. collision_free (wire_sha wire)
      (wire_manifest wire (record_manifest r)) (wire_manifest wire (record_manifest r'))"
  shows "cs_connectors a = cs_connectors b \<and> cs_capabilityCatalogDigest a = cs_capabilityCatalogDigest b \<and>
    (\<forall>r \<in> set rs. is_schema_v2 r \<longrightarrow> (\<exists>r' \<in> set rs'. is_schema_v2 r' \<and>
      conn_id (manifest_connector (record_manifest r)) = conn_id (manifest_connector (record_manifest r')) \<and>
      normalize_json (wire_manifest wire (record_manifest r)) =
        normalize_json (wire_manifest wire (record_manifest r'))))"
proof -
  obtain es where a: "list_all2 (\<lambda>m c. snapshot_entry wire m = Inr c) (map record_manifest (filter is_schema_v2 rs)) es"
    "cs_connectors a = js_sort (cmp_by (wire_collate wire) cc_id) es"
    "cs_snapshotId a = json_digest (wire_sha wire)
      (snapshot_payload (cs_capabilityCatalogDigest a) (cs_connectors a))"
    using assms(1) by (rule build_Inr)
  obtain fs where b: "list_all2 (\<lambda>m c. snapshot_entry wire m = Inr c) (map record_manifest (filter is_schema_v2 rs')) fs"
    "cs_connectors b = js_sort (cmp_by (wire_collate wire) cc_id) fs"
    "cs_snapshotId b = json_digest (wire_sha wire)
      (snapshot_payload (cs_capabilityCatalogDigest b) (cs_connectors b))"
    using assms(2) by (rule build_Inr)
  have "normalize_json (snapshot_payload (cs_capabilityCatalogDigest a) (cs_connectors a)) =
      normalize_json (snapshot_payload (cs_capabilityCatalogDigest b) (cs_connectors b))"
    using assms(3,4) a(3) b(3) json_digest_eq_iff [OF finite_payload finite_payload] by simp
  from snapshot_payload_inject [OF this]
  have same: "cs_connectors a = cs_connectors b" "cs_capabilityCatalogDigest a = cs_capabilityCatalogDigest b"
    by simp_all
  then have sets: "set es = set fs" using a(2) b(2) by (metis set_js_sort)
  have "\<exists>r' \<in> set rs'. is_schema_v2 r' \<and>
      conn_id (manifest_connector (record_manifest r)) = conn_id (manifest_connector (record_manifest r')) \<and>
      normalize_json (wire_manifest wire (record_manifest r)) =
        normalize_json (wire_manifest wire (record_manifest r'))"
    if r: "r \<in> set rs" "is_schema_v2 r" for r
  proof -
    obtain c where c: "c \<in> set es" "cc_id c = conn_id (manifest_connector (record_manifest r))"
      "finite_json (wire_manifest wire (record_manifest r))"
      "cc_digest c = json_digest (wire_sha wire) (wire_manifest wire (record_manifest r))"
      using same_connectors_same_manifest [OF a(1), of "record_manifest r"] r by auto
    then obtain m where m: "m \<in> record_manifest ` {r' \<in> set rs'. is_schema_v2 r'}"
      "cc_id c = conn_id (manifest_connector m)" "finite_json (wire_manifest wire m)"
      "cc_digest c = json_digest (wire_sha wire) (wire_manifest wire m)"
      using entry_of_manifest [OF b(1), of c] sets by auto
    then obtain r' where r': "r' \<in> set rs'" "is_schema_v2 r'" "m = record_manifest r'" by auto
    have free: "collision_free (wire_sha wire) (wire_manifest wire (record_manifest r))
        (wire_manifest wire (record_manifest r'))" using assms(5) r(1) r'(1) by blast
    have "finite_json (wire_manifest wire (record_manifest r'))" using m(3) r'(3) by simp
    from json_digest_eq_iff [OF c(3) this free]
    have "normalize_json (wire_manifest wire (record_manifest r)) =
        normalize_json (wire_manifest wire (record_manifest r'))"
      using c(4) m(4) r'(3) by simp
    then show ?thesis using r' c(2) m(2) by auto
  qed
  then show ?thesis using same by blast
qed


section \<open>A concrete catalogue\<close>

definition sample_catalog_host :: catalog_host where
  "sample_catalog_host = \<lparr>ch_cwd = ''/'', ch_readFile = (\<lambda>_. Inr ''''),
     ch_readdir = (\<lambda>_. Inr [(''gsap'', True)]),
     ch_parseJson = (\<lambda>_. Inr (JObj [(''schemaVersion'', JStr ''2.0.0-draft.1'')])),
     ch_manifestSchema = (\<lambda>_. Inr gsap_manifest),
     ch_catalogSchema = (\<lambda>_. Inr (the (cso_capabilityCatalog fixture_options))),
     ch_health = \<lparr>hh_parse = (\<lambda>_. None), hh_exists = (\<lambda>_. False), hh_cwd = ''/''\<rparr>, ch_now = None\<rparr>"

definition sample_catalog :: connector_catalog where
  "sample_catalog = \<lparr>cat_capabilityCatalog = the (cso_capabilityCatalog fixture_options),
     cat_connectorRoot = path_join [path_resolve ''/'' [''/r''], ''sdk-connectors''],
     cat_directoryIds = [''gsap''], cat_expectedPublisher = ''soren'', cat_records = []\<rparr>"

definition sample_record :: connector_record where
  "sample_record = SchemaV2Record ''gsap'' (manifest_path sample_catalog ''gsap'') gsap_manifest True"

lemma sample_catalog_new: "new_catalog sample_catalog_host ''/r'' (Some ''soren'') = Inr sample_catalog"
  by (simp add: new_catalog_def sample_catalog_host_def loadCapabilityCatalog_def relabel_def
      validateCapabilityCatalog_def sample_catalog_def startsWith_def Let_def)

lemma sample_catalog_reachable: "catalog_reachable sample_catalog"
  unfolding catalog_reachable_def using sample_catalog_new by blast

lemma sample_load: "loadRecord sample_catalog_host ''gsap'' sample_catalog =
    (Inr sample_record, sample_catalog\<lparr>cat_records := [(''gsap'', sample_record)]\<rparr>)"
proof -
  have options: "\<lparr>cso_expectedPublisher = Some (cat_expectedPublisher sample_catalog),
      cso_capabilityCatalog = Some (cat_capabilityCatalog sample_catalog)\<rparr> = fixture_options"
    by (simp add: sample_catalog_def fixture_options_def)
  have "validateConnectorManifest (ch_manifestSchema sample_catalog_host) v fixture_options = Inr gsap_manifest" for v
    using gsap_valid by (simp add: validateConnectorManifest_Inr sample_catalog_host_def)
  then have "read_record sample_catalog_host sample_catalog ''gsap'' = Inr sample_record"
    unfolding read_record_def Let_def options
    by (simp add: relabel_def declared_version_def sample_record_def gsap_fields)
      (simp add: sample_catalog_host_def gsap_fields)
  moreover have "cat_records sample_catalog = []" by (simp add: sample_catalog_def)
  ultimately show ?thesis by (simp add: loadRecord_def check_def)
qed

lemma sample_list: "catalog_list sample_catalog_host sample_catalog =
    (Inr [sample_record], sample_catalog\<lparr>cat_records := [(''gsap'', sample_record)]\<rparr>)"
proof -
  have "cat_directoryIds sample_catalog = [''gsap'']" by (simp add: sample_catalog_def)
  then show ?thesis
    by (simp add: catalog_list_def sample_load proceed_check assertUniqueConnectorIds_def)
      (simp add: sample_record_def unique_step_def)
qed

lemma catalog_records_stable_witness:
  "loadRecord sample_catalog_host ''gsap'' (sample_catalog\<lparr>cat_records := [(''gsap'', sample_record)]\<rparr>) =
    (Inr sample_record, sample_catalog\<lparr>cat_records := [(''gsap'', sample_record)]\<rparr>)"
proof -
  have reach: "catalog_reachable (sample_catalog\<lparr>cat_records := [(''gsap'', sample_record)]\<rparr>)"
    using sample_catalog_new Catalog_list [OF sample_list] unfolding catalog_reachable_def by blast
  show ?thesis
    using catalog_records_stable [OF reach rtranclp.rtrancl_refl, of "''gsap''" sample_record sample_catalog_host] by simp
qed

lemma catalog_list_sound_witness:
  "catalog_list sample_catalog_host sample_catalog =
      (Inr [sample_record], sample_catalog\<lparr>cat_records := [(''gsap'', sample_record)]\<rparr>) \<and>
    distinct (v2_ids [sample_record])"
  using sample_list catalog_list_sound [OF sample_catalog_reachable sample_list] by blast

lemma catalog_health_sound_witness:
  "\<exists>report t. catalog_health sample_catalog_host ''gsap'' sample_catalog = (report, t) \<and>
    health_state report = HHealthy"
proof -
  let ?report = "evaluateConnectorHealth (ch_health sample_catalog_host) sample_record
      \<lparr>hc_now = ch_now sample_catalog_host, hc_directory = Some (path_dirname (record_path sample_record))\<rparr>"
  have run: "catalog_health sample_catalog_host ''gsap'' sample_catalog =
      (?report, sample_catalog\<lparr>cat_records := [(''gsap'', sample_record)]\<rparr>)"
    by (simp add: catalog_health_def directory_health_def sample_load) (simp add: sample_catalog_def)
  have "health_selectable ?report" by (simp add: sample_record_def Let_def gsap_fields)
  from catalog_health_sound [OF sample_catalog_reachable run this]
  have "health_state ?report = HHealthy"
    by (auto simp: sample_record_def gsap_fields simp del: evaluateConnectorHealth.simps split: if_splits)
  then show ?thesis using run by blast
qed

definition sample_wire :: catalog_wire where
  "sample_wire = \<lparr>wire_collate = code_unit_compare, wire_sha = (\<lambda>s. s), wire_manifest = (\<lambda>_. JNull),
     wire_catalog = (\<lambda>_. JNull), wire_valid = accept_all\<rparr>"

lemma snapshot_identifies_catalog_witness:
  "\<forall>cat. \<exists>a b. buildCatalogSnapshot sample_wire cat [sample_record] ''t'' = Inr a \<and>
    buildCatalogSnapshot sample_wire cat [sample_record] ''u'' = Inr b \<and> cs_connectors a = cs_connectors b"
proof
  fix cat
  have build: "\<exists>a. buildCatalogSnapshot sample_wire cat [sample_record] at = Inr a \<and> cs_snapshotId a =
      json_digest (\<lambda>s. s) (snapshot_payload (json_digest (\<lambda>s. s) JNull)
        [\<lparr>cc_id = ''gsap'', cc_connectorVersion = manifest_connectorVersion gsap_manifest,
          cc_digest = json_digest (\<lambda>s. s) JNull, cc_reviewStatus = conn_reviewStatus (manifest_connector gsap_manifest),
          cc_selectable = True\<rparr>])" for at
    by (simp add: buildCatalogSnapshot_def sample_wire_def sample_record_def snapshot_entry_def
        digestJson_finite finite_payload Let_def gsap_fields validateContract_def)
  obtain a b where ab: "buildCatalogSnapshot sample_wire cat [sample_record] ''t'' = Inr a"
    "buildCatalogSnapshot sample_wire cat [sample_record] ''u'' = Inr b" "cs_snapshotId a = cs_snapshotId b"
    using build [of "''t''"] build [of "''u''"] by auto
  show "\<exists>a b. buildCatalogSnapshot sample_wire cat [sample_record] ''t'' = Inr a \<and>
    buildCatalogSnapshot sample_wire cat [sample_record] ''u'' = Inr b \<and> cs_connectors a = cs_connectors b"
    using ab snapshot_identifies_catalog [OF ab] by (auto simp: sample_wire_def)
qed

end
