(* ===== verification/Snapshot_Store.thy ===== *)
theory Snapshot_Store
  imports Contracts_Validation Js_Effects Js_Prelude
begin

text \<open>
  \<open>packages/connectors/src/storage\<close>: the interface \<open>CatalogSnapshotStore\<close> and the store that
  keeps snapshots in memory. A snapshot is cloned through its canonical text, which gives an
  equal one or, where the contract rejects it, an exception. A limit is an integer or infinite (\<open>None\<close>).
\<close>

record snapshot_store =
  ss_snapshots :: "(string \<times> catalog_snapshot) list"
  ss_closed :: bool

definition new_snapshot_store :: snapshot_store where
  "new_snapshot_store = \<lparr>ss_snapshots = [], ss_closed = False\<rparr>"

definition assertCatalogSnapshot :: "catalog_snapshot validator \<Rightarrow> catalog_snapshot \<Rightarrow> catalog_snapshot result" where
  "assertCatalogSnapshot validator value = (case validateContract validator value of
     Inl issues \<Rightarrow> Inl (TypeError (''Invalid catalog snapshot: '' @ validationMessage issues))
   | Inr snapshot \<Rightarrow> Inr snapshot)"

definition cloneSnapshot :: "catalog_snapshot validator \<Rightarrow> catalog_snapshot \<Rightarrow> catalog_snapshot result" where
  "cloneSnapshot validator snapshot = assertCatalogSnapshot validator snapshot"

definition assertStoreOpen :: "snapshot_store \<Rightarrow> unit result" where
  "assertStoreOpen s = guard (ss_closed s) (GenericError ''Catalog snapshot store is closed.'')"

definition snapshot_save :: "catalog_snapshot validator \<Rightarrow> catalog_snapshot \<Rightarrow> snapshot_store \<Rightarrow>
    unit result \<times> snapshot_store" where
  "snapshot_save validator snapshot s =
     proceed (check (chain (assertStoreOpen s) (\<lambda>_. cloneSnapshot validator snapshot)) s)
     (\<lambda>validated s. (Inr (), s\<lparr>ss_snapshots := AList.update (cs_snapshotId validated) validated (ss_snapshots s)\<rparr>))"

definition snapshot_get :: "catalog_snapshot validator \<Rightarrow> string \<Rightarrow> snapshot_store \<Rightarrow> catalog_snapshot option result" where
  "snapshot_get validator snapshotId s = chain (assertStoreOpen s)
     (\<lambda>_. case map_of (ss_snapshots s) snapshotId of
        None \<Rightarrow> Inr None
      | Some snapshot \<Rightarrow> chain (cloneSnapshot validator snapshot) (\<lambda>c. Inr (Some c)))"

definition newest_first :: "(string \<Rightarrow> string \<Rightarrow> int) \<Rightarrow> catalog_snapshot \<Rightarrow> catalog_snapshot \<Rightarrow> int" where
  "newest_first lc = cmp_then (\<lambda>left right. lc (cs_createdAt right) (cs_createdAt left)) (cmp_by lc cs_snapshotId)"

definition limited :: "int option \<Rightarrow> 'a list \<Rightarrow> 'a list" where
  "limited limit xs = (case limit of None \<Rightarrow> xs | Some l \<Rightarrow> take (nat l) xs)"

definition snapshot_list :: "(string \<Rightarrow> string \<Rightarrow> int) \<Rightarrow> catalog_snapshot validator \<Rightarrow> int option \<Rightarrow> snapshot_store \<Rightarrow>
    catalog_snapshot list result" where
  "snapshot_list lc validator limit s = chain (assertStoreOpen s)
     (\<lambda>_. chain (guard (case limit of None \<Rightarrow> False | Some l \<Rightarrow> l < 0)
        (Exn ''RangeError'' '''' ''Snapshot list limit must be non-negative.''))
     (\<lambda>_. map_result (cloneSnapshot validator) (limited limit
        (js_sort (newest_first lc) (map snd (ss_snapshots s))))))"

definition snapshot_close :: "snapshot_store \<Rightarrow> snapshot_store" where
  "snapshot_close s = (if ss_closed s then s else s\<lparr>ss_snapshots := [], ss_closed := True\<rparr>)"

section \<open>The abstract store\<close>

text \<open>A store is closed or a map from ids to valid snapshots of that id.\<close>

definition store_map :: "snapshot_store \<Rightarrow> (string \<Rightarrow> catalog_snapshot option) option" where
  "store_map s = (if ss_closed s then None else Some (map_of (ss_snapshots s)))"

definition store_ok :: "catalog_snapshot validator \<Rightarrow> snapshot_store \<Rightarrow> bool" where
  "store_ok validator s \<longleftrightarrow> distinct (map fst (ss_snapshots s)) \<and>
     (\<forall>i x. map_of (ss_snapshots s) i = Some x \<longrightarrow> cs_snapshotId x = i \<and> validator x = None)"

inductive snapshot_step :: "catalog_snapshot validator \<Rightarrow> snapshot_store \<Rightarrow> snapshot_store \<Rightarrow> bool"
  for validator :: "catalog_snapshot validator" where
  Snapshot_save: "snapshot_save validator x s = (q, t) \<Longrightarrow> snapshot_step validator s t"
| Snapshot_close: "snapshot_step validator s (snapshot_close s)"

lemma clone_Inr [simp]: "cloneSnapshot validator x = Inr y \<longleftrightarrow> validator x = None \<and> y = x"
  by (auto simp: cloneSnapshot_def assertCatalogSnapshot_def split: sum.splits)

lemma clone_valid: "validator x = None \<Longrightarrow> cloneSnapshot validator x = Inr x"
  by simp

lemma clone_invalid: "validator x = Some issues \<Longrightarrow>
    cloneSnapshot validator x = Inl (TypeError (''Invalid catalog snapshot: '' @ validationMessage issues))"
  by (simp add: cloneSnapshot_def assertCatalogSnapshot_def validateContract_def)

lemma save_cases: "snapshot_save validator x s =
    (if ss_closed s then (Inl (GenericError ''Catalog snapshot store is closed.''), s)
     else case validator x of
       Some issues \<Rightarrow> (Inl (TypeError (''Invalid catalog snapshot: '' @ validationMessage issues)), s)
     | None \<Rightarrow> (Inr (), s\<lparr>ss_snapshots := AList.update (cs_snapshotId x) x (ss_snapshots s)\<rparr>))"
  by (simp add: snapshot_save_def assertStoreOpen_def clone_valid clone_invalid check_def split: option.split)

lemma store_okD: "store_ok validator s \<Longrightarrow> map_of (ss_snapshots s) i = Some x \<Longrightarrow>
    cs_snapshotId x = i \<and> validator x = None"
  unfolding store_ok_def by blast

lemma save_ok:
  assumes "store_ok validator s"
  shows "store_ok validator (snd (snapshot_save validator x s))"
proof (cases "\<not> ss_closed s \<and> validator x = None")
  case True
  have "cs_snapshotId y = i \<and> validator y = None"
    if "map_of (AList.update (cs_snapshotId x) x (ss_snapshots s)) i = Some y" for i y
    using that True store_okD [OF assms] by (cases "i = cs_snapshotId x") (simp_all add: map_of_update)
  moreover have "distinct (map fst (AList.update (cs_snapshotId x) x (ss_snapshots s)))"
    using assms by (simp add: store_ok_def distinct_update)
  ultimately show ?thesis using True unfolding store_ok_def by (simp add: save_cases)
next
  case False
  then show ?thesis using assms by (auto simp: save_cases split: option.split)
qed

lemma step_store_ok: "snapshot_step validator s t \<Longrightarrow> store_ok validator s \<Longrightarrow> store_ok validator t"
proof (induction rule: snapshot_step.induct)
  case (Snapshot_save x s q t)
  then show ?case using save_ok [of validator s x] by simp
qed (simp add: snapshot_close_def store_ok_def)

definition snapshot_reachable :: "catalog_snapshot validator \<Rightarrow> snapshot_store \<Rightarrow> bool" where
  "snapshot_reachable validator s \<longleftrightarrow> (snapshot_step validator)\<^sup>*\<^sup>* new_snapshot_store s"

lemma snapshot_reachable_ok:
  assumes "snapshot_reachable validator s"
  shows "store_ok validator s"
  using assms unfolding snapshot_reachable_def
proof (induction rule: rtranclp_induct)
  case base
  then show ?case by (simp add: store_ok_def new_snapshot_store_def)
qed (rule step_store_ok)

lemma map_result_clone: "\<forall>x \<in> set xs. validator x = None \<Longrightarrow> map_result (cloneSnapshot validator) xs = Inr xs"
  by (induction xs) (auto simp: clone_valid)

lemma snapshots_ran: "distinct (map fst al) \<Longrightarrow> set (map snd al) = ran (map_of al)"
  by (simp add: ran_distinct)

lemma comparator_descending: "comparator cmp \<Longrightarrow> comparator (\<lambda>left right. cmp (f right) (f left))"
  unfolding comparator_def by blast

section \<open>Properties\<close>

text \<open>
  The order of a listing: no snapshot was created before a later one of the list, and snapshots of
  the same time follow their ids.
\<close>

definition newest_order :: "(string \<Rightarrow> string \<Rightarrow> int) \<Rightarrow> catalog_snapshot list \<Rightarrow> bool" where
  "newest_order lc xs \<longleftrightarrow> (\<forall>n m. n < m \<and> m < length xs \<longrightarrow>
     0 \<le> lc (cs_createdAt (xs ! n)) (cs_createdAt (xs ! m)) \<and>
     (lc (cs_createdAt (xs ! n)) (cs_createdAt (xs ! m)) = 0 \<longrightarrow>
        lc (cs_snapshotId (xs ! n)) (cs_snapshotId (xs ! m)) \<le> 0))"

lemma newest_first_le:
  assumes "comparator lc" and "newest_first lc x y \<le> 0"
  shows "0 \<le> lc (cs_createdAt x) (cs_createdAt y) \<and>
     (lc (cs_createdAt x) (cs_createdAt y) = 0 \<longrightarrow> lc (cs_snapshotId x) (cs_snapshotId y) \<le> 0)"
proof (cases "lc (cs_createdAt y) (cs_createdAt x) = 0")
  case True
  then have "lc (cs_createdAt x) (cs_createdAt y) = 0"
    using comparator.cmp_zero_iff [OF assms(1)] by metis
  then show ?thesis using assms(2) True by (simp add: newest_first_def cmp_then_def cmp_by_def)
next
  case False
  then have "lc (cs_createdAt y) (cs_createdAt x) < 0"
    using assms(2) by (simp add: newest_first_def cmp_then_def Let_def)
  then have "0 < lc (cs_createdAt x) (cs_createdAt y)"
    using comparator.cmp_flip [OF assms(1), of "cs_createdAt x" "cs_createdAt y"] by linarith
  then show ?thesis by simp
qed

lemma newest_order_sorted:
  assumes "comparator lc" and "sorted_wrt (\<lambda>a b. newest_first lc a b \<le> 0) xs"
  shows "newest_order lc xs"
  using sorted_wrt_nth_less [OF assms(2)] newest_first_le [OF assms(1)]
  unfolding newest_order_def by blast

text \<open>
  C33: The store in memory implements a closable map of snapshots. In every reachable state saving
  adds exactly a valid snapshot under its id and an invalid one changes nothing; getting reads the map;
  listing gives the stored snapshots, each once and cut at the limit, the newest first: the creation
  times never ascend, and equal times are ordered by id; a closed store refuses every operation, and closing it forgets everything.
\<close>

theorem snapshot_store_refines:
  assumes "snapshot_reachable validator s" and "comparator lc"
  shows "case store_map s of
      None \<Rightarrow> (\<exists>e. snapshot_save validator x s = (Inl e, s) \<and> snapshot_get validator i s = Inl e \<and>
        snapshot_list lc validator limit s = Inl e)
    | Some m \<Rightarrow>
        store_map (snd (snapshot_save validator x s)) =
          Some (if validator x = None then m(cs_snapshotId x \<mapsto> x) else m) \<and>
        (fst (snapshot_save validator x s) = Inr () \<longleftrightarrow> validator x = None) \<and>
        snapshot_get validator i s = Inr (m i) \<and>
        (case snapshot_list lc validator limit s of
           Inl e \<Rightarrow> limit \<noteq> None \<and> the limit < 0
         | Inr xs \<Rightarrow> (\<exists>ys. xs = limited limit ys \<and> set ys = ran m \<and> distinct ys \<and>
             newest_order lc ys)) \<and>
        store_map (snapshot_close s) = None"
proof (cases "ss_closed s")
  case True
  then show ?thesis
    by (simp add: store_map_def save_cases snapshot_get_def snapshot_list_def assertStoreOpen_def)
next
  case False
  note ok = snapshot_reachable_ok [OF assms(1)]
  let ?ys = "js_sort (newest_first lc) (map snd (ss_snapshots s))"
  have distinct: "distinct (map fst (ss_snapshots s))" using ok by (simp add: store_ok_def)
  then have ran: "set ?ys = ran (map_of (ss_snapshots s))" using snapshots_ran by simp
  have entry: "cs_snapshotId x = i \<and> validator x = None" if "(i, x) \<in> set (ss_snapshots s)" for i x
    using that ok distinct by (auto simp: store_ok_def)
  have ids: "map cs_snapshotId (map snd (ss_snapshots s)) = map fst (ss_snapshots s)"
    using entry by auto
  have once: "distinct ?ys" using distinct ids by (metis distinct_js_sort distinct_map)
  have cmp: "comparator (newest_first lc)"
    unfolding newest_first_def
    by (rule comparator_then [OF comparator_descending [OF assms(2)] comparator_by [OF assms(2)]])
  have valid: "\<forall>x \<in> set (limited limit ?ys). validator x = None"
    using entry by (auto simp: limited_def dest!: in_set_takeD split: option.splits)
  have list: "snapshot_list lc validator limit s =
      (if (case limit of None \<Rightarrow> False | Some l \<Rightarrow> l < 0)
       then Inl (Exn ''RangeError'' '''' ''Snapshot list limit must be non-negative.'')
       else Inr (limited limit ?ys))"
    using False map_result_clone [OF valid] by (simp add: snapshot_list_def assertStoreOpen_def)
  have save: "store_map (snd (snapshot_save validator x s)) =
      Some (if validator x = None then (map_of (ss_snapshots s))(cs_snapshotId x \<mapsto> x) else map_of (ss_snapshots s))"
    "fst (snapshot_save validator x s) = Inr () \<longleftrightarrow> validator x = None"
    using False by (simp_all add: store_map_def save_cases map_of_update split: option.split)
  have get: "snapshot_get validator i s = Inr (map_of (ss_snapshots s) i)"
    using False store_okD [OF ok] by (simp add: snapshot_get_def assertStoreOpen_def clone_valid split: option.split)
  have sorted: "newest_order lc ?ys"
    by (rule newest_order_sorted [OF assms(2) comparator.sorted_js_sort [OF cmp]])
  have listed: "case snapshot_list lc validator limit s of
      Inl e \<Rightarrow> limit \<noteq> None \<and> the limit < 0
    | Inr xs \<Rightarrow> (\<exists>ys. xs = limited limit ys \<and> set ys = ran (map_of (ss_snapshots s)) \<and> distinct ys \<and>
        newest_order lc ys)"
  proof (cases "case limit of None \<Rightarrow> False | Some l \<Rightarrow> l < 0")
    case True
    then show ?thesis using list by (cases limit) simp_all
  next
    case out: False
    then have "snapshot_list lc validator limit s = Inr (limited limit ?ys)" using list by simp
    then show ?thesis using ran once sorted by (simp only: sum.case) blast
  qed
  have "store_map (snapshot_close s) = None" using False by (simp add: store_map_def snapshot_close_def)
  moreover have "store_map s = Some (map_of (ss_snapshots s))" using False by (simp add: store_map_def)
  ultimately show ?thesis using save get listed by (simp only: option.case)
qed


definition sample_snapshot :: catalog_snapshot where
  "sample_snapshot = \<lparr>cs_snapshotId = ''s'', cs_createdAt = ''t'', cs_capabilityCatalogDigest = ''d'',
     cs_connectors = []\<rparr>"

lemma snapshot_store_refines_witness:
  "\<exists>t. snapshot_save accept_all sample_snapshot new_snapshot_store = (Inr (), t) \<and>
     snapshot_get accept_all ''s'' t = Inr (Some sample_snapshot)"
proof -
  obtain t where t: "snapshot_save accept_all sample_snapshot new_snapshot_store = (Inr (), t)"
    by (simp add: save_cases new_snapshot_store_def)
  then have reach: "snapshot_reachable accept_all t"
    unfolding snapshot_reachable_def by (blast intro: Snapshot_save)
  have "store_map t = Some [''s'' \<mapsto> sample_snapshot]"
    using t by (auto simp: save_cases new_snapshot_store_def store_map_def sample_snapshot_def)
  then show ?thesis
    using t snapshot_store_refines [OF reach code_units.comparator_axioms, of sample_snapshot "''s''" None] by auto
qed

end
