(* ===== verification/Json_Strings.thy ===== *)
theory Json_Strings
  imports Run_Grants
begin

text \<open>
  \<open>JSON.parse\<close> where its result only counts when it is an array of strings, as in the SQLite
  grant repository: \<open>parse_strings s\<close> is that array, and \<open>None\<close> when \<open>s\<close> is malformed or denotes
  another value. A string is a list of code units below 256, so that \<open>\<bslash>uXXXX\<close> above \<open>00FF\<close> yields
  \<open>None\<close>. The theorem is that it inverts \<open>JSON.stringify\<close>.
\<close>

section \<open>The parser\<close>

text \<open>The escape after a backslash, and what follows it.\<close>

definition short_escapes :: "(char \<times> nat) list" where
  "short_escapes = [(CHR 0x22, 34), (CHR 0x5C, 92), (CHR 0x2F, 47), (CHR ''b'', 8),
     (CHR ''f'', 12), (CHR ''n'', 10), (CHR ''r'', 13), (CHR ''t'', 9)]"

fun unescape :: "string \<Rightarrow> (char \<times> string) option" where
  "unescape [] = None"
| "unescape (e # rest) = (if e = CHR ''u'' then
      (case rest of
         a # b # c # d # rest' \<Rightarrow> (case (hex_val a, hex_val b, hex_val c, hex_val d) of
            (Some 0, Some 0, Some x, Some y) \<Rightarrow> Some (char_of (16 * x + y), rest')
          | _ \<Rightarrow> None)
       | _ \<Rightarrow> None)
    else map_option (\<lambda>n. (char_of n, rest)) (map_of short_escapes e))"

lemma unescape_shorter: "unescape s = Some (c, rest) \<Longrightarrow> length rest < length s"
  by (cases s) (auto split: if_splits list.splits option.splits nat.splits)

text \<open>The rest of a string literal, up to its closing quote.\<close>

function scan_string :: "string \<Rightarrow> (string \<times> string) option" where
  "scan_string [] = None"
| "scan_string (c # rest) =
     (if c = CHR 0x22 then Some ([], rest)
      else if c = CHR 0x5C then (case unescape rest of
         None \<Rightarrow> None
       | Some (ch, rest') \<Rightarrow> map_option (\<lambda>(s, r). (ch # s, r)) (scan_string rest'))
      else if (of_char c :: nat) < 32 then None
      else map_option (\<lambda>(s, r). (c # s, r)) (scan_string rest))"
  by pat_completeness auto
termination by (relation "measure length") (auto dest: unescape_shorter)

lemma scan_string_shorter: "scan_string s = Some (x, rest) \<Longrightarrow> length rest < length s"
proof (induction s arbitrary: x rest rule: scan_string.induct)
  case (2 c s)
  show ?case
  proof (cases "c = CHR 0x5C")
    case True
    then obtain ch s' y where u: "unescape s = Some (ch, s')" "scan_string s' = Some (y, rest)"
      using "2.prems" by (auto split: option.splits)
    have "length rest < length s'" using "2.IH"(1) [OF _ True u(1) refl u(2)] True by simp
    then show ?thesis using unescape_shorter [OF u(1)] by simp
  next
    case False
    then show ?thesis using "2.prems" "2.IH"(2) by (fastforce split: if_splits)
  qed
qed simp

definition json_space :: "char \<Rightarrow> bool" where
  "json_space c \<longleftrightarrow> c \<in> set [CHR 0x20, CHR 0x09, CHR 0x0A, CHR 0x0D]"

definition skip_space :: "string \<Rightarrow> string" where
  "skip_space s = dropWhile json_space s"

lemma skip_space_length: "length (skip_space s) \<le> length s"
  by (simp add: skip_space_def length_dropWhile_le)

text \<open>The elements after a quote that opens the first of them.\<close>

function scan_items :: "string \<Rightarrow> (string list \<times> string) option" where
  "scan_items s = (case scan_string s of
     None \<Rightarrow> None
   | Some (x, rest) \<Rightarrow> (case skip_space rest of
        [] \<Rightarrow> None
      | c # rest' \<Rightarrow>
          if c = CHR '']'' then Some ([x], rest')
          else if c = CHR '','' then (case skip_space rest' of
             [] \<Rightarrow> None
           | q # rest'' \<Rightarrow> if q = CHR 0x22
               then map_option (\<lambda>(xs, r). (x # xs, r)) (scan_items rest'') else None)
          else None))"
  by pat_completeness auto
termination
proof (relation "measure length", goal_cases)
  case (2 s p x rest c rest' q rest'')
  have "length rest < length s" using 2(1) scan_string_shorter [of s x rest] unfolding 2(2) by simp
  moreover have "Suc (length rest') \<le> length rest" using skip_space_length [of rest] 2(3) by simp
  moreover have "Suc (length rest'') \<le> length rest'" using skip_space_length [of rest'] 2(6) by simp
  ultimately show ?case by simp
qed simp

definition parse_strings :: "string \<Rightarrow> string list option" where
  "parse_strings s = (case skip_space s of
     [] \<Rightarrow> None
   | c # rest \<Rightarrow> if c \<noteq> CHR ''['' then None else (case skip_space rest of
        [] \<Rightarrow> None
      | d # rest' \<Rightarrow>
          if d = CHR '']'' then (if skip_space rest' = [] then Some [] else None)
          else if d = CHR 0x22 then (case scan_items rest' of
             Some (xs, tail) \<Rightarrow> if skip_space tail = [] then Some xs else None
           | None \<Rightarrow> None)
          else None))"

section \<open>The round trip\<close>

lemma hex_val_digit: "n < 16 \<Longrightarrow> hex_val (hex_digit n) = Some n"
  by (auto simp: hex_val_def hex_digit_def Let_def)

lemma hex_val_zero: "hex_val CHR ''0'' = Some 0"
  by (simp add: hex_val_def)

lemma scan_escape:
  "scan_string (json_escape c @ s) = map_option (\<lambda>(x, r). (c # x, r)) (scan_string s)"
proof (cases rule: json_escape_cases [of c])
  case (short k)
  have "map_of short_escapes k = Some (of_char c)"
    using short(3) by (auto simp: short_escapes_def)
  then show ?thesis using short(1,2) by (simp add: of_char_eq_iff)
next
  case hex
  have "(of_char c :: nat) div 16 < 16" "(of_char c :: nat) mod 16 < 16"
    using hex(2) by auto
  moreover have "char_of (16 * (of_char c div 16) + of_char c mod 16 :: nat) = c"
    by (simp only: mult_div_mod_eq) simp
  ultimately show ?thesis unfolding hex(1) by (simp add: hex_val_digit hex_val_zero)
next
  case plain
  have "c \<noteq> CHR 0x22" "\<not> (of_char c :: nat) < 32"
    using plain(1) by (auto simp: json_escape_def Let_def split: if_splits)
  then show ?thesis using plain by simp
qed

lemma scan_quoted: "scan_string (concat (map json_escape x) @ CHR 0x22 # rest) = Some (x, rest)"
proof (induction x)
  case (Cons c x)
  show ?case by (simp only: list.map concat.simps append_assoc scan_escape Cons.IH) simp
qed simp

lemma skip_space_stop: "\<not> json_space c \<Longrightarrow> skip_space (c # s) = c # s"
  by (simp add: skip_space_def)

lemma not_json_space [simp]:
  "\<not> json_space CHR ''[''" "\<not> json_space CHR '']''" "\<not> json_space CHR '',''" "\<not> json_space CHR 0x22"
  by (simp_all add: json_space_def)

lemma json_quote_Cons: "json_quote x @ s = CHR 0x22 # concat (map json_escape x) @ CHR 0x22 # s"
  by (simp add: json_quote_def)

lemma scan_items_printed:
  "scan_items (concat (map json_escape x) @ CHR 0x22 # (if xs = [] then [] else
      '','' @ js_join '','' (map json_quote xs)) @ '']'' @ s) = Some (x # xs, s)"
proof (induction xs arbitrary: x)
  case Nil
  show ?case
    by (subst scan_items.simps) (simp add: scan_quoted skip_space_stop)
next
  case (Cons y ys)
  have list: "js_join '','' (map json_quote (y # ys)) @ '']'' @ s =
      CHR 0x22 # concat (map json_escape y) @ CHR 0x22 # (if ys = [] then [] else
        '','' @ js_join '','' (map json_quote ys)) @ '']'' @ s"
    by (simp add: js_join_Cons json_quote_Cons)
  show ?case
    by (subst scan_items.simps)
      (simp del: scan_items.simps js_join.simps list.map
        add: scan_quoted skip_space_stop list [simplified] Cons.IH [simplified])
qed

text \<open>\<open>JSON.parse(JSON.stringify(xs))\<close> is \<open>xs\<close>, for an array of strings.\<close>

lemma parse_stringify: "parse_strings (print_json (strs_json xs)) = Some xs"
proof (cases xs)
  case Nil
  then show ?thesis by (simp add: parse_strings_def strs_json_def skip_space_stop) (simp add: skip_space_def)
next
  case (Cons y ys)
  have printed: "print_json (strs_json xs) = CHR ''['' # CHR 0x22 # concat (map json_escape y) @
      CHR 0x22 # (if ys = [] then [] else '','' @ js_join '','' (map json_quote ys)) @ '']'' @ []"
    by (simp add: Cons strs_json_def js_join_Cons json_quote_Cons comp_def)
  show ?thesis
    unfolding printed parse_strings_def
    by (simp only: skip_space_stop not_json_space not_False_eq_True scan_items_printed list.case
        option.case prod.case simp_thms if_True if_False)
      (simp add: skip_space_def Cons)
qed

end
