(* ===== verification/Sqlite_Grants.thy ===== *)
theory Sqlite_Grants
  imports Json_Strings Grant_Store Audit_Log Js_Effects
begin

text \<open>
  \<open>packages/core/src/sqlite-run-grants.ts\<close>: the grant repository kept in a SQLite database. A
  table is the list of its rows in insertion order; the tables are \<open>STRICT\<close>, so that a column has
  its declared type and the \<open>typeof\<close> tests of the code hold. A statement is a function on the
  database that also says which error it raises, with the constraints the schema declares;
  \<open>transaction\<close> undoes what its body wrote when the body throws. \<open>BEGIN IMMEDIATE\<close> serialises the
  connections, so an operation is one step.

  Left out: errors of the file system and of locking (the operation throws and is rolled back),
  the text of a failed \<open>CHECK\<close> expression, and strings that contain U+0000.
\<close>

section \<open>The tables\<close>

record grant_row =
  col_issuer_id :: string
  col_grant_id :: string
  col_token_hash :: string
  col_run_id :: string
  col_provider_id :: string
  col_tool_ids_json :: string
  col_inventory_digest :: string
  col_protocol_version :: string
  col_extensions_json :: string
  col_issued_at :: string
  col_expires_at :: string
  col_max_calls :: int
  col_max_response_bytes :: int
  col_max_total_response_bytes :: int
  col_calls_used :: int
  col_response_bytes_used :: int
  col_state :: string
  col_revision :: int

record reservation_row =
  res_reservation_id :: string
  res_issuer_id :: string
  res_grant_id :: string
  res_reservation_revision :: int
  res_max_response_bytes :: int

record grant_database =
  db_open :: bool
  db_grants :: "grant_row list"
  db_reservations :: "reservation_row list"

fun grant_state_name :: "run_grant_state \<Rightarrow> string" where
  "grant_state_name GrantActive = ''active''"
| "grant_state_name GrantRevoked = ''revoked''"
| "grant_state_name GrantExpired = ''expired''"
| "grant_state_name GrantConsumed = ''consumed''"
| "grant_state_name GrantExhausted = ''exhausted''"

definition grant_states :: "(string \<times> run_grant_state) list" where
  "grant_states = map (\<lambda>s. (grant_state_name s, s))
     [GrantActive, GrantRevoked, GrantExpired, GrantConsumed, GrantExhausted]"

section \<open>Reading columns\<close>

definition stored_invalid :: exn where
  "stored_invalid = TypeError ''Invalid stored run grant.''"

definition sql_text :: "string \<Rightarrow> string result" where
  "sql_text v = chain (guard (blank v) stored_invalid) (\<lambda>_. Inr v)"

definition sql_timestamp :: "(string \<Rightarrow> int option) \<Rightarrow> string \<Rightarrow> string result" where
  "sql_timestamp parse v = chain (sql_text v)
     (\<lambda>t. chain (guard (parse t = None) stored_invalid) (\<lambda>_. Inr t))"

definition sql_positive :: "int \<Rightarrow> int result" where
  "sql_positive v = chain (guard (\<not> isSafeInteger v \<or> v \<le> 0) stored_invalid) (\<lambda>_. Inr v)"

definition sql_nonNegative :: "int \<Rightarrow> int result" where
  "sql_nonNegative v = chain (guard (\<not> isSafeInteger v \<or> v < 0) stored_invalid) (\<lambda>_. Inr v)"

definition sql_state :: "string \<Rightarrow> run_grant_state result" where
  "sql_state v = (case map_of grant_states v of None \<Rightarrow> Inl stored_invalid | Some s \<Rightarrow> Inr s)"

definition sql_digest :: "string \<Rightarrow> string result" where
  "sql_digest v = chain (sql_text v)
     (\<lambda>d. chain (guard (\<not> digest_text d) stored_invalid) (\<lambda>_. Inr d))"

text \<open>\<open>/^[0-9a-f]{64}$/\<close>.\<close>

definition hash_text :: "string \<Rightarrow> bool" where
  "hash_text s \<longleftrightarrow> length s = 64 \<and> list_all lower_hex s"

definition sql_tokenHash :: "string \<Rightarrow> string result" where
  "sql_tokenHash v = chain (sql_text v)
     (\<lambda>h. chain (guard (\<not> hash_text h) stored_invalid) (\<lambda>_. Inr h))"

definition sql_stringArray :: "string \<Rightarrow> string list result" where
  "sql_stringArray v = (case parse_strings v of
     None \<Rightarrow> Inl stored_invalid
   | Some xs \<Rightarrow> chain (guard (list_ex blank xs \<or> \<not> distinct xs) stored_invalid) (\<lambda>_. Inr xs))"

text \<open>Comparisons of \<open>Date.parse\<close>; with NaN they are false.\<close>

definition date_le :: "(string \<Rightarrow> int option) \<Rightarrow> string \<Rightarrow> string \<Rightarrow> bool" where
  "date_le parse a b = (case (parse a, parse b) of (Some x, Some y) \<Rightarrow> x \<le> y | _ \<Rightarrow> False)"

definition date_gt :: "(string \<Rightarrow> int option) \<Rightarrow> string \<Rightarrow> string \<Rightarrow> bool" where
  "date_gt parse a b = (case (parse a, parse b) of (Some x, Some y) \<Rightarrow> x > y | _ \<Rightarrow> False)"

text \<open>\<open>active\<close> and \<open>revision\<close>.\<close>

definition sql_active :: "(string \<Rightarrow> int option) \<Rightarrow> stored_run_grant \<Rightarrow> string \<Rightarrow> unit result" where
  "sql_active parse record now =
     chain (guard (grant_state record \<noteq> GrantActive) (TypeError ''Run grant is not active.''))
     (\<lambda>_. guard (parse now = None \<or> date_le parse (grant_expiresAt record) now)
        (TypeError ''Run grant has expired.''))"

definition sql_revision :: "stored_run_grant \<Rightarrow> int \<Rightarrow> unit result" where
  "sql_revision record expected =
     guard (\<not> isSafeInteger expected \<or> grant_revision record \<noteq> expected)
       (TypeError ''Run grant revision mismatch.'')"

text \<open>\<open>#decode\<close>, the two counters being the subqueries of \<open>#read\<close>.\<close>

definition sql_decode :: "(string \<Rightarrow> int option) \<Rightarrow> grant_row \<Rightarrow> int \<Rightarrow> int \<Rightarrow>
    stored_run_grant result" where
  "sql_decode parse row reserved_calls reserved_response_bytes =
     chain (sql_timestamp parse (col_issued_at row)) (\<lambda>issuedAt.
     chain (sql_timestamp parse (col_expires_at row)) (\<lambda>expiresAt.
     chain (guard (date_le parse expiresAt issuedAt) stored_invalid) (\<lambda>_.
     chain (sql_positive (col_max_calls row)) (\<lambda>maxCalls.
     chain (sql_positive (col_max_response_bytes row)) (\<lambda>maxResponseBytes.
     chain (sql_positive (col_max_total_response_bytes row)) (\<lambda>maxTotalResponseBytes.
     chain (sql_nonNegative (col_calls_used row)) (\<lambda>callsUsed.
     chain (sql_nonNegative (col_response_bytes_used row)) (\<lambda>responseBytesUsed.
     chain (sql_nonNegative reserved_calls) (\<lambda>reservedCalls.
     chain (sql_nonNegative reserved_response_bytes) (\<lambda>reservedResponseBytes.
     chain (guard (maxResponseBytes > maxTotalResponseBytes \<or>
         callsUsed + reservedCalls > maxCalls \<or>
         responseBytesUsed + reservedResponseBytes > maxTotalResponseBytes) stored_invalid) (\<lambda>_.
     chain (sql_text (col_grant_id row)) (\<lambda>id'.
     chain (sql_text (col_issuer_id row)) (\<lambda>issuerId.
     chain (sql_tokenHash (col_token_hash row)) (\<lambda>hash.
     chain (sql_text (col_run_id row)) (\<lambda>runId.
     chain (sql_text (col_provider_id row)) (\<lambda>providerId.
     chain (sql_stringArray (col_tool_ids_json row)) (\<lambda>toolIds.
     chain (sql_digest (col_inventory_digest row)) (\<lambda>inventoryDigest.
     chain (sql_text (col_protocol_version row)) (\<lambda>protocolVersion.
     chain (sql_stringArray (col_extensions_json row)) (\<lambda>extensions.
     chain (sql_state (col_state row)) (\<lambda>state.
     chain (sql_nonNegative (col_revision row)) (\<lambda>revision.
       Inr \<lparr>grant_id = id', grant_issuerId = issuerId, grant_tokenHash = hash, grant_runId = runId,
         grant_providerId = providerId, grant_toolIds = toolIds,
         grant_inventoryDigest = inventoryDigest, grant_protocolVersion = protocolVersion,
         grant_extensions = extensions, grant_issuedAt = issuedAt, grant_expiresAt = expiresAt,
         grant_maxCalls = maxCalls, grant_maxResponseBytes = maxResponseBytes,
         grant_maxTotalResponseBytes = maxTotalResponseBytes, grant_callsUsed = callsUsed,
         grant_responseBytesUsed = responseBytesUsed, grant_reservedCalls = reservedCalls,
         grant_reservedResponseBytes = reservedResponseBytes, grant_state = state,
         grant_revision = revision\<rparr>))))))))))))))))))))))"

text \<open>\<open>DatabaseSync\<close> refuses a closed database, and an integer that is no exact number.\<close>

definition database_closed :: exn where
  "database_closed = Exn ''Error'' ''ERR_INVALID_STATE'' ''database is not open''"

definition out_of_range :: "int \<Rightarrow> exn" where
  "out_of_range v = Exn ''RangeError'' ''ERR_OUT_OF_RANGE''
     (''Value is too large to be represented as a JavaScript number: '' @ int_str v)"

definition js_numbers :: "int list \<Rightarrow> unit result" where
  "js_numbers vs = for_each (\<lambda>v _. guard (\<not> isSafeInteger v) (out_of_range v)) vs ()"

text \<open>The \<open>SELECT\<close> of \<open>#read\<close> and its decoding.\<close>

definition row_of :: "string \<Rightarrow> string \<Rightarrow> grant_row \<Rightarrow> bool" where
  "row_of i k row \<longleftrightarrow> col_issuer_id row = i \<and> col_grant_id row = k"

definition held_rows :: "grant_database \<Rightarrow> string \<Rightarrow> string \<Rightarrow> reservation_row list" where
  "held_rows db i k =
     filter (\<lambda>x. res_issuer_id x = i \<and> res_grant_id x = k) (db_reservations db)"

definition sql_reserved_calls :: "grant_database \<Rightarrow> grant_row \<Rightarrow> int" where
  "sql_reserved_calls db row = int (length (held_rows db (col_issuer_id row) (col_grant_id row)))"

definition sql_reserved_bytes :: "grant_database \<Rightarrow> grant_row \<Rightarrow> int" where
  "sql_reserved_bytes db row =
     sum_list (map res_max_response_bytes (held_rows db (col_issuer_id row) (col_grant_id row)))"

definition sql_read :: "(string \<Rightarrow> int option) \<Rightarrow> grant_database \<Rightarrow> string \<Rightarrow> string \<Rightarrow>
    stored_run_grant option result" where
  "sql_read parse db issuerId grantId = chain (guard (\<not> db_open db) database_closed)
     (\<lambda>_. case find (row_of issuerId grantId) (db_grants db) of
        None \<Rightarrow> Inr None
      | Some row \<Rightarrow>
          let calls = sql_reserved_calls db row; bytes = sql_reserved_bytes db row in
          chain (js_numbers [col_max_calls row, col_max_response_bytes row,
            col_max_total_response_bytes row, col_calls_used row, col_response_bytes_used row,
            col_revision row, calls, bytes])
          (\<lambda>_. chain (sql_decode parse row calls bytes) (\<lambda>record. Inr (Some record))))"

definition sql_required :: "(string \<Rightarrow> int option) \<Rightarrow> string \<Rightarrow> string \<Rightarrow> grant_database \<Rightarrow>
    stored_run_grant result" where
  "sql_required parse issuerId grantId db = chain (sql_read parse db issuerId grantId)
     (\<lambda>record. case record of None \<Rightarrow> Inl (TypeError ''Unknown run grant.'') | Some g \<Rightarrow> Inr g)"

section \<open>Statements\<close>

text \<open>SQL \<open>length(trim(s)) > 0\<close>: \<open>trim\<close> strips spaces only, \<open>length\<close> ends at U+0000.\<close>

definition sql_filled :: "string \<Rightarrow> bool" where
  "sql_filled s = (case dropWhile (\<lambda>c. c = CHR '' '') s of [] \<Rightarrow> False | c # _ \<Rightarrow> c \<noteq> CHR 0x00)"

definition grant_checks :: "grant_row \<Rightarrow> bool" where
  "grant_checks row \<longleftrightarrow> sql_filled (col_issuer_id row) \<and> sql_filled (col_grant_id row) \<and>
     col_max_calls row > 0 \<and> col_max_response_bytes row > 0 \<and>
     col_max_total_response_bytes row > 0 \<and>
     col_max_response_bytes row \<le> col_max_total_response_bytes row \<and>
     col_calls_used row \<ge> 0 \<and> col_calls_used row \<le> col_max_calls row \<and>
     col_response_bytes_used row \<ge> 0 \<and>
     col_response_bytes_used row \<le> col_max_total_response_bytes row \<and>
     col_revision row \<ge> 0 \<and> map_of grant_states (col_state row) \<noteq> None"

definition reservation_checks :: "reservation_row \<Rightarrow> bool" where
  "reservation_checks x \<longleftrightarrow> sql_filled (res_reservation_id x) \<and> res_reservation_revision x \<ge> 0 \<and>
     res_max_response_bytes x > 0"

definition sql_insert_grant :: "grant_row \<Rightarrow> (grant_database, unit) effect" where
  "sql_insert_grant row db =
     (if \<not> grant_checks row then (Inl (GenericError ''CHECK constraint failed''), db)
      else if list_ex (row_of (col_issuer_id row) (col_grant_id row)) (db_grants db)
      then (Inl (GenericError
        ''UNIQUE constraint failed: run_grants.issuer_id, run_grants.grant_id''), db)
      else (Inr (), db\<lparr>db_grants := db_grants db @ [row]\<rparr>))"

text \<open>\<open>UPDATE run_grants SET \<dots> WHERE issuer_id = ? AND grant_id = ? AND revision = ?\<close>.\<close>

definition sql_update_grant :: "string \<Rightarrow> string \<Rightarrow> int \<Rightarrow> (grant_row \<Rightarrow> grant_row) \<Rightarrow>
    (grant_database, nat) effect" where
  "sql_update_grant i k n f db =
     (let hit = (\<lambda>row. row_of i k row \<and> col_revision row = n);
          hits = filter hit (db_grants db) in
      if \<not> list_all (\<lambda>row. grant_checks (f row)) hits
      then (Inl (GenericError ''CHECK constraint failed''), db)
      else (Inr (length hits), db\<lparr>db_grants := map (\<lambda>row. if hit row then f row else row) (db_grants db)\<rparr>))"

definition sql_insert_reservation :: "reservation_row \<Rightarrow> (grant_database, unit) effect" where
  "sql_insert_reservation x db =
     (if \<not> reservation_checks x then (Inl (GenericError ''CHECK constraint failed''), db)
      else if list_ex (\<lambda>y. res_reservation_id y = res_reservation_id x) (db_reservations db)
      then (Inl (GenericError ''UNIQUE constraint failed: call_reservations.reservation_id''), db)
      else if \<not> list_ex (row_of (res_issuer_id x) (res_grant_id x)) (db_grants db)
      then (Inl (GenericError ''FOREIGN KEY constraint failed''), db)
      else (Inr (), db\<lparr>db_reservations := db_reservations db @ [x]\<rparr>))"

definition sql_delete_reservation :: "string \<Rightarrow> (grant_database, unit) effect" where
  "sql_delete_reservation i db = (Inr (),
     db\<lparr>db_reservations := filter (\<lambda>x. res_reservation_id x \<noteq> i) (db_reservations db)\<rparr>)"

text \<open>\<open>#transaction\<close>.\<close>

definition transaction :: "(grant_database, 'a) effect \<Rightarrow> (grant_database, 'a) effect" where
  "transaction operation db =
     (if \<not> db_open db then (Inl database_closed, db)
      else case operation db of
        (Inl e, _) \<Rightarrow> (Inl e, db)
      | (Inr x, db') \<Rightarrow> (Inr x, db'))"

section \<open>The operations\<close>

definition row_of_record :: "stored_run_grant \<Rightarrow> grant_row" where
  "row_of_record g = \<lparr>col_issuer_id = grant_issuerId g, col_grant_id = grant_id g,
     col_token_hash = grant_tokenHash g, col_run_id = grant_runId g,
     col_provider_id = grant_providerId g,
     col_tool_ids_json = print_json (strs_json (grant_toolIds g)),
     col_inventory_digest = grant_inventoryDigest g,
     col_protocol_version = grant_protocolVersion g,
     col_extensions_json = print_json (strs_json (grant_extensions g)),
     col_issued_at = grant_issuedAt g, col_expires_at = grant_expiresAt g,
     col_max_calls = grant_maxCalls g, col_max_response_bytes = grant_maxResponseBytes g,
     col_max_total_response_bytes = grant_maxTotalResponseBytes g,
     col_calls_used = grant_callsUsed g, col_response_bytes_used = grant_responseBytesUsed g,
     col_state = grant_state_name (grant_state g), col_revision = grant_revision g\<rparr>"

definition sql_validateRecord :: "(string \<Rightarrow> int option) \<Rightarrow> stored_run_grant \<Rightarrow> unit result" where
  "sql_validateRecord parse g = chain (sql_decode parse (row_of_record g) (grant_reservedCalls g)
     (grant_reservedResponseBytes g)) (\<lambda>_. Inr ())"

text \<open>The \<open>catch\<close> of \<open>issue\<close>.\<close>

definition unique_violation :: "exn \<Rightarrow> exn" where
  "unique_violation e = (if contains_sub (exn_message e) ''UNIQUE constraint failed''
     then TypeError ''Run grant already exists.'' else e)"

definition sql_issue :: "(string \<Rightarrow> int option) \<Rightarrow> stored_run_grant \<Rightarrow> (grant_database, unit) effect" where
  "sql_issue parse g db =
     proceed (check (chain (sql_validateRecord parse g)
       (\<lambda>_. guard (grant_reservedCalls g \<noteq> 0 \<or> grant_reservedResponseBytes g \<noteq> 0) stored_invalid)) db)
     (\<lambda>_. transaction (\<lambda>db. case sql_insert_grant (row_of_record g) db of
        (Inl e, db) \<Rightarrow> (Inl (unique_violation e), db) | (Inr u, db) \<Rightarrow> (Inr u, db)))"

definition sql_one_change :: "nat \<Rightarrow> unit result" where
  "sql_one_change n = guard (n \<noteq> 1) (TypeError ''Run grant revision mismatch.'')"

definition sql_casRevision :: "stored_run_grant \<Rightarrow> int \<Rightarrow> (grant_database, unit) effect" where
  "sql_casRevision g nextRevision db =
     proceed (sql_update_grant (grant_issuerId g) (grant_id g) (grant_revision g)
       (\<lambda>row. row\<lparr>col_revision := nextRevision\<rparr>) db)
     (\<lambda>n. check (sql_one_change n))"

definition sql_update :: "stored_run_grant \<Rightarrow> int \<Rightarrow> int \<Rightarrow> run_grant_state \<Rightarrow>
    (grant_database, unit) effect" where
  "sql_update g calls bytes state db =
     proceed (sql_update_grant (grant_issuerId g) (grant_id g) (grant_revision g)
       (\<lambda>row. row\<lparr>col_calls_used := calls, col_response_bytes_used := bytes,
          col_state := grant_state_name state, col_revision := grant_revision g + 1\<rparr>) db)
     (\<lambda>n. check (sql_one_change n))"

text \<open>\<open>#reservation\<close>: the stored reservation, which must be the handle itself.\<close>

definition sql_reservation :: "call_reservation \<Rightarrow> grant_database \<Rightarrow> call_reservation result" where
  "sql_reservation handle db =
     (case find (\<lambda>x. res_reservation_id x = rsv_id handle) (db_reservations db) of
        None \<Rightarrow> Inl (TypeError ''Unknown call reservation.'')
      | Some x \<Rightarrow>
          chain (js_numbers [res_reservation_revision x, res_max_response_bytes x]) (\<lambda>_.
          chain (sql_text (res_reservation_id x)) (\<lambda>id'.
          chain (sql_text (res_issuer_id x)) (\<lambda>issuerId.
          chain (sql_text (res_grant_id x)) (\<lambda>grantId.
          chain (sql_nonNegative (res_reservation_revision x)) (\<lambda>revision.
          chain (sql_positive (res_max_response_bytes x)) (\<lambda>maxResponseBytes.
            let stored = \<lparr>rsv_id = id', rsv_grantId = grantId, rsv_issuerId = issuerId,
                  rsv_revision = revision, rsv_maxResponseBytes = maxResponseBytes\<rparr> in
            chain (guard (stored \<noteq> handle) (TypeError ''Unknown call reservation.''))
            (\<lambda>_. Inr stored))))))))"

definition sql_reserveCall :: "(string \<Rightarrow> int option) \<Rightarrow> string \<Rightarrow> string \<Rightarrow> string \<Rightarrow> int \<Rightarrow> string \<Rightarrow>
    (grant_database, call_reservation) effect" where
  "sql_reserveCall parse uuid issuerId grantId expectedRevision now =
     transaction (\<lambda>db.
       proceed (check (chain (sql_required parse issuerId grantId db) (\<lambda>record.
         chain (sql_revision record expectedRevision) (\<lambda>_.
         chain (sql_active parse record now) (\<lambda>_.
         chain (guard (grant_callsUsed record + grant_reservedCalls record \<ge> grant_maxCalls record)
           (TypeError ''Run grant call quota exhausted.'')) (\<lambda>_. Inr record))))) db)
       (\<lambda>record db.
         let remaining = grant_maxTotalResponseBytes record - grant_responseBytesUsed record -
               grant_reservedResponseBytes record in
         proceed (check (guard (\<not> isSafeInteger remaining \<or> remaining \<le> 0)
           (TypeError ''Run grant response quota exhausted.'')) db)
         (\<lambda>_ db.
           let maxResponseBytes = min (grant_maxResponseBytes record) remaining;
               nextRevision = grant_revision record + 1;
               reservation = \<lparr>rsv_id = uuid, rsv_grantId = grantId, rsv_issuerId = issuerId,
                 rsv_revision = nextRevision, rsv_maxResponseBytes = maxResponseBytes\<rparr> in
           proceed (sql_casRevision record nextRevision db)
           (\<lambda>_ db. proceed (sql_insert_reservation \<lparr>res_reservation_id = rsv_id reservation,
                res_issuer_id = issuerId, res_grant_id = grantId,
                res_reservation_revision = rsv_revision reservation,
                res_max_response_bytes = rsv_maxResponseBytes reservation\<rparr> db)
           (\<lambda>_. check (Inr reservation))))))"

text \<open>\<open>this.#update(\<dots>); return this.#required(\<dots>)\<close>.\<close>

definition sql_update_read :: "(string \<Rightarrow> int option) \<Rightarrow> stored_run_grant \<Rightarrow> int \<Rightarrow> int \<Rightarrow>
    run_grant_state \<Rightarrow> (grant_database, stored_run_grant) effect" where
  "sql_update_read parse g calls bytes state db =
     proceed (sql_update g calls bytes state db)
     (\<lambda>_ db. check (sql_required parse (grant_issuerId g) (grant_id g) db) db)"

definition sql_commitCall :: "(string \<Rightarrow> int option) \<Rightarrow> call_reservation \<Rightarrow> int \<Rightarrow> string \<Rightarrow>
    (grant_database, stored_run_grant) effect" where
  "sql_commitCall parse reservation responseBytes now db =
     proceed (check (safeNonNegative responseBytes ''responseBytes'') db)
     (\<lambda>_. transaction (\<lambda>db.
       proceed (check (sql_reservation reservation db) db)
       (\<lambda>stored db. proceed (check (sql_required parse (rsv_issuerId stored) (rsv_grantId stored) db) db)
       (\<lambda>record db.
         let calls = grant_callsUsed record + 1;
             bytes = grant_responseBytesUsed record + responseBytes;
             nextState = (if calls \<ge> grant_maxCalls record \<or> bytes \<ge> grant_maxTotalResponseBytes record
               then GrantExhausted else GrantActive) in
         proceed (check (chain (sql_active parse record now) (\<lambda>_.
           chain (guard (responseBytes > rsv_maxResponseBytes stored)
             (TypeError ''Run grant response exceeds reservation quota.'')) (\<lambda>_.
           chain (guard (\<not> isSafeInteger calls \<or> calls > grant_maxCalls record)
             (TypeError ''Run grant call quota exhausted.'')) (\<lambda>_.
           guard (\<not> isSafeInteger bytes \<or> bytes > grant_maxTotalResponseBytes record)
             (TypeError ''Run grant response quota exhausted.''))))) db)
         (\<lambda>_ db. proceed (sql_delete_reservation (rsv_id stored) db)
         (\<lambda>_. sql_update_read parse record calls bytes nextState))))))"

definition sql_releaseCall :: "(string \<Rightarrow> int option) \<Rightarrow> call_reservation \<Rightarrow> string \<Rightarrow>
    (grant_database, stored_run_grant) effect" where
  "sql_releaseCall parse reservation now = transaction (\<lambda>db.
     proceed (check (sql_reservation reservation db) db)
     (\<lambda>stored db. proceed (check (sql_required parse (rsv_issuerId stored) (rsv_grantId stored) db) db)
     (\<lambda>record db. proceed (sql_delete_reservation (rsv_id stored) db)
     (\<lambda>_. sql_update_read parse record (grant_callsUsed record) (grant_responseBytesUsed record)
        (grant_state record)))))"

definition sql_transition :: "(string \<Rightarrow> int option) \<Rightarrow> run_grant_state \<Rightarrow> string \<Rightarrow> string \<Rightarrow> int \<Rightarrow>
    string \<Rightarrow> (grant_database, stored_run_grant) effect" where
  "sql_transition parse nextState issuerId grantId expectedRevision now = transaction (\<lambda>db.
     proceed (check (chain (sql_required parse issuerId grantId db) (\<lambda>record.
       chain (sql_revision record expectedRevision) (\<lambda>_.
       chain (sql_active parse record now) (\<lambda>_. Inr record)))) db)
     (\<lambda>record. sql_update_read parse record (grant_callsUsed record)
        (grant_responseBytesUsed record) nextState))"

definition sql_revoke :: "(string \<Rightarrow> int option) \<Rightarrow> string \<Rightarrow> string \<Rightarrow> int \<Rightarrow> string \<Rightarrow>
    (grant_database, stored_run_grant) effect" where
  "sql_revoke parse = sql_transition parse GrantRevoked"

definition sql_consume :: "(string \<Rightarrow> int option) \<Rightarrow> string \<Rightarrow> string \<Rightarrow> int \<Rightarrow> string \<Rightarrow>
    (grant_database, stored_run_grant) effect" where
  "sql_consume parse = sql_transition parse GrantConsumed"

definition sql_expire :: "(string \<Rightarrow> int option) \<Rightarrow> string \<Rightarrow> string \<Rightarrow> int \<Rightarrow> string \<Rightarrow>
    (grant_database, stored_run_grant) effect" where
  "sql_expire parse issuerId grantId expectedRevision now = transaction (\<lambda>db.
     proceed (check (chain (sql_required parse issuerId grantId db) (\<lambda>record.
       chain (sql_revision record expectedRevision) (\<lambda>_.
       chain (guard (parse now = None \<or> date_gt parse (grant_expiresAt record) now)
         (TypeError ''Run grant is not expired.'')) (\<lambda>_. Inr record)))) db)
     (\<lambda>record. sql_update_read parse record (grant_callsUsed record)
        (grant_responseBytesUsed record) GrantExpired))"

text \<open>\<open>close\<close>; closing twice throws.\<close>

definition sql_close :: "(grant_database, unit) effect" where
  "sql_close db = (if db_open db then (Inr (), db\<lparr>db_open := False\<rparr>) else (Inl database_closed, db))"

section \<open>Opening a database file\<close>

text \<open>
  A file holds the schema version, the columns of the table \<open>run_grants\<close> where it exists, and the
  rows. The constructor refuses other versions and the older layout with a column \<open>record\<close>; it
  does not look at a table with other columns.
\<close>

record database_file =
  file_user_version :: int
  file_columns :: "string list option"
  file_grants :: "grant_row list"
  file_reservations :: "reservation_row list"

definition grant_columns :: "string list" where
  "grant_columns = [''issuer_id'', ''grant_id'', ''token_hash'', ''run_id'', ''provider_id'',
     ''tool_ids_json'', ''inventory_digest'', ''protocol_version'', ''extensions_json'',
     ''issued_at'', ''expires_at'', ''max_calls'', ''max_response_bytes'',
     ''max_total_response_bytes'', ''calls_used'', ''response_bytes_used'', ''state'', ''revision'']"

definition schemaVersion :: "database_file \<Rightarrow> int result" where
  "schemaVersion f = chain (guard (\<not> isSafeInteger (file_user_version f))
     (TypeError ''Unsupported SQLite run-grant schema.'')) (\<lambda>_. Inr (file_user_version f))"

definition sql_open :: "database_file \<Rightarrow> (grant_database \<times> database_file) result" where
  "sql_open f = chain (schemaVersion f) (\<lambda>version.
     chain (guard (case file_columns f of
         Some columns \<Rightarrow> version \<noteq> 1 \<or> ''record'' \<in> set columns
       | None \<Rightarrow> version \<noteq> 0 \<and> version \<noteq> 1) (TypeError ''Unsupported SQLite run-grant schema.''))
     (\<lambda>_. let columns = (case file_columns f of Some columns \<Rightarrow> columns | None \<Rightarrow> grant_columns) in
       Inr (\<lparr>db_open = True, db_grants = file_grants f, db_reservations = file_reservations f\<rparr>,
         f\<lparr>file_user_version := 1, file_columns := Some columns\<rparr>)))"


end
