(* ===== verification/Sqlite_Correctness.thy ===== *)
theory Sqlite_Correctness
  imports Sqlite_Grants
begin

text \<open>
  The SQLite repository against the in-memory one. \<open>memory_of\<close> reads a database as the state of
  the in-memory repository, the reserved counters being the sums the queries compute; every
  operation on a well-formed database then does what the operation of the in-memory repository
  does on \<open>memory_of\<close>. From this the contract \<open>grant_repository\<close> follows, and with it all results
  about the stores.
\<close>

section \<open>A database as a state of the in-memory repository\<close>

definition row_key :: "grant_row \<Rightarrow> string" where
  "row_key row = grant_key (col_issuer_id row) (col_grant_id row)"

definition record_with :: "grant_row \<Rightarrow> int \<Rightarrow> int \<Rightarrow> stored_run_grant" where
  "record_with row calls bytes = \<lparr>grant_id = col_grant_id row, grant_issuerId = col_issuer_id row,
     grant_tokenHash = col_token_hash row, grant_runId = col_run_id row,
     grant_providerId = col_provider_id row,
     grant_toolIds = the (parse_strings (col_tool_ids_json row)),
     grant_inventoryDigest = col_inventory_digest row,
     grant_protocolVersion = col_protocol_version row,
     grant_extensions = the (parse_strings (col_extensions_json row)),
     grant_issuedAt = col_issued_at row, grant_expiresAt = col_expires_at row,
     grant_maxCalls = col_max_calls row, grant_maxResponseBytes = col_max_response_bytes row,
     grant_maxTotalResponseBytes = col_max_total_response_bytes row,
     grant_callsUsed = col_calls_used row, grant_responseBytesUsed = col_response_bytes_used row,
     grant_reservedCalls = calls, grant_reservedResponseBytes = bytes,
     grant_state = the (map_of grant_states (col_state row)), grant_revision = col_revision row\<rparr>"

definition row_record :: "grant_database \<Rightarrow> grant_row \<Rightarrow> stored_run_grant" where
  "row_record db row = record_with row (sql_reserved_calls db row) (sql_reserved_bytes db row)"

definition row_reservation :: "reservation_row \<Rightarrow> call_reservation" where
  "row_reservation x = \<lparr>rsv_id = res_reservation_id x, rsv_grantId = res_grant_id x,
     rsv_issuerId = res_issuer_id x, rsv_revision = res_reservation_revision x,
     rsv_maxResponseBytes = res_max_response_bytes x\<rparr>"

definition memory_of :: "grant_database \<Rightarrow> memory_repository" where
  "memory_of db = \<lparr>mem_records = map (\<lambda>row. (row_key row, row_record db row)) (db_grants db),
     mem_reservations = map (\<lambda>x. (res_reservation_id x, row_reservation x)) (db_reservations db)\<rparr>"

section \<open>Well-formed databases\<close>

text \<open>What decoding asks of the columns alone.\<close>

definition row_valid :: "(string \<Rightarrow> int option) \<Rightarrow> grant_row \<Rightarrow> bool" where
  "row_valid parse row \<longleftrightarrow>
     \<not> blank (col_issued_at row) \<and> parse (col_issued_at row) \<noteq> None \<and>
     \<not> blank (col_expires_at row) \<and> parse (col_expires_at row) \<noteq> None \<and>
     \<not> date_le parse (col_expires_at row) (col_issued_at row) \<and>
     isSafeInteger (col_max_calls row) \<and> 0 < col_max_calls row \<and>
     isSafeInteger (col_max_response_bytes row) \<and> 0 < col_max_response_bytes row \<and>
     isSafeInteger (col_max_total_response_bytes row) \<and> 0 < col_max_total_response_bytes row \<and>
     isSafeInteger (col_calls_used row) \<and> 0 \<le> col_calls_used row \<and>
     isSafeInteger (col_response_bytes_used row) \<and> 0 \<le> col_response_bytes_used row \<and>
     col_max_response_bytes row \<le> col_max_total_response_bytes row \<and>
     \<not> blank (col_grant_id row) \<and> \<not> blank (col_issuer_id row) \<and>
     \<not> blank (col_token_hash row) \<and> hash_text (col_token_hash row) \<and>
     \<not> blank (col_run_id row) \<and> \<not> blank (col_provider_id row) \<and>
     isl (sql_stringArray (col_tool_ids_json row)) = False \<and>
     \<not> blank (col_inventory_digest row) \<and> digest_text (col_inventory_digest row) \<and>
     \<not> blank (col_protocol_version row) \<and>
     isl (sql_stringArray (col_extensions_json row)) = False \<and>
     map_of grant_states (col_state row) \<noteq> None \<and>
     isSafeInteger (col_revision row) \<and> 0 \<le> col_revision row"

lemma sql_column_Inr [simp]:
  "sql_text v = Inr x \<longleftrightarrow> \<not> blank v \<and> x = v"
  "sql_timestamp parse v = Inr x \<longleftrightarrow> \<not> blank v \<and> parse v \<noteq> None \<and> x = v"
  "sql_positive n = Inr m \<longleftrightarrow> isSafeInteger n \<and> 0 < n \<and> m = n"
  "sql_nonNegative n = Inr m \<longleftrightarrow> isSafeInteger n \<and> 0 \<le> n \<and> m = n"
  "sql_state v = Inr s \<longleftrightarrow> map_of grant_states v = Some s"
  "sql_digest v = Inr x \<longleftrightarrow> \<not> blank v \<and> digest_text v \<and> x = v"
  "sql_tokenHash v = Inr x \<longleftrightarrow> \<not> blank v \<and> hash_text v \<and> x = v"
  by (auto simp: sql_text_def sql_timestamp_def sql_positive_def sql_nonNegative_def sql_state_def
      sql_digest_def sql_tokenHash_def chain_eq_Inr split: option.splits)

lemma sql_stringArray_Inr:
  "sql_stringArray v = Inr xs \<longleftrightarrow> isl (sql_stringArray v) = False \<and> xs = the (parse_strings v)"
  by (auto simp: sql_stringArray_def chain_def guard_def split: option.splits)

lemma sql_decode_Inr:
  "sql_decode parse row c b = Inr g \<longleftrightarrow> row_valid parse row \<and> isSafeInteger c \<and> 0 \<le> c \<and>
     isSafeInteger b \<and> 0 \<le> b \<and> col_calls_used row + c \<le> col_max_calls row \<and>
     col_response_bytes_used row + b \<le> col_max_total_response_bytes row \<and> g = record_with row c b"
  unfolding sql_decode_def chain_eq_Inr sql_column_Inr sql_stringArray_Inr guard_simps
  by (auto simp: row_valid_def record_with_def not_less)

definition reservation_valid :: "reservation_row \<Rightarrow> bool" where
  "reservation_valid x \<longleftrightarrow> uuid_text (res_reservation_id x) \<and> \<not> blank (res_issuer_id x) \<and>
     uuid_text (res_grant_id x) \<and> isSafeInteger (res_reservation_revision x) \<and>
     0 \<le> res_reservation_revision x \<and> isSafeInteger (res_max_response_bytes x) \<and>
     0 < res_max_response_bytes x"

definition sql_ok :: "(string \<Rightarrow> int option) \<Rightarrow> grant_database \<Rightarrow> bool" where
  "sql_ok parse db \<longleftrightarrow> db_open db \<and>
     distinct (map (\<lambda>row. (col_issuer_id row, col_grant_id row)) (db_grants db)) \<and>
     (\<forall>row \<in> set (db_grants db). row_valid parse row \<and> sql_filled (col_issuer_id row) \<and>
        uuid_text (col_grant_id row)) \<and>
     (\<forall>x \<in> set (db_reservations db). reservation_valid x) \<and> accounted (memory_of db)"

lemma sql_okD:
  assumes "sql_ok parse db"
  shows "db_open db" "accounted (memory_of db)"
    "distinct (map (\<lambda>row. (col_issuer_id row, col_grant_id row)) (db_grants db))"
    "x \<in> set (db_reservations db) \<Longrightarrow> reservation_valid x"
    "row \<in> set (db_grants db) \<Longrightarrow> row_valid parse row \<and> sql_filled (col_issuer_id row) \<and>
       uuid_text (col_grant_id row)"
  using assms by (auto simp: sql_ok_def)

subsection \<open>Identifiers\<close>

lemma uuid_text_nul: "uuid_text u \<Longrightarrow> CHR 0x00 \<notin> set u"
  by (auto simp: uuid_text_def)

lemma uuid_text_white: "uuid_text u \<Longrightarrow> c \<in> set u \<Longrightarrow> \<not> js_white c"
  by (fastforce simp: uuid_text_def js_white_def)

lemma uuid_text_blank: "uuid_text u \<Longrightarrow> \<not> blank u"
  using uuid_text_white [of u "hd u"] by (cases u) (auto simp: blank_Cons uuid_text_def [of "[]"])

lemma uuid_text_filled: "uuid_text u \<Longrightarrow> sql_filled u"
  by (cases u) (auto simp: uuid_text_def sql_filled_def)

text \<open>The keys of the in-memory repository do not collide.\<close>

lemma grant_key_eq:
  assumes "CHR 0x00 \<notin> set k" and "CHR 0x00 \<notin> set k'"
  shows "grant_key i k = grant_key i' k' \<longleftrightarrow> i = i' \<and> k = k'"
proof
  assume eq: "grant_key i k = grant_key i' k'"
  have last: "takeWhile (\<lambda>c. c \<noteq> CHR 0x00) (rev (grant_key i k)) = rev k"
    if "CHR 0x00 \<notin> set k" for i k
    using that by (simp add: grant_key_def takeWhile_append)
  have "k = k'" using last [OF assms(1), of i] last [OF assms(2), of i'] eq by simp
  then show "i = i' \<and> k = k'" using eq by (simp add: grant_key_def)
qed simp

subsection \<open>Reading\<close>

lemma memory_of_simps [simp]:
  "map_of (mem_reservations (memory_of db)) u =
     map_option row_reservation (find (\<lambda>x. res_reservation_id x = u) (db_reservations db))"
  "map fst (mem_reservations (memory_of db)) = map res_reservation_id (db_reservations db)"
proof -
  have "map_of (map (\<lambda>x. (res_reservation_id x, row_reservation x)) xs) u =
      map_option row_reservation (find (\<lambda>x. res_reservation_id x = u) xs)" for xs
    by (induction xs) auto
  then show "map_of (mem_reservations (memory_of db)) u =
     map_option row_reservation (find (\<lambda>x. res_reservation_id x = u) (db_reservations db))"
    by (simp add: memory_of_def)
qed (simp add: memory_of_def comp_def)

lemma find_SomeD: "find P xs = Some x \<Longrightarrow> x \<in> set xs \<and> P x"
  by (induction xs) (auto split: if_splits)

lemma find_row_key:
  assumes "\<forall>row \<in> set rows. CHR 0x00 \<notin> set (col_grant_id row)" and "CHR 0x00 \<notin> set k"
  shows "map_of (map (\<lambda>row. (row_key row, f row)) rows) (grant_key i k) =
    map_option f (find (row_of i k) rows)"
  using assms(1)
  by (induction rows) (auto simp: row_key_def row_of_def grant_key_eq assms(2))

lemma mem_read_memory_of:
  assumes "sql_ok parse db" and "CHR 0x00 \<notin> set k"
  shows "mem_read (memory_of db) i k = map_option (row_record db) (find (row_of i k) (db_grants db))"
  unfolding mem_read_map memory_of_def
  using sql_okD(5) [OF assms(1)] uuid_text_nul assms(2) by (simp add: find_row_key)

lemma find_row:
  assumes "row \<in> set rows" and "distinct (map (\<lambda>row. (col_issuer_id row, col_grant_id row)) rows)"
    and "row_of i k row"
  shows "find (row_of i k) rows = Some row"
  using assms by (induction rows) (auto simp: row_of_def image_iff)

lemma row_record_at:
  assumes "sql_ok parse db" and "row \<in> set (db_grants db)"
  shows "map_of (mem_records (memory_of db)) (row_key row) = Some (row_record db row)"
proof -
  have "find (row_of (col_issuer_id row) (col_grant_id row)) (db_grants db) = Some row"
    using find_row [OF assms(2) sql_okD(3) [OF assms(1)]] by (simp add: row_of_def)
  then show ?thesis
    using mem_read_memory_of [OF assms(1), of "col_grant_id row" "col_issuer_id row"]
      sql_okD(5) [OF assms] uuid_text_nul by (simp add: mem_read_map row_key_def)
qed

lemma record_with_simps [simp]:
  "grant_id (record_with row c b) = col_grant_id row"
  "grant_issuerId (record_with row c b) = col_issuer_id row"
  "grant_expiresAt (record_with row c b) = col_expires_at row"
  "grant_maxCalls (record_with row c b) = col_max_calls row"
  "grant_maxResponseBytes (record_with row c b) = col_max_response_bytes row"
  "grant_maxTotalResponseBytes (record_with row c b) = col_max_total_response_bytes row"
  "grant_callsUsed (record_with row c b) = col_calls_used row"
  "grant_responseBytesUsed (record_with row c b) = col_response_bytes_used row"
  "grant_reservedCalls (record_with row c b) = c"
  "grant_reservedResponseBytes (record_with row c b) = b"
  "grant_revision (record_with row c b) = col_revision row"
  by (simp_all add: record_with_def)

text \<open>A database whose accounts are in order decodes.\<close>

lemma reserved_nonneg:
  assumes "sql_ok parse db"
  shows "0 \<le> sql_reserved_calls db row" "0 \<le> sql_reserved_bytes db row"
proof -
  have "0 \<le> res_max_response_bytes x" if "x \<in> set (db_reservations db)" for x
    using sql_okD(4) [OF assms that] by (simp add: reservation_valid_def)
  then show "0 \<le> sql_reserved_bytes db row"
    by (auto simp: sql_reserved_bytes_def held_rows_def intro!: sum_list_nonneg)
qed (simp add: sql_reserved_calls_def)

lemma row_quota:
  assumes "sql_ok parse db" and "row \<in> set (db_grants db)"
  shows "quota (row_record db row)"
  using accounted_record [OF sql_okD(2) [OF assms(1)] row_record_at [OF assms]] by simp

lemma decode_counted:
  assumes "row_valid parse row" and "0 \<le> c" and "0 \<le> b" and "quota (record_with row c b)"
  shows "js_numbers [col_max_calls row, col_max_response_bytes row,
      col_max_total_response_bytes row, col_calls_used row, col_response_bytes_used row,
      col_revision row, c, b] = Inr () \<and> sql_decode parse row c b = Inr (record_with row c b)"
proof -
  have c: "col_calls_used row + c \<le> col_max_calls row"
    "col_response_bytes_used row + b \<le> col_max_total_response_bytes row"
    using assms(4) by (simp_all add: quota_def)
  have "isSafeInteger c" "isSafeInteger b"
    using assms(1-3) c by (auto simp: row_valid_def isSafeInteger_def)
  then show ?thesis using assms(1-3) c
    by (auto simp: js_numbers_def sql_decode_Inr row_valid_def)
qed

lemma sql_read_eq:
  assumes "sql_ok parse db"
  shows "sql_read parse db i k =
    Inr (if CHR 0x00 \<in> set k then None else mem_read (memory_of db) i k)"
proof (cases "find (row_of i k) (db_grants db)")
  case None
  then show ?thesis
    using sql_okD(1) [OF assms] mem_read_memory_of [OF assms, of k i] by (simp add: sql_read_def)
next
  case (Some row)
  then have row: "row \<in> set (db_grants db)" "row_of i k row" by (auto simp: find_Some_iff)
  have nul: "CHR 0x00 \<notin> set k"
    using sql_okD(5) [OF assms row(1)] row(2) uuid_text_nul by (auto simp: row_of_def)
  have "quota (record_with row (sql_reserved_calls db row) (sql_reserved_bytes db row))"
    using row_quota [OF assms row(1)] by (simp add: row_record_def)
  then show ?thesis
    using Some sql_okD(1) [OF assms] mem_read_memory_of [OF assms nul, of i] nul
      decode_counted [of parse row "sql_reserved_calls db row" "sql_reserved_bytes db row"]
      reserved_nonneg [OF assms] sql_okD(5) [OF assms row(1)]
    by (simp add: sql_read_def Let_def row_record_def)
qed

lemma sql_required_eq:
  assumes "sql_ok parse db"
  shows "sql_required parse i k db = (if CHR 0x00 \<in> set k then Inl (TypeError ''Unknown run grant.'')
    else mem_required (memory_of db) i k)"
  using sql_read_eq [OF assms, of i k]
  by (simp add: sql_required_def mem_required_def split: option.split)


section \<open>Writing\<close>

definition replace_row :: "string \<Rightarrow> string \<Rightarrow> (grant_row \<Rightarrow> grant_row) \<Rightarrow> grant_database \<Rightarrow>
    grant_database" where
  "replace_row i k f db = db\<lparr>db_grants := map (\<lambda>row. if row_of i k row then f row else row) (db_grants db)\<rparr>"

lemma row_unique:
  assumes "distinct (map (\<lambda>row. (col_issuer_id row, col_grant_id row)) rows)" and "row \<in> set rows"
    and "row_of i k row" and "r \<in> set rows" and "row_of i k r"
  shows "r = row"
  using assms by (auto simp: distinct_map row_of_def dest!: inj_onD)

lemma filter_one:
  assumes "distinct (map h xs)" and "x \<in> set xs"
  shows "filter (\<lambda>y. y = x) xs = [x]"
  using assms by (induction xs) (auto simp: filter_empty_conv)

lemma update_eq:
  assumes "distinct (map (\<lambda>row. (col_issuer_id row, col_grant_id row)) (db_grants db))" and "row \<in> set (db_grants db)" and "row_of i k row"
    and "grant_checks (f row)"
  shows "sql_update_grant i k (col_revision row) f db = (Inr 1, replace_row i k f db)"
proof -
  have unique: "r \<in> set (db_grants db) \<Longrightarrow> row_of i k r \<longleftrightarrow> r = row" for r
    using row_unique [OF assms(1,2,3)] assms(3) by blast
  have "filter (\<lambda>r. row_of i k r \<and> col_revision r = col_revision row) (db_grants db) =
      filter (\<lambda>r. r = row) (db_grants db)"
    by (rule filter_cong) (auto simp: unique)
  also have "\<dots> = [row]"
    using filter_one [OF assms(1,2)] .
  finally show ?thesis
    using assms(4) by (auto simp: sql_update_grant_def replace_row_def unique Let_def)
qed

text \<open>Replacing one row, where the counters of the other rows stay.\<close>

lemma update_rows:
  assumes "distinct (map (\<lambda>row. (col_issuer_id row, col_grant_id row)) rows)"
    and "row \<in> set rows" and "row_of i k row" and "\<forall>r \<in> set rows. CHR 0x00 \<notin> set (col_grant_id r)"
    and "row_of i k (f row)" and "\<And>r. r \<in> set rows \<Longrightarrow> \<not> row_of i k r \<Longrightarrow> h r = h' r"
  shows "map (\<lambda>r. (row_key r, h r)) (map (\<lambda>r. if row_of i k r then f r else r) rows) =
    AList.update (grant_key i k) (h (f row)) (map (\<lambda>r. (row_key r, h' r)) rows)"
  using assms(1,2,4,6)
proof (induction rows)
  case (Cons r rows)
  have nul: "CHR 0x00 \<notin> set k" using assms(3) Cons.prems(2,3) by (auto simp: row_of_def)
  have keys: "row_key r = grant_key i k \<longleftrightarrow> row_of i k r"
    using Cons.prems(3) nul by (simp add: row_key_def row_of_def grant_key_eq)
  show ?case
  proof (cases "row_of i k r")
    case True
    then have "r = row" using row_unique [OF Cons.prems(1,2) assms(3), of r] by simp
    moreover have none: "\<not> row_of i k x" if "x \<in> set rows" for x
      using that Cons.prems(1) True by (auto simp: row_of_def image_iff)
    ultimately show ?thesis
      using True assms(5) keys Cons.prems(4) by (auto simp: row_key_def row_of_def)
  next
    case False
    then have "row \<in> set rows" using Cons.prems(2) assms(3) by auto
    then show ?thesis using False keys Cons by auto
  qed
qed simp

lemma memory_of_replace:
  assumes "sql_ok parse db" and "row \<in> set (db_grants db)" and "row_of i k row"
    and "row_of i k (f row)"
    and "\<And>r. r \<in> set (db_grants db) \<Longrightarrow> \<not> row_of i k r \<Longrightarrow>
      row_record (db\<lparr>db_reservations := rs\<rparr>) r = row_record db r"
  shows "memory_of (replace_row i k f (db\<lparr>db_reservations := rs\<rparr>)) =
    (mem_set (grant_key i k) (row_record (db\<lparr>db_reservations := rs\<rparr>) (f row)) (memory_of db))
      \<lparr>mem_reservations := map (\<lambda>x. (res_reservation_id x, row_reservation x)) rs\<rparr>"
proof -
  have same: "row_record (replace_row i k f (db\<lparr>db_reservations := rs\<rparr>)) =
      row_record (db\<lparr>db_reservations := rs\<rparr>)"
    by (simp add: fun_eq_iff row_record_def replace_row_def sql_reserved_calls_def
        sql_reserved_bytes_def held_rows_def)
  have "\<forall>r \<in> set (db_grants db). CHR 0x00 \<notin> set (col_grant_id r)"
    using sql_okD(5) [OF assms(1)] uuid_text_nul by blast
  from update_rows [of "db_grants db" row i k f "row_record (db\<lparr>db_reservations := rs\<rparr>)"
      "row_record db", OF sql_okD(3) [OF assms(1)] assms(2,3) this assms(4,5)]
  show ?thesis
    by (simp only: memory_of_def same mem_set_def) (simp add: replace_row_def)
qed

text \<open>The counters of a row after a reservation is dropped or added.\<close>

lemma sum_drop:
  assumes "distinct (map h xs)" and "x \<in> set xs" and "P x"
  shows "(\<Sum>y \<leftarrow> filter P (filter (\<lambda>y. h y \<noteq> h x) xs). f y) = (\<Sum>y \<leftarrow> filter P xs. f y) - (f x :: int)"
  using assms
proof (induction xs)
  case (Cons a xs)
  show ?case
  proof (cases "a = x")
    case True
    then have "h y \<noteq> h x" if "y \<in> set xs" for y using Cons.prems(1) that by (metis distinct.simps(2) image_eqI list.set_map list.simps(9))
    then have "filter (\<lambda>y. h y \<noteq> h x) xs = xs" by (auto intro!: filter_True)
    then show ?thesis using True Cons.prems(3) by simp
  next
    case False
    then have "h a \<noteq> h x" using Cons.prems(1,2) by auto
    then show ?thesis using False Cons by (auto simp del: filter_filter)
  qed
qed simp

lemma length_sum: "int (length xs) = (\<Sum>x \<leftarrow> xs. 1)"
  by (induction xs) auto


lemma grant_state_name [simp]: "map_of grant_states (grant_state_name s) = Some s"
  by (cases s) (simp_all add: grant_states_def)

lemma state_of_record [simp]:
  "grant_state (record_with row c b) = the (map_of grant_states (col_state row))"
  by (simp add: record_with_def)

text \<open>
  One write: the row \<open>(i, k)\<close> is replaced and the reservations become \<open>rs\<close>. Where that is what the
  in-memory repository does, and its accounts stay in order, the database stays well-formed.
\<close>

lemma row_write_step:
  fixes db rs
  defines "db1 \<equiv> db\<lparr>db_reservations := rs\<rparr>"
  assumes ok: "sql_ok parse db" and row: "row \<in> set (db_grants db)" "row_of i k row"
    and rs: "\<forall>x \<in> set rs. reservation_valid x"
    and f: "col_issuer_id (f row) = i" "col_grant_id (f row) = k" "row_valid parse (f row)"
    and others: "\<And>r. r \<in> set (db_grants db) \<Longrightarrow> \<not> row_of i k r \<Longrightarrow> row_record db1 r = row_record db r"
    and m: "m = (mem_set (grant_key i k) (row_record db1 (f row)) (memory_of db))
      \<lparr>mem_reservations := map (\<lambda>x. (res_reservation_id x, row_reservation x)) rs\<rparr>"
    and accounted: "accounted m"
  shows "grant_checks (f row)" and "memory_of (replace_row i k f db1) = m"
    and "sql_ok parse (replace_row i k f db1)"
proof -
  have id': "uuid_text k" "sql_filled i" using sql_okD(5) [OF ok row(1)] row(2) by (auto simp: row_of_def)
  have nonneg: "0 \<le> sql_reserved_calls db1 (f row)" "0 \<le> sql_reserved_bytes db1 (f row)"
    using rs by (auto simp: db1_def sql_reserved_calls_def sql_reserved_bytes_def held_rows_def
        reservation_valid_def less_imp_le intro!: sum_list_nonneg)
  have "quota (row_record db1 (f row))"
    using accounted_record [OF accounted, of "grant_key i k"] by (simp add: m)
  then show "grant_checks (f row)"
    using f id' nonneg uuid_text_filled
    by (auto simp: grant_checks_def row_valid_def quota_def row_record_def)
  show mem: "memory_of (replace_row i k f db1) = m"
    unfolding db1_def m
    using memory_of_replace [OF ok row, of f rs] f(1,2) others by (simp add: row_of_def db1_def)
  have unique: "r \<in> set (db_grants db) \<Longrightarrow> row_of i k r \<longleftrightarrow> r = row" for r
    using row_unique [OF sql_okD(3) [OF ok] row] row(2) by blast
  have keys: "map (\<lambda>row. (col_issuer_id row, col_grant_id row)) (db_grants (replace_row i k f db1)) =
      map (\<lambda>row. (col_issuer_id row, col_grant_id row)) (db_grants db)"
    using f(1,2) by (auto simp: replace_row_def db1_def row_of_def dest: unique [unfolded row_of_def, THEN iffD1])
  show "sql_ok parse (replace_row i k f db1)"
    unfolding sql_ok_def keys mem
  proof (intro conjI ballI)
    fix r assume "r \<in> set (db_grants (replace_row i k f db1))"
    then obtain r' where "r' \<in> set (db_grants db)" "r = (if r' = row then f row else r')"
      using unique by (auto simp: replace_row_def db1_def)
    then show "row_valid parse r" "sql_filled (col_issuer_id r)" "uuid_text (col_grant_id r)"
      using f id' sql_okD(5) [OF ok] by (auto split: if_splits)
  next
    show "distinct (map (\<lambda>row. (col_issuer_id row, col_grant_id row)) (db_grants db))"
      using sql_okD(3) [OF ok] .
  qed (use sql_okD(1) [OF ok] rs accounted in \<open>auto simp: replace_row_def db1_def\<close>)
qed


definition charge_row :: "int \<Rightarrow> int \<Rightarrow> run_grant_state \<Rightarrow> grant_row \<Rightarrow> grant_row" where
  "charge_row calls bytes state row = row\<lparr>col_calls_used := calls, col_response_bytes_used := bytes,
     col_state := grant_state_name state, col_revision := col_revision row + 1\<rparr>"

lemma charge_row_simps [simp]:
  "col_issuer_id (charge_row c b s row) = col_issuer_id row"
  "col_grant_id (charge_row c b s row) = col_grant_id row"
  "sql_reserved_calls db (charge_row c b s row) = sql_reserved_calls db row"
  "sql_reserved_bytes db (charge_row c b s row) = sql_reserved_bytes db row"
  by (simp_all add: charge_row_def sql_reserved_calls_def sql_reserved_bytes_def)

definition revisable :: "grant_row \<Rightarrow> bool" where
  "revisable row \<longleftrightarrow> col_revision row < 9007199254740991"

lemma charge_row_valid:
  assumes "row_valid parse row" and "revisable row" and "quota (record_with (charge_row c b s row) rc rb)"
    and "0 \<le> rc" and "0 \<le> rb"
  shows "row_valid parse (charge_row c b s row)"
  using assms by (auto simp: row_valid_def charge_row_def quota_def isSafeInteger_def revisable_def)

lemma update_read_step:
  fixes db rs
  defines "db1 \<equiv> db\<lparr>db_reservations := rs\<rparr>"
  assumes ok: "sql_ok parse db" and row: "row \<in> set (db_grants db)" "row_of i k row"
    and rs: "\<forall>x \<in> set rs. reservation_valid x" and revisable: "revisable row"
    and others: "\<And>r. r \<in> set (db_grants db) \<Longrightarrow> \<not> row_of i k r \<Longrightarrow> row_record db1 r = row_record db r"
    and g': "g' = row_record db1 (charge_row calls bytes state row)"
    and m: "m = (mem_set (grant_key i k) g' (memory_of db))
      \<lparr>mem_reservations := map (\<lambda>x. (res_reservation_id x, row_reservation x)) rs\<rparr>"
    and accounted: "accounted m"
  shows "\<exists>db'. sql_update_read parse (row_record db row) calls bytes state db1 = (Inr g', db') \<and>
    memory_of db' = m \<and> sql_ok parse db'"
proof -
  let ?f = "charge_row calls bytes state"
  have "quota g'" using accounted_record [OF accounted, of "grant_key i k"] by (simp add: m)
  moreover have "0 \<le> sql_reserved_calls db1 row" "0 \<le> sql_reserved_bytes db1 row"
    using rs by (auto simp: db1_def sql_reserved_calls_def sql_reserved_bytes_def held_rows_def
        reservation_valid_def less_imp_le intro!: sum_list_nonneg)
  ultimately have valid: "row_valid parse (?f row)"
    using charge_row_valid [OF _ revisable] sql_okD(5) [OF ok row(1)]
    by (auto simp: g' row_record_def)
  have keys: "col_issuer_id row = i" "col_grant_id row = k" using row(2) by (simp_all add: row_of_def)
  have key_f: "col_issuer_id (?f row) = i" "col_grant_id (?f row) = k" using keys by simp_all
  note w = row_write_step [where f = ?f, OF ok row rs key_f valid others [unfolded db1_def]
      m [unfolded g' db1_def] accounted, folded db1_def]
  have db1: "db_grants db1 = db_grants db" by (simp add: db1_def)
  let ?h = "\<lambda>r. r\<lparr>col_calls_used := calls, col_response_bytes_used := bytes,
      col_state := grant_state_name state, col_revision := col_revision row + 1\<rparr>"
  have "replace_row i k ?h db1 = replace_row i k ?f db1"
    using row_unique [OF sql_okD(3) [OF ok] row]
    by (auto simp: replace_row_def db1 charge_row_def)
  then have update: "sql_update_grant i k (col_revision row) ?h db1 = (Inr 1, replace_row i k ?f db1)"
    using update_eq [of db1 row i k ?h] sql_okD(3) [OF ok] row w(1) keys
    by (simp add: db1 charge_row_def)
  have ok': "sql_ok parse (replace_row i k ?f db1)" and mem: "memory_of (replace_row i k ?f db1) = m"
    using w(2,3) by simp_all
  have "CHR 0x00 \<notin> set k" using sql_okD(5) [OF ok row(1)] keys uuid_text_nul by auto
  then have "sql_required parse i k (replace_row i k ?f db1) = Inr g'"
    using sql_required_eq [OF ok', of i k] mem by (simp add: mem_required_def mem_read_map m)
  then have "sql_update_read parse (row_record db row) calls bytes state db1 =
      (Inr g', replace_row i k ?f db1)"
    using update keys
    by (simp add: sql_update_read_def sql_update_def row_record_def sql_one_change_def check_def)
  then show ?thesis using ok' mem by blast
qed


section \<open>Every operation does what the in-memory repository does\<close>

text \<open>
  \<open>same_outcome parse db m s\<close>: the outcome \<open>s\<close> on the database \<open>db\<close> is the outcome \<open>m\<close> of the
  in-memory repository. Both throw and the database is as before, or both return the same value
  in corresponding states.
\<close>

definition same_outcome :: "(string \<Rightarrow> int option) \<Rightarrow> grant_database \<Rightarrow>
    ('a \<times> memory_repository) result \<Rightarrow> 'a result \<times> grant_database \<Rightarrow> bool" where
  "same_outcome parse db m s \<longleftrightarrow> (case s of
     (Inl e, db') \<Rightarrow> isl m \<and> db' = db
   | (Inr x, db') \<Rightarrow> m = Inr (x, memory_of db') \<and> sql_ok parse db')"

text \<open>\<open>Date.parse\<close> is NaN on a blank string.\<close>

definition strict_clock :: "(string \<Rightarrow> int option) \<Rightarrow> bool" where
  "strict_clock parse \<longleftrightarrow> (\<forall>s. blank s \<longrightarrow> parse s = None)"

definition revisions_left :: "grant_database \<Rightarrow> bool" where
  "revisions_left db \<longleftrightarrow> (\<forall>row \<in> set (db_grants db). revisable row)"

definition revisable_at :: "string \<Rightarrow> string \<Rightarrow> grant_database \<Rightarrow> bool" where
  "revisable_at i k db \<longleftrightarrow> (\<forall>row \<in> set (db_grants db). row_of i k row \<longrightarrow> revisable row)"

lemma revisions_left_at [simp]: "revisions_left db \<Longrightarrow> revisable_at i k db"
  by (simp add: revisions_left_def revisable_at_def)

lemma parseTime_Inr [simp]: "parseTime parse s name = Inr t \<longleftrightarrow> \<not> blank s \<and> parse s = Some t"
  by (auto simp: parseTime_def requireText_def chain_eq_Inr split: option.splits)

lemma active_agrees:
  assumes "strict_clock parse" and "row_valid parse row"
  shows "sql_active parse (record_with row c b) now = Inr () \<longleftrightarrow>
    active parse (record_with row c b) now = Inr ()"
  using assms
  by (auto simp: sql_active_def active_Inr chain_eq_Inr date_le_def row_valid_def strict_clock_def
      split: option.splits)

lemma transaction_open:
  assumes "db_open db"
  shows "transaction f db = (case f db of (Inl e, _) \<Rightarrow> (Inl e, db) | (Inr x, db') \<Rightarrow> (Inr x, db'))"
  using assms by (simp add: transaction_def)

lemma mem_required_found:
  assumes "sql_ok parse db" and "CHR 0x00 \<notin> set k" and "mem_required (memory_of db) i k = Inr g"
  obtains row where "row \<in> set (db_grants db)" "row_of i k row" "g = row_record db row"
proof -
  obtain row where "find (row_of i k) (db_grants db) = Some row" "g = row_record db row"
    using assms by (auto simp: mem_read_memory_of)
  then show thesis using that find_SomeD by metis
qed

lemma settle_outcome:
  assumes ok: "sql_ok parse db" and nul: "CHR 0x00 \<notin> set k" and left: "revisable_at i k db"
    and agree: "\<And>row. row \<in> set (db_grants db) \<Longrightarrow> row_of i k row \<Longrightarrow>
      s1 (row_record db row) = Inr () \<longleftrightarrow> m1 (row_record db row) = Inr ()"
  shows "same_outcome parse db
    (chain (mem_required (memory_of db) i k) (\<lambda>g. chain (m1 g)
      (\<lambda>_. Inr (settle st g, mem_set (grant_key i k) (settle st g) (memory_of db)))))
    (transaction (\<lambda>db. proceed (check (chain (sql_required parse i k db)
        (\<lambda>g. chain (s1 g) (\<lambda>_. Inr g))) db)
      (\<lambda>g. sql_update_read parse g (grant_callsUsed g) (grant_responseBytesUsed g) st)) db)"
proof (cases "mem_required (memory_of db) i k")
  case (Inl e)
  then show ?thesis
    using sql_required_eq [OF ok, of i k] nul sql_okD(1) [OF ok]
    by (simp add: same_outcome_def transaction_open check_def)
next
  case (Inr g)
  obtain row where row: "row \<in> set (db_grants db)" "row_of i k row" and g: "g = row_record db row"
    using mem_required_found [OF ok nul Inr] .
  have required: "sql_required parse i k db = Inr g"
    using sql_required_eq [OF ok, of i k] nul Inr by simp
  show ?thesis
  proof (cases "m1 g = Inr ()")
    case False
    then have "\<exists>e e'. s1 g = Inl e \<and> m1 g = Inl e'"
      using agree [OF row] unfolding g by (metis (full_types) old.unit.exhaust sum.exhaust)
    then show ?thesis
      using required sql_okD(1) [OF ok]
      by (auto simp: same_outcome_def transaction_open check_def Inr simp del: mem_required_Inr)
  next
    case True
    let ?m = "mem_set (grant_key i k) (settle st g) (memory_of db)"
    have g': "settle st g = row_record db (charge_row (grant_callsUsed g) (grant_responseBytesUsed g) st row)"
      by (simp add: g row_record_def settle_def clone_def record_with_def charge_row_def
          sql_reserved_calls_def sql_reserved_bytes_def)
    have m: "?m = (mem_set (grant_key i k) (settle st g) (memory_of db))
        \<lparr>mem_reservations := map (\<lambda>x. (res_reservation_id x, row_reservation x)) (db_reservations db)\<rparr>"
      by (simp add: mem_set_def memory_of_def)
    have "accounted ?m"
      using settle_accounted [OF sql_okD(2) [OF ok]] Inr by simp
    moreover have "\<forall>x \<in> set (db_reservations db). reservation_valid x" "revisable row"
      using sql_okD(4) [OF ok] left row by (auto simp: revisable_at_def)
    ultimately obtain db' where "sql_update_read parse g (grant_callsUsed g) (grant_responseBytesUsed g) st db =
        (Inr (settle st g), db')" "memory_of db' = ?m" "sql_ok parse db'"
      using update_read_step [OF ok row _ _ _ _ m, of "grant_callsUsed g" "grant_responseBytesUsed g" st] g'
      unfolding g [symmetric] by auto
    then show ?thesis
      using True required agree [OF row] sql_okD(1) [OF ok]
      by (simp add: same_outcome_def transaction_open check_def g [symmetric] Inr del: mem_required_Inr)
  qed
qed

lemma transition_same_outcome:
  assumes "sql_ok parse db" and "CHR 0x00 \<notin> set k" and "revisable_at i k db" and "strict_clock parse"
  shows "same_outcome parse db (mem_transition parse st (memory_of db) i k e now)
    (sql_transition parse st i k e now db)"
proof -
  let ?s = "\<lambda>g. chain (sql_revision g e) (\<lambda>_. sql_active parse g now)"
  let ?m = "\<lambda>g. chain (requireRevision g e) (\<lambda>_. active parse g now)"
  have "?s (row_record db row) = Inr () \<longleftrightarrow> ?m (row_record db row) = Inr ()"
    if "row \<in> set (db_grants db)" for row
    using active_agrees [OF assms(4)] sql_okD(5) [OF assms(1) that]
    by (simp add: chain_eq_Inr sql_revision_def requireRevision_def row_record_def)
  from settle_outcome [OF assms(1-3), of ?s ?m st, OF this]
  show ?thesis
    by (simp add: sql_transition_def mem_transition_def Let_def chain_assoc settle_def)
qed

lemma expire_same_outcome:
  assumes "sql_ok parse db" and "CHR 0x00 \<notin> set k" and "revisable_at i k db" and "strict_clock parse"
  shows "same_outcome parse db (mem_expire parse (memory_of db) i k e now)
    (sql_expire parse i k e now db)"
proof -
  let ?s = "\<lambda>g. chain (sql_revision g e) (\<lambda>_. guard (parse now = None \<or>
    date_gt parse (grant_expiresAt g) now) (TypeError ''Run grant is not expired.''))"
  let ?m = "\<lambda>g. chain (requireRevision g e) (\<lambda>_. chain (parseTime parse (grant_expiresAt g) ''expiresAt'')
    (\<lambda>expires. chain (parseTime parse now ''now'')
    (\<lambda>current. guard (expires > current) (TypeError ''Run grant is not expired.''))))"
  have "?s (row_record db row) = Inr () \<longleftrightarrow> ?m (row_record db row) = Inr ()"
    if "row \<in> set (db_grants db)" for row
    using sql_okD(5) [OF assms(1) that] assms(4)
    by (auto simp: chain_eq_Inr sql_revision_def requireRevision_def row_record_def date_gt_def
        row_valid_def strict_clock_def split: option.splits)
  from settle_outcome [OF assms(1-3), of ?s ?m GrantExpired, OF this]
  show ?thesis
    by (simp add: sql_expire_def mem_expire_def Let_def chain_assoc settle_def)
qed


subsection \<open>Reservations\<close>

lemma reservation_ids: "sql_ok parse db \<Longrightarrow> distinct (map res_reservation_id (db_reservations db))"
  using sql_okD(2) [of parse db] by (simp add: accounted_def del: map_map flip: memory_of_simps(2))

lemma sql_reservation_eq:
  assumes "sql_ok parse db"
  shows "sql_reservation h db =
    (case find (\<lambda>x. res_reservation_id x = rsv_id h) (db_reservations db) of
       Some x \<Rightarrow> if row_reservation x = h then Inr h else Inl (TypeError ''Unknown call reservation.'')
     | None \<Rightarrow> Inl (TypeError ''Unknown call reservation.''))"
proof (cases "find (\<lambda>x. res_reservation_id x = rsv_id h) (db_reservations db)")
  case (Some x)
  then have "reservation_valid x" using sql_okD(4) [OF assms] find_SomeD by metis
  then have cols: "js_numbers [res_reservation_revision x, res_max_response_bytes x] = Inr ()"
    "sql_text (res_reservation_id x) = Inr (res_reservation_id x)"
    "sql_text (res_issuer_id x) = Inr (res_issuer_id x)"
    "sql_text (res_grant_id x) = Inr (res_grant_id x)"
    "sql_nonNegative (res_reservation_revision x) = Inr (res_reservation_revision x)"
    "sql_positive (res_max_response_bytes x) = Inr (res_max_response_bytes x)"
    by (auto simp: reservation_valid_def js_numbers_def uuid_text_blank)
  show ?thesis
    using Some by (simp add: cols sql_reservation_def row_reservation_def guard_def del: sql_column_Inr)
qed (simp add: sql_reservation_def)

lemma held_rows_drop:
  fixes f :: "reservation_row \<Rightarrow> int"
  assumes "sql_ok parse db" and "x \<in> set (db_reservations db)"
  defines "db1 \<equiv> db\<lparr>db_reservations := filter (\<lambda>y. res_reservation_id y \<noteq> res_reservation_id x) (db_reservations db)\<rparr>"
  shows "(\<Sum>y \<leftarrow> held_rows db1 i k. f y) = (\<Sum>y \<leftarrow> held_rows db i k. f y) -
    (if res_issuer_id x = i \<and> res_grant_id x = k then f x else 0)"
proof (cases "res_issuer_id x = i \<and> res_grant_id x = k")
  case True
  then show ?thesis
    using sum_drop [OF reservation_ids [OF assms(1)] assms(2),
        of "\<lambda>y. res_issuer_id y = i \<and> res_grant_id y = k" f]
    by (simp add: held_rows_def db1_def del: filter_filter)
next
  case False
  have "filter (\<lambda>y. (res_issuer_id y = i \<and> res_grant_id y = k) \<and> res_reservation_id y \<noteq> res_reservation_id x)
      (db_reservations db) = filter (\<lambda>y. res_issuer_id y = i \<and> res_grant_id y = k) (db_reservations db)"
    using False reservation_ids [OF assms(1)] assms(2)
    by (intro filter_cong) (auto simp: distinct_map dest: inj_onD)
  then show ?thesis using False by (auto simp: held_rows_def db1_def conj_commute)
qed

text \<open>Where closing a reservation is what the in-memory repository does.\<close>

lemma close_step:
  fixes db x
  defines "db1 \<equiv> db\<lparr>db_reservations := filter (\<lambda>y. res_reservation_id y \<noteq> res_reservation_id x) (db_reservations db)\<rparr>"
  assumes ok: "sql_ok parse db" and x: "x \<in> set (db_reservations db)"
    and row: "row \<in> set (db_grants db)" "row_of (res_issuer_id x) (res_grant_id x) row"
    and revisable: "revisable row"
    and g': "g' = record_with (charge_row calls bytes state row) (sql_reserved_calls db row - 1)
      (sql_reserved_bytes db row - res_max_response_bytes x)"
    and m: "m = mem_drop_reservation (res_reservation_id x)
      (mem_set (reservation_key (row_reservation x)) g' (memory_of db))"
    and accounted: "accounted m"
  shows "\<exists>db'. sql_update_read parse (row_record db row) calls bytes state db1 = (Inr g', db') \<and>
    memory_of db' = m \<and> sql_ok parse db'"
proof -
  have keys: "col_issuer_id row = res_issuer_id x" "col_grant_id row = res_grant_id x"
    using row(2) by (simp_all add: row_of_def)
  note drop = held_rows_drop [OF ok x, folded db1_def]
  have "sql_reserved_calls db1 row = sql_reserved_calls db row - 1"
    "sql_reserved_bytes db1 row = sql_reserved_bytes db row - res_max_response_bytes x"
    using drop [where f = "\<lambda>_. 1"] drop [where f = res_max_response_bytes] keys
    by (simp_all add: sql_reserved_calls_def sql_reserved_bytes_def length_sum)
  then have g1: "g' = row_record db1 (charge_row calls bytes state row)"
    by (simp add: g' row_record_def)
  have others: "row_record db1 r = row_record db r"
    if "\<not> row_of (res_issuer_id x) (res_grant_id x) r" for r
    using that drop [where f = "\<lambda>_. 1"] drop [where f = res_max_response_bytes]
    by (auto simp: row_record_def sql_reserved_calls_def sql_reserved_bytes_def length_sum row_of_def)
  have delete: "AList.delete u (map (\<lambda>x. (res_reservation_id x, row_reservation x)) xs) =
      map (\<lambda>x. (res_reservation_id x, row_reservation x)) (filter (\<lambda>y. res_reservation_id y \<noteq> u) xs)" for u xs
    by (induction xs) auto
  have reservation_key: "reservation_key (row_reservation x) = grant_key (res_issuer_id x) (res_grant_id x)"
    by (simp add: reservation_key_def row_reservation_def)
  have m1: "m = (mem_set (grant_key (res_issuer_id x) (res_grant_id x)) g' (memory_of db))
      \<lparr>mem_reservations := map (\<lambda>x. (res_reservation_id x, row_reservation x))
        (filter (\<lambda>y. res_reservation_id y \<noteq> res_reservation_id x) (db_reservations db))\<rparr>"
    using reservation_key by (simp add: m mem_drop_reservation_def mem_set_def memory_of_def delete)
  show ?thesis
    using update_read_step [OF ok row _ revisable others [unfolded db1_def] g1 [unfolded db1_def] m1 accounted]
      sql_okD(4) [OF ok]
    by (simp add: db1_def)
qed


lemma found_reservation:
  assumes ok: "sql_ok parse db"
    and find: "find (\<lambda>x. res_reservation_id x = u) (db_reservations db) = Some x"
  obtains row where "x \<in> set (db_reservations db)" "res_reservation_id x = u"
    "row \<in> set (db_grants db)" "row_of (res_issuer_id x) (res_grant_id x) row"
    "map_of (mem_reservations (memory_of db)) u = Some (row_reservation x)"
    "map_of (mem_records (memory_of db)) (reservation_key (row_reservation x)) = Some (row_record db row)"
    "sql_required parse (res_issuer_id x) (res_grant_id x) db = Inr (row_record db row)"
    "1 \<le> sql_reserved_calls db row" "res_max_response_bytes x \<le> sql_reserved_bytes db row"
    "quota (row_record db row)"
proof -
  have x: "x \<in> set (db_reservations db)" "res_reservation_id x = u"
    using find_SomeD [OF find] by simp_all
  have stored: "map_of (mem_reservations (memory_of db)) u = Some (row_reservation x)"
    using find by simp
  obtain g where g: "map_of (mem_records (memory_of db)) (reservation_key (row_reservation x)) = Some g"
    using accounted_reservation [OF sql_okD(2) [OF ok] stored] by blast
  then obtain row where row: "row \<in> set (db_grants db)"
    and key: "row_key row = reservation_key (row_reservation x)" and rec: "g = row_record db row"
    by (auto simp: memory_of_def dest!: map_of_SomeD)
  have cover: "1 \<le> grant_reservedCalls g" "res_max_response_bytes x \<le> grant_reservedResponseBytes g"
    using held_covers [OF sql_okD(2) [OF ok] stored g] by (simp_all add: row_reservation_def)
  have k: "reservation_key (row_reservation x) = grant_key (res_issuer_id x) (res_grant_id x)"
    by (simp add: reservation_key_def row_reservation_def)
  have "CHR 0x00 \<notin> set (res_grant_id x)" "CHR 0x00 \<notin> set (col_grant_id row)"
    using sql_okD(4) [OF ok x(1)] sql_okD(5) [OF ok row] uuid_text_nul
    by (auto simp: reservation_valid_def)
  then have at: "row_of (res_issuer_id x) (res_grant_id x) row" and nul: "CHR 0x00 \<notin> set (res_grant_id x)"
    using key k by (simp_all add: row_key_def row_of_def grant_key_eq)
  have "sql_required parse (res_issuer_id x) (res_grant_id x) db = Inr g"
    using sql_required_eq [OF ok, of "res_issuer_id x" "res_grant_id x"] nul g k
    by (simp add: mem_required_def mem_read_map)
  then show thesis
    using that [OF x row at stored] g cover row_quota [OF ok row] unfolding rec
    by (simp add: row_record_def)
qed

lemma release_same_outcome:
  assumes ok: "sql_ok parse db" and left: "revisable_at (rsv_issuerId h) (rsv_grantId h) db"
    and handle: "\<And>x. map_of (mem_reservations (memory_of db)) (rsv_id h) = Some x \<Longrightarrow> x = h"
  shows "same_outcome parse db (mem_releaseCall (memory_of db) h now) (sql_releaseCall parse h now db)"
proof (cases "find (\<lambda>x. res_reservation_id x = rsv_id h) (db_reservations db)")
  case None
  then show ?thesis
    using sql_reservation_eq [OF ok, of h] sql_okD(1) [OF ok]
    by (simp add: same_outcome_def sql_releaseCall_def mem_releaseCall_def transaction_open check_def)
next
  case (Some x)
  obtain row where f: "x \<in> set (db_reservations db)" "res_reservation_id x = rsv_id h"
    "row \<in> set (db_grants db)" "row_of (res_issuer_id x) (res_grant_id x) row"
    "map_of (mem_reservations (memory_of db)) (rsv_id h) = Some (row_reservation x)"
    "map_of (mem_records (memory_of db)) (reservation_key (row_reservation x)) = Some (row_record db row)"
    "sql_required parse (res_issuer_id x) (res_grant_id x) db = Inr (row_record db row)"
    "1 \<le> sql_reserved_calls db row" "res_max_response_bytes x \<le> sql_reserved_bytes db row"
    using found_reservation [OF ok Some] by metis
  let ?g = "row_record db row"
  have h: "row_reservation x = h" using handle [OF f(5)] .
  have xh: "rsv_issuerId h = res_issuer_id x" "rsv_grantId h = res_grant_id x"
    "rsv_maxResponseBytes h = res_max_response_bytes x"
    by (simp_all add: row_reservation_def flip: h)
  let ?g' = "release (rsv_maxResponseBytes h) ?g"
  let ?m = "mem_drop_reservation (rsv_id h) (mem_set (reservation_key h) ?g' (memory_of db))"
  have mem: "mem_releaseCall (memory_of db) h now = Inr (?g', ?m)"
    using Some f(5,6,8,9) h xh
    by (simp add: mem_releaseCall_def Let_def reserved_record_def reservation_key_def row_record_def
        release_def)
  have g': "?g' = record_with (charge_row (grant_callsUsed ?g) (grant_responseBytesUsed ?g) (grant_state ?g) row)
      (sql_reserved_calls db row - 1) (sql_reserved_bytes db row - res_max_response_bytes x)"
    by (simp add: row_record_def release_def clone_def xh) (simp add: record_with_def charge_row_def)
  obtain db' where "sql_update_read parse ?g (grant_callsUsed ?g) (grant_responseBytesUsed ?g) (grant_state ?g)
      (db\<lparr>db_reservations := filter (\<lambda>y. res_reservation_id y \<noteq> rsv_id h) (db_reservations db)\<rparr>) =
      (Inr ?g', db')" "memory_of db' = ?m" "sql_ok parse db'"
    using close_step [OF ok f(1,3,4) _ g', of ?m] left f(3,4) release_accounted [OF mem sql_okD(2) [OF ok]]
    unfolding f(2) h xh by (auto simp: revisable_at_def)
  then show ?thesis
    using Some sql_reservation_eq [OF ok, of h] h xh f(7) sql_okD(1) [OF ok] mem
    by (simp add: same_outcome_def sql_releaseCall_def transaction_open check_def sql_delete_reservation_def)
qed

lemma commit_same_outcome:
  assumes ok: "sql_ok parse db" and left: "revisable_at (rsv_issuerId h) (rsv_grantId h) db"
    and clock: "strict_clock parse"
  shows "same_outcome parse db (mem_commitCall parse (memory_of db) h n now)
    (sql_commitCall parse h n now db)"
proof (cases "isSafeInteger n \<and> 0 \<le> n \<and>
    (\<exists>x. find (\<lambda>x. res_reservation_id x = rsv_id h) (db_reservations db) = Some x \<and> row_reservation x = h)")
  case False
  have "isl (mem_commitCall parse (memory_of db) h n now)"
  proof (rule ccontr)
    assume "\<not> isl (mem_commitCall parse (memory_of db) h n now)"
    then obtain g r where run: "mem_commitCall parse (memory_of db) h n now = Inr (g, r)"
      by (cases "mem_commitCall parse (memory_of db) h n now") auto
    then have n: "isSafeInteger n" "0 \<le> n"
      by (auto simp: mem_commitCall_def safeNonNegative_def chain_eq_Inr)
    from run obtain stored where stored: "map_of (mem_reservations (memory_of db)) (rsv_id h) = Some stored"
      "rsv_grantId stored = rsv_grantId h" "rsv_issuerId stored = rsv_issuerId h"
      "rsv_maxResponseBytes stored = rsv_maxResponseBytes h" "rsv_revision stored = rsv_revision h"
      by (rule mem_commitCall_Inr)
    then have "stored = h" using accounted_reservation [OF sql_okD(2) [OF ok] stored(1)] by simp
    then show False using False n stored(1) by auto
  qed
  moreover have "fst (sql_commitCall parse h n now db) = Inl e \<Longrightarrow> snd (sql_commitCall parse h n now db) = db" for e
    by (auto simp: sql_commitCall_def proceed_def check_def transaction_def split: prod.splits sum.splits)
  moreover have "isl (fst (sql_commitCall parse h n now db))"
  proof (cases "isSafeInteger n \<and> 0 \<le> n")
    case True
    then have "\<exists>e. sql_reservation h db = Inl e"
      using False sql_reservation_eq [OF ok, of h] by (auto split: option.splits)
    then show ?thesis using True sql_okD(1) [OF ok]
      by (auto simp: sql_commitCall_def safeNonNegative_def transaction_open check_def guard_def)
  qed (auto simp: sql_commitCall_def safeNonNegative_def check_def guard_def)
  ultimately show ?thesis
    by (auto simp: same_outcome_def split: prod.splits sum.splits)
next
  case True
  then obtain x where Some: "find (\<lambda>x. res_reservation_id x = rsv_id h) (db_reservations db) = Some x"
    and h: "row_reservation x = h" and n: "isSafeInteger n" "0 \<le> n" by blast
  obtain row where f: "x \<in> set (db_reservations db)" "res_reservation_id x = rsv_id h"
    "row \<in> set (db_grants db)" "row_of (res_issuer_id x) (res_grant_id x) row"
    "map_of (mem_reservations (memory_of db)) (rsv_id h) = Some (row_reservation x)"
    "map_of (mem_records (memory_of db)) (reservation_key (row_reservation x)) = Some (row_record db row)"
    "sql_required parse (res_issuer_id x) (res_grant_id x) db = Inr (row_record db row)"
    "1 \<le> sql_reserved_calls db row" "res_max_response_bytes x \<le> sql_reserved_bytes db row"
    "quota (row_record db row)"
    using found_reservation [OF ok Some] by metis
  let ?g = "row_record db row"
  have xh: "rsv_issuerId h = res_issuer_id x" "rsv_grantId h = res_grant_id x"
    "rsv_maxResponseBytes h = res_max_response_bytes x"
    by (simp_all add: row_reservation_def flip: h)
  have act: "sql_active parse ?g now = Inr () \<longleftrightarrow> active parse ?g now = Inr ()"
    using active_agrees [OF clock] sql_okD(5) [OF ok f(3)] by (simp add: row_record_def)
  have stored: "map_of (mem_reservations (memory_of db)) (rsv_id h) = Some h" using f(5) h by simp
  have reserved: "reserved_record (memory_of db) (grant_key (rsv_issuerId h) (rsv_grantId h))
      (rsv_maxResponseBytes h) = Inr ?g"
    using f(6,8,9) h xh by (simp add: reserved_record_def reservation_key_def row_record_def)
  have reservation: "sql_reservation h db = Inr h"
    using sql_reservation_eq [OF ok, of h] Some h by simp
  have safe: "safeNonNegative n ''responseBytes'' = Inr ()" using n by (simp add: safeNonNegative_def)
  show ?thesis
  proof (cases "active parse ?g now = Inr () \<and> n \<le> rsv_maxResponseBytes h")
    case False
    have "isl (mem_commitCall parse (memory_of db) h n now)"
      unfolding mem_commitCall_def safe stored
      using False by (cases "active parse ?g now") (auto simp: reserved guard_def Let_def)
    moreover have "\<exists>e. sql_commitCall parse h n now db = (Inl e, db)"
      using False act f(7) xh sql_okD(1) [OF ok]
      by (cases "sql_active parse ?g now")
        (auto simp: sql_commitCall_def safe reservation transaction_open check_def Let_def guard_def)
    ultimately show ?thesis by (auto simp: same_outcome_def)
  next
    case True
    let ?g' = "commit n (rsv_maxResponseBytes h) ?g"
    let ?m = "mem_drop_reservation (rsv_id h) (mem_set (reservation_key h) ?g' (memory_of db))"
    let ?calls = "grant_callsUsed ?g + 1" and ?bytes = "grant_responseBytesUsed ?g + n"
    let ?st = "if ?calls \<ge> grant_maxCalls ?g \<or> ?bytes \<ge> grant_maxTotalResponseBytes ?g
      then GrantExhausted else GrantActive"
    have limits: "isSafeInteger ?calls" "?calls \<le> grant_maxCalls ?g" "isSafeInteger ?bytes"
      "?bytes \<le> grant_maxTotalResponseBytes ?g"
      using f(8-10) True n xh by (auto simp: quota_def row_record_def isSafeInteger_def)
    have mem: "mem_commitCall parse (memory_of db) h n now = Inr (?g', ?m)"
      unfolding mem_commitCall_def safe stored
      using True limits by (simp add: reserved Let_def commit_def reservation_key_def)
    have g': "?g' = record_with (charge_row ?calls ?bytes ?st row)
        (sql_reserved_calls db row - 1) (sql_reserved_bytes db row - res_max_response_bytes x)"
      by (simp add: row_record_def commit_def clone_def xh)
        (simp add: record_with_def charge_row_def grant_states_def)
    obtain db' where "sql_update_read parse ?g ?calls ?bytes ?st
        (db\<lparr>db_reservations := filter (\<lambda>y. res_reservation_id y \<noteq> rsv_id h) (db_reservations db)\<rparr>) =
        (Inr ?g', db')" "memory_of db' = ?m" "sql_ok parse db'"
      using close_step [OF ok f(1,3,4) _ g', of ?m] left f(3,4) commit_accounted [OF mem sql_okD(2) [OF ok]]
      unfolding f(2) h xh by (auto simp: revisable_at_def)
    then show ?thesis
      using True act limits xh f(7) sql_okD(1) [OF ok] mem
      by (simp add: same_outcome_def sql_commitCall_def safe reservation transaction_open check_def
          sql_delete_reservation_def Let_def)
  qed
qed


text \<open>What is asked of the id of a new reservation.\<close>

definition sql_fresh :: "string \<Rightarrow> grant_database \<Rightarrow> bool" where
  "sql_fresh u db \<longleftrightarrow> uuid_text u \<and> u \<notin> set (map res_reservation_id (db_reservations db)) \<and>
     revisions_left db"

lemma update_fresh: "k \<notin> fst ` set al \<Longrightarrow> AList.update k v al = al @ [(k, v)]"
  by (induction al) auto

lemma reserve_step:
  assumes ok: "sql_ok parse db" and fresh: "sql_fresh u db"
    and row: "row \<in> set (db_grants db)" "row_of i k row"
    and room: "0 < min (col_max_response_bytes row) (remaining_bytes (row_record db row))"
    and run: "mem_reserveCall parse u (memory_of db) i k e now = Inr (x, m)"
    and x: "x = \<lparr>rsv_id = u, rsv_grantId = k, rsv_issuerId = i, rsv_revision = col_revision row + 1,
      rsv_maxResponseBytes = min (col_max_response_bytes row) (remaining_bytes (row_record db row))\<rparr>"
    and m: "m = (mem_set (grant_key i k) (reserve (row_record db row)) (memory_of db))
      \<lparr>mem_reservations := AList.update u x (mem_reservations (memory_of db))\<rparr>"
  shows "\<exists>db1 db'. sql_casRevision (row_record db row) (col_revision row + 1) db = (Inr (), db1) \<and>
    sql_insert_reservation \<lparr>res_reservation_id = u, res_issuer_id = i, res_grant_id = k,
      res_reservation_revision = col_revision row + 1, res_max_response_bytes = rsv_maxResponseBytes x\<rparr> db1 =
      (Inr (), db') \<and> memory_of db' = m \<and> sql_ok parse db'"
proof -
  let ?n = "min (col_max_response_bytes row) (remaining_bytes (row_record db row))"
  let ?x = "\<lparr>res_reservation_id = u, res_issuer_id = i, res_grant_id = k,
      res_reservation_revision = col_revision row + 1, res_max_response_bytes = ?n\<rparr>"
  let ?f = "\<lambda>r. r\<lparr>col_revision := col_revision row + 1\<rparr>"
  let ?rs = "db_reservations db @ [?x]"
  let ?db1 = "replace_row i k ?f db"
  let ?db' = "replace_row i k ?f (db\<lparr>db_reservations := ?rs\<rparr>)"
  have keys: "col_issuer_id row = i" "col_grant_id row = k" using row(2) by (simp_all add: row_of_def)
  have valid: "row_valid parse row" "uuid_text k" "\<not> blank i" "revisable row"
    using sql_okD(5) [OF ok row(1)] keys fresh row(1)
    by (auto simp: row_valid_def sql_fresh_def revisions_left_def)
  have x_eq: "x = row_reservation ?x" by (simp add: x row_reservation_def)
  have rs: "\<forall>y \<in> set ?rs. reservation_valid y"
    using sql_okD(4) [OF ok] fresh valid room
    by (auto simp: reservation_valid_def sql_fresh_def row_valid_def revisable_def isSafeInteger_def)
  have valid_f: "row_valid parse (?f row)"
    using valid(1,4) by (auto simp: row_valid_def revisable_def isSafeInteger_def)
  have counters: "held_rows (db\<lparr>db_reservations := ?rs\<rparr>) a b = held_rows db a b @
      (if a = i \<and> b = k then [?x] else [])" for a b
    by (simp add: held_rows_def)
  have g': "reserve (row_record db row) = row_record (db\<lparr>db_reservations := ?rs\<rparr>) (?f row)"
    using keys counters
    by (simp add: row_record_def reserve_def clone_def sql_reserved_calls_def sql_reserved_bytes_def)
      (simp add: record_with_def)
  have others: "row_record (db\<lparr>db_reservations := ?rs\<rparr>) r = row_record db r" if "\<not> row_of i k r" for r
    using that counters by (auto simp: row_record_def sql_reserved_calls_def sql_reserved_bytes_def row_of_def)
  have "u \<notin> fst ` set (mem_reservations (memory_of db))"
    using fresh by (auto simp: sql_fresh_def memory_of_def)
  then have m1: "m = (mem_set (grant_key i k) (row_record (db\<lparr>db_reservations := ?rs\<rparr>) (?f row)) (memory_of db))
      \<lparr>mem_reservations := map (\<lambda>x. (res_reservation_id x, row_reservation x)) ?rs\<rparr>"
    unfolding m g' by (simp add: update_fresh x_eq) (simp add: memory_of_def)
  have "u \<notin> fst ` set (mem_reservations (memory_of db))" by fact
  from reserve_accounted [OF run sql_okD(2) [OF ok] this] have acc: "accounted m" .
  have key_f: "col_issuer_id (?f row) = i" "col_grant_id (?f row) = k" using keys by simp_all
  note w = row_write_step [where f = ?f, OF ok row rs key_f valid_f others m1 acc]
  have "sql_update_grant i k (col_revision row) ?f db = (Inr 1, ?db1)"
    using update_eq [OF sql_okD(3) [OF ok] row, of ?f] w(1) by simp
  then have cas: "sql_casRevision (row_record db row) (col_revision row + 1) db = (Inr (), ?db1)"
    using keys by (simp add: sql_casRevision_def row_record_def sql_one_change_def check_def)
  have "?f row \<in> set (db_grants ?db1)"
    using row by (auto simp: replace_row_def image_iff intro!: bexI [of _ row])
  then have "list_ex (row_of i k) (db_grants ?db1)"
    using keys by (auto simp: list_ex_iff row_of_def intro!: bexI [of _ "?f row"])
  moreover have "reservation_checks ?x"
    using fresh room valid(1) uuid_text_filled by (auto simp: reservation_checks_def sql_fresh_def row_valid_def)
  moreover have "\<not> list_ex (\<lambda>y. res_reservation_id y = u) (db_reservations ?db1)"
    using fresh by (auto simp: list_ex_iff sql_fresh_def replace_row_def)
  ultimately have "sql_insert_reservation ?x ?db1 = (Inr (), ?db')"
    by (simp add: sql_insert_reservation_def) (simp add: replace_row_def)
  then show ?thesis using cas w(2,3) by (auto simp: x)
qed


lemma reserve_same_outcome:
  assumes ok: "sql_ok parse db" and fresh: "sql_fresh u db" and nul: "CHR 0x00 \<notin> set k"
    and clock: "strict_clock parse"
  shows "same_outcome parse db (mem_reserveCall parse u (memory_of db) i k e now)
    (sql_reserveCall parse u i k e now db)"
proof (cases "mem_required (memory_of db) i k")
  case (Inl err)
  then show ?thesis
    using sql_required_eq [OF ok, of i k] nul sql_okD(1) [OF ok]
    by (simp add: same_outcome_def sql_reserveCall_def mem_reserveCall_def transaction_open check_def)
next
  case (Inr g)
  obtain row where row: "row \<in> set (db_grants db)" "row_of i k row" and g: "g = row_record db row"
    using mem_required_found [OF ok nul Inr] .
  have required: "sql_required parse i k db = Inr g"
    using sql_required_eq [OF ok, of i k] nul Inr by simp
  have revision: "sql_revision g e = requireRevision g e"
    by (simp add: sql_revision_def requireRevision_def)
  have act: "sql_active parse g now = Inr () \<longleftrightarrow> active parse g now = Inr ()"
    using active_agrees [OF clock] sql_okD(5) [OF ok row(1)] by (simp add: g row_record_def)
  show ?thesis
  proof (cases "requireRevision g e = Inr () \<and> active parse g now = Inr () \<and>
      grant_callsUsed g + grant_reservedCalls g < grant_maxCalls g \<and>
      isSafeInteger (remaining_bytes g) \<and> 0 < remaining_bytes g")
    case False
    have "isl (mem_reserveCall parse u (memory_of db) i k e now)"
      unfolding mem_reserveCall_def Inr
      using False by (cases "requireRevision g e"; cases "active parse g now")
        (auto simp: guard_def Let_def remaining_bytes_def)
    moreover have "\<exists>err. sql_reserveCall parse u i k e now db = (Inl err, db)"
      using False act sql_okD(1) [OF ok]
      by (cases "requireRevision g e"; cases "sql_active parse g now")
        (auto simp: sql_reserveCall_def transaction_open required revision check_def guard_def Let_def
          remaining_bytes_def)
    ultimately show ?thesis by (auto simp: same_outcome_def)
  next
    case True
    let ?x = "\<lparr>rsv_id = u, rsv_grantId = k, rsv_issuerId = i, rsv_revision = grant_revision g + 1,
      rsv_maxResponseBytes = min (grant_maxResponseBytes g) (remaining_bytes g)\<rparr>"
    let ?m = "(mem_set (grant_key i k) (reserve g) (memory_of db))
      \<lparr>mem_reservations := AList.update u ?x (mem_reservations (memory_of db))\<rparr>"
    have run: "mem_reserveCall parse u (memory_of db) i k e now = Inr (?x, ?m)"
      unfolding mem_reserveCall_def Inr
      using True by (simp add: Let_def remaining_bytes_def reserve_def)
    have fields: "grant_revision g = col_revision row" "grant_maxResponseBytes g = col_max_response_bytes row"
      by (simp_all add: g row_record_def)
    have "0 < min (col_max_response_bytes row) (remaining_bytes (row_record db row))"
      using True sql_okD(5) [OF ok row(1)] by (simp add: g row_valid_def)
    with reserve_step [OF ok fresh row _ run] fields
    obtain db1 db' where "sql_casRevision g (col_revision row + 1) db = (Inr (), db1)"
      "sql_insert_reservation \<lparr>res_reservation_id = u, res_issuer_id = i, res_grant_id = k,
        res_reservation_revision = col_revision row + 1,
        res_max_response_bytes = min (col_max_response_bytes row) (remaining_bytes g)\<rparr> db1 = (Inr (), db')"
      "memory_of db' = ?m" "sql_ok parse db'"
      by (auto simp flip: g)
    then show ?thesis
      using True act sql_okD(1) [OF ok] run
      by (simp add: same_outcome_def sql_reserveCall_def transaction_open required revision check_def
          Let_def remaining_bytes_def fields)
  qed
qed

subsection \<open>Issuing\<close>

lemma decode_new_record:
  assumes "grant_reservedCalls g = 0" and "grant_reservedResponseBytes g = 0"
  shows "record_with (row_of_record g) 0 0 = g"
  using assms by (simp add: record_with_def row_of_record_def parse_stringify)

lemma no_reservations:
  assumes ok: "sql_ok parse db" and free: "map_of (mem_records (memory_of db)) (grant_key i k) = None"
  shows "held_rows db i k = []"
proof (rule ccontr)
  assume "held_rows db i k \<noteq> []"
  then obtain x where x: "x \<in> set (db_reservations db)"
    and key: "reservation_key (row_reservation x) = grant_key i k"
    by (auto simp: held_rows_def filter_empty_conv reservation_key_def row_reservation_def)
  have "find (\<lambda>y. res_reservation_id y = res_reservation_id x) xs = Some x"
    if "x \<in> set xs" "distinct (map res_reservation_id xs)" for xs
    using that by (induction xs) (auto simp: image_iff)
  from this [OF x reservation_ids [OF ok]]
  have "map_of (mem_reservations (memory_of db)) (res_reservation_id x) = Some (row_reservation x)"
    by simp
  from accounted_reservation [OF sql_okD(2) [OF ok] this] show False using free key by simp
qed

lemma issue_outcome:
  assumes ok: "sql_ok parse db" and unused: "unused g"
  shows "case sql_issue parse g db of
      (Inl e, db') \<Rightarrow> db' = db \<and> (isl (mem_issue (memory_of db) g) \<or>
        isl (sql_validateRecord parse g) \<or> \<not> sql_filled (grant_issuerId g))
    | (Inr u, db') \<Rightarrow> mem_issue (memory_of db) g = Inr (memory_of db') \<and> sql_ok parse db'"
proof (cases "sql_validateRecord parse g")
  case (Inl e)
  then show ?thesis by (simp add: sql_issue_def check_def)
next
  case (Inr u)
  let ?row = "row_of_record g" and ?i = "grant_issuerId g" and ?k = "grant_id g"
  let ?db' = "db\<lparr>db_grants := db_grants db @ [?row]\<rparr>"
  have g: "grant_reservedCalls g = 0" "grant_reservedResponseBytes g = 0" "uuid_text ?k"
    using unused by (simp_all add: unused_def)
  have valid: "row_valid parse ?row"
    using Inr by (auto simp: sql_validateRecord_def chain_eq_Inr sql_decode_Inr)
  have nul: "CHR 0x00 \<notin> set ?k" using g(3) by (rule uuid_text_nul)
  have found: "map_of (mem_records (memory_of db)) (grant_key ?i ?k) = None \<longleftrightarrow>
      \<not> list_ex (row_of ?i ?k) (db_grants db)"
    using mem_read_memory_of [OF ok nul, of ?i] by (auto simp: mem_read_map find_None_iff list_ex_iff)
  have cols: "col_issuer_id ?row = ?i" "col_grant_id ?row = ?k" by (simp_all add: row_of_record_def)
  have checks: "grant_checks ?row \<longleftrightarrow> sql_filled ?i"
    using valid g(3) uuid_text_filled unused
    by (auto simp: grant_checks_def row_valid_def row_of_record_def unused_def quota_def grant_states_def)
  show ?thesis
  proof (cases "sql_filled ?i \<and> \<not> list_ex (row_of ?i ?k) (db_grants db)")
    case False
    then show ?thesis
      using Inr g checks found cols sql_okD(1) [OF ok]
      by (auto simp: sql_issue_def check_def transaction_open sql_insert_grant_def mem_issue_def Let_def)
  next
    case True
    then have insert: "sql_issue parse g db = (Inr (), ?db')"
      using Inr g checks cols sql_okD(1) [OF ok]
      by (simp add: sql_issue_def check_def transaction_open sql_insert_grant_def)
    have free: "map_of (mem_records (memory_of db)) (grant_key ?i ?k) = None" using True found by simp
    have "row_record ?db' = row_record db"
      by (simp add: fun_eq_iff row_record_def sql_reserved_calls_def sql_reserved_bytes_def held_rows_def)
    moreover have "row_record db ?row = g"
      using no_reservations [OF ok free] decode_new_record [OF g(1,2)]
      by (simp add: row_record_def sql_reserved_calls_def sql_reserved_bytes_def cols)
    moreover have "grant_key ?i ?k \<notin> fst ` set (mem_records (memory_of db))"
      using free by (simp add: map_of_eq_None_iff)
    ultimately have mem: "memory_of ?db' = mem_set (grant_key ?i ?k) g (memory_of db)"
      by (simp add: mem_set_def update_fresh) (simp add: memory_of_def row_key_def cols)
    have issued: "mem_issue (memory_of db) g = Inr (memory_of ?db')"
      using free mem by (simp add: mem_issue_def Let_def)
    from issue_accounted [OF this sql_okD(2) [OF ok] unused] have "accounted (memory_of ?db')" .
    then have "sql_ok parse ?db'"
      using ok True valid g(3) cols unfolding sql_ok_def by (auto simp: list_ex_iff row_of_def)
    then show ?thesis using insert issued by simp
  qed
qed


section \<open>The SQLite repository meets the contract\<close>

subsection \<open>An operation that returns had a revision left\<close>

lemma find_replaced:
  assumes "\<And>r. col_issuer_id (f r) = col_issuer_id r" and "\<And>r. col_grant_id (f r) = col_grant_id r"
  shows "find (row_of i k) (map (\<lambda>r. if row_of i k r then f r else r) rows) =
    map_option f (find (row_of i k) rows)"
  using assms by (induction rows) (auto simp: row_of_def)

lemma update_read_revisable:
  assumes ok: "sql_ok parse db" and row: "row \<in> set (db_grants db)" "row_of i k row"
    and run: "sql_update_read parse (row_record db row) c b st (db\<lparr>db_reservations := rs\<rparr>) = (Inr g, t)"
  shows "revisable row"
proof (rule ccontr)
  assume "\<not> revisable row"
  then have unsafe: "\<not> isSafeInteger (col_revision row + 1)"
    by (simp add: revisable_def isSafeInteger_def)
  have keys: "col_issuer_id row = i" "col_grant_id row = k" using row(2) by (simp_all add: row_of_def)
  let ?f = "\<lambda>r. r\<lparr>col_calls_used := c, col_response_bytes_used := b,
      col_state := grant_state_name st, col_revision := col_revision row + 1\<rparr>"
  let ?db1 = "db\<lparr>db_reservations := rs\<rparr>"
  obtain n db' where upd: "sql_update_grant i k (col_revision row) ?f ?db1 = (Inr n, db')" "db_open db'"
    and read: "sql_required parse i k db' = Inr g"
    using run keys sql_okD(1) [OF ok]
    by (auto simp: sql_update_read_def sql_update_def row_record_def proceed_Inr_iff check_def
        sql_required_def sql_read_def chain_eq_Inr)
  have "grant_checks (?f row)"
    using upd(1) row by (auto simp: sql_update_grant_def list_all_iff Let_def split: if_splits)
  then have "db' = replace_row i k ?f ?db1"
    using update_eq [of ?db1 row i k ?f] sql_okD(3) [OF ok] row upd(1) by simp
  moreover have "find (row_of i k) (db_grants db) = Some row"
    using find_row [OF row(1) sql_okD(3) [OF ok] row(2)] .
  ultimately have "find (row_of i k) (db_grants db') = Some (?f row)"
    by (simp add: replace_row_def find_replaced)
  then show False using read unsafe
    by (auto simp: sql_required_def sql_read_def js_numbers_def chain_eq_Inr Let_def)
qed

lemma same_outcome_Inr [simp]:
  "same_outcome parse db m (Inr x, t) \<longleftrightarrow> m = Inr (x, memory_of t) \<and> sql_ok parse t"
  by (simp add: same_outcome_def)

lemma transaction_Inr: "transaction f db = (Inr x, t) \<longleftrightarrow> db_open db \<and> f db = (Inr x, t)"
  by (auto simp: transaction_def split: prod.splits sum.splits)

lemma required_row:
  assumes ok: "sql_ok parse db" and req: "sql_required parse i k db = Inr g"
  obtains row where "CHR 0x00 \<notin> set k" "row \<in> set (db_grants db)" "row_of i k row" "g = row_record db row"
proof -
  have nul: "CHR 0x00 \<notin> set k" and "mem_required (memory_of db) i k = Inr g"
    using req sql_required_eq [OF ok, of i k] by (auto split: if_splits)
  then show thesis using mem_required_found [OF ok nul] that by metis
qed

lemma settled_revisable:
  assumes ok: "sql_ok parse db" and req: "sql_required parse i k db = Inr g"
    and run: "sql_update_read parse g c b st (db\<lparr>db_reservations := rs\<rparr>) = (Inr g', t)"
  shows "CHR 0x00 \<notin> set k \<and> revisable_at i k db"
proof -
  obtain row where row: "CHR 0x00 \<notin> set k" "row \<in> set (db_grants db)" "row_of i k row" "g = row_record db row"
    using required_row [OF ok req] .
  have "revisable row" using update_read_revisable [OF ok row(2,3) run [unfolded row(4)]] .
  then show ?thesis
    using row(1) row_unique [OF sql_okD(3) [OF ok] row(2,3)] by (auto simp: revisable_at_def)
qed

lemma transition_sound:
  assumes "sql_transition parse st i k e now db = (Inr g, t)" and ok: "sql_ok parse db"
    and clock: "strict_clock parse"
  shows "mem_transition parse st (memory_of db) i k e now = Inr (g, memory_of t) \<and> sql_ok parse t"
proof -
  have "CHR 0x00 \<notin> set k \<and> revisable_at i k db"
    using assms(1) settled_revisable [OF ok, where rs = "db_reservations db"]
    by (auto simp: sql_transition_def transaction_Inr proceed_Inr_iff check_def chain_eq_Inr)
  then show ?thesis
    using transition_same_outcome [OF ok _ _ clock, of k i st e now] assms(1) by simp
qed

lemma expire_sound:
  assumes "sql_expire parse i k e now db = (Inr g, t)" and ok: "sql_ok parse db"
    and clock: "strict_clock parse"
  shows "mem_expire parse (memory_of db) i k e now = Inr (g, memory_of t) \<and> sql_ok parse t"
proof -
  have "CHR 0x00 \<notin> set k \<and> revisable_at i k db"
    using assms(1) settled_revisable [OF ok, where rs = "db_reservations db"]
    by (auto simp: sql_expire_def transaction_Inr proceed_Inr_iff check_def chain_eq_Inr)
  then show ?thesis
    using expire_same_outcome [OF ok _ _ clock, of k i e now] assms(1) by simp
qed

lemma reservation_exact:
  assumes ok: "sql_ok parse db" and "sql_reservation h db = Inr y"
  shows "y = h \<and> map_of (mem_reservations (memory_of db)) (rsv_id h) = Some h"
  using assms sql_reservation_eq [OF ok, of h] by (auto split: option.splits if_splits)

lemma commit_sound:
  assumes run: "sql_commitCall parse h n now db = (Inr g, t)" and ok: "sql_ok parse db"
    and clock: "strict_clock parse"
  shows "mem_commitCall parse (memory_of db) h n now = Inr (g, memory_of t) \<and> sql_ok parse t"
proof -
  obtain y rec c b st rs where "sql_reservation h db = Inr y"
    "sql_required parse (rsv_issuerId y) (rsv_grantId y) db = Inr rec"
    "sql_update_read parse rec c b st (db\<lparr>db_reservations := rs\<rparr>) = (Inr g, t)"
    using run by (auto simp: sql_commitCall_def transaction_Inr proceed_Inr_iff check_def Let_def
        sql_delete_reservation_def)
  then have "revisable_at (rsv_issuerId h) (rsv_grantId h) db"
    using settled_revisable [OF ok] reservation_exact [OF ok] by metis
  then show ?thesis using commit_same_outcome [OF ok _ clock, of h n now] run by simp
qed

lemma release_sound:
  assumes run: "sql_releaseCall parse h now db = (Inr g, t)" and ok: "sql_ok parse db"
  shows "mem_releaseCall (memory_of db) h now = Inr (g, memory_of t) \<and> sql_ok parse t"
proof -
  obtain y rec c b st rs where res: "sql_reservation h db = Inr y"
    and "sql_required parse (rsv_issuerId y) (rsv_grantId y) db = Inr rec"
    "sql_update_read parse rec c b st (db\<lparr>db_reservations := rs\<rparr>) = (Inr g, t)"
    using run by (auto simp: sql_releaseCall_def transaction_Inr proceed_Inr_iff check_def Let_def
        sql_delete_reservation_def)
  then have "revisable_at (rsv_issuerId h) (rsv_grantId h) db"
    using settled_revisable [OF ok] reservation_exact [OF ok] by metis
  moreover have "x = h" if "map_of (mem_reservations (memory_of db)) (rsv_id h) = Some x" for x
    using reservation_exact [OF ok res] that by (metis option.inject)
  ultimately show ?thesis
    using release_same_outcome [OF ok, of h now] run by (metis same_outcome_Inr)
qed

lemma reserve_sound:
  assumes run: "sql_reserveCall parse u i k e now db = (Inr x, t)" and ok: "sql_ok parse db"
    and fresh: "sql_fresh u db" and clock: "strict_clock parse"
  shows "mem_reserveCall parse u (memory_of db) i k e now = Inr (x, memory_of t) \<and> sql_ok parse t"
proof -
  have "\<exists>g. sql_required parse i k db = Inr g"
    using run by (auto simp: sql_reserveCall_def transaction_Inr proceed_Inr_iff check_def chain_eq_Inr)
  then have "CHR 0x00 \<notin> set k" using required_row [OF ok] by metis
  then show ?thesis using reserve_same_outcome [OF ok fresh _ clock, of k i e now] run by simp
qed

subsection \<open>The interface record and its contract\<close>

text \<open>
  A thrown operation leaves the database as it was, so that its result alone is the outcome. A
  read that throws on an undecodable row is \<open>None\<close> here; on a well-formed database no read throws.
\<close>

definition outcome :: "'a result \<times> 's \<Rightarrow> ('a \<times> 's) result" where
  "outcome p = (case fst p of Inl e \<Rightarrow> Inl e | Inr x \<Rightarrow> Inr (x, snd p))"

definition sqlite_repo :: "(string \<Rightarrow> int option) \<Rightarrow> grant_database run_grant_repository" where
  "sqlite_repo parse = \<lparr>repo_issue = (\<lambda>db g. chain (outcome (sql_issue parse g db)) (\<lambda>p. Inr (snd p))),
     repo_read = (\<lambda>db i k. case sql_read parse db i k of Inl e \<Rightarrow> None | Inr record \<Rightarrow> record),
     repo_reserveCall = (\<lambda>u db i k e now. outcome (sql_reserveCall parse u i k e now db)),
     repo_commitCall = (\<lambda>db x n now. outcome (sql_commitCall parse x n now db)),
     repo_releaseCall = (\<lambda>db x now. outcome (sql_releaseCall parse x now db)),
     repo_revoke = (\<lambda>db i k e now. outcome (sql_revoke parse i k e now db)),
     repo_consume = (\<lambda>db i k e now. outcome (sql_consume parse i k e now db)),
     repo_expire = (\<lambda>db i k e now. outcome (sql_expire parse i k e now db))\<rparr>"

lemma outcome_Inr [simp]: "outcome p = Inr (x, t) \<longleftrightarrow> p = (Inr x, t)"
  by (cases p) (auto simp: outcome_def split: sum.splits)

lemma sqlite_read:
  "sql_ok parse db \<Longrightarrow> repo_read (sqlite_repo parse) db i k =
     (if CHR 0x00 \<in> set k then None else mem_read (memory_of db) i k)"
  by (simp add: sqlite_repo_def sql_read_eq)

lemma changes_sqliteI:
  assumes "sql_ok parse db" and "sql_ok parse t"
    and "changes (memory_repo parse) (memory_of db) (memory_of t)"
  shows "changes (sqlite_repo parse) db t"
  unfolding changes_def sqlite_read [OF assms(1)] sqlite_read [OF assms(2)]
proof (intro allI)
  fix i k
  show "case if CHR 0x00 \<in> set k then None else mem_read (memory_of db) i k of
      None \<Rightarrow> (if CHR 0x00 \<in> set k then None else mem_read (memory_of t) i k) = None
    | Some a \<Rightarrow> \<exists>b. (if CHR 0x00 \<in> set k then None else mem_read (memory_of t) i k) = Some b \<and>
        (a = b \<or> grant_change a b)"
    using assms(3) [unfolded changes_def, rule_format, of i k]
    by (cases "mem_read (memory_of db) i k") simp_all
qed

lemma sqlite_issue_Inr:
  assumes "repo_issue (sqlite_repo parse) db g = Inr t" and "sql_ok parse db" and "unused g"
  shows "mem_issue (memory_of db) g = Inr (memory_of t) \<and> sql_ok parse t"
proof -
  have "sql_issue parse g db = (Inr (), t)"
    using assms(1) by (auto simp: sqlite_repo_def chain_eq_Inr)
  then show ?thesis using issue_outcome [OF assms(2,3)] by simp
qed

abbreviation sqlite_ok :: "(string \<Rightarrow> int option) \<Rightarrow> grant_database \<Rightarrow> bool" where
  "sqlite_ok parse db \<equiv> strict_clock parse \<and> sql_ok parse db"

interpretation sqlite: grant_repository "sqlite_repo parse" "sqlite_ok parse" sql_fresh
  for parse :: "string \<Rightarrow> int option"
proof unfold_locales
  fix r r' :: grant_database and g h and i k u now :: string and x and n e
  show "quota g" if "sqlite_ok parse r" "repo_read (sqlite_repo parse) r i k = Some g"
    using that memory.quota_read [of "memory_of r" parse i k g] sql_okD(2)
    by (auto simp: sqlite_read split: if_splits)
  show "sqlite_ok parse r'"
    if "repo_issue (sqlite_repo parse) r g = Inr r'" "sqlite_ok parse r" "unused g"
    using sqlite_issue_Inr that by blast
  show "repo_read (sqlite_repo parse) r' (grant_issuerId g) (grant_id g) = Some g"
    if "repo_issue (sqlite_repo parse) r g = Inr r'" "sqlite_ok parse r" "unused g"
    using sqlite_issue_Inr [of parse r g r'] memory.issue_read [of parse "memory_of r" g "memory_of r'"]
      that sql_okD(2) uuid_text_nul by (auto simp: sqlite_read unused_def)
  show "repo_read (sqlite_repo parse) r' i k = Some h"
    if "repo_issue (sqlite_repo parse) r g = Inr r'" "sqlite_ok parse r" "unused g"
      "repo_read (sqlite_repo parse) r i k = Some h"
    using sqlite_issue_Inr [of parse r g r'] memory.issue_keeps [of parse "memory_of r" g "memory_of r'" i k h]
      that sql_okD(2) by (auto simp: sqlite_read split: if_splits)
  show "sqlite_ok parse r' \<and> changes (sqlite_repo parse) r r'"
    if "repo_reserveCall (sqlite_repo parse) u r i k e now = Inr (x, r')" "sqlite_ok parse r" "sql_fresh u r"
    using reserve_sound [of parse u i k e now r x r'] that mem_reserve_law changes_sqliteI
    by (simp add: sqlite_repo_def) metis
  show "sqlite_ok parse r' \<and> changes (sqlite_repo parse) r r'"
    if "repo_commitCall (sqlite_repo parse) r x n now = Inr (g, r')" "sqlite_ok parse r"
    using commit_sound [of parse x n now r g r'] that mem_commit_law changes_sqliteI
    by (simp add: sqlite_repo_def) metis
  show "sqlite_ok parse r' \<and> changes (sqlite_repo parse) r r'"
    if "repo_releaseCall (sqlite_repo parse) r x now = Inr (g, r')" "sqlite_ok parse r"
    using release_sound [of parse x now r g r'] that mem_release_law changes_sqliteI sql_okD(2)
    by (simp add: sqlite_repo_def) metis
  show "sqlite_ok parse r' \<and> changes (sqlite_repo parse) r r'"
    if "repo_revoke (sqlite_repo parse) r i k e now = Inr (g, r')" "sqlite_ok parse r"
    using transition_sound [of parse GrantRevoked i k e now r g r'] that
      mem_transition_law [of parse GrantRevoked] changes_sqliteI sql_okD(2)
    by (simp add: sqlite_repo_def sql_revoke_def) metis
  show "sqlite_ok parse r' \<and> changes (sqlite_repo parse) r r'"
    if "repo_consume (sqlite_repo parse) r i k e now = Inr (g, r')" "sqlite_ok parse r"
    using transition_sound [of parse GrantConsumed i k e now r g r'] that
      mem_transition_law [of parse GrantConsumed] changes_sqliteI sql_okD(2)
    by (simp add: sqlite_repo_def sql_consume_def) metis
  show "sqlite_ok parse r' \<and> changes (sqlite_repo parse) r r'"
    if "repo_expire (sqlite_repo parse) r i k e now = Inr (g, r')" "sqlite_ok parse r"
    using expire_sound [of parse i k e now r g r'] that mem_expire_law changes_sqliteI sql_okD(2)
    by (simp add: sqlite_repo_def) metis
qed


end
