(* ===== verification/Sqlite_Stores.thy ===== *)
theory Sqlite_Stores
  imports Sqlite_Correctness
begin

text \<open>
  The properties of the SQLite grant repository: it is interchangeable with the in-memory one, it
  accepts every grant a store issues, and however stores share it, quotas are kept, a grant only
  moves forward and no read meets an undecodable row.
\<close>

section \<open>A concrete host and database\<close>

definition strict_length :: "string \<Rightarrow> int option" where
  "strict_length s = (if blank s then None else Some (int (length s)))"

lemma strict_length [simp]: "strict_clock strict_length"
  by (simp add: strict_clock_def strict_length_def)

definition hex_hash :: string where
  "hex_hash = replicate 64 CHR ''a''"

definition sqlite_host :: host_runtime where
  "sqlite_host = \<lparr>host_collate = code_unit_compare, host_parse = strict_length,
     host_sha = (\<lambda>_. hex_hash)\<rparr>"

definition new_database :: grant_database where
  "new_database = \<lparr>db_open = True, db_grants = [], db_reservations = []\<rparr>"

definition sqlite_store :: "grant_database run_grant_store" where
  "sqlite_store = \<lparr>store_issuerId = ''i'', store_repository = sqlite_repo strict_length\<rparr>"

definition sqlite_request :: run_grant_request where
  "sqlite_request = sample_request\<lparr>rgr_inventoryDigest := ''sha256:'' @ hex_hash\<rparr>"

lemma sqlite_host_simps [simp]:
  "host_collate sqlite_host = code_unit_compare" "host_parse sqlite_host = strict_length"
  "host_sha sqlite_host = (\<lambda>_. hex_hash)" "store_issuerId sqlite_store = ''i''"
  "store_repository sqlite_store = sqlite_repo strict_length"
  by (simp_all add: sqlite_host_def sqlite_store_def)

lemma new_database_ok: "sql_ok parse new_database"
  by (simp add: sql_ok_def new_database_def memory_of_def accounted_def)

lemma lower_hex_replicate: "list_all lower_hex hex_hash"
  by (simp add: hex_hash_def list_all_iff lower_hex_def)

lemma hash_text_hex_hash [simp]: "hash_text hex_hash"
  using lower_hex_replicate by (simp add: hash_text_def hex_hash_def)

lemma strict_time: "parseTime strict_length (CHR ''t'' # s) name = Inr (int (length s) + 1)"
  by (simp add: parseTime_def requireText_def blank_Cons js_white_def strict_length_def guard_def)

lemma sqlite_inventory_valid:
  "validateInventory code_unit_compare strict_length sample_inventory = Inr ()"
proof -
  have "normalized code_unit_compare [''2025-01-01'', ''2026-01-01'', ''2026-06-01'']
      ''protocol version'' (validVersion strict_length) =
      Inr (unique_sorted code_unit_compare [''2025-01-01'', ''2026-01-01'', ''2026-06-01''])"
    by (simp add: normalized_Inr validVersion_def chain_eq_Inr blank_Cons js_white_def dateVersion_def
        is_digit_def strict_length_def numeral_eq_Suc)
  then show ?thesis
    by (simp add: validateInventory_def sample_inventory_def chain_eq_Inr or_nil_def
        normalized_Inr check_tool_def sample_tool_def blank_Cons js_white_def)
qed

lemma sqlite_inventory_digest:
  "inventoryDigest code_unit_compare (\<lambda>_. hex_hash) sample_inventory = Inr (''sha256:'' @ hex_hash)"
proof -
  have "inventoryDigest code_unit_compare (\<lambda>_. hex_hash) sample_inventory =
      Inr (json_digest (\<lambda>_. hex_hash) (inventory_json code_unit_compare sample_inventory))"
    unfolding inventoryDigest_def
    by (rule digestJson_finite) (auto simp: inventory_json_def tool_json_def sample_inventory_def
        sample_tool_def or_null_def)
  then show ?thesis by (simp add: json_digest_def sha256Bytes_def)
qed

lemma sqlite_checks:
  "check_request sqlite_host sqlite_request sample_inventory ''tt'' = Inr ([''x''], [''t''])"
proof -
  have "check_limits sqlite_request = Inr ()"
    by (simp add: check_limits_def sqlite_request_def sample_request_def requireText_def blank_Cons
        js_white_def chain_eq_Inr isSafeInteger_def)
  moreover have "check_window sqlite_host sqlite_request ''tt'' = Inr ()"
    by (simp add: check_window_def sqlite_request_def sample_request_def strict_time)
  moreover have "check_inventory_digest sqlite_host sqlite_request sample_inventory = Inr ()"
    by (simp add: check_inventory_digest_def sqlite_inventory_digest sqlite_request_def)
      (simp add: sample_request_def sample_inventory_def)
  moreover have "normalizedStrings lc [[c]] name = Inr [[c]]" if "\<not> js_white c" for lc c name
    using that by (simp add: normalizedStrings_def requireText_def blank_Cons chain_eq_Inr)
  moreover have "check_tool_id sample_inventory ''t'' = Inr ()"
    by (simp add: check_tool_id_def sample_inventory_def sample_tool_def js_map_def)
  moreover have "rgr_protocolVersion sqlite_request \<in> set (inv_protocolVersions sample_inventory)"
    "rgr_extensions sqlite_request = [''x'']" "rgr_toolIds sqlite_request = [''t'']"
    "or_nil (inv_extensions sample_inventory) = [''x'']"
    by (simp_all add: sqlite_request_def sample_request_def sample_inventory_def or_nil_def)
  ultimately show ?thesis
    by (simp add: check_request_def sqlite_inventory_valid js_white_def)
qed

section \<open>The two repositories are interchangeable\<close>

text \<open>
  What SQLite demands of a new grant beyond what the in-memory repository does: the columns must
  pass the validation of stored records and the issuer must not be empty for SQLite.
\<close>

definition storable :: "(string \<Rightarrow> int option) \<Rightarrow> stored_run_grant \<Rightarrow> bool" where
  "storable parse g \<longleftrightarrow> sql_validateRecord parse g = Inr () \<and> sql_filled (grant_issuerId g)"

lemma issue_storable:
  assumes "sql_ok parse db" and "unused g" and "sql_issue parse g db = (Inr u, db')"
  shows "storable parse g"
proof -
  have valid: "sql_validateRecord parse g = Inr ()"
    using assms(3) by (cases "sql_validateRecord parse g") (simp_all add: sql_issue_def check_def)
  have "grant_checks (row_of_record g)"
  proof (rule ccontr)
    assume "\<not> grant_checks (row_of_record g)"
    then have "isl (fst (sql_issue parse g db))"
      using valid assms(2) sql_okD(1) [OF assms(1)]
      by (simp add: sql_issue_def check_def transaction_open sql_insert_grant_def unused_def)
    then show False using assms(3) by simp
  qed
  then show ?thesis using valid by (simp add: storable_def grant_checks_def row_of_record_def)
qed

lemma issue_same_outcome:
  assumes "sql_ok parse db" and "unused g"
  shows "if storable parse g
    then same_outcome parse db (map_sum id (Pair ()) (mem_issue (memory_of db) g)) (sql_issue parse g db)
    else isl (fst (sql_issue parse g db)) \<and> snd (sql_issue parse g db) = db"
proof (cases "sql_issue parse g db")
  case (Pair q db')
  show ?thesis
  proof (cases q)
    case (Inl e)
    then show ?thesis using Pair issue_outcome [OF assms]
      by (cases "mem_issue (memory_of db) g") (auto simp: same_outcome_def storable_def)
  next
    case (Inr u)
    then show ?thesis using Pair issue_outcome [OF assms] issue_storable [OF assms]
      by (auto simp: same_outcome_def)
  qed
qed

text \<open>
  C15: The SQLite grant repository does what the in-memory one does. On every well-formed database,
  with a fresh UUID, an exact or unknown reservation handle and a clock that rejects blank strings,
  reading, reserving, committing, releasing, revoking, consuming and expiring throw exactly when
  the operation of the in-memory repository does, and otherwise return the same value in corresponding
  states; a failed operation is rolled back completely. Issuing an unused grant has the same outcome
  where SQLite can store the record, and is refused without a change where it cannot, which the
  in-memory repository does not check.
\<close>

theorem sqlite_matches_memory:
  assumes "sql_ok parse db" and "strict_clock parse" and "sql_fresh u db" and "CHR 0x00 \<notin> set k"
    and "map_of (mem_reservations (memory_of db)) (rsv_id h) \<in> {None, Some h}" and "unused g"
  shows "sql_read parse db i k = Inr (mem_read (memory_of db) i k) \<and>
    same_outcome parse db (mem_reserveCall parse u (memory_of db) i k e now) (sql_reserveCall parse u i k e now db) \<and>
    same_outcome parse db (mem_commitCall parse (memory_of db) h n now) (sql_commitCall parse h n now db) \<and>
    same_outcome parse db (mem_releaseCall (memory_of db) h now) (sql_releaseCall parse h now db) \<and>
    same_outcome parse db (mem_revoke parse (memory_of db) i k e now) (sql_revoke parse i k e now db) \<and>
    same_outcome parse db (mem_consume parse (memory_of db) i k e now) (sql_consume parse i k e now db) \<and>
    same_outcome parse db (mem_expire parse (memory_of db) i k e now) (sql_expire parse i k e now db) \<and>
    (if storable parse g
     then same_outcome parse db (map_sum id (Pair ()) (mem_issue (memory_of db) g)) (sql_issue parse g db)
     else isl (fst (sql_issue parse g db)) \<and> snd (sql_issue parse g db) = db)"
proof -
  have left: "revisions_left db" using assms(3) by (simp add: sql_fresh_def)
  have handle: "x = h" if "map_of (mem_reservations (memory_of db)) (rsv_id h) = Some x" for x
    using that assms(5) by auto
  have "sql_read parse db i k = Inr (mem_read (memory_of db) i k) \<and>
    same_outcome parse db (mem_reserveCall parse u (memory_of db) i k e now) (sql_reserveCall parse u i k e now db) \<and>
    same_outcome parse db (mem_commitCall parse (memory_of db) h n now) (sql_commitCall parse h n now db) \<and>
    same_outcome parse db (mem_releaseCall (memory_of db) h now) (sql_releaseCall parse h now db) \<and>
    same_outcome parse db (mem_revoke parse (memory_of db) i k e now) (sql_revoke parse i k e now db) \<and>
    same_outcome parse db (mem_consume parse (memory_of db) i k e now) (sql_consume parse i k e now db) \<and>
    same_outcome parse db (mem_expire parse (memory_of db) i k e now) (sql_expire parse i k e now db)"
    using sql_read_eq [OF assms(1), of i k] assms(4)
      reserve_same_outcome [OF assms(1,3,4,2)] commit_same_outcome [OF assms(1) _ assms(2)]
      release_same_outcome [OF assms(1) _ handle] transition_same_outcome [OF assms(1,4) _ assms(2)]
      expire_same_outcome [OF assms(1,4) _ assms(2)] revisions_left_at [OF left]
    by (simp add: mem_revoke_def sql_revoke_def mem_consume_def sql_consume_def)
  then show ?thesis using issue_same_outcome [OF assms(1,6)] by blast
qed

section \<open>Every grant a store issues is accepted\<close>

lemma stored_array:
  assumes "normalizedStrings lc values name = Inr xs"
  shows "isl (sql_stringArray (print_json (strs_json xs))) = False"
proof -
  have text_iff: "requireText v name = Inr u \<longleftrightarrow> \<not> blank v" for v u
    by (simp add: requireText_def)
  have "\<forall>x \<in> set xs. \<not> blank x" "distinct xs"
    using assms by (auto simp: normalizedStrings_def chain_eq_Inr text_iff
        for_each_check [of "\<lambda>v. requireText v name"])
  then show ?thesis by (auto simp: sql_stringArray_def parse_stringify list_ex_iff guard_def)
qed

lemma new_record_valid:
  assumes checks: "check_request host request inventory now = Inr (extensions, toolIds)"
    and hash: "\<And>s. hash_text (host_sha host s)" and uuid: "uuid_text uuid" and issuer: "\<not> blank issuerId"
  shows "sql_validateRecord (host_parse host)
    (new_record host issuerId request extensions toolIds token uuid) = Inr ()"
proof -
  have limits: "check_limits request = Inr ()" and window: "check_window host request now = Inr ()"
    and dig: "check_inventory_digest host request inventory = Inr ()"
    and arrays: "normalizedStrings (host_collate host) (rgr_extensions request) ''extension'' = Inr extensions"
      "normalizedStrings (host_collate host) (rgr_toolIds request) ''toolId'' = Inr toolIds"
    using checks by (auto simp: check_request_def chain_eq_Inr)
  have "\<exists>t. ''sha256:'' @ host_sha host t = rgr_inventoryDigest request"
    using dig by (auto simp: check_inventory_digest_def chain_eq_Inr inventoryDigest_def digestJson_def
        sha256Bytes_def split: if_splits)
  then obtain t where "rgr_inventoryDigest request = ''sha256:'' @ host_sha host t" by metis
  moreover have "length (host_sha host s) = 64 \<and> list_all lower_hex (host_sha host s)" for s
    using hash by (simp add: hash_text_def)
  ultimately have digest: "digest_text (rgr_inventoryDigest request)" "\<not> blank (rgr_inventoryDigest request)"
    by (simp_all add: digest_text_def blank_Cons js_white_def)
  have hashed: "\<not> blank (host_sha host s)" for s
  proof (cases "host_sha host s")
    case (Cons c cs)
    then have "lower_hex c" using hash [of s] by (simp add: hash_text_def)
    then have "\<not> js_white c" by (auto simp: lower_hex_def is_digit_def js_white_def)
    then show ?thesis using Cons by (simp add: blank_Cons)
  qed (use hash [of s] in \<open>simp add: hash_text_def\<close>)
  have window': "\<not> blank (rgr_issuedAt request)" "host_parse host (rgr_issuedAt request) \<noteq> None"
    "\<not> blank (rgr_expiresAt request)" "host_parse host (rgr_expiresAt request) \<noteq> None"
    "\<not> date_le (host_parse host) (rgr_expiresAt request) (rgr_issuedAt request)"
    using window by (auto simp: check_window_def chain_eq_Inr date_le_def not_less not_le)
  have limits': "\<not> blank (rgr_runId request)" "\<not> blank (rgr_providerId request)"
    "\<not> blank (rgr_protocolVersion request)" "isSafeInteger (rgr_maxCalls request)" "0 < rgr_maxCalls request"
    "isSafeInteger (rgr_maxResponseBytes request)" "0 < rgr_maxResponseBytes request"
    "isSafeInteger (rgr_maxTotalResponseBytes request)" "0 < rgr_maxTotalResponseBytes request"
    "rgr_maxResponseBytes request \<le> rgr_maxTotalResponseBytes request"
    using limits by (auto simp: check_limits_def chain_eq_Inr requireText_def not_less)
  have "row_valid (host_parse host)
      (row_of_record (new_record host issuerId request extensions toolIds token uuid))"
    using digest hashed hash window' limits' uuid_text_blank [OF uuid] issuer
      stored_array [OF arrays(1)] stored_array [OF arrays(2)]
    by (simp add: row_valid_def row_of_record_def new_record_def tokenHash_def isSafeInteger_def
        grant_states_def)
  then show ?thesis
    using limits' by (simp add: sql_validateRecord_def chain_eq_Inr sql_decode_Inr)
      (simp add: row_of_record_def new_record_def isSafeInteger_def)
qed

text \<open>
  C17: The SQLite repository accepts every grant that passes the checks of the store: where SHA-256
  prints 64 lower-case hexadecimal digits and the id is an unused UUID, \<open>issue\<close> returns the handle,
  and reading the id back gives the issued record unchanged, through its two JSON columns.
\<close>

theorem sqlite_accepts_issued:
  assumes "check_request host request inventory now = Inr (extensions, toolIds)"
    and "\<And>s. hash_text (host_sha host s)" and "uuid_text uuid"
    and "store_repository store = sqlite_repo (host_parse host)"
    and "\<not> blank (store_issuerId store)" and "sql_filled (store_issuerId store)"
    and "sql_ok (host_parse host) db"
    and "sql_read (host_parse host) db (store_issuerId store) uuid = Inr None"
  shows "\<exists>t. store_issue host store db request inventory now token uuid =
      Inr (\<lparr>handle_id = uuid, handle_token = token\<rparr>, t) \<and> sql_ok (host_parse host) t \<and>
    sql_read (host_parse host) t (store_issuerId store) uuid =
      Inr (Some (new_record host (store_issuerId store) request extensions toolIds token uuid))"
proof -
  let ?g = "new_record host (store_issuerId store) request extensions toolIds token uuid"
  have ids: "grant_issuerId ?g = store_issuerId store" "grant_id ?g = uuid"
    by (simp_all add: new_record_def)
  have nul: "CHR 0x00 \<notin> set uuid" using assms(3) by (rule uuid_text_nul)
  have unused: "unused ?g" using check_request_unused [OF assms(1,3)] .
  have "mem_read (memory_of db) (store_issuerId store) uuid = None"
    using sql_read_eq [OF assms(7), of "store_issuerId store" uuid] assms(8) nul by simp
  then have free: "\<not> isl (mem_issue (memory_of db) ?g)"
    by (simp add: mem_issue_def Let_def ids mem_read_map)
  obtain t where t: "sql_issue (host_parse host) ?g db = (Inr (), t)"
    using issue_outcome [OF assms(7) unused] free assms(6) ids
      new_record_valid [OF assms(1,2,3,5), of token]
    by (auto split: prod.splits sum.splits)
  then have issued: "mem_issue (memory_of db) ?g = Inr (memory_of t)" and ok: "sql_ok (host_parse host) t"
    using issue_outcome [OF assms(7) unused] by simp_all
  have "mem_read (memory_of t) (store_issuerId store) uuid = Some ?g"
    using memory.issue_read [of "host_parse host" "memory_of db" ?g "memory_of t"] issued unused ids
      sql_okD(2) [OF assms(7)] by simp
  moreover have "repo_issue (sqlite_repo (host_parse host)) db ?g = Inr t"
    using t by (simp add: sqlite_repo_def chain_eq_Inr)
  ultimately show ?thesis
    using ok assms(1,4) nul sql_read_eq [OF ok] by (simp add: store_issue_def)
qed


definition sqlite_issued :: grant_database where
  "sqlite_issued = new_database\<lparr>db_grants := [row_of_record
     (new_record sqlite_host ''i'' sqlite_request [''x''] [''t''] ''ab'' ''u'')]\<rparr>"

lemma sqlite_issue_sample:
  "store_issue sqlite_host sqlite_store new_database sqlite_request sample_inventory ''tt'' ''ab'' ''u'' =
     Inr (sample_handle, sqlite_issued)"
proof -
  let ?g = "new_record sqlite_host ''i'' sqlite_request [''x''] [''t''] ''ab'' ''u''"
  have u: "uuid_text ''u''" by (simp add: uuid_text_def)
  have "sql_validateRecord strict_length ?g = Inr ()"
    using new_record_valid [OF sqlite_checks _ u, of "''i''" "''ab''"] by (simp add: blank_Cons js_white_def)
  moreover have "unused ?g" using check_request_unused [OF sqlite_checks u] .
  then have "grant_reservedCalls ?g = 0 \<and> grant_reservedResponseBytes ?g = 0" by (simp add: unused_def)
  moreover have "grant_checks (row_of_record ?g)"
    by (simp add: grant_checks_def row_of_record_def new_record_def sql_filled_def sqlite_request_def
        sample_request_def grant_states_def)
  ultimately have "sql_issue strict_length ?g new_database = (Inr (), sqlite_issued)"
    by (simp add: sql_issue_def check_def transaction_def sql_insert_grant_def new_database_def sqlite_issued_def)
  then show ?thesis
    by (simp add: store_issue_def sqlite_checks sqlite_repo_def sample_handle_def outcome_def)
qed

lemma sqlite_accepts_issued_witness:
  "\<exists>t. store_issue sqlite_host sqlite_store new_database sqlite_request sample_inventory ''tt'' ''ab'' ''u'' =
      Inr (sample_handle, t) \<and>
    sql_read strict_length t ''i'' ''u'' = Inr (Some
      (new_record sqlite_host ''i'' sqlite_request [''x''] [''t''] ''ab'' ''u''))"
proof -
  have "uuid_text ''u''" by (simp add: uuid_text_def)
  moreover have "\<not> blank ''i''" by (simp add: blank_Cons js_white_def)
  moreover have "sql_filled ''i''" by (simp add: sql_filled_def)
  moreover have "sql_read strict_length new_database ''i'' ''u'' = Inr None"
    by (simp add: sql_read_def new_database_def)
  ultimately show ?thesis
    using sqlite_accepts_issued [OF sqlite_checks, of "''u''" sqlite_store new_database "''ab''"]
      new_database_ok by (auto simp: sample_handle_def)
qed

section \<open>However the stores are used\<close>

abbreviation sqlite_run :: "host_runtime \<Rightarrow> grant_database \<Rightarrow> grant_database \<Rightarrow> bool" where
  "sqlite_run host \<equiv> (store_step host (sqlite_repo (host_parse host)) sql_fresh)\<^sup>*\<^sup>*"

text \<open>
  C16: However stores share a SQLite database, reading a grant never throws, a grant once issued stays
  readable, its used and reserved counters stay within its quotas, its terms never change, its
  revision and its used counters never decrease, and once it is no longer active nothing is charged
  to it and it is never authorized again, whatever the token and the time.
\<close>

theorem sqlite_grants_sound:
  assumes "strict_clock (host_parse host)"
    and "sqlite_run host new_database db" and "sqlite_run host db db'"
  shows "case sql_read (host_parse host) db i k of
      Inl e \<Rightarrow> False
    | Inr None \<Rightarrow> True
    | Inr (Some a) \<Rightarrow> \<exists>b. sql_read (host_parse host) db' i k = Inr (Some b) \<and>
        0 \<le> grant_callsUsed b \<and> grant_callsUsed b + grant_reservedCalls b \<le> grant_maxCalls b \<and>
        0 \<le> grant_responseBytesUsed b \<and>
        grant_responseBytesUsed b + grant_reservedResponseBytes b \<le> grant_maxTotalResponseBytes b \<and>
        grant_terms b = grant_terms a \<and> grant_revision a \<le> grant_revision b \<and>
        grant_callsUsed a \<le> grant_callsUsed b \<and> grant_responseBytesUsed a \<le> grant_responseBytesUsed b \<and>
        (grant_state a \<noteq> GrantActive \<longrightarrow> grant_state b \<noteq> GrantActive \<and>
          grant_callsUsed b = grant_callsUsed a \<and>
          grant_responseBytesUsed b = grant_responseBytesUsed a \<and>
          (\<forall>token now. store_authorize host
            \<lparr>store_issuerId = i, store_repository = sqlite_repo (host_parse host)\<rparr> db'
            (Some \<lparr>handle_id = k, handle_token = token\<rparr>) now = Inr None))"
proof -
  have ok: "sqlite_ok (host_parse host) db"
    using sqlite.run_ok [OF assms(2)] new_database_ok assms(1) by blast
  have ok': "sqlite_ok (host_parse host) db'" using sqlite.run_ok [OF assms(3) ok] .
  have read: "sql_read (host_parse host) t i k = Inr (repo_read (sqlite_repo (host_parse host)) t i k)"
    if "sqlite_ok (host_parse host) t" for t
    using that by (simp add: sql_read_eq sqlite_read)
  show ?thesis
  proof (cases "repo_read (sqlite_repo (host_parse host)) db i k")
    case None
    then show ?thesis using read [OF ok] by simp
  next
    case (Some a)
    obtain b where b: "repo_read (sqlite_repo (host_parse host)) db' i k = Some b" "later a b"
      using sqlite.run_later [OF assms(3) ok Some] by blast
    have quota: "quota b" using sqlite.run_quota [OF assms(3) ok b(1)] .
    have "store_authorize host \<lparr>store_issuerId = i, store_repository = sqlite_repo (host_parse host)\<rparr> db'
        (Some \<lparr>handle_id = k, handle_token = token\<rparr>) now = Inr None"
      if "grant_state a \<noteq> GrantActive" for token now
      using sqlite.inactive_denied [OF assms(3) ok, of
          "\<lparr>store_issuerId = i, store_repository = sqlite_repo (host_parse host)\<rparr>"
          "\<lparr>handle_id = k, handle_token = token\<rparr>" a now] Some that by simp
    then show ?thesis
      using read [OF ok] read [OF ok'] Some b quota by (auto simp: later_def quota_def)
  qed
qed

lemma sqlite_issued_run: "sqlite_run sqlite_host new_database sqlite_issued"
  using Store_issue [OF _ _ sqlite_issue_sample] by (intro r_into_rtranclp) (simp add: uuid_text_def)

lemma sqlite_issued_read:
  "sql_read strict_length sqlite_issued ''i'' ''u'' = Inr (Some
     (new_record sqlite_host ''i'' sqlite_request [''x''] [''t''] ''ab'' ''u''))"
proof -
  let ?g = "new_record sqlite_host ''i'' sqlite_request [''x''] [''t''] ''ab'' ''u''"
  have ok: "sql_ok strict_length sqlite_issued"
    using sqlite.run_ok [OF sqlite_issued_run] new_database_ok by simp
  have "record_with (row_of_record ?g) 0 0 = ?g"
    by (rule decode_new_record) (simp_all add: new_record_def)
  then show ?thesis
    using sql_read_eq [OF ok, of "''i''" "''u''"] mem_read_memory_of [OF ok, of "''u''" "''i''"]
    by (simp add: sqlite_issued_def new_database_def row_record_def row_of_def sql_reserved_calls_def
        sql_reserved_bytes_def held_rows_def) (simp add: row_of_record_def new_record_def)
qed

lemma sqlite_grants_sound_witness:
  "sqlite_run sqlite_host new_database sqlite_issued \<and>
    (\<exists>b. sql_read strict_length sqlite_issued ''i'' ''u'' = Inr (Some b) \<and>
      grant_callsUsed b + grant_reservedCalls b \<le> grant_maxCalls b)"
proof -
  have "strict_clock (host_parse sqlite_host)" by simp
  then show ?thesis
    using sqlite_grants_sound [OF _ sqlite_issued_run rtranclp.rtrancl_refl, of "''i''" "''u''"]
      sqlite_issued_run sqlite_issued_read by auto
qed

lemma sqlite_matches_memory_witness:
  "sql_ok strict_length sqlite_issued \<and>
    same_outcome strict_length sqlite_issued
      (mem_reserveCall strict_length ''c'' (memory_of sqlite_issued) ''i'' ''u'' 0 ''tt'')
      (sql_reserveCall strict_length ''c'' ''i'' ''u'' 0 ''tt'' sqlite_issued)"
proof -
  have ok: "sql_ok strict_length sqlite_issued"
    using sqlite.run_ok [OF sqlite_issued_run] new_database_ok by simp
  have fresh: "sql_fresh ''c'' sqlite_issued"
    by (simp add: sql_fresh_def uuid_text_def sqlite_issued_def new_database_def revisions_left_def
        revisable_def row_of_record_def new_record_def)
  have "map_of (mem_reservations (memory_of sqlite_issued)) (rsv_id sample_reservation) \<in>
      {None, Some sample_reservation}"
    by (simp add: memory_of_def sqlite_issued_def new_database_def)
  moreover have "uuid_text ''u''" by (simp add: uuid_text_def)
  from check_request_unused [OF sqlite_checks this]
  have "unused (new_record sqlite_host ''i'' sqlite_request [''x''] [''t''] ''ab'' ''u'')" .
  ultimately show ?thesis
    using sqlite_matches_memory [OF ok strict_length fresh, of "''u''" sample_reservation _ "''i''" 0 "''tt''" 0] ok
    by simp
qed


end
