(* ===== verification/Sqlite_Audit.thy ===== *)
theory Sqlite_Audit
  imports Sqlite_Grants
begin

text \<open>
  \<open>packages/core/src/sqlite-audit.ts\<close>: the audit log kept in a SQLite table. Rows may have been
  written by anyone with access to the file; \<open>readAll\<close> returns events only when the rows are a
  chain. The table is modelled as in \<open>Sqlite_Grants\<close>.
\<close>

section \<open>The table\<close>

record audit_row =
  arow_sequence :: int
  arow_code :: string
  arow_occurred_at :: string
  arow_previous_digest :: "string option"
  arow_digest :: string

record audit_database =
  adb_open :: bool
  adb_rows :: "audit_row list"

definition chain_invalid :: exn where
  "chain_invalid = TypeError ''Invalid stored audit chain.''"

definition chain_text :: "string \<Rightarrow> string result" where
  "chain_text v = chain (guard (blank v) chain_invalid) (\<lambda>_. Inr v)"

definition chain_time :: "(string \<Rightarrow> int option) \<Rightarrow> string \<Rightarrow> string result" where
  "chain_time parse v = chain (chain_text v)
     (\<lambda>t. chain (guard (parse t = None) chain_invalid) (\<lambda>_. Inr t))"

definition chain_sequence :: "int \<Rightarrow> int result" where
  "chain_sequence v = chain (guard (\<not> isSafeInteger v \<or> v \<le> 0) chain_invalid) (\<lambda>_. Inr v)"

definition chain_digest :: "string \<Rightarrow> string result" where
  "chain_digest v = chain (guard (\<not> digest_text v) chain_invalid) (\<lambda>_. Inr v)"

definition chain_previous :: "string option \<Rightarrow> string option result" where
  "chain_previous v = (case v of None \<Rightarrow> Inr None | Some d \<Rightarrow> chain (chain_digest d) (\<lambda>d. Inr (Some d)))"

text \<open>\<open>length(d) = 71 AND d GLOB 'sha256:[0-9a-f]*'\<close>.\<close>

definition digest_check :: "string \<Rightarrow> bool" where
  "digest_check d \<longleftrightarrow> length d = 71 \<and> take 7 d = ''sha256:'' \<and> lower_hex (d ! 7)"

definition audit_checks :: "audit_row \<Rightarrow> bool" where
  "audit_checks row \<longleftrightarrow> arow_sequence row > 0 \<and> sql_filled (arow_code row) \<and>
     (case arow_previous_digest row of None \<Rightarrow> True | Some d \<Rightarrow> digest_check d) \<and>
     digest_check (arow_digest row)"

definition audit_insert :: "audit_row \<Rightarrow> (audit_database, unit) effect" where
  "audit_insert row db =
     (if \<not> audit_checks row then (Inl (GenericError ''CHECK constraint failed''), db)
      else if list_ex (\<lambda>r. arow_sequence r = arow_sequence row) (adb_rows db)
      then (Inl (GenericError ''UNIQUE constraint failed: audit_events.sequence''), db)
      else if list_ex (\<lambda>r. arow_digest r = arow_digest row) (adb_rows db)
      then (Inl (GenericError ''UNIQUE constraint failed: audit_events.digest''), db)
      else (Inr (), db\<lparr>adb_rows := adb_rows db @ [row]\<rparr>))"

text \<open>\<open>ORDER BY sequence ASC\<close>; the last of them is the first in descending order.\<close>

definition audit_ordered :: "audit_database \<Rightarrow> audit_row list" where
  "audit_ordered db = sort_key arow_sequence (adb_rows db)"

definition audit_transaction :: "(audit_database, 'a) effect \<Rightarrow> (audit_database, 'a) effect" where
  "audit_transaction operation db =
     (if \<not> adb_open db then (Inl database_closed, db)
      else case operation db of
        (Inl e, _) \<Rightarrow> (Inl e, db)
      | (Inr x, db') \<Rightarrow> (Inr x, db'))"

section \<open>Appending and reading\<close>

definition event_row :: "stored_audit_event \<Rightarrow> audit_row" where
  "event_row e = \<lparr>arow_sequence = aud_sequence e, arow_code = aud_code e,
     arow_occurred_at = aud_occurredAt e, arow_previous_digest = aud_previousDigest e,
     arow_digest = aud_digest e\<rparr>"

text \<open>The sequence and the digest of the last row; the former is converted to a number first.\<close>

definition audit_prior :: "audit_database \<Rightarrow> (int \<times> string) option result" where
  "audit_prior db = (if adb_rows db = [] then Inr None
     else let row = last (audit_ordered db) in
       chain (js_numbers [arow_sequence row])
       (\<lambda>_. chain (chain_sequence (arow_sequence row))
       (\<lambda>n. chain (chain_digest (arow_digest row)) (\<lambda>d. Inr (Some (n, d))))))"

definition audit_next :: "(string \<Rightarrow> string) \<Rightarrow> (string \<Rightarrow> int option) \<Rightarrow> string \<Rightarrow> string \<Rightarrow>
    audit_database \<Rightarrow> stored_audit_event result" where
  "audit_next sha parse code at db = chain (audit_prior db) (\<lambda>prior.
     let n = (case prior of None \<Rightarrow> 1 | Some p \<Rightarrow> fst p + 1); previous = map_option snd prior in
     chain (auditEventDigest sha parse n code at previous) (\<lambda>digest.
       Inr \<lparr>aud_sequence = n, aud_code = code, aud_occurredAt = at,
         aud_previousDigest = previous, aud_digest = digest\<rparr>))"

definition sql_audit_append :: "(string \<Rightarrow> string) \<Rightarrow> (string \<Rightarrow> int option) \<Rightarrow> audit_event_input \<Rightarrow>
    (audit_database, stored_audit_event) effect" where
  "sql_audit_append sha parse event db =
     proceed (check (chain (chain_text (evi_code event)) (\<lambda>code.
       chain (chain_time parse (evi_occurredAt event)) (\<lambda>at. Inr (code, at)))) db)
     (\<lambda>(code, at). audit_transaction (\<lambda>db.
       proceed (check (audit_next sha parse code at db) db)
       (\<lambda>stored db. proceed (audit_insert (event_row stored) db) (\<lambda>_. check (Inr stored)))))"

text \<open>\<open>#decode\<close>; every error becomes the same.\<close>

definition audit_decode :: "(string \<Rightarrow> int option) \<Rightarrow> audit_row \<Rightarrow> stored_audit_event result" where
  "audit_decode parse row =
     chain (chain_sequence (arow_sequence row)) (\<lambda>n.
     chain (chain_text (arow_code row)) (\<lambda>code.
     chain (chain_time parse (arow_occurred_at row)) (\<lambda>at.
     chain (chain_previous (arow_previous_digest row)) (\<lambda>previous.
     chain (chain_digest (arow_digest row)) (\<lambda>digest.
       Inr \<lparr>aud_sequence = n, aud_code = code, aud_occurredAt = at,
         aud_previousDigest = previous, aud_digest = digest\<rparr>)))))"

text \<open>The loop of \<open>readAll\<close>, at the position \<open>n\<close> after an event with the digest \<open>previous\<close>.\<close>

fun check_chain :: "(string \<Rightarrow> string) \<Rightarrow> (string \<Rightarrow> int option) \<Rightarrow> int \<Rightarrow> string option \<Rightarrow>
    stored_audit_event list \<Rightarrow> unit result" where
  "check_chain sha parse n previous [] = Inr ()"
| "check_chain sha parse n previous (e # es) =
     chain (guard (aud_sequence e \<noteq> n + 1 \<or> aud_previousDigest e \<noteq> previous) chain_invalid) (\<lambda>_.
     chain (auditEventDigest sha parse (aud_sequence e) (aud_code e) (aud_occurredAt e)
       (aud_previousDigest e)) (\<lambda>digest.
     chain (guard (aud_digest e \<noteq> digest) chain_invalid) (\<lambda>_.
       check_chain sha parse (n + 1) (Some (aud_digest e)) es)))"

definition sql_audit_readAll :: "(string \<Rightarrow> string) \<Rightarrow> (string \<Rightarrow> int option) \<Rightarrow> audit_database \<Rightarrow>
    stored_audit_event list result" where
  "sql_audit_readAll sha parse db = chain (guard (\<not> adb_open db) database_closed) (\<lambda>_.
     chain (js_numbers (map arow_sequence (audit_ordered db))) (\<lambda>_.
     chain (map_result (audit_decode parse) (audit_ordered db)) (\<lambda>events.
     chain (check_chain sha parse 0 None events) (\<lambda>_. Inr events))))"

definition sql_audit_close :: "(audit_database, unit) effect" where
  "sql_audit_close db = (if adb_open db then (Inr (), db\<lparr>adb_open := False\<rparr>) else (Inl database_closed, db))"

text \<open>The constructor: a file has a schema version and the rows of the table, if it exists.\<close>

definition sql_audit_open :: "int \<times> audit_row list \<Rightarrow> (audit_database \<times> int) result" where
  "sql_audit_open f = chain (guard (\<not> isSafeInteger (fst f)) (TypeError ''Unsupported SQLite audit schema.''))
     (\<lambda>_. chain (guard (fst f \<noteq> 0 \<and> fst f \<noteq> 1) (TypeError ''Unsupported SQLite audit schema.''))
     (\<lambda>_. Inr (\<lparr>adb_open = True, adb_rows = snd f\<rparr>, 1)))"

section \<open>What is read is a chain\<close>

definition event_valid :: "(string \<Rightarrow> int option) \<Rightarrow> stored_audit_event \<Rightarrow> bool" where
  "event_valid parse e \<longleftrightarrow> isSafeInteger (aud_sequence e) \<and> 0 < aud_sequence e \<and>
     \<not> blank (aud_code e) \<and> \<not> blank (aud_occurredAt e) \<and> parse (aud_occurredAt e) \<noteq> None \<and>
     (\<forall>d. aud_previousDigest e = Some d \<longrightarrow> digest_text d) \<and> digest_text (aud_digest e)"

lemma audit_decode_Inr:
  "audit_decode parse row = Inr e \<longleftrightarrow> row = event_row e \<and> event_valid parse e"
  by (cases row; cases e)
    (auto simp: audit_decode_def chain_sequence_def chain_text_def chain_time_def chain_previous_def
      chain_digest_def chain_eq_Inr event_row_def event_valid_def split: option.splits)

lemma decode_all_Inr:
  "map_result (audit_decode parse) rows = Inr es \<longleftrightarrow> rows = map event_row es \<and> list_all (event_valid parse) es"
proof (induction rows arbitrary: es)
  case (Cons row rows)
  show ?case
    by (cases es) (auto simp: chain_eq_Inr audit_decode_Inr Cons.IH)
qed auto

lemma check_chain_Inr:
  "list_all (event_valid parse) es \<Longrightarrow> 0 \<le> n \<Longrightarrow>
     check_chain sha parse n previous es = Inr () \<longleftrightarrow> chained sha (n + 1) previous es"
proof (induction es arbitrary: n previous)
  case (Cons e es)
  then show ?case
    by (auto simp: chain_eq_Inr auditEventDigest_Inr event_valid_def)
qed simp

text \<open>Exactly the tables that hold a valid chain are read.\<close>

lemma readAll_Inr:
  "sql_audit_readAll sha parse db = Inr es \<longleftrightarrow> adb_open db \<and> audit_ordered db = map event_row es \<and>
     list_all (event_valid parse) es \<and> chained sha 1 None es"
proof -
  have "js_numbers (map arow_sequence (map event_row es)) = Inr ()" if "list_all (event_valid parse) es"
    using that by (induction es) (auto simp: js_numbers_def event_valid_def event_row_def)
  then show ?thesis
    by (auto simp: sql_audit_readAll_def chain_eq_Inr decode_all_Inr check_chain_Inr)
qed

section \<open>Appending\<close>

text \<open>The table holds exactly the log \<open>es\<close>.\<close>

definition audit_holds :: "(string \<Rightarrow> string) \<Rightarrow> (string \<Rightarrow> int option) \<Rightarrow> audit_database \<Rightarrow>
    stored_audit_event list \<Rightarrow> bool" where
  "audit_holds sha parse db es \<longleftrightarrow> adb_open db \<and> adb_rows db = map event_row es \<and>
     list_all (event_valid parse) es \<and> chained sha 1 None es"

lemma chained_sorted: "chained sha n previous es \<Longrightarrow> sorted (map aud_sequence es) \<and> (\<forall>e \<in> set es. n \<le> aud_sequence e)"
  by (induction es arbitrary: n previous) force+

lemma chained_below: "chained sha n previous es \<Longrightarrow> e \<in> set es \<Longrightarrow> aud_sequence e < n + int (length es)"
  by (induction es arbitrary: n previous) force+

lemma holds_ordered: "audit_holds sha parse db es \<Longrightarrow> audit_ordered db = map event_row es"
  using chained_sorted [of sha 1 None es]
  by (simp add: audit_holds_def audit_ordered_def sort_key_id_if_sorted comp_def event_row_def)

lemma holds_prior:
  assumes "audit_holds sha parse db es"
  shows "audit_prior db = Inr (if es = [] then None else Some (aud_sequence (last es), aud_digest (last es)))"
proof (cases "es = []")
  case False
  then have "event_valid parse (last es)" using assms by (simp add: audit_holds_def list_all_iff)
  moreover have "last (map event_row es) = event_row (last es)" using False by (rule last_map)
  ultimately show ?thesis
    using False assms holds_ordered [OF assms]
    by (simp add: audit_prior_def audit_holds_def js_numbers_def event_valid_def chain_sequence_def
        chain_digest_def) (simp add: event_row_def guard_def)
qed (use assms in \<open>simp add: audit_prior_def audit_holds_def\<close>)

lemma digest_check_digest:
  assumes "digest_text d"
  shows "digest_check d"
proof -
  have d: "take 7 d = ''sha256:''" "length d = 71" "list_all lower_hex (drop 7 d)"
    using assms by (simp_all add: digest_text_def)
  then have "drop 7 d \<noteq> []" by simp
  then have "lower_hex (hd (drop 7 d))" using d(3) by (simp add: list_all_iff)
  then show ?thesis using d by (simp add: digest_check_def hd_drop_conv_nth)
qed

text \<open>
  Appending to a table that holds a log is appending to the log, unless the code begins with U+0000
  after its spaces, or the digest is that of an earlier event, which the constraints refuse.
\<close>

lemma append_holds:
  assumes holds: "audit_holds sha parse db es" and hex: "\<And>s. hash_text (sha s)"
  shows "case sql_audit_append sha parse ev db of
      (Inl e, t) \<Rightarrow> t = db \<and> (isl (audit_append sha parse es ev) \<or> \<not> sql_filled (evi_code ev) \<or>
        (\<exists>s. audit_append sha parse es ev = Inr (s, es @ [s]) \<and> aud_digest s \<in> aud_digest ` set es))
    | (Inr s, t) \<Rightarrow> audit_append sha parse es ev = Inr (s, es @ [s]) \<and> sql_filled (evi_code ev) \<and>
        aud_digest s \<notin> aud_digest ` set es \<and> audit_holds sha parse t (es @ [s])"
proof (cases "audit_append sha parse es ev")
  case (Inl err)
  let ?n = "if es = [] then 1 else aud_sequence (last es) + 1"
  let ?p = "if es = [] then None else Some (aud_digest (last es))"
  have "blank (evi_code ev) \<or> blank (evi_occurredAt ev) \<or> parse (evi_occurredAt ev) = None \<or>
      isl (auditEventDigest sha parse ?n (evi_code ev) (evi_occurredAt ev) ?p)"
    using Inl by (auto simp: audit_append_def Let_def audit_text_def audit_occurredAt_def chain_def
        guard_def split: sum.splits if_splits)
  then have "\<exists>e. sql_audit_append sha parse ev db = (Inl e, db)"
    using holds_prior [OF holds] holds
    by (cases "auditEventDigest sha parse ?n (evi_code ev) (evi_occurredAt ev) ?p")
      (auto simp: sql_audit_append_def audit_next_def chain_text_def chain_time_def check_def guard_def
        audit_transaction_def audit_holds_def Let_def)
  then show ?thesis using Inl by auto
next
  case (Inr q)
  obtain s where app: "audit_append sha parse es ev = Inr (s, es @ [s])"
    using Inr append_Inr [of sha parse es ev "fst q" "snd q"] by (cases q) auto
  note s = append_Inr [OF app]
  have valid_in: "\<not> blank (evi_code ev)" "\<not> blank (evi_occurredAt ev)" "parse (evi_occurredAt ev) \<noteq> None"
    "auditEventDigest sha parse (aud_sequence s) (evi_code ev) (evi_occurredAt ev) (aud_previousDigest s) =
      Inr (aud_digest s)"
    using app s by (auto simp: audit_append_def Let_def audit_text_def audit_occurredAt_def chain_eq_Inr)
  have digest: "digest_text (aud_digest s)"
    using s hex by (auto simp: json_digest_def sha256Bytes_def digest_text_def hash_text_def)
  have valid: "event_valid parse s"
    using valid_in s digest by (auto simp: event_valid_def auditEventDigest_Inr)
  have chained: "chained sha 1 None (es @ [s])"
    using append_chained [OF app] holds by (simp add: audit_holds_def)
  have checks: "audit_checks (event_row s) \<longleftrightarrow> sql_filled (evi_code ev)"
    using valid s digest_check_digest
    by (auto simp: audit_checks_def event_row_def event_valid_def split: option.split)
  have sequence: "\<not> list_ex (\<lambda>r. arow_sequence r = arow_sequence (event_row s)) (adb_rows db)"
  proof -
    have "aud_sequence e \<noteq> aud_sequence s" if "e \<in> set es" for e
      using chained_below [of sha 1 None es e] that holds chained
      by (simp add: audit_holds_def chained_append)
    then show ?thesis using holds by (auto simp: audit_holds_def list_ex_iff event_row_def)
  qed
  have unique: "list_ex (\<lambda>r. arow_digest r = arow_digest (event_row s)) (adb_rows db) \<longleftrightarrow>
      aud_digest s \<in> aud_digest ` set es"
  proof -
    have "adb_rows db = map event_row es" using holds by (simp add: audit_holds_def)
    then show ?thesis by (auto simp: list_ex_iff event_row_def intro: rev_image_eqI)
  qed
  have s_eq: "\<lparr>aud_sequence = aud_sequence s, aud_code = evi_code ev, aud_occurredAt = evi_occurredAt ev,
      aud_previousDigest = aud_previousDigest s, aud_digest = aud_digest s\<rparr> = s"
    using s by simp
  have "audit_next sha parse (evi_code ev) (evi_occurredAt ev) db = Inr s"
    using holds_prior [OF holds] s valid_in(4) s_eq
    by (cases "es = []"; cases s) (auto simp: audit_next_def Let_def)
  then have run: "sql_audit_append sha parse ev db =
      (case audit_insert (event_row s) db of (Inl e, _) \<Rightarrow> (Inl e, db) | (Inr u, t) \<Rightarrow> (Inr s, t))"
    using valid_in(1-3) holds
    by (auto simp: sql_audit_append_def chain_text_def chain_time_def check_def guard_def
        audit_transaction_def audit_holds_def proceed_def split: prod.splits sum.splits)
  show ?thesis
  proof (cases "sql_filled (evi_code ev) \<and> aud_digest s \<notin> aud_digest ` set es")
    case True
    then have "sql_audit_append sha parse ev db = (Inr s, db\<lparr>adb_rows := adb_rows db @ [event_row s]\<rparr>)"
      using run checks sequence unique by (simp add: audit_insert_def)
    then show ?thesis using True app holds valid chained by (simp add: audit_holds_def)
  next
    case False
    then have "\<exists>e. sql_audit_append sha parse ev db = (Inl e, db)"
      using run checks sequence unique by (auto simp: audit_insert_def)
    then show ?thesis using app False by auto
  qed
qed


section \<open>Properties\<close>

text \<open>The tables that appending makes of a new one, with the events that were accepted.\<close>

inductive audit_written :: "(string \<Rightarrow> string) \<Rightarrow> (string \<Rightarrow> int option) \<Rightarrow> audit_event_input list \<Rightarrow>
    audit_database \<Rightarrow> bool" for sha parse where
  Audit_new: "audit_written sha parse [] \<lparr>adb_open = True, adb_rows = []\<rparr>"
| Audit_accepted: "audit_written sha parse inputs db \<Longrightarrow>
    sql_audit_append sha parse ev db = (Inr s, t) \<Longrightarrow> audit_written sha parse (inputs @ [ev]) t"
| Audit_refused: "audit_written sha parse inputs db \<Longrightarrow>
    sql_audit_append sha parse ev db = (Inl e, t) \<Longrightarrow> audit_written sha parse inputs t"

lemma written_holds:
  assumes "audit_written sha parse inputs db" and hex: "\<And>s. hash_text (sha s)"
  shows "\<exists>es. audit_log sha parse inputs = Inr es \<and> audit_holds sha parse db es"
  using assms(1)
proof (induction rule: audit_written.induct)
  case Audit_new
  then show ?case by (simp add: audit_log_def audit_holds_def)
next
  case (Audit_accepted inputs db ev s t)
  then obtain es where es: "audit_log sha parse inputs = Inr es" "audit_holds sha parse db es" by blast
  from append_holds [OF es(2) hex, of ev] Audit_accepted(2)
  show ?case using es(1) by (auto simp: audit_log_snoc)
next
  case (Audit_refused inputs db ev e t)
  then obtain es where es: "audit_log sha parse inputs = Inr es" "audit_holds sha parse db es" by blast
  from append_holds [OF es(2) hex, of ev] Audit_refused(2) show ?case using es by auto
qed

text \<open>
  C18: The SQLite audit log is the in-memory one: after any appends, accepted or refused, \<open>readAll\<close>
  returns the log of the accepted events, and an event is accepted exactly when the in-memory sink
  accepts it, its code fills the column and its digest is new. And it is tamper-evident: whatever
  rows are in the table, if \<open>readAll\<close> returns a list that ends with the digest of a genuine log,
  where SHA-256 has no collision on their events, it is that log.
\<close>

theorem sqlite_audit_faithful:
  assumes "audit_written sha parse inputs db" and "\<And>s. hash_text (sha s)"
  shows "\<exists>es. audit_log sha parse inputs = Inr es \<and> sql_audit_readAll sha parse db = Inr es \<and>
    (\<not> isl (fst (sql_audit_append sha parse ev db)) \<longleftrightarrow> sql_filled (evi_code ev) \<and>
      (\<exists>s. audit_append sha parse es ev = Inr (s, es @ [s]) \<and> aud_digest s \<notin> aud_digest ` set es)) \<and>
    (\<forall>other fs. sql_audit_readAll sha parse other = Inr fs \<and> es \<noteq> [] \<and> fs \<noteq> [] \<and>
      aud_digest (last fs) = aud_digest (last es) \<and>
      (\<forall>e \<in> set es. \<forall>f \<in> set fs. collision_free sha (event_json e) (event_json f)) \<longrightarrow> fs = es)"
proof -
  obtain es where es: "audit_log sha parse inputs = Inr es" "audit_holds sha parse db es"
    using written_holds [OF assms] by blast
  have "sql_audit_readAll sha parse db = Inr es"
    using es(2) holds_ordered [OF es(2)] by (auto simp: readAll_Inr audit_holds_def)
  moreover have "\<not> isl (fst (sql_audit_append sha parse ev db)) \<longleftrightarrow> sql_filled (evi_code ev) \<and>
      (\<exists>s. audit_append sha parse es ev = Inr (s, es @ [s]) \<and> aud_digest s \<notin> aud_digest ` set es)"
    using append_holds [OF es(2) assms(2), of ev]
    by (cases "sql_audit_append sha parse ev db"; cases "fst (sql_audit_append sha parse ev db)") auto
  moreover have "fs = es" if "sql_audit_readAll sha parse other = Inr fs" "es \<noteq> []" "fs \<noteq> []"
    "aud_digest (last fs) = aud_digest (last es)"
    "\<forall>e \<in> set es. \<forall>f \<in> set fs. collision_free sha (event_json e) (event_json f)" for other fs
    using that es(2) chained_unique [of sha es fs] by (auto simp: readAll_Inr audit_holds_def)
  ultimately show ?thesis using es(1) by blast
qed

lemma sqlite_audit_faithful_witness:
  "\<exists>e t. sql_audit_append zero_hash length_clock (sample_event ''a'') \<lparr>adb_open = True, adb_rows = []\<rparr> =
      (Inr e, t) \<and> sql_audit_readAll zero_hash length_clock t = Inr [e]"
proof -
  let ?db = "\<lparr>adb_open = True, adb_rows = []\<rparr>" and ?ev = "sample_event ''a''"
  have hex: "hash_text (zero_hash s)" for s
    by (simp add: hash_text_def zero_hash_def lower_hex_def is_digit_def list_all_iff)
  obtain e f where "audit_log zero_hash length_clock ([?ev] @ [sample_event ''b'']) = Inr [e, f]"
    using sample_log by auto
  then obtain q es where q: "audit_append zero_hash length_clock [] ?ev = Inr q"
    and next': "audit_append zero_hash length_clock (snd q) (sample_event ''b'') = Inr (es, [e, f])"
    by (auto simp: audit_log_def chain_eq_Inr)
  have "snd q = [fst q]" using append_Inr [of zero_hash length_clock "[]" ?ev "fst q" "snd q"] q by simp
  moreover have "[e, f] = snd q @ [es]" using append_Inr [OF next'] by simp
  ultimately have app: "audit_append zero_hash length_clock [] ?ev = Inr (e, [e])"
    using q by (cases q) auto
  have new: "audit_log zero_hash length_clock [] = Inr []" by (simp add: audit_log_def)
  have "sql_filled (evi_code ?ev)" by (simp add: sql_filled_def sample_event_def)
  then have "\<not> isl (fst (sql_audit_append zero_hash length_clock ?ev ?db))"
    using sqlite_audit_faithful [of zero_hash length_clock "[]" ?db ?ev, OF Audit_new hex] new app by auto
  then obtain s t where run: "sql_audit_append zero_hash length_clock ?ev ?db = (Inr s, t)"
    by (cases "sql_audit_append zero_hash length_clock ?ev ?db";
        cases "fst (sql_audit_append zero_hash length_clock ?ev ?db)") auto
  have log: "audit_log zero_hash length_clock ([] @ [?ev]) = Inr [e]"
    using app by (simp add: audit_log_def)
  have "s = e"
    using append_holds [of zero_hash length_clock ?db "[]" ?ev] hex run app
    by (simp add: audit_holds_def)
  then show ?thesis
    using sqlite_audit_faithful [of zero_hash length_clock "[] @ [?ev]" t ?ev,
        OF Audit_accepted [OF Audit_new run] hex] log run by auto
qed

end
