(* ===== verification/Uri_Component.thy ===== *)
theory Uri_Component
  imports Run_Grants Utf8
begin

text \<open>
  \<open>encodeURIComponent\<close> and \<open>decodeURIComponent\<close> on strings of code units below 256; a sequence
  that decodes to a larger code point is an error here. Decoding inverts encoding, and an encoded
  component has no slash.
\<close>

definition unreserved :: "char \<Rightarrow> bool" where
  "unreserved c \<longleftrightarrow> is_letter c \<or> is_digit c \<or> c \<in> set ''-_.!~*()'' \<or> c = CHR 0x27"

definition upper_hex :: "nat \<Rightarrow> char" where
  "upper_hex n = (if n < 10 then char_of (48 + n) else char_of (55 + n))"

definition percent :: "nat \<Rightarrow> string" where
  "percent n = [CHR ''%'', upper_hex (n div 16), upper_hex (n mod 16)]"

text \<open>One code unit, in UTF-8.\<close>

definition encode_unit :: "char \<Rightarrow> string" where
  "encode_unit c = (let n = (of_char c :: nat) in
     if unreserved c then [c]
     else if n < 128 then percent n
     else percent (192 + n div 64) @ percent (128 + n mod 64))"

definition encodeURIComponent :: "string \<Rightarrow> string" where
  "encodeURIComponent s = concat (map encode_unit s)"

definition hex_byte :: "char \<Rightarrow> char \<Rightarrow> nat option" where
  "hex_byte a b = (case (hex_val a, hex_val b) of (Some x, Some y) \<Rightarrow> Some (16 * x + y) | _ \<Rightarrow> None)"

text \<open>A code unit after a percent sign.\<close>

definition decode_unit :: "string \<Rightarrow> (char \<times> string) option" where
  "decode_unit s = (case s of
     a # b # rest \<Rightarrow> (case hex_byte a b of
        None \<Rightarrow> None
      | Some n \<Rightarrow>
          if n < 128 then Some (char_of n, rest)
          else if n = 194 \<or> n = 195 then (case rest of
             p # c # d # rest' \<Rightarrow> if p \<noteq> CHR ''%'' then None else (case hex_byte c d of
                None \<Rightarrow> None
              | Some m \<Rightarrow> if 128 \<le> m \<and> m < 192
                  then Some (char_of (64 * (n - 192) + (m - 128)), rest') else None)
           | _ \<Rightarrow> None)
          else None)
   | _ \<Rightarrow> None)"

lemma decode_unit_shorter: "decode_unit s = Some (c, rest) \<Longrightarrow> length rest < length s"
  by (auto simp: decode_unit_def split: list.splits option.splits if_splits)

function decodeURIComponent :: "string \<Rightarrow> string option" where
  "decodeURIComponent [] = Some []"
| "decodeURIComponent (c # s) =
     (if c \<noteq> CHR ''%'' then map_option ((#) c) (decodeURIComponent s)
      else case decode_unit s of None \<Rightarrow> None
        | Some (d, rest) \<Rightarrow> map_option ((#) d) (decodeURIComponent rest))"
  by pat_completeness auto
termination by (relation "measure length") (auto dest: decode_unit_shorter)

section \<open>The round trip\<close>

lemma hex_val_upper: "n < 16 \<Longrightarrow> hex_val (upper_hex n) = Some n"
  by (auto simp: hex_val_def upper_hex_def Let_def)

lemma hex_byte_percent: "n < 256 \<Longrightarrow> hex_byte (upper_hex (n div 16)) (upper_hex (n mod 16)) = Some n"
  by (simp add: hex_byte_def hex_val_upper)

lemma percent_sign_reserved: "\<not> unreserved (CHR ''%'')"
  by (simp add: unreserved_def is_letter_def is_digit_def lower_char_def)

lemma unit_digits:
  assumes "n < (256 :: nat)"
  shows "(192 + n div 64) div 16 < 16 \<and> (128 + n mod 64) div 16 < 16 \<and> n div 16 < 16"
  using assms less_mult_imp_div_less [of n 4 64] mod_less_divisor [of 64 n]
  by (intro conjI less_mult_imp_div_less) linarith+

lemma decode_encoded_unit:
  "decodeURIComponent (encode_unit c @ s) = map_option ((#) c) (decodeURIComponent s)"
proof -
  let ?n = "of_char c :: nat"
  have n: "?n < 256" by simp
  consider "unreserved c" | "\<not> unreserved c" "?n < 128" | "\<not> unreserved c" "128 \<le> ?n" by linarith
  then show ?thesis
  proof cases
    case 1
    then have "c \<noteq> CHR ''%''" using percent_sign_reserved by metis
    then show ?thesis using 1 by (simp add: encode_unit_def)
  next
    case 2
    then show ?thesis
      using hex_byte_percent [OF n] by (simp add: encode_unit_def percent_def decode_unit_def Let_def)
  next
    case 3
    have high: "192 + ?n div 64 = 194 \<or> 192 + ?n div 64 = 195" by (rule high_unit [OF 3(2) n])
    have m: "128 + ?n mod 64 < 256" "128 \<le> 128 + ?n mod 64" "128 + ?n mod 64 < 192"
      using mod_less_divisor [of 64 ?n] by linarith+
    have split: "char_of (64 * (192 + ?n div 64 - 192) + (128 + ?n mod 64 - 128)) = c"
      by (simp only: diff_add_inverse mult_div_mod_eq) simp
    have b: "hex_byte (upper_hex ((192 + ?n div 64) div 16)) (upper_hex ((192 + ?n div 64) mod 16)) = Some (192 + ?n div 64)"
      by (rule hex_byte_percent) (use high in auto)
    show ?thesis
      using 3 high m split b hex_byte_percent [OF m(1)]
      by (simp add: encode_unit_def percent_def decode_unit_def Let_def del: One_nat_def)
  qed
qed

lemma decode_encode [simp]: "decodeURIComponent (encodeURIComponent s) = Some s"
  by (induction s) (simp_all add: encodeURIComponent_def decode_encoded_unit)

text \<open>The characters of an encoded component.\<close>

definition component_char :: "char \<Rightarrow> bool" where
  "component_char c \<longleftrightarrow> unreserved c \<or> c = CHR ''%''"

lemma upper_hex_unreserved: "n < 16 \<Longrightarrow> unreserved (upper_hex n)"
  by (auto simp: unreserved_def upper_hex_def is_digit_def is_letter_def lower_char_def Let_def)

lemma encode_chars: "c \<in> set (encodeURIComponent s) \<Longrightarrow> component_char c"
proof -
  have unit: "component_char c" if "c \<in> set (encode_unit d)" for d
  proof -
    have "(of_char d :: nat) < 256" by simp
    from unit_digits [OF this]
    show ?thesis
      using that by (auto simp: encode_unit_def percent_def component_char_def upper_hex_unreserved Let_def split: if_splits)
  qed
  show "c \<in> set (encodeURIComponent s) \<Longrightarrow> component_char c"
    using unit by (auto simp: encodeURIComponent_def)
qed

lemma component_no_slash: "CHR ''/'' \<notin> set (encodeURIComponent s)"
  using encode_chars [of "CHR ''/''" s]
  by (auto simp: component_char_def unreserved_def is_letter_def is_digit_def lower_char_def)

lemma encode_eq_Nil [simp]: "encodeURIComponent s = [] \<longleftrightarrow> s = []"
  by (cases s) (auto simp: encodeURIComponent_def encode_unit_def percent_def Let_def)

end
