(* ===== verification/Json_Parse.thy ===== *)
theory Json_Parse
  imports Json_Strings
begin

text \<open>
  \<open>JSON.parse\<close> as an executable function into \<open>json\<close>, and the theorem that it inverts
  \<open>JSON.stringify\<close>. \<open>None\<close> is a syntax error; a number with a fraction or an exponent, a \<open>\<bslash>uXXXX\<close>
  above \<open>00FF\<close> and the reordering of integer-like keys are outside the model. Of repeated keys the
  last value counts, at the place of the first.

  The parser recurses on a bound that every call lowers by one. Each character of the text costs
  at most two calls, so that twice the length and two is enough (\<open>parse_printed\<close>).
\<close>

section \<open>The parser\<close>

definition parse_number :: "string \<Rightarrow> (json \<times> string) option" where
  "parse_number s =
     (let negative = (s \<noteq> [] \<and> hd s = CHR ''-'');
          s = (if negative then tl s else s);
          digits = takeWhile is_digit s; rest = dropWhile is_digit s in
      if digits = [] \<or> (hd digits = CHR ''0'' \<and> tl digits \<noteq> []) \<or>
         (rest \<noteq> [] \<and> hd rest \<in> set ''.eE'') then None
      else Some (JInt (if negative then - int (digits_val digits) else int (digits_val digits)), rest))"

definition parse_word :: "string \<Rightarrow> json \<Rightarrow> string \<Rightarrow> (json \<times> string) option" where
  "parse_word w v s = (if startsWith s w then Some (v, drop (length w) s) else None)"

fun parse_value :: "nat \<Rightarrow> string \<Rightarrow> (json \<times> string) option"
  and parse_elements :: "nat \<Rightarrow> string \<Rightarrow> (json list \<times> string) option"
  and parse_members :: "nat \<Rightarrow> string \<Rightarrow> ((string \<times> json) list \<times> string) option" where
  "parse_value 0 s = None"
| "parse_value (Suc n) s = (case skip_space s of
     [] \<Rightarrow> None
   | c # rest \<Rightarrow>
       if c = CHR 0x22 then map_option (\<lambda>(x, r). (JStr x, r)) (scan_string rest)
       else if c = CHR ''['' then (case skip_space rest of
            [] \<Rightarrow> None
          | d # r \<Rightarrow> if d = CHR '']'' then Some (JArr [], r)
              else map_option (\<lambda>(vs, r). (JArr vs, r)) (parse_elements n rest))
       else if c = CHR 0x7B then (case skip_space rest of
            [] \<Rightarrow> None
          | d # r \<Rightarrow> if d = CHR 0x7D then Some (JObj [], r)
              else map_option (\<lambda>(kvs, r). (JObj (js_map kvs), r)) (parse_members n rest))
       else if c = CHR ''t'' then parse_word ''true'' (JBool True) (c # rest)
       else if c = CHR ''f'' then parse_word ''false'' (JBool False) (c # rest)
       else if c = CHR ''n'' then parse_word ''null'' JNull (c # rest)
       else parse_number (c # rest))"
| "parse_elements 0 s = None"
| "parse_elements (Suc n) s = (case parse_value n s of
     None \<Rightarrow> None
   | Some (v, rest) \<Rightarrow> (case skip_space rest of
        [] \<Rightarrow> None
      | c # r \<Rightarrow> if c = CHR '']'' then Some ([v], r)
          else if c = CHR '','' then map_option (\<lambda>(vs, r). (v # vs, r)) (parse_elements n r)
          else None))"
| "parse_members 0 s = None"
| "parse_members (Suc n) s = (case skip_space s of
     [] \<Rightarrow> None
   | q # rest \<Rightarrow> if q \<noteq> CHR 0x22 then None else (case scan_string rest of
        None \<Rightarrow> None
      | Some (k, rest) \<Rightarrow> (case skip_space rest of
           [] \<Rightarrow> None
         | c # rest \<Rightarrow> if c \<noteq> CHR '':'' then None else (case parse_value n rest of
              None \<Rightarrow> None
            | Some (v, rest) \<Rightarrow> (case skip_space rest of
                 [] \<Rightarrow> None
               | c # r \<Rightarrow> if c = CHR 0x7D then Some ([(k, v)], r)
                   else if c = CHR '','' then map_option (\<lambda>(kvs, r). ((k, v) # kvs, r)) (parse_members n r)
                   else None)))))"

definition parse_json :: "string \<Rightarrow> json option" where
  "parse_json s = (case parse_value (2 * length s + 2) s of
     None \<Rightarrow> None
   | Some (v, rest) \<Rightarrow> if skip_space rest = [] then Some v else None)"

section \<open>The round trip\<close>

fun plain_json :: "json \<Rightarrow> bool" where
  "plain_json JNonFinite = False"
| "plain_json (JArr vs) = (\<forall>v \<in> set vs. plain_json v)"
| "plain_json (JObj kvs) = (distinct (map fst kvs) \<and> (\<forall>kv \<in> set kvs. plain_json (snd kv)))"
| "plain_json v = True"

lemma plain_finite: "plain_json v \<Longrightarrow> finite_json v"
  by (induction v rule: finite_json.induct) auto

text \<open>What may follow a printed value.\<close>

definition value_end :: "string \<Rightarrow> bool" where
  "value_end rest \<longleftrightarrow> rest = [] \<or> (\<not> is_digit (hd rest) \<and> hd rest \<notin> set ''.eE'')"

lemma value_end_simps [simp]:
  "value_end []" "value_end (CHR '','' # s)" "value_end (CHR '']'' # s)" "value_end (CHR 0x7D # s)"
  "value_end (CHR 0x0A # s)"
  by (simp_all add: value_end_def is_digit_def)

lemma digit_ends:
  assumes "\<forall>c \<in> set ds. is_digit c" and "value_end rest"
  shows "takeWhile is_digit (ds @ rest) = ds" "dropWhile is_digit (ds @ rest) = rest"
  using assms by (cases rest; auto simp: value_end_def takeWhile_append dropWhile_append takeWhile_eq_all_conv)+

lemma nat_str_zero: "tl (nat_str n) \<noteq> [] \<Longrightarrow> hd (nat_str n) \<noteq> CHR ''0''"
proof (induction n rule: nat_str.induct)
  case (1 n)
  show ?case
  proof (cases "n < 10")
    case True
    then have "nat_str n = [digit_char n]" by (subst nat_str.simps) simp
    then show ?thesis using 1 by simp
  next
    case False
    then have n: "nat_str n = nat_str (n div 10) @ [digit_char (n mod 10)]" by (subst nat_str.simps) simp
    show ?thesis
    proof (cases "tl (nat_str (n div 10)) = []")
      case True
      then obtain d where d: "nat_str (n div 10) = [d]" by (metis list.collapse nat_str_neq_Nil)
      have "n div 10 < 10"
      proof (rule ccontr)
        assume "\<not> n div 10 < 10"
        then have "nat_str (n div 10) = nat_str (n div 10 div 10) @ [digit_char (n div 10 mod 10)]"
          by (subst nat_str.simps) simp
        then show False using d nat_str_neq_Nil [of "n div 10 div 10"] by auto
      qed
      then have "d = digit_char (n div 10)" using d by (subst (asm) nat_str.simps) simp
      moreover have "digit_char (n div 10) \<noteq> CHR ''0''"
      proof
        assume "digit_char (n div 10) = CHR ''0''"
        then have "digit_val (digit_char (n div 10)) = digit_val (CHR ''0'')" by simp
        then show False using \<open>n div 10 < 10\<close> False by (simp add: digit_val_char) (simp add: digit_val_def)
      qed
      ultimately show ?thesis using n d by simp
    next
      case tl: False
      then show ?thesis using "1.IH" [OF False tl] n by simp
    qed
  qed
qed

lemma parse_number_printed:
  assumes "value_end rest"
  shows "parse_number (int_str i @ rest) = Some (JInt i, rest)"
proof -
  have ends: "takeWhile is_digit (nat_str n @ rest) = nat_str n" "dropWhile is_digit (nat_str n @ rest) = rest" for n
    using digit_ends [OF _ assms, of "nat_str n"] nat_str_digits by blast+
  have stop: "\<not> (rest \<noteq> [] \<and> hd rest \<in> set ''.eE'')"
    using assms by (auto simp: value_end_def)
  have lead: "\<not> (hd (nat_str n) = CHR ''0'' \<and> tl (nat_str n) \<noteq> [])" for n
    using nat_str_zero by blast
  show ?thesis
  proof (cases "i < 0")
    case True
    then show ?thesis using stop lead by (simp add: parse_number_def int_str_def ends Let_def del: set_simps dropWhile_eq_Nil_conv)
  next
    case False
    have "hd (nat_str (nat i) @ rest) \<noteq> CHR ''-''"
      using nat_str_digits [of "hd (nat_str (nat i))" "nat i"] not_digit_minus by auto
    then show ?thesis using False stop lead
      by (simp add: parse_number_def int_str_def ends Let_def del: set_simps dropWhile_eq_Nil_conv)
  qed
qed

lemma distinct_js_map: "distinct (map fst es) \<Longrightarrow> js_map es = es"
proof (induction es rule: rev_induct)
  case (snoc e es)
  have "fst e \<notin> fst ` set es" using snoc.prems by auto
  moreover have "AList.update k v al = al @ [(k, v)]" if "k \<notin> fst ` set al" for k v and al :: "('a \<times> 'b) list"
    using that by (induction al) auto
  ultimately show ?case using snoc by (simp add: js_map_def)
qed (simp add: js_map_def)

lemma print_json_start:
  assumes "finite_json v"
  obtains c s where "print_json v = c # s" "\<not> json_space c" "c \<noteq> CHR '']''" "c \<noteq> CHR 0x7D"
proof -
  obtain c s where v: "print_json v = c # s" using print_json_kind [OF assms] by (cases "print_json v") auto
  have "c \<noteq> CHR '']'' \<and> c \<noteq> CHR 0x7D" using print_json_not_delimited [OF assms] v by simp
  moreover have "\<not> json_space c"
  proof (cases v)
    case (JInt i)
    then have "is_digit c \<or> c = CHR ''-''" using hd_int_str [of i] v by simp
    then show ?thesis by (auto simp: json_space_def is_digit_def)
  qed (use v assms in \<open>auto simp: json_space_def json_quote_def split: if_splits\<close>)
  ultimately show thesis using that v by blast
qed

lemma startsWith_self [simp]: "startsWith (w @ s) w"
  by (simp add: startsWith_def)

definition entry_text :: "string \<times> json \<Rightarrow> string" where
  "entry_text kv = json_quote (fst kv) @ '':'' @ print_json (snd kv)"

lemma print_json_obj: "print_json (JObj kvs) = CHR 0x7B # js_join '','' (map entry_text kvs) @ [CHR 0x7D]"
  by (simp add: entry_text_def [abs_def])

lemma parse_int_printed:
  assumes "value_end rest"
  shows "parse_value (Suc n) (int_str i @ rest) = Some (JInt i, rest)"
proof -
  obtain c s where c: "int_str i = c # s" by (cases "int_str i") auto
  then have kind: "is_digit c \<or> c = CHR ''-''" using hd_int_str [of i] by simp
  then have "\<not> json_space c" "c \<notin> {CHR 0x22, CHR ''['', CHR 0x7B, CHR ''t'', CHR ''f'', CHR ''n''}"
    by (auto simp: json_space_def is_digit_def)
  then show ?thesis
    using parse_number_printed [OF assms, of i] by (simp add: c skip_space_stop)
qed


text \<open>The elements of an array and the members of an object, given their values.\<close>

definition reads :: "json \<Rightarrow> bool" where
  "reads v \<longleftrightarrow> (\<forall>n rest. value_end rest \<longrightarrow> 2 * length (print_json v) \<le> n \<longrightarrow>
     parse_value (Suc n) (print_json v @ rest) = Some (v, rest))"

lemma readsD: "reads v \<Longrightarrow> value_end rest \<Longrightarrow> 2 * length (print_json v) < n \<Longrightarrow>
    parse_value n (print_json v @ rest) = Some (v, rest)"
  by (cases n) (simp_all add: reads_def)

lemma elements_printed:
  "\<forall>v \<in> set vs. reads v \<Longrightarrow> vs \<noteq> [] \<Longrightarrow> 2 * length (js_join '','' (map print_json vs)) < n \<Longrightarrow>
     parse_elements (Suc n) (js_join '','' (map print_json vs) @ '']'' @ rest) = Some (vs, rest)"
proof (induction vs arbitrary: n)
  case (Cons v vs)
  show ?case
  proof (cases vs)
    case Nil
    then show ?thesis
      using Cons.prems readsD [of v "CHR '']'' # rest" n] by (simp add: skip_space_stop)
  next
    case (Cons w ws)
    let ?more = "js_join '','' (map print_json vs)"
    have n: "2 * length (print_json v) < n" "2 * length ?more < n - 1" "n = Suc (n - 1)"
      using Cons.prems(3) by (simp_all add: Cons)
    have "parse_value n (print_json v @ CHR '','' # ?more @ '']'' @ rest) = Some (v, CHR '','' # ?more @ '']'' @ rest)"
      using Cons.prems(1) n(1) by (intro readsD) simp_all
    moreover have "parse_elements n (?more @ '']'' @ rest) = Some (vs, rest)"
      using Cons.IH [of "n - 1"] Cons.prems(1) n(2,3) Cons by simp
    ultimately show ?thesis by (simp add: Cons skip_space_stop)
  qed
qed simp

lemma members_printed:
  "\<forall>kv \<in> set kvs. reads (snd kv) \<Longrightarrow> kvs \<noteq> [] \<Longrightarrow> 2 * length (js_join '','' (map entry_text kvs)) < n \<Longrightarrow>
     parse_members (Suc n) (js_join '','' (map entry_text kvs) @ CHR 0x7D # rest) = Some (kvs, rest)"
proof (induction kvs arbitrary: n)
  case (Cons kv kvs)
  obtain k v where kv: "kv = (k, v)" by (cases kv)
  have entry: "entry_text (k, v) @ s = CHR 0x22 # concat (map json_escape k) @ CHR 0x22 # CHR '':'' # print_json v @ s" for s
    by (simp add: entry_text_def json_quote_Cons)
  have ends: "\<not> json_space (CHR '':'')" "\<not> json_space (CHR 0x7D)" by (simp_all add: json_space_def)
  show ?case
  proof (cases kvs)
    case Nil
    have "parse_value n (print_json v @ CHR 0x7D # rest) = Some (v, CHR 0x7D # rest)"
      using Cons.prems(1,3) by (intro readsD) (simp_all add: Nil kv entry_text_def)
    then show ?thesis
      by (simp add: Nil kv entry scan_quoted skip_space_stop ends)
  next
    case more: (Cons lw ls)
    let ?more = "js_join '','' (map entry_text kvs)"
    have join: "js_join '','' (map entry_text (kv # kvs)) = entry_text (k, v) @ '','' @ ?more"
      by (simp add: more kv)
    have "2 * (length (entry_text (k, v)) + 1 + length ?more) < n"
      using Cons.prems(3) unfolding join by simp
    then have n: "2 * length (print_json v) < n" "2 * length ?more < n - 1" "n = Suc (n - 1)"
      by (simp_all add: entry_text_def)
    have "parse_value n (print_json v @ CHR '','' # ?more @ CHR 0x7D # rest) =
        Some (v, CHR '','' # ?more @ CHR 0x7D # rest)"
      using Cons.prems(1) n(1) by (intro readsD) (simp_all add: kv)
    moreover have "parse_members n (?more @ CHR 0x7D # rest) = Some (kvs, rest)"
      using Cons.IH [of "n - 1"] Cons.prems(1) n(2,3) more by simp
    ultimately show ?thesis
      unfolding join by (simp add: entry scan_quoted skip_space_stop ends kv)
  qed
qed simp

lemma reads_leaf: "reads JNull" "reads (JBool b)" "reads (JStr x)" "reads (JInt i)"
proof -
  show "reads JNull" "reads (JBool b)" "reads (JStr x)"
    by (simp_all add: reads_def skip_space_stop json_space_def parse_word_def startsWith_def
        json_quote_Cons scan_quoted)
  show "reads (JInt i)" by (simp add: reads_def parse_int_printed del: parse_value.simps)
qed

lemma plain_reads: "plain_json v \<Longrightarrow> reads v"
proof (induction v rule: plain_json.induct)
  case (2 vs)
  have elements: "\<forall>v \<in> set vs. reads v" using 2 by simp
  show ?case
    unfolding reads_def
  proof (intro allI impI)
    fix n rest assume n: "2 * length (print_json (JArr vs)) \<le> n"
    show "parse_value (Suc n) (print_json (JArr vs) @ rest) = Some (JArr vs, rest)"
    proof (cases vs)
      case Nil
      then show ?thesis by (simp add: skip_space_stop)
    next
      case (Cons w ws)
      obtain c s where start: "print_json w = c # s" "\<not> json_space c" "c \<noteq> CHR '']''"
        using print_json_start [OF plain_finite, of w] "2.prems" Cons by (metis list.set_intros(1) plain_json.simps(2))
      let ?text = "js_join '','' (map print_json vs) @ '']'' @ rest"
      have hd: "\<exists>t. ?text = c # t" using Cons start(1) by (simp add: js_join_Cons)
      have "parse_elements n ?text = Some (vs, rest)"
        using elements_printed [OF elements, of "n - 1" rest] Cons n by (cases n) simp_all
      moreover obtain t where t: "?text = c # t" using hd by blast
      ultimately show ?thesis
        using start(2,3) by (simp add: skip_space_stop)
    qed
  qed
next
  case (3 kvs)
  have members: "\<forall>kv \<in> set kvs. reads (snd kv)" using 3 by auto
  show ?case
    unfolding reads_def
  proof (intro allI impI)
    fix n rest assume n: "2 * length (print_json (JObj kvs)) \<le> n"
    show "parse_value (Suc n) (print_json (JObj kvs) @ rest) = Some (JObj kvs, rest)"
    proof (cases kvs)
      case Nil
      then show ?thesis by (simp add: skip_space_stop json_space_def)
    next
      case (Cons lw ls)
      let ?text = "js_join '','' (map entry_text kvs) @ CHR 0x7D # rest"
      have "parse_members n ?text = Some (kvs, rest)"
        using members_printed [OF members, of "n - 1" rest] Cons n
        by (cases n) (simp_all only: print_json_obj length_Cons length_append, simp_all)
      moreover obtain t where t: "?text = CHR 0x22 # t"
        using Cons by (cases lw) (simp add: js_join_Cons entry_text_def json_quote_def)
      moreover have "\<not> json_space (CHR 0x7B)" by (simp add: json_space_def)
      moreover have "js_map kvs = kvs" using "3.prems" by (simp add: distinct_js_map)
      ultimately show ?thesis
        unfolding print_json_obj by (simp add: skip_space_stop del: print_json.simps)
    qed
  qed
qed (simp_all add: reads_leaf)

text \<open>\<open>JSON.parse(JSON.stringify(v))\<close> is \<open>v\<close>, also with white space after the text.\<close>

lemma parse_printed:
  assumes "plain_json v" and "value_end rest" and "skip_space rest = []"
  shows "parse_json (print_json v @ rest) = Some v"
proof -
  have "parse_value (Suc (2 * length (print_json v @ rest) + 1)) (print_json v @ rest) = Some (v, rest)"
    using plain_reads [OF assms(1)] assms(2) by (simp only: reads_def) simp
  then show ?thesis using assms(3) by (simp add: parse_json_def del: parse_value.simps)
qed

lemma parse_print [simp]: "plain_json v \<Longrightarrow> parse_json (print_json v) = Some v"
  using parse_printed [of v "[]"] by (simp add: skip_space_def)

end
