(* ===== verification/Web_Platform.thy ===== *)
theory Web_Platform
  imports Uri_Component Json_Parse Posix_Path Utf8
begin

text \<open>
  What the protocol code uses of the platform: \<open>JSON.stringify\<close> of any value, \<open>String(value)\<close>
  and the path of a \<open>URL\<close>. The facts are the round trips a request and a reply go through.
\<close>

section \<open>Values as text\<close>

text \<open>\<open>JSON.stringify(v)\<close>: a number that is not finite is written \<open>null\<close>.\<close>

fun finite_part :: "json \<Rightarrow> json" where
  "finite_part JNonFinite = JNull"
| "finite_part (JArr vs) = JArr (map finite_part vs)"
| "finite_part (JObj kvs) = JObj (map (\<lambda>kv. (fst kv, finite_part (snd kv))) kvs)"
| "finite_part v = v"

definition stringify :: "json \<Rightarrow> string" where
  "stringify v = print_json (finite_part v)"

lemma finite_part_plain [simp]: "plain_json v \<Longrightarrow> finite_part v = v"
  by (induction v rule: finite_part.induct) (auto simp: map_idI)

lemma parse_of_stringify [simp]: "plain_json v \<Longrightarrow> parse_json (stringify v) = Some v"
  by (simp add: stringify_def)

lemma parse_of_stringify_line [simp]: "plain_json v \<Longrightarrow> parse_json (stringify v @ [CHR 0x0A]) = Some v"
  using parse_printed [of v "[CHR 0x0A]"]
  by (simp add: stringify_def skip_space_def json_space_def)

text \<open>
  \<open>String(v)\<close>. An object with an own member \<open>toString\<close>, which is no function in JSON, cannot be
  converted; the numbers that are not finite have one text here.
\<close>

fun js_string :: "json \<Rightarrow> string result" where
  "js_string JNull = Inr ''null''"
| "js_string (JBool b) = Inr (if b then ''true'' else ''false'')"
| "js_string (JInt i) = Inr (int_str i)"
| "js_string JNonFinite = Inr ''NaN''"
| "js_string (JStr s) = Inr s"
| "js_string (JArr vs) = chain (map_result (\<lambda>v. if v = JNull then Inr '''' else js_string v) vs)
     (\<lambda>parts. Inr (js_join '','' parts))"
| "js_string (JObj kvs) = (if ''toString'' \<in> fst ` set kvs
     then Inl (TypeError ''Cannot convert object to primitive value'') else Inr ''[object Object]'')"

text \<open>\<open>String(object.key ?? fallback)\<close>.\<close>

definition string_member :: "string \<Rightarrow> string \<Rightarrow> (string \<times> json) list \<Rightarrow> string result" where
  "string_member key fallback kvs = (case map_of kvs key of
     None \<Rightarrow> Inr fallback
   | Some v \<Rightarrow> if v = JNull then Inr fallback else js_string v)"

section \<open>The path of a URL\<close>

text \<open>
  \<open>new URL(url, "http://localhost").pathname\<close> for a \<open>url\<close> that is a path, by the URL standard: the
  query and the fragment are cut off, a backslash is a slash, dot segments are resolved and what
  a path may not hold is percent-encoded. Any other \<open>url\<close>, such as one with a host or a scheme of
  its own, may be invalid and is left to the argument \<open>absolute\<close>.
\<close>

definition dot_texts :: "string list" where
  "dot_texts = [''.'', ''%2e'']"

definition single_dot :: "string \<Rightarrow> bool" where
  "single_dot seg \<longleftrightarrow> map lower_char seg \<in> set dot_texts"

definition double_dot :: "string \<Rightarrow> bool" where
  "double_dot seg \<longleftrightarrow> map lower_char seg \<in> set [a @ b. a \<leftarrow> dot_texts, b \<leftarrow> dot_texts]"

definition path_escaped :: "char \<Rightarrow> bool" where
  "path_escaped c \<longleftrightarrow> (let n = (of_char c :: nat) in n \<le> 32 \<or> 126 < n \<or> c \<in> set ''#<>?^`'' \<or> n \<in> {34, 123, 125})"

definition url_unit :: "char \<Rightarrow> string" where
  "url_unit c = (if path_escaped c then concat (map (\<lambda>b. percent (of_char b)) (utf8_unit c)) else [c])"

fun url_segments :: "string list \<Rightarrow> string list \<Rightarrow> string list" where
  "url_segments out [] = out"
| "url_segments out [seg] =
     (if double_dot seg then butlast out @ ['''']
      else if single_dot seg then out @ ['''']
      else out @ [concat (map url_unit seg)])"
| "url_segments out (seg # next # segs) =
     url_segments (if double_dot seg then butlast out else if single_dot seg then out
       else out @ [concat (map url_unit seg)]) (next # segs)"

definition url_slashes :: "string \<Rightarrow> string" where
  "url_slashes url = map (\<lambda>c. if c = CHR 0x5C then CHR ''/'' else c)
     (takeWhile (\<lambda>c. c \<noteq> CHR ''?'' \<and> c \<noteq> CHR ''#'') url)"

definition url_pathname :: "(string \<Rightarrow> string result) \<Rightarrow> string \<Rightarrow> string result" where
  "url_pathname absolute url =
     (let path = url_slashes url in
      if startsWith path ''/'' \<and> \<not> startsWith path ''//''
      then Inr (concat (map ((#) (CHR ''/'')) (url_segments [] (js_split (CHR ''/'') (tl path)))))
      else if url = '''' then Inr ''/'' else absolute url)"

text \<open>A path of plain segments is its own \<open>pathname\<close>.\<close>

definition plain_segment :: "string \<Rightarrow> bool" where
  "plain_segment seg \<longleftrightarrow> seg \<noteq> '''' \<and> \<not> single_dot seg \<and> \<not> double_dot seg \<and> (\<forall>c \<in> set seg. component_char c)"

lemma letter_code: "is_letter c \<Longrightarrow> 65 \<le> (of_char c :: nat) \<and> (of_char c :: nat) \<le> 122 \<and>
    (of_char c :: nat) \<notin> {94, 96}"
  by (auto simp: is_letter_def lower_char_def Let_def split: if_splits)

lemma component_code: "component_char c \<Longrightarrow> 65 \<le> (of_char c :: nat) \<and> (of_char c :: nat) \<le> 122 \<and>
    (of_char c :: nat) \<notin> {94, 96} \<or> 48 \<le> (of_char c :: nat) \<and> (of_char c :: nat) \<le> 57 \<or>
    (of_char c :: nat) \<in> {33, 37, 39, 40, 41, 42, 45, 46, 95, 126}"
  unfolding component_char_def unreserved_def is_digit_def
  by (elim disjE, rule disjI1, erule letter_code) auto

lemma escaped_code: "path_escaped c \<Longrightarrow> (of_char c :: nat) \<le> 32 \<or> 126 < (of_char c :: nat) \<or>
    (of_char c :: nat) \<in> {34, 35, 60, 62, 63, 94, 96, 123, 125}"
  by (auto simp: path_escaped_def Let_def)

lemma component_not_escaped: "component_char c \<Longrightarrow> \<not> path_escaped c"
  using component_code [of c] escaped_code [of c] by auto

lemma component_url_unit: "component_char c \<Longrightarrow> url_unit c = [c]"
  by (simp add: url_unit_def component_not_escaped)

lemma component_units: "\<forall>c \<in> set seg. component_char c \<Longrightarrow> concat (map url_unit seg) = seg"
  by (induction seg) (simp_all add: component_url_unit)

lemma plain_segments_kept:
  "segs \<noteq> [] \<Longrightarrow> \<forall>seg \<in> set segs. plain_segment seg \<Longrightarrow> url_segments out segs = out @ segs"
  by (induction out segs rule: url_segments.induct) (auto simp: plain_segment_def component_units)

definition path_of :: "string list \<Rightarrow> string" where
  "path_of segs = concat (map ((#) (CHR ''/'')) segs)"

lemma component_char_plain: "component_char c \<Longrightarrow> c \<noteq> CHR ''/'' \<and> c \<noteq> CHR 0x5C \<and> c \<noteq> CHR ''?'' \<and> c \<noteq> CHR ''#''"
  by (auto simp: component_char_def unreserved_def is_letter_def is_digit_def lower_char_def)

lemma split_path_of:
  "\<forall>seg \<in> set segs. CHR ''/'' \<notin> set seg \<Longrightarrow> segs \<noteq> [] \<Longrightarrow> js_split (CHR ''/'') (tl (path_of segs)) = segs"
proof (induction segs)
  case (Cons seg segs)
  then show ?case by (cases segs) (simp_all add: path_of_def split_no_sep split_append_sep)
qed simp

lemma path_of_slashes:
  assumes "\<forall>seg \<in> set segs. plain_segment seg"
  shows "url_slashes (path_of segs) = path_of segs"
proof -
  have c: "c = CHR ''/'' \<or> component_char c" if "c \<in> set (path_of segs)" for c
    using that assms by (auto simp: path_of_def plain_segment_def split: if_splits)
  have ok: "c \<noteq> CHR 0x5C \<and> c \<noteq> CHR ''?'' \<and> c \<noteq> CHR ''#''" if "c \<in> set (path_of segs)" for c
    using c [OF that] component_char_plain [of c] by (elim disjE) simp_all
  then have "takeWhile (\<lambda>c. c \<noteq> CHR ''?'' \<and> c \<noteq> CHR ''#'') (path_of segs) = path_of segs"
    by (simp add: takeWhile_eq_all_conv)
  moreover have "map (\<lambda>c. if c = CHR 0x5C then CHR ''/'' else c) (path_of segs) = path_of segs"
    using ok by (intro map_idI) auto
  ultimately show ?thesis by (simp only: url_slashes_def)
qed

lemma pathname_plain:
  assumes "segs \<noteq> []" and "\<forall>seg \<in> set segs. plain_segment seg"
  shows "url_pathname absolute (path_of segs) = Inr (path_of segs)"
proof -
  have "startsWith (path_of segs) ''/'' \<and> \<not> startsWith (path_of segs) ''//''"
    using assms component_char_plain
    by (cases segs; cases "hd segs") (auto simp: path_of_def startsWith_def plain_segment_def)
  moreover have "js_split (CHR ''/'') (tl (path_of segs)) = segs"
    using assms component_char_plain by (intro split_path_of) (auto simp: plain_segment_def)
  ultimately show ?thesis
    using plain_segments_kept [OF assms, of "[]"]
    by (simp add: url_pathname_def path_of_slashes [OF assms(2)] Let_def) (simp add: path_of_def)
qed

text \<open>An encoded component is plain, but for the three texts that name no segment.\<close>

lemma lower_char_inverse:
  assumes "lower_char c = d"
  shows "c = d \<or> c = char_of ((of_char d :: nat) - 32)"
proof (cases "65 \<le> (of_char c :: nat) \<and> (of_char c :: nat) \<le> 90")
  case True
  then have "of_char d = (of_char c :: nat) + 32"
    using assms by (auto simp: lower_char_def Let_def)
  then show ?thesis by simp
next
  case False
  then show ?thesis using assms by (auto simp: lower_char_def Let_def)
qed

lemma char_codes:
  "char_of (46 :: nat) = CHR ''.''" "char_of (101 :: nat) = CHR ''e''" "char_of (69 :: nat) = CHR ''E''"
  by code_simp+

lemma lower_char_cases:
  "lower_char c = CHR ''.'' \<longleftrightarrow> c = CHR ''.''" "lower_char c = CHR ''%'' \<longleftrightarrow> c = CHR ''%''"
  "lower_char c = CHR ''2'' \<longleftrightarrow> c = CHR ''2''" "lower_char c = CHR ''e'' \<longleftrightarrow> c = CHR ''e'' \<or> c = CHR ''E''"
  using lower_char_inverse [of c] by (auto simp: lower_char_def char_codes)

lemma decode_dot_texts:
  "single_dot seg \<Longrightarrow> decodeURIComponent seg = Some ''.''"
  "double_dot seg \<Longrightarrow> decodeURIComponent seg = Some ''..''"
  by (auto simp: single_dot_def double_dot_def dot_texts_def map_eq_Cons_conv lower_char_cases
      decode_unit_def hex_byte_def hex_val_def char_codes)

lemma encoded_plain:
  assumes "x \<notin> {'''', ''.'', ''..''}"
  shows "plain_segment (encodeURIComponent x)"
proof -
  have "\<not> single_dot (encodeURIComponent x)" "\<not> double_dot (encodeURIComponent x)"
    using assms decode_dot_texts [of "encodeURIComponent x"] by auto
  then show ?thesis using assms encode_chars by (simp add: plain_segment_def)
qed

end
