(* ===== verification/Protocol_Application.thy ===== *)
theory Protocol_Application
  imports Canonical_Json Js_Effects Context_Gateway
begin

text \<open>
  \<open>packages/application\<close>: the use cases behind every protocol surface, with their errors,
  envelopes, authenticators and authorizers. An operation is asynchronous but is one step here, on
  a state \<open>'s\<close> that stands for whatever the providers keep. Values of contracts that only pass
  through (connector records, snapshots, health reports) are JSON.
\<close>

section \<open>Errors\<close>

datatype protocol_error_code =
    AuthenticationFailed | AuthorizationDenied | BodyTooLarge | ContentTypeUnsupported
  | InternalError | InvalidArgument | MethodNotFound | NotImplemented | ProjectRootDenied
  | ProtocolVersionUnsupported | RequestCancelled | RequestTimeout | ValidationFailed

fun error_code_name :: "protocol_error_code \<Rightarrow> string" where
  "error_code_name AuthenticationFailed = ''AUTHENTICATION_FAILED''"
| "error_code_name AuthorizationDenied = ''AUTHORIZATION_DENIED''"
| "error_code_name BodyTooLarge = ''BODY_TOO_LARGE''"
| "error_code_name ContentTypeUnsupported = ''CONTENT_TYPE_UNSUPPORTED''"
| "error_code_name InternalError = ''INTERNAL_ERROR''"
| "error_code_name InvalidArgument = ''INVALID_ARGUMENT''"
| "error_code_name MethodNotFound = ''METHOD_NOT_FOUND''"
| "error_code_name NotImplemented = ''NOT_IMPLEMENTED''"
| "error_code_name ProjectRootDenied = ''PROJECT_ROOT_DENIED''"
| "error_code_name ProtocolVersionUnsupported = ''PROTOCOL_VERSION_UNSUPPORTED''"
| "error_code_name RequestCancelled = ''REQUEST_CANCELLED''"
| "error_code_name RequestTimeout = ''REQUEST_TIMEOUT''"
| "error_code_name ValidationFailed = ''VALIDATION_FAILED''"

text \<open>The code is a string at run time: a client builds it from what it receives.\<close>

record protocol_error =
  pe_code :: string
  pe_message :: string
  pe_details :: "json option"
  pe_status :: int

datatype thrown = Protocol protocol_error | OtherError exn

definition ProtocolError :: "protocol_error_code \<Rightarrow> string \<Rightarrow> json option \<Rightarrow> int \<Rightarrow> thrown" where
  "ProtocolError code message details status = Protocol \<lparr>pe_code = error_code_name code,
     pe_message = message, pe_details = details, pe_status = status\<rparr>"

definition toProtocolError :: "thrown \<Rightarrow> protocol_error" where
  "toProtocolError error = (case error of
     Protocol e \<Rightarrow> e
   | OtherError e \<Rightarrow> \<lparr>pe_code = error_code_name InternalError, pe_message = ''Soren SDK request failed.'',
       pe_details = None, pe_status = 500\<rparr>)"

section \<open>Envelopes and their digest\<close>

datatype protocol_surface = ApplicationSurface | McpSurface | RestSurface | SdkHttpSurface | SdkInProcessSurface

fun surface_name :: "protocol_surface \<Rightarrow> string" where
  "surface_name ApplicationSurface = ''application''"
| "surface_name McpSurface = ''mcp''"
| "surface_name RestSurface = ''rest''"
| "surface_name SdkHttpSurface = ''sdk-http''"
| "surface_name SdkInProcessSurface = ''sdk-in-process''"

record protocol_metadata =
  meta_correlationId :: "string option"
  meta_surface :: "protocol_surface option"

definition opt_member :: "string \<Rightarrow> json option \<Rightarrow> (string \<times> json) list" where
  "opt_member k v = (case v of None \<Rightarrow> [] | Some j \<Rightarrow> [(k, j)])"

definition meta_json :: "protocol_metadata \<Rightarrow> json" where
  "meta_json m = JObj (opt_member ''correlationId'' (map_option JStr (meta_correlationId m)) @
     opt_member ''surface'' (map_option (\<lambda>s. JStr (surface_name s)) (meta_surface m)))"

definition okEnvelope :: "json \<Rightarrow> protocol_metadata \<Rightarrow> json" where
  "okEnvelope data meta = JObj [(''schemaVersion'', JStr ''1.0.0-draft.1''), (''ok'', JBool True),
     (''data'', data), (''meta'', meta_json meta)]"

definition errorEnvelope :: "protocol_error \<Rightarrow> protocol_metadata \<Rightarrow> json" where
  "errorEnvelope error meta = JObj [(''schemaVersion'', JStr ''1.0.0-draft.1''), (''ok'', JBool False),
     (''error'', JObj ([(''code'', JStr (pe_code error)), (''message'', JStr (pe_message error))] @
        opt_member ''details'' (pe_details error))),
     (''meta'', meta_json meta)]"

fun stripTransportMetadata :: "json \<Rightarrow> json" where
  "stripTransportMetadata (JArr vs) = JArr (map stripTransportMetadata vs)"
| "stripTransportMetadata (JObj kvs) = JObj (map (\<lambda>kv. (fst kv, stripTransportMetadata (snd kv)))
     (filter (\<lambda>kv. fst kv \<noteq> ''meta'' \<and> fst kv \<noteq> ''correlationId'') kvs))"
| "stripTransportMetadata v = v"

definition canonicalProtocolDigest :: "(string \<Rightarrow> string) \<Rightarrow> json \<Rightarrow> string result" where
  "canonicalProtocolDigest sha v = digestJson sha (stripTransportMetadata v)"

section \<open>Authentication and authorization\<close>

record incoming_request =
  inc_method :: string
  inc_path :: string
  inc_headers :: "(string \<times> string option) list"

record principal =
  prin_id :: string
  prin_roles :: "string list"

record authorization_decision =
  dec_allowed :: bool
  dec_reason :: "string option"

type_synonym authenticator = "incoming_request \<Rightarrow> thrown + principal"
type_synonym authorizer = "principal \<Rightarrow> string \<Rightarrow> string \<Rightarrow> authorization_decision"

definition AnonymousAuthenticator :: authenticator where
  "AnonymousAuthenticator request = Inr \<lparr>prin_id = ''anonymous'', prin_roles = [''reader'']\<rparr>"

definition DenyByDefaultAuthorizer :: authorizer where
  "DenyByDefaultAuthorizer p action resource =
     \<lparr>dec_allowed = False, dec_reason = Some ''No authorization policy was configured.''\<rparr>"

definition endsWith :: "string \<Rightarrow> string \<Rightarrow> bool" where
  "endsWith s w \<longleftrightarrow> drop (length s - length w) s = w"

definition AllowReadOnlyAuthorizer :: authorizer where
  "AllowReadOnlyAuthorizer p action resource =
     (if endsWith action '':read'' then \<lparr>dec_allowed = True, dec_reason = None\<rparr>
      else \<lparr>dec_allowed = False, dec_reason = Some (''Action '' @ action @ '' is not read-only.'')\<rparr>)"

definition incomingRequest :: "string \<Rightarrow> string \<Rightarrow> (string \<times> string option) list \<Rightarrow> incoming_request" where
  "incomingRequest method path headers = \<lparr>inc_method = method, inc_path = path, inc_headers = headers\<rparr>"

section \<open>The application\<close>

type_synonym 's use_case = "'s \<Rightarrow> (thrown + json) \<times> 's"

record 's soren_application =
  app_catalogList :: "protocol_metadata \<Rightarrow> 's use_case"
  app_catalogGet :: "string \<Rightarrow> protocol_metadata \<Rightarrow> 's use_case"
  app_connectorHealth :: "string \<Rightarrow> protocol_metadata \<Rightarrow> 's use_case"
  app_inspectProject :: "string \<Rightarrow> string option \<Rightarrow> protocol_metadata \<Rightarrow> 's use_case"
  app_route :: "json \<Rightarrow> protocol_metadata \<Rightarrow> 's use_case"
  app_resolvePolicy :: "json \<Rightarrow> protocol_metadata \<Rightarrow> 's use_case"
  app_inspectLock :: "json \<Rightarrow> protocol_metadata \<Rightarrow> 's use_case"
  app_selectContext :: "json \<Rightarrow> protocol_metadata \<Rightarrow> 's use_case"
  app_createPlan :: "json \<Rightarrow> protocol_metadata \<Rightarrow> 's use_case"
  app_getEvidence :: "json \<Rightarrow> protocol_metadata \<Rightarrow> 's use_case"

record 's catalog_provider =
  prov_listConnectors :: "'s use_case"
  prov_getConnector :: "string \<Rightarrow> 's \<Rightarrow> (thrown + json option) \<times> 's"
  prov_getConnectorHealth :: "string \<Rightarrow> 's use_case"
  prov_createSnapshot :: "'s use_case"

record 's application_options =
  opt_catalog :: "'s catalog_provider"
  opt_projectInspector :: "string \<Rightarrow> string option \<Rightarrow> protocol_metadata \<Rightarrow> 's use_case"
  opt_policyProvider :: "(json \<Rightarrow> protocol_metadata \<Rightarrow> 's use_case) option"
  opt_contextProvider :: "(json \<Rightarrow> protocol_metadata \<Rightarrow> 's use_case) option"
  opt_planProvider :: "((json \<Rightarrow> protocol_metadata \<Rightarrow> 's use_case) \<times>
    (json \<Rightarrow> protocol_metadata \<Rightarrow> 's use_case)) option"

definition lift_error :: "'a result \<Rightarrow> thrown + 'a" where
  "lift_error r = (case r of Inl e \<Rightarrow> Inl (OtherError e) | Inr x \<Rightarrow> Inr x)"

text \<open>The answers of what is not implemented, and of the fakes.\<close>

definition unavailable :: "(string \<Rightarrow> string) \<Rightarrow> (string \<times> json) list \<Rightarrow> json \<Rightarrow> 's use_case" where
  "unavailable sha extra request =
     check (chain (lift_error (digestJson sha request)) (\<lambda>digest.
       Inr (JObj ([(''status'', JStr ''unavailable''), (''code'', JStr ''NOT_IMPLEMENTED'')] @ extra @
         [(''requestDigest'', JStr digest)]))))"

definition FakeResolvedPolicyProvider :: "(string \<Rightarrow> string) \<Rightarrow> json \<Rightarrow> protocol_metadata \<Rightarrow> 's use_case" where
  "FakeResolvedPolicyProvider sha request meta =
     unavailable sha [(''replacementPort'', JStr ''ResolvedPolicyProvider'')] request"

definition FakeContextSelectionProvider :: "(string \<Rightarrow> string) \<Rightarrow> json \<Rightarrow> protocol_metadata \<Rightarrow> 's use_case" where
  "FakeContextSelectionProvider sha request meta =
     unavailable sha [(''replacementPort'', JStr ''ContextSelectionProvider'')] request"

definition FakePlanEvidenceProvider :: "(string \<Rightarrow> string) \<Rightarrow> json \<Rightarrow> protocol_metadata \<Rightarrow> 's use_case" where
  "FakePlanEvidenceProvider sha request meta =
     unavailable sha [(''replacementPort'', JStr ''PlanEvidenceProvider'')] request"

definition DisabledApplyProvider :: "(string \<Rightarrow> string) \<Rightarrow> json \<Rightarrow> 's use_case" where
  "DisabledApplyProvider sha request =
     check (chain (lift_error (digestJson sha request)) (\<lambda>digest.
       Inr (JObj [(''status'', JStr ''disabled''), (''code'', JStr ''NOT_IMPLEMENTED''),
         (''replacementPort'', JStr ''ApplyProvider''), (''requestDigest'', JStr digest)])))"

definition require_id :: "string \<Rightarrow> thrown + unit" where
  "require_id i = guard (blank i) (ProtocolError InvalidArgument ''Connector id is required.'' None 400)"

definition createSorenApplication :: "(string \<Rightarrow> string) \<Rightarrow> 's application_options \<Rightarrow> 's soren_application" where
  "createSorenApplication sha options =
     (let policyProvider = (case opt_policyProvider options of
            None \<Rightarrow> FakeResolvedPolicyProvider sha | Some p \<Rightarrow> p);
          contextProvider = (case opt_contextProvider options of
            None \<Rightarrow> FakeContextSelectionProvider sha | Some p \<Rightarrow> p);
          planEvidenceProvider = (case opt_planProvider options of
            None \<Rightarrow> (FakePlanEvidenceProvider sha, FakePlanEvidenceProvider sha) | Some p \<Rightarrow> p);
          catalog = opt_catalog options in
      \<lparr>app_catalogList = (\<lambda>meta s.
         proceed (prov_listConnectors catalog s) (\<lambda>connectors s.
         proceed (prov_createSnapshot catalog s) (\<lambda>snapshot.
         check (Inr (JObj [(''connectors'', connectors), (''snapshot'', snapshot)]))))),
       app_catalogGet = (\<lambda>i meta s. proceed (check (require_id i) s) (\<lambda>_ s.
         proceed (prov_getConnector catalog i s) (\<lambda>connector.
         check (Inr (JObj [(''connector'', or_null connector)]))))),
       app_connectorHealth = (\<lambda>i meta s. proceed (check (require_id i) s) (\<lambda>_ s.
         proceed (prov_getConnectorHealth catalog i s) (\<lambda>health.
         check (Inr (JObj [(''health'', health)]))))),
       app_inspectProject = (\<lambda>path createdAt meta s.
         proceed (opt_projectInspector options path createdAt meta s) (\<lambda>project.
         check (Inr (JObj [(''project'', project)])))),
       app_route = (\<lambda>request meta.
         unavailable sha [(''replacementPhase'', JStr ''phase-4'')] request),
       app_resolvePolicy = policyProvider,
       app_inspectLock = (\<lambda>request meta. unavailable sha [] request),
       app_selectContext = contextProvider,
       app_createPlan = fst planEvidenceProvider,
       app_getEvidence = snd planEvidenceProvider\<rparr>)"

text \<open>The calls of a client, as one type.\<close>

datatype use_case_call =
    CatalogList | CatalogGet string | ConnectorHealth string | InspectProject string
  | Route json | ResolvePolicy json | InspectLock json | SelectContext json | CreatePlan json | GetEvidence json

fun run_use_case :: "'s soren_application \<Rightarrow> protocol_metadata \<Rightarrow> use_case_call \<Rightarrow> 's use_case" where
  "run_use_case app meta CatalogList = app_catalogList app meta"
| "run_use_case app meta (CatalogGet i) = app_catalogGet app i meta"
| "run_use_case app meta (ConnectorHealth i) = app_connectorHealth app i meta"
| "run_use_case app meta (InspectProject p) = app_inspectProject app p None meta"
| "run_use_case app meta (Route r) = app_route app r meta"
| "run_use_case app meta (ResolvePolicy r) = app_resolvePolicy app r meta"
| "run_use_case app meta (InspectLock r) = app_inspectLock app r meta"
| "run_use_case app meta (SelectContext r) = app_selectContext app r meta"
| "run_use_case app meta (CreatePlan r) = app_createPlan app r meta"
| "run_use_case app meta (GetEvidence r) = app_getEvidence app r meta"

end
