(* ===== verification/Mcp_Surface.thy ===== *)
theory Mcp_Surface
  imports Web_Platform Protocol_Application
begin

text \<open>
  \<open>packages/protocol-server/src/mcp/surface.ts\<close>: the tools of the Model Context Protocol, each a
  use case of the application.
\<close>

record mcp_tool =
  mtool_name :: string
  mtool_description :: string
  mtool_readOnly :: bool
  mtool_available :: bool

record mcp_resource =
  mres_uri :: string
  mres_name :: string
  mres_mimeType :: string

record mcp_request =
  mreq_protocolVersion :: string
  mreq_toolName :: string
  mreq_arguments :: "json option"
  mreq_correlationId :: "string option"

record 's mcp_surface =
  mcp_protocolVersions :: "string list"
  mcp_tools :: "mcp_tool list"
  mcp_resources :: "mcp_resource list"
  mcp_callTool :: "mcp_request \<Rightarrow> 's use_case"

definition SUPPORTED_MCP_PROTOCOL_VERSIONS :: "string list" where
  "SUPPORTED_MCP_PROTOCOL_VERSIONS = [''2025-06-18'']"

definition mcp_tool_entry :: "string \<Rightarrow> string \<Rightarrow> bool \<Rightarrow> mcp_tool" where
  "mcp_tool_entry name description available = \<lparr>mtool_name = name, mtool_description = description,
     mtool_readOnly = True, mtool_available = available\<rparr>"

definition toolDescriptions :: "mcp_tool list" where
  "toolDescriptions =
    [mcp_tool_entry ''soren_catalog_list'' ''List Soren connectors.'' True,
     mcp_tool_entry ''soren_catalog_get'' ''Get a Soren connector by id.'' True,
     mcp_tool_entry ''soren_connector_health'' ''Inspect connector health.'' True,
     mcp_tool_entry ''soren_project_inspect'' ''Inspect a project snapshot.'' True,
     mcp_tool_entry ''soren_route'' ''Route a request through the application boundary.'' False,
     mcp_tool_entry ''soren_policy_resolve'' ''Resolve policy through the Phase 5 port.'' False,
     mcp_tool_entry ''soren_lock_inspect'' ''Inspect a Soren lock request.'' False,
     mcp_tool_entry ''soren_context_select'' ''Select context through the Phase 7 port.'' False,
     mcp_tool_entry ''soren_plan_create'' ''Create a plan through the Phase 8 port.'' False,
     mcp_tool_entry ''soren_evidence_query'' ''Query evidence through the Phase 8 port.'' False]"

definition assertVersion :: "string \<Rightarrow> thrown + unit" where
  "assertVersion protocolVersion = guard (protocolVersion \<notin> set SUPPORTED_MCP_PROTOCOL_VERSIONS)
     (ProtocolError ProtocolVersionUnsupported ''Unsupported MCP protocol version.''
       (Some (JObj [(''supported'', JArr (map JStr SUPPORTED_MCP_PROTOCOL_VERSIONS))])) 400)"

definition objectArgument :: "json option \<Rightarrow> thrown + (string \<times> json) list" where
  "objectArgument argumentsValue = (case argumentsValue of
     None \<Rightarrow> Inr []
   | Some (JObj kvs) \<Rightarrow> Inr kvs
   | Some _ \<Rightarrow> Inl (ProtocolError ValidationFailed ''MCP tool arguments must be an object.'' None 400))"

definition mcp_meta :: "string option \<Rightarrow> protocol_metadata" where
  "mcp_meta correlation = \<lparr>meta_correlationId = correlation, meta_surface = Some McpSurface\<rparr>"

definition mcp_call :: "'s soren_application \<Rightarrow> mcp_request \<Rightarrow> 's use_case" where
  "mcp_call app request s =
     proceed (check (assertVersion (mreq_protocolVersion request)) s) (\<lambda>_ s.
     proceed (check (objectArgument (mreq_arguments request)) s) (\<lambda>args s.
     let meta = mcp_meta (mreq_correlationId request); tool = mreq_toolName request in
     if tool = ''soren_catalog_list'' then app_catalogList app meta s
     else if tool = ''soren_catalog_get'' then
       proceed (check (lift_error (string_member ''id'' '''' args)) s) (\<lambda>i. app_catalogGet app i meta)
     else if tool = ''soren_connector_health'' then
       proceed (check (lift_error (string_member ''id'' '''' args)) s) (\<lambda>i. app_connectorHealth app i meta)
     else if tool = ''soren_project_inspect'' then
       proceed (check (lift_error (string_member ''path'' ''.'' args)) s) (\<lambda>p. app_inspectProject app p None meta)
     else if tool = ''soren_route'' then app_route app (JObj args) meta s
     else if tool = ''soren_policy_resolve'' then app_resolvePolicy app (JObj args) meta s
     else if tool = ''soren_lock_inspect'' then app_inspectLock app (JObj args) meta s
     else if tool = ''soren_context_select'' then app_selectContext app (JObj args) meta s
     else if tool = ''soren_plan_create'' then app_createPlan app (JObj args) meta s
     else if tool = ''soren_evidence_query'' then app_getEvidence app (JObj args) meta s
     else (Inl (ProtocolError MethodNotFound ''Unknown MCP tool.'' None 404), s)))"

definition createMcpSurface :: "'s soren_application \<Rightarrow> 's mcp_surface" where
  "createMcpSurface app = \<lparr>mcp_protocolVersions = SUPPORTED_MCP_PROTOCOL_VERSIONS,
     mcp_tools = toolDescriptions,
     mcp_resources =
       [\<lparr>mres_uri = ''soren://catalog/connectors'', mres_name = ''Soren connector catalog'',
          mres_mimeType = ''application/json''\<rparr>,
        \<lparr>mres_uri = ''soren://protocol/capabilities'', mres_name = ''Soren protocol capabilities'',
          mres_mimeType = ''application/json''\<rparr>],
     mcp_callTool = mcp_call app\<rparr>"

section \<open>A tool call is a use case\<close>

text \<open>
  What a request asks for, without the application: an error of the surface itself or a use case.
\<close>

definition mcp_use_case :: "mcp_request \<Rightarrow> thrown + use_case_call" where
  "mcp_use_case request =
     chain (assertVersion (mreq_protocolVersion request)) (\<lambda>_.
     chain (objectArgument (mreq_arguments request)) (\<lambda>args.
     let tool = mreq_toolName request; member = (\<lambda>key fallback. lift_error (string_member key fallback args)) in
     if tool = ''soren_catalog_list'' then Inr CatalogList
     else if tool = ''soren_catalog_get'' then chain (member ''id'' '''') (\<lambda>i. Inr (CatalogGet i))
     else if tool = ''soren_connector_health'' then chain (member ''id'' '''') (\<lambda>i. Inr (ConnectorHealth i))
     else if tool = ''soren_project_inspect'' then chain (member ''path'' ''.'') (\<lambda>p. Inr (InspectProject p))
     else if tool = ''soren_route'' then Inr (Route (JObj args))
     else if tool = ''soren_policy_resolve'' then Inr (ResolvePolicy (JObj args))
     else if tool = ''soren_lock_inspect'' then Inr (InspectLock (JObj args))
     else if tool = ''soren_context_select'' then Inr (SelectContext (JObj args))
     else if tool = ''soren_plan_create'' then Inr (CreatePlan (JObj args))
     else if tool = ''soren_evidence_query'' then Inr (GetEvidence (JObj args))
     else Inl (ProtocolError MethodNotFound ''Unknown MCP tool.'' None 404)))"

lemma mcp_call_use_case:
  "mcp_callTool (createMcpSurface app) request s =
    (case mcp_use_case request of Inl e \<Rightarrow> (Inl e, s)
     | Inr c \<Rightarrow> run_use_case app (mcp_meta (mreq_correlationId request)) c s)"
  by (simp add: createMcpSurface_def mcp_call_def mcp_use_case_def proceed_check chain_def Let_def
      split: sum.split)

text \<open>The request that stands for a use case.\<close>

fun mcp_tool_of :: "use_case_call \<Rightarrow> string" where
  "mcp_tool_of CatalogList = ''soren_catalog_list''"
| "mcp_tool_of (CatalogGet i) = ''soren_catalog_get''"
| "mcp_tool_of (ConnectorHealth i) = ''soren_connector_health''"
| "mcp_tool_of (InspectProject p) = ''soren_project_inspect''"
| "mcp_tool_of (Route r) = ''soren_route''"
| "mcp_tool_of (ResolvePolicy r) = ''soren_policy_resolve''"
| "mcp_tool_of (InspectLock r) = ''soren_lock_inspect''"
| "mcp_tool_of (SelectContext r) = ''soren_context_select''"
| "mcp_tool_of (CreatePlan r) = ''soren_plan_create''"
| "mcp_tool_of (GetEvidence r) = ''soren_evidence_query''"

fun mcp_arguments_of :: "use_case_call \<Rightarrow> json option" where
  "mcp_arguments_of CatalogList = None"
| "mcp_arguments_of (CatalogGet i) = Some (JObj [(''id'', JStr i)])"
| "mcp_arguments_of (ConnectorHealth i) = Some (JObj [(''id'', JStr i)])"
| "mcp_arguments_of (InspectProject p) = Some (JObj [(''path'', JStr p)])"
| "mcp_arguments_of (Route r) = Some r"
| "mcp_arguments_of (ResolvePolicy r) = Some r"
| "mcp_arguments_of (InspectLock r) = Some r"
| "mcp_arguments_of (SelectContext r) = Some r"
| "mcp_arguments_of (CreatePlan r) = Some r"
| "mcp_arguments_of (GetEvidence r) = Some r"

definition mcp_request_of :: "string option \<Rightarrow> use_case_call \<Rightarrow> mcp_request" where
  "mcp_request_of correlation c = \<lparr>mreq_protocolVersion = ''2025-06-18'', mreq_toolName = mcp_tool_of c,
     mreq_arguments = mcp_arguments_of c, mreq_correlationId = correlation\<rparr>"

definition object_body :: "use_case_call \<Rightarrow> bool" where
  "object_body c \<longleftrightarrow> (case mcp_arguments_of c of Some (JObj kvs) \<Rightarrow> True | None \<Rightarrow> True | _ \<Rightarrow> False)"

lemma mcp_use_case_request: "object_body c \<Longrightarrow> mcp_use_case (mcp_request_of correlation c) = Inr c"
  by (cases c) (auto simp: mcp_use_case_def mcp_request_of_def object_body_def assertVersion_def
      SUPPORTED_MCP_PROTOCOL_VERSIONS_def objectArgument_def string_member_def lift_error_def
      split: json.splits)

lemma mcp_tools_cover: "mcp_use_case request = Inr c \<Longrightarrow>
    mreq_toolName request = mcp_tool_of c \<and> mcp_tool_of c \<in> set (map mtool_name toolDescriptions)"
  by (auto simp: mcp_use_case_def result_simps toolDescriptions_def mcp_tool_entry_def Let_def split: if_splits)

end
