(* ===== verification/Rest_Router.thy ===== *)
theory Rest_Router
  imports Web_Platform Protocol_Application
begin

text \<open>
  \<open>packages/protocol-server/src/rest/router.ts\<close>: the HTTP handler in front of the application. A
  request is what node hands over, with the events of its body in their order; the environment
  holds the working directory, the URL parser for targets that are no path, and whether the
  timer of \<open>withTimeout\<close> fires before the operation ends (the operation runs on in that case,
  so that its effect on the state stays). Bytes and code units are both characters.
\<close>

section \<open>Requests\<close>

datatype body_event = Chunk string | Aborted | StreamError exn

record http_request =
  req_method :: "string option"
  req_url :: "string option"
  req_headers :: "(string \<times> string list) list"
  req_destroyed :: bool
  req_events :: "body_event list"

record http_response =
  resp_status :: int
  resp_headers :: "(string \<times> string) list"
  resp_body :: string

record http_env =
  env_cwd :: string
  env_absolute_url :: "string \<Rightarrow> string result"
  env_late :: bool

record 's rest_options =
  rest_application :: "'s soren_application"
  rest_authenticator :: "authenticator option"
  rest_authorizer :: "authorizer option"
  rest_allowedProjectRoots :: "string list option"
  rest_maxBodyBytes :: "int option"
  rest_timeoutMs :: "int option"

definition http_header :: "http_request \<Rightarrow> string \<Rightarrow> string option" where
  "http_header request name = map_option (js_join '','') (map_of (req_headers request) (map lower_char name))"

definition correlationId :: "http_request \<Rightarrow> string option" where
  "correlationId request = http_header request ''x-soren-correlation-id''"

definition sendJson :: "int \<Rightarrow> json \<Rightarrow> http_response" where
  "sendJson status v = \<lparr>resp_status = status,
     resp_headers = [(''content-type'', ''application/json; charset=utf-8'')],
     resp_body = utf8_encode (stringify v @ [CHR 0x0A])\<rparr>"

section \<open>The body\<close>

definition cancelled :: thrown where
  "cancelled = ProtocolError RequestCancelled ''Request was cancelled.'' None 499"

definition body_too_large :: "int \<Rightarrow> thrown" where
  "body_too_large maxBodyBytes = ProtocolError BodyTooLarge ''Request body exceeds the configured size limit.''
     (Some (JObj [(''maxBodyBytes'', JInt maxBodyBytes)])) 413"

fun read_chunks :: "int \<Rightarrow> bool \<Rightarrow> int \<Rightarrow> string \<Rightarrow> body_event list \<Rightarrow> thrown + string" where
  "read_chunks maxBodyBytes aborted seen chunks [] = Inr chunks"
| "read_chunks maxBodyBytes aborted seen chunks (Aborted # events) =
     read_chunks maxBodyBytes True seen chunks events"
| "read_chunks maxBodyBytes aborted seen chunks (StreamError e # events) =
     Inl (if aborted then cancelled else OtherError e)"
| "read_chunks maxBodyBytes aborted seen chunks (Chunk buffer # events) =
     (if aborted then Inl cancelled
      else let seen = seen + int (length buffer) in
        if maxBodyBytes < seen then Inl (body_too_large maxBodyBytes)
        else read_chunks maxBodyBytes aborted seen (chunks @ buffer) events)"

definition unsupported_content :: thrown where
  "unsupported_content = ProtocolError ContentTypeUnsupported ''POST requests require application/json content type.'' None 415"

definition invalid_body :: thrown where
  "invalid_body = ProtocolError ValidationFailed ''Request body is not valid JSON.'' None 400"

definition json_content :: "http_request \<Rightarrow> bool" where
  "json_content request \<longleftrightarrow> startsWith (map lower_char (case http_header request ''content-type'' of
     None \<Rightarrow> '''' | Some v \<Rightarrow> v)) ''application/json''"

definition readBody :: "http_request \<Rightarrow> int \<Rightarrow> thrown + json" where
  "readBody request maxBodyBytes =
     (if \<not> json_content request then Inl unsupported_content
      else chain (read_chunks maxBodyBytes (req_destroyed request) 0 '''' (req_events request)) (\<lambda>bytes.
        case parse_json (utf8_decode bytes) of None \<Rightarrow> Inl invalid_body | Some v \<Rightarrow> Inr v))"

section \<open>Paths, roots and authorization\<close>

definition requestPath :: "http_env \<Rightarrow> http_request \<Rightarrow> string result" where
  "requestPath env request =
     url_pathname (env_absolute_url env) (case req_url request of None \<Rightarrow> ''/'' | Some u \<Rightarrow> u)"

definition rest_meta :: "http_request \<Rightarrow> protocol_metadata" where
  "rest_meta request = \<lparr>meta_correlationId = correlationId request, meta_surface = Some RestSurface\<rparr>"

definition root_allowed :: "string \<Rightarrow> string \<Rightarrow> string list \<Rightarrow> bool" where
  "root_allowed cwd path allowedRoots \<longleftrightarrow>
     (let absolutePath = path_resolve cwd [path] in
      \<exists>root \<in> set (map (\<lambda>root. path_resolve cwd [root]) allowedRoots).
        absolutePath = root \<or> startsWith absolutePath (root @ ''/''))"

definition root_denied :: thrown where
  "root_denied = ProtocolError ProjectRootDenied
     ''Project inspection path is outside the configured allowlist.'' None 403"

definition assertAllowedProjectRoot :: "string \<Rightarrow> string \<Rightarrow> string list \<Rightarrow> thrown + unit" where
  "assertAllowedProjectRoot cwd path allowedRoots =
     (if allowedRoots = [] then Inr ()
      else guard (\<not> root_allowed cwd path allowedRoots) root_denied)"

definition authorize_request :: "authenticator \<Rightarrow> authorizer \<Rightarrow> incoming_request \<Rightarrow> string \<Rightarrow> string \<Rightarrow> thrown + unit" where
  "authorize_request authenticator authorizer request action resource =
     chain (authenticator request) (\<lambda>principal.
     let decision = authorizer principal action resource in
     guard (\<not> dec_allowed decision) (ProtocolError AuthorizationDenied
       (case dec_reason decision of None \<Rightarrow> ''Request is not authorized.'' | Some r \<Rightarrow> r) None 403))"

definition routeName :: "string \<Rightarrow> string" where
  "routeName path =
     (let rest = (if startsWith path ''/v1/'' then drop 4 path else path);
          leaf = takeWhile (\<lambda>c. c \<noteq> CHR ''/'') (rev rest)
      in if CHR ''/'' \<in> set rest \<and> leaf \<noteq> [] then take (length rest - length leaf - 1) rest else rest)"

text \<open>The two patterns with an id.\<close>

definition catalog_match :: "string \<Rightarrow> string option" where
  "catalog_match path =
     (let p = ''/v1/catalog/connectors/''; rest = drop (length p) path in
      if startsWith path p \<and> rest \<noteq> '''' \<and> CHR ''/'' \<notin> set rest then Some rest else None)"

definition health_match :: "string \<Rightarrow> string option" where
  "health_match path =
     (let p = ''/v1/connectors/''; rest = drop (length p) path;
          seg = takeWhile (\<lambda>c. c \<noteq> CHR ''/'') rest in
      if startsWith path p \<and> seg \<noteq> '''' \<and> drop (length seg) rest = ''/health'' then Some seg else None)"

section \<open>The handler\<close>

definition uri_error :: thrown where
  "uri_error = OtherError (Exn ''URIError'' '''' ''URI malformed'')"

definition decoded :: "string \<Rightarrow> thrown + string" where
  "decoded text = (case decodeURIComponent text of None \<Rightarrow> Inl uri_error | Some i \<Rightarrow> Inr i)"

definition unsupported_endpoint :: thrown where
  "unsupported_endpoint = ProtocolError MethodNotFound ''Unsupported REST endpoint.'' None 404"

definition health_data :: json where
  "health_data = JObj [(''status'', JStr ''ok''), (''versions'', JArr [JStr ''1.0.0-draft.1''])]"

definition body_members :: "json \<Rightarrow> thrown + (string \<times> json) list" where
  "body_members body = (case body of JObj kvs \<Rightarrow> Inr kvs
   | _ \<Rightarrow> Inl (ProtocolError ValidationFailed ''Project inspection body must be an object.'' None 400))"

text \<open>The use cases of a posted body.\<close>

definition post_operation :: "http_env \<Rightarrow> 's rest_options \<Rightarrow> protocol_metadata \<Rightarrow> string \<Rightarrow> json \<Rightarrow> 's use_case" where
  "post_operation env options meta path body s =
     (let app = rest_application options in
      if path = ''/v1/projects/inspect'' then
        proceed (check (body_members body) s) (\<lambda>kvs s.
        proceed (check (lift_error (string_member ''path'' '''' kvs)) s) (\<lambda>projectPath s.
        proceed (check (assertAllowedProjectRoot (env_cwd env) projectPath
          (case rest_allowedProjectRoots options of None \<Rightarrow> [] | Some rs \<Rightarrow> rs)) s) (\<lambda>_.
        app_inspectProject app projectPath None meta)))
      else if path = ''/v1/routes'' then app_route app body meta s
      else if path = ''/v1/policy/resolve'' then app_resolvePolicy app body meta s
      else if path = ''/v1/locks/inspect'' then app_inspectLock app body meta s
      else if path = ''/v1/context/select'' then app_selectContext app body meta s
      else if path = ''/v1/plans'' then app_createPlan app body meta s
      else if path = ''/v1/evidence/query'' then app_getEvidence app body meta s
      else (Inl unsupported_endpoint, s))"

definition rest_operation :: "http_env \<Rightarrow> 's rest_options \<Rightarrow> http_request \<Rightarrow> string \<Rightarrow> 's use_case" where
  "rest_operation env options request path s =
     (let authenticator = (case rest_authenticator options of None \<Rightarrow> AnonymousAuthenticator | Some a \<Rightarrow> a);
          authorizer = (case rest_authorizer options of None \<Rightarrow> AllowReadOnlyAuthorizer | Some a \<Rightarrow> a);
          app = rest_application options;
          meta = rest_meta request;
          protocolRequest = incomingRequest (case req_method request of None \<Rightarrow> ''GET'' | Some m \<Rightarrow> m) path
            [(''content-type'', http_header request ''content-type''),
             (''x-soren-correlation-id'', meta_correlationId meta)];
          authorize = authorize_request authenticator authorizer protocolRequest;
          get = (req_method request = Some ''GET'') in
      if get \<and> path = ''/v1/health'' then
        proceed (check (authorize ''health:read'' ''health'') s) (\<lambda>_. check (Inr health_data))
      else if get \<and> path = ''/v1/catalog/connectors'' then
        proceed (check (authorize ''catalog:read'' ''catalog'') s) (\<lambda>_. app_catalogList app meta)
      else if get \<and> catalog_match path \<noteq> None then
        proceed (check (authorize ''catalog:read'' (routeName path)) s) (\<lambda>_ s.
        proceed (check (decoded (the (catalog_match path))) s) (\<lambda>i. app_catalogGet app i meta))
      else if get \<and> health_match path \<noteq> None then
        proceed (check (authorize ''connector:read'' (routeName path)) s) (\<lambda>_ s.
        proceed (check (decoded (the (health_match path))) s) (\<lambda>i. app_connectorHealth app i meta))
      else if req_method request \<noteq> Some ''POST'' then (Inl unsupported_endpoint, s)
      else
        proceed (check (readBody request (case rest_maxBodyBytes options of None \<Rightarrow> 1048576 | Some n \<Rightarrow> n)) s) (\<lambda>body s.
        proceed (check (authorize (routeName path @ '':read'') (routeName path)) s) (\<lambda>_.
        post_operation env options meta path body)))"

definition withTimeout :: "bool \<Rightarrow> int \<Rightarrow> (thrown + 'a) \<times> 's \<Rightarrow> (thrown + 'a) \<times> 's" where
  "withTimeout late timeoutMs r =
     (if late then (Inl (ProtocolError RequestTimeout ''Request exceeded the configured timeout.''
        (Some (JObj [(''timeoutMs'', JInt timeoutMs)])) 504), snd r) else r)"

text \<open>A target the URL parser rejects throws outside the handler's \<open>try\<close>.\<close>

definition rest_handler :: "http_env \<Rightarrow> 's rest_options \<Rightarrow> http_request \<Rightarrow> 's \<Rightarrow> http_response result \<times> 's" where
  "rest_handler env options request s =
     (case requestPath env request of
        Inl e \<Rightarrow> (Inl e, s)
      | Inr path \<Rightarrow>
          let meta = rest_meta request;
              outcome = withTimeout (env_late env)
                (case rest_timeoutMs options of None \<Rightarrow> 10000 | Some n \<Rightarrow> n)
                (rest_operation env options request path s)
          in (case fst outcome of
                Inr data \<Rightarrow> (Inr (sendJson 200 (okEnvelope data meta)), snd outcome)
              | Inl e \<Rightarrow> (Inr (sendJson (pe_status (toProtocolError e)) (errorEnvelope (toProtocolError e) meta)),
                  snd outcome)))"

end
