(* ===== verification/Sdk_Client.thy ===== *)
theory Sdk_Client
  imports Rest_Router
begin

text \<open>
  \<open>packages/sdk/src/client.ts\<close>: the client in front of the application in the same process, and
  the one that speaks HTTP through a \<open>fetch\<close> given to it.
\<close>

record fetch_request =
  fetch_url :: string
  fetch_method :: string
  fetch_headers :: "(string \<times> string) list"
  fetch_body :: "string option"

type_synonym 's fetch = "fetch_request \<Rightarrow> 's \<Rightarrow> http_response result \<times> 's"

text \<open>What a client returns; \<open>None\<close> is \<open>undefined\<close>.\<close>

type_synonym 's client_call = "'s \<Rightarrow> (thrown + json option) \<times> 's"

record 's soren_client =
  client_catalog_list :: "'s client_call"
  client_catalog_get :: "string \<Rightarrow> 's client_call"
  client_connectors_health :: "string \<Rightarrow> 's client_call"
  client_projects_inspect :: "string \<Rightarrow> 's client_call"
  client_routes_create :: "json \<Rightarrow> 's client_call"
  client_policy_resolve :: "json \<Rightarrow> 's client_call"
  client_locks_inspect :: "json \<Rightarrow> 's client_call"
  client_context_select :: "json \<Rightarrow> 's client_call"
  client_plans_create :: "json \<Rightarrow> 's client_call"
  client_evidence_get :: "json \<Rightarrow> 's client_call"

section \<open>Replies\<close>

fun truthy :: "json \<Rightarrow> bool" where
  "truthy JNull = False"
| "truthy (JBool b) = b"
| "truthy (JInt i) = (i \<noteq> 0)"
| "truthy (JStr s) = (s \<noteq> '''')"
| "truthy v = True"

definition members :: "json \<Rightarrow> (string \<times> json) list" where
  "members v = (case v of JObj kvs \<Rightarrow> kvs | _ \<Rightarrow> [])"

text \<open>\<open>v.key\<close>, and the members of it; \<open>null\<close> and \<open>undefined\<close> have none.\<close>

definition property_of :: "json option \<Rightarrow> string \<Rightarrow> json option result" where
  "property_of v key = (case v of
     None \<Rightarrow> Inl (TypeError (''Cannot read properties of undefined (reading '' @ [CHR 0x27] @ key @ [CHR 0x27] @ '')''))
   | Some JNull \<Rightarrow> Inl (TypeError (''Cannot read properties of null (reading '' @ [CHR 0x27] @ key @ [CHR 0x27] @ '')''))
   | Some j \<Rightarrow> Inr (map_of (members j) key))"

text \<open>
  The code of a reply is typed as a string and kept as it is: another value stands here as its
  JSON text. The message is converted by the constructor of \<open>Error\<close>.
\<close>

definition code_text :: "json option \<Rightarrow> string" where
  "code_text v = (case v of None \<Rightarrow> ''undefined'' | Some (JStr s) \<Rightarrow> s | Some j \<Rightarrow> stringify j)"

definition message_text :: "json option \<Rightarrow> string result" where
  "message_text v = (case v of None \<Rightarrow> Inr '''' | Some j \<Rightarrow> js_string j)"

definition json_syntax_error :: exn where
  "json_syntax_error = Exn ''SyntaxError'' '''' ''Unexpected token in JSON''"

definition readEnvelope :: "http_response \<Rightarrow> thrown + json option" where
  "readEnvelope response =
     (case parse_json (utf8_decode (resp_body response)) of
        None \<Rightarrow> Inl (OtherError json_syntax_error)
      | Some envelope \<Rightarrow>
          chain (lift_error (property_of (Some envelope) ''ok'')) (\<lambda>ok.
          if ok \<noteq> None \<and> truthy (the ok) then lift_error (property_of (Some envelope) ''data'')
          else
            chain (lift_error (property_of (Some envelope) ''error'')) (\<lambda>error.
            chain (lift_error (property_of error ''code'')) (\<lambda>code.
            chain (lift_error (property_of error ''message'')) (\<lambda>message.
            chain (lift_error (property_of error ''details'')) (\<lambda>details.
            chain (lift_error (message_text message)) (\<lambda>text.
            Inl (Protocol \<lparr>pe_code = code_text code, pe_message = text, pe_details = details,
              pe_status = resp_status response\<rparr>))))))))"

section \<open>The clients\<close>

definition jsonHeaders :: "string option \<Rightarrow> (string \<times> string) list" where
  "jsonHeaders correlation = (''content-type'', ''application/json'') #
     (case correlation of None \<Rightarrow> [] | Some i \<Rightarrow> [(''x-soren-correlation-id'', i)])"

definition client_base :: "string \<Rightarrow> string" where
  "client_base baseUrl = (if endsWith baseUrl ''/'' then butlast baseUrl else baseUrl)"

definition answer :: "http_response result \<times> 's \<Rightarrow> (thrown + json option) \<times> 's" where
  "answer r = (chain (lift_error (fst r)) readEnvelope, snd r)"

definition client_get :: "string \<Rightarrow> string option \<Rightarrow> 's fetch \<Rightarrow> string \<Rightarrow> 's client_call" where
  "client_get baseUrl correlation fetch path s =
     answer (fetch \<lparr>fetch_url = client_base baseUrl @ path, fetch_method = ''GET'',
       fetch_headers = (case correlation of None \<Rightarrow> [] | Some i \<Rightarrow> [(''x-soren-correlation-id'', i)]),
       fetch_body = None\<rparr> s)"

definition client_post :: "string \<Rightarrow> string option \<Rightarrow> 's fetch \<Rightarrow> string \<Rightarrow> json \<Rightarrow> 's client_call" where
  "client_post baseUrl correlation fetch path body s =
     answer (fetch \<lparr>fetch_url = client_base baseUrl @ path, fetch_method = ''POST'',
       fetch_headers = jsonHeaders correlation, fetch_body = Some (stringify body)\<rparr> s)"

definition createHttpClient :: "string \<Rightarrow> string option \<Rightarrow> 's fetch \<Rightarrow> 's soren_client" where
  "createHttpClient baseUrl correlation fetch =
     (let get = client_get baseUrl correlation fetch; post = client_post baseUrl correlation fetch in
      \<lparr>client_catalog_list = get ''/v1/catalog/connectors'',
       client_catalog_get = (\<lambda>i. get (''/v1/catalog/connectors/'' @ encodeURIComponent i)),
       client_connectors_health = (\<lambda>i. get (''/v1/connectors/'' @ encodeURIComponent i @ ''/health'')),
       client_projects_inspect = (\<lambda>path. post ''/v1/projects/inspect'' (JObj [(''path'', JStr path)])),
       client_routes_create = post ''/v1/routes'',
       client_policy_resolve = post ''/v1/policy/resolve'',
       client_locks_inspect = post ''/v1/locks/inspect'',
       client_context_select = post ''/v1/context/select'',
       client_plans_create = post ''/v1/plans'',
       client_evidence_get = post ''/v1/evidence/query''\<rparr>)"

definition defined_result :: "(thrown + json) \<times> 's \<Rightarrow> (thrown + json option) \<times> 's" where
  "defined_result r = (map_sum id Some (fst r), snd r)"

definition in_process_meta :: protocol_metadata where
  "in_process_meta = \<lparr>meta_correlationId = None, meta_surface = Some SdkInProcessSurface\<rparr>"

definition createInProcessClient :: "'s soren_application \<Rightarrow> 's soren_client" where
  "createInProcessClient app =
     (let meta = in_process_meta in
      \<lparr>client_catalog_list = (\<lambda>s. defined_result (app_catalogList app meta s)),
       client_catalog_get = (\<lambda>i s. defined_result (app_catalogGet app i meta s)),
       client_connectors_health = (\<lambda>i s. defined_result (app_connectorHealth app i meta s)),
       client_projects_inspect = (\<lambda>path s. defined_result (app_inspectProject app path None meta s)),
       client_routes_create = (\<lambda>r s. defined_result (app_route app r meta s)),
       client_policy_resolve = (\<lambda>r s. defined_result (app_resolvePolicy app r meta s)),
       client_locks_inspect = (\<lambda>r s. defined_result (app_inspectLock app r meta s)),
       client_context_select = (\<lambda>r s. defined_result (app_selectContext app r meta s)),
       client_plans_create = (\<lambda>r s. defined_result (app_createPlan app r meta s)),
       client_evidence_get = (\<lambda>r s. defined_result (app_getEvidence app r meta s))\<rparr>)"

datatype 's client_options = InProcess "'s soren_application" | Http string "string option" "'s fetch"

definition createSorenClient :: "'s client_options \<Rightarrow> 's soren_client" where
  "createSorenClient options = (case options of
     InProcess app \<Rightarrow> createInProcessClient app
   | Http baseUrl correlation fetch \<Rightarrow> createHttpClient baseUrl correlation fetch)"

text \<open>The method of a client for each use case.\<close>

fun client_run :: "'s soren_client \<Rightarrow> use_case_call \<Rightarrow> 's client_call" where
  "client_run client CatalogList = client_catalog_list client"
| "client_run client (CatalogGet i) = client_catalog_get client i"
| "client_run client (ConnectorHealth i) = client_connectors_health client i"
| "client_run client (InspectProject p) = client_projects_inspect client p"
| "client_run client (Route r) = client_routes_create client r"
| "client_run client (ResolvePolicy r) = client_policy_resolve client r"
| "client_run client (InspectLock r) = client_locks_inspect client r"
| "client_run client (SelectContext r) = client_context_select client r"
| "client_run client (CreatePlan r) = client_plans_create client r"
| "client_run client (GetEvidence r) = client_evidence_get client r"

lemma in_process_run:
  "client_run (createInProcessClient app) c s = defined_result (run_use_case app in_process_meta c s)"
  by (cases c) (simp_all add: createInProcessClient_def Let_def)

section \<open>A connection to the handler\<close>

text \<open>
  The \<open>fetch\<close> of a client whose base is served by a handler: the target of the request is the path
  of its URL, and its body arrives in \<open>pieces\<close> the network chooses. Header values are taken
  as they are, which holds of printable ones. A handler that throws never answers.
\<close>

definition sent_request :: "(string \<Rightarrow> string list) \<Rightarrow> string \<Rightarrow> fetch_request \<Rightarrow> http_request" where
  "sent_request pieces target request = \<lparr>req_method = Some (fetch_method request), req_url = Some target,
     req_headers = map (\<lambda>h. (fst h, [snd h])) (fetch_headers request), req_destroyed = False,
     req_events = (case fetch_body request of None \<Rightarrow> [] | Some body \<Rightarrow> map Chunk (pieces (utf8_encode body)))\<rparr>"

definition served_by :: "string \<Rightarrow> (string \<Rightarrow> string list) \<Rightarrow> (string \<Rightarrow> string result) \<Rightarrow>
    (http_request \<Rightarrow> 's \<Rightarrow> http_response result \<times> 's) \<Rightarrow> 's fetch" where
  "served_by base pieces absolute handler request s =
     (if \<not> startsWith (fetch_url request) base then (Inl (TypeError ''fetch failed''), s)
      else case url_pathname absolute (drop (length base) (fetch_url request)) of
        Inl e \<Rightarrow> (Inl (TypeError ''fetch failed''), s)
      | Inr target \<Rightarrow> handler (sent_request pieces target request) s)"

end
