(* ===== verification/Protocol_Correctness.thy ===== *)
theory Protocol_Correctness
  imports Mcp_Surface Sdk_Client
begin

text \<open>
  What the surfaces add to the application and what they do not: the body is read as a whole, no
  request reaches the application unauthorised or outside the allowed roots, and all surfaces
  return the same.
\<close>

section \<open>Reading a body\<close>

lemma read_chunks_pieces:
  assumes "0 \<le> n"
  shows "read_chunks maxBodyBytes False n chunks (map Chunk pieces) =
    (if pieces \<noteq> [] \<and> maxBodyBytes < n + int (length (concat pieces)) then Inl (body_too_large maxBodyBytes)
     else Inr (chunks @ concat pieces))"
  using assms
  by (induction pieces arbitrary: n chunks) (auto simp: Let_def)

text \<open>An aborted request is never read to the end of a further piece.\<close>

lemma read_chunks_aborted:
  "read_chunks maxBodyBytes True n chunks events = Inr bytes \<Longrightarrow>
    bytes = chunks \<and> (\<forall>event \<in> set events. event = Aborted)"
  by (induction maxBodyBytes True n chunks events rule: read_chunks.induct) auto

section \<open>What a request asks for\<close>

text \<open>
  A request without the application: an error, the health of the server (\<open>None\<close>) or a use case.
\<close>

definition post_use_case :: "http_env \<Rightarrow> 's rest_options \<Rightarrow> string \<Rightarrow> json \<Rightarrow> thrown + use_case_call" where
  "post_use_case env options path body =
     (if path = ''/v1/projects/inspect'' then
        chain (body_members body) (\<lambda>kvs.
        chain (lift_error (string_member ''path'' '''' kvs)) (\<lambda>projectPath.
        chain (assertAllowedProjectRoot (env_cwd env) projectPath
          (case rest_allowedProjectRoots options of None \<Rightarrow> [] | Some rs \<Rightarrow> rs)) (\<lambda>_.
        Inr (InspectProject projectPath))))
      else if path = ''/v1/routes'' then Inr (Route body)
      else if path = ''/v1/policy/resolve'' then Inr (ResolvePolicy body)
      else if path = ''/v1/locks/inspect'' then Inr (InspectLock body)
      else if path = ''/v1/context/select'' then Inr (SelectContext body)
      else if path = ''/v1/plans'' then Inr (CreatePlan body)
      else if path = ''/v1/evidence/query'' then Inr (GetEvidence body)
      else Inl unsupported_endpoint)"

definition options_authorize :: "'s rest_options \<Rightarrow> http_request \<Rightarrow> string \<Rightarrow> string \<Rightarrow> string \<Rightarrow> thrown + unit" where
  "options_authorize options request path =
     authorize_request (case rest_authenticator options of None \<Rightarrow> AnonymousAuthenticator | Some a \<Rightarrow> a)
       (case rest_authorizer options of None \<Rightarrow> AllowReadOnlyAuthorizer | Some a \<Rightarrow> a)
       (incomingRequest (case req_method request of None \<Rightarrow> ''GET'' | Some m \<Rightarrow> m) path
         [(''content-type'', http_header request ''content-type''),
          (''x-soren-correlation-id'', meta_correlationId (rest_meta request))])"

definition rest_use_case :: "http_env \<Rightarrow> 's rest_options \<Rightarrow> http_request \<Rightarrow> string \<Rightarrow> thrown + use_case_call option" where
  "rest_use_case env options request path =
     (let authorize = options_authorize options request path; get = (req_method request = Some ''GET'') in
      if get \<and> path = ''/v1/health'' then chain (authorize ''health:read'' ''health'') (\<lambda>_. Inr None)
      else if get \<and> path = ''/v1/catalog/connectors'' then
        chain (authorize ''catalog:read'' ''catalog'') (\<lambda>_. Inr (Some CatalogList))
      else if get \<and> catalog_match path \<noteq> None then
        chain (authorize ''catalog:read'' (routeName path)) (\<lambda>_.
        chain (decoded (the (catalog_match path))) (\<lambda>i. Inr (Some (CatalogGet i))))
      else if get \<and> health_match path \<noteq> None then
        chain (authorize ''connector:read'' (routeName path)) (\<lambda>_.
        chain (decoded (the (health_match path))) (\<lambda>i. Inr (Some (ConnectorHealth i))))
      else if req_method request \<noteq> Some ''POST'' then Inl unsupported_endpoint
      else
        chain (readBody request (case rest_maxBodyBytes options of None \<Rightarrow> 1048576 | Some n \<Rightarrow> n)) (\<lambda>body.
        chain (authorize (routeName path @ '':read'') (routeName path)) (\<lambda>_.
        map_sum id Some (post_use_case env options path body))))"

definition run_target :: "'s rest_options \<Rightarrow> http_request \<Rightarrow> thrown + use_case_call option \<Rightarrow> 's use_case" where
  "run_target options request target s = (case target of
     Inl e \<Rightarrow> (Inl e, s)
   | Inr None \<Rightarrow> (Inr health_data, s)
   | Inr (Some c) \<Rightarrow> run_use_case (rest_application options) (rest_meta request) c s)"

lemma run_target_if:
  "run_target options request (if b then t else u) = (if b then run_target options request t else run_target options request u)"
  by simp

lemma run_target_chain:
  "run_target options request (chain r f) = (\<lambda>s. proceed (check r s) (\<lambda>x. run_target options request (f x)))"
  by (cases r) (simp_all add: run_target_def check_def fun_eq_iff)

lemma run_target_simps:
  "run_target options request (Inl e) = (\<lambda>s. (Inl e, s))"
  "run_target options request (Inr None) = check (Inr health_data)"
  "run_target options request (Inr (Some c)) = run_use_case (rest_application options) (rest_meta request) c"
  by (simp_all add: run_target_def check_def fun_eq_iff)

lemma post_operation_target:
  "post_operation env options (rest_meta request) path body s =
    run_target options request (map_sum id Some (post_use_case env options path body)) s"
proof (cases "path = ''/v1/projects/inspect''")
  case True
  show ?thesis
    unfolding post_operation_def post_use_case_def Let_def if_P [OF True] proceed_check
    by (auto simp: run_target_def chain_def split: sum.split)
next
  case False
  then show ?thesis
    unfolding post_operation_def post_use_case_def Let_def if_not_P [OF False]
    by (simp only: if_distrib [of "map_sum id Some"] if_distrib [of "run_target options request"] if_distribR
        map_sum.simps id_apply run_target_def sum.case option.case run_use_case.simps)
qed

lemma rest_operation_target:
  "rest_operation env options request path s = run_target options request (rest_use_case env options request path) s"
  unfolding rest_operation_def rest_use_case_def Let_def options_authorize_def [symmetric] post_operation_target
  by (simp only: run_target_if run_target_chain run_target_simps run_use_case.simps if_distribR)

section \<open>Authorization\<close>

text \<open>
  The action and the resource each use case needs over REST, written out. The health of a connector
  is read under the path of the connector, as the client spelled it.
\<close>

fun required_grant :: "string \<Rightarrow> use_case_call \<Rightarrow> string \<times> string" where
  "required_grant path CatalogList = (''catalog:read'', ''catalog'')"
| "required_grant path (CatalogGet i) = (''catalog:read'', ''catalog/connectors'')"
| "required_grant path (ConnectorHealth i) = (''connector:read'',
     take (length path - length ''/v1/'' - length ''/health'') (drop (length ''/v1/'') path))"
| "required_grant path (InspectProject p) = (''projects:read'', ''projects'')"
| "required_grant path (Route body) = (''routes:read'', ''routes'')"
| "required_grant path (ResolvePolicy body) = (''policy:read'', ''policy'')"
| "required_grant path (InspectLock body) = (''locks:read'', ''locks'')"
| "required_grant path (SelectContext body) = (''context:read'', ''context'')"
| "required_grant path (CreatePlan body) = (''plans:read'', ''plans'')"
| "required_grant path (GetEvidence body) = (''evidence:read'', ''evidence'')"

definition granted :: "'s rest_options \<Rightarrow> http_request \<Rightarrow> string \<Rightarrow> use_case_call \<Rightarrow> bool" where
  "granted options request path c \<longleftrightarrow>
     options_authorize options request path (fst (required_grant path c)) (snd (required_grant path c)) = Inr ()"

lemma routeName_leaf:
  assumes "leaf \<noteq> ''''" and "CHR ''/'' \<notin> set leaf"
  shows "routeName (''/v1/'' @ dir @ CHR ''/'' # leaf) = dir"
proof -
  have leaf: "takeWhile (\<lambda>c. c \<noteq> CHR ''/'') (rev (dir @ CHR ''/'' # leaf)) = rev leaf"
    using assms(2) by (auto simp: takeWhile_append2 takeWhile_tail)
  have "startsWith (''/v1/'' @ dir @ CHR ''/'' # leaf) ''/v1/''" by (simp add: startsWith_def)
  moreover have "drop 4 (''/v1/'' @ dir @ CHR ''/'' # leaf) = dir @ CHR ''/'' # leaf" by simp
  ultimately show ?thesis using assms(1) unfolding routeName_def Let_def by (simp only: if_True leaf) simp
qed

lemma catalog_match_routeName:
  assumes "catalog_match path \<noteq> None" shows "routeName path = ''catalog/connectors''"
proof -
  have "startsWith path ''/v1/catalog/connectors/''"
    using assms by (simp add: catalog_match_def Let_def split: if_splits)
  then obtain rest where path: "path = ''/v1/'' @ ''catalog/connectors'' @ CHR ''/'' # rest"
    by (auto simp: startsWith_prefix prefix_def)
  have "rest \<noteq> ''''" "CHR ''/'' \<notin> set rest"
    using assms by (simp_all add: catalog_match_def Let_def path split: if_splits)
  then show ?thesis unfolding path by (rule routeName_leaf)
qed

lemma health_match_path:
  assumes "health_match path \<noteq> None"
  shows "\<exists>seg. path = ''/v1/'' @ (''connectors/'' @ seg) @ ''/health''"
proof -
  have "startsWith path ''/v1/connectors/''"
    using assms by (simp add: health_match_def Let_def split: if_splits)
  then obtain rest where path: "path = ''/v1/connectors/'' @ rest"
    by (auto simp: startsWith_prefix prefix_def)
  define seg where "seg = takeWhile (\<lambda>c. c \<noteq> CHR ''/'') rest"
  have leaf: "drop (length seg) rest = ''/health''"
    using assms by (simp add: health_match_def Let_def path seg_def split: if_splits)
  have "seg @ drop (length seg) rest = rest"
    unfolding seg_def by (simp flip: dropWhile_eq_drop)
  then have rest: "seg @ ''/health'' = rest" unfolding leaf .
  have "path = ''/v1/'' @ (''connectors/'' @ seg) @ ''/health''" unfolding path rest [symmetric] by simp
  then show ?thesis by (rule exI [where x = seg])
qed

lemma health_match_routeName:
  assumes "health_match path \<noteq> None"
  shows "required_grant path (ConnectorHealth i) = (''connector:read'', routeName path)"
proof -
  obtain seg where path: "path = ''/v1/'' @ (''connectors/'' @ seg) @ ''/health''"
    using health_match_path [OF assms] by blast
  have "routeName path = ''connectors/'' @ seg"
    using routeName_leaf [of "''health''" "''connectors/'' @ seg"] unfolding path by simp
  then show ?thesis by (simp add: path)
qed

lemma routeName_posts: "routeName ''/v1/projects/inspect'' = ''projects''" "routeName ''/v1/routes'' = ''routes''"
  "routeName ''/v1/policy/resolve'' = ''policy''" "routeName ''/v1/locks/inspect'' = ''locks''"
  "routeName ''/v1/context/select'' = ''context''" "routeName ''/v1/plans'' = ''plans''"
  "routeName ''/v1/evidence/query'' = ''evidence''"
  by code_simp+

lemma post_use_case_granted:
  assumes "post_use_case env options path body = Inr c"
  shows "required_grant path c = (routeName path @ '':read'', routeName path)"
proof -
  have "path \<in> {''/v1/projects/inspect'', ''/v1/routes'', ''/v1/policy/resolve'', ''/v1/locks/inspect'',
      ''/v1/context/select'', ''/v1/plans'', ''/v1/evidence/query''}"
    using assms unfolding post_use_case_def by (simp split: if_splits)
  then show ?thesis
    using assms by (auto simp: post_use_case_def result_simps routeName_posts)
qed

lemma map_sum_Some: "map_sum id Some r = Inr (Some c) \<longleftrightarrow> r = Inr c"
  by (cases r) simp_all

lemma map_sum_None: "map_sum id Some r \<noteq> Inr None"
  by (cases r) simp_all

lemma rest_use_case_granted:
  assumes "rest_use_case env options request path = Inr (Some c)"
  shows "granted options request path c"
  using assms catalog_match_routeName [of path] health_match_routeName [of path]
  by (auto simp: rest_use_case_def granted_def result_simps Let_def map_sum_Some
      dest!: post_use_case_granted simp del: required_grant.simps(3) split: if_splits)

lemma rest_use_case_health:
  "rest_use_case env options request path = Inr None \<Longrightarrow>
     path = ''/v1/health'' \<and> options_authorize options request ''/v1/health'' ''health:read'' ''health'' = Inr ()"
  by (auto simp: rest_use_case_def result_simps Let_def map_sum_None split: if_splits)

lemma endsWith_append [simp]: "endsWith (s @ w) w"
  by (simp add: endsWith_def)

section \<open>Allowed roots\<close>

lemma split_append: "js_split c (s @ c # t) = js_split c s @ js_split c t"
  by (induction s) (auto split: list.split)

lemma resolved_absolute:
  assumes "isAbsolute cwd"
  obtains segs where "plain_segments segs" "path_resolve cwd [p] = CHR ''/'' # slash_join segs"
proof -
  let ?path = "resolve_from (rev [cwd, p]) ''''"
  have abs: "isAbsolute ?path" using assms by (cases cwd) simp_all
  then have "path_resolve cwd [p] = CHR ''/'' # slash_join (path_segments ?path)"
    by (simp add: path_resolve_def Let_def)
  then show thesis using that [OF plain_absolute [OF abs]] by simp
qed

lemma starts_below:
  assumes "plain_segments root" and "plain_segments path"
    and "startsWith (CHR ''/'' # slash_join path) ((CHR ''/'' # slash_join root) @ ''/'')"
  shows "prefix root path"
proof (cases "root = []")
  case False
  obtain rest where rest: "slash_join path = slash_join root @ CHR ''/'' # rest"
    using assms(3) by (auto simp: startsWith_prefix prefix_def)
  then have "path \<noteq> []" by (auto simp: slash_join_def)
  then have "path = js_split (CHR ''/'') (slash_join path)"
    using assms(2) by (simp add: slash_join_def js_split_join plain_segments_def)
  also have "\<dots> = root @ js_split (CHR ''/'') rest"
    using False assms(1) unfolding rest split_append
    by (simp add: slash_join_def js_split_join plain_segments_def)
  finally show ?thesis by (metis prefixI)
qed simp

definition path_below :: "string \<Rightarrow> string \<Rightarrow> string \<Rightarrow> bool" where
  "path_below cwd root path \<longleftrightarrow>
     prefix (path_segments (path_resolve cwd [root])) (path_segments (path_resolve cwd [path]))"

lemma allowed_root_below:
  assumes "isAbsolute cwd" and "assertAllowedProjectRoot cwd path roots = Inr u"
  shows "roots = [] \<or> (\<exists>root \<in> set roots. path_below cwd root path)"
proof (cases "roots = []")
  case False
  then have "root_allowed cwd path roots" using assms(2) by (simp add: assertAllowedProjectRoot_def)
  then obtain root where root: "root \<in> set roots"
    and inside: "path_resolve cwd [path] = path_resolve cwd [root] \<or>
      startsWith (path_resolve cwd [path]) (path_resolve cwd [root] @ ''/'')"
    by (auto simp: root_allowed_def Let_def)
  obtain r where r: "plain_segments r" "path_resolve cwd [root] = CHR ''/'' # slash_join r"
    using resolved_absolute [OF assms(1)] .
  obtain p where p: "plain_segments p" "path_resolve cwd [path] = CHR ''/'' # slash_join p"
    using resolved_absolute [OF assms(1)] .
  have "path_below cwd root path"
    using inside
  proof
    assume "startsWith (path_resolve cwd [path]) (path_resolve cwd [root] @ ''/'')"
    then have "prefix r p" using starts_below [OF r(1) p(1)] r(2) p(2) by simp
    then show ?thesis using r p by (simp add: path_below_def path_segments_absolute)
  qed (simp add: path_below_def)
  then show ?thesis using root by blast
qed simp

lemma post_use_case_inspect:
  assumes "post_use_case env options path body = Inr (InspectProject p)" and "isAbsolute (env_cwd env)"
  shows "rest_allowedProjectRoots options \<in> {None, Some []} \<or>
    (\<exists>root \<in> set (the (rest_allowedProjectRoots options)). path_below (env_cwd env) root p)"
  using assms allowed_root_below [OF assms(2), of p]
  by (auto simp: post_use_case_def result_simps split: if_splits option.splits)

definition confined_to_roots :: "http_env \<Rightarrow> 's rest_options \<Rightarrow> use_case_call \<Rightarrow> bool" where
  "confined_to_roots env options c \<longleftrightarrow> (\<forall>p. c = InspectProject p \<longrightarrow>
     rest_allowedProjectRoots options \<in> {None, Some []} \<or>
     (\<exists>root \<in> set (the (rest_allowedProjectRoots options)). path_below (env_cwd env) root p))"

lemma rest_use_case_confined:
  "rest_use_case env options request path = Inr (Some c) \<Longrightarrow> isAbsolute (env_cwd env) \<Longrightarrow> confined_to_roots env options c"
  unfolding confined_to_roots_def
  by (auto simp: rest_use_case_def result_simps Let_def map_sum_Some split: if_splits
      dest: post_use_case_inspect)

section \<open>The handler\<close>

text \<open>
  A request is either answered without the application, by an error or the health of the
  server, or by a use case it names, for a principal that holds the grant of that use case, and within the
  allowed roots.
\<close>

definition error_answer :: "http_response result \<Rightarrow> protocol_metadata \<Rightarrow> bool" where
  "error_answer reply meta \<longleftrightarrow> (case reply of Inl e \<Rightarrow> True
     | Inr response \<Rightarrow> (\<exists>e. response = sendJson (pe_status e) (errorEnvelope e meta)))"

definition health_answer :: "http_env \<Rightarrow> 's rest_options \<Rightarrow> http_request \<Rightarrow> http_response result \<Rightarrow> bool" where
  "health_answer env options request reply \<longleftrightarrow>
     reply = Inr (sendJson 200 (okEnvelope health_data (rest_meta request))) \<and>
     requestPath env request = Inr ''/v1/health'' \<and>
     options_authorize options request ''/v1/health'' ''health:read'' ''health'' = Inr ()"

definition answered_alone :: "http_env \<Rightarrow> 's rest_options \<Rightarrow> http_request \<Rightarrow> bool" where
  "answered_alone env options request \<longleftrightarrow> (\<exists>reply.
     (\<forall>app s. rest_handler env (options\<lparr>rest_application := app\<rparr>) request s = (reply, s)) \<and>
     (error_answer reply (rest_meta request) \<or> health_answer env options request reply))"

lemma options_authorize_app [simp]:
  "options_authorize (options\<lparr>rest_application := app\<rparr>) = options_authorize options"
  by (simp add: options_authorize_def fun_eq_iff)

lemma rest_use_case_app [simp]:
  "rest_use_case env (options\<lparr>rest_application := app\<rparr>) = rest_use_case env options"
  unfolding rest_use_case_def post_use_case_def fun_eq_iff options_authorize_app
  by (cases options) (simp only: rest_options.update_convs rest_options.select_convs, simp)

lemma answered_alone_or_target:
  "answered_alone env options request \<or>
    (\<exists>path c. requestPath env request = Inr path \<and> rest_use_case env options request path = Inr (Some c))"
proof (cases "requestPath env request")
  case (Inl e)
  then show ?thesis by (simp add: answered_alone_def rest_handler_def error_answer_def)
next
  case (Inr path)
  let ?error = "\<lambda>e. Inr (sendJson (pe_status e) (errorEnvelope e (rest_meta request))) :: http_response result"
  have error: "error_answer (?error e) (rest_meta request)" for e by (auto simp: error_answer_def)
  consider (health) "rest_use_case env options request path = Inr None"
    | (failed) e where "rest_use_case env options request path = Inl e"
    | (named) c where "rest_use_case env options request path = Inr (Some c)"
    by (cases "rest_use_case env options request path"; cases "projr (rest_use_case env options request path)") auto
  then show ?thesis
  proof cases
    case health
    let ?answer = "Inr (sendJson 200 (okEnvelope health_data (rest_meta request))) :: http_response result"
    have "health_answer env options request ?answer"
      using rest_use_case_health [OF health] Inr by (simp add: health_answer_def)
    moreover have "\<exists>answer. (\<forall>app s. rest_handler env (options\<lparr>rest_application := app\<rparr>) request s = (answer, s)) \<and>
        (answer = ?answer \<or> (\<exists>e. answer = ?error e))"
      using Inr health by (cases "env_late env")
        (auto simp: rest_handler_def rest_operation_target run_target_simps check_def withTimeout_def Let_def)
    ultimately show ?thesis using error unfolding answered_alone_def by blast
  next
    case failed
    then have "\<exists>answer. (\<forall>app s. rest_handler env (options\<lparr>rest_application := app\<rparr>) request s = (answer, s)) \<and>
        (\<exists>e. answer = ?error e)"
      using Inr by (cases "env_late env")
        (auto simp: rest_handler_def rest_operation_target run_target_simps check_def withTimeout_def Let_def)
    then show ?thesis using error unfolding answered_alone_def by blast
  next
    case named
    then show ?thesis using Inr by blast
  qed
qed

text \<open>
  C20: Whatever a request is, either it is answered without the application, by an error or, for a
  principal authorised for \<open>health:read\<close> on \<open>health\<close>, by the health of the server; or it names a use
  case, its principal is authenticated and authorised for exactly the action and the resource that
  use case needs, a project to inspect lies at or below an allowed root where roots are
  configured, and the effect of the request is the effect of that use case.
\<close>

theorem rest_requests_guarded:
  assumes "isAbsolute (env_cwd env)"
  shows "answered_alone env options request \<or>
    (\<exists>path c. requestPath env request = Inr path \<and> granted options request path c \<and> confined_to_roots env options c \<and>
      (\<forall>app s. snd (rest_handler env (options\<lparr>rest_application := app\<rparr>) request s) =
        snd (run_use_case app (rest_meta request) c s)))"
proof (rule disjCI)
  assume "\<not> (\<exists>path c. requestPath env request = Inr path \<and> granted options request path c \<and> confined_to_roots env options c \<and>
      (\<forall>app s. snd (rest_handler env (options\<lparr>rest_application := app\<rparr>) request s) =
        snd (run_use_case app (rest_meta request) c s)))"
  moreover have "snd (rest_handler env (options\<lparr>rest_application := app\<rparr>) request s) = snd (run_use_case app (rest_meta request) c s)"
    if "requestPath env request = Inr path" "rest_use_case env options request path = Inr (Some c)" for path c app s
    using that by (simp add: rest_handler_def rest_operation_target run_target_simps withTimeout_def Let_def split: sum.split)
  ultimately show "answered_alone env options request"
    using answered_alone_or_target [of env options request] rest_use_case_granted rest_use_case_confined assms by meson
qed

section \<open>Envelopes over the wire\<close>

definition plain_answer :: "thrown + json \<Rightarrow> bool" where
  "plain_answer r \<longleftrightarrow> (case r of Inr data \<Rightarrow> plain_json data
     | Inl e \<Rightarrow> (case pe_details (toProtocolError e) of None \<Rightarrow> True | Some d \<Rightarrow> plain_json d))"

lemma plain_meta [simp]: "plain_json (meta_json m)"
  by (cases "meta_correlationId m"; cases "meta_surface m") (simp_all add: meta_json_def opt_member_def)

lemma read_ok_envelope: "plain_json data \<Longrightarrow> readEnvelope (sendJson status (okEnvelope data meta)) = Inr (Some data)"
  by (simp add: readEnvelope_def sendJson_def okEnvelope_def property_of_def members_def lift_error_def)

lemma read_error_envelope:
  assumes "plain_answer (Inl e)"
  shows "readEnvelope (sendJson (pe_status (toProtocolError e)) (errorEnvelope (toProtocolError e) meta)) =
    Inl (Protocol (toProtocolError e))"
proof -
  let ?e = "toProtocolError e"
  have plain: "plain_json (errorEnvelope ?e meta)"
    using assms by (cases "pe_details ?e") (simp_all add: errorEnvelope_def opt_member_def plain_answer_def)
  show ?thesis
    using plain unfolding readEnvelope_def sendJson_def
    by (cases "pe_details ?e"; cases ?e)
      (simp_all add: errorEnvelope_def property_of_def members_def lift_error_def opt_member_def
        message_text_def code_text_def)
qed

text \<open>What an answer of the application is after it went through the handler and a client.\<close>

definition over_wire :: "(thrown + json option) \<times> 's \<Rightarrow> (thrown + json option) \<times> 's" where
  "over_wire r = (case fst r of Inl e \<Rightarrow> Inl (Protocol (toProtocolError e)) | Inr v \<Rightarrow> Inr v, snd r)"

lemma handler_answer:
  assumes "requestPath env request = Inr path" and "rest_use_case env options request path = Inr (Some c)"
    and "\<not> env_late env" and "plain_answer (fst (run_use_case (rest_application options) (rest_meta request) c s))"
  shows "answer (rest_handler env options request s) =
    over_wire (defined_result (run_use_case (rest_application options) (rest_meta request) c s))"
  using assms
  by (cases "fst (run_use_case (rest_application options) (rest_meta request) c s)")
    (simp_all add: rest_handler_def rest_operation_target run_target_simps withTimeout_def answer_def lift_error_def
      over_wire_def defined_result_def read_ok_envelope read_error_envelope plain_answer_def)

section \<open>The requests of the HTTP client\<close>

fun call_segments :: "use_case_call \<Rightarrow> string list" where
  "call_segments CatalogList = [''v1'', ''catalog'', ''connectors'']"
| "call_segments (CatalogGet i) = [''v1'', ''catalog'', ''connectors'', encodeURIComponent i]"
| "call_segments (ConnectorHealth i) = [''v1'', ''connectors'', encodeURIComponent i, ''health'']"
| "call_segments (InspectProject p) = [''v1'', ''projects'', ''inspect'']"
| "call_segments (Route r) = [''v1'', ''routes'']"
| "call_segments (ResolvePolicy r) = [''v1'', ''policy'', ''resolve'']"
| "call_segments (InspectLock r) = [''v1'', ''locks'', ''inspect'']"
| "call_segments (SelectContext r) = [''v1'', ''context'', ''select'']"
| "call_segments (CreatePlan r) = [''v1'', ''plans'']"
| "call_segments (GetEvidence r) = [''v1'', ''evidence'', ''query'']"

fun call_body :: "use_case_call \<Rightarrow> json option" where
  "call_body CatalogList = None"
| "call_body (CatalogGet i) = None"
| "call_body (ConnectorHealth i) = None"
| "call_body (InspectProject p) = Some (JObj [(''path'', JStr p)])"
| "call_body (Route r) = Some r"
| "call_body (ResolvePolicy r) = Some r"
| "call_body (InspectLock r) = Some r"
| "call_body (SelectContext r) = Some r"
| "call_body (CreatePlan r) = Some r"
| "call_body (GetEvidence r) = Some r"

definition correlation_header :: "string option \<Rightarrow> (string \<times> string) list" where
  "correlation_header correlation = (case correlation of None \<Rightarrow> [] | Some i \<Rightarrow> [(''x-soren-correlation-id'', i)])"

definition call_request :: "string \<Rightarrow> string option \<Rightarrow> use_case_call \<Rightarrow> fetch_request" where
  "call_request baseUrl correlation c = (case call_body c of
     None \<Rightarrow> \<lparr>fetch_url = client_base baseUrl @ path_of (call_segments c), fetch_method = ''GET'',
       fetch_headers = correlation_header correlation, fetch_body = None\<rparr>
   | Some body \<Rightarrow> \<lparr>fetch_url = client_base baseUrl @ path_of (call_segments c), fetch_method = ''POST'',
       fetch_headers = (''content-type'', ''application/json'') # correlation_header correlation,
       fetch_body = Some (stringify body)\<rparr>)"

lemma http_client_run:
  "client_run (createHttpClient baseUrl correlation fetch) c s = answer (fetch (call_request baseUrl correlation c) s)"
  by (cases c) (simp_all add: createHttpClient_def client_get_def client_post_def call_request_def path_of_def
      jsonHeaders_def correlation_header_def Let_def)

text \<open>The ids that name no segment of a path cannot be sent.\<close>

definition sendable :: "use_case_call \<Rightarrow> bool" where
  "sendable c \<longleftrightarrow> (\<forall>i. c = CatalogGet i \<or> c = ConnectorHealth i \<longrightarrow> i \<notin> {'''', ''.'', ''..''}) \<and>
     (\<forall>body. call_body c = Some body \<longrightarrow> plain_json body)"

lemma plain_literals:
  "plain_segment ''v1''" "plain_segment ''catalog''" "plain_segment ''connectors''" "plain_segment ''health''"
  "plain_segment ''projects''" "plain_segment ''inspect''" "plain_segment ''routes''" "plain_segment ''policy''"
  "plain_segment ''resolve''" "plain_segment ''locks''" "plain_segment ''context''" "plain_segment ''select''"
  "plain_segment ''plans''" "plain_segment ''evidence''" "plain_segment ''query''"
  by code_simp+

lemma call_segments_plain: "sendable c \<Longrightarrow> call_segments c \<noteq> [] \<and> (\<forall>seg \<in> set (call_segments c). plain_segment seg)"
  by (cases c) (simp_all add: plain_literals encoded_plain sendable_def)

lemma call_path: "sendable c \<Longrightarrow> url_pathname absolute (path_of (call_segments c)) = Inr (path_of (call_segments c))"
  using call_segments_plain by (intro pathname_plain) blast+

section \<open>The requests at the handler\<close>

definition grants_reads :: "'s rest_options \<Rightarrow> bool" where
  "grants_reads options \<longleftrightarrow> (\<forall>request. \<exists>principal.
     (case rest_authenticator options of None \<Rightarrow> AnonymousAuthenticator | Some a \<Rightarrow> a) request = Inr principal \<and>
     (\<forall>action resource. endsWith action '':read'' \<longrightarrow> dec_allowed
       ((case rest_authorizer options of None \<Rightarrow> AllowReadOnlyAuthorizer | Some a \<Rightarrow> a) principal action resource)))"

lemma grants_reads_default: "rest_authenticator options = None \<Longrightarrow> rest_authorizer options = None \<Longrightarrow> grants_reads options"
  by (simp add: grants_reads_def AnonymousAuthenticator_def AllowReadOnlyAuthorizer_def)

lemma grants_reads_authorize:
  assumes "grants_reads options" and "endsWith action '':read''"
  shows "options_authorize options request path action resource = Inr ()"
proof -
  let ?request = "incomingRequest (case req_method request of None \<Rightarrow> ''GET'' | Some m \<Rightarrow> m) path
         [(''content-type'', http_header request ''content-type''),
          (''x-soren-correlation-id'', meta_correlationId (rest_meta request))]"
  obtain principal where principal:
    "(case rest_authenticator options of None \<Rightarrow> AnonymousAuthenticator | Some a \<Rightarrow> a) ?request = Inr principal"
    "\<forall>action resource. endsWith action '':read'' \<longrightarrow> dec_allowed
       ((case rest_authorizer options of None \<Rightarrow> AllowReadOnlyAuthorizer | Some a \<Rightarrow> a) principal action resource)"
    using assms(1) unfolding grants_reads_def by blast
  show ?thesis
    unfolding options_authorize_def authorize_request_def principal(1) chain_simps Let_def
    using principal(2) assms(2) by (simp only: guard_simps simp_thms)
qed

abbreviation seen_request :: "(string \<Rightarrow> string list) \<Rightarrow> string \<Rightarrow> string option \<Rightarrow> use_case_call \<Rightarrow> http_request" where
  "seen_request pieces baseUrl correlation c \<equiv>
     sent_request pieces (path_of (call_segments c)) (call_request baseUrl correlation c)"

lemma seen_meta: "rest_meta (seen_request pieces baseUrl correlation c) =
    \<lparr>meta_correlationId = correlation, meta_surface = Some RestSurface\<rparr>"
  by (cases correlation; cases "call_body c") (simp_all add: rest_meta_def correlationId_def http_header_def sent_request_def call_request_def
      correlation_header_def lower_char_def)

definition body_fits :: "'s rest_options \<Rightarrow> use_case_call \<Rightarrow> bool" where
  "body_fits options c \<longleftrightarrow> (\<forall>body. call_body c = Some body \<longrightarrow> int (length (utf8_encode (stringify body))) \<le>
     (case rest_maxBodyBytes options of None \<Rightarrow> 1048576 | Some n \<Rightarrow> n))"

lemma seen_body:
  assumes "call_body c = Some body" and "sendable c" and "body_fits options c" and "\<forall>x. concat (pieces x) = x"
  shows "readBody (seen_request pieces baseUrl correlation c)
      (case rest_maxBodyBytes options of None \<Rightarrow> 1048576 | Some n \<Rightarrow> n) = Inr body"
proof -
  have content: "json_content (seen_request pieces baseUrl correlation c)"
    using assms(1) by (simp add: json_content_def http_header_def sent_request_def call_request_def lower_char_def
        startsWith_def)
  have "read_chunks (case rest_maxBodyBytes options of None \<Rightarrow> 1048576 | Some n \<Rightarrow> n) False 0 ''''
      (map Chunk (pieces (utf8_encode (stringify body)))) = Inr (utf8_encode (stringify body))"
    using assms by (simp add: read_chunks_pieces body_fits_def)
  then show ?thesis
    using content assms by (simp add: readBody_def sent_request_def call_request_def sendable_def)
qed

definition root_permitted :: "http_env \<Rightarrow> 's rest_options \<Rightarrow> use_case_call \<Rightarrow> bool" where
  "root_permitted env options c \<longleftrightarrow> (\<forall>p. c = InspectProject p \<longrightarrow> assertAllowedProjectRoot (env_cwd env) p
     (case rest_allowedProjectRoots options of None \<Rightarrow> [] | Some rs \<Rightarrow> rs) = Inr ())"

lemma post_use_case_call:
  assumes "call_body c = Some body" and "root_permitted env options c"
  shows "post_use_case env options (path_of (call_segments c)) body = Inr c"
  using assms by (cases c) (auto simp: post_use_case_def path_of_def root_permitted_def body_members_def
      string_member_def lift_error_def)

lemma match_ids:
  assumes "plain_segment seg"
  shows "catalog_match (''/v1/catalog/connectors/'' @ seg) = Some seg"
    and "health_match (''/v1/connectors/'' @ seg @ ''/health'') = Some seg"
proof -
  have seg: "seg \<noteq> ''''" "CHR ''/'' \<notin> set seg" using assms component_char_plain by (auto simp: plain_segment_def)
  then show "catalog_match (''/v1/catalog/connectors/'' @ seg) = Some seg"
    by (simp add: catalog_match_def startsWith_def Let_def)
  have "takeWhile (\<lambda>c. c \<noteq> CHR ''/'') (seg @ ''/health'') = seg"
    using seg(2) by (simp add: takeWhile_append2 takeWhile_append)
  then show "health_match (''/v1/connectors/'' @ seg @ ''/health'') = Some seg"
    using seg by (simp add: health_match_def startsWith_def Let_def)
qed

lemma seen_get:
  assumes "call_body c = None" and "sendable c" and "grants_reads options"
  shows "rest_use_case env options (seen_request pieces baseUrl correlation c) (path_of (call_segments c)) = Inr (Some c)"
proof -
  note allowed = grants_reads_authorize [OF assms(3)]
  have get: "req_method (seen_request pieces baseUrl correlation c) = Some ''GET''"
    using assms(1) by (simp add: sent_request_def call_request_def)
  have reads: "endsWith ''catalog:read'' '':read''" "endsWith ''connector:read'' '':read''"
    by (simp_all add: endsWith_def)
  consider "c = CatalogList" | i where "c = CatalogGet i" | i where "c = ConnectorHealth i"
    using assms(1) by (cases c) auto
  then show ?thesis
  proof cases
    case 1
    have "path_of (call_segments c) = ''/v1/catalog/connectors''" using 1 by (simp add: path_of_def)
    then show ?thesis using get allowed [OF reads(1)] 1 by (simp add: rest_use_case_def)
  next
    case 2
    have plain: "plain_segment (encodeURIComponent i)" using assms(2) 2 by (simp add: sendable_def encoded_plain)
    have path: "path_of (call_segments c) = ''/v1/catalog/connectors/'' @ encodeURIComponent i"
      using 2 by (simp add: path_of_def)
    have match: "catalog_match (path_of (call_segments c)) = Some (encodeURIComponent i)"
      unfolding path by (rule match_ids [OF plain])
    moreover have "path_of (call_segments c) \<noteq> ''/v1/health''" "path_of (call_segments c) \<noteq> ''/v1/catalog/connectors''"
      unfolding path by simp_all
    ultimately show ?thesis unfolding rest_use_case_def Let_def get
      using allowed [OF reads(1)] 2 by (simp only: simp_thms if_False if_True chain_simps option.sel option.simps decoded_def decode_encode sum.simps)
  next
    case 3
    have plain: "plain_segment (encodeURIComponent i)" using assms(2) 3 by (simp add: sendable_def encoded_plain)
    have path: "path_of (call_segments c) = ''/v1/connectors/'' @ encodeURIComponent i @ ''/health''"
      using 3 by (simp add: path_of_def)
    have match: "health_match (path_of (call_segments c)) = Some (encodeURIComponent i)"
      unfolding path by (rule match_ids [OF plain])
    moreover have "catalog_match (path_of (call_segments c)) = None"
      "path_of (call_segments c) \<noteq> ''/v1/health''" "path_of (call_segments c) \<noteq> ''/v1/catalog/connectors''"
      unfolding path by (simp_all add: catalog_match_def startsWith_def)
    ultimately show ?thesis unfolding rest_use_case_def Let_def get
      using allowed [OF reads(2)] 3 by (simp only: simp_thms if_False if_True chain_simps option.sel option.simps decoded_def decode_encode sum.simps)
  qed
qed

lemma seen_post:
  assumes "call_body c = Some body" and "sendable c" and "grants_reads options" and "body_fits options c"
    and "root_permitted env options c" and "\<forall>x. concat (pieces x) = x"
  shows "rest_use_case env options (seen_request pieces baseUrl correlation c) (path_of (call_segments c)) = Inr (Some c)"
proof -
  have post: "req_method (seen_request pieces baseUrl correlation c) = Some ''POST''"
    using assms(1) by (simp add: sent_request_def call_request_def)
  show ?thesis
    unfolding rest_use_case_def Let_def post seen_body [OF assms(1,2,4,6)]
      grants_reads_authorize [OF assms(3) endsWith_append]
    by (simp add: post_use_case_call [OF assms(1,5)])
qed

text \<open>
  C19: A client over HTTP returns what the client in the same process returns, with the same effect:
  the same data, and of an error its protocol error. This holds for every call whose id names a path
  segment and whose body is JSON within the size limit and the allowed roots, however the network
  cuts the body, where the server grants reads, is in time, and the application gives the
  same plain answer on both surfaces.
\<close>

theorem http_client_matches:
  assumes "sendable c" and "body_fits options c" and "root_permitted env options c" and "grants_reads options"
    and "\<not> env_late env" and "\<forall>x. concat (pieces x) = x"
    and "run_use_case (rest_application options) in_process_meta c s =
      run_use_case (rest_application options) \<lparr>meta_correlationId = correlation, meta_surface = Some RestSurface\<rparr> c s"
    and "plain_answer (fst (run_use_case (rest_application options) in_process_meta c s))"
  shows "client_run (createSorenClient (Http baseUrl correlation
      (served_by (client_base baseUrl) pieces absolute (rest_handler env options)))) c s =
    over_wire (client_run (createSorenClient (InProcess (rest_application options))) c s)"
proof -
  let ?request = "seen_request pieces baseUrl correlation c"
  have seen: "rest_use_case env options ?request (path_of (call_segments c)) = Inr (Some c)"
    using seen_get seen_post assms by (cases "call_body c") blast+
  have url: "fetch_url (call_request baseUrl correlation c) = client_base baseUrl @ path_of (call_segments c)"
    by (simp add: call_request_def split: option.split)
  have path: "requestPath env ?request = Inr (path_of (call_segments c))"
    by (simp add: requestPath_def sent_request_def call_path [OF assms(1)])
  have "client_run (createSorenClient (Http baseUrl correlation
      (served_by (client_base baseUrl) pieces absolute (rest_handler env options)))) c s = answer (rest_handler env options ?request s)"
    by (simp add: createSorenClient_def http_client_run served_by_def url call_path [OF assms(1)])
  also have "\<dots> = over_wire (defined_result (run_use_case (rest_application options) in_process_meta c s))"
    using handler_answer [OF path seen assms(5), of s] assms(7,8) by (simp add: seen_meta)
  finally show ?thesis by (simp add: createSorenClient_def in_process_run)
qed

section \<open>Bounds of a body\<close>

text \<open>A body that is accepted fits the limit, however it arrived.\<close>

lemma read_chunks_bound:
  "read_chunks maxBodyBytes aborted n chunks events = Inr bytes \<Longrightarrow> int (length chunks) = n \<Longrightarrow> n \<le> maxBodyBytes \<Longrightarrow>
    int (length bytes) \<le> maxBodyBytes"
  by (induction maxBodyBytes aborted n chunks events rule: read_chunks.induct)
    (auto simp: Let_def split: if_splits)

section \<open>Digests of envelopes\<close>

text \<open>
  The digest the surfaces are compared by depends on the data alone, and two envelopes with the
  same digest carry the same data up to the order of keys and the transport metadata in it.
\<close>

lemma strip_envelope: "stripTransportMetadata (okEnvelope data meta) = JObj [(''schemaVersion'', JStr ''1.0.0-draft.1''),
    (''ok'', JBool True), (''data'', stripTransportMetadata data)]"
  by (simp add: okEnvelope_def)

lemma protocol_digest_transport_free:
  "canonicalProtocolDigest sha (okEnvelope data m) = canonicalProtocolDigest sha (okEnvelope data m')"
  by (simp add: canonicalProtocolDigest_def strip_envelope)

section \<open>The tools\<close>

text \<open>
  C21: Every use case with an object as its request can be called as a tool, with exactly the effect and
  answer of the application, and every tool call is either answered without the application or
  is a use case of a listed read-only tool under a supported protocol version.
\<close>

theorem mcp_tools_are_use_cases:
  "(\<forall>c. object_body c \<longrightarrow> mcp_callTool (createMcpSurface app) (mcp_request_of correlation c) s =
      run_use_case app (mcp_meta correlation) c s) \<and>
   ((\<exists>answer. \<forall>app s. mcp_callTool (createMcpSurface app) request s = (answer, s)) \<or>
    (\<exists>c. \<exists>tool \<in> set (mcp_tools (createMcpSurface app)). mtool_readOnly tool \<and> mtool_name tool = mreq_toolName request \<and>
      mreq_protocolVersion request \<in> set (mcp_protocolVersions (createMcpSurface app)) \<and>
      (\<forall>app s. mcp_callTool (createMcpSurface app) request s =
        run_use_case app (mcp_meta (mreq_correlationId request)) c s)))"
proof (intro conjI allI impI)
  show "mcp_callTool (createMcpSurface app) (mcp_request_of correlation c) s = run_use_case app (mcp_meta correlation) c s"
    if "object_body c" for c
    using mcp_use_case_request [OF that] by (simp add: mcp_call_use_case) (simp add: mcp_request_of_def)
  show "(\<exists>answer. \<forall>app s. mcp_callTool (createMcpSurface app) request s = (answer, s)) \<or>
    (\<exists>c. \<exists>tool \<in> set (mcp_tools (createMcpSurface app)). mtool_readOnly tool \<and> mtool_name tool = mreq_toolName request \<and>
      mreq_protocolVersion request \<in> set (mcp_protocolVersions (createMcpSurface app)) \<and>
      (\<forall>app s. mcp_callTool (createMcpSurface app) request s =
        run_use_case app (mcp_meta (mreq_correlationId request)) c s))"
  proof (cases "mcp_use_case request")
    case (Inl e)
    then show ?thesis by (simp add: mcp_call_use_case)
  next
    case (Inr c)
    have name: "mreq_toolName request \<in> mtool_name ` set toolDescriptions" using mcp_tools_cover [OF Inr] by simp
    then obtain tool where tool: "tool \<in> set toolDescriptions" "mtool_name tool = mreq_toolName request" by auto
    then have "mtool_readOnly tool" by (auto simp: toolDescriptions_def mcp_tool_entry_def)
    moreover have "mreq_protocolVersion request \<in> set SUPPORTED_MCP_PROTOCOL_VERSIONS"
      using Inr by (auto simp: mcp_use_case_def assertVersion_def result_simps)
    moreover have "\<forall>app s. mcp_callTool (createMcpSurface app) request s =
        run_use_case app (mcp_meta (mreq_correlationId request)) c s"
      using Inr by (simp add: mcp_call_use_case)
    moreover have "mcp_tools (createMcpSurface app) = toolDescriptions"
      "mcp_protocolVersions (createMcpSurface app) = SUPPORTED_MCP_PROTOCOL_VERSIONS"
      by (simp_all add: createMcpSurface_def)
    ultimately show ?thesis using tool by (intro disjI2 exI [of _ c] bexI [of _ tool] conjI) simp_all
  qed
qed

section \<open>Examples\<close>

definition sample_catalog :: "unit catalog_provider" where
  "sample_catalog = \<lparr>prov_listConnectors = check (Inr (JArr [])),
     prov_getConnector = (\<lambda>i. check (Inr (Some (JObj [(''directoryId'', JStr i)])))),
     prov_getConnectorHealth = (\<lambda>i. check (Inr (JStr ''healthy''))), prov_createSnapshot = check (Inr JNull)\<rparr>"

definition sample_application :: "unit soren_application" where
  "sample_application = createSorenApplication (\<lambda>s. s) \<lparr>opt_catalog = sample_catalog,
     opt_projectInspector = (\<lambda>path createdAt meta. check (Inr (JObj [(''root'', JStr path)]))),
     opt_policyProvider = None, opt_contextProvider = None, opt_planProvider = None\<rparr>"

definition sample_rest :: "unit rest_options" where
  "sample_rest = \<lparr>rest_application = sample_application, rest_authenticator = None, rest_authorizer = None,
     rest_allowedProjectRoots = Some [''/repo''], rest_maxBodyBytes = None, rest_timeoutMs = None\<rparr>"

definition sample_env :: http_env where
  "sample_env = \<lparr>env_cwd = ''/'', env_absolute_url = (\<lambda>u. Inl (TypeError ''Invalid URL'')), env_late = False\<rparr>"

theorem rest_requests_guarded_witness:
  "answered_alone sample_env sample_rest (seen_request (\<lambda>x. [x]) ''http://h'' None (InspectProject ''/repo/app'')) \<or>
    (\<exists>path c. requestPath sample_env (seen_request (\<lambda>x. [x]) ''http://h'' None (InspectProject ''/repo/app'')) = Inr path \<and>
      granted sample_rest (seen_request (\<lambda>x. [x]) ''http://h'' None (InspectProject ''/repo/app'')) path c \<and>
      confined_to_roots sample_env sample_rest c \<and>
      (\<forall>app s. snd (rest_handler sample_env (sample_rest\<lparr>rest_application := app\<rparr>)
          (seen_request (\<lambda>x. [x]) ''http://h'' None (InspectProject ''/repo/app'')) s) =
        snd (run_use_case app (rest_meta (seen_request (\<lambda>x. [x]) ''http://h'' None (InspectProject ''/repo/app''))) c s)))"
  by (rule rest_requests_guarded) (simp add: sample_env_def)

theorem mcp_tools_are_use_cases_witness:
  "object_body (CatalogGet ''web'') \<and>
   mcp_callTool (createMcpSurface sample_application) (mcp_request_of None (CatalogGet ''web'')) () =
    (Inr (JObj [(''connector'', JObj [(''directoryId'', JStr ''web'')])]), ())"
proof
  show body: "object_body (CatalogGet ''web'')" by (simp add: object_body_def)
  have "mcp_callTool (createMcpSurface sample_application) (mcp_request_of None (CatalogGet ''web'')) () =
      run_use_case sample_application (mcp_meta None) (CatalogGet ''web'') ()"
    using mcp_tools_are_use_cases body by metis
  also have "\<dots> = (Inr (JObj [(''connector'', JObj [(''directoryId'', JStr ''web'')])]), ())"
    by code_simp
  finally show "mcp_callTool (createMcpSurface sample_application) (mcp_request_of None (CatalogGet ''web'')) () =
    (Inr (JObj [(''connector'', JObj [(''directoryId'', JStr ''web'')])]), ())" .
qed

lemma sample_inspect: "run_use_case sample_application meta (InspectProject p) s =
    (Inr (JObj [(''project'', JObj [(''root'', JStr p)])]), s)"
  by (simp add: sample_application_def createSorenApplication_def Let_def check_def)

lemma sample_wire: "sendable (InspectProject ''/repo/app'')" "body_fits sample_rest (InspectProject ''/repo/app'')"
    "root_permitted sample_env sample_rest (InspectProject ''/repo/app'')" "grants_reads sample_rest" "\<not> env_late sample_env"
proof -
  have "length (utf8_encode (stringify (JObj [(''path'', JStr ''/repo/app'')]))) = 20" by code_simp
  then show "body_fits sample_rest (InspectProject ''/repo/app'')" by (simp add: body_fits_def sample_rest_def)
  have "assertAllowedProjectRoot ''/'' ''/repo/app'' [''/repo''] = Inr ()" by code_simp
  then show "root_permitted sample_env sample_rest (InspectProject ''/repo/app'')"
    by (simp add: root_permitted_def sample_rest_def sample_env_def)
qed (simp_all add: sendable_def grants_reads_default sample_rest_def sample_env_def)

theorem http_client_matches_witness:
  "client_run (createSorenClient (Http ''http://h/'' (Some ''r1'')
      (served_by (client_base ''http://h/'') (map (\<lambda>c. [c])) Inr (rest_handler sample_env sample_rest))))
      (InspectProject ''/repo/app'') () =
    over_wire (client_run (createSorenClient (InProcess (rest_application sample_rest))) (InspectProject ''/repo/app'') ())"
proof (rule http_client_matches [OF sample_wire])
  show "\<forall>x. concat (map (\<lambda>c. [c]) x) = x" by (simp add: concat_map_singleton)
  have app: "rest_application sample_rest = sample_application" by (simp add: sample_rest_def)
  show "run_use_case (rest_application sample_rest) in_process_meta (InspectProject ''/repo/app'') () =
      run_use_case (rest_application sample_rest) \<lparr>meta_correlationId = Some ''r1'', meta_surface = Some RestSurface\<rparr>
        (InspectProject ''/repo/app'') ()"
    unfolding app sample_inspect ..
  show "plain_answer (fst (run_use_case (rest_application sample_rest) in_process_meta (InspectProject ''/repo/app'') ()))"
    unfolding app sample_inspect by (simp add: plain_answer_def)
qed

section \<open>Where the surfaces differ\<close>

text \<open>A target the URL parser rejects is never answered: the handler itself throws.\<close>

theorem invalid_target_unanswered:
  "requestPath env request = Inl e \<Longrightarrow> rest_handler env options request s = (Inl e, s)"
  by (simp add: rest_handler_def)

text \<open>An allowed root \<open>/\<close> allows nothing below it.\<close>

theorem slash_root_denies: "assertAllowedProjectRoot ''/'' ''/repo'' [''/''] = Inl root_denied"
  by code_simp

text \<open>Asked for the health of the connector \<open>..\<close>, the HTTP client returns the health of the server.\<close>

theorem parent_id_server_health:
  "client_run (createHttpClient ''http://h'' None
      (served_by ''http://h'' (\<lambda>x. [x]) Inr (rest_handler sample_env sample_rest))) (ConnectorHealth ''..'') () =
    (Inr (Some health_data), ())"
proof -
  have base: "client_base ''http://h'' = ''http://h''" by code_simp
  have url: "url_pathname Inr ''/v1/connectors/../health'' = Inr ''/v1/health''"
    "url_pathname absolute ''/v1/health'' = Inr ''/v1/health''" for absolute
    by code_simp+
  let ?request = "sent_request (\<lambda>x. [x]) ''/v1/health'' (call_request ''http://h'' None (ConnectorHealth ''..''))"
  have request: "fetch_url (call_request ''http://h'' None (ConnectorHealth ''..'')) = ''http://h/v1/connectors/../health''"
    by code_simp
  have "client_run (createHttpClient ''http://h'' None
      (served_by ''http://h'' (\<lambda>x. [x]) Inr (rest_handler sample_env sample_rest))) (ConnectorHealth ''..'') () =
    answer (rest_handler sample_env sample_rest ?request ())"
    unfolding http_client_run served_by_def request by (simp add: startsWith_def url)
  moreover have path: "requestPath sample_env ?request = Inr ''/v1/health''"
    by (simp add: requestPath_def sent_request_def url)
  moreover have "options_authorize sample_rest ?request ''/v1/health'' ''health:read'' ''health'' = Inr ()"
    by (rule grants_reads_authorize [OF sample_wire(4)]) (simp add: endsWith_def)
  then have "rest_use_case sample_env sample_rest ?request ''/v1/health'' = Inr None"
    by (simp add: rest_use_case_def sent_request_def call_request_def)
  moreover have "plain_json health_data" by (simp add: health_data_def)
  ultimately show ?thesis
    by (simp add: rest_handler_def rest_operation_target run_target_simps withTimeout_def answer_def lift_error_def
        read_ok_envelope sample_env_def check_def)
qed

end
