(* ===== verification/Spec2Isabelle.thy ===== *)
theory Spec2Isabelle
  imports Route_Plan Policy_Resolver Context_Gateway Grant_Store Audit_Log Lockfile Config_Correctness Evidence_Correctness Gateway_Safety Catalog_Correctness Snapshot_Store Sqlite_Stores Sqlite_Audit Protocol_Correctness
begin

text \<open>
  The Soren SDK decides which provider of UI capabilities (connectors for design systems, motion and
  the like) a project may use, under layered policies, and plans, applies and verifies the changes
  that follow. This development models the packages under \<open>src/packages\<close> that take these decisions
  and keep their state, and proves what each promises.
\<close>

section \<open>The parts and how they meet\<close>

text \<open>
  Contracts (\<open>contracts\<close>) are the persisted data of every other part; content is identified by the
  digest of its canonical JSON. The catalogue (\<open>connectors\<close>, \<open>core/src/catalog\<close>) reads connector
  manifests from disk. The configuration (\<open>config\<close>) finds and parses policy and configuration files
  and folds their layers to one policy, which can only become tighter. The router
  (\<open>core/src/router\<close>) takes a request, a project, the catalogue and the policy and chooses providers.
  The planner (\<open>planner\<close>) turns a route into an execution plan, the apply service (\<open>apply\<close>) runs an
  approved plan in a sandbox (\<open>sandbox\<close>) or undoes it, and verification and evidence
  (\<open>verification\<close>, \<open>evidence\<close>) record which checks of the plan passed. Agents reach tools through
  the read-only gateway (\<open>core/src/read-only-gateway.ts\<close>), which charges every call to a run grant
  (\<open>run-grants.ts\<close>, in memory or in SQLite) and logs it in a chained audit log (\<open>audit.ts\<close>,
  \<open>sqlite-audit.ts\<close>). The application facade (\<open>application\<close>) offers use cases over HTTP, MCP and an
  SDK client (\<open>protocol-server\<close>, \<open>sdk\<close>).
\<close>

section \<open>The theories\<close>

text \<open>
  Language and platform. \<open>Js_Prelude\<close> (exceptions as sums, loops, sets, maps, sorting),
  \<open>Js_String\<close>, \<open>Js_Effects\<close> (methods that mutate and may throw), \<open>Posix_Path\<close> (\<open>node:path\<close>),
  \<open>Utf8\<close>, \<open>Json_Parse\<close>, \<open>Json_Strings\<close>, \<open>Uri_Component\<close> and \<open>Web_Platform\<close> (JSON,
  percent-encoding, UTF-8, URL paths, each with its round trip). They model what the sources use of the language.

  Contracts. \<open>Canonical_Json\<close> (\<open>canonical-json\<close>, \<open>digests\<close>: equal digests mean equal values up to
  the order of keys), \<open>Contracts_Types\<close>, \<open>Plan_Types\<close>, \<open>Contracts_Validation\<close>,
  \<open>Connector_Semantics\<close> (\<open>validation/semantic.ts\<close>).

  Catalogue. \<open>Catalog_Types\<close>, \<open>Connector_Health\<close>, \<open>Connector_Catalog\<close>, \<open>Catalog_Correctness\<close>,
  \<open>Snapshot_Store\<close>: lists are checked, cached and free of duplicates, a snapshot id identifies the
  catalogue, and the store refines a closable map of snapshots.

  Configuration. \<open>Config_Parse\<close>, \<open>Config_Files\<close>, \<open>Config_Reader\<close>, \<open>Config_Correctness\<close>,
  \<open>Policy_Resolver\<close>, \<open>Lockfile\<close>: parsed documents are plain whatever a parser delivers, shared and
  cyclic objects included, the search for a workspace policy ends,
  resolution refines an abstract tighten-only posture, and a lock digest binds the lock.

  Router. \<open>Semver\<close>, \<open>Router_Policy\<close>, \<open>Candidates\<close>, \<open>Ownership\<close>, \<open>Rank\<close>, \<open>Explain\<close>,
  \<open>Route_Capabilities\<close>, \<open>Route_Correctness\<close>, \<open>Route_Plan\<close>, with examples in \<open>Router_Fixtures\<close>: a
  selection is eligible, covers the required capabilities and is the best of the sufficient routes that
  represent an architecture. The first route of an architecture represents it, not the best.

  Plans. \<open>Plan_Json\<close>, \<open>Planner\<close>, \<open>Planner_Correctness\<close>; \<open>Evidence\<close>, \<open>Evidence_Correctness\<close>: which
  inputs make a plan, that it does not depend on presentation where the sort keys of its entries do not
  collate equal, and that a passed check is proven.

  Apply. \<open>Sandbox_Paths\<close>, \<open>Memory_Sandbox\<close>, \<open>Sandbox_Snapshot\<close>, \<open>Apply_Checks\<close>,
  \<open>Apply_Service\<close>, \<open>Apply_Correctness\<close>, \<open>Apply_Memory\<close>, \<open>Apply_Runs\<close>, \<open>Apply_Safety\<close>: paths
  stay in the sandbox, the sandbox refines a map of files, a run is authorised, uses its approval once,
  is all or nothing and is applied where its operations can be made. A preparation is frozen only at
  its surface: \<open>service_run\<close> is the calls of callers that leave the shared objects alone,
  \<open>caller_run\<close> adds callers that write to them between calls. The service relies on a sandbox through the locale \<open>sandbox_interface\<close>.

  Agents. \<open>Context_Gateway\<close>, \<open>Run_Grants\<close>, \<open>Grant_Store\<close>, \<open>Audit_Log\<close>, \<open>Tool_Gateway\<close>,
  \<open>Gateway_Safety\<close>, and the SQLite forms \<open>Sqlite_Grants\<close>, \<open>Sqlite_Correctness\<close>, \<open>Sqlite_Stores\<close>,
  \<open>Sqlite_Audit\<close>. The locale \<open>grant_repository\<close> is the contract of a repository; the in-memory one
  and the SQLite one are its interpretations, and the results on quotas and on the life of a grant hold for both.
  Gateway calls are split at their awaits, and the invariants hold over every interleaving
  with a kill, aborts and other users of the store.

  Surfaces. \<open>Protocol_Application\<close>, \<open>Rest_Router\<close>, \<open>Mcp_Surface\<close>, \<open>Sdk_Client\<close>,
  \<open>Protocol_Correctness\<close>: no request reaches the application without the grant its use case needs or
  outside the allowed roots, and the surfaces return what the application returns.
\<close>

section \<open>How the model reads\<close>

text \<open>
  An interface or class is a record, a union of literals a datatype, a function a definition of the
  same name. A throw is \<open>Inl\<close>; a method that mutates takes and returns the state. A string is
  a list of code units below 256, a number an integer. What lies outside the sources is an argument:
  SHA-256 (\<open>sha\<close>), \<open>localeCompare\<close> (\<open>lc\<close>), \<open>Date.parse\<close> (\<open>parse\<close>), clocks, random identifiers,
  \<open>node:fs\<close>, Ajv's validators, \<open>JSON.parse\<close> where the configuration uses it, the YAML parser (which
  delivers any value, with shared objects in a heap), tool providers. Where a result needs one of
  them to behave, its hypothesis says so (no collision of the digests, a collation that is a total
  preorder) and a witness instantiates it. A lone asynchronous operation is one step; where others may come
  between its parts it is several.

  Bounds. The walk to the deepest existing ancestor in \<open>Sandbox_Paths\<close> makes at most 256 steps
  and \<open>walk\<close> in \<open>Sandbox_Snapshot\<close> descends 129 levels: both are limits of the code. The search of
  \<open>Config_Reader\<close> ends because \<open>dirname\<close> lowers \<open>path_depth\<close>. The JSON parser recurses on twice
  the length of the text and two, and \<open>parse_printed\<close> shows that this is enough for every printed value.
  \<open>rejectUnsafeKeys\<close> has the calls of the host's stack, \<open>call_stack\<close>, and throws the \<open>RangeError\<close> of an
  exhausted stack on values nested more deeply; the other recursions over values are on finite trees.
\<close>

section \<open>Not modelled\<close>

text \<open>
  The project inspector (\<open>core/src/inspector\<close>) reads a project from disk; the snapshot it makes is an
  input of the router. \<open>core/src/planning-evidence.ts\<close> holds a second, smaller form of the planner and of the
  ingestion of evidence. The sandbox in a temporary directory and the isolation fakes act on the
  host's file system, the SQLite snapshot store on a table behind the interface of the store
  in memory. The schemas, their registry and the table of migrations are data and look-ups. The command
  line (\<open>cli\<close>) parses arguments and prints what the modelled services return. Of the application,
  \<open>createDefaultSorenApplication\<close>, which wires it to the disk, is left out. Callers of the apply
  service write to shared objects between its calls only, not while a run waits.
\<close>

end
